(* ===== verification/Prelude.thy ===== *)
theory Prelude
  imports Main "HOL-Library.Word"
begin

text \<open>
  Shared ground of the development: the parts of Go and of its standard library that the
  modelled packages use (byte strings, \<open>strings\<close>, \<open>strconv\<close>, \<open>path/filepath\<close>, \<open>time\<close>),
  the type of computations that may panic, and the generic lemmas on lists and options that
  the component theories share.

  A Go string is a byte string, a HOL \<open>string\<close> whose characters are bytes; \<open>len\<close> is
  \<open>length\<close>. A nil pointer or a nil map is \<open>None\<close>. A Go \<open>map[string]bool\<close> used as a set is the
  list of its keys. A \<open>time.Time\<close> is the number of nanoseconds since January 1 of year 1 UTC
  (so the zero time is 0), a \<open>time.Duration\<close> a number of nanoseconds.
\<close>

named_theorems go_str \<open>definitions of the string functions, for evaluation\<close>
named_theorems go_time \<open>definitions of the clock functions\<close>

section \<open>Computations that may panic\<close>

datatype 'a go = Ret 'a | Panic

definition returns :: "'a go \<Rightarrow> bool" where
  "returns m \<longleftrightarrow> m \<noteq> Panic"

lemma returns_simps [simp]: "returns (Ret x)" "\<not> returns Panic"
  by (simp_all add: returns_def)

lemma returns_iff: "returns m \<longleftrightarrow> (\<exists>x. m = Ret x)"
  by (cases m) auto

section \<open>Computations that may return an error\<close>

text \<open>
  A Go error made by \<open>errors.New\<close> or \<open>fmt.Errorf\<close>: the text of its format and its arguments,
  and, when it wraps another with \<open>%w\<close>, that error.
\<close>

datatype goerr = Err string "string list" | Wrap string "string list" goerr

text \<open>\<open>Inl\<close> is the error of an early return, \<open>Inr\<close> the value of a function that went through.\<close>

definition try_bind :: "'e + 'a \<Rightarrow> ('a \<Rightarrow> 'e + 'b) \<Rightarrow> 'e + 'b" where
  "try_bind m f = (case m of Inl e \<Rightarrow> Inl e | Inr x \<Rightarrow> f x)"

lemma try_bind_simps [simp]: "try_bind (Inl e) f = Inl e" "try_bind (Inr x) f = f x"
  by (simp_all add: try_bind_def)

lemma try_bind_Inr [simp]: "try_bind m f = Inr y \<longleftrightarrow> (\<exists>x. m = Inr x \<and> f x = Inr y)"
  by (cases m) auto

text \<open>A loop over a list that stops at the first error and collects the results.\<close>

fun try_map :: "('a \<Rightarrow> 'e + 'b) \<Rightarrow> 'a list \<Rightarrow> 'e + 'b list" where
  "try_map f [] = Inr []"
| "try_map f (x # xs) = try_bind (f x) (\<lambda>y. try_bind (try_map f xs) (\<lambda>ys. Inr (y # ys)))"

lemma try_map_Inr:
  "try_map f xs = Inr ys \<longleftrightarrow> length ys = length xs \<and> (\<forall>i < length xs. f (xs ! i) = Inr (ys ! i))"
proof (induction xs arbitrary: ys)
  case Nil
  then show ?case by auto
next
  case (Cons x xs)
  show ?case
  proof (cases ys)
    case Nil
    then show ?thesis by auto
  next
    case (Cons y zs)
    then show ?thesis using Cons.IH[of zs] by (auto simp: less_Suc_eq_0_disj)
  qed
qed

lemma try_map_Inr_set:
  assumes "try_map f xs = Inr ys" "y \<in> set ys"
  shows "\<exists>x \<in> set xs. f x = Inr y"
  using assms by (metis in_set_conv_nth try_map_Inr)

lemma try_map_Inr_set':
  assumes "try_map f xs = Inr ys" "x \<in> set xs"
  shows "\<exists>y \<in> set ys. f x = Inr y"
  using assms by (auto simp: try_map_Inr in_set_conv_nth)

section \<open>Lists\<close>

text \<open>\<open>first_some f xs\<close> is the loop that returns the first success of \<open>f\<close>.\<close>

fun first_some :: "('a \<Rightarrow> 'b option) \<Rightarrow> 'a list \<Rightarrow> 'b option" where
  "first_some f [] = None"
| "first_some f (x # xs) = (case f x of Some y \<Rightarrow> Some y | None \<Rightarrow> first_some f xs)"

lemma first_some_cong [fundef_cong]:
  "xs = ys \<Longrightarrow> (\<And>x. x \<in> set ys \<Longrightarrow> f x = g x) \<Longrightarrow> first_some f xs = first_some g ys"
proof -
  have "(\<And>x. x \<in> set ys \<Longrightarrow> f x = g x) \<Longrightarrow> first_some f ys = first_some g ys"
    by (induction ys) (auto split: option.splits)
  then show "xs = ys \<Longrightarrow> (\<And>x. x \<in> set ys \<Longrightarrow> f x = g x) \<Longrightarrow> first_some f xs = first_some g ys"
    by simp
qed

lemma first_some_Some:
  "first_some f xs = Some y \<Longrightarrow> \<exists>x \<in> set xs. f x = Some y"
  by (induction xs) (auto split: option.splits)

lemma first_some_None:
  "first_some f xs = None \<longleftrightarrow> (\<forall>x \<in> set xs. f x = None)"
  by (induction xs) (auto split: option.splits)

text \<open>\<open>index_of\<close> is the loop that returns the position of the first element that satisfies \<open>P\<close>.\<close>

fun index_of :: "('a \<Rightarrow> bool) \<Rightarrow> 'a list \<Rightarrow> nat option" where
  "index_of P [] = None"
| "index_of P (x # xs) = (if P x then Some 0 else map_option Suc (index_of P xs))"

lemma index_of_Some:
  "index_of P xs = Some i \<longleftrightarrow> i < length xs \<and> P (xs ! i) \<and> (\<forall>j < i. \<not> P (xs ! j))"
proof (induction xs arbitrary: i)
  case Nil
  then show ?case by simp
next
  case (Cons x xs)
  show ?case
  proof (cases i)
    case 0
    then show ?thesis by auto
  next
    case (Suc k)
    then show ?thesis using Cons[of k] by (auto simp: less_Suc_eq_0_disj)
  qed
qed

lemma index_of_None: "index_of P xs = None \<longleftrightarrow> (\<forall>x \<in> set xs. \<not> P x)"
  by (induction xs) auto

text \<open>Removing position \<open>i\<close>: Go's \<open>append(xs[:i], xs[i+1:]...)\<close>.\<close>

definition remove_at :: "nat \<Rightarrow> 'a list \<Rightarrow> 'a list" where
  "remove_at i xs = take i xs @ drop (Suc i) xs"

lemma set_remove_at_subset: "set (remove_at i xs) \<subseteq> set xs"
  by (auto simp: remove_at_def dest: in_set_takeD in_set_dropD)

lemma length_remove_at [simp]: "i < length xs \<Longrightarrow> length (remove_at i xs) = length xs - 1"
  by (simp add: remove_at_def)

lemma distinct_remove_at: "distinct (map f xs) \<Longrightarrow> distinct (map f (remove_at i xs))"
proof -
  assume d: "distinct (map f xs)"
  have "map f (remove_at i xs) = remove_at i (map f xs)"
    by (simp add: remove_at_def take_map drop_map)
  moreover have "distinct (remove_at i (map f xs))"
    using d set_take_disj_set_drop_if_distinct[of "map f xs" i "Suc i"]
    by (simp add: remove_at_def)
  ultimately show ?thesis by simp
qed

section \<open>Strings\<close>

text \<open>\<open>strings.HasPrefix\<close>, \<open>strings.CutPrefix\<close>, \<open>strings.TrimPrefix\<close>, \<open>strings.CutSuffix\<close>.\<close>

definition has_prefix :: "string \<Rightarrow> string \<Rightarrow> bool" where
  [go_str]: "has_prefix s p \<longleftrightarrow> take (length p) s = p"

definition cut_prefix :: "string \<Rightarrow> string \<Rightarrow> string option" where
  [go_str]: "cut_prefix s p = (if has_prefix s p then Some (drop (length p) s) else None)"

definition trim_prefix :: "string \<Rightarrow> string \<Rightarrow> string" where
  [go_str]: "trim_prefix s p = (if has_prefix s p then drop (length p) s else s)"

definition has_suffix :: "string \<Rightarrow> string \<Rightarrow> bool" where
  [go_str]: "has_suffix s p \<longleftrightarrow> length p \<le> length s \<and> drop (length s - length p) s = p"

definition cut_suffix :: "string \<Rightarrow> string \<Rightarrow> string option" where
  [go_str]: "cut_suffix s p = (if has_suffix s p then Some (take (length s - length p) s) else None)"

lemma has_prefix_iff: "has_prefix s p \<longleftrightarrow> (\<exists>t. s = p @ t)"
  unfolding has_prefix_def by (metis append_eq_conv_conj append_take_drop_id)

lemma has_prefix_simps [simp]:
  "has_prefix s []" "\<not> has_prefix [] (d # p)"
  "has_prefix (c # s) (d # p) \<longleftrightarrow> c = d \<and> has_prefix s p"
  by (simp_all add: has_prefix_def)

lemma cut_prefix_Some: "cut_prefix s p = Some t \<longleftrightarrow> s = p @ t"
  by (auto simp: cut_prefix_def has_prefix_iff)

lemma has_suffix_iff: "has_suffix s p \<longleftrightarrow> (\<exists>t. s = t @ p)"
proof
  assume "has_suffix s p"
  then have "s = take (length s - length p) s @ p"
    unfolding has_suffix_def by (metis append_take_drop_id)
  then show "\<exists>t. s = t @ p" by blast
qed (auto simp: has_suffix_def)

lemma cut_suffix_Some: "cut_suffix s p = Some t \<longleftrightarrow> s = t @ p"
  by (auto simp: cut_suffix_def has_suffix_iff)

text \<open>\<open>strings.Contains\<close>.\<close>

fun contains :: "string \<Rightarrow> string \<Rightarrow> bool" where
  "contains [] sub = (sub = [])"
| "contains (c # s) sub = (has_prefix (c # s) sub \<or> contains s sub)"

lemma contains_iff: "contains s sub \<longleftrightarrow> (\<exists>a b. s = a @ sub @ b)"
proof (induction s)
  case Nil
  then show ?case by simp
next
  case (Cons c s)
  show ?case
  proof
    assume "contains (c # s) sub"
    then consider "has_prefix (c # s) sub" | "contains s sub" by auto
    then show "\<exists>a b. c # s = a @ sub @ b"
    proof cases
      case 1
      then obtain t where "c # s = [] @ sub @ t" by (auto simp: has_prefix_iff)
      then show ?thesis by blast
    next
      case 2
      then obtain a b where "c # s = (c # a) @ sub @ b" using Cons by auto
      then show ?thesis by blast
    qed
  next
    assume "\<exists>a b. c # s = a @ sub @ b"
    then obtain a b where ab: "c # s = a @ sub @ b" by blast
    show "contains (c # s) sub"
    proof (cases a)
      case Nil
      with ab have "has_prefix (c # s) sub" by (auto simp: has_prefix_iff)
      then show ?thesis by simp
    next
      case (Cons x a')
      with ab have "s = a' @ sub @ b" by simp
      then show ?thesis using Cons.IH by auto
    qed
  qed
qed

lemma contains_empty [simp]: "contains s []"
  by (auto simp: contains_iff)

text \<open>\<open>strings.Cut\<close> at a one-byte separator: the text before and after its first occurrence.\<close>

fun cut :: "string \<Rightarrow> char \<Rightarrow> (string \<times> string) option" where
  "cut [] sep = None"
| "cut (c # s) sep =
     (if c = sep then Some ([], s) else map_option (\<lambda>(a, b). (c # a, b)) (cut s sep))"

lemma cut_Some: "cut s sep = Some (a, b) \<longleftrightarrow> s = a @ sep # b \<and> sep \<notin> set a"
proof (induction s arbitrary: a)
  case Nil
  then show ?case by simp
next
  case (Cons c s)
  show ?case
  proof (cases a)
    case Nil
    then show ?thesis by auto
  next
    case (Cons x a')
    then show ?thesis using Cons.IH[of a'] by auto
  qed
qed

lemma cut_None: "cut s sep = None \<longleftrightarrow> sep \<notin> set s"
  by (induction s) auto

text \<open>\<open>strings.Split\<close> at a one-byte separator, and \<open>strings.Join\<close>.\<close>

fun split :: "string \<Rightarrow> char \<Rightarrow> string list" where
  "split [] sep = [[]]"
| "split (c # s) sep =
     (if c = sep then [] # split s sep
      else (case split s sep of [] \<Rightarrow> [[c]] | w # ws \<Rightarrow> (c # w) # ws))"

fun join :: "string list \<Rightarrow> string \<Rightarrow> string" where
  "join [] sep = []"
| "join [w] sep = w"
| "join (w # ws) sep = w @ sep @ join ws sep"

lemma split_not_Nil [simp]: "split s sep \<noteq> []"
  by (cases s) (auto split: list.splits)

lemma join_Cons: "ws \<noteq> [] \<Longrightarrow> join (w # ws) sep = w @ sep @ join ws sep"
  by (cases ws) auto

lemma join_split: "join (split s sep) [sep] = s"
proof (induction s)
  case Nil
  then show ?case by simp
next
  case (Cons c s)
  obtain w ws where w: "split s sep = w # ws"
    by (meson neq_Nil_conv split_not_Nil)
  then show ?case using Cons by (cases ws) (auto simp: join_Cons)
qed

lemma split_app: "sep \<notin> set w \<Longrightarrow> split (w @ sep # s) sep = w # split s sep"
  by (induction w) auto

lemma split_no_sep: "sep \<notin> set w \<Longrightarrow> split w sep = [w]"
  by (induction w) auto

text \<open>\<open>strings.ReplaceAll\<close> for a non-empty \<open>old\<close> (the code only replaces placeholders).\<close>

function replace_all :: "string \<Rightarrow> string \<Rightarrow> string \<Rightarrow> string" where
  "replace_all s old new =
     (if s = [] then []
      else if old \<noteq> [] \<and> has_prefix s old then new @ replace_all (drop (length old) s) old new
      else hd s # replace_all (tl s) old new)"
  by pat_completeness auto
termination
  by (relation "measure (\<lambda>(s, old, new). length s)") auto

declare replace_all.simps [simp del]

lemma replace_all_absent: "\<not> contains s old \<Longrightarrow> old \<noteq> [] \<Longrightarrow> replace_all s old new = s"
proof (induction s)
  case Nil
  then show ?case by (simp add: replace_all.simps)
next
  case (Cons c s)
  then show ?case by (simp add: replace_all.simps[of "c # s"])
qed

section \<open>The end of a list\<close>

definition last_n :: "nat \<Rightarrow> 'a list \<Rightarrow> 'a list" where
  "last_n n xs = drop (length xs - n) xs"

lemma last_n_short: "length xs \<le> n \<Longrightarrow> last_n n xs = xs"
  by (simp add: last_n_def)

lemma length_last_n [simp]: "length (last_n n xs) = min n (length xs)"
  by (simp add: last_n_def)

lemma map_last_n: "map f (last_n n xs) = last_n n (map f xs)"
  by (simp add: last_n_def drop_map)

lemma set_last_n: "set (last_n n xs) \<subseteq> set xs"
  by (simp add: last_n_def set_drop_subset)

lemma last_n_more: "last_n (m + length ys) (xs @ ys) = last_n m xs @ ys"
  by (simp add: last_n_def)

lemma last_n_app:
  assumes "n \<le> m"
  shows "last_n n (last_n m xs @ ys) = last_n n (xs @ ys)"
proof (cases "length xs \<le> m")
  case True
  then show ?thesis by (simp add: last_n_short)
next
  case False
  let ?b = "last_n m xs @ ys"
  have "n \<le> length ?b" using False assms by simp
  moreover have "xs @ ys = take (length xs - m) xs @ ?b" by (simp add: last_n_def)
  ultimately show ?thesis by (simp add: last_n_def)
qed

end
