(* ===== verification/Go_Text.thy ===== *)
theory Go_Text
  imports Prelude
begin

text \<open>
  The functions of Go's \<open>strings\<close>, \<open>unicode\<close>, \<open>strconv\<close> and \<open>path/filepath\<close> packages that
  look at characters, numbers and path components. \<open>trim_space\<close> removes the UTF-8 encodings of
  all of Unicode's white space; \<open>to_lower\<close> is exact on ASCII strings, and leaves other bytes as
  they are: the code compares its results with hex keys and ASCII words only, none of which has a
  non-ASCII letter as its upper case but \<open>k\<close>; \<open>equal_fold\<close> is exact when one side is ASCII (the only
  non-ASCII runes that fold to ASCII are U+017F and U+212A).
\<close>

section \<open>White space\<close>

text \<open>The number of bytes of the white space rune at the start of a string, 0 if there is none.\<close>

definition space_len :: "string \<Rightarrow> nat" where
  [go_str]: "space_len s = (case s of
     [] \<Rightarrow> 0
   | c # t \<Rightarrow>
      if c \<in> {CHR 0x09, CHR 0x0A, CHR 0x0B, CHR 0x0C, CHR 0x0D, CHR 0x20} then 1
      else if has_prefix s [CHR 0xC2, CHR 0x85] \<or> has_prefix s [CHR 0xC2, CHR 0xA0] then 2
      else if has_prefix s [CHR 0xE1, CHR 0x9A, CHR 0x80] \<or> has_prefix s [CHR 0xE3, CHR 0x80, CHR 0x80]
           \<or> has_prefix s [CHR 0xE2, CHR 0x81, CHR 0x9F] then 3
      else if has_prefix s [CHR 0xE2, CHR 0x80] \<and> 2 < length s
           \<and> (let b = of_char (s ! 2) :: nat in 0x80 \<le> b \<and> b \<le> 0x8A \<or> b \<in> {0xA8, 0xA9, 0xAF}) then 3
      else 0)"

lemma space_len_Nil [simp]: "space_len [] = 0"
  by (simp add: space_len_def)

text \<open>The same at the end of a string, given in reverse.\<close>

definition space_len_rev :: "string \<Rightarrow> nat" where
  [go_str]: "space_len_rev r =
     (if space_len (take 1 r) = 1 then 1
      else if space_len (rev (take 2 r)) = 2 \<and> 2 \<le> length r then 2
      else if space_len (rev (take 3 r)) = 3 \<and> 3 \<le> length r then 3
      else 0)"

lemma space_len_rev_Nil [simp]: "space_len_rev [] = 0"
  by (simp add: space_len_rev_def)

function trim_left :: "string \<Rightarrow> string" where
  "trim_left s = (if space_len s = 0 then s else trim_left (drop (space_len s) s))"
  by pat_completeness auto
termination
proof (relation "measure length")
  fix s :: string
  assume "space_len s \<noteq> 0"
  then have "s \<noteq> []" by auto
  with \<open>space_len s \<noteq> 0\<close> show "(drop (space_len s) s, s) \<in> measure length" by simp
qed simp

function trim_right_rev :: "string \<Rightarrow> string" where
  "trim_right_rev r = (if space_len_rev r = 0 then r else trim_right_rev (drop (space_len_rev r) r))"
  by pat_completeness auto
termination
proof (relation "measure length")
  fix r :: string
  assume "space_len_rev r \<noteq> 0"
  then have "r \<noteq> []" by auto
  with \<open>space_len_rev r \<noteq> 0\<close> show "(drop (space_len_rev r) r, r) \<in> measure length" by simp
qed simp

declare trim_left.simps [simp del] trim_right_rev.simps [simp del]

definition trim_space :: "string \<Rightarrow> string" where
  [go_str]: "trim_space s = rev (trim_right_rev (rev (trim_left s)))"

definition is_ascii_graph :: "char \<Rightarrow> bool" where
  "is_ascii_graph c \<longleftrightarrow> 0x21 \<le> (of_char c :: nat) \<and> (of_char c :: nat) \<le> 0x7E"

lemma ascii_graph_not:
  assumes "is_ascii_graph c"
  shows "c \<notin> {CHR 0x09, CHR 0x0A, CHR 0x0B, CHR 0x0C, CHR 0x0D, CHR 0x20}"
    "c \<noteq> CHR 0xC2" "c \<noteq> CHR 0xE1" "c \<noteq> CHR 0xE2" "c \<noteq> CHR 0xE3"
    "c \<noteq> CHR 0x80" "c \<noteq> CHR 0x85" "c \<noteq> CHR 0xA0" "c \<noteq> CHR 0x9F" "c \<noteq> CHR 0x9A" "c \<noteq> CHR 0x81"
    "(of_char c :: nat) < 0x80"
  using assms by (auto simp: is_ascii_graph_def)

lemma space_len_graph: "is_ascii_graph c \<Longrightarrow> space_len (c # s) = 0"
  using ascii_graph_not[of c] by (simp add: space_len_def)

lemma trim_left_graph: "is_ascii_graph c \<Longrightarrow> trim_left (c # s) = c # s"
  by (simp add: trim_left.simps space_len_graph)

lemma take_rev_hd: "take n r = c # t \<Longrightarrow> \<exists>u. r = c # u"
  by (cases r; cases n) auto

lemma space_len_rev_graph:
  assumes "is_ascii_graph c"
  shows "space_len_rev (c # r) = 0"
proof -
  have last_ascii: "space_len (xs @ [c]) \<noteq> length xs + 1" if "length xs = 1 \<or> length xs = 2" for xs
  proof -
    consider x where "xs = [x]" | x y where "xs = [x, y]"
      using \<open>length xs = 1 \<or> length xs = 2\<close> by (auto simp: length_Suc_conv numeral_2_eq_2)
    then show ?thesis
      using ascii_graph_not[OF assms] by cases (simp_all add: space_len_def Let_def)
  qed
  have "space_len [c] \<noteq> 1" using space_len_graph[OF assms, of "[]"] by simp
  moreover have "space_len (rev (take 2 (c # r))) \<noteq> 2" if "2 \<le> length (c # r)"
  proof -
    from that obtain x r' where "r = x # r'" by (cases r) auto
    then show ?thesis using last_ascii[of "[x]"] by (simp add: numeral_2_eq_2)
  qed
  moreover have "space_len (rev (take 3 (c # r))) \<noteq> 3" if "3 \<le> length (c # r)"
  proof -
    from that obtain x y r' where "r = x # y # r'" by (cases r; cases "tl r") auto
    then show ?thesis using last_ascii[of "[y, x]"] by (simp add: numeral_3_eq_3)
  qed
  ultimately show ?thesis by (auto simp: space_len_rev_def)
qed

lemma trim_space_graph:
  assumes "s \<noteq> []" "is_ascii_graph (hd s)" "is_ascii_graph (last s)"
  shows "trim_space s = s"
proof -
  obtain c t where s: "s = c # t" using assms(1) by (cases s) auto
  have l: "trim_left s = s" using assms(2) s trim_left_graph by simp
  obtain d u where r: "rev s = d # u" "d = last s"
    using assms(1) by (metis hd_rev list.collapse rev_is_Nil_conv)
  have "trim_right_rev (rev s) = rev s"
    unfolding r(1) using assms(3) by (subst trim_right_rev.simps) (simp add: r(2) space_len_rev_graph)
  then show ?thesis using l by (simp add: trim_space_def)
qed

lemma trim_space_Nil [simp]: "trim_space [] = []"
  by (simp add: trim_space_def trim_left.simps trim_right_rev.simps)

section \<open>Letter case\<close>

definition to_lower_char :: "char \<Rightarrow> char" where
  [go_str]: "to_lower_char c =
     (if 65 \<le> (of_char c :: nat) \<and> (of_char c :: nat) \<le> 90 then char_of ((of_char c :: nat) + 32) else c)"

definition to_lower :: "string \<Rightarrow> string" where
  [go_str]: "to_lower s = map to_lower_char s"

lemma to_lower_char_idem [simp]: "to_lower_char (to_lower_char c) = to_lower_char c"
  by (auto simp: to_lower_char_def)

lemma to_lower_idem [simp]: "to_lower (to_lower s) = to_lower s"
  by (simp add: to_lower_def)

lemma length_to_lower [simp]: "length (to_lower s) = length s"
  by (simp add: to_lower_def)

fun fold_runes :: "string \<Rightarrow> string" where
  "fold_runes (a # b # c # s) =
     (if a = CHR 0xC5 \<and> b = CHR 0xBF then CHR ''s'' # fold_runes (c # s)
      else if a = CHR 0xE2 \<and> b = CHR 0x84 \<and> c = CHR 0xAA then CHR ''k'' # fold_runes s
      else to_lower_char a # fold_runes (b # c # s))"
| "fold_runes [a, b] =
     (if a = CHR 0xC5 \<and> b = CHR 0xBF then ''s'' else [to_lower_char a, to_lower_char b])"
| "fold_runes s = to_lower s"

definition equal_fold :: "string \<Rightarrow> string \<Rightarrow> bool" where
  [go_str]: "equal_fold s t \<longleftrightarrow> fold_runes s = fold_runes t"

lemma equal_fold_refl [simp]: "equal_fold s s"
  by (simp add: equal_fold_def)

section \<open>Numbers\<close>

definition max_int64 :: int where [go_time]: "max_int64 = 9223372036854775807"
definition min_int64 :: int where [go_time]: "min_int64 = -9223372036854775808"

definition in_int64 :: "int \<Rightarrow> bool" where
  "in_int64 n \<longleftrightarrow> min_int64 \<le> n \<and> n \<le> max_int64"

definition digit_of :: "char \<Rightarrow> nat option" where
  [go_str]: "digit_of c =
     (let n = of_char c :: nat in if 48 \<le> n \<and> n \<le> 57 then Some (n - 48) else None)"

fun digits_value :: "nat \<Rightarrow> string \<Rightarrow> nat option" where
  "digits_value acc [] = Some acc"
| "digits_value acc (c # s) =
     (case digit_of c of None \<Rightarrow> None | Some d \<Rightarrow> digits_value (10 * acc + d) s)"

text \<open>\<open>strconv.Atoi\<close> on a 64-bit platform: a sign, then decimal digits, in the range of int64.\<close>

definition atoi :: "string \<Rightarrow> int option" where
  [go_str]: "atoi s =
     (let neg = (s \<noteq> [] \<and> hd s = CHR ''-'');
          ds = (if s \<noteq> [] \<and> (hd s = CHR ''-'' \<or> hd s = CHR ''+'') then tl s else s)
      in if ds = [] then None
         else (case digits_value 0 ds of
             None \<Rightarrow> None
           | Some n \<Rightarrow> (let v = (if neg then - int n else int n) in if in_int64 v then Some v else None)))"

definition digit_char :: "nat \<Rightarrow> char" where
  [go_str]: "digit_char d = char_of (48 + d)"

fun nat_text :: "nat \<Rightarrow> string" where
  "nat_text n = (if n < 10 then [digit_char n] else nat_text (n div 10) @ [digit_char (n mod 10)])"

declare nat_text.simps [simp del]

text \<open>\<open>strconv.Itoa\<close> and \<open>strconv.FormatInt\<close> in base 10.\<close>

definition itoa :: "int \<Rightarrow> string" where
  [go_str]: "itoa n = (if n < 0 then CHR ''-'' # nat_text (nat (- n)) else nat_text (nat n))"

lemma digit_of_digit_char [simp]: "d < 10 \<Longrightarrow> digit_of (digit_char d) = Some d"
  by (simp add: digit_of_def digit_char_def Let_def of_char_of)

lemma digits_value_append:
  "digits_value a (s @ t) =
     (case digits_value a s of None \<Rightarrow> None | Some b \<Rightarrow> digits_value b t)"
  by (induction s arbitrary: a) (auto split: option.splits)

lemma nat_text_not_Nil [simp]: "nat_text n \<noteq> []"
  by (simp add: nat_text.simps)

lemma digits_value_nat_text: "digits_value 0 (nat_text n) = Some n"
proof (induction n rule: nat_text.induct)
  case (1 n)
  show ?case
  proof (cases "n < 10")
    case True
    then show ?thesis by (simp add: nat_text.simps)
  next
    case False
    then show ?thesis using 1 by (subst nat_text.simps) (simp add: digits_value_append)
  qed
qed

lemma nat_text_digits: "c \<in> set (nat_text n) \<Longrightarrow> \<exists>d < 10. c = digit_char d"
proof (induction n rule: nat_text.induct)
  case (1 n)
  show ?case
  proof (cases "n < 10 \<or> c = digit_char (n mod 10)")
    case True
    then show ?thesis
    proof
      assume "n < 10"
      then show ?thesis using 1(2) by (auto simp: nat_text.simps[of n])
    next
      assume "c = digit_char (n mod 10)"
      then show ?thesis by (intro exI[of _ "n mod 10"]) simp
    qed
  next
    case False
    then show ?thesis using 1 by (simp add: nat_text.simps[of n])
  qed
qed

lemma digit_char_ascii: "d < 10 \<Longrightarrow> of_char (digit_char d) = 48 + d"
  by (simp add: digit_char_def of_char_of)

lemma nat_text_no_sign: "c \<in> set (nat_text n) \<Longrightarrow> c \<noteq> CHR ''-'' \<and> c \<noteq> CHR ''+''"
  using nat_text_digits[of c n] digit_char_ascii by fastforce

lemma atoi_itoa: "in_int64 n \<Longrightarrow> atoi (itoa n) = Some n"
proof -
  assume r: "in_int64 n"
  have h: "hd (nat_text m) \<noteq> CHR ''-'' \<and> hd (nat_text m) \<noteq> CHR ''+''" for m
    using nat_text_no_sign[of "hd (nat_text m)" m] by simp
  show ?thesis using r h by (simp add: atoi_def itoa_def digits_value_nat_text Let_def)
qed

section \<open>Paths\<close>

text \<open>\<open>filepath.IsAbs\<close>, \<open>filepath.Clean\<close>, \<open>filepath.Join\<close> of two elements and \<open>filepath.Dir\<close> on Unix.\<close>

definition is_abs :: "string \<Rightarrow> bool" where
  [go_str]: "is_abs p \<longleftrightarrow> has_prefix p ''/''"

definition clean_step :: "bool \<Rightarrow> string list \<Rightarrow> string \<Rightarrow> string list" where
  [go_str]: "clean_step rooted acc c =
     (if c = [] \<or> c = ''.'' then acc
      else if c = ''..'' then
        (case acc of [] \<Rightarrow> (if rooted then [] else [''..''])
                   | x # xs \<Rightarrow> (if x = ''..'' then ''..'' # acc else xs))
      else c # acc)"

definition path_clean :: "string \<Rightarrow> string" where
  [go_str]: "path_clean p =
     (let out = join (rev (foldl (clean_step (is_abs p)) [] (split p CHR ''/''))) ''/''
      in if is_abs p then ''/'' @ out else if out = [] then ''.'' else out)"

definition path_join :: "string \<Rightarrow> string \<Rightarrow> string" where
  [go_str]: "path_join a b =
     (if a \<noteq> [] then path_clean (a @ ''/'' @ b) else if b \<noteq> [] then path_clean b else [])"

definition path_dir :: "string \<Rightarrow> string" where
  [go_str]: "path_dir p = path_clean (rev (dropWhile (\<lambda>c. c \<noteq> CHR ''/'') (rev p)))"

end
