(* ===== verification/Go_Time.thy ===== *)
theory Go_Time
  imports Go_Text
begin

text \<open>
  Go's \<open>time\<close> package as far as the code uses it. An instant counts nanoseconds from January 1 of
  year 1 UTC, the epoch of \<open>time.Time\<close>'s own representation, so that \<open>IsZero\<close> is \<open>t = 0\<close>. The seconds of an
  instant are an int64: \<open>time.Unix\<close> wraps around, \<open>Add\<close> saturates, \<open>Sub\<close> saturates to the
  range of a duration, and \<open>Unix\<close> wraps around. Comparison (\<open>After\<close>, \<open>Before\<close>) is the order of the integers.
\<close>

type_synonym gtime = int
type_synonym duration = int

abbreviation second :: int where "second \<equiv> 1000000000"
abbreviation minute :: int where "minute \<equiv> 60 * second"
abbreviation hour :: int where "hour \<equiv> 3600 * second"

text \<open>Seconds from year 1 to 1970.\<close>

abbreviation unix_to_internal :: int where "unix_to_internal \<equiv> 62135596800"

definition unix_epoch :: gtime where
  [go_time]: "unix_epoch = unix_to_internal * second"

definition wrap64 :: "int \<Rightarrow> int" where
  [go_time]: "wrap64 n = (n - min_int64) mod 18446744073709551616 + min_int64"

definition time_Unix :: "int \<Rightarrow> gtime" where
  [go_time]: "time_Unix sec = wrap64 (sec + unix_to_internal) * second"

definition time_unix :: "gtime \<Rightarrow> int" where
  [go_time]: "time_unix t = wrap64 (t div second - unix_to_internal)"

definition time_add :: "gtime \<Rightarrow> duration \<Rightarrow> gtime" where
  [go_time]: "time_add t d = max (- max_int64) (min max_int64 ((t + d) div second)) * second + (t + d) mod second"

definition time_sub :: "gtime \<Rightarrow> gtime \<Rightarrow> duration" where
  [go_time]: "time_sub t u = max min_int64 (min max_int64 (t - u))"

text \<open>
  A reading of the clock: an instant between year 1 and some \<open>10^11\<close> years later. Durations are int64.
\<close>

definition clock_ok :: "gtime \<Rightarrow> bool" where
  "clock_ok t \<longleftrightarrow> 0 \<le> t \<and> t < 4611686018427387904 * second"

lemma wrap64_id: "in_int64 n \<Longrightarrow> wrap64 n = n"
  by (simp add: wrap64_def in_int64_def min_int64_def max_int64_def)

lemma wrap64_range: "in_int64 (wrap64 n)"
  by (simp add: wrap64_def in_int64_def min_int64_def max_int64_def)

lemma div_second_bounds:
  assumes "lo * second \<le> x" "x < (hi + 1) * second"
  shows "lo \<le> x div second" "x div second \<le> hi"
proof -
  have "second * lo div second \<le> x div second"
    using assms(1) by (intro zdiv_mono1) (simp_all add: mult.commute)
  then show "lo \<le> x div second" by simp
  have "x div second < hi + 1"
  proof (rule ccontr)
    assume "\<not> x div second < hi + 1"
    then have "(hi + 1) * second \<le> (x div second) * second" by simp
    also have "\<dots> \<le> x" using mult_div_mod_eq[of second x] pos_mod_sign[of second x] by linarith
    finally show False using assms(2) by simp
  qed
  then show "x div second \<le> hi" by simp
qed

lemma time_add_exact:
  assumes "clock_ok t" "in_int64 d"
  shows "time_add t d = t + d"
proof -
  have "(t + d) div second \<le> max_int64" "- max_int64 \<le> (t + d) div second"
    using assms div_second_bounds[of "- max_int64" "t + d" max_int64]
    by (simp_all add: clock_ok_def in_int64_def min_int64_def max_int64_def)
  then show ?thesis by (simp add: time_add_def)
qed

lemma time_sub_le_iff:
  assumes "min_int64 \<le> d" "d < max_int64"
  shows "time_sub t u \<le> d \<longleftrightarrow> t - u \<le> d"
  using assms by (auto simp: time_sub_def max_def min_def)

lemma time_sub_pos_iff: "0 < time_sub t u \<longleftrightarrow> u < t"
  by (auto simp: time_sub_def max_def min_def min_int64_def max_int64_def)

lemma time_Unix_exact:
  "in_int64 (sec + unix_to_internal) \<Longrightarrow> time_Unix sec = (sec + unix_to_internal) * second"
  by (simp add: time_Unix_def wrap64_id)

text \<open>
  Seconds so far in the future that \<open>time.Unix\<close> wraps around give an instant before year 1, further
  from any reading of the clock than the longest duration.
\<close>

lemma time_Unix_wrapped:
  assumes "in_int64 sec" "\<not> in_int64 (sec + unix_to_internal)"
  shows "time_Unix sec < - max_int64"
proof -
  have "max_int64 < sec + unix_to_internal" "sec + unix_to_internal \<le> max_int64 + unix_to_internal"
    using assms by (auto simp: in_int64_def min_int64_def max_int64_def)
  then have "wrap64 (sec + unix_to_internal) = sec + unix_to_internal - 18446744073709551616"
    unfolding wrap64_def
    by (subst mod_pos_geq) (auto simp: in_int64_def min_int64_def max_int64_def)
  then show ?thesis using assms(1) by (simp add: time_Unix_def in_int64_def min_int64_def max_int64_def)
qed

text \<open>
  So an instant that is not older than a duration below the longest one comes from seconds that
  did not wrap.
\<close>

lemma time_Unix_recent:
  assumes "in_int64 sec" "clock_ok now" "d < max_int64" "min_int64 \<le> d" "time_sub now (time_Unix sec) \<le> d"
  shows "time_Unix sec = (sec + unix_to_internal) * second"
proof (rule ccontr)
  assume "\<not> ?thesis"
  then have "\<not> in_int64 (sec + unix_to_internal)" using time_Unix_exact by blast
  then have "time_Unix sec < - max_int64" using assms(1) by (intro time_Unix_wrapped)
  moreover have "now - time_Unix sec \<le> d" using assms time_sub_le_iff by blast
  ultimately show False using assms by (simp add: clock_ok_def)
qed

lemma sint_in_int64: "in_int64 (sint (w :: 64 word))"
  using sint_ge[of w] sint_lt[of w] by (simp add: in_int64_def min_int64_def max_int64_def)

lemma time_unix_exact_near:
  "- 1000 * hour \<le> t \<Longrightarrow> t < 4611686018427387904 * second \<Longrightarrow> time_unix t = t div second - unix_to_internal"
  unfolding time_unix_def
  using div_second_bounds[of "- 3600000" t 4611686018427387904]
  by (intro wrap64_id) (simp add: in_int64_def min_int64_def max_int64_def)

lemma time_unix_exact:
  "clock_ok t \<Longrightarrow> time_unix t = t div second - unix_to_internal"
  unfolding time_unix_def
  using div_second_bounds[of 0 t 4611686018427387904]
  by (intro wrap64_id) (simp add: clock_ok_def in_int64_def min_int64_def max_int64_def)

end
