(* ===== verification/Nostr.thy ===== *)
theory Nostr
  imports Go_Time
begin

text \<open>
  What the signer and the bunker share: Nostr events, NIP-46 method names, and the
  functions of packages outside this repository (nmilat, sigs.k8s.io/yaml) and of Go's
  regexp and crypto packages, which are the parameters of the model.
\<close>

section \<open>Events and methods\<close>

record event =
  ev_ID :: string
  ev_PubKey :: string
  ev_CreatedAt :: "64 word"
  ev_Kind :: int
  ev_Tags :: "string list list"
  ev_Content :: string
  ev_Sig :: string

text \<open>The NIP-46 methods (package nip46) and NIP-OA's \<open>nipoa_attest\<close>.\<close>

abbreviation MethodSignEvent :: string where "MethodSignEvent \<equiv> ''sign_event''"
abbreviation MethodNIP04Encrypt :: string where "MethodNIP04Encrypt \<equiv> ''nip04_encrypt''"
abbreviation MethodNIP04Decrypt :: string where "MethodNIP04Decrypt \<equiv> ''nip04_decrypt''"
abbreviation MethodNIP44Encrypt :: string where "MethodNIP44Encrypt \<equiv> ''nip44_encrypt''"
abbreviation MethodNIP44Decrypt :: string where "MethodNIP44Decrypt \<equiv> ''nip44_decrypt''"
abbreviation MethodNIP44MessageKeys :: string where "MethodNIP44MessageKeys \<equiv> ''nip44_message_keys''"
abbreviation MethodAttest :: string where "MethodAttest \<equiv> ''nipoa_attest''"
abbreviation MethodConnect :: string where "MethodConnect \<equiv> ''connect''"
abbreviation MethodPing :: string where "MethodPing \<equiv> ''ping''"
abbreviation MethodGetPublicKey :: string where "MethodGetPublicKey \<equiv> ''get_public_key''"
abbreviation MethodGetRelays :: string where "MethodGetRelays \<equiv> ''get_relays''"
abbreviation MethodSwitchRelays :: string where "MethodSwitchRelays \<equiv> ''switch_relays''"
abbreviation MethodLogout :: string where "MethodLogout \<equiv> ''logout''"

text \<open>NIP-59's kind of a seal.\<close>

abbreviation KindSeal :: int where "KindSeal \<equiv> 13"

text \<open>Parsed NIP-OA conditions (package nipOA): the \<open>created_at<\<close> bounds and the \<open>kind=\<close> clauses.\<close>

record conditions =
  CreatedAtLT :: "64 word list"
  cond_Kinds :: "int list"

section \<open>Code outside the repository\<close>

text \<open>
  \<^item> \<open>x_Verify\<close>, \<open>x_VerifyNoPow\<close>: \<open>nip01.Event.Verify\<close> without and with \<open>WithoutPowCheck\<close>, true when it returns nil;
  \<^item> \<open>x_DecodePublicKey\<close>: \<open>nip19.DecodePublicKey\<close>; \<open>x_Validate32Key\<close>: \<open>utils.Validate32Key\<close>, true when it returns nil;
  \<^item> \<open>x_ParseConditions\<close>: \<open>nipOA.ParseConditions\<close>;
  \<^item> \<open>x_UnmarshalEvent\<close>: \<open>json.Unmarshal\<close> into a \<open>nip01.Event\<close>;
  \<^item> \<open>x_Compile\<close>: \<open>regexp.Compile\<close>, whose result is the regexp's \<open>MatchString\<close>;
  \<^item> \<open>x_sha256\<close>: the hex text of \<open>sha256.Sum256\<close>;
  \<^item> \<open>x_ParseDuration\<close>: \<open>time.ParseDuration\<close>, in nanoseconds.
\<close>

record externals =
  x_Verify :: "event \<Rightarrow> bool"
  x_VerifyNoPow :: "event \<Rightarrow> bool"
  x_DecodePublicKey :: "string \<Rightarrow> string option"
  x_Validate32Key :: "string \<Rightarrow> bool"
  x_ParseConditions :: "string \<Rightarrow> conditions option"
  x_UnmarshalEvent :: "string \<Rightarrow> event option"
  x_Compile :: "string \<Rightarrow> (string \<Rightarrow> bool) option"
  x_sha256 :: "string \<Rightarrow> string"
  x_ParseDuration :: "string \<Rightarrow> duration option"

text \<open>
  NIP-01 makes an event's id the hash of its fields, written in hex, and \<open>Verify\<close> checks it: the id of
  an event that verifies is not empty, and two events that verify under one id were created at the same
  time. These are the facts about \<open>Verify\<close> the replay protection relies on.
\<close>

definition id_fixes_created_at :: "externals \<Rightarrow> bool" where
  "id_fixes_created_at X \<longleftrightarrow>
     (\<forall>a b. x_Verify X a \<and> x_Verify X b \<and> ev_ID a = ev_ID b \<longrightarrow> ev_CreatedAt a = ev_CreatedAt b)
   \<and> (\<forall>a. x_Verify X a \<longrightarrow> ev_ID a \<noteq> [])"

end
