(* ===== verification/Signer_Policy.thy ===== *)
theory Signer_Policy
  imports Nostr
begin

text \<open>
  The signer's policy document: the structures of \<open>signer/policy.go\<close> and \<open>signer/nipoa.go\<close> and
  their validation. A validated structure carries the private fields the validation fills in
  (the decoded keys, the compiled patterns, the parsed rate); a nil map is \<open>None\<close>.
  A YAML map is an association list, whose order is the order a loop visits it in.
\<close>

section \<open>Durations and rates\<close>

abbreviation DefaultMaxClockSkew :: duration where "DefaultMaxClockSkew \<equiv> 10 * minute"
abbreviation MaxAttestationAge :: duration where "MaxAttestationAge \<equiv> 24 * hour"

text \<open>\<open>Duration.UnmarshalJSON\<close>, given the JSON string it reads (\<open>None\<close> when it is not a string).\<close>

definition Duration_UnmarshalJSON :: "externals \<Rightarrow> string option \<Rightarrow> goerr + duration" where
  "Duration_UnmarshalJSON X js = (case js of
     None \<Rightarrow> Inl (Err ''duration must be a string like 15m'' [])
   | Some s \<Rightarrow> (case x_ParseDuration X s of
        None \<Rightarrow> Inl (Err ''time: invalid duration'' [s])
      | Some v \<Rightarrow> if v < 0 then Inl (Err ''duration %q is negative'' [s]) else Inr v))"

definition ParseLongDuration :: "externals \<Rightarrow> string \<Rightarrow> goerr + duration" where
  "ParseLongDuration X s0 =
     (let s = trim_space s0 in
      try_bind
        (case cut_suffix s ''d'' of
           Some days \<Rightarrow> (case atoi days of
               None \<Rightarrow> Inl (Err ''duration %q: want a whole number of days from 1 to 3660'' [s])
             | Some n \<Rightarrow> if n \<le> 0 \<or> n > 3660 then Inl (Err ''duration %q: want a whole number of days from 1 to 3660'' [s]) else Inr (n * 24 * hour))
         | None \<Rightarrow> (case x_ParseDuration X s of None \<Rightarrow> Inl (Err ''time: invalid duration'' [s]) | Some v \<Rightarrow> Inr v))
        (\<lambda>v. if v \<le> 0 then Inl (Err ''duration %q must be positive'' [s]) else Inr v))"

definition LongDuration_UnmarshalJSON :: "externals \<Rightarrow> string option \<Rightarrow> goerr + duration" where
  "LongDuration_UnmarshalJSON X js = (case js of
     None \<Rightarrow> Inl (Err ''duration must be a string like 30d or 12h'' [])
   | Some s \<Rightarrow> ParseLongDuration X s)"

record Rate =
  rate_N :: int
  rate_Per :: duration

definition ParseRate :: "string \<Rightarrow> goerr + Rate" where
  "ParseRate s = (case cut (trim_space s) CHR ''/'' of
     None \<Rightarrow> Inl (Err ''rate %q: want N/s, N/m or N/h'' [s])
   | Some (n, unit) \<Rightarrow> (case atoi n of
        None \<Rightarrow> Inl (Err ''rate %q: count must be a positive integer'' [s])
      | Some count \<Rightarrow>
          if count \<le> 0 then Inl (Err ''rate %q: count must be a positive integer'' [s])
          else if unit = ''s'' then Inr \<lparr>rate_N = count, rate_Per = second\<rparr>
          else if unit = ''m'' then Inr \<lparr>rate_N = count, rate_Per = minute\<rparr>
          else if unit = ''h'' then Inr \<lparr>rate_N = count, rate_Per = hour\<rparr>
          else Inl (Err ''rate %q: unit must be s, m or h'' [s])))"

section \<open>The structures\<close>

definition ruleMethods :: "string list" where
  "ruleMethods = [MethodSignEvent, MethodNIP04Encrypt, MethodNIP04Decrypt, MethodNIP44Encrypt,
     MethodNIP44Decrypt, MethodNIP44MessageKeys, MethodAttest]"

record AttestSelector =
  as_Subordinates :: "string list"
  as_MaxUntil :: "duration option"
  as_Kinds :: "int list"
  as_any :: bool
  as_subs :: "string list"

record Selector =
  sel_Methods :: "string list"
  sel_Kinds :: "int list"
  sel_Counterparts :: "string list"
  sel_Tags :: "(string \<times> string list) list"
  sel_TagsOne :: "(string \<times> string list) list"
  sel_UnwrapFrom :: "string list"
  sel_Attest :: "AttestSelector option"
  sel_counterparts :: "string list option"
  sel_unwrapFrom :: "string list option"

definition Selector_empty :: "Selector \<Rightarrow> bool" where
  "Selector_empty s \<longleftrightarrow> sel_Methods s = [] \<and> sel_Kinds s = [] \<and> sel_Counterparts s = [] \<and> sel_Tags s = []
     \<and> sel_TagsOne s = [] \<and> sel_UnwrapFrom s = [] \<and> sel_Attest s = None"

record Bind =
  bind_Tag :: string
  bind_From :: string
  bind_Content :: "string option"
  bind_ContentContains :: "string option"

definition bindsID :: "Bind \<Rightarrow> bool" where
  "bindsID b = (case bind_Content b of
     Some t \<Rightarrow> contains t ''{id}''
   | None \<Rightarrow> (case bind_ContentContains b of
        Some t \<Rightarrow> contains t ''{id}''
      | None \<Rightarrow> bind_From b = ''id''))"

record AttestationSpec =
  att_Name :: string
  att_Kinds :: "int list"
  att_Authors :: "string list"
  att_AuthorsFile :: string
  att_MaxAge :: duration
  att_Binds :: "Bind list"
  att_authors :: "string list"
  att_authorsSum :: string
  att_bindsID :: bool

record Require =
  req_Attestations :: "AttestationSpec list"

record Rule =
  rule_Name :: string
  rule_Allow :: "Selector option"
  rule_Deny :: "Selector option"
  rule_DenyMatching :: "string list"
  rule_Rate :: string
  rule_MaxClockSkew :: "duration option"
  rule_Require :: "Require option"
  rule_denyRe :: "(string \<Rightarrow> bool) list"
  rule_rate :: "Rate option"

text \<open>\<open>Rule.selector\<close>: the pointer is nil when neither field is set.\<close>

definition Rule_selector :: "Rule \<Rightarrow> Selector option" where
  "Rule_selector r = (case rule_Allow r of Some s \<Rightarrow> Some s | None \<Rightarrow> rule_Deny r)"

text \<open>The assignment through that pointer.\<close>

definition set_selector :: "Rule \<Rightarrow> Selector \<Rightarrow> Rule" where
  "set_selector r s = (if rule_Allow r \<noteq> None then r\<lparr>rule_Allow := Some s\<rparr> else r\<lparr>rule_Deny := Some s\<rparr>)"

record Policy =
  pol_Kind :: string
  pol_MaxClockSkew :: "duration option"
  pol_Rules :: "Rule list"
  pol_SHA256 :: string
  pol_Files :: "string list"
  pol_fileSums :: "string list"

definition Policy_snapshot :: "Policy \<Rightarrow> string" where
  "Policy_snapshot p = join (map (\<lambda>(f, h). f @ ''='' @ h) (zip (pol_Files p) (pol_fileSums p))) [CHR 0x0A]"

definition Skew :: "Policy \<Rightarrow> duration" where
  "Skew p = (case pol_MaxClockSkew p of Some d \<Rightarrow> d | None \<Rightarrow> DefaultMaxClockSkew)"

definition ruleSkew :: "Policy \<Rightarrow> Rule \<Rightarrow> duration" where
  "ruleSkew p r = (case rule_MaxClockSkew r of Some d \<Rightarrow> d | None \<Rightarrow> Skew p)"

definition UsesAttestations :: "Policy \<Rightarrow> bool" where
  "UsesAttestations p \<longleftrightarrow> (\<exists>r \<in> set (pol_Rules p). case rule_Require r of
     Some q \<Rightarrow> req_Attestations q \<noteq> [] | None \<Rightarrow> False)"

record LoadOptions =
  AllowCatchAll :: bool
  SignerPub :: string

section \<open>Keys and paths\<close>

definition ParsePubkey :: "externals \<Rightarrow> string \<Rightarrow> goerr + string" where
  "ParsePubkey X s0 =
     (let s = trim_space s0 in
      if has_prefix s ''npub1'' then
        (case x_DecodePublicKey X s of None \<Rightarrow> Inl (Err ''invalid npub %q'' [s]) | Some h \<Rightarrow> Inr (to_lower h))
      else if \<not> x_Validate32Key X s then Inl (Err ''invalid pubkey %q (want npub or 64-char hex)'' [s])
      else Inr (to_lower s))"

definition resolvePath :: "string \<Rightarrow> string \<Rightarrow> string" where
  "resolvePath baseDir p = (if is_abs p \<or> baseDir = [] then p else path_join baseDir p)"

text \<open>\<open>readAuthorsFile\<close>: the loop over the lines, from line number \<open>i\<close>, then the function, on the
  file system \<open>fs\<close> (\<open>None\<close> when a file cannot be read).\<close>

fun authors_lines :: "externals \<Rightarrow> string \<Rightarrow> nat \<Rightarrow> string list \<Rightarrow> goerr + string list" where
  "authors_lines X path i [] = Inr []"
| "authors_lines X path i (line # lines) =
     (let s = trim_space line in
      if s = [] \<or> has_prefix s ''#'' then authors_lines X path (Suc i) lines
      else (case ParsePubkey X s of
          Inl e \<Rightarrow> Inl (Wrap ''authors_file %s line %d'' [path, itoa (int i)] e)
        | Inr k \<Rightarrow> try_bind (authors_lines X path (Suc i) lines) (\<lambda>ks. Inr (k # ks))))"

definition readAuthorsFile :: "externals \<Rightarrow> (string \<Rightarrow> string option) \<Rightarrow> string \<Rightarrow> goerr + (string list \<times> string)" where
  "readAuthorsFile X fs path = (case fs path of
     None \<Rightarrow> Inl (Err ''authors_file'' [path])
   | Some data \<Rightarrow> try_bind (authors_lines X path 1 (split data CHR 0x0A)) (\<lambda>keys. Inr (keys, x_sha256 X data)))"

section \<open>Templates and binds\<close>

text \<open>
  The matches of \<open>placeholderRe\<close>, the regular expression \<open>\{([^{}]*)\}\<close>: the text between an
  opening brace and the next brace, when that is a closing one; leftmost first, not overlapping.
\<close>

fun until_brace :: "string \<Rightarrow> (string \<times> string) option" where
  "until_brace [] = None"
| "until_brace (c # s) =
     (if c = CHR ''}'' then Some ([], s)
      else if c = CHR ''{'' then None
      else map_option (\<lambda>(a, b). (c # a, b)) (until_brace s))"

fun find_placeholder :: "string \<Rightarrow> (string \<times> string) option" where
  "find_placeholder [] = None"
| "find_placeholder (c # s) =
     (if c = CHR ''{'' then (case until_brace s of Some m \<Rightarrow> Some m | None \<Rightarrow> find_placeholder s)
      else find_placeholder s)"

lemma until_brace_length: "until_brace s = Some (a, r) \<Longrightarrow> length r < length s"
  by (induction s arbitrary: a) (auto split: if_splits)

lemma find_placeholder_length: "find_placeholder s = Some (a, r) \<Longrightarrow> length r < length s"
  by (induction s) (auto split: if_splits option.splits dest: until_brace_length)

function all_placeholders :: "string \<Rightarrow> string list" where
  "all_placeholders s = (case find_placeholder s of None \<Rightarrow> [] | Some (a, r) \<Rightarrow> a # all_placeholders r)"
  by pat_completeness auto
termination
  by (relation "measure length") (auto dest: find_placeholder_length)

declare all_placeholders.simps [simp del]

fun check_placeholders :: "string \<Rightarrow> string list \<Rightarrow> goerr option" where
  "check_placeholders tagName [] = None"
| "check_placeholders tagName (ph # phs) =
     (if ph = ''id'' then check_placeholders tagName phs
      else (case cut_prefix ph ''tag:'' of
          None \<Rightarrow> Some (Err ''unknown placeholder {%s} (want {id} or {tag:<name>})'' [ph])
        | Some u \<Rightarrow>
            if u = [] then Some (Err ''unknown placeholder {%s} (want {id} or {tag:<name>})'' [ph])
            else if tagName \<noteq> [] \<and> tagName \<noteq> u then Some (Err ''a template may reference only one tag name'' [])
            else check_placeholders u phs))"

definition validateTemplate :: "string \<Rightarrow> goerr option" where
  "validateTemplate t =
     (if trim_space t = [] then Some (Err ''template is empty'' []) else check_placeholders [] (all_placeholders t))"

definition validateBind :: "Bind \<Rightarrow> goerr option" where
  "validateBind b =
     (let forms = (if bind_Tag b \<noteq> [] \<or> bind_From b \<noteq> [] then 1 else 0)
                + (if bind_Content b \<noteq> None then 1 else 0)
                + (if bind_ContentContains b \<noteq> None then 1 else (0::nat))
      in if forms \<noteq> 1 then Some (Err ''use exactly one of {tag, from}, content or content_contains'' [])
         else (case bind_Content b of
             Some t \<Rightarrow> validateTemplate t
           | None \<Rightarrow> (case bind_ContentContains b of
               Some t \<Rightarrow> validateTemplate t
             | None \<Rightarrow>
                 if bind_Tag b = [] \<or> bind_From b = [] then Some (Err ''tag and from are both required'' [])
                 else if bind_From b \<noteq> ''id'' then
                   (case cut_prefix (bind_From b) ''tag:'' of
                      None \<Rightarrow> Some (Err ''from %q: want id or tag:<name>'' [bind_From b])
                    | Some u \<Rightarrow> if u = [] then Some (Err ''from %q: want id or tag:<name>'' [bind_From b]) else None)
                 else None)))"

section \<open>Attestation requirements\<close>

text \<open>The loop over an attestation's binds, from position \<open>i\<close>, and whether one of them names the id.\<close>

fun validate_binds :: "nat \<Rightarrow> Bind list \<Rightarrow> goerr + bool" where
  "validate_binds i [] = Inr False"
| "validate_binds i (b # bs) = (case validateBind b of
     Some e \<Rightarrow> Inl (Wrap ''binds #%d'' [itoa (int i)] e)
   | None \<Rightarrow> try_bind (validate_binds (Suc i) bs) (\<lambda>r. Inr (bindsID b \<or> r)))"

definition validateAttestation ::
  "externals \<Rightarrow> (string \<Rightarrow> string option) \<Rightarrow> AttestationSpec \<Rightarrow> string \<Rightarrow> LoadOptions \<Rightarrow> goerr + AttestationSpec" where
  "validateAttestation X fs a baseDir opts =
     (if att_Name a = [] then Inl (Err ''name is required'' [])
      else if att_Kinds a = [] then Inl (Err ''kinds is required'' [])
      else if att_MaxAge a \<le> 0 then Inl (Err ''max_age is required'' [])
      else if att_MaxAge a > MaxAttestationAge then Inl (Err ''max_age %s exceeds the %s cap'' [])
      else if att_Binds a = [] then Inl (Err ''binds is required: an unbound attestation would approve any event'' [])
      else
        try_bind (try_map (\<lambda>au. case ParsePubkey X au of Inl e \<Rightarrow> Inl (Wrap ''authors'' [] e) | Inr k \<Rightarrow> Inr k) (att_Authors a)) (\<lambda>listed.
        try_bind
          (if att_AuthorsFile a \<noteq> [] then readAuthorsFile X fs (resolvePath baseDir (att_AuthorsFile a))
           else Inr ([], att_authorsSum a)) (\<lambda>(keys, sum).
        let authors = listed @ keys in
        if authors = [] then Inl (Err ''authors or authors_file must name at least one key'' [])
        else if SignerPub opts \<noteq> [] \<and> to_lower (SignerPub opts) \<in> set authors
          then Inl (Err ''authors include the signer's own key, which never counts as an attestation'' [])
        else
          try_bind (validate_binds 1 (att_Binds a)) (\<lambda>byID.
            Inr (a\<lparr>att_authors := authors, att_authorsSum := sum, att_bindsID := att_bindsID a \<or> byID\<rparr>)))))"

section \<open>Selectors\<close>

text \<open>\<open>AttestSelector.validate\<close>: the loop over the subordinates, then the method.\<close>

fun attest_subordinates :: "externals \<Rightarrow> string list \<Rightarrow> goerr + (bool \<times> string list)" where
  "attest_subordinates X [] = Inr (False, [])"
| "attest_subordinates X (s # ss) =
     (if trim_space s = ''*'' then try_bind (attest_subordinates X ss) (\<lambda>(any, subs). Inr (True, subs))
      else (case ParsePubkey X s of
          Inl e \<Rightarrow> Inl (Wrap ''attest: subordinates'' [] e)
        | Inr k \<Rightarrow> try_bind (attest_subordinates X ss) (\<lambda>(any, subs). Inr (any, k # subs))))"

definition AttestSelector_validate :: "externals \<Rightarrow> AttestSelector \<Rightarrow> bool \<Rightarrow> goerr + AttestSelector" where
  "AttestSelector_validate X a allow =
     (if as_Subordinates a = [] then Inl (Err ''attest: subordinates must name at least one key, or *'' [])
      else try_bind (attest_subordinates X (as_Subordinates a)) (\<lambda>(any, subs).
        let a' = a\<lparr>as_any := as_any a \<or> any, as_subs := subs\<rparr> in
        if \<not> allow then
          (if as_MaxUntil a \<noteq> None \<or> as_Kinds a \<noteq> [] then Inl (Err ''attest: a deny rule takes subordinates only'' [])
           else Inr a')
        else if as_MaxUntil a = None then Inl (Err ''attest: max_until is required: an attestation must end'' [])
        else (case find (\<lambda>k. k < 0 \<or> k > 65535) (as_Kinds a) of
            Some k \<Rightarrow> Inl (Err ''attest: kind %d out of range'' [itoa k])
          | None \<Rightarrow> Inr a')))"

text \<open>
  The method defaults of \<open>validateSelector\<close>'s \<open>eventFields\<close> block, and its check of listed methods,
  which reports the first method that does not fit.
\<close>

definition default_methods :: "Selector \<Rightarrow> bool \<Rightarrow> goerr + Selector" where
  "default_methods s eventFields =
     (if sel_Methods s = [] then
        (if eventFields \<and> sel_Counterparts s \<noteq> [] then
           Inl (Err ''kinds/tags apply to sign_event and counterparts to encrypt/decrypt; split them into two rules'' [])
         else if eventFields then Inr (s\<lparr>sel_Methods := [MethodSignEvent]\<rparr>)
         else if sel_Counterparts s \<noteq> [] then
           Inr (s\<lparr>sel_Methods := [MethodNIP04Encrypt, MethodNIP04Decrypt, MethodNIP44Encrypt, MethodNIP44Decrypt]\<rparr>)
         else Inr s)
      else (case find (\<lambda>m. eventFields \<and> m \<noteq> MethodSignEvent \<or> sel_Counterparts s \<noteq> [] \<and> m = MethodSignEvent) (sel_Methods s) of
          None \<Rightarrow> Inr s
        | Some m \<Rightarrow>
            if eventFields \<and> m \<noteq> MethodSignEvent then Inl (Err ''kinds/tags only apply to sign_event, not %s'' [m])
            else Inl (Err ''counterparts only apply to encrypt/decrypt, not sign_event'' [])))"

text \<open>\<open>parse_keys label\<close> is the loop that decodes a list of keys into a set.\<close>

definition parse_keys :: "externals \<Rightarrow> string \<Rightarrow> string list \<Rightarrow> goerr + string list" where
  "parse_keys X label cs =
     try_map (\<lambda>c. case ParsePubkey X c of Inl e \<Rightarrow> Inl (Wrap label [] e) | Inr k \<Rightarrow> Inr k) cs"

text \<open>The \<open>unwrap_from\<close> block, the checks of \<open>tags\<close> and \<open>tags_one\<close>, and the \<open>counterparts\<close> block.\<close>

definition validate_unwrap_from :: "externals \<Rightarrow> Selector \<Rightarrow> goerr + Selector" where
  "validate_unwrap_from X s =
     (if sel_UnwrapFrom s = [] then Inr s
      else if sel_Counterparts s \<noteq> [] \<or> sel_Kinds s \<noteq> [] \<or> sel_Tags s \<noteq> [] \<or> sel_TagsOne s \<noteq> []
        then Inl (Err ''unwrap_from can't be combined with counterparts, kinds, tags or tags_one'' [])
      else
        let s1 = (if sel_Methods s = [] then s\<lparr>sel_Methods := [MethodNIP44Decrypt]\<rparr> else s) in
        if sel_Methods s1 \<noteq> [MethodNIP44Decrypt] then Inl (Err ''unwrap_from only applies to nip44_decrypt'' [])
        else try_bind (parse_keys X ''unwrap_from'' (sel_UnwrapFrom s1)) (\<lambda>ks. Inr (s1\<lparr>sel_unwrapFrom := Some ks\<rparr>)))"

definition validate_tags :: "Selector \<Rightarrow> goerr option" where
  "validate_tags s = (case find (\<lambda>(name, vals). name = [] \<or> vals = []) (sel_Tags s) of
     Some (name, _) \<Rightarrow> Some (Err ''tags: %q needs at least one value'' [name])
   | None \<Rightarrow> (case find (\<lambda>(name, vals). name = [] \<or> vals = [] \<or> name \<in> fst ` set (sel_Tags s)) (sel_TagsOne s) of
        Some (name, vals) \<Rightarrow>
          (if name = [] \<or> vals = [] then Some (Err ''tags_one: %q needs at least one value'' [name])
           else Some (Err ''tags_one: %q is in tags too; name it in one of them'' [name]))
      | None \<Rightarrow> None))"

definition validate_counterparts :: "externals \<Rightarrow> Selector \<Rightarrow> goerr + Selector" where
  "validate_counterparts X s =
     (if sel_Counterparts s = [] then Inr s
      else try_bind (parse_keys X ''counterparts'' (sel_Counterparts s)) (\<lambda>ks. Inr (s\<lparr>sel_counterparts := Some ks\<rparr>)))"

text \<open>The block for an \<open>attest\<close> selector.\<close>

definition validate_attest_fields :: "Selector \<Rightarrow> goerr + Selector" where
  "validate_attest_fields s =
     (if sel_Counterparts s \<noteq> [] \<or> sel_Kinds s \<noteq> [] \<or> sel_Tags s \<noteq> [] \<or> sel_TagsOne s \<noteq> [] \<or> sel_UnwrapFrom s \<noteq> []
        then Inl (Err ''attest can't be combined with counterparts, kinds, tags, tags_one or unwrap_from'' [])
      else
        let s1 = (if sel_Methods s = [] then s\<lparr>sel_Methods := [MethodAttest]\<rparr> else s) in
        if sel_Methods s1 \<noteq> [MethodAttest] then Inl (Err ''attest only applies to nipoa_attest'' [])
        else Inr s1)"

definition validateSelector :: "externals \<Rightarrow> Selector \<Rightarrow> goerr + Selector" where
  "validateSelector X s = (case find (\<lambda>m. m \<notin> set ruleMethods) (sel_Methods s) of
     Some m \<Rightarrow> Inl (Err ''unknown method %q'' [m])
   | None \<Rightarrow>
     if sel_Attest s \<noteq> None then validate_attest_fields s
     else
       try_bind (validate_unwrap_from X s) (\<lambda>s2.
       try_bind (default_methods s2 (sel_Kinds s2 \<noteq> [] \<or> sel_Tags s2 \<noteq> [] \<or> sel_TagsOne s2 \<noteq> [])) (\<lambda>s3.
       case validate_tags s3 of
         Some e \<Rightarrow> Inl e
       | None \<Rightarrow> validate_counterparts X s3)))"

definition onlySignEvent :: "Selector \<Rightarrow> bool" where
  "onlySignEvent s \<longleftrightarrow> sel_Methods s = [MethodSignEvent]"

section \<open>Rules and policies\<close>

definition attLabel :: "AttestationSpec \<Rightarrow> nat \<Rightarrow> string" where
  "attLabel a i = (if att_Name a \<noteq> [] then att_Name a else ''#'' @ itoa (int i + 1))"

text \<open>
  The loop of \<open>validateRule\<close> over the required attestations, from position \<open>i\<close> with the names seen so far:
  the validated specs, and the authors files read with their hashes.
\<close>

fun validate_attestations ::
  "externals \<Rightarrow> (string \<Rightarrow> string option) \<Rightarrow> string \<Rightarrow> LoadOptions \<Rightarrow> nat \<Rightarrow> string list \<Rightarrow> AttestationSpec list
     \<Rightarrow> goerr + (AttestationSpec list \<times> (string \<times> string) list)" where
  "validate_attestations X fs baseDir opts i seen [] = Inr ([], [])"
| "validate_attestations X fs baseDir opts i seen (a # as) = (case validateAttestation X fs a baseDir opts of
     Inl e \<Rightarrow> Inl (Wrap ''attestation %s'' [attLabel a i] e)
   | Inr a' \<Rightarrow>
       if att_Name a' \<in> set seen then Inl (Err ''attestation %s: duplicate name'' [att_Name a'])
       else try_bind (validate_attestations X fs baseDir opts (Suc i) (att_Name a' # seen) as) (\<lambda>(as', files).
         Inr (a' # as', (if att_AuthorsFile a' \<noteq> [] then [(resolvePath baseDir (att_AuthorsFile a'), att_authorsSum a')] else []) @ files)))"

fun compile_patterns :: "externals \<Rightarrow> nat \<Rightarrow> string list \<Rightarrow> goerr + (string \<Rightarrow> bool) list" where
  "compile_patterns X i [] = Inr []"
| "compile_patterns X i (pat # pats) = (case x_Compile X pat of
     None \<Rightarrow> Inl (Err ''deny_matching #%d'' [itoa (int i)])
   | Some re \<Rightarrow> try_bind (compile_patterns X (Suc i) pats) (\<lambda>res. Inr (re # res)))"

text \<open>
  The first half of \<open>validateRule\<close>, in three blocks: the checks for rules with an \<open>attest\<close> selector,
  the checks between the selector and the rule's other fields, and the whole, which returns the rule
  with its selector validated.
\<close>

definition validate_attest_rule :: "externals \<Rightarrow> Rule \<Rightarrow> Selector \<Rightarrow> goerr + Selector" where
  "validate_attest_rule X r sel = (case sel_Attest sel of
     Some at \<Rightarrow> try_bind (AttestSelector_validate X at (rule_Allow r \<noteq> None)) (\<lambda>at'.
       if rule_DenyMatching r \<noteq> [] \<or> rule_Require r \<noteq> None \<or> rule_MaxClockSkew r \<noteq> None
         then Inl (Err ''attest rules take only a selector and a rate'' [])
       else Inr (sel\<lparr>sel_Attest := Some at'\<rparr>))
   | None \<Rightarrow>
       if rule_Allow r \<noteq> None \<and> MethodAttest \<in> set (sel_Methods sel)
         then Inl (Err ''nipoa_attest is allowed only by an attest selector'' [])
       else Inr sel)"

definition check_rule_fields :: "Rule \<Rightarrow> Selector \<Rightarrow> goerr option" where
  "check_rule_fields r sel =
     (if rule_Deny r \<noteq> None \<and> sel_UnwrapFrom sel \<noteq> [] then Some (Err ''unwrap_from only applies to allow rules'' [])
      else if rule_Allow r \<noteq> None \<and> MethodNIP44MessageKeys \<in> set (sel_Methods sel) \<and> sel_Counterparts sel = []
        then Some (Err ''nip44_message_keys needs counterparts: whose messages may be proved'' [])
      else if rule_Deny r \<noteq> None \<and> (rule_DenyMatching r \<noteq> [] \<or> rule_Rate r \<noteq> [] \<or> rule_Require r \<noteq> None \<or> rule_MaxClockSkew r \<noteq> None)
        then Some (Err ''deny rules take only a selector'' [])
      else None)"

definition validate_rule_selector :: "externals \<Rightarrow> Rule \<Rightarrow> LoadOptions \<Rightarrow> goerr + Rule" where
  "validate_rule_selector X r opts =
     (if rule_Name r = [] then Inl (Err ''name is required'' [])
      else if (rule_Allow r = None) = (rule_Deny r = None) then Inl (Err ''exactly one of allow or deny is required'' [])
      else (case Rule_selector r of
        None \<Rightarrow> Inl (Err ''exactly one of allow or deny is required'' [])
      | Some sel0 \<Rightarrow>
        if rule_Allow r \<noteq> None \<and> Selector_empty sel0 \<and> \<not> AllowCatchAll opts
          then Inl (Err ''allow rule with an empty selector matches every request'' [])
        else try_bind (validateSelector X sel0) (\<lambda>sel1.
          try_bind (validate_attest_rule X r sel1) (\<lambda>sel.
          case check_rule_fields r sel of
            Some e \<Rightarrow> Inl e
          | None \<Rightarrow> Inr (set_selector r sel)))))"

text \<open>The \<open>require\<close> block, and the whole of \<open>validateRule\<close>.\<close>

definition validate_require ::
  "externals \<Rightarrow> (string \<Rightarrow> string option) \<Rightarrow> Rule \<Rightarrow> string \<Rightarrow> LoadOptions \<Rightarrow> goerr + (Rule \<times> (string \<times> string) list)" where
  "validate_require X fs r baseDir opts = (case rule_Require r of
     None \<Rightarrow> Inr (r, [])
   | Some q \<Rightarrow>
      (case Rule_selector r of
         None \<Rightarrow> Inl (Err ''exactly one of allow or deny is required'' [])
       | Some sel \<Rightarrow>
           if req_Attestations q = [] then Inl (Err ''require: attestations is empty'' [])
           else if \<not> onlySignEvent sel then Inl (Err ''require: attestations needs a selector limited to sign_event'' [])
           else try_bind (validate_attestations X fs baseDir opts 0 [] (req_Attestations q)) (\<lambda>(as, files).
             Inr (r\<lparr>rule_Require := Some (q\<lparr>req_Attestations := as\<rparr>)\<rparr>, files))))"

definition validateRule ::
  "externals \<Rightarrow> (string \<Rightarrow> string option) \<Rightarrow> Rule \<Rightarrow> string \<Rightarrow> LoadOptions \<Rightarrow> goerr + (Rule \<times> (string \<times> string) list)" where
  "validateRule X fs r0 baseDir opts =
     try_bind (validate_rule_selector X r0 opts) (\<lambda>r1.
     try_bind (compile_patterns X 1 (rule_DenyMatching r1)) (\<lambda>res.
     try_bind (if rule_Rate r1 \<noteq> [] then try_bind (ParseRate (rule_Rate r1)) (\<lambda>rt. Inr (Some rt)) else Inr (rule_rate r1)) (\<lambda>rt.
     validate_require X fs (r1\<lparr>rule_denyRe := rule_denyRe r1 @ res, rule_rate := rt\<rparr>) baseDir opts)))"

fun validate_rules ::
  "externals \<Rightarrow> (string \<Rightarrow> string option) \<Rightarrow> string \<Rightarrow> LoadOptions \<Rightarrow> nat \<Rightarrow> string list \<Rightarrow> Rule list
     \<Rightarrow> goerr + (Rule list \<times> (string \<times> string) list)" where
  "validate_rules X fs baseDir opts i names [] = Inr ([], [])"
| "validate_rules X fs baseDir opts i names (r # rs) = (case validateRule X fs r baseDir opts of
     Inl e \<Rightarrow> Inl (Wrap ''rule %s'' [if rule_Name r = [] then ''#'' @ itoa (int i + 1) else rule_Name r] e)
   | Inr (r', files) \<Rightarrow>
       if rule_Name r' \<in> set names then Inl (Err ''rule %s: duplicate name'' [rule_Name r'])
       else try_bind (validate_rules X fs baseDir opts (Suc i) (rule_Name r' # names) rs) (\<lambda>(rs', files').
         Inr (r' # rs', files @ files')))"

text \<open>\<open>yaml\<close> is \<open>yaml.UnmarshalStrict\<close> into a \<open>Policy\<close>.\<close>

definition ParsePolicy ::
  "externals \<Rightarrow> (string \<Rightarrow> goerr + Policy) \<Rightarrow> (string \<Rightarrow> string option) \<Rightarrow> string \<Rightarrow> string \<Rightarrow> LoadOptions \<Rightarrow> goerr + Policy" where
  "ParsePolicy X yaml fs data baseDir opts =
     try_bind (yaml data) (\<lambda>p.
     if \<not> equal_fold (pol_Kind p) ''signer-policy'' then Inl (Err ''kind must be %q, got %q'' [''signer-policy'', pol_Kind p])
     else if pol_Rules p = [] then Inl (Err ''rules: at least one rule is required'' [])
     else try_bind (validate_rules X fs baseDir opts 0 [] (pol_Rules p)) (\<lambda>(rs, files).
       Inr (p\<lparr>pol_Rules := rs, pol_SHA256 := x_sha256 X data,
               pol_Files := pol_Files p @ map fst files, pol_fileSums := pol_fileSums p @ map snd files\<rparr>)))"

definition LoadPolicy ::
  "externals \<Rightarrow> (string \<Rightarrow> goerr + Policy) \<Rightarrow> (string \<Rightarrow> string option) \<Rightarrow> string \<Rightarrow> LoadOptions \<Rightarrow> goerr + Policy" where
  "LoadPolicy X yaml fs path opts = (case fs path of
     None \<Rightarrow> Inl (Err ''open'' [path])
   | Some data \<Rightarrow> (case ParsePolicy X yaml fs data (path_dir path) opts of
        Inl e \<Rightarrow> Inl (Wrap ''%s'' [path] e)
      | Inr p \<Rightarrow> Inr (p\<lparr>pol_Files := path # pol_Files p, pol_fileSums := pol_SHA256 p # pol_fileSums p\<rparr>)))"

end
