(* ===== verification/Signer_Policy_Valid.thy ===== *)
theory Signer_Policy_Valid
  imports Signer_Policy
begin

text \<open>
  What a policy that loaded is known to satisfy: a well-formedness predicate for each structure,
  and the proof that the validation functions establish it. The evaluation engine's
  safety rests on these predicates.
\<close>

section \<open>Well-formedness\<close>

definition wf_selector :: "bool \<Rightarrow> Selector \<Rightarrow> bool" where
  "wf_selector allow s \<longleftrightarrow>
     set (sel_Methods s) \<subseteq> set ruleMethods
   \<and> (\<forall>a. sel_Attest s = Some a \<longrightarrow> sel_Methods s = [MethodAttest] \<and> (allow \<longrightarrow> as_MaxUntil a \<noteq> None))
   \<and> (allow \<and> MethodAttest \<in> set (sel_Methods s) \<longrightarrow> sel_Attest s \<noteq> None)
   \<and> (sel_unwrapFrom s \<noteq> None \<longrightarrow> allow \<and> sel_Methods s = [MethodNIP44Decrypt])
   \<and> (sel_Counterparts s \<noteq> [] \<longrightarrow> sel_counterparts s \<noteq> None \<and> sel_Methods s \<noteq> [] \<and> MethodSignEvent \<notin> set (sel_Methods s))
   \<and> (sel_Kinds s \<noteq> [] \<or> sel_Tags s \<noteq> [] \<or> sel_TagsOne s \<noteq> [] \<longrightarrow> set (sel_Methods s) = {MethodSignEvent})
   \<and> (allow \<and> MethodNIP44MessageKeys \<in> set (sel_Methods s) \<longrightarrow> sel_counterparts s \<noteq> None)"

definition wf_attestation :: "LoadOptions \<Rightarrow> AttestationSpec \<Rightarrow> bool" where
  "wf_attestation opts a \<longleftrightarrow>
     att_Name a \<noteq> [] \<and> att_Kinds a \<noteq> [] \<and> 0 < att_MaxAge a \<and> att_MaxAge a \<le> MaxAttestationAge
   \<and> att_Binds a \<noteq> [] \<and> (\<forall>b \<in> set (att_Binds a). validateBind b = None)
   \<and> att_authors a \<noteq> []
   \<and> (SignerPub opts \<noteq> [] \<longrightarrow> to_lower (SignerPub opts) \<notin> set (att_authors a))
   \<and> (att_bindsID a \<longleftrightarrow> (\<exists>b \<in> set (att_Binds a). bindsID b))"

definition wf_rule :: "LoadOptions \<Rightarrow> Rule \<Rightarrow> bool" where
  "wf_rule opts r \<longleftrightarrow>
     rule_Name r \<noteq> []
   \<and> (rule_Allow r = None) \<noteq> (rule_Deny r = None)
   \<and> (\<forall>s. rule_Allow r = Some s \<longrightarrow> wf_selector True s)
   \<and> (\<forall>s. rule_Deny r = Some s \<longrightarrow> wf_selector False s)
   \<and> (rule_Deny r \<noteq> None \<longrightarrow> rule_Require r = None \<and> rule_rate r = None)
   \<and> (\<forall>s. rule_Allow r = Some s \<and> sel_Attest s \<noteq> None \<longrightarrow> rule_Require r = None \<and> rule_denyRe r = [])
   \<and> (\<forall>rt. rule_rate r = Some rt \<longrightarrow> 0 < rate_N rt \<and> rate_Per rt \<in> {second, minute, hour})
   \<and> (\<forall>q. rule_Require r = Some q \<longrightarrow> req_Attestations q \<noteq> [] \<and> distinct (map att_Name (req_Attestations q))
        \<and> (\<forall>a \<in> set (req_Attestations q). wf_attestation opts a)
        \<and> (\<exists>s. rule_Allow r = Some s \<and> onlySignEvent s))"

definition wf_policy :: "LoadOptions \<Rightarrow> Policy \<Rightarrow> bool" where
  "wf_policy opts p \<longleftrightarrow> pol_Rules p \<noteq> [] \<and> distinct (map rule_Name (pol_Rules p)) \<and> (\<forall>r \<in> set (pol_Rules p). wf_rule opts r)"

text \<open>
  The decoder leaves the unexported fields of the structures at their zero values. This is what
  Go's decoders do, and the only thing assumed of \<open>yaml.UnmarshalStrict\<close>.
\<close>

definition fresh_selector :: "Selector option \<Rightarrow> bool" where
  "fresh_selector so = (case so of None \<Rightarrow> True | Some s \<Rightarrow> sel_counterparts s = None \<and> sel_unwrapFrom s = None)"

definition fresh_rule :: "Rule \<Rightarrow> bool" where
  "fresh_rule r \<longleftrightarrow> fresh_selector (rule_Allow r) \<and> fresh_selector (rule_Deny r) \<and> rule_denyRe r = [] \<and> rule_rate r = None
     \<and> (\<forall>q. rule_Require r = Some q \<longrightarrow> (\<forall>a \<in> set (req_Attestations q). \<not> att_bindsID a))"

definition fresh_decode :: "(string \<Rightarrow> goerr + Policy) \<Rightarrow> bool" where
  "fresh_decode yaml \<longleftrightarrow> (\<forall>data p. yaml data = Inr p \<longrightarrow> (\<forall>r \<in> set (pol_Rules p). fresh_rule r) \<and> pol_Files p = [] \<and> pol_fileSums p = [])"

section \<open>The validation establishes it\<close>

lemma ParseRate_ok:
  "ParseRate s = Inr rt \<Longrightarrow> 0 < rate_N rt \<and> rate_Per rt \<in> {second, minute, hour}"
  by (auto simp: ParseRate_def split: option.splits if_splits prod.splits)

lemma validate_binds_ok:
  "validate_binds i bs = Inr byID \<Longrightarrow>
     (\<forall>b \<in> set bs. validateBind b = None) \<and> (byID \<longleftrightarrow> (\<exists>b \<in> set bs. bindsID b))"
  by (induction bs arbitrary: i byID) (auto split: option.splits)

lemma validateAttestation_ok:
  assumes "validateAttestation X fs a baseDir opts = Inr a'" "\<not> att_bindsID a"
  shows "wf_attestation opts a'"
  using assms validate_binds_ok
  unfolding validateAttestation_def wf_attestation_def Let_def
  by (fastforce split: if_splits prod.splits)

lemma validate_attestations_ok:
  assumes "validate_attestations X fs baseDir opts i seen as = Inr (as', files)"
    and "\<forall>a \<in> set as. \<not> att_bindsID a"
  shows "length as' = length as \<and> distinct (map att_Name as') \<and> set (map att_Name as') \<inter> set seen = {}
    \<and> (\<forall>a \<in> set as'. wf_attestation opts a)"
  using assms
proof (induction as arbitrary: i seen as' files)
  case Nil
  then show ?case by simp
next
  case (Cons a as)
  obtain b bs fs' where b: "validateAttestation X fs a baseDir opts = Inr b" "att_Name b \<notin> set seen"
    "validate_attestations X fs baseDir opts (Suc i) (att_Name b # seen) as = Inr (bs, fs')" "as' = b # bs"
    using Cons.prems(1) by (auto split: sum.splits if_splits)
  have "wf_attestation opts b" using b(1) Cons.prems(2) by (intro validateAttestation_ok) auto
  then show ?case using Cons.IH[OF b(3)] Cons.prems(2) b by auto
qed

lemma AttestSelector_validate_ok:
  "AttestSelector_validate X a allow = Inr a' \<Longrightarrow> (allow \<longrightarrow> as_MaxUntil a' \<noteq> None)"
  by (auto simp: AttestSelector_validate_def Let_def split: if_splits option.splits)

lemma find_None_set: "find P xs = None \<longleftrightarrow> (\<forall>x \<in> set xs. \<not> P x)"
  by (induction xs) auto

lemma default_methods_ok:
  assumes "default_methods s ef = Inr s'"
  shows "s' = s\<lparr>sel_Methods := sel_Methods s'\<rparr>"
    and "set (sel_Methods s) \<subseteq> set ruleMethods \<Longrightarrow> set (sel_Methods s') \<subseteq> set ruleMethods"
    and "sel_Methods s \<noteq> [] \<Longrightarrow> sel_Methods s' = sel_Methods s"
    and "ef \<Longrightarrow> set (sel_Methods s') = {MethodSignEvent}"
    and "sel_Counterparts s \<noteq> [] \<Longrightarrow> sel_Methods s' \<noteq> [] \<and> MethodSignEvent \<notin> set (sel_Methods s')"
proof -
  have no: "s' = s \<and> (\<forall>m \<in> set (sel_Methods s). \<not> (ef \<and> m \<noteq> MethodSignEvent \<or> sel_Counterparts s \<noteq> [] \<and> m = MethodSignEvent))"
    if "sel_Methods s \<noteq> []"
    using assms that by (auto simp: default_methods_def find_None_set split: option.splits if_splits)
  show "s' = s\<lparr>sel_Methods := sel_Methods s'\<rparr>"
    and "set (sel_Methods s) \<subseteq> set ruleMethods \<Longrightarrow> set (sel_Methods s') \<subseteq> set ruleMethods"
    and "sel_Methods s \<noteq> [] \<Longrightarrow> sel_Methods s' = sel_Methods s"
    and "ef \<Longrightarrow> set (sel_Methods s') = {MethodSignEvent}"
    and "sel_Counterparts s \<noteq> [] \<Longrightarrow> sel_Methods s' \<noteq> [] \<and> MethodSignEvent \<notin> set (sel_Methods s')"
    using assms no
    by (cases "sel_Methods s = []"; auto simp: default_methods_def ruleMethods_def neq_Nil_conv split: if_splits)+
qed

text \<open>What \<open>validateSelector\<close> alone establishes, before the checks that depend on the kind of rule.\<close>

definition valid_selector :: "Selector \<Rightarrow> bool" where
  "valid_selector s \<longleftrightarrow>
     set (sel_Methods s) \<subseteq> set ruleMethods
   \<and> (sel_Attest s \<noteq> None \<longrightarrow> sel_Methods s = [MethodAttest] \<and> sel_Counterparts s = [] \<and> sel_Kinds s = []
        \<and> sel_Tags s = [] \<and> sel_TagsOne s = [] \<and> sel_unwrapFrom s = None)
   \<and> (sel_unwrapFrom s \<noteq> None \<longrightarrow> sel_UnwrapFrom s \<noteq> [] \<and> sel_Methods s = [MethodNIP44Decrypt])
   \<and> (sel_Counterparts s \<noteq> [] \<longrightarrow> sel_counterparts s \<noteq> None \<and> sel_Methods s \<noteq> [] \<and> MethodSignEvent \<notin> set (sel_Methods s))
   \<and> (sel_Kinds s \<noteq> [] \<or> sel_Tags s \<noteq> [] \<or> sel_TagsOne s \<noteq> [] \<longrightarrow> set (sel_Methods s) = {MethodSignEvent})"

lemma validate_attest_fields_ok:
  assumes "validate_attest_fields s = Inr s'" "fresh_selector (Some s)"
  shows "valid_selector s' \<and> sel_Attest s' = sel_Attest s"
  using assms
  by (auto simp: validate_attest_fields_def valid_selector_def fresh_selector_def ruleMethods_def Let_def split: if_splits)

lemma validate_unwrap_from_ok:
  assumes "validate_unwrap_from X s = Inr s'" "fresh_selector (Some s)" "set (sel_Methods s) \<subseteq> set ruleMethods"
  shows "sel_Attest s' = sel_Attest s" "set (sel_Methods s') \<subseteq> set ruleMethods"
    "sel_unwrapFrom s' \<noteq> None \<Longrightarrow> sel_UnwrapFrom s' \<noteq> [] \<and> sel_Methods s' = [MethodNIP44Decrypt]"
  using assms by (auto simp: validate_unwrap_from_def fresh_selector_def ruleMethods_def Let_def split: if_splits)

lemma default_methods_valid:
  assumes d: "default_methods s (sel_Kinds s \<noteq> [] \<or> sel_Tags s \<noteq> [] \<or> sel_TagsOne s \<noteq> []) = Inr s'"
    and s: "sel_Attest s = None" "set (sel_Methods s) \<subseteq> set ruleMethods"
    and u: "sel_unwrapFrom s \<noteq> None \<Longrightarrow> sel_UnwrapFrom s \<noteq> [] \<and> sel_Methods s = [MethodNIP44Decrypt]"
  shows "sel_Attest s' = None" "valid_selector (s'\<lparr>sel_counterparts := Some ks\<rparr>)"
    "sel_Counterparts s' = [] \<Longrightarrow> valid_selector s'"
proof -
  note d' = default_methods_ok[OF d]
  obtain ms where ms: "s' = s\<lparr>sel_Methods := ms\<rparr>" using d'(1) by blast
  show "sel_Attest s' = None" using ms s by simp
  show "valid_selector (s'\<lparr>sel_counterparts := Some ks\<rparr>)" "sel_Counterparts s' = [] \<Longrightarrow> valid_selector s'"
    using d'(2-5) s u unfolding ms by (auto simp: valid_selector_def)
qed

lemma validateSelector_ok:
  assumes v: "validateSelector X s = Inr s'" and fr: "fresh_selector (Some s)"
  shows "valid_selector s' \<and> sel_Attest s' = sel_Attest s"
proof (cases "sel_Attest s")
  case (Some a)
  then show ?thesis using v fr validate_attest_fields_ok
    by (simp add: validateSelector_def split: option.splits)
next
  case None
  have ms: "set (sel_Methods s) \<subseteq> set ruleMethods"
    using v by (auto simp: validateSelector_def find_None_set split: option.splits)
  obtain s2 s3 where s2: "validate_unwrap_from X s = Inr s2"
    and s3: "default_methods s2 (sel_Kinds s2 \<noteq> [] \<or> sel_Tags s2 \<noteq> [] \<or> sel_TagsOne s2 \<noteq> []) = Inr s3"
    and s4: "validate_counterparts X s3 = Inr s'"
    using v None by (auto simp: validateSelector_def split: option.splits)
  note a = validate_unwrap_from_ok[OF s2 fr ms]
  note b = default_methods_valid[OF s3 _ a(2,3)]
  show ?thesis using s4 a(1) b None by (auto simp: validate_counterparts_def split: if_splits)
qed

section \<open>Rules\<close>

lemma Rule_selector_cases:
  assumes "(rule_Allow r = None) \<noteq> (rule_Deny r = None)" "Rule_selector r = Some s"
  shows "rule_Allow r = Some s \<and> rule_Deny r = None \<or> rule_Allow r = None \<and> rule_Deny r = Some s"
  using assms by (auto simp: Rule_selector_def split: option.splits)

definition wf_rule_selector :: "Rule \<Rightarrow> bool" where
  "wf_rule_selector r \<longleftrightarrow> rule_Name r \<noteq> [] \<and> (rule_Allow r = None) \<noteq> (rule_Deny r = None)
     \<and> (\<forall>s. rule_Allow r = Some s \<longrightarrow> wf_selector True s
          \<and> (sel_Attest s \<noteq> None \<longrightarrow> rule_Require r = None \<and> rule_DenyMatching r = []))
     \<and> (\<forall>s. rule_Deny r = Some s \<longrightarrow> wf_selector False s \<and> rule_Require r = None \<and> rule_Rate r = [] \<and> rule_DenyMatching r = [])"

text \<open>The last part of the validation of a selector, once \<open>validateSelector\<close> has passed.\<close>

lemma valid_to_wf_selector:
  assumes v: "valid_selector s" and a: "\<And>a. sel_Attest s = Some a \<Longrightarrow> allow \<Longrightarrow> as_MaxUntil a \<noteq> None"
    and b: "allow \<Longrightarrow> MethodAttest \<in> set (sel_Methods s) \<Longrightarrow> sel_Attest s \<noteq> None"
    and c: "\<not> allow \<Longrightarrow> sel_UnwrapFrom s = []"
    and d: "allow \<Longrightarrow> MethodNIP44MessageKeys \<in> set (sel_Methods s) \<Longrightarrow> sel_Counterparts s \<noteq> []"
  shows "wf_selector allow s"
  unfolding wf_selector_def
proof (intro conjI)
  show "set (sel_Methods s) \<subseteq> set ruleMethods" using v by (simp add: valid_selector_def)
  show "\<forall>x. sel_Attest s = Some x \<longrightarrow> sel_Methods s = [MethodAttest] \<and> (allow \<longrightarrow> as_MaxUntil x \<noteq> None)"
    using v a by (simp add: valid_selector_def)
  show "allow \<and> MethodAttest \<in> set (sel_Methods s) \<longrightarrow> sel_Attest s \<noteq> None" using b by blast
  show "sel_unwrapFrom s \<noteq> None \<longrightarrow> allow \<and> sel_Methods s = [MethodNIP44Decrypt]"
    using v c unfolding valid_selector_def by blast
  show "sel_Counterparts s \<noteq> [] \<longrightarrow> sel_counterparts s \<noteq> None \<and> sel_Methods s \<noteq> [] \<and> MethodSignEvent \<notin> set (sel_Methods s)"
    using v unfolding valid_selector_def by blast
  show "sel_Kinds s \<noteq> [] \<or> sel_Tags s \<noteq> [] \<or> sel_TagsOne s \<noteq> [] \<longrightarrow> set (sel_Methods s) = {MethodSignEvent}"
    using v unfolding valid_selector_def by blast
  show "allow \<and> MethodNIP44MessageKeys \<in> set (sel_Methods s) \<longrightarrow> sel_counterparts s \<noteq> None"
    using v d unfolding valid_selector_def by blast
qed

lemma validate_attest_rule_ok:
  assumes "validate_attest_rule X r s = Inr s'" "valid_selector s"
  shows "valid_selector s'"
    and "\<And>a. sel_Attest s' = Some a \<Longrightarrow> (rule_Allow r \<noteq> None \<longrightarrow> as_MaxUntil a \<noteq> None) \<and> rule_Require r = None \<and> rule_DenyMatching r = []"
    and "rule_Allow r \<noteq> None \<Longrightarrow> MethodAttest \<in> set (sel_Methods s') \<Longrightarrow> sel_Attest s' \<noteq> None"
  using assms AttestSelector_validate_ok
  by (auto simp: validate_attest_rule_def valid_selector_def split: option.splits if_splits)

lemma validate_rule_selector_ok:
  assumes v: "validate_rule_selector X r opts = Inr r'" and fr: "fresh_rule r"
  shows "wf_rule_selector r'" "\<exists>s. r' = set_selector r s"
proof -
  have one: "(rule_Allow r = None) \<noteq> (rule_Deny r = None)" "rule_Name r \<noteq> []"
    using v by (auto simp: validate_rule_selector_def split: if_splits)
  obtain s0 s1 s2 where s0: "Rule_selector r = Some s0" and s1: "validateSelector X s0 = Inr s1"
    and s2: "validate_attest_rule X r s1 = Inr s2" and s3: "check_rule_fields r s2 = None" "r' = set_selector r s2"
    using v by (auto simp: validate_rule_selector_def split: option.splits if_splits)
  have "fresh_selector (Some s0)"
    using Rule_selector_cases[OF one(1) s0] fr by (auto simp: fresh_rule_def)
  then have vs: "valid_selector s1" using validateSelector_ok[OF s1] by blast
  note a = validate_attest_rule_ok[OF s2 vs]
  have f: "rule_Deny r \<noteq> None \<Longrightarrow> sel_UnwrapFrom s2 = [] \<and> rule_Require r = None \<and> rule_Rate r = [] \<and> rule_DenyMatching r = []"
    "rule_Allow r \<noteq> None \<Longrightarrow> MethodNIP44MessageKeys \<in> set (sel_Methods s2) \<Longrightarrow> sel_Counterparts s2 \<noteq> []"
    using s3(1) one by (auto simp: check_rule_fields_def split: if_splits)
  have w: "wf_selector (rule_Allow r \<noteq> None) s2"
    using a f one by (intro valid_to_wf_selector) auto
  show "wf_rule_selector r'"
  proof (cases "rule_Allow r")
    case None
    then have "rule_Deny r \<noteq> None" using one by simp
    with None w f one show ?thesis by (auto simp: wf_rule_selector_def set_selector_def s3(2))
  next
    case (Some s)
    with a(2) w one show ?thesis by (auto simp: wf_rule_selector_def set_selector_def s3(2))
  qed
  show "\<exists>s. r' = set_selector r s" using s3(2) by blast
qed

lemma compile_patterns_Nil: "compile_patterns X i [] = Inr res \<longleftrightarrow> res = []"
  by auto

lemma set_selector_fields [simp]:
  "rule_Name (set_selector r s) = rule_Name r" "rule_Require (set_selector r s) = rule_Require r"
  "rule_denyRe (set_selector r s) = rule_denyRe r" "rule_rate (set_selector r s) = rule_rate r"
  "rule_DenyMatching (set_selector r s) = rule_DenyMatching r" "rule_Rate (set_selector r s) = rule_Rate r"
  by (simp_all add: set_selector_def)

text \<open>The second half: patterns, rate and requirements are filled in beside an already valid selector.\<close>

lemma wf_rule_intro:
  assumes w: "wf_rule_selector r1"
    and res: "compile_patterns X 1 (rule_DenyMatching r1) = Inr res"
    and rt: "\<And>x. rt = Some x \<Longrightarrow> 0 < rate_N x \<and> rate_Per x \<in> {second, minute, hour}" "rule_Rate r1 = [] \<Longrightarrow> rt = None"
    and fields: "rule_Name r = rule_Name r1" "rule_Allow r = rule_Allow r1" "rule_Deny r = rule_Deny r1"
      "rule_denyRe r = res" "rule_rate r = rt"
    and q: "\<And>x. rule_Require r = Some x \<Longrightarrow> rule_Require r1 \<noteq> None \<and> req_Attestations x \<noteq> []
        \<and> distinct (map att_Name (req_Attestations x)) \<and> (\<forall>a \<in> set (req_Attestations x). wf_attestation opts a)
        \<and> (\<exists>s. Rule_selector r1 = Some s \<and> onlySignEvent s)"
  shows "wf_rule opts r"
proof -
  have deny: "rule_Deny r1 \<noteq> None \<Longrightarrow> rule_Require r = None \<and> rt = None"
    using w q rt(2) by (cases "rule_Require r") (auto simp: wf_rule_selector_def)
  have att: "rule_Allow r1 = Some s \<Longrightarrow> sel_Attest s \<noteq> None \<Longrightarrow> rule_Require r = None \<and> res = []" for s
    using w q res by (cases "rule_Require r") (auto simp: wf_rule_selector_def)
  have sel: "rule_Require r = Some x \<Longrightarrow> \<exists>s. rule_Allow r1 = Some s \<and> onlySignEvent s" for x
    using q[of x] w by (auto simp: wf_rule_selector_def Rule_selector_def split: option.splits)
  show ?thesis
    unfolding wf_rule_def fields using w deny att sel q rt(1)
    by (auto simp: wf_rule_selector_def)
qed

lemma validateRule_ok:
  assumes v: "validateRule X fs r0 baseDir opts = Inr (r, files)" and fr: "fresh_rule r0"
  shows "wf_rule opts r"
proof -
  obtain r1 res rt where r1: "validate_rule_selector X r0 opts = Inr r1"
    and res: "compile_patterns X 1 (rule_DenyMatching r1) = Inr res"
    and rt: "(if rule_Rate r1 \<noteq> [] then try_bind (ParseRate (rule_Rate r1)) (\<lambda>rt. Inr (Some rt)) else Inr (rule_rate r1)) = Inr rt"
    using v unfolding validateRule_def try_bind_Inr by blast
  note w = validate_rule_selector_ok[OF r1 fr]
  have fr1: "rule_denyRe r1 = []" "rule_rate r1 = None" "rule_Require r1 = rule_Require r0"
    using w(2) fr by (auto simp: fresh_rule_def)
  have rt': "\<And>x. rt = Some x \<Longrightarrow> 0 < rate_N x \<and> rate_Per x \<in> {second, minute, hour}" "rule_Rate r1 = [] \<Longrightarrow> rt = None"
    using rt fr1 ParseRate_ok by (auto split: if_splits)
  define r2 where "r2 = r1\<lparr>rule_denyRe := res, rule_rate := rt\<rparr>"
  have sel2: "Rule_selector r2 = Rule_selector r1" by (simp add: r2_def Rule_selector_def split: option.split)
  have rest: "validate_require X fs r2 baseDir opts = Inr (r, files)"
    using v r1 res rt fr1 unfolding validateRule_def by (simp add: r2_def)
  show ?thesis
  proof (cases "rule_Require r2")
    case None
    then have "r = r2" using rest by (simp add: validate_require_def)
    then show ?thesis using w(1) res rt' None by (intro wf_rule_intro[of r1 X res rt]) (auto simp: r2_def)
  next
    case (Some q)
    then obtain sel as where s: "Rule_selector r1 = Some sel" "onlySignEvent sel" "req_Attestations q \<noteq> []"
      and as: "validate_attestations X fs baseDir opts 0 [] (req_Attestations q) = Inr (as, files)"
      and r: "r = r2\<lparr>rule_Require := Some (q\<lparr>req_Attestations := as\<rparr>)\<rparr>"
      using rest sel2 by (auto simp: validate_require_def split: option.splits if_splits)
    have "\<forall>a \<in> set (req_Attestations q). \<not> att_bindsID a"
      using Some fr fr1 by (auto simp: r2_def fresh_rule_def)
    note a = validate_attestations_ok[OF as this]
    show ?thesis using w(1) res rt' Some s a
      by (intro wf_rule_intro[of r1 X res rt]) (auto simp: r r2_def)
  qed
qed

lemma validate_rules_ok:
  assumes "validate_rules X fs baseDir opts i names rs = Inr (rs', files)" "\<forall>r \<in> set rs. fresh_rule r"
  shows "length rs' = length rs \<and> distinct (map rule_Name rs') \<and> set (map rule_Name rs') \<inter> set names = {}
    \<and> (\<forall>r \<in> set rs'. wf_rule opts r)"
  using assms
proof (induction rs arbitrary: i names rs' files)
  case Nil
  then show ?case by simp
next
  case (Cons r rs)
  obtain r' f1 ts f2 where b: "validateRule X fs r baseDir opts = Inr (r', f1)" "rule_Name r' \<notin> set names"
    "validate_rules X fs baseDir opts (Suc i) (rule_Name r' # names) rs = Inr (ts, f2)" "rs' = r' # ts"
    using Cons.prems(1) by (auto split: sum.splits if_splits)
  have "wf_rule opts r'" using b(1) Cons.prems(2) by (intro validateRule_ok) auto
  then show ?case using Cons.IH[OF b(3)] Cons.prems(2) b by auto
qed

lemma ParsePolicy_ok:
  assumes "ParsePolicy X yaml fs data baseDir opts = Inr p" "fresh_decode yaml"
  shows "wf_policy opts p" "length (pol_fileSums p) = length (pol_Files p)"
proof -
  obtain p0 rs files where p0: "yaml data = Inr p0" "pol_Rules p0 \<noteq> []"
    and rs: "validate_rules X fs baseDir opts 0 [] (pol_Rules p0) = Inr (rs, files)"
    and p: "p = p0\<lparr>pol_Rules := rs, pol_SHA256 := x_sha256 X data, pol_Files := pol_Files p0 @ map fst files,
      pol_fileSums := pol_fileSums p0 @ map snd files\<rparr>"
    using assms(1) by (auto simp: ParsePolicy_def split: if_splits)
  have fr: "\<forall>r \<in> set (pol_Rules p0). fresh_rule r" "pol_Files p0 = []" "pol_fileSums p0 = []"
    using assms(2) p0 by (auto simp: fresh_decode_def)
  have "rs \<noteq> []" using validate_rules_ok[OF rs fr(1)] p0(2) by auto
  then show "wf_policy opts p" using validate_rules_ok[OF rs fr(1)] by (auto simp: wf_policy_def p)
  show "length (pol_fileSums p) = length (pol_Files p)" using fr by (simp add: p)
qed

lemma ParsePolicy_SHA256: "ParsePolicy X yaml fs data baseDir opts = Inr p \<Longrightarrow> pol_SHA256 p = x_sha256 X data"
  by (auto simp: ParsePolicy_def split: if_splits)

lemma LoadPolicy_cases:
  assumes "LoadPolicy X yaml fs path opts = Inr p"
  obtains data p0 where "fs path = Some data" "ParsePolicy X yaml fs data (path_dir path) opts = Inr p0"
    "p = p0\<lparr>pol_Files := path # pol_Files p0, pol_fileSums := pol_SHA256 p0 # pol_fileSums p0\<rparr>"
  using assms by (auto simp: LoadPolicy_def split: option.splits sum.splits)

lemma LoadPolicy_ok:
  assumes l: "LoadPolicy X yaml fs path opts = Inr p" and f: "fresh_decode yaml"
  shows "wf_policy opts p" "length (pol_fileSums p) = length (pol_Files p)"
    "\<exists>data. fs path = Some data \<and> pol_SHA256 p = x_sha256 X data"
proof -
  obtain data p0 where d: "fs path = Some data" "ParsePolicy X yaml fs data (path_dir path) opts = Inr p0"
    "p = p0\<lparr>pol_Files := path # pol_Files p0, pol_fileSums := pol_SHA256 p0 # pol_fileSums p0\<rparr>"
    using l by (rule LoadPolicy_cases)
  have "pol_Rules p = pol_Rules p0" using d(3) by simp
  then show "wf_policy opts p" using ParsePolicy_ok(1)[OF d(2) f] by (simp add: wf_policy_def)
  show "length (pol_fileSums p) = length (pol_Files p)" using ParsePolicy_ok(2)[OF d(2) f] d(3) by simp
  show "\<exists>data. fs path = Some data \<and> pol_SHA256 p = x_sha256 X data" using d ParsePolicy_SHA256[OF d(2)] by auto
qed

end
