(* ===== verification/Signer_Attest.thy ===== *)
theory Signer_Attest
  imports Signer_Policy_Valid
begin

text \<open>
  The check of one attestation against one requirement (\<open>signer/attest.go\<close>): signature, author,
  kind, age, replay and the binds that tie it to the event to sign.
\<close>

section \<open>Helpers\<close>

definition unixTime :: "64 word \<Rightarrow> gtime" where
  "unixTime s = time_Unix (sint s)"

definition containsInt :: "int list \<Rightarrow> int \<Rightarrow> bool" where
  "containsInt xs x \<longleftrightarrow> x \<in> set xs"

definition tagValues :: "event \<Rightarrow> string \<Rightarrow> string list" where
  "tagValues ev name = map (\<lambda>t. t ! 1) (filter (\<lambda>t. 2 \<le> length t \<and> hd t = name) (ev_Tags ev))"

lemma in_tagValues:
  "v \<in> set (tagValues ev name) \<longleftrightarrow> (\<exists>t \<in> set (ev_Tags ev). 2 \<le> length t \<and> t ! 0 = name \<and> t ! 1 = v)"
proof -
  have "hd t = t ! 0" if "2 \<le> length t" for t :: "string list"
    using that by (cases t) auto
  then show ?thesis by (force simp: tagValues_def)
qed

text \<open>The events' creation times, when they are close to a reading of the clock, are the instants they name.\<close>

lemma unixTime_recent:
  assumes "clock_ok now" "min_int64 \<le> d" "d < max_int64" "time_sub now (unixTime s) \<le> d"
  shows "unixTime s = (sint s + unix_to_internal) * second"
  using time_Unix_recent[OF sint_in_int64 assms(1) assms(3,2)] assms(4) by (simp add: unixTime_def)

section \<open>Templates and binds\<close>

definition expandTemplate :: "string \<Rightarrow> event \<Rightarrow> goerr + string list" where
  "expandTemplate t target =
     (let base = replace_all t ''{id}'' (ev_ID target) in
      case find_placeholder base of
        None \<Rightarrow> Inr [base]
      | Some (m, _) \<Rightarrow>
          let u = trim_prefix m ''tag:''; vals = tagValues target u in
          if vals = [] then Inl (Err ''target has no %q tag'' [u])
          else Inr (map (\<lambda>v. replace_all base (''{tag:'' @ u @ ''}'') v) vals))"

definition checkBind :: "Bind \<Rightarrow> event \<Rightarrow> event \<Rightarrow> goerr option" where
  "checkBind b att target = (case bind_Content b of
     Some t \<Rightarrow> (case expandTemplate t target of
         Inl e \<Rightarrow> Some e
       | Inr want \<Rightarrow>
           if \<exists>w \<in> set want. trim_space (ev_Content att) \<noteq> trim_space w
             then Some (Err ''content does not match'' []) else None)
   | None \<Rightarrow> (case bind_ContentContains b of
       Some t \<Rightarrow> (case expandTemplate t target of
           Inl e \<Rightarrow> Some e
         | Inr want \<Rightarrow>
             if \<exists>w \<in> set want. \<not> contains (ev_Content att) w
               then Some (Err ''content does not contain the expected text'' []) else None)
     | None \<Rightarrow>
         let u = trim_prefix (bind_From b) ''tag:'';
             want = (if bind_From b = ''id'' then [ev_ID target] else tagValues target u) in
         if bind_From b \<noteq> ''id'' \<and> want = [] then Some (Err ''target has no %q tag'' [u])
         else (case find (\<lambda>w. w \<notin> set (tagValues att (bind_Tag b))) want of
             Some w \<Rightarrow> Some (Err ''missing tag [%q, %q]'' [bind_Tag b, w])
           | None \<Rightarrow> None)))"

fun checkBinds :: "nat \<Rightarrow> Bind list \<Rightarrow> event \<Rightarrow> event \<Rightarrow> goerr option" where
  "checkBinds i [] att target = None"
| "checkBinds i (b # bs) att target = (case checkBind b att target of
     Some e \<Rightarrow> Some (Wrap ''bind #%d not satisfied'' [itoa (int i)] e)
   | None \<Rightarrow> checkBinds (Suc i) bs att target)"

lemma checkBinds_None: "checkBinds i bs att target = None \<longleftrightarrow> (\<forall>b \<in> set bs. checkBind b att target = None)"
  by (induction bs arbitrary: i) (auto split: option.splits)

text \<open>
  A bind on the target's id holds exactly for the attestations that carry the tag with that id.
\<close>

lemma checkBind_id:
  assumes "bind_Content b = None" "bind_ContentContains b = None" "bind_From b = ''id''"
  shows "checkBind b att target = None \<longleftrightarrow> (\<exists>t \<in> set (ev_Tags att). 2 \<le> length t \<and> t ! 0 = bind_Tag b \<and> t ! 1 = ev_ID target)"
  using assms by (auto simp: checkBind_def in_tagValues split: option.splits)

section \<open>The check\<close>

record attestContext =
  ctx_Target :: event
  ctx_Now :: gtime
  ctx_StartTime :: gtime
  ctx_Skew :: duration
  ctx_SignerPub :: string
  ctx_Used :: "(string \<Rightarrow> bool) option"

definition checkAttestation :: "externals \<Rightarrow> event option \<Rightarrow> AttestationSpec \<Rightarrow> attestContext \<Rightarrow> goerr option" where
  "checkAttestation X attp spec c = (case attp of
     None \<Rightarrow> Some (Err ''missing'' [])
   | Some att \<Rightarrow>
      let created = unixTime (ev_CreatedAt att) in
      if \<not> x_Verify X att then Some (Err ''bad signature'' [])
      else if equal_fold (ev_PubKey att) (ctx_SignerPub c) then Some (Err ''signed by the signer itself'' [])
      else if \<not> containsInt (att_Kinds spec) (ev_Kind att) then Some (Err ''wrong kind %d'' [itoa (ev_Kind att)])
      else if to_lower (ev_PubKey att) \<notin> set (att_authors spec) then Some (Err ''author not allowed'' [])
      else if created > time_add (ctx_Now c) (ctx_Skew c) then Some (Err ''future-dated'' [])
      else if time_sub (ctx_Now c) created > att_MaxAge spec then Some (Err ''stale (older than %s)'' [])
      else if ctx_StartTime c \<noteq> 0 \<and> created < time_add (ctx_StartTime c) (- ctx_Skew c)
        then Some (Err ''created before the signer started'' [])
      else if (case ctx_Used c of None \<Rightarrow> False | Some used \<Rightarrow> used (ev_ID att)) then Some (Err ''already used'' [])
      else (case checkBinds 1 (att_Binds spec) att (ctx_Target c) of
          Some e \<Rightarrow> Some e
        | None \<Rightarrow>
            if att_bindsID spec \<and> time_add created (ctx_Skew c) < unixTime (ev_CreatedAt (ctx_Target c))
              then Some (Err ''predates the target event'' []) else None))"

text \<open>What an accepted attestation is known to satisfy, fact by fact.\<close>

lemma checkAttestation_NoneD:
  assumes "checkAttestation X (Some att) spec c = None"
  shows "x_Verify X att" "\<not> equal_fold (ev_PubKey att) (ctx_SignerPub c)"
    "ev_Kind att \<in> set (att_Kinds spec)" "to_lower (ev_PubKey att) \<in> set (att_authors spec)"
    "unixTime (ev_CreatedAt att) \<le> time_add (ctx_Now c) (ctx_Skew c)"
    "time_sub (ctx_Now c) (unixTime (ev_CreatedAt att)) \<le> att_MaxAge spec"
    "ctx_StartTime c \<noteq> 0 \<Longrightarrow> time_add (ctx_StartTime c) (- ctx_Skew c) \<le> unixTime (ev_CreatedAt att)"
    "ctx_Used c = Some used \<Longrightarrow> \<not> used (ev_ID att)"
    "\<forall>b \<in> set (att_Binds spec). checkBind b att (ctx_Target c) = None"
    "att_bindsID spec \<Longrightarrow> unixTime (ev_CreatedAt (ctx_Target c)) \<le> time_add (unixTime (ev_CreatedAt att)) (ctx_Skew c)"
  using assms
  by (auto simp: checkAttestation_def checkBinds_None containsInt_def Let_def split: if_splits option.splits)

lemma checkAttestation_nil [simp]: "checkAttestation X None spec c \<noteq> None"
  by (simp add: checkAttestation_def)

end
