(* ===== verification/Signer_NipOA.thy ===== *)
theory Signer_NipOA
  imports Signer_Attest
begin

text \<open>
  Requests, and the signer's own method \<open>nipoa_attest\<close> (\<open>signer/nipoa.go\<close>): which subordinate keys and
  which conditions a rule lets the signer attest.
\<close>

record Request =
  rq_Method :: string
  rq_Event :: "event option"
  rq_Counterpart :: string
  rq_Plaintext :: string
  rq_Attestations :: "event option list"
  rq_Subordinate :: string
  rq_Conditions :: string
  rq_Now :: gtime
  rq_StartTime :: gtime
  rq_SignerPub :: string

definition AttestSelector_matches :: "AttestSelector \<Rightarrow> string \<Rightarrow> bool" where
  "AttestSelector_matches a subordinate \<longleftrightarrow> as_any a \<or> subordinate \<in> set (as_subs a)"

text \<open>
  \<open>AttestSelector.check\<close>: the reason \<open>conds\<close> may not be attested, \<open>None\<close> for the empty string. Dereferencing
  a nil \<open>MaxUntil\<close> panics.
\<close>

definition AttestSelector_check :: "AttestSelector \<Rightarrow> conditions \<Rightarrow> gtime \<Rightarrow> goerr option go" where
  "AttestSelector_check a conds now = (case CreatedAtLT conds of
     [] \<Rightarrow> Ret (Some (Err ''conditions have no created_at< bound'' []))
   | t0 # ts \<Rightarrow>
      let until = fold (\<lambda>t u. min u t) ts t0 in
      if sint until \<le> time_unix now then Ret (Some (Err ''conditions' created_at< bound has already passed'' []))
      else (case as_MaxUntil a of
          None \<Rightarrow> Panic
        | Some m \<Rightarrow>
            if sint until > time_unix (time_add now m) then Ret (Some (Err ''conditions' created_at< bound is beyond max_until (%s)'' []))
            else if as_Kinds a \<noteq> [] then
              (if cond_Kinds conds = [] then Ret (Some (Err ''conditions have no kind= clause'' []))
               else (case find (\<lambda>k. \<not> containsInt (as_Kinds a) k) (cond_Kinds conds) of
                   Some k \<Rightarrow> Ret (Some (Err ''kind %d is not one the rule allows'' [itoa k]))
                 | None \<Rightarrow> Ret None))
            else Ret None))"

definition parseAttestRequest :: "externals \<Rightarrow> Request \<Rightarrow> goerr + conditions" where
  "parseAttestRequest X req =
     (let sub = rq_Subordinate req in
      if length sub \<noteq> 64 \<or> to_lower sub \<noteq> sub \<or> \<not> x_Validate32Key X sub
        then Inl (Err ''subordinate must be a 64-char lowercase hex pubkey'' [])
      else if equal_fold sub (rq_SignerPub req) then Inl (Err ''a key can't attest itself'' [])
      else (case x_ParseConditions X (rq_Conditions req) of
          None \<Rightarrow> Inl (Err ''conditions: %v'' [rq_Conditions req])
        | Some conds \<Rightarrow> Inr conds))"

definition AttestationConditions :: "int list \<Rightarrow> gtime \<Rightarrow> string" where
  "AttestationConditions kinds until =
     join (map (\<lambda>k. ''kind='' @ itoa k) kinds
           @ (if until \<noteq> 0 then [''created_at<'' @ itoa (time_unix until)] else [])) ''&''"

text \<open>
  \<open>SignAttestation\<close>. \<open>newKey\<close> is \<open>nipOA.NewKeySigner\<close>, giving the key's public key, and \<open>sign\<close> is \<open>nipOA.Sign\<close>,
  giving the attestation's tag; its fourth element is the signature.
\<close>

definition empty_request :: Request where
  "empty_request = \<lparr>rq_Method = [], rq_Event = None, rq_Counterpart = [], rq_Plaintext = [], rq_Attestations = [],
     rq_Subordinate = [], rq_Conditions = [], rq_Now = 0, rq_StartTime = 0, rq_SignerPub = []\<rparr>"

definition SignAttestation ::
  "externals \<Rightarrow> (string \<Rightarrow> string option) \<Rightarrow> (string \<Rightarrow> string \<Rightarrow> string \<Rightarrow> string list option)
     \<Rightarrow> string \<Rightarrow> string \<Rightarrow> string \<Rightarrow> (goerr + string) go" where
  "SignAttestation X newKey sign privKeyHex subordinate conds = (case newKey privKeyHex of
     None \<Rightarrow> Ret (Inl (Err ''invalid private key'' []))
   | Some pub \<Rightarrow>
      (case parseAttestRequest X (empty_request\<lparr>rq_Subordinate := subordinate, rq_Conditions := conds, rq_SignerPub := pub\<rparr>) of
         Inl reason \<Rightarrow> Ret (Inl reason)
       | Inr _ \<Rightarrow>
          (case sign privKeyHex subordinate conds of
             None \<Rightarrow> Ret (Inl (Err ''sign'' []))
           | Some tag \<Rightarrow> if 3 < length tag then Ret (Inr (tag ! 3)) else Panic)))"

definition AuthTag :: "string \<Rightarrow> string \<Rightarrow> string \<Rightarrow> string list" where
  "AuthTag attester conds sig = [''auth'', attester, conds, sig]"

section \<open>What is attested\<close>

lemma fold_min_least:
  fixes b :: "'a :: linorder"
  shows "fold (\<lambda>t u. min u t) ts b \<in> set (b # ts) \<and> (\<forall>t \<in> set (b # ts). fold (\<lambda>t u. min u t) ts b \<le> t)"
proof (induction ts arbitrary: b)
  case Nil
  then show ?case by simp
next
  case (Cons t ts)
  have "fold (\<lambda>t u. min u t) ts (min b t) \<in> set (min b t # ts)"
    "\<forall>x \<in> set (min b t # ts). fold (\<lambda>t u. min u t) ts (min b t) \<le> x"
    using Cons by blast+
  then show ?case by (auto simp: min_def split: if_splits)
qed

text \<open>The earliest \<open>created_at<\<close> bound of the attested conditions lies in the future, at most \<open>max_until\<close> ahead.\<close>

lemma AttestSelector_check_until:
  assumes "AttestSelector_check a conds now = Ret None"
  shows "\<exists>until m. until \<in> set (CreatedAtLT conds) \<and> (\<forall>t \<in> set (CreatedAtLT conds). until \<le> t) \<and> as_MaxUntil a = Some m
     \<and> time_unix now < sint until \<and> sint until \<le> time_unix (time_add now m)"
proof -
  obtain t0 ts where ts: "CreatedAtLT conds = t0 # ts"
    using assms by (auto simp: AttestSelector_check_def split: list.splits)
  define until where "until = fold (\<lambda>t u. min u t) ts t0"
  have "until \<in> set (t0 # ts)" "\<forall>t \<in> set (t0 # ts). until \<le> t"
    using fold_min_least[where ts = ts and b = t0] unfolding until_def by blast+
  moreover have "\<exists>m. as_MaxUntil a = Some m \<and> time_unix now < sint until \<and> sint until \<le> time_unix (time_add now m)"
    using assms by (auto simp: AttestSelector_check_def ts until_def Let_def split: if_splits option.splits)
  ultimately show ?thesis unfolding ts by blast
qed

lemma AttestSelector_check_kinds:
  assumes "AttestSelector_check a conds now = Ret None" "as_Kinds a \<noteq> []"
  shows "cond_Kinds conds \<noteq> [] \<and> set (cond_Kinds conds) \<subseteq> set (as_Kinds a)"
  using assms
  by (auto simp: AttestSelector_check_def containsInt_def find_None_set Let_def split: list.splits if_splits option.splits)

lemma AttestSelector_check_returns: "as_MaxUntil a \<noteq> None \<Longrightarrow> returns (AttestSelector_check a conds now)"
  by (auto simp: AttestSelector_check_def Let_def split: list.splits option.splits)

lemma parseAttestRequest_ok:
  "parseAttestRequest X req = Inr conds \<Longrightarrow>
     length (rq_Subordinate req) = 64 \<and> x_Validate32Key X (rq_Subordinate req)
   \<and> \<not> equal_fold (rq_Subordinate req) (rq_SignerPub req) \<and> x_ParseConditions X (rq_Conditions req) = Some conds"
  by (auto simp: parseAttestRequest_def Let_def split: if_splits option.splits)

end
