(* ===== verification/Signer_Evaluate.thy ===== *)
theory Signer_Evaluate
  imports Signer_NipOA
begin

text \<open>
  The policy decision (\<open>signer/evaluate.go\<close>): selectors, the deny patterns, the assignment of
  attestations to requirements by backtracking, and \<open>Evaluate\<close>. A function that could dereference a
  nil pointer returns a \<open>go\<close> value.
\<close>

section \<open>Selectors\<close>

definition containsString :: "string list \<Rightarrow> string \<Rightarrow> bool" where
  "containsString xs x \<longleftrightarrow> x \<in> set xs"

text \<open>One pattern: a prefix when it ends in \<open>*\<close>, else the exact value.\<close>

definition pattern_matches :: "string \<Rightarrow> string \<Rightarrow> bool" where
  "pattern_matches p v = (case cut_suffix p ''*'' of Some pre \<Rightarrow> has_prefix v pre | None \<Rightarrow> v = p)"

definition anyTagMatches :: "string list \<Rightarrow> string list \<Rightarrow> bool" where
  "anyTagMatches values patterns \<longleftrightarrow> (\<exists>v \<in> set values. \<exists>p \<in> set patterns. pattern_matches p v)"

text \<open>The loop of \<open>oneTagMatches\<close> over the tags: \<open>None\<close> when it returns false at once, else the values found.\<close>

fun one_tag_values :: "string \<Rightarrow> string list list \<Rightarrow> string list \<Rightarrow> string list option" where
  "one_tag_values name [] found = Some found"
| "one_tag_values name (t # ts) found =
     (if t = [] \<or> hd t \<noteq> name then one_tag_values name ts found
      else if length t < 2 \<or> found \<noteq> [] then None
      else one_tag_values name ts (found @ [t ! 1]))"

definition oneTagMatches :: "event \<Rightarrow> string \<Rightarrow> string list \<Rightarrow> bool" where
  "oneTagMatches ev name patterns = (case one_tag_values name (ev_Tags ev) [] of
     None \<Rightarrow> False
   | Some found \<Rightarrow> length found = 1 \<and> anyTagMatches found patterns)"

definition matches :: "Selector \<Rightarrow> Request \<Rightarrow> bool go" where
  "matches s req =
     (if sel_Methods s \<noteq> [] \<and> \<not> containsString (sel_Methods s) (rq_Method req) then Ret False
      else (case sel_Attest s of
        Some a \<Rightarrow> Ret (rq_Method req = MethodAttest \<and> AttestSelector_matches a (rq_Subordinate req))
      | None \<Rightarrow>
          if (case sel_counterparts s of None \<Rightarrow> False | Some ks \<Rightarrow> to_lower (rq_Counterpart req) \<notin> set ks) then Ret False
          else if rq_Method req \<noteq> MethodSignEvent then Ret True
          else if sel_Kinds s = [] \<and> sel_Tags s = [] \<and> sel_TagsOne s = [] then Ret True
          else (case rq_Event req of
              None \<Rightarrow> Panic
            | Some ev \<Rightarrow> Ret ((sel_Kinds s = [] \<or> containsInt (sel_Kinds s) (ev_Kind ev))
                \<and> (\<forall>(name, patterns) \<in> set (sel_Tags s). anyTagMatches (tagValues ev name) patterns)
                \<and> (\<forall>(name, patterns) \<in> set (sel_TagsOne s). oneTagMatches ev name patterns)))))"

text \<open>The search for the rule that decides: the first one that is not skipped and matches.\<close>

definition skips :: "Request \<Rightarrow> Rule \<Rightarrow> bool" where
  "skips req r \<longleftrightarrow> rq_Method req = MethodAttest \<and> (case rule_Allow r of None \<Rightarrow> False | Some s \<Rightarrow> sel_Attest s = None)"

fun find_rule :: "Request \<Rightarrow> Rule list \<Rightarrow> Rule option go" where
  "find_rule req [] = Ret None"
| "find_rule req (r # rs) =
     (if skips req r then find_rule req rs
      else (case Rule_selector r of
          None \<Rightarrow> Panic
        | Some s \<Rightarrow> (case matches s req of
            Panic \<Rightarrow> Panic
          | Ret True \<Rightarrow> Ret (Some r)
          | Ret False \<Rightarrow> find_rule req rs)))"

section \<open>Deny patterns\<close>

text \<open>The loop of \<open>matchDenyPatterns\<close> from pattern number \<open>i\<close>; \<open>None\<close> is the empty reason.\<close>

fun match_deny :: "nat \<Rightarrow> (string \<Rightarrow> bool) list \<Rightarrow> Request \<Rightarrow> goerr option go" where
  "match_deny i [] req = Ret None"
| "match_deny i (re # res) req =
     (if rq_Method req = MethodSignEvent then
        (case rq_Event req of
           None \<Rightarrow> Panic
         | Some ev \<Rightarrow>
             if re (ev_Content ev) then Ret (Some (Err ''content matches deny_matching pattern #%d'' [itoa (int i)]))
             else if \<exists>t \<in> set (ev_Tags ev). \<exists>v \<in> set t. re v
               then Ret (Some (Err ''tag value matches deny_matching pattern #%d'' [itoa (int i)]))
             else match_deny (Suc i) res req)
      else if re (rq_Plaintext req) then Ret (Some (Err ''plaintext matches deny_matching pattern #%d'' [itoa (int i)]))
      else match_deny (Suc i) res req)"

definition matchDenyPatterns :: "Rule \<Rightarrow> Request \<Rightarrow> goerr option go" where
  "matchDenyPatterns rule req = match_deny 1 (rule_denyRe rule) req"

section \<open>Assigning attestations\<close>

text \<open>
  The closure \<open>solve\<close>: \<open>ok\<close> holds, for the requirements left, the reasons each attestation fails
  (\<open>None\<close> when it satisfies the requirement), \<open>taken\<close> the attestations already assigned. The first
  assignment found, in the order of the attestations, is returned.
\<close>

fun solve :: "goerr option list list \<Rightarrow> bool list \<Rightarrow> nat list option" where
  "solve [] taken = Some []"
| "solve (row # rows) taken =
     first_some (\<lambda>a. if taken ! a \<or> row ! a \<noteq> None then None
                     else map_option (Cons a) (solve rows (taken[a := True]))) [0..<length taken]"

text \<open>
  The loop that looks for a reason: whether some attestation satisfies the requirement, and the
  reason picked so far. Reading the kind of a nil attestation panics.
\<close>

fun scan_reason :: "int list \<Rightarrow> goerr option list \<Rightarrow> event option list \<Rightarrow> goerr option \<Rightarrow> (bool \<times> goerr option) go" where
  "scan_reason kinds (ok # oks) (a # as) reason = (case ok of
     None \<Rightarrow> Ret (True, reason)
   | Some e \<Rightarrow>
       if reason = None then scan_reason kinds oks as (Some e)
       else (case a of
           None \<Rightarrow> Panic
         | Some ev \<Rightarrow> scan_reason kinds oks as (if containsInt kinds (ev_Kind ev) then Some e else reason)))"
| "scan_reason kinds _ _ reason = Ret (False, reason)"

fun failure_reason :: "AttestationSpec list \<Rightarrow> goerr option list list \<Rightarrow> event option list \<Rightarrow> goerr go" where
  "failure_reason (spec # specs) (row # rows) atts = (case scan_reason (att_Kinds spec) row atts None of
     Panic \<Rightarrow> Panic
   | Ret (True, _) \<Rightarrow> failure_reason specs rows atts
   | Ret (False, None) \<Rightarrow> Ret (Err ''attestation %q required'' [att_Name spec])
   | Ret (False, Some e) \<Rightarrow> Ret (Wrap ''attestation %q'' [att_Name spec] e))"
| "failure_reason _ _ atts = Ret (Err ''attestations: one event cannot satisfy more than one requirement'' [])"

definition ok_matrix :: "externals \<Rightarrow> AttestationSpec list \<Rightarrow> event option list \<Rightarrow> attestContext \<Rightarrow> goerr option list list" where
  "ok_matrix X specs atts c = map (\<lambda>spec. map (\<lambda>a. checkAttestation X a spec c) atts) specs"

definition assignAttestations ::
  "externals \<Rightarrow> AttestationSpec list \<Rightarrow> event option list \<Rightarrow> attestContext \<Rightarrow> (goerr + nat list) go" where
  "assignAttestations X specs atts c =
     (let ok = ok_matrix X specs atts c in
      case solve ok (replicate (length atts) False) of
        Some picked \<Rightarrow> Ret (Inr picked)
      | None \<Rightarrow> (case failure_reason specs ok atts of Panic \<Rightarrow> Panic | Ret e \<Rightarrow> Ret (Inl e)))"

section \<open>Evaluate\<close>

abbreviation nip59MaxBackdate :: duration where "nip59MaxBackdate \<equiv> 48 * hour"

record Decision =
  d_Allow :: bool
  d_Rule :: string
  d_Reason :: "goerr option"
  d_Consumed :: "string list"
  d_Rate :: "Rate option"
  d_UnwrapFrom :: "string list option"

definition deny :: "string \<Rightarrow> goerr \<Rightarrow> Decision" where
  "deny rule reason = \<lparr>d_Allow = False, d_Rule = rule, d_Reason = Some reason, d_Consumed = [], d_Rate = None, d_UnwrapFrom = None\<rparr>"

definition CheckUnwrapResult :: "externals \<Rightarrow> Decision \<Rightarrow> string \<Rightarrow> goerr option" where
  "CheckUnwrapResult X d result = (case d_UnwrapFrom d of
     None \<Rightarrow> None
   | Some from \<Rightarrow> (case x_UnmarshalEvent X result of
        None \<Rightarrow> Some (Err ''result is not a seal'' [])
      | Some seal \<Rightarrow>
          if ev_Kind seal \<noteq> KindSeal then Some (Err ''result is not a seal'' [])
          else if \<not> x_VerifyNoPow X seal then Some (Err ''seal does not verify'' [])
          else if to_lower (ev_PubKey seal) \<notin> set from then Some (Err ''seal is from a sender unwrap_from does not list'' [])
          else None))"

text \<open>The checks of the request's own shape, before any rule is looked at.\<close>

definition check_request :: "externals \<Rightarrow> Request \<Rightarrow> Policy \<Rightarrow> goerr + conditions option" where
  "check_request X req p =
     (if rq_Method req \<notin> set ruleMethods then Inl (Err ''unsupported method %s'' [rq_Method req])
      else if rq_Method req = MethodAttest then
        (case parseAttestRequest X req of Inl reason \<Rightarrow> Inl reason | Inr conds \<Rightarrow> Inr (Some conds))
      else if rq_Method req = MethodSignEvent then
        (case rq_Event req of
           None \<Rightarrow> Inl (Err ''missing event'' [])
         | Some ev \<Rightarrow>
             if \<not> equal_fold (ev_PubKey ev) (rq_SignerPub req) then Inl (Err ''event pubkey does not match the signer'' [])
             else if unixTime (ev_CreatedAt ev) > time_add (rq_Now req) (Skew p) then Inl (Err ''event created_at is in the future'' [])
             else Inr None)
      else Inr None)"

text \<open>The ids of the attestations picked.\<close>

fun consumed_ids :: "event option list \<Rightarrow> nat list \<Rightarrow> string list go" where
  "consumed_ids atts [] = Ret []"
| "consumed_ids atts (i # is) = (case (if i < length atts then atts ! i else None) of
     None \<Rightarrow> Panic
   | Some a \<Rightarrow> (case consumed_ids atts is of Panic \<Rightarrow> Panic | Ret ids \<Rightarrow> Ret (ev_ID a # ids)))"

text \<open>The age an event may have under the requirements, and the longer one of a seal.\<close>

definition bound_age :: "AttestationSpec list \<Rightarrow> duration \<Rightarrow> duration" where
  "bound_age specs age0 = foldl (\<lambda>age spec. if att_bindsID spec \<and> att_MaxAge spec > age then att_MaxAge spec else age) age0 specs"

definition seal_age :: "event \<Rightarrow> duration \<Rightarrow> duration \<Rightarrow> duration" where
  "seal_age ev skew age =
     (if ev_Kind ev = KindSeal \<and> wrap64 (nip59MaxBackdate + skew) > age then wrap64 (nip59MaxBackdate + skew) else age)"

text \<open>A \<open>sign_event\<close> under an allow rule: its attestations, then its age.\<close>

definition decide_sign :: "externals \<Rightarrow> Request \<Rightarrow> Policy \<Rightarrow> (string \<Rightarrow> bool) \<Rightarrow> Rule \<Rightarrow> event \<Rightarrow> Decision go" where
  "decide_sign X req p used rule ev =
     (let skew = ruleSkew p rule;
          specs = (case rule_Require rule of None \<Rightarrow> [] | Some q \<Rightarrow> req_Attestations q);
          ctx = \<lparr>ctx_Target = ev, ctx_Now = rq_Now req, ctx_StartTime = rq_StartTime req, ctx_Skew = skew,
                 ctx_SignerPub = rq_SignerPub req, ctx_Used = Some used\<rparr>;
          finish = (\<lambda>consumed.
            let maxAge = seal_age ev skew (bound_age specs skew); created = unixTime (ev_CreatedAt ev) in
            if created > time_add (rq_Now req) skew then deny (rule_Name rule) (Err ''event created_at is in the future'' [])
            else if time_sub (rq_Now req) created > maxAge then deny (rule_Name rule) (Err ''event created_at is too old (limit %s)'' [])
            else \<lparr>d_Allow = True, d_Rule = rule_Name rule, d_Reason = None, d_Consumed = consumed, d_Rate = rule_rate rule,
                  d_UnwrapFrom = (case Rule_selector rule of None \<Rightarrow> None | Some s \<Rightarrow> sel_unwrapFrom s)\<rparr>)
      in case rule_Require rule of
           None \<Rightarrow> Ret (finish [])
         | Some q \<Rightarrow>
            (case assignAttestations X specs (rq_Attestations req) ctx of
               Panic \<Rightarrow> Panic
             | Ret (Inl reason) \<Rightarrow> Ret (deny (rule_Name rule) reason)
             | Ret (Inr picked) \<Rightarrow> (case consumed_ids (rq_Attestations req) picked of
                 Panic \<Rightarrow> Panic
               | Ret consumed \<Rightarrow> Ret (finish consumed))))"

text \<open>The decision once a rule is found.\<close>

definition decide_rule ::
  "externals \<Rightarrow> Request \<Rightarrow> Policy \<Rightarrow> (string \<Rightarrow> bool) \<Rightarrow> conditions option \<Rightarrow> Rule \<Rightarrow> Decision go" where
  "decide_rule X req p used condso rule =
     (if rule_Deny rule \<noteq> None then Ret (deny (rule_Name rule) (Err ''denied by rule'' []))
      else (case matchDenyPatterns rule req of
          Panic \<Rightarrow> Panic
        | Ret (Some reason) \<Rightarrow> Ret (deny (rule_Name rule) reason)
        | Ret None \<Rightarrow>
            if rq_Method req = MethodAttest then
              (case (rule_Allow rule, condso) of
                 (Some s, Some conds) \<Rightarrow> (case sel_Attest s of
                     None \<Rightarrow> Panic
                   | Some a \<Rightarrow> (case AttestSelector_check a conds (rq_Now req) of
                       Panic \<Rightarrow> Panic
                     | Ret (Some reason) \<Rightarrow> Ret (deny (rule_Name rule) reason)
                     | Ret None \<Rightarrow> Ret \<lparr>d_Allow = True, d_Rule = rule_Name rule, d_Reason = None, d_Consumed = [],
                         d_Rate = rule_rate rule, d_UnwrapFrom = None\<rparr>))
               | _ \<Rightarrow> Panic)
            else if rq_Method req = MethodSignEvent then
              (case rq_Event req of None \<Rightarrow> Panic | Some ev \<Rightarrow> decide_sign X req p used rule ev)
            else Ret \<lparr>d_Allow = True, d_Rule = rule_Name rule, d_Reason = None, d_Consumed = [], d_Rate = rule_rate rule,
                  d_UnwrapFrom = (case Rule_selector rule of None \<Rightarrow> None | Some s \<Rightarrow> sel_unwrapFrom s)\<rparr>))"

definition Evaluate :: "externals \<Rightarrow> Request \<Rightarrow> Policy \<Rightarrow> (string \<Rightarrow> bool) \<Rightarrow> Decision go" where
  "Evaluate X req p used = (case check_request X req p of
     Inl reason \<Rightarrow> Ret (deny [] reason)
   | Inr condso \<Rightarrow> (case find_rule req (pol_Rules p) of
        Panic \<Rightarrow> Panic
      | Ret None \<Rightarrow> Ret (deny [] (Err ''no rule matches'' []))
      | Ret (Some rule) \<Rightarrow> decide_rule X req p used condso rule))"

end
