(* ===== verification/Decision_List.thy ===== *)
theory Decision_List
  imports Prelude
begin

text \<open>
  The contract shared by the two permission engines: a search through an ordered list of rules (the
  signer's policy rules, an app's remembered grants) is decided by the first rule that applies.
\<close>

locale decision_list =
  fixes applies :: "'req \<Rightarrow> 'rule \<Rightarrow> bool"
    and search :: "'req \<Rightarrow> 'rule list \<Rightarrow> 'rule option"
    and searchable :: "'req \<Rightarrow> 'rule list \<Rightarrow> bool"
  assumes search_first: "searchable req rs \<Longrightarrow> search req rs = find (applies req) rs"
    and searchable_append: "searchable req (rs @ qs) \<longleftrightarrow> searchable req rs \<and> searchable req qs"
begin

text \<open>The rule found applies, and no rule before it does.\<close>

lemma search_SomeD:
  assumes "searchable req rs" "search req rs = Some r"
  shows "\<exists>i < length rs. r = rs ! i \<and> applies req r \<and> (\<forall>j < i. \<not> applies req (rs ! j))"
proof -
  have "find (applies req) rs = Some r" using assms by (simp add: search_first)
  then show ?thesis by (auto simp: find_Some_iff)
qed

lemma search_None_iff:
  "searchable req rs \<Longrightarrow> search req rs = None \<longleftrightarrow> (\<forall>r \<in> set rs. \<not> applies req r)"
  by (auto simp: search_first find_None_iff)

text \<open>Rules that do not apply may be put in front; rules behind the first that applies do not matter.\<close>

lemma search_skip_prefix:
  assumes "searchable req (qs @ rs)" "\<forall>q \<in> set qs. \<not> applies req q"
  shows "search req (qs @ rs) = search req rs"
proof -
  have "find (applies req) (qs @ rs) = find (applies req) rs"
    using assms(2) by (induction qs) auto
  then show ?thesis using assms(1) by (simp add: search_first searchable_append)
qed

lemma search_ignore_suffix:
  assumes "searchable req (rs @ qs)" "search req rs = Some r"
  shows "search req (rs @ qs) = Some r"
proof -
  have "find (applies req) rs = Some r \<Longrightarrow> find (applies req) (rs @ qs) = Some r"
    by (induction rs) auto
  then show ?thesis using assms by (simp add: search_first searchable_append)
qed

end

end
