(* ===== verification/Signer_Evaluate_Safe.thy ===== *)
theory Signer_Evaluate_Safe
  imports Signer_Evaluate Decision_List
begin

text \<open>
  Facts about the policy decision: the rule search is a first-match search, the backtracking
  assignment is sound and complete, an evaluation under a loaded policy does not panic, and what
  an allowed request is known to satisfy.
\<close>

section \<open>The rule search\<close>

definition applies :: "Request \<Rightarrow> Rule \<Rightarrow> bool" where
  "applies req r \<longleftrightarrow> \<not> skips req r \<and> (\<exists>s. Rule_selector r = Some s \<and> matches s req = Ret True)"

definition search_rule :: "Request \<Rightarrow> Rule list \<Rightarrow> Rule option" where
  "search_rule req rs = (case find_rule req rs of Ret ro \<Rightarrow> ro | Panic \<Rightarrow> None)"

text \<open>A search over these rules dereferences no nil pointer.\<close>

definition searchable :: "Request \<Rightarrow> Rule list \<Rightarrow> bool" where
  "searchable req rs \<longleftrightarrow> (rq_Method req = MethodSignEvent \<longrightarrow> rq_Event req \<noteq> None) \<and> (\<forall>r \<in> set rs. Rule_selector r \<noteq> None)"

lemma matches_returns:
  "(rq_Method req = MethodSignEvent \<longrightarrow> rq_Event req \<noteq> None) \<Longrightarrow> returns (matches s req)"
  by (auto simp: matches_def split: option.splits)

lemma find_rule_first:
  "searchable req rs \<Longrightarrow> find_rule req rs = Ret (find (applies req) rs)"
proof (induction rs)
  case Nil
  then show ?case by simp
next
  case (Cons r rs)
  then obtain s where s: "Rule_selector r = Some s" by (auto simp: searchable_def)
  obtain b where b: "matches s req = Ret b"
    using Cons.prems matches_returns[of req s] by (auto simp: searchable_def returns_iff)
  show ?case using Cons s b by (cases b) (auto simp: searchable_def applies_def)
qed

interpretation rules: decision_list applies search_rule searchable
proof
  show "search_rule req rs = find (applies req) rs" if "searchable req rs" for req rs
    using find_rule_first[OF that] by (simp add: search_rule_def)
  show "searchable req (rs @ qs) \<longleftrightarrow> searchable req rs \<and> searchable req qs" for req rs qs
    by (auto simp: searchable_def)
qed

section \<open>The assignment of attestations\<close>

text \<open>An assignment of the requirements left to attestations not taken: one each, all distinct, all satisfied.\<close>

definition is_assignment :: "goerr option list list \<Rightarrow> bool list \<Rightarrow> nat list \<Rightarrow> bool" where
  "is_assignment rows taken ps \<longleftrightarrow> length ps = length rows \<and> distinct ps
     \<and> (\<forall>s < length rows. ps ! s < length taken \<and> \<not> taken ! (ps ! s) \<and> rows ! s ! (ps ! s) = None)"

lemma is_assignment_Nil [simp]: "is_assignment [] taken ps \<longleftrightarrow> ps = []"
  by (auto simp: is_assignment_def)

lemma is_assignment_Cons:
  "is_assignment (row # rows) taken (a # ps) \<longleftrightarrow>
     a < length taken \<and> \<not> taken ! a \<and> row ! a = None \<and> is_assignment rows (taken[a := True]) ps"
  (is "?l \<longleftrightarrow> ?r")
proof
  assume l: ?l
  then have all: "\<And>s. s < Suc (length rows) \<Longrightarrow> (a # ps) ! s < length taken \<and> \<not> taken ! ((a # ps) ! s) \<and> (row # rows) ! s ! ((a # ps) ! s) = None"
    by (auto simp: is_assignment_def)
  have "ps ! s < length taken \<and> \<not> taken[a := True] ! (ps ! s) \<and> rows ! s ! (ps ! s) = None" if "s < length rows" for s
  proof -
    have "ps ! s \<noteq> a" using l that by (auto simp: is_assignment_def)
    then show ?thesis using all[of "Suc s"] that by simp
  qed
  then show ?r using l all[of 0] by (auto simp: is_assignment_def)
next
  assume r: ?r
  then have r': "\<And>s. s < length rows \<Longrightarrow> ps ! s < length taken \<and> \<not> taken[a := True] ! (ps ! s) \<and> rows ! s ! (ps ! s) = None"
    "length ps = length rows" "distinct ps"
    by (auto simp: is_assignment_def)
  have ne: "ps ! s \<noteq> a" if "s < length rows" for s
    using r'(1)[OF that] r by auto
  then have "a \<notin> set ps" using r'(2) by (auto simp: in_set_conv_nth)
  moreover have "\<not> taken ! (ps ! s)" if "s < length rows" for s
    using r'(1)[OF that] ne[OF that] by simp
  ultimately show ?l using r r' by (auto simp: is_assignment_def less_Suc_eq_0_disj)
qed

lemma solve_sound: "solve rows taken = Some ps \<Longrightarrow> is_assignment rows taken ps"
proof (induction rows arbitrary: taken ps)
  case Nil
  then show ?case by simp
next
  case (Cons row rows)
  then obtain a qs where "a < length taken" "\<not> taken ! a" "row ! a = None" "ps = a # qs" "solve rows (taken[a := True]) = Some qs"
    by (auto dest!: first_some_Some split: if_splits)
  then show ?case using Cons.IH by (simp add: is_assignment_Cons)
qed

lemma solve_complete: "is_assignment rows taken ps \<Longrightarrow> solve rows taken \<noteq> None"
proof (induction rows arbitrary: taken ps)
  case Nil
  then show ?case by simp
next
  case (Cons row rows)
  obtain a qs where ps: "ps = a # qs" using Cons.prems by (cases ps) (auto simp: is_assignment_def)
  have a: "a < length taken" "\<not> taken ! a" "row ! a = None" "is_assignment rows (taken[a := True]) qs"
    using Cons.prems unfolding ps is_assignment_Cons by auto
  have "solve rows (taken[a := True]) \<noteq> None" using Cons.IH a(4) by blast
  then show ?case using a by (auto simp: first_some_None intro!: bexI[of _ a])
qed

text \<open>The same over the requirements and attestations themselves.\<close>

definition satisfies_all :: "externals \<Rightarrow> AttestationSpec list \<Rightarrow> event option list \<Rightarrow> attestContext \<Rightarrow> nat list \<Rightarrow> bool" where
  "satisfies_all X specs atts c ps \<longleftrightarrow> length ps = length specs \<and> distinct ps
     \<and> (\<forall>s < length specs. ps ! s < length atts \<and> checkAttestation X (atts ! (ps ! s)) (specs ! s) c = None)"

lemma is_assignment_matrix:
  "is_assignment (ok_matrix X specs atts c) (replicate (length atts) False) ps \<longleftrightarrow> satisfies_all X specs atts c ps"
  by (auto simp: is_assignment_def satisfies_all_def ok_matrix_def)

lemma assignAttestations_Inr:
  "assignAttestations X specs atts c = Ret (Inr ps) \<Longrightarrow> satisfies_all X specs atts c ps"
  by (auto simp: assignAttestations_def Let_def is_assignment_matrix[symmetric] dest: solve_sound split: option.splits go.splits)

lemma assignAttestations_complete:
  assumes "satisfies_all X specs atts c ps"
  shows "\<exists>qs. assignAttestations X specs atts c = Ret (Inr qs)"
  using assms solve_complete[of "ok_matrix X specs atts c" "replicate (length atts) False" ps]
  by (auto simp: assignAttestations_def Let_def is_assignment_matrix[symmetric])

lemma satisfies_all_nonnil:
  "satisfies_all X specs atts c ps \<Longrightarrow> i \<in> set ps \<Longrightarrow> i < length atts \<and> (\<exists>a. atts ! i = Some a)"
  by (auto simp: satisfies_all_def in_set_conv_nth) (metis checkAttestation_nil not_Some_eq)

lemma consumed_ids_Ret:
  assumes "\<forall>i \<in> set ps. i < length atts \<and> (\<exists>a. atts ! i = Some a)"
  shows "consumed_ids atts ps = Ret (map (\<lambda>i. ev_ID (the (atts ! i))) ps)"
  using assms by (induction ps) auto

section \<open>No panic\<close>

lemma scan_reason_returns: "\<forall>a \<in> set as. a \<noteq> None \<Longrightarrow> returns (scan_reason kinds oks as reason)"
proof (induction kinds oks as reason rule: scan_reason.induct)
  case (1 kinds ok oks a as reason)
  then show ?case by (cases ok; cases a) auto
qed auto

lemma failure_reason_returns: "\<forall>a \<in> set atts. a \<noteq> None \<Longrightarrow> returns (failure_reason specs rows atts)"
proof (induction specs rows atts rule: failure_reason.induct)
  case (1 spec specs row rows atts)
  have "returns (scan_reason (att_Kinds spec) row atts None)" using 1(2) by (rule scan_reason_returns)
  then obtain b e where "scan_reason (att_Kinds spec) row atts None = Ret (b, e)"
    by (auto simp: returns_iff)
  then show ?case using 1 by (cases b; cases e) auto
qed auto

lemma assignAttestations_returns: "\<forall>a \<in> set atts. a \<noteq> None \<Longrightarrow> returns (assignAttestations X specs atts c)"
  using failure_reason_returns[of atts specs "ok_matrix X specs atts c"]
  by (auto simp: assignAttestations_def Let_def returns_iff split: option.splits go.splits)

lemma match_deny_returns:
  "(rq_Method req = MethodSignEvent \<longrightarrow> rq_Event req \<noteq> None) \<Longrightarrow> returns (match_deny i res req)"
  by (induction res arbitrary: i) auto

lemma decide_sign_returns:
  assumes "\<forall>a \<in> set (rq_Attestations req). a \<noteq> None"
  shows "returns (decide_sign X req p used rule ev)"
proof (cases "rule_Require rule")
  case None
  then show ?thesis by (simp add: decide_sign_def Let_def)
next
  case (Some q)
  let ?ctx = "\<lparr>ctx_Target = ev, ctx_Now = rq_Now req, ctx_StartTime = rq_StartTime req, ctx_Skew = ruleSkew p rule,
    ctx_SignerPub = rq_SignerPub req, ctx_Used = Some used\<rparr>"
  obtain r where r: "assignAttestations X (req_Attestations q) (rq_Attestations req) ?ctx = Ret r"
    using assignAttestations_returns[OF assms] unfolding returns_iff by blast
  show ?thesis
  proof (cases r)
    case (Inl e)
    then show ?thesis using Some r by (simp add: decide_sign_def Let_def)
  next
    case (Inr ps)
    have "\<forall>i \<in> set ps. i < length (rq_Attestations req) \<and> (\<exists>a. rq_Attestations req ! i = Some a)"
      using satisfies_all_nonnil assignAttestations_Inr r Inr by blast
    then show ?thesis using Some r Inr by (simp add: decide_sign_def Let_def consumed_ids_Ret)
  qed
qed

lemma wf_policy_searchable:
  assumes "wf_policy opts p" "check_request X req p = Inr condso"
  shows "searchable req (pol_Rules p)" "rq_Method req = MethodSignEvent \<Longrightarrow> rq_Event req \<noteq> None"
    "rq_Method req = MethodAttest \<Longrightarrow> condso \<noteq> None"
proof -
  have "Rule_selector r \<noteq> None" if "wf_rule opts r" for r
    using that by (auto simp: wf_rule_def Rule_selector_def split: option.splits)
  moreover show ev: "rq_Method req = MethodSignEvent \<Longrightarrow> rq_Event req \<noteq> None"
    using assms(2) by (auto simp: check_request_def split: if_splits option.splits)
  ultimately show "searchable req (pol_Rules p)" using assms(1) by (auto simp: searchable_def wf_policy_def)
  show "rq_Method req = MethodAttest \<Longrightarrow> condso \<noteq> None"
    using assms(2) by (auto simp: check_request_def split: if_splits sum.splits)
qed

lemma search_ruleD:
  assumes "wf_policy opts p" "searchable req (pol_Rules p)" "search_rule req (pol_Rules p) = Some rule"
  shows "rule \<in> set (pol_Rules p)" "wf_rule opts rule" "applies req rule"
  using rules.search_SomeD[OF assms(2,3)] assms(1) by (auto simp: wf_policy_def)

text \<open>Under a well-formed policy the deciding rule of a \<open>nipoa_attest\<close> that is an allow rule has an attest selector with a bound.\<close>

lemma attest_rule:
  assumes "wf_rule opts rule" "applies req rule" "rq_Method req = MethodAttest" "rule_Deny rule = None"
  obtains s a where "rule_Allow rule = Some s" "sel_Attest s = Some a" "as_MaxUntil a \<noteq> None"
    "AttestSelector_matches a (rq_Subordinate req)"
proof -
  obtain s where s: "rule_Allow rule = Some s" using assms(1,4) by (auto simp: wf_rule_def)
  then have "sel_Attest s \<noteq> None" using assms(2,3) by (auto simp: applies_def skips_def)
  then obtain a where a: "sel_Attest s = Some a" by blast
  moreover have "as_MaxUntil a \<noteq> None" using assms(1) s a by (auto simp: wf_rule_def wf_selector_def)
  moreover have "AttestSelector_matches a (rq_Subordinate req)"
    using assms(2) s a by (auto simp: applies_def Rule_selector_def matches_def split: if_splits)
  ultimately show thesis using s that by blast
qed

lemma decide_rule_returns:
  assumes wf: "wf_rule opts rule" and ap: "applies req rule"
    and ev: "rq_Method req = MethodSignEvent \<Longrightarrow> rq_Event req \<noteq> None"
    and co: "rq_Method req = MethodAttest \<Longrightarrow> condso \<noteq> None"
    and at: "\<forall>a \<in> set (rq_Attestations req). a \<noteq> None"
  shows "returns (decide_rule X req p used condso rule)"
proof (cases "rule_Deny rule = None")
  case False
  then show ?thesis by (simp add: decide_rule_def)
next
  case True
  obtain m where m: "matchDenyPatterns rule req = Ret m"
    using ev match_deny_returns[of req 1 "rule_denyRe rule"] by (auto simp: matchDenyPatterns_def returns_iff)
  consider "m \<noteq> None" | "m = None" "rq_Method req = MethodAttest"
    | "m = None" "rq_Method req = MethodSignEvent" | "m = None" "rq_Method req \<noteq> MethodAttest" "rq_Method req \<noteq> MethodSignEvent"
    by blast
  then show ?thesis
  proof cases
    case 1
    then show ?thesis using True m by (auto simp: decide_rule_def)
  next
    case 2
    then obtain s a where s: "rule_Allow rule = Some s" "sel_Attest s = Some a" "as_MaxUntil a \<noteq> None"
      using attest_rule[OF wf ap _ True] by blast
    obtain conds where "condso = Some conds" using co 2 by auto
    then show ?thesis using 2 True m s AttestSelector_check_returns[OF s(3), of conds "rq_Now req"]
      by (auto simp: decide_rule_def returns_iff split: option.splits)
  next
    case 3
    then show ?thesis using True m ev decide_sign_returns[OF at] by (auto simp: decide_rule_def)
  next
    case 4
    then show ?thesis using True m by (simp add: decide_rule_def)
  qed
qed

lemma Evaluate_returns:
  assumes wf: "wf_policy opts p" and at: "\<forall>a \<in> set (rq_Attestations req). a \<noteq> None"
  shows "returns (Evaluate X req p used)"
proof (cases "check_request X req p")
  case (Inl e)
  then show ?thesis by (simp add: Evaluate_def)
next
  case (Inr condso)
  note s = wf_policy_searchable[OF wf Inr]
  have f: "find_rule req (pol_Rules p) = Ret (search_rule req (pol_Rules p))"
    using find_rule_first[OF s(1)] by (simp add: search_rule_def)
  show ?thesis
  proof (cases "search_rule req (pol_Rules p)")
    case None
    then show ?thesis using Inr f by (simp add: Evaluate_def)
  next
    case (Some rule)
    then have "returns (decide_rule X req p used condso rule)"
      using search_ruleD[OF wf s(1) Some] s(2,3) at by (intro decide_rule_returns) auto
    then show ?thesis using Inr f Some by (simp add: Evaluate_def)
  qed
qed

section \<open>What an allowed request satisfies\<close>

lemma deny_not_Allow [simp]: "\<not> d_Allow (deny r e)" "d_Rule (deny r e) = r" "d_Consumed (deny r e) = []"
  by (simp_all add: deny_def)

text \<open>An allowed request was decided by the first rule that applies, and that is an allow rule.\<close>

lemma Evaluate_allowE:
  assumes ev: "Evaluate X req p used = Ret d" and al: "d_Allow d" and wf: "wf_policy opts p"
  obtains rule s condso where "check_request X req p = Inr condso" "searchable req (pol_Rules p)"
    "search_rule req (pol_Rules p) = Some rule" "wf_rule opts rule" "applies req rule"
    "rule_Allow rule = Some s" "rule_Deny rule = None" "decide_rule X req p used condso rule = Ret d"
proof -
  obtain condso where c: "check_request X req p = Inr condso"
    using ev al by (auto simp: Evaluate_def split: sum.splits)
  note s = wf_policy_searchable[OF wf c]
  have f: "find_rule req (pol_Rules p) = Ret (search_rule req (pol_Rules p))"
    using find_rule_first[OF s(1)] by (simp add: search_rule_def)
  obtain rule where r: "search_rule req (pol_Rules p) = Some rule"
    using ev al c f by (cases "search_rule req (pol_Rules p)") (auto simp: Evaluate_def)
  have d: "decide_rule X req p used condso rule = Ret d" using ev c f r by (simp add: Evaluate_def)
  then have nd: "rule_Deny rule = None" using al by (auto simp: decide_rule_def split: if_splits)
  have w: "wf_rule opts rule" "applies req rule" using search_ruleD[OF wf s(1) r] by auto
  then obtain s' where "rule_Allow rule = Some s'" using nd by (auto simp: wf_rule_def)
  then show thesis using that c s(1) r w nd d by blast
qed

text \<open>The context in which a rule checks a request's attestations.\<close>

definition sign_context :: "Request \<Rightarrow> Policy \<Rightarrow> (string \<Rightarrow> bool) \<Rightarrow> Rule \<Rightarrow> event \<Rightarrow> attestContext" where
  "sign_context req p used rule ev = \<lparr>ctx_Target = ev, ctx_Now = rq_Now req, ctx_StartTime = rq_StartTime req,
     ctx_Skew = ruleSkew p rule, ctx_SignerPub = rq_SignerPub req, ctx_Used = Some used\<rparr>"

lemma sign_context_simps [simp]:
  "ctx_Target (sign_context req p used rule ev) = ev" "ctx_Now (sign_context req p used rule ev) = rq_Now req"
  "ctx_StartTime (sign_context req p used rule ev) = rq_StartTime req" "ctx_Skew (sign_context req p used rule ev) = ruleSkew p rule"
  "ctx_SignerPub (sign_context req p used rule ev) = rq_SignerPub req" "ctx_Used (sign_context req p used rule ev) = Some used"
  by (simp_all add: sign_context_def)

definition required :: "Rule \<Rightarrow> AttestationSpec list" where
  "required rule = (case rule_Require rule of None \<Rightarrow> [] | Some q \<Rightarrow> req_Attestations q)"

lemma decide_sign_allow:
  assumes "decide_sign X req p used rule ev = Ret d" "d_Allow d"
  shows "unixTime (ev_CreatedAt ev) \<le> time_add (rq_Now req) (ruleSkew p rule)"
    "time_sub (rq_Now req) (unixTime (ev_CreatedAt ev)) \<le> seal_age ev (ruleSkew p rule) (bound_age (required rule) (ruleSkew p rule))"
    "d_Rule d = rule_Name rule" "d_Rate d = rule_rate rule"
  using assms
  by (auto simp: decide_sign_def required_def Let_def split: option.splits go.splits sum.splits if_splits)

lemma decide_sign_consumed:
  assumes "decide_sign X req p used rule ev = Ret d" "d_Allow d"
  shows "\<exists>ps. satisfies_all X (required rule) (rq_Attestations req) (sign_context req p used rule ev) ps
     \<and> d_Consumed d = map (\<lambda>i. ev_ID (the (rq_Attestations req ! i))) ps"
proof (cases "rule_Require rule")
  case None
  then have "d_Consumed d = []" using assms by (auto simp: decide_sign_def Let_def split: if_splits)
  then show ?thesis using None by (intro exI[of _ "[]"]) (simp add: required_def satisfies_all_def)
next
  case (Some q)
  obtain ps ids where ps: "assignAttestations X (req_Attestations q) (rq_Attestations req) (sign_context req p used rule ev) = Ret (Inr ps)"
    and ids: "consumed_ids (rq_Attestations req) ps = Ret ids" "d_Consumed d = ids"
    using assms Some by (auto simp: decide_sign_def sign_context_def Let_def split: go.splits sum.splits if_splits)
  have s: "satisfies_all X (required rule) (rq_Attestations req) (sign_context req p used rule ev) ps"
    using assignAttestations_Inr[OF ps] Some by (simp add: required_def)
  have "ids = map (\<lambda>i. ev_ID (the (rq_Attestations req ! i))) ps"
    using consumed_ids_Ret[of ps "rq_Attestations req"] satisfies_all_nonnil[OF s] ids(1) by auto
  then show ?thesis using s ids(2) by blast
qed

lemma decide_rule_sign:
  assumes "decide_rule X req p used condso rule = Ret d" "d_Allow d" "rq_Method req = MethodSignEvent" "rq_Event req = Some ev"
  shows "decide_sign X req p used rule ev = Ret d"
  using assms by (auto simp: decide_rule_def split: if_splits go.splits option.splits)

text \<open>Only a \<open>sign_event\<close> consumes attestations.\<close>

lemma decide_rule_other:
  assumes "decide_rule X req p used condso rule = Ret d" "rq_Method req \<noteq> MethodSignEvent"
  shows "d_Consumed d = []"
  using assms by (auto simp: decide_rule_def split: if_splits go.splits option.splits)

lemma decide_rule_name:
  assumes "decide_rule X req p used condso rule = Ret d"
  shows "d_Rule d = rule_Name rule"
proof (cases "rq_Method req = MethodSignEvent")
  case True
  then show ?thesis using assms
    by (auto simp: decide_rule_def decide_sign_def Let_def split: if_splits go.splits option.splits sum.splits)
next
  case False
  then show ?thesis using assms by (auto simp: decide_rule_def split: if_splits go.splits option.splits)
qed

lemma Evaluate_consumed:
  assumes ev: "Evaluate X req p used = Ret d" and al: "d_Allow d" and wf: "wf_policy opts p" and id: "i \<in> set (d_Consumed d)"
  shows "\<exists>rule target spec att. rule \<in> set (pol_Rules p) \<and> rq_Method req = MethodSignEvent \<and> rq_Event req = Some target
     \<and> spec \<in> set (required rule) \<and> wf_attestation opts spec \<and> Some att \<in> set (rq_Attestations req) \<and> ev_ID att = i
     \<and> checkAttestation X (Some att) spec (sign_context req p used rule target) = None"
proof -
  obtain rule s condso where e: "check_request X req p = Inr condso" "searchable req (pol_Rules p)"
    "search_rule req (pol_Rules p) = Some rule" "wf_rule opts rule" "decide_rule X req p used condso rule = Ret d"
    using Evaluate_allowE[OF ev al wf] by blast
  have m: "rq_Method req = MethodSignEvent" using decide_rule_other[OF e(5)] id by force
  then obtain target where t: "rq_Event req = Some target" using e(2) by (auto simp: searchable_def)
  note ds = decide_rule_sign[OF e(5) al m t]
  obtain ps where ps: "satisfies_all X (required rule) (rq_Attestations req) (sign_context req p used rule target) ps"
    "d_Consumed d = map (\<lambda>i. ev_ID (the (rq_Attestations req ! i))) ps"
    using decide_sign_consumed[OF ds al] by blast
  then obtain k where k: "k < length ps" "i = ev_ID (the (rq_Attestations req ! (ps ! k)))"
    using id by (auto simp: in_set_conv_nth)
  obtain att where a: "rq_Attestations req ! (ps ! k) = Some att" "ps ! k < length (rq_Attestations req)"
    using satisfies_all_nonnil[OF ps(1), of "ps ! k"] k(1) by auto
  have c: "checkAttestation X (Some att) (required rule ! k) (sign_context req p used rule target) = None" "k < length (required rule)"
    using ps(1) k(1) a by (auto simp: satisfies_all_def)
  have "wf_attestation opts (required rule ! k)"
    using e(4) c(2) by (auto simp: wf_rule_def required_def split: option.splits)
  moreover have "rule \<in> set (pol_Rules p)" using search_ruleD[OF wf e(2,3)] by auto
  ultimately show ?thesis using m t c a k
    by (intro exI[of _ rule] exI[of _ target] exI[of _ "required rule ! k"] exI[of _ att])
      (auto simp: nth_mem in_set_conv_nth)
qed

section \<open>Deny patterns and ages\<close>

text \<open>The texts of a request that the deny patterns look at.\<close>

definition request_texts :: "Request \<Rightarrow> string list" where
  "request_texts req = (if rq_Method req = MethodSignEvent
     then (case rq_Event req of None \<Rightarrow> [] | Some ev \<Rightarrow> ev_Content ev # concat (ev_Tags ev)) else [rq_Plaintext req])"

lemma match_deny_None:
  "match_deny i res req = Ret None \<Longrightarrow> re \<in> set res \<Longrightarrow> t \<in> set (request_texts req) \<Longrightarrow> \<not> re t"
  by (induction res arbitrary: i) (auto simp: request_texts_def split: if_splits option.splits)

lemma decide_rule_patterns:
  assumes "decide_rule X req p used condso rule = Ret d" "d_Allow d"
  shows "matchDenyPatterns rule req = Ret None"
  using assms by (auto simp: decide_rule_def split: if_splits go.splits option.splits)

text \<open>The age an event may have, when the requirements are well formed and the clock skew is bounded.\<close>

lemma bound_age_le:
  assumes "\<forall>s \<in> set specs. att_MaxAge s \<le> m" "age \<le> b"
  shows "bound_age specs age \<le> max b m"
  using assms unfolding bound_age_def
proof (induction specs rule: rev_induct)
  case (snoc s specs)
  then have "foldl (\<lambda>age spec. if att_bindsID spec \<and> att_MaxAge spec > age then att_MaxAge spec else age) age specs \<le> max b m" by simp
  then show ?case using snoc.prems(1) by auto
qed simp

lemma required_wf: "wf_rule opts rule \<Longrightarrow> \<forall>s \<in> set (required rule). wf_attestation opts s"
  by (cases "rule_Require rule") (simp_all add: required_def wf_rule_def)

lemma event_age_le:
  assumes "wf_rule opts rule" "0 \<le> skew" "skew \<le> B" "B \<le> 1000 * hour"
  shows "seal_age ev skew (bound_age (required rule) skew)
    \<le> (if ev_Kind ev = KindSeal then B + nip59MaxBackdate else if required rule = [] then B else max B MaxAttestationAge)"
proof -
  have "bound_age (required rule) skew \<le> max B MaxAttestationAge"
    using bound_age_le[of "required rule" MaxAttestationAge skew B] required_wf[OF assms(1)] assms(3) by (auto simp: wf_attestation_def)
  moreover have "required rule = [] \<Longrightarrow> bound_age (required rule) skew \<le> B" using assms(3) by (simp add: bound_age_def)
  moreover have "wrap64 (nip59MaxBackdate + skew) = nip59MaxBackdate + skew"
    using assms by (intro wrap64_id) (simp add: in_int64_def min_int64_def max_int64_def)
  ultimately show ?thesis using assms by (auto simp: seal_age_def)
qed

end
