(* ===== verification/Float64.thy ===== *)
theory Float64
  imports Complex_Main "HOL-Library.Log_Nat" Prelude
begin

text \<open>
  IEEE 754 double precision as the rate limiter uses it: a float64 is the rational number it
  denotes, and every operation computes the exact result and rounds it to 53 significant bits,
  to nearest with ties to even. The limiter's numbers stay far from the format's overflow and
  underflow (counts, nanoseconds and their quotients), so the exponent is not bounded here.
\<close>

definition round_half_even :: "rat \<Rightarrow> int" where
  "round_half_even r =
     (let f = \<lfloor>r\<rfloor>; d = r - of_int f in
      if d < 1 / 2 then f else if d > 1 / 2 then f + 1 else if even f then f else f + 1)"

text \<open>The exponent of a positive number: the largest \<open>e\<close> with \<open>2 ^ e\<close> not above it.\<close>

definition exponent :: "rat \<Rightarrow> int" where
  "exponent x =
     (let (p, q) = quotient_of x;
          e = int (floorlog 2 (nat p)) - int (floorlog 2 (nat q))
      in if power_int 2 e \<le> x then e else e - 1)"

definition fl64 :: "rat \<Rightarrow> rat" where
  "fl64 x = (if x = 0 then 0 else
     let e = exponent \<bar>x\<bar> - 52
     in sgn x * (of_int (round_half_even (\<bar>x\<bar> / power_int 2 e)) * power_int 2 e))"

section \<open>Rounding to an integer\<close>

lemma round_half_even_bounds: "\<lfloor>r\<rfloor> \<le> round_half_even r" "round_half_even r \<le> \<lfloor>r\<rfloor> + 1"
  by (simp_all add: round_half_even_def Let_def)

lemma round_half_even_int [simp]: "round_half_even (of_int n) = n"
  by (simp add: round_half_even_def)

lemma round_half_even_mono:
  assumes "r \<le> s"
  shows "round_half_even r \<le> round_half_even s"
proof (cases "\<lfloor>r\<rfloor> = \<lfloor>s\<rfloor>")
  case True
  then show ?thesis using assms by (auto simp: round_half_even_def Let_def)
next
  case False
  then have "\<lfloor>r\<rfloor> + 1 \<le> \<lfloor>s\<rfloor>" using floor_mono[OF assms] by simp
  then show ?thesis using round_half_even_bounds[of r] round_half_even_bounds[of s] by simp
qed

lemma round_half_even_ge: "of_int n \<le> r \<Longrightarrow> n \<le> round_half_even r"
  using round_half_even_mono[of "of_int n" r] by simp

lemma round_half_even_le: "r \<le> of_int n \<Longrightarrow> round_half_even r \<le> n"
  using round_half_even_mono[of r "of_int n"] by simp

section \<open>Exponents\<close>

abbreviation pow2 :: "int \<Rightarrow> rat" where "pow2 e \<equiv> power_int 2 e"

lemma pow2_pos [simp]: "0 < pow2 e"
  by simp

lemma pow2_nat: "pow2 (int n) = of_int (2 ^ n)"
  by simp

lemma floorlog2_bounds:
  assumes "0 < (n :: int)"
  shows "pow2 (int (floorlog 2 (nat n)) - 1) \<le> of_int n" "of_int n < pow2 (int (floorlog 2 (nat n)))"
proof -
  let ?k = "floorlog 2 (nat n)"
  have n0: "0 < nat n" using assms by simp
  have "2 ^ (?k - 1) \<le> nat n \<and> nat n < 2 ^ ?k" using floorlog_bounds[OF n0, of 2] by simp
  then have b: "(2::int) ^ (?k - 1) \<le> n" "n < 2 ^ ?k" using assms by (auto simp: nat_less_iff le_nat_iff)
  have k: "0 < ?k" using n0 by (simp add: floorlog_def)
  have "pow2 (int ?k - 1) = of_int (2 ^ (?k - 1))" using k pow2_nat[of "?k - 1"] by (simp add: of_nat_diff)
  then show "pow2 (int ?k - 1) \<le> of_int n" using b(1) by (metis of_int_le_iff)
  show "of_int n < pow2 (int ?k)" using b(2) unfolding pow2_nat by (rule of_int_less_iff[THEN iffD2])
qed

lemma exponent_bounds:
  assumes "0 < x"
  shows "pow2 (exponent x) \<le> x" "x < pow2 (exponent x + 1)"
proof -
  obtain p q where pq: "quotient_of x = (p, q)" by (cases "quotient_of x")
  have q: "0 < q" using quotient_of_denom_pos[OF pq] .
  have x: "x = of_int p / of_int q" using quotient_of_div[OF pq] .
  then have p: "0 < p" using assms q by (simp add: zero_less_divide_iff)
  let ?a = "int (floorlog 2 (nat p))" and ?b = "int (floorlog 2 (nat q))"
  note bp = floorlog2_bounds[OF p] and bq = floorlog2_bounds[OF q]
  have e: "exponent x = (if pow2 (?a - ?b) \<le> x then ?a - ?b else ?a - ?b - 1)"
    by (simp add: exponent_def pq)
  have up: "x < pow2 (?a - ?b + 1)"
  proof -
    have "of_int p / of_int q < pow2 ?a / pow2 (?b - 1)"
      using bp(2) bq(1) p q by (intro frac_less) auto
    also have "\<dots> = pow2 (?a - ?b + 1)" by (simp add: power_int_diff power_int_add)
    finally show ?thesis by (simp add: x)
  qed
  have lo: "pow2 (?a - ?b - 1) \<le> x"
  proof -
    have "pow2 (?a - 1) / pow2 ?b \<le> of_int p / of_int q"
      using bp(1) bq(2) p q by (intro frac_le) auto
    also have "pow2 (?a - 1) / pow2 ?b = pow2 (?a - ?b - 1)" by (simp add: power_int_diff)
    finally show ?thesis by (simp add: x)
  qed
  show "pow2 (exponent x) \<le> x" using lo by (simp add: e)
  show "x < pow2 (exponent x + 1)" using up by (auto simp: e)
qed

lemma pow2_less_iff: "pow2 a < pow2 b \<longleftrightarrow> a < b"
  using power_int_strict_increasing[of a b "2 :: rat"] power_int_increasing[of b a "2 :: rat"] by force

lemma pow2_le_iff: "pow2 a \<le> pow2 b \<longleftrightarrow> a \<le> b"
  by (meson linorder_not_le pow2_less_iff)

lemma exponent_mono: "0 < x \<Longrightarrow> x \<le> y \<Longrightarrow> exponent x \<le> exponent y"
  using exponent_bounds[of x] exponent_bounds[of y] pow2_less_iff[of "exponent x" "exponent y + 1"] by force

section \<open>Rounding\<close>

lemma fl64_pos: "0 < x \<Longrightarrow> fl64 x = of_int (round_half_even (x / pow2 (exponent x - 52))) * pow2 (exponent x - 52)"
  by (simp add: fl64_def Let_def)

lemma fl64_0 [simp]: "fl64 0 = 0"
  by (simp add: fl64_def)

text \<open>A rounded number stays within its binade, both ends included.\<close>

lemma fl64_binade:
  assumes "0 < x"
  shows "pow2 (exponent x) \<le> fl64 x" "fl64 x \<le> pow2 (exponent x + 1)"
proof -
  let ?u = "pow2 (exponent x - 52)"
  have lo: "of_int (2 ^ 52) \<le> x / ?u"
    using exponent_bounds(1)[OF assms] by (simp add: power_int_diff field_simps)
  have hi: "x / ?u \<le> of_int (2 ^ 53)"
    using exponent_bounds(2)[OF assms] by (simp add: power_int_diff power_int_add field_simps)
  have "of_int (2 ^ 52) * ?u \<le> of_int (round_half_even (x / ?u)) * ?u"
    by (rule mult_right_mono) (use round_half_even_ge[OF lo] in \<open>auto simp del: of_int_power\<close>)
  then show "pow2 (exponent x) \<le> fl64 x" by (simp add: fl64_pos[OF assms] power_int_diff)
  have "of_int (round_half_even (x / ?u)) * ?u \<le> of_int (2 ^ 53) * ?u"
    by (rule mult_right_mono) (use round_half_even_le[OF hi] in \<open>auto simp del: of_int_power\<close>)
  then show "fl64 x \<le> pow2 (exponent x + 1)" by (simp add: fl64_pos[OF assms] power_int_diff power_int_add)
qed

lemma fl64_nonneg: "0 \<le> x \<Longrightarrow> 0 \<le> fl64 x"
  using fl64_binade(1)[of x] pow2_pos[of "exponent x"] by (cases "x = 0") (simp, linarith)

lemma fl64_mono_pos:
  assumes "0 < x" "x \<le> y"
  shows "fl64 x \<le> fl64 y"
proof (cases "exponent x = exponent y")
  case True
  have y: "0 < y" using assms by simp
  have "x / pow2 (exponent y - 52) \<le> y / pow2 (exponent y - 52)" using assms by (intro divide_right_mono) auto
  then have "round_half_even (x / pow2 (exponent y - 52)) \<le> round_half_even (y / pow2 (exponent y - 52))"
    by (rule round_half_even_mono)
  then show ?thesis by (simp add: fl64_pos[OF assms(1)] fl64_pos[OF y] True mult_right_mono)
next
  case False
  then have "exponent x + 1 \<le> exponent y" using exponent_mono[OF assms] by simp
  then have "pow2 (exponent x + 1) \<le> pow2 (exponent y)" by (simp only: pow2_le_iff)
  then show ?thesis using fl64_binade[of x] fl64_binade[of y] assms by linarith
qed

lemma fl64_mono: "0 \<le> x \<Longrightarrow> x \<le> y \<Longrightarrow> fl64 x \<le> fl64 y"
  using fl64_mono_pos[of x y] fl64_nonneg[of y] by (cases "x = 0") auto

text \<open>Integers up to \<open>2 ^ 53\<close> are represented exactly.\<close>

lemma fl64_int:
  assumes "0 \<le> n" "n \<le> 2 ^ 53"
  shows "fl64 (of_int n) = of_int n"
proof (cases "n = 0")
  case False
  let ?x = "of_int n :: rat"
  have x: "0 < ?x" using assms False by simp
  show ?thesis
  proof (cases "exponent ?x \<le> 52")
    case True
    define k where "k = nat (52 - exponent ?x)"
    have k: "exponent ?x - 52 = - int k" using True by (simp add: k_def)
    have "?x / pow2 (exponent ?x - 52) = of_int (n * 2 ^ k)"
      by (simp add: k power_int_minus field_simps)
    then have "fl64 ?x = of_int (n * 2 ^ k) * pow2 (- int k)"
      unfolding fl64_pos[OF x] k by (simp only: round_half_even_int)
    then show ?thesis by (simp add: power_int_minus)
  next
    case False
    then have "pow2 53 \<le> pow2 (exponent ?x)" by (simp only: pow2_le_iff)
    then have "pow2 53 \<le> ?x" using exponent_bounds(1)[OF x] by linarith
    then have "of_int (2 ^ 53) \<le> ?x" by simp
    then have "n = 2 ^ 53" using assms(2) by (simp only: of_int_le_iff)
    then have n: "?x = pow2 53" by simp
    have "exponent ?x \<le> 53" using exponent_bounds(1)[OF x] unfolding n by (simp only: pow2_le_iff)
    then have "exponent ?x = 53" using False by simp
    then have "fl64 ?x = of_int (round_half_even (pow2 53 / pow2 1)) * pow2 1" using fl64_pos[OF x] n by simp
    also have "pow2 53 / pow2 1 = of_int (2 ^ 52)" by simp
    also have "of_int (round_half_even (of_int (2 ^ 52))) * pow2 1 = pow2 53"
      by (simp only: round_half_even_int) simp
    finally show ?thesis using n by simp
  qed
qed simp

text \<open>Rounding commutes with a scaling by a power of two, so a rounded number is its own rounding.\<close>

lemma exponent_unique:
  assumes "pow2 e \<le> x" "x < pow2 (e + 1)"
  shows "exponent x = e"
proof -
  have x: "0 < x" using assms(1) pow2_pos[of e] by linarith
  have "pow2 (exponent x) < pow2 (e + 1)" "pow2 e < pow2 (exponent x + 1)"
    using exponent_bounds[OF x] assms by linarith+
  then have "exponent x < e + 1" "e < exponent x + 1" by (simp_all only: pow2_less_iff)
  then show ?thesis by simp
qed

lemma exponent_scale: "0 < x \<Longrightarrow> exponent (x * pow2 k) = exponent x + k"
  using exponent_bounds[of x] by (intro exponent_unique) (simp_all add: power_int_add)

lemma fl64_scale:
  assumes "0 < x"
  shows "fl64 (x * pow2 k) = fl64 x * pow2 k"
proof -
  have "x * pow2 k / pow2 (exponent x + k - 52) = x / pow2 (exponent x - 52)"
    by (simp add: power_int_diff power_int_add)
  then show ?thesis using assms
    by (simp add: fl64_pos exponent_scale power_int_diff power_int_add)
qed

lemma fl64_idem:
  assumes "0 \<le> x"
  shows "fl64 (fl64 x) = fl64 x"
proof (cases "x = 0")
  case False
  let ?e = "exponent x - 52" and ?m = "round_half_even (x / pow2 (exponent x - 52))"
  have x: "0 < x" using assms False by simp
  note f = fl64_pos[OF x]
  have hi: "x / pow2 ?e \<le> of_int (2 ^ 53)"
    using exponent_bounds(2)[OF x] by (simp add: power_int_diff power_int_add field_simps)
  have lo: "of_int 1 \<le> x / pow2 ?e"
    using exponent_bounds(1)[OF x] x by (simp add: power_int_diff field_simps)
  have m: "1 \<le> ?m" "?m \<le> 2 ^ 53" using round_half_even_ge[OF lo] round_half_even_le[OF hi] by auto
  have "fl64 (of_int ?m * pow2 ?e) = fl64 (of_int ?m) * pow2 ?e" using m by (intro fl64_scale) simp
  then show ?thesis using fl64_int[of ?m] m by (simp add: f)
qed simp

text \<open>The relative error is at most \<open>2 ^ -53\<close>.\<close>

lemma round_half_even_error: "of_int (round_half_even r) \<le> r + 1 / 2"
proof -
  have "of_int \<lfloor>r\<rfloor> \<le> r + 1 / 2" using of_int_floor_le[of r] by linarith
  then show ?thesis by (auto simp: round_half_even_def Let_def)
qed

lemma fl64_error:
  assumes "0 \<le> x"
  shows "fl64 x \<le> x * (1 + 1 / 2 ^ 53)"
proof (cases "x = 0")
  case False
  then have x: "0 < x" using assms by simp
  let ?u = "pow2 (exponent x - 52)"
  have u: "?u / 2 \<le> x / 2 ^ 53"
    using exponent_bounds(1)[OF x] by (simp add: power_int_diff field_simps)
  have "fl64 x \<le> (x / ?u + 1 / 2) * ?u"
    unfolding fl64_pos[OF x] by (intro mult_right_mono round_half_even_error) simp
  also have "\<dots> = x + ?u / 2" by (simp add: field_simps)
  also have "\<dots> \<le> x * (1 + 1 / 2 ^ 53)" using u by (simp add: field_simps)
  finally show ?thesis .
qed simp

end
