(* ===== verification/Signer_Limiter.thy ===== *)
theory Signer_Limiter
  imports Signer_Policy_Valid Float64
begin

text \<open>
  The signer's rate limit (\<open>signer/ratelimit.go\<close>): one token bucket per rule, its tokens a float64.
  The map from rules to buckets is a HOL map; an operation returns the limiter it leaves, \<open>Ready\<close> too,
  which brings the bucket up to date without taking a token.
\<close>

section \<open>The buckets\<close>

record bucket =
  bk_rate :: Rate
  bk_tokens :: rat
  bk_last :: gtime

type_synonym Limiter = "string \<rightharpoonup> bucket"

definition NewLimiter :: Limiter where
  "NewLimiter = Map.empty"

definition refill :: "Limiter \<Rightarrow> string \<Rightarrow> Rate \<Rightarrow> gtime \<Rightarrow> Limiter \<times> bucket" where
  "refill l rule r now =
     (let fresh = \<lparr>bk_rate = r, bk_tokens = fl64 (of_int (rate_N r)), bk_last = now\<rparr>;
          b = (case l rule of None \<Rightarrow> fresh | Some b \<Rightarrow> if bk_rate b \<noteq> r then fresh else b);
          elapsed = time_sub now (bk_last b);
          tokens = (if elapsed > 0 then
              let t = fl64 (bk_tokens b + fl64 (fl64 (fl64 (of_int (rate_N r)) * fl64 (of_int elapsed)) / fl64 (of_int (rate_Per r))))
              in if t > fl64 (of_int (rate_N r)) then fl64 (of_int (rate_N r)) else t
            else bk_tokens b);
          b' = b\<lparr>bk_tokens := tokens, bk_last := now\<rparr>
      in (l(rule \<mapsto> b'), b'))"

definition Limiter_Allow :: "Limiter \<Rightarrow> string \<Rightarrow> Rate \<Rightarrow> gtime \<Rightarrow> Limiter \<times> bool" where
  "Limiter_Allow l rule r now =
     (let (l', b) = refill l rule r now in
      if bk_tokens b < 1 then (l', False)
      else (l'(rule \<mapsto> b\<lparr>bk_tokens := fl64 (bk_tokens b - 1)\<rparr>), True))"

definition Limiter_Ready :: "Limiter \<Rightarrow> string \<Rightarrow> Rate \<Rightarrow> gtime \<Rightarrow> Limiter \<times> bool" where
  "Limiter_Ready l rule r now = (let (l', b) = refill l rule r now in (l', bk_tokens b \<ge> 1))"

text \<open>A rate as the policy's validation leaves it.\<close>

definition wf_rate :: "Rate \<Rightarrow> bool" where
  "wf_rate r \<longleftrightarrow> 0 < rate_N r \<and> rate_Per r \<in> {second, minute, hour}"

section \<open>The invariant\<close>

text \<open>A bucket holds between 0 and N tokens, and its count is a float64.\<close>

definition wf_bucket :: "bucket \<Rightarrow> bool" where
  "wf_bucket b \<longleftrightarrow> wf_rate (bk_rate b) \<and> 0 \<le> bk_tokens b \<and> bk_tokens b \<le> fl64 (of_int (rate_N (bk_rate b)))
     \<and> fl64 (bk_tokens b) = bk_tokens b"

definition wf_limiter :: "Limiter \<Rightarrow> bool" where
  "wf_limiter l \<longleftrightarrow> (\<forall>b \<in> ran l. wf_bucket b)"

lemma wf_limiter_new [simp]: "wf_limiter NewLimiter"
  by (simp add: wf_limiter_def NewLimiter_def)

lemma wf_limiterD: "wf_limiter l \<Longrightarrow> l rule = Some b \<Longrightarrow> wf_bucket b"
  by (auto simp: wf_limiter_def ranI)

lemma wf_limiter_upd: "wf_limiter l \<Longrightarrow> wf_bucket b \<Longrightarrow> wf_limiter (l(rule \<mapsto> b))"
  by (auto simp: wf_limiter_def ran_def split: if_splits)

lemma fl64_count_nonneg: "wf_rate r \<Longrightarrow> 0 \<le> fl64 (of_int (rate_N r))"
  by (auto simp: wf_rate_def intro: fl64_nonneg)

lemma wf_bucket_fresh: "wf_rate r \<Longrightarrow> wf_bucket \<lparr>bk_rate = r, bk_tokens = fl64 (of_int (rate_N r)), bk_last = now\<rparr>"
  by (simp add: wf_bucket_def fl64_count_nonneg fl64_idem wf_rate_def)

text \<open>What refilling does to the bucket it starts from.\<close>

definition start_bucket :: "Limiter \<Rightarrow> string \<Rightarrow> Rate \<Rightarrow> gtime \<Rightarrow> bucket" where
  "start_bucket l rule r now = (case l rule of
     Some b \<Rightarrow> if bk_rate b \<noteq> r then \<lparr>bk_rate = r, bk_tokens = fl64 (of_int (rate_N r)), bk_last = now\<rparr> else b
   | None \<Rightarrow> \<lparr>bk_rate = r, bk_tokens = fl64 (of_int (rate_N r)), bk_last = now\<rparr>)"

definition gain :: "Rate \<Rightarrow> duration \<Rightarrow> rat" where
  "gain r elapsed = fl64 (fl64 (fl64 (of_int (rate_N r)) * fl64 (of_int elapsed)) / fl64 (of_int (rate_Per r)))"

definition refilled :: "bucket \<Rightarrow> Rate \<Rightarrow> gtime \<Rightarrow> bucket" where
  "refilled b r now = b\<lparr>bk_tokens := (if time_sub now (bk_last b) > 0
      then min (fl64 (of_int (rate_N r))) (fl64 (bk_tokens b + gain r (time_sub now (bk_last b)))) else bk_tokens b), bk_last := now\<rparr>"

lemma refill_eq: "refill l rule r now = (l(rule \<mapsto> refilled (start_bucket l rule r now) r now), refilled (start_bucket l rule r now) r now)"
proof -
  have *: "(if t > (m :: rat) then m else t) = min m t" for t m by (simp add: min_def)
  show ?thesis
    unfolding refill_def refilled_def start_bucket_def gain_def Let_def * by (cases "l rule") simp_all
qed

lemma start_bucket_wf: "wf_limiter l \<Longrightarrow> wf_rate r \<Longrightarrow> wf_bucket (start_bucket l rule r now) \<and> bk_rate (start_bucket l rule r now) = r"
  using wf_bucket_fresh wf_limiterD[of l rule] by (auto simp: start_bucket_def split: option.split)

lemma gain_nonneg: "wf_rate r \<Longrightarrow> 0 \<le> e \<Longrightarrow> 0 \<le> gain r e"
  unfolding gain_def wf_rate_def by (auto intro!: fl64_nonneg divide_nonneg_nonneg mult_nonneg_nonneg)

lemma refilled_wf:
  assumes "wf_bucket b" "bk_rate b = r"
  shows "wf_bucket (refilled b r now)" "bk_rate (refilled b r now) = r" "bk_last (refilled b r now) = now"
proof -
  have r: "wf_rate r" using assms by (simp add: wf_bucket_def)
  let ?t = "fl64 (bk_tokens b + gain r (time_sub now (bk_last b)))" and ?n = "fl64 (of_int (rate_N r))"
  have "0 \<le> min ?n ?t \<and> fl64 (min ?n ?t) = min ?n ?t" if "time_sub now (bk_last b) > 0"
    using that assms gain_nonneg[OF r] fl64_count_nonneg[OF r] r
    by (auto simp: min_def wf_bucket_def wf_rate_def intro!: fl64_nonneg fl64_idem)
  then show "wf_bucket (refilled b r now)" using assms by (auto simp: wf_bucket_def refilled_def)
qed (use assms in \<open>simp_all add: refilled_def\<close>)

lemma take_token_wf: "wf_bucket b \<Longrightarrow> 1 \<le> bk_tokens b \<Longrightarrow> wf_bucket (b\<lparr>bk_tokens := fl64 (bk_tokens b - 1)\<rparr>)"
  using fl64_mono[of "bk_tokens b - 1" "bk_tokens b"] by (auto simp: wf_bucket_def intro: fl64_nonneg fl64_idem)

lemma Limiter_Allow_wf: "wf_limiter l \<Longrightarrow> wf_rate r \<Longrightarrow> wf_limiter (fst (Limiter_Allow l rule r now))"
  using start_bucket_wf[of l r rule now] refilled_wf(1)[of "start_bucket l rule r now" r now]
  by (auto simp: Limiter_Allow_def refill_eq intro!: wf_limiter_upd take_token_wf)

lemma Limiter_Ready_wf: "wf_limiter l \<Longrightarrow> wf_rate r \<Longrightarrow> wf_limiter (fst (Limiter_Ready l rule r now))"
  using start_bucket_wf[of l r rule now] refilled_wf(1)[of "start_bucket l rule r now" r now]
  by (auto simp: Limiter_Ready_def refill_eq intro!: wf_limiter_upd)

text \<open>A bucket is touched by its own rule's calls only.\<close>

lemma Limiter_Allow_other: "rule' \<noteq> rule \<Longrightarrow> fst (Limiter_Allow l rule r now) rule' = l rule'"
  by (simp add: Limiter_Allow_def refill_eq)

section \<open>The rate bound\<close>

text \<open>How many calls of \<open>rule\<close> a sequence of \<open>Allow\<close> calls, of this and other rules, lets through.\<close>

fun allowed :: "string \<Rightarrow> Limiter \<Rightarrow> (string \<times> Rate \<times> gtime) list \<Rightarrow> nat" where
  "allowed rule l [] = 0"
| "allowed rule l ((n, r, t) # calls) =
     (let (l', ok) = Limiter_Allow l n r t in (if ok \<and> n = rule then 1 else 0) + allowed rule l' calls)"

text \<open>The relative error of a float64 operation.\<close>

abbreviation ulp :: rat where "ulp \<equiv> 1 / 2 ^ 53"

lemma fl64_exact_count: "wf_rate r \<Longrightarrow> rate_N r \<le> 2 ^ 53 \<Longrightarrow> fl64 (of_int (rate_N r)) = of_int (rate_N r)"
  by (auto simp: wf_rate_def intro: fl64_int)

lemma fl64_exact_per: "wf_rate r \<Longrightarrow> fl64 (of_int (rate_Per r)) = of_int (rate_Per r)"
  by (rule fl64_int) (auto simp: wf_rate_def)

lemma gain_error:
  assumes r: "wf_rate r" "rate_N r \<le> 2 ^ 53" and e: "0 < e" "e < rate_Per r"
  shows "gain r e \<le> of_int (rate_N r * e) / of_int (rate_Per r) + 3 * ulp * of_int (rate_N r)"
proof -
  define N P where "N = (of_int (rate_N r) :: rat)" and "P = (of_int (rate_Per r) :: rat)"
  have P: "0 < P" "0 < N" using r by (auto simp: wf_rate_def P_def N_def)
  have "e \<le> 2 ^ 53" using e r(1) by (auto simp: wf_rate_def)
  then have g: "gain r e = fl64 (fl64 (N * of_int e) / P)"
    using fl64_exact_count[OF r] fl64_exact_per[OF r(1)] fl64_int[of e] e by (simp add: gain_def N_def P_def)
  define x where "x = N * of_int e / P"
  have "of_int e \<le> P" using e by (simp add: P_def)
  then have x: "0 \<le> x" "x \<le> N" using P e by (simp_all add: x_def field_simps mult_left_mono)
  have "fl64 (N * of_int e) / P \<le> N * of_int e * (1 + ulp) / P"
    using P e by (intro divide_right_mono fl64_error) auto
  also have "\<dots> = x * (1 + ulp)" by (simp add: x_def)
  finally have q: "fl64 (N * of_int e) / P \<le> x * (1 + ulp)" .
  have q0: "0 \<le> fl64 (N * of_int e) / P" using P e by (intro divide_nonneg_pos fl64_nonneg) auto
  have "gain r e \<le> fl64 (N * of_int e) / P * (1 + ulp)" unfolding g by (rule fl64_error[OF q0])
  also have "\<dots> \<le> x * (1 + ulp) * (1 + ulp)" using q by (intro mult_right_mono) auto
  also have "\<dots> \<le> x + 3 * ulp * x" using x by (simp add: algebra_simps)
  also have "\<dots> \<le> x + 3 * ulp * N" using x by simp
  finally show ?thesis by (simp add: x_def N_def P_def)
qed

lemma refilled_tokens:
  assumes b: "wf_bucket b" "bk_rate b = r" and N: "rate_N r \<le> 2 ^ 53" and t: "bk_last b \<le> now"
  shows "bk_tokens (refilled b r now)
    \<le> bk_tokens b + of_int (rate_N r * (now - bk_last b)) / of_int (rate_Per r) + 6 * ulp * of_int (rate_N r)"
proof -
  define el where "el = time_sub now (bk_last b)"
  have r: "wf_rate r" using b by (simp add: wf_bucket_def)
  have pos: "0 < (of_int (rate_N r) :: rat)" "0 < (of_int (rate_Per r) :: rat)" using r by (auto simp: wf_rate_def)
  have tok: "0 \<le> bk_tokens b" "bk_tokens b \<le> of_int (rate_N r)"
    using b fl64_exact_count[OF r N] by (auto simp: wf_bucket_def)
  have el: "el \<le> now - bk_last b" "el < rate_Per r \<Longrightarrow> el = now - bk_last b" "0 \<le> el"
    using t r unfolding el_def time_sub_def min_int64_def max_int64_def wf_rate_def by (auto simp: min_def max_def)
  consider "el = 0" | "rate_Per r \<le> el" | "0 < el" "el < rate_Per r" using el(3) by linarith
  then show ?thesis
  proof cases
    case 1
    then have "now = bk_last b" using el r by (auto simp: wf_rate_def)
    then show ?thesis using pos by (simp add: refilled_def time_sub_pos_iff)
  next
    case 2
    have p: "0 < el" "0 < rate_Per r" "0 < rate_N r" using 2 r by (auto simp: wf_rate_def)
    have "rate_N r * rate_Per r \<le> rate_N r * (now - bk_last b)" using 2 el(1) p by (intro mult_left_mono) auto
    then have "(of_int (rate_N r * rate_Per r) :: rat) \<le> of_int (rate_N r * (now - bk_last b))" by (simp only: of_int_le_iff)
    then have "of_int (rate_N r) \<le> (of_int (rate_N r * (now - bk_last b)) :: rat) / of_int (rate_Per r)"
      using pos by (simp add: field_simps)
    moreover have "bk_tokens (refilled b r now) \<le> of_int (rate_N r)"
      using p fl64_exact_count[OF r N] by (simp add: refilled_def el_def[symmetric])
    ultimately show ?thesis using tok(1) pos(1) by simp
  next
    case 3
    let ?x = "of_int (rate_N r * el) / (of_int (rate_Per r) :: rat)" and ?N = "of_int (rate_N r) :: rat"
    have "rate_N r * el \<le> rate_N r * rate_Per r" using 3 r by (auto simp: wf_rate_def)
    then have "(of_int (rate_N r * el) :: rat) \<le> of_int (rate_N r * rate_Per r)" by (simp only: of_int_le_iff)
    then have x: "?x \<le> ?N" using pos by (simp add: field_simps)
    have g: "gain r el \<le> ?x + 3 * ulp * ?N" using gain_error[OF r N 3] .
    have s0: "0 \<le> bk_tokens b + gain r el" using tok gain_nonneg[OF r] 3 by simp
    have s: "bk_tokens b + gain r el \<le> 3 * ?N" using g x tok pos by simp
    have "bk_tokens (refilled b r now) \<le> fl64 (bk_tokens b + gain r el)" using 3 by (simp add: refilled_def el_def[symmetric])
    also have "\<dots> \<le> (bk_tokens b + gain r el) * (1 + ulp)" by (rule fl64_error[OF s0])
    also have "\<dots> = bk_tokens b + gain r el + ulp * (bk_tokens b + gain r el)" by (simp add: algebra_simps)
    also have "\<dots> \<le> bk_tokens b + (?x + 3 * ulp * ?N) + ulp * (3 * ?N)" using g s by (intro add_mono mult_left_mono) auto
    finally show ?thesis using el(2)[OF 3(2)] by simp
  qed
qed

text \<open>One call takes what it lets through from the bucket, up to the rounding.\<close>

lemma Limiter_Allow_bucket:
  assumes l: "wf_limiter l" "wf_rate r" and a: "Limiter_Allow l rule r now = (l', ok)"
  shows "\<exists>b. l' rule = Some b \<and> wf_bucket b \<and> bk_rate b = r \<and> bk_last b = now
    \<and> bk_tokens b + (if ok then 1 else 0) \<le> bk_tokens (refilled (start_bucket l rule r now) r now) + ulp * fl64 (of_int (rate_N r))"
proof -
  define b where "b = refilled (start_bucket l rule r now) r now"
  have sb: "wf_bucket (start_bucket l rule r now)" "bk_rate (start_bucket l rule r now) = r" using start_bucket_wf[OF l] by auto
  have b: "wf_bucket b" "bk_rate b = r" "bk_last b = now" unfolding b_def using refilled_wf[OF sb] by auto
  then have bt: "0 \<le> bk_tokens b" "bk_tokens b \<le> fl64 (of_int (rate_N r))" by (auto simp: wf_bucket_def)
  show ?thesis
  proof (cases "bk_tokens b < 1")
    case True
    then have "l' rule = Some b" "\<not> ok" using a by (auto simp: Limiter_Allow_def refill_eq b_def)
    then show ?thesis using b bt unfolding b_def[symmetric] by (intro exI[of _ b]) auto
  next
    case False
    have "fl64 (bk_tokens b - 1) \<le> (bk_tokens b - 1) * (1 + ulp)" using False by (intro fl64_error) simp
    also have "\<dots> = bk_tokens b - 1 + ulp * (bk_tokens b - 1)" by (simp add: field_simps)
    also have "\<dots> \<le> bk_tokens b - 1 + ulp * fl64 (of_int (rate_N r))"
      using bt by (intro add_left_mono mult_left_mono) auto
    finally have f: "fl64 (bk_tokens b - 1) + 1 \<le> bk_tokens b + ulp * fl64 (of_int (rate_N r))" by simp
    have "l' rule = Some (b\<lparr>bk_tokens := fl64 (bk_tokens b - 1)\<rparr>)" ok
      using a False by (auto simp: Limiter_Allow_def refill_eq b_def)
    then show ?thesis using b f False take_token_wf[OF b(1)] unfolding b_def[symmetric]
      by (intro exI[of _ "b\<lparr>bk_tokens := fl64 (bk_tokens b - 1)\<rparr>"]) auto
  qed
qed

text \<open>The rounding error of one call and the sum of it over a sequence of calls.\<close>

definition call_error :: "Rate \<Rightarrow> rat" where
  "call_error r = 7 * ulp * of_int (rate_N r)"

lemma call_error_nonneg: "wf_rate r \<Longrightarrow> 0 \<le> call_error r"
  by (auto simp: call_error_def wf_rate_def)

lemma call_error_Cons: "of_nat (length (c # calls)) * call_error r = of_nat (length calls) * call_error r + call_error r"
  by (simp add: algebra_simps)

lemma allowed_from_bucket:
  assumes "wf_limiter l" "l rule = Some b" "bk_rate b = r" "rate_N r \<le> 2 ^ 53"
    "sorted (map (\<lambda>(n, q, t). t) calls)" "\<forall>(n, q, t) \<in> set calls. bk_last b \<le> t \<and> t \<le> T \<and> wf_rate q \<and> (n = rule \<longrightarrow> q = r)"
    "bk_last b \<le> T"
  shows "of_nat (allowed rule l calls)
    \<le> bk_tokens b + of_int (rate_N r * (T - bk_last b)) / of_int (rate_Per r) + of_nat (length calls) * call_error r"
  using assms
proof (induction calls arbitrary: l b)
  case Nil
  have b: "wf_bucket b" "wf_rate r" using Nil wf_limiterD[of l rule b] by (auto simp: wf_bucket_def)
  then have "0 \<le> bk_tokens b" "0 \<le> (of_int (rate_N r * (T - bk_last b)) :: rat) / of_int (rate_Per r)"
    using Nil.prems by (auto simp: wf_bucket_def wf_rate_def)
  then show ?case by simp
next
  case (Cons c calls)
  obtain n q t where c: "c = (n, q, t)" by (cases c)
  obtain l' ok where a: "Limiter_Allow l n q t = (l', ok)" by (cases "Limiter_Allow l n q t")
  have b: "wf_bucket b" "wf_rate q" "bk_last b \<le> t" "t \<le> T" using Cons.prems wf_limiterD[of l rule b] by (auto simp: c)
  have r: "wf_rate r" using b(1) Cons.prems(3) by (simp add: wf_bucket_def)
  have l': "wf_limiter l'" using Limiter_Allow_wf[OF Cons.prems(1) b(2), of n t] a by simp
  have rest: "\<forall>(n, q, t') \<in> set calls. t \<le> t' \<and> t' \<le> T \<and> wf_rate q \<and> (n = rule \<longrightarrow> q = r)" "sorted (map (\<lambda>(n, q, t). t) calls)"
    using Cons.prems(5,6) by (fastforce simp: c)+
  note err = call_error_nonneg[OF r] call_error_Cons[of c calls r]
  show ?case
  proof (cases "n = rule")
    case False
    then have "l' rule = Some b" using Limiter_Allow_other[of rule n l q t] a Cons.prems(2) by simp
    from Cons.IH[OF l' this Cons.prems(3,4) rest(2) _ Cons.prems(7)] have
      "of_nat (allowed rule l' calls) \<le> bk_tokens b + of_int (rate_N r * (T - bk_last b)) / of_int (rate_Per r)
        + of_nat (length calls) * call_error r"
      using Cons.prems(6) by (force simp: c)
    moreover have "allowed rule l (c # calls) = allowed rule l' calls" using False a by (simp add: c)
    ultimately show ?thesis using err by linarith
  next
    case True
    have q: "q = r" using Cons.prems(6) True by (auto simp: c)
    have sb: "start_bucket l rule r t = b" using Cons.prems(2,3) by (simp add: start_bucket_def)
    obtain b' where b': "l' rule = Some b'" "bk_rate b' = r" "bk_last b' = t"
      "bk_tokens b' + (if ok then 1 else 0) \<le> bk_tokens (refilled b r t) + ulp * fl64 (of_int (rate_N r))"
      using Limiter_Allow_bucket[OF Cons.prems(1) b(2) a] True q sb by auto
    have ref: "bk_tokens (refilled b r t)
       \<le> bk_tokens b + of_int (rate_N r * (t - bk_last b)) / of_int (rate_Per r) + 6 * ulp * of_int (rate_N r)"
      using refilled_tokens[OF b(1) Cons.prems(3,4) b(3)] .
    have ih: "of_nat (allowed rule l' calls) \<le> bk_tokens b' + of_int (rate_N r * (T - t)) / of_int (rate_Per r)
        + of_nat (length calls) * call_error r"
      using Cons.IH[OF l' b'(1,2) Cons.prems(4) rest(2)] rest(1) b(4) unfolding b'(3) by blast
    have split: "of_int (rate_N r * (T - bk_last b)) / (of_int (rate_Per r) :: rat)
       = of_int (rate_N r * (t - bk_last b)) / of_int (rate_Per r) + of_int (rate_N r * (T - t)) / of_int (rate_Per r)"
      by (simp add: add_divide_distrib[symmetric] algebra_simps)
    have "(of_nat (allowed rule l (c # calls)) :: rat) = of_nat (allowed rule l' calls) + (if ok then 1 else 0)"
      using True a by (simp add: c)
    moreover have "6 * ulp * of_int (rate_N r) + ulp * of_int (rate_N r) = call_error r" by (simp add: call_error_def)
    ultimately show ?thesis
      using ih ref b'(4) err(2) unfolding split fl64_exact_count[OF r Cons.prems(4)] by linarith
  qed
qed

lemma allowed_window:
  assumes "wf_limiter l" "rate_N r \<le> 2 ^ 53" "wf_rate r" "a \<le> T"
    "sorted (map (\<lambda>(n, q, t). t) calls)" "\<forall>(n, q, t) \<in> set calls. a \<le> t \<and> t \<le> T \<and> wf_rate q \<and> (n = rule \<longrightarrow> q = r)"
  shows "of_nat (allowed rule l calls)
    \<le> of_int (rate_N r) + of_int (rate_N r * (T - a)) / of_int (rate_Per r) + of_nat (length calls) * call_error r"
  using assms
proof (induction calls arbitrary: l)
  case Nil
  then show ?case by (auto simp: wf_rate_def)
next
  case (Cons c calls)
  obtain n q t where c: "c = (n, q, t)" by (cases c)
  obtain l' ok where al: "Limiter_Allow l n q t = (l', ok)" by (cases "Limiter_Allow l n q t")
  have b: "wf_rate q" "a \<le> t" "t \<le> T" using Cons.prems by (auto simp: c)
  have l': "wf_limiter l'" using Limiter_Allow_wf[OF Cons.prems(1) b(1), of n t] al by simp
  note err = call_error_nonneg[OF Cons.prems(3)] call_error_Cons[of c calls r]
  show ?case
  proof (cases "n = rule")
    case False
    then have "allowed rule l (c # calls) = allowed rule l' calls" using al by (simp add: c)
    moreover have "of_nat (allowed rule l' calls) \<le> of_int (rate_N r) + of_int (rate_N r * (T - a)) / of_int (rate_Per r)
        + of_nat (length calls) * call_error r"
      using Cons.prems(5,6) by (intro Cons.IH[OF l' Cons.prems(2,3,4)]) (auto simp: c)
    ultimately show ?thesis using err by linarith
  next
    case True
    have q: "q = r" using Cons.prems(6) True by (auto simp: c)
    have N: "fl64 (of_int (rate_N r)) = of_int (rate_N r)" using fl64_exact_count Cons.prems(2,3) by blast
    obtain b' where b': "l' rule = Some b'" "bk_rate b' = r" "bk_last b' = t"
      "bk_tokens b' + (if ok then 1 else 0) \<le> bk_tokens (refilled (start_bucket l rule r t) r t) + ulp * of_int (rate_N r)"
      using Limiter_Allow_bucket[OF Cons.prems(1) b(1) al] True q N by auto
    have "wf_bucket (refilled (start_bucket l rule r t) r t)" "bk_rate (refilled (start_bucket l rule r t) r t) = r"
      using start_bucket_wf[OF Cons.prems(1,3)] refilled_wf by blast+
    then have full: "bk_tokens (refilled (start_bucket l rule r t) r t) \<le> of_int (rate_N r)" using N by (simp add: wf_bucket_def)
    have rest: "\<forall>(n, q, t') \<in> set calls. t \<le> t' \<and> t' \<le> T \<and> wf_rate q \<and> (n = rule \<longrightarrow> q = r)" "sorted (map (\<lambda>(n, q, t). t) calls)"
      using Cons.prems(5,6) by (fastforce simp: c)+
    have ih: "of_nat (allowed rule l' calls) \<le> bk_tokens b' + of_int (rate_N r * (T - t)) / of_int (rate_Per r)
        + of_nat (length calls) * call_error r"
      using allowed_from_bucket[OF l' b'(1,2) Cons.prems(2) rest(2), of T] rest(1) b(3) unfolding b'(3) by blast
    have "rate_N r * (T - t) \<le> rate_N r * (T - a)" using b(2) Cons.prems(3) by (auto simp: wf_rate_def)
    then have le: "of_int (rate_N r * (T - t)) / (of_int (rate_Per r) :: rat) \<le> of_int (rate_N r * (T - a)) / of_int (rate_Per r)"
      using Cons.prems(3) by (intro divide_right_mono) (auto simp: wf_rate_def simp del: of_int_mult)
    have "(of_nat (allowed rule l (c # calls)) :: rat) = of_nat (allowed rule l' calls) + (if ok then 1 else 0)"
      using True al by (simp add: c)
    moreover have "ulp * of_int (rate_N r) \<le> call_error r" using Cons.prems(3) by (auto simp: call_error_def wf_rate_def)
    ultimately show ?thesis using ih b'(4) full le err(2) by linarith
  qed
qed

section \<open>Bursts\<close>

text \<open>A full bucket lets exactly N calls of one instant through.\<close>

fun allow_times :: "nat \<Rightarrow> Limiter \<Rightarrow> string \<Rightarrow> Rate \<Rightarrow> gtime \<Rightarrow> bool list" where
  "allow_times 0 l rule r now = []"
| "allow_times (Suc k) l rule r now = (let (l', ok) = Limiter_Allow l rule r now in ok # allow_times k l' rule r now)"

lemma refilled_same_instant: "bk_last b = now \<Longrightarrow> refilled b r now = b"
  by (simp add: refilled_def time_sub_pos_iff)

lemma allow_times_count:
  assumes "l rule = Some \<lparr>bk_rate = r, bk_tokens = of_nat m, bk_last = now\<rparr>" "int m \<le> 2 ^ 53"
  shows "allow_times k l rule r now = map (\<lambda>i. i < m) [0..<k]"
  using assms
proof (induction k arbitrary: l m)
  case 0
  then show ?case by simp
next
  case (Suc k)
  let ?b = "\<lambda>x. \<lparr>bk_rate = r, bk_tokens = of_nat x, bk_last = now\<rparr>"
  have sb: "refill l rule r now = (l(rule \<mapsto> ?b m), ?b m)"
    using Suc.prems(1) refilled_same_instant[of "?b m" now r] by (simp add: refill_eq start_bucket_def)
  have up: "map (\<lambda>i. i < m) [0..<Suc k] = (0 < m) # map (\<lambda>i. i < m - 1) [0..<k]"
    unfolding upt_conv_Cons[OF zero_less_Suc] by (auto simp: map_Suc_upt[symmetric] simp del: upt_Suc)
  show ?case
  proof (cases m)
    case 0
    then have "Limiter_Allow l rule r now = (l(rule \<mapsto> ?b 0), False)" using sb by (simp add: Limiter_Allow_def)
    then show ?thesis using Suc.IH[of "l(rule \<mapsto> ?b 0)" 0] 0 up by (simp del: upt_Suc fun_upd_apply) (simp add: fun_upd_def)
  next
    case (Suc m')
    have "fl64 (of_int (int m')) = of_int (int m')" using Suc.prems(2) Suc by (intro fl64_int) auto
    then have "fl64 (of_nat (Suc m') - 1) = of_nat m'" by simp
    then have "Limiter_Allow l rule r now = (l(rule \<mapsto> ?b m'), True)"
      using sb Suc by (simp add: Limiter_Allow_def)
    then show ?thesis using Suc.IH[of "l(rule \<mapsto> ?b m')" m'] Suc.prems(2) Suc up by (simp del: upt_Suc fun_upd_apply) (simp add: fun_upd_def)
  qed
qed

text \<open>A bucket that was idle for a whole period is full again, when N times the period is represented exactly.\<close>

lemma idle_refills:
  assumes b: "wf_limiter l" "wf_rate r" "l rule = Some b" "bk_rate b = r"
    and idle: "rate_Per r \<le> now - bk_last b" and ex: "rate_N r * rate_Per r \<le> 2 ^ 53"
  shows "refill l rule r now = (l(rule \<mapsto> \<lparr>bk_rate = r, bk_tokens = of_int (rate_N r), bk_last = now\<rparr>),
    \<lparr>bk_rate = r, bk_tokens = of_int (rate_N r), bk_last = now\<rparr>)"
proof -
  define el where "el = time_sub now (bk_last b)"
  have p: "0 < rate_N r" "0 < rate_Per r" "rate_Per r \<le> max_int64" using b(2) by (auto simp: wf_rate_def max_int64_def)
  have el: "rate_Per r \<le> el" using idle p unfolding el_def time_sub_def by (auto simp: min_int64_def)
  have "rate_N r * 1 \<le> rate_N r * rate_Per r" using p by (intro mult_left_mono) auto
  then have "rate_N r \<le> 2 ^ 53" using ex by linarith
  then have N: "fl64 (of_int (rate_N r)) = of_int (rate_N r)" using fl64_exact_count[OF b(2)] by blast
  have P: "fl64 (of_int (rate_Per r)) = of_int (rate_Per r)" using fl64_exact_per[OF b(2)] .
  have "of_int (rate_Per r) \<le> fl64 (of_int el)" using fl64_mono[of "of_int (rate_Per r)" "of_int el"] el p P by simp
  then have "of_int (rate_N r) * of_int (rate_Per r) \<le> of_int (rate_N r) * fl64 (of_int el)" using p by (intro mult_left_mono) auto
  then have "fl64 (of_int (rate_N r * rate_Per r)) \<le> fl64 (of_int (rate_N r) * fl64 (of_int el))"
    using p by (intro fl64_mono) auto
  then have "of_int (rate_N r * rate_Per r) \<le> fl64 (of_int (rate_N r) * fl64 (of_int el))" using fl64_int[of "rate_N r * rate_Per r"] ex p by simp
  then have "of_int (rate_N r) \<le> fl64 (of_int (rate_N r) * fl64 (of_int el)) / of_int (rate_Per r)" using p by (simp add: field_simps)
  then have g: "of_int (rate_N r) \<le> gain r el"
    using fl64_mono[of "of_int (rate_N r)"] N P p by (force simp: gain_def)
  have "0 \<le> bk_tokens b" using wf_limiterD[OF b(1,3)] by (simp add: wf_bucket_def)
  then have "of_int (rate_N r) \<le> fl64 (bk_tokens b + gain r el)"
    using fl64_mono[of "of_int (rate_N r)" "bk_tokens b + gain r el"] g N p by simp
  then have "refilled b r now = \<lparr>bk_rate = r, bk_tokens = of_int (rate_N r), bk_last = now\<rparr>"
    using b(4) el p N by (simp add: refilled_def el_def[symmetric] min_def)
  then show ?thesis using b(3,4) by (simp add: refill_eq start_bucket_def)
qed

lemma allow_times_refill:
  assumes "refill l rule r now = (l', b)" "l' rule = Some b" "bk_rate b = r" "bk_last b = now"
  shows "allow_times k l rule r now = allow_times k l' rule r now"
proof (cases k)
  case (Suc k')
  have "start_bucket l' rule r now = b" using assms(2,3) by (simp add: start_bucket_def)
  then have "refill l' rule r now = (l'(rule \<mapsto> b), b)" using refilled_same_instant[OF assms(4)] by (simp add: refill_eq)
  moreover have "l'(rule \<mapsto> b) = l'" using assms(2) by auto
  ultimately have "Limiter_Allow l rule r now = Limiter_Allow l' rule r now" using assms(1) by (simp add: Limiter_Allow_def)
  then show ?thesis using Suc by simp
qed simp

lemma allow_times_full:
  assumes "wf_limiter l" "wf_rate r" "rate_N r * rate_Per r \<le> 2 ^ 53"
    "\<forall>b. l rule = Some b \<longrightarrow> bk_rate b \<noteq> r \<or> rate_Per r \<le> now - bk_last b"
  shows "allow_times k l rule r now = map (\<lambda>i. int i < rate_N r) [0..<k]"
proof -
  have N: "0 < rate_N r" "1 \<le> rate_Per r" using assms(2) by (auto simp: wf_rate_def)
  have "rate_N r * 1 \<le> rate_N r * rate_Per r" using N by (intro mult_left_mono) auto
  then have N53: "rate_N r \<le> 2 ^ 53" using assms(3) by simp
  let ?b = "\<lparr>bk_rate = r, bk_tokens = of_int (rate_N r), bk_last = now\<rparr>"
  have rf: "refill l rule r now = (l(rule \<mapsto> ?b), ?b)"
  proof (cases "\<exists>b. l rule = Some b \<and> bk_rate b = r")
    case True
    then show ?thesis using idle_refills assms by blast
  next
    case False
    then have "start_bucket l rule r now = ?b"
      using fl64_exact_count[OF assms(2) N53] by (auto simp: start_bucket_def split: option.split)
    then show ?thesis using refilled_same_instant[of ?b now r] by (simp add: refill_eq)
  qed
  have "allow_times k l rule r now = allow_times k (l(rule \<mapsto> ?b)) rule r now" by (rule allow_times_refill[OF rf]) simp_all
  also have "\<dots> = map (\<lambda>i. i < nat (rate_N r)) [0..<k]"
    using N N53 by (intro allow_times_count) (simp_all add: of_nat_nat)
  also have "\<dots> = map (\<lambda>i. int i < rate_N r) [0..<k]" by (simp add: zless_nat_eq_int_zless)
  finally show ?thesis .
qed

end
