(* ===== verification/Go_Json.thy ===== *)
theory Go_Json
  imports Go_Text
begin

text \<open>
  Strings as \<open>encoding/json\<close> writes them and reads them back: the short escapes, the escapes of
  control characters and of the HTML characters, and their inverse. Bytes above 127 stand for themselves, which
  is exact for valid UTF-8 other than U+2028 and U+2029 (written as escapes); the ids the code stores are hex text.
\<close>

definition hex_char :: "nat \<Rightarrow> char" where
  "hex_char d = (if d < 10 then char_of (48 + d) else char_of (87 + d))"

definition hex_value :: "char \<Rightarrow> nat option" where
  "hex_value c = (let n = of_char c in
     if 48 \<le> n \<and> n \<le> 57 then Some (n - 48)
     else if 97 \<le> n \<and> n \<le> 102 then Some (n - 87)
     else if 65 \<le> n \<and> n \<le> 70 then Some (n - 55) else None)"

definition json_escape :: "char \<Rightarrow> string" where
  "json_escape c =
     (if c = CHR 0x22 then [CHR 0x5C, CHR 0x22]
      else if c = CHR 0x5C then [CHR 0x5C, CHR 0x5C]
      else if c = CHR 0x08 then [CHR 0x5C, CHR ''b'']
      else if c = CHR 0x0C then [CHR 0x5C, CHR ''f'']
      else if c = CHR 0x0A then [CHR 0x5C, CHR ''n'']
      else if c = CHR 0x0D then [CHR 0x5C, CHR ''r'']
      else if c = CHR 0x09 then [CHR 0x5C, CHR ''t'']
      else if of_char c < (32 :: nat) \<or> c \<in> {CHR ''<'', CHR ''>'', CHR ''&''}
        then [CHR 0x5C, CHR ''u'', CHR ''0'', CHR ''0'', hex_char (of_char c div 16), hex_char (of_char c mod 16)]
      else [c])"

definition json_quote :: "string \<Rightarrow> string" where
  "json_quote s = CHR 0x22 # concat (map json_escape s) @ [CHR 0x22]"

text \<open>What follows a backslash: the character it stands for and the rest.\<close>

definition json_unescape :: "string \<Rightarrow> (char \<times> string) option" where
  "json_unescape s = (case s of
     [] \<Rightarrow> None
   | c # r \<Rightarrow>
      if c = CHR 0x22 \<or> c = CHR 0x5C \<or> c = CHR ''/'' then Some (c, r)
      else if c = CHR ''b'' then Some (CHR 0x08, r)
      else if c = CHR ''f'' then Some (CHR 0x0C, r)
      else if c = CHR ''n'' then Some (CHR 0x0A, r)
      else if c = CHR ''r'' then Some (CHR 0x0D, r)
      else if c = CHR ''t'' then Some (CHR 0x09, r)
      else if c = CHR ''u'' \<and> 4 \<le> length r then
        (case (hex_value (r ! 0), hex_value (r ! 1), hex_value (r ! 2), hex_value (r ! 3)) of
           (Some h3, Some h2, Some h1, Some h0) \<Rightarrow>
             if h3 = 0 \<and> h2 = 0 \<and> h1 < 8 then Some (char_of (16 * h1 + h0), drop 4 r) else None
         | _ \<Rightarrow> None)
      else None)"

lemma json_unescape_length: "json_unescape s = Some (c, r) \<Longrightarrow> length r < length s"
  by (auto simp: json_unescape_def split: list.splits if_splits option.splits)

text \<open>The string up to its closing quote, and the rest.\<close>

function json_unquote :: "string \<Rightarrow> (string \<times> string) option" where
  "json_unquote s = (case s of
     [] \<Rightarrow> None
   | c # r \<Rightarrow>
      if c = CHR 0x22 then Some ([], r)
      else if c = CHR 0x5C then (case json_unescape r of
          None \<Rightarrow> None
        | Some (d, r') \<Rightarrow> map_option (\<lambda>(a, b). (d # a, b)) (json_unquote r'))
      else if of_char c < (32 :: nat) then None
      else map_option (\<lambda>(a, b). (c # a, b)) (json_unquote r))"
  by pat_completeness auto
termination
  by (relation "measure length") (auto dest: json_unescape_length)

declare json_unquote.simps [simp del]

lemma hex_value_hex_char [simp]: "d < 16 \<Longrightarrow> hex_value (hex_char d) = Some d"
  by (auto simp: hex_value_def hex_char_def Let_def)

lemma json_unquote_escape:
  "json_unquote (json_escape c @ r) = map_option (\<lambda>(a, b). (c # a, b)) (json_unquote r)"
proof -
  let ?special = "c \<in> {CHR 0x22, CHR 0x5C, CHR 0x08, CHR 0x0C, CHR 0x0A, CHR 0x0D, CHR 0x09}"
  let ?control = "of_char c < (32 :: nat) \<or> c \<in> {CHR ''<'', CHR ''>'', CHR ''&''}"
  show ?thesis
  proof (cases ?special)
    case True
    then show ?thesis
      by (auto simp: json_escape_def json_unescape_def json_unquote.simps[of "CHR 0x5C # s" for s])
  next
    case ns: False
    show ?thesis
    proof (cases ?control)
      case True
      have e: "json_escape c = [CHR 0x5C, CHR ''u'', CHR ''0'', CHR ''0'', hex_char (of_char c div 16), hex_char (of_char c mod 16)]"
        using ns True unfolding json_escape_def by simp
      have "of_char c < (64 :: nat)" using True by auto
      then have h: "of_char c div 16 < (8 :: nat)" "of_char c mod 16 < (16 :: nat)" by simp_all
      have z: "hex_value CHR ''0'' = Some 0" by (simp add: hex_value_def)
      have "json_unescape (tl (json_escape c) @ r) = Some (c, r)"
        using h unfolding e json_unescape_def by (simp add: z)
      then show ?thesis unfolding e by (subst json_unquote.simps) simp
    next
      case False
      then have "json_escape c = [c]" using ns unfolding json_escape_def by simp
      then show ?thesis using ns False by (simp add: json_unquote.simps[of "c # r"])
    qed
  qed
qed

lemma json_unquote_quote:
  "json_unquote (concat (map json_escape s) @ CHR 0x22 # r) = Some (s, r)"
proof (induction s)
  case Nil
  then show ?case by (simp add: json_unquote.simps)
next
  case (Cons c s)
  then show ?case by (simp add: json_unquote_escape)
qed

lemma hex_char_graph: "d < 16 \<Longrightarrow> is_ascii_graph (hex_char d)"
  by (auto simp: is_ascii_graph_def hex_char_def)

lemma json_escape_no_newline: "CHR 0x0A \<notin> set (json_escape c)"
proof -
  have "of_char c mod 256 < (256 :: nat)" by (rule mod_less_divisor) simp
  then have "of_char c < (256 :: nat)" by (simp only: of_char_mod_256)
  then have "of_char c div 16 < (16 :: nat)" "of_char c mod 16 < (16 :: nat)" by (simp_all add: less_mult_imp_div_less)
  then have "hex_char (of_char c div 16) \<noteq> CHR 0x0A" "hex_char (of_char c mod 16) \<noteq> CHR 0x0A"
    using hex_char_graph ascii_graph_not(1) by blast+
  then show ?thesis unfolding json_escape_def by (simp split: if_split)
qed

lemma json_quote_no_newline: "CHR 0x0A \<notin> set (json_quote s)"
  using json_escape_no_newline by (auto simp: json_quote_def)

end
