(* ===== verification/Go_Scan.thy ===== *)
theory Go_Scan
  imports Go_Text
begin

text \<open>
  Reading a text file line by line: \<open>bufio.Scanner\<close> with its default split function, and what appending whole lines to a
  file does to its lines.
\<close>

abbreviation newline :: char where "newline \<equiv> CHR 0x0A"

text \<open>\<open>bufio.Scanner\<close> with its default \<open>ScanLines\<close>: lines without their end, a last one that is not terminated included.\<close>

definition strip_cr :: "string \<Rightarrow> string" where
  "strip_cr l = (case cut_suffix l [CHR 0x0D] of Some x \<Rightarrow> x | None \<Rightarrow> l)"

definition scan_lines :: "string \<Rightarrow> string list" where
  "scan_lines data = (let ls = split data newline in map strip_cr (if last ls = [] then butlast ls else ls))"

text \<open>A line of \<open>bufio.MaxScanTokenSize\<close> bytes or more makes the scanner fail.\<close>

definition scan_too_long :: "string \<Rightarrow> bool" where
  "scan_too_long data \<longleftrightarrow> (\<exists>l \<in> set (split data newline). 65536 \<le> length l)"

section \<open>Appending lines\<close>

text \<open>A file that ends at the end of a line: lines appended to it are read back as lines of their own.\<close>

definition clean :: "string \<Rightarrow> bool" where
  "clean data \<longleftrightarrow> data = [] \<or> last data = newline"

lemma clean_cases: "clean data \<longleftrightarrow> data = [] \<or> (\<exists>d. data = d @ [newline])"
  by (cases data rule: rev_cases) (auto simp: clean_def)

lemma split_snoc_newline: "split (d @ newline # s) newline = split d newline @ split s newline"
proof (induction d)
  case Nil
  then show ?case by simp
next
  case (Cons c d)
  obtain w ws where "split d newline = w # ws" by (meson neq_Nil_conv split_not_Nil)
  then show ?case using Cons by auto
qed

lemma split_clean:
  assumes "clean data"
  shows "split (data @ s) newline = butlast (split data newline) @ split s newline" "last (split data newline) = []"
  using assms by (auto simp: clean_cases split_snoc_newline butlast_append)

lemma scan_lines_append:
  assumes "clean data"
  shows "scan_lines (data @ s) = scan_lines data @ scan_lines s"
  using split_clean[OF assms] by (simp add: scan_lines_def Let_def last_append butlast_append)

lemma scan_lines_line: "newline \<notin> set l \<Longrightarrow> scan_lines (l @ [newline]) = [strip_cr l]"
  by (simp add: scan_lines_def Let_def split_app)

lemma clean_append: "clean a \<Longrightarrow> clean b \<Longrightarrow> clean (a @ b)"
  by (cases "b = []") (simp_all add: clean_def)

end
