(* ===== verification/Signer_Used.thy ===== *)
theory Signer_Used
  imports Signer_Policy Go_Json Go_Scan "HOL-Library.AList"
begin

text \<open>
  The record of consumed attestations (\<open>signer/usedset.go\<close>): a set of ids in memory and, when the
  signer has a state directory, an append-only file of JSON lines. The file is its bytes, so that a
  write that stops halfway leaves a torn line, as it does on a disk. The ids, a Go map, are an
  association list; its order is the order in which the compacted file lists them.
\<close>

section \<open>Lines\<close>

abbreviation usedRetention :: duration where "usedRetention \<equiv> MaxAttestationAge + hour"

record UsedEntry =
  ue_ID :: string
  ue_CreatedAt :: int

text \<open>\<open>json.Marshal\<close> of an entry.\<close>

definition used_line :: "UsedEntry \<Rightarrow> string" where
  "used_line e = ''{'' @ json_quote ''id'' @ '':'' @ json_quote (ue_ID e) @ '','' @ json_quote ''created_at'' @ '':''
     @ itoa (ue_CreatedAt e) @ ''}''"

text \<open>
  \<open>json.Unmarshal\<close> into an entry, for the lines the program can have written: whole entries, and
  what a torn write leaves, which is no JSON object.
\<close>

definition parse_used_line :: "string \<Rightarrow> UsedEntry option" where
  "parse_used_line line =
     (case cut_prefix line (''{'' @ json_quote ''id'' @ '':'' @ [CHR 0x22]) of
        None \<Rightarrow> None
      | Some r1 \<Rightarrow> (case json_unquote r1 of
          None \<Rightarrow> None
        | Some (aid, r2) \<Rightarrow> (case cut_prefix r2 ('','' @ json_quote ''created_at'' @ '':'') of
            None \<Rightarrow> None
          | Some r3 \<Rightarrow> (case cut_suffix r3 ''}'' of
              None \<Rightarrow> None
            | Some t \<Rightarrow> (case atoi t of
                None \<Rightarrow> None
              | Some n \<Rightarrow> if itoa n = t then Some \<lparr>ue_ID = aid, ue_CreatedAt = n\<rparr> else None)))))"

section \<open>The set\<close>

record UsedSet =
  us_ids :: "(string \<times> int) list"
  us_f :: bool

definition NewMemoryUsedSet :: UsedSet where
  "NewMemoryUsedSet = \<lparr>us_ids = [], us_f = False\<rparr>"

text \<open>The loop that reads the file.\<close>

definition load_line :: "string \<Rightarrow> (string \<times> int) list \<Rightarrow> (string \<times> int) list" where
  "load_line line ids = (case parse_used_line line of
     None \<Rightarrow> ids
   | Some e \<Rightarrow> if ue_ID e = [] then ids else AList.update (ue_ID e) (ue_CreatedAt e) ids)"

definition load_ids :: "string \<Rightarrow> (string \<times> int) list" where
  "load_ids data = fold load_line (scan_lines data) []"

text \<open>Which call of \<open>OpenUsedSet\<close> fails, if any. The file, if it exists, is the disk's \<open>Some\<close>.\<close>

datatype open_fault = NoFault | MkdirFault | OpenFault | ReadFault | TmpFault | RenameFault | AppendFault

definition used_lines :: "(string \<times> int) list \<Rightarrow> string" where
  "used_lines ids = concat (map (\<lambda>(aid, at). used_line \<lparr>ue_ID = aid, ue_CreatedAt = at\<rparr> @ [newline]) ids)"

definition OpenUsedSet :: "open_fault \<Rightarrow> string option \<Rightarrow> gtime \<Rightarrow> string option \<times> (goerr + UsedSet)" where
  "OpenUsedSet fault disk now =
     (if fault = MkdirFault then (disk, Inl (Err ''mkdir'' []))
      else if disk \<noteq> None \<and> fault = OpenFault then (disk, Inl (Err ''open'' []))
      else if (case disk of None \<Rightarrow> False | Some data \<Rightarrow> fault = ReadFault \<or> scan_too_long data)
        then (disk, Inl (Err ''reading %s'' []))
      else
        let loaded = (case disk of None \<Rightarrow> [] | Some data \<Rightarrow> load_ids data);
            cutoff = time_unix (time_add now (- usedRetention));
            ids = filter (\<lambda>(aid, at). \<not> at < cutoff) loaded
        in if fault = TmpFault \<or> fault = RenameFault then (disk, Inl (Err ''compacting'' []))
           else if fault = AppendFault then (Some (used_lines ids), Inl (Err ''open'' []))
           else (Some (used_lines ids), Inr \<lparr>us_ids = ids, us_f = True\<rparr>))"

definition Persistent :: "UsedSet \<Rightarrow> bool" where
  "Persistent u = us_f u"

definition Has :: "UsedSet \<Rightarrow> string \<Rightarrow> bool" where
  "Has u aid \<longleftrightarrow> map_of (us_ids u) aid \<noteq> None"

text \<open>How the write and the fsync of \<open>Add\<close> end: a failed write may have put a part of the buffer on the disk.\<close>

datatype write_outcome = WriteOk | WriteFailed nat | SyncFailed

definition append_file :: "string option \<Rightarrow> string \<Rightarrow> string option" where
  "append_file disk buf = (case disk of None \<Rightarrow> None | Some data \<Rightarrow> Some (data @ buf))"

definition add_ids :: "UsedEntry list \<Rightarrow> (string \<times> int) list \<Rightarrow> (string \<times> int) list" where
  "add_ids entries ids = fold (\<lambda>e. AList.update (ue_ID e) (ue_CreatedAt e)) entries ids"

definition Add :: "write_outcome \<Rightarrow> string option \<Rightarrow> UsedSet \<Rightarrow> UsedEntry list \<Rightarrow> string option \<times> UsedSet \<times> goerr option" where
  "Add w disk u entries =
     (if entries = [] then (disk, u, None)
      else let buf = concat (map (\<lambda>e. used_line e @ [newline]) entries);
               recorded = u\<lparr>us_ids := add_ids entries (us_ids u)\<rparr>
        in if \<not> us_f u then (disk, recorded, None)
           else (case w of
               WriteFailed k \<Rightarrow> (append_file disk (take k buf), u, Some (Err ''write'' []))
             | SyncFailed \<Rightarrow> (append_file disk buf, u, Some (Err ''sync'' []))
             | WriteOk \<Rightarrow> (append_file disk buf, recorded, None)))"

definition UsedSet_Close :: "UsedSet \<Rightarrow> UsedSet" where
  "UsedSet_Close u = u\<lparr>us_f := False\<rparr>"

section \<open>Reading back what was written\<close>

lemma parse_used_line_ok: "in_int64 (ue_CreatedAt e) \<Longrightarrow> parse_used_line (used_line e) = Some e"
proof -
  assume n: "in_int64 (ue_CreatedAt e)"
  let ?r3 = "itoa (ue_CreatedAt e) @ ''}''"
  let ?r2 = "('','' @ json_quote ''created_at'' @ '':'') @ ?r3"
  let ?r1 = "concat (map json_escape (ue_ID e)) @ CHR 0x22 # ?r2"
  have "used_line e = (''{'' @ json_quote ''id'' @ '':'' @ [CHR 0x22]) @ ?r1"
    by (simp add: used_line_def json_quote_def)
  then have 1: "cut_prefix (used_line e) (''{'' @ json_quote ''id'' @ '':'' @ [CHR 0x22]) = Some ?r1"
    by (simp only: cut_prefix_Some)
  have 2: "cut_prefix ?r2 ('','' @ json_quote ''created_at'' @ '':'') = Some ?r3" by (simp only: cut_prefix_Some)
  have 3: "cut_suffix ?r3 ''}'' = Some (itoa (ue_CreatedAt e))" by (simp only: cut_suffix_Some)
  show ?thesis
    unfolding parse_used_line_def 1 option.case json_unquote_quote prod.case 2 3 using atoi_itoa[OF n] by simp
qed

lemma used_line_not_Nil [simp]: "used_line e \<noteq> []"
  by (simp add: used_line_def)

lemma itoa_no_newline: "newline \<notin> set (itoa n)"
proof -
  have "of_char c \<noteq> (10 :: nat)" if "c \<in> set (nat_text k)" for c k
    using nat_text_digits[OF that] digit_char_ascii by force
  then have "newline \<notin> set (nat_text k)" for k by force
  then show ?thesis by (simp add: itoa_def)
qed

lemma used_line_no_newline: "newline \<notin> set (used_line e)"
  using itoa_no_newline json_quote_no_newline by (simp add: used_line_def)

lemma strip_cr_used_line [simp]: "strip_cr (used_line e) = used_line e"
  by (auto simp: strip_cr_def cut_suffix_def has_suffix_iff used_line_def)

definition entry_lines :: "UsedEntry list \<Rightarrow> string" where
  "entry_lines es = concat (map (\<lambda>e. used_line e @ [newline]) es)"

lemma entry_lines_simps [simp]: "entry_lines [] = []" "entry_lines (e # es) = used_line e @ newline # entry_lines es"
  by (simp_all add: entry_lines_def)

lemma clean_entry_lines: "clean (entry_lines es)"
  by (induction es rule: rev_induct) (simp_all add: entry_lines_def clean_def)

lemma scan_entry_lines: "scan_lines (entry_lines es) = map used_line es"
proof (induction es)
  case Nil
  then show ?case by (simp add: scan_lines_def)
next
  case (Cons e es)
  have "clean (used_line e @ [newline])" by (simp add: clean_def)
  from scan_lines_append[OF this, of "entry_lines es"] show ?case
    using Cons by (simp add: scan_lines_line used_line_no_newline)
qed

lemma load_ids_append:
  assumes "clean data" "\<forall>e \<in> set es. ue_ID e \<noteq> [] \<and> in_int64 (ue_CreatedAt e)"
  shows "load_ids (data @ entry_lines es) = add_ids es (load_ids data)"
proof -
  have "fold load_line (map used_line es) ids = add_ids es ids" for ids
    using assms(2) by (induction es arbitrary: ids) (simp_all add: add_ids_def load_line_def parse_used_line_ok)
  then show ?thesis by (simp add: load_ids_def scan_lines_append[OF assms(1)] scan_entry_lines)
qed

section \<open>The set and its file\<close>

definition wf_ids :: "(string \<times> int) list \<Rightarrow> bool" where
  "wf_ids ids \<longleftrightarrow> distinct (map fst ids) \<and> (\<forall>(k, v) \<in> set ids. k \<noteq> [] \<and> in_int64 v)"

lemma wf_ids_update: "wf_ids ids \<Longrightarrow> k \<noteq> [] \<Longrightarrow> in_int64 v \<Longrightarrow> wf_ids (AList.update k v ids)"
proof -
  assume w: "wf_ids ids" "k \<noteq> []" "in_int64 v"
  have "set (AList.update k v ids) \<subseteq> insert (k, v) (set ids)" by (induction ids) auto
  then show ?thesis using w distinct_update[of ids k v] by (auto simp: wf_ids_def)
qed

lemma atoi_in_int64: "atoi s = Some n \<Longrightarrow> in_int64 n"
  by (auto simp: atoi_def Let_def split: if_splits option.splits list.splits)

lemma parse_used_line_int64: "parse_used_line l = Some e \<Longrightarrow> in_int64 (ue_CreatedAt e)"
  by (auto simp: parse_used_line_def atoi_in_int64 split: option.splits if_splits)

lemma load_ids_wf: "wf_ids (load_ids data)"
proof -
  have *: "wf_ids (fold load_line ls ids)" if "wf_ids ids" for ls ids
    using that
    by (induction ls arbitrary: ids)
      (auto simp: load_line_def wf_ids_update parse_used_line_int64 split: option.splits)
  show ?thesis unfolding load_ids_def by (rule *) (simp add: wf_ids_def)
qed

lemma wf_ids_filter: "wf_ids ids \<Longrightarrow> wf_ids (filter P ids)"
  by (auto simp: wf_ids_def distinct_map_filter)

lemma map_of_filter_key:
  assumes "distinct (map fst ids)" "map_of ids k = Some v" "P (k, v)"
  shows "map_of (filter P ids) k = Some v"
  using assms by (simp add: distinct_map_filter)

text \<open>The map after entries are recorded in turn: the last entry of an id counts.\<close>

definition upd_all :: "UsedEntry list \<Rightarrow> (string \<rightharpoonup> int) \<Rightarrow> (string \<rightharpoonup> int)" where
  "upd_all es m = m ++ map_of (rev (map (\<lambda>e. (ue_ID e, ue_CreatedAt e)) es))"

lemma upd_all_simps [simp]: "upd_all [] m = m" "upd_all (e # es) m = upd_all es (m(ue_ID e \<mapsto> ue_CreatedAt e))"
  by (simp_all add: upd_all_def)

lemma map_of_add_ids: "map_of (add_ids es ids) = upd_all es (map_of ids)"
  by (induction es arbitrary: ids) (simp_all add: add_ids_def update_conv')

lemma upd_all_other: "k \<notin> ue_ID ` set es \<Longrightarrow> upd_all es m k = m k"
  by (induction es arbitrary: m) auto

lemma upd_all_same: "k \<in> ue_ID ` set es \<Longrightarrow> upd_all es m k = upd_all es m' k"
proof (induction es arbitrary: m m')
  case (Cons e es)
  then show ?case by (cases "k \<in> ue_ID ` set es") (auto simp: upd_all_other)
qed simp

lemma upd_all_in: "k \<in> ue_ID ` set es \<Longrightarrow> \<exists>e \<in> set es. ue_ID e = k \<and> upd_all es m k = Some (ue_CreatedAt e)"
proof (induction es arbitrary: m)
  case (Cons e es)
  then show ?case by (cases "k \<in> ue_ID ` set es") (auto simp: upd_all_other)
qed simp

lemma upd_all_mono: "m \<subseteq>\<^sub>m m' \<Longrightarrow> upd_all es m \<subseteq>\<^sub>m upd_all es m'"
  unfolding map_le_def using upd_all_same upd_all_other by (metis domI domIff)

lemma upd_all_fresh: "ue_ID ` set es \<inter> dom m = {} \<Longrightarrow> m \<subseteq>\<^sub>m m' \<Longrightarrow> m \<subseteq>\<^sub>m upd_all es m'"
  unfolding map_le_def using upd_all_other[of _ es m'] by (metis IntI empty_iff)

lemma used_lines_entries: "used_lines ids = entry_lines (map (\<lambda>(k, v). \<lparr>ue_ID = k, ue_CreatedAt = v\<rparr>) ids)"
  by (induction ids) (auto simp: used_lines_def)

text \<open>The compacted file reads back as the set it was written from.\<close>

lemma load_used_lines:
  assumes "wf_ids ids"
  shows "map_of (load_ids (used_lines ids)) = map_of ids"
proof -
  let ?es = "map (\<lambda>(k, v). \<lparr>ue_ID = k, ue_CreatedAt = v\<rparr>) ids"
  have "\<forall>e \<in> set ?es. ue_ID e \<noteq> [] \<and> in_int64 (ue_CreatedAt e)" using assms by (auto simp: wf_ids_def)
  from load_ids_append[of "[]", OF _ this]
  have "map_of (load_ids (used_lines ids)) = upd_all ?es Map.empty"
    by (simp add: clean_def used_lines_entries map_of_add_ids load_ids_def scan_lines_def)
  also have "\<dots> = map_of (rev ids)"
    unfolding upd_all_def by (simp add: comp_def case_prod_unfold)
  also have "\<dots> = map_of ids"
    using assms by (intro map_of_inject_set[THEN iffD2]) (simp_all add: wf_ids_def rev_map[symmetric])
  finally show ?thesis .
qed

text \<open>An open set is backed by its file: the file is whole and holds every id the set holds.\<close>

definition backed :: "string option \<Rightarrow> UsedSet \<Rightarrow> bool" where
  "backed disk u \<longleftrightarrow> us_f u \<and> (\<exists>data. disk = Some data \<and> clean data \<and> map_of (us_ids u) \<subseteq>\<^sub>m map_of (load_ids data))"

text \<open>A write that left no part of a line behind.\<close>

definition whole_write :: "write_outcome \<Rightarrow> bool" where
  "whole_write w = (case w of WriteFailed k \<Rightarrow> k = 0 | _ \<Rightarrow> True)"

lemma Add_backed:
  assumes "Add w disk u entries = (disk', u', err)" "backed disk u" "whole_write w"
    "\<forall>e \<in> set entries. ue_ID e \<noteq> [] \<and> in_int64 (ue_CreatedAt e) \<and> map_of (us_ids u) (ue_ID e) = None"
  shows "backed disk' u'"
proof -
  obtain data where d: "us_f u" "disk = Some data" "clean data" "map_of (us_ids u) \<subseteq>\<^sub>m map_of (load_ids data)"
    using assms(2) by (auto simp: backed_def)
  have cl: "clean (data @ entry_lines entries)" using clean_append clean_entry_lines d(3) by blast
  have ld: "map_of (load_ids (data @ entry_lines entries)) = upd_all entries (map_of (load_ids data))"
    using load_ids_append[OF d(3), of entries] assms(4) by (simp add: map_of_add_ids)
  have dj: "ue_ID ` set entries \<inter> dom (map_of (us_ids u)) = {}" using assms(4) by auto
  show ?thesis
  proof (cases w)
    case WriteOk
    then show ?thesis using assms(1) d cl ld upd_all_mono[OF d(4), of entries]
      by (auto simp: Add_def backed_def append_file_def entry_lines_def[symmetric] map_of_add_ids Let_def split: if_splits)
  next
    case (WriteFailed k)
    then show ?thesis using assms(1,2,3) d
      by (auto simp: Add_def append_file_def whole_write_def Let_def split: if_splits)
  next
    case SyncFailed
    then show ?thesis using assms(1) d cl ld upd_all_fresh[OF dj d(4)]
      by (auto simp: Add_def backed_def append_file_def entry_lines_def[symmetric] Let_def split: if_splits)
  qed
qed

lemma Add_ids:
  assumes "Add w disk u entries = (disk', u', err)"
  shows "map_of (us_ids u') = (if err = None then upd_all entries (map_of (us_ids u)) else map_of (us_ids u))" "us_f u' = us_f u"
  using assms by (auto simp: Add_def Let_def map_of_add_ids split: if_splits write_outcome.splits)

text \<open>A set opened on a file holds what the file held and the retention window still covers, and is backed again.\<close>

lemma OpenUsedSet_backed:
  assumes "OpenUsedSet fault disk now = (disk', Inr u)"
  shows "backed disk' u"
    "\<And>data k at. disk = Some data \<Longrightarrow> map_of (load_ids data) k = Some at
       \<Longrightarrow> time_unix (time_add now (- usedRetention)) \<le> at \<Longrightarrow> map_of (us_ids u) k = Some at"
proof -
  define ids where "ids = filter (\<lambda>(aid, at). \<not> at < time_unix (time_add now (- usedRetention)))
      (case disk of None \<Rightarrow> [] | Some data \<Rightarrow> load_ids data)"
  have o: "disk' = Some (used_lines ids)" "u = \<lparr>us_ids = ids, us_f = True\<rparr>"
    using assms by (auto simp: OpenUsedSet_def Let_def ids_def split: if_splits)
  have w: "wf_ids ids"
    unfolding ids_def by (intro wf_ids_filter) (use load_ids_wf in \<open>auto simp: wf_ids_def split: option.split\<close>)
  have "clean (used_lines ids)" by (simp add: used_lines_entries clean_entry_lines)
  then show "backed disk' u" using o load_used_lines[OF w] by (simp add: backed_def)
  show "map_of (us_ids u) k = Some at"
    if "disk = Some data" "map_of (load_ids data) k = Some at" "time_unix (time_add now (- usedRetention)) \<le> at" for data k at
    using that load_ids_wf[of data] map_of_filter_key[of "load_ids data" k at] o by (simp add: ids_def wf_ids_def)
qed

text \<open>Whether opening succeeds or not, the file loses only what the retention window no longer covers, and stays whole.\<close>

lemma OpenUsedSet_disk:
  assumes "OpenUsedSet fault disk now = (disk', r)" "disk' \<noteq> disk"
  shows "\<exists>data'. disk' = Some data' \<and> clean data'
    \<and> map_of (load_ids data') \<subseteq>\<^sub>m map_of (case disk of None \<Rightarrow> [] | Some data \<Rightarrow> load_ids data)
    \<and> (\<forall>k c. map_of (case disk of None \<Rightarrow> [] | Some data \<Rightarrow> load_ids data) k = Some c \<longrightarrow> time_unix (time_add now (- usedRetention)) \<le> c
         \<longrightarrow> map_of (load_ids data') k = Some c)"
proof -
  define old where "old = (case disk of None \<Rightarrow> [] | Some data \<Rightarrow> load_ids data)"
  define ids where "ids = filter (\<lambda>(aid, at). \<not> at < time_unix (time_add now (- usedRetention))) old"
  have o: "disk' = Some (used_lines ids)"
    using assms by (auto simp: OpenUsedSet_def Let_def ids_def old_def split: if_splits)
  have w: "wf_ids old" unfolding old_def using load_ids_wf by (auto simp: wf_ids_def split: option.split)
  then have l: "map_of (load_ids (used_lines ids)) = map_of ids" unfolding ids_def by (intro load_used_lines wf_ids_filter)
  have "map_of ids \<subseteq>\<^sub>m map_of old"
    using w by (auto simp: map_le_def ids_def wf_ids_def map_of_eq_Some_iff distinct_map_filter dest!: map_of_SomeD)
  moreover have "\<forall>k c. map_of old k = Some c \<longrightarrow> time_unix (time_add now (- usedRetention)) \<le> c \<longrightarrow> map_of ids k = Some c"
    using w map_of_filter_key[of old] by (auto simp: ids_def wf_ids_def)
  ultimately show ?thesis using o l clean_entry_lines unfolding old_def[symmetric] by (auto simp: used_lines_entries)
qed

end
