(* ===== verification/Signer_Refused.thy ===== *)
theory Signer_Refused
  imports Nostr
begin

text \<open>
  The memory of refused gift wraps (\<open>signer/refused.go\<close>). A policy is identified by its pointer, here the
  number of the load that made it; a key, the 32 bytes of a SHA-256, is its hex text. The Go map
  \<open>seen\<close>, whose values are all true, is the list of its keys, nil is \<open>None\<close>.
\<close>

definition RateLimitReason :: string where
  "RateLimitReason = ''rate limit exceeded''"

text \<open>
  An error as \<open>RateLimited\<close> sees it: one of package nipLS, with whether it is (\<open>errors.Is\<close>) a denial and its
  reason, or any other.
\<close>

datatype ls_error = LsError bool string | OtherError string

definition RateLimited :: "ls_error \<Rightarrow> bool" where
  "RateLimited err = (case err of
     OtherError _ \<Rightarrow> False
   | LsError denied reason \<Rightarrow> denied \<and> has_suffix reason RateLimitReason)"

record refusedWraps =
  rw_policy :: "nat option"
  rw_seen :: "string list option"
  rw_order :: "string list"

abbreviation refusedWrapsMax :: nat where "refusedWrapsMax \<equiv> 4096"

definition no_refused :: refusedWraps where
  "no_refused = \<lparr>rw_policy = None, rw_seen = None, rw_order = []\<rparr>"

definition wrapKey :: "externals \<Rightarrow> string \<Rightarrow> string \<Rightarrow> string" where
  "wrapKey X counterpart ciphertext = x_sha256 X (to_lower counterpart @ [CHR 0x0A] @ ciphertext)"

definition refused_has :: "refusedWraps \<Rightarrow> nat \<Rightarrow> string \<Rightarrow> bool" where
  "refused_has r p k \<longleftrightarrow> rw_policy r = Some p \<and> (case rw_seen r of None \<Rightarrow> False | Some s \<Rightarrow> k \<in> set s)"

definition refused_add :: "refusedWraps \<Rightarrow> nat \<Rightarrow> string \<Rightarrow> refusedWraps" where
  "refused_add r0 p k =
     (let r = (if rw_policy r0 \<noteq> Some p \<or> rw_seen r0 = None then \<lparr>rw_policy = Some p, rw_seen = Some [], rw_order = []\<rparr> else r0);
          seen = the (rw_seen r);
          full = refusedWrapsMax \<le> length (rw_order r);
          seen' = (if full then removeAll (hd (rw_order r)) seen else seen);
          order' = (if full then tl (rw_order r) else rw_order r)
      in if k \<in> set seen then r
         else r\<lparr>rw_seen := Some (seen' @ [k]), rw_order := order' @ [k]\<rparr>)"

text \<open>The memory lists each wrap it has seen once, in the order they came, and never more than the bound.\<close>

definition wf_refused :: "refusedWraps \<Rightarrow> bool" where
  "wf_refused r \<longleftrightarrow> distinct (rw_order r) \<and> length (rw_order r) \<le> refusedWrapsMax
     \<and> set (rw_order r) = (case rw_seen r of None \<Rightarrow> {} | Some s \<Rightarrow> set s)"

lemma wf_no_refused: "wf_refused no_refused"
  by (simp add: wf_refused_def no_refused_def)

text \<open>What the memory holds for a policy, oldest first.\<close>

definition remembered :: "refusedWraps \<Rightarrow> nat \<Rightarrow> string list" where
  "remembered r p = (if rw_policy r = Some p then rw_order r else [])"

lemma refused_has_remembered: "wf_refused r \<Longrightarrow> refused_has r p k \<longleftrightarrow> k \<in> set (remembered r p)"
  by (auto simp: refused_has_def remembered_def wf_refused_def split: option.splits)

text \<open>Adding keeps the newest \<open>refusedWrapsMax\<close> wraps of the policy and forgets another policy's.\<close>

definition push_bounded :: "'a \<Rightarrow> 'a list \<Rightarrow> 'a list" where
  "push_bounded k xs = (if k \<in> set xs then xs else if refusedWrapsMax \<le> length xs then tl xs @ [k] else xs @ [k])"

lemma refused_add_eq:
  assumes "wf_refused r"
  shows "wf_refused (refused_add r p k)" "remembered (refused_add r p k) p = push_bounded k (remembered r p)"
    "p' \<noteq> p \<Longrightarrow> remembered (refused_add r p k) p' = []"
proof -
  define r1 where "r1 = (if rw_policy r \<noteq> Some p \<or> rw_seen r = None then \<lparr>rw_policy = Some p, rw_seen = Some [], rw_order = []\<rparr> else r)"
  have "rw_seen r1 \<noteq> None" "rw_policy r1 = Some p" by (auto simp: r1_def)
  then obtain s where s: "rw_seen r1 = Some s" "rw_policy r1 = Some p" by blast
  have w: "wf_refused r1" using assms by (auto simp: r1_def wf_refused_def)
  then have o: "set (rw_order r1) = set s" "distinct (rw_order r1)" "length (rw_order r1) \<le> refusedWrapsMax"
    using s by (auto simp: wf_refused_def)
  have m: "remembered r p = rw_order r1"
    using assms by (auto simp: remembered_def r1_def wf_refused_def)
  have a: "refused_add r p k = (if k \<in> set s then r1 else r1\<lparr>rw_seen := Some ((if refusedWrapsMax \<le> length (rw_order r1) then removeAll (hd (rw_order r1)) s else s) @ [k]),
      rw_order := (if refusedWrapsMax \<le> length (rw_order r1) then tl (rw_order r1) else rw_order r1) @ [k]\<rparr>)"
    unfolding refused_add_def Let_def r1_def[symmetric] using s by simp
  have tl: "set (tl (rw_order r1)) = set s - {hd (rw_order r1)}" "distinct (tl (rw_order r1))" if "rw_order r1 \<noteq> []"
    using o that by (cases "rw_order r1"; auto)+
  show "wf_refused (refused_add r p k)"
  proof (cases "k \<in> set s")
    case True
    then show ?thesis using w by (simp add: a)
  next
    case k: False
    show ?thesis
    proof (cases "length (rw_order r1) < refusedWrapsMax")
      case True
      then have "refused_add r p k = r1\<lparr>rw_seen := Some (s @ [k]), rw_order := rw_order r1 @ [k]\<rparr>" using k by (simp add: a)
      then show ?thesis using k o True by (simp add: wf_refused_def)
    next
      case False
      then have ne: "rw_order r1 \<noteq> []" by auto
      have "refused_add r p k = r1\<lparr>rw_seen := Some (removeAll (hd (rw_order r1)) s @ [k]), rw_order := tl (rw_order r1) @ [k]\<rparr>"
        using k False by (simp add: a)
      then show ?thesis using k o tl[OF ne] by (simp add: wf_refused_def)
    qed
  qed
  show "remembered (refused_add r p k) p = push_bounded k (remembered r p)"
    unfolding m push_bounded_def o(1) using s by (simp add: a remembered_def)
  show "p' \<noteq> p \<Longrightarrow> remembered (refused_add r p k) p' = []" using s by (simp add: a remembered_def)
qed

lemma refused_add_has: "wf_refused r \<Longrightarrow> refused_has (refused_add r p k) p k"
  by (simp add: refused_has_remembered refused_add_eq push_bounded_def)

end
