(* ===== verification/Signer_Server.thy ===== *)
theory Signer_Server
  imports Signer_Evaluate_Safe Signer_Limiter Signer_Used Signer_Refused
begin

text \<open>
  The signer's server (\<open>signer/server.go\<close>, \<open>signer/watch.go\<close>): the policy decision, the rate limit and
  the record of consumed attestations put together. The maps that carry a decision from one callback to the
  next are keyed by the request's pointer, here a number. The active policy's pointer is the number of the
  load that made it.
\<close>

section \<open>Requests and verdicts\<close>

text \<open>The fields of a \<open>nipLS.Request\<close> the server reads.\<close>

record lsRequest =
  lr_ptr :: nat
  lr_ID :: string
  lr_Method :: string
  lr_Params :: "string list"
  lr_Event :: "event option"
  lr_Attestations :: "event option list"
  lr_Counterpart :: string
  lr_Plaintext :: string
  lr_Ciphertext :: string
  lr_Peer :: string
  lr_Rule :: string

text \<open>The error a callback returns to nipLS: none, \<open>Deny\<close>, \<open>Denyf("rule %q: ...")\<close>, \<open>Invalid\<close>, or another one.\<close>

datatype verdict = Granted | Deny goerr | Denyf string goerr | Invalid goerr | Failed goerr

definition verdict_reason :: "verdict \<Rightarrow> goerr option" where
  "verdict_reason v = (case v of
     Granted \<Rightarrow> None
   | Deny e \<Rightarrow> Some e
   | Denyf rule e \<Rightarrow> Some (Wrap ''rule %q'' [rule] e)
   | Invalid e \<Rightarrow> Some e
   | Failed e \<Rightarrow> Some e)"

record Record =
  rec_Time :: gtime
  rec_ReqID :: string
  rec_Method :: string
  rec_Kind :: "int option"
  rec_EventID :: string
  rec_Client :: string
  rec_Counterpart :: string
  rec_Subordinate :: string
  rec_Conditions :: string
  rec_Decision :: string
  rec_Rule :: string
  rec_Reason :: "goerr option"
  rec_Attestations :: "string list"

section \<open>The server\<close>

record Config =
  cfg_PrivKeyHex :: string
  cfg_PolicyPath :: string
  cfg_LoadOptions :: LoadOptions
  cfg_StateDir :: string
  cfg_AllowUIDs :: "int list"
  cfg_AllowGIDs :: "int list"
  cfg_Denials :: bool
  cfg_Version :: string

record unwrapCheck =
  uc_d :: Decision
  uc_policy :: nat
  uc_key :: string

record Server =
  sv_cfg :: Config
  sv_pub :: string
  sv_policy :: Policy
  sv_policy_ptr :: nat
  sv_loaded :: int
  sv_started :: gtime
  sv_limiter :: Limiter
  sv_used :: UsedSet
  sv_consumed :: "nat \<rightharpoonup> string list"
  sv_unwrap :: "nat \<rightharpoonup> unwrapCheck"
  sv_refused :: refusedWraps
  sv_decisions :: "Record list"
  sv_denials :: "Record list"

definition checkPolicy :: "UsedSet \<Rightarrow> Policy \<Rightarrow> goerr option" where
  "checkPolicy used p =
     (if UsesAttestations p \<and> \<not> Persistent used
      then Some (Err ''policy requires attestations: set --state-dir so a restart can't replay them'' []) else None)"

text \<open>
  What \<open>New\<close> finds outside: \<open>newLocalKey\<close> is \<open>nipLS.NewLocalKey\<close> (the key's public key), \<open>lsServer\<close> whether
  \<open>nipLS.NewServer\<close> returns no error, \<open>peerCred\<close> is \<open>nipLS.PeerCredSupported\<close>, \<open>fs\<close> the files, \<open>fault\<close> what opening
  the used set meets. The disk is the used set's file.
\<close>

definition New ::
  "externals \<Rightarrow> (string \<Rightarrow> goerr + Policy) \<Rightarrow> (string \<Rightarrow> string option) \<Rightarrow> bool \<Rightarrow> bool \<Rightarrow> (string \<Rightarrow> string option)
     \<Rightarrow> open_fault \<Rightarrow> gtime \<Rightarrow> Config \<Rightarrow> string option \<Rightarrow> string option \<times> (goerr + Server)" where
  "New X yaml newLocalKey lsServer peerCred fs fault now cfg disk = (case newLocalKey (cfg_PrivKeyHex cfg) of
     None \<Rightarrow> (disk, Inl (Err ''invalid private key'' []))
   | Some pub \<Rightarrow>
      if (cfg_AllowUIDs cfg \<noteq> [] \<or> cfg_AllowGIDs cfg \<noteq> []) \<and> \<not> peerCred
        then (disk, Inl (Err ''--allow-uid/--allow-gid need SO_PEERCRED, which is only supported on Linux'' []))
      else let cfg' = cfg\<lparr>cfg_LoadOptions := (cfg_LoadOptions cfg)\<lparr>SignerPub := pub\<rparr>\<rparr> in
        (case LoadPolicy X yaml fs (cfg_PolicyPath cfg) (cfg_LoadOptions cfg') of
           Inl e \<Rightarrow> (disk, Inl e)
         | Inr p \<Rightarrow>
            (case (if cfg_StateDir cfg \<noteq> [] then OpenUsedSet fault disk now else (disk, Inr NewMemoryUsedSet)) of
               (disk', Inl e) \<Rightarrow> (disk', Inl (Wrap ''state dir'' [] e))
             | (disk', Inr used) \<Rightarrow>
                (case checkPolicy used p of
                   Some e \<Rightarrow> (disk', Inl e)
                 | None \<Rightarrow>
                     if \<not> lsServer then (disk', Inl (Err ''server'' []))
                     else (disk', Inr \<lparr>sv_cfg = cfg', sv_pub = pub, sv_policy = p, sv_policy_ptr = 0, sv_loaded = time_unix now,
                       sv_started = now, sv_limiter = NewLimiter, sv_used = used, sv_consumed = Map.empty, sv_unwrap = Map.empty,
                       sv_refused = no_refused, sv_decisions = [], sv_denials = []\<rparr>)))))"

definition Reload ::
  "externals \<Rightarrow> (string \<Rightarrow> goerr + Policy) \<Rightarrow> (string \<Rightarrow> string option) \<Rightarrow> gtime \<Rightarrow> Server \<Rightarrow> Server \<times> goerr option" where
  "Reload X yaml fs now s =
     (case LoadPolicy X yaml fs (cfg_PolicyPath (sv_cfg s)) (cfg_LoadOptions (sv_cfg s)) of
        Inl e \<Rightarrow> (s, Some e)
      | Inr p \<Rightarrow> (case checkPolicy (sv_used s) p of
          Some e \<Rightarrow> (s, Some e)
        | None \<Rightarrow> (s\<lparr>sv_policy := p, sv_policy_ptr := Suc (sv_policy_ptr s), sv_loaded := time_unix now\<rparr>, None)))"

definition Server_Close :: "Server \<Rightarrow> Server" where
  "Server_Close s = s\<lparr>sv_used := UsedSet_Close (sv_used s)\<rparr>"

section \<open>Authorization\<close>

text \<open>The entry of a consumed id: the first attestation of the request with that id. Reading a nil one panics.\<close>

fun find_entry :: "event option list \<Rightarrow> string \<Rightarrow> UsedEntry option go" where
  "find_entry [] aid = Ret None"
| "find_entry (None # as) aid = Panic"
| "find_entry (Some a # as) aid =
     (if ev_ID a = aid then Ret (Some \<lparr>ue_ID = aid, ue_CreatedAt = sint (ev_CreatedAt a)\<rparr>) else find_entry as aid)"

fun used_entries :: "event option list \<Rightarrow> string list \<Rightarrow> UsedEntry list go" where
  "used_entries as [] = Ret []"
| "used_entries as (aid # aids) = (case find_entry as aid of
     Panic \<Rightarrow> Panic
   | Ret e \<Rightarrow> (case used_entries as aids of
        Panic \<Rightarrow> Panic
      | Ret es \<Rightarrow> Ret ((case e of None \<Rightarrow> [] | Some x \<Rightarrow> [x]) @ es)))"

text \<open>The request the policy is asked about.\<close>

definition eval_request :: "Server \<Rightarrow> gtime \<Rightarrow> lsRequest \<Rightarrow> Request" where
  "eval_request s now req = \<lparr>rq_Method = lr_Method req, rq_Event = lr_Event req, rq_Counterpart = lr_Counterpart req,
     rq_Plaintext = lr_Plaintext req, rq_Attestations = lr_Attestations req, rq_Subordinate = [], rq_Conditions = [],
     rq_Now = now, rq_StartTime = sv_started s, rq_SignerPub = sv_pub s\<rparr>"

text \<open>The reply to a decision that does not allow.\<close>

definition refusal :: "Decision \<Rightarrow> verdict" where
  "refusal d = (let reason = (case d_Reason d of Some e \<Rightarrow> e | None \<Rightarrow> Err [] []) in
     if d_Rule d \<noteq> [] then Denyf (d_Rule d) reason else Deny reason)"

definition RateLimitErr :: goerr where
  "RateLimitErr = Err RateLimitReason []"

text \<open>The branch for an \<open>unwrap_from\<close> rule: only checks, and the decision is kept for the result.\<close>

definition authorize_unwrap :: "externals \<Rightarrow> gtime \<Rightarrow> lsRequest \<Rightarrow> Decision \<Rightarrow> Server \<Rightarrow> Server \<times> verdict" where
  "authorize_unwrap X now req d s =
     (let key = wrapKey X (lr_Counterpart req) (lr_Ciphertext req);
          store = (\<lambda>s'. (s'\<lparr>sv_unwrap := (sv_unwrap s')(lr_ptr req \<mapsto> \<lparr>uc_d = d, uc_policy = sv_policy_ptr s, uc_key = key\<rparr>)\<rparr>, Granted)) in
      if refused_has (sv_refused s) (sv_policy_ptr s) key
        then (s, Denyf (d_Rule d) (Err ''refused before: not a seal from a sender unwrap_from lists'' []))
      else (case d_Rate d of
          None \<Rightarrow> store s
        | Some r \<Rightarrow> (case Limiter_Ready (sv_limiter s) (d_Rule d) r now of
            (l, False) \<Rightarrow> (s\<lparr>sv_limiter := l\<rparr>, Denyf (d_Rule d) RateLimitErr)
          | (l, True) \<Rightarrow> store (s\<lparr>sv_limiter := l\<rparr>))))"

text \<open>The branch that charges the rate, and the one that records the consumed attestations.\<close>

definition take_rate :: "gtime \<Rightarrow> Decision \<Rightarrow> Limiter \<Rightarrow> Limiter \<times> bool" where
  "take_rate now d l = (case d_Rate d of None \<Rightarrow> (l, True) | Some r \<Rightarrow> Limiter_Allow l (d_Rule d) r now)"

definition authorize_consume ::
  "write_outcome \<Rightarrow> lsRequest \<Rightarrow> Decision \<Rightarrow> Server \<Rightarrow> string option \<Rightarrow> (Server \<times> string option \<times> verdict) go" where
  "authorize_consume w req d s disk = (case used_entries (lr_Attestations req) (d_Consumed d) of
     Panic \<Rightarrow> Panic
   | Ret entries \<Rightarrow> (case Add w disk (sv_used s) entries of
       (disk', u, Some _) \<Rightarrow> Ret (s\<lparr>sv_used := u\<rparr>, disk', Deny (Err ''could not record attestation use'' []))
     | (disk', u, None) \<Rightarrow>
         Ret (s\<lparr>sv_used := u, sv_consumed := (if d_Consumed d \<noteq> [] then (sv_consumed s)(lr_ptr req \<mapsto> d_Consumed d) else sv_consumed s)\<rparr>,
              disk', Granted)))"

definition authorize ::
  "externals \<Rightarrow> write_outcome \<Rightarrow> gtime \<Rightarrow> lsRequest \<Rightarrow> Server \<Rightarrow> string option
     \<Rightarrow> (Server \<times> string option \<times> lsRequest \<times> verdict) go" where
  "authorize X w now req s disk = (case Evaluate X (eval_request s now req) (sv_policy s) (Has (sv_used s)) of
     Panic \<Rightarrow> Panic
   | Ret d \<Rightarrow>
      let req' = req\<lparr>lr_Rule := d_Rule d\<rparr> in
      if \<not> d_Allow d then Ret (s, disk, req', refusal d)
      else if d_UnwrapFrom d \<noteq> None then
        (let (s', v) = authorize_unwrap X now req d s in Ret (s', disk, req', v))
      else (case take_rate now d (sv_limiter s) of
          (l, False) \<Rightarrow> Ret (s\<lparr>sv_limiter := l\<rparr>, disk, req', Deny RateLimitErr)
        | (l, True) \<Rightarrow> (case authorize_consume w req d (s\<lparr>sv_limiter := l\<rparr>) disk of
            Panic \<Rightarrow> Panic
          | Ret (s', disk', v) \<Rightarrow> Ret (s', disk', req', v))))"

definition AuthorizeResult :: "externals \<Rightarrow> gtime \<Rightarrow> lsRequest \<Rightarrow> string \<Rightarrow> Server \<Rightarrow> Server \<times> verdict" where
  "AuthorizeResult X now req result s = (case sv_unwrap s (lr_ptr req) of
     None \<Rightarrow> (s, Granted)
   | Some u \<Rightarrow>
      let s1 = s\<lparr>sv_unwrap := (sv_unwrap s)(lr_ptr req := None)\<rparr> in
      (case CheckUnwrapResult X (uc_d u) result of
         Some reason \<Rightarrow> (s1\<lparr>sv_refused := refused_add (sv_refused s) (uc_policy u) (uc_key u)\<rparr>, Denyf (d_Rule (uc_d u)) reason)
       | None \<Rightarrow> (case take_rate now (uc_d u) (sv_limiter s) of
           (l, False) \<Rightarrow> (s1\<lparr>sv_limiter := l\<rparr>, Denyf (d_Rule (uc_d u)) RateLimitErr)
         | (l, True) \<Rightarrow> (s1\<lparr>sv_limiter := l\<rparr>, Granted))))"

section \<open>The decision log\<close>

definition clip :: "string \<Rightarrow> string" where
  "clip v = (if length v > 200 then take 200 v @ [CHR 0xE2, CHR 0x80, CHR 0xA6] else v)"

definition record_line :: "gtime \<Rightarrow> lsRequest \<Rightarrow> verdict \<Rightarrow> string list \<Rightarrow> Record" where
  "record_line time req v consumed =
     \<lparr>rec_Time = time, rec_ReqID = lr_ID req, rec_Method = (if lr_Method req = [] then MethodConnect else lr_Method req),
      rec_Kind = map_option ev_Kind (lr_Event req), rec_EventID = (case lr_Event req of None \<Rightarrow> [] | Some ev \<Rightarrow> ev_ID ev),
      rec_Client = lr_Peer req, rec_Counterpart = lr_Counterpart req,
      rec_Subordinate = (if lr_Method req = MethodAttest \<and> length (lr_Params req) = 2 then clip (lr_Params req ! 0) else []),
      rec_Conditions = (if lr_Method req = MethodAttest \<and> length (lr_Params req) = 2 then clip (lr_Params req ! 1) else []),
      rec_Decision = (if v = Granted then ''allow'' else ''deny''), rec_Rule = lr_Rule req,
      rec_Reason = verdict_reason v, rec_Attestations = consumed\<rparr>"

definition Server_record :: "gtime \<Rightarrow> lsRequest \<Rightarrow> verdict \<Rightarrow> Server \<Rightarrow> Server" where
  "Server_record time req v s =
     (let refused = (case sv_unwrap s (lr_ptr req) of
            Some u \<Rightarrow> if v \<noteq> Granted then refused_add (sv_refused s) (uc_policy u) (uc_key u) else sv_refused s
          | None \<Rightarrow> sv_refused s);
          consumed = (case sv_consumed s (lr_ptr req) of Some ids \<Rightarrow> if v = Granted then ids else [] | None \<Rightarrow> []);
          line = record_line time req v consumed
      in s\<lparr>sv_unwrap := (sv_unwrap s)(lr_ptr req := None), sv_consumed := (sv_consumed s)(lr_ptr req := None), sv_refused := refused,
           sv_decisions := sv_decisions s @ [line],
           sv_denials := (if v \<noteq> Granted \<and> cfg_Denials (sv_cfg s) then sv_denials s @ [line] else sv_denials s)\<rparr>)"

section \<open>The signer's own methods\<close>

text \<open>\<open>attest\<close>: \<open>newKey\<close> and \<open>sign\<close> are package nipOA's, as in \<open>SignAttestation\<close>. The reply is the signature or the error.\<close>

definition attest_decide ::
  "externals \<Rightarrow> (string \<Rightarrow> string option) \<Rightarrow> (string \<Rightarrow> string \<Rightarrow> string \<Rightarrow> string list option) \<Rightarrow> gtime \<Rightarrow> lsRequest \<Rightarrow> Server
     \<Rightarrow> (Server \<times> lsRequest \<times> (verdict + string)) go" where
  "attest_decide X newKey sign now req s =
     (if length (lr_Params req) \<noteq> 2 then Ret (s, req, Inl (Invalid (Err ''nipoa_attest takes [subordinate pubkey, conditions]'' [])))
      else (case Evaluate X (empty_request\<lparr>rq_Method := MethodAttest, rq_Subordinate := lr_Params req ! 0, rq_Conditions := lr_Params req ! 1,
              rq_Now := now, rq_SignerPub := sv_pub s\<rparr>) (sv_policy s) (Has (sv_used s)) of
          Panic \<Rightarrow> Panic
        | Ret d \<Rightarrow>
            let req' = req\<lparr>lr_Rule := d_Rule d\<rparr> in
            if \<not> d_Allow d then Ret (s, req', Inl (refusal d))
            else (case take_rate now d (sv_limiter s) of
                (l, False) \<Rightarrow> Ret (s\<lparr>sv_limiter := l\<rparr>, req', Inl (Deny RateLimitErr))
              | (l, True) \<Rightarrow> (case SignAttestation X newKey sign (cfg_PrivKeyHex (sv_cfg s)) (lr_Params req ! 0) (lr_Params req ! 1) of
                  Panic \<Rightarrow> Panic
                | Ret (Inl e) \<Rightarrow> Ret (s\<lparr>sv_limiter := l\<rparr>, req', Inl (Failed e))
                | Ret (Inr sig) \<Rightarrow> Ret (s\<lparr>sv_limiter := l\<rparr>, req', Inr sig)))))"

definition attest ::
  "externals \<Rightarrow> (string \<Rightarrow> string option) \<Rightarrow> (string \<Rightarrow> string \<Rightarrow> string \<Rightarrow> string list option) \<Rightarrow> gtime \<Rightarrow> lsRequest \<Rightarrow> Server
     \<Rightarrow> (Server \<times> (verdict + string)) go" where
  "attest X newKey sign now req s = (case attest_decide X newKey sign now req s of
     Panic \<Rightarrow> Panic
   | Ret (s', req', out) \<Rightarrow> Ret (Server_record now req' (case out of Inl v \<Rightarrow> v | Inr _ \<Rightarrow> Granted) s', out))"

record Status =
  st_Version :: string
  st_PubKey :: string
  st_PolicySHA256 :: string
  st_Rules :: nat
  st_LoadedAt :: int
  st_UptimeS :: int

text \<open>\<open>int64(d.Seconds())\<close> truncates towards zero; a clock read after the start gives a duration that is not negative.\<close>

definition Server_status :: "gtime \<Rightarrow> Server \<Rightarrow> Status" where
  "Server_status now s = \<lparr>st_Version = cfg_Version (sv_cfg s), st_PubKey = sv_pub s, st_PolicySHA256 = pol_SHA256 (sv_policy s),
     st_Rules = length (pol_Rules (sv_policy s)), st_LoadedAt = sv_loaded s,
     st_UptimeS = (let d = time_sub now (sv_started s) in if d \<ge> 0 then d div second else - ((- d) div second))\<rparr>"

section \<open>Watching the files\<close>

definition hashFiles :: "externals \<Rightarrow> (string \<Rightarrow> string option) \<Rightarrow> string list \<Rightarrow> string" where
  "hashFiles X fs paths =
     join (map (\<lambda>p. case fs p of None \<Rightarrow> p @ ''=missing'' | Some data \<Rightarrow> p @ ''='' @ x_sha256 X data) paths) [CHR 0x0A]"

text \<open>One tick of \<open>Watch\<close>: \<open>failed\<close> is the hash whose reload failed last. The files may change while it runs: \<open>fs1\<close> is
  what \<open>hashFiles\<close> reads and \<open>fs2\<close> what \<open>Reload\<close> reads.\<close>

definition Watch_tick ::
  "externals \<Rightarrow> (string \<Rightarrow> goerr + Policy) \<Rightarrow> (string \<Rightarrow> string option) \<Rightarrow> (string \<Rightarrow> string option) \<Rightarrow> gtime \<Rightarrow> Server \<times> string \<Rightarrow> Server \<times> string" where
  "Watch_tick X yaml fs1 fs2 now = (\<lambda>(s, failed).
     (let p = sv_policy s; cur = hashFiles X fs1 (pol_Files p) in
      if cur = Policy_snapshot p \<or> cur = failed then (s, failed)
      else (case Reload X yaml fs2 now s of
          (s', Some _) \<Rightarrow> (s', cur)
        | (s', None) \<Rightarrow> (s', []))))"

end
