(* ===== verification/Signer_Server_Safe.thy ===== *)
theory Signer_Server_Safe
  imports Signer_Server
begin

text \<open>
  Facts about the server: what its operations change, the invariant every one of them keeps, and
  that a watcher comes to rest once a reload has read the files as they are.
\<close>

section \<open>Entries of consumed attestations\<close>

lemma find_entry_found:
  assumes "find_entry as k = Ret e" "\<exists>a. Some a \<in> set as \<and> ev_ID a = k"
  shows "\<exists>a. Some a \<in> set as \<and> ev_ID a = k \<and> e = Some \<lparr>ue_ID = k, ue_CreatedAt = sint (ev_CreatedAt a)\<rparr>"
  using assms by (induction as k rule: find_entry.induct) (auto split: if_splits)

lemma used_entries_found:
  assumes "used_entries as ks = Ret es" "\<forall>k \<in> set ks. \<exists>a. Some a \<in> set as \<and> ev_ID a = k"
  shows "ue_ID ` set es = set ks \<and> (\<forall>e \<in> set es. \<exists>a. Some a \<in> set as \<and> ev_ID a = ue_ID e \<and> ue_CreatedAt e = sint (ev_CreatedAt a))"
  using assms
proof (induction ks arbitrary: es)
  case Nil
  then show ?case by simp
next
  case (Cons k ks)
  obtain e es' where e: "find_entry as k = Ret e" "used_entries as ks = Ret es'"
    and es: "es = (case e of None \<Rightarrow> [] | Some x \<Rightarrow> [x]) @ es'"
    using Cons.prems(1) by (auto split: go.splits)
  obtain a where a: "Some a \<in> set as" "ev_ID a = k" "e = Some \<lparr>ue_ID = k, ue_CreatedAt = sint (ev_CreatedAt a)\<rparr>"
    using find_entry_found[OF e(1)] Cons.prems(2) by auto
  show ?case using Cons.IH[OF e(2)] Cons.prems(2) a es by auto
qed

lemma find_entry_returns: "\<forall>a \<in> set as. a \<noteq> None \<Longrightarrow> returns (find_entry as k)"
  by (induction as k rule: find_entry.induct) auto

lemma used_entries_returns: "\<forall>a \<in> set as. a \<noteq> None \<Longrightarrow> returns (used_entries as ks)"
proof (induction ks)
  case (Cons k ks)
  then obtain e es where "find_entry as k = Ret e" "used_entries as ks = Ret es"
    using find_entry_returns[of as k] by (auto simp: returns_iff)
  then show ?case by simp
qed simp

section \<open>What authorize changes\<close>

lemma authorize_unwrap_fields:
  assumes "authorize_unwrap X now req d s = (s', v)"
  shows "sv_used s' = sv_used s" "sv_policy s' = sv_policy s" "sv_policy_ptr s' = sv_policy_ptr s" "sv_refused s' = sv_refused s"
    "sv_cfg s' = sv_cfg s" "sv_pub s' = sv_pub s" "sv_started s' = sv_started s"
  using assms by (auto simp: authorize_unwrap_def Let_def split: if_splits option.splits prod.splits bool.splits)

text \<open>The ways a call of \<open>authorize\<close> ends.\<close>

lemma authorize_cases:
  assumes "authorize X w now req s disk = Ret (s', disk', req', v)"
  obtains d where "Evaluate X (eval_request s now req) (sv_policy s) (Has (sv_used s)) = Ret d" "\<not> d_Allow d"
      "s' = s" "disk' = disk" "v = refusal d"
  | d where "Evaluate X (eval_request s now req) (sv_policy s) (Has (sv_used s)) = Ret d" "d_Allow d" "d_UnwrapFrom d \<noteq> None"
      "authorize_unwrap X now req d s = (s', v)" "disk' = disk"
  | d l where "Evaluate X (eval_request s now req) (sv_policy s) (Has (sv_used s)) = Ret d" "d_Allow d" "d_UnwrapFrom d = None"
      "take_rate now d (sv_limiter s) = (l, False)" "s' = s\<lparr>sv_limiter := l\<rparr>" "disk' = disk" "v = Deny RateLimitErr"
  | d l where "Evaluate X (eval_request s now req) (sv_policy s) (Has (sv_used s)) = Ret d" "d_Allow d" "d_UnwrapFrom d = None"
      "take_rate now d (sv_limiter s) = (l, True)" "authorize_consume w req d (s\<lparr>sv_limiter := l\<rparr>) disk = Ret (s', disk', v)"
proof -
  obtain d where d: "Evaluate X (eval_request s now req) (sv_policy s) (Has (sv_used s)) = Ret d"
    using assms by (auto simp: authorize_def split: go.splits)
  obtain l b where l: "take_rate now d (sv_limiter s) = (l, b)" by (cases "take_rate now d (sv_limiter s)")
  consider "\<not> d_Allow d" | "d_Allow d" "d_UnwrapFrom d \<noteq> None" | "d_Allow d" "d_UnwrapFrom d = None" "\<not> b"
    | "d_Allow d" "d_UnwrapFrom d = None" b by blast
  then show thesis
  proof cases
    case 1
    then show thesis using that(1)[OF d] assms d by (simp add: authorize_def Let_def)
  next
    case 2
    then show thesis using that(2)[OF d] assms d by (auto simp: authorize_def Let_def split: prod.splits)
  next
    case 3
    then show thesis using that(3)[OF d] assms d l by (auto simp: authorize_def Let_def)
  next
    case 4
    then show thesis using that(4)[OF d] assms d l
      by (cases "authorize_consume w req d (s\<lparr>sv_limiter := l\<rparr>) disk") (auto simp: authorize_def Let_def)
  qed
qed

lemma authorize_consume_cases:
  assumes "authorize_consume w req d s disk = Ret (s', disk', v)"
  obtains es u err where "used_entries (lr_Attestations req) (d_Consumed d) = Ret es" "Add w disk (sv_used s) es = (disk', u, err)"
    "sv_used s' = u" "v = Granted \<longleftrightarrow> err = None" "sv_policy s' = sv_policy s" "sv_policy_ptr s' = sv_policy_ptr s"
    "sv_limiter s' = sv_limiter s" "sv_refused s' = sv_refused s" "sv_cfg s' = sv_cfg s" "sv_started s' = sv_started s" "sv_pub s' = sv_pub s"
proof -
  obtain es where es: "used_entries (lr_Attestations req) (d_Consumed d) = Ret es"
    using assms by (auto simp: authorize_consume_def split: go.splits)
  obtain dk u err where a: "Add w disk (sv_used s) es = (dk, u, err)" by (cases "Add w disk (sv_used s) es")
  show thesis using assms es a that[OF es, of u err] by (cases err) (auto simp: authorize_consume_def)
qed

section \<open>The invariant\<close>

text \<open>
  The active policy is one that loaded, attestations are only required of a server that persists
  them, and the limiter and the memory of refused wraps are well formed. A decision waiting for its result
  carries a rate that loaded.
\<close>

definition wf_decision :: "Decision \<Rightarrow> bool" where
  "wf_decision d \<longleftrightarrow> (\<forall>r. d_Rate d = Some r \<longrightarrow> wf_rate r)"

definition wf_server :: "Server \<Rightarrow> bool" where
  "wf_server s \<longleftrightarrow> wf_policy (cfg_LoadOptions (sv_cfg s)) (sv_policy s) \<and> checkPolicy (sv_used s) (sv_policy s) = None
     \<and> wf_limiter (sv_limiter s) \<and> wf_refused (sv_refused s) \<and> (\<forall>u \<in> ran (sv_unwrap s). wf_decision (uc_d u))"

lemma New_wf:
  assumes "New X yaml newLocalKey lsServer peerCred fs fault now cfg disk = (disk', Inr s)" "fresh_decode yaml"
  shows "wf_server s"
  using assms LoadPolicy_ok(1)[OF _ assms(2)] wf_no_refused
  by (auto simp: New_def Let_def wf_server_def split: option.splits if_splits sum.splits prod.splits)

lemma Reload_wf:
  assumes "wf_server s" "fresh_decode yaml" "Reload X yaml fs now s = (s', err)"
  shows "wf_server s'"
  using assms LoadPolicy_ok(1)[OF _ assms(2)]
  by (auto simp: Reload_def wf_server_def split: sum.splits option.splits)

lemma Evaluate_rate_wf:
  assumes "Evaluate X req p used = Ret d" "d_Allow d" "wf_policy opts p"
  shows "wf_decision d"
proof -
  obtain rule s condso where e: "wf_rule opts rule" "decide_rule X req p used condso rule = Ret d"
    using Evaluate_allowE[OF assms] by blast
  have "d_Rate d = rule_rate rule"
  proof (cases "rq_Method req = MethodSignEvent")
    case True
    then obtain ev where "decide_sign X req p used rule ev = Ret d"
      using e(2) assms(2) by (auto simp: decide_rule_def split: if_splits go.splits option.splits)
    then show ?thesis using decide_sign_allow(4) assms(2) by blast
  next
    case False
    then show ?thesis using e(2) assms(2) by (auto simp: decide_rule_def split: if_splits go.splits option.splits)
  qed
  then show ?thesis using e(1) by (auto simp: wf_decision_def wf_rule_def wf_rate_def)
qed

lemma take_rate_wf: "wf_limiter l \<Longrightarrow> wf_decision d \<Longrightarrow> take_rate now d l = (l', b) \<Longrightarrow> wf_limiter l'"
  using Limiter_Allow_wf by (auto simp: take_rate_def wf_decision_def split: option.splits) (metis fst_conv)

lemma ran_upd_subset: "u \<in> ran (m(k \<mapsto> x)) \<Longrightarrow> u = x \<or> u \<in> ran m"
  by (auto simp: ran_def split: if_splits)

lemma authorize_unwrap_wf:
  assumes "wf_server s" "wf_decision d" "authorize_unwrap X now req d s = (s', v)"
  shows "wf_server s'"
proof -
  have l: "wf_limiter l'" if "d_Rate d = Some r" "Limiter_Ready (sv_limiter s) (d_Rule d) r now = (l', b)" for r l' b
    using that assms(1,2) Limiter_Ready_wf by (auto simp: wf_server_def wf_decision_def) (metis fst_conv)
  have u: "\<forall>u \<in> ran (sv_unwrap s'). wf_decision (uc_d u)"
    using assms ran_upd_subset
    by (fastforce simp: authorize_unwrap_def wf_server_def Let_def split: if_splits option.splits prod.splits bool.splits)
  have "wf_limiter (sv_limiter s')"
    using assms(1,3) l
    by (auto simp: authorize_unwrap_def wf_server_def Let_def split: if_splits option.splits prod.splits bool.splits)
  then show ?thesis using assms(1) u authorize_unwrap_fields[OF assms(3)] by (simp add: wf_server_def)
qed

lemma authorize_consume_wf:
  assumes "wf_server s" "authorize_consume w req d s disk = Ret (s', disk', v)"
  shows "wf_server s'"
proof -
  obtain es u err where e: "Add w disk (sv_used s) es = (disk', u, err)" "sv_used s' = u"
    "sv_policy s' = sv_policy s" "sv_limiter s' = sv_limiter s" "sv_refused s' = sv_refused s" "sv_cfg s' = sv_cfg s"
    using assms(2) by (rule authorize_consume_cases)
  have "sv_unwrap s' = sv_unwrap s"
    using assms(2) by (auto simp: authorize_consume_def split: go.splits prod.splits option.splits)
  moreover have "us_f u = us_f (sv_used s)" using Add_ids(2)[OF e(1)] .
  ultimately show ?thesis using assms(1) e by (simp add: wf_server_def checkPolicy_def Persistent_def)
qed

lemma authorize_wf:
  assumes "wf_server s" "authorize X w now req s disk = Ret (s', disk', req', v)"
  shows "wf_server s'"
  using assms(2)
proof (cases rule: authorize_cases)
  case 1
  then show ?thesis using assms(1) by simp
next
  case (2 d)
  then show ?thesis using assms(1) Evaluate_rate_wf authorize_unwrap_wf by (metis wf_server_def)
next
  case (3 d l)
  then have "wf_limiter l" using assms(1) Evaluate_rate_wf take_rate_wf by (metis wf_server_def)
  then show ?thesis using assms(1) 3(5) by (simp add: wf_server_def)
next
  case (4 d l)
  then have "wf_limiter l" using assms(1) Evaluate_rate_wf take_rate_wf by (metis wf_server_def)
  then have "wf_server (s\<lparr>sv_limiter := l\<rparr>)" using assms(1) by (simp add: wf_server_def)
  then show ?thesis using authorize_consume_wf[OF _ 4(5)] by blast
qed

lemma AuthorizeResult_wf:
  assumes "wf_server s"
  shows "wf_server (fst (AuthorizeResult X now req result s))"
proof (cases "sv_unwrap s (lr_ptr req)")
  case None
  then show ?thesis using assms by (simp add: AuthorizeResult_def)
next
  case (Some u)
  have d: "wf_decision (uc_d u)" using assms Some by (auto simp: wf_server_def ran_def)
  obtain l b where l: "take_rate now (uc_d u) (sv_limiter s) = (l, b)" by (cases "take_rate now (uc_d u) (sv_limiter s)")
  have "wf_limiter l" using take_rate_wf[OF _ d l] assms by (simp add: wf_server_def)
  then show ?thesis using assms Some l refused_add_eq(1)
    by (cases b) (auto simp: AuthorizeResult_def wf_server_def ran_def Let_def split: option.splits)
qed

lemma Server_record_wf: "wf_server s \<Longrightarrow> wf_server (Server_record time req v s)"
  using refused_add_eq(1) by (auto simp: Server_record_def wf_server_def ran_def Let_def split: option.splits)

lemma attest_wf:
  assumes "wf_server s" "attest X newKey sign now req s = Ret (s', out)"
  shows "wf_server s'"
proof -
  obtain s1 req' where a: "attest_decide X newKey sign now req s = Ret (s1, req', out)"
    and s': "s' = Server_record now req' (case out of Inl v \<Rightarrow> v | Inr _ \<Rightarrow> Granted) s1"
    using assms(2) by (auto simp: attest_def split: go.splits prod.splits)
  let ?r = "empty_request\<lparr>rq_Method := MethodAttest, rq_Subordinate := lr_Params req ! 0, rq_Conditions := lr_Params req ! 1,
              rq_Now := now, rq_SignerPub := sv_pub s\<rparr>"
  have "s1 = s \<or> (\<exists>d l b. Evaluate X ?r (sv_policy s) (Has (sv_used s)) = Ret d \<and> d_Allow d
      \<and> take_rate now d (sv_limiter s) = (l, b) \<and> s1 = s\<lparr>sv_limiter := l\<rparr>)"
    using a by (auto simp: attest_decide_def Let_def split: if_splits go.splits prod.splits bool.splits sum.splits)
  then have "wf_server s1"
  proof
    assume "\<exists>d l b. Evaluate X ?r (sv_policy s) (Has (sv_used s)) = Ret d \<and> d_Allow d
      \<and> take_rate now d (sv_limiter s) = (l, b) \<and> s1 = s\<lparr>sv_limiter := l\<rparr>"
    then obtain d l b where d: "Evaluate X ?r (sv_policy s) (Has (sv_used s)) = Ret d" "d_Allow d"
      "take_rate now d (sv_limiter s) = (l, b)" "s1 = s\<lparr>sv_limiter := l\<rparr>" by blast
    have "wf_limiter l" using take_rate_wf[OF _ _ d(3)] Evaluate_rate_wf[OF d(1,2)] assms(1) by (auto simp: wf_server_def)
    then show ?thesis using assms(1) d(4) by (simp add: wf_server_def)
  qed (use assms(1) in simp)
  then show ?thesis using s' Server_record_wf by simp
qed

section \<open>Watching\<close>

text \<open>The files a loaded policy lists hash to the sums it lists, while they stay as they were.\<close>

lemma readAuthorsFile_sum: "readAuthorsFile X fs path = Inr (keys, h) \<Longrightarrow> \<exists>data. fs path = Some data \<and> h = x_sha256 X data"
  by (auto simp: readAuthorsFile_def split: option.splits)

definition sums_of :: "externals \<Rightarrow> (string \<Rightarrow> string option) \<Rightarrow> (string \<times> string) list \<Rightarrow> bool" where
  "sums_of X fs files \<longleftrightarrow> (\<forall>(f, h) \<in> set files. \<exists>data. fs f = Some data \<and> h = x_sha256 X data)"

lemma validateAttestation_sum:
  assumes "validateAttestation X fs a baseDir opts = Inr a'" "att_AuthorsFile a' \<noteq> []"
  shows "\<exists>data. fs (resolvePath baseDir (att_AuthorsFile a')) = Some data \<and> att_authorsSum a' = x_sha256 X data"
proof -
  obtain keys h where "(if att_AuthorsFile a \<noteq> [] then readAuthorsFile X fs (resolvePath baseDir (att_AuthorsFile a))
           else Inr ([], att_authorsSum a)) = Inr (keys, h)" "att_authorsSum a' = h" "att_AuthorsFile a' = att_AuthorsFile a"
    using assms(1) by (auto simp: validateAttestation_def Let_def split: if_splits)
  then show ?thesis using assms(2) readAuthorsFile_sum by auto
qed

lemma validate_attestations_sums:
  "validate_attestations X fs baseDir opts i seen as = Inr (as', files) \<Longrightarrow> sums_of X fs files"
proof (induction as arbitrary: i seen as' files)
  case Nil
  then show ?case by (simp add: sums_of_def)
next
  case (Cons a as)
  then show ?case
    by (fastforce simp: sums_of_def dest: validateAttestation_sum split: sum.splits if_splits)
qed

lemma validate_require_sums: "validate_require X fs r baseDir opts = Inr (r', files) \<Longrightarrow> sums_of X fs files"
  using validate_attestations_sums
  by (fastforce simp: validate_require_def sums_of_def split: option.splits if_splits)

lemma validate_rules_sums:
  "validate_rules X fs baseDir opts i names rs = Inr (rs', files) \<Longrightarrow> sums_of X fs files"
proof (induction rs arbitrary: i names rs' files)
  case Nil
  then show ?case by (simp add: sums_of_def)
next
  case (Cons r rs)
  obtain r' f1 ts f2 where b: "validateRule X fs r baseDir opts = Inr (r', f1)"
    "validate_rules X fs baseDir opts (Suc i) (rule_Name r' # names) rs = Inr (ts, f2)" "files = f1 @ f2"
    using Cons.prems by (auto split: sum.splits if_splits)
  have "sums_of X fs f1" using b(1) validate_require_sums unfolding validateRule_def try_bind_Inr by blast
  then show ?case using Cons.IH[OF b(2)] b(3) by (auto simp: sums_of_def)
qed

lemma hash_part:
  "sums_of X fs files \<Longrightarrow> map (\<lambda>p. case fs p of None \<Rightarrow> p @ ''=missing'' | Some data \<Rightarrow> p @ ''='' @ x_sha256 X data) (map fst files)
     = map (\<lambda>(f, h). f @ ''='' @ h) files"
  by (induction files) (auto simp: sums_of_def)

lemma LoadPolicy_snapshot:
  assumes "LoadPolicy X yaml fs path opts = Inr p" "fresh_decode yaml"
  shows "hashFiles X fs (pol_Files p) = Policy_snapshot p"
proof -
  obtain data p0 where d: "fs path = Some data" "ParsePolicy X yaml fs data (path_dir path) opts = Inr p0"
    "p = p0\<lparr>pol_Files := path # pol_Files p0, pol_fileSums := pol_SHA256 p0 # pol_fileSums p0\<rparr>"
    using assms(1) by (rule LoadPolicy_cases)
  obtain q rs files where q: "yaml data = Inr q" "validate_rules X fs (path_dir path) opts 0 [] (pol_Rules q) = Inr (rs, files)"
    "p0 = q\<lparr>pol_Rules := rs, pol_SHA256 := x_sha256 X data, pol_Files := pol_Files q @ map fst files, pol_fileSums := pol_fileSums q @ map snd files\<rparr>"
    using d(2) by (auto simp: ParsePolicy_def split: if_splits)
  have fr: "pol_Files q = []" "pol_fileSums q = []" using assms(2) q(1) by (auto simp: fresh_decode_def)
  let ?all = "(path, x_sha256 X data) # files"
  have all: "pol_Files p = map fst ?all" "pol_fileSums p = map snd ?all" using d(3) q(3) fr by simp_all
  have "sums_of X fs ?all" using validate_rules_sums[OF q(2)] d(1) by (simp add: sums_of_def)
  moreover have "zip (map fst ?all) (map snd ?all) = ?all" by (rule zip_map_fst_snd)
  ultimately show ?thesis unfolding hashFiles_def Policy_snapshot_def all by (simp only: hash_part)
qed

end
