(* ===== verification/Single_Use.thy ===== *)
theory Single_Use
  imports Prelude
begin

text \<open>
  The contract of a replay guard: a key that was accepted is remembered for as long as it could be
  accepted again, so no key is accepted twice. The signer's record of consumed attestations and the
  admin plane's guard of signed requests both provide it.
\<close>

section \<open>Runs\<close>

text \<open>A run of a labelled step relation, with the labels of its steps.\<close>

inductive run :: "('s \<Rightarrow> 'a \<Rightarrow> 's \<Rightarrow> bool) \<Rightarrow> 's \<Rightarrow> 'a list \<Rightarrow> 's \<Rightarrow> bool" for step where
  run_Nil: "run step s [] s"
| run_Cons: "step s a s' \<Longrightarrow> run step s' as s'' \<Longrightarrow> run step s (a # as) s''"

inductive_cases run_NilE: "run step s [] s'"
inductive_cases run_ConsE: "run step s (a # as) s'"

lemma run_append: "run step s as s' \<Longrightarrow> run step s' bs s'' \<Longrightarrow> run step s (as @ bs) s''"
  by (induction rule: run.induct) (auto intro: run.intros)

section \<open>The contract\<close>

text \<open>
  A step is labelled with the keys it accepts. \<open>seen\<close> tells whether a state remembers a key, \<open>fresh\<close> whether the
  key's age would still let it pass.
\<close>

locale single_use =
  fixes step :: "'s \<Rightarrow> 'k set \<Rightarrow> 's \<Rightarrow> bool"
    and inv :: "'s \<Rightarrow> bool"
    and seen :: "'s \<Rightarrow> 'k \<Rightarrow> bool"
    and fresh :: "'s \<Rightarrow> 'k \<Rightarrow> bool"
  assumes step_inv: "inv s \<Longrightarrow> step s K s' \<Longrightarrow> inv s'"
    and accept_new: "inv s \<Longrightarrow> step s K s' \<Longrightarrow> k \<in> K \<Longrightarrow> \<not> seen s k \<and> fresh s k"
    and accept_seen: "inv s \<Longrightarrow> step s K s' \<Longrightarrow> k \<in> K \<Longrightarrow> seen s' k"
    and seen_kept: "inv s \<Longrightarrow> step s K s' \<Longrightarrow> seen s k \<Longrightarrow> fresh s' k \<Longrightarrow> seen s' k"
    and fresh_fades: "inv s \<Longrightarrow> step s K s' \<Longrightarrow> fresh s' k \<Longrightarrow> fresh s k"
begin

text \<open>A key that is remembered or too old stays so.\<close>

lemma spent_stays:
  assumes "inv s" "step s K s'" "seen s k \<or> \<not> fresh s k"
  shows "seen s' k \<or> \<not> fresh s' k"
  using assms seen_kept fresh_fades by blast

lemma spent_never_accepted:
  assumes "run step s Ks s'" "inv s" "seen s k \<or> \<not> fresh s k"
  shows "\<forall>K \<in> set Ks. k \<notin> K"
  using assms
proof (induction rule: run.induct)
  case (run_Nil s)
  then show ?case by simp
next
  case (run_Cons s K s' Ks s'')
  have "k \<notin> K" using accept_new fresh_fades run_Cons.hyps(1) run_Cons.prems by blast
  moreover have "\<forall>K \<in> set Ks. k \<notin> K"
    using run_Cons.IH step_inv spent_stays run_Cons.hyps(1) run_Cons.prems by blast
  ultimately show ?case by simp
qed

text \<open>No key is accepted by two steps of a run.\<close>

lemma accepted_once:
  assumes "run step s Ks s'" "inv s" "i < j" "j < length Ks"
  shows "Ks ! i \<inter> Ks ! j = {}"
  using assms
proof (induction arbitrary: i j rule: run.induct)
  case (run_Nil s)
  then show ?case by simp
next
  case (run_Cons s K s' Ks s'')
  have inv': "inv s'" using step_inv run_Cons.hyps(1) run_Cons.prems(1) by blast
  show ?case
  proof (cases i)
    case 0
    have "k \<notin> Ks ! (j - 1)" if "k \<in> K" for k
    proof -
      have "seen s' k" using accept_seen that run_Cons.hyps(1) run_Cons.prems(1) by blast
      then have "\<forall>L \<in> set Ks. k \<notin> L" using spent_never_accepted[OF run_Cons.hyps(2) inv'] by blast
      then show ?thesis using run_Cons.prems(2,3) 0 by auto
    qed
    then show ?thesis using 0 run_Cons.prems(2,3) by (auto simp: nth_Cons')
  next
    case (Suc i')
    then obtain j' where "j = Suc j'" using run_Cons.prems(2) by (cases j) auto
    then show ?thesis using run_Cons.IH[OF inv', of i' j'] Suc run_Cons.prems(2,3) by simp
  qed
qed

end

end
