(* ===== verification/Signer_Replay.thy ===== *)
theory Signer_Replay
  imports Signer_Server_Safe Single_Use
begin

text \<open>
  The signer over time: requests, results, log lines, attestations and reloads of a running server,
  and its stops (an orderly \<open>Close\<close> or a crash) and starts, with the file of consumed attestations in
  between. The steps are labelled with the attestation ids a granted request consumes; the replay contract
  is interpreted on them.
\<close>

section \<open>Steps\<close>

record signer_world =
  w_server :: "Server option"
  w_disk :: "string option"
  w_now :: gtime

text \<open>The ids a call of \<open>authorize\<close> consumed.\<close>

definition consumes :: "externals \<Rightarrow> gtime \<Rightarrow> lsRequest \<Rightarrow> Server \<Rightarrow> verdict \<Rightarrow> string set" where
  "consumes X now req s v =
     (if v = Granted then (case Evaluate X (eval_request s now req) (sv_policy s) (Has (sv_used s)) of
        Ret d \<Rightarrow> set (d_Consumed d) | Panic \<Rightarrow> {}) else {})"

text \<open>The attestations a request lists under one id carry one creation time.\<close>

definition consistent_ids :: "event option list \<Rightarrow> bool" where
  "consistent_ids as \<longleftrightarrow> (\<forall>a \<in> set as. \<forall>b \<in> set as. case (a, b) of
     (Some x, Some y) \<Rightarrow> ev_ID x = ev_ID y \<longrightarrow> ev_CreatedAt x = ev_CreatedAt y | _ \<Rightarrow> True)"

inductive signer_step :: "externals \<Rightarrow> signer_world \<Rightarrow> string set \<Rightarrow> signer_world \<Rightarrow> bool" for X where
  step_authorize:
    "authorize X wr now req s disk = Ret (s', disk', req', v) \<Longrightarrow> whole_write wr \<Longrightarrow> consistent_ids (lr_Attestations req)
     \<Longrightarrow> t \<le> now \<Longrightarrow> clock_ok now
     \<Longrightarrow> signer_step X \<lparr>w_server = Some s, w_disk = disk, w_now = t\<rparr> (consumes X now req s v) \<lparr>w_server = Some s', w_disk = disk', w_now = now\<rparr>"
| step_result:
    "AuthorizeResult X now req result s = (s', v) \<Longrightarrow> t \<le> now \<Longrightarrow> clock_ok now
     \<Longrightarrow> signer_step X \<lparr>w_server = Some s, w_disk = disk, w_now = t\<rparr> {} \<lparr>w_server = Some s', w_disk = disk, w_now = now\<rparr>"
| step_record:
    "t \<le> now \<Longrightarrow> clock_ok now
     \<Longrightarrow> signer_step X \<lparr>w_server = Some s, w_disk = disk, w_now = t\<rparr> {} \<lparr>w_server = Some (Server_record now req v s), w_disk = disk, w_now = now\<rparr>"
| step_attest:
    "attest X newKey sign now req s = Ret (s', out) \<Longrightarrow> t \<le> now \<Longrightarrow> clock_ok now
     \<Longrightarrow> signer_step X \<lparr>w_server = Some s, w_disk = disk, w_now = t\<rparr> {} \<lparr>w_server = Some s', w_disk = disk, w_now = now\<rparr>"
| step_reload:
    "Reload X yaml fs now s = (s', err) \<Longrightarrow> fresh_decode yaml \<Longrightarrow> t \<le> now \<Longrightarrow> clock_ok now
     \<Longrightarrow> signer_step X \<lparr>w_server = Some s, w_disk = disk, w_now = t\<rparr> {} \<lparr>w_server = Some s', w_disk = disk, w_now = now\<rparr>"
| step_stop:
    "t \<le> now \<Longrightarrow> clock_ok now
     \<Longrightarrow> signer_step X \<lparr>w_server = Some s, w_disk = disk, w_now = t\<rparr> {} \<lparr>w_server = None, w_disk = disk, w_now = now\<rparr>"
| step_start:
    "New X yaml newLocalKey lsServer peerCred fs fault now cfg disk = (disk', Inr s) \<Longrightarrow> fresh_decode yaml \<Longrightarrow> cfg_StateDir cfg \<noteq> []
     \<Longrightarrow> t \<le> now \<Longrightarrow> clock_ok now
     \<Longrightarrow> signer_step X \<lparr>w_server = None, w_disk = disk, w_now = t\<rparr> {} \<lparr>w_server = Some s, w_disk = disk', w_now = now\<rparr>"
| step_start_failed:
    "New X yaml newLocalKey lsServer peerCred fs fault now cfg disk = (disk', Inl e) \<Longrightarrow> cfg_StateDir cfg \<noteq> []
     \<Longrightarrow> t \<le> now \<Longrightarrow> clock_ok now
     \<Longrightarrow> signer_step X \<lparr>w_server = None, w_disk = disk, w_now = t\<rparr> {} \<lparr>w_server = None, w_disk = disk', w_now = now\<rparr>"

text \<open>A signer that was never started, on an empty state directory.\<close>

definition first_world :: signer_world where
  "first_world = \<lparr>w_server = None, w_disk = None, w_now = 0\<rparr>"

section \<open>The contract's terms\<close>

definition genuine :: "externals \<Rightarrow> (string \<rightharpoonup> int) \<Rightarrow> bool" where
  "genuine X m \<longleftrightarrow> (\<forall>k c. m k = Some c \<longrightarrow> (\<exists>a. x_Verify X a \<and> ev_ID a = k \<and> c = sint (ev_CreatedAt a)))"

definition disk_ids :: "string option \<Rightarrow> string \<rightharpoonup> int" where
  "disk_ids disk = (case disk of None \<Rightarrow> Map.empty | Some data \<Rightarrow> map_of (load_ids data))"

definition signer_inv :: "externals \<Rightarrow> signer_world \<Rightarrow> bool" where
  "signer_inv X w \<longleftrightarrow> clock_ok (w_now w) \<and> (\<forall>data. w_disk w = Some data \<longrightarrow> clean data) \<and> genuine X (disk_ids (w_disk w))
     \<and> (\<forall>s. w_server w = Some s \<longrightarrow> wf_server s \<and> backed (w_disk w) (sv_used s))"

definition signer_seen :: "signer_world \<Rightarrow> string \<Rightarrow> bool" where
  "signer_seen w k = (case w_server w of Some s \<Rightarrow> Has (sv_used s) k | None \<Rightarrow> disk_ids (w_disk w) k \<noteq> None)"

definition signer_fresh :: "externals \<Rightarrow> signer_world \<Rightarrow> string \<Rightarrow> bool" where
  "signer_fresh X w k \<longleftrightarrow> (\<exists>a. x_Verify X a \<and> ev_ID a = k \<and> time_sub (w_now w) (unixTime (ev_CreatedAt a)) \<le> MaxAttestationAge)"

lemma backed_disk: "backed disk u \<Longrightarrow> map_of (us_ids u) \<subseteq>\<^sub>m disk_ids disk"
  by (auto simp: backed_def disk_ids_def)

lemma backed_clean: "backed disk u \<Longrightarrow> disk = Some data \<Longrightarrow> clean data"
  by (auto simp: backed_def)

lemma seen_on_disk: "signer_inv X w \<Longrightarrow> signer_seen w k \<Longrightarrow> disk_ids (w_disk w) k \<noteq> None"
  using backed_disk by (fastforce simp: signer_inv_def signer_seen_def Has_def map_le_def dom_def split: option.splits)

text \<open>An attestation young enough to pass is younger than what opening the file prunes.\<close>

lemma fresh_not_pruned:
  assumes "clock_ok now" "time_sub now (unixTime c) \<le> MaxAttestationAge"
  shows "time_unix (time_add now (- usedRetention)) \<le> sint c"
proof -
  have "unixTime c = (sint c + unix_to_internal) * second"
    using unixTime_recent[OF assms(1) _ _ assms(2)] by (simp add: min_int64_def max_int64_def)
  moreover have "now - unixTime c \<le> MaxAttestationAge"
    using assms(2) time_sub_le_iff[of MaxAttestationAge now "unixTime c"] by (simp add: min_int64_def max_int64_def)
  ultimately have le: "now - usedRetention < (sint c + unix_to_internal + 1) * second" by simp
  have "time_add now (- usedRetention) = now - usedRetention"
    using assms(1) time_add_exact[of now "- usedRetention"] by (simp add: in_int64_def min_int64_def max_int64_def)
  moreover have "time_unix (now - usedRetention) = (now - usedRetention) div second - unix_to_internal"
    using assms(1) by (intro time_unix_exact_near) (simp_all add: clock_ok_def)
  moreover have "(now - usedRetention) div second \<le> sint c + unix_to_internal"
    using assms(1) le div_second_bounds(2)[of "- 90000" "now - usedRetention" "sint c + unix_to_internal"] by (simp add: clock_ok_def)
  ultimately show ?thesis by simp
qed

section \<open>A request that consumes attestations\<close>

text \<open>A consumed attestation verifies, is young enough, and was not used.\<close>

lemma consumed_facts:
  assumes e: "Evaluate X (eval_request s now req) (sv_policy s) (Has (sv_used s)) = Ret d" "d_Allow d" and w: "wf_server s"
    and k: "k \<in> set (d_Consumed d)"
  shows "\<exists>a. Some a \<in> set (lr_Attestations req) \<and> x_Verify X a \<and> ev_ID a = k \<and> \<not> Has (sv_used s) k
    \<and> time_sub now (unixTime (ev_CreatedAt a)) \<le> MaxAttestationAge"
proof -
  have wf: "wf_policy (cfg_LoadOptions (sv_cfg s)) (sv_policy s)" using w by (simp add: wf_server_def)
  obtain rule target spec att where c: "wf_attestation (cfg_LoadOptions (sv_cfg s)) spec" "Some att \<in> set (lr_Attestations req)" "ev_ID att = k"
    "checkAttestation X (Some att) spec (sign_context (eval_request s now req) (sv_policy s) (Has (sv_used s)) rule target) = None"
    using Evaluate_consumed[OF e wf k] by (auto simp: eval_request_def)
  have "time_sub now (unixTime (ev_CreatedAt att)) \<le> att_MaxAge spec"
    using checkAttestation_NoneD(6)[OF c(4)] by (simp add: eval_request_def)
  then have "time_sub now (unixTime (ev_CreatedAt att)) \<le> MaxAttestationAge" using c(1) by (auto simp: wf_attestation_def)
  moreover have "\<not> Has (sv_used s) k" using checkAttestation_NoneD(8)[OF c(4)] c(3) by simp
  ultimately show ?thesis using c checkAttestation_NoneD(1)[OF c(4)] by blast
qed

text \<open>A decision that waits for a decrypted result consumes nothing.\<close>

lemma unwrap_consumes_nothing:
  assumes "Evaluate X req p used = Ret d" "d_Allow d" "wf_policy opts p" "d_UnwrapFrom d \<noteq> None"
  shows "d_Consumed d = []"
proof -
  obtain rule s condso where e: "wf_rule opts rule" "applies req rule" "rule_Allow rule = Some s" "decide_rule X req p used condso rule = Ret d"
    using Evaluate_allowE[OF assms(1-3)] by blast
  have sel: "Rule_selector rule = Some s" using e(3) by (simp add: Rule_selector_def)
  have "rq_Method req \<noteq> MethodSignEvent"
  proof
    assume m: "rq_Method req = MethodSignEvent"
    obtain ev where "decide_sign X req p used rule ev = Ret d"
      using e(4) assms(2) m by (auto simp: decide_rule_def split: if_splits go.splits option.splits)
    then have "d_UnwrapFrom d = sel_unwrapFrom s"
      using assms(2) sel by (auto simp: decide_sign_def Let_def split: option.splits go.splits sum.splits if_splits)
    then have "sel_Methods s = [MethodNIP44Decrypt]" using assms(4) e(1,3) by (auto simp: wf_rule_def wf_selector_def)
    moreover have "matches s req = Ret True" using e(2) sel by (auto simp: applies_def)
    ultimately show False using m by (auto simp: matches_def containsString_def)
  qed
  then show ?thesis using decide_rule_other[OF e(4)] by blast
qed

lemma refusal_not_Granted [simp]: "refusal d \<noteq> Granted"
  by (simp add: refusal_def Let_def)

text \<open>The entries a request adds are those of attestations that verify.\<close>

lemma entries_genuine:
  assumes "Evaluate X (eval_request s now req) (sv_policy s) (Has (sv_used s)) = Ret d" "d_Allow d" "wf_server s"
    and cons: "consistent_ids (lr_Attestations req)" and es: "used_entries (lr_Attestations req) (d_Consumed d) = Ret es"
  shows "ue_ID ` set es = set (d_Consumed d)"
    "\<forall>e \<in> set es. map_of (us_ids (sv_used s)) (ue_ID e) = None
       \<and> (\<exists>a. x_Verify X a \<and> ev_ID a = ue_ID e \<and> ue_CreatedAt e = sint (ev_CreatedAt a))"
proof -
  have found: "\<forall>k \<in> set (d_Consumed d). \<exists>a. Some a \<in> set (lr_Attestations req) \<and> ev_ID a = k"
    using consumed_facts[OF assms(1-3)] by blast
  note u = used_entries_found[OF es found]
  show ids: "ue_ID ` set es = set (d_Consumed d)" using u by blast
  show "\<forall>e \<in> set es. map_of (us_ids (sv_used s)) (ue_ID e) = None
       \<and> (\<exists>a. x_Verify X a \<and> ev_ID a = ue_ID e \<and> ue_CreatedAt e = sint (ev_CreatedAt a))"
  proof
    fix e assume e: "e \<in> set es"
    obtain b where b: "Some b \<in> set (lr_Attestations req)" "ev_ID b = ue_ID e" "ue_CreatedAt e = sint (ev_CreatedAt b)"
      using u e by blast
    have "ue_ID e \<in> set (d_Consumed d)" using ids e by blast
    from consumed_facts[OF assms(1-3) this]
    obtain a where a: "Some a \<in> set (lr_Attestations req)" "x_Verify X a" "ev_ID a = ue_ID e" "\<not> Has (sv_used s) (ue_ID e)" by blast
    have "ev_CreatedAt a = ev_CreatedAt b" using cons a(1,3) b(1,2) by (fastforce simp: consistent_ids_def)
    then show "map_of (us_ids (sv_used s)) (ue_ID e) = None
       \<and> (\<exists>a. x_Verify X a \<and> ev_ID a = ue_ID e \<and> ue_CreatedAt e = sint (ev_CreatedAt a))"
      using a b(3) by (auto simp: Has_def)
  qed
qed

lemma genuine_upd_all:
  assumes "genuine X m" "\<forall>e \<in> set es. \<exists>a. x_Verify X a \<and> ev_ID a = ue_ID e \<and> ue_CreatedAt e = sint (ev_CreatedAt a)"
  shows "genuine X (upd_all es m)"
  unfolding genuine_def
proof (intro allI impI)
  fix k c assume c: "upd_all es m k = Some c"
  show "\<exists>a. x_Verify X a \<and> ev_ID a = k \<and> c = sint (ev_CreatedAt a)"
  proof (cases "k \<in> ue_ID ` set es")
    case True
    then show ?thesis using upd_all_in[OF True, of m] assms(2) c by fastforce
  next
    case False
    then show ?thesis using assms(1) c by (auto simp: upd_all_other genuine_def)
  qed
qed

lemma genuine_entry:
  assumes "id_fixes_created_at X" "\<exists>a. x_Verify X a \<and> ev_ID a = ue_ID e \<and> ue_CreatedAt e = sint (ev_CreatedAt a)"
  shows "ue_ID e \<noteq> []" "in_int64 (ue_CreatedAt e)"
proof -
  obtain a where a: "x_Verify X a" "ev_ID a = ue_ID e" "ue_CreatedAt e = sint (ev_CreatedAt a)" using assms(2) by blast
  have "ev_ID a \<noteq> []" using assms(1) a(1) unfolding id_fixes_created_at_def by blast
  then show "ue_ID e \<noteq> []" using a(2) by simp
  show "in_int64 (ue_CreatedAt e)" unfolding a(3) by (rule sint_in_int64)
qed

lemma Add_disk_genuine:
  assumes "Add wr disk u es = (disk', u', err)" "whole_write wr" "\<forall>data. disk = Some data \<longrightarrow> clean data" "genuine X (disk_ids disk)"
    "\<forall>e \<in> set es. \<exists>a. x_Verify X a \<and> ev_ID a = ue_ID e \<and> ue_CreatedAt e = sint (ev_CreatedAt a)" "id_fixes_created_at X"
  shows "genuine X (disk_ids disk')"
proof -
  have ok: "\<forall>e \<in> set es. ue_ID e \<noteq> [] \<and> in_int64 (ue_CreatedAt e)"
    using assms(5) genuine_entry[OF assms(6)] by blast
  have app: "disk_ids (append_file disk (entry_lines es)) = (if disk = None then Map.empty else upd_all es (disk_ids disk))"
    using load_ids_append[OF _ ok] assms(3) by (auto simp: disk_ids_def append_file_def map_of_add_ids split: option.splits)
  have g: "genuine X (disk_ids (append_file disk (entry_lines es)))"
    unfolding app using genuine_upd_all[OF assms(4,5)] by (simp add: genuine_def)
  have "disk' = disk \<or> disk' = append_file disk (entry_lines es)"
    using assms(1,2)
    by (auto simp: Add_def whole_write_def entry_lines_def[symmetric] append_file_def Let_def split: if_splits write_outcome.splits option.splits)
  then show ?thesis using g assms(4) by auto
qed

text \<open>One call of \<open>authorize\<close>, as the contract sees it.\<close>

lemma authorize_guard:
  assumes a: "authorize X wr now req s disk = Ret (s', disk', req', v)" "whole_write wr" "consistent_ids (lr_Attestations req)"
    and s: "wf_server s" "backed disk (sv_used s)" "genuine X (disk_ids disk)" and X: "id_fixes_created_at X"
  shows "backed disk' (sv_used s')" "genuine X (disk_ids disk')" "Has (sv_used s) k \<Longrightarrow> Has (sv_used s') k"
    "k \<in> consumes X now req s v \<Longrightarrow> \<not> Has (sv_used s) k \<and> Has (sv_used s') k
       \<and> (\<exists>b. x_Verify X b \<and> ev_ID b = k \<and> time_sub now (unixTime (ev_CreatedAt b)) \<le> MaxAttestationAge)"
proof -
  have "backed disk' (sv_used s') \<and> genuine X (disk_ids disk') \<and> (Has (sv_used s) k \<longrightarrow> Has (sv_used s') k)
    \<and> (k \<in> consumes X now req s v \<longrightarrow> \<not> Has (sv_used s) k \<and> Has (sv_used s') k
       \<and> (\<exists>b. x_Verify X b \<and> ev_ID b = k \<and> time_sub now (unixTime (ev_CreatedAt b)) \<le> MaxAttestationAge))"
    using a(1)
  proof (cases rule: authorize_cases)
    case (1 d)
    then show ?thesis using s by (simp add: consumes_def)
  next
    case (2 d)
    have "d_Consumed d = []" using unwrap_consumes_nothing[OF 2(1,2) _ 2(3)] s(1) by (auto simp: wf_server_def)
    then show ?thesis using s 2 authorize_unwrap_fields(1)[OF 2(4)] by (simp add: consumes_def)
  next
    case (3 d l)
    then show ?thesis using s by (simp add: consumes_def)
  next
    case (4 d l)
    obtain es u err where c: "used_entries (lr_Attestations req) (d_Consumed d) = Ret es" "Add wr disk (sv_used s) es = (disk', u, err)"
      "sv_used s' = u" "v = Granted \<longleftrightarrow> err = None"
      using authorize_consume_cases[OF 4(5)] by (metis (no_types, lifting) Server.select_convs(8) Server.surjective Server.update_convs(7))
    note g = entries_genuine[OF 4(1,2) s(1) a(3) c(1)]
    have ok: "\<forall>e \<in> set es. ue_ID e \<noteq> [] \<and> in_int64 (ue_CreatedAt e) \<and> map_of (us_ids (sv_used s)) (ue_ID e) = None"
      using g(2) genuine_entry[OF X] by blast
    have "backed disk' u" using Add_backed[OF c(2) s(2) a(2) ok] .
    moreover have "genuine X (disk_ids disk')"
      using Add_disk_genuine[OF c(2) a(2) _ s(3) _ X] backed_clean[OF s(2)] g(2) by blast
    moreover have "Has (sv_used s) k \<longrightarrow> Has u k"
      using Add_ids(1)[OF c(2)] upd_all_other[of k es] upd_all_in[of k es] by (cases "k \<in> ue_ID ` set es") (auto simp: Has_def)
    moreover have "\<not> Has (sv_used s) k \<and> Has u k
       \<and> (\<exists>b. x_Verify X b \<and> ev_ID b = k \<and> time_sub now (unixTime (ev_CreatedAt b)) \<le> MaxAttestationAge)"
      if "k \<in> consumes X now req s v"
    proof -
      have k: "k \<in> set (d_Consumed d)" "err = None" using that 4(1) c(4) by (auto simp: consumes_def split: if_splits)
      have "Has u k" using Add_ids(1)[OF c(2)] upd_all_in[of k es "map_of (us_ids (sv_used s))"] g(1) k by (auto simp: Has_def)
      then show ?thesis using consumed_facts[OF 4(1,2) s(1) k(1)] by blast
    qed
    ultimately show ?thesis using c(3) by blast
  qed
  then show "backed disk' (sv_used s')" "genuine X (disk_ids disk')" "Has (sv_used s) k \<Longrightarrow> Has (sv_used s') k"
    "k \<in> consumes X now req s v \<Longrightarrow> \<not> Has (sv_used s) k \<and> Has (sv_used s') k
       \<and> (\<exists>b. x_Verify X b \<and> ev_ID b = k \<and> time_sub now (unixTime (ev_CreatedAt b)) \<le> MaxAttestationAge)"
    by blast+
qed

section \<open>The other operations leave the record alone\<close>

lemma AuthorizeResult_used: "sv_used (fst (AuthorizeResult X now req result s)) = sv_used s"
  by (auto simp: AuthorizeResult_def Let_def split: option.splits prod.splits bool.splits)

lemma Server_record_used [simp]: "sv_used (Server_record time req v s) = sv_used s"
  by (simp add: Server_record_def Let_def)

lemma attest_used:
  assumes "attest X newKey sign now req s = Ret (s', out)"
  shows "sv_used s' = sv_used s"
  using assms
  by (auto simp: attest_def attest_decide_def Let_def split: if_splits go.splits prod.splits bool.splits sum.splits)

lemma Reload_used: "Reload X yaml fs now s = (s', err) \<Longrightarrow> sv_used s' = sv_used s"
  by (auto simp: Reload_def split: sum.splits option.splits)

lemma New_disk:
  assumes "New X yaml newLocalKey lsServer peerCred fs fault now cfg disk = (disk', r)" "cfg_StateDir cfg \<noteq> []"
  shows "disk' = disk \<or> (\<exists>out. OpenUsedSet fault disk now = (disk', out))"
    "r = Inr s \<Longrightarrow> OpenUsedSet fault disk now = (disk', Inr (sv_used s))"
  using assms by (auto simp: New_def Let_def split: option.splits if_splits sum.splits prod.splits)

text \<open>A start, failed or not: the file stays whole and genuine, and keeps every id that could pass again.\<close>

lemma start_disk:
  assumes n: "New X yaml newLocalKey lsServer peerCred fs fault now cfg disk = (disk', r)" "cfg_StateDir cfg \<noteq> []"
    and d: "\<forall>data. disk = Some data \<longrightarrow> clean data" "genuine X (disk_ids disk)" and X: "id_fixes_created_at X" and t: "clock_ok now"
  shows "\<forall>data. disk' = Some data \<longrightarrow> clean data" "genuine X (disk_ids disk')"
    "disk_ids disk k \<noteq> None \<Longrightarrow> signer_fresh X \<lparr>w_server = sv, w_disk = dk, w_now = now\<rparr> k \<Longrightarrow> disk_ids disk' k = disk_ids disk k"
proof -
  have eq: "map_of (case disk of None \<Rightarrow> [] | Some data \<Rightarrow> load_ids data) = disk_ids disk"
    by (cases disk) (simp_all add: disk_ids_def)
  consider "disk' = disk" | data' where "disk' = Some data'" "clean data'" "map_of (load_ids data') \<subseteq>\<^sub>m disk_ids disk"
      "\<forall>k c. disk_ids disk k = Some c \<longrightarrow> time_unix (time_add now (- usedRetention)) \<le> c \<longrightarrow> map_of (load_ids data') k = Some c"
    using New_disk(1)[OF n] OpenUsedSet_disk[of fault disk now disk'] unfolding eq by blast
  then have "(\<forall>data. disk' = Some data \<longrightarrow> clean data) \<and> genuine X (disk_ids disk')
    \<and> (disk_ids disk k \<noteq> None \<longrightarrow> signer_fresh X \<lparr>w_server = sv, w_disk = dk, w_now = now\<rparr> k \<longrightarrow> disk_ids disk' k = disk_ids disk k)"
  proof cases
    case 1
    then show ?thesis using d by simp
  next
    case 2
    have "genuine X (disk_ids disk')" using 2(1,3) d(2) by (auto simp: genuine_def disk_ids_def map_le_def dom_def)
    moreover have "disk_ids disk' k = Some c" if c: "disk_ids disk k = Some c" and f: "signer_fresh X \<lparr>w_server = sv, w_disk = dk, w_now = now\<rparr> k" for c
    proof -
      obtain a where a: "x_Verify X a" "ev_ID a = k" "time_sub now (unixTime (ev_CreatedAt a)) \<le> MaxAttestationAge"
        using f by (auto simp: signer_fresh_def)
      obtain b where b: "x_Verify X b" "ev_ID b = k" "c = sint (ev_CreatedAt b)" using d(2) c unfolding genuine_def by blast
      have "ev_CreatedAt b = ev_CreatedAt a" using X a(1,2) b(1,2) unfolding id_fixes_created_at_def by metis
      then have "time_unix (time_add now (- usedRetention)) \<le> c" using fresh_not_pruned[OF t a(3)] b(3) by simp
      then show ?thesis using 2(1,4) c by (simp add: disk_ids_def)
    qed
    ultimately show ?thesis using 2(1,2) by force
  qed
  then show "\<forall>data. disk' = Some data \<longrightarrow> clean data" "genuine X (disk_ids disk')"
    "disk_ids disk k \<noteq> None \<Longrightarrow> signer_fresh X \<lparr>w_server = sv, w_disk = dk, w_now = now\<rparr> k \<Longrightarrow> disk_ids disk' k = disk_ids disk k"
    by blast+
qed

lemma start_seen:
  assumes n: "New X yaml newLocalKey lsServer peerCred fs fault now cfg disk = (disk', Inr s)" "cfg_StateDir cfg \<noteq> []"
    and d: "genuine X (disk_ids disk)" and X: "id_fixes_created_at X" and t: "clock_ok now"
    and k: "disk_ids disk k \<noteq> None" "signer_fresh X \<lparr>w_server = sv, w_disk = dk, w_now = now\<rparr> k"
  shows "Has (sv_used s) k"
proof -
  have o: "OpenUsedSet fault disk now = (disk', Inr (sv_used s))" using New_disk(2)[OF n] by blast
  obtain a where a: "x_Verify X a" "ev_ID a = k" "time_sub now (unixTime (ev_CreatedAt a)) \<le> MaxAttestationAge"
    using k(2) by (auto simp: signer_fresh_def)
  obtain data c where c: "disk = Some data" "map_of (load_ids data) k = Some c" using k(1) by (auto simp: disk_ids_def split: option.splits)
  obtain b where b: "x_Verify X b" "ev_ID b = k" "c = sint (ev_CreatedAt b)" using d c unfolding genuine_def disk_ids_def by force
  have "ev_CreatedAt b = ev_CreatedAt a" using X a(1,2) b(1,2) unfolding id_fixes_created_at_def by metis
  then have "time_unix (time_add now (- usedRetention)) \<le> c" using fresh_not_pruned[OF t a(3)] b(3) by simp
  then show ?thesis using OpenUsedSet_backed(2)[OF o c] by (simp add: Has_def)
qed

section \<open>The contract holds\<close>

lemma signer_step_time: "signer_step X w K w' \<Longrightarrow> w_now w \<le> w_now w' \<and> clock_ok (w_now w')"
  by (induction rule: signer_step.induct) simp_all

lemma time_sub_mono: "t \<le> t' \<Longrightarrow> time_sub t u \<le> time_sub t' u"
  by (auto simp: time_sub_def)

lemma signer_fresh_fades: "signer_step X w K w' \<Longrightarrow> signer_fresh X w' k \<Longrightarrow> signer_fresh X w k"
  using signer_step_time[of X w K w'] time_sub_mono order_trans unfolding signer_fresh_def by blast

lemma signer_step_inv:
  assumes "signer_step X w K w'" "signer_inv X w" "id_fixes_created_at X"
  shows "signer_inv X w'"
  using assms
proof (induction rule: signer_step.induct)
  case (step_authorize wr now req s disk s' disk' req' v t)
  then have s: "wf_server s" "backed disk (sv_used s)" "genuine X (disk_ids disk)" by (auto simp: signer_inv_def)
  note g = authorize_guard[OF step_authorize.hyps(1-3) s step_authorize.prems(2)]
  show ?case using g(1,2) authorize_wf[OF s(1) step_authorize.hyps(1)] backed_clean[OF g(1)] step_authorize.hyps(5)
    by (simp add: signer_inv_def)
next
  case (step_result now req result s s' v t disk)
  then show ?case using AuthorizeResult_wf[of s X now req result] AuthorizeResult_used[of X now req result s] by (simp add: signer_inv_def)
next
  case (step_record t now s disk req v)
  then show ?case using Server_record_wf by (simp add: signer_inv_def)
next
  case (step_attest newKey sign now req s s' out t disk)
  then show ?case using attest_wf[OF _ step_attest.hyps(1)] attest_used[OF step_attest.hyps(1)] by (simp add: signer_inv_def)
next
  case (step_reload yaml fs now s s' err t disk)
  then show ?case using Reload_wf[OF _ step_reload.hyps(2,1)] Reload_used[OF step_reload.hyps(1)] by (simp add: signer_inv_def)
next
  case (step_stop t now s disk)
  then show ?case by (simp add: signer_inv_def)
next
  case (step_start yaml newLocalKey lsServer peerCred fs fault now cfg disk disk' s t)
  then have d: "\<forall>data. disk = Some data \<longrightarrow> clean data" "genuine X (disk_ids disk)" by (auto simp: signer_inv_def)
  have "backed disk' (sv_used s)" using New_disk(2)[OF step_start.hyps(1,3)] OpenUsedSet_backed(1) by blast
  then show ?case
    using start_disk(1,2)[OF step_start.hyps(1,3) d step_start.prems(2) step_start.hyps(5)] New_wf[OF step_start.hyps(1,2)] step_start.hyps(5)
    by (simp add: signer_inv_def)
next
  case (step_start_failed yaml newLocalKey lsServer peerCred fs fault now cfg disk disk' e t)
  then have d: "\<forall>data. disk = Some data \<longrightarrow> clean data" "genuine X (disk_ids disk)" by (auto simp: signer_inv_def)
  show ?case
    using start_disk(1,2)[OF step_start_failed.hyps(1,2) d step_start_failed.prems(2) step_start_failed.hyps(4)] step_start_failed.hyps(4)
    by (simp add: signer_inv_def)
qed

lemma signer_step_seen:
  assumes "signer_step X w K w'" "signer_inv X w" "id_fixes_created_at X"
  shows "k \<in> K \<longrightarrow> \<not> signer_seen w k \<and> signer_fresh X w' k \<and> signer_seen w' k"
    "signer_seen w k \<longrightarrow> signer_fresh X w' k \<longrightarrow> signer_seen w' k"
proof -
  have "(k \<in> K \<longrightarrow> \<not> signer_seen w k \<and> signer_fresh X w' k \<and> signer_seen w' k)
    \<and> (signer_seen w k \<longrightarrow> signer_fresh X w' k \<longrightarrow> signer_seen w' k)"
    using assms
  proof (induction rule: signer_step.induct)
    case (step_authorize wr now req s disk s' disk' req' v t)
    then have s: "wf_server s" "backed disk (sv_used s)" "genuine X (disk_ids disk)" by (auto simp: signer_inv_def)
    show ?case using authorize_guard(3,4)[OF step_authorize.hyps(1-3) s step_authorize.prems(2), of k]
      by (simp add: signer_seen_def signer_fresh_def)
  next
    case (step_result now req result s s' v t disk)
    then show ?case using AuthorizeResult_used[of X now req result s] by (simp add: signer_seen_def)
  next
    case (step_record t now s disk req v)
    then show ?case by (simp add: signer_seen_def)
  next
    case (step_attest newKey sign now req s s' out t disk)
    then show ?case using attest_used[OF step_attest.hyps(1)] by (simp add: signer_seen_def)
  next
    case (step_reload yaml fs now s s' err t disk)
    then show ?case using Reload_used[OF step_reload.hyps(1)] by (simp add: signer_seen_def)
  next
    case (step_stop t now s disk)
    then show ?case using seen_on_disk[OF step_stop.prems(1), of k] by (simp add: signer_seen_def)
  next
    case (step_start yaml newLocalKey lsServer peerCred fs fault now cfg disk disk' s t)
    then have "genuine X (disk_ids disk)" by (simp add: signer_inv_def)
    then show ?case using start_seen[OF step_start.hyps(1,3) _ step_start.prems(2) step_start.hyps(5), of k] by (auto simp: signer_seen_def)
  next
    case (step_start_failed yaml newLocalKey lsServer peerCred fs fault now cfg disk disk' e t)
    then have "\<forall>data. disk = Some data \<longrightarrow> clean data" "genuine X (disk_ids disk)" by (auto simp: signer_inv_def)
    then show ?case using start_disk(3)[OF step_start_failed.hyps(1,2) _ _ step_start_failed.prems(2) step_start_failed.hyps(4), of k]
      by (auto simp: signer_seen_def)
  qed
  then show "k \<in> K \<longrightarrow> \<not> signer_seen w k \<and> signer_fresh X w' k \<and> signer_seen w' k"
    "signer_seen w k \<longrightarrow> signer_fresh X w' k \<longrightarrow> signer_seen w' k"
    by blast+
qed

text \<open>The contract, for the packages outside that keep to \<open>id_fixes_created_at\<close>.\<close>

definition guarded_step :: "externals \<Rightarrow> signer_world \<Rightarrow> string set \<Rightarrow> signer_world \<Rightarrow> bool" where
  "guarded_step X w K w' \<longleftrightarrow> id_fixes_created_at X \<and> signer_step X w K w'"

interpretation attestations: single_use "guarded_step X" "signer_inv X" signer_seen "signer_fresh X" for X
  by unfold_locales
    (auto simp: guarded_step_def intro: signer_step_inv signer_fresh_fades dest: signer_step_seen)

lemma run_guarded:
  assumes "run (signer_step X) w Ks w'" "id_fixes_created_at X"
  shows "run (guarded_step X) w Ks w'"
  using assms by (induction rule: run.induct) (auto simp: guarded_step_def intro: run.intros)

lemma first_world_inv: "signer_inv X first_world"
  by (simp add: signer_inv_def first_world_def clock_ok_def genuine_def disk_ids_def)

lemma run_signer_inv:
  assumes "run (signer_step X) first_world Ks w" "id_fixes_created_at X"
  shows "signer_inv X w"
proof -
  have "signer_inv X w'" if "run (signer_step X) v Ks w'" "signer_inv X v" for v Ks w'
    using that by (induction rule: run.induct) (auto dest: signer_step_inv[OF _ _ assms(2)])
  then show ?thesis using assms(1) first_world_inv by blast
qed

text \<open>The ids used after a call of \<open>authorize\<close>.\<close>

lemma authorize_used_ids:
  assumes "authorize X w now req s disk = Ret (s', disk', req', v)" "wf_server s"
  shows "Has (sv_used s') k \<longleftrightarrow> Has (sv_used s) k \<or> k \<in> consumes X now req s v"
  using assms(1)
proof (cases rule: authorize_cases)
  case (1 d)
  then show ?thesis by (simp add: consumes_def)
next
  case (2 d)
  then have "d_Consumed d = []" using unwrap_consumes_nothing assms(2) unfolding wf_server_def by blast
  then show ?thesis using 2 authorize_unwrap_fields(1)[OF 2(4)] by (simp add: consumes_def)
next
  case (3 d l)
  then show ?thesis by (simp add: consumes_def)
next
  case (4 d l)
  obtain es u err where a: "used_entries (lr_Attestations req) (d_Consumed d) = Ret es" "Add w disk (sv_used s) es = (disk', u, err)"
    "sv_used s' = u" "v = Granted \<longleftrightarrow> err = None" using authorize_consume_cases[OF 4(5)] by (metis Server.select_convs(8) Server.surjective Server.update_convs(7))
  have "ue_ID ` set es = set (d_Consumed d)"
    using used_entries_found[OF a(1)] consumed_facts[OF 4(1,2) assms(2)] by blast
  then have "upd_all es (map_of (us_ids (sv_used s))) k \<noteq> None \<longleftrightarrow> Has (sv_used s) k \<or> k \<in> set (d_Consumed d)"
    using upd_all_other[of k es] upd_all_in[of k es] unfolding Has_def by (metis option.distinct(1))
  then show ?thesis using a Add_ids(1)[OF a(2)] 4(1) by (auto simp: Has_def consumes_def)
qed

end
