(* ===== verification/Signer_Example.thy ===== *)
theory Signer_Example
  imports Signer_Replay
begin

text \<open>
  A small signer, used by the concrete instances of the theorems: a policy that signs kind 1 with one approval by
  the key \<open>aa\<close> bound to the event's id, unwraps gift wraps from \<open>bb\<close>, attests any key for a day and denies the rest.
  The packages outside are stood for by functions: an event verifies when its id is the text of its creation
  time, a key is valid when it is not empty, every duration is a minute, a compiled pattern is a substring search,
  and the hash of a text is the text.
\<close>

definition ex_seal :: event where
  "ex_seal = \<lparr>ev_ID = ''seal'', ev_PubKey = ''bb'', ev_CreatedAt = 0, ev_Kind = 13, ev_Tags = [], ev_Content = [], ev_Sig = []\<rparr>"

definition ex_conditions :: conditions where
  "ex_conditions = \<lparr>CreatedAtLT = [100], cond_Kinds = [1]\<rparr>"

definition ex_externals :: externals where
  "ex_externals = \<lparr>x_Verify = (\<lambda>e. ev_ID e = itoa (sint (ev_CreatedAt e))), x_VerifyNoPow = (\<lambda>_. True),
     x_DecodePublicKey = (\<lambda>_. None), x_Validate32Key = (\<lambda>s. s \<noteq> []),
     x_ParseConditions = (\<lambda>_. Some ex_conditions), x_UnmarshalEvent = (\<lambda>s. if s = ''seal'' then Some ex_seal else None),
     x_Compile = (\<lambda>p. Some (\<lambda>s. contains s p)), x_sha256 = (\<lambda>s. s), x_ParseDuration = (\<lambda>_. Some minute)\<rparr>"

lemma ex_externals_ids: "id_fixes_created_at ex_externals"
proof -
  have "ev_CreatedAt a = ev_CreatedAt b" if "itoa (sint (ev_CreatedAt a)) = itoa (sint (ev_CreatedAt b))" for a b :: event
  proof -
    have "atoi (itoa (sint (ev_CreatedAt a))) = Some (sint (ev_CreatedAt a))" "atoi (itoa (sint (ev_CreatedAt b))) = Some (sint (ev_CreatedAt b))"
      by (intro atoi_itoa sint_in_int64)+
    then show ?thesis using that by (metis option.inject signed_word_eqI)
  qed
  moreover have "itoa n \<noteq> []" for n by (simp add: itoa_def)
  ultimately show ?thesis by (auto simp: id_fixes_created_at_def ex_externals_def)
qed

definition ex_selector :: Selector where
  "ex_selector = \<lparr>sel_Methods = [], sel_Kinds = [], sel_Counterparts = [], sel_Tags = [], sel_TagsOne = [], sel_UnwrapFrom = [],
     sel_Attest = None, sel_counterparts = None, sel_unwrapFrom = None\<rparr>"

definition ex_spec :: AttestationSpec where
  "ex_spec = \<lparr>att_Name = ''approval'', att_Kinds = [7], att_Authors = [''aa''], att_AuthorsFile = [], att_MaxAge = minute,
     att_Binds = [\<lparr>bind_Tag = ''e'', bind_From = ''id'', bind_Content = None, bind_ContentContains = None\<rparr>],
     att_authors = [], att_authorsSum = [], att_bindsID = False\<rparr>"

definition ex_rule :: "string \<Rightarrow> Selector option \<Rightarrow> Selector option \<Rightarrow> string \<Rightarrow> Require option \<Rightarrow> Rule" where
  "ex_rule name allow dny rate q = \<lparr>rule_Name = name, rule_Allow = allow, rule_Deny = dny, rule_DenyMatching = [], rule_Rate = rate,
     rule_MaxClockSkew = None, rule_Require = q, rule_denyRe = [], rule_rate = None\<rparr>"

definition ex_rules :: "Rule list" where
  "ex_rules =
     [(ex_rule ''notes'' (Some (ex_selector\<lparr>sel_Kinds := [1]\<rparr>)) None ''2/m'' (Some \<lparr>req_Attestations = [ex_spec]\<rparr>))\<lparr>rule_DenyMatching := [''secret'']\<rparr>,
      ex_rule ''wraps'' (Some (ex_selector\<lparr>sel_UnwrapFrom := [''bb'']\<rparr>)) None ''1/m'' None,
      ex_rule ''agents'' (Some (ex_selector\<lparr>sel_Attest := Some \<lparr>as_Subordinates = [''*''], as_MaxUntil = Some (24 * hour), as_Kinds = [1],
        as_any = False, as_subs = []\<rparr>\<rparr>)) None [] None,
      ex_rule ''rest'' None (Some ex_selector) [] None]"

definition ex_yaml :: "string \<Rightarrow> goerr + Policy" where
  "ex_yaml data = Inr \<lparr>pol_Kind = ''signer-policy'', pol_MaxClockSkew = None, pol_Rules = ex_rules, pol_SHA256 = [], pol_Files = [], pol_fileSums = []\<rparr>"

lemma ex_yaml_fresh: "fresh_decode ex_yaml"
  by (auto simp: fresh_decode_def ex_yaml_def ex_rules_def ex_rule_def ex_selector_def fresh_rule_def fresh_selector_def ex_spec_def)

definition ex_fs :: "string \<Rightarrow> string option" where
  "ex_fs path = (if path = ''p'' then Some ''policy'' else None)"

definition ex_config :: Config where
  "ex_config = \<lparr>cfg_PrivKeyHex = ''k'', cfg_PolicyPath = ''p'', cfg_LoadOptions = \<lparr>AllowCatchAll = False, SignerPub = []\<rparr>, cfg_StateDir = ''d'',
     cfg_AllowUIDs = [], cfg_AllowGIDs = [], cfg_Denials = False, cfg_Version = ''v''\<rparr>"

definition ex_opts :: LoadOptions where
  "ex_opts = \<lparr>AllowCatchAll = False, SignerPub = ''ss''\<rparr>"

text \<open>The clock of the example: five seconds after the epoch of Unix time.\<close>

definition ex_now :: gtime where
  "ex_now = (unix_to_internal + 5) * second"

definition ex_load :: "goerr + Policy" where
  "ex_load = LoadPolicy ex_externals ex_yaml ex_fs ''p'' ex_opts"

definition ex_policy :: Policy where
  "ex_policy = (case ex_load of Inr p \<Rightarrow> p | Inl _ \<Rightarrow> undefined)"

lemma ex_load_ok: "(case ex_load of Inr p \<Rightarrow> True | Inl _ \<Rightarrow> False)"
  by code_simp

lemma ex_policy_loaded: "LoadPolicy ex_externals ex_yaml ex_fs ''p'' ex_opts = Inr ex_policy"
  using ex_load_ok by (auto simp: ex_policy_def ex_load_def split: sum.splits)

definition ex_start :: "string option \<times> (goerr + Server)" where
  "ex_start = New ex_externals ex_yaml (\<lambda>_. Some ''ss'') True True ex_fs NoFault ex_now ex_config None"

definition ex_server :: Server where
  "ex_server = (case snd ex_start of Inr s \<Rightarrow> s | Inl _ \<Rightarrow> undefined)"

lemma ex_start_ok: "(case snd ex_start of Inr s \<Rightarrow> True | Inl _ \<Rightarrow> False)"
  by code_simp

lemma ex_started: "New ex_externals ex_yaml (\<lambda>_. Some ''ss'') True True ex_fs NoFault ex_now ex_config None = (fst ex_start, Inr ex_server)"
  unfolding ex_start_def[symmetric] ex_server_def using ex_start_ok by (auto simp: prod_eq_iff split: sum.splits)

text \<open>A note to sign, and its approval.\<close>

definition ex_note :: event where
  "ex_note = \<lparr>ev_ID = ''note'', ev_PubKey = ''ss'', ev_CreatedAt = 5, ev_Kind = 1, ev_Tags = [], ev_Content = ''hi'', ev_Sig = []\<rparr>"

definition ex_approval :: event where
  "ex_approval = \<lparr>ev_ID = ''6'', ev_PubKey = ''aa'', ev_CreatedAt = 6, ev_Kind = 7, ev_Tags = [[''e'', ''note'']], ev_Content = [], ev_Sig = []\<rparr>"

definition ex_request :: lsRequest where
  "ex_request = \<lparr>lr_ptr = 1, lr_ID = ''r'', lr_Method = MethodSignEvent, lr_Params = [], lr_Event = Some ex_note, lr_Attestations = [Some ex_approval],
     lr_Counterpart = [], lr_Plaintext = [], lr_Ciphertext = [], lr_Peer = [], lr_Rule = []\<rparr>"

definition ex_authorize :: "(Server \<times> string option \<times> lsRequest \<times> verdict) go" where
  "ex_authorize = authorize ex_externals WriteOk (ex_now + second) ex_request ex_server (fst ex_start)"

lemma ex_consumed:
  "(case Evaluate ex_externals (eval_request ex_server (ex_now + second) ex_request) (sv_policy ex_server) (Has (sv_used ex_server)) of
      Ret d \<Rightarrow> d_Allow d \<and> d_Consumed d = [''6''] | Panic \<Rightarrow> False)"
  by code_simp

lemma ex_granted: "(case ex_authorize of Ret (s, disk, req, v) \<Rightarrow> v = Granted | Panic \<Rightarrow> False)"
  by code_simp

end
