(* ===== verification/Signer_Theorems.thy ===== *)
theory Signer_Theorems
  imports Signer_Example
begin

text \<open>
  The properties of the signer: its policy loads well formed, a decision never panics and allows only what the
  first applying rule allows, attestations are assigned exactly when they can be and are consumed once, the
  rate limit holds, and the record of consumed attestations survives a restart.
\<close>

section \<open>Loading and deciding\<close>

text \<open>
  C1. No attestation is consumed twice: in a run of the signer from its first start, through requests, results,
  log lines, reloads, stops, crashes and starts, no attestation id is consumed by two granted requests. The
  run's clock does not go back, its writes are not torn, and the attestations one request lists under one id
  carry one creation time.
\<close>

theorem signer_no_replay:
  assumes "run (signer_step X) first_world Ks w" "id_fixes_created_at X" "i < j" "j < length Ks"
  shows "Ks ! i \<inter> Ks ! j = {}"
  using attestations.accepted_once[OF run_guarded[OF assms(1,2)] first_world_inv assms(3,4)] .

text \<open>The example's start and its granted request, as steps.\<close>

lemma ex_step_start:
  "signer_step ex_externals first_world {} \<lparr>w_server = Some ex_server, w_disk = fst ex_start, w_now = ex_now\<rparr>"
proof -
  have "0 \<le> ex_now" "clock_ok ex_now" "cfg_StateDir ex_config \<noteq> []" by (simp_all add: ex_now_def clock_ok_def ex_config_def)
  then show ?thesis unfolding first_world_def using step_start[OF ex_started ex_yaml_fresh] by simp
qed

lemma ex_step_authorize:
  obtains s disk where "signer_step ex_externals \<lparr>w_server = Some ex_server, w_disk = fst ex_start, w_now = ex_now\<rparr> {''6''}
    \<lparr>w_server = Some s, w_disk = disk, w_now = ex_now + second\<rparr>"
proof -
  obtain s disk req where a: "authorize ex_externals WriteOk (ex_now + second) ex_request ex_server (fst ex_start) = Ret (s, disk, req, Granted)"
    using ex_granted by (auto simp: ex_authorize_def split: go.splits)
  have "consumes ex_externals (ex_now + second) ex_request ex_server Granted = {''6''}"
    using ex_consumed by (auto simp: consumes_def split: go.splits)
  then show ?thesis
    using step_authorize[OF a, of ex_now] that[of s disk]
    by (simp add: whole_write_def consistent_ids_def ex_request_def ex_now_def clock_ok_def)
qed

theorem signer_no_replay_witness:
  "\<exists>Ks w. run (signer_step ex_externals) first_world Ks w \<and> id_fixes_created_at ex_externals \<and> Ks ! 1 = {''6''} \<and> Ks ! 1 \<inter> Ks ! 2 = {}"
proof -
  obtain s disk where a: "signer_step ex_externals \<lparr>w_server = Some ex_server, w_disk = fst ex_start, w_now = ex_now\<rparr> {''6''}
    \<lparr>w_server = Some s, w_disk = disk, w_now = ex_now + second\<rparr>" by (rule ex_step_authorize)
  have c: "signer_step ex_externals \<lparr>w_server = Some s, w_disk = disk, w_now = ex_now + second\<rparr> {} \<lparr>w_server = None, w_disk = disk, w_now = ex_now + second\<rparr>"
    by (rule step_stop) (simp_all add: ex_now_def clock_ok_def)
  have r: "run (signer_step ex_externals) first_world [{}, {''6''}, {}] \<lparr>w_server = None, w_disk = disk, w_now = ex_now + second\<rparr>"
    using ex_step_start a c by (auto intro!: run.intros)
  show ?thesis using signer_no_replay[OF r ex_externals_ids, of 1 2] r ex_externals_ids by (intro exI[of _ "[{}, {''6''}, {}]"]) auto
qed

text \<open>
  A policy that loads is well formed: rule names are distinct and not empty, every rule is exactly one of
  allow and deny, only an attest selector with a bound allows \<open>nipoa_attest\<close>, rates are positive,
  every required attestation has kinds, a positive age of at most a day, binds that parse and authors, none of them the
  signer, and the policy's hash is the hash of the file it was read from.
\<close>

theorem LoadPolicy_well_formed:
  assumes "LoadPolicy X yaml fs path opts = Inr p" "fresh_decode yaml"
  shows "wf_policy opts p \<and> (\<exists>data. fs path = Some data \<and> pol_SHA256 p = x_sha256 X data)"
  using LoadPolicy_ok[OF assms] by blast

theorem LoadPolicy_well_formed_witness: "wf_policy ex_opts ex_policy \<and> pol_SHA256 ex_policy = ''policy''"
  using LoadPolicy_well_formed[OF ex_policy_loaded ex_yaml_fresh] by (auto simp: ex_fs_def ex_externals_def)

text \<open>
  C2. Deciding a request under a loaded policy returns a decision, whatever the request, unless it lists a nil
  attestation.
\<close>

theorem Evaluate_no_panic:
  assumes "LoadPolicy X yaml fs path opts = Inr p" "fresh_decode yaml" "None \<notin> set (rq_Attestations req)"
  shows "\<exists>d. Evaluate X req p used = Ret d"
  using Evaluate_returns[OF LoadPolicy_ok(1)[OF assms(1,2)], of req] assms(3) by (metis returns_iff)

theorem Evaluate_no_panic_witness: "\<exists>d. Evaluate ex_externals empty_request ex_policy (\<lambda>_. False) = Ret d"
  using Evaluate_no_panic[OF ex_policy_loaded ex_yaml_fresh, of empty_request] by (simp add: empty_request_def)

text \<open>
  C3. A request is allowed only by the first rule that applies to it: that rule is an allow rule, no rule before it
  applies, and none of its deny patterns matches a text of the request (for \<open>sign_event\<close> the content and
  every tag value, else the plaintext).
\<close>

theorem Evaluate_first_rule_allows:
  assumes "Evaluate X req p used = Ret d" "d_Allow d" "wf_policy opts p"
  shows "\<exists>i < length (pol_Rules p). applies req (pol_Rules p ! i) \<and> (\<forall>j < i. \<not> applies req (pol_Rules p ! j))
    \<and> rule_Allow (pol_Rules p ! i) \<noteq> None \<and> rule_Deny (pol_Rules p ! i) = None \<and> d_Rule d = rule_Name (pol_Rules p ! i)
    \<and> (\<forall>re \<in> set (rule_denyRe (pol_Rules p ! i)). \<forall>t \<in> set (request_texts req). \<not> re t)"
proof -
  obtain rule s condso where r: "searchable req (pol_Rules p)" "search_rule req (pol_Rules p) = Some rule"
    "rule_Allow rule = Some s" "rule_Deny rule = None" "decide_rule X req p used condso rule = Ret d"
    using Evaluate_allowE[OF assms] by metis
  have "matchDenyPatterns rule req = Ret None" "d_Rule d = rule_Name rule"
    using decide_rule_patterns[OF r(5) assms(2)] decide_rule_name[OF r(5)] by simp_all
  then have "\<forall>re \<in> set (rule_denyRe rule). \<forall>t \<in> set (request_texts req). \<not> re t" "d_Rule d = rule_Name rule"
    using match_deny_None unfolding matchDenyPatterns_def by blast+
  then show ?thesis using rules.search_SomeD[OF r(1,2)] r(3,4) by auto
qed

definition ex_sign :: Request where
  "ex_sign = empty_request\<lparr>rq_Method := MethodSignEvent, rq_Event := Some ex_note, rq_Attestations := [Some ex_approval], rq_Now := ex_now + second,
     rq_SignerPub := ''ss''\<rparr>"

definition ex_decision :: Decision where
  "ex_decision = \<lparr>d_Allow = True, d_Rule = ''notes'', d_Reason = None, d_Consumed = [''6''], d_Rate = Some \<lparr>rate_N = 2, rate_Per = minute\<rparr>,
     d_UnwrapFrom = None\<rparr>"

lemma ex_policy_wf: "wf_policy ex_opts ex_policy"
  using LoadPolicy_ok(1)[OF ex_policy_loaded ex_yaml_fresh] .

lemma ex_signed: "Evaluate ex_externals ex_sign ex_policy (\<lambda>_. False) = Ret ex_decision" "d_Allow ex_decision"
proof -
  have "(case Evaluate ex_externals ex_sign ex_policy (\<lambda>_. False) of Ret d \<Rightarrow> d = ex_decision | Panic \<Rightarrow> False)" by code_simp
  then show "Evaluate ex_externals ex_sign ex_policy (\<lambda>_. False) = Ret ex_decision" by (simp split: go.splits)
qed (simp add: ex_decision_def)

theorem Evaluate_first_rule_allows_witness:
  "\<exists>i < length (pol_Rules ex_policy). applies ex_sign (pol_Rules ex_policy ! i) \<and> (\<forall>j < i. \<not> applies ex_sign (pol_Rules ex_policy ! j))
    \<and> rule_Name (pol_Rules ex_policy ! i) = ''notes''"
  using Evaluate_first_rule_allows[OF ex_signed ex_policy_wf] by (auto simp: ex_decision_def)




text \<open>
  C5. A signed event has every approval its rule requires, each by an attestation at a place of its own in the
  request: it verifies, is not signed by the signer, has a listed kind and author, is at most \<open>max_age\<close> old, was not
  used before and satisfies every bind; and exactly these attestations are consumed.
\<close>

theorem Evaluate_attestations:
  assumes "Evaluate X req p used = Ret d" "d_Allow d" "wf_policy opts p" "rq_Method req = MethodSignEvent" "rq_Event req = Some ev"
  shows "\<exists>rule ps. search_rule req (pol_Rules p) = Some rule \<and> distinct ps \<and> length ps = length (required rule)
    \<and> d_Consumed d = map (\<lambda>i. ev_ID (the (rq_Attestations req ! i))) ps
    \<and> (\<forall>k < length ps. ps ! k < length (rq_Attestations req) \<and> (\<exists>att. rq_Attestations req ! (ps ! k) = Some att \<and> x_Verify X att
        \<and> \<not> equal_fold (ev_PubKey att) (rq_SignerPub req) \<and> ev_Kind att \<in> set (att_Kinds (required rule ! k))
        \<and> to_lower (ev_PubKey att) \<in> set (att_authors (required rule ! k))
        \<and> time_sub (rq_Now req) (unixTime (ev_CreatedAt att)) \<le> att_MaxAge (required rule ! k)
        \<and> \<not> used (ev_ID att) \<and> (\<forall>b \<in> set (att_Binds (required rule ! k)). checkBind b att ev = None)))"
proof -
  obtain rule condso where r: "search_rule req (pol_Rules p) = Some rule" "decide_rule X req p used condso rule = Ret d"
    using Evaluate_allowE[OF assms(1-3)] by metis
  have s: "decide_sign X req p used rule ev = Ret d" by (rule decide_rule_sign[OF r(2) assms(2,4,5)])
  obtain ps where ps: "satisfies_all X (required rule) (rq_Attestations req) (sign_context req p used rule ev) ps"
    "d_Consumed d = map (\<lambda>i. ev_ID (the (rq_Attestations req ! i))) ps" using decide_sign_consumed[OF s assms(2)] by blast
  have "\<exists>att. rq_Attestations req ! (ps ! k) = Some att \<and> x_Verify X att
        \<and> \<not> equal_fold (ev_PubKey att) (rq_SignerPub req) \<and> ev_Kind att \<in> set (att_Kinds (required rule ! k))
        \<and> to_lower (ev_PubKey att) \<in> set (att_authors (required rule ! k))
        \<and> time_sub (rq_Now req) (unixTime (ev_CreatedAt att)) \<le> att_MaxAge (required rule ! k)
        \<and> \<not> used (ev_ID att) \<and> (\<forall>b \<in> set (att_Binds (required rule ! k)). checkBind b att ev = None)" if "k < length ps" for k
  proof -
    have k: "k < length ps" by (rule that)
    obtain att where a: "rq_Attestations req ! (ps ! k) = Some att" using satisfies_all_nonnil[OF ps(1) nth_mem[OF k]] by blast
    then have "checkAttestation X (Some att) (required rule ! k) (sign_context req p used rule ev) = None"
      using ps(1) k unfolding satisfies_all_def by metis
    from checkAttestation_NoneD[OF this] a show ?thesis by auto
  qed
  then show ?thesis using r(1) ps unfolding satisfies_all_def by (intro exI[of _ rule] exI[of _ ps]) auto
qed

theorem Evaluate_attestations_witness:
  "\<exists>rule ps. search_rule ex_sign (pol_Rules ex_policy) = Some rule \<and> length ps = length (required rule)
    \<and> [''6''] = map (\<lambda>i. ev_ID (the (rq_Attestations ex_sign ! i))) ps"
proof -
  have r: "rq_Method ex_sign = MethodSignEvent" "rq_Event ex_sign = Some ex_note" and c: "d_Consumed ex_decision = [''6'']"
    by (simp_all add: ex_sign_def ex_decision_def)
  show ?thesis using Evaluate_attestations[OF ex_signed ex_policy_wf r] unfolding c by (elim exE conjE, intro exI conjI) assumption+
qed


text \<open>
  The signer attests another key only under a rule with an attest selector: the key is 64 characters long, is not the
  signer's and is one the selector names, the earliest \<open>created_at<\<close> bound of the attested conditions lies
  ahead of the clock and at most \<open>max_until\<close> ahead, and their kinds are among the selector's.
\<close>

theorem Evaluate_nipoa_attest:
  assumes "Evaluate X req p used = Ret d" "d_Allow d" "wf_policy opts p" "rq_Method req = MethodAttest"
  shows "\<exists>rule \<in> set (pol_Rules p). \<exists>s a conds until m. rule_Allow rule = Some s \<and> sel_Attest s = Some a
    \<and> AttestSelector_matches a (rq_Subordinate req) \<and> length (rq_Subordinate req) = 64
    \<and> \<not> equal_fold (rq_Subordinate req) (rq_SignerPub req) \<and> x_ParseConditions X (rq_Conditions req) = Some conds
    \<and> until \<in> set (CreatedAtLT conds) \<and> (\<forall>t \<in> set (CreatedAtLT conds). until \<le> t) \<and> as_MaxUntil a = Some m
    \<and> time_unix (rq_Now req) < sint until \<and> sint until \<le> time_unix (time_add (rq_Now req) m)
    \<and> (as_Kinds a = [] \<or> cond_Kinds conds \<noteq> [] \<and> set (cond_Kinds conds) \<subseteq> set (as_Kinds a))"
proof -
  obtain rule condso where r: "check_request X req p = Inr condso" "searchable req (pol_Rules p)" "search_rule req (pol_Rules p) = Some rule"
    "wf_rule opts rule" "applies req rule" "rule_Deny rule = None" "decide_rule X req p used condso rule = Ret d"
    using Evaluate_allowE[OF assms(1-3)] by metis
  have m: "rule \<in> set (pol_Rules p)" by (rule search_ruleD(1)[OF assms(3) r(2,3)])
  obtain conds where c: "condso = Some conds" "parseAttestRequest X req = Inr conds"
    using r(1) assms(4) by (auto simp: check_request_def split: if_splits sum.splits)
  obtain s a where s: "rule_Allow rule = Some s" "sel_Attest s = Some a" "AttestSelector_matches a (rq_Subordinate req)"
    using attest_rule[OF r(4,5) assms(4) r(6)] by metis
  have k: "AttestSelector_check a conds (rq_Now req) = Ret None"
    using r(7) assms(2,4) s c by (auto simp: decide_rule_def split: if_splits go.splits option.splits)
  show ?thesis
    using m s parseAttestRequest_ok[OF c(2)] AttestSelector_check_until[OF k] AttestSelector_check_kinds[OF k] by blast
qed

definition ex_attest :: Request where
  "ex_attest = empty_request\<lparr>rq_Method := MethodAttest, rq_Subordinate := replicate 64 (CHR ''a''), rq_Now := ex_now, rq_SignerPub := ''ss''\<rparr>"

lemma ex_attested:
  obtains d where "Evaluate ex_externals ex_attest ex_policy (\<lambda>_. False) = Ret d" "d_Allow d"
proof -
  have "(case Evaluate ex_externals ex_attest ex_policy (\<lambda>_. False) of Ret d \<Rightarrow> d_Allow d | Panic \<Rightarrow> False)" by code_simp
  then show ?thesis using that by (auto split: go.splits)
qed

theorem Evaluate_nipoa_attest_witness:
  "\<exists>rule \<in> set (pol_Rules ex_policy). \<exists>s a until m. rule_Allow rule = Some s \<and> sel_Attest s = Some a
    \<and> until \<in> set (CreatedAtLT ex_conditions) \<and> as_MaxUntil a = Some m \<and> sint until \<le> time_unix (time_add ex_now m)"
proof -
  obtain d where d: "Evaluate ex_externals ex_attest ex_policy (\<lambda>_. False) = Ret d" "d_Allow d" by (rule ex_attested)
  have "rq_Method ex_attest = MethodAttest" "x_ParseConditions ex_externals = (\<lambda>_. Some ex_conditions)" "rq_Now ex_attest = ex_now"
    by (simp_all add: ex_attest_def ex_externals_def)
  with Evaluate_nipoa_attest[OF d ex_policy_wf] show ?thesis by clarsimp blast
qed

section \<open>The server\<close>

text \<open>
  A call of \<open>authorize\<close> records as used exactly the attestations of a request it grants: afterwards an id is used
  when it was before or was consumed by this call, and a request that is denied, for any reason, the failure
  to write the record included, uses up nothing.
\<close>

theorem authorize_records_exactly:
  assumes "authorize X w now req s disk = Ret (s', disk', req', v)" "wf_server s"
  shows "Has (sv_used s') k \<longleftrightarrow> Has (sv_used s) k \<or> k \<in> consumes X now req s v"
  using authorize_used_ids[OF assms] .

theorem authorize_records_exactly_witness:
  "\<exists>s disk req. ex_authorize = Ret (s, disk, req, Granted) \<and> Has (sv_used s) ''6'' \<and> \<not> Has (sv_used s) ''7''"
proof -
  obtain s disk req where a: "ex_authorize = Ret (s, disk, req, Granted)" using ex_granted by (auto split: go.splits)
  have c: "consumes ex_externals (ex_now + second) ex_request ex_server Granted = {''6''}"
    using ex_consumed by (auto simp: consumes_def split: go.splits)
  have u: "\<not> Has (sv_used ex_server) ''7''" by code_simp
  show ?thesis
    using authorize_records_exactly[OF a[unfolded ex_authorize_def] New_wf[OF ex_started ex_yaml_fresh]] a c u
    by (intro exI[of _ s] exI[of _ disk] exI[of _ req]) simp
qed

text \<open>
  Every server a run of the signer reaches is well formed: its active policy is one that loaded, a policy that
  requires attestations runs only on a server that persists them, the limiter's buckets hold between zero and N
  tokens, the memory of refused wraps is bounded, and the file on disk holds every id the server holds as used.
\<close>

theorem signer_well_formed:
  assumes "run (signer_step X) first_world Ks w" "id_fixes_created_at X" "w_server w = Some s"
  shows "wf_server s \<and> backed (w_disk w) (sv_used s)"
  using run_signer_inv[OF assms(1,2)] assms(3) by (simp add: signer_inv_def)

theorem signer_well_formed_witness: "wf_server ex_server \<and> backed (fst ex_start) (sv_used ex_server)"
proof -
  have r: "run (signer_step ex_externals) first_world [{}] \<lparr>w_server = Some ex_server, w_disk = fst ex_start, w_now = ex_now\<rparr>"
    using ex_step_start by (auto intro: run.intros)
  show ?thesis using signer_well_formed[OF r ex_externals_ids] by simp
qed

text \<open>
  C7. A gift wrap whose decrypted content is not released costs no rate token and is remembered: the same
  wrap is refused at once afterwards, while the policy stays, again without touching the rate limit.
\<close>

theorem refused_wrap_is_free:
  assumes "wf_server s" "sv_unwrap s (lr_ptr req) = Some u" "CheckUnwrapResult X (uc_d u) result = Some reason"
    "AuthorizeResult X now req result s = (s', v)"
  shows "v \<noteq> Granted \<and> sv_limiter s' = sv_limiter s
    \<and> (wrapKey X (lr_Counterpart req2) (lr_Ciphertext req2) = uc_key u \<and> sv_policy_ptr s' = uc_policy u
       \<longrightarrow> (\<exists>reply. authorize_unwrap X now2 req2 d s' = (s', reply) \<and> reply \<noteq> Granted))"
proof -
  have s': "s' = s\<lparr>sv_unwrap := (sv_unwrap s)(lr_ptr req := None), sv_refused := refused_add (sv_refused s) (uc_policy u) (uc_key u)\<rparr>"
    "v = Denyf (d_Rule (uc_d u)) reason" using assms(2-4) by (auto simp: AuthorizeResult_def Let_def)
  have "refused_has (sv_refused s') (uc_policy u) (uc_key u)" using s' assms(1) refused_add_has by (simp add: wf_server_def)
  then show ?thesis using s' by (simp add: authorize_unwrap_def Let_def)
qed

definition ex_wrap :: unwrapCheck where
  "ex_wrap = \<lparr>uc_d = ex_decision\<lparr>d_UnwrapFrom := Some [''bb'']\<rparr>, uc_policy = 0, uc_key = ''key''\<rparr>"

theorem refused_wrap_is_free_witness:
  "\<exists>s' v. AuthorizeResult ex_externals ex_now ex_request ''junk'' (ex_server\<lparr>sv_unwrap := [1 \<mapsto> ex_wrap]\<rparr>) = (s', v) \<and> v \<noteq> Granted
    \<and> sv_limiter s' = sv_limiter ex_server"
proof -
  let ?s = "ex_server\<lparr>sv_unwrap := [1 \<mapsto> ex_wrap]\<rparr>"
  obtain s' v where a: "AuthorizeResult ex_externals ex_now ex_request ''junk'' ?s = (s', v)" by fastforce
  have w: "wf_server ?s"
    using New_wf[OF ex_started ex_yaml_fresh] by (simp add: wf_server_def wf_decision_def wf_rate_def ex_wrap_def ex_decision_def)
  have u: "sv_unwrap ?s (lr_ptr ex_request) = Some ex_wrap" by (simp add: ex_request_def)
  have c: "CheckUnwrapResult ex_externals (uc_d ex_wrap) ''junk'' = Some (Err ''result is not a seal'' [])" by code_simp
  show ?thesis using refused_wrap_is_free[OF w u c a] a by auto
qed

text \<open>
  Under an \<open>unwrap_from\<close> rule a decrypted gift wrap is released only if it is a seal that verifies, signed by a
  sender the rule lists: the grant of \<open>authorize\<close> only stores the rule's senders for the result, and the result is
  granted only by a seal from one of them.
\<close>

theorem unwrap_releases_listed_seals:
  assumes "authorize X w now req s disk = Ret (s1, disk1, req1, Granted)"
    "Evaluate X (eval_request s now req) (sv_policy s) (Has (sv_used s)) = Ret d" "d_UnwrapFrom d = Some from" "d_Allow d"
    "AuthorizeResult X now2 req result s1 = (s2, Granted)"
  shows "\<exists>seal. x_UnmarshalEvent X result = Some seal \<and> ev_Kind seal = KindSeal \<and> x_VerifyNoPow X seal \<and> to_lower (ev_PubKey seal) \<in> set from"
proof -
  have a: "authorize_unwrap X now req d s = (s1, Granted)"
    using assms(1-4) by (auto simp: authorize_def Let_def split: prod.splits)
  then obtain u where u: "sv_unwrap s1 (lr_ptr req) = Some u" "uc_d u = d"
    by (auto simp: authorize_unwrap_def Let_def split: if_splits option.splits prod.splits bool.splits)
  then have "CheckUnwrapResult X d result = None"
    using assms(5) by (auto simp: AuthorizeResult_def Let_def split: option.splits)
  then show ?thesis using assms(3) by (auto simp: CheckUnwrapResult_def split: option.splits if_splits)
qed

definition ex_unwrap :: lsRequest where
  "ex_unwrap = ex_request\<lparr>lr_Method := MethodNIP44Decrypt, lr_Event := None, lr_Attestations := []\<rparr>"

theorem unwrap_releases_listed_seals_witness:
  "\<exists>s1 disk1 req1 s2 seal. authorize ex_externals WriteOk ex_now ex_unwrap ex_server (fst ex_start) = Ret (s1, disk1, req1, Granted)
    \<and> AuthorizeResult ex_externals ex_now ex_unwrap ''seal'' s1 = (s2, Granted) \<and> x_UnmarshalEvent ex_externals ''seal'' = Some seal
    \<and> ev_Kind seal = KindSeal"
proof -
  have e: "(case Evaluate ex_externals (eval_request ex_server ex_now ex_unwrap) (sv_policy ex_server) (Has (sv_used ex_server)) of
      Ret d \<Rightarrow> d_UnwrapFrom d = Some [''bb''] \<and> d_Allow d | Panic \<Rightarrow> False)" by code_simp
  have "(case authorize ex_externals WriteOk ex_now ex_unwrap ex_server (fst ex_start) of Panic \<Rightarrow> False
    | Ret (s1, disk1, req1, v) \<Rightarrow> v = Granted \<and> snd (AuthorizeResult ex_externals ex_now ex_unwrap ''seal'' s1) = Granted)" by code_simp
  then obtain s1 disk1 req1 s2 where a: "authorize ex_externals WriteOk ex_now ex_unwrap ex_server (fst ex_start) = Ret (s1, disk1, req1, Granted)"
    "AuthorizeResult ex_externals ex_now ex_unwrap ''seal'' s1 = (s2, Granted)"
    by (auto split: go.splits prod.splits simp: prod_eq_iff)
  obtain d where "Evaluate ex_externals (eval_request ex_server ex_now ex_unwrap) (sv_policy ex_server) (Has (sv_used ex_server)) = Ret d"
    "d_UnwrapFrom d = Some [''bb'']" "d_Allow d" using e by (auto split: go.splits)
  from unwrap_releases_listed_seals[OF a(1) this a(2)] a show ?thesis by blast
qed

section \<open>Rates\<close>

text \<open>
  C8. The rate limit: however \<open>Allow\<close> is called, in a window of time from \<open>a\<close> to \<open>T\<close> a rule limited to N per period
  lets through at most N calls and N more per period of the window, up to the rounding of the float64 tokens,
  at most \<open>7 * 2^-53 * N\<close> per call.
\<close>

theorem Limiter_rate_bound:
  assumes "wf_limiter l" "rate_N r \<le> 2 ^ 53" "wf_rate r" "a \<le> T" "sorted (map (\<lambda>(n, q, t). t) calls)"
    "\<forall>(n, q, t) \<in> set calls. a \<le> t \<and> t \<le> T \<and> wf_rate q \<and> (n = rule \<longrightarrow> q = r)"
  shows "of_nat (allowed rule l calls)
    \<le> of_int (rate_N r) + of_int (rate_N r * (T - a)) / of_int (rate_Per r) + of_nat (length calls) * (7 / 2 ^ 53 * of_int (rate_N r) :: rat)"
  using allowed_window[OF assms] by (simp add: call_error_def)

theorem Limiter_rate_bound_witness:
  "of_nat (allowed ''r'' NewLimiter (replicate 4 (''r'', \<lparr>rate_N = 2, rate_Per = minute\<rparr>, ex_now))) \<le> 2 + (4 * (7 / 2 ^ 53 * 2) :: rat)"
proof -
  let ?calls = "replicate 4 (''r'', \<lparr>rate_N = 2, rate_Per = minute\<rparr>, ex_now)"
  have r: "wf_rate \<lparr>rate_N = 2, rate_Per = minute\<rparr>" by (simp add: wf_rate_def)
  have s: "sorted (map (\<lambda>(n, q, t). t) ?calls)" by (simp add: sorted_replicate)
  have c: "\<forall>(n, q, t) \<in> set ?calls. ex_now \<le> t \<and> t \<le> ex_now \<and> wf_rate q \<and> (n = ''r'' \<longrightarrow> q = \<lparr>rate_N = 2, rate_Per = minute\<rparr>)"
    using r by auto
  show ?thesis using Limiter_rate_bound[OF wf_limiter_new _ r order_refl s c] by simp
qed

text \<open>
  The rate limit does not starve: of calls at one instant a rule seen for the first time, or one whose bucket was idle
  for a whole period, lets through exactly the first N.
\<close>

theorem Limiter_burst:
  assumes "wf_limiter l" "wf_rate r" "rate_N r * rate_Per r \<le> 2 ^ 53"
    "\<forall>b. l rule = Some b \<longrightarrow> bk_rate b \<noteq> r \<or> rate_Per r \<le> now - bk_last b"
  shows "allow_times k l rule r now = map (\<lambda>i. int i < rate_N r) [0..<k]"
  using allow_times_full[OF assms] .

theorem Limiter_burst_witness:
  "allow_times 3 NewLimiter ''r'' \<lparr>rate_N = 2, rate_Per = minute\<rparr> ex_now = [True, True, False]"
proof -
  have "allow_times 3 NewLimiter ''r'' \<lparr>rate_N = 2, rate_Per = minute\<rparr> ex_now = map (\<lambda>i. int i < 2) [0..<3]"
    using Limiter_burst[of NewLimiter "\<lparr>rate_N = 2, rate_Per = minute\<rparr>" "''r''" ex_now 3] by (simp add: wf_rate_def NewLimiter_def wf_limiter_def)
  then show ?thesis by (simp add: upt_rec)
qed

section \<open>The record of consumed attestations\<close>

text \<open>
  What \<open>Add\<close> records survives a restart: when it returns no error, opening the file again finds every entry it was given
  that is not past the retention, and every entry the set had before.
\<close>

theorem used_ids_survive_restart:
  assumes "backed disk u" "Add w disk u es = (disk', u', None)" "\<forall>e \<in> set es. ue_ID e \<noteq> [] \<and> in_int64 (ue_CreatedAt e) \<and> map_of (us_ids u) (ue_ID e) = None"
    "OpenUsedSet fault disk' now = (disk'', Inr u'')" "map_of (us_ids u') k = Some c" "time_unix (time_add now (- usedRetention)) \<le> c"
  shows "Has u'' k"
proof -
  have "whole_write w \<or> es = []" using assms(1,2) by (auto simp: Add_def Let_def backed_def whole_write_def split: if_splits write_outcome.splits)
  then have "backed disk' u'"
    using Add_backed[OF assms(2,1) _ assms(3)] Add_backed[of WriteOk disk u "[]" disk' u' None] assms(1,2) by (auto simp: Add_def whole_write_def)
  then obtain data where d: "disk' = Some data" "map_of (load_ids data) k = Some c"
    using assms(5) unfolding backed_def map_le_def by (metis domI)
  show ?thesis using OpenUsedSet_backed(2)[OF assms(4) d assms(6)] by (simp add: Has_def)
qed

theorem used_ids_survive_restart_witness:
  "\<exists>disk u disk' u' disk'' u''. OpenUsedSet NoFault None ex_now = (disk, Inr u) \<and> Add WriteOk disk u [\<lparr>ue_ID = ''id'', ue_CreatedAt = 5\<rparr>] = (disk', u', None)
    \<and> OpenUsedSet NoFault disk' ex_now = (disk'', Inr u'') \<and> Has u'' ''id''"
proof -
  let ?e = "\<lparr>ue_ID = ''id'', ue_CreatedAt = 5\<rparr>"
  have o: "OpenUsedSet NoFault None ex_now = (Some [], Inr \<lparr>us_ids = [], us_f = True\<rparr>)" by (simp add: OpenUsedSet_def Let_def used_lines_def)
  have a: "Add WriteOk (Some []) \<lparr>us_ids = [], us_f = True\<rparr> [?e] = (Some (used_line ?e @ [newline]), \<lparr>us_ids = [(''id'', 5)], us_f = True\<rparr>, None)"
    by (simp add: Add_def append_file_def add_ids_def)
  have "length (used_line ?e) = 26" by code_simp
  then have "\<not> scan_too_long (used_line ?e @ [newline])" using used_line_no_newline by (simp add: scan_too_long_def split_app)
  then obtain disk'' u'' where r: "OpenUsedSet NoFault (Some (used_line ?e @ [newline])) ex_now = (disk'', Inr u'')"
    by (simp add: OpenUsedSet_def Let_def)
  have t: "time_unix (time_add ex_now (- usedRetention)) \<le> 5" by code_simp
  show ?thesis
    using used_ids_survive_restart[OF OpenUsedSet_backed(1)[OF o] a _ r, of "''id''" 5] o a r t by (auto simp: in_int64_def min_int64_def max_int64_def)
qed

section \<open>Reloading\<close>

text \<open>
  A reload is all or nothing and the watcher comes to rest: a failed reload keeps the active policy; a successful one
  makes the policy the files hold active, and while those files stay as they are the watcher's ticks change nothing.
\<close>

theorem Reload_then_quiet:
  assumes "Reload X yaml fs now s = (s', err)" "fresh_decode yaml"
  shows "if err = None then LoadPolicy X yaml fs (cfg_PolicyPath (sv_cfg s)) (cfg_LoadOptions (sv_cfg s)) = Inr (sv_policy s')
           \<and> Watch_tick X yaml fs fs2 now2 (s', failed) = (s', failed)
         else s' = s"
proof (cases err)
  case None
  then have l: "LoadPolicy X yaml fs (cfg_PolicyPath (sv_cfg s)) (cfg_LoadOptions (sv_cfg s)) = Inr (sv_policy s')"
    using assms(1) by (auto simp: Reload_def split: sum.splits option.splits)
  have "hashFiles X fs (pol_Files (sv_policy s')) = Policy_snapshot (sv_policy s')" by (rule LoadPolicy_snapshot[OF l assms(2)])
  then show ?thesis using None l by (simp add: Watch_tick_def Let_def)
next
  case (Some e)
  then show ?thesis using assms(1) by (auto simp: Reload_def split: sum.splits option.splits)
qed

theorem Reload_then_quiet_witness:
  "\<exists>s'. Reload ex_externals ex_yaml ex_fs ex_now ex_server = (s', None) \<and> Watch_tick ex_externals ex_yaml ex_fs ex_fs ex_now (s', []) = (s', [])"
proof -
  have "snd (Reload ex_externals ex_yaml ex_fs ex_now ex_server) = None" by code_simp
  then obtain s' where r: "Reload ex_externals ex_yaml ex_fs ex_now ex_server = (s', None)" by (auto simp: prod_eq_iff)
  show ?thesis using Reload_then_quiet[OF r ex_yaml_fresh] r by auto
qed

end
