(* ===== verification/Bunker_Store.thy ===== *)
theory Bunker_Store
  imports Nostr Decision_List "HOL-Library.AList"
begin

text \<open>
  The bunker's remembered permissions (\<open>cli/bunker/policy.go\<close>): grants, the sessions of paired apps and
  the store. The map of sessions is an association list, whose order is the order a loop over the map visits;
  \<open>sessions.yaml\<close> is its text, written by \<open>yaml.Marshal\<close> and read by \<open>yaml.UnmarshalStrict\<close>, which are
  parameters. An operation that saves is told whether the disk takes the file.
\<close>

section \<open>Grants\<close>

datatype Verdict = Ask | Allow | Deny

definition Decision_String :: "Verdict \<Rightarrow> string" where
  "Decision_String d = (case d of Allow \<Rightarrow> ''allow'' | Deny \<Rightarrow> ''deny'' | Ask \<Rightarrow> ''ask'')"

definition sensitiveKinds :: "int set" where
  "sensitiveKinds = {0, 3, 5}"

record Grant =
  g_Method :: string
  g_Verdict :: Verdict
  g_Kind :: "int option"
  g_ExpiresAt :: "gtime option"
  g_RemainingUses :: "int option"
  g_CreatedAt :: gtime

definition expired :: "Grant \<Rightarrow> gtime \<Rightarrow> bool" where
  "expired g now = (case g_ExpiresAt g of None \<Rightarrow> False | Some e \<Rightarrow> \<not> now < e)"

definition Grant_matches :: "Grant \<Rightarrow> string \<Rightarrow> int \<Rightarrow> bool \<Rightarrow> bool" where
  "Grant_matches g method kind exactOnly =
     (if g_Method g \<noteq> method then False
      else (case g_Kind g of
          Some k \<Rightarrow>
            if k \<noteq> kind then False
            else if g_Verdict g = Allow \<and> method = MethodSignEvent \<and> kind \<in> sensitiveKinds then False
            else True
        | None \<Rightarrow>
            if exactOnly then False
            else if method = MethodSignEvent \<and> kind \<in> sensitiveKinds then False
            else True))"

fun indexOfMatch :: "Grant list \<Rightarrow> string \<Rightarrow> int \<Rightarrow> bool \<Rightarrow> nat option" where
  "indexOfMatch [] method kind exactOnly = None"
| "indexOfMatch (g # gs) method kind exactOnly =
     (if Grant_matches g method kind exactOnly then Some 0 else map_option Suc (indexOfMatch gs method kind exactOnly))"

definition sameScope :: "Grant \<Rightarrow> Grant \<Rightarrow> bool" where
  "sameScope a b =
     (if g_Method a \<noteq> g_Method b then False
      else if (g_Kind a = None) \<noteq> (g_Kind b = None) then False
      else g_Kind a = None \<or> g_Kind a = g_Kind b)"

text \<open>The constructors.\<close>

definition newGrant :: "string \<Rightarrow> Verdict \<Rightarrow> int option \<Rightarrow> gtime \<Rightarrow> Grant" where
  "newGrant method verdict kind now = \<lparr>g_Method = method, g_Verdict = verdict, g_Kind = kind, g_ExpiresAt = None,
     g_RemainingUses = None, g_CreatedAt = now\<rparr>"

definition GrantForDuration :: "string \<Rightarrow> int option \<Rightarrow> duration \<Rightarrow> gtime \<Rightarrow> Grant" where
  "GrantForDuration method kind dur now = (newGrant method Allow kind now)\<lparr>g_ExpiresAt := Some (time_add now dur)\<rparr>"

definition GrantForUses :: "string \<Rightarrow> int option \<Rightarrow> int \<Rightarrow> gtime \<Rightarrow> Grant" where
  "GrantForUses method kind uses now = (newGrant method Allow kind now)\<lparr>g_RemainingUses := Some uses\<rparr>"

definition GrantForever :: "string \<Rightarrow> int option \<Rightarrow> gtime \<Rightarrow> Grant" where
  "GrantForever method kind now = newGrant method Allow kind now"

definition DenyAlways :: "string \<Rightarrow> gtime \<Rightarrow> Grant" where
  "DenyAlways method now = newGrant method Deny None now"

section \<open>The store\<close>

record Session =
  s_Pubkey :: string
  s_AppName :: string
  s_AppURL :: string
  s_Nickname :: string
  s_PairedAt :: gtime
  s_Grants :: "Grant list"

record Store =
  byPub :: "(string \<times> Session) list"
  store_file :: "string option"

text \<open>\<open>marshal\<close> is \<open>yaml.Marshal\<close>; \<open>ok\<close> is whether the directory and the file could be written.\<close>

record store_io =
  io_marshal :: "Session list \<Rightarrow> string"
  io_unmarshal :: "string \<Rightarrow> goerr + Session list"
  io_ok :: bool

definition saveLocked :: "store_io \<Rightarrow> Store \<Rightarrow> Store \<times> goerr option" where
  "saveLocked io s =
     (if io_ok io then (s\<lparr>store_file := Some (io_marshal io (map snd (byPub s)))\<rparr>, None)
      else (s, Some (Err ''write sessions'' [])))"

definition LoadStore :: "store_io \<Rightarrow> string option \<Rightarrow> goerr + Store" where
  "LoadStore io file = (case file of
     None \<Rightarrow> Inr \<lparr>byPub = [], store_file = None\<rparr>
   | Some data \<Rightarrow> (case io_unmarshal io data of
        Inl e \<Rightarrow> Inl (Wrap ''failed to parse %s'' [] e)
      | Inr ss \<Rightarrow> Inr \<lparr>byPub = fold (\<lambda>sess m. AList.update (s_Pubkey sess) sess m) ss [], store_file = Some data\<rparr>))"

definition pruneSession :: "Session \<Rightarrow> gtime \<Rightarrow> Session \<times> bool" where
  "pruneSession sess now =
     (sess\<lparr>s_Grants := filter (\<lambda>g. \<not> expired g now) (s_Grants sess)\<rparr>, \<exists>g \<in> set (s_Grants sess). expired g now)"

definition put_session :: "Store \<Rightarrow> Session \<Rightarrow> string \<Rightarrow> Store" where
  "put_session s sess pubkey = s\<lparr>byPub := AList.update pubkey sess (byPub s)\<rparr>"

definition resolveGrant :: "store_io \<Rightarrow> Store \<Rightarrow> string \<Rightarrow> Session \<Rightarrow> nat \<Rightarrow> Store \<times> Verdict" where
  "resolveGrant io s pubkey sess idx =
     (let g = s_Grants sess ! idx; verdict = g_Verdict g in
      case g_RemainingUses g of
        None \<Rightarrow> (put_session s sess pubkey, verdict)
      | Some n \<Rightarrow>
          let remaining = n - 1;
              grants = (if remaining \<le> 0 then remove_at idx (s_Grants sess)
                        else (s_Grants sess)[idx := g\<lparr>g_RemainingUses := Some remaining\<rparr>])
          in (fst (saveLocked io (put_session s (sess\<lparr>s_Grants := grants\<rparr>) pubkey)), verdict))"

definition Decide :: "store_io \<Rightarrow> gtime \<Rightarrow> Store \<Rightarrow> string \<Rightarrow> string \<Rightarrow> int \<Rightarrow> Store \<times> Verdict" where
  "Decide io now s pubkey method kind = (case map_of (byPub s) pubkey of
     None \<Rightarrow> (s, Ask)
   | Some sess0 \<Rightarrow>
      let sess = fst (pruneSession sess0 now) in
      (case indexOfMatch (s_Grants sess) method kind True of
         Some idx \<Rightarrow> resolveGrant io s pubkey sess idx
       | None \<Rightarrow> (case indexOfMatch (s_Grants sess) method kind False of
           Some idx \<Rightarrow> resolveGrant io s pubkey sess idx
         | None \<Rightarrow> (put_session s sess pubkey, Ask))))"

definition Prune :: "store_io \<Rightarrow> gtime \<Rightarrow> Store \<Rightarrow> Store" where
  "Prune io now s =
     (let s' = s\<lparr>byPub := map (\<lambda>(k, sess). (k, fst (pruneSession sess now))) (byPub s)\<rparr> in
      if \<exists>(k, sess) \<in> set (byPub s). snd (pruneSession sess now) then fst (saveLocked io s') else s')"

definition Store_Pair :: "store_io \<Rightarrow> gtime \<Rightarrow> Store \<Rightarrow> string \<Rightarrow> string \<Rightarrow> string \<Rightarrow> Store \<times> goerr option" where
  "Store_Pair io now s pubkey appName appURL =
     (if map_of (byPub s) pubkey \<noteq> None then (s, None)
      else saveLocked io (put_session s \<lparr>s_Pubkey = pubkey, s_AppName = appName, s_AppURL = appURL, s_Nickname = [],
             s_PairedAt = now, s_Grants = []\<rparr> pubkey))"

definition IsPaired :: "Store \<Rightarrow> string \<Rightarrow> bool" where
  "IsPaired s pubkey \<longleftrightarrow> map_of (byPub s) pubkey \<noteq> None"

text \<open>The loop that replaces the grant of the same scope, or appends.\<close>

fun replace_grant :: "Grant list \<Rightarrow> Grant \<Rightarrow> Grant list" where
  "replace_grant [] grant = [grant]"
| "replace_grant (g # gs) grant = (if sameScope g grant then grant # gs else g # replace_grant gs grant)"

definition Remember :: "store_io \<Rightarrow> gtime \<Rightarrow> Store \<Rightarrow> string \<Rightarrow> Grant \<Rightarrow> Store \<times> goerr option" where
  "Remember io now s pubkey grant =
     (let sess = (case map_of (byPub s) pubkey of
          Some x \<Rightarrow> x
        | None \<Rightarrow> \<lparr>s_Pubkey = pubkey, s_AppName = [], s_AppURL = [], s_Nickname = [], s_PairedAt = now, s_Grants = []\<rparr>)
      in saveLocked io (put_session s (sess\<lparr>s_Grants := replace_grant (s_Grants sess) grant\<rparr>) pubkey))"

definition Revoke :: "store_io \<Rightarrow> Store \<Rightarrow> string \<Rightarrow> Store \<times> bool \<times> goerr option" where
  "Revoke io s pubkey =
     (if map_of (byPub s) pubkey = None then (s, False, None)
      else (let (s', err) = saveLocked io (s\<lparr>byPub := AList.delete pubkey (byPub s)\<rparr>) in (s', True, err)))"

definition RevokeGrant :: "store_io \<Rightarrow> Store \<Rightarrow> string \<Rightarrow> string \<Rightarrow> int option \<Rightarrow> Store \<times> bool \<times> goerr option" where
  "RevokeGrant io s pubkey method kind = (case map_of (byPub s) pubkey of
     None \<Rightarrow> (s, False, None)
   | Some sess \<Rightarrow>
      (case index_of (\<lambda>g. sameScope g (newGrant method Ask kind 0)) (s_Grants sess) of
         None \<Rightarrow> (s, False, None)
       | Some i \<Rightarrow>
           (let (s', err) = saveLocked io (put_session s (sess\<lparr>s_Grants := remove_at i (s_Grants sess)\<rparr>) pubkey) in (s', True, err))))"

definition SetName :: "store_io \<Rightarrow> Store \<Rightarrow> string \<Rightarrow> string \<Rightarrow> Store \<times> bool \<times> goerr option" where
  "SetName io s pubkey name = (case map_of (byPub s) pubkey of
     None \<Rightarrow> (s, False, None)
   | Some sess \<Rightarrow>
      (let (s', err) = saveLocked io (put_session s (sess\<lparr>s_Nickname := name\<rparr>) pubkey) in (s', True, err)))"

definition Store_List :: "Store \<Rightarrow> Session list" where
  "Store_List s = map snd (byPub s)"

section \<open>Labels\<close>

definition shortHex :: "string \<Rightarrow> string" where
  "shortHex s = (if length s \<le> 8 then s else take 8 s)"

definition summarizeApp :: "Session \<Rightarrow> string" where
  "summarizeApp s =
     (if s_AppName s = [] then ''-''
      else if s_AppURL s = [] then s_AppName s
      else s_AppName s @ '' ('' @ s_AppURL s @ '')'')"

definition labelFor :: "Session \<Rightarrow> string" where
  "labelFor s =
     (if s_Nickname s \<noteq> [] then s_Nickname s
      else if summarizeApp s \<noteq> ''-'' then summarizeApp s
      else shortHex (s_Pubkey s))"

definition Store_Label :: "Store \<Rightarrow> string \<Rightarrow> string" where
  "Store_Label s pubkey = (case map_of (byPub s) pubkey of None \<Rightarrow> shortHex pubkey | Some sess \<Rightarrow> labelFor sess)"

end
