(* ===== verification/Bunker_Store_Safe.thy ===== *)
theory Bunker_Store_Safe
  imports Bunker_Store
begin

text \<open>
  Facts about the store: the search for a grant is a first-match search; a session's grants have
  distinct scopes, so they form a table from scopes to grants that the operations update and look up; and
  a budget is never overspent.
\<close>

section \<open>The search\<close>

lemma indexOfMatch_index_of: "indexOfMatch gs m k x = index_of (\<lambda>g. Grant_matches g m k x) gs"
  by (induction gs) auto

definition applies_to :: "string \<times> int \<times> bool \<Rightarrow> Grant \<Rightarrow> bool" where
  "applies_to rq g = (case rq of (m, k, x) \<Rightarrow> Grant_matches g m k x)"

definition search_grant :: "string \<times> int \<times> bool \<Rightarrow> Grant list \<Rightarrow> Grant option" where
  "search_grant rq gs = (case rq of (m, k, x) \<Rightarrow> map_option (nth gs) (indexOfMatch gs m k x))"

lemma index_of_find: "map_option (nth xs) (index_of P xs) = find P xs"
proof (induction xs)
  case (Cons x xs)
  have "map_option (nth (x # xs)) (map_option Suc (index_of P xs)) = map_option (nth xs) (index_of P xs)"
    by (simp add: option.map_comp comp_def)
  then show ?case using Cons by simp
qed simp

interpretation grants: decision_list applies_to search_grant "\<lambda>_ _. True"
proof
  show "search_grant rq gs = find (applies_to rq) gs" for rq gs
    by (cases rq) (simp add: search_grant_def applies_to_def[abs_def] indexOfMatch_index_of index_of_find)
qed simp

section \<open>Decide on the grants of a session\<close>

definition grants_of :: "Store \<Rightarrow> string \<Rightarrow> Grant list" where
  "grants_of s pk = (case map_of (byPub s) pk of None \<Rightarrow> [] | Some sess \<Rightarrow> s_Grants sess)"

definition live :: "gtime \<Rightarrow> Grant list \<Rightarrow> Grant list" where
  "live now gs = filter (\<lambda>g. \<not> expired g now) gs"

definition pick :: "Grant list \<Rightarrow> string \<Rightarrow> int \<Rightarrow> nat option" where
  "pick gs m k = (case indexOfMatch gs m k True of Some i \<Rightarrow> Some i | None \<Rightarrow> indexOfMatch gs m k False)"

definition spend :: "Grant list \<Rightarrow> nat \<Rightarrow> Grant list" where
  "spend gs i = (case g_RemainingUses (gs ! i) of
     None \<Rightarrow> gs
   | Some n \<Rightarrow> if n - 1 \<le> 0 then remove_at i gs else gs[i := (gs ! i)\<lparr>g_RemainingUses := Some (n - 1)\<rparr>])"

lemma saveLocked_byPub [simp]: "byPub (fst (saveLocked io s)) = byPub s"
  by (simp add: saveLocked_def)

lemma grants_of_put: "grants_of (put_session s sess pk) pk' = (if pk' = pk then s_Grants sess else grants_of s pk')"
  by (simp add: grants_of_def put_session_def update_conv')

lemma grants_of_save [simp]: "grants_of (fst (saveLocked io s)) = grants_of s"
  by (simp add: grants_of_def fun_eq_iff)

lemma resolveGrant_eq:
  "snd (resolveGrant io s pk sess i) = g_Verdict (s_Grants sess ! i)"
  "grants_of (fst (resolveGrant io s pk sess i)) pk' = (if pk' = pk then spend (s_Grants sess) i else grants_of s pk')"
  by (auto simp: resolveGrant_def Let_def spend_def grants_of_put split: option.splits)

lemma Decide_verdict:
  "snd (Decide io now s pk m k) = (case pick (live now (grants_of s pk)) m k of
     None \<Rightarrow> Ask | Some i \<Rightarrow> g_Verdict (live now (grants_of s pk) ! i))"
  by (auto simp: Decide_def grants_of_def pruneSession_def live_def[symmetric] pick_def resolveGrant_eq Let_def split: option.splits)
    (simp_all add: live_def)

lemma Decide_grants:
  "grants_of (fst (Decide io now s pk m k)) pk' =
     (if pk' \<noteq> pk then grants_of s pk'
      else case pick (live now (grants_of s pk)) m k of None \<Rightarrow> live now (grants_of s pk) | Some i \<Rightarrow> spend (live now (grants_of s pk)) i)"
proof (cases "map_of (byPub s) pk")
  case None
  then have "grants_of s pk = []" by (simp add: grants_of_def)
  then show ?thesis using None by (simp add: Decide_def live_def pick_def)
next
  case (Some sess)
  have "grants_of s pk = s_Grants sess" using Some by (simp add: grants_of_def)
  then show ?thesis using Some
    by (auto simp: Decide_def pruneSession_def live_def[symmetric] pick_def resolveGrant_eq grants_of_put Let_def split: option.splits)
qed

lemma pick_SomeD:
  assumes "pick gs m k = Some i"
  shows "i < length gs" "Grant_matches (gs ! i) m k True \<or> Grant_matches (gs ! i) m k False" "g_Method (gs ! i) = m"
proof -
  show "i < length gs" "Grant_matches (gs ! i) m k True \<or> Grant_matches (gs ! i) m k False"
    using assms by (auto simp: pick_def indexOfMatch_index_of index_of_Some split: option.splits)
  then show "g_Method (gs ! i) = m" by (auto simp: Grant_matches_def split: if_splits)
qed

text \<open>The sensitive kinds are never allowed by a grant.\<close>

lemma matches_not_sensitive:
  "Grant_matches g MethodSignEvent k x \<Longrightarrow> g_Verdict g = Allow \<Longrightarrow> k \<notin> sensitiveKinds"
  by (auto simp: Grant_matches_def split: if_splits option.splits)

section \<open>Scopes and the table of grants\<close>

definition scope :: "Grant \<Rightarrow> string \<times> int option" where
  "scope g = (g_Method g, g_Kind g)"

lemma sameScope_iff: "sameScope a b \<longleftrightarrow> scope a = scope b"
  by (auto simp: sameScope_def scope_def)

definition wf_grants :: "Grant list \<Rightarrow> bool" where
  "wf_grants gs \<longleftrightarrow> distinct (map scope gs)"

text \<open>A store: one session per key, whose pubkey is that key, and grants of distinct scopes.\<close>

definition wf_store :: "Store \<Rightarrow> bool" where
  "wf_store s \<longleftrightarrow> distinct (map fst (byPub s)) \<and> (\<forall>(k, sess) \<in> set (byPub s). s_Pubkey sess = k \<and> wf_grants (s_Grants sess))"

definition table :: "Grant list \<Rightarrow> string \<times> int option \<rightharpoonup> Grant" where
  "table gs = map_of (map (\<lambda>g. (scope g, g)) gs)"

lemma wf_grants_simps [simp]: "wf_grants []" "wf_grants (g # gs) \<longleftrightarrow> scope g \<notin> scope ` set gs \<and> wf_grants gs"
  by (simp_all add: wf_grants_def)

lemma table_Some: "wf_grants gs \<Longrightarrow> table gs sc = Some g \<longleftrightarrow> g \<in> set gs \<and> scope g = sc"
  by (auto simp: table_def wf_grants_def map_of_eq_Some_iff comp_def)

lemma table_None: "table gs sc = None \<longleftrightarrow> sc \<notin> scope ` set gs"
  by (auto simp: table_def map_of_eq_None_iff image_iff)

lemma wf_grants_live: "wf_grants gs \<Longrightarrow> wf_grants (live now gs)"
  by (simp add: wf_grants_def live_def distinct_map_filter)

lemma wf_grants_spend: "wf_grants gs \<Longrightarrow> i < length gs \<Longrightarrow> wf_grants (spend gs i)"
proof -
  assume w: "wf_grants gs" "i < length gs"
  have "map scope (gs[i := (gs ! i)\<lparr>g_RemainingUses := u\<rparr>]) = map scope gs" for u
    using w(2) by (simp add: map_update scope_def list_update_same_conv)
  then show ?thesis using w distinct_remove_at[of scope gs i] by (auto simp: wf_grants_def spend_def split: option.splits)
qed

lemma replace_grant_table:
  assumes "wf_grants gs"
  shows "wf_grants (replace_grant gs g)" "table (replace_grant gs g) = (table gs)(scope g \<mapsto> g)"
proof -
  have s: "scope ` set (replace_grant gs g) = insert (scope g) (scope ` set gs)"
    by (induction gs) (auto simp: sameScope_iff)
  show "wf_grants (replace_grant gs g)" using assms
  proof (induction gs)
    case (Cons h gs)
    have "scope ` set (replace_grant gs g) = insert (scope g) (scope ` set gs)"
      by (induction gs) (auto simp: sameScope_iff)
    then show ?case using Cons by (auto simp: sameScope_iff)
  qed simp
  show "table (replace_grant gs g) = (table gs)(scope g \<mapsto> g)" using assms
    by (induction gs) (auto simp: table_def sameScope_iff fun_upd_twist)
qed

lemma index_of_scope: "index_of (\<lambda>g. sameScope g h) gs = None \<longleftrightarrow> table gs (scope h) = None"
  unfolding index_of_None sameScope_iff table_None by (metis imageE image_eqI)

lemma remove_at_table:
  assumes "wf_grants gs" "i < length gs"
  shows "wf_grants (remove_at i gs)" "table (remove_at i gs) = (table gs)(scope (gs ! i) := None)"
proof -
  show w: "wf_grants (remove_at i gs)" using assms distinct_remove_at by (simp add: wf_grants_def)
  have gs: "gs = take i gs @ gs ! i # drop (Suc i) gs" using assms(2) by (simp add: id_take_nth_drop)
  then have "wf_grants (take i gs @ gs ! i # drop (Suc i) gs)" using assms(1) by simp
  then have nin: "scope (gs ! i) \<notin> scope ` set (remove_at i gs)" by (auto simp: wf_grants_def remove_at_def)
  have st: "set gs = insert (gs ! i) (set (remove_at i gs))" by (subst gs) (auto simp: remove_at_def)
  show "table (remove_at i gs) = (table gs)(scope (gs ! i) := None)"
  proof (rule ext)
    fix sc
    show "table (remove_at i gs) sc = ((table gs)(scope (gs ! i) := None)) sc"
    proof (cases "sc = scope (gs ! i)")
      case True
      then show ?thesis using nin by (simp add: table_None)
    next
      case False
      then have "table (remove_at i gs) sc = Some g \<longleftrightarrow> table gs sc = Some g" for g
        using table_Some[OF w] table_Some[OF assms(1)] st by auto
      then have "table (remove_at i gs) sc = table gs sc" by (metis option.exhaust)
      then show ?thesis using False by simp
    qed
  qed
qed

text \<open>
  The specification of \<open>Decide\<close> on the table of grants: the live grant of the exact scope decides, if it covers the request,
  else the one of the method's any-kind scope; expired grants disappear and the deciding grant loses a use.
\<close>

definition covers :: "gtime \<Rightarrow> string \<Rightarrow> int \<Rightarrow> Grant option \<Rightarrow> bool" where
  "covers now m k go = (case go of None \<Rightarrow> False | Some g \<Rightarrow> \<not> expired g now \<and> Grant_matches g m k False)"

definition spec_grant :: "gtime \<Rightarrow> (string \<times> int option \<rightharpoonup> Grant) \<Rightarrow> string \<Rightarrow> int \<Rightarrow> Grant option" where
  "spec_grant now T m k =
     (if covers now m k (T (m, Some k)) then T (m, Some k) else if covers now m k (T (m, None)) then T (m, None) else None)"

definition spec_decide :: "gtime \<Rightarrow> (string \<times> int option \<rightharpoonup> Grant) \<Rightarrow> string \<Rightarrow> int \<Rightarrow> Verdict" where
  "spec_decide now T m k = (case spec_grant now T m k of None \<Rightarrow> Ask | Some g \<Rightarrow> g_Verdict g)"

definition spec_live :: "gtime \<Rightarrow> (string \<times> int option \<rightharpoonup> Grant) \<Rightarrow> (string \<times> int option \<rightharpoonup> Grant)" where
  "spec_live now T = (\<lambda>sc. case T sc of None \<Rightarrow> None | Some g \<Rightarrow> if expired g now then None else Some g)"

definition spec_spend :: "Grant \<Rightarrow> (string \<times> int option \<rightharpoonup> Grant) \<Rightarrow> (string \<times> int option \<rightharpoonup> Grant)" where
  "spec_spend g T = (case g_RemainingUses g of
     None \<Rightarrow> T
   | Some n \<Rightarrow> T(scope g := (if n - 1 \<le> 0 then None else Some (g\<lparr>g_RemainingUses := Some (n - 1)\<rparr>))))"

definition spec_after :: "gtime \<Rightarrow> (string \<times> int option \<rightharpoonup> Grant) \<Rightarrow> string \<Rightarrow> int \<Rightarrow> (string \<times> int option \<rightharpoonup> Grant)" where
  "spec_after now T m k = (case spec_grant now T m k of None \<Rightarrow> spec_live now T | Some g \<Rightarrow> spec_spend g (spec_live now T))"

lemma matches_exact_scope: "Grant_matches g m k True \<longleftrightarrow> scope g = (m, Some k) \<and> Grant_matches g m k False"
  by (auto simp: Grant_matches_def scope_def split: option.splits)

lemma matches_scope: "Grant_matches g m k False \<Longrightarrow> scope g = (m, Some k) \<or> scope g = (m, None)"
  by (auto simp: Grant_matches_def scope_def split: option.splits if_splits)

lemma live_iff: "g \<in> set (live now gs) \<longleftrightarrow> g \<in> set gs \<and> \<not> expired g now"
  by (auto simp: live_def)

lemma covers_table:
  "wf_grants gs \<Longrightarrow> covers now m k (table gs sc) \<longleftrightarrow> (\<exists>g \<in> set (live now gs). scope g = sc \<and> Grant_matches g m k False)"
proof -
  assume "wf_grants gs"
  have "covers now m k (table gs sc) \<longleftrightarrow> (\<exists>g. table gs sc = Some g \<and> \<not> expired g now \<and> Grant_matches g m k False)"
    by (simp add: covers_def split: option.split)
  then show ?thesis using table_Some[OF \<open>wf_grants gs\<close>] live_iff by blast
qed

lemma search_table:
  assumes "wf_grants gs" "indexOfMatch (live now gs) m k x = Some i" "x \<or> indexOfMatch (live now gs) m k True = None"
  shows "covers now m k (table gs (m, if x then Some k else None))" "table gs (m, if x then Some k else None) = Some (live now gs ! i)"
proof -
  have g: "live now gs ! i \<in> set (live now gs)" "Grant_matches (live now gs ! i) m k x"
    using assms(2) by (auto simp: indexOfMatch_index_of index_of_Some)
  have "scope (live now gs ! i) = (m, if x then Some k else None)"
  proof (cases x)
    case False
    then have "\<not> Grant_matches (live now gs ! i) m k True" using assms(3) g(1) by (simp add: indexOfMatch_index_of index_of_None)
    then show ?thesis using False g(2) matches_exact_scope matches_scope[of "live now gs ! i" m k] by auto
  qed (use g(2) matches_exact_scope in auto)
  moreover have "Grant_matches (live now gs ! i) m k False" using g(2) matches_exact_scope by (cases x) auto
  ultimately show "covers now m k (table gs (m, if x then Some k else None))" "table gs (m, if x then Some k else None) = Some (live now gs ! i)"
    using g(1) covers_table[OF assms(1)] table_Some[OF assms(1)] live_iff by blast+
qed

lemma pick_spec:
  assumes "wf_grants gs"
  shows "map_option (nth (live now gs)) (pick (live now gs) m k) = spec_grant now (table gs) m k"
proof (cases "indexOfMatch (live now gs) m k True")
  case (Some i)
  then show ?thesis using search_table[OF assms Some] by (simp add: pick_def spec_grant_def)
next
  case None
  then have e: "\<not> covers now m k (table gs (m, Some k))"
    using covers_table[OF assms] matches_exact_scope by (auto simp: indexOfMatch_index_of index_of_None)
  show ?thesis
  proof (cases "indexOfMatch (live now gs) m k False")
    case (Some i)
    then show ?thesis using search_table[OF assms Some] None e by (simp add: pick_def spec_grant_def)
  next
    case none: None
    then have "\<not> covers now m k (table gs (m, None))"
      using covers_table[OF assms] by (auto simp: indexOfMatch_index_of index_of_None)
    then show ?thesis using None none e by (simp add: pick_def spec_grant_def)
  qed
qed

lemma table_live:
  assumes "wf_grants gs"
  shows "table (live now gs) = spec_live now (table gs)"
proof (rule ext)
  fix sc
  have "table (live now gs) sc = Some g \<longleftrightarrow> spec_live now (table gs) sc = Some g" for g
  proof -
    have "spec_live now (table gs) sc = Some g \<longleftrightarrow> table gs sc = Some g \<and> \<not> expired g now"
      by (auto simp: spec_live_def split: option.splits if_splits)
    then show ?thesis using table_Some[OF assms] table_Some[OF wf_grants_live[OF assms]] live_iff by blast
  qed
  then show "table (live now gs) sc = spec_live now (table gs) sc" by (metis option.exhaust)
qed

lemma table_update:
  assumes "wf_grants gs" "i < length gs" "scope h = scope (gs ! i)"
  shows "table (gs[i := h]) = (table gs)(scope h \<mapsto> h)"
proof (rule ext)
  fix sc
  have "map scope (gs[i := h]) = map scope gs" using assms(2,3) by (simp add: map_update list_update_same_conv)
  then have w: "wf_grants (gs[i := h])" using assms(1) by (simp add: wf_grants_def)
  have u: "g = gs ! i" if "g \<in> set gs" "scope g = scope (gs ! i)" for g
    using that assms(1,2) by (auto simp: wf_grants_def distinct_map inj_on_def)
  have "table (gs[i := h]) sc = Some g \<longleftrightarrow> ((table gs)(scope h \<mapsto> h)) sc = Some g" for g
  proof (cases "sc = scope h")
    case True
    have "h \<in> set (gs[i := h])" using assms(2) by (rule set_update_memI)
    then show ?thesis using True table_Some[OF w, of sc] by (metis fun_upd_same option.inject)
  next
    case False
    then have "g \<in> set (gs[i := h]) \<longleftrightarrow> g \<in> set gs" if "scope g = sc" for g
      using that assms(2,3) by (auto simp: in_set_conv_nth nth_list_update)
    then show ?thesis using False table_Some[OF w] table_Some[OF assms(1)] by auto
  qed
  then show "table (gs[i := h]) sc = ((table gs)(scope h \<mapsto> h)) sc" by (metis option.exhaust)
qed

lemma table_spend: "wf_grants gs \<Longrightarrow> i < length gs \<Longrightarrow> table (spend gs i) = spec_spend (gs ! i) (table gs)"
  using remove_at_table[of gs i] table_update[of gs i]
  by (auto simp: spend_def spec_spend_def scope_def split: option.split)

text \<open>What \<open>Decide\<close> does to the tables, and what it answers.\<close>

lemma Decide_table:
  assumes "wf_grants (grants_of s pk)"
  shows "snd (Decide io now s pk m k) = spec_decide now (table (grants_of s pk)) m k"
    "table (grants_of (fst (Decide io now s pk m k)) pk) = spec_after now (table (grants_of s pk)) m k"
proof -
  note p = pick_spec[OF assms, of now m k]
  show "snd (Decide io now s pk m k) = spec_decide now (table (grants_of s pk)) m k"
    unfolding Decide_verdict spec_decide_def p[symmetric] by (simp split: option.split)
  show "table (grants_of (fst (Decide io now s pk m k)) pk) = spec_after now (table (grants_of s pk)) m k"
    unfolding Decide_grants spec_after_def p[symmetric]
    using table_live[OF assms] table_spend[OF wf_grants_live[OF assms]] pick_SomeD(1) by (auto split: option.split)
qed

section \<open>The invariant is kept\<close>

lemma set_update_subset: "set (AList.update k v xs) \<subseteq> insert (k, v) (set xs)"
  by (induction xs) auto

lemma wf_store_put:
  assumes "wf_store s" "s_Pubkey sess = pk" "wf_grants (s_Grants sess)"
  shows "wf_store (put_session s sess pk)"
  using assms set_update_subset[of pk sess "byPub s"] by (auto simp: wf_store_def put_session_def distinct_update)

lemma wf_store_save [simp]: "wf_store (fst (saveLocked io s)) \<longleftrightarrow> wf_store s"
  by (simp add: wf_store_def)

lemma wf_storeD: "wf_store s \<Longrightarrow> map_of (byPub s) pk = Some sess \<Longrightarrow> s_Pubkey sess = pk \<and> wf_grants (s_Grants sess)"
  by (auto simp: wf_store_def dest!: map_of_SomeD)

lemma wf_store_grants: "wf_store s \<Longrightarrow> wf_grants (grants_of s pk)"
  using wf_storeD[of s pk] by (auto simp: grants_of_def split: option.splits)

lemma Decide_wf: "wf_store s \<Longrightarrow> wf_store (fst (Decide io now s pk m k))"
proof (cases "map_of (byPub s) pk")
  case None
  then show "wf_store s \<Longrightarrow> ?thesis" by (simp add: Decide_def)
next
  case (Some sess)
  assume w: "wf_store s"
  have l: "wf_grants (live now (s_Grants sess))" "s_Pubkey sess = pk" using wf_storeD[OF w Some] wf_grants_live by auto
  have r: "wf_store (fst (resolveGrant io s pk (sess\<lparr>s_Grants := live now (s_Grants sess)\<rparr>) i))" if "i < length (live now (s_Grants sess))" for i
    using that l w wf_grants_spend[OF l(1) that]
    by (auto simp: resolveGrant_def spend_def Let_def intro!: wf_store_put split: option.splits if_splits)
  have "i < length gs" if "indexOfMatch gs m k x = Some i" for gs x i
    using that by (auto simp: indexOfMatch_index_of index_of_Some)
  then show ?thesis using Some r w l
    by (auto simp: Decide_def pruneSession_def live_def[symmetric] Let_def intro!: wf_store_put split: option.splits)
qed

lemma Prune_wf: "wf_store s \<Longrightarrow> wf_store (Prune io now s)"
  using wf_grants_live
  by (auto simp: Prune_def wf_store_def pruneSession_def live_def[symmetric] Let_def comp_def case_prod_beta)

lemma Pair_wf: "wf_store s \<Longrightarrow> wf_store (fst (Store_Pair io now s pk name url))"
  by (auto simp: Store_Pair_def intro!: wf_store_put)

lemma Remember_wf: "wf_store s \<Longrightarrow> wf_store (fst (Remember io now s pk g))"
  using wf_storeD[of s pk] replace_grant_table(1)
  by (auto simp: Remember_def Let_def intro!: wf_store_put split: option.split)

lemma Revoke_wf: "wf_store s \<Longrightarrow> wf_store (fst (Revoke io s pk))"
proof -
  have "set (AList.delete pk xs) \<subseteq> set xs" for xs :: "(string \<times> Session) list" by (induction xs) auto
  then show "wf_store s \<Longrightarrow> wf_store (fst (Revoke io s pk))"
    by (auto simp: Revoke_def wf_store_def case_prod_beta distinct_delete)
qed

lemma RevokeGrant_wf:
  assumes "wf_store s"
  shows "wf_store (fst (RevokeGrant io s pk m k))"
proof -
  have "wf_store (fst (saveLocked io (put_session s (sess\<lparr>s_Grants := remove_at i (s_Grants sess)\<rparr>) pk)))"
    if "map_of (byPub s) pk = Some sess" "i < length (s_Grants sess)" for sess i
    using wf_storeD[OF assms that(1)] remove_at_table(1)[OF _ that(2)] assms by (auto intro!: wf_store_put)
  then show ?thesis using assms
    by (auto simp: RevokeGrant_def index_of_Some case_prod_beta split: option.splits)
qed

lemma SetName_wf: "wf_store s \<Longrightarrow> wf_store (fst (SetName io s pk name))"
  using wf_storeD[of s pk] by (auto simp: SetName_def case_prod_beta intro!: wf_store_put split: option.split)

lemma LoadStore_wf_keys:
  assumes "LoadStore io f0 = Inr s" "\<forall>data ss. io_unmarshal io data = Inr ss \<longrightarrow> (\<forall>sess \<in> set ss. wf_grants (s_Grants sess))"
  shows "wf_store s"
proof -
  have "wf_store \<lparr>byPub = fold (\<lambda>sess m. AList.update (s_Pubkey sess) sess m) ss m, store_file = f\<rparr>"
    if "\<forall>sess \<in> set ss. wf_grants (s_Grants sess)" "wf_store \<lparr>byPub = m, store_file = f\<rparr>" for ss m f
    using that
  proof (induction ss arbitrary: m)
    case (Cons sess ss)
    have "wf_store \<lparr>byPub = AList.update (s_Pubkey sess) sess m, store_file = f\<rparr>"
      using wf_store_put[of "\<lparr>byPub = m, store_file = f\<rparr>" sess "s_Pubkey sess"] Cons.prems by (simp add: put_session_def)
    then show ?case using Cons by simp
  qed simp
  note * = this
  show ?thesis
  proof (cases f0)
    case None
    then show ?thesis using assms(1) by (auto simp: LoadStore_def wf_store_def)
  next
    case (Some data)
    then obtain ss where "io_unmarshal io data = Inr ss"
      "s = \<lparr>byPub = fold (\<lambda>sess m. AList.update (s_Pubkey sess) sess m) ss [], store_file = Some data\<rparr>"
      using assms(1) by (auto simp: LoadStore_def split: sum.splits)
    then show ?thesis using *[of ss "[]"] assms(2) by (auto simp: wf_store_def)
  qed
qed

lemma Remember_grants:
  "grants_of (fst (Remember io now s pk g)) pk' = (if pk' = pk then replace_grant (grants_of s pk) g else grants_of s pk')"
  by (auto simp: Remember_def Let_def grants_of_put) (auto simp: grants_of_def split: option.split)

lemma RevokeGrant_table:
  assumes "wf_store s"
  shows "table (grants_of (fst (RevokeGrant io s pk m ko)) pk) = (table (grants_of s pk))((m, ko) := None)
    \<and> (fst (snd (RevokeGrant io s pk m ko)) \<longleftrightarrow> table (grants_of s pk) (m, ko) \<noteq> None)"
proof (cases "map_of (byPub s) pk")
  case None
  then show ?thesis by (auto simp: RevokeGrant_def grants_of_def table_def)
next
  case (Some sess)
  let ?gs = "s_Grants sess" and ?h = "newGrant m Ask ko 0"
  have w: "wf_grants ?gs" using wf_storeD[OF assms Some] by blast
  have g: "grants_of s pk = ?gs" using Some by (simp add: grants_of_def)
  have h: "scope ?h = (m, ko)" by (simp add: scope_def newGrant_def)
  show ?thesis
  proof (cases "index_of (\<lambda>g. sameScope g ?h) ?gs")
    case None
    then have "table ?gs (m, ko) = None" using index_of_scope h by metis
    then show ?thesis using None Some g by (auto simp: RevokeGrant_def)
  next
    case i: (Some i)
    then have l: "i < length ?gs" "scope (?gs ! i) = (m, ko)" using h by (auto simp: index_of_Some sameScope_iff)
    have "table ?gs (m, ko) \<noteq> None" using i index_of_scope h by (metis option.distinct(1))
    then show ?thesis
      using i Some g remove_at_table(2)[OF w l(1)] l(2) by (simp add: RevokeGrant_def case_prod_beta grants_of_put)
  qed
qed

section \<open>Budgets\<close>

text \<open>How many requests the limited Allow grants of a method cover; a grant with no uses left still covers one.\<close>

definition cost :: "string \<Rightarrow> Grant \<Rightarrow> nat" where
  "cost m g = (if g_Method g = m \<and> g_Verdict g = Allow then (case g_RemainingUses g of None \<Rightarrow> 0 | Some n \<Rightarrow> nat (max 1 n)) else 0)"

definition budget :: "string \<Rightarrow> Grant list \<Rightarrow> nat" where
  "budget m gs = sum_list (map (cost m) gs)"

definition limited :: "string \<Rightarrow> Grant list \<Rightarrow> bool" where
  "limited m gs \<longleftrightarrow> (\<forall>g \<in> set gs. g_Method g = m \<and> g_Verdict g = Allow \<longrightarrow> g_RemainingUses g \<noteq> None)"

lemma budget_remove_at: "i < length gs \<Longrightarrow> budget m (remove_at i gs) + cost m (gs ! i) = budget m gs"
  by (subst (3) id_take_nth_drop[of i gs]) (simp_all add: budget_def remove_at_def)

lemma budget_update: "i < length gs \<Longrightarrow> budget m (gs[i := g]) + cost m (gs ! i) = budget m gs + cost m g"
  by (subst (3) id_take_nth_drop[of i gs]) (simp_all add: budget_def upd_conv_take_nth_drop)

lemma budget_live: "budget m (live now gs) \<le> budget m gs"
  by (induction gs) (auto simp: budget_def live_def)

lemma limited_live: "limited m gs \<Longrightarrow> limited m (live now gs)"
  by (auto simp: limited_def live_def)

lemma limited_spend: "limited m gs \<Longrightarrow> limited m (spend gs i)"
proof -
  assume l: "limited m gs"
  have "set (gs[i := (gs ! i)\<lparr>g_RemainingUses := Some n\<rparr>]) \<subseteq> insert ((gs ! i)\<lparr>g_RemainingUses := Some n\<rparr>) (set gs)" for n
    by (rule set_update_subset_insert)
  then show ?thesis using l set_remove_at_subset[of i gs] by (fastforce simp: limited_def spend_def split: option.splits)
qed

lemma budget_spend:
  assumes "i < length gs" "limited m gs"
  shows "budget m (spend gs i) + (if g_Method (gs ! i) = m \<and> g_Verdict (gs ! i) = Allow then 1 else 0) \<le> budget m gs"
proof (cases "g_RemainingUses (gs ! i)")
  case None
  then show ?thesis using assms by (auto simp: limited_def spend_def)
next
  case (Some n)
  show ?thesis
  proof (cases "n - 1 \<le> 0")
    case True
    then show ?thesis using Some budget_remove_at[OF assms(1), of m] by (auto simp: spend_def cost_def)
  next
    case False
    let ?h = "(gs ! i)\<lparr>g_RemainingUses := Some (n - 1)\<rparr>"
    have "cost m ?h + (if g_Method (gs ! i) = m \<and> g_Verdict (gs ! i) = Allow then 1 else 0) \<le> cost m (gs ! i)"
      using Some False by (auto simp: cost_def)
    then show ?thesis using Some False budget_update[OF assms(1), of m ?h] by (simp add: spend_def)
  qed
qed

text \<open>How many of a sequence of requests, of any apps and methods, \<open>Decide\<close> allows for one app and method.\<close>

fun allowed_requests :: "store_io \<Rightarrow> Store \<Rightarrow> (gtime \<times> string \<times> string \<times> int) list \<Rightarrow> string \<Rightarrow> string \<Rightarrow> nat" where
  "allowed_requests io s [] pk m = 0"
| "allowed_requests io s ((now, p, q, k) # rest) pk m =
     (let (s', v) = Decide io now s p q k in
      (if p = pk \<and> q = m \<and> v = Allow then 1 else 0) + allowed_requests io s' rest pk m)"

lemma Decide_budget:
  assumes "limited m (grants_of s pk)"
  shows "limited m (grants_of (fst (Decide io now s p q k)) pk)"
    "budget m (grants_of (fst (Decide io now s p q k)) pk) + (if p = pk \<and> q = m \<and> snd (Decide io now s p q k) = Allow then 1 else 0)
       \<le> budget m (grants_of s pk)"
proof -
  let ?l = "live now (grants_of s pk)"
  have l: "limited m ?l" "budget m ?l \<le> budget m (grants_of s pk)" using assms limited_live budget_live by auto
  show "limited m (grants_of (fst (Decide io now s p q k)) pk)"
    using assms l limited_spend by (auto simp: Decide_grants split: option.splits)
  show "budget m (grants_of (fst (Decide io now s p q k)) pk) + (if p = pk \<and> q = m \<and> snd (Decide io now s p q k) = Allow then 1 else 0)
       \<le> budget m (grants_of s pk)"
  proof (cases "pick ?l q k")
    case None
    then show ?thesis using l by (auto simp: Decide_grants Decide_verdict)
  next
    case (Some i)
    have i: "i < length ?l" "g_Method (?l ! i) = q" using pick_SomeD[OF Some] by auto
    show ?thesis using Some l(2) budget_spend[OF i(1) l(1)] i(2) by (auto simp: Decide_grants Decide_verdict split: if_splits)
  qed
qed

lemma allowed_requests_budget: "limited m (grants_of s pk) \<Longrightarrow> allowed_requests io s reqs pk m \<le> budget m (grants_of s pk)"
proof (induction reqs arbitrary: s)
  case (Cons rq reqs)
  obtain now p q k where rq: "rq = (now, p, q, k)" by (cases rq)
  obtain s' v where d: "Decide io now s p q k = (s', v)" by (cases "Decide io now s p q k")
  have b: "limited m (grants_of s' pk)" "budget m (grants_of s' pk) + (if p = pk \<and> q = m \<and> v = Allow then 1 else 0) \<le> budget m (grants_of s pk)"
    using Decide_budget[OF Cons.prems, of io now p q k] unfolding d by auto
  then show ?case using Cons.IH[OF b(1)] d by (simp add: rq)
qed simp

section \<open>Saving and loading\<close>

text \<open>The only thing asked of the YAML codec: it reads back what it wrote.\<close>

definition codec_ok :: "store_io \<Rightarrow> bool" where
  "codec_ok io \<longleftrightarrow> (\<forall>ss. io_unmarshal io (io_marshal io ss) = Inr ss)"

lemma load_fold:
  assumes "wf_store \<lparr>byPub = xs, store_file = f\<rparr>"
  shows "fold (\<lambda>sess m. AList.update (s_Pubkey sess) sess m) (map snd xs) [] = xs"
proof -
  have "fold (\<lambda>sess m. AList.update (s_Pubkey sess) sess m) (map snd ys) zs = zs @ ys"
    if "distinct (map fst (zs @ ys))" "\<forall>(k, sess) \<in> set ys. s_Pubkey sess = k" for ys zs :: "(string \<times> Session) list"
    using that
  proof (induction ys arbitrary: zs)
    case (Cons y ys)
    obtain k sess where y: "y = (k, sess)" by (cases y)
    have "AList.update k sess zs = zs @ [y]"
      using Cons.prems(1) unfolding y by (induction zs) auto
    then show ?case using Cons.IH[of "zs @ [y]"] Cons.prems y by simp
  qed simp
  from this[of "[]" xs] show ?thesis using assms by (fastforce simp: wf_store_def)
qed

lemma save_load:
  assumes "wf_store s" "codec_ok io" "saveLocked io s = (s', None)"
  shows "LoadStore io (store_file s') = Inr s'"
  using assms load_fold[of "byPub s" None]
  by (auto simp: saveLocked_def LoadStore_def codec_ok_def wf_store_def split: if_splits)

end
