(* ===== verification/Client_Duration.thy ===== *)
theory Client_Duration
  imports Go_Time Float64
begin

text \<open>
  The duration syntax of ncli's YAML specs (\<open>parseDuration\<close> in \<open>client/spec.go\<close>): numbers, each followed by a
  unit, added up. Numbers are float64; a product that does not fit an int64 converts to the least int64, as it
  does on amd64.
\<close>

definition is_num :: "char \<Rightarrow> bool" where
  "is_num c \<longleftrightarrow> digit_of c \<noteq> None \<or> c = CHR ''.''"

text \<open>\<open>strconv.ParseFloat\<close> on a text of digits and dots.\<close>

definition ParseFloat :: "string \<Rightarrow> rat option" where
  "ParseFloat s =
     (let (a, b) = (case cut s CHR ''.'' of None \<Rightarrow> (s, []) | Some p \<Rightarrow> p) in
      if a @ b = [] then None
      else (case digits_value 0 (a @ b) of
          None \<Rightarrow> None
        | Some n \<Rightarrow> (let x = fl64 (of_nat n / 10 ^ length b) in if x < 2 ^ 1024 then Some x else None)))"

text \<open>The conversion of a float64 to an int64.\<close>

definition to_int64 :: "rat \<Rightarrow> int" where
  "to_int64 x = (let n = (if x \<ge> 0 then \<lfloor>x\<rfloor> else - \<lfloor>- x\<rfloor>) in if in_int64 n then n else min_int64)"

definition parseUnitDuration :: "rat \<Rightarrow> string \<Rightarrow> goerr + duration" where
  "parseUnitDuration number unit =
     (if unit = ''h'' then Inr (to_int64 (fl64 (number * of_int hour)))
      else if unit = ''mo'' then Inr (to_int64 (fl64 (fl64 (number * 720) * of_int hour)))
      else if unit = ''m'' then Inr (to_int64 (fl64 (number * of_int minute)))
      else if unit = ''s'' then Inr (to_int64 (fl64 (number * of_int second)))
      else if unit = ''d'' then Inr (to_int64 (fl64 (fl64 (number * 24) * of_int hour)))
      else if unit = ''w'' then Inr (to_int64 (fl64 (fl64 (number * 168) * of_int hour)))
      else Inl (Err ''invalid or unsupported time unit: %s'' [unit]))"

text \<open>The loop over the text: \<open>s\<close> is what follows \<open>lastIndex\<close>.\<close>

function parse_units :: "string \<Rightarrow> duration \<Rightarrow> goerr + duration" where
  "parse_units s acc =
     (if s = [] then Inr acc
      else
        let numberStr = takeWhile is_num s; rest = dropWhile is_num s;
            unit = takeWhile (\<lambda>c. \<not> is_num c) rest; rest' = dropWhile (\<lambda>c. \<not> is_num c) rest
        in if rest = [] then Inl (Err ''unprocessed data at the end: %s'' [s])
           else (case ParseFloat numberStr of
               None \<Rightarrow> Inl (Err ''invalid number: %s'' [numberStr])
             | Some number \<Rightarrow> (case parseUnitDuration number unit of
                 Inl e \<Rightarrow> Inl e
               | Inr d \<Rightarrow> parse_units rest' (wrap64 (acc + d)))))"
  by pat_completeness auto
termination
proof (relation "measure (length \<circ> fst)", goal_cases)
  case (2 s acc numberStr rest unit rest' number d)
  then obtain c r where r: "dropWhile is_num s = c # r" "\<not> is_num c"
    by (metis hd_dropWhile list.collapse)
  have "length (dropWhile (\<lambda>c. \<not> is_num c) (dropWhile is_num s)) \<le> length r"
    using r length_dropWhile_le[of "\<lambda>c. \<not> is_num c" r] by simp
  moreover have "length (c # r) \<le> length s" using length_dropWhile_le[of is_num s] r(1) by simp
  ultimately show ?case using 2 by simp
qed simp

declare parse_units.simps [simp del]

definition parseDuration :: "string \<Rightarrow> goerr + duration" where
  "parseDuration s0 =
     (let s = filter (\<lambda>c. c \<noteq> CHR '' '') s0;
          neg = has_prefix s ''-'';
          body = (if has_prefix s ''-'' \<or> has_prefix s ''+'' then drop 1 s else s)
      in case parse_units body 0 of
           Inl e \<Rightarrow> Inl e
         | Inr acc \<Rightarrow> Inr (to_int64 (fl64 (of_int acc) * (if neg then -1 else 1))))"

section \<open>Whole numbers of a unit\<close>

definition unit_value :: "string \<Rightarrow> duration option" where
  "unit_value u = (if u = ''h'' then Some hour else if u = ''mo'' then Some (720 * hour) else if u = ''m'' then Some minute
     else if u = ''s'' then Some second else if u = ''d'' then Some (24 * hour) else if u = ''w'' then Some (168 * hour) else None)"

lemma nat_text_is_num: "c \<in> set (nat_text n) \<Longrightarrow> is_num c \<and> c \<noteq> CHR ''.'' \<and> c \<noteq> CHR '' ''"
proof -
  assume "c \<in> set (nat_text n)"
  then obtain d where d: "d < 10" "c = digit_char d" using nat_text_digits by blast
  have "of_char c = 48 + d" using digit_char_ascii d by simp
  then have "c \<noteq> CHR ''.''" "c \<noteq> CHR '' ''" using d(1) by auto
  then show ?thesis using d by (simp add: is_num_def)
qed

lemma ParseFloat_nat:
  assumes "n \<le> 2 ^ 53"
  shows "ParseFloat (nat_text n) = Some (of_nat n)"
proof -
  have "CHR ''.'' \<notin> set (nat_text n)" using nat_text_is_num by blast
  then have "cut (nat_text n) CHR ''.'' = None" by (simp add: cut_None)
  moreover have "fl64 (of_nat n) = of_nat n" using fl64_int[of "int n"] assms by simp
  moreover have "(of_nat n :: rat) < 2 ^ 1024"
  proof -
    have "(of_nat n :: rat) \<le> 2 ^ 53" using assms by (metis of_nat_le_iff of_nat_numeral of_nat_power)
    also have "\<dots> < 2 ^ 1024" by (rule power_strict_increasing) simp_all
    finally show ?thesis .
  qed
  ultimately show ?thesis by (simp add: ParseFloat_def digits_value_nat_text)
qed

lemma to_int64_of_int: "0 \<le> n \<Longrightarrow> n \<le> 2 ^ 53 \<Longrightarrow> to_int64 (of_int n) = n"
  by (simp add: to_int64_def in_int64_def min_int64_def max_int64_def)

lemma fl64_nat_mult: "0 \<le> u \<Longrightarrow> int n * u \<le> 2 ^ 53 \<Longrightarrow> fl64 (of_nat n * of_int u) = of_int (int n * u)"
  using fl64_int[of "int n * u"] by simp

lemma parseUnitDuration_whole:
  assumes "unit_value u = Some v" "int n * v \<le> 2 ^ 53"
  shows "parseUnitDuration (of_nat n) u = Inr (int n * v)"
proof -
  have conv: "to_int64 (fl64 (of_nat n * of_int v)) = int n * v" if "0 \<le> v"
    using fl64_nat_mult[OF that assms(2)] to_int64_of_int[of "int n * v"] that assms(2) by simp
  have two: "fl64 (fl64 (of_nat n * of_int k) * of_int hour) = fl64 (of_nat n * of_int v)" if "v = k * hour" "0 \<le> k" for k
  proof -
    have "int n * k * 1 \<le> int n * k * hour" using that(2) by (intro mult_left_mono) auto
    moreover have "int n * k * hour = int n * v" by (simp only: that(1) mult.assoc)
    ultimately have "int n * k \<le> 2 ^ 53" using assms(2) by linarith
    then show ?thesis using fl64_nat_mult[of k n] that by (simp add: mult.assoc)
  qed
  show ?thesis
    using assms(1) conv two[of 24] two[of 168] two[of 720]
    by (auto simp: unit_value_def parseUnitDuration_def split: if_splits)
qed

lemma takeWhile_num: "\<forall>c \<in> set a. is_num c \<Longrightarrow> b \<noteq> [] \<Longrightarrow> \<not> is_num (hd b) \<Longrightarrow> takeWhile is_num (a @ b) = a \<and> dropWhile is_num (a @ b) = b"
  by (induction a) (cases b; auto)+

lemma unit_value_chars: "unit_value u = Some v \<Longrightarrow> u \<noteq> [] \<and> (\<forall>c \<in> set u. \<not> is_num c \<and> c \<noteq> CHR '' '') \<and> 0 < v"
  by (auto simp: unit_value_def is_num_def digit_of_def split: if_splits)

lemma parseDuration_whole:
  assumes "unit_value u = Some v" "int n * v \<le> 2 ^ 53"
  shows "parseDuration (nat_text n @ u) = Inr (int n * v)"
proof -
  have u: "u \<noteq> []" "\<forall>c \<in> set u. \<not> is_num c \<and> c \<noteq> CHR '' ''" "0 < v" using unit_value_chars[OF assms(1)] by auto
  have "int n * 1 \<le> int n * v" using u(3) by (intro mult_left_mono) auto
  then have "int n \<le> 2 ^ 53" using assms(2) by linarith
  then have n: "n \<le> 2 ^ 53" by simp
  have sp: "filter (\<lambda>c. c \<noteq> CHR '' '') (nat_text n @ u) = nat_text n @ u"
    using u(2) nat_text_is_num by (intro filter_True) auto
  have h: "\<not> has_prefix (nat_text n @ u) [c]" if "c = CHR ''-'' \<or> c = CHR ''+''" for c
    using that nat_text_no_sign[of "hd (nat_text n)" n] by (cases "nat_text n") (auto simp: has_prefix_def)
  have tw: "takeWhile is_num (nat_text n @ u) = nat_text n" "dropWhile is_num (nat_text n @ u) = u"
    using takeWhile_num[of "nat_text n" u] nat_text_is_num u by (auto simp: hd_in_set)
  have tu: "takeWhile (\<lambda>c. \<not> is_num c) u = u" "dropWhile (\<lambda>c. \<not> is_num c) u = []" using u(2) by (auto simp: takeWhile_eq_all_conv)
  have w: "wrap64 (int n * v) = int n * v"
    using assms(2) u(3) by (intro wrap64_id) (simp add: in_int64_def min_int64_def max_int64_def order_trans[of "_" 0])
  have "parse_units (nat_text n @ u) 0 = parse_units [] (wrap64 (int n * v))"
    by (subst parse_units.simps) (simp add: tw tu u(1) ParseFloat_nat[OF n] parseUnitDuration_whole[OF assms] Let_def)
  then have "parse_units (nat_text n @ u) 0 = Inr (int n * v)" by (simp add: w parse_units.simps)
  then show ?thesis
    using h[of "CHR ''-''"] h[of "CHR ''+''"] fl64_int[of "int n * v"] to_int64_of_int[of "int n * v"] assms(2) u(3)
    unfolding parseDuration_def sp Let_def by simp
qed

end
