(* ===== verification/Bunker_GrantSpec.thy ===== *)
theory Bunker_GrantSpec
  imports Bunker_Store_Safe Client_Duration
begin

text \<open>
  The \<open>kind: bunker\<close> grant files and a connect's permission list (\<open>cli/bunker/grantspec.go\<close>): validation, the
  expansion into grants, and \<open>parsePerms\<close>. The YAML decoder hands each structure's raw fields to the
  validation, which is what is modelled; its value for \<open>kinds\<close> is one of the JSON shapes \<open>kinds_json\<close>.
\<close>

definition grantableMethods :: "string list" where
  "grantableMethods = [MethodSignEvent, MethodPing, MethodGetPublicKey, MethodGetRelays, MethodNIP04Encrypt,
     MethodNIP04Decrypt, MethodNIP44Encrypt, MethodNIP44Decrypt, MethodNIP44MessageKeys]"

section \<open>Kinds\<close>

text \<open>The zero value has neither field set; \<open>Kinds\<close> is nil or a list.\<close>

record KindsSpec =
  ks_Any :: bool
  ks_Kinds :: "int list option"

datatype kinds_json = JNull | JString string | JInts "int list" | JOther

definition KindsSpec_MarshalJSON :: "KindsSpec \<Rightarrow> kinds_json" where
  "KindsSpec_MarshalJSON k = (if ks_Any k then JString ''any'' else (case ks_Kinds k of None \<Rightarrow> JNull | Some ns \<Rightarrow> JInts ns))"

text \<open>It writes into the receiver \<open>k\<close>, whose other field stays.\<close>

definition KindsSpec_UnmarshalJSON :: "kinds_json \<Rightarrow> KindsSpec \<Rightarrow> goerr + KindsSpec" where
  "KindsSpec_UnmarshalJSON data k = (case data of
     JNull \<Rightarrow> Inr \<lparr>ks_Any = False, ks_Kinds = None\<rparr>
   | JString s \<Rightarrow> if \<not> equal_fold s ''any'' then Inl (Err ''invalid kinds %q -- must be any or a list of kind numbers'' [s]) else Inr (k\<lparr>ks_Any := True\<rparr>)
   | JInts ns \<Rightarrow> if ns = [] then Inl (Err ''kinds must not be empty -- use any for every non-sensitive kind'' []) else Inr (k\<lparr>ks_Kinds := Some ns\<rparr>)
   | JOther \<Rightarrow> Inl (Err ''invalid kinds -- must be any or a list of kind numbers'' []))"

definition KindsSpec_isZero :: "KindsSpec \<Rightarrow> bool" where
  "KindsSpec_isZero k \<longleftrightarrow> \<not> ks_Any k \<and> ks_Kinds k = None"

section \<open>Entries\<close>

record GrantEntrySpec =
  ge_Method :: string
  ge_Kinds :: KindsSpec
  ge_Verdict :: string
  ge_Expires :: string
  ge_Uses :: int
  ge_expiresDur :: duration

text \<open>\<open>GrantEntrySpec.UnmarshalJSON\<close> after the strict decoding into \<open>temp\<close>.\<close>

definition GrantEntrySpec_UnmarshalJSON :: "GrantEntrySpec \<Rightarrow> goerr + GrantEntrySpec" where
  "GrantEntrySpec_UnmarshalJSON temp =
     (if ge_Method temp = [] then Inl (Err ''grant entry missing method'' [])
      else if ge_Method temp = MethodConnect then Inl (Err ''granting connect has no effect'' [])
      else if ge_Method temp \<notin> set grantableMethods then Inl (Err ''unknown method %q'' [ge_Method temp])
      else if ge_Method temp = MethodSignEvent \<and> KindsSpec_isZero (ge_Kinds temp) then Inl (Err ''sign_event grant missing kinds'' [])
      else if ge_Method temp \<noteq> MethodSignEvent \<and> \<not> KindsSpec_isZero (ge_Kinds temp)
        then Inl (Err ''kinds is only meaningful for method: sign_event, not %q'' [ge_Method temp])
      else
        try_bind (let v = to_lower (ge_Verdict temp) in
            if v = [] \<or> v = ''allow'' then Inr ''allow'' else if v = ''deny'' then Inr ''deny''
            else Inl (Err ''invalid verdict %q -- must be allow or deny'' [ge_Verdict temp])) (\<lambda>verdict.
        if ge_Expires temp \<noteq> [] \<and> ge_Uses temp \<noteq> 0 then Inl (Err ''expires and uses are mutually exclusive on one grant entry'' [])
        else
          try_bind (if ge_Expires temp \<noteq> [] then
              (case parseDuration (ge_Expires temp) of
                 Inl e \<Rightarrow> Inl (Wrap ''invalid expires %q'' [ge_Expires temp] e)
               | Inr dur \<Rightarrow> if dur \<le> 0 then Inl (Err ''expires %q must be positive'' [ge_Expires temp]) else Inr dur)
            else Inr (ge_expiresDur temp)) (\<lambda>dur.
          if ge_Uses temp < 0 then Inl (Err ''uses must be positive, got %d'' [itoa (ge_Uses temp)])
          else Inr (temp\<lparr>ge_Verdict := verdict, ge_expiresDur := dur\<rparr>))))"

definition scopeKeys :: "GrantEntrySpec \<Rightarrow> string list" where
  "scopeKeys e =
     (if ge_Method e \<noteq> MethodSignEvent then [ge_Method e]
      else if ks_Any (ge_Kinds e) then [ge_Method e @ '':any'']
      else map (\<lambda>k. ge_Method e @ '':kind:'' @ itoa k) (case ks_Kinds (ge_Kinds e) of None \<Rightarrow> [] | Some ns \<Rightarrow> ns))"

section \<open>Specs\<close>

record GrantSpec =
  gs_Nickname :: string
  gs_Grants :: "GrantEntrySpec list"

text \<open>The duplicate check: the loop over all scope keys.\<close>

fun check_scopes :: "string list \<Rightarrow> string list \<Rightarrow> goerr option" where
  "check_scopes seen [] = None"
| "check_scopes seen (key # keys) =
     (if key \<in> set seen then Some (Err ''duplicate grant for %s -- each method/kind scope may appear at most once'' [key])
      else check_scopes (key # seen) keys)"

definition GrantSpec_UnmarshalJSON :: "GrantSpec \<Rightarrow> goerr + GrantSpec" where
  "GrantSpec_UnmarshalJSON temp =
     (if gs_Grants temp = [] then Inl (Err ''spec.grants must not be empty'' [])
      else try_bind (try_map GrantEntrySpec_UnmarshalJSON (gs_Grants temp)) (\<lambda>es.
        case check_scopes [] (concat (map scopeKeys es)) of
          Some e \<Rightarrow> Inl e
        | None \<Rightarrow> Inr (temp\<lparr>gs_Grants := es\<rparr>)))"

text \<open>\<open>LoadGrantSpec\<close>: \<open>yaml\<close> decodes the file into the envelope's kind and raw spec.\<close>

definition LoadGrantSpec :: "(string \<Rightarrow> string option) \<Rightarrow> (string \<Rightarrow> goerr + (string \<times> GrantSpec)) \<Rightarrow> string \<Rightarrow> goerr + GrantSpec" where
  "LoadGrantSpec fs yaml path = (case fs path of
     None \<Rightarrow> Inl (Err ''open'' [path])
   | Some data \<Rightarrow>
      (case (case yaml data of
               Inl e \<Rightarrow> Inl e
             | Inr (kind, raw) \<Rightarrow> (case GrantSpec_UnmarshalJSON raw of Inl e \<Rightarrow> Inl e | Inr spec \<Rightarrow> Inr (kind, spec))) of
         Inl e \<Rightarrow> Inl (Wrap ''failed to parse %s'' [path] e)
       | Inr (kind, spec) \<Rightarrow>
           if \<not> equal_fold kind ''bunker'' then Inl (Err ''%s: kind must be bunker, got %q'' [path, kind]) else Inr spec))"

definition resolve_entry :: "gtime \<Rightarrow> GrantEntrySpec \<Rightarrow> Grant list" where
  "resolve_entry now e =
     (let verdict = (if ge_Verdict e = ''deny'' then Deny else Allow);
          kinds = (if ge_Method e = MethodSignEvent \<and> \<not> ks_Any (ge_Kinds e)
                   then map Some (case ks_Kinds (ge_Kinds e) of None \<Rightarrow> [] | Some ns \<Rightarrow> ns) else [None])
      in map (\<lambda>kind.
           let g = newGrant (ge_Method e) verdict kind now in
           if ge_expiresDur e > 0 then g\<lparr>g_ExpiresAt := Some (time_add now (ge_expiresDur e))\<rparr>
           else if ge_Uses e > 0 then g\<lparr>g_RemainingUses := Some (ge_Uses e)\<rparr>
           else g) kinds)"

definition GrantSpec_Resolve :: "GrantSpec \<Rightarrow> gtime \<Rightarrow> Grant list" where
  "GrantSpec_Resolve s now = concat (map (resolve_entry now) (gs_Grants s))"

section \<open>A connect's permissions\<close>

text \<open>One entry of the list: its method and kind, \<open>None\<close> when it is skipped.\<close>

definition parse_perm :: "string \<Rightarrow> (string \<times> int option) option" where
  "parse_perm entry0 =
     (let entry = trim_space entry0 in
      if entry = [] then None
      else let (method0, param) = (case cut entry CHR '':'' of None \<Rightarrow> (entry, None) | Some (a, b) \<Rightarrow> (a, Some b));
               method = trim_space method0
        in if method \<notin> set grantableMethods then None
           else (case (if method = MethodSignEvent then param else None) of
               None \<Rightarrow> Some (method, None)
             | Some p \<Rightarrow> (case atoi (trim_space p) of None \<Rightarrow> None | Some k \<Rightarrow> Some (method, Some k))))"

definition perm_key :: "string \<times> int option \<Rightarrow> string" where
  "perm_key mk = (case mk of (method, None) \<Rightarrow> method | (method, Some k) \<Rightarrow> method @ '':'' @ itoa k)"

fun parse_entries :: "gtime \<Rightarrow> string list \<Rightarrow> string list \<Rightarrow> Grant list" where
  "parse_entries now seen [] = []"
| "parse_entries now seen (entry # entries) = (case parse_perm entry of
     None \<Rightarrow> parse_entries now seen entries
   | Some mk \<Rightarrow>
       if perm_key mk \<in> set seen then parse_entries now seen entries
       else newGrant (fst mk) Allow (snd mk) now # parse_entries now (perm_key mk # seen) entries)"

definition parsePerms :: "string \<Rightarrow> gtime \<Rightarrow> Grant list" where
  "parsePerms perms now = parse_entries now [] (split perms CHR '','')"

section \<open>What they produce\<close>

text \<open>A scope key names one scope: grants of one key cover one method and kind.\<close>

lemma grantable_all: "list_all (\<lambda>m. CHR '':'' \<notin> set m \<and> m \<noteq> [] \<and> m \<noteq> MethodConnect) grantableMethods"
  by code_simp

lemma grantable_no_colon: "m \<in> set grantableMethods \<Longrightarrow> CHR '':'' \<notin> set m \<and> m \<noteq> [] \<and> m \<noteq> MethodConnect"
  using grantable_all unfolding list_all_iff by blast

lemma itoa_inj: "itoa a = itoa b \<Longrightarrow> in_int64 a \<Longrightarrow> in_int64 b \<Longrightarrow> a = b"
  by (metis atoi_itoa option.inject)

lemma parse_perm_ok: "parse_perm e = Some (m, k) \<Longrightarrow> m \<in> set grantableMethods \<and> (\<forall>n. k = Some n \<longrightarrow> m = MethodSignEvent \<and> in_int64 n)"
proof -
  have a: "atoi s = Some n \<Longrightarrow> in_int64 n" for s n
    by (auto simp: atoi_def Let_def split: if_splits option.splits)
  show "parse_perm e = Some (m, k) \<Longrightarrow> ?thesis"
    by (auto simp: parse_perm_def Let_def a split: if_splits option.splits prod.splits)
qed

lemma perm_key_inj:
  assumes "parse_perm e = Some x" "parse_perm e' = Some y" "perm_key x = perm_key y"
  shows "x = y"
proof -
  obtain m k m' k' where x: "x = (m, k)" and y: "y = (m', k')" by (cases x; cases y)
  have c: "CHR '':'' \<notin> set m" "CHR '':'' \<notin> set m'" using parse_perm_ok grantable_no_colon assms x y by blast+
  have head: "a = a' \<and> b = b'" if "c \<notin> set a" "c \<notin> set a'" "(a :: string) @ c # b = a' @ c # b'" for a a' b b' c
  proof -
    have c: "cut (a @ c # b) c = Some (a, b)" "cut (a' @ c # b') c = Some (a', b')" unfolding cut_Some using that(1,2) by blast+
    have "Some (a, b) = Some (a', b')" by (rule trans[OF sym[OF c(1)[unfolded that(3)]] c(2)])
    then show ?thesis by simp
  qed
  show ?thesis
  proof (cases k; cases k')
    assume "k = None" "k' = None"
    then show ?thesis using assms(3) x y by (simp add: perm_key_def)
  next
    fix n assume "k = None" "k' = Some n"
    then have "CHR '':'' \<in> set m" using assms(3) x y by (simp add: perm_key_def)
    then show ?thesis using c by simp
  next
    fix n assume "k = Some n" "k' = None"
    then have "CHR '':'' \<in> set m'" using assms(3) x y by (auto simp: perm_key_def)
    then show ?thesis using c by simp
  next
    fix n n' assume k: "k = Some n" "k' = Some n'"
    then have "m = m' \<and> itoa n = itoa n'" using assms(3) x y head[OF c, of "itoa n" "itoa n'"] by (simp add: perm_key_def)
    then show ?thesis using itoa_inj parse_perm_ok assms(1,2) x y k by blast
  qed
qed

lemma parse_entries_ok:
  "wf_grants (parse_entries now seen es)
   \<and> (\<forall>g \<in> set (parse_entries now seen es). \<exists>e \<in> set es. parse_perm e = Some (scope g) \<and> perm_key (scope g) \<notin> set seen
        \<and> g = newGrant (g_Method g) Allow (g_Kind g) now)"
proof (induction es arbitrary: seen)
  case Nil
  then show ?case by simp
next
  case (Cons e es)
  show ?case
  proof (cases "parse_perm e")
    case None
    then show ?thesis using Cons[of seen] by auto
  next
    case (Some mk)
    let ?g = "newGrant (fst mk) Allow (snd mk) now"
    have sg: "scope ?g = mk" by (simp add: scope_def newGrant_def)
    show ?thesis
    proof (cases "perm_key mk \<in> set seen")
      case True
      then show ?thesis using Some Cons[of seen] by auto
    next
      case False
      note ih = Cons[of "perm_key mk # seen"]
      have "mk \<notin> scope ` set (parse_entries now (perm_key mk # seen) es)" using ih by force
      then show ?thesis using Some False ih sg by (auto simp: newGrant_def)
    qed
  qed
qed

text \<open>Every entry that parses is granted, the first time it comes.\<close>

lemma parse_entries_set:
  "e \<in> set es \<Longrightarrow> parse_perm e = Some mk \<Longrightarrow> perm_key mk \<notin> set seen \<Longrightarrow> newGrant (fst mk) Allow (snd mk) now \<in> set (parse_entries now seen es)"
proof (induction es arbitrary: seen)
  case (Cons e' es)
  show ?case
  proof (cases "e = e' \<or> (\<exists>x. parse_perm e' = Some x \<and> perm_key mk = perm_key x)")
    case True
    then have "parse_perm e' = Some mk" using Cons.prems(2) perm_key_inj[OF Cons.prems(2)] by blast
    then show ?thesis using Cons.prems(3) by simp
  next
    case False
    then have "e \<in> set es" "\<And>x. parse_perm e' = Some x \<Longrightarrow> perm_key mk \<notin> set (perm_key x # seen)" using Cons.prems by auto
    then show ?thesis using Cons.IH[OF _ Cons.prems(2)] Cons.prems(3) by (auto split: option.split)
  qed
qed simp

text \<open>A validated spec expands into grants of distinct scopes.\<close>

definition scope_key :: "string \<times> int option \<Rightarrow> string" where
  "scope_key sc = (case sc of (m, ko) \<Rightarrow>
     if m \<noteq> MethodSignEvent then m else (case ko of None \<Rightarrow> m @ '':any'' | Some k \<Rightarrow> m @ '':kind:'' @ itoa k))"

lemma check_scopes_None: "check_scopes seen keys = None \<longleftrightarrow> distinct keys \<and> set keys \<inter> set seen = {}"
  by (induction keys arbitrary: seen) auto

lemma resolve_entry_scopes: "map scope (resolve_entry now e) =
    map (Pair (ge_Method e)) (if ge_Method e = MethodSignEvent \<and> \<not> ks_Any (ge_Kinds e)
                   then map Some (case ks_Kinds (ge_Kinds e) of None \<Rightarrow> [] | Some ns \<Rightarrow> ns) else [None])"
  by (auto simp: resolve_entry_def newGrant_def scope_def Let_def)

lemma resolve_entry_keys: "map scope_key (map scope (resolve_entry now e)) = scopeKeys e"
  unfolding resolve_entry_scopes scopeKeys_def
  by (cases "ge_Method e = MethodSignEvent"; cases "ks_Any (ge_Kinds e)") (auto simp: scope_key_def)

lemma GrantSpec_Resolve_wf:
  assumes "GrantSpec_UnmarshalJSON raw = Inr spec"
  shows "wf_grants (GrantSpec_Resolve spec now)"
proof -
  have "check_scopes [] (concat (map scopeKeys (gs_Grants spec))) = None"
    using assms by (auto simp: GrantSpec_UnmarshalJSON_def split: if_splits option.splits)
  then have "distinct (concat (map scopeKeys (gs_Grants spec)))" by (simp add: check_scopes_None)
  moreover have "map scope_key (map scope (GrantSpec_Resolve spec now)) = concat (map scopeKeys (gs_Grants spec))"
    unfolding GrantSpec_Resolve_def by (simp add: map_concat comp_def resolve_entry_keys[unfolded map_map comp_def])
  ultimately have "distinct (map scope_key (map scope (GrantSpec_Resolve spec now)))" by simp
  then show ?thesis unfolding wf_grants_def by (rule distinct_map[THEN iffD1, THEN conjunct1])
qed

lemma entry_UnmarshalJSON_ok:
  "GrantEntrySpec_UnmarshalJSON e0 = Inr e \<Longrightarrow> ge_Method e \<in> set grantableMethods \<and> ge_Verdict e \<in> {''allow'', ''deny''} \<and> 0 \<le> ge_Uses e
     \<and> (ge_Method e = MethodSignEvent \<longleftrightarrow> \<not> KindsSpec_isZero (ge_Kinds e)) \<and> (ge_Expires e \<noteq> [] \<longrightarrow> 0 < ge_expiresDur e \<and> ge_Uses e = 0)"
  by (auto simp: GrantEntrySpec_UnmarshalJSON_def Let_def split: if_splits sum.splits)

lemma resolve_entry_grants:
  "g \<in> set (resolve_entry now e) \<Longrightarrow> g_Method g = ge_Method e \<and> g_CreatedAt g = now
     \<and> g_ExpiresAt g = (if ge_expiresDur e > 0 then Some (time_add now (ge_expiresDur e)) else None)
     \<and> g_RemainingUses g = (if ge_expiresDur e > 0 \<or> ge_Uses e \<le> 0 then None else Some (ge_Uses e))
     \<and> g_Verdict g = (if ge_Verdict e = ''deny'' then Deny else Allow)"
  by (auto simp: resolve_entry_def newGrant_def Let_def split: if_splits)

lemma GrantSpec_Resolve_ok:
  assumes "GrantSpec_UnmarshalJSON raw = Inr spec" "g \<in> set (GrantSpec_Resolve spec now)"
  shows "g_Method g \<in> set grantableMethods" "g_Verdict g \<noteq> Ask" "\<forall>n. g_RemainingUses g = Some n \<longrightarrow> 0 < n"
proof -
  obtain e where e: "e \<in> set (gs_Grants spec)" "g \<in> set (resolve_entry now e)"
    using assms(2) by (auto simp: GrantSpec_Resolve_def)
  obtain es where es: "try_map GrantEntrySpec_UnmarshalJSON (gs_Grants raw) = Inr es" "gs_Grants spec = es"
    using assms(1) by (auto simp: GrantSpec_UnmarshalJSON_def split: if_splits option.splits)
  obtain e0 where "GrantEntrySpec_UnmarshalJSON e0 = Inr e" using try_map_Inr_set[OF es(1)] e(1) es(2) by blast
  then have "ge_Method e \<in> set grantableMethods" using entry_UnmarshalJSON_ok by blast
  then show "g_Method g \<in> set grantableMethods" "g_Verdict g \<noteq> Ask" "\<forall>n. g_RemainingUses g = Some n \<longrightarrow> 0 < n"
    using resolve_entry_grants[OF e(2)] by (auto split: if_splits)
qed

lemma resolve_entry_kind:
  assumes "g \<in> set (resolve_entry now e)"
  shows "g_Kind g = None \<or> g_Method g = MethodSignEvent"
proof -
  have "scope g \<in> set (map scope (resolve_entry now e))" using assms by simp
  then show ?thesis unfolding resolve_entry_scopes by (auto simp: scope_def split: if_splits)
qed

end
