(* ===== verification/Bunker_Queue.thy ===== *)
theory Bunker_Queue
  imports Bunker_Store
begin

text \<open>
  The queue of requests waiting for a human decision (\<open>cli/bunker/queue.go\<close>). Entries are shared by pointer between
  the map and the goroutines that wait on them, so they live in a heap, a list indexed by address. An
  operation that works in two critical sections is two definitions: what it does under the lock and what it does
  after; a step relation interleaves them.
\<close>

section \<open>Data\<close>

record Pending =
  pd_ID :: string
  pd_ClientKey :: string
  pd_Method :: string
  pd_Kind :: int
  pd_Params :: "string list"
  pd_Perms :: string
  pd_CreatedAt :: gtime
  pd_ExpiresAt :: gtime
  pd_Event :: "event option"

record resolution =
  res_verdict :: Verdict
  res_remembered :: bool
  res_expired :: bool

record ResolvedEvent =
  re_Pending :: Pending
  re_Verdict :: Verdict
  re_Remembered :: bool
  re_Expired :: bool
  re_AutoApproved :: bool

record entry =
  e_pending :: Pending
  e_done :: bool
  e_result :: resolution
  e_resolved :: bool

record Queue =
  q_heap :: "entry list"
  q_byID :: "(string \<times> nat) list"
  q_max :: int
  q_ttl :: duration

abbreviation DefaultMaxPending :: int where "DefaultMaxPending \<equiv> 200"
abbreviation DefaultPendingTTL :: duration where "DefaultPendingTTL \<equiv> 5 * minute"

definition no_resolution :: resolution where
  "no_resolution = \<lparr>res_verdict = Ask, res_remembered = False, res_expired = False\<rparr>"

section \<open>Operations\<close>

definition NewQueue :: "int \<Rightarrow> duration \<Rightarrow> Queue" where
  "NewQueue m ttl = \<lparr>q_heap = [], q_byID = [], q_max = (if m \<le> 0 then DefaultMaxPending else m),
     q_ttl = (if ttl \<le> 0 then DefaultPendingTTL else ttl)\<rparr>"

definition pending_count :: "Queue \<Rightarrow> int" where
  "pending_count q = int (length (filter (\<lambda>(k, a). \<not> e_resolved (q_heap q ! a)) (q_byID q)))"

text \<open>\<open>Add\<close> up to the point where it waits: the queue is full, or the address of the entry it waits on (an existing
  one, or a new one, for which \<open>onAdded\<close> fires).\<close>

datatype add_start = AddFull | AddWait nat | AddNew nat

definition Add_start :: "gtime \<Rightarrow> Queue \<Rightarrow> Pending \<Rightarrow> Queue \<times> add_start" where
  "Add_start now q p = (case map_of (q_byID q) (pd_ID p) of
     Some a \<Rightarrow> (q, AddWait a)
   | None \<Rightarrow>
      if pending_count q \<ge> q_max q then (q, AddFull)
      else let p' = p\<lparr>pd_CreatedAt := now, pd_ExpiresAt := time_add now (q_ttl q)\<rparr>; a = length (q_heap q)
        in (q\<lparr>q_heap := q_heap q @ [\<lparr>e_pending = p', e_done = False, e_result = no_resolution, e_resolved = False\<rparr>],
             q_byID := AList.update (pd_ID p) a (q_byID q)\<rparr>, AddNew a))"

text \<open>What the waiting \<open>Add\<close> returns once its entry is done; \<open>None\<close> while it blocks.\<close>

definition Add_end :: "Queue \<Rightarrow> nat \<Rightarrow> (Verdict \<times> bool) option" where
  "Add_end q a = (if e_done (q_heap q ! a) then Some (res_verdict (e_result (q_heap q ! a)), res_remembered (e_result (q_heap q ! a))) else None)"

definition set_entry :: "Queue \<Rightarrow> nat \<Rightarrow> entry \<Rightarrow> Queue" where
  "set_entry q a e = q\<lparr>q_heap := (q_heap q)[a := e]\<rparr>"

text \<open>\<open>Resolve\<close> under the lock: \<open>None\<close> is \<open>ErrNotPending\<close>.\<close>

definition Resolve_start :: "Queue \<Rightarrow> string \<Rightarrow> Queue \<times> nat option" where
  "Resolve_start q aid = (case map_of (q_byID q) aid of
     None \<Rightarrow> (q, None)
   | Some a \<Rightarrow>
      if e_resolved (q_heap q ! a) then (q, None)
      else (set_entry q a ((q_heap q ! a)\<lparr>e_resolved := True\<rparr>), Some a))"

text \<open>After the lock: the result is written, \<open>onResolved\<close> fires with the event, and the channel is closed.\<close>

definition deliver :: "Queue \<Rightarrow> nat \<Rightarrow> resolution \<Rightarrow> Queue \<times> ResolvedEvent" where
  "deliver q a r =
     (set_entry q a ((q_heap q ! a)\<lparr>e_result := r, e_done := True\<rparr>),
      \<lparr>re_Pending = e_pending (q_heap q ! a), re_Verdict = res_verdict r, re_Remembered = res_remembered r, re_Expired = res_expired r,
       re_AutoApproved = False\<rparr>)"

definition Queue_Get :: "Queue \<Rightarrow> string \<Rightarrow> Pending option" where
  "Queue_Get q aid = (case map_of (q_byID q) aid of
     None \<Rightarrow> None
   | Some a \<Rightarrow> if e_resolved (q_heap q ! a) then None else Some (e_pending (q_heap q ! a)))"

definition Queue_List :: "Queue \<Rightarrow> Pending list" where
  "Queue_List q = map (\<lambda>(k, a). e_pending (q_heap q ! a)) (filter (\<lambda>(k, a). \<not> e_resolved (q_heap q ! a)) (q_byID q))"

text \<open>\<open>sweepExpired\<close> under the lock: the entries it found expired, whose resolution it delivers after.\<close>

definition is_due :: "gtime \<Rightarrow> Queue \<Rightarrow> nat \<Rightarrow> bool" where
  "is_due now q a \<longleftrightarrow> \<not> e_resolved (q_heap q ! a) \<and> \<not> now < pd_ExpiresAt (e_pending (q_heap q ! a))"

definition sweep_start :: "gtime \<Rightarrow> Queue \<Rightarrow> Queue \<times> nat list" where
  "sweep_start now q =
     (let due = map snd (filter (\<lambda>(k, a). is_due now q a) (q_byID q)) in
      (q\<lparr>q_heap := fold (\<lambda>a h. h[a := (h ! a)\<lparr>e_resolved := True\<rparr>]) due (q_heap q),
         q_byID := filter (\<lambda>(k, a). \<not> e_resolved (q_heap q ! a)) (q_byID q)\<rparr>, due))"

definition swept :: resolution where
  "swept = \<lparr>res_verdict = Deny, res_remembered = False, res_expired = True\<rparr>"

section \<open>Interleaving\<close>

text \<open>
  The queue, the resolutions decided but not yet delivered, the events delivered with their entries' addresses, the
  entries the blocked \<open>Add\<close> calls wait on, and what the others returned.
\<close>

record queue_state =
  qs_queue :: Queue
  qs_inflight :: "(nat \<times> resolution) list"
  qs_events :: "(nat \<times> ResolvedEvent) list"
  qs_waiting :: "nat list"
  qs_answers :: "(nat \<times> Verdict \<times> bool) list"

definition queue_init :: "int \<Rightarrow> duration \<Rightarrow> queue_state" where
  "queue_init m ttl = \<lparr>qs_queue = NewQueue m ttl, qs_inflight = [], qs_events = [], qs_waiting = [], qs_answers = []\<rparr>"

inductive queue_step :: "queue_state \<Rightarrow> queue_state \<Rightarrow> bool" where
  q_wait: "Add_start now (qs_queue s) p = (q, AddWait a) \<Longrightarrow> queue_step s (s\<lparr>qs_queue := q, qs_waiting := a # qs_waiting s\<rparr>)"
| q_new: "Add_start now (qs_queue s) p = (q, AddNew a) \<Longrightarrow> queue_step s (s\<lparr>qs_queue := q, qs_waiting := a # qs_waiting s\<rparr>)"
| q_resolve: "Resolve_start (qs_queue s) aid = (q, Some a)
    \<Longrightarrow> queue_step s (s\<lparr>qs_queue := q, qs_inflight := (a, \<lparr>res_verdict = v, res_remembered = rem, res_expired = False\<rparr>) # qs_inflight s\<rparr>)"
| q_sweep: "sweep_start now (qs_queue s) = (q, due)
    \<Longrightarrow> queue_step s (s\<lparr>qs_queue := q, qs_inflight := map (\<lambda>a. (a, swept)) due @ qs_inflight s\<rparr>)"
| q_deliver: "qs_inflight s = xs @ (a, r) # ys \<Longrightarrow> deliver (qs_queue s) a r = (q, ev)
    \<Longrightarrow> queue_step s (s\<lparr>qs_queue := q, qs_inflight := xs @ ys, qs_events := (a, ev) # qs_events s\<rparr>)"
| q_answer: "qs_waiting s = xs @ a # ys \<Longrightarrow> Add_end (qs_queue s) a = Some vr
    \<Longrightarrow> queue_step s (s\<lparr>qs_waiting := xs @ ys, qs_answers := (a, vr) # qs_answers s\<rparr>)"

inductive queue_reachable :: "int \<Rightarrow> duration \<Rightarrow> queue_state \<Rightarrow> bool" for m ttl where
  reach_init: "queue_reachable m ttl (queue_init m ttl)"
| reach_step: "queue_reachable m ttl s \<Longrightarrow> queue_step s s' \<Longrightarrow> queue_reachable m ttl s'"

end
