(* ===== verification/Bunker_Handler.thy ===== *)
theory Bunker_Handler
  imports Bunker_GrantSpec Bunker_Queue
begin

text \<open>
  The bunker's policy on top of the NIP-46 server (\<open>cli/bunker/handler.go\<close>), and the operator's side of a decision
  (\<open>cli/bunker/client.go\<close>, \<open>cli/bunker/pending.go\<close>). \<open>Authorize\<close> may block on the queue: it is one definition
  up to the wait and one after it. The NIP-46 server itself is package \<open>nip46/bunker\<close>; what the code
  tells it (the armed secrets) is recorded.
\<close>

section \<open>The handler\<close>

text \<open>The fields of a \<open>bunker.Call\<close> the policy reads; the metadata is the app's name and url.\<close>

record Call =
  call_ID :: string
  call_Client :: string
  call_Method :: string
  call_Params :: "string list"
  call_Perms :: string
  call_Event :: "event option"
  call_Metadata :: "(string \<times> string) option"

record Handler =
  h_Store :: Store
  h_Queue :: Queue
  h_pendingGrantSpec :: "GrantSpec option"
  h_pairingSecretTTL :: duration
  h_armed :: "(string \<times> duration) list"
  h_autoApproved :: "Pending list"

abbreviation PairingSecretTTL :: duration where "PairingSecretTTL \<equiv> DefaultPendingTTL"

definition SetPendingSecret :: "Handler \<Rightarrow> string \<Rightarrow> Handler" where
  "SetPendingSecret h secret =
     (let ttl = (if h_pairingSecretTTL h \<noteq> 0 then h_pairingSecretTTL h else PairingSecretTTL) in
      h\<lparr>h_pendingGrantSpec := None, h_armed := h_armed h @ [(secret, ttl)]\<rparr>)"

definition SetPendingGrants :: "Handler \<Rightarrow> GrantSpec option \<Rightarrow> Handler" where
  "SetPendingGrants h spec = h\<lparr>h_pendingGrantSpec := spec\<rparr>"

definition takePendingGrantSpec :: "Handler \<Rightarrow> Handler \<times> GrantSpec option" where
  "takePendingGrantSpec h = (h\<lparr>h_pendingGrantSpec := None\<rparr>, h_pendingGrantSpec h)"

text \<open>A loop of \<open>Remember\<close> calls, whose errors are dropped.\<close>

definition remember_all :: "store_io \<Rightarrow> gtime \<Rightarrow> string \<Rightarrow> Grant list \<Rightarrow> Store \<Rightarrow> Store" where
  "remember_all io now peer gs s = fold (\<lambda>g st. fst (Remember io now st peer g)) gs s"

definition pair :: "store_io \<Rightarrow> gtime \<Rightarrow> Call \<Rightarrow> bool \<Rightarrow> Handler \<Rightarrow> Handler" where
  "pair io now call persistReqPerms h =
     (let peer = call_Client call;
          (name, url) = (case call_Metadata call of None \<Rightarrow> ([], []) | Some nu \<Rightarrow> nu);
          s1 = fst (Store_Pair io now (h_Store h) peer name url);
          s2 = (if persistReqPerms then remember_all io now peer (parsePerms (call_Perms call) now) s1 else s1);
          (h', spec) = takePendingGrantSpec h
      in case spec of
           None \<Rightarrow> h'\<lparr>h_Store := s2\<rparr>
         | Some sp \<Rightarrow>
            let s3 = remember_all io now peer (GrantSpec_Resolve sp now) s2;
                s4 = (if gs_Nickname sp \<noteq> [] then fst (SetName io s3 peer (gs_Nickname sp)) else s3)
            in h'\<lparr>h_Store := s4\<rparr>)"

text \<open>The outcome of \<open>Authorize\<close> so far: allowed, denied with a reason, or waiting on a queue entry.\<close>

datatype outcome = Allowed | Refused string | Waiting nat

definition call_kind :: "Call \<Rightarrow> int" where
  "call_kind call = (case call_Event call of None \<Rightarrow> 0 | Some ev \<Rightarrow> ev_Kind ev)"

definition call_pending :: "Call \<Rightarrow> gtime \<Rightarrow> Pending" where
  "call_pending call created = \<lparr>pd_ID = call_ID call, pd_ClientKey = call_Client call, pd_Method = call_Method call, pd_Kind = call_kind call,
     pd_Params = call_Params call, pd_Perms = call_Perms call, pd_CreatedAt = created, pd_ExpiresAt = 0, pd_Event = call_Event call\<rparr>"

definition Authorize_start :: "store_io \<Rightarrow> gtime \<Rightarrow> Call \<Rightarrow> Handler \<Rightarrow> Handler \<times> outcome" where
  "Authorize_start io now call h =
     (let peer = call_Client call in
      if call_Method call = MethodConnect \<and> h_pendingGrantSpec h \<noteq> None then
        (let p = \<lparr>pd_ID = call_ID call, pd_ClientKey = peer, pd_Method = call_Method call, pd_Kind = 0, pd_Params = [],
                  pd_Perms = [], pd_CreatedAt = now, pd_ExpiresAt = 0, pd_Event = None\<rparr>
         in (pair io now call True (h\<lparr>h_autoApproved := h_autoApproved h @ [p]\<rparr>), Allowed))
      else if call_Method call = MethodSwitchRelays \<or> call_Method call = MethodLogout then
        (h, if IsPaired (h_Store h) peer then Allowed else Refused ''not paired'')
      else
        (let (s', v) = Decide io now (h_Store h) peer (call_Method call) (call_kind call);
             h1 = h\<lparr>h_Store := s'\<rparr>
         in case v of
              Deny \<Rightarrow> (h1, Refused ''rejected'')
            | Ask \<Rightarrow> (case Add_start now (h_Queue h1) (call_pending call 0) of
                (q, AddFull) \<Rightarrow> (h1, Refused ''signer busy: bunker: pending queue is full'')
              | (q, AddWait a) \<Rightarrow> (h1\<lparr>h_Queue := q\<rparr>, Waiting a)
              | (q, AddNew a) \<Rightarrow> (h1\<lparr>h_Queue := q\<rparr>, Waiting a))
            | Allow \<Rightarrow>
                (let h2 = h1\<lparr>h_autoApproved := h_autoApproved h1 @ [call_pending call now]\<rparr> in
                 (if call_Method call = MethodConnect then pair io now call False h2 else h2, Allowed))))"

text \<open>After the wait: \<open>vr\<close> is what \<open>Queue.Add\<close> returned.\<close>

definition Authorize_end :: "store_io \<Rightarrow> gtime \<Rightarrow> Call \<Rightarrow> Verdict \<times> bool \<Rightarrow> Handler \<Rightarrow> Handler \<times> outcome" where
  "Authorize_end io now call vr h =
     (if fst vr \<noteq> Allow then (h, Refused ''rejected'')
      else (if call_Method call = MethodConnect then pair io now call (snd vr) h else h, Allowed))"

text \<open>\<open>decided\<close>, for its effect on the store: a logout that was carried out ends the session.\<close>

definition decided :: "store_io \<Rightarrow> Call \<Rightarrow> bool \<Rightarrow> Handler \<Rightarrow> Handler" where
  "decided io call allowed h =
     (if allowed \<and> call_Method call = MethodLogout then h\<lparr>h_Store := fst (Revoke io (h_Store h) (call_Client call))\<rparr> else h)"

section \<open>The operator's side\<close>

text \<open>\<open>localClient.resolve\<close>: the grant is remembered before the entry is resolved; the resolution is then delivered.\<close>

definition client_resolve ::
  "store_io \<Rightarrow> gtime \<Rightarrow> Store \<Rightarrow> Queue \<Rightarrow> string \<Rightarrow> Verdict \<Rightarrow> Grant option \<Rightarrow> Store \<times> Queue \<times> ResolvedEvent option \<times> goerr option" where
  "client_resolve io now s q aid verdict remember =
     (let finish = (\<lambda>s'. case Resolve_start q aid of
          (q', None) \<Rightarrow> (s', q', None, Some (Err ''bunker: no such pending request'' []))
        | (q', Some a) \<Rightarrow>
            (let (q2, ev) = deliver q' a \<lparr>res_verdict = verdict, res_remembered = remember \<noteq> None, res_expired = False\<rparr>
             in (s', q2, Some ev, None)))
      in case remember of
           None \<Rightarrow> finish s
         | Some g \<Rightarrow> (case Queue_Get q aid of
             None \<Rightarrow> (s, q, None, Some (Err ''bunker: no pending request to attribute the remembered grant to'' []))
           | Some p \<Rightarrow> (case Remember io now s (pd_ClientKey p) g of
               (s', Some e) \<Rightarrow> (s', q, None, Some e)
             | (s', None) \<Rightarrow> finish s')))"

record resolve_flags =
  fl_always :: bool
  fl_any_kind :: bool
  fl_for :: duration
  fl_uses :: int

text \<open>The part of \<open>resolvePending\<close> that builds the grant to remember, from the flags and the list of pending requests.\<close>

definition resolvePending :: "gtime \<Rightarrow> resolve_flags \<Rightarrow> Verdict \<Rightarrow> Pending list \<Rightarrow> string \<Rightarrow> goerr + (Pending \<times> Grant option)" where
  "resolvePending now fl verdict pending aid =
     (let anyKind = verdict = Allow \<and> fl_any_kind fl;
          forDur = (if verdict = Allow then fl_for fl else 0);
          uses = (if verdict = Allow then fl_uses fl else 0) in
      if verdict = Allow \<and> \<not> fl_always fl \<and> (anyKind \<or> forDur \<noteq> 0 \<or> uses \<noteq> 0)
        then Inl (Err ''--any-kind, --for and --uses need --always'' [])
      else if verdict = Allow \<and> forDur < 0 then Inl (Err ''--for must be positive'' [])
      else if verdict = Allow \<and> uses < 0 then Inl (Err ''--uses must be positive'' [])
      else (case find (\<lambda>p. pd_ID p = aid) pending of
          None \<Rightarrow> Inl (Err ''no pending request %q (already decided or expired?)'' [aid])
        | Some p \<Rightarrow>
            if \<not> fl_always fl then Inr (p, None)
            else if verdict = Deny then Inr (p, Some (DenyAlways (pd_Method p) now))
            else
              let kind = (if pd_Method p = MethodSignEvent \<and> \<not> anyKind then Some (pd_Kind p) else None) in
              if pd_Method p = MethodSignEvent \<and> pd_Kind p \<in> sensitiveKinds
                then Inl (Err ''kind %d is sensitive and must be approved per-request; it cannot be remembered with --always'' [itoa (pd_Kind p)])
              else Inr (p, Some
                (if forDur > 0 then GrantForDuration (pd_Method p) kind forDur now
                 else if uses > 0 then GrantForUses (pd_Method p) kind uses now
                 else GrantForever (pd_Method p) kind now))))"

text \<open>\<open>sessions set-grant\<close> on the daemon's store: every grant of the spec, for a known app; the first error stops it.\<close>

fun set_grants :: "store_io \<Rightarrow> gtime \<Rightarrow> string \<Rightarrow> Grant list \<Rightarrow> Store \<Rightarrow> Store \<times> goerr option" where
  "set_grants io now pubkey [] s = (s, None)"
| "set_grants io now pubkey (g # gs) s = (case Remember io now s pubkey g of
     (s', Some e) \<Rightarrow> (s', Some e)
   | (s', None) \<Rightarrow> set_grants io now pubkey gs s')"

definition set_grant_command ::
  "store_io \<Rightarrow> (string \<Rightarrow> string option) \<Rightarrow> (string \<Rightarrow> goerr + (string \<times> GrantSpec)) \<Rightarrow> gtime \<Rightarrow> string \<Rightarrow> string \<Rightarrow> Store \<Rightarrow> Store \<times> goerr option" where
  "set_grant_command io fs yaml now pubkey path s = (case LoadGrantSpec fs yaml path of
     Inl e \<Rightarrow> (s, Some e)
   | Inr spec \<Rightarrow>
      let grants = GrantSpec_Resolve spec now in
      if grants = [] then (s, Some (Err ''the spec declares no grants'' []))
      else if \<not> (\<exists>sess \<in> set (Store_List s). s_Pubkey sess = pubkey) then (s, Some (Err ''no remembered session for %q'' [pubkey]))
      else set_grants io now pubkey grants s)"

section \<open>Facts\<close>

lemma remember_all_grants:
  assumes "wf_store s"
  shows "wf_store (remember_all io now peer gs s)"
    "table (grants_of (remember_all io now peer gs s) peer) = table (grants_of s peer) ++ table (rev gs)"
    "pk \<noteq> peer \<Longrightarrow> grants_of (remember_all io now peer gs s) pk = grants_of s pk"
proof -
  have "wf_store (remember_all io now peer gs s)
    \<and> table (grants_of (remember_all io now peer gs s) peer) = table (grants_of s peer) ++ table (rev gs)
    \<and> (pk \<noteq> peer \<longrightarrow> grants_of (remember_all io now peer gs s) pk = grants_of s pk)"
    using assms
  proof (induction gs arbitrary: s)
    case Nil
    then show ?case by (simp add: remember_all_def table_def)
  next
    case (Cons g gs)
    let ?s = "fst (Remember io now s peer g)"
    have w: "wf_store ?s" using Remember_wf[OF Cons.prems] .
    have g: "grants_of ?s peer = replace_grant (grants_of s peer) g" "pk \<noteq> peer \<Longrightarrow> grants_of ?s pk = grants_of s pk"
      by (auto simp: Remember_def Let_def grants_of_put) (auto simp: grants_of_def split: option.split)
    have t: "table (grants_of ?s peer) = (table (grants_of s peer))(scope g \<mapsto> g)"
      using g(1) replace_grant_table(2)[OF wf_store_grants[OF Cons.prems]] by simp
    have "table (rev (g # gs)) = [scope g \<mapsto> g] ++ table (rev gs)" by (simp add: table_def)
    then have u: "table (grants_of ?s peer) ++ table (rev gs) = table (grants_of s peer) ++ table (rev (g # gs))"
      using t by (auto simp: map_add_def fun_eq_iff split: option.splits)
    have r: "remember_all io now peer (g # gs) s = remember_all io now peer gs ?s" by (simp add: remember_all_def)
    show ?case unfolding r u[symmetric] using Cons.IH[OF w] g(2) by metis
  qed
  then show "wf_store (remember_all io now peer gs s)"
    "table (grants_of (remember_all io now peer gs s) peer) = table (grants_of s peer) ++ table (rev gs)"
    "pk \<noteq> peer \<Longrightarrow> grants_of (remember_all io now peer gs s) pk = grants_of s pk" by blast+
qed

lemma table_rev: "wf_grants gs \<Longrightarrow> table (rev gs) = table gs"
proof (rule ext)
  fix sc assume w: "wf_grants gs"
  then have "wf_grants (rev gs)" by (simp add: wf_grants_def rev_map[symmetric])
  then have "table (rev gs) sc = Some g \<longleftrightarrow> table gs sc = Some g" for g using table_Some w by (metis set_rev)
  then show "table (rev gs) sc = table gs sc" by (metis option.exhaust)
qed

lemma Store_Pair_grants: "grants_of (fst (Store_Pair io now s peer name url)) pk = grants_of s pk"
  by (simp add: Store_Pair_def grants_of_put) (auto simp: grants_of_def)

lemma Store_Pair_paired: "IsPaired (fst (Store_Pair io now s peer name url)) peer"
  by (simp add: Store_Pair_def IsPaired_def put_session_def update_conv')

lemma pair_spec_taken [simp]: "h_pendingGrantSpec (pair io now call b h) = None"
  by (auto simp: pair_def takePendingGrantSpec_def Let_def split: option.splits prod.splits)

lemma SetName_grants: "grants_of (fst (SetName io s peer name)) pk = grants_of s pk"
  by (auto simp: SetName_def grants_of_put case_prod_beta split: option.split) (simp_all add: grants_of_def)

text \<open>The grants of a staged spec, and the app's paired state through the operations of \<open>pair\<close>.\<close>

definition staged_grants :: "Handler \<Rightarrow> gtime \<Rightarrow> Grant list" where
  "staged_grants h now = (case h_pendingGrantSpec h of None \<Rightarrow> [] | Some sp \<Rightarrow> GrantSpec_Resolve sp now)"

lemma Remember_paired: "IsPaired s pk \<Longrightarrow> IsPaired (fst (Remember io now s pk' g)) pk"
  by (auto simp: Remember_def IsPaired_def Let_def put_session_def update_conv')

lemma remember_all_paired: "IsPaired s pk \<Longrightarrow> IsPaired (remember_all io now pk' gs s) pk"
  unfolding remember_all_def by (induction gs arbitrary: s) (simp_all add: Remember_paired)

lemma SetName_paired: "IsPaired s pk \<Longrightarrow> IsPaired (fst (SetName io s pk' name)) pk"
  by (auto simp: SetName_def IsPaired_def put_session_def update_conv' case_prod_beta split: option.split)

lemma pair_grants:
  assumes "wf_store (h_Store h)" "wf_grants (staged_grants h now)"
  shows "wf_store (h_Store (pair io now call b h))" "IsPaired (h_Store (pair io now call b h)) (call_Client call)"
    "table (grants_of (h_Store (pair io now call b h)) (call_Client call)) =
       table (grants_of (h_Store h) (call_Client call)) ++ table (if b then parsePerms (call_Perms call) now else []) ++ table (staged_grants h now)"
    "pk \<noteq> call_Client call \<Longrightarrow> grants_of (h_Store (pair io now call b h)) pk = grants_of (h_Store h) pk"
proof -
  obtain name url where nu: "(case call_Metadata call of None \<Rightarrow> ([], []) | Some nu \<Rightarrow> nu) = (name, url)" by (cases "case call_Metadata call of None \<Rightarrow> ([], []) | Some nu \<Rightarrow> nu")
  let ?peer = "call_Client call"
  let ?ps = "if b then parsePerms (call_Perms call) now else []"
  define s1 where "s1 = fst (Store_Pair io now (h_Store h) ?peer name url)"
  define s2 where "s2 = remember_all io now ?peer ?ps s1"
  define s3 where "s3 = remember_all io now ?peer (staged_grants h now) s2"
  have pw: "wf_grants ?ps" using parse_entries_ok by (simp add: parsePerms_def)
  have s1: "wf_store s1" "IsPaired s1 ?peer" "grants_of s1 = grants_of (h_Store h)"
    using Pair_wf[OF assms(1)] Store_Pair_paired Store_Pair_grants by (auto simp: s1_def)
  have s2: "wf_store s2" "table (grants_of s2 ?peer) = table (grants_of (h_Store h) ?peer) ++ table ?ps" "pk \<noteq> ?peer \<Longrightarrow> grants_of s2 pk = grants_of (h_Store h) pk"
    using remember_all_grants[OF s1(1)] table_rev[OF pw] s1(3) by (simp_all add: s2_def)
  have s3: "wf_store s3" "table (grants_of s3 ?peer) = table (grants_of s2 ?peer) ++ table (staged_grants h now)" "pk \<noteq> ?peer \<Longrightarrow> grants_of s3 pk = grants_of s2 pk"
    using remember_all_grants[OF s2(1)] table_rev[OF assms(2)] by (simp_all add: s3_def)
  have q: "IsPaired s3 ?peer" unfolding s3_def s2_def using s1(2) by (intro remember_all_paired)
  have "h_Store (pair io now call b h) = s3 \<or> (\<exists>n. h_Store (pair io now call b h) = fst (SetName io s3 ?peer n))"
    using nu unfolding pair_def takePendingGrantSpec_def Let_def s3_def s2_def s1_def staged_grants_def
    by (auto simp: remember_all_def split: option.split)
  then show "wf_store (h_Store (pair io now call b h))" "IsPaired (h_Store (pair io now call b h)) ?peer"
    "table (grants_of (h_Store (pair io now call b h)) ?peer) = table (grants_of (h_Store h) ?peer) ++ table ?ps ++ table (staged_grants h now)"
    "pk \<noteq> call_Client call \<Longrightarrow> grants_of (h_Store (pair io now call b h)) pk = grants_of (h_Store h) pk"
    using s3 s2(2,3) q SetName_wf SetName_grants SetName_paired by auto
qed

text \<open>What lets \<open>Authorize\<close> allow a call without asking.\<close>

lemma Authorize_start_Allowed:
  assumes "Authorize_start io now call h = (h', Allowed)"
  shows "call_Method call = MethodConnect \<and> h_pendingGrantSpec h \<noteq> None
    \<or> (call_Method call = MethodSwitchRelays \<or> call_Method call = MethodLogout) \<and> IsPaired (h_Store h) (call_Client call)
    \<or> snd (Decide io now (h_Store h) (call_Client call) (call_Method call) (call_kind call)) = Allow"
  using assms
  by (cases "Decide io now (h_Store h) (call_Client call) (call_Method call) (call_kind call)")
    (auto simp: Authorize_start_def Let_def split: if_splits Verdict.splits prod.splits add_start.splits)

end
