(* ===== verification/Bunker_Queue_Safe.thy ===== *)
theory Bunker_Queue_Safe
  imports Bunker_Queue
begin

text \<open>
  The invariant of the queue under every interleaving of its critical sections, by rule induction over
  the reachable states.
\<close>

section \<open>The invariant\<close>

definition ids_ok :: "(string \<times> nat) list \<Rightarrow> entry list \<Rightarrow> bool" where
  "ids_ok ids h \<longleftrightarrow> distinct (map fst ids)
     \<and> (\<forall>k a. (k, a) \<in> set ids \<longrightarrow> a < length h \<and> pd_ID (e_pending (h ! a)) = k)
     \<and> (\<forall>a < length h. \<not> e_resolved (h ! a) \<longrightarrow> map_of ids (pd_ID (e_pending (h ! a))) = Some a)"

definition count_pending :: "(string \<times> nat) list \<Rightarrow> entry list \<Rightarrow> nat" where
  "count_pending ids h = length (filter (\<lambda>(k, a). \<not> e_resolved (h ! a)) ids)"

lemma pending_count_eq: "pending_count q = int (count_pending (q_byID q) (q_heap q))"
  by (simp add: pending_count_def count_pending_def)

text \<open>An entry is waiting for a decision, or its resolution is in flight, or it was delivered, once.\<close>

definition flying :: "entry list \<Rightarrow> nat \<Rightarrow> bool" where
  "flying h a \<longleftrightarrow> a < length h \<and> e_resolved (h ! a) \<and> \<not> e_done (h ! a)"

definition landed :: "entry list \<Rightarrow> nat \<Rightarrow> bool" where
  "landed h a \<longleftrightarrow> a < length h \<and> e_done (h ! a)"

definition flight_ok :: "entry list \<Rightarrow> nat list \<Rightarrow> nat list \<Rightarrow> bool" where
  "flight_ok h fl ev \<longleftrightarrow> distinct fl \<and> distinct ev \<and> set fl = {a. flying h a} \<and> set ev = {a. landed h a}
     \<and> (\<forall>a. landed h a \<longrightarrow> e_resolved (h ! a))"

definition event_of :: "entry \<Rightarrow> ResolvedEvent" where
  "event_of e = \<lparr>re_Pending = e_pending e, re_Verdict = res_verdict (e_result e), re_Remembered = res_remembered (e_result e),
     re_Expired = res_expired (e_result e), re_AutoApproved = False\<rparr>"

definition answer_of :: "entry \<Rightarrow> Verdict \<times> bool" where
  "answer_of e = (res_verdict (e_result e), res_remembered (e_result e))"

definition answers_ok :: "entry list \<Rightarrow> (nat \<times> ResolvedEvent) list \<Rightarrow> nat list \<Rightarrow> (nat \<times> Verdict \<times> bool) list \<Rightarrow> bool" where
  "answers_ok h evs ws ans \<longleftrightarrow> (\<forall>a ev. (a, ev) \<in> set evs \<longrightarrow> ev = event_of (h ! a)) \<and> (\<forall>a \<in> set ws. a < length h)
     \<and> (\<forall>a vr. (a, vr) \<in> set ans \<longrightarrow> landed h a \<and> vr = answer_of (h ! a))"

definition queue_inv :: "queue_state \<Rightarrow> bool" where
  "queue_inv s \<longleftrightarrow> ids_ok (q_byID (qs_queue s)) (q_heap (qs_queue s)) \<and> pending_count (qs_queue s) \<le> q_max (qs_queue s)
     \<and> flight_ok (q_heap (qs_queue s)) (map fst (qs_inflight s)) (map fst (qs_events s))
     \<and> answers_ok (q_heap (qs_queue s)) (qs_events s) (qs_waiting s) (qs_answers s)"

section \<open>Heap updates\<close>

lemma length_filter_mono: "(\<And>x. x \<in> set xs \<Longrightarrow> P x \<Longrightarrow> R x) \<Longrightarrow> length (filter P xs) \<le> length (filter R xs)"
  by (induction xs) auto

lemma count_pending_mono:
  assumes "\<And>k a. (k, a) \<in> set ids \<Longrightarrow> e_resolved (h ! a) \<Longrightarrow> e_resolved (h' ! a)"
  shows "count_pending ids h' \<le> count_pending ids h"
  unfolding count_pending_def using assms by (intro length_filter_mono) auto

lemma count_pending_filter: "count_pending (filter P ids) h \<le> count_pending ids h"
  unfolding count_pending_def filter_filter by (rule length_filter_mono) simp

definition mark_all :: "nat list \<Rightarrow> entry list \<Rightarrow> entry list" where
  "mark_all due h = fold (\<lambda>a h. h[a := (h ! a)\<lparr>e_resolved := True\<rparr>]) due h"

lemma length_mark_all [simp]: "length (mark_all due h) = length h"
  by (induction due arbitrary: h) (simp_all add: mark_all_def)

lemma nth_mark_all:
  "b < length h \<Longrightarrow> mark_all due h ! b = (if b \<in> set due then (h ! b)\<lparr>e_resolved := True\<rparr> else h ! b)"
proof (induction due arbitrary: h)
  case Nil
  then show ?case by (simp add: mark_all_def)
next
  case (Cons a due)
  have "mark_all (a # due) h ! b = mark_all due (h[a := (h ! a)\<lparr>e_resolved := True\<rparr>]) ! b" by (simp add: mark_all_def)
  then show ?case using Cons by (cases "a = b") auto
qed

definition due_list :: "gtime \<Rightarrow> Queue \<Rightarrow> nat list" where
  "due_list now q = map snd (filter (\<lambda>(k, a). is_due now q a) (q_byID q))"

lemma sweep_start_eq:
  "sweep_start now q = (q\<lparr>q_heap := mark_all (due_list now q) (q_heap q),
     q_byID := filter (\<lambda>(k, a). \<not> e_resolved (q_heap q ! a)) (q_byID q)\<rparr>, due_list now q)"
  by (simp add: sweep_start_def mark_all_def due_list_def Let_def)

lemma update_new: "map_of xs k = None \<Longrightarrow> AList.update k v xs = xs @ [(k, v)]"
  by (induction xs) (auto split: if_splits)

lemma ids_ok_addr:
  assumes "ids_ok ids h" "map_of ids k = Some a"
  shows "a < length h" "pd_ID (e_pending (h ! a)) = k"
  using assms(1) map_of_SomeD[OF assms(2)] unfolding ids_ok_def by blast+

lemma ids_ok_mem: "ids_ok ids h \<Longrightarrow> (k, a) \<in> set ids \<Longrightarrow> a < length h \<and> pd_ID (e_pending (h ! a)) = k"
  unfolding ids_ok_def by blast

lemma distinct_addrs: "ids_ok ids h \<Longrightarrow> distinct (map snd ids)"
proof -
  assume i: "ids_ok ids h"
  have "k = k'" if "(k, a) \<in> set ids" "(k', a) \<in> set ids" for k k' a
    using ids_ok_mem[OF i that(1)] ids_ok_mem[OF i that(2)] by simp
  then have "inj_on snd (set ids)" by (auto simp: inj_on_def)
  moreover have "distinct ids" using i unfolding ids_ok_def distinct_map by blast
  ultimately show ?thesis by (simp add: distinct_map)
qed

text \<open>Entries that keep their requests and are only marked leave the map right.\<close>

lemma ids_ok_update:
  assumes i: "ids_ok ids h" and l: "length h' = length h"
    and e: "\<And>a. a < length h \<Longrightarrow> e_pending (h' ! a) = e_pending (h ! a) \<and> (e_resolved (h ! a) \<longrightarrow> e_resolved (h' ! a))"
  shows "ids_ok ids h'" "count_pending ids h' \<le> count_pending ids h"
proof -
  show "count_pending ids h' \<le> count_pending ids h" using e ids_ok_mem[OF i] by (intro count_pending_mono) blast
  have "distinct (map fst ids)" using i unfolding ids_ok_def by blast
  moreover have "a < length h' \<and> pd_ID (e_pending (h' ! a)) = k" if "(k, a) \<in> set ids" for k a
    using ids_ok_mem[OF i that] e[of a] l by simp
  moreover have "map_of ids (pd_ID (e_pending (h' ! a))) = Some a" if "a < length h'" "\<not> e_resolved (h' ! a)" for a
    using i e[of a] that l unfolding ids_ok_def by simp
  ultimately show "ids_ok ids h'" unfolding ids_ok_def by blast
qed

text \<open>A heap that grows and keeps the entries that were delivered keeps the answers.\<close>

lemma answers_ok_keep:
  assumes a: "answers_ok h evs ws ans" and f: "set (map fst evs) = {a. landed h a}" and l: "length h \<le> length h'"
    and k: "\<And>a. landed h a \<Longrightarrow> e_done (h' ! a) \<and> e_pending (h' ! a) = e_pending (h ! a) \<and> e_result (h' ! a) = e_result (h ! a)"
  shows "answers_ok h' evs ws ans"
proof -
  have ev: "landed h a" if "(a, ev) \<in> set evs" for a ev using f that by force
  have "landed h' a" if "landed h a" for a using k[OF that] l that by (auto simp: landed_def)
  then show ?thesis using a ev k l unfolding answers_ok_def event_of_def answer_of_def by fastforce
qed

section \<open>The steps keep it\<close>

lemma inv_init: "queue_inv (queue_init m ttl)"
  by (simp add: queue_inv_def ids_ok_def flight_ok_def answers_ok_def queue_init_def NewQueue_def pending_count_def flying_def landed_def)

lemma inv_parts:
  assumes "queue_inv s"
  shows "ids_ok (q_byID (qs_queue s)) (q_heap (qs_queue s))" "pending_count (qs_queue s) \<le> q_max (qs_queue s)"
    "flight_ok (q_heap (qs_queue s)) (map fst (qs_inflight s)) (map fst (qs_events s))"
    "answers_ok (q_heap (qs_queue s)) (qs_events s) (qs_waiting s) (qs_answers s)"
    "set (map fst (qs_events s)) = {a. landed (q_heap (qs_queue s)) a}"
  using assms by (simp_all add: queue_inv_def flight_ok_def)

lemma inv_wait:
  assumes "queue_inv s" "Add_start now (qs_queue s) p = (q, AddWait a)"
  shows "queue_inv (s\<lparr>qs_queue := q, qs_waiting := a # qs_waiting s\<rparr>)"
proof -
  note i = inv_parts[OF assms(1)]
  have a: "q = qs_queue s" "map_of (q_byID (qs_queue s)) (pd_ID p) = Some a"
    using assms(2) by (auto simp: Add_start_def Let_def split: option.splits if_splits)
  have "a < length (q_heap (qs_queue s))" using ids_ok_addr(1)[OF i(1) a(2)] .
  then have "answers_ok (q_heap (qs_queue s)) (qs_events s) (a # qs_waiting s) (qs_answers s)" using i(4) by (simp add: answers_ok_def)
  then show ?thesis using i a(1) by (simp add: queue_inv_def)
qed

lemma ids_ok_new:
  assumes i: "ids_ok ids h" and n: "map_of ids (pd_ID (e_pending e)) = None" and e: "\<not> e_resolved e"
  shows "ids_ok (ids @ [(pd_ID (e_pending e), length h)]) (h @ [e])"
    "count_pending (ids @ [(pd_ID (e_pending e), length h)]) (h @ [e]) = count_pending ids h + 1"
proof -
  have "filter (\<lambda>(k, b). \<not> e_resolved ((h @ [e]) ! b)) ids = filter (\<lambda>(k, b). \<not> e_resolved (h ! b)) ids"
    using ids_ok_mem[OF i] by (intro filter_cong) (auto simp: nth_append)
  then show "count_pending (ids @ [(pd_ID (e_pending e), length h)]) (h @ [e]) = count_pending ids h + 1"
    using e by (simp add: count_pending_def)
  have "distinct (map fst (ids @ [(pd_ID (e_pending e), length h)]))"
    using i n by (simp add: ids_ok_def map_of_eq_None_iff)
  moreover have "a < length (h @ [e]) \<and> pd_ID (e_pending ((h @ [e]) ! a)) = k"
    if "(k, a) \<in> set (ids @ [(pd_ID (e_pending e), length h)])" for k a
    using that ids_ok_mem[OF i, of k a] by (auto simp: nth_append)
  moreover have "map_of (ids @ [(pd_ID (e_pending e), length h)]) (pd_ID (e_pending ((h @ [e]) ! a))) = Some a"
    if a: "a < length (h @ [e])" "\<not> e_resolved ((h @ [e]) ! a)" for a
  proof (cases "a = length h")
    case True
    then show ?thesis using n by (simp add: map_add_Some_iff)
  next
    case False
    then have "(h @ [e]) ! a = h ! a" "a < length h" using a(1) by (auto simp: nth_append)
    then have "map_of ids (pd_ID (e_pending (h ! a))) = Some a" using i a(2) unfolding ids_ok_def by simp
    moreover have "pd_ID (e_pending (h ! a)) \<noteq> pd_ID (e_pending e)" using calculation n by auto
    ultimately show ?thesis using \<open>(h @ [e]) ! a = h ! a\<close> by simp
  qed
  ultimately show "ids_ok (ids @ [(pd_ID (e_pending e), length h)]) (h @ [e])" unfolding ids_ok_def by blast
qed

lemma inv_new:
  assumes "queue_inv s" "Add_start now (qs_queue s) p = (q, AddNew a)"
  shows "queue_inv (s\<lparr>qs_queue := q, qs_waiting := a # qs_waiting s\<rparr>)"
proof -
  let ?q = "qs_queue s" and ?h = "q_heap (qs_queue s)"
  note i = inv_parts[OF assms(1)]
  define e where "e = \<lparr>e_pending = p\<lparr>pd_CreatedAt := now, pd_ExpiresAt := time_add now (q_ttl ?q)\<rparr>, e_done = False,
     e_result = no_resolution, e_resolved = False\<rparr>"
  have none: "map_of (q_byID ?q) (pd_ID (e_pending e)) = None" and cnt: "pending_count ?q < q_max ?q"
    and q: "q = ?q\<lparr>q_heap := ?h @ [e], q_byID := q_byID ?q @ [(pd_ID (e_pending e), length ?h)]\<rparr>" and a: "a = length ?h"
    using assms(2) by (auto simp: Add_start_def Let_def e_def update_new split: option.splits if_splits)
  have ne: "\<not> e_resolved e" "\<not> e_done e" by (simp_all add: e_def)
  note n = ids_ok_new[OF i(1) none ne(1)]
  have "flying (?h @ [e]) b \<longleftrightarrow> flying ?h b" "landed (?h @ [e]) b \<longleftrightarrow> landed ?h b" for b
    using ne by (auto simp: flying_def landed_def nth_append)
  then have "flight_ok (?h @ [e]) (map fst (qs_inflight s)) (map fst (qs_events s))"
    using i(3) by (auto simp: flight_ok_def landed_def nth_append)
  moreover have "answers_ok (?h @ [e]) (qs_events s) (qs_waiting s) (qs_answers s)"
    using answers_ok_keep[OF i(4,5), of "?h @ [e]"] by (simp add: landed_def nth_append)
  then have "answers_ok (?h @ [e]) (qs_events s) (a # qs_waiting s) (qs_answers s)" using a by (simp add: answers_ok_def)
  ultimately show ?thesis using n cnt by (simp add: queue_inv_def q pending_count_eq)
qed

lemma inv_resolve:
  assumes "queue_inv s" "Resolve_start (qs_queue s) aid = (q, Some a)"
  shows "queue_inv (s\<lparr>qs_queue := q, qs_inflight := (a, r) # qs_inflight s\<rparr>)"
proof -
  let ?q = "qs_queue s" and ?h = "q_heap (qs_queue s)"
  let ?h' = "?h[a := (?h ! a)\<lparr>e_resolved := True\<rparr>]"
  note i = inv_parts[OF assms(1)]
  have a: "map_of (q_byID ?q) aid = Some a" "\<not> e_resolved (?h ! a)" and q: "q = ?q\<lparr>q_heap := ?h'\<rparr>"
    using assms(2) by (auto simp: Resolve_start_def set_entry_def split: option.splits if_splits)
  have la: "a < length ?h" using ids_ok_addr(1)[OF i(1) a(1)] .
  have h: "?h' ! b = (if b = a then (?h ! a)\<lparr>e_resolved := True\<rparr> else ?h ! b)" for b using la by (simp add: nth_list_update)
  have u: "ids_ok (q_byID ?q) ?h'" "count_pending (q_byID ?q) ?h' \<le> count_pending (q_byID ?q) ?h"
    by (rule ids_ok_update[OF i(1)]; auto simp: h)+
  have nd: "\<not> e_done (?h ! a)" using i(3) a(2) la unfolding flight_ok_def landed_def by blast
  have "flying ?h' b \<longleftrightarrow> b = a \<or> flying ?h b" "landed ?h' b \<longleftrightarrow> landed ?h b" for b
    using la nd by (auto simp: flying_def landed_def h)
  then have "flight_ok ?h' (a # map fst (qs_inflight s)) (map fst (qs_events s))"
    using i(3) a(2) by (auto simp: flight_ok_def flying_def h)
  moreover have "answers_ok ?h' (qs_events s) (qs_waiting s) (qs_answers s)"
    by (rule answers_ok_keep[OF i(4,5)]) (auto simp: h landed_def)
  ultimately show ?thesis using u i(2) by (simp add: queue_inv_def q pending_count_eq)
qed

lemma inv_deliver:
  assumes "queue_inv s" "qs_inflight s = xs @ (a, r) # ys" "deliver (qs_queue s) a r = (q, ev)"
  shows "queue_inv (s\<lparr>qs_queue := q, qs_inflight := xs @ ys, qs_events := (a, ev) # qs_events s\<rparr>)"
proof -
  let ?q = "qs_queue s" and ?h = "q_heap (qs_queue s)"
  let ?e = "(?h ! a)\<lparr>e_result := r, e_done := True\<rparr>"
  let ?h' = "?h[a := ?e]"
  note i = inv_parts[OF assms(1)]
  have q: "q = ?q\<lparr>q_heap := ?h'\<rparr>" and ev: "ev = event_of ?e"
    using assms(3) by (auto simp: deliver_def set_entry_def event_of_def)
  have fl: "set (map fst (qs_inflight s)) = insert a (set (map fst (xs @ ys)))" "a \<notin> set (map fst (xs @ ys))" "distinct (map fst (xs @ ys))"
    using i(3) unfolding flight_ok_def assms(2) by auto
  have "flying ?h a" using i(3) fl(1) unfolding flight_ok_def by blast
  then have la: "a < length ?h" "e_resolved (?h ! a)" "\<not> e_done (?h ! a)" by (auto simp: flying_def)
  have h: "?h' ! b = (if b = a then ?e else ?h ! b)" for b using la(1) by (simp add: nth_list_update)
  have u: "ids_ok (q_byID ?q) ?h'" "count_pending (q_byID ?q) ?h' \<le> count_pending (q_byID ?q) ?h"
    by (rule ids_ok_update[OF i(1)]; auto simp: h)+
  have fly: "flying ?h' b \<longleftrightarrow> b \<noteq> a \<and> flying ?h b" and land: "landed ?h' b \<longleftrightarrow> b = a \<or> landed ?h b" for b
    using la(1) by (auto simp: flying_def landed_def h)
  have sets: "set (map fst (qs_inflight s)) = {b. flying ?h b}" "set (map fst (qs_events s)) = {b. landed ?h b}"
    "distinct (map fst (qs_events s))" "\<And>b. landed ?h b \<Longrightarrow> e_resolved (?h ! b)"
    using i(3) unfolding flight_ok_def by blast+
  have f1: "set (map fst (xs @ ys)) = {b. flying ?h' b}" using fl sets(1) fly by auto
  have f2: "set (map fst ((a, ev) # qs_events s)) = {b. landed ?h' b}" using sets(2) land by auto
  have nl: "\<not> landed ?h a" using la(3) by (simp add: landed_def)
  have f3: "distinct (map fst ((a, ev) # qs_events s))" using sets(2,3) nl by auto
  have f4: "landed ?h' b \<longrightarrow> e_resolved (?h' ! b)" for b using sets(4) land la(2) by (auto simp: h)
  have "flight_ok ?h' (map fst (xs @ ys)) (map fst ((a, ev) # qs_events s))"
    unfolding flight_ok_def using f1 f2 f3 f4 fl(3) by blast
  moreover have "answers_ok ?h' (qs_events s) (qs_waiting s) (qs_answers s)"
    by (rule answers_ok_keep[OF i(4,5)]) (use nl in \<open>auto simp: h landed_def\<close>)
  then have "answers_ok ?h' ((a, ev) # qs_events s) (qs_waiting s) (qs_answers s)"
    using ev la(1) by (simp add: answers_ok_def h)
  ultimately show ?thesis using u la i(2) by (simp add: queue_inv_def q pending_count_eq)
qed

lemma due_listD: "a \<in> set (due_list now q) \<longleftrightarrow> (\<exists>k. (k, a) \<in> set (q_byID q)) \<and> is_due now q a"
  by (force simp: due_list_def)

lemma inv_sweep:
  assumes "queue_inv s" "sweep_start now (qs_queue s) = (q, due)"
  shows "queue_inv (s\<lparr>qs_queue := q, qs_inflight := map (\<lambda>a. (a, swept)) due @ qs_inflight s\<rparr>)"
proof -
  let ?q = "qs_queue s" and ?h = "q_heap (qs_queue s)"
  let ?h' = "mark_all (due_list now ?q) ?h"
  note i = inv_parts[OF assms(1)]
  let ?keep = "filter (\<lambda>(k, a). \<not> e_resolved (?h ! a)) (q_byID ?q)"
  have q: "q = ?q\<lparr>q_heap := ?h', q_byID := ?keep\<rparr>" and due: "due = due_list now ?q"
    using assms(2) by (auto simp: sweep_start_eq)
  have h: "?h' ! b = (if b \<in> set due then (?h ! b)\<lparr>e_resolved := True\<rparr> else ?h ! b)" if "b < length ?h" for b
    using nth_mark_all[OF that] due by simp
  have la: "b < length ?h \<and> \<not> e_resolved (?h ! b)" if "b \<in> set due" for b
    using that due due_listD ids_ok_mem[OF i(1)] unfolding is_due_def by blast
  have nd: "\<not> e_done (?h ! b)" if "b \<in> set due" for b
    using la[OF that] i(3) unfolding flight_ok_def landed_def by blast
  have ids: "ids_ok (q_byID ?q) ?h'" "count_pending (q_byID ?q) ?h' \<le> count_pending (q_byID ?q) ?h"
    by (rule ids_ok_update[OF i(1)]; simp add: h)+
  have "ids_ok ?keep ?h'"
  proof -
    have "distinct (map fst ?keep)" using i(1) by (simp add: ids_ok_def distinct_map_filter)
    moreover have "a < length ?h' \<and> pd_ID (e_pending (?h' ! a)) = k" if "(k, a) \<in> set ?keep" for k a
      using ids_ok_mem[OF ids(1), of k a] that by simp
    moreover have "map_of ?keep (pd_ID (e_pending (?h' ! a))) = Some a" if a: "a < length ?h'" "\<not> e_resolved (?h' ! a)" for a
    proof -
      have m: "map_of (q_byID ?q) (pd_ID (e_pending (?h' ! a))) = Some a" using ids(1) a unfolding ids_ok_def by blast
      have "\<not> e_resolved (?h ! a)" using a h[of a] by (auto split: if_splits)
      moreover have "distinct (map fst (q_byID ?q))" using i(1) unfolding ids_ok_def by blast
      ultimately show ?thesis using map_of_SomeD[OF m] by (simp add: distinct_map_filter)
    qed
    ultimately show ?thesis unfolding ids_ok_def by blast
  qed
  moreover have "count_pending ?keep ?h' \<le> count_pending (q_byID ?q) ?h" using count_pending_filter ids(2) order_trans by blast
  moreover have "flight_ok ?h' (due @ map fst (qs_inflight s)) (map fst (qs_events s))"
  proof -
    have fly: "flying ?h' b \<longleftrightarrow> b \<in> set due \<or> flying ?h b" and land: "landed ?h' b \<longleftrightarrow> landed ?h b" for b
      using la nd h[of b] by (auto simp: flying_def landed_def split: if_splits)
    have "distinct due" unfolding due due_list_def using distinct_addrs[OF i(1)] by (simp add: distinct_map_filter)
    moreover have "set due \<inter> set (map fst (qs_inflight s)) = {}" using i(3) la unfolding flight_ok_def flying_def by blast
    moreover have "landed ?h' b \<longrightarrow> e_resolved (?h' ! b)" for b
      using i(3) land h[of b] unfolding flight_ok_def landed_def by auto
    ultimately show ?thesis using i(3) fly land unfolding flight_ok_def by auto
  qed
  moreover have "answers_ok ?h' (qs_events s) (qs_waiting s) (qs_answers s)"
    by (rule answers_ok_keep[OF i(4,5)]) (auto simp: h landed_def)
  ultimately show ?thesis using i(2) by (simp add: queue_inv_def q comp_def pending_count_eq)
qed

lemma inv_answer:
  assumes "queue_inv s" "qs_waiting s = xs @ a # ys" "Add_end (qs_queue s) a = Some vr"
  shows "queue_inv (s\<lparr>qs_waiting := xs @ ys, qs_answers := (a, vr) # qs_answers s\<rparr>)"
proof -
  note i = inv_parts[OF assms(1)]
  have "a < length (q_heap (qs_queue s))" using i(4) assms(2) by (simp add: answers_ok_def)
  moreover have "e_done (q_heap (qs_queue s) ! a)" "vr = answer_of (q_heap (qs_queue s) ! a)"
    using assms(3) by (auto simp: Add_end_def answer_of_def split: if_splits)
  ultimately have "answers_ok (q_heap (qs_queue s)) (qs_events s) (xs @ ys) ((a, vr) # qs_answers s)"
    using i(4) assms(2) by (simp add: answers_ok_def landed_def)
  then show ?thesis using i by (simp add: queue_inv_def)
qed

lemma queue_step_inv: "queue_step s s' \<Longrightarrow> queue_inv s \<Longrightarrow> queue_inv s'"
  by (induction rule: queue_step.induct)
    (auto intro: inv_wait inv_new inv_resolve inv_sweep inv_deliver inv_answer)

lemma queue_reachable_inv: "queue_reachable m ttl s \<Longrightarrow> queue_inv s"
  by (induction rule: queue_reachable.induct) (auto intro: inv_init queue_step_inv)

section \<open>Answers\<close>

text \<open>A call that waits on a delivered entry can return, and one whose entry's resolution is in flight can return after its delivery.\<close>

lemma answer_landed:
  assumes "a \<in> set (qs_waiting s)" "e_done (q_heap (qs_queue s) ! a)"
  shows "\<exists>s'. queue_step s s' \<and> (a, answer_of (q_heap (qs_queue s) ! a)) \<in> set (qs_answers s')"
proof -
  obtain xs ys where w: "qs_waiting s = xs @ a # ys" using assms(1) by (meson split_list)
  have "Add_end (qs_queue s) a = Some (answer_of (q_heap (qs_queue s) ! a))" using assms(2) by (simp add: Add_end_def answer_of_def)
  from q_answer[OF w this] obtain s' where "queue_step s s'" "qs_answers s' = (a, answer_of (q_heap (qs_queue s) ! a)) # qs_answers s" by fastforce
  then show ?thesis by (metis list.set_intros(1))
qed

lemma answer_flying:
  assumes "a \<in> set (qs_waiting s)" "(a, r) \<in> set (qs_inflight s)" "a < length (q_heap (qs_queue s))"
  shows "\<exists>s'. queue_step\<^sup>*\<^sup>* s s' \<and> (a, res_verdict r, res_remembered r) \<in> set (qs_answers s')"
proof -
  obtain xs ys where f: "qs_inflight s = xs @ (a, r) # ys" using assms(2) by (meson split_list)
  obtain q ev where d: "deliver (qs_queue s) a r = (q, ev)" by fastforce
  let ?s = "s\<lparr>qs_queue := q, qs_inflight := xs @ ys, qs_events := (a, ev) # qs_events s\<rparr>"
  have e: "q_heap q ! a = (q_heap (qs_queue s) ! a)\<lparr>e_result := r, e_done := True\<rparr>"
    using d assms(3) by (auto simp: deliver_def set_entry_def)
  have "\<exists>s'. queue_step ?s s' \<and> (a, answer_of (q_heap (qs_queue ?s) ! a)) \<in> set (qs_answers s')"
    using assms(1) e by (intro answer_landed) simp_all
  moreover have "answer_of (q_heap (qs_queue ?s) ! a) = (res_verdict r, res_remembered r)" using e by (simp add: answer_of_def)
  ultimately obtain s' where "queue_step ?s s'" "(a, res_verdict r, res_remembered r) \<in> set (qs_answers s')" by metis
  then show ?thesis using q_deliver[OF f d] by (meson converse_rtranclp_into_rtranclp r_into_rtranclp)
qed

text \<open>After a sweep past its expiry every waiting call can return, and one that was undecided is denied.\<close>

lemma sweep_answers:
  assumes inv: "queue_inv s" and w: "a \<in> set (qs_waiting s)"
    and t: "\<not> now < pd_ExpiresAt (e_pending (q_heap (qs_queue s) ! a))" and sw: "sweep_start now (qs_queue s) = (q, due)"
  defines "s1 \<equiv> s\<lparr>qs_queue := q, qs_inflight := map (\<lambda>a. (a, swept)) due @ qs_inflight s\<rparr>"
  shows "\<exists>s' v. queue_step\<^sup>*\<^sup>* s1 s' \<and> (a, v) \<in> set (qs_answers s') \<and> (e_resolved (q_heap (qs_queue s) ! a) \<or> v = (Deny, False))"
proof -
  let ?h = "q_heap (qs_queue s)"
  have inv1: "queue_inv s1" unfolding s1_def by (rule inv_sweep[OF inv sw])
  have a: "a < length ?h" using inv_parts(4)[OF inv] w by (simp add: answers_ok_def)
  have h1: "q_heap (qs_queue s1) = mark_all due ?h" "due = due_list now (qs_queue s)" using sw by (auto simp: s1_def sweep_start_eq)
  have w1: "a \<in> set (qs_waiting s1)" "a < length (q_heap (qs_queue s1))" using w a h1 by (simp_all add: s1_def)
  show ?thesis
  proof (cases "e_resolved (?h ! a)")
    case False
    then have "(pd_ID (e_pending (?h ! a)), a) \<in> set (q_byID (qs_queue s))"
      using inv_parts(1)[OF inv] a by (auto simp: ids_ok_def dest: map_of_SomeD)
    then have "a \<in> set due" using False t h1(2) due_listD by (auto simp: is_due_def)
    then have "(a, swept) \<in> set (qs_inflight s1)" by (auto simp: s1_def)
    from answer_flying[OF w1(1) this w1(2)] show ?thesis by (auto simp: swept_def)
  next
    case True
    then have r: "e_resolved (q_heap (qs_queue s1) ! a)" using h1 a nth_mark_all by simp
    show ?thesis
    proof (cases "e_done (q_heap (qs_queue s1) ! a)")
      case True
      then show ?thesis using answer_landed[OF w1(1)] \<open>e_resolved (?h ! a)\<close> by blast
    next
      case False
      then have "a \<in> set (map fst (qs_inflight s1))" using r w1(2) inv_parts(3)[OF inv1] unfolding flight_ok_def flying_def by blast
      then obtain x where "(a, x) \<in> set (qs_inflight s1)" by auto
      from answer_flying[OF w1(1) this w1(2)] show ?thesis using \<open>e_resolved (?h ! a)\<close> by blast
    qed
  qed
qed

end
