(* ===== verification/Bunker_Theorems.thy ===== *)
theory Bunker_Theorems
  imports Bunker_Handler Bunker_Queue_Safe "HOL-Library.Countable"
begin

text \<open>
  The properties of the bunker: what a remembered grant lets through, that the store is a table of grants which
  survives a restart, that no blocked request is left without an answer, and what the operator's decisions
  leave behind.
\<close>

section \<open>Stores over time\<close>

text \<open>
  The stores the daemon can come to have, through its operations, failed writes included, and restarts, for a codec
  \<open>mar\<close>, \<open>unm\<close>.
\<close>

definition codec :: "(Session list \<Rightarrow> string) \<Rightarrow> (string \<Rightarrow> goerr + Session list) \<Rightarrow> bool \<Rightarrow> store_io" where
  "codec mar unm ok = \<lparr>io_marshal = mar, io_unmarshal = unm, io_ok = ok\<rparr>"

inductive store_reachable :: "(Session list \<Rightarrow> string) \<Rightarrow> (string \<Rightarrow> goerr + Session list) \<Rightarrow> Store \<Rightarrow> bool" for mar unm where
  st_first: "LoadStore (codec mar unm ok) None = Inr s \<Longrightarrow> store_reachable mar unm s"
| st_restart: "store_reachable mar unm s \<Longrightarrow> LoadStore (codec mar unm ok) (store_file s) = Inr s' \<Longrightarrow> store_reachable mar unm s'"
| st_decide: "store_reachable mar unm s \<Longrightarrow> store_reachable mar unm (fst (Decide (codec mar unm ok) now s pk m k))"
| st_prune: "store_reachable mar unm s \<Longrightarrow> store_reachable mar unm (Prune (codec mar unm ok) now s)"
| st_pair: "store_reachable mar unm s \<Longrightarrow> store_reachable mar unm (fst (Store_Pair (codec mar unm ok) now s pk name url))"
| st_remember: "store_reachable mar unm s \<Longrightarrow> store_reachable mar unm (fst (Remember (codec mar unm ok) now s pk g))"
| st_revoke: "store_reachable mar unm s \<Longrightarrow> store_reachable mar unm (fst (Revoke (codec mar unm ok) s pk))"
| st_revoke_grant: "store_reachable mar unm s \<Longrightarrow> store_reachable mar unm (fst (RevokeGrant (codec mar unm ok) s pk m ko))"
| st_name: "store_reachable mar unm s \<Longrightarrow> store_reachable mar unm (fst (SetName (codec mar unm ok) s pk name))"

text \<open>The file holds the sessions of a well-formed store.\<close>

definition file_ok :: "(Session list \<Rightarrow> string) \<Rightarrow> Store \<Rightarrow> bool" where
  "file_ok mar s \<longleftrightarrow> (\<forall>data. store_file s = Some data \<longrightarrow> (\<exists>s0. wf_store s0 \<and> data = mar (map snd (byPub s0))))"

lemma codec_fields [simp]: "io_marshal (codec mar unm ok) = mar" "io_unmarshal (codec mar unm ok) = unm" "io_ok (codec mar unm ok) = ok"
  by (simp_all add: codec_def)

lemma file_ok_save: "wf_store s \<Longrightarrow> file_ok mar s \<Longrightarrow> file_ok mar (fst (saveLocked (codec mar unm ok) s))"
  by (auto simp: file_ok_def saveLocked_def)

lemma file_ok_cong: "store_file s' = store_file s \<Longrightarrow> file_ok mar s \<Longrightarrow> file_ok mar s'"
  by (simp add: file_ok_def)

lemma put_session_file [simp]: "store_file (put_session s sess pk) = store_file s"
  by (simp add: put_session_def)

lemma byPub_file [simp]: "store_file (s\<lparr>byPub := x\<rparr>) = store_file s"
  by simp

text \<open>An operation either leaves the file alone or saves the store it leaves.\<close>

definition saves :: "store_io \<Rightarrow> Store \<Rightarrow> Store \<Rightarrow> bool" where
  "saves io s s' \<longleftrightarrow> store_file s' = store_file s \<or> (\<exists>s1. s' = fst (saveLocked io s1) \<and> store_file s1 = store_file s)"

lemma saves_same: "store_file s' = store_file s \<Longrightarrow> saves io s s'"
  by (simp add: saves_def)

lemma saves_save: "store_file s1 = store_file s \<Longrightarrow> saves io s (fst (saveLocked io s1))"
  by (auto simp: saves_def)

lemma store_inv_step:
  assumes "wf_store s \<and> file_ok mar s" "wf_store s'" "saves (codec mar unm ok) s s'"
  shows "wf_store s' \<and> file_ok mar s'"
proof -
  have "file_ok mar (fst (saveLocked (codec mar unm ok) s1))" if "s' = fst (saveLocked (codec mar unm ok) s1)" "store_file s1 = store_file s" for s1
    using that assms(1,2) file_ok_save[of s1] file_ok_cong[of s1 s] by simp
  then show ?thesis using assms file_ok_cong unfolding saves_def by blast
qed

lemma resolveGrant_saves: "saves io s (fst (resolveGrant io s pk sess i))"
  by (auto simp: resolveGrant_def Let_def split: option.split intro: saves_same saves_save)

lemma store_ops_save:
  "saves io s (fst (Decide io now s pk m k))" "saves io s (Prune io now s)" "saves io s (fst (Store_Pair io now s pk name url))"
  "saves io s (fst (Remember io now s pk g))" "saves io s (fst (Revoke io s pk))" "saves io s (fst (RevokeGrant io s pk m ko))"
  "saves io s (fst (SetName io s pk name))"
  by (auto simp: Decide_def Prune_def Store_Pair_def Remember_def Revoke_def RevokeGrant_def SetName_def Let_def case_prod_beta
      split: option.split intro: saves_same saves_save resolveGrant_saves)

lemma LoadStore_inv:
  assumes "LoadStore (codec mar unm ok) (store_file s) = Inr s'" "file_ok mar s" "\<forall>ss. unm (mar ss) = Inr ss"
  shows "wf_store s' \<and> file_ok mar s'"
proof (cases "store_file s")
  case None
  then show ?thesis using assms(1) by (auto simp: LoadStore_def wf_store_def file_ok_def)
next
  case (Some data)
  then obtain s0 where s0: "wf_store s0" "data = mar (map snd (byPub s0))" using assms(2) by (auto simp: file_ok_def)
  have "LoadStore (codec mar unm True) (store_file (s0\<lparr>store_file := Some data\<rparr>)) = Inr (s0\<lparr>store_file := Some data\<rparr>)"
    using save_load[of s0 "codec mar unm True" "s0\<lparr>store_file := Some data\<rparr>"] s0 assms(3) by (simp add: codec_ok_def saveLocked_def)
  then have "s' = s0\<lparr>store_file := Some data\<rparr>" using assms(1) Some by (auto simp: LoadStore_def split: sum.splits)
  then show ?thesis using s0 by (auto simp: wf_store_def file_ok_def)
qed

lemma store_reachable_inv:
  assumes "store_reachable mar unm s" "\<forall>ss. unm (mar ss) = Inr ss"
  shows "wf_store s \<and> file_ok mar s"
  using assms(1)
proof (induction rule: store_reachable.induct)
  case (st_first ok s)
  then show ?case by (auto simp: LoadStore_def wf_store_def file_ok_def)
next
  case (st_restart s ok s')
  then show ?case using LoadStore_inv assms(2) by blast
qed ((rule store_inv_step, assumption, blast intro: Decide_wf Prune_wf Pair_wf Remember_wf Revoke_wf RevokeGrant_wf SetName_wf, rule store_ops_save)+)

section \<open>Remembered grants\<close>

text \<open>
  C9. Signing a profile, a contact list or a deletion (kinds 0, 3 and 5) is never allowed by a remembered grant, whatever
  the store holds.
\<close>

theorem sensitive_kinds_never_remembered:
  assumes "k \<in> sensitiveKinds"
  shows "snd (Decide io now s pk MethodSignEvent k) \<noteq> Allow"
proof
  assume "snd (Decide io now s pk MethodSignEvent k) = Allow"
  then obtain i where "pick (live now (grants_of s pk)) MethodSignEvent k = Some i" "g_Verdict (live now (grants_of s pk) ! i) = Allow"
    unfolding Decide_verdict by (auto split: option.splits)
  then show False using pick_SomeD(2) matches_not_sensitive assms by blast
qed

text \<open>A codec for the concrete instances: sessions are countable, and the text is the number of the list.\<close>

instance Verdict :: countable
  by countable_datatype

instance Grant_ext :: (countable) countable
  by (rule countable_classI[of "\<lambda>g. to_nat (g_Method g, g_Verdict g, g_Kind g, g_ExpiresAt g, g_RemainingUses g, g_CreatedAt g, Grant.more g)"])
     (simp add: Grant.equality)

instance Session_ext :: (countable) countable
  by (rule countable_classI[of "\<lambda>s. to_nat (s_Pubkey s, s_AppName s, s_AppURL s, s_Nickname s, s_PairedAt s, s_Grants s, Session.more s)"])
     (simp add: Session.equality)

definition ex_marshal :: "Session list \<Rightarrow> string" where
  "ex_marshal ss = nat_text (to_nat ss)"

definition ex_unmarshal :: "string \<Rightarrow> goerr + Session list" where
  "ex_unmarshal data = (case digits_value 0 data of None \<Rightarrow> Inl (Err ''yaml'' []) | Some n \<Rightarrow> Inr (from_nat n))"

lemma ex_codec: "ex_unmarshal (ex_marshal ss) = Inr ss"
  by (simp add: ex_unmarshal_def ex_marshal_def digits_value_nat_text)

abbreviation ex_io :: store_io where "ex_io \<equiv> codec ex_marshal ex_unmarshal True"

definition ex_session :: "Grant list \<Rightarrow> Session" where
  "ex_session gs = \<lparr>s_Pubkey = ''app'', s_AppName = [], s_AppURL = [], s_Nickname = [], s_PairedAt = 0, s_Grants = gs\<rparr>"

definition ex_store :: "Grant list \<Rightarrow> Store" where
  "ex_store gs = \<lparr>byPub = [(''app'', ex_session gs)], store_file = None\<rparr>"

lemma ex_store_simps [simp]: "grants_of (ex_store gs) ''app'' = gs" "wf_store (ex_store gs) \<longleftrightarrow> wf_grants gs"
  by (simp_all add: ex_store_def grants_of_def ex_session_def wf_store_def)

theorem sensitive_kinds_never_remembered_witness:
  "snd (Decide ex_io 0 (ex_store [GrantForever MethodSignEvent (Some 3) 0, GrantForever MethodSignEvent None 0]) ''app'' MethodSignEvent 3) \<noteq> Allow"
  by (rule sensitive_kinds_never_remembered) (simp add: sensitiveKinds_def)

text \<open>
  C10. \<open>Decide\<close> implements a table from scopes (a method, and a kind or any) to grants: the live grant of the exact scope
  decides if it covers the request, else the live one of the method's any-kind scope, else the operator is asked; the
  deciding grant loses a use and disappears with its last, expired grants disappear, and other apps' tables stay.
\<close>

theorem Decide_refines_table:
  assumes "wf_store s"
  shows "snd (Decide io now s pk m k) = spec_decide now (table (grants_of s pk)) m k
    \<and> table (grants_of (fst (Decide io now s pk m k)) pk) = spec_after now (table (grants_of s pk)) m k
    \<and> (pk' = pk \<or> table (grants_of (fst (Decide io now s pk m k)) pk') = table (grants_of s pk'))"
  using Decide_table[OF wf_store_grants[OF assms]] Decide_grants by simp

theorem Decide_refines_table_witness:
  "snd (Decide ex_io 0 (ex_store [GrantForUses MethodSignEvent (Some 1) 2 0, DenyAlways MethodSignEvent 0]) ''app'' MethodSignEvent 1) = Allow"
proof -
  let ?gs = "[GrantForUses MethodSignEvent (Some 1) 2 0, DenyAlways MethodSignEvent 0]"
  have w: "wf_store (ex_store ?gs)" by (simp add: scope_def GrantForUses_def DenyAlways_def newGrant_def)
  have "spec_decide 0 (table ?gs) MethodSignEvent 1 = Allow" by code_simp
  then show ?thesis using Decide_refines_table[OF w, of ex_io 0 "''app''" MethodSignEvent 1] by simp
qed

text \<open>
  A grant for a number of uses is never overspent: when every Allow grant an app holds for a method is limited, then of
  any requests, of any apps, at any times, no more of its requests of that method are allowed than the
  grants have uses left in all.
\<close>

theorem uses_never_overspent:
  assumes "limited m (grants_of s pk)"
  shows "allowed_requests io s reqs pk m \<le> budget m (grants_of s pk)"
  using allowed_requests_budget[OF assms] .

theorem uses_never_overspent_witness:
  "allowed_requests ex_io (ex_store [GrantForUses MethodPing None 2 0]) (replicate 5 (0, ''app'', MethodPing, 0)) ''app'' MethodPing \<le> 2"
proof -
  let ?gs = "[GrantForUses MethodPing None 2 0]"
  have "limited MethodPing (grants_of (ex_store ?gs) ''app'')" "budget MethodPing ?gs = 2"
    by (simp_all add: limited_def budget_def cost_def GrantForUses_def newGrant_def)
  then show ?thesis using uses_never_overspent[of MethodPing "ex_store ?gs" "''app''"] by simp
qed

text \<open>
  Every store the daemon comes to have, through its operations and through restarts that read back the last file it
  wrote, holds one session per app, under its key, with at most one grant per scope.
\<close>

theorem store_well_formed:
  assumes "store_reachable mar unm s" "\<forall>ss. unm (mar ss) = Inr ss"
  shows "wf_store s"
  using store_reachable_inv[OF assms] by blast

theorem store_well_formed_witness:
  "\<exists>s. store_reachable ex_marshal ex_unmarshal s \<and> IsPaired s ''app'' \<and> wf_store s"
proof -
  let ?first = "\<lparr>byPub = [], store_file = None\<rparr>"
  have "LoadStore ex_io None = Inr ?first" by (simp add: LoadStore_def)
  then have "store_reachable ex_marshal ex_unmarshal ?first" by (rule st_first)
  then have "store_reachable ex_marshal ex_unmarshal (fst (Store_Pair ex_io 0 ?first ''app'' [] []))" by (rule st_pair)
  then show ?thesis using store_well_formed ex_codec Store_Pair_paired by blast
qed

text \<open>
  What was remembered is what is decided: after \<open>Remember\<close> of a grant, a request it covers, before it expires, gets its
  verdict, unless it is an any-kind grant and a grant for the request's very kind decides.
\<close>

theorem Remember_then_Decide:
  assumes "wf_store s" "Grant_matches g m k False" "\<not> expired g now"
    "g_Kind g = Some k \<or> \<not> covers now m k (table (grants_of s pk) (m, Some k))"
  shows "snd (Decide io now (fst (Remember io' now' s pk g)) pk m k) = g_Verdict g"
proof -
  let ?s = "fst (Remember io' now' s pk g)"
  have t: "table (grants_of ?s pk) = (table (grants_of s pk))(scope g \<mapsto> g)"
    using replace_grant_table(2)[OF wf_store_grants[OF assms(1)]] by (simp add: Remember_grants)
  have c: "covers now m k (Some g)" using assms(2,3) by (simp add: covers_def)
  have "spec_grant now (table (grants_of ?s pk)) m k = Some g"
  proof (cases "scope g = (m, Some k)")
    case True
    then show ?thesis unfolding t using c by (simp add: spec_grant_def)
  next
    case False
    then have n: "scope g = (m, None)" using matches_scope[OF assms(2)] by blast
    then have "\<not> covers now m k (table (grants_of s pk) (m, Some k))" using assms(4) by (simp add: scope_def)
    then show ?thesis unfolding t n using c by (simp add: spec_grant_def)
  qed
  then show ?thesis using Decide_table(1)[OF wf_store_grants[OF Remember_wf[OF assms(1)]]] by (simp add: spec_decide_def)
qed

theorem Remember_then_Decide_witness:
  "snd (Decide ex_io 1 (fst (Remember ex_io 0 (ex_store [DenyAlways MethodPing 0]) ''app'' (GrantForever MethodPing None 0))) ''app'' MethodPing 0) = Allow"
proof -
  have "wf_store (ex_store [DenyAlways MethodPing 0])" by simp
  moreover have "Grant_matches (GrantForever MethodPing None 0) MethodPing 0 False" "\<not> expired (GrantForever MethodPing None 0) 1"
    "\<not> covers 1 MethodPing 0 (table [DenyAlways MethodPing 0] (MethodPing, Some 0))"
    by (simp_all add: Grant_matches_def GrantForever_def DenyAlways_def newGrant_def expired_def covers_def table_def scope_def)
  ultimately show ?thesis
    using Remember_then_Decide[of "ex_store [DenyAlways MethodPing 0]" "GrantForever MethodPing None 0" MethodPing 0 1 "''app''"]
    by (simp add: GrantForever_def newGrant_def)
qed

text \<open>
  Revoking: \<open>RevokeGrant\<close> removes exactly the grant of the given scope, if there is one; after \<open>Revoke\<close>, and so after
  a logout was carried out, the app is not paired and every request of it is put to the operator; other apps keep
  their grants.
\<close>

theorem revoked_is_gone:
  assumes "wf_store s"
  shows "table (grants_of (fst (RevokeGrant io s pk m ko)) pk) = (table (grants_of s pk))((m, ko) := None)
    \<and> (fst (snd (RevokeGrant io s pk m ko)) \<longleftrightarrow> table (grants_of s pk) (m, ko) \<noteq> None)
    \<and> \<not> IsPaired (fst (Revoke io s pk)) pk \<and> snd (Decide io' now (fst (Revoke io s pk)) pk m' k) = Ask
    \<and> (pk' = pk \<or> grants_of (fst (Revoke io s pk)) pk' = grants_of s pk')
    \<and> (call_Method call \<noteq> MethodLogout \<or> \<not> IsPaired (h_Store (decided io call True h)) (call_Client call))"
proof -
  have r: "\<not> IsPaired (fst (Revoke io s1 p)) p" for s1 p
    by (auto simp: Revoke_def IsPaired_def case_prod_beta delete_conv' restrict_map_def)
  then have "grants_of (fst (Revoke io s pk)) pk = []" by (auto simp: IsPaired_def grants_of_def)
  then have d: "snd (Decide io' now (fst (Revoke io s pk)) pk m' k) = Ask" by (simp add: Decide_verdict live_def pick_def)
  have o: "pk' = pk \<or> grants_of (fst (Revoke io s pk)) pk' = grants_of s pk'"
    by (auto simp: Revoke_def grants_of_def case_prod_beta delete_conv' restrict_map_def)
  have l: "call_Method call \<noteq> MethodLogout \<or> \<not> IsPaired (h_Store (decided io call True h)) (call_Client call)"
    using r by (auto simp: decided_def)
  show ?thesis using RevokeGrant_table[OF assms] r d o l by blast
qed

theorem revoked_is_gone_witness:
  "snd (Decide ex_io 0 (fst (Revoke ex_io (ex_store [GrantForever MethodPing None 0]) ''app'')) ''app'' MethodPing 0) = Ask"
proof -
  have "wf_store (ex_store [GrantForever MethodPing None 0])" by simp
  from revoked_is_gone[OF this] show ?thesis by blast
qed

text \<open>The sessions file is read back as it was written: loading what \<open>saveLocked\<close> wrote gives the same sessions, in the same order.\<close>

theorem save_then_load:
  assumes "wf_store s" "codec_ok io" "saveLocked io s = (s', None)"
  shows "LoadStore io (store_file s') = Inr s' \<and> byPub s' = byPub s"
  using save_load[OF assms] saveLocked_byPub[of io s] assms(3) by simp

theorem save_then_load_witness:
  "\<exists>s'. saveLocked ex_io (ex_store [GrantForever MethodPing None 0]) = (s', None) \<and> LoadStore ex_io (store_file s') = Inr s'"
proof -
  let ?st = "ex_store [GrantForever MethodPing None 0]"
  have "wf_store ?st" "codec_ok ex_io" by (simp_all add: codec_ok_def ex_codec)
  moreover obtain s' where s': "saveLocked ex_io ?st = (s', None)" by (simp add: saveLocked_def)
  ultimately have "LoadStore ex_io (store_file s') = Inr s'" using save_then_load by blast
  then show ?thesis using s' by blast
qed

section \<open>Grant files and permission lists\<close>

text \<open>
  The permissions an app asks for on connect become Allow grants of distinct scopes, each for a grantable method
  named by an entry of the list, with a kind only for \<open>sign_event\<close>; nothing else of the list takes effect.
\<close>

theorem parsePerms_grants:
  "wf_grants (parsePerms perms now)
   \<and> set (parsePerms perms now) = (\<lambda>(m, ko). newGrant m Allow ko now) ` {mk. \<exists>e \<in> set (split perms CHR '',''). parse_perm e = Some mk}
   \<and> {mk. \<exists>e \<in> set (split perms CHR '',''). parse_perm e = Some mk}
      \<subseteq> {(m, ko). m \<in> set grantableMethods \<and> (ko = None \<or> m = MethodSignEvent)}"
proof -
  have "parse_perm e = Some (m, ko) \<Longrightarrow> m \<in> set grantableMethods \<and> (ko = None \<or> m = MethodSignEvent)" for e m ko
    using parse_perm_ok[of e m ko] by (cases ko) auto
  then have c: "{mk. \<exists>e \<in> set (split perms CHR '',''). parse_perm e = Some mk} \<subseteq> {(m, ko). m \<in> set grantableMethods \<and> (ko = None \<or> m = MethodSignEvent)}"
    by auto
  note ok = parse_entries_ok[of now "[]" "split perms CHR '',''", folded parsePerms_def]
  have "g \<in> (\<lambda>(m, ko). newGrant m Allow ko now) ` {mk. \<exists>e \<in> set (split perms CHR '',''). parse_perm e = Some mk}" if "g \<in> set (parsePerms perms now)" for g
  proof (rule image_eqI[of _ _ "scope g"])
    show "g = (case scope g of (m, ko) \<Rightarrow> newGrant m Allow ko now)" using ok that by (simp add: scope_def)
    show "scope g \<in> {mk. \<exists>e \<in> set (split perms CHR '',''). parse_perm e = Some mk}" using ok that by blast
  qed
  moreover have "newGrant (fst mk) Allow (snd mk) now \<in> set (parsePerms perms now)" if "e \<in> set (split perms CHR '','')" "parse_perm e = Some mk" for e mk
    using parse_entries_set[OF that, of "[]"] by (simp add: parsePerms_def)
  ultimately show ?thesis using ok c by (auto simp: case_prod_beta)
qed

text \<open>
  A grant file that loads expands into grants of distinct scopes: each is for a grantable method, allows or denies, has
  a positive number of uses or none, does not both expire and count uses, and is for a kind only if it is for
  \<open>sign_event\<close>.
\<close>

theorem LoadGrantSpec_grants:
  assumes "LoadGrantSpec fs yaml path = Inr spec"
  shows "wf_grants (GrantSpec_Resolve spec now) \<and> (\<forall>g \<in> set (GrantSpec_Resolve spec now). g_Method g \<in> set grantableMethods \<and> g_Verdict g \<noteq> Ask
    \<and> (\<forall>n. g_RemainingUses g = Some n \<longrightarrow> 0 < n \<and> g_ExpiresAt g = None) \<and> (g_Kind g = None \<or> g_Method g = MethodSignEvent))"
proof -
  obtain raw where u: "GrantSpec_UnmarshalJSON raw = Inr spec"
    using assms by (auto simp: LoadGrantSpec_def split: option.splits sum.splits if_splits)
  have "(g_ExpiresAt g = None \<or> g_RemainingUses g = None) \<and> (g_Kind g = None \<or> g_Method g = MethodSignEvent)" if "g \<in> set (GrantSpec_Resolve spec now)" for g
  proof -
    obtain e where e: "g \<in> set (resolve_entry now e)" using \<open>g \<in> set (GrantSpec_Resolve spec now)\<close> by (auto simp: GrantSpec_Resolve_def)
    show ?thesis using resolve_entry_grants[OF e] resolve_entry_kind[OF e] by auto
  qed
  then have "g_Method g \<in> set grantableMethods \<and> g_Verdict g \<noteq> Ask \<and> (\<forall>n. g_RemainingUses g = Some n \<longrightarrow> 0 < n \<and> g_ExpiresAt g = None)
      \<and> (g_Kind g = None \<or> g_Method g = MethodSignEvent)" if "g \<in> set (GrantSpec_Resolve spec now)" for g
    using GrantSpec_Resolve_ok[OF u that] that by (metis option.distinct(1))
  then show ?thesis using GrantSpec_Resolve_wf[OF u] by blast
qed

definition ex_entry :: GrantEntrySpec where
  "ex_entry = \<lparr>ge_Method = MethodSignEvent, ge_Kinds = \<lparr>ks_Any = False, ks_Kinds = Some [1, 7]\<rparr>, ge_Verdict = [], ge_Expires = [], ge_Uses = 5, ge_expiresDur = 0\<rparr>"

theorem LoadGrantSpec_grants_witness:
  "\<exists>spec. LoadGrantSpec (\<lambda>_. Some []) (\<lambda>_. Inr (''bunker'', \<lparr>gs_Nickname = [], gs_Grants = [ex_entry]\<rparr>)) ''g'' = Inr spec
    \<and> wf_grants (GrantSpec_Resolve spec 0) \<and> length (GrantSpec_Resolve spec 0) = 2"
proof -
  have "(case LoadGrantSpec (\<lambda>_. Some []) (\<lambda>_. Inr (''bunker'', \<lparr>gs_Nickname = [], gs_Grants = [ex_entry]\<rparr>)) ''g'' of
      Inl _ \<Rightarrow> False | Inr spec \<Rightarrow> length (GrantSpec_Resolve spec 0) = 2)" by code_simp
  then obtain spec where l: "LoadGrantSpec (\<lambda>_. Some []) (\<lambda>_. Inr (''bunker'', \<lparr>gs_Nickname = [], gs_Grants = [ex_entry]\<rparr>)) ''g'' = Inr spec"
    "length (GrantSpec_Resolve spec 0) = 2" by (auto split: sum.splits)
  then show ?thesis using LoadGrantSpec_grants[OF l(1)] by blast
qed

section \<open>The queue\<close>

text \<open>
  C11. Under every interleaving of calls, resolutions, sweeps and deliveries: no more than the maximum of requests are
  pending, an entry's resolution is delivered at most once, and every call that returned got the verdict of the
  event delivered for its entry.
\<close>

theorem queue_safe:
  assumes "queue_reachable m ttl s"
  shows "pending_count (qs_queue s) \<le> q_max (qs_queue s) \<and> distinct (map fst (qs_events s))
    \<and> (\<forall>(a, v, remembered) \<in> set (qs_answers s). \<exists>ev. (a, ev) \<in> set (qs_events s) \<and> re_Verdict ev = v \<and> re_Remembered ev = remembered)"
proof -
  note inv = queue_reachable_inv[OF assms]
  have "\<exists>ev. (a, ev) \<in> set (qs_events s) \<and> re_Verdict ev = v \<and> re_Remembered ev = b" if "(a, v, b) \<in> set (qs_answers s)" for a v b
  proof -
    have l: "landed (q_heap (qs_queue s)) a" "(v, b) = answer_of (q_heap (qs_queue s) ! a)"
      using inv_parts(4)[OF inv] that unfolding answers_ok_def by blast+
    then obtain ev where ev: "(a, ev) \<in> set (qs_events s)" using inv_parts(5)[OF inv] by (metis (no_types, lifting) imageE list.set_map mem_Collect_eq prod.collapse)
    then have "ev = event_of (q_heap (qs_queue s) ! a)" using inv_parts(4)[OF inv] unfolding answers_ok_def by blast
    then show ?thesis using ev l(2) by (auto simp: event_of_def answer_of_def)
  qed
  then show ?thesis using inv_parts(2,3)[OF inv] by (auto simp: flight_ok_def)
qed

definition ex_pending :: Pending where
  "ex_pending = \<lparr>pd_ID = ''r'', pd_ClientKey = ''app'', pd_Method = MethodSignEvent, pd_Kind = 1, pd_Params = [], pd_Perms = [], pd_CreatedAt = 0,
     pd_ExpiresAt = 0, pd_Event = None\<rparr>"

definition ex_waiting :: queue_state where
  "ex_waiting = (queue_init 1 0)\<lparr>qs_queue := fst (Add_start 0 (NewQueue 1 0) ex_pending), qs_waiting := [0]\<rparr>"

lemma ex_waiting_reachable: "queue_reachable 1 0 ex_waiting"
proof -
  have "Add_start 0 (qs_queue (queue_init 1 0)) ex_pending = (fst (Add_start 0 (NewQueue 1 0) ex_pending), AddNew 0)"
    by (simp add: queue_init_def Add_start_def NewQueue_def pending_count_def Let_def)
  from reach_step[OF reach_init q_new[OF this]] show ?thesis by (simp add: ex_waiting_def queue_init_def)
qed

theorem queue_safe_witness: "pending_count (qs_queue ex_waiting) \<le> q_max (qs_queue ex_waiting) \<and> distinct (map fst (qs_events ex_waiting))"
  using queue_safe[OF ex_waiting_reachable] by blast



section \<open>Authorization\<close>

text \<open>
  C14. A call is allowed without asking the operator only on some authority given before: a connect because a grant file is
  staged for it, a relay switch or a logout because the app is paired, and anything else because the app holds a live Allow grant
  that covers the method and kind. So no signature of a sensitive kind is made without asking.
\<close>

theorem Authorize_needs_authority:
  assumes "Authorize_start io now call h = (h', Allowed)"
  shows "call_Method call = MethodConnect \<and> h_pendingGrantSpec h \<noteq> None
    \<or> call_Method call \<in> {MethodSwitchRelays, MethodLogout} \<and> IsPaired (h_Store h) (call_Client call)
    \<or> (\<exists>g \<in> set (grants_of (h_Store h) (call_Client call)). g_Verdict g = Allow \<and> \<not> expired g now
        \<and> Grant_matches g (call_Method call) (call_kind call) False \<and> (call_Method call = MethodSignEvent \<longrightarrow> call_kind call \<notin> sensitiveKinds))"
proof -
  have "\<exists>g \<in> set (grants_of (h_Store h) (call_Client call)). g_Verdict g = Allow \<and> \<not> expired g now
      \<and> Grant_matches g (call_Method call) (call_kind call) False \<and> (call_Method call = MethodSignEvent \<longrightarrow> call_kind call \<notin> sensitiveKinds)"
    if "snd (Decide io now (h_Store h) (call_Client call) (call_Method call) (call_kind call)) = Allow"
  proof -
    let ?gs = "live now (grants_of (h_Store h) (call_Client call))"
    obtain i where i: "pick ?gs (call_Method call) (call_kind call) = Some i" "g_Verdict (?gs ! i) = Allow"
      using \<open>snd _ = Allow\<close> unfolding Decide_verdict by (auto split: option.splits)
    have "Grant_matches (?gs ! i) (call_Method call) (call_kind call) False" using pick_SomeD(2)[OF i(1)] matches_exact_scope by blast
    moreover have "?gs ! i \<in> set ?gs" using pick_SomeD(1)[OF i(1)] by simp
    ultimately show ?thesis using i(2) matches_not_sensitive live_iff by metis
  qed
  then show ?thesis using Authorize_start_Allowed[OF assms] by blast
qed

definition ex_handler :: "Grant list \<Rightarrow> Handler" where
  "ex_handler gs = \<lparr>h_Store = ex_store gs, h_Queue = NewQueue 1 0, h_pendingGrantSpec = None, h_pairingSecretTTL = 0, h_armed = [], h_autoApproved = []\<rparr>"

definition ex_call :: Call where
  "ex_call = \<lparr>call_ID = ''c'', call_Client = ''app'', call_Method = MethodPing, call_Params = [], call_Perms = [], call_Event = None, call_Metadata = None\<rparr>"

theorem Authorize_needs_authority_witness:
  "\<exists>g \<in> set (grants_of (h_Store (ex_handler [GrantForever MethodPing None 0])) ''app''). g_Verdict g = Allow"
proof -
  have "snd (Authorize_start ex_io 0 ex_call (ex_handler [GrantForever MethodPing None 0])) = Allowed" by code_simp
  then obtain h' where "Authorize_start ex_io 0 ex_call (ex_handler [GrantForever MethodPing None 0]) = (h', Allowed)" by (metis prod.collapse)
  from Authorize_needs_authority[OF this] show ?thesis by (auto simp: ex_call_def)
qed

text \<open>
  What pairing leaves behind: the app is paired, its table of grants is updated by the permissions it asked for, only if
  the approval was to be remembered, and then by the staged grant file, which is used up; no other app's grants change. So
  a connect approved once, with nothing staged, leaves no grant.
\<close>

theorem pair_leaves_exactly:
  assumes "wf_store (h_Store h)" "h_pendingGrantSpec h = None \<or> (\<exists>sp. h_pendingGrantSpec h = Some sp \<and> LoadGrantSpec fs yaml path = Inr sp)"
  shows "IsPaired (h_Store (pair io now call b h)) (call_Client call) \<and> h_pendingGrantSpec (pair io now call b h) = None
    \<and> table (grants_of (h_Store (pair io now call b h)) (call_Client call)) = table (grants_of (h_Store h) (call_Client call))
        ++ table (if b then parsePerms (call_Perms call) now else []) ++ table (staged_grants h now)
    \<and> (pk = call_Client call \<or> grants_of (h_Store (pair io now call b h)) pk = grants_of (h_Store h) pk)"
proof -
  have "wf_grants (GrantSpec_Resolve sp now)" if "LoadGrantSpec fs yaml path = Inr sp" for sp
    using that GrantSpec_Resolve_wf by (auto simp: LoadGrantSpec_def split: option.splits sum.splits if_splits)
  then have "wf_grants (staged_grants h now)" using assms(2) by (auto simp: staged_grants_def)
  from pair_grants[OF assms(1) this] pair_spec_taken show ?thesis by blast
qed

theorem pair_leaves_exactly_witness:
  "table (grants_of (h_Store (pair ex_io 0 (ex_call\<lparr>call_Method := MethodConnect, call_Perms := ''ping''\<rparr>) False (ex_handler []))) ''app'') = Map.empty"
proof -
  have "wf_store (h_Store (ex_handler []))" "h_pendingGrantSpec (ex_handler []) = None" by (simp_all add: ex_handler_def)
  then show ?thesis
    using pair_leaves_exactly[of "ex_handler []" undefined undefined undefined ex_io 0 "ex_call\<lparr>call_Method := MethodConnect, call_Perms := ''ping''\<rparr>" False]
    by (simp add: ex_call_def table_def staged_grants_def ex_handler_def)
qed

text \<open>
  The grant an operator's \<open>approve --always\<close> remembers covers the request that was approved, is never for a sensitive
  kind, and lasts as the flags say: until now and \<open>--for\<close>, for \<open>--uses\<close> requests, or for ever; without \<open>--always\<close>
  nothing is remembered.
\<close>

theorem resolvePending_grant:
  assumes "resolvePending now fl v pending aid = Inr (p, go)"
  shows "p \<in> set pending \<and> pd_ID p = aid \<and> (go \<noteq> None \<longleftrightarrow> fl_always fl)
    \<and> (\<forall>g. v = Allow \<and> go = Some g \<longrightarrow> g_Verdict g = Allow \<and> Grant_matches g (pd_Method p) (pd_Kind p) False
        \<and> (pd_Method p = MethodSignEvent \<longrightarrow> pd_Kind p \<notin> sensitiveKinds)
        \<and> g_ExpiresAt g = (if 0 < fl_for fl then Some (time_add now (fl_for fl)) else None)
        \<and> g_RemainingUses g = (if 0 < fl_for fl \<or> fl_uses fl = 0 then None else Some (fl_uses fl)))"
proof -
  obtain p' where f: "find (\<lambda>p. pd_ID p = aid) pending = Some p'"
    using assms by (auto simp: resolvePending_def Let_def split: if_splits option.splits)
  then have "p' \<in> set pending" "pd_ID p' = aid" by (auto simp: find_Some_iff)
  moreover have "p' = p \<and> (go \<noteq> None \<longleftrightarrow> fl_always fl)"
    using assms f by (auto simp: resolvePending_def Let_def split: if_splits)
  ultimately have p: "p' = p" "p \<in> set pending" "pd_ID p = aid" "go \<noteq> None \<longleftrightarrow> fl_always fl" by auto
  have g: "g_Verdict g = Allow \<and> Grant_matches g (pd_Method p) (pd_Kind p) False \<and> (pd_Method p = MethodSignEvent \<longrightarrow> pd_Kind p \<notin> sensitiveKinds)
      \<and> g_ExpiresAt g = (if 0 < fl_for fl then Some (time_add now (fl_for fl)) else None)
      \<and> g_RemainingUses g = (if 0 < fl_for fl \<or> fl_uses fl = 0 then None else Some (fl_uses fl))" if "v = Allow" "go = Some g" for g
    using assms that f p(1)
    by (auto simp: resolvePending_def Let_def GrantForDuration_def GrantForUses_def GrantForever_def newGrant_def Grant_matches_def split: if_splits)
  then show ?thesis using p by blast
qed

theorem resolvePending_grant_witness:
  "\<exists>g. resolvePending 0 \<lparr>fl_always = True, fl_any_kind = False, fl_for = 0, fl_uses = 3\<rparr> Allow [ex_pending] ''r'' = Inr (ex_pending, Some g)
    \<and> Grant_matches g MethodSignEvent 1 False \<and> g_RemainingUses g = Some 3"
proof -
  let ?fl = "\<lparr>fl_always = True, fl_any_kind = False, fl_for = 0, fl_uses = 3\<rparr>"
  obtain g where r: "resolvePending 0 ?fl Allow [ex_pending] ''r'' = Inr (ex_pending, Some g)"
    by (simp add: resolvePending_def Let_def ex_pending_def sensitiveKinds_def)
  show ?thesis using resolvePending_grant[OF r] r by (auto simp: ex_pending_def)
qed

section \<open>What the code does not do\<close>

text \<open>
  A rejection that is to be remembered does not cover the sensitive kinds: an any-kind Deny grant matches no request to sign
  one of them, so \<open>reject --always\<close> leaves them to be asked about again.
\<close>

lemma deny_always_misses_sensitive: "k \<in> sensitiveKinds \<Longrightarrow> \<not> Grant_matches (DenyAlways MethodSignEvent now) MethodSignEvent k x"
  by (simp add: DenyAlways_def newGrant_def Grant_matches_def)

text \<open>
  The queue tells requests apart by their id only: a request of another app under an id that is still listed waits on the
  first request's entry, and gets its verdict.
\<close>

lemma same_id_shares_entry: "map_of (q_byID q) (pd_ID p) = Some a \<Longrightarrow> Add_start now q p = (q, AddWait a)"
  by (simp add: Add_start_def)

end
