(* ===== verification/Admin_Auth.thy ===== *)
theory Admin_Auth
  imports Go_Time "HOL-Library.AList"
begin

text \<open>
  Dashboard sessions and the limit on failed attempts (\<open>cli/relay/adminplane/auth.go\<close>). The Go maps are association
  lists, in the order a loop visits them; the bytes \<open>crypto/rand\<close> gives are arguments.
\<close>

section \<open>Random tokens\<close>

text \<open>\<open>base64.RawURLEncoding.EncodeToString\<close>.\<close>

definition b64_char :: "nat \<Rightarrow> char" where
  "b64_char n = (if n < 26 then char_of (65 + n) else if n < 52 then char_of (71 + n) else if n < 62 then char_of (n - 4)
     else if n = 62 then CHR ''-'' else CHR ''_'')"

fun b64url :: "string \<Rightarrow> string" where
  "b64url (a # b # c # s) =
     (let n = of_char a * 65536 + of_char b * 256 + of_char c
      in b64_char (n div 262144) # b64_char (n div 4096 mod 64) # b64_char (n div 64 mod 64) # b64_char (n mod 64) # b64url s)"
| "b64url [a, b] = (let n = of_char a * 65536 + of_char b * 256 in [b64_char (n div 262144), b64_char (n div 4096 mod 64), b64_char (n div 64 mod 64)])"
| "b64url [a] = (let n = of_char a * 65536 in [b64_char (n div 262144), b64_char (n div 4096 mod 64)])"
| "b64url [] = []"

text \<open>\<open>rnd\<close> is the 32 bytes read.\<close>

definition randomToken :: "string \<Rightarrow> string" where
  "randomToken rnd = b64url (take 32 rnd)"

lemma b64url_Nil [simp]: "b64url s = [] \<longleftrightarrow> s = []"
  by (cases s rule: b64url.cases) (simp_all add: Let_def)

section \<open>Sessions\<close>

abbreviation maxSessions :: nat where "maxSessions \<equiv> 64"

record session =
  ss_pubkey :: string
  ss_csrf :: string
  ss_expires :: gtime

record sessions =
  ss_ttl :: duration
  ss_byID :: "(string \<times> session) list"

definition newSessions :: "duration \<Rightarrow> sessions" where
  "newSessions ttl = \<lparr>ss_ttl = ttl, ss_byID = []\<rparr>"

definition sessions_sweep :: "sessions \<Rightarrow> gtime \<Rightarrow> sessions" where
  "sessions_sweep s now = s\<lparr>ss_byID := filter (\<lambda>(k, v). \<not> now > ss_expires v) (ss_byID s)\<rparr>"

text \<open>The loop that looks for the session closest to expiring.\<close>

definition oldest_step :: "(string \<times> session) list \<Rightarrow> string \<Rightarrow> string \<times> session \<Rightarrow> string" where
  "oldest_step byID oldest kv =
     (if oldest = [] \<or> (case map_of byID oldest of None \<Rightarrow> False | Some w \<Rightarrow> ss_expires (snd kv) < ss_expires w) then fst kv else oldest)"

definition oldest_key :: "(string \<times> session) list \<Rightarrow> string" where
  "oldest_key byID = foldl (oldest_step byID) [] byID"

definition sessions_create :: "sessions \<Rightarrow> string \<Rightarrow> gtime \<Rightarrow> string \<Rightarrow> string \<Rightarrow> sessions \<times> string \<times> session" where
  "sessions_create s0 pubkey now rnd1 rnd2 =
     (let s = sessions_sweep s0 now;
          byID = (if maxSessions \<le> length (ss_byID s) then AList.delete (oldest_key (ss_byID s)) (ss_byID s) else ss_byID s);
          i = randomToken rnd1;
          sess = \<lparr>ss_pubkey = pubkey, ss_csrf = randomToken rnd2, ss_expires = time_add now (ss_ttl s)\<rparr>
      in (s\<lparr>ss_byID := AList.update i sess byID\<rparr>, i, sess))"

definition sessions_get :: "sessions \<Rightarrow> string \<Rightarrow> string list \<Rightarrow> gtime \<Rightarrow> sessions \<times> session option" where
  "sessions_get s i admins now = (case map_of (ss_byID s) i of
     None \<Rightarrow> (s, None)
   | Some sess \<Rightarrow>
       if now > ss_expires sess \<or> ss_pubkey sess \<notin> set admins then (s\<lparr>ss_byID := AList.delete i (ss_byID s)\<rparr>, None)
       else (s, Some sess))"

definition sessions_remove :: "sessions \<Rightarrow> string \<Rightarrow> sessions" where
  "sessions_remove s i = s\<lparr>ss_byID := AList.delete i (ss_byID s)\<rparr>"

text \<open>\<open>subtle.ConstantTimeCompare\<close> is 1 exactly for equal contents; \<open>got\<close> is the request's header.\<close>

definition csrfMatches :: "session \<Rightarrow> string \<Rightarrow> bool" where
  "csrfMatches sess got \<longleftrightarrow> got \<noteq> [] \<and> got = ss_csrf sess"

section \<open>Failed attempts\<close>

abbreviation failLimit :: int where "failLimit \<equiv> 10"
abbreviation failWindow :: duration where "failWindow \<equiv> minute"
abbreviation maxFailedAddr :: nat where "maxFailedAddr \<equiv> 10000"

record failCount =
  fc_n :: int
  fc_since :: gtime

type_synonym failLimiter = "(string \<times> failCount) list"

definition newFailLimiter :: failLimiter where
  "newFailLimiter = []"

definition limiter_blocked :: "failLimiter \<Rightarrow> string \<Rightarrow> gtime \<Rightarrow> failLimiter \<times> bool" where
  "limiter_blocked l ip now = (case map_of l ip of
     None \<Rightarrow> (l, False)
   | Some f \<Rightarrow> if time_sub now (fc_since f) > failWindow then (AList.delete ip l, False) else (l, fc_n f \<ge> failLimit))"

definition limiter_fail :: "failLimiter \<Rightarrow> string \<Rightarrow> gtime \<Rightarrow> failLimiter" where
  "limiter_fail l ip now =
     (let start = (\<lambda>l'. AList.update ip \<lparr>fc_n = 1, fc_since = now\<rparr> l');
          restart =
            (if length l < maxFailedAddr then start l
             else let l' = filter (\<lambda>(k, v). \<not> time_sub now (fc_since v) > failWindow) l in
               if length l' \<ge> maxFailedAddr then l' else start l')
      in case map_of l ip of
           None \<Rightarrow> restart
         | Some f \<Rightarrow> if time_sub now (fc_since f) > failWindow then restart else AList.update ip (f\<lparr>fc_n := fc_n f + 1\<rparr>) l)"

section \<open>Facts about sessions\<close>

text \<open>At most \<open>maxSessions\<close> of them, under distinct ids that are not empty.\<close>

definition wf_sessions :: "sessions \<Rightarrow> bool" where
  "wf_sessions s \<longleftrightarrow> distinct (map fst (ss_byID s)) \<and> length (ss_byID s) \<le> maxSessions \<and> [] \<notin> fst ` set (ss_byID s)"

lemma wf_sessions_new: "wf_sessions (newSessions ttl)"
  by (simp add: wf_sessions_def newSessions_def)

lemma wf_sessions_filter: "wf_sessions s \<Longrightarrow> wf_sessions (s\<lparr>ss_byID := filter P (ss_byID s)\<rparr>)"
proof -
  assume w: "wf_sessions s"
  have "length (filter P (ss_byID s)) \<le> maxSessions" using length_filter_le[of P "ss_byID s"] w unfolding wf_sessions_def by linarith
  then show ?thesis using w by (auto simp: wf_sessions_def distinct_map_filter)
qed

lemma delete_filter: "AList.delete k xs = filter (\<lambda>(k', _). k \<noteq> k') xs"
  by (simp add: AList.delete_eq)

lemma update_length: "length (AList.update k v xs) \<le> (if k \<in> fst ` set xs then length xs else Suc (length xs))"
  by (induction xs) (auto split: if_splits)

lemma update_set: "set (AList.update k v xs) \<subseteq> insert (k, v) (set xs)"
  by (induction xs) auto

text \<open>The eviction takes a session that exists and that expires no later than any other.\<close>

lemma oldest_least:
  assumes "distinct (map fst byID)" "[] \<notin> fst ` set byID" "xs \<noteq> []" "set xs \<subseteq> set byID"
  shows "\<exists>v. (foldl (oldest_step byID) [] xs, v) \<in> set xs \<and> (\<forall>(k, w) \<in> set xs. ss_expires v \<le> ss_expires w)"
  using assms(3,4)
proof (induction xs rule: rev_induct)
  case (snoc kv xs)
  show ?case
  proof (cases "xs = []")
    case True
    then show ?thesis by (cases kv) (simp add: oldest_step_def)
  next
    case False
    let ?o = "foldl (oldest_step byID) [] xs"
    obtain v where v: "(?o, v) \<in> set xs" "\<forall>(k, w) \<in> set xs. ss_expires v \<le> ss_expires w" using snoc False by auto
    have o: "map_of byID ?o = Some v" "?o \<noteq> []"
      using v(1) snoc.prems(2) assms(1,2) by (auto intro: map_of_is_SomeI) (metis fst_conv image_eqI subsetD)
    show ?thesis
    proof (cases "ss_expires (snd kv) < ss_expires v")
      case True
      then have "foldl (oldest_step byID) [] (xs @ [kv]) = fst kv" using o by (simp add: oldest_step_def)
      then show ?thesis using v(2) True by (intro exI[of _ "snd kv"]) fastforce
    next
      case False
      then have "foldl (oldest_step byID) [] (xs @ [kv]) = ?o" using o by (simp add: oldest_step_def)
      then show ?thesis using v False by (intro exI[of _ v]) auto
    qed
  qed
qed simp

lemma sessions_create_wf:
  assumes "wf_sessions s" "rnd1 \<noteq> []"
  shows "wf_sessions (fst (sessions_create s pubkey now rnd1 rnd2))"
proof -
  let ?s = "sessions_sweep s now"
  have w: "wf_sessions ?s" using assms(1) by (simp add: sessions_sweep_def wf_sessions_filter)
  define b where "b = (if maxSessions \<le> length (ss_byID ?s) then AList.delete (oldest_key (ss_byID ?s)) (ss_byID ?s) else ss_byID ?s)"
  define sess where "sess = \<lparr>ss_pubkey = pubkey, ss_csrf = randomToken rnd2, ss_expires = time_add now (ss_ttl ?s)\<rparr>"
  have len: "length b < maxSessions"
  proof (cases "maxSessions \<le> length (ss_byID ?s)")
    case True
    then have "ss_byID ?s \<noteq> []" by auto
    then obtain v where "(oldest_key (ss_byID ?s), v) \<in> set (ss_byID ?s)"
      using oldest_least[of "ss_byID ?s" "ss_byID ?s"] w unfolding wf_sessions_def oldest_key_def by blast
    then have "length (AList.delete (oldest_key (ss_byID ?s)) (ss_byID ?s)) < length (ss_byID ?s)"
      unfolding delete_filter by (intro length_filter_less[of "(oldest_key (ss_byID ?s), v)"]) auto
    then show ?thesis using True w by (simp add: wf_sessions_def b_def)
  qed (simp add: b_def)
  have i: "randomToken rnd1 \<noteq> []" using assms(2) by (simp add: randomToken_def)
  have b: "distinct (map fst b)" "[] \<notin> fst ` set b" using w by (auto simp: wf_sessions_def delete_filter distinct_map_filter b_def)
  have c: "fst (sessions_create s pubkey now rnd1 rnd2) = ?s\<lparr>ss_byID := AList.update (randomToken rnd1) sess b\<rparr>"
    by (simp add: sessions_create_def Let_def b_def sess_def)
  have "length (AList.update (randomToken rnd1) sess b) \<le> maxSessions"
    using update_length[of "randomToken rnd1" sess b] len by (simp split: if_splits)
  moreover have "[] \<notin> fst ` set (AList.update (randomToken rnd1) sess b)" using update_set[of "randomToken rnd1" sess b] i b(2) by auto
  ultimately show ?thesis unfolding c using distinct_update[OF b(1)] by (simp add: wf_sessions_def)
qed

lemma sessions_get_wf: "wf_sessions s \<Longrightarrow> wf_sessions (fst (sessions_get s i admins now))"
  using wf_sessions_filter by (auto simp: sessions_get_def delete_filter split: option.split)

lemma sessions_remove_wf: "wf_sessions s \<Longrightarrow> wf_sessions (sessions_remove s i)"
  using wf_sessions_filter by (simp add: sessions_remove_def delete_filter)

lemma create_then_get:
  assumes "sessions_create s pubkey now rnd1 rnd2 = (s', i, sess)"
  shows "map_of (ss_byID s') i = Some sess" "ss_pubkey sess = pubkey" "ss_expires sess = time_add now (ss_ttl s)" "ss_csrf sess = randomToken rnd2"
  using assms by (auto simp: sessions_create_def Let_def sessions_sweep_def update_conv')

section \<open>Facts about the limit\<close>

lemma in_window: "time_sub t u > failWindow \<longleftrightarrow> t - u > failWindow"
  using time_sub_le_iff[of failWindow t u] by (simp add: min_int64_def max_int64_def not_le[symmetric])

lemma fail_bound: "length l \<le> maxFailedAddr \<Longrightarrow> length (limiter_fail l ip now) \<le> maxFailedAddr"
proof -
  assume l: "length l \<le> maxFailedAddr"
  let ?l = "filter (\<lambda>(k, v). \<not> time_sub now (fc_since v) > failWindow) l"
  have a: "length (AList.update k v xs) \<le> maxFailedAddr" if "length xs < maxFailedAddr" for k and v :: failCount and xs
    using update_length[of k v xs] that by (auto split: if_splits)
  have b: "length (AList.update ip v l) \<le> maxFailedAddr" if "map_of l ip = Some f" for v f
  proof -
    have "ip \<in> fst ` set l" using map_of_SomeD[OF that] by force
    then show ?thesis using update_length[of ip v l] l by simp
  qed
  have c: "length ?l \<le> maxFailedAddr" using l length_filter_le[of _ l] order_trans by blast
  have d: "length (AList.update ip v ?l) \<le> maxFailedAddr" if "length ?l \<noteq> maxFailedAddr" for v using a c that by (meson le_neq_implies_less)
  show ?thesis using a b c d unfolding limiter_fail_def Let_def by (auto simp: not_le split: option.split)
qed

text \<open>While its window lasts, an address's count goes up with its own failures and stays through those of others.\<close>

lemma fail_count:
  assumes "map_of l ip = Some \<lparr>fc_n = n, fc_since = t0\<rparr>" "now - t0 \<le> failWindow"
  shows "map_of (limiter_fail l ip' now) ip = Some \<lparr>fc_n = (if ip' = ip then n + 1 else n), fc_since = t0\<rparr>"
proof (cases "ip' = ip")
  case True
  then show ?thesis using assms in_window[of now t0] by (simp add: limiter_fail_def Let_def update_conv' not_less)
next
  case False
  let ?P = "\<lambda>(k, v). \<not> time_sub now (fc_since v) > failWindow"
  have "map_of (filter ?P l) ip = Some \<lparr>fc_n = n, fc_since = t0\<rparr>"
    using assms in_window[of now t0] by (induction l) (auto simp: not_less split: if_splits)
  then show ?thesis using False assms(1) unfolding limiter_fail_def Let_def by (auto simp: update_conv' split: option.split)
qed

fun fail_all :: "failLimiter \<Rightarrow> (string \<times> gtime) list \<Rightarrow> failLimiter" where
  "fail_all l [] = l"
| "fail_all l ((ip, t) # fs) = fail_all (limiter_fail l ip t) fs"

lemma fail_all_count:
  assumes "map_of l ip = Some \<lparr>fc_n = n, fc_since = t0\<rparr>" "\<forall>(ip', t) \<in> set fs. t - t0 \<le> failWindow"
  shows "map_of (fail_all l fs) ip = Some \<lparr>fc_n = n + int (length (filter (\<lambda>(ip', t). ip' = ip) fs)), fc_since = t0\<rparr>"
  using assms
proof (induction fs arbitrary: l n)
  case (Cons f fs)
  obtain ip' t where f: "f = (ip', t)" by fastforce
  have "map_of (limiter_fail l ip' t) ip = Some \<lparr>fc_n = (if ip' = ip then n + 1 else n), fc_since = t0\<rparr>"
    using Cons.prems f by (intro fail_count) auto
  from Cons.IH[OF this] show ?case using Cons.prems(2) f by simp
qed simp

lemma fail_first:
  assumes "map_of l ip = None" "length l < maxFailedAddr"
  shows "map_of (limiter_fail l ip now) ip = Some \<lparr>fc_n = 1, fc_since = now\<rparr>"
  using assms by (simp add: limiter_fail_def Let_def update_conv')

end
