(* ===== verification/Admin_Tokens.thy ===== *)
theory Admin_Tokens
  imports Admin_Auth Go_Scan Go_Json "HOL-Library.Word"
begin

text \<open>
  The metrics tokens (\<open>cli/relay/adminplane/tokens.go\<close>): the file of token hashes, as bytes, its reader, the two
  commands that edit it, and the set a running server keeps of it. SHA-256 is a parameter; the random bytes of a
  token, the outcome of each write and the times the file system stamps are arguments.
\<close>

unbundle bit_operations_syntax

section \<open>Library functions\<close>

text \<open>\<open>strings.Fields\<close>: \<open>cur\<close> is the field being read, in reverse.\<close>

function fields_from :: "string \<Rightarrow> string \<Rightarrow> string list" where
  "fields_from cur s =
     (if s = [] then (if cur = [] then [] else [rev cur])
      else if space_len s = 0 then fields_from (hd s # cur) (tl s)
      else (if cur = [] then [] else [rev cur]) @ fields_from [] (drop (space_len s) s))"
  by pat_completeness auto
termination by (relation "measure (length \<circ> snd)") auto

declare fields_from.simps [simp del]

definition str_fields :: "string \<Rightarrow> string list" where
  "str_fields s = fields_from [] s"

text \<open>Package \<open>encoding/hex\<close>.\<close>

definition hex_encode :: "string \<Rightarrow> string" where
  "hex_encode s = concat (map (\<lambda>c. [hex_char (of_char c div 16), hex_char (of_char c mod 16)]) s)"

fun hex_decode :: "string \<Rightarrow> string option" where
  "hex_decode [] = Some []"
| "hex_decode [c] = None"
| "hex_decode (a # b # s) = (case (hex_value a, hex_value b, hex_decode s) of
     (Some x, Some y, Some t) \<Rightarrow> Some (char_of (16 * x + y) # t)
   | _ \<Rightarrow> None)"

text \<open>\<open>t.UTC().Format("2006-01-02")\<close>: the Gregorian date of a time, in years that begin in March.\<close>

definition civil_date :: "gtime \<Rightarrow> int \<times> int \<times> int" where
  "civil_date t =
     (let z = t div (24 * hour) + 306; era = z div 146097; doe = z mod 146097;
          yoe = (doe - doe div 1460 + doe div 36524 - doe div 146096) div 365;
          doy = doe - (365 * yoe + yoe div 4 - yoe div 100); mp = (5 * doy + 2) div 153;
          m = (if mp < 10 then mp + 3 else mp - 9)
      in (yoe + era * 400 + (if m \<le> 2 then 1 else 0), m, doy - (153 * mp + 2) div 5 + 1))"

definition pad :: "nat \<Rightarrow> int \<Rightarrow> string" where
  "pad w n = (let ds = nat_text (nat \<bar>n\<bar>) in (if n < 0 then ''-'' else []) @ replicate (w - length ds) CHR ''0'' @ ds)"

definition format_date :: "gtime \<Rightarrow> string" where
  "format_date t = (case civil_date t of (y, m, d) \<Rightarrow> pad 4 y @ ''-'' @ pad 2 m @ ''-'' @ pad 2 d)"

section \<open>The tokens file\<close>

abbreviation TokenPrefix :: string where "TokenPrefix \<equiv> ''ncli_mt_''"

definition token_name_ok :: "string \<Rightarrow> bool" where
  "token_name_ok name \<longleftrightarrow> 1 \<le> length name \<and> length name \<le> 64 \<and> (\<forall>c \<in> set name.
     let n = (of_char c :: nat) in 65 \<le> n \<and> n \<le> 90 \<or> 97 \<le> n \<and> n \<le> 122 \<or> 48 \<le> n \<and> n \<le> 57 \<or> c \<in> {CHR ''.'', CHR ''_'', CHR ''-''})"

record TokenEntry =
  te_Hash :: string
  te_Name :: string
  te_Created :: string

text \<open>A file: its permission bits, whether the process may open it, its bytes and its modification time.\<close>

record tfile =
  tf_perm :: "32 word"
  tf_readable :: bool
  tf_data :: string
  tf_mtime :: gtime

definition set_field :: "string \<Rightarrow> TokenEntry \<Rightarrow> TokenEntry" where
  "set_field f e = (let (k, v) = (case cut f CHR ''='' of Some kv \<Rightarrow> kv | None \<Rightarrow> (f, [])) in
     if k = ''name'' then e\<lparr>te_Name := v\<rparr> else if k = ''created'' then e\<lparr>te_Created := v\<rparr> else e)"

text \<open>Its callers pass a trimmed text that is not empty, which has a first field (lemma \<open>fields_trimmed\<close>).\<close>

definition parseTokenLine :: "string \<Rightarrow> goerr + TokenEntry" where
  "parseTokenLine txt = (case str_fields txt of
     [] \<Rightarrow> Inl (Err ''index out of range'' [])
   | f # fs \<Rightarrow> (case cut_prefix f ''sha256:'' of
        None \<Rightarrow>
          if has_prefix f TokenPrefix then Inl (Err ''plaintext token found; store only its sha256 hash'' [])
          else Inl (Err ''expected sha256:<hash>'' [])
      | Some hashHex \<Rightarrow> (case hex_decode hashHex of
          None \<Rightarrow> Inl (Err ''hash must be 64 hex characters'' [])
        | Some raw \<Rightarrow>
            if length raw \<noteq> 32 then Inl (Err ''hash must be 64 hex characters'' [])
            else Inr (fold set_field fs \<lparr>te_Hash = raw, te_Name = [], te_Created = []\<rparr>))))"

text \<open>One line of the file: nothing, an entry or an error; the loop over the lines, from line \<open>n\<close>.\<close>

definition token_line :: "string \<Rightarrow> goerr + TokenEntry option" where
  "token_line l = (let txt = trim_space l in
     if txt = [] \<or> has_prefix txt ''#'' then Inr None else map_sum id Some (parseTokenLine txt))"

fun load_lines :: "nat \<Rightarrow> string list \<Rightarrow> goerr + TokenEntry list" where
  "load_lines n [] = Inr []"
| "load_lines n (l # ls) = (case token_line l of
     Inl e \<Rightarrow> Inl (Wrap ''%s:%d'' [nat_text n] e)
   | Inr eo \<Rightarrow> try_bind (load_lines (Suc n) ls) (\<lambda>es. Inr ((case eo of None \<Rightarrow> [] | Some e \<Rightarrow> [e]) @ es)))"

text \<open>The scanner stops with an error at a line that is too long, after the lines before it.\<close>

definition open_perm :: "tfile \<Rightarrow> bool" where
  "open_perm f \<longleftrightarrow> tf_perm f AND 0x3F \<noteq> 0"

definition LoadTokens :: "tfile option \<Rightarrow> goerr + TokenEntry list" where
  "LoadTokens fo = (case fo of
     None \<Rightarrow> Inl (Err ''admin.metrics.tokensFile: %v'' [])
   | Some f \<Rightarrow>
      if open_perm f then Inl (Err ''the tokens file must not be readable by others'' [])
      else if \<not> tf_readable f then Inl (Err ''admin.metrics.tokensFile: %v'' [])
      else let pieces = split (tf_data f) newline; ls = (if last pieces = [] then butlast pieces else pieces);
               short = takeWhile (\<lambda>l. int (length l) < 65536) ls
        in try_bind (load_lines 1 (map strip_cr short)) (\<lambda>es.
             if short \<noteq> ls then Inl (Err ''admin.metrics.tokensFile: token too long'' []) else Inr es))"

section \<open>Editing the file\<close>

definition NewToken :: "(string \<Rightarrow> string) \<Rightarrow> string \<Rightarrow> string \<Rightarrow> gtime \<Rightarrow> goerr + (string \<times> string)" where
  "NewToken sha rnd name now =
     (if \<not> token_name_ok name then Inl (Err ''token name must be 1-64 letters, digits, '.', '_' or '-': %q'' [name])
      else let token = TokenPrefix @ b64url (take 32 rnd)
        in Inr (token, ''sha256:'' @ hex_encode (sha token) @ '' name='' @ name @ '' created='' @ format_date now))"

text \<open>What may go wrong on the disk: the directory, the open, a write after so many bytes, the close.\<close>

datatype token_fault = TokenOk | TokenMkdir | TokenOpen | TokenWrite nat | TokenClose

definition append_tokens :: "tfile option \<Rightarrow> gtime \<Rightarrow> string \<Rightarrow> tfile" where
  "append_tokens fo wt s = (case fo of
     None \<Rightarrow> \<lparr>tf_perm = 0x180, tf_readable = True, tf_data = s, tf_mtime = wt\<rparr>
   | Some f \<Rightarrow> f\<lparr>tf_data := tf_data f @ s, tf_mtime := wt\<rparr>)"

definition AddToken ::
  "(string \<Rightarrow> string) \<Rightarrow> string \<Rightarrow> token_fault \<Rightarrow> gtime \<Rightarrow> tfile option \<Rightarrow> string \<Rightarrow> gtime \<Rightarrow> tfile option \<times> (goerr + string)" where
  "AddToken sha rnd w wt fo name now =
     (case (if fo = None then Inr [] else LoadTokens fo) of
        Inl e \<Rightarrow> (fo, Inl e)
      | Inr existing \<Rightarrow>
          if name \<in> te_Name ` set existing then (fo, Inl (Err ''a token with this name already exists'' []))
          else (case NewToken sha rnd name now of
              Inl e \<Rightarrow> (fo, Inl e)
            | Inr (token, line) \<Rightarrow>
                (case w of
                   TokenMkdir \<Rightarrow> (fo, Inl (Err ''mkdir'' []))
                 | TokenOpen \<Rightarrow> (fo, Inl (Err ''open'' []))
                 | TokenWrite k \<Rightarrow> (Some (append_tokens fo wt (take k (line @ [newline]))), Inl (Err ''write'' []))
                 | TokenClose \<Rightarrow> (Some (append_tokens fo wt (line @ [newline])), Inl (Err ''close'' []))
                 | TokenOk \<Rightarrow> (Some (append_tokens fo wt (line @ [newline])), Inr token))))"

text \<open>\<open>strings.TrimRight(s, "\n")\<close>, and the loop that keeps lines.\<close>

definition trim_newlines :: "string \<Rightarrow> string" where
  "trim_newlines s = rev (dropWhile (\<lambda>c. c = newline) (rev s))"

definition names_line :: "string \<Rightarrow> string \<Rightarrow> bool" where
  "names_line name l \<longleftrightarrow> (let txt = trim_space l in txt \<noteq> [] \<and> \<not> has_prefix txt ''#''
     \<and> (case parseTokenLine txt of Inl _ \<Rightarrow> False | Inr e \<Rightarrow> te_Name e = name))"

datatype remove_fault = RemoveOk | RemoveWrite | RemoveRename

definition RemoveToken :: "remove_fault \<Rightarrow> gtime \<Rightarrow> tfile option \<Rightarrow> string \<Rightarrow> tfile option \<times> goerr option" where
  "RemoveToken w wt fo name = (case fo of
     None \<Rightarrow> (fo, Some (Err ''admin.metrics.tokensFile: %v'' []))
   | Some f \<Rightarrow> (case LoadTokens fo of
        Inl e \<Rightarrow> (fo, Some e)
      | Inr _ \<Rightarrow>
          let ls = split (trim_newlines (tf_data f)) newline; kept = filter (\<lambda>l. \<not> names_line name l) ls;
              out = (let s = join kept [newline] in if s \<noteq> [] then s @ [newline] else s)
          in if kept = ls then (fo, Some (Err ''no token with this name'' []))
             else (case w of
                 RemoveWrite \<Rightarrow> (fo, Some (Err ''write'' []))
               | RemoveRename \<Rightarrow> (fo, Some (Err ''rename'' []))
               | RemoveOk \<Rightarrow> (Some \<lparr>tf_perm = 0x180, tf_readable = True, tf_data = out, tf_mtime = wt\<rparr>, None))))"

section \<open>The set a server keeps\<close>

record tokenSet =
  ts_mtime :: gtime
  ts_size :: nat
  ts_hashes :: "string list"
  ts_checked :: gtime

abbreviation recheckEvery :: duration where "recheckEvery \<equiv> second"

text \<open>The file is looked at twice, and may change in between: \<open>f1\<close> is what \<open>os.Stat\<close> finds, \<open>f2\<close> what \<open>LoadTokens\<close> reads.\<close>

definition tokens_reload :: "tokenSet \<Rightarrow> tfile option \<Rightarrow> tfile option \<Rightarrow> goerr + tokenSet" where
  "tokens_reload t f1 f2 = (case f1 of
     None \<Rightarrow> Inl (Err ''stat'' [])
   | Some fi \<Rightarrow> try_bind (LoadTokens f2) (\<lambda>es.
       Inr (t\<lparr>ts_hashes := map te_Hash es, ts_mtime := tf_mtime fi, ts_size := length (tf_data fi)\<rparr>)))"

definition newTokenSet :: "tfile option \<Rightarrow> tfile option \<Rightarrow> goerr + tokenSet" where
  "newTokenSet f1 f2 = tokens_reload \<lparr>ts_mtime = 0, ts_size = 0, ts_hashes = [], ts_checked = 0\<rparr> f1 f2"

definition tokens_recheck :: "tokenSet \<Rightarrow> tfile option \<Rightarrow> tfile option \<Rightarrow> tfile option \<Rightarrow> tokenSet" where
  "tokens_recheck t f0 f1 f2 = (case f0 of
     None \<Rightarrow> t\<lparr>ts_hashes := [], ts_mtime := 0\<rparr>
   | Some fi \<Rightarrow>
      if open_perm fi then t\<lparr>ts_hashes := [], ts_mtime := 0\<rparr>
      else if tf_mtime fi \<noteq> ts_mtime t \<or> length (tf_data fi) \<noteq> ts_size t
        then (case tokens_reload t f1 f2 of Inl _ \<Rightarrow> t\<lparr>ts_hashes := []\<rparr> | Inr t' \<Rightarrow> t')
      else t)"

definition tokens_valid ::
  "(string \<Rightarrow> string) \<Rightarrow> tokenSet \<Rightarrow> tfile option \<Rightarrow> tfile option \<Rightarrow> tfile option \<Rightarrow> string \<Rightarrow> gtime \<Rightarrow> tokenSet \<times> bool" where
  "tokens_valid sha t f0 f1 f2 token now =
     (if \<not> has_prefix token TokenPrefix then (t, False)
      else let t' = (if time_sub now (ts_checked t) \<ge> recheckEvery then tokens_recheck (t\<lparr>ts_checked := now\<rparr>) f0 f1 f2 else t)
        in (t', sha token \<in> set (ts_hashes t')))"

end
