(* ===== verification/Bunker_EventLog.thy ===== *)
theory Bunker_EventLog
  imports Bunker_Queue Admin_Tokens
begin

text \<open>
  The durable log of the bunker's requests (\<open>cli/bunker/eventlog.go\<close>) and the history and activity log that the daemon
  keeps around it (\<open>cli/bunker/daemon.go\<close>, with the watcher of \<open>board.go\<close>). \<open>events.wal\<close> is its bytes; \<open>json.Marshal\<close> and
  \<open>json.Unmarshal\<close> at the type \<open>walEntry\<close> are the two functions of a codec. An operation takes the fault that the
  operating system injects into it and returns the bytes that the file is left with, also when it fails.
\<close>

section \<open>Records of the log\<close>

record HistoryEntry =
  he_ID :: string
  he_ClientKey :: string
  he_Method :: string
  he_Kind :: int
  he_CreatedAt :: gtime
  he_ResolvedAt :: gtime
  he_Verdict :: Verdict
  he_Remembered :: bool
  he_AutoApproved :: bool
  he_Expired :: bool
  he_Event :: "event option"

record walEntry =
  we_Type :: string
  we_Pending :: "Pending option"
  we_History :: "HistoryEntry option"
  we_ID :: string
  we_Event :: "event option"

abbreviation walAdded :: string where "walAdded \<equiv> ''added''"
abbreviation walResolved :: string where "walResolved \<equiv> ''resolved''"
abbreviation walSigned :: string where "walSigned \<equiv> ''signed''"

definition added_entry :: "Pending \<Rightarrow> walEntry" where
  "added_entry p = \<lparr>we_Type = walAdded, we_Pending = Some p, we_History = None, we_ID = [], we_Event = None\<rparr>"

definition resolved_entry :: "HistoryEntry \<Rightarrow> walEntry" where
  "resolved_entry h = \<lparr>we_Type = walResolved, we_Pending = None, we_History = Some h, we_ID = [], we_Event = None\<rparr>"

definition signed_entry :: "string \<Rightarrow> event option \<Rightarrow> walEntry" where
  "signed_entry rid ev = \<lparr>we_Type = walSigned, we_Pending = None, we_History = None, we_ID = rid, we_Event = ev\<rparr>"

record wal_codec =
  wc_marshal :: "walEntry \<Rightarrow> goerr + string"
  wc_unmarshal :: "string \<Rightarrow> goerr + walEntry"

text \<open>\<open>el_open\<close>: the handle \<open>l.f\<close> is not closed; an open handle appends to the file at the log's path, as \<open>compact\<close> closes
  it before it renames.\<close>

record EventLog =
  el_file :: string
  el_open :: bool
  el_since :: nat

abbreviation maxHistoryTail :: nat where "maxHistoryTail \<equiv> 200"

section \<open>Appending\<close>

datatype append_fault = AppendOk | AppendWrite nat | AppendSync

definition appendLocked :: "wal_codec \<Rightarrow> append_fault \<Rightarrow> EventLog \<Rightarrow> walEntry \<Rightarrow> EventLog \<times> goerr option" where
  "appendLocked J w l e = (case wc_marshal J e of
     Inl err \<Rightarrow> (l, Some err)
   | Inr s \<Rightarrow> let data = s @ [newline] in
       if \<not> el_open l then (l, Some (Err ''write: file already closed'' []))
       else (case w of
           AppendWrite k \<Rightarrow> (l\<lparr>el_file := el_file l @ take k data\<rparr>, Some (Err ''write'' []))
         | AppendSync \<Rightarrow> (l\<lparr>el_file := el_file l @ data\<rparr>, Some (Err ''sync'' []))
         | AppendOk \<Rightarrow> (l\<lparr>el_file := el_file l @ data\<rparr>, None)))"

definition AppendAdded :: "wal_codec \<Rightarrow> append_fault \<Rightarrow> EventLog \<Rightarrow> Pending \<Rightarrow> EventLog \<times> goerr option" where
  "AppendAdded J w l p = appendLocked J w l (added_entry p)"

definition AppendResolved :: "wal_codec \<Rightarrow> append_fault \<Rightarrow> EventLog \<Rightarrow> HistoryEntry \<Rightarrow> EventLog \<times> goerr option" where
  "AppendResolved J w l h = (case appendLocked J w l (resolved_entry h) of
     (l', Some err) \<Rightarrow> (l', Some err)
   | (l', None) \<Rightarrow> (l'\<lparr>el_since := el_since l' + 1\<rparr>, None))"

definition AppendSigned :: "wal_codec \<Rightarrow> append_fault \<Rightarrow> EventLog \<Rightarrow> string \<Rightarrow> event option \<Rightarrow> EventLog \<times> goerr option" where
  "AppendSigned J w l rid ev = appendLocked J w l (signed_entry rid ev)"

definition CompactDue :: "EventLog \<Rightarrow> bool" where
  "CompactDue l \<longleftrightarrow> el_since l \<ge> maxHistoryTail"

section \<open>Compaction\<close>

text \<open>\<open>CompactTmp\<close> is any failure on the temporary file; it leaves the log as it is. The handle is closed before the
  rename, and a handle whose \<open>Close\<close> fails is no longer open either.\<close>

datatype compact_fault = CompactOk | CompactTmp | CompactClose | CompactRename | CompactReopen

definition compact_log :: "wal_codec \<Rightarrow> compact_fault \<Rightarrow> EventLog \<Rightarrow> HistoryEntry list \<Rightarrow> EventLog \<times> goerr option" where
  "compact_log J w l entries =
     (if w = CompactTmp then (l, Some (Err ''temporary file'' []))
      else case try_map (\<lambda>h. wc_marshal J (resolved_entry h)) entries of
        Inl err \<Rightarrow> (l, Some err)
      | Inr ls \<Rightarrow> let data = concat (map (\<lambda>s. s @ [newline]) ls) in
          if \<not> el_open l then (l, Some (Err ''close: file already closed'' []))
          else (case w of
              CompactClose \<Rightarrow> (l\<lparr>el_open := False\<rparr>, Some (Err ''close'' []))
            | CompactRename \<Rightarrow> (l\<lparr>el_open := False\<rparr>, Some (Err ''rename'' []))
            | CompactReopen \<Rightarrow> (l\<lparr>el_file := data, el_open := False\<rparr>, Some (Err ''open'' []))
            | _ \<Rightarrow> (l\<lparr>el_file := data, el_open := True, el_since := 0\<rparr>, None)))"

section \<open>Reading the log back\<close>

fun read_lines :: "wal_codec \<Rightarrow> nat \<Rightarrow> string list \<Rightarrow> goerr + walEntry list" where
  "read_lines J i [] = Inr []"
| "read_lines J i (line # ls) = (case wc_unmarshal J line of
     Inl err \<Rightarrow> if ls = [] then Inr [] else Inl (Wrap ''%s: corrupt entry on line %d: %w'' [nat_text (i + 1)] err)
   | Inr e \<Rightarrow> try_bind (read_lines J (i + 1) ls) (\<lambda>es. Inr (e # es)))"

text \<open>\<open>rd\<close> is the failure of \<open>os.ReadFile\<close> on a file that exists.\<close>

definition readWALEntries :: "wal_codec \<Rightarrow> goerr option \<Rightarrow> string option \<Rightarrow> goerr + walEntry list" where
  "readWALEntries J rd fo = (case fo of
     None \<Rightarrow> Inr []
   | Some data \<Rightarrow> (case rd of
        Some err \<Rightarrow> Inl err
      | None \<Rightarrow> let trimmed = trim_newlines data in
          if trimmed = [] then Inr [] else read_lines J 0 (split trimmed newline)))"

record replayed =
  rp_pending :: "(string \<times> Pending) list"
  rp_history :: "(string \<times> HistoryEntry) list"
  rp_order :: "string list"

definition replay_entry :: "walEntry \<Rightarrow> replayed \<Rightarrow> replayed" where
  "replay_entry e r =
     (if we_Type e = walAdded then
        (case we_Pending e of
           Some p \<Rightarrow> if map_of (rp_history r) (pd_ID p) = None then r\<lparr>rp_pending := AList.update (pd_ID p) p (rp_pending r)\<rparr> else r
         | None \<Rightarrow> r)
      else if we_Type e = walResolved then
        (case we_History e of
           Some h \<Rightarrow> r\<lparr>rp_pending := AList.delete (he_ID h) (rp_pending r),
             rp_order := (if map_of (rp_history r) (he_ID h) = None then rp_order r @ [he_ID h] else rp_order r),
             rp_history := AList.update (he_ID h) h (rp_history r)\<rparr>
         | None \<Rightarrow> r)
      else if we_Type e = walSigned then
        (case map_of (rp_history r) (we_ID e) of
           Some h \<Rightarrow> r\<lparr>rp_history := AList.update (we_ID e) (h\<lparr>he_Event := we_Event e\<rparr>) (rp_history r)\<rparr>
         | None \<Rightarrow> r)
      else r)"

definition replay :: "walEntry list \<Rightarrow> replayed" where
  "replay es = fold replay_entry es \<lparr>rp_pending = [], rp_history = [], rp_order = []\<rparr>"

definition expired_entry :: "gtime \<Rightarrow> Pending \<Rightarrow> HistoryEntry" where
  "expired_entry now p = \<lparr>he_ID = pd_ID p, he_ClientKey = pd_ClientKey p, he_Method = pd_Method p, he_Kind = pd_Kind p,
     he_CreatedAt = pd_CreatedAt p, he_ResolvedAt = now, he_Verdict = Deny, he_Remembered = False, he_AutoApproved = False,
     he_Expired = True, he_Event = None\<rparr>"

text \<open>The requests that still waited, in the order of \<open>CreatedAt\<close>. Go iterates over a map in any order and its sort is
  not stable: \<open>it\<close> is the order of the keys, and a stable sort after an arbitrary order gives every outcome.\<close>

definition leftovers :: "(string list \<Rightarrow> string list) \<Rightarrow> replayed \<Rightarrow> Pending list" where
  "leftovers it r = sort_key pd_CreatedAt (map (\<lambda>i. the (map_of (rp_pending r) i)) (it (map fst (rp_pending r))))"

text \<open>The loop that settles them; the faults are by position.\<close>

fun settle_leftovers :: "wal_codec \<Rightarrow> (nat \<Rightarrow> append_fault) \<Rightarrow> gtime \<Rightarrow> nat \<Rightarrow> Pending list \<Rightarrow> EventLog \<Rightarrow> replayed
    \<Rightarrow> EventLog \<times> (goerr + replayed)" where
  "settle_leftovers J w now i [] l r = (l, Inr r)"
| "settle_leftovers J w now i (p # ps) l r = (let h = expired_entry now p in
     case AppendResolved J (w i) l h of
       (l', Some err) \<Rightarrow> (l', Inl err)
     | (l', None) \<Rightarrow> settle_leftovers J w now (i + 1) ps l'
         (r\<lparr>rp_order := rp_order r @ [he_ID h], rp_history := AList.update (he_ID h) h (rp_history r)\<rparr>))"

definition history_in_order :: "replayed \<Rightarrow> HistoryEntry list" where
  "history_in_order r = map (\<lambda>i. the (map_of (rp_history r) i)) (rp_order r)"

record load_io =
  li_codec :: wal_codec
  li_read :: "goerr option"
  li_mkdir :: "goerr option"
  li_open :: "goerr option"
  li_append :: "nat \<Rightarrow> append_fault"
  li_compact :: compact_fault
  li_keys :: "string list \<Rightarrow> string list"

definition LoadEventLog :: "load_io \<Rightarrow> gtime \<Rightarrow> string option \<Rightarrow> string option \<times> (goerr + EventLog \<times> HistoryEntry list)" where
  "LoadEventLog io now fo = (case readWALEntries (li_codec io) (li_read io) fo of
     Inl err \<Rightarrow> (fo, Inl err)
   | Inr es \<Rightarrow> let r = replay es in
      (case li_mkdir io of Some err \<Rightarrow> (fo, Inl err) | None \<Rightarrow>
      (case li_open io of Some err \<Rightarrow> (fo, Inl err) | None \<Rightarrow>
        let l = \<lparr>el_file = (case fo of None \<Rightarrow> [] | Some data \<Rightarrow> data), el_open = True, el_since = 0\<rparr> in
        case settle_leftovers (li_codec io) (li_append io) now 0 (leftovers (li_keys io) r) l r of
          (l, Inl err) \<Rightarrow> (Some (el_file l), Inl err)
        | (l, Inr r) \<Rightarrow> let out = history_in_order r in
            if length out > maxHistoryTail then
              let out = drop (length out - maxHistoryTail) out in
              (case compact_log (li_codec io) (li_compact io) l out of
                 (l, Some err) \<Rightarrow> (Some (el_file l), Inl err)
               | (l, None) \<Rightarrow> (Some (el_file l), Inr (l, out)))
            else (Some (el_file l), Inr (l, out)))))"

section \<open>The daemon's history and activity log\<close>

text \<open>A line of the activity log: when, the format, its arguments and the error it reports.\<close>

datatype log_line = LogLine gtime string "string list" "goerr option"

record Daemon =
  dm_EventLog :: "EventLog option"
  dm_historyTail :: "HistoryEntry list"
  dm_logTail :: "log_line list"
  dm_logTotal :: nat

abbreviation maxLogTail :: nat where "maxLogTail \<equiv> 500"

definition NewDaemon :: "EventLog option \<Rightarrow> HistoryEntry list \<Rightarrow> Daemon" where
  "NewDaemon el h0 = \<lparr>dm_EventLog = el, dm_historyTail = h0, dm_logTail = [], dm_logTotal = 0\<rparr>"

definition daemon_log :: "log_line \<Rightarrow> Daemon \<Rightarrow> Daemon" where
  "daemon_log line d = (let t = dm_logTail d @ [line] in
     d\<lparr>dm_logTail := (if length t > maxLogTail then drop (length t - maxLogTail) t else t), dm_logTotal := dm_logTotal d + 1\<rparr>)"

definition log_failure :: "gtime \<Rightarrow> string \<Rightarrow> string list \<Rightarrow> goerr option \<Rightarrow> Daemon \<Rightarrow> Daemon" where
  "log_failure now fmt args err d = (if err = None then d else daemon_log (LogLine now fmt args err) d)"

definition RecentLogs :: "Daemon \<Rightarrow> log_line list \<times> nat" where
  "RecentLogs d = (dm_logTail d, dm_logTotal d)"

definition recordAdded :: "wal_codec \<Rightarrow> append_fault \<Rightarrow> gtime \<Rightarrow> Pending \<Rightarrow> Daemon \<Rightarrow> Daemon" where
  "recordAdded J w now p d = (case dm_EventLog d of
     None \<Rightarrow> d
   | Some l \<Rightarrow> (case AppendAdded J w l p of (l', err) \<Rightarrow>
       log_failure now ''failed to persist pending request %s to the event log: %v'' [pd_ID p] err (d\<lparr>dm_EventLog := Some l'\<rparr>)))"

definition history_entry :: "gtime \<Rightarrow> ResolvedEvent \<Rightarrow> HistoryEntry" where
  "history_entry now ev = (let p = re_Pending ev in
     \<lparr>he_ID = pd_ID p, he_ClientKey = pd_ClientKey p, he_Method = pd_Method p, he_Kind = pd_Kind p,
      he_CreatedAt = pd_CreatedAt p, he_ResolvedAt = now, he_Verdict = re_Verdict ev, he_Remembered = re_Remembered ev,
      he_AutoApproved = re_AutoApproved ev, he_Expired = re_Expired ev, he_Event = pd_Event p\<rparr>)"

definition outcome_text :: "HistoryEntry \<Rightarrow> string" where
  "outcome_text h = (if he_AutoApproved h then ''auto-approved (existing grant)''
     else if he_Expired h then ''expired (no response)''
     else if he_Verdict h = Allow then ''approved''
     else ''rejected'')"

definition recordHistory :: "wal_codec \<Rightarrow> append_fault \<Rightarrow> compact_fault \<Rightarrow> Store \<Rightarrow> gtime \<Rightarrow> ResolvedEvent \<Rightarrow> Daemon \<Rightarrow> Daemon" where
  "recordHistory J w cw store now ev d = (let h = history_entry now ev;
     (el, appendErr) = (case dm_EventLog d of None \<Rightarrow> (None, None) | Some l \<Rightarrow> map_prod Some id (AppendResolved J w l h));
     t = dm_historyTail d @ [h];
     t = (if length t > maxHistoryTail then drop (length t - maxHistoryTail) t else t);
     (el, compactErr) = (case el of
         None \<Rightarrow> (None, None)
       | Some l \<Rightarrow> if CompactDue l then map_prod Some id (compact_log J cw l t) else (Some l, None));
     d = d\<lparr>dm_EventLog := el, dm_historyTail := t\<rparr>;
     d = log_failure now ''failed to persist resolved request %s to the event log: %v'' [he_ID h] appendErr d;
     d = log_failure now ''failed to compact event log: %v'' [] compactErr d
   in daemon_log (LogLine now ''request resolved method=%s from=%s id=%s verdict=%s''
        [he_Method h, Store_Label store (he_ClientKey h), he_ID h, outcome_text h] None) d)"

definition recordAutoApproved :: "wal_codec \<Rightarrow> append_fault \<Rightarrow> compact_fault \<Rightarrow> Store \<Rightarrow> gtime \<Rightarrow> Pending \<Rightarrow> Daemon \<Rightarrow> Daemon" where
  "recordAutoApproved J w cw store now p = recordHistory J w cw store now
     \<lparr>re_Pending = p, re_Verdict = Allow, re_Remembered = False, re_Expired = False, re_AutoApproved = True\<rparr>"

text \<open>The last position at which a request's id stands, and the patch of its event.\<close>

fun patch_last :: "string \<Rightarrow> event option \<Rightarrow> HistoryEntry list \<Rightarrow> HistoryEntry list option" where
  "patch_last rid ev [] = None"
| "patch_last rid ev (h # hs) = (case patch_last rid ev hs of
     Some hs' \<Rightarrow> Some (h # hs')
   | None \<Rightarrow> if he_ID h = rid then Some (h\<lparr>he_Event := ev\<rparr> # hs) else None)"

definition recordSignedEvent :: "wal_codec \<Rightarrow> append_fault \<Rightarrow> gtime \<Rightarrow> string \<Rightarrow> event option \<Rightarrow> Daemon \<Rightarrow> Daemon" where
  "recordSignedEvent J w now rid ev d = (case patch_last rid ev (dm_historyTail d) of
     None \<Rightarrow> d
   | Some t \<Rightarrow> let (el, err) = (case dm_EventLog d of None \<Rightarrow> (None, None) | Some l \<Rightarrow> map_prod Some id (AppendSigned J w l rid ev)) in
       log_failure now ''failed to persist signed event for request %s to the event log: %v'' [rid] err
         (d\<lparr>dm_EventLog := el, dm_historyTail := t\<rparr>))"

definition Daemon_History :: "Daemon \<Rightarrow> HistoryEntry list" where
  "Daemon_History d = rev (dm_historyTail d)"

text \<open>A poll of the board's log watcher: the lines it prints and the count it has then shown. \<open>None\<close> is a failed call.\<close>

definition LogWatcher_Update :: "(log_line list \<times> nat) option \<Rightarrow> nat \<Rightarrow> log_line list \<times> nat" where
  "LogWatcher_Update snap shown = (case snap of
     None \<Rightarrow> ([], shown)
   | Some (lines, n) \<Rightarrow>
       if n \<le> shown then ([], shown)
       else let missing = n - shown in
         (if missing < length lines then drop (length lines - missing) lines else lines, n))"

end
