(* ===== verification/Admin_Tokens_Safe.thy ===== *)
theory Admin_Tokens_Safe
  imports Admin_Tokens
begin

text \<open>
  Facts about the tokens file: what loads from a file that \<open>AddToken\<close> extended or \<open>RemoveToken\<close> rewrote, and what the
  set of a running server accepts.
\<close>

section \<open>Hex and fields\<close>

lemma hex_round_trip [simp]: "hex_decode (hex_encode s) = Some s"
proof (induction s)
  case (Cons c s)
  have "(of_char c :: nat) < 256" using nat_of_char_less_256 .
  then have "of_char c div 16 < (16 :: nat)" by (simp add: less_mult_imp_div_less)
  then show ?case using Cons by (simp add: hex_encode_def)
qed (simp add: hex_encode_def)

abbreviation graphic :: "string \<Rightarrow> bool" where "graphic s \<equiv> \<forall>c \<in> set s. is_ascii_graph c"

lemma fields_from_graph: "graphic w \<Longrightarrow> fields_from cur (w @ s) = fields_from (rev w @ cur) s"
proof (induction w arbitrary: cur)
  case (Cons c w)
  then show ?case using space_len_graph[of c "w @ s"] by (subst fields_from.simps) simp
qed simp

lemma fields_from_space: "fields_from cur (CHR '' '' # s) = (if cur = [] then [] else [rev cur]) @ fields_from [] s"
  by (subst fields_from.simps) (simp add: space_len_def)

lemma str_fields_join: "\<forall>w \<in> set ws. graphic w \<and> w \<noteq> [] \<Longrightarrow> str_fields (join ws '' '') = ws"
proof (induction ws)
  case (Cons w ws)
  have e: "fields_from cur [] = (if cur = [] then [] else [rev cur])" for cur by (subst fields_from.simps) simp
  have w: "graphic w" "w \<noteq> []" using Cons.prems by auto
  show ?case
  proof (cases "ws = []")
    case True
    then show ?thesis using w fields_from_graph[of w "[]" "[]"] by (simp add: str_fields_def e)
  next
    case False
    then show ?thesis using Cons w by (simp add: join_Cons str_fields_def fields_from_graph fields_from_space)
  qed
qed (simp add: str_fields_def fields_from.simps)

text \<open>A trimmed text that is not empty has a first field.\<close>

lemma space_len_prefix: "space_len p \<noteq> 0 \<Longrightarrow> space_len (p @ q) = space_len p"
proof -
  assume a: "space_len p \<noteq> 0"
  consider "p = []" | x where "p = [x]" | x y where "p = [x, y]" | x y z r where "p = x # y # z # r" by (metis list.exhaust)
  then show ?thesis using a by cases (auto simp: space_len_def Let_def split: if_splits)
qed

lemma trim_left_head: "trim_left s = t \<Longrightarrow> space_len t = 0"
  by (induction s arbitrary: t rule: trim_left.induct) (metis trim_left.simps)

lemma trim_right_suffix: "\<exists>u. r = u @ trim_right_rev r"
proof (induction r rule: trim_right_rev.induct)
  case (1 r)
  show ?case
  proof (cases "space_len_rev r = 0")
    case True
    then show ?thesis by (subst trim_right_rev.simps) simp
  next
    case False
    obtain u where "drop (space_len_rev r) r = u @ trim_right_rev (drop (space_len_rev r) r)" using 1 False by blast
    then have "r = (take (space_len_rev r) r @ u) @ trim_right_rev (drop (space_len_rev r) r)"
      by (metis append.assoc append_take_drop_id)
    then show ?thesis using False trim_right_rev.simps[of r] by metis
  qed
qed

lemma fields_from_not_Nil: "cur \<noteq> [] \<Longrightarrow> fields_from cur s \<noteq> []"
  by (induction cur s rule: fields_from.induct) (subst fields_from.simps, auto)

lemma fields_trimmed:
  assumes "trim_space s \<noteq> []"
  shows "str_fields (trim_space s) \<noteq> []"
proof -
  obtain u where u: "rev (trim_left s) = u @ trim_right_rev (rev (trim_left s))" using trim_right_suffix by blast
  then have "trim_left s = trim_space s @ rev u" unfolding trim_space_def by (metis rev_append rev_rev_ident)
  then have "space_len (trim_space s) = 0" using trim_left_head[of s] space_len_prefix by force
  then show ?thesis unfolding str_fields_def using assms fields_from_not_Nil[of "[hd (trim_space s)]"]
    by (subst fields_from.simps) simp
qed

text \<open>A carriage return at the end of a line changes nothing.\<close>

lemma space_len_cr: "x \<noteq> [] \<Longrightarrow> space_len x = 0 \<Longrightarrow> space_len (x @ [CHR 0x0D]) = 0"
proof -
  assume a: "x \<noteq> []" "space_len x = 0"
  consider a where "x = [a]" | a b where "x = [a, b]" | a b c r where "x = a # b # c # r" using a(1) by (metis list.exhaust)
  then show ?thesis using a(2) by cases (auto simp: space_len_def Let_def split: if_splits)
qed

lemma trim_left_cr: "trim_left (x @ [CHR 0x0D]) = (if trim_left x = [] then [] else trim_left x @ [CHR 0x0D])"
proof (induction x rule: trim_left.induct)
  case (1 x)
  have n: "trim_left [] = []" by (subst trim_left.simps) simp
  show ?case
  proof (cases "space_len x = 0")
    case True
    then show ?thesis
      using space_len_cr[of x] n by (cases "x = []") (simp_all add: trim_left.simps[of "_ @ _"] trim_left.simps[of x] trim_left.simps[of "[_]"] space_len_def)
  next
    case False
    have "space_len x \<le> length x" by (cases x) (auto simp: space_len_def has_prefix_iff Let_def split: if_splits)
    then show ?thesis using 1[OF False] False space_len_prefix[of x "[CHR 0x0D]"] by (simp add: trim_left.simps[of "x @ _"] trim_left.simps[of x])
  qed
qed

lemma trim_space_cr: "trim_space (x @ [CHR 0x0D]) = trim_space x"
proof -
  have "trim_right_rev (CHR 0x0D # r) = trim_right_rev r" for r
    by (subst trim_right_rev.simps) (simp add: space_len_rev_def space_len_def)
  moreover have "trim_right_rev [] = []" by (subst trim_right_rev.simps) simp
  ultimately show ?thesis by (simp add: trim_space_def trim_left_cr)
qed

lemma trim_space_strip_cr [simp]: "trim_space (strip_cr l) = trim_space l"
  by (auto simp: strip_cr_def cut_suffix_Some trim_space_cr split: option.split)

lemma token_line_strip_cr [simp]: "token_line (strip_cr l) = token_line l"
  by (simp add: token_line_def)

section \<open>What loads\<close>

text \<open>The lines of a file and the entries they hold; a file loads when every line does.\<close>

definition data_lines :: "string \<Rightarrow> string list" where
  "data_lines data = (let pieces = split data newline in if last pieces = [] then butlast pieces else pieces)"

definition line_entries :: "string \<Rightarrow> TokenEntry list" where
  "line_entries l = (case token_line l of Inr (Some e) \<Rightarrow> [e] | _ \<Rightarrow> [])"

definition lines_ok :: "string list \<Rightarrow> bool" where
  "lines_ok ls \<longleftrightarrow> (\<forall>l \<in> set ls. int (length l) < 65536 \<and> (\<exists>eo. token_line l = Inr eo))"

lemma load_lines_Inr:
  "load_lines n ls = Inr es \<longleftrightarrow> (\<forall>l \<in> set ls. \<exists>eo. token_line l = Inr eo) \<and> es = concat (map line_entries ls)"
  by (induction ls arbitrary: n es) (auto simp: line_entries_def split: sum.split option.splits)

lemma LoadTokens_iff:
  "LoadTokens (Some f) = Inr es \<longleftrightarrow> \<not> open_perm f \<and> tf_readable f \<and> lines_ok (data_lines (tf_data f))
     \<and> es = concat (map line_entries (data_lines (tf_data f)))"
proof -
  let ?short = "\<lambda>ls :: string list. takeWhile (\<lambda>l. int (length l) < 65536) ls"
  have m: "map (\<lambda>l. line_entries (strip_cr l)) ls = map line_entries ls" for ls by (simp add: line_entries_def)
  have "(load_lines 1 (map strip_cr (?short ls)) = Inr es \<and> ?short ls = ls) \<longleftrightarrow> lines_ok ls \<and> es = concat (map line_entries ls)" for ls
    using takeWhile_eq_all_conv[of "\<lambda>l. int (length l) < 65536" ls]
    by (cases "?short ls = ls") (auto simp: load_lines_Inr lines_ok_def m o_def simp del: takeWhile_eq_all_conv)
  then show ?thesis unfolding LoadTokens_def data_lines_def Let_def by (auto simp: try_bind_Inr)
qed

lemma data_lines_append:
  assumes "clean data" "newline \<notin> set l"
  shows "data_lines (data @ l @ [newline]) = data_lines data @ [l]"
  using split_clean(1)[OF assms(1), of "l @ [newline]"] split_clean(2)[OF assms(1)] split_app[OF assms(2), of "[]"]
  by (simp add: data_lines_def Let_def butlast_append)

section \<open>Adding\<close>

lemma graph_chars [simp]:
  "is_ascii_graph CHR ''-''" "is_ascii_graph CHR ''0''" "is_ascii_graph CHR '':''" "is_ascii_graph CHR ''=''"
  by (simp_all add: is_ascii_graph_def)

lemma graphic_digits: "graphic (nat_text n)"
proof
  fix c assume "c \<in> set (nat_text n)"
  then obtain d where "d < 10" "c = digit_char d" using nat_text_digits by blast
  then show "is_ascii_graph c" by (simp add: digit_char_def is_ascii_graph_def)
qed

lemma graphic_date: "graphic (format_date t)"
  using graphic_digits by (auto simp: format_date_def pad_def Let_def split: prod.split)

lemma graphic_hex: "graphic (hex_encode s)"
proof -
  have "is_ascii_graph (hex_char d)" if "d < 16" for d using that by (simp add: hex_char_def is_ascii_graph_def)
  moreover have "of_char c div 16 < (16 :: nat)" for c :: char using nat_of_char_less_256[of c] by (simp add: less_mult_imp_div_less)
  ultimately show ?thesis by (auto simp: hex_encode_def)
qed

lemma graphic_name: "token_name_ok n \<Longrightarrow> graphic n"
  by (fastforce simp: token_name_ok_def is_ascii_graph_def Let_def)

definition new_entry :: "(string \<Rightarrow> string) \<Rightarrow> string \<Rightarrow> string \<Rightarrow> gtime \<Rightarrow> TokenEntry" where
  "new_entry sha token name now = \<lparr>te_Hash = sha token, te_Name = name, te_Created = format_date now\<rparr>"

lemma hex_encode_length: "length (hex_encode s) = 2 * length s"
  by (induction s) (simp_all add: hex_encode_def)

lemma nat_text_length: "n < 10 ^ k \<Longrightarrow> length (nat_text n) \<le> max 1 k"
proof (induction n arbitrary: k rule: nat_text.induct)
  case (1 n)
  show ?case
  proof (cases "n < 10")
    case False
    then obtain j where k: "k = Suc j" using 1(2) by (cases k) auto
    then have "n div 10 < 10 ^ j" using 1(2) by (simp add: less_mult_imp_div_less mult.commute)
    moreover have "j \<noteq> 0" using False 1(2) k by (cases j) auto
    ultimately have "length (nat_text (n div 10)) \<le> j" using 1(1)[OF False] by fastforce
    then show ?thesis using False k by (simp add: nat_text.simps[of n])
  qed (simp add: nat_text.simps)
qed

text \<open>A date of the clock is short, so the line is.\<close>

lemma pad_length: "\<bar>n\<bar> < 10 ^ 12 \<Longrightarrow> w \<le> 12 \<Longrightarrow> length (pad w n) \<le> 13"
  using nat_text_length[of "nat \<bar>n\<bar>" 12] by (auto simp: pad_def Let_def nat_less_iff)

lemma civil_date_bounds:
  assumes "clock_ok t" "civil_date t = (y, m, d)"
  shows "\<bar>y\<bar> < 10 ^ 12" "\<bar>m\<bar> < 10 ^ 12" "\<bar>d\<bar> < 10 ^ 12"
proof -
  define z era doe where "z = t div (24 * hour) + 306" and "era = z div 146097" and "doe = z mod 146097"
  define yoe where "yoe = (doe - doe div 1460 + doe div 36524 - doe div 146096) div 365"
  define doy where "doy = doe - (365 * yoe + yoe div 4 - yoe div 100)"
  define mp where "mp = (5 * doy + 2) div 153"
  have t: "0 \<le> t div (24 * hour)" "t div (24 * hour) < 10 ^ 14" 
    using assms(1) pos_imp_zdiv_nonneg_iff[of "24 * hour" t] zdiv_mono1[of t "4611686018427387904 * second" "24 * hour"] by (auto simp: clock_ok_def)
  have z0: "0 \<le> z" "z < 10 ^ 14 + 306" using t by (simp_all add: z_def)
  then have z: "0 \<le> era" "era < 10 ^ 9" "0 \<le> doe" "doe < 146097"
    using zdiv_mono1[of z "10 ^ 14 + 306" 146097] unfolding era_def doe_def by (simp_all add: pos_imp_zdiv_nonneg_iff)
  have yoe: "-1 \<le> yoe" "yoe \<le> 401" using z(3,4) unfolding yoe_def by linarith+
  have doy: "- 1000000 < doy" "doy < 1000000" using z(3,4) yoe unfolding doy_def by linarith+
  have mp: "- 1000000 < mp" "mp < 1000000" using doy unfolding mp_def by linarith+
  have e: "y = yoe + era * 400 + (if m \<le> 2 then 1 else 0)" "m = (if mp < 10 then mp + 3 else mp - 9)"
    "d = doy - (153 * mp + 2) div 5 + 1"
    using assms(2) unfolding civil_date_def Let_def z_def[symmetric] era_def[symmetric] doe_def[symmetric] yoe_def[symmetric]
      doy_def[symmetric] mp_def[symmetric] by (blast dest: prod.inject[THEN iffD1])+
  show "\<bar>y\<bar> < 10 ^ 12" using e(1) z(1,2) yoe by auto
  show "\<bar>m\<bar> < 10 ^ 12" using e(2) mp by auto
  have "- 100000000 < d" "d < 100000000" using e(3) mp doy by linarith+
  then show "\<bar>d\<bar> < 10 ^ 12" by simp
qed

lemma format_date_length: "clock_ok t \<Longrightarrow> length (format_date t) \<le> 41"
proof -
  assume t: "clock_ok t"
  obtain y m d where c: "civil_date t = (y, m, d)" by (cases "civil_date t")
  show ?thesis using pad_length[of y 4] pad_length[of m 2] pad_length[of d 2] civil_date_bounds[OF t c] by (simp add: format_date_def c)
qed

text \<open>The line \<open>NewToken\<close> makes is one line of the file, with the entry of the token.\<close>

lemma NewToken_line:
  assumes "NewToken sha rnd name now = Inr (token, line)" "\<forall>s. length (sha s) = 32" "clock_ok now"
  shows "newline \<notin> set line" "int (length line) < 65536" "token_line line = Inr (Some (new_entry sha token name now))"
    "token = TokenPrefix @ b64url (take 32 rnd)"
proof -
  have n: "token_name_ok name" and tok: "token = TokenPrefix @ b64url (take 32 rnd)"
    and line: "line = (''sha256:'' @ hex_encode (sha token)) @ '' '' @ (''name='' @ name) @ '' '' @ (''created='' @ format_date now)"
    using assms(1) by (auto simp: NewToken_def Let_def split: if_splits)
  let ?a = "''sha256:'' @ hex_encode (sha token)" and ?b = "''name='' @ name" and ?c = "''created='' @ format_date now"
  have g: "graphic ?a" "graphic ?b" "graphic ?c"
    using graphic_hex[of "sha token"] graphic_name[OF n] graphic_date[of now] by (auto simp: is_ascii_graph_def)
  have nl: "newline \<notin> set w" "\<not> is_ascii_graph newline" if "graphic w" for w using that by (auto simp: is_ascii_graph_def)
  show "newline \<notin> set line" using g nl unfolding line by (auto simp: is_ascii_graph_def)
  have "length name \<le> 64" using n by (simp add: token_name_ok_def)
  then show "int (length line) < 65536"
    using assms(2) format_date_length[OF assms(3)] unfolding line by (simp add: hex_encode_length)
  have "last line = last ?c" "hd line = CHR ''s''" "line \<noteq> []" unfolding line by simp_all
  then have tr: "trim_space line = line" using g(3) by (intro trim_space_graph) (auto simp: is_ascii_graph_def)
  have f: "str_fields line = [?a, ?b, ?c]" using str_fields_join[of "[?a, ?b, ?c]"] g by (simp add: line)
  have eq: "cut ?b CHR ''='' = Some (''name'', name)" "cut ?c CHR ''='' = Some (''created'', format_date now)" by (simp_all add: cut_Some)
  have "parseTokenLine line = Inr (new_entry sha token name now)"
    using assms(2) eq by (simp add: parseTokenLine_def f cut_prefix_def set_field_def new_entry_def)
  then show "token_line line = Inr (Some (new_entry sha token name now))"
    unfolding token_line_def tr Let_def by (simp add: line)
  show "token = TokenPrefix @ b64url (take 32 rnd)" by (rule tok)
qed

lemma AddToken_loads:
  assumes "AddToken sha rnd w wt fo name now = (fo', Inr token)" "\<forall>s. length (sha s) = 32" "clock_ok now"
    "fo = None \<or> (\<exists>f. fo = Some f \<and> clean (tf_data f))"
  shows "\<exists>f' es. fo' = Some f' \<and> (case fo of None \<Rightarrow> es = [] | Some f \<Rightarrow> LoadTokens fo = Inr es \<and> length (tf_data f) < length (tf_data f'))
    \<and> name \<notin> te_Name ` set es \<and> LoadTokens fo' = Inr (es @ [new_entry sha token name now]) \<and> clean (tf_data f') \<and> tf_mtime f' = wt
    \<and> has_prefix token TokenPrefix"
proof -
  obtain es line where e: "(if fo = None then Inr [] else LoadTokens fo) = Inr es" "name \<notin> te_Name ` set es"
      "NewToken sha rnd name now = Inr (token, line)" "fo' = Some (append_tokens fo wt (line @ [newline]))"
    using assms(1) by (auto simp: AddToken_def split: sum.splits if_splits prod.splits token_fault.splits)
  note l = NewToken_line[OF e(3) assms(2,3)]
  have le: "line_entries line = [new_entry sha token name now]" by (simp add: line_entries_def l(3))
  show ?thesis
  proof (cases fo)
    case None
    have "data_lines (line @ [newline]) = [line]" using data_lines_append[of "[]" line] l(1) by (simp add: clean_def data_lines_def)
    then show ?thesis using e l le None
      by (simp add: append_tokens_def LoadTokens_iff lines_ok_def open_perm_def clean_def)
  next
    case (Some f)
    have "clean (tf_data f)" using assms(4) Some by simp
    then have "data_lines (tf_data f @ line @ [newline]) = data_lines (tf_data f) @ [line]" using data_lines_append l(1) by blast
    moreover have "LoadTokens fo = Inr es" using e(1) Some by simp
    ultimately show ?thesis using e(2-4) l le Some
      by (simp add: append_tokens_def LoadTokens_iff lines_ok_def open_perm_def clean_def ball_Un)
  qed
qed

section \<open>Removing\<close>

lemma trim_newlines_data: "\<exists>k. data = trim_newlines data @ replicate k newline"
proof -
  let ?tw = "takeWhile (\<lambda>c. c = newline) (rev data)"
  have "?tw = replicate (length ?tw) newline" by (intro replicate_eqI) (auto dest: set_takeWhileD)
  then have "rev ?tw = replicate (length ?tw) newline" by (metis rev_replicate)
  moreover have "data = trim_newlines data @ rev ?tw"
    unfolding trim_newlines_def rev_append[symmetric] takeWhile_dropWhile_id by simp
  ultimately show ?thesis by metis
qed

lemma split_newlines: "split (x @ replicate k newline) newline = split x newline @ replicate k []"
proof (induction k arbitrary: x)
  case (Suc k)
  have r: "split (replicate k newline) newline = replicate (Suc k) []" by (induction k) auto
  show ?case using split_snoc_newline[of x "replicate k newline"] r by simp
qed simp

lemma line_Nil [simp]: "token_line [] = Inr None" "line_entries [] = []" "\<not> names_line name []"
  by (simp_all add: token_line_def line_entries_def names_line_def)

lemma data_lines_trimmed:
  "lines_ok (data_lines data) \<longleftrightarrow> lines_ok (split (trim_newlines data) newline)"
  "concat (map line_entries (data_lines data)) = concat (map line_entries (split (trim_newlines data) newline))"
proof -
  let ?x = "trim_newlines data"
  obtain k where k: "data = ?x @ replicate k newline" using trim_newlines_data by blast
  then have sp: "split data newline = split ?x newline @ replicate k []" using split_newlines by metis
  have d: "\<exists>j. data_lines data @ replicate j [] = split ?x newline @ replicate k []"
  proof (cases "last (split data newline) = []")
    case True
    then have "data_lines data @ replicate 1 [] = split data newline"
      by (simp add: data_lines_def Let_def) (metis append_butlast_last_id split_not_Nil)
    then show ?thesis using sp by metis
  next
    case False
    then have "data_lines data @ replicate 0 [] = split data newline" by (simp add: data_lines_def Let_def)
    then show ?thesis using sp by metis
  qed
  have pad: "lines_ok (ls @ replicate j []) = lines_ok ls" "concat (map line_entries (ls @ replicate j [])) = concat (map line_entries ls)" for ls j
    by (auto simp: lines_ok_def)
  show "lines_ok (data_lines data) \<longleftrightarrow> lines_ok (split ?x newline)"
    "concat (map line_entries (data_lines data)) = concat (map line_entries (split ?x newline))"
    using d pad by metis+
qed

lemma names_line_iff: "names_line name l \<longleftrightarrow> (\<exists>e. token_line l = Inr (Some e) \<and> te_Name e = name)"
  by (auto simp: names_line_def token_line_def Let_def map_sum_def split: sum.splits)

lemma entries_kept: "concat (map line_entries (filter (\<lambda>l. \<not> names_line name l) ls)) = filter (\<lambda>e. te_Name e \<noteq> name) (concat (map line_entries ls))"
  by (induction ls) (auto simp: line_entries_def names_line_iff split: sum.splits option.splits)

lemma split_join: "\<forall>w \<in> set ws. newline \<notin> set w \<Longrightarrow> ws \<noteq> [] \<Longrightarrow> split (join ws [newline]) newline = ws"
proof (induction ws)
  case (Cons w ws)
  then show ?case by (cases "ws = []") (simp_all add: join_Cons split_app split_no_sep)
qed simp

lemma split_parts: "w \<in> set (split s newline) \<Longrightarrow> newline \<notin> set w"
  by (induction s arbitrary: w) (auto split: list.splits if_splits)

lemma join_weight: "ws \<noteq> [] \<Longrightarrow> length (join ws [newline]) + 1 = sum_list (map (\<lambda>w. length w + 1) ws)"
proof (induction ws)
  case (Cons w ws)
  then show ?case by (cases ws) (auto simp: join_Cons)
qed simp

lemma data_lines_out:
  assumes "\<forall>w \<in> set ws. newline \<notin> set w"
  defines "out \<equiv> (let s = join ws [newline] in if s \<noteq> [] then s @ [newline] else s)"
  shows "lines_ok (data_lines out) \<longleftrightarrow> lines_ok ws" "concat (map line_entries (data_lines out)) = concat (map line_entries ws)" "clean out"
    "length out \<le> sum_list (map (\<lambda>w. length w + 1) ws)"
proof -
  have "lines_ok (data_lines out) = lines_ok ws \<and> concat (map line_entries (data_lines out)) = concat (map line_entries ws) \<and> clean out
    \<and> length out \<le> sum_list (map (\<lambda>w. length w + 1) ws)"
  proof (cases "join ws [newline] = []")
    case True
    then have "ws = [] \<or> ws = [[]]" by (cases ws rule: remdups_adj.cases) simp_all
    then show ?thesis unfolding out_def using True by (auto simp: data_lines_def lines_ok_def clean_def)
  next
    case False
    then have ws: "ws \<noteq> []" by auto
    have "split (join ws [newline] @ [newline]) newline = ws @ [[]]"
      using split_snoc_newline[of "join ws [newline]" "[]"] split_join[OF assms(1) ws] by simp
    then have "data_lines out = ws" using False by (simp add: out_def data_lines_def)
    then show ?thesis using False join_weight[OF ws] by (simp add: out_def clean_def)
  qed
  then show "lines_ok (data_lines out) \<longleftrightarrow> lines_ok ws" "concat (map line_entries (data_lines out)) = concat (map line_entries ws)" "clean out"
    "length out \<le> sum_list (map (\<lambda>w. length w + 1) ws)" by blast+
qed

lemma weight_filter: "l \<in> set ls \<Longrightarrow> \<not> P l \<Longrightarrow> sum_list (map (\<lambda>w. length w + 1) (filter P ls)) + length l + 1 \<le> sum_list (map (\<lambda>w. length w + 1) ls)"
proof (induction ls)
  case (Cons x ls)
  have "sum_list (map (\<lambda>w. length w + 1) (filter P ls)) \<le> sum_list (map (\<lambda>w. length w + 1) ls)" by (induction ls) auto
  then show ?case using Cons by auto
qed simp

lemma RemoveToken_loads:
  assumes "RemoveToken w wt (Some f) name = (fo', None)" "LoadTokens (Some f) = Inr es"
  shows "\<exists>f'. fo' = Some f' \<and> LoadTokens fo' = Inr (filter (\<lambda>e. te_Name e \<noteq> name) es) \<and> name \<in> te_Name ` set es
    \<and> clean (tf_data f') \<and> length (tf_data f') < length (tf_data f) \<and> tf_mtime f' = wt"
proof -
  let ?ls = "split (trim_newlines (tf_data f)) newline"
  let ?kept = "filter (\<lambda>l. \<not> names_line name l) ?ls"
  let ?out = "let s = join ?kept [newline] in if s \<noteq> [] then s @ [newline] else s"
  have r: "?kept \<noteq> ?ls" "fo' = Some \<lparr>tf_perm = 0x180, tf_readable = True, tf_data = ?out, tf_mtime = wt\<rparr>"
    using assms by (auto simp: RemoveToken_def Let_def split: if_splits remove_fault.splits)
  have ok: "lines_ok ?ls" "es = concat (map line_entries ?ls)" using assms(2) data_lines_trimmed[of "tf_data f"] by (simp_all add: LoadTokens_iff)
  have "\<forall>w \<in> set ?kept. newline \<notin> set w" using split_parts by auto
  note o = data_lines_out[OF this]
  obtain l where l: "l \<in> set ?ls" "names_line name l" using r(1) by (metis (no_types, lifting) filter_True)
  obtain e where e: "token_line l = Inr (Some e)" "te_Name e = name" using l(2) names_line_iff by blast
  have "e \<in> set es" using l(1) e(1) ok(2) by (force simp: line_entries_def)
  then have named: "name \<in> te_Name ` set es" using e(2) by blast
  have "l \<noteq> []" using l(2) by auto
  then have "length ?out < sum_list (map (\<lambda>w. length w + 1) ?ls) - 1"
    using o(4) weight_filter[of l ?ls "\<lambda>l. \<not> names_line name l"] l by (cases l) auto
  moreover have "sum_list (map (\<lambda>w. length w + 1) ?ls) = length (trim_newlines (tf_data f)) + 1"
    using join_weight[of ?ls] join_split[of "trim_newlines (tf_data f)" newline] by simp
  moreover have "length (trim_newlines (tf_data f)) \<le> length (tf_data f)"
    using trim_newlines_data[of "tf_data f"] by (metis le_add1 length_append)
  ultimately have "length ?out < length (tf_data f)" by linarith
  moreover have "lines_ok ?kept" using ok(1) by (simp add: lines_ok_def)
  ultimately show ?thesis using o named entries_kept[of name ?ls] ok(2) unfolding r(2)
    by (simp add: LoadTokens_iff open_perm_def)
qed

section \<open>What a server accepts\<close>

text \<open>The hashes a file lets in, and a set that is in step with a file whenever its stamp says so.\<close>

definition accepted :: "tfile option \<Rightarrow> string set" where
  "accepted fo = (case LoadTokens fo of Inl _ \<Rightarrow> {} | Inr es \<Rightarrow> te_Hash ` set es)"

definition in_step :: "tokenSet \<Rightarrow> tfile option \<Rightarrow> bool" where
  "in_step t fo \<longleftrightarrow> (\<forall>f. fo = Some f \<longrightarrow> tf_mtime f = ts_mtime t \<longrightarrow> length (tf_data f) = ts_size t \<longrightarrow> set (ts_hashes t) = accepted fo)"

lemma reload_facts:
  "tokens_reload t fo fo = Inr t' \<Longrightarrow> set (ts_hashes t') = accepted fo"
  "tokens_reload t (Some f) fo = Inr t' \<Longrightarrow> ts_mtime t' = tf_mtime f \<and> ts_size t' = length (tf_data f)"
  "tokens_reload t (Some f) (Some f) = Inl e \<Longrightarrow> accepted (Some f) = {}"
  by (auto simp: tokens_reload_def accepted_def try_bind_def split: option.splits sum.splits)

lemma recheck_facts:
  assumes "in_step t fo"
  shows "set (ts_hashes (tokens_recheck t fo fo fo)) = accepted fo"
proof (cases fo)
  case None
  then show ?thesis by (simp add: tokens_recheck_def accepted_def LoadTokens_def)
next
  case (Some f)
  have "accepted fo = {}" if "open_perm f" using that Some by (simp add: accepted_def LoadTokens_def)
  then show ?thesis using assms Some reload_facts by (auto simp: tokens_recheck_def in_step_def split: sum.split)
qed

lemma in_step_new: "newTokenSet fo fo = Inr t \<Longrightarrow> in_step t fo"
  unfolding newTokenSet_def in_step_def using reload_facts by blast

lemma in_step_checked [simp]: "in_step (t\<lparr>ts_checked := now\<rparr>) fo \<longleftrightarrow> in_step t fo"
  by (simp add: in_step_def)

lemma in_step_hashes: "set (ts_hashes t) = accepted fo \<Longrightarrow> in_step t fo"
  by (simp add: in_step_def)

lemma in_step_size: "fo = Some f \<Longrightarrow> ts_size t \<noteq> length (tf_data f) \<Longrightarrow> in_step t fo"
  by (simp add: in_step_def)

lemma valid_due:
  assumes "in_step t fo" "recheckEvery \<le> now - ts_checked t" "tokens_valid sha t fo fo fo token now = (t', ok)"
  shows "ok \<longleftrightarrow> has_prefix token TokenPrefix \<and> sha token \<in> accepted fo" "in_step t' fo"
proof -
  have d: "recheckEvery \<le> time_sub now (ts_checked t)" using assms(2) by (simp add: time_sub_def max_int64_def)
  have h: "set (ts_hashes (tokens_recheck (t\<lparr>ts_checked := now\<rparr>) fo fo fo)) = accepted fo" using recheck_facts assms(1) by simp
  show "ok \<longleftrightarrow> has_prefix token TokenPrefix \<and> sha token \<in> accepted fo" "in_step t' fo"
    using assms(1,3) d h in_step_hashes by (auto simp: tokens_valid_def Let_def split: if_splits)
qed

end
