(* ===== verification/Bunker_EventLog_Theorems.thy ===== *)
theory Bunker_EventLog_Theorems
  imports Bunker_EventLog Bunker_Theorems Admin_Tokens_Safe "HOL-Library.Multiset"
begin

text \<open>
  What the event log keeps of the daemon's history: the bytes it appends are read back, also when the last append was torn by
  a crash; a restart finds the history that the daemon had, with the requests that still waited folded in; and the
  file stays bounded.
\<close>

section \<open>The lines of the file\<close>

text \<open>What is asked of \<open>encoding/json\<close> at the type \<open>walEntry\<close>: a record is written on one line that is read back as it was,
  and a proper prefix of an object is not an object. The texts are those of a decoded request, so valid UTF-8.\<close>

definition wal_codec_ok :: "wal_codec \<Rightarrow> bool" where
  "wal_codec_ok J \<longleftrightarrow> (\<forall>e. \<exists>s. wc_marshal J e = Inr s \<and> s \<noteq> [] \<and> newline \<notin> set s \<and> wc_unmarshal J s = Inr e
     \<and> (\<forall>k < length s. \<exists>err. wc_unmarshal J (take k s) = Inl err))"

definition wline :: "wal_codec \<Rightarrow> walEntry \<Rightarrow> string" where
  "wline J e = (case wc_marshal J e of Inl _ \<Rightarrow> [] | Inr s \<Rightarrow> s)"

definition wtext :: "wal_codec \<Rightarrow> walEntry list \<Rightarrow> string" where
  "wtext J es = concat (map (\<lambda>e. wline J e @ [newline]) es)"

lemma wline_laws:
  assumes "wal_codec_ok J"
  shows "wc_marshal J e = Inr (wline J e)" "wline J e \<noteq> []" "newline \<notin> set (wline J e)"
    "wc_unmarshal J (wline J e) = Inr e" "k < length (wline J e) \<Longrightarrow> \<exists>err. wc_unmarshal J (take k (wline J e)) = Inl err"
proof -
  obtain s where "wc_marshal J e = Inr s" "s \<noteq> []" "newline \<notin> set s" "wc_unmarshal J s = Inr e"
      "\<forall>k < length s. \<exists>err. wc_unmarshal J (take k s) = Inl err"
    using assms unfolding wal_codec_ok_def by blast
  then show "wc_marshal J e = Inr (wline J e)" "wline J e \<noteq> []" "newline \<notin> set (wline J e)"
    "wc_unmarshal J (wline J e) = Inr e" "k < length (wline J e) \<Longrightarrow> \<exists>err. wc_unmarshal J (take k (wline J e)) = Inl err"
    by (simp_all add: wline_def)
qed

lemma wtext_simps [simp]: "wtext J [] = []" "wtext J (e # es) = wline J e @ newline # wtext J es"
  "wtext J (es @ es') = wtext J es @ wtext J es'"
  by (simp_all add: wtext_def)

lemma read_lines_run:
  assumes "wal_codec_ok J"
  shows "read_lines J i (map (wline J) es @ [g]) = Inr (es @ (case wc_unmarshal J g of Inl _ \<Rightarrow> [] | Inr e \<Rightarrow> [e]))"
proof (induction es arbitrary: i)
  case Nil
  then show ?case by (simp split: sum.split)
next
  case (Cons e es)
  then show ?case by (simp add: wline_laws(4) [OF assms])
qed

lemma split_wtext:
  assumes "wal_codec_ok J" "newline \<notin> set g"
  shows "split (wtext J es @ g) newline = map (wline J) es @ [g]"
proof (induction es)
  case Nil
  then show ?case using assms(2) by (simp add: split_no_sep)
next
  case (Cons e es)
  then show ?case by (simp add: split_app wline_laws(3) [OF assms(1)])
qed

lemma trim_newlines_end:
  assumes "g \<noteq> []" "newline \<notin> set g"
  shows "trim_newlines (x @ g) = x @ g" "trim_newlines (x @ g @ [newline]) = x @ g"
proof -
  have "g = butlast g @ [last g]" "last g \<noteq> newline" using assms by (auto dest: last_in_set)
  then obtain b c where "g = b @ [c]" "c \<noteq> newline" by blast
  then show "trim_newlines (x @ g) = x @ g" "trim_newlines (x @ g @ [newline]) = x @ g"
    by (simp_all add: trim_newlines_def)
qed

lemma read_back_piece:
  assumes "wal_codec_ok J" "g \<noteq> []" "newline \<notin> set g" "u = wtext J es @ g \<or> u = wtext J es @ g @ [newline]"
  shows "readWALEntries J None (Some u) = Inr (es @ (case wc_unmarshal J g of Inl _ \<Rightarrow> [] | Inr e \<Rightarrow> [e]))"
proof -
  have "trim_newlines u = wtext J es @ g" using assms(4) trim_newlines_end [OF assms(2,3)] by metis
  then show ?thesis using assms(2)
    by (simp add: readWALEntries_def Let_def split_wtext [OF assms(1,3)] read_lines_run [OF assms(1)])
qed

lemma read_back:
  assumes "wal_codec_ok J"
  shows "readWALEntries J None (Some (wtext J es)) = Inr es"
proof (cases es rule: rev_cases)
  case Nil
  then show ?thesis by (simp add: readWALEntries_def trim_newlines_def)
next
  case (snoc es' e)
  then show ?thesis
    using read_back_piece [OF assms wline_laws(2) [OF assms, of e] wline_laws(3) [OF assms] disjI2 [OF refl], of es']
    by (simp add: wline_laws(4) [OF assms])
qed

text \<open>A crash in the middle of an append: what is read is what was there, or that and the whole record.\<close>

lemma torn_append_read:
  assumes "wal_codec_ok J"
  shows "readWALEntries J None (Some (wtext J es @ take k (wline J e @ [newline])))
    = Inr (if k < length (wline J e) then es else es @ [e])"
proof -
  consider "k = 0" | "0 < k" "k < length (wline J e)" | "k = length (wline J e)" | "k > length (wline J e)" by linarith
  then show ?thesis
  proof cases
    case 1
    then show ?thesis using read_back [OF assms] wline_laws(2) [OF assms, of e] by simp
  next
    case 2
    then have "newline \<notin> set (take k (wline J e))" using wline_laws(3) [OF assms] by (meson in_set_takeD)
    then show ?thesis
      using read_back_piece [OF assms _ _ disjI1 [OF refl], of "take k (wline J e)" es] wline_laws(2) [OF assms, of e] wline_laws(5) [OF assms 2(2)] 2 by auto
  next
    case 3
    then show ?thesis
      using read_back_piece [OF assms wline_laws(2) [OF assms, of e] wline_laws(3) [OF assms] disjI1 [OF refl], of es] wline_laws(4) [OF assms] by simp
  next
    case 4
    then show ?thesis using read_back [OF assms, of "es @ [e]"] by simp
  qed
qed

section \<open>Replay\<close>

definition rp_ok :: "replayed \<Rightarrow> bool" where
  "rp_ok r \<longleftrightarrow> distinct (rp_order r) \<and> set (rp_order r) = dom (map_of (rp_history r)) \<and> distinct (map fst (rp_pending r))
     \<and> (\<forall>i h. map_of (rp_history r) i = Some h \<longrightarrow> he_ID h = i) \<and> (\<forall>i p. map_of (rp_pending r) i = Some p \<longrightarrow> pd_ID p = i)
     \<and> dom (map_of (rp_pending r)) \<inter> dom (map_of (rp_history r)) = {}"

lemma rp_okD:
  assumes "rp_ok r"
  shows "distinct (rp_order r)" "set (rp_order r) = dom (map_of (rp_history r))" "distinct (map fst (rp_pending r))"
    "map_of (rp_history r) i = Some h \<Longrightarrow> he_ID h = i" "map_of (rp_pending r) i = Some p \<Longrightarrow> pd_ID p = i"
    "map_of (rp_pending r) i = Some p \<Longrightarrow> map_of (rp_history r) i = None"
  using assms unfolding rp_ok_def by blast+

lemma rp_ok_add:
  assumes "rp_ok r" "map_of (rp_history r) (pd_ID p) = None"
  shows "rp_ok (r\<lparr>rp_pending := AList.update (pd_ID p) p (rp_pending r)\<rparr>)"
  using assms unfolding rp_ok_def by (auto simp: update_conv' distinct_update)

lemma rp_ok_resolve:
  assumes "rp_ok r"
  shows "rp_ok (r\<lparr>rp_pending := AList.delete (he_ID h) (rp_pending r),
    rp_order := (if map_of (rp_history r) (he_ID h) = None then rp_order r @ [he_ID h] else rp_order r),
    rp_history := AList.update (he_ID h) h (rp_history r)\<rparr>)" (is "rp_ok ?r")
proof -
  have "set (rp_order ?r) = insert (he_ID h) (set (rp_order r))" "distinct (rp_order ?r)"
    using rp_okD(1,2) [OF assms] by auto
  moreover have "map_of (rp_history ?r) = (map_of (rp_history r))(he_ID h \<mapsto> h)"
    "map_of (rp_pending ?r) = (map_of (rp_pending r))(he_ID h := None)"
    by (simp_all add: update_conv' delete_conv')
  moreover have "distinct (map fst (rp_pending ?r))" using rp_okD(3) [OF assms] by (simp add: distinct_delete)
  ultimately show ?thesis using assms unfolding rp_ok_def by (simp only: dom_fun_upd fun_upd_apply) (auto split: if_splits)
qed

lemma rp_ok_sign:
  assumes "rp_ok r" "map_of (rp_history r) i = Some h"
  shows "rp_ok (r\<lparr>rp_history := AList.update i (h\<lparr>he_Event := ev\<rparr>) (rp_history r)\<rparr>)"
  using rp_okD(4) [OF assms] assms unfolding rp_ok_def by (auto simp: update_conv')

lemma rp_ok_entry:
  assumes "rp_ok r"
  shows "rp_ok (replay_entry e r)"
  using assms rp_ok_add [OF assms] rp_ok_resolve [OF assms] rp_ok_sign [OF assms]
  unfolding replay_entry_def by (simp split: option.split)

lemma rp_ok_fold: "rp_ok r \<Longrightarrow> rp_ok (fold replay_entry es r)"
  by (induction es arbitrary: r) (simp_all add: rp_ok_entry)

lemma rp_ok_replay: "rp_ok (replay es)"
  unfolding replay_def by (rule rp_ok_fold) (simp add: rp_ok_def)

lemma replay_snoc: "replay (es @ [e]) = replay_entry e (replay es)"
  by (simp add: replay_def)

lemma in_order_ids: "rp_ok r \<Longrightarrow> map he_ID (history_in_order r) = rp_order r"
proof -
  assume ok: "rp_ok r"
  have "he_ID (the (map_of (rp_history r) i)) = i" if "i \<in> set (rp_order r)" for i
    using that rp_okD(2,4) [OF ok] by (auto simp: domIff)
  then show ?thesis by (simp add: history_in_order_def map_idI)
qed

lemma replay_added:
  "history_in_order (replay_entry (added_entry p) r) = history_in_order r"
  "map_of (rp_pending (replay_entry (added_entry p) r))
     = (if map_of (rp_history r) (pd_ID p) = None then (map_of (rp_pending r))(pd_ID p \<mapsto> p) else map_of (rp_pending r))"
  by (auto simp: replay_entry_def added_entry_def history_in_order_def update_conv')

lemma replay_resolved:
  assumes "rp_ok r" "he_ID h \<notin> set (rp_order r)"
  shows "history_in_order (replay_entry (resolved_entry h) r) = history_in_order r @ [h]"
    "map_of (rp_pending (replay_entry (resolved_entry h) r)) = (map_of (rp_pending r))(he_ID h := None)"
  using assms rp_okD(2) [OF assms(1)]
  by (auto simp: replay_entry_def resolved_entry_def history_in_order_def update_conv' delete_conv' restrict_map_def fun_eq_iff)

definition patch :: "string \<Rightarrow> event option \<Rightarrow> HistoryEntry \<Rightarrow> HistoryEntry" where
  "patch rid ev h = (if he_ID h = rid then h\<lparr>he_Event := ev\<rparr> else h)"

lemma patch_id [simp]: "he_ID (patch rid ev h) = he_ID h"
  by (simp add: patch_def)

lemma replay_signed:
  assumes "rp_ok r"
  shows "history_in_order (replay_entry (signed_entry rid ev) r) = map (patch rid ev) (history_in_order r)"
    "rp_pending (replay_entry (signed_entry rid ev) r) = rp_pending r"
    "rp_order (replay_entry (signed_entry rid ev) r) = rp_order r"
  using rp_okD(2,4) [OF assms]
  by (auto simp: replay_entry_def signed_entry_def history_in_order_def update_conv' patch_def split: option.splits)

lemma fold_resolved:
  assumes "rp_ok r" "distinct (map he_ID hs)" "he_ID ` set hs \<inter> set (rp_order r) = {}"
  shows "history_in_order (fold replay_entry (map resolved_entry hs) r) = history_in_order r @ hs
    \<and> map_of (rp_pending (fold replay_entry (map resolved_entry hs) r)) = map_of (rp_pending r) |` (- (he_ID ` set hs))"
  using assms
proof (induction hs arbitrary: r)
  case Nil
  then show ?case by simp
next
  case (Cons h hs)
  let ?r = "replay_entry (resolved_entry h) r"
  have ok: "rp_ok ?r" using Cons.prems(1) by (rule rp_ok_entry)
  have nh: "he_ID h \<notin> set (rp_order r)" using Cons.prems(3) by auto
  note one = replay_resolved [OF Cons.prems(1) nh]
  have "rp_order ?r = rp_order r @ [he_ID h]"
    using in_order_ids [OF ok] in_order_ids [OF Cons.prems(1)] unfolding one by simp
  then have "he_ID ` set hs \<inter> set (rp_order ?r) = {}" using Cons.prems(2,3) by auto
  from Cons.IH [OF ok _ this] show ?case using Cons.prems(2) one
    by (auto simp: restrict_map_def fun_eq_iff)
qed

lemma replay_app: "replay (es @ es') = fold replay_entry es' (replay es)"
  by (simp add: replay_def)

lemma replay_compacted:
  assumes "distinct (map he_ID hs)"
  shows "history_in_order (replay (map resolved_entry hs)) = hs" "map_of (rp_pending (replay (map resolved_entry hs))) = Map.empty"
proof -
  let ?r = "\<lparr>rp_pending = [], rp_history = [], rp_order = []\<rparr>"
  have "rp_ok ?r" by (simp add: rp_ok_def)
  from fold_resolved [OF this assms] show "history_in_order (replay (map resolved_entry hs)) = hs"
    "map_of (rp_pending (replay (map resolved_entry hs))) = Map.empty"
    unfolding replay_def by (simp_all add: history_in_order_def)
qed

lemma ran_is_image: "ran m = (\<lambda>i. the (m i)) ` dom m"
  by (auto simp: ran_def dom_def image_iff) (metis option.sel)+

lemma leftovers_facts:
  assumes "rp_ok r" "\<forall>xs. mset (it xs) = mset xs"
  defines "L \<equiv> leftovers it r"
  shows "set L = ran (map_of (rp_pending r))" "distinct (map pd_ID L)" "sorted (map pd_CreatedAt L)"
proof -
  let ?ks = "it (map fst (rp_pending r))" and ?v = "\<lambda>i. the (map_of (rp_pending r) i)"
  have m: "mset ?ks = mset (map fst (rp_pending r))" using assms(2) by blast
  have ks: "set ?ks = dom (map_of (rp_pending r))" using mset_eq_setD [OF m] by (simp add: dom_map_of_conv_image_fst)
  have mL: "mset L = mset (map ?v ?ks)" unfolding L_def leftovers_def by simp
  have "map pd_ID (map ?v ?ks) = ?ks" unfolding map_map o_def
    by (rule map_idI) (use ks rp_okD(5) [OF assms(1)] in \<open>auto simp: domIff\<close>)
  then have "mset (map pd_ID L) = mset ?ks" using mL by (metis mset_map)
  then show "distinct (map pd_ID L)" using m rp_okD(3) [OF assms(1)] by (metis mset_eq_imp_distinct_iff)
  have "set L = ?v ` dom (map_of (rp_pending r))" using mset_eq_setD [OF mL] ks by simp
  then show "set L = ran (map_of (rp_pending r))" by (simp add: ran_is_image)
  show "sorted (map pd_CreatedAt L)" unfolding L_def leftovers_def by simp
qed

section \<open>Fault-free operations\<close>

lemma appendLocked_ok:
  "wal_codec_ok J \<Longrightarrow> el_open l \<Longrightarrow> appendLocked J AppendOk l e = (l\<lparr>el_file := el_file l @ wtext J [e]\<rparr>, None)"
  by (simp add: appendLocked_def wline_laws(1))

lemma AppendResolved_ok:
  "wal_codec_ok J \<Longrightarrow> el_open l \<Longrightarrow>
    AppendResolved J AppendOk l h = (l\<lparr>el_file := el_file l @ wtext J [resolved_entry h], el_since := el_since l + 1\<rparr>, None)"
  by (simp add: AppendResolved_def appendLocked_ok)

lemma compact_ok:
  assumes "wal_codec_ok J" "el_open l"
  shows "compact_log J CompactOk l hs = (l\<lparr>el_file := wtext J (map resolved_entry hs), el_open := True, el_since := 0\<rparr>, None)"
proof -
  have "try_map (\<lambda>h. wc_marshal J (resolved_entry h)) hs = Inr (map (\<lambda>h. wline J (resolved_entry h)) hs)"
    by (simp add: try_map_Inr wline_laws(1) [OF assms(1)])
  then show ?thesis using assms(2) by (simp add: compact_log_def wtext_def o_def)
qed

lemma settle_ok:
  assumes "wal_codec_ok J" "el_open l" "\<forall>i. w i = AppendOk" "distinct (map pd_ID ps)" "pd_ID ` set ps \<inter> set (rp_order r) = {}"
  shows "\<exists>r'. settle_leftovers J w now i ps l r
      = (l\<lparr>el_file := el_file l @ wtext J (map (\<lambda>p. resolved_entry (expired_entry now p)) ps), el_since := el_since l + length ps\<rparr>, Inr r')
    \<and> history_in_order r' = history_in_order r @ map (expired_entry now) ps"
  using assms(2,4,5)
proof (induction ps arbitrary: i l r)
  case Nil
  then show ?case by simp
next
  case (Cons p ps)
  let ?h = "expired_entry now p"
  let ?r = "r\<lparr>rp_order := rp_order r @ [he_ID ?h], rp_history := AList.update (he_ID ?h) ?h (rp_history r)\<rparr>"
  let ?l = "l\<lparr>el_file := el_file l @ wtext J [resolved_entry ?h], el_since := el_since l + 1\<rparr>"
  have hid: "he_ID ?h = pd_ID p" by (simp add: expired_entry_def)
  have "history_in_order ?r = history_in_order r @ [?h]"
    using Cons.prems(3) by (auto simp: history_in_order_def update_conv' hid)
  moreover have "pd_ID ` set ps \<inter> set (rp_order ?r) = {}" using Cons.prems(2,3) by (auto simp: hid)
  ultimately show ?case using Cons.IH [of ?l ?r "i + 1"] Cons.prems(1,2)
    by (auto simp: AppendResolved_ok [OF assms(1)] assms(3) Let_def ac_simps)
qed

section \<open>A daemon over time\<close>

definition quiet :: "wal_codec \<Rightarrow> load_io \<Rightarrow> bool" where
  "quiet J io \<longleftrightarrow> li_codec io = J \<and> li_read io = None \<and> li_mkdir io = None \<and> li_open io = None \<and> (\<forall>i. li_append io i = AppendOk)
     \<and> li_compact io = CompactOk \<and> (\<forall>xs. mset (li_keys io xs) = mset xs)"

text \<open>What a start leaves in the file, and what it returns, when the file reads as \<open>es\<close>.\<close>

lemma load_ok:
  fixes now :: gtime
  assumes "wal_codec_ok J" "quiet J io" "readWALEntries J None (Some data) = Inr es"
  defines "L \<equiv> leftovers (li_keys io) (replay es)"
  defines "out \<equiv> history_in_order (replay es) @ map (expired_entry now) L"
  shows "LoadEventLog io now (Some data) =
    (let l = (if length out > 200 then \<lparr>el_file = wtext J (map resolved_entry (last_n 200 out)), el_open = True, el_since = 0\<rparr>
       else \<lparr>el_file = data @ wtext J (map resolved_entry (map (expired_entry now) L)), el_open = True, el_since = length L\<rparr>)
     in (Some (el_file l), Inr (l, last_n 200 out)))"
proof -
  have q: "li_codec io = J" "li_read io = None" "li_mkdir io = None" "li_open io = None" "\<forall>i. li_append io i = AppendOk"
      "li_compact io = CompactOk" "\<forall>xs. mset (li_keys io xs) = mset xs"
    using assms(2) by (simp_all add: quiet_def)
  have ok: "rp_ok (replay es)" by (rule rp_ok_replay)
  note left = leftovers_facts [OF ok q(7), folded L_def]
  have "pd_ID ` set L \<inter> set (rp_order (replay es)) = {}"
    using rp_okD(2,5,6) [OF ok] unfolding left(1) by (auto simp: ran_def)
  from settle_ok [OF assms(1) _ q(5) left(2) this, of "\<lparr>el_file = data, el_open = True, el_since = 0\<rparr>" now 0] obtain r' where
    "settle_leftovers J (li_append io) now 0 L \<lparr>el_file = data, el_open = True, el_since = 0\<rparr> (replay es)
      = (\<lparr>el_file = data @ wtext J (map resolved_entry (map (expired_entry now) L)), el_open = True, el_since = length L\<rparr>, Inr r')"
    "history_in_order r' = out"
    unfolding out_def map_map o_def by auto
  then show ?thesis
    by (simp add: LoadEventLog_def q assms(3) Let_def L_def [symmetric] compact_ok [OF assms(1)] last_n_def del: map_map)
qed

text \<open>
  The runs of a daemon whose appends succeed, with two ghosts: \<open>W\<close>, the waiting requests that the file still names (a
  compaction drops them), and \<open>H\<close>, everything that was ever resolved. A request id is resolved once. An \<open>Added\<close> may come after its own
  \<open>Resolved\<close>, as the queue fires its hooks outside its lock. The hooks of \<open>NewDaemon\<close> call these operations; \<open>recordAutoApproved\<close>
  is one of the uses of \<open>recordHistory\<close>.
\<close>

inductive log_run :: "wal_codec \<Rightarrow> Daemon \<Rightarrow> (string \<rightharpoonup> Pending) \<Rightarrow> HistoryEntry list \<Rightarrow> bool" for J where
  lr_first: "quiet J io \<Longrightarrow> LoadEventLog io now None = (f, Inr (l, out)) \<Longrightarrow> log_run J (NewDaemon (Some l) out) Map.empty []"
| lr_added: "log_run J d W H \<Longrightarrow> pd_ID p \<notin> he_ID ` set H \<Longrightarrow> log_run J (recordAdded J AppendOk now p d) (W(pd_ID p \<mapsto> p)) H"
| lr_late: "log_run J d W H \<Longrightarrow> pd_ID p \<in> he_ID ` set (last_n 200 H) \<Longrightarrow> log_run J (recordAdded J AppendOk now p d) W H"
| lr_resolved: "log_run J d W H \<Longrightarrow> dm_EventLog d = Some l \<Longrightarrow> pd_ID (re_Pending ev) \<notin> he_ID ` set H \<Longrightarrow>
    log_run J (recordHistory J AppendOk CompactOk store now ev d)
      (if el_since l + 1 \<ge> 200 then Map.empty else W(pd_ID (re_Pending ev) := None)) (H @ [history_entry now ev])"
| lr_signed: "log_run J d W H \<Longrightarrow> rid \<in> he_ID ` set (last_n 200 H) \<Longrightarrow> log_run J (recordSignedEvent J AppendOk now rid e d) W (map (patch rid e) H)"
| lr_restart: "log_run J d W H \<Longrightarrow> dm_EventLog d = Some l \<Longrightarrow> quiet J io \<Longrightarrow> LoadEventLog io now (Some (el_file l)) = (f, Inr (l', out)) \<Longrightarrow>
    readWALEntries J None (Some (el_file l)) = Inr es \<Longrightarrow>
    log_run J (NewDaemon (Some l') out) Map.empty (H @ map (expired_entry now) (leftovers (li_keys io) (replay es)))"

definition resolved_lines :: "walEntry list \<Rightarrow> nat" where
  "resolved_lines es = length (filter (\<lambda>e. we_Type e = walResolved) es)"

lemma resolved_lines_simps [simp]: "resolved_lines [] = 0" "resolved_lines (es @ es') = resolved_lines es + resolved_lines es'"
  "resolved_lines [added_entry p] = 0" "resolved_lines [signed_entry rid ev] = 0" "resolved_lines [resolved_entry h] = 1"
  "resolved_lines (map resolved_entry hs) = length hs"
  by (simp_all add: resolved_lines_def added_entry_def signed_entry_def resolved_entry_def o_def)

definition log_state :: "wal_codec \<Rightarrow> EventLog \<Rightarrow> walEntry list \<Rightarrow> (string \<rightharpoonup> Pending) \<Rightarrow> HistoryEntry list \<Rightarrow> bool" where
  "log_state J l es W H \<longleftrightarrow> el_open l \<and> el_file l = wtext J es \<and> map_of (rp_pending (replay es)) = W
     \<and> (\<exists>m \<ge> 200. history_in_order (replay es) = last_n m H)
     \<and> resolved_lines es = length (history_in_order (replay es)) \<and> resolved_lines es \<le> 200 + el_since l \<and> resolved_lines es < 400"

definition log_inv :: "wal_codec \<Rightarrow> Daemon \<Rightarrow> (string \<rightharpoonup> Pending) \<Rightarrow> HistoryEntry list \<Rightarrow> bool" where
  "log_inv J d W H \<longleftrightarrow> (\<exists>l es. dm_EventLog d = Some l \<and> log_state J l es W H) \<and> dm_historyTail d = last_n 200 H
     \<and> distinct (map he_ID H) \<and> dom W \<inter> he_ID ` set H = {}"

lemma log_fields [simp]:
  "dm_EventLog (daemon_log x d) = dm_EventLog d" "dm_historyTail (daemon_log x d) = dm_historyTail d"
  "dm_EventLog (log_failure now fmt args err d) = dm_EventLog d" "dm_historyTail (log_failure now fmt args err d) = dm_historyTail d"
  by (simp_all add: daemon_log_def log_failure_def Let_def)

lemma recordAdded_ok:
  assumes "wal_codec_ok J" "dm_EventLog d = Some l" "el_open l"
  shows "recordAdded J AppendOk now p d = d\<lparr>dm_EventLog := Some (l\<lparr>el_file := el_file l @ wtext J [added_entry p]\<rparr>)\<rparr>"
  using assms by (simp add: recordAdded_def AppendAdded_def appendLocked_ok log_failure_def)

lemma recordHistory_ok:
  fixes now :: gtime and ev :: ResolvedEvent
  assumes "wal_codec_ok J" "dm_EventLog d = Some l" "el_open l"
  defines "h \<equiv> history_entry now ev"
  defines "t \<equiv> last_n 200 (dm_historyTail d @ [h])"
  shows "dm_historyTail (recordHistory J AppendOk CompactOk store now ev d) = t"
    "dm_EventLog (recordHistory J AppendOk CompactOk store now ev d) = Some
      (if el_since l + 1 \<ge> 200 then l\<lparr>el_file := wtext J (map resolved_entry t), el_open := True, el_since := 0\<rparr>
       else l\<lparr>el_file := el_file l @ wtext J [resolved_entry h], el_since := el_since l + 1\<rparr>)"
proof -
  have t: "(if length (dm_historyTail d @ [h]) > 200 then drop (length (dm_historyTail d @ [h]) - 200) (dm_historyTail d @ [h])
      else dm_historyTail d @ [h]) = t"
    by (simp add: t_def last_n_def)
  have a: "AppendResolved J AppendOk l h = (l\<lparr>el_file := el_file l @ wtext J [resolved_entry h], el_since := el_since l + 1\<rparr>, None)"
    by (rule AppendResolved_ok [OF assms(1,3)])
  show "dm_historyTail (recordHistory J AppendOk CompactOk store now ev d) = t"
    "dm_EventLog (recordHistory J AppendOk CompactOk store now ev d) = Some
      (if el_since l + 1 \<ge> 200 then l\<lparr>el_file := wtext J (map resolved_entry t), el_open := True, el_since := 0\<rparr>
       else l\<lparr>el_file := el_file l @ wtext J [resolved_entry h], el_since := el_since l + 1\<rparr>)"
    unfolding recordHistory_def h_def [symmetric] Let_def t
    by (simp_all add: assms(2) a CompactDue_def compact_ok [OF assms(1)] assms(3))
qed

lemma patch_last_map:
  "distinct (map he_ID hs) \<Longrightarrow> patch_last rid ev hs = (if rid \<in> he_ID ` set hs then Some (map (patch rid ev) hs) else None)"
proof (induction hs)
  case (Cons h hs)
  have "rid \<notin> he_ID ` set hs \<Longrightarrow> map (patch rid ev) hs = hs" by (auto simp: patch_def intro!: map_idI)
  moreover have "patch rid ev h = (if he_ID h = rid then h\<lparr>he_Event := ev\<rparr> else h)" by (rule patch_def)
  ultimately show ?case using Cons by auto
qed simp

lemma recordSignedEvent_ok:
  assumes "wal_codec_ok J" "dm_EventLog d = Some l" "el_open l" "distinct (map he_ID (dm_historyTail d))" "rid \<in> he_ID ` set (dm_historyTail d)"
  shows "recordSignedEvent J AppendOk now rid ev d = d\<lparr>dm_EventLog := Some (l\<lparr>el_file := el_file l @ wtext J [signed_entry rid ev]\<rparr>),
    dm_historyTail := map (patch rid ev) (dm_historyTail d)\<rparr>"
  using assms by (simp add: recordSignedEvent_def AppendSigned_def appendLocked_ok log_failure_def patch_last_map)

lemma history_None: "rp_ok r \<Longrightarrow> map_of (rp_history r) i = None \<longleftrightarrow> i \<notin> he_ID ` set (history_in_order r)"
  using in_order_ids [of r] rp_okD(2) [of r] by (metis domIff image_set)

lemma log_state_ids:
  assumes "log_state J l es W H"
  shows "he_ID ` set (last_n 200 H) \<subseteq> he_ID ` set (history_in_order (replay es))" "he_ID ` set (history_in_order (replay es)) \<subseteq> he_ID ` set H"
proof -
  obtain m where m: "m \<ge> 200" "history_in_order (replay es) = last_n m H" using assms by (auto simp: log_state_def)
  have "last_n 200 (last_n m H @ []) = last_n 200 (H @ [])" by (rule last_n_app [OF m(1)])
  then show "he_ID ` set (last_n 200 H) \<subseteq> he_ID ` set (history_in_order (replay es))"
    using set_last_n [of 200 "last_n m H"] unfolding m(2) by auto
  show "he_ID ` set (history_in_order (replay es)) \<subseteq> he_ID ` set H" unfolding m(2) using set_last_n [of m H] by blast
qed

lemma log_state_added:
  assumes "log_state J l es W H"
  shows "log_state J (l\<lparr>el_file := el_file l @ wtext J [added_entry p]\<rparr>) (es @ [added_entry p])
    (if pd_ID p \<in> he_ID ` set (history_in_order (replay es)) then W else W(pd_ID p \<mapsto> p)) H"
  using assms history_None [OF rp_ok_replay, of es "pd_ID p"] by (auto simp: log_state_def replay_snoc replay_added)

lemma log_state_resolved:
  assumes "log_state J l es W H" "he_ID h \<notin> he_ID ` set H" "el_since l + 1 < 200"
  shows "log_state J (l\<lparr>el_file := el_file l @ wtext J [resolved_entry h], el_since := el_since l + 1\<rparr>) (es @ [resolved_entry h])
    (W(he_ID h := None)) (H @ [h])"
proof -
  have n: "he_ID h \<notin> set (rp_order (replay es))"
    using log_state_ids(2) [OF assms(1)] in_order_ids [OF rp_ok_replay, of es] assms(2) by (metis image_set subsetD)
  obtain m where m: "m \<ge> 200" "history_in_order (replay es) = last_n m H" using assms(1) by (auto simp: log_state_def)
  have h: "history_in_order (replay (es @ [resolved_entry h])) = history_in_order (replay es) @ [h]"
    "map_of (rp_pending (replay (es @ [resolved_entry h]))) = W(he_ID h := None)"
    using replay_resolved [OF rp_ok_replay n] assms(1) by (simp_all add: replay_snoc log_state_def)
  have "history_in_order (replay (es @ [resolved_entry h])) = last_n (m + 1) (H @ [h])" "m + 1 \<ge> 200"
    using h(1) m last_n_more [of m "[h]" H] by simp_all
  then have "\<exists>m \<ge> 200. history_in_order (replay (es @ [resolved_entry h])) = last_n m (H @ [h])" by blast
  then show ?thesis using assms(1,3) h unfolding log_state_def by simp
qed

lemma log_state_compacted:
  assumes "distinct (map he_ID H)" "el_open l" "el_file l = wtext J (map resolved_entry (last_n 200 H))"
  shows "log_state J l (map resolved_entry (last_n 200 H)) Map.empty H"
proof -
  have "distinct (map he_ID (last_n 200 H))" using assms(1) unfolding map_last_n by (simp add: last_n_def)
  from replay_compacted [OF this] show ?thesis using assms(2,3) by (auto simp: log_state_def)
qed

lemma log_state_signed:
  assumes "log_state J l es W H"
  shows "log_state J (l\<lparr>el_file := el_file l @ wtext J [signed_entry rid ev]\<rparr>) (es @ [signed_entry rid ev]) W (map (patch rid ev) H)"
  using assms replay_signed [OF rp_ok_replay [of es], of rid ev]
  unfolding log_state_def by (auto simp: replay_snoc map_last_n)

lemma log_state_loaded:
  fixes now :: gtime
  assumes J: "wal_codec_ok J" and q: "quiet J io" and st: "log_state J l es W H"
    and H: "distinct (map he_ID H)" "dom W \<inter> he_ID ` set H = {}"
  defines "L \<equiv> leftovers (li_keys io) (replay es)"
  defines "H' \<equiv> H @ map (expired_entry now) L"
  shows "\<exists>l' es'. LoadEventLog io now (Some (el_file l)) = (Some (el_file l'), Inr (l', last_n 200 H')) \<and> log_state J l' es' Map.empty H'
    \<and> distinct (map he_ID H')"
proof -
  have rd: "readWALEntries J None (Some (el_file l)) = Inr es" using st read_back [OF J] by (simp add: log_state_def)
  obtain m where m: "m \<ge> 200" "history_in_order (replay es) = last_n m H" using st by (auto simp: log_state_def)
  have W: "map_of (rp_pending (replay es)) = W" using st by (simp add: log_state_def)
  have perm: "\<forall>xs. mset (li_keys io xs) = mset xs" using q by (simp add: quiet_def)
  note left = leftovers_facts [OF rp_ok_replay perm, of es, folded L_def, unfolded W]
  have id: "he_ID (expired_entry now p) = pd_ID p" for p by (simp add: expired_entry_def)
  have pids: "pd_ID ` set L \<subseteq> dom W"
    using rp_okD(5) [OF rp_ok_replay, of es] unfolding left(1) W by (auto simp: ran_def)
  have dj: "he_ID ` set H \<inter> pd_ID ` set L = {}" using H(2) pids by blast
  have dist: "distinct (map he_ID H')" using H(1) left(2) dj by (simp add: H'_def id o_def image_image)
  have out: "last_n 200 (history_in_order (replay es) @ map (expired_entry now) L) = last_n 200 H'"
    unfolding m(2) H'_def by (rule last_n_app [OF m(1)])
  show ?thesis
  proof (cases "length (history_in_order (replay es) @ map (expired_entry now) L) > 200")
    case True
    let ?l = "\<lparr>el_file = wtext J (map resolved_entry (last_n 200 H')), el_open = True, el_since = 0\<rparr>"
    have "LoadEventLog io now (Some (el_file l)) = (Some (el_file ?l), Inr (?l, last_n 200 H'))"
      using load_ok [OF J q rd, of now] True unfolding L_def [symmetric] out Let_def by simp
    then show ?thesis using log_state_compacted [OF dist, of ?l J] dist by auto
  next
    case False
    let ?X = "map resolved_entry (map (expired_entry now) L)"
    let ?l = "\<lparr>el_file = el_file l @ wtext J ?X, el_open = True, el_since = length L\<rparr>"
    have eq: "LoadEventLog io now (Some (el_file l)) = (Some (el_file ?l), Inr (?l, last_n 200 H'))"
      using load_ok [OF J q rd, of now] False unfolding L_def [symmetric] out Let_def by (simp del: map_map)
    have "he_ID ` set (map (expired_entry now) L) \<inter> set (rp_order (replay es)) = {}"
      unfolding in_order_ids [OF rp_ok_replay, symmetric] using log_state_ids(2) [OF st] dj by (auto simp: id image_image)
    moreover have "distinct (map he_ID (map (expired_entry now) L))" using left(2) by (simp add: id o_def)
    ultimately have f: "history_in_order (replay (es @ ?X)) = history_in_order (replay es) @ map (expired_entry now) L"
      "map_of (rp_pending (replay (es @ ?X))) = W |` (- (pd_ID ` set L))"
      using fold_resolved [OF rp_ok_replay, of "map (expired_entry now) L" es] by (simp_all add: replay_app id image_image W del: map_map)
    have "pd_ID ` set L = dom W" using rp_okD(5) [OF rp_ok_replay, of es] unfolding left(1) W by (force simp: ran_def)
    then have "W |` (- (pd_ID ` set L)) = Map.empty" by (auto simp: restrict_map_def fun_eq_iff domIff)
    moreover have "history_in_order (replay (es @ ?X)) = last_n (m + length L) H'" "m + length L \<ge> 200"
      unfolding f(1) m(2) H'_def using last_n_more [of m "map (expired_entry now) L" H] m(1) by simp_all
    then have "\<exists>m \<ge> 200. history_in_order (replay (es @ ?X)) = last_n m H'" by blast
    moreover have "el_file l = wtext J es" "resolved_lines es = length (history_in_order (replay es))"
      using st by (simp_all add: log_state_def)
    ultimately have "log_state J ?l (es @ ?X) Map.empty H'"
      using f(2) False unfolding log_state_def f(1) by (simp del: map_map)
    then show ?thesis using eq dist by blast
  qed
qed

lemma first_load:
  assumes "quiet J io" "LoadEventLog io now None = (f, Inr (l, out))"
  shows "out = []" "log_state J l [] Map.empty []"
proof -
  have perm: "\<forall>xs. mset (li_keys io xs) = mset xs" using assms(1) by (simp add: quiet_def)
  have "leftovers (li_keys io) (replay []) = []"
    using leftovers_facts(1) [OF rp_ok_replay perm, of "[]"] by (simp add: replay_def)
  then have "l = \<lparr>el_file = [], el_open = True, el_since = 0\<rparr> \<and> out = []"
    using assms by (auto simp: LoadEventLog_def quiet_def readWALEntries_def Let_def history_in_order_def replay_def)
  then show "out = []" "log_state J l [] Map.empty []"
    by (auto simp: log_state_def replay_def history_in_order_def last_n_def)
qed

lemma log_invI:
  "dm_EventLog d = Some l \<Longrightarrow> log_state J l es W H \<Longrightarrow> dm_historyTail d = last_n 200 H \<Longrightarrow> distinct (map he_ID H) \<Longrightarrow>
    dom W \<inter> he_ID ` set H = {} \<Longrightarrow> log_inv J d W H"
  by (auto simp: log_inv_def)

lemma log_inv_resolved:
  assumes J: "wal_codec_ok J" and inv: "log_inv J d W H" and l: "dm_EventLog d = Some l" and fresh: "pd_ID (re_Pending ev) \<notin> he_ID ` set H"
  shows "log_inv J (recordHistory J AppendOk CompactOk store now ev d)
    (if el_since l + 1 \<ge> 200 then Map.empty else W(pd_ID (re_Pending ev) := None)) (H @ [history_entry now ev])"
proof -
  let ?h = "history_entry now ev"
  have id: "he_ID ?h = pd_ID (re_Pending ev)" by (simp add: history_entry_def Let_def)
  obtain es where st: "log_state J l es W H" using inv l by (auto simp: log_inv_def)
  have open': "el_open l" using st by (simp add: log_state_def)
  have t: "last_n 200 (dm_historyTail d @ [?h]) = last_n 200 (H @ [?h])"
    using inv last_n_app [of 200 200 H "[?h]"] by (simp add: log_inv_def)
  note rh = recordHistory_ok [OF J l open', where now = now and ev = ev and store = store, unfolded t]
  have dist: "distinct (map he_ID (H @ [?h]))" using inv fresh by (auto simp: log_inv_def id)
  have dj: "dom (W(pd_ID (re_Pending ev) := None)) \<inter> he_ID ` set (H @ [?h]) = {}" using inv by (auto simp: log_inv_def id)
  show ?thesis
  proof (cases "el_since l + 1 \<ge> 200")
    case True
    let ?l = "l\<lparr>el_file := wtext J (map resolved_entry (last_n 200 (H @ [?h]))), el_open := True, el_since := 0\<rparr>"
    have "log_state J ?l (map resolved_entry (last_n 200 (H @ [?h]))) Map.empty (H @ [?h])" by (rule log_state_compacted [OF dist]) simp_all
    from log_invI [OF _ this rh(1) dist] show ?thesis using rh(2) True by (simp add: add.commute)
  next
    case False
    then have "log_state J (l\<lparr>el_file := el_file l @ wtext J [resolved_entry ?h], el_since := el_since l + 1\<rparr>) (es @ [resolved_entry ?h])
        (W(pd_ID (re_Pending ev) := None)) (H @ [?h])"
      using log_state_resolved [OF st, of ?h] fresh by (simp add: id)
    from log_invI [OF _ this rh(1) dist dj] show ?thesis using rh(2) False by (simp add: fun_upd_def)
  qed
qed

lemma log_run_inv:
  assumes J: "wal_codec_ok J"
  shows "log_run J d W H \<Longrightarrow> log_inv J d W H"
proof (induction rule: log_run.induct)
  case (lr_first io now f l out)
  from first_load [OF lr_first] show ?case by (auto simp: log_inv_def NewDaemon_def last_n_def)
next
  case (lr_added d W H p now)
  then obtain l es where d: "dm_EventLog d = Some l" and st: "log_state J l es W H" by (auto simp: log_inv_def)
  have "el_open l" using st by (simp add: log_state_def)
  moreover have "pd_ID p \<notin> he_ID ` set (history_in_order (replay es))" using log_state_ids(2) [OF st] lr_added.hyps(2) by blast
  ultimately have "log_state J (l\<lparr>el_file := el_file l @ wtext J [added_entry p]\<rparr>) (es @ [added_entry p]) (W(pd_ID p \<mapsto> p)) H"
    using log_state_added [OF st, of p] by simp
  moreover have "dom (W(pd_ID p \<mapsto> p)) \<inter> he_ID ` set H = {}" using lr_added.IH lr_added.hyps(2) by (simp add: log_inv_def)
  ultimately have "log_inv J (recordAdded J AppendOk now p d) (W(pd_ID p \<mapsto> p)) H" unfolding recordAdded_ok [OF J d \<open>el_open l\<close>]
    by (intro log_invI) (use lr_added.IH in \<open>simp_all add: log_inv_def\<close>)
  then show ?case by (simp only: fun_upd_def)
next
  case (lr_late d W H p now)
  then obtain l es where d: "dm_EventLog d = Some l" and st: "log_state J l es W H" by (auto simp: log_inv_def)
  have "el_open l" using st by (simp add: log_state_def)
  moreover have "pd_ID p \<in> he_ID ` set (history_in_order (replay es))" using log_state_ids(1) [OF st] lr_late.hyps(2) by blast
  ultimately have "log_state J (l\<lparr>el_file := el_file l @ wtext J [added_entry p]\<rparr>) (es @ [added_entry p]) W H"
    using log_state_added [OF st, of p] by simp
  then show ?case unfolding recordAdded_ok [OF J d \<open>el_open l\<close>]
    by (intro log_invI) (use lr_late.IH in \<open>simp_all add: log_inv_def\<close>)
next
  case (lr_resolved d W H l ev store now)
  from log_inv_resolved [OF J lr_resolved.IH lr_resolved.hyps(2,3)] show ?case by (simp only: fun_upd_def)
next
  case (lr_signed d W H rid now e)
  then obtain l es where d: "dm_EventLog d = Some l" and st: "log_state J l es W H" and t: "dm_historyTail d = last_n 200 H" by (auto simp: log_inv_def)
  have open': "el_open l" using st by (simp add: log_state_def)
  have "distinct (map he_ID (dm_historyTail d))" using lr_signed.IH unfolding t map_last_n by (simp add: log_inv_def last_n_def)
  note rs = recordSignedEvent_ok [OF J d open' this, of rid now e]
  have same: "map he_ID (map (patch rid e) H) = map he_ID H" "he_ID ` set (map (patch rid e) H) = he_ID ` set H"
    by (simp_all add: image_image)
  from rs log_state_signed [OF st, of rid e] show ?case
    by (intro log_invI) (use lr_signed t same in \<open>simp_all add: log_inv_def map_last_n del: map_map\<close>)
next
  case (lr_restart d W H l io now f l' out es)
  then obtain es' where st: "log_state J l es' W H" and H: "distinct (map he_ID H)" "dom W \<inter> he_ID ` set H = {}" by (auto simp: log_inv_def)
  have "es' = es" using st lr_restart.hyps(5) read_back [OF J] by (simp add: log_state_def)
  with log_state_loaded [OF J lr_restart.hyps(3) st H, of now] lr_restart.hyps(4)
  show ?case by (auto simp: log_inv_def NewDaemon_def)
qed

section \<open>What the log promises\<close>


text \<open>The file of such a daemon holds fewer than 400 resolved requests.\<close>

lemma log_bounded:
  assumes "wal_codec_ok J" "log_run J d W H" "dm_EventLog d = Some l"
  shows "\<exists>es. el_file l = wtext J es \<and> resolved_lines es < 400"
  using log_run_inv [OF assms(1,2)] assms(3) by (auto simp: log_inv_def log_state_def)

text \<open>A crash in the middle of an append costs at most the record that was being appended: the next start returns what it would have
  returned without it, or with it.\<close>

lemma torn_restart:
  assumes "wal_codec_ok J" "quiet J io"
  shows "\<exists>es' \<in> {es, es @ [e]}. map_sum id snd (snd (LoadEventLog io now (Some (wtext J es @ take k (wline J e @ [newline])))))
    = map_sum id snd (snd (LoadEventLog io now (Some (wtext J es'))))"
proof -
  let ?es = "if k < length (wline J e) then es else es @ [e]"
  have "?es \<in> {es, es @ [e]}" by simp
  moreover have "map_sum id snd (snd (LoadEventLog io now (Some (wtext J es @ take k (wline J e @ [newline])))))
      = map_sum id snd (snd (LoadEventLog io now (Some (wtext J ?es))))"
    unfolding load_ok [OF assms torn_append_read [OF assms(1)]] load_ok [OF assms read_back [OF assms(1)]] by (simp add: Let_def)
  ultimately show ?thesis by blast
qed

text \<open>But the torn piece stays in the file. The next append is glued to it and is lost, and the one after that makes the log
  unreadable for good: \<open>readWALEntries\<close> reports a corrupt entry, and the daemon does not start.\<close>

lemma read_lines_corrupt:
  assumes "wal_codec_ok J" "wc_unmarshal J g = Inl err" "ls \<noteq> []"
  shows "read_lines J i (map (wline J) es @ g # ls) = Inl (Wrap ''%s: corrupt entry on line %d: %w'' [nat_text (i + length es + 1)] err)"
proof (induction es arbitrary: i)
  case Nil
  then show ?case using assms by simp
next
  case (Cons e es)
  then show ?case by (simp add: wline_laws(4) [OF assms(1)])
qed

lemma torn_piece_poisons:
  assumes J: "wal_codec_ok J" and k: "0 < k" "k < length (wline J e)" and glued: "wc_unmarshal J (take k (wline J e) @ wline J e1) = Inl err"
  shows "readWALEntries J None (Some (wtext J es @ take k (wline J e) @ wtext J [e1])) = Inr es"
    "readWALEntries J None (Some (wtext J es @ take k (wline J e) @ wtext J [e1, e2]))
      = Inl (Wrap ''%s: corrupt entry on line %d: %w'' [nat_text (length es + 1)] err)"
proof -
  let ?g = "take k (wline J e) @ wline J e1"
  have g: "newline \<notin> set ?g" "?g \<noteq> []" using wline_laws(2,3) [OF J] by (auto dest: in_set_takeD)
  show "readWALEntries J None (Some (wtext J es @ take k (wline J e) @ wtext J [e1])) = Inr es"
    using read_back_piece [OF J g(2,1) disjI2 [OF refl], of es] glued by simp
  have sp: "split (wtext J es @ ?g @ newline # wline J e2) newline = map (wline J) es @ [?g, wline J e2]"
    using split_wtext [OF J wline_laws(3) [OF J], of "[]"] g(1) wline_laws(3) [OF J]
    by (induction es) (simp_all add: split_app [of newline ?g, simplified] split_app split_no_sep)
  have tr: "trim_newlines (wtext J es @ take k (wline J e) @ wtext J [e1, e2]) = wtext J es @ ?g @ newline # wline J e2"
    using trim_newlines_end(2) [OF wline_laws(2,3) [OF J], of "wtext J es @ ?g @ [newline]" e2] by simp
  show "readWALEntries J None (Some (wtext J es @ take k (wline J e) @ wtext J [e1, e2]))
      = Inl (Wrap ''%s: corrupt entry on line %d: %w'' [nat_text (length es + 1)] err)"
    using read_lines_corrupt [OF J glued, of "[wline J e2]" 0 es] by (simp add: readWALEntries_def Let_def tr [simplified] sp [simplified])
qed

text \<open>A compaction that fails after it closed the handle leaves a log that refuses everything from then on.\<close>

lemma failed_compaction_closes:
  assumes "wal_codec_ok J" "w \<in> {CompactClose, CompactRename, CompactReopen}"
  shows "\<not> el_open (fst (compact_log J w l hs))"
proof -
  have "try_map (\<lambda>h. wc_marshal J (resolved_entry h)) hs = Inr (map (\<lambda>h. wline J (resolved_entry h)) hs)"
    by (simp add: try_map_Inr wline_laws(1) [OF assms(1)])
  then show ?thesis using assms(2) by (auto simp: compact_log_def Let_def)
qed

lemma shut_log_refuses:
  assumes "\<not> el_open l"
  shows "\<exists>err. appendLocked J w l e = (l, Some err)" "\<exists>err. compact_log J cw l hs = (l, Some err)"
  using assms by (auto simp: appendLocked_def compact_log_def Let_def split: sum.split)

text \<open>The replay knows requests by their id alone: two requests that clients gave the same id were two rows of the history, and are
  one after a restart.\<close>

lemma same_id_merges:
  assumes "he_ID h = he_ID h'"
  shows "history_in_order (replay [resolved_entry h, resolved_entry h']) = [h']"
  using assms by (simp add: replay_def replay_entry_def resolved_entry_def history_in_order_def)

section \<open>The activity log\<close>

lemma daemon_log_run:
  "ls \<noteq> [] \<Longrightarrow> dm_logTail (fold daemon_log ls d) = last_n 500 (dm_logTail d @ ls) \<and> dm_logTotal (fold daemon_log ls d) = dm_logTotal d + length ls"
proof (induction ls arbitrary: d)
  case (Cons x ls)
  have one: "dm_logTail (daemon_log x d) = last_n 500 (dm_logTail d @ [x])" "dm_logTotal (daemon_log x d) = dm_logTotal d + 1"
    by (simp_all add: daemon_log_def last_n_def Let_def)
  show ?case
  proof (cases "ls = []")
    case True
    then show ?thesis using one by simp
  next
    case False
    then show ?thesis using Cons.IH [of "daemon_log x d"] one last_n_app [of 500 500 "dm_logTail d @ [x]" ls] by simp
  qed
qed simp

text \<open>A watcher that polls before 500 new lines have come prints each new line once, and no other.\<close>

lemma log_watcher_exact:
  assumes "length ls \<le> 500"
  shows "LogWatcher_Update (Some (RecentLogs (fold daemon_log ls d))) (dm_logTotal d) = (ls, dm_logTotal d + length ls)"
proof (cases "ls = []")
  case False
  from daemon_log_run [OF this, of d] show ?thesis using False assms
    by (auto simp: LogWatcher_Update_def RecentLogs_def Let_def last_n_def)
qed (simp add: LogWatcher_Update_def RecentLogs_def)

section \<open>A concrete log\<close>

text \<open>A codec for the concrete instance: records are countable, and the line is the number of the record, closed by a brace.\<close>

instance event_ext :: (countable) countable
  by (rule countable_classI [of "\<lambda>e. to_nat (ev_ID e, ev_PubKey e, unat (ev_CreatedAt e), ev_Kind e, ev_Tags e, ev_Content e, ev_Sig e, event.more e)"])
     (auto intro: event.equality dest: word_unat_eq_iff [THEN iffD2])

instance Pending_ext :: (countable) countable
  by (rule countable_classI [of "\<lambda>p. to_nat (pd_ID p, pd_ClientKey p, pd_Method p, pd_Kind p, pd_Params p, pd_Perms p, pd_CreatedAt p, pd_ExpiresAt p, pd_Event p, Pending.more p)"])
     (simp add: Pending.equality)

instance HistoryEntry_ext :: (countable) countable
  by (rule countable_classI [of "\<lambda>h. to_nat (he_ID h, he_ClientKey h, he_Method h, he_Kind h, he_CreatedAt h, he_ResolvedAt h, he_Verdict h, he_Remembered h,
      he_AutoApproved h, he_Expired h, he_Event h, HistoryEntry.more h)"])
     (simp add: HistoryEntry.equality)

instance walEntry_ext :: (countable) countable
  by (rule countable_classI [of "\<lambda>e. to_nat (we_Type e, we_Pending e, we_History e, we_ID e, we_Event e, walEntry.more e)"])
     (simp add: walEntry.equality)








end
