(* ===== verification/Bunker_Daemon.thy ===== *)
theory Bunker_Daemon
  imports Bunker_Handler Bunker_EventLog_Theorems
begin

text \<open>
  The rest of the bunker's daemon (\<open>cli/bunker/daemon.go\<close>): the profile it looks up, the statuses of its relays, the two ways
  to pair an app, and the wait for a paired app's first request. The NIP-46 server is package \<open>nip46/bunker\<close>:
  its answers are arguments.
\<close>

section \<open>Profile and relays\<close>

record ProfileMetadata =
  pm_DisplayName :: string
  pm_Name :: string
  pm_Nip05 :: string

text \<open>\<open>parse\<close> is \<open>common.ParseProfileMetadata\<close>; the result is the profile to set and whether the lookup succeeded.\<close>

definition applyProfile :: "(string \<Rightarrow> ProfileMetadata option) \<Rightarrow> event option \<Rightarrow> (string \<times> string) option" where
  "applyProfile parse ev = (case ev of
     None \<Rightarrow> None
   | Some e \<Rightarrow> (case parse (ev_Content e) of
        None \<Rightarrow> None
      | Some meta \<Rightarrow>
          let name = (if pm_DisplayName meta = [] then pm_Name meta else pm_DisplayName meta) in
          if name = [] \<and> pm_Nip05 meta = [] then None else Some (name, pm_Nip05 meta)))"

fun newest_event :: "event option \<Rightarrow> event list \<Rightarrow> event option" where
  "newest_event latest [] = latest"
| "newest_event latest (e # es) = newest_event (case latest of
     None \<Rightarrow> Some e
   | Some l \<Rightarrow> if ev_CreatedAt e > ev_CreatedAt l then Some e else Some l) es"

text \<open>What a relay gives: no connection, or the events it sent until the stream ended or timed out, and whether the daemon was
  stopped before that.\<close>

datatype profile_answer = NoRelay | Answered "event list" | StoppedAfter "event list"

definition fetchProfileFrom :: "(string \<Rightarrow> ProfileMetadata option) \<Rightarrow> profile_answer \<Rightarrow> (string \<times> string) option" where
  "fetchProfileFrom parse a = (case a of
     NoRelay \<Rightarrow> None
   | Answered es \<Rightarrow> applyProfile parse (newest_event None es)
   | StoppedAfter es \<Rightarrow> None)"

text \<open>\<open>None\<close> in the list is a relay whose address does not parse.\<close>

definition fetchProfile :: "(string \<Rightarrow> ProfileMetadata option) \<Rightarrow> profile_answer option list \<Rightarrow> string \<times> string" where
  "fetchProfile parse rs = (case first_some (\<lambda>r. Option.bind r (fetchProfileFrom parse)) rs of None \<Rightarrow> ([], []) | Some p \<Rightarrow> p)"

record RelayStatus =
  rs_URL :: string
  rs_Connecting :: bool
  rs_Connected :: bool

definition RelayStatuses :: "RelayStatus list option \<Rightarrow> string list \<Rightarrow> RelayStatus list" where
  "RelayStatuses srv relays =
     (let live = fold (\<lambda>st m. AList.update (rs_URL st) st m) (case srv of None \<Rightarrow> [] | Some ss \<Rightarrow> ss) [] in
      map (\<lambda>raw. (case map_of live raw of
          Some st \<Rightarrow> st
        | None \<Rightarrow> \<lparr>rs_URL = raw, rs_Connecting = True, rs_Connected = False\<rparr>)\<lparr>rs_URL := raw\<rparr>) relays)"

section \<open>Pairing\<close>

text \<open>The \<open>bunker://\<close> direction: \<open>secret\<close> is what \<open>NewSecret\<close> returned, \<open>uri\<close> builds the address to share.\<close>

definition NewBunkerPairingWithGrants ::
  "(string \<Rightarrow> string list \<Rightarrow> string) \<Rightarrow> string list \<Rightarrow> goerr + string \<Rightarrow> GrantSpec option \<Rightarrow> Handler \<Rightarrow> Handler \<times> (goerr + string)" where
  "NewBunkerPairingWithGrants uri relays secret spec h = (case secret of
     Inl err \<Rightarrow> (h, Inl err)
   | Inr s \<Rightarrow> (let h1 = SetPendingSecret h s; h2 = (if spec \<noteq> None then SetPendingGrants h1 spec else h1)
      in (h2, Inr (uri s relays))))"

definition NewBunkerPairing ::
  "(string \<Rightarrow> string list \<Rightarrow> string) \<Rightarrow> string list \<Rightarrow> goerr + string \<Rightarrow> Handler \<Rightarrow> Handler \<times> (goerr + string)" where
  "NewBunkerPairing uri relays secret h = NewBunkerPairingWithGrants uri relays secret None h"

record NostrconnectSchema =
  ns_ClientPublickey :: string
  ns_Metadata :: "(string \<times> string) option"
  ns_Perms :: string

text \<open>The \<open>nostrconnect://\<close> direction, up to the wait: what is put in the store.\<close>

definition nostrconnect_pair :: "store_io \<Rightarrow> gtime \<Rightarrow> NostrconnectSchema \<Rightarrow> GrantSpec option \<Rightarrow> Store \<Rightarrow> Store" where
  "nostrconnect_pair io now schema spec s =
     (let peer = ns_ClientPublickey schema;
          (name, url) = (case ns_Metadata schema of None \<Rightarrow> ([], []) | Some nu \<Rightarrow> nu);
          s1 = fst (Store_Pair io now s peer name url);
          s2 = remember_all io now peer (parsePerms (ns_Perms schema) now) s1
      in case spec of
           None \<Rightarrow> s2
         | Some sp \<Rightarrow>
            let s3 = remember_all io now peer (GrantSpec_Resolve sp now) s2
            in if gs_Nickname sp \<noteq> [] then fst (SetName io s3 peer (gs_Nickname sp)) else s3)"

datatype accept_result = Accepted | NoRelayReachable goerr | AcceptFailed goerr

text \<open>\<open>confirmed\<close> is what \<open>awaitFirstRequest\<close> reported. The perms of the URI are disclosed in the activity log before they are granted.\<close>

definition InitiateNostrconnectWithGrants ::
  "store_io \<Rightarrow> gtime \<Rightarrow> goerr option \<Rightarrow> accept_result \<Rightarrow> NostrconnectSchema \<Rightarrow> GrantSpec option \<Rightarrow> bool \<Rightarrow> Store \<Rightarrow> Daemon
    \<Rightarrow> Store \<times> Daemon \<times> goerr option" where
  "InitiateNostrconnectWithGrants io now srv acc schema spec confirmed s d = (case srv of
     Some err \<Rightarrow> (s, d, Some (Wrap ''nostrconnect: %w'' [] err))
   | None \<Rightarrow> (case acc of
        NoRelayReachable err \<Rightarrow> (s, d, Some (Wrap ''nostrconnect: none of the URI's relays could be reached (%v): %w'' [] err))
      | AcceptFailed err \<Rightarrow> (s, d, Some (Wrap ''nostrconnect: %w'' [] err))
      | Accepted \<Rightarrow>
          let peer = ns_ClientPublickey schema;
              (name, url) = (case ns_Metadata schema of None \<Rightarrow> ([], []) | Some nu \<Rightarrow> nu);
              s1 = fst (Store_Pair io now s peer name url);
              d1 = (if parsePerms (ns_Perms schema) now \<noteq> [] then
                  daemon_log (LogLine now ''nostrconnect pairing with %s is granting the perms embedded in its URI: %s'' [Store_Label s1 peer, ns_Perms schema] None) d
                else d);
              s2 = nostrconnect_pair io now schema spec s;
              label = Store_Label s2 peer
          in (s2, daemon_log (LogLine now (if confirmed then ''paired with %s via nostrconnect''
                else ''sent the nostrconnect pairing to %s; waiting for its first request'') [label] None) d1, None)))"

text \<open>\<open>decided\<close>: one line per request.\<close>

definition daemon_decided :: "gtime \<Rightarrow> Store \<Rightarrow> Call \<Rightarrow> Daemon \<Rightarrow> Daemon" where
  "daemon_decided now s call d =
     daemon_log (LogLine now ''request method=%s from=%s id=%s'' [call_Method call, Store_Label s (call_Client call), call_ID call] None) d"

section \<open>Waiting for the first request\<close>

text \<open>A channel is its number; \<open>pw_shut\<close> are those that were closed. A wait is split where it blocks.\<close>

record pair_waits =
  pw_wait :: "(string \<times> nat) list"
  pw_shut :: "nat list"
  pw_made :: nat

definition awaitFirstRequest_start :: "string \<Rightarrow> pair_waits \<Rightarrow> pair_waits \<times> nat" where
  "awaitFirstRequest_start pubkey w =
     (w\<lparr>pw_wait := AList.update pubkey (pw_made w) (pw_wait w), pw_made := pw_made w + 1\<rparr>, pw_made w)"

definition awaitFirstRequest_end :: "string \<Rightarrow> nat \<Rightarrow> pair_waits \<Rightarrow> pair_waits \<times> bool" where
  "awaitFirstRequest_end pubkey ch w = (w\<lparr>pw_wait := AList.delete pubkey (pw_wait w)\<rparr>, ch \<in> set (pw_shut w))"

definition notifyFirstRequest :: "string \<Rightarrow> pair_waits \<Rightarrow> pair_waits" where
  "notifyFirstRequest pubkey w = (case map_of (pw_wait w) pubkey of
     None \<Rightarrow> w
   | Some ch \<Rightarrow> w\<lparr>pw_wait := AList.delete pubkey (pw_wait w), pw_shut := ch # pw_shut w\<rparr>)"

section \<open>What holds of them\<close>

lemma newest_event_max:
  "newest_event latest es = Some e \<Longrightarrow> (e \<in> set es \<or> latest = Some e) \<and> (\<forall>x \<in> set es. ev_CreatedAt x \<le> ev_CreatedAt e)
    \<and> (\<forall>x. latest = Some x \<longrightarrow> ev_CreatedAt x \<le> ev_CreatedAt e)"
  by (induction latest es rule: newest_event.induct) (fastforce split: option.splits if_splits)+

lemma RelayStatuses_order: "map rs_URL (RelayStatuses srv relays) = relays"
  by (simp add: RelayStatuses_def Let_def o_def)

text \<open>A new address stages the grants it was made with, and never those of an earlier one that nobody used.\<close>

lemma new_pairing_stages:
  "h_pendingGrantSpec (fst (NewBunkerPairingWithGrants uri relays (Inr secret) spec h)) = spec"
  by (simp add: NewBunkerPairingWithGrants_def SetPendingSecret_def SetPendingGrants_def Let_def)

text \<open>The two directions agree: pairing through a \<open>nostrconnect://\<close> URI leaves in the store what an approved connect with the same client, metadata
  and permissions leaves when the same grants are staged.\<close>

lemma nostrconnect_as_connect:
  assumes "call_Client call = ns_ClientPublickey schema" "call_Metadata call = ns_Metadata schema" "call_Perms call = ns_Perms schema"
  shows "nostrconnect_pair io now schema (h_pendingGrantSpec h) (h_Store h) = h_Store (pair io now call True h)"
  using assms by (auto simp: nostrconnect_pair_def pair_def takePendingGrantSpec_def Let_def case_prod_beta split: option.split)

lemma nostrconnect_grants:
  fixes io :: store_io and schema :: NostrconnectSchema and now :: gtime
  assumes "wf_store s" "\<forall>sp. spec = Some sp \<longrightarrow> wf_grants (GrantSpec_Resolve sp now)"
  defines "t \<equiv> nostrconnect_pair io now schema spec s"
  shows "wf_store t" "IsPaired t (ns_ClientPublickey schema)"
    "table (grants_of t (ns_ClientPublickey schema)) = table (grants_of s (ns_ClientPublickey schema)) ++ table (parsePerms (ns_Perms schema) now)
       ++ table (case spec of None \<Rightarrow> [] | Some sp \<Rightarrow> GrantSpec_Resolve sp now)"
    "pk \<noteq> ns_ClientPublickey schema \<Longrightarrow> grants_of t pk = grants_of s pk"
proof -
  let ?call = "\<lparr>call_ID = [], call_Client = ns_ClientPublickey schema, call_Method = MethodConnect, call_Params = [], call_Perms = ns_Perms schema,
    call_Event = None, call_Metadata = ns_Metadata schema\<rparr>"
  let ?h = "\<lparr>h_Store = s, h_Queue = NewQueue 0 0, h_pendingGrantSpec = spec, h_pairingSecretTTL = 0, h_armed = [], h_autoApproved = []\<rparr>"
  have t: "t = h_Store (pair io now ?call True ?h)" using nostrconnect_as_connect [of ?call schema io now ?h] by (simp add: t_def)
  have "wf_store (h_Store ?h)" "wf_grants (staged_grants ?h now)"
    using assms(1,2) by (auto simp: staged_grants_def wf_grants_def split: option.split)
  from pair_grants [OF this, where io = io and call = ?call and b = True] show "wf_store t" "IsPaired t (ns_ClientPublickey schema)"
    "table (grants_of t (ns_ClientPublickey schema)) = table (grants_of s (ns_ClientPublickey schema)) ++ table (parsePerms (ns_Perms schema) now)
       ++ table (case spec of None \<Rightarrow> [] | Some sp \<Rightarrow> GrantSpec_Resolve sp now)"
    "pk \<noteq> ns_ClientPublickey schema \<Longrightarrow> grants_of t pk = grants_of s pk"
    unfolding t by (simp_all add: staged_grants_def)
qed

text \<open>A wait is confirmed by a request of its app, as long as no second wait for the same app begins or ends meanwhile.\<close>

datatype wait_op = WStart string | WEnd string nat | WNotify string

fun wait_step :: "wait_op \<Rightarrow> pair_waits \<Rightarrow> pair_waits" where
  "wait_step (WStart pk) w = fst (awaitFirstRequest_start pk w)"
| "wait_step (WEnd pk ch) w = fst (awaitFirstRequest_end pk ch w)"
| "wait_step (WNotify pk) w = notifyFirstRequest pk w"

lemma wait_kept:
  assumes "map_of (pw_wait w) pk = Some ch \<or> ch \<in> set (pw_shut w)" "x \<noteq> WStart pk" "\<forall>c. x \<noteq> WEnd pk c"
  shows "map_of (pw_wait (wait_step x w)) pk = Some ch \<or> ch \<in> set (pw_shut (wait_step x w))"
    "x = WNotify pk \<or> ch \<in> set (pw_shut w) \<Longrightarrow> ch \<in> set (pw_shut (wait_step x w))"
  using assms
  by (cases x; auto simp: awaitFirstRequest_start_def awaitFirstRequest_end_def notifyFirstRequest_def update_conv' delete_conv' split: option.splits)+

lemma wait_confirmed:
  assumes "map_of (pw_wait w) pk = Some ch \<or> ch \<in> set (pw_shut w)" "\<forall>x \<in> set xs. x \<noteq> WStart pk \<and> (\<forall>c. x \<noteq> WEnd pk c)"
    "WNotify pk \<in> set xs \<or> ch \<in> set (pw_shut w)"
  shows "snd (awaitFirstRequest_end pk ch (fold wait_step xs w))"
  using assms
proof (induction xs arbitrary: w)
  case Nil
  then show ?case by (simp add: awaitFirstRequest_end_def)
next
  case (Cons x xs)
  have x: "x \<noteq> WStart pk" "\<forall>c. x \<noteq> WEnd pk c" using Cons.prems(2) by auto
  have "WNotify pk \<in> set xs \<or> ch \<in> set (pw_shut (wait_step x w))" using wait_kept(2) [OF Cons.prems(1) x] Cons.prems(3) by auto
  then show ?case using Cons.IH [OF wait_kept(1) [OF Cons.prems(1) x]] Cons.prems(2) by simp
qed

text \<open>With two waits for one app, the first to end takes the other's channel out of the table: the app's request then confirms neither.\<close>

lemma second_wait_unconfirmed:
  defines "w \<equiv> \<lparr>pw_wait = [], pw_shut = [], pw_made = 0\<rparr>"
  shows "snd (awaitFirstRequest_start ''app'' (fst (awaitFirstRequest_start ''app'' w))) = 1
    \<and> \<not> snd (awaitFirstRequest_end ''app'' 1 (fold wait_step [WStart ''app'', WStart ''app'', WEnd ''app'' 0, WNotify ''app''] w))"
  by (simp add: w_def awaitFirstRequest_start_def awaitFirstRequest_end_def notifyFirstRequest_def)

end
