(* ===== verification/Admin_Replay.thy ===== *)
theory Admin_Replay
  imports Single_Use Go_Time
begin

text \<open>
  The guard of signed admin requests (\<open>cli/relay/adminplane/replay.go\<close>). The decoders of the header are
  parameters: \<open>b64\<close> is \<open>base64.StdEncoding.DecodeString\<close>, \<open>json_id\<close> the \<open>id\<close> field \<open>json.Unmarshal\<close> finds.
\<close>

section \<open>The guard\<close>

abbreviation nip98Window :: duration where "nip98Window \<equiv> 2 * minute"

record header_codec =
  hc_b64 :: "string \<Rightarrow> string option"
  hc_json_id :: "string \<Rightarrow> string option"

type_synonym ReplayGuard = "string \<rightharpoonup> gtime"

definition NewReplayGuard :: ReplayGuard where
  "NewReplayGuard = Map.empty"

definition nip98EventID :: "header_codec \<Rightarrow> string \<Rightarrow> string" where
  "nip98EventID H authHeader = (case cut_prefix authHeader ''Nostr '' of
     None \<Rightarrow> []
   | Some raw \<Rightarrow> (case hc_b64 H raw of
        None \<Rightarrow> []
      | Some b \<Rightarrow> (case hc_json_id H b of None \<Rightarrow> [] | Some i \<Rightarrow> i)))"

text \<open>The loop that deletes what expired.\<close>

definition unexpired :: "gtime \<Rightarrow> ReplayGuard \<Rightarrow> ReplayGuard" where
  "unexpired now seen = (\<lambda>k. case seen k of None \<Rightarrow> None | Some exp \<Rightarrow> if now > exp then None else Some exp)"

definition First :: "header_codec \<Rightarrow> ReplayGuard \<Rightarrow> string \<Rightarrow> gtime \<Rightarrow> ReplayGuard \<times> bool" where
  "First H seen authHeader now =
     (let i = nip98EventID H authHeader in
      if i = [] then (seen, False)
      else let seen' = unexpired now seen in
        if seen' i \<noteq> None then (seen', False) else (seen'(i \<mapsto> time_add now nip98Window), True))"

definition Used :: "header_codec \<Rightarrow> ReplayGuard \<Rightarrow> string \<Rightarrow> gtime \<Rightarrow> bool" where
  "Used H seen authHeader now =
     (let i = nip98EventID H authHeader in
      if i = [] then False else (case seen i of None \<Rightarrow> False | Some exp \<Rightarrow> now < exp))"

text \<open>
  \<open>ServeOnce\<close>, in the two parts between which the handler \<open>next\<close> runs: whether the request goes to it, and what is recorded
  once it answered with \<open>status\<close>. The clock is read again.
\<close>

definition serve_admit :: "header_codec \<Rightarrow> ReplayGuard \<Rightarrow> string \<Rightarrow> gtime \<Rightarrow> bool" where
  "serve_admit H seen auth now \<longleftrightarrow> \<not> (auth \<noteq> [] \<and> Used H seen auth now)"

definition serve_done :: "header_codec \<Rightarrow> ReplayGuard \<Rightarrow> string \<Rightarrow> nat \<Rightarrow> gtime \<Rightarrow> ReplayGuard" where
  "serve_done H seen auth status now = (if auth \<noteq> [] \<and> status < 300 then fst (First H seen auth now) else seen)"

definition ServeOnce :: "header_codec \<Rightarrow> ReplayGuard \<Rightarrow> string \<Rightarrow> nat \<Rightarrow> gtime \<Rightarrow> gtime \<Rightarrow> ReplayGuard \<times> nat" where
  "ServeOnce H seen auth status now now2 =
     (if serve_admit H seen auth now then (serve_done H seen auth status now2, status) else (seen, 401))"

section \<open>The contract\<close>

text \<open>
  Requests one after the other. NIP-98 accepts an event within a minute of its creation; \<open>created\<close> is the creation time an
  event's id fixes. A step is labelled with the id it accepts: of a call of \<open>First\<close> that returned true, or of a
  request \<open>ServeOnce\<close> let through with success.
\<close>

inductive guard_step :: "header_codec \<Rightarrow> (string \<Rightarrow> gtime) \<Rightarrow> ReplayGuard \<times> gtime \<Rightarrow> string set \<Rightarrow> ReplayGuard \<times> gtime \<Rightarrow> bool" for H created where
  guard_first: "First H g auth now = (g', ok) \<Longrightarrow> t \<le> now \<Longrightarrow> clock_ok now \<Longrightarrow> \<bar>now - created (nip98EventID H auth)\<bar> \<le> minute
    \<Longrightarrow> guard_step H created (g, t) (if ok then {nip98EventID H auth} else {}) (g', now)"
| guard_serve: "ServeOnce H g auth status now now2 = (g', answer) \<Longrightarrow> t \<le> now \<Longrightarrow> now \<le> now2 \<Longrightarrow> clock_ok now2 \<Longrightarrow> nip98EventID H auth \<noteq> []
    \<Longrightarrow> \<bar>now - created (nip98EventID H auth)\<bar> < minute
    \<Longrightarrow> guard_step H created (g, t) (if answer < 300 then {nip98EventID H auth} else {}) (g', now2)"

definition guard_inv :: "(string \<Rightarrow> gtime) \<Rightarrow> ReplayGuard \<times> gtime \<Rightarrow> bool" where
  "guard_inv created w \<longleftrightarrow> (\<forall>k exp. fst w k = Some exp \<longrightarrow> created k + minute \<le> exp)"

definition guard_fresh :: "(string \<Rightarrow> gtime) \<Rightarrow> ReplayGuard \<times> gtime \<Rightarrow> string \<Rightarrow> bool" where
  "guard_fresh created w k \<longleftrightarrow> snd w \<le> created k + minute"

definition guard_seen :: "ReplayGuard \<times> gtime \<Rightarrow> string \<Rightarrow> bool" where
  "guard_seen w k \<longleftrightarrow> fst w k \<noteq> None"

lemma unexpired_Some: "unexpired now g k = Some e \<longleftrightarrow> g k = Some e \<and> now \<le> e"
  by (auto simp: unexpired_def split: option.splits)

lemma time_add_window: "clock_ok now \<Longrightarrow> time_add now nip98Window = now + nip98Window"
  by (rule time_add_exact) (simp_all add: in_int64_def min_int64_def max_int64_def)

text \<open>What one call of \<open>First\<close> does.\<close>

lemma First_effect:
  assumes "First H g auth now = (g', ok)" "clock_ok now"
  shows "ok \<Longrightarrow> g' (nip98EventID H auth) = Some (now + nip98Window) \<and> unexpired now g (nip98EventID H auth) = None"
    "g' k = Some e \<Longrightarrow> g k = Some e \<or> k = nip98EventID H auth \<and> e = now + nip98Window"
    "g k = Some e \<Longrightarrow> now \<le> e \<Longrightarrow> g' k \<noteq> None"
    "nip98EventID H auth \<noteq> [] \<Longrightarrow> g' (nip98EventID H auth) \<noteq> None"
proof -
  let ?i = "nip98EventID H auth"
  have c: "g' = g \<and> \<not> ok \<and> ?i = [] \<or> g' = unexpired now g \<and> \<not> ok \<and> unexpired now g ?i \<noteq> None
      \<or> g' = (unexpired now g)(?i \<mapsto> now + nip98Window) \<and> ok \<and> unexpired now g ?i = None"
    using assms time_add_window by (auto simp: First_def Let_def split: if_splits)
  then show "ok \<Longrightarrow> g' ?i = Some (now + nip98Window) \<and> unexpired now g ?i = None" by auto
  show "g' k = Some e \<Longrightarrow> g k = Some e \<or> k = ?i \<and> e = now + nip98Window"
    using c unexpired_Some by (auto split: if_splits)
  show "g k = Some e \<Longrightarrow> now \<le> e \<Longrightarrow> g' k \<noteq> None" using c unexpired_Some[of now g k e] by auto
  show "?i \<noteq> [] \<Longrightarrow> g' ?i \<noteq> None" using c by auto
qed

text \<open>So it keeps the invariant and every id that could be accepted again.\<close>

lemma First_guard:
  assumes "First H g auth now = (g', ok)" "clock_ok now" "created (nip98EventID H auth) \<le> now + minute" "guard_inv created (g, t)"
  shows "guard_inv created (g', now)" "guard_seen (g, t) k \<Longrightarrow> guard_fresh created (g', now) k \<Longrightarrow> guard_seen (g', now) k"
proof -
  note f = First_effect[OF assms(1,2)]
  have g: "g k = Some e \<Longrightarrow> created k + minute \<le> e" for k e using assms(4) by (simp add: guard_inv_def)
  have "created k + minute \<le> e" if "g' k = Some e" for k e
    using f(2)[OF that] g assms(3) by auto
  then show "guard_inv created (g', now)" by (simp add: guard_inv_def)
  show "guard_seen (g', now) k" if s: "guard_seen (g, t) k" and fr: "guard_fresh created (g', now) k"
  proof -
    obtain e where e: "g k = Some e" using s by (auto simp: guard_seen_def)
    have "now \<le> e" using g[OF e] fr by (simp add: guard_fresh_def)
    then show ?thesis using f(3)[OF e] by (simp add: guard_seen_def)
  qed
qed

lemma guard_step_facts:
  assumes "guard_step H created w K w'" "guard_inv created w"
  shows "guard_inv created w'" "snd w \<le> snd w'" "k \<in> K \<longrightarrow> \<not> guard_seen w k \<and> guard_fresh created w k \<and> guard_seen w' k"
    "guard_seen w k \<longrightarrow> guard_fresh created w' k \<longrightarrow> guard_seen w' k"
proof -
  have "guard_inv created w' \<and> snd w \<le> snd w' \<and> (k \<in> K \<longrightarrow> \<not> guard_seen w k \<and> guard_fresh created w k \<and> guard_seen w' k)
      \<and> (guard_seen w k \<longrightarrow> guard_fresh created w' k \<longrightarrow> guard_seen w' k)"
    using assms
  proof (cases rule: guard_step.cases)
    case (guard_first g auth now g' ok t)
    note f = First_effect[OF guard_first(4,6)]
    have g: "\<And>k e. g k = Some e \<Longrightarrow> created k + minute \<le> e" using assms(2) guard_first(1) by (simp add: guard_inv_def)
    have new: "\<not> guard_seen (g, t) (nip98EventID H auth)" if ok
    proof -
      have "\<not> (g (nip98EventID H auth) = Some e \<and> now \<le> e)" for e using f(1)[OF that] unexpired_Some by (metis option.distinct(1))
      then show ?thesis using g guard_first(7) by (fastforce simp: guard_seen_def)
    qed
    have c: "created (nip98EventID H auth) \<le> now + minute" using guard_first(7) by simp
    note F = First_guard[OF guard_first(4,6) c assms(2)[unfolded guard_first(1)]]
    have "t \<le> created (nip98EventID H auth) + minute" using guard_first(5,7) by simp
    then show ?thesis using guard_first(1-3,5) F new f(1) by (auto simp: guard_fresh_def guard_seen_def)
  next
    case (guard_serve g auth status now now2 g' answer t)
    have g: "\<And>k e. g k = Some e \<Longrightarrow> created k + minute \<le> e" using assms(2) guard_serve(1) by (simp add: guard_inv_def)
    show ?thesis
    proof (cases "serve_admit H g auth now \<and> auth \<noteq> [] \<and> status < 300")
      case False
      then have "g' = g \<and> (answer < 300 \<longrightarrow> auth = [])" using guard_serve(4) by (auto simp: ServeOnce_def serve_done_def split: if_splits)
      moreover have "auth \<noteq> []" using guard_serve(8) by (auto simp: nip98EventID_def cut_prefix_def)
      ultimately show ?thesis using guard_serve assms(2) by (auto simp: guard_inv_def guard_seen_def)
    next
      case True
      then obtain ok where F: "First H g auth now2 = (g', ok)" "answer = status" using guard_serve(4)
        by (cases "First H g auth now2") (auto simp: ServeOnce_def serve_done_def)
      note f = First_effect[OF F(1) guard_serve(7)]
      have new: "g (nip98EventID H auth) = None"
        using True g guard_serve(8,9) by (fastforce simp: serve_admit_def Used_def Let_def split: option.splits)
      have c: "created (nip98EventID H auth) \<le> now2 + minute" "t \<le> created (nip98EventID H auth) + minute" using guard_serve(5,6,9) by simp_all
      note G = First_guard[OF F(1) guard_serve(7) c(1) assms(2)[unfolded guard_serve(1)]]
      show ?thesis using guard_serve(1-3,5,6) G new f(4)[OF guard_serve(8)] c(2) by (auto simp: guard_fresh_def guard_seen_def)
    qed
  qed
  then show "guard_inv created w'" "snd w \<le> snd w'" "k \<in> K \<longrightarrow> \<not> guard_seen w k \<and> guard_fresh created w k \<and> guard_seen w' k"
    "guard_seen w k \<longrightarrow> guard_fresh created w' k \<longrightarrow> guard_seen w' k" by blast+
qed

interpretation admin_requests: single_use "guard_step H created" "guard_inv created" guard_seen "guard_fresh created" for H created
proof unfold_locales
  show "guard_fresh created w k" if "guard_inv created w" "guard_step H created w K w'" "guard_fresh created w' k" for w K w' k
    using guard_step_facts(2)[OF that(2,1)] that(3) by (simp add: guard_fresh_def)
  show "guard_seen w' k" if "guard_inv created w" "guard_step H created w K w'" "guard_seen w k" "guard_fresh created w' k" for w K w' k
    using guard_step_facts(4)[OF that(2,1)] that(3,4) by blast
qed (use guard_step_facts(1,3) in blast)+

lemma guard_start_inv: "guard_inv created (NewReplayGuard, t)"
  by (simp add: guard_inv_def NewReplayGuard_def)

end
