(* ===== verification/Admin_Server.thy ===== *)
theory Admin_Server
  imports Admin_Tokens_Safe Admin_Replay
begin

text \<open>
  The admin listener (\<open>cli/relay/adminplane/server.go\<close>): the gate in front of every request, authentication by a
  NIP-98 signature or a dashboard session, login and logout, and the metrics page. A handler maps the server to the
  server afterwards and the reply; a request is served at one reading of the clock. \<open>nip98.Verify\<close>, the parsing of
  addresses, the registry of metrics and the routes that other files register are parameters.
\<close>

section \<open>Requests and replies\<close>

text \<open>The parts of a request the server reads; \<open>ar_ip\<close> is what \<open>clientIP\<close> returns, \<open>ar_body\<close> is \<open>None\<close> when it cannot be read.\<close>

record areq =
  ar_Method :: string
  ar_Path :: string
  ar_Host :: string
  ar_ip :: string
  ar_Authorization :: string
  ar_CSRF :: string
  ar_Cookie :: "string option"
  ar_body :: "string option"

datatype cookie = KeepCookie | SetCookie string gtime | ClearCookie

record sessionJSON =
  sj_Pubkey :: string
  sj_Nip05 :: string
  sj_ExpiresAt :: int
  sj_CSRF :: string

record reply =
  rp_status :: int
  rp_cookie :: cookie
  rp_session :: "sessionJSON option"
  rp_body :: string

definition error_reply :: "int \<Rightarrow> reply" where
  "error_reply st = \<lparr>rp_status = st, rp_cookie = KeepCookie, rp_session = None, rp_body = []\<rparr>"

section \<open>The server\<close>

text \<open>An address is of 32 bits, or of 128 bits with a zone; a prefix is an address without zone and a number of bits.\<close>

datatype addr = V4 "32 word" | V6 "128 word" string

definition Unmap :: "addr \<Rightarrow> addr" where
  "Unmap a = (case a of V4 w \<Rightarrow> V4 w | V6 w z \<Rightarrow> if drop_bit 32 w = 0xFFFF then V4 (ucast w) else V6 w z)"

definition prefix_Contains :: "addr \<times> nat \<Rightarrow> addr \<Rightarrow> bool" where
  "prefix_Contains p a = (case (fst p, a) of
     (V4 x, V4 y) \<Rightarrow> drop_bit (32 - snd p) x = drop_bit (32 - snd p) y
   | (V6 x _, V6 y z) \<Rightarrow> z = [] \<and> drop_bit (128 - snd p) x = drop_bit (128 - snd p) y
   | _ \<Rightarrow> False)"

record Settings =
  set_Hosts :: "string list"
  set_AllowCIDRs :: "(addr \<times> nat) list"
  set_TLS :: bool
  set_Dashboard :: bool
  set_Metrics :: bool
  set_SessionTTL :: duration
  set_ScrapeTTL :: duration

record AdminServer =
  as_settings :: Settings
  as_tokens :: "tokenSet option"
  as_sessions :: sessions
  as_replay :: ReplayGuard
  as_limiter :: failLimiter
  as_scrape :: "(string \<times> gtime) option"
  as_denied :: "string list"

text \<open>
  What the server calls: \<open>nip98.Verify\<close> with the allowed keys and the body, the header decoders, \<open>netip.ParseAddr\<close>, SHA-256, the
  verified NIP-05 name of a key, the rendered metrics, and the API routes registered with \<open>Handle\<close> that are not its own.
\<close>

record admin_env =
  ae_Verify :: "areq \<Rightarrow> string list \<Rightarrow> string \<Rightarrow> gtime \<Rightarrow> string option"
  ae_header :: header_codec
  ae_ParseAddr :: "string \<Rightarrow> addr option"
  ae_sha :: "string \<Rightarrow> string"
  ae_Nip05 :: "string \<Rightarrow> string"
  ae_render :: "gtime \<Rightarrow> string option"

text \<open>A request as it is served: the clock, the admins at that time, the tokens file, random bytes, and the request.\<close>

record occasion =
  oc_now :: gtime
  oc_admins :: "string list"
  oc_tokens :: "tfile option"
  oc_rnd :: "string \<times> string"
  oc_req :: areq

type_synonym handler = "occasion \<Rightarrow> AdminServer \<Rightarrow> AdminServer \<times> reply"

text \<open>\<open>New\<close>, for settings without TLS certificates to load.\<close>

definition NewAdmin :: "Settings \<Rightarrow> tfile option \<Rightarrow> goerr + AdminServer" where
  "NewAdmin st tokens =
     try_bind (if set_Metrics st then try_bind (newTokenSet tokens tokens) (\<lambda>t. Inr (Some t)) else Inr None) (\<lambda>t.
       Inr \<lparr>as_settings = st, as_tokens = t, as_sessions = newSessions (set_SessionTTL st), as_replay = NewReplayGuard,
            as_limiter = newFailLimiter, as_scrape = None, as_denied = []\<rparr>)"

section \<open>Refusing\<close>

text \<open>The \<open>deny\<close> of the server counts the reason.\<close>

definition admin_deny :: "string \<Rightarrow> int \<Rightarrow> AdminServer \<Rightarrow> AdminServer \<times> reply" where
  "admin_deny reason st s = (s\<lparr>as_denied := as_denied s @ [reason]\<rparr>, error_reply st)"

definition failAuth :: "string \<Rightarrow> handler" where
  "failAuth reason oc s = admin_deny reason 401 (s\<lparr>as_limiter := limiter_fail (as_limiter s) (ar_ip (oc_req oc)) (oc_now oc)\<rparr>)"

definition admin_allowed :: "admin_env \<Rightarrow> AdminServer \<Rightarrow> string \<Rightarrow> bool" where
  "admin_allowed E s ip = (case ae_ParseAddr E ip of
     None \<Rightarrow> False
   | Some a \<Rightarrow> \<exists>p \<in> set (set_AllowCIDRs (as_settings s)). prefix_Contains p (Unmap a))"

definition gate :: "admin_env \<Rightarrow> handler \<Rightarrow> handler" where
  "gate E nxt oc s =
     (let r = oc_req oc; st = as_settings s in
      if to_lower (ar_Host r) \<notin> set (set_Hosts st) then admin_deny ''host'' 421 s
      else if set_AllowCIDRs st \<noteq> [] \<and> \<not> admin_allowed E s (ar_ip r) then admin_deny ''cidr'' 403 s
      else (case limiter_blocked (as_limiter s) (ar_ip r) (oc_now oc) of
          (l, True) \<Rightarrow> (s\<lparr>as_limiter := l\<rparr>, error_reply 429)
        | (l, False) \<Rightarrow> nxt oc (s\<lparr>as_limiter := l\<rparr>)))"

definition gate_headers :: "Settings \<Rightarrow> (string \<times> string) list" where
  "gate_headers st = [(''X-Content-Type-Options'', ''nosniff''), (''Referrer-Policy'', ''no-referrer''), (''X-Frame-Options'', ''DENY''),
     (''Cache-Control'', ''no-store'')] @ (if set_TLS st then [(''Strict-Transport-Security'', ''max-age=31536000'')] else [])"

section \<open>Authentication\<close>

abbreviation maxBodyBytes :: int where "maxBodyBytes \<equiv> 1048576"

text \<open>The caller's key, or the reply that was sent.\<close>

definition verifyNIP98 :: "admin_env \<Rightarrow> occasion \<Rightarrow> AdminServer \<Rightarrow> AdminServer \<times> (reply + string)" where
  "verifyNIP98 E oc s =
     (let r = oc_req oc; fail = (\<lambda>reason s. let (s', rep) = failAuth reason oc s in (s', Inl rep)) in
      case ar_body r of
        None \<Rightarrow> (s, Inl (error_reply 413))
      | Some body \<Rightarrow>
          if int (length body) > maxBodyBytes then (s, Inl (error_reply 413))
          else (case ae_Verify E r (oc_admins oc) body (oc_now oc) of
              None \<Rightarrow> fail ''nip98'' s
            | Some pubkey \<Rightarrow> (case First (ae_header E) (as_replay s) (ar_Authorization r) (oc_now oc) of
                (g, False) \<Rightarrow> fail ''replay'' (s\<lparr>as_replay := g\<rparr>)
              | (g, True) \<Rightarrow> (s\<lparr>as_replay := g\<rparr>, Inr pubkey))))"

text \<open>The branch of \<open>requireAdmin\<close> for a session cookie.\<close>

definition require_session :: "admin_env \<Rightarrow> occasion \<Rightarrow> AdminServer \<Rightarrow> AdminServer \<times> (reply + string)" where
  "require_session E oc s =
     (let r = oc_req oc; fail = (\<lambda>reason s. let (s', rep) = failAuth reason oc s in (s', Inl rep)) in
      case ar_Cookie r of
        None \<Rightarrow> (let (s', rep) = admin_deny ''session'' 401 s in (s', Inl rep))
      | Some c \<Rightarrow>
          if \<not> set_Dashboard (as_settings s) then fail ''session'' s
          else (case sessions_get (as_sessions s) c (oc_admins oc) (oc_now oc) of
              (ss, None) \<Rightarrow> (let (s', rep) = failAuth ''session'' oc (s\<lparr>as_sessions := ss\<rparr>) in (s', Inl (rep\<lparr>rp_cookie := ClearCookie\<rparr>)))
            | (ss, Some sess) \<Rightarrow>
                if ar_Method r \<noteq> ''GET'' \<and> ar_Method r \<noteq> ''HEAD'' \<and> \<not> csrfMatches sess (ar_CSRF r) then fail ''csrf'' (s\<lparr>as_sessions := ss\<rparr>)
                else (s\<lparr>as_sessions := ss\<rparr>, Inr (ss_pubkey sess))))"

definition authenticate :: "admin_env \<Rightarrow> occasion \<Rightarrow> AdminServer \<Rightarrow> AdminServer \<times> (reply + string)" where
  "authenticate E oc s =
     (if has_prefix (ar_Authorization (oc_req oc)) ''Nostr '' then verifyNIP98 E oc s else require_session E oc s)"

definition requireAdmin :: "admin_env \<Rightarrow> (string \<Rightarrow> handler) \<Rightarrow> handler" where
  "requireAdmin E nxt oc s = (case authenticate E oc s of
     (s', Inl rep) \<Rightarrow> (s', rep)
   | (s', Inr pubkey) \<Rightarrow> nxt pubkey oc s')"

section \<open>Login and logout\<close>

definition session_json :: "admin_env \<Rightarrow> string \<Rightarrow> gtime \<Rightarrow> string \<Rightarrow> sessionJSON" where
  "session_json E pubkey expires csrf = \<lparr>sj_Pubkey = pubkey, sj_Nip05 = (if pubkey \<noteq> [] then ae_Nip05 E pubkey else []),
     sj_ExpiresAt = (if expires \<noteq> 0 then time_unix expires else 0), sj_CSRF = csrf\<rparr>"

definition json_reply :: "cookie \<Rightarrow> sessionJSON \<Rightarrow> reply" where
  "json_reply c j = \<lparr>rp_status = 200, rp_cookie = c, rp_session = Some j, rp_body = []\<rparr>"

definition login :: "admin_env \<Rightarrow> handler" where
  "login E oc s = (case verifyNIP98 E oc s of
     (s', Inl rep) \<Rightarrow> (s', rep)
   | (s', Inr pubkey) \<Rightarrow>
       (let (ss, i, sess) = sessions_create (as_sessions s') pubkey (oc_now oc) (fst (oc_rnd oc)) (snd (oc_rnd oc))
        in (s'\<lparr>as_sessions := ss\<rparr>, json_reply (SetCookie i (ss_expires sess)) (session_json E pubkey (ss_expires sess) (ss_csrf sess)))))"

text \<open>\<open>caller\<close> is what \<open>Caller\<close> finds on the request.\<close>

definition sessionInfo :: "admin_env \<Rightarrow> string \<Rightarrow> handler" where
  "sessionInfo E caller oc s = (case ar_Cookie (oc_req oc) of
     None \<Rightarrow> (s, json_reply KeepCookie (session_json E caller 0 []))
   | Some c \<Rightarrow> (case sessions_get (as_sessions s) c (oc_admins oc) (oc_now oc) of
        (ss, None) \<Rightarrow> failAuth ''session'' oc (s\<lparr>as_sessions := ss\<rparr>)
      | (ss, Some sess) \<Rightarrow> (s\<lparr>as_sessions := ss\<rparr>, json_reply KeepCookie (session_json E (ss_pubkey sess) (ss_expires sess) (ss_csrf sess)))))"

definition logout :: "string \<Rightarrow> handler" where
  "logout caller oc s =
     ((case ar_Cookie (oc_req oc) of None \<Rightarrow> s | Some c \<Rightarrow> s\<lparr>as_sessions := sessions_remove (as_sessions s) c\<rparr>),
      \<lparr>rp_status = 200, rp_cookie = ClearCookie, rp_session = None, rp_body = ''logged out''\<rparr>)"

section \<open>Metrics\<close>

definition renderMetrics :: "admin_env \<Rightarrow> gtime \<Rightarrow> AdminServer \<Rightarrow> AdminServer \<times> string option" where
  "renderMetrics E now s =
     (let fresh = (case ae_render E now of None \<Rightarrow> (s, None) | Some b \<Rightarrow> (s\<lparr>as_scrape := Some (b, now)\<rparr>, Some b)) in
      case as_scrape s of
        None \<Rightarrow> fresh
      | Some (b, t) \<Rightarrow> if time_sub now t < set_ScrapeTTL (as_settings s) then (s, Some b) else fresh)"

definition serveMetrics :: "admin_env \<Rightarrow> handler" where
  "serveMetrics E oc s = (case (cut_prefix (ar_Authorization (oc_req oc)) ''Bearer '', as_tokens s) of
     (Some token, Some t) \<Rightarrow>
       (case tokens_valid (ae_sha E) t (oc_tokens oc) (oc_tokens oc) (oc_tokens oc) (trim_space token) (oc_now oc) of
          (t', False) \<Rightarrow> failAuth ''token'' oc (s\<lparr>as_tokens := Some t'\<rparr>)
        | (t', True) \<Rightarrow> (case renderMetrics E (oc_now oc) (s\<lparr>as_tokens := Some t'\<rparr>) of
            (s', None) \<Rightarrow> (s', error_reply 500)
          | (s', Some b) \<Rightarrow> (s', \<lparr>rp_status = 200, rp_cookie = KeepCookie, rp_session = None, rp_body = b\<rparr>)))
   | _ \<Rightarrow> failAuth ''token'' oc s)"

section \<open>Routes\<close>

text \<open>
  The routes \<open>New\<close> registers, a \<open>GET\<close> pattern serving \<open>HEAD\<close> too. \<open>api\<close> lists the other routes registered with \<open>Handle\<close>, by
  method and path; \<open>ui\<close> serves the files of the dashboard. A path that has a route for another method only is a 405.
\<close>

type_synonym routes = "((string \<times> string) \<times> (string \<Rightarrow> handler)) list"

definition serves :: "string \<Rightarrow> areq \<Rightarrow> bool" where
  "serves m r \<longleftrightarrow> ar_Method r = m \<or> m = ''GET'' \<and> ar_Method r = ''HEAD''"

definition own_routes :: "admin_env \<Rightarrow> Settings \<Rightarrow> ((string \<times> string) \<times> handler) list" where
  "own_routes E st =
     (if set_Metrics st then [((''GET'', ''/metrics''), serveMetrics E)] else [])
     @ [((''GET'', ''/admin/api/session''), requireAdmin E (sessionInfo E))]
     @ (if set_Dashboard st then [((''POST'', ''/admin/api/login''), login E), ((''POST'', ''/admin/api/logout''), requireAdmin E logout),
          ((''GET'', ''/''), \<lambda>oc s. (s, error_reply 302))] else [])"

definition mux :: "admin_env \<Rightarrow> routes \<Rightarrow> handler \<Rightarrow> handler" where
  "mux E api ui oc s =
     (let r = oc_req oc; st = as_settings s; table = own_routes E st @ map (\<lambda>(k, h). (k, requireAdmin E h)) api in
      if has_prefix (ar_Path r) ''/admin/ui/'' \<and> set_Dashboard st then (if serves ''GET'' r then ui oc s else (s, error_reply 405))
      else (case find (\<lambda>((m, p), h). p = ar_Path r \<and> serves m r) table of
          Some (_, h) \<Rightarrow> h oc s
        | None \<Rightarrow> (s, error_reply (if ar_Path r \<in> snd ` fst ` set table then 405 else 404))))"

definition admin_handler :: "admin_env \<Rightarrow> routes \<Rightarrow> handler \<Rightarrow> handler" where
  "admin_handler E api ui = gate E (mux E api ui)"

end
