(* ===== verification/Admin_Theorems.thy ===== *)
theory Admin_Theorems
  imports Admin_Server
begin

text \<open>
  The properties of the relay's admin listener: who is served, that a signed request counts once, the life of a session,
  the lock-out after failed attempts, and the metrics tokens and their rotation. Facts about the admin listener: what a request may change, once and for all of its handlers, and with it the
  invariant of the server and the life of a signed request.
\<close>

lemma find_mem: "find Q xs = Some x \<Longrightarrow> x \<in> set xs"
  by (induction xs) (auto split: if_splits)

section \<open>What a request may change\<close>

text \<open>
  A property of the server that every elementary update keeps is kept by every request. The routes of other files and
  the files of the dashboard have no access to the server's fields.
\<close>

definition plain_routes :: "routes \<Rightarrow> handler \<Rightarrow> bool" where
  "plain_routes api ui \<longleftrightarrow> (\<forall>(k, h) \<in> set api. \<forall>pk oc s. fst (h pk oc s) = s) \<and> (\<forall>oc s. fst (ui oc s) = s)"

locale admin_closed =
  fixes E :: admin_env and oc :: occasion and P :: "AdminServer \<Rightarrow> bool"
  assumes closed_denied: "P s \<Longrightarrow> P (s\<lparr>as_denied := d\<rparr>)"
    and closed_fail: "P s \<Longrightarrow> P (s\<lparr>as_limiter := limiter_fail (as_limiter s) ip now\<rparr>)"
    and closed_blocked: "P s \<Longrightarrow> P (s\<lparr>as_limiter := fst (limiter_blocked (as_limiter s) ip now)\<rparr>)"
    and closed_get: "P s \<Longrightarrow> P (s\<lparr>as_sessions := fst (sessions_get (as_sessions s) c admins now)\<rparr>)"
    and closed_create: "P s \<Longrightarrow> P (s\<lparr>as_sessions := fst (sessions_create (as_sessions s) pk now (fst (oc_rnd oc)) (snd (oc_rnd oc)))\<rparr>)"
    and closed_remove: "P s \<Longrightarrow> P (s\<lparr>as_sessions := sessions_remove (as_sessions s) c\<rparr>)"
    and closed_tokens: "P s \<Longrightarrow> P (s\<lparr>as_tokens := t\<rparr>)"
    and closed_scrape: "P s \<Longrightarrow> P (s\<lparr>as_scrape := b\<rparr>)"
    and closed_first: "P s \<Longrightarrow> ae_Verify E (oc_req oc) (oc_admins oc) body (oc_now oc) = Some pk
      \<Longrightarrow> P (s\<lparr>as_replay := fst (First (ae_header E) (as_replay s) (ar_Authorization (oc_req oc)) (oc_now oc))\<rparr>)"
begin

lemma deny_closed: "P s \<Longrightarrow> P (fst (admin_deny reason st s))"
  by (simp add: admin_deny_def closed_denied)

lemma failAuth_closed: "P s \<Longrightarrow> P (fst (failAuth reason oc s))"
  by (simp add: failAuth_def deny_closed closed_fail)

lemma verify_closed: "P s \<Longrightarrow> P (fst (verifyNIP98 E oc s))"
  using closed_first[of s] failAuth_closed
  by (simp add: verifyNIP98_def Let_def case_prod_beta split: option.split bool.split)

lemma session_closed: "P s \<Longrightarrow> P (fst (require_session E oc s))"
  using closed_get[of s] failAuth_closed deny_closed
  by (simp add: require_session_def Let_def case_prod_beta split: option.split)

lemma authenticate_closed: "P s \<Longrightarrow> P (fst (authenticate E oc s))"
  by (simp add: authenticate_def verify_closed session_closed)

lemma requireAdmin_closed: "P s \<Longrightarrow> (\<And>pk x. P x \<Longrightarrow> P (fst (h pk oc x))) \<Longrightarrow> P (fst (requireAdmin E h oc s))"
  using authenticate_closed[of s] by (auto simp: requireAdmin_def split: prod.split sum.split)

lemma login_closed: "P s \<Longrightarrow> P (fst (login E oc s))"
  using verify_closed[of s] closed_create by (auto simp: login_def Let_def case_prod_beta split: prod.split sum.split)

lemma sessionInfo_closed: "P s \<Longrightarrow> P (fst (sessionInfo E pk oc s))"
  using closed_get[of s _ "oc_admins oc" "oc_now oc"] failAuth_closed
  by (simp add: sessionInfo_def case_prod_beta split: option.split)

lemma logout_closed: "P s \<Longrightarrow> P (fst (logout pk oc s))"
  by (auto simp: logout_def closed_remove split: option.split)

lemma metrics_closed: "P s \<Longrightarrow> P (fst (serveMetrics E oc s))"
  using closed_tokens[of s] closed_scrape failAuth_closed
  by (auto simp: serveMetrics_def renderMetrics_def Let_def split: prod.split option.split bool.split)

lemma mux_closed:
  assumes "P s" "plain_routes api ui"
  shows "P (fst (mux E api ui oc s))"
proof -
  let ?table = "own_routes E (as_settings s) @ map (\<lambda>(k, h). (k, requireAdmin E h)) api"
  have api: "P (fst (requireAdmin E h oc s))" if "(k, h) \<in> set api" for k h
    using that assms by (intro requireAdmin_closed) (auto simp: plain_routes_def)
  have own: "P (fst (h oc s))" if "(k, h) \<in> set (own_routes E (as_settings s))" for k h
    using that assms(1) metrics_closed login_closed requireAdmin_closed[OF assms(1)] sessionInfo_closed logout_closed
    by (auto simp: own_routes_def split: if_splits)
  have "P (fst (h oc s))" if "find Q ?table = Some (k, h)" for Q k h
  proof -
    have "(k, h) \<in> set ?table" using that by (rule find_mem)
    then show ?thesis using api own by (cases k) auto
  qed
  then show ?thesis using assms by (auto simp: mux_def Let_def plain_routes_def split: option.split)
qed

lemma handler_closed:
  assumes "P s" "plain_routes api ui"
  shows "P (fst (admin_handler E api ui oc s))"
  using assms closed_blocked[OF assms(1), of "ar_ip (oc_req oc)" "oc_now oc"] mux_closed deny_closed
  by (simp add: admin_handler_def gate_def Let_def case_prod_beta split: bool.split)

end

section \<open>The invariant\<close>

definition wf_admin :: "AdminServer \<Rightarrow> bool" where
  "wf_admin s \<longleftrightarrow> wf_sessions (as_sessions s) \<and> length (as_limiter s) \<le> maxFailedAddr"

lemma blocked_length: "length (fst (limiter_blocked l ip now)) \<le> length l"
  by (auto simp: limiter_blocked_def delete_filter split: option.split)

interpretation bounded: admin_closed E oc "\<lambda>s. fst (oc_rnd oc) \<noteq> [] \<longrightarrow> wf_admin s" for E oc
  by unfold_locales
    (auto simp: wf_admin_def fail_bound sessions_get_wf sessions_create_wf sessions_remove_wf intro: order_trans[OF blocked_length])

section \<open>The life of a signed request\<close>

text \<open>What \<open>nip98.Verify\<close> promises: the key is an allowed one and the event was created within a minute of the clock.\<close>

definition verify_sound :: "admin_env \<Rightarrow> (string \<Rightarrow> gtime) \<Rightarrow> bool" where
  "verify_sound E created \<longleftrightarrow> (\<forall>r admins body now pk. ae_Verify E r admins body now = Some pk
     \<longrightarrow> pk \<in> set admins \<and> \<bar>now - created (nip98EventID (ae_header E) (ar_Authorization r))\<bar> \<le> minute)"





text \<open>
  Requests one after the other, each labelled with the event ids it has recorded: the ones that authenticated it.
\<close>

inductive admin_step :: "admin_env \<Rightarrow> routes \<Rightarrow> handler \<Rightarrow> AdminServer \<times> gtime \<Rightarrow> string set \<Rightarrow> AdminServer \<times> gtime \<Rightarrow> bool" for E api ui where
  admin_serve: "admin_handler E api ui oc s = (s', rep) \<Longrightarrow> t \<le> oc_now oc \<Longrightarrow> clock_ok (oc_now oc) \<Longrightarrow> fst (oc_rnd oc) \<noteq> []
    \<Longrightarrow> admin_step E api ui (s, t) {k. as_replay s' k \<noteq> None \<and> as_replay s' k \<noteq> as_replay s k} (s', oc_now oc)"

inductive_cases admin_stepE: "admin_step E api ui w K w'"






lemma run_admin_wf:
  assumes "run (admin_step E api ui) w Ks w'" "plain_routes api ui" "wf_admin (fst w)"
  shows "wf_admin (fst w')"
  using assms
proof (induction rule: run.induct)
  case (run_Cons w K w' Ks w'')
  have "wf_admin (fst w')" using run_Cons(1,4,5)
    by (auto elim!: admin_stepE) (metis bounded.handler_closed fst_conv)
  then show ?case using run_Cons.IH run_Cons.prems by blast
qed simp

lemma NewAdmin_start:
  assumes "NewAdmin st tokens = Inr s"
  shows "wf_admin s" "as_replay s = NewReplayGuard" "as_settings s = st"
    "as_tokens s = Some t \<Longrightarrow> in_step t tokens"
  using assms wf_sessions_new in_step_new
  by (auto simp: NewAdmin_def wf_admin_def newFailLimiter_def split: if_splits)

section \<open>Authority\<close>

text \<open>What lets a request be served as an admin's: a signature used for the first time, or a session.\<close>

definition signed_by :: "admin_env \<Rightarrow> occasion \<Rightarrow> AdminServer \<Rightarrow> AdminServer \<Rightarrow> string \<Rightarrow> bool" where
  "signed_by E oc s s1 pk \<longleftrightarrow>
     (let i = nip98EventID (ae_header E) (ar_Authorization (oc_req oc)) in
      (\<exists>body. ar_body (oc_req oc) = Some body \<and> int (length body) \<le> maxBodyBytes \<and> ae_Verify E (oc_req oc) (oc_admins oc) body (oc_now oc) = Some pk)
      \<and> i \<noteq> [] \<and> unexpired (oc_now oc) (as_replay s) i = None \<and> as_replay s1 i = Some (time_add (oc_now oc) nip98Window))"

definition in_session :: "occasion \<Rightarrow> AdminServer \<Rightarrow> string \<Rightarrow> bool" where
  "in_session oc s pk \<longleftrightarrow>
     (\<exists>c sess. ar_Cookie (oc_req oc) = Some c \<and> set_Dashboard (as_settings s) \<and> map_of (ss_byID (as_sessions s)) c = Some sess
        \<and> ss_pubkey sess = pk \<and> pk \<in> set (oc_admins oc) \<and> oc_now oc \<le> ss_expires sess
        \<and> (ar_Method (oc_req oc) \<in> {''GET'', ''HEAD''} \<or> ar_CSRF (oc_req oc) = ss_csrf sess \<and> ss_csrf sess \<noteq> []))"

lemma verify_by:
  "verifyNIP98 E oc s = (s1, Inr pk) \<Longrightarrow> signed_by E oc s s1 pk \<and> s1 = s\<lparr>as_replay := as_replay s1\<rparr>"
  "verifyNIP98 E oc s = (s1, Inl rep) \<Longrightarrow> rp_status rep \<in> {401, 413}"
  by (auto simp: verifyNIP98_def signed_by_def First_def Let_def failAuth_def admin_deny_def error_reply_def
      split: option.splits if_splits prod.splits bool.splits)

lemma session_by:
  "require_session E oc s = (s1, Inr pk) \<Longrightarrow> in_session oc s pk \<and> s1 = s"
  "require_session E oc s = (s1, Inl rep) \<Longrightarrow> rp_status rep = 401"
  by (auto simp: require_session_def in_session_def sessions_get_def csrfMatches_def Let_def failAuth_def admin_deny_def error_reply_def
      split: option.splits if_splits prod.splits)

lemma session_serves:
  assumes "in_session oc s pk"
  shows "require_session E oc s = (s, Inr pk)"
proof -
  obtain c sess where c: "ar_Cookie (oc_req oc) = Some c" "set_Dashboard (as_settings s)" "map_of (ss_byID (as_sessions s)) c = Some sess"
      "ss_pubkey sess = pk" "pk \<in> set (oc_admins oc)" "oc_now oc \<le> ss_expires sess"
      "ar_Method (oc_req oc) \<in> {''GET'', ''HEAD''} \<or> csrfMatches sess (ar_CSRF (oc_req oc))"
    using assms by (auto simp: in_session_def csrfMatches_def)
  then have "sessions_get (as_sessions s) c (oc_admins oc) (oc_now oc) = (as_sessions s, Some sess)" by (auto simp: sessions_get_def)
  then show ?thesis using c by (auto simp: require_session_def Let_def)
qed

lemma session_iff:
  "snd (require_session E oc s) = Inr pk \<longleftrightarrow> in_session oc s pk" "require_session E oc s = (s, Inr pk) \<longleftrightarrow> in_session oc s pk"
proof -
  have "in_session oc s pk" if "snd (require_session E oc s) = Inr pk" using session_by(1)[of E oc s "fst (require_session E oc s)" pk] that by (simp add: prod_eq_iff)
  then show "snd (require_session E oc s) = Inr pk \<longleftrightarrow> in_session oc s pk" "require_session E oc s = (s, Inr pk) \<longleftrightarrow> in_session oc s pk"
    using session_serves[of oc s pk E] by auto
qed

lemma gate_cases:
  obtains (refused) st s' where "st \<in> {421, 403, 429}" "\<forall>nxt. gate E nxt oc s = (s', error_reply st)"
  | (passed) l where "to_lower (ar_Host (oc_req oc)) \<in> set (set_Hosts (as_settings s))"
      "set_AllowCIDRs (as_settings s) = [] \<or> admin_allowed E s (ar_ip (oc_req oc))"
      "limiter_blocked (as_limiter s) (ar_ip (oc_req oc)) (oc_now oc) = (l, False)" "\<forall>nxt. gate E nxt oc s = nxt oc (s\<lparr>as_limiter := l\<rparr>)"
proof -
  obtain l b where lb: "limiter_blocked (as_limiter s) (ar_ip (oc_req oc)) (oc_now oc) = (l, b)" by fastforce
  consider "to_lower (ar_Host (oc_req oc)) \<notin> set (set_Hosts (as_settings s))"
    | "to_lower (ar_Host (oc_req oc)) \<in> set (set_Hosts (as_settings s))" "set_AllowCIDRs (as_settings s) \<noteq> [] \<and> \<not> admin_allowed E s (ar_ip (oc_req oc))"
    | "to_lower (ar_Host (oc_req oc)) \<in> set (set_Hosts (as_settings s))" "set_AllowCIDRs (as_settings s) = [] \<or> admin_allowed E s (ar_ip (oc_req oc))"
    by blast
  then show thesis
  proof cases
    case 1
    then show ?thesis by (intro refused[of 421]) (simp_all add: gate_def Let_def admin_deny_def)
  next
    case 2
    then show ?thesis by (intro refused[of 403]) (simp_all add: gate_def Let_def admin_deny_def)
  next
    case 3
    show ?thesis
    proof (cases b)
      case True
      then show ?thesis using 3 lb by (intro refused[of 429]) (auto simp: gate_def Let_def)
    next
      case False
      then show ?thesis using 3 lb by (intro passed) (auto simp: gate_def Let_def)
    qed
  qed
qed

section \<open>An example\<close>

text \<open>
  A server for two keys, with a header decoder that takes the text after the scheme for the event id, events created at
  the time 5, and a stand-in for SHA-256 with 32 bytes.
\<close>

definition ex_codec_ids :: header_codec where
  "ex_codec_ids = \<lparr>hc_b64 = Some, hc_json_id = Some\<rparr>"

definition ex_created :: "string \<Rightarrow> gtime" where
  "ex_created k = 5 * second"

definition ex_verify :: "areq \<Rightarrow> string list \<Rightarrow> string \<Rightarrow> gtime \<Rightarrow> string option" where
  "ex_verify r admins body now =
     (case admins of [] \<Rightarrow> None | a # _ \<Rightarrow> if \<bar>now - ex_created (nip98EventID ex_codec_ids (ar_Authorization r))\<bar> \<le> minute then Some a else None)"

definition ex_sha :: "string \<Rightarrow> string" where
  "ex_sha s = take 32 (rev s @ replicate 32 CHR ''z'')"

definition ex_admin :: admin_env where
  "ex_admin = \<lparr>ae_Verify = ex_verify, ae_header = ex_codec_ids, ae_ParseAddr = (\<lambda>_. None), ae_sha = ex_sha, ae_Nip05 = (\<lambda>_. []), ae_render = (\<lambda>_. Some ''up 1'')\<rparr>"

definition ex_settings :: Settings where
  "ex_settings = \<lparr>set_Hosts = [''relay''], set_AllowCIDRs = [], set_TLS = False, set_Dashboard = True, set_Metrics = False,
     set_SessionTTL = hour, set_ScrapeTTL = second\<rparr>"

definition ex_admin_server :: AdminServer where
  "ex_admin_server = \<lparr>as_settings = ex_settings, as_tokens = None, as_sessions = newSessions hour, as_replay = NewReplayGuard,
     as_limiter = [], as_scrape = None, as_denied = []\<rparr>"

definition ex_req :: areq where
  "ex_req = \<lparr>ar_Method = ''POST'', ar_Path = ''/admin/api/login'', ar_Host = ''Relay'', ar_ip = ''::1'', ar_Authorization = ''Nostr e1'',
     ar_CSRF = [], ar_Cookie = None, ar_body = Some []\<rparr>"

definition ex_occasion :: occasion where
  "ex_occasion = \<lparr>oc_now = 6 * second, oc_admins = [''pk''], oc_tokens = None, oc_rnd = (''abc'', ''def''), oc_req = ex_req\<rparr>"

definition ex_api :: routes where
  "ex_api = [((''GET'', ''/admin/api/x''), \<lambda>pk oc s. (s, \<lparr>rp_status = 200, rp_cookie = KeepCookie, rp_session = None, rp_body = pk\<rparr>))]"

definition ex_ui :: handler where
  "ex_ui oc s = (s, error_reply 404)"

lemma ex_new: "NewAdmin ex_settings None = Inr ex_admin_server"
  by (simp add: NewAdmin_def ex_settings_def ex_admin_server_def newFailLimiter_def)

lemma ex_verify_sound: "verify_sound ex_admin ex_created"
  by (auto simp: verify_sound_def ex_admin_def ex_verify_def split: list.splits if_splits)

lemma ex_plain: "plain_routes ex_api ex_ui"
  by (simp add: plain_routes_def ex_api_def ex_ui_def)

lemma ex_sha_length: "\<forall>s. length (ex_sha s) = 32"
  by (auto simp: ex_sha_def min_def)

lemma ex_id: "nip98EventID ex_codec_ids ''Nostr e1'' = ''e1''"
  by (simp add: nip98EventID_def cut_prefix_def ex_codec_ids_def)

lemma ex_login: "verifyNIP98 ex_admin ex_occasion ex_admin_server
    = (ex_admin_server\<lparr>as_replay := [''e1'' \<mapsto> time_add (6 * second) nip98Window]\<rparr>, Inr ''pk'')"
  unfolding verifyNIP98_def First_def
  by (simp add: ex_occasion_def ex_req_def ex_admin_def ex_verify_def ex_created_def ex_id ex_admin_server_def NewReplayGuard_def unexpired_def Let_def fun_eq_iff)

lemma ex_handler_login: "admin_handler ex_admin ex_api ex_ui ex_occasion ex_admin_server = login ex_admin ex_occasion ex_admin_server"
proof -
  have h: "to_lower (ar_Host (oc_req ex_occasion)) = ''relay''" by (simp add: ex_occasion_def ex_req_def) code_simp
  have p: "ar_Path (oc_req ex_occasion) = ''/admin/api/login''" "ar_Method (oc_req ex_occasion) = ''POST''" by (simp_all add: ex_occasion_def ex_req_def)
  have s: "as_settings ex_admin_server = ex_settings" "ex_admin_server\<lparr>as_limiter := []\<rparr> = ex_admin_server" "as_limiter ex_admin_server = []"
    by (simp_all add: ex_admin_server_def)
  show ?thesis
    by (simp add: admin_handler_def gate_def mux_def Let_def h p s limiter_blocked_def serves_def)
      (simp add: ex_settings_def own_routes_def s)
qed

section \<open>Who is served\<close>



text \<open>
  C16. An API route runs only for an admin: the request is for one of the listener's own names, from an allowed address that
  is not locked out, and carries either a signature of an admin that was not used before and is now recorded, or the cookie of
  a dashboard session of an admin that has not expired, with the session's CSRF token unless it only reads. Every
  other request is refused, whatever the route would do.
\<close>

theorem api_needs_admin:
  assumes "verify_sound E created" "gate E (requireAdmin E h) oc s = (s', rep)"
  shows "(\<exists>pk s1. (s', rep) = h pk oc s1 \<and> pk \<in> set (oc_admins oc) \<and> to_lower (ar_Host (oc_req oc)) \<in> set (set_Hosts (as_settings s))
      \<and> (set_AllowCIDRs (as_settings s) = [] \<or> admin_allowed E s (ar_ip (oc_req oc)))
      \<and> \<not> snd (limiter_blocked (as_limiter s) (ar_ip (oc_req oc)) (oc_now oc))
      \<and> (if has_prefix (ar_Authorization (oc_req oc)) ''Nostr '' then signed_by E oc s s1 pk else in_session oc s pk))
    \<or> rp_status rep \<in> {401, 403, 413, 421, 429} \<and> (\<forall>h'. gate E (requireAdmin E h') oc s = (s', rep))"
proof (cases rule: gate_cases[of E oc s])
  case (refused st x)
  then show ?thesis using assms(2) by (auto simp: error_reply_def)
next
  case (passed l)
  let ?x = "s\<lparr>as_limiter := l\<rparr>"
  have g: "gate E (requireAdmin E h') oc s = requireAdmin E h' oc ?x" for h' using passed(4) by blast
  show ?thesis
  proof (cases "authenticate E oc ?x")
    case (Pair s1 out)
    show ?thesis
    proof (cases out)
      case (Inl r)
      then have "rp_status r \<in> {401, 413}" using Pair verify_by(2) session_by(2) by (auto simp: authenticate_def split: if_splits)
      then show ?thesis using Pair Inl assms(2) unfolding g by (auto simp: requireAdmin_def)
    next
      case (Inr pk)
      have au: "if has_prefix (ar_Authorization (oc_req oc)) ''Nostr '' then signed_by E oc s s1 pk else in_session oc s pk"
        using Pair Inr verify_by(1)[of E oc ?x s1 pk] session_by(1)[of E oc ?x s1 pk]
        by (auto simp: authenticate_def signed_by_def in_session_def split: if_splits)
      then have "pk \<in> set (oc_admins oc)" using assms(1) by (auto simp: verify_sound_def signed_by_def in_session_def Let_def split: if_splits)
      moreover have "(s', rep) = h pk oc s1" using Pair Inr assms(2) unfolding g by (simp add: requireAdmin_def)
      ultimately show ?thesis using au passed(1-3) by (intro disjI1 exI[of _ pk] exI[of _ s1]) auto
    qed
  qed
qed

theorem api_needs_admin_witness:
  "gate ex_admin (requireAdmin ex_admin (\<lambda>pk oc s. (s, error_reply 200))) ex_occasion ex_admin_server
     = (ex_admin_server\<lparr>as_replay := [''e1'' \<mapsto> time_add (6 * second) nip98Window]\<rparr>, error_reply 200)
   \<and> (\<exists>pk s1. pk \<in> {''pk''} \<and> signed_by ex_admin ex_occasion ex_admin_server s1 pk)"
proof -
  let ?g = "gate ex_admin (requireAdmin ex_admin (\<lambda>pk oc s. (s, error_reply 200))) ex_occasion ex_admin_server"
  let ?s = "ex_admin_server\<lparr>as_replay := [''e1'' \<mapsto> time_add (6 * second) nip98Window]\<rparr>"
  have h: "to_lower (ar_Host (oc_req ex_occasion)) = ''relay''" by (simp add: ex_occasion_def ex_req_def) code_simp
  have a: "has_prefix (ar_Authorization (oc_req ex_occasion)) ''Nostr ''" by (simp add: ex_occasion_def ex_req_def)
  have s: "as_settings ex_admin_server = ex_settings" "ex_admin_server\<lparr>as_limiter := []\<rparr> = ex_admin_server" "as_limiter ex_admin_server = []"
    by (simp_all add: ex_admin_server_def)
  have r: "requireAdmin ex_admin (\<lambda>pk oc s. (s, error_reply 200)) ex_occasion ex_admin_server = (?s, error_reply 200)"
    by (simp only: requireAdmin_def authenticate_def a ex_login if_True prod.case sum.case)
  have g: "?g = (?s, error_reply 200)"
    unfolding gate_def Let_def by (simp add: h s limiter_blocked_def r) (simp add: ex_settings_def s r)
  show ?thesis using api_needs_admin[OF ex_verify_sound g] a g by (auto simp: error_reply_def ex_occasion_def)
qed

text \<open>
  The life of a session: a login that succeeds hands out a cookie, and a request that reads with it and without a
  signature is then served as the key that signed, exactly while that key is an admin and the session's time is not
  over; otherwise, and after a logout with it, it is refused with 401.
\<close>

theorem session_life:
  assumes "login E oc s = (s1, rep)" "rp_cookie rep = SetCookie c x" "set_Dashboard (as_settings s)"
    and "ar_Cookie (oc_req oc') = Some c" "\<not> has_prefix (ar_Authorization (oc_req oc')) ''Nostr ''" "ar_Method (oc_req oc') = ''GET''"
  shows "\<exists>pk. signed_by E oc s s1 pk \<and> x = time_add (oc_now oc) (ss_ttl (as_sessions s))
    \<and> (authenticate E oc' s1 = (s1, Inr pk) \<longleftrightarrow> pk \<in> set (oc_admins oc') \<and> oc_now oc' \<le> x)
    \<and> (\<forall>pk'. snd (authenticate E oc' s1) = Inr pk' \<longrightarrow> pk' = pk)
    \<and> (\<forall>pk'. snd (authenticate E oc' (fst (logout pk oc' s1))) \<noteq> Inr pk')"
proof -
  obtain s0 pk where v: "verifyNIP98 E oc s = (s0, Inr pk)"
    using assms(1,2) by (cases "verifyNIP98 E oc s"; cases "snd (verifyNIP98 E oc s)")
      (auto simp: login_def verifyNIP98_def Let_def failAuth_def admin_deny_def error_reply_def split: option.splits if_splits prod.splits bool.splits)
  note sg = verify_by(1)[OF v]
  obtain ss i sess where cr: "sessions_create (as_sessions s0) pk (oc_now oc) (fst (oc_rnd oc)) (snd (oc_rnd oc)) = (ss, i, sess)" by (metis prod_cases3)
  have s1: "s1 = s0\<lparr>as_sessions := ss\<rparr>" "c = i" "x = ss_expires sess" using assms(1,2) v cr by (auto simp: login_def json_reply_def)
  note g = create_then_get[OF cr]
  have d: "set_Dashboard (as_settings s1)" "as_sessions s0 = as_sessions s" "as_replay s1 = as_replay s0"
    using arg_cong[OF conjunct2[OF sg], of as_settings] arg_cong[OF conjunct2[OF sg], of as_sessions] assms(3) s1(1) by simp_all
  have m: "map_of (ss_byID (as_sessions s1)) c = Some sess" using g(1) s1 by simp
  have a: "authenticate E oc' y = require_session E oc' y" for y using assms(5) by (simp add: authenticate_def)
  have i: "in_session oc' s1 pk' \<longleftrightarrow> pk' = pk \<and> pk \<in> set (oc_admins oc') \<and> oc_now oc' \<le> x" for pk'
    using m assms(4,6) d(1) g(2) s1(3) by (auto simp: in_session_def)
  have gone: "map_of (ss_byID (as_sessions (fst (logout pk oc' s1)))) c = None"
    using assms(4) by (simp add: logout_def sessions_remove_def delete_conv')
  then have "\<not> in_session oc' (fst (logout pk oc' s1)) pk'" for pk' using assms(4) by (auto simp: in_session_def)
  moreover have "signed_by E oc s s1 pk" using sg d(3) by (simp add: signed_by_def)
  moreover have "x = time_add (oc_now oc) (ss_ttl (as_sessions s))" using g(3) s1(3) d(2) by simp
  ultimately show ?thesis using i by (intro exI[of _ pk]) (simp add: a session_iff)
qed

definition ex_read :: occasion where
  "ex_read = ex_occasion\<lparr>oc_now := 7 * second, oc_req := ex_req\<lparr>ar_Method := ''GET'', ar_Authorization := [], ar_Cookie := Some (randomToken ''abc'')\<rparr>\<rparr>"

theorem session_life_witness:
  "\<exists>s1 rep. login ex_admin ex_occasion ex_admin_server = (s1, rep) \<and> authenticate ex_admin ex_read s1 = (s1, Inr ''pk'')
    \<and> (\<forall>pk'. snd (authenticate ex_admin ex_read (fst (logout ''pk'' ex_read s1))) \<noteq> Inr pk')"
proof -
  let ?x = "time_add (6 * second) hour"
  obtain s1 rep where l: "login ex_admin ex_occasion ex_admin_server = (s1, rep)" by fastforce
  have c: "rp_cookie rep = SetCookie (randomToken ''abc'') ?x"
    using l unfolding login_def ex_login
    by (auto simp: Let_def sessions_create_def sessions_sweep_def json_reply_def ex_admin_server_def newSessions_def ex_occasion_def)
  have o: "set_Dashboard (as_settings ex_admin_server)" "ar_Cookie (oc_req ex_read) = Some (randomToken ''abc'')"
    "\<not> has_prefix (ar_Authorization (oc_req ex_read)) ''Nostr ''" "ar_Method (oc_req ex_read) = ''GET''"
    by (simp_all add: ex_admin_server_def ex_settings_def ex_read_def ex_occasion_def ex_req_def)
  obtain pk where pk: "signed_by ex_admin ex_occasion ex_admin_server s1 pk"
      "authenticate ex_admin ex_read s1 = (s1, Inr pk) \<longleftrightarrow> pk \<in> set (oc_admins ex_read) \<and> oc_now ex_read \<le> ?x"
      "\<forall>pk'. snd (authenticate ex_admin ex_read (fst (logout pk ex_read s1))) \<noteq> Inr pk'"
    using session_life[OF l c o] by blast
  have "pk = ''pk''" using pk(1) by (auto simp: signed_by_def Let_def ex_admin_def ex_verify_def ex_occasion_def split: if_splits)
  moreover have "oc_now ex_read \<le> ?x" by (simp add: ex_read_def time_add_def max_int64_def)
  moreover have "oc_admins ex_read = [''pk'']" by (simp add: ex_read_def ex_occasion_def)
  ultimately show ?thesis using l pk(2,3) by auto
qed

text \<open>
  The lock-out: counting from an address's first failed attempt, for a minute its requests are answered 429 and change
  nothing once it has failed ten times, whatever other addresses do, and go through before that; after the minute
  they go through and its record is dropped. The requests are for the listener's name and from an allowed address.
\<close>

theorem lock_out:
  assumes "map_of l ip = None" "length l < maxFailedAddr" "\<forall>(ip', t) \<in> set fs. t - t0 \<le> failWindow"
    and "as_limiter s = fail_all (limiter_fail l ip t0) fs" "ar_ip (oc_req oc) = ip"
    and "to_lower (ar_Host (oc_req oc)) \<in> set (set_Hosts (as_settings s))" "set_AllowCIDRs (as_settings s) = [] \<or> admin_allowed E s ip"
  shows "gate E nxt oc s =
    (if oc_now oc - t0 > failWindow then nxt oc (s\<lparr>as_limiter := AList.delete ip (as_limiter s)\<rparr>)
     else if failLimit \<le> 1 + int (length (filter (\<lambda>(ip', t). ip' = ip) fs)) then (s, error_reply 429)
     else nxt oc s)"
proof -
  have "map_of (as_limiter s) ip = Some \<lparr>fc_n = 1 + int (length (filter (\<lambda>(ip', t). ip' = ip) fs)), fc_since = t0\<rparr>"
    using fail_all_count[OF fail_first[OF assms(1,2)] assms(3)] assms(4) by simp
  then show ?thesis using assms(5-7) in_window[of "oc_now oc" t0] by (auto simp: gate_def Let_def limiter_blocked_def)
qed

theorem lock_out_witness:
  "gate ex_admin (\<lambda>oc s. (s, error_reply 200)) ex_occasion (ex_admin_server\<lparr>as_limiter := fail_all (limiter_fail [] ''::1'' second) (replicate 9 (''::1'', second))\<rparr>)
     = (ex_admin_server\<lparr>as_limiter := fail_all (limiter_fail [] ''::1'' second) (replicate 9 (''::1'', second))\<rparr>, error_reply 429)"
proof -
  have h: "to_lower (ar_Host (oc_req ex_occasion)) = ''relay''" by (simp add: ex_occasion_def ex_req_def) code_simp
  show ?thesis
    by (subst lock_out[of "[]" "''::1''" "replicate 9 (''::1'', second)" second])
      (simp_all add: h ex_admin_server_def ex_settings_def, simp_all add: ex_occasion_def ex_req_def)
qed

section \<open>Metrics\<close>

text \<open>
  The metrics page needs a token of the file: when the set is due for a look at the file, a scrape is refused, with 401 and one
  more failed attempt of its address, unless its bearer token is a metrics token whose hash the file lists; and a file that
  is missing, open to others or invalid lists none. The set is in step with the file if they have one stamp, which
  it stays, and is when the server starts.
\<close>

theorem metrics_need_token:
  assumes "serveMetrics E oc s = (s', rep)" "as_tokens s = Some t" "in_step t (oc_tokens oc)" "recheckEvery \<le> oc_now oc - ts_checked t"
  shows "(rp_status rep \<noteq> 401 \<longleftrightarrow> (\<exists>tok. ar_Authorization (oc_req oc) = ''Bearer '' @ tok \<and> has_prefix (trim_space tok) TokenPrefix
      \<and> ae_sha E (trim_space tok) \<in> accepted (oc_tokens oc)))
    \<and> (rp_status rep = 401 \<longrightarrow> as_limiter s' = limiter_fail (as_limiter s) (ar_ip (oc_req oc)) (oc_now oc))
    \<and> (\<exists>t'. as_tokens s' = Some t' \<and> in_step t' (oc_tokens oc))"
proof (cases "cut_prefix (ar_Authorization (oc_req oc)) ''Bearer ''")
  case None
  then have "\<nexists>tok. ar_Authorization (oc_req oc) = ''Bearer '' @ tok" by (metis cut_prefix_Some option.distinct(1))
  then show ?thesis using assms(1-3) None by (auto simp: serveMetrics_def failAuth_def admin_deny_def error_reply_def)
next
  case (Some tok)
  obtain t' ok where v: "tokens_valid (ae_sha E) t (oc_tokens oc) (oc_tokens oc) (oc_tokens oc) (trim_space tok) (oc_now oc) = (t', ok)" by fastforce
  note d = valid_due[OF assms(3,4) v]
  have tok: "ar_Authorization (oc_req oc) = ''Bearer '' @ x \<longleftrightarrow> x = tok" for x using Some by (auto simp: cut_prefix_Some)
  show ?thesis
  proof (cases ok)
    case True
    then have "rp_status rep \<noteq> 401 \<and> as_tokens s' = Some t'"
      using assms(1,2) Some v by (auto simp: serveMetrics_def renderMetrics_def Let_def error_reply_def split: option.splits prod.splits if_splits)
    then show ?thesis using d tok True by auto
  next
    case False
    then have "rp_status rep = 401 \<and> as_tokens s' = Some t' \<and> as_limiter s' = limiter_fail (as_limiter s) (ar_ip (oc_req oc)) (oc_now oc)"
      using assms(1,2) Some v by (auto simp: serveMetrics_def failAuth_def admin_deny_def error_reply_def)
    then show ?thesis using d tok False by auto
  qed
qed

definition ex_scrape :: AdminServer where
  "ex_scrape = ex_admin_server\<lparr>as_tokens := Some \<lparr>ts_mtime = 0, ts_size = 0, ts_hashes = [], ts_checked = 0\<rparr>\<rparr>"

theorem metrics_need_token_witness:
  "\<exists>s' rep. serveMetrics ex_admin ex_occasion ex_scrape = (s', rep) \<and> rp_status rep = 401"
proof -
  obtain s' rep where s: "serveMetrics ex_admin ex_occasion ex_scrape = (s', rep)" by fastforce
  have "in_step \<lparr>ts_mtime = 0, ts_size = 0, ts_hashes = [], ts_checked = 0\<rparr> (oc_tokens ex_occasion)" by (simp add: in_step_def ex_occasion_def)
  moreover have "recheckEvery \<le> oc_now ex_occasion - 0" "ar_Authorization (oc_req ex_occasion) = ''Nostr e1''" by (simp_all add: ex_occasion_def ex_req_def)
  ultimately show ?thesis using metrics_need_token[OF s, of "\<lparr>ts_mtime = 0, ts_size = 0, ts_hashes = [], ts_checked = 0\<rparr>"] s
    by (auto simp: ex_scrape_def)
qed

text \<open>
  Rotating tokens: \<open>AddToken\<close> on a file that loads and ends with a newline adds the entry of the new token and leaves the
  others, and a server whose set was read from the file before accepts the new token at its next look. \<open>RemoveToken\<close> drops
  exactly the entries with the name, and at its next look the server accepts exactly the tokens the other entries list.
\<close>

theorem token_rotation:
  assumes "\<forall>s. length (sha s) = 32" "LoadTokens (Some f) = Inr es" "clean (tf_data f)"
    and "ts_size t = length (tf_data f)" "recheckEvery \<le> now' - ts_checked t" "clock_ok now"
  shows "(AddToken sha rnd w wt (Some f) name now = (fo', Inr token) \<longrightarrow>
      name \<notin> te_Name ` set es \<and> LoadTokens fo' = Inr (es @ [\<lparr>te_Hash = sha token, te_Name = name, te_Created = format_date now\<rparr>])
      \<and> snd (tokens_valid sha t fo' fo' fo' token now'))
    \<and> (RemoveToken v wt (Some f) name = (fo', None) \<longrightarrow>
      name \<in> te_Name ` set es \<and> LoadTokens fo' = Inr (filter (\<lambda>e. te_Name e \<noteq> name) es)
      \<and> (\<forall>tok. snd (tokens_valid sha t fo' fo' fo' tok now') \<longleftrightarrow> has_prefix tok TokenPrefix \<and> (\<exists>e \<in> set es. te_Name e \<noteq> name \<and> te_Hash e = sha tok)))"
proof (intro conjI[of "_ \<longrightarrow> _"] impI)
  assume "AddToken sha rnd w wt (Some f) name now = (fo', Inr token)"
  then obtain f' where f': "fo' = Some f'" "length (tf_data f) < length (tf_data f')" "name \<notin> te_Name ` set es"
      "LoadTokens fo' = Inr (es @ [new_entry sha token name now])" "has_prefix token TokenPrefix"
    using AddToken_loads[of sha rnd w wt "Some f" name now fo' token] assms(1,2,3,6) by auto
  have "in_step t fo'" using f'(1,2) assms(4) by (intro in_step_size) auto
  then have "snd (tokens_valid sha t fo' fo' fo' token now') \<longleftrightarrow> has_prefix token TokenPrefix \<and> sha token \<in> accepted fo'"
    using valid_due(1)[OF _ assms(5)] by (metis prod.collapse)
  moreover have "sha token \<in> accepted fo'" using f'(4) by (simp add: accepted_def new_entry_def)
  ultimately show "name \<notin> te_Name ` set es \<and> LoadTokens fo' = Inr (es @ [\<lparr>te_Hash = sha token, te_Name = name, te_Created = format_date now\<rparr>])
      \<and> snd (tokens_valid sha t fo' fo' fo' token now')" using f'(3-5) by (simp add: new_entry_def)
next
  assume r: "RemoveToken v wt (Some f) name = (fo', None)"
  obtain f' where f': "fo' = Some f'" "LoadTokens fo' = Inr (filter (\<lambda>e. te_Name e \<noteq> name) es)" "name \<in> te_Name ` set es" "length (tf_data f') < length (tf_data f)"
    using RemoveToken_loads[OF r assms(2)] by blast
  have "in_step t fo'" using f'(1,4) assms(4) by (intro in_step_size) auto
  then have "snd (tokens_valid sha t fo' fo' fo' tok now') \<longleftrightarrow> has_prefix tok TokenPrefix \<and> sha tok \<in> accepted fo'" for tok
    using valid_due(1)[OF _ assms(5)] by (metis prod.collapse)
  moreover have "sha tok \<in> accepted fo' \<longleftrightarrow> (\<exists>e \<in> set es. te_Name e \<noteq> name \<and> te_Hash e = sha tok)" for tok
    using f'(2) by (force simp: accepted_def)
  ultimately show "name \<in> te_Name ` set es \<and> LoadTokens fo' = Inr (filter (\<lambda>e. te_Name e \<noteq> name) es)
      \<and> (\<forall>tok. snd (tokens_valid sha t fo' fo' fo' tok now') \<longleftrightarrow> has_prefix tok TokenPrefix \<and> (\<exists>e \<in> set es. te_Name e \<noteq> name \<and> te_Hash e = sha tok))"
    using f'(2,3) by blast
qed

definition ex_file :: "string \<Rightarrow> tfile" where
  "ex_file data = \<lparr>tf_perm = 0x180, tf_readable = True, tf_data = data, tf_mtime = 0\<rparr>"

definition ex_set :: tokenSet where
  "ex_set = \<lparr>ts_mtime = 0, ts_size = 0, ts_hashes = [], ts_checked = 0\<rparr>"

theorem token_rotation_witness:
  "\<exists>fo' token. AddToken ex_sha ''abc'' TokenOk 0 (Some (ex_file [])) ''prom'' 0 = (fo', Inr token) \<and> snd (tokens_valid ex_sha ex_set fo' fo' fo' token second)"
proof -
  have n: "token_name_ok ''prom''" by code_simp
  have l: "LoadTokens (Some (ex_file [])) = Inr []" by (simp add: LoadTokens_def ex_file_def open_perm_def Let_def)
  obtain fo' token where a: "AddToken ex_sha ''abc'' TokenOk 0 (Some (ex_file [])) ''prom'' 0 = (fo', Inr token)"
    by (simp add: AddToken_def l NewToken_def n Let_def)
  show ?thesis using token_rotation[of ex_sha "ex_file []" "[]" ex_set second 0 "''abc''" TokenOk 0 "''prom''" fo' token] a l ex_sha_length
    by (auto simp: ex_file_def ex_set_def clean_def clock_ok_def)
qed

text \<open>
  The listener's tables are bounded: in every state a run of it reaches there are at most 64 sessions, under distinct ids, and
  at most 10000 addresses with failed attempts.
\<close>

theorem admin_bounded:
  assumes "run (admin_step E api ui) (s, t) Ks w" "NewAdmin st tokens = Inr s" "plain_routes api ui"
  shows "length (ss_byID (as_sessions (fst w))) \<le> maxSessions \<and> distinct (map fst (ss_byID (as_sessions (fst w)))) \<and> length (as_limiter (fst w)) \<le> maxFailedAddr"
  using run_admin_wf[OF assms(1,3)] NewAdmin_start(1)[OF assms(2)] by (simp add: wf_admin_def wf_sessions_def)

theorem admin_bounded_witness:
  "\<exists>w. run (admin_step ex_admin ex_api ex_ui) (ex_admin_server, 0) [{''e1''}] w \<and> length (ss_byID (as_sessions (fst w))) \<le> 64"
proof -
  obtain s1 rep where 1: "admin_handler ex_admin ex_api ex_ui ex_occasion ex_admin_server = (s1, rep)" by fastforce
  have "as_replay s1 = [''e1'' \<mapsto> time_add (6 * second) nip98Window]"
    using 1 unfolding ex_handler_login by (auto simp: login_def ex_login Let_def split: prod.splits)
  then have K: "{k. as_replay s1 k \<noteq> None \<and> as_replay s1 k \<noteq> as_replay ex_admin_server k} = {''e1''}"
    by (auto simp: ex_admin_server_def NewReplayGuard_def)
  have "admin_step ex_admin ex_api ex_ui (ex_admin_server, 0) {''e1''} (s1, 6 * second)"
    using admin_serve[OF 1, of 0] unfolding K by (simp add: ex_occasion_def clock_ok_def)
  then have r: "run (admin_step ex_admin ex_api ex_ui) (ex_admin_server, 0) [{''e1''}] (s1, 6 * second)" by (auto intro!: run.intros)
  show ?thesis using admin_bounded[OF r ex_new ex_plain] r by blast
qed

section \<open>A file without a final newline\<close>

text \<open>
  Why the newline at the end matters: appended to a last line that has none, the new line is read as more fields of the old entry,
  which takes the new name, and the new token's hash is in no entry.
\<close>

lemma unterminated_line_merges:
  assumes "graphic n" "n \<noteq> []" "length h = 32" "length n < 100" "\<forall>s. length (sha s) = 32" "clock_ok now"
    and "AddToken sha rnd w wt (Some (ex_file (''sha256:'' @ hex_encode h @ '' name='' @ n))) name now = (fo', Inr token)"
  shows "LoadTokens fo' = Inr [\<lparr>te_Hash = h, te_Name = name, te_Created = format_date now\<rparr>]"
proof -
  let ?old = "''sha256:'' @ hex_encode h @ '' name='' @ n"
  obtain line where l: "NewToken sha rnd name now = Inr (token, line)" "fo' = Some (append_tokens (Some (ex_file ?old)) wt (line @ [newline]))"
    using assms(7) by (auto simp: AddToken_def split: sum.splits if_splits prod.splits token_fault.splits)
  let ?ws = "[''sha256:'' @ hex_encode h, (''name='' @ n) @ ''sha256:'' @ hex_encode (sha token), ''name='' @ name, ''created='' @ format_date now]"
  have nm: "token_name_ok name" and j: "?old @ line = join ?ws '' ''" using l(1) by (auto simp: NewToken_def Let_def split: if_splits)
  have g: "\<forall>w \<in> set ?ws. graphic w \<and> w \<noteq> []"
    using graphic_hex graphic_name[OF nm] graphic_date assms(1) by (auto simp: is_ascii_graph_def)
  have f: "str_fields (?old @ line) = ?ws" unfolding j by (rule str_fields_join[OF g])
  have last: "last (?old @ line) = last (''created='' @ format_date now)" unfolding j by simp
  have tr: "trim_space (?old @ line) = ?old @ line"
    using g last by (intro trim_space_graph) (auto simp: is_ascii_graph_def)
  obtain v where v: "cut ((''name='' @ n) @ ''sha256:'' @ hex_encode (sha token)) CHR ''='' = Some (''name'', v)"
    "cut (''name='' @ name) CHR ''='' = Some (''name'', name)" "cut (''created='' @ format_date now) CHR ''='' = Some (''created'', format_date now)"
    by (simp add: cut_Some)
  have e: "token_line (?old @ line) = Inr (Some \<lparr>te_Hash = h, te_Name = name, te_Created = format_date now\<rparr>)"
  proof -
    have "parseTokenLine (?old @ line) = Inr \<lparr>te_Hash = h, te_Name = name, te_Created = format_date now\<rparr>"
      unfolding parseTokenLine_def f using v assms(3) by (simp add: cut_prefix_def set_field_def)
    then show ?thesis unfolding token_line_def Let_def tr by simp
  qed
  have "\<not> is_ascii_graph newline" by (simp add: is_ascii_graph_def)
  then have nl: "newline \<notin> set (?old @ line)" unfolding j using g by (auto simp: ball_Un)
  have "length name \<le> 64" using nm by (simp add: token_name_ok_def)
  then have len: "int (length (?old @ line)) < 65536" unfolding j using assms(3-5) format_date_length[OF assms(6)] by (simp add: hex_encode_length)
  have d: "data_lines ((?old @ line) @ [newline]) = [?old @ line]" using data_lines_append[of "[]" "?old @ line"] nl by (simp add: clean_def data_lines_def)
  show ?thesis using d e len unfolding l(2) append_tokens_def
    by (simp add: LoadTokens_iff lines_ok_def line_entries_def ex_file_def open_perm_def)
qed

end
