(* ===== verification/Relay_Jobs.thy ===== *)
theory Relay_Jobs
  imports Go_Time Go_Text "HOL-Library.AList"
begin

text \<open>
  The index jobs of a live relay (\<open>cli/relay/jobs/jobs.go\<close>): the manager, the life of one job from its start to its record
  in the history, cancelling, shutdown, and the history file with the parking of crash loops. A job runs in a
  goroutine of its own; what it does is split at its critical sections, and its place between them is a stage. The
  runs are shared by pointer, so they live in a heap, a list indexed by address. The index operations are
  parameters: what they return, and when, is an argument. The file is the list of jobs its JSON encodes.
\<close>

section \<open>Data\<close>

datatype Kind = KindCatchUp | KindRebuild | KindRescore | KindReap | KindDrop

datatype Trigger = TriggerReconcile | TriggerAdmin

datatype JobState = StateRunning | StateSucceeded | StateFailed | StateCancelled | StateSuperseded | StateInterrupted

record Job =
  j_ID :: string
  j_Index :: string
  j_Kind :: Kind
  j_Trigger :: Trigger
  j_Reason :: string
  j_State :: JobState
  j_Phase :: string
  j_Done :: int
  j_Total :: int
  j_Applied :: int
  j_EntriesBefore :: int
  j_EntriesAfter :: int
  j_StartedAt :: int
  j_FinishedAt :: int
  j_DurationMs :: int
  j_Error :: string
  j_Summary :: string
  j_Noop :: bool
  j_Parked :: bool

definition Ended :: "Job \<Rightarrow> bool" where
  "Ended j \<longleftrightarrow> j_State j \<noteq> StateRunning"

record Progress =
  p_Phase :: string
  p_Done :: int
  p_Total :: int
  p_Applied :: int

record Result =
  res_Applied :: int
  res_EntriesBefore :: int
  res_EntriesAfter :: int

text \<open>What of an index's status the manager and its routes read; no action is \<open>None\<close>.\<close>

record IndexStatus =
  is_Enabled :: bool
  is_Unavailable :: string
  is_State :: string
  is_Action :: "Kind option"
  is_Reason :: string
  is_HasData :: bool
  is_Entries :: int
  is_Head :: int
  is_Retired :: int

datatype job_error = ErrUnknownIndex | ErrUnavailable string | ErrEnabled string | ErrBusy | ErrNotFound | ErrNotCancellable
  | ErrNothingToDo | ErrShutdown

text \<open>Why a context was cancelled, and the error of an operation: \<open>ErrNothingToDo\<close> or any other, by its text.\<close>

datatype cause = Cancelled | Superseded | Shutdown

definition cause_text :: "cause \<Rightarrow> string" where
  "cause_text c = (case c of Cancelled \<Rightarrow> ''cancelled'' | Superseded \<Rightarrow> ''superseded'' | Shutdown \<Rightarrow> ''relay stopping'')"

datatype op_error = NothingToDo | OpFailed string

text \<open>
  Where a job's goroutine is: before it looks at its index, waiting for the writer, at work, past its operation with the result,
  the error and the cause it read, past its record, or past the signal to the reconciler; \<open>r_writer\<close> tells whether it has the writer, \<open>r_done\<close> that its channel is closed.
\<close>

datatype stage = Fresh | WaitingWriter | Working | Ending Result "op_error option" "cause option" | Recorded | Notified

record run_rec =
  r_job :: Job
  r_cause :: "cause option"
  r_stage :: stage
  r_writer :: bool
  r_done :: bool

record Manager =
  m_indexes :: "(string \<times> bool) list"
  m_path :: bool
  m_writer :: bool
  m_heap :: "run_rec list"
  m_running :: "(string \<times> nat) list"
  m_history :: "Job list"
  m_closed :: bool
  m_finished :: bool
  m_disk :: "Job list option"
  m_told :: "(string \<times> Kind) list"

abbreviation keptJobs :: nat where "keptJobs \<equiv> 20"
abbreviation crashLoopRuns :: nat where "crashLoopRuns \<equiv> 3"
abbreviation crashLoopWindow :: duration where "crashLoopWindow \<equiv> hour"

definition errDied :: string where
  "errDied = ''the relay process ended while it ran''"

section \<open>Texts\<close>

definition kind_text :: "Kind \<Rightarrow> string" where
  "kind_text k = (case k of KindCatchUp \<Rightarrow> ''catch_up'' | KindRebuild \<Rightarrow> ''rebuild'' | KindRescore \<Rightarrow> ''rescore'' | KindReap \<Rightarrow> ''reap'' | KindDrop \<Rightarrow> ''drop'')"

definition state_text :: "JobState \<Rightarrow> string" where
  "state_text s = (case s of StateRunning \<Rightarrow> ''running'' | StateSucceeded \<Rightarrow> ''succeeded'' | StateFailed \<Rightarrow> ''failed'' | StateCancelled \<Rightarrow> ''cancelled''
     | StateSuperseded \<Rightarrow> ''superseded'' | StateInterrupted \<Rightarrow> ''interrupted'')"

definition describe :: "Kind \<Rightarrow> string" where
  "describe k = (case k of KindCatchUp \<Rightarrow> ''catch-up'' | KindReap \<Rightarrow> ''freeing old data'' | _ \<Rightarrow> kind_text k)"

text \<open>\<open>Count\<close>: the digits, a space before each group of three from the right but the first.\<close>

fun group_digits :: "string \<Rightarrow> string" where
  "group_digits [] = []"
| "group_digits (c # s) = c # (if s \<noteq> [] \<and> length s mod 3 = 0 then CHR '' '' # group_digits s else group_digits s)"

definition Count :: "int \<Rightarrow> string" where
  "Count n = (if n < 0 then ''-'' @ group_digits (nat_text (nat (- n))) else group_digits (nat_text (nat n)))"

text \<open>\<open>(d * time.Millisecond).Round(100 * time.Millisecond)\<close> as \<open>%s\<close> prints it, for the milliseconds of a monotonic clock: \<open>0s\<close>,
  \<open>300ms\<close>, \<open>1m2.3s\<close>.\<close>

definition took_text :: "int \<Rightarrow> string" where
  "took_text ms =
     (let t = (ms + 50) div 100; s = t div 10; f = t mod 10; h = s div 3600; m = s mod 3600 div 60; sec = s mod 60 in
      if t = 0 then ''0s''
      else if t < 10 then itoa (t * 100) @ ''ms''
      else (if h > 0 then itoa h @ ''h'' else []) @ (if s \<ge> 60 then itoa m @ ''m'' else [])
        @ itoa sec @ (if f \<noteq> 0 then ''.'' @ itoa f else []) @ ''s'')"

definition arrow :: string where
  "arrow = [CHR 0xE2, CHR 0x86, CHR 0x92]"

definition summarize :: "Job \<Rightarrow> string" where
  "summarize j =
     (let took = took_text (j_DurationMs j); ix = j_Index j @ '': ''; what = describe (j_Kind j);
          change = Count (j_EntriesBefore j) @ '' '' @ arrow @ '' '' @ Count (j_EntriesAfter j) @ '' entries'' in
      case j_State j of
        StateFailed \<Rightarrow> ix @ what @ '' failed after '' @ took @ '': '' @ j_Error j
      | StateCancelled \<Rightarrow> ix @ what @ '' cancelled after '' @ took
      | StateSuperseded \<Rightarrow> ix @ what @ '' stopped for a rebuild''
      | StateInterrupted \<Rightarrow>
          if j_Error j = errDied then ix @ what @ '' ended with the relay process; it resumes on its own''
          else ix @ what @ '' interrupted by a relay stop; it resumes on its own''
      | _ \<Rightarrow> (case j_Kind j of
            KindRebuild \<Rightarrow> ix @ ''rebuilt in '' @ took @ '', '' @ change
          | KindCatchUp \<Rightarrow> ix @ ''caught up in '' @ took @ '', '' @ Count (j_Applied j) @ '' changes applied, '' @ change
          | KindRescore \<Rightarrow> ix @ ''rescored in '' @ took @ '', '' @ Count (j_Applied j) @ '' scores changed''
          | KindReap \<Rightarrow> ix @ ''freed '' @ Count (j_Applied j) @ '' old entries in '' @ took
          | KindDrop \<Rightarrow> ix @ ''dropped '' @ Count (j_EntriesBefore j) @ '' entries''))"

section \<open>The history and its file\<close>

text \<open>\<open>trimLocked\<close>: of each index the newest \<open>keptJobs\<close>; \<open>per\<close> counts the ones kept so far.\<close>

fun trim_jobs :: "(string \<Rightarrow> nat) \<Rightarrow> Job list \<Rightarrow> Job list" where
  "trim_jobs per [] = []"
| "trim_jobs per (j # js) =
     (if per (j_Index j) < keptJobs then j # trim_jobs (per(j_Index j := per (j_Index j) + 1)) js else trim_jobs per js)"

definition trimLocked :: "Manager \<Rightarrow> Manager" where
  "trimLocked m = m\<lparr>m_history := trim_jobs (\<lambda>_. 0) (m_history m)\<rparr>"

text \<open>\<open>ok\<close> tells whether the file could be written and renamed.\<close>

definition running_jobs :: "Manager \<Rightarrow> Job list" where
  "running_jobs m = map (\<lambda>(_, a). r_job (m_heap m ! a)) (m_running m)"

definition saveLocked_jobs :: "bool \<Rightarrow> Manager \<Rightarrow> Manager" where
  "saveLocked_jobs ok m = (if m_path m \<and> ok then m\<lparr>m_disk := Some (running_jobs m @ m_history m)\<rparr> else m)"

text \<open>A job that was running when the process ended.\<close>

definition died_job :: "Job \<Rightarrow> Job" where
  "died_job j = (if j_State j = StateRunning then
     let j1 = j\<lparr>j_State := StateInterrupted, j_Phase := [], j_Error := errDied, j_FinishedAt := (if j_FinishedAt j = 0 then j_StartedAt j else j_FinishedAt j)\<rparr>
     in j1\<lparr>j_Summary := summarize j1\<rparr> else j)"

text \<open>The jobs of \<open>index\<close>, newest first, that died in a row, at most \<open>crashLoopRuns\<close> of them.\<close>

definition is_died :: "Job \<Rightarrow> bool" where
  "is_died j \<longleftrightarrow> j_State j = StateInterrupted \<and> j_Error j = errDied"

definition died_run :: "string \<Rightarrow> Job list \<Rightarrow> Job list" where
  "died_run index js = take crashLoopRuns (takeWhile is_died (filter (\<lambda>j. j_Index j = index) js))"

definition parked_job :: "Job \<Rightarrow> Job" where
  "parked_job j =
     (let j1 = j\<lparr>j_State := StateFailed, j_Parked := True,
          j_Error := ''the relay stopped 3 times in a row during '' @ describe (j_Kind j) @ '', so the relay no longer starts it; ncli relay index rebuild (or drop) ''
            @ j_Index j @ '' starts over''\<rparr>
      in j1\<lparr>j_Summary := summarize j1\<rparr>)"

text \<open>It changes the first job of the index in the history, in place.\<close>

fun update_first :: "('a \<Rightarrow> bool) \<Rightarrow> ('a \<Rightarrow> 'a) \<Rightarrow> 'a list \<Rightarrow> 'a list" where
  "update_first P f [] = []"
| "update_first P f (x # xs) = (if P x then f x # xs else x # update_first P f xs)"

definition must_park :: "string \<Rightarrow> Job list \<Rightarrow> bool" where
  "must_park index js \<longleftrightarrow> (let d = died_run index js in
     length d = crashLoopRuns \<and> j_StartedAt (hd d) - j_StartedAt (last d) \<le> crashLoopWindow div second)"

definition parkLocked :: "bool \<Rightarrow> string \<Rightarrow> Manager \<Rightarrow> Manager" where
  "parkLocked ok index m =
     (if must_park index (m_history m)
      then saveLocked_jobs ok (m\<lparr>m_history := update_first (\<lambda>j. j_Index j = index) parked_job (m_history m)\<rparr>) else m)"

text \<open>\<open>load\<close>, on the jobs the file holds; sorting is stable.\<close>

definition load_jobs :: "bool \<Rightarrow> Job list option \<Rightarrow> Manager \<Rightarrow> Manager" where
  "load_jobs ok file m =
     (if \<not> m_path m then m
      else (case file of
          None \<Rightarrow> m
        | Some jobs \<Rightarrow>
            fold (parkLocked ok) (map fst (m_indexes m))
              (trimLocked (m\<lparr>m_history := sort_key (\<lambda>j. - j_StartedAt j) (map died_job jobs)\<rparr>))))"

text \<open>The manager of a new process, on the file the last one left.\<close>

definition NewManager :: "bool \<Rightarrow> bool \<Rightarrow> (string \<times> bool) list \<Rightarrow> Job list option \<Rightarrow> Manager" where
  "NewManager ok path indexes file =
     load_jobs ok file \<lparr>m_indexes = indexes, m_path = path, m_writer = False, m_heap = [], m_running = [], m_history = [], m_closed = False,
       m_finished = False, m_disk = file, m_told = []\<rparr>"

section \<open>Starting\<close>

text \<open>An index is known by its name and whether it writes the store; of two with one name the last counts.\<close>

definition Lookup_index :: "Manager \<Rightarrow> string \<Rightarrow> bool option" where
  "Lookup_index m name = map_of (rev (m_indexes m)) name"

definition Names :: "Manager \<Rightarrow> string list" where
  "Names m = map fst (m_indexes m)"

definition WritesStore :: "Manager \<Rightarrow> string \<Rightarrow> bool" where
  "WritesStore m index = (case Lookup_index m index of Some b \<Rightarrow> b | None \<Rightarrow> False)"

definition blank_job :: Job where
  "blank_job = \<lparr>j_ID = [], j_Index = [], j_Kind = KindCatchUp, j_Trigger = TriggerReconcile, j_Reason = [], j_State = StateRunning, j_Phase = [],
     j_Done = 0, j_Total = 0, j_Applied = 0, j_EntriesBefore = 0, j_EntriesAfter = 0, j_StartedAt = 0, j_FinishedAt = 0, j_DurationMs = 0,
     j_Error = [], j_Summary = [], j_Noop = False, j_Parked = False\<rparr>"

text \<open>The checks before the lock: the answer, if there is one.\<close>

definition Start_check :: "Manager \<Rightarrow> string \<Rightarrow> Kind \<Rightarrow> Trigger \<Rightarrow> IndexStatus \<Rightarrow> (Job \<times> job_error) option" where
  "Start_check m index kind trigger st =
     (if Lookup_index m index = None then Some (blank_job, ErrUnknownIndex)
      else if kind = KindDrop \<and> is_Enabled st then Some (blank_job, ErrEnabled index)
      else if kind \<noteq> KindDrop \<and> kind \<noteq> KindReap \<and> \<not> is_Enabled st then Some (blank_job, ErrUnavailable (is_Unavailable st))
      else if kind = KindDrop \<and> \<not> is_HasData st \<and> is_Retired st = 0
        then Some (blank_job\<lparr>j_Index := index, j_Kind := kind, j_Trigger := trigger, j_State := StateSucceeded, j_Noop := True,
               j_Summary := index @ '': nothing to drop''\<rparr>, ErrNothingToDo)
      else None)"

text \<open>One turn of the loop under the lock: an answer, a run to wait for, or a new job.\<close>

datatype start_out = Answer Job "job_error option" | AwaitDone nat | Started nat

definition cancel_run :: "cause \<Rightarrow> nat \<Rightarrow> Manager \<Rightarrow> Manager" where
  "cancel_run c a m = (let r = m_heap m ! a in
     m\<lparr>m_heap := (m_heap m)[a := r\<lparr>r_cause := (case r_cause r of None \<Rightarrow> Some c | Some c' \<Rightarrow> Some c')\<rparr>]\<rparr>)"

definition Start_turn ::
  "bool \<Rightarrow> string \<Rightarrow> gtime \<Rightarrow> string \<Rightarrow> Kind \<Rightarrow> Trigger \<Rightarrow> string \<Rightarrow> IndexStatus \<Rightarrow> Manager \<Rightarrow> Manager \<times> start_out" where
  "Start_turn ok newid now index kind trigger reason st m =
     (if m_closed m then (m, Answer blank_job (Some ErrShutdown))
      else (case map_of (m_running m) index of
          Some a \<Rightarrow>
            let cur = r_job (m_heap m ! a) in
            if j_Kind cur = kind
              then (m, Answer (cur\<lparr>j_Noop := True, j_Summary := index @ '': already running '' @ describe (j_Kind cur) @ '' (job '' @ j_ID cur @ '')''\<rparr>) None)
            else if trigger = TriggerAdmin \<and> j_Trigger cur = TriggerReconcile \<and> (kind = KindRebuild \<or> kind = KindDrop)
              then (cancel_run Superseded a m, AwaitDone a)
            else (m, Answer cur (Some ErrBusy))
        | None \<Rightarrow>
            let a = length (m_heap m);
                job = blank_job\<lparr>j_ID := newid, j_Index := index, j_Kind := kind, j_Trigger := trigger, j_Reason := reason, j_StartedAt := time_unix now,
                        j_EntriesBefore := is_Entries st, j_Summary := index @ '': '' @ describe kind @ '' started''\<rparr>;
                r = \<lparr>r_job = job, r_cause = None, r_stage = Fresh, r_writer = False, r_done = False\<rparr>
            in (saveLocked_jobs ok (m\<lparr>m_heap := m_heap m @ [r], m_running := (index, a) # m_running m\<rparr>), Started a)))"

text \<open>\<open>Start\<close> up to its first answer or its first wait; after the wait it takes another turn.\<close>

definition Start_first ::
  "bool \<Rightarrow> string \<Rightarrow> gtime \<Rightarrow> string \<Rightarrow> Kind \<Rightarrow> Trigger \<Rightarrow> string \<Rightarrow> IndexStatus \<Rightarrow> Manager \<Rightarrow> Manager \<times> start_out" where
  "Start_first ok newid now index kind trigger reason st m = (case Start_check m index kind trigger st of
     Some (j, e) \<Rightarrow> (m, Answer j (Some e))
   | None \<Rightarrow> Start_turn ok newid now index kind trigger reason st m)"

section \<open>One job\<close>

definition upd_run :: "nat \<Rightarrow> (run_rec \<Rightarrow> run_rec) \<Rightarrow> Manager \<Rightarrow> Manager" where
  "upd_run a f m = m\<lparr>m_heap := (m_heap m)[a := f (m_heap m ! a)]\<rparr>"

text \<open>The parts of \<open>execute\<close>: the look at the index, taking the writer or giving up on a cancelled context, progress, the end of
  the operation, the record, and what is deferred.\<close>

definition exec_begin :: "nat \<Rightarrow> Manager \<Rightarrow> Manager" where
  "exec_begin a m =
     (if WritesStore m (j_Index (r_job (m_heap m ! a)))
      then upd_run a (\<lambda>r. r\<lparr>r_job := (r_job r)\<lparr>j_Phase := ''waiting''\<rparr>, r_stage := WaitingWriter\<rparr>) m
      else upd_run a (\<lambda>r. r\<lparr>r_stage := Working\<rparr>) m)"

definition exec_acquire :: "nat \<Rightarrow> Manager \<Rightarrow> Manager" where
  "exec_acquire a m = upd_run a (\<lambda>r. r\<lparr>r_stage := Working, r_writer := True\<rparr>) (m\<lparr>m_writer := True\<rparr>)"

definition no_result :: Result where
  "no_result = \<lparr>res_Applied = 0, res_EntriesBefore = 0, res_EntriesAfter = 0\<rparr>"

definition tell :: "nat \<Rightarrow> cause option \<Rightarrow> Manager \<Rightarrow> Manager" where
  "tell a c m = (if c = Some Cancelled then m\<lparr>m_told := m_told m @ [(j_Index (r_job (m_heap m ! a)), j_Kind (r_job (m_heap m ! a)))]\<rparr> else m)"

definition exec_give_up :: "nat \<Rightarrow> cause \<Rightarrow> Manager \<Rightarrow> Manager" where
  "exec_give_up a c m = tell a (Some c) (upd_run a (\<lambda>r. r\<lparr>r_stage := Ending no_result (Some (OpFailed (cause_text c))) (Some c)\<rparr>) m)"

definition exec_progress :: "nat \<Rightarrow> Progress \<Rightarrow> Manager \<Rightarrow> Manager" where
  "exec_progress a p m =
     upd_run a (\<lambda>r. r\<lparr>r_job := (r_job r)\<lparr>j_Phase := p_Phase p, j_Done := p_Done p, j_Total := p_Total p, j_Applied := p_Applied p\<rparr>\<rparr>) m"

text \<open>The save of \<open>progress\<close>, more than five seconds after the last one, is a critical section of its own: \<open>saveLocked_jobs\<close>.\<close>

datatype outcome = Returned Result "op_error option" | Panicked string

definition perform :: "outcome \<Rightarrow> (Kind \<Rightarrow> outcome) \<Rightarrow> Kind \<Rightarrow> Result \<times> op_error option" where
  "perform drop_op run_op kind = (case if kind = KindDrop then drop_op else run_op kind of
     Returned res err \<Rightarrow> (res, err)
   | Panicked p \<Rightarrow> (no_result, Some (OpFailed (''panic: '' @ p))))"

definition exec_end :: "nat \<Rightarrow> outcome \<Rightarrow> (Kind \<Rightarrow> outcome) \<Rightarrow> Manager \<Rightarrow> Manager" where
  "exec_end a drop_op run_op m =
     (let c = r_cause (m_heap m ! a); (res, err) = perform drop_op run_op (j_Kind (r_job (m_heap m ! a)))
      in tell a c (upd_run a (\<lambda>r. r\<lparr>r_stage := Ending res err c\<rparr>) m))"

text \<open>The job as it is recorded.\<close>

definition final_state :: "op_error option \<Rightarrow> cause option \<Rightarrow> JobState \<times> string option" where
  "final_state err c = (case err of
     None \<Rightarrow> (StateSucceeded, None)
   | Some NothingToDo \<Rightarrow> (StateSucceeded, None)
   | Some (OpFailed e) \<Rightarrow> (case c of
        Some Superseded \<Rightarrow> (StateSuperseded, None)
      | Some Shutdown \<Rightarrow> (StateInterrupted, None)
      | Some Cancelled \<Rightarrow> (StateCancelled, None)
      | None \<Rightarrow> (StateFailed, Some e)))"

definition finish_job :: "Result \<Rightarrow> op_error option \<Rightarrow> cause option \<Rightarrow> int \<Rightarrow> int \<Rightarrow> Job \<Rightarrow> Job" where
  "finish_job res err c finishedAt ms j0 =
     (let j1 = j0\<lparr>j_FinishedAt := finishedAt, j_DurationMs := ms\<rparr>;
          j2 = (if res_EntriesBefore res \<noteq> 0 \<or> res_EntriesAfter res \<noteq> 0 \<or> err = None
                then j1\<lparr>j_EntriesBefore := res_EntriesBefore res, j_EntriesAfter := res_EntriesAfter res\<rparr> else j1);
          j3 = j2\<lparr>j_Applied := max (j_Applied j2) (res_Applied res)\<rparr>;
          j4 = (if j_State j3 = StateRunning \<and> err = None then j3\<lparr>j_Total := max (j_Total j3) (j_Done j3), j_Done := max (j_Total j3) (j_Done j3)\<rparr> else j3);
          (st, e) = final_state err c;
          j5 = j4\<lparr>j_Phase := [], j_State := st, j_Error := (case e of None \<Rightarrow> j_Error j4 | Some t \<Rightarrow> t)\<rparr>
      in j5\<lparr>j_Summary := (if err = Some NothingToDo then j_Index j5 @ '': nothing to do'' else summarize j5)\<rparr>)"

definition exec_record :: "bool \<Rightarrow> int \<Rightarrow> int \<Rightarrow> nat \<Rightarrow> Manager \<Rightarrow> Manager" where
  "exec_record ok finishedAt ms a m = (case r_stage (m_heap m ! a) of
     Ending res err c \<Rightarrow>
       let j = finish_job res err c finishedAt ms (r_job (m_heap m ! a)) in
       saveLocked_jobs ok (trimLocked ((upd_run a (\<lambda>r. r\<lparr>r_job := j, r_stage := Recorded\<rparr>) m)
         \<lparr>m_running := AList.delete (j_Index j) (m_running m), m_history := j # m_history m\<rparr>))
   | _ \<Rightarrow> m)"

definition exec_notify :: "nat \<Rightarrow> Manager \<Rightarrow> Manager" where
  "exec_notify a m = upd_run a (\<lambda>r. r\<lparr>r_stage := Notified\<rparr>) (m\<lparr>m_finished := True\<rparr>)"

definition exec_release :: "nat \<Rightarrow> Manager \<Rightarrow> Manager" where
  "exec_release a m =
     (let r = m_heap m ! a in
      upd_run a (\<lambda>r. r\<lparr>r_writer := False, r_done := True\<rparr>) (m\<lparr>m_writer := (if r_writer r then False else m_writer m)\<rparr>))"

section \<open>Asking\<close>

definition find_running :: "Manager \<Rightarrow> string \<Rightarrow> nat option" where
  "find_running m i = map_option snd (find (\<lambda>(_, a). j_ID (r_job (m_heap m ! a)) = i) (m_running m))"

definition Get_job :: "Manager \<Rightarrow> string \<Rightarrow> Job option" where
  "Get_job m i = (case find_running m i of
     Some a \<Rightarrow> Some (r_job (m_heap m ! a))
   | None \<Rightarrow> find (\<lambda>j. j_ID j = i) (m_history m))"

definition List_jobs :: "Manager \<Rightarrow> string \<Rightarrow> Job list" where
  "List_jobs m index =
     (let mine = filter (\<lambda>j. index = [] \<or> j_Index j = index) in
      sort_key (\<lambda>j. - j_StartedAt j) (mine (running_jobs m)) @ mine (m_history m))"

definition RunningJob :: "Manager \<Rightarrow> string \<Rightarrow> Job option" where
  "RunningJob m index = map_option (\<lambda>a. r_job (m_heap m ! a)) (map_of (m_running m) index)"

definition LastJob :: "Manager \<Rightarrow> string \<Rightarrow> Job option" where
  "LastJob m index = find (\<lambda>j. j_Index j = index) (m_history m)"

definition Parked :: "Manager \<Rightarrow> string \<Rightarrow> string" where
  "Parked m index = (case LastJob m index of Some j \<Rightarrow> if j_Parked j then j_Error j else [] | None \<Rightarrow> [])"

definition LastShown :: "Manager \<Rightarrow> string \<Rightarrow> Job option" where
  "LastShown m index = (case find (\<lambda>j. j_Index j = index \<and> j_Kind j \<noteq> KindReap) (m_history m) of
     Some j \<Rightarrow> Some j
   | None \<Rightarrow> LastJob m index)"

definition Cancel_job :: "Manager \<Rightarrow> string \<Rightarrow> Manager \<times> (job_error option \<times> Job)" where
  "Cancel_job m i = (case find_running m i of
     None \<Rightarrow> (case Get_job m i of
        None \<Rightarrow> (m, Some ErrNotFound, blank_job)
      | Some j \<Rightarrow> (m, None, j\<lparr>j_Noop := True, j_Summary := ''job '' @ j_ID j @ '' already '' @ state_text (j_State j) @ ''; nothing to cancel''\<rparr>))
   | Some a \<Rightarrow>
       let j = r_job (m_heap m ! a) in
       if j_Kind j = KindCatchUp \<and> \<not> WritesStore m (j_Index j) then (m, Some ErrNotCancellable, j)
       else let m' = upd_run a (\<lambda>r. r\<lparr>r_job := (r_job r)\<lparr>j_Phase := ''cancelling''\<rparr>\<rparr>) (cancel_run Cancelled a m)
         in (m', None, r_job (m_heap m' ! a)))"

definition Shutdown_jobs :: "Manager \<Rightarrow> Manager" where
  "Shutdown_jobs m = fold (\<lambda>(_, a). cancel_run Shutdown a) (m_running m) (m\<lparr>m_closed := True\<rparr>)"

end
