(* ===== verification/Relay_Reconciler.thy ===== *)
theory Relay_Reconciler
  imports Relay_Jobs
begin

text \<open>
  What drives the jobs of \<open>Relay_Jobs\<close>: the reconciler that starts what each idle index needs (\<open>cli/relay/jobs/reconciler.go\<close>),
  the watch on the search queue (\<open>search_queue.go\<close>) and the admin routes (\<open>routes.go\<close>). A pass of the reconciler reads the manager several
  times without holding its lock, so each read is given the manager as it was at that moment.
\<close>

section \<open>The reconciler\<close>

definition reconcileBackoff :: "duration list" where
  "reconcileBackoff = [minute, 5 * minute, 15 * minute]"

text \<open>Absent entries of its maps are the zero values: no failures, the zero time, no id.\<close>

record Reconciler =
  rc_failures :: "string \<Rightarrow> nat"
  rc_retryAt :: "string \<Rightarrow> gtime option"
  rc_failed :: "string \<Rightarrow> string"

definition Reconcile :: Reconciler where
  "Reconcile = \<lparr>rc_failures = (\<lambda>_. 0), rc_retryAt = (\<lambda>_. None), rc_failed = (\<lambda>_. [])\<rparr>"

definition note_counts :: "Job \<Rightarrow> string \<Rightarrow> Reconciler \<Rightarrow> bool" where
  "note_counts last_job name r \<longleftrightarrow>
     j_Trigger last_job = TriggerReconcile \<and> j_State last_job = StateFailed \<and> \<not> j_Parked last_job \<and> rc_failed r name \<noteq> j_ID last_job"

definition backoff :: "nat \<Rightarrow> duration" where
  "backoff n = reconcileBackoff ! min n (length reconcileBackoff - 1)"

definition note_job :: "gtime \<Rightarrow> Manager \<Rightarrow> string \<Rightarrow> Reconciler \<Rightarrow> Reconciler" where
  "note_job now m name r = (case LastJob m name of
     None \<Rightarrow> r
   | Some j \<Rightarrow>
       if note_counts j name r
       then r\<lparr>rc_failed := (rc_failed r)(name := j_ID j), rc_failures := (rc_failures r)(name := rc_failures r name + 1),
           rc_retryAt := (rc_retryAt r)(name := Some (now + backoff (rc_failures r name)))\<rparr>
       else r)"

definition waits :: "gtime \<Rightarrow> string \<Rightarrow> Reconciler \<Rightarrow> bool" where
  "waits now name r = (case rc_retryAt r name of None \<Rightarrow> False | Some t \<Rightarrow> now < t)"

definition RetryAt :: "gtime \<Rightarrow> string \<Rightarrow> Reconciler \<Rightarrow> gtime option" where
  "RetryAt now name r = (if waits now name r then rc_retryAt r name else None)"

text \<open>What a pass sees of one index: the manager when it notes failures, when it asks for the running job and when it asks whether the
  index is parked, the clock at the note and at the look at the backoff, and the status.\<close>

record sight =
  s_note :: Manager
  s_noted :: gtime
  s_running :: Manager
  s_parked :: Manager
  s_status :: IndexStatus
  s_now :: gtime

record pass_state =
  ps_rec :: Reconciler
  ps_storeBusy :: bool
  ps_todo :: "(string \<times> IndexStatus) list"

definition pass_look :: "string \<times> sight \<Rightarrow> pass_state \<Rightarrow> pass_state" where
  "pass_look = (\<lambda>(name, s) p.
     let r = note_job (s_noted s) (s_note s) name (ps_rec p); p1 = p\<lparr>ps_rec := r\<rparr>; writes = WritesStore (s_running s) name in
     case RunningJob (s_running s) name of
       Some j \<Rightarrow> p1\<lparr>ps_storeBusy := ps_storeBusy p \<or> writes \<and> j_Kind j \<noteq> KindReap\<rparr>
     | None \<Rightarrow>
         if Parked (s_parked s) name \<noteq> [] then p1
         else (case is_Action (s_status s) of
             None \<Rightarrow> p1\<lparr>ps_rec := r\<lparr>rc_failures := (rc_failures r)(name := 0)\<rparr>\<rparr>
           | Some k \<Rightarrow>
               if waits (s_now s) name r then p1
               else p1\<lparr>ps_storeBusy := ps_storeBusy p \<or> writes \<and> k \<noteq> KindReap, ps_todo := ps_todo p @ [(name, s_status s)]\<rparr>))"

text \<open>The starts of a pass, in order; each is a \<open>Start\<close> with the trigger \<open>TriggerReconcile\<close>.\<close>

definition pass_held :: "bool \<Rightarrow> bool \<Rightarrow> Kind \<Rightarrow> bool" where
  "pass_held storeBusy writes k \<longleftrightarrow> storeBusy \<and> \<not> writes \<and> (k = KindRebuild \<or> k = KindRescore)"

definition pass :: "Manager \<Rightarrow> (string \<times> sight) list \<Rightarrow> Reconciler \<Rightarrow> Reconciler \<times> (string \<times> Kind \<times> string) list" where
  "pass m sights r =
     (let p = fold pass_look sights \<lparr>ps_rec = r, ps_storeBusy = False, ps_todo = []\<rparr> in
      (ps_rec p,
       concat (map (\<lambda>(name, st). case is_Action st of
           None \<Rightarrow> []
         | Some k \<Rightarrow> if pass_held (ps_storeBusy p) (WritesStore m name) k then [] else [(name, k, is_Reason st)]) (ps_todo p))))"

section \<open>The search queue\<close>

abbreviation queueWindow :: duration where "queueWindow \<equiv> 30 * minute"

record queueSample =
  qs_at :: gtime
  qs_queued :: int
  qs_applied :: int

text \<open>The cut loop drops the oldest sample while the one after it is a window old.\<close>

fun cut_samples :: "gtime \<Rightarrow> queueSample list \<Rightarrow> queueSample list" where
  "cut_samples now (a # b # xs) = (if now - qs_at b \<ge> queueWindow then cut_samples now (b # xs) else a # b # xs)"
| "cut_samples now xs = xs"

definition queue_add :: "queueSample \<Rightarrow> queueSample list \<Rightarrow> queueSample list" where
  "queue_add s w =
     (if w \<noteq> [] \<and> qs_applied s < qs_applied (last w) then cut_samples (qs_at s) [s]
      else if w \<noteq> [] \<and> qs_at s - qs_at (last w) < minute then w
      else cut_samples (qs_at s) (w @ [s]))"

definition queue_warns :: "queueSample list \<Rightarrow> bool" where
  "queue_warns w \<longleftrightarrow> length w \<ge> 2 \<and> qs_at (last w) - qs_at (hd w) \<ge> queueWindow \<and> qs_queued (last w) > qs_queued (hd w)
     \<and> (\<forall>s \<in> set (tl w). qs_queued s \<ge> qs_queued (hd w))"

definition queue_warning :: "queueSample list \<Rightarrow> string" where
  "queue_warning w = (if queue_warns w then
     ''search is falling behind: '' @ Count (qs_queued (last w) - qs_queued (hd w) + qs_applied (last w) - qs_applied (hd w))
     @ '' profiles joined the queue in the last 30m0s while '' @ Count (qs_applied (last w) - qs_applied (hd w)) @ '' were applied'' else [])"

section \<open>The listing and the plan\<close>

record IndexInfo =
  ii_Status :: IndexStatus
  ii_State :: string
  ii_Running :: "Job option"
  ii_Last :: "Job option"
  ii_RetryAt :: int
  ii_Parked :: string

definition shown_state :: "string \<Rightarrow> Job option \<Rightarrow> string" where
  "shown_state state running = (case running of
     None \<Rightarrow> state
   | Some j \<Rightarrow> (case j_Kind j of KindRebuild \<Rightarrow> ''building'' | KindCatchUp \<Rightarrow> ''catching_up'' | KindRescore \<Rightarrow> ''rescoring'' | KindDrop \<Rightarrow> ''dropping''
       | KindReap \<Rightarrow> state))"

definition index_info :: "gtime \<Rightarrow> Reconciler option \<Rightarrow> (string \<Rightarrow> IndexStatus) \<Rightarrow> Manager \<Rightarrow> string \<Rightarrow> IndexInfo" where
  "index_info now rec status m name =
     \<lparr>ii_Status = status name, ii_State = shown_state (is_State (status name)) (RunningJob m name), ii_Running = RunningJob m name,
      ii_Last = LastShown m name,
      ii_RetryAt = (case rec of
          None \<Rightarrow> 0
        | Some r \<Rightarrow> if Parked m name = [] then (case RetryAt now name r of None \<Rightarrow> 0 | Some t \<Rightarrow> time_unix t) else 0),
      ii_Parked = Parked m name\<rparr>"

definition Indexes :: "gtime \<Rightarrow> Reconciler option \<Rightarrow> (string \<Rightarrow> IndexStatus) \<Rightarrow> Manager \<Rightarrow> IndexInfo list" where
  "Indexes now rec status m = map (index_info now rec status m) (Names m)"

record Plan =
  pl_Index :: string
  pl_Kind :: Kind
  pl_State :: string
  pl_Reason :: string
  pl_Entries :: int
  pl_Scan :: int
  pl_Effect :: string

definition Plan_job :: "Manager \<Rightarrow> IndexStatus \<Rightarrow> string \<Rightarrow> Kind \<Rightarrow> job_error + Plan" where
  "Plan_job m st index kind = (case Lookup_index m index of
     None \<Rightarrow> Inl ErrUnknownIndex
   | Some writes \<Rightarrow>
       let p = \<lparr>pl_Index = index, pl_Kind = kind, pl_State = is_State st, pl_Reason = is_Reason st, pl_Entries = is_Entries st, pl_Scan = is_Head st,
                pl_Effect = []\<rparr> in
       if kind = KindDrop \<and> is_Enabled st then Inl (ErrEnabled index)
       else if kind = KindRebuild \<and> \<not> is_Enabled st then Inl (ErrUnavailable (is_Unavailable st))
       else if kind = KindDrop then Inr (p\<lparr>pl_Scan := 0, pl_Effect := ''removes the '' @ Count (is_Entries st)
              @ '' entries it holds; it is rebuilt from the stored events if turned on again''\<rparr>)
       else if \<not> writes then Inr (p\<lparr>pl_Effect := ''builds a new index beside the live one, which keeps answering, then swaps it in''\<rparr>)
       else Inr (p\<lparr>pl_Effect := ''builds a new index beside the live one, which keeps answering, then swaps it in; writes are never held up''\<rparr>))"

section \<open>The routes\<close>

definition job_error_text :: "job_error \<Rightarrow> string" where
  "job_error_text e = (case e of
     ErrUnknownIndex \<Rightarrow> ''unknown index''
   | ErrUnavailable why \<Rightarrow> ''index unavailable: '' @ why
   | ErrEnabled index \<Rightarrow> ''index in use: the '' @ index @ '' index is on; rebuild it instead (ncli relay index rebuild '' @ index @ '')''
   | ErrBusy \<Rightarrow> ''another job is running on this index''
   | ErrNotFound \<Rightarrow> ''no such job''
   | ErrNotCancellable \<Rightarrow> ''job can't be cancelled: search catches up as part of live indexing; turn search off to stop it''
   | ErrNothingToDo \<Rightarrow> ''nothing to do''
   | ErrShutdown \<Rightarrow> ''relay stopping'')"

text \<open>A reply is its status and its body; an error names the job when there is one with an id.\<close>

datatype job_reply = ReplyJob int Job | ReplyPlan Plan | ReplyJobs "Job list" | ReplyError int string "Job option"

definition writeError_job :: "int \<Rightarrow> string \<Rightarrow> Job option \<Rightarrow> job_reply" where
  "writeError_job status msg j = ReplyError status msg (case j of Some x \<Rightarrow> if j_ID x \<noteq> [] then Some x else None | None \<Rightarrow> None)"

definition writeStartError :: "job_error \<Rightarrow> Job option \<Rightarrow> job_reply" where
  "writeStartError e j = (case e of
     ErrUnknownIndex \<Rightarrow> writeError_job 404 (job_error_text e) None
   | ErrUnavailable _ \<Rightarrow> writeError_job 501 (job_error_text e) None
   | ErrEnabled _ \<Rightarrow> writeError_job 400 (job_error_text e) None
   | ErrBusy \<Rightarrow> writeError_job 409 (job_error_text e) j
   | _ \<Rightarrow> writeError_job 500 (job_error_text e) None)"

datatype action_body = EmptyBody | BadBody string | Body bool bool

text \<open>What the handler of a rebuild or a drop answers once \<open>Start\<close> has.\<close>

definition action_reply :: "Job \<Rightarrow> job_error option \<Rightarrow> job_reply" where
  "action_reply j err = (case err of
     Some ErrNothingToDo \<Rightarrow> ReplyJob 200 j
   | Some e \<Rightarrow> writeStartError e (Some j)
   | None \<Rightarrow> ReplyJob (if j_Noop j then 200 else 202) j)"

text \<open>The handler up to the first answer or wait of \<open>Start\<close>; no reply yet is \<open>None\<close>.\<close>

definition action_route ::
  "Kind \<Rightarrow> action_body \<Rightarrow> string \<Rightarrow> bool \<Rightarrow> string \<Rightarrow> gtime \<Rightarrow> IndexStatus \<Rightarrow> Manager \<Rightarrow> Manager \<times> job_reply option" where
  "action_route kind body name ok newid now st m =
     (case body of
        BadBody e \<Rightarrow> (m, Some (writeError_job 400 (''invalid request body: '' @ e) None))
      | _ \<Rightarrow>
        if (case body of Body _ fresh \<Rightarrow> fresh | _ \<Rightarrow> False)
          then (m, Some (writeError_job 400 ''fresh was removed: a rebuild always builds a new index and swaps it in'' None))
        else if (case body of Body dry _ \<Rightarrow> dry | _ \<Rightarrow> False)
          then (m, Some (case Plan_job m st name kind of Inl e \<Rightarrow> writeStartError e None | Inr p \<Rightarrow> ReplyPlan p))
        else (case Start_first ok newid now name kind TriggerAdmin [] st m of
            (m', Answer j err) \<Rightarrow> (m', Some (action_reply j err))
          | (m', Started a) \<Rightarrow> (m', Some (action_reply (r_job (m_heap m' ! a)) None))
          | (m', AwaitDone a) \<Rightarrow> (m', None)))"

definition jobs_route :: "string \<Rightarrow> Manager \<Rightarrow> job_reply" where
  "jobs_route index m =
     (if index \<noteq> [] \<and> Lookup_index m index = None then writeError_job 404 (job_error_text ErrUnknownIndex) None
      else ReplyJobs (List_jobs m index))"

definition job_route :: "string \<Rightarrow> Manager \<Rightarrow> job_reply" where
  "job_route i m = (case Get_job m i of
     None \<Rightarrow> writeError_job 404 (job_error_text ErrNotFound) None
   | Some j \<Rightarrow> ReplyJob 200 j)"

definition cancel_route :: "string \<Rightarrow> Manager \<Rightarrow> Manager \<times> job_reply" where
  "cancel_route i m = (case Cancel_job m i of
     (m', err, j) \<Rightarrow> (m', (case err of
        Some ErrNotFound \<Rightarrow> writeError_job 404 (job_error_text ErrNotFound) None
      | Some ErrNotCancellable \<Rightarrow> writeError_job 422 (job_error_text ErrNotCancellable) (Some j)
      | Some e \<Rightarrow> writeError_job 500 (job_error_text e) None
      | None \<Rightarrow> ReplyJob (if j_Noop j then 200 else 202) j)))"

end
