(* ===== verification/Relay_Jobs_Safe.thy ===== *)
theory Relay_Jobs_Safe
  imports Relay_Jobs
begin

text \<open>
  The manager under every interleaving. A step is one critical section of one goroutine; the clock never goes back. The invariant: one run
  per index, the store's writer held by one run that gives it back, ended jobs in the history, newest first per index and at most
  \<open>keptJobs\<close> of each; and what the file holds of them, so that a restart accounts for every job.
\<close>

section \<open>Steps\<close>

text \<open>\<open>W\<close> says that every save succeeds.\<close>

inductive job_step :: "bool \<Rightarrow> Manager \<times> gtime \<Rightarrow> Manager \<times> gtime \<Rightarrow> bool" for W :: bool where
  tick: "clock_ok t \<Longrightarrow> clock_ok t' \<Longrightarrow> t \<le> t' \<Longrightarrow> job_step W (m, t) (m, t')"
| start: "W \<longrightarrow> ok \<Longrightarrow> job_step W (m, t) (fst (Start_first ok newid t index kind trigger reason st m), t)"
| again: "W \<longrightarrow> ok \<Longrightarrow> Start_check m index kind trigger st = None \<Longrightarrow> a < length (m_heap m) \<Longrightarrow> r_done (m_heap m ! a)
    \<Longrightarrow> job_step W (m, t) (fst (Start_turn ok newid t index kind trigger reason st m), t)"
| begin_run: "a < length (m_heap m) \<Longrightarrow> r_stage (m_heap m ! a) = Fresh \<Longrightarrow> job_step W (m, t) (exec_begin a m, t)"
| acquire: "a < length (m_heap m) \<Longrightarrow> r_stage (m_heap m ! a) = WaitingWriter \<Longrightarrow> \<not> m_writer m \<Longrightarrow> job_step W (m, t) (exec_acquire a m, t)"
| give_up: "a < length (m_heap m) \<Longrightarrow> r_stage (m_heap m ! a) = WaitingWriter \<Longrightarrow> r_cause (m_heap m ! a) = Some c
    \<Longrightarrow> job_step W (m, t) (exec_give_up a c m, t)"
| progress: "a < length (m_heap m) \<Longrightarrow> r_stage (m_heap m ! a) = Working \<Longrightarrow> job_step W (m, t) (exec_progress a p m, t)"
| save: "a < length (m_heap m) \<Longrightarrow> r_stage (m_heap m ! a) = Working \<Longrightarrow> W \<longrightarrow> ok \<Longrightarrow> job_step W (m, t) (saveLocked_jobs ok m, t)"
| end_run: "a < length (m_heap m) \<Longrightarrow> r_stage (m_heap m ! a) = Working \<Longrightarrow> job_step W (m, t) (exec_end a drop_op run_op m, t)"
| record_run: "a < length (m_heap m) \<Longrightarrow> r_stage (m_heap m ! a) = Ending res err c \<Longrightarrow> W \<longrightarrow> ok
    \<Longrightarrow> job_step W (m, t) (exec_record ok (time_unix t) ms a m, t)"
| notify: "a < length (m_heap m) \<Longrightarrow> r_stage (m_heap m ! a) = Recorded \<Longrightarrow> job_step W (m, t) (exec_notify a m, t)"
| release: "a < length (m_heap m) \<Longrightarrow> r_stage (m_heap m ! a) = Notified \<Longrightarrow> \<not> r_done (m_heap m ! a) \<Longrightarrow> job_step W (m, t) (exec_release a m, t)"
| cancel: "job_step W (m, t) (fst (Cancel_job m i), t)"
| shutdown: "job_step W (m, t) (Shutdown_jobs m, t)"

text \<open>A process begins on the file the last one left, whose jobs started before.\<close>

inductive job_reach :: "bool \<Rightarrow> Manager \<times> gtime \<Rightarrow> bool" for W :: bool where
  fresh: "\<forall>j \<in> set (case disk of None \<Rightarrow> [] | Some js \<Rightarrow> js). j_StartedAt j \<le> time_unix t \<Longrightarrow> W \<longrightarrow> ok
    \<Longrightarrow> job_reach W (NewManager ok path indexes disk, t)"
| step: "job_reach W s \<Longrightarrow> job_step W s s' \<Longrightarrow> job_reach W s'"

section \<open>The history\<close>

abbreviation of_index :: "string \<Rightarrow> Job list \<Rightarrow> Job list" where
  "of_index i \<equiv> filter (\<lambda>j. j_Index j = i)"

lemma trim_jobs_of_index: "of_index i (trim_jobs per js) = take (keptJobs - per i) (of_index i js)"
  by (induction js arbitrary: per) (auto simp: take_Cons' Suc_diff_Suc)

lemma set_trim_jobs: "set (trim_jobs per js) \<subseteq> set js"
  by (induction js arbitrary: per) (simp, simp add: subset_insertI2)

lemma length_trim_jobs: "length (of_index i (trim_jobs (\<lambda>_. 0) js)) \<le> keptJobs"
  by (simp add: trim_jobs_of_index)

text \<open>Of one index, newest first.\<close>

abbreviation newest_first :: "Job list \<Rightarrow> bool" where
  "newest_first js \<equiv> sorted (map (\<lambda>j. - j_StartedAt j) js)"

lemma newest_first_take: "newest_first js \<Longrightarrow> newest_first (take n js)"
  by (metis take_map sorted_wrt_take)

lemma of_index_sort: "of_index i (sort_key (\<lambda>j. - j_StartedAt j) js) = sort_key (\<lambda>j. - j_StartedAt j) (of_index i js)"
  by (rule filter_sort)

lemma died_job_id [simp]: "j_ID (died_job j) = j_ID j" "j_Index (died_job j) = j_Index j" "j_Kind (died_job j) = j_Kind j"
    "j_Trigger (died_job j) = j_Trigger j" "j_StartedAt (died_job j) = j_StartedAt j"
  by (simp_all add: died_job_def Let_def)

lemma parked_job_id [simp]: "j_ID (parked_job j) = j_ID j" "j_Index (parked_job j) = j_Index j" "j_Kind (parked_job j) = j_Kind j"
    "j_Trigger (parked_job j) = j_Trigger j" "j_StartedAt (parked_job j) = j_StartedAt j"
  by (simp_all add: parked_job_def Let_def)

lemma Ended_died_job [simp]: "Ended (died_job j)"
  by (simp add: Ended_def died_job_def Let_def)

lemma Ended_parked_job [simp]: "Ended (parked_job j)"
  by (simp add: Ended_def parked_job_def Let_def)

lemma of_index_update_first:
  "of_index i (update_first (\<lambda>j. j_Index j = k) parked_job js) =
     (if i = k then (case of_index i js of [] \<Rightarrow> [] | j # rest \<Rightarrow> parked_job j # rest) else of_index i js)"
  by (induction js) auto

lemma map_update_first: "(\<And>j. f (parked_job j) = f j) \<Longrightarrow> map f (update_first P parked_job js) = map f js"
  by (induction js) auto

lemma set_update_first: "j \<in> set (update_first P parked_job js) \<Longrightarrow> j \<in> set js \<or> (\<exists>k \<in> set js. j = parked_job k)"
  by (induction js) (auto split: if_splits)

section \<open>The invariant\<close>

definition history_ok :: "gtime \<Rightarrow> Job list \<Rightarrow> bool" where
  "history_ok t js \<longleftrightarrow> (\<forall>j \<in> set js. Ended j \<and> j_StartedAt j \<le> time_unix t)
     \<and> (\<forall>i. newest_first (of_index i js) \<and> length (of_index i js) \<le> keptJobs)"

definition past_record :: "run_rec \<Rightarrow> bool" where
  "past_record r \<longleftrightarrow> r_stage r = Recorded \<or> r_stage r = Notified"

text \<open>Each run, by its place in the heap: it is in the running map until its record, has the writer between acquiring and releasing it,
  and works on the store only with the writer.\<close>

definition run_ok :: "Manager \<Rightarrow> nat \<Rightarrow> bool" where
  "run_ok m a \<longleftrightarrow> (let r = m_heap m ! a in
     (past_record r \<or> (map_of (m_running m) (j_Index (r_job r)) = Some a \<and> j_State (r_job r) = StateRunning \<and> \<not> r_done r))
     \<and> (r_writer r \<longrightarrow> r_stage r \<noteq> Fresh \<and> r_stage r \<noteq> WaitingWriter \<and> \<not> r_done r \<and> m_writer m)
     \<and> (r_done r \<longrightarrow> r_stage r = Notified)
     \<and> (r_stage r = Working \<and> WritesStore m (j_Index (r_job r)) \<longrightarrow> r_writer r))"

definition writers :: "Manager \<Rightarrow> nat set" where
  "writers m = {a. a < length (m_heap m) \<and> r_writer (m_heap m ! a)}"

definition entry_ok :: "gtime \<Rightarrow> Manager \<Rightarrow> string \<times> nat \<Rightarrow> bool" where
  "entry_ok t m = (\<lambda>(i, a). a < length (m_heap m) \<and> (let r = m_heap m ! a in
     \<not> past_record r \<and> j_Index (r_job r) = i \<and> j_StartedAt (r_job r) \<le> time_unix t
     \<and> (\<forall>j \<in> set (of_index i (m_history m)). j_StartedAt j \<le> j_StartedAt (r_job r))))"

definition jobs_inv :: "Manager \<times> gtime \<Rightarrow> bool" where
  "jobs_inv = (\<lambda>(m, t). distinct (map fst (m_running m)) \<and> list_all (entry_ok t m) (m_running m) \<and> (\<forall>a < length (m_heap m). run_ok m a)
     \<and> (m_writer m \<longrightarrow> writers m \<noteq> {}) \<and> (\<forall>a \<in> writers m. \<forall>b \<in> writers m. a = b) \<and> history_ok t (m_history m))"

lemma jobs_invD:
  assumes "jobs_inv (m, t)"
  shows jobs_inv_distinct: "distinct (map fst (m_running m))"
    and jobs_inv_entry: "\<And>i a. (i, a) \<in> set (m_running m) \<Longrightarrow> entry_ok t m (i, a)"
    and jobs_inv_run: "\<And>a. a < length (m_heap m) \<Longrightarrow> run_ok m a"
    and jobs_inv_writer: "m_writer m \<Longrightarrow> writers m \<noteq> {}"
    and jobs_inv_one_writer: "\<And>a b. a \<in> writers m \<Longrightarrow> b \<in> writers m \<Longrightarrow> a = b"
    and jobs_inv_history: "history_ok t (m_history m)"
  using assms by (auto simp: jobs_inv_def list_all_iff)

text \<open>A change of one run that keeps its place in the running map.\<close>

lemma jobs_inv_upd:
  assumes inv: "jobs_inv (m, t)" and a: "a < length (m_heap m)"
    and same: "m_running m' = m_running m" "m_history m' = m_history m" "m_indexes m' = m_indexes m"
    and heap: "m_heap m' = (m_heap m)[a := r']"
    and job: "j_Index (r_job r') = j_Index (r_job (m_heap m ! a))" "j_StartedAt (r_job r') = j_StartedAt (r_job (m_heap m ! a))"
      "j_State (r_job r') = j_State (r_job (m_heap m ! a))"
    and past: "past_record r' \<longleftrightarrow> past_record (m_heap m ! a)"
    and finished: "r_done r' \<Longrightarrow> r_stage r' = Notified"
    and holds: "r_writer r' \<Longrightarrow> r_stage r' \<noteq> Fresh \<and> r_stage r' \<noteq> WaitingWriter \<and> \<not> r_done r'"
    and works: "r_stage r' = Working \<Longrightarrow> WritesStore m (j_Index (r_job r')) \<Longrightarrow> r_writer r'"
    and takes: "r_writer r' \<Longrightarrow> \<not> r_writer (m_heap m ! a) \<Longrightarrow> \<not> m_writer m"
    and writer: "m_writer m' = (if r_writer r' = r_writer (m_heap m ! a) then m_writer m else r_writer r')"
  shows "jobs_inv (m', t)"
proof -
  have store: "WritesStore m' = WritesStore m"
    by (simp add: fun_eq_iff WritesStore_def Lookup_index_def same)
  have ra: "run_ok m a"
    using inv a by (rule jobs_inv_run)
  have held: "m_writer m" if "b \<in> writers m" for b
    using jobs_inv_run [OF inv, of b] that by (simp add: writers_def run_ok_def Let_def)
  have none: "writers m = {}" if "\<not> m_writer m"
    using held that by blast
  have writers': "writers m' = (if r_writer r' then insert a (writers m) else writers m - {a})"
    using a by (auto simp: writers_def heap nth_list_update)
  have w1: "a = b" if "b \<in> writers m" "r_writer r'" for b
    using takes held [OF that(1)] that jobs_inv_one_writer [OF inv, of a b] a by (cases "a \<in> writers m") (auto simp: writers_def)
  have e: "entry_ok t m' e" if "e \<in> set (m_running m)" for e
    using jobs_inv_entry [OF inv, of "fst e" "snd e"] that job past a
    by (cases e) (auto simp: entry_ok_def Let_def heap nth_list_update same)
  have r: "run_ok m' b" if b: "b < length (m_heap m')" for b
  proof (cases "b = a")
    case True
    show ?thesis
      using ra past job finished holds works takes writer a True
      by (auto simp: run_ok_def Let_def heap same store past_record_def)
  next
    case False
    have "run_ok m b"
      using jobs_inv_run [OF inv] b by (simp add: heap)
    moreover have "m_writer m'" if "r_writer (m_heap m ! b)"
    proof -
      have "b \<in> writers m"
        using that b by (simp add: writers_def heap)
      then show ?thesis
        using held [OF \<open>b \<in> writers m\<close>] w1 [of b] jobs_inv_one_writer [OF inv, of a b] a False
        by (auto simp: writer writers_def)
    qed
    ultimately show ?thesis
      using False by (auto simp: run_ok_def Let_def heap same store)
  qed
  have one: "b = c" if "b \<in> writers m'" "c \<in> writers m'" for b c
    using that w1 jobs_inv_one_writer [OF inv] by (auto simp: writers' split: if_splits)
  have some: "writers m' \<noteq> {}" if "m_writer m'"
  proof (cases "r_writer r'")
    case False
    then have "a \<notin> writers m" and "m_writer m"
      using that writer by (auto simp: writers_def split: if_splits)
    then show ?thesis
      using jobs_inv_writer [OF inv] False by (auto simp: writers')
  qed (simp add: writers')
  show ?thesis
    using jobs_inv_distinct [OF inv] jobs_inv_history [OF inv] e r one some
    by (auto simp: jobs_inv_def list_all_iff same)
qed

text \<open>The invariant does not read the file, the closed flag, the signal or what the indexes were told.\<close>

lemma jobs_inv_frame:
  assumes "m_heap m' = m_heap m" "m_running m' = m_running m" "m_history m' = m_history m" "m_indexes m' = m_indexes m" "m_writer m' = m_writer m"
  shows "jobs_inv (m', t) = jobs_inv (m, t)"
proof -
  have "WritesStore m' = WritesStore m" and "entry_ok t m' = entry_ok t m" and "writers m' = writers m"
    by (auto simp: fun_eq_iff WritesStore_def Lookup_index_def entry_ok_def writers_def assms)
  then have "run_ok m' = run_ok m"
    by (auto simp: fun_eq_iff run_ok_def assms)
  with \<open>entry_ok t m' = entry_ok t m\<close> \<open>writers m' = writers m\<close> show ?thesis
    by (simp add: jobs_inv_def assms)
qed

lemma saveLocked_jobs_fields [simp]:
  "m_heap (saveLocked_jobs ok m) = m_heap m" "m_running (saveLocked_jobs ok m) = m_running m" "m_history (saveLocked_jobs ok m) = m_history m"
  "m_indexes (saveLocked_jobs ok m) = m_indexes m" "m_writer (saveLocked_jobs ok m) = m_writer m" "m_path (saveLocked_jobs ok m) = m_path m"
  by (simp_all add: saveLocked_jobs_def)

lemma jobs_inv_save [simp]: "jobs_inv (saveLocked_jobs ok m, t) = jobs_inv (m, t)"
  by (rule jobs_inv_frame) simp_all

lemma jobs_inv_tell [simp]: "jobs_inv (tell a c m, t) = jobs_inv (m, t)"
  by (rule jobs_inv_frame) (simp_all add: tell_def)

text \<open>The form the steps have: a run becomes \<open>f\<close> of what it was.\<close>

lemma jobs_inv_upd_run:
  assumes inv: "jobs_inv (m, t)" and a: "a < length (m_heap m)"
    and same: "m_running m' = m_running m" "m_history m' = m_history m" "m_indexes m' = m_indexes m" "m_heap m' = m_heap m"
    and job: "let j = r_job (m_heap m ! a); j' = r_job (f (m_heap m ! a)) in
      j_Index j' = j_Index j \<and> j_StartedAt j' = j_StartedAt j \<and> j_State j' = j_State j"
    and run: "let r = m_heap m ! a; r' = f r in (past_record r' \<longleftrightarrow> past_record r) \<and> (r_done r' \<longrightarrow> r_stage r' = Notified)
      \<and> (r_writer r' \<longrightarrow> r_stage r' \<noteq> Fresh \<and> r_stage r' \<noteq> WaitingWriter \<and> \<not> r_done r')
      \<and> (r_stage r' = Working \<and> WritesStore m (j_Index (r_job r')) \<longrightarrow> r_writer r')
      \<and> (r_writer r' \<and> \<not> r_writer r \<longrightarrow> \<not> m_writer m)
      \<and> m_writer m' = (if r_writer r' = r_writer r then m_writer m else r_writer r')"
  shows "jobs_inv (upd_run a f m', t)"
  by (rule jobs_inv_upd [OF inv a, where r' = "f (m_heap m ! a)"])
    (use same job run in \<open>simp_all only: upd_run_def Let_def Manager.simps conj_commute\<close>, simp_all)

text \<open>Cancelling gives a cause to a run, once.\<close>

lemma cancel_run_fields [simp]:
  "m_running (cancel_run c a m) = m_running m" "m_history (cancel_run c a m) = m_history m" "m_indexes (cancel_run c a m) = m_indexes m"
  "m_writer (cancel_run c a m) = m_writer m" "length (m_heap (cancel_run c a m)) = length (m_heap m)" "m_path (cancel_run c a m) = m_path m"
  "m_disk (cancel_run c a m) = m_disk m"
  by (simp_all add: cancel_run_def Let_def)

lemma jobs_inv_keep:
  assumes inv: "jobs_inv (m, t)" and a: "a < length (m_heap m)"
    and f: "r_stage (f (m_heap m ! a)) = r_stage (m_heap m ! a)" "r_writer (f (m_heap m ! a)) = r_writer (m_heap m ! a)"
      "r_done (f (m_heap m ! a)) = r_done (m_heap m ! a)"
      "j_Index (r_job (f (m_heap m ! a))) = j_Index (r_job (m_heap m ! a))"
      "j_StartedAt (r_job (f (m_heap m ! a))) = j_StartedAt (r_job (m_heap m ! a))"
      "j_State (r_job (f (m_heap m ! a))) = j_State (r_job (m_heap m ! a))"
  shows "jobs_inv (upd_run a f m, t)"
  by (rule jobs_inv_upd_run [OF inv a]) (use f jobs_inv_run [OF inv a] in \<open>auto simp: past_record_def run_ok_def Let_def\<close>)

lemma cancel_run_upd: "cancel_run c a = upd_run a (\<lambda>r. r\<lparr>r_cause := (case r_cause r of None \<Rightarrow> Some c | Some c' \<Rightarrow> Some c')\<rparr>)"
  by (simp add: fun_eq_iff cancel_run_def upd_run_def Let_def)

lemma jobs_inv_cancel_run: "jobs_inv (m, t) \<Longrightarrow> a < length (m_heap m) \<Longrightarrow> jobs_inv (cancel_run c a m, t)"
  unfolding cancel_run_upd by (rule jobs_inv_keep) simp_all

lemma jobs_inv_exec:
  assumes inv: "jobs_inv (m, t)" and a: "a < length (m_heap m)"
  shows jobs_inv_begin: "r_stage (m_heap m ! a) = Fresh \<Longrightarrow> jobs_inv (exec_begin a m, t)"
    and jobs_inv_acquire: "r_stage (m_heap m ! a) = WaitingWriter \<Longrightarrow> \<not> m_writer m \<Longrightarrow> jobs_inv (exec_acquire a m, t)"
    and jobs_inv_give_up: "r_stage (m_heap m ! a) = WaitingWriter \<Longrightarrow> jobs_inv (exec_give_up a c m, t)"
    and jobs_inv_progress: "jobs_inv (exec_progress a p m, t)"
    and jobs_inv_end: "r_stage (m_heap m ! a) = Working \<Longrightarrow> jobs_inv (exec_end a d r m, t)"
    and jobs_inv_notify: "r_stage (m_heap m ! a) = Recorded \<Longrightarrow> jobs_inv (exec_notify a m, t)"
    and jobs_inv_release: "r_stage (m_heap m ! a) = Notified \<Longrightarrow> jobs_inv (exec_release a m, t)"
proof -
  note ra = jobs_inv_run [OF inv a]
  note upd = jobs_inv_upd_run [OF inv a]
  note defs = past_record_def run_ok_def Let_def
  show "jobs_inv (exec_begin a m, t)" if "r_stage (m_heap m ! a) = Fresh"
    unfolding exec_begin_def
    by (cases "WritesStore m (j_Index (r_job (m_heap m ! a)))") (use ra that in \<open>auto intro!: upd simp: defs\<close>)
  show "jobs_inv (exec_acquire a m, t)" if "r_stage (m_heap m ! a) = WaitingWriter" "\<not> m_writer m"
    unfolding exec_acquire_def by (rule upd) (use ra that in \<open>auto simp: defs\<close>)
  show "jobs_inv (exec_give_up a c m, t)" if "r_stage (m_heap m ! a) = WaitingWriter"
    unfolding exec_give_up_def jobs_inv_tell by (rule upd) (use ra that in \<open>auto simp: defs\<close>)
  show "jobs_inv (exec_progress a p m, t)"
    unfolding exec_progress_def by (rule jobs_inv_keep [OF inv a]) simp_all
  show "jobs_inv (exec_end a d r m, t)" if "r_stage (m_heap m ! a) = Working"
    unfolding exec_end_def Let_def
    by (cases "perform d r (j_Kind (r_job (m_heap m ! a)))") (use ra that in \<open>auto intro!: upd simp: defs\<close>)
  show "jobs_inv (exec_notify a m, t)" if "r_stage (m_heap m ! a) = Recorded"
    unfolding exec_notify_def by (rule upd) (use ra that in \<open>auto simp: defs\<close>)
  show "jobs_inv (exec_release a m, t)" if "r_stage (m_heap m ! a) = Notified"
    unfolding exec_release_def Let_def by (rule upd) (use ra that in \<open>auto simp: defs\<close>)
qed

section \<open>Starting, recording, stopping\<close>

lemma finish_job_id [simp]: "j_ID (finish_job res err c f ms j) = j_ID j" "j_Index (finish_job res err c f ms j) = j_Index j"
    "j_Kind (finish_job res err c f ms j) = j_Kind j" "j_Trigger (finish_job res err c f ms j) = j_Trigger j"
    "j_StartedAt (finish_job res err c f ms j) = j_StartedAt j"
  by (simp_all add: finish_job_def Let_def split: prod.split)

lemma Ended_finish_job [simp]: "Ended (finish_job res err c f ms j)"
  by (auto simp: Ended_def finish_job_def Let_def final_state_def split: prod.split option.split op_error.split cause.split)

lemma history_ok_trim:
  assumes "history_ok t js" and "Ended j" and "j_StartedAt j \<le> time_unix t"
    and "\<forall>k \<in> set (of_index (j_Index j) js). j_StartedAt k \<le> j_StartedAt j"
  shows "history_ok t (trim_jobs (\<lambda>_. 0) (j # js))"
  unfolding history_ok_def
proof (intro conjI allI)
  show "\<forall>k \<in> set (trim_jobs (\<lambda>_. 0) (j # js)). Ended k \<and> j_StartedAt k \<le> time_unix t"
    using set_trim_jobs [of "\<lambda>_. 0" "j # js"] assms by (fastforce simp: history_ok_def)
  fix i
  have "newest_first (of_index i (j # js))"
    using assms by (auto simp: history_ok_def)
  then show "newest_first (of_index i (trim_jobs (\<lambda>_. 0) (j # js)))"
    unfolding trim_jobs_of_index by (rule newest_first_take)
  show "length (of_index i (trim_jobs (\<lambda>_. 0) (j # js))) \<le> keptJobs"
    by (rule length_trim_jobs)
qed

lemma jobs_inv_record:
  assumes inv: "jobs_inv (m, t)" and a: "a < length (m_heap m)" and stage: "r_stage (m_heap m ! a) = Ending res err c"
  shows "jobs_inv (exec_record ok f ms a m, t)"
proof -
  let ?i = "j_Index (r_job (m_heap m ! a))"
  define j where "j = finish_job res err c f ms (r_job (m_heap m ! a))"
  define m' where "m' = trimLocked ((upd_run a (\<lambda>r. r\<lparr>r_job := j, r_stage := Recorded\<rparr>) m)
    \<lparr>m_running := AList.delete ?i (m_running m), m_history := j # m_history m\<rparr>)"
  note ra = jobs_inv_run [OF inv a]
  have mine: "map_of (m_running m) ?i = Some a" and running: "j_State (r_job (m_heap m ! a)) = StateRunning"
    using ra stage by (auto simp: run_ok_def Let_def past_record_def)
  have ea: "entry_ok t m (?i, a)"
    using inv mine by (auto intro: jobs_inv_entry map_of_SomeD)
  have store: "WritesStore m' = WritesStore m" and heap: "m_heap m' = (m_heap m)[a := (m_heap m ! a)\<lparr>r_job := j, r_stage := Recorded\<rparr>]"
    and ran: "m_running m' = AList.delete ?i (m_running m)" and hist: "m_history m' = trim_jobs (\<lambda>_. 0) (j # m_history m)"
    and wr: "m_writer m' = m_writer m" and ji: "j_Index j = ?i" and je: "Ended j" and js: "j_StartedAt j = j_StartedAt (r_job (m_heap m ! a))"
    by (simp_all add: fun_eq_iff WritesStore_def Lookup_index_def m'_def trimLocked_def upd_run_def j_def del: trim_jobs.simps)
  have h: "history_ok t (m_history m')"
    unfolding hist by (rule history_ok_trim) (use jobs_inv_history [OF inv] ea in \<open>auto simp: ji je js entry_ok_def Let_def\<close>)
  have old: "set (of_index i (m_history m')) \<subseteq> set (of_index i (m_history m))" if "i \<noteq> ?i" for i
    using set_trim_jobs [of "\<lambda>_. 0" "j # m_history m"] that ji unfolding hist by auto
  have e: "entry_ok t m' (i, b)" if "(i, b) \<in> set (m_running m')" for i b
  proof -
    have "(i, b) \<in> set (m_running m)" and i: "i \<noteq> ?i"
      using that by (auto simp: ran AList.delete_eq)
    then have eb: "entry_ok t m (i, b)"
      using jobs_inv_entry [OF inv] by blast
    then have "b \<noteq> a"
      using i by (auto simp: entry_ok_def Let_def)
    then show ?thesis
      using eb old [OF i] by (auto simp: entry_ok_def Let_def heap)
  qed
  have r: "run_ok m' b" if "b < length (m_heap m')" for b
  proof (cases "b = a")
    case True
    then show ?thesis
      using ra stage a by (auto simp: run_ok_def Let_def heap store wr past_record_def)
  next
    case False
    have "run_ok m b"
      using that jobs_inv_run [OF inv] by (simp add: heap)
    moreover have "j_Index (r_job (m_heap m ! b)) \<noteq> ?i" if "map_of (m_running m) (j_Index (r_job (m_heap m ! b))) = Some b"
      using that mine False by auto
    ultimately show ?thesis
      using False by (auto simp: run_ok_def Let_def heap store wr ran delete_conv')
  qed
  have "writers m' = writers m"
    using a by (auto simp: writers_def heap nth_list_update)
  moreover have "distinct (map fst (m_running m'))"
    using jobs_inv_distinct [OF inv] by (simp add: ran distinct_delete)
  ultimately have "jobs_inv (m', t)"
    using e r h jobs_inv_writer [OF inv] jobs_inv_one_writer [OF inv] by (auto simp: jobs_inv_def list_all_iff wr)
  then show ?thesis
    by (simp add: exec_record_def stage Let_def m'_def j_def)
qed

lemma jobs_inv_Start_turn:
  assumes inv: "jobs_inv (m, t)"
  shows "jobs_inv (fst (Start_turn ok newid t index kind trigger reason st m), t)"
proof (cases "map_of (m_running m) index")
  case (Some a)
  then have "a < length (m_heap m)"
    using jobs_inv_entry [OF inv map_of_SomeD [OF Some]] by (simp add: entry_ok_def)
  then show ?thesis
    using inv Some by (auto simp: Start_turn_def Let_def intro: jobs_inv_cancel_run)
next
  case None
  define r where "r = \<lparr>r_job = blank_job\<lparr>j_ID := newid, j_Index := index, j_Kind := kind, j_Trigger := trigger, j_Reason := reason,
    j_StartedAt := time_unix t, j_EntriesBefore := is_Entries st, j_Summary := index @ '': '' @ describe kind @ '' started''\<rparr>, r_cause = None,
    r_stage = Fresh, r_writer = False, r_done = False\<rparr>"
  define m' where "m' = m\<lparr>m_heap := m_heap m @ [r], m_running := (index, length (m_heap m)) # m_running m\<rparr>"
  have rj: "j_Index (r_job r) = index" "j_State (r_job r) = StateRunning" "j_StartedAt (r_job r) = time_unix t" "\<not> past_record r" "r_stage r = Fresh"
    "\<not> r_writer r" "\<not> r_done r"
    by (simp_all add: r_def blank_job_def past_record_def)
  have store: "WritesStore m' = WritesStore m" and heap: "m_heap m' = m_heap m @ [r]"
    and ran: "m_running m' = (index, length (m_heap m)) # m_running m" and hist: "m_history m' = m_history m" and wr: "m_writer m' = m_writer m"
    by (simp_all add: fun_eq_iff WritesStore_def Lookup_index_def m'_def)
  have e: "entry_ok t m' (i, b)" if "(i, b) \<in> set (m_running m')" for i b
    using that jobs_inv_entry [OF inv, of i b] jobs_inv_history [OF inv] rj
    by (auto simp: heap ran hist entry_ok_def Let_def history_ok_def nth_append)
  have ro: "run_ok m' b" if "b < length (m_heap m')" for b
  proof (cases "b < length (m_heap m)")
    case True
    have "map_of (m_running m) (j_Index (r_job (m_heap m ! b))) = Some b \<Longrightarrow> j_Index (r_job (m_heap m ! b)) \<noteq> index"
      using None by auto
    then show ?thesis
      using jobs_inv_run [OF inv True] True by (auto simp: run_ok_def Let_def store heap ran wr nth_append)
  next
    case False
    then have "b = length (m_heap m)"
      using that by (simp add: heap)
    then show ?thesis
      using rj by (auto simp: run_ok_def Let_def store heap ran wr nth_append)
  qed
  have "writers m' = writers m"
    using rj by (auto simp: writers_def heap nth_append)
  then have "jobs_inv (m', t)"
    using e ro jobs_inv_writer [OF inv] jobs_inv_one_writer [OF inv] jobs_inv_distinct [OF inv] jobs_inv_history [OF inv] None
    by (auto simp: jobs_inv_def list_all_iff ran hist wr map_of_eq_None_iff)
  then show ?thesis
    using None inv by (simp add: Start_turn_def Let_def m'_def r_def)
qed

lemma jobs_inv_Start_first: "jobs_inv (m, t) \<Longrightarrow> jobs_inv (fst (Start_first ok newid t index kind trigger reason st m), t)"
  by (auto simp: Start_first_def jobs_inv_Start_turn split: option.split)

lemma find_running_SomeD: "find_running m i = Some a \<Longrightarrow> \<exists>k. (k, a) \<in> set (m_running m)"
  by (auto simp: find_running_def find_Some_iff) (metis nth_mem surj_pair snd_conv)

lemma jobs_inv_Cancel_job:
  assumes inv: "jobs_inv (m, t)"
  shows "jobs_inv (fst (Cancel_job m i), t)"
proof (cases "find_running m i")
  case (Some a)
  then have "a < length (m_heap m)"
    using find_running_SomeD jobs_inv_entry [OF inv] by (fastforce simp: entry_ok_def)
  then show ?thesis
    using inv Some unfolding Cancel_job_def Let_def
    by (auto intro!: jobs_inv_keep jobs_inv_cancel_run)
qed (use inv in \<open>auto simp: Cancel_job_def split: option.split\<close>)

lemma jobs_inv_Shutdown_jobs:
  assumes "jobs_inv (m, t)"
  shows "jobs_inv (Shutdown_jobs m, t)"
proof -
  have "jobs_inv (fold (\<lambda>(_, a). cancel_run Shutdown a) es m, t)"
    if "jobs_inv (m, t)" "\<forall>e \<in> set es. snd e < length (m_heap m)" for es :: "(string \<times> nat) list" and m
    using that by (induction es arbitrary: m) (auto simp: jobs_inv_cancel_run)
  moreover have "jobs_inv (m\<lparr>m_closed := True\<rparr>, t)"
    using assms by (subst jobs_inv_frame) simp_all
  moreover have "\<forall>e \<in> set (m_running m). snd e < length (m_heap (m\<lparr>m_closed := True\<rparr>))"
    using jobs_inv_entry [OF assms] by (auto simp: entry_ok_def)
  ultimately show ?thesis
    by (simp add: Shutdown_jobs_def)
qed

section \<open>A new process\<close>

lemma sort_key_map: "sort_key f (map g xs) = map g (sort_key (f \<circ> g) xs)"
proof (induction xs)
  case (Cons x xs)
  have "insort_key f (g x) (map g ys) = map g (insort_key (f \<circ> g) x ys)" for ys
    by (induction ys) auto
  then show ?case
    using Cons by (simp add: comp_def)
qed simp

lemma must_park_of_index: "of_index i js = of_index i ks \<Longrightarrow> must_park i js = must_park i ks"
  by (simp add: must_park_def died_run_def)

lemma not_must_park_parked: "of_index i js = parked_job j # ks \<Longrightarrow> \<not> must_park i js"
  by (simp add: must_park_def died_run_def is_died_def parked_job_def Let_def)

definition park_first :: "Job list \<Rightarrow> Job list" where
  "park_first js = (case js of [] \<Rightarrow> [] | j # rest \<Rightarrow> parked_job j # rest)"

lemma parkLocked_of_index:
  "of_index i (m_history (parkLocked ok k m)) =
     (if i = k \<and> must_park i (m_history m) then park_first (of_index i (m_history m)) else of_index i (m_history m))"
  by (auto simp: parkLocked_def of_index_update_first park_first_def)

lemma parkLocked_fields [simp]:
  "m_heap (parkLocked ok k m) = m_heap m" "m_running (parkLocked ok k m) = m_running m" "m_writer (parkLocked ok k m) = m_writer m"
  "m_indexes (parkLocked ok k m) = m_indexes m" "m_path (parkLocked ok k m) = m_path m"
  by (simp_all add: parkLocked_def)

lemma not_must_park_park_first: "must_park i js \<Longrightarrow> of_index i ks = park_first (of_index i js) \<Longrightarrow> \<not> must_park i ks"
  by (cases "of_index i js") (simp add: must_park_def died_run_def, simp add: park_first_def not_must_park_parked)

lemma fold_parkLocked_of_index:
  "of_index i (m_history (fold (parkLocked ok) ns m)) =
     (if i \<in> set ns \<and> must_park i (m_history m) then park_first (of_index i (m_history m)) else of_index i (m_history m))"
proof (induction ns arbitrary: m)
  case (Cons k ns)
  have "must_park i (m_history (parkLocked ok k m)) \<longleftrightarrow> \<not> i = k \<and> must_park i (m_history m)"
    using parkLocked_of_index [of i ok k m] not_must_park_park_first [of i "m_history m" "m_history (parkLocked ok k m)"]
      must_park_of_index [of i "m_history (parkLocked ok k m)" "m_history m"]
    by (auto split: if_splits)
  then show ?case
    using Cons [of "parkLocked ok k m"] parkLocked_of_index [of i ok k m] by auto
qed simp

lemma fold_parkLocked_fields [simp]:
  "m_heap (fold (parkLocked ok) ns m) = m_heap m" "m_running (fold (parkLocked ok) ns m) = m_running m"
  "m_writer (fold (parkLocked ok) ns m) = m_writer m" "m_indexes (fold (parkLocked ok) ns m) = m_indexes m" "m_path (fold (parkLocked ok) ns m) = m_path m"
  by (induction ns arbitrary: m) auto

text \<open>The jobs of a file, as a start reads them.\<close>

definition on_disk :: "Job list option \<Rightarrow> Job list" where
  "on_disk disk = (case disk of None \<Rightarrow> [] | Some js \<Rightarrow> js)"

definition loaded :: "string \<Rightarrow> Job list option \<Rightarrow> Job list" where
  "loaded i disk = take keptJobs (of_index i (sort_key (\<lambda>j. - j_StartedAt j) (on_disk disk)))"

lemma of_index_died: "of_index i (map died_job js) = map died_job (of_index i js)"
  by (simp add: filter_map comp_def)

lemma of_index_loaded: "of_index i (trim_jobs (\<lambda>_. 0) (sort_key (\<lambda>j. - j_StartedAt j) (map died_job (on_disk disk)))) = map died_job (loaded i disk)"
  by (simp add: trim_jobs_of_index sort_key_map comp_def of_index_died take_map loaded_def)

lemma must_park_map_loaded:
  "must_park i (trim_jobs (\<lambda>_. 0) (sort_key (\<lambda>j. - j_StartedAt j) (map died_job (on_disk disk)))) = must_park i (map died_job (loaded i disk))"
proof (rule must_park_of_index)
  have "of_index i (map died_job (loaded i disk)) = map died_job (loaded i disk)"
    unfolding of_index_loaded [symmetric] by simp
  then show "of_index i (trim_jobs (\<lambda>_. 0) (sort_key (\<lambda>j. - j_StartedAt j) (map died_job (on_disk disk)))) = of_index i (map died_job (loaded i disk))"
    by (simp add: of_index_loaded)
qed

lemma NewManager_of_index:
  "of_index i (m_history (NewManager ok True indexes disk)) =
     (if i \<in> fst ` set indexes \<and> must_park i (map died_job (loaded i disk)) then park_first (map died_job (loaded i disk)) else map died_job (loaded i disk))"
proof (cases disk)
  case None
  then show ?thesis
    by (simp add: NewManager_def load_jobs_def loaded_def on_disk_def park_first_def)
next
  case (Some js)
  then show ?thesis
    using fold_parkLocked_of_index [of i ok "map fst indexes"] of_index_loaded [of i disk] must_park_map_loaded [of i disk]
    by (simp add: NewManager_def load_jobs_def trimLocked_def on_disk_def)
qed

lemma NewManager_fields [simp]:
  "m_heap (NewManager ok path indexes disk) = []" "m_running (NewManager ok path indexes disk) = []" "\<not> m_writer (NewManager ok path indexes disk)"
  "m_indexes (NewManager ok path indexes disk) = indexes" "m_path (NewManager ok path indexes disk) = path"
  by (simp_all add: NewManager_def load_jobs_def trimLocked_def split: option.split)

lemma NewManager_no_path: "m_history (NewManager ok False indexes disk) = []"
  by (simp add: NewManager_def load_jobs_def)

lemma park_first_all: "(\<And>j. P j \<Longrightarrow> P (parked_job j)) \<Longrightarrow> \<forall>j \<in> set js. P j \<Longrightarrow> \<forall>j \<in> set (park_first js). P j"
  by (auto simp: park_first_def split: list.splits)

lemma map_park_first: "(\<And>j. f (parked_job j) = f j) \<Longrightarrow> map f (park_first js) = map f js"
  by (auto simp: park_first_def split: list.splits)

lemma history_ok_NewManager:
  assumes "\<forall>j \<in> set (on_disk disk). j_StartedAt j \<le> time_unix t"
  shows "history_ok t (m_history (NewManager ok path indexes disk))"
proof (cases path)
  case True
  let ?h = "m_history (NewManager ok True indexes disk)"
  have l: "set (loaded i disk) \<subseteq> set (on_disk disk)" "newest_first (loaded i disk)" "length (loaded i disk) \<le> keptJobs" for i
    using set_take_subset [of keptJobs "of_index i (sort_key (\<lambda>j. - j_StartedAt j) (on_disk disk))"]
    by (auto simp: loaded_def of_index_sort intro!: newest_first_take)
  have all: "\<forall>j \<in> set (map died_job (loaded i disk)). Ended j \<and> j_StartedAt j \<le> time_unix t" for i
    using l(1) assms by auto
  have "\<forall>j \<in> set (of_index i ?h). Ended j \<and> j_StartedAt j \<le> time_unix t" for i
    unfolding NewManager_of_index using all park_first_all [of "\<lambda>j. Ended j \<and> j_StartedAt j \<le> time_unix t", OF _ all] by (simp add: Ended_parked_job)
  then have "\<forall>j \<in> set ?h. Ended j \<and> j_StartedAt j \<le> time_unix t"
    by auto
  moreover have "map (\<lambda>j. - j_StartedAt j) (of_index i ?h) = map (\<lambda>j. - j_StartedAt j) (loaded i disk)" for i
    unfolding NewManager_of_index by (simp add: map_park_first comp_def)
  then have "newest_first (of_index i ?h) \<and> length (of_index i ?h) \<le> keptJobs" for i
    using l(2,3) by (metis length_map)
  ultimately show ?thesis
    using True by (simp add: history_ok_def)
qed (simp add: NewManager_no_path history_ok_def)

lemma jobs_inv_NewManager: "\<forall>j \<in> set (on_disk disk). j_StartedAt j \<le> time_unix t \<Longrightarrow> jobs_inv (NewManager ok path indexes disk, t)"
  using history_ok_NewManager [of disk t ok path indexes] by (simp add: jobs_inv_def writers_def)

lemma jobs_inv_tick: "jobs_inv (m, t) \<Longrightarrow> clock_ok t \<Longrightarrow> clock_ok t' \<Longrightarrow> t \<le> t' \<Longrightarrow> jobs_inv (m, t')"
proof -
  assume inv: "jobs_inv (m, t)" and "clock_ok t" "clock_ok t'" "t \<le> t'"
  then have "time_unix t \<le> time_unix t'"
    by (simp add: time_unix_exact zdiv_mono1)
  then have "history_ok t' (m_history m)" and "\<And>i a. entry_ok t m (i, a) \<Longrightarrow> entry_ok t' m (i, a)"
    using jobs_inv_history [OF inv] by (auto simp: history_ok_def entry_ok_def Let_def)
  then show ?thesis
    using inv by (auto simp: jobs_inv_def list_all_iff)
qed

lemma jobs_inv_step: "job_step W s s' \<Longrightarrow> jobs_inv s \<Longrightarrow> jobs_inv s'"
  by (induction rule: job_step.induct)
    (simp_all add: jobs_inv_tick jobs_inv_Start_first jobs_inv_Start_turn jobs_inv_exec jobs_inv_record jobs_inv_Cancel_job jobs_inv_Shutdown_jobs)

lemma jobs_inv_reach: "job_reach W s \<Longrightarrow> jobs_inv s"
  by (induction rule: job_reach.induct) (auto simp: on_disk_def intro: jobs_inv_NewManager jobs_inv_step)

end
