(* ===== verification/Relay_Restart.thy ===== *)
theory Relay_Restart
  imports Relay_Jobs_Safe
begin

text \<open>
  What the job file is worth: while every save succeeds, it holds, of each index, the newest jobs the manager knows, and as running the one
  that runs; so the next process, whenever this one ends, reads the same jobs, with the running one as ended.
\<close>

definition ident :: "Job \<Rightarrow> string \<times> string \<times> Kind \<times> Trigger \<times> int" where
  "ident j = (j_ID j, j_Index j, j_Kind j, j_Trigger j, j_StartedAt j)"

lemma ident_eq: "ident j = ident k \<longleftrightarrow>
    j_ID j = j_ID k \<and> j_Index j = j_Index k \<and> j_Kind j = j_Kind k \<and> j_Trigger j = j_Trigger k \<and> j_StartedAt j = j_StartedAt k"
  by (auto simp: ident_def)

lemma ident_died_job [simp]: "ident (died_job j) = ident j"
  by (simp add: ident_def)

lemma ident_parked_job [simp]: "ident (parked_job j) = ident j"
  by (simp add: ident_def)

text \<open>A job of the file stands for a job of the manager.\<close>

definition stands_for :: "Job \<Rightarrow> Job \<Rightarrow> bool" where
  "stands_for d j \<longleftrightarrow> ident d = ident j \<and> (j_State j = StateRunning \<longrightarrow> j_State d = StateRunning)"

definition known :: "string \<Rightarrow> Manager \<Rightarrow> Job list" where
  "known i m = take keptJobs (of_index i (running_jobs m @ m_history m))"

definition disk_inv :: "Manager \<Rightarrow> bool" where
  "disk_inv m \<longleftrightarrow> (m_path m \<longrightarrow> (\<forall>i. list_all2 stands_for (loaded i (m_disk m)) (known i m)))"

section \<open>The running job of an index\<close>

lemma of_index_running_list:
  assumes "distinct (map fst es)" and "\<forall>e \<in> set es. j_Index (g (snd e)) = fst e"
  shows "of_index i (map (\<lambda>(_, a). g a) es) = (case map_of es i of None \<Rightarrow> [] | Some a \<Rightarrow> [g a])"
  using assms
proof (induction es)
  case (Cons e es)
  have "map_of es (fst e) = None"
    using Cons.prems by (simp add: map_of_eq_None_iff)
  then show ?case
    using Cons by (cases e) (auto split: option.splits)
qed simp

lemma of_index_running_jobs:
  assumes inv: "jobs_inv (m, t)"
  shows "of_index i (running_jobs m) = (case map_of (m_running m) i of None \<Rightarrow> [] | Some a \<Rightarrow> [r_job (m_heap m ! a)])"
  unfolding running_jobs_def
  by (rule of_index_running_list)
    (use jobs_inv_distinct [OF inv] jobs_inv_entry [OF inv] in \<open>auto simp: entry_ok_def Let_def\<close>)

lemma known_newest_first:
  assumes inv: "jobs_inv (m, t)"
  shows "newest_first (of_index i (running_jobs m @ m_history m))"
proof (cases "map_of (m_running m) i")
  case (Some a)
  have "entry_ok t m (i, a)"
    using inv Some by (auto intro: jobs_inv_entry map_of_SomeD)
  then show ?thesis
    using jobs_inv_history [OF inv] Some by (auto simp: of_index_running_jobs [OF inv] entry_ok_def Let_def history_ok_def)
qed (use jobs_inv_history [OF inv] in \<open>auto simp: of_index_running_jobs [OF inv] history_ok_def\<close>)

lemma loaded_length: "length (loaded i disk) \<le> keptJobs"
  by (simp add: loaded_def)

section \<open>The steps\<close>

lemma disk_inv_save:
  assumes "jobs_inv (m, t)" and ok
  shows "disk_inv (saveLocked_jobs ok m)"
proof -
  have "loaded i (Some (running_jobs m @ m_history m)) = known i m" for i
    using known_newest_first [OF assms(1), of i] by (simp add: loaded_def known_def on_disk_def of_index_sort sort_key_id_if_sorted)
  then show ?thesis
    using assms(2) by (auto simp: disk_inv_def saveLocked_jobs_def known_def running_jobs_def stands_for_def intro!: list_all2_refl)
qed

text \<open>A step that changes no job's identity or state, nor the history or the file.\<close>

definition same_jobs :: "Manager \<Rightarrow> Manager \<Rightarrow> bool" where
  "same_jobs m m' \<longleftrightarrow> m_running m' = m_running m \<and> m_history m' = m_history m \<and> m_disk m' = m_disk m \<and> m_path m' = m_path m
     \<and> length (m_heap m') = length (m_heap m)
     \<and> (\<forall>b < length (m_heap m). ident (r_job (m_heap m' ! b)) = ident (r_job (m_heap m ! b)) \<and> j_State (r_job (m_heap m' ! b)) = j_State (r_job (m_heap m ! b)))"

lemma same_jobs_refl [simp]: "same_jobs m m"
  by (simp add: same_jobs_def)

lemma same_jobs_trans: "same_jobs m m1 \<Longrightarrow> same_jobs m1 m2 \<Longrightarrow> same_jobs m m2"
  by (simp add: same_jobs_def)

lemma same_jobs_upd_run:
  assumes "\<And>r. ident (r_job (f r)) = ident (r_job r) \<and> j_State (r_job (f r)) = j_State (r_job r)" and "same_jobs m m1"
  shows "same_jobs m (upd_run a f m1)"
proof (rule same_jobs_trans [OF assms(2)])
  show "same_jobs m1 (upd_run a f m1)"
    using assms(1) by (cases "a < length (m_heap m1)") (auto simp: same_jobs_def upd_run_def nth_list_update)
qed

lemma same_jobs_cancel_run: "same_jobs m m1 \<Longrightarrow> same_jobs m (cancel_run c a m1)"
  unfolding cancel_run_upd by (rule same_jobs_upd_run) simp_all

lemma same_jobs_cancel_runs: "same_jobs m m1 \<Longrightarrow> same_jobs m (fold (\<lambda>(_, a). cancel_run c a) es m1)"
  by (induction es arbitrary: m1) (auto simp: same_jobs_cancel_run split: prod.split)

lemma same_jobs_tell [simp]: "same_jobs m (tell a c m1) = same_jobs m m1"
  by (simp add: same_jobs_def tell_def)

lemma same_jobs_exec:
  "same_jobs m (exec_begin a m)" "same_jobs m (exec_acquire a m)" "same_jobs m (exec_give_up a c m)" "same_jobs m (exec_progress a p m)"
  "same_jobs m (exec_end a d r m)" "same_jobs m (exec_notify a m)" "same_jobs m (exec_release a m)"
  by (auto simp: exec_begin_def exec_acquire_def exec_give_up_def exec_progress_def exec_end_def exec_notify_def exec_release_def Let_def ident_def
      same_jobs_def [of m "m\<lparr>m_writer := w\<rparr>" for w] same_jobs_def [of m "m\<lparr>m_finished := w\<rparr>" for w] split: prod.split intro!: same_jobs_upd_run)

lemma same_jobs_Cancel_job: "same_jobs m (fst (Cancel_job m i))"
  by (auto simp: Cancel_job_def Let_def ident_def split: option.split intro!: same_jobs_upd_run same_jobs_cancel_run)

lemma same_jobs_Shutdown_jobs: "same_jobs m (Shutdown_jobs m)"
  unfolding Shutdown_jobs_def by (rule same_jobs_cancel_runs) (simp add: same_jobs_def)

lemma disk_inv_keep:
  assumes d: "disk_inv m" and inv: "jobs_inv (m, t)" "jobs_inv (m', t)" and same: "same_jobs m m'"
  shows "disk_inv m'"
proof -
  note eqs = same [unfolded same_jobs_def]
  have "list_all2 stands_for (loaded i (m_disk m)) (known i m')" if k: "list_all2 stands_for (loaded i (m_disk m)) (known i m)" for i
  proof (cases "map_of (m_running m) i")
    case None
    then show ?thesis
      using k eqs by (simp add: known_def of_index_running_jobs [OF inv(1)] of_index_running_jobs [OF inv(2)])
  next
    case (Some a)
    have "a < length (m_heap m)"
      using jobs_inv_entry [OF inv(1) map_of_SomeD [OF Some]] by (simp add: entry_ok_def)
    then show ?thesis
      using k Some eqs
      by (auto simp: known_def of_index_running_jobs [OF inv(1)] of_index_running_jobs [OF inv(2)] list_all2_Cons2 stands_for_def)
  qed
  then show ?thesis
    using d eqs by (simp add: disk_inv_def)
qed

lemma Start_turn_keep_or_save:
  fixes m t ok newid index kind trigger reason st
  defines "m' \<equiv> fst (Start_turn ok newid t index kind trigger reason st m)"
  shows "m' = m \<or> (\<exists>a. m' = cancel_run Superseded a m) \<or> (\<exists>m1. m' = saveLocked_jobs ok m1)"
  unfolding m'_def by (auto simp: Start_turn_def Let_def split: option.split)

lemma disk_inv_Start_turn:
  assumes d: "disk_inv m" and inv: "jobs_inv (m, t)" and ok
  shows "disk_inv (fst (Start_turn ok newid t index kind trigger reason st m))"
proof -
  have inv': "jobs_inv (fst (Start_turn ok newid t index kind trigger reason st m), t)"
    using inv by (rule jobs_inv_Start_turn)
  consider "fst (Start_turn ok newid t index kind trigger reason st m) = m"
    | a where "fst (Start_turn ok newid t index kind trigger reason st m) = cancel_run Superseded a m"
    | m1 where "fst (Start_turn ok newid t index kind trigger reason st m) = saveLocked_jobs ok m1"
    using Start_turn_keep_or_save by blast
  then show ?thesis
  proof cases
    case 2
    then show ?thesis
      using d inv inv' by (auto intro!: disk_inv_keep [of m t] same_jobs_cancel_run)
  next
    case 3
    then show ?thesis
      using inv' \<open>ok\<close> by (auto intro!: disk_inv_save)
  qed (use d in simp)
qed

lemma disk_inv_exec_record:
  assumes d: "disk_inv m" and inv: "jobs_inv (exec_record ok f ms a m, t)" and ok
  shows "disk_inv (exec_record ok f ms a m)"
proof -
  have "exec_record ok f ms a m = m \<or> (\<exists>m1. exec_record ok f ms a m = saveLocked_jobs ok m1)"
    by (auto simp: exec_record_def Let_def split: stage.split)
  then show ?thesis
    using d inv \<open>ok\<close> by (auto intro!: disk_inv_save)
qed

lemma disk_inv_step: "job_step True s s' \<Longrightarrow> jobs_inv s \<Longrightarrow> disk_inv (fst s) \<Longrightarrow> disk_inv (fst s')"
proof -
  assume st: "job_step True s s'" and inv: "jobs_inv s" and d: "disk_inv (fst s)"
  have inv': "jobs_inv s'"
    using st inv by (rule jobs_inv_step)
  show "disk_inv (fst s')"
    using st
  proof cases
    case (record_run a m res err c ok t ms)
    then show ?thesis
      using d inv' by (auto intro: disk_inv_exec_record)
  qed (use d inv inv' in \<open>auto simp: Start_first_def disk_inv_Start_turn disk_inv_save same_jobs_exec same_jobs_Cancel_job same_jobs_Shutdown_jobs
      split: option.splits intro: disk_inv_keep\<close>)
qed

text \<open>Loading writes the file only to park, and then writes what it loaded.\<close>

lemma fold_parkLocked_disk:
  assumes "m_path m" and "m_running m = []"
  shows "fold (parkLocked True) ns m = m \<or> m_disk (fold (parkLocked True) ns m) = Some (m_history (fold (parkLocked True) ns m))"
proof -
  have park: "parkLocked True k m = m \<or> m_disk (parkLocked True k m) = Some (m_history (parkLocked True k m))"
    if "m_path m" "m_running m = []" for k m
    using that by (simp add: parkLocked_def saveLocked_jobs_def running_jobs_def)
  have "m_disk (fold (parkLocked True) ns m) = Some (m_history (fold (parkLocked True) ns m))"
    if "m_disk m = Some (m_history m)" "m_path m" "m_running m = []" for m ns
    using that
  proof (induction ns arbitrary: m)
    case (Cons k ns)
    then show ?case
      using park [of m k] by (metis fold_simps(2) parkLocked_fields(2,5))
  qed simp
  note saved = this
  show ?thesis
    using assms
  proof (induction ns arbitrary: m)
    case (Cons k ns)
    show ?case
      using park [OF Cons.prems, of k]
    proof
      assume "parkLocked True k m = m"
      then show ?thesis
        using Cons.IH [OF Cons.prems] by simp
    next
      assume "m_disk (parkLocked True k m) = Some (m_history (parkLocked True k m))"
      then show ?thesis
        using saved [of "parkLocked True k m" ns] Cons.prems by simp
    qed
  qed simp
qed

lemma disk_inv_NewManager:
  assumes "\<forall>j \<in> set (on_disk disk). j_StartedAt j \<le> time_unix t"
  shows "disk_inv (NewManager True path indexes disk)"
proof (cases "path \<and> disk \<noteq> None")
  case False
  then show ?thesis
    by (auto simp: disk_inv_def NewManager_def load_jobs_def loaded_def known_def on_disk_def running_jobs_def)
next
  case True
  then obtain js where js: "disk = Some js" and path
    by blast
  define m where "m = trimLocked \<lparr>m_indexes = indexes, m_path = True, m_writer = False, m_heap = [], m_running = [],
    m_history = sort_key (\<lambda>j. - j_StartedAt j) (map died_job js), m_closed = False, m_finished = False, m_disk = disk, m_told = []\<rparr>"
  have new: "NewManager True path indexes disk = fold (parkLocked True) (map fst indexes) m"
    using \<open>path\<close> js by (simp add: NewManager_def load_jobs_def m_def)
  have inv: "jobs_inv (NewManager True path indexes disk, t)"
    using assms by (rule jobs_inv_NewManager)
  have "m_path m" "m_running m = []"
    by (simp_all add: m_def trimLocked_def)
  from fold_parkLocked_disk [OF this] consider "NewManager True path indexes disk = m"
    | "m_disk (NewManager True path indexes disk) = Some (m_history (NewManager True path indexes disk))"
    unfolding new by blast
  then show ?thesis
  proof cases
    case 1
    have "known i m = map died_job (loaded i disk)" for i
      using of_index_loaded [of i disk] js by (simp add: known_def m_def trimLocked_def running_jobs_def on_disk_def trim_jobs_of_index take_all loaded_length)
    moreover have "list_all2 stands_for xs (map died_job xs)" for xs
      by (simp add: list.rel_map stands_for_def list.rel_refl Ended_died_job [unfolded Ended_def])
    moreover have "m_disk m = disk"
      by (simp add: m_def trimLocked_def)
    ultimately show ?thesis
      by (simp add: 1 disk_inv_def)
  next
    case 2
    have "saveLocked_jobs True (NewManager True path indexes disk) = NewManager True path indexes disk"
      using 2 \<open>path\<close> by (simp add: saveLocked_jobs_def running_jobs_def)
    then show ?thesis
      using disk_inv_save [OF inv TrueI] by simp
  qed
qed

lemma disk_inv_reach: "job_reach True s \<Longrightarrow> disk_inv (fst s)"
proof (induction rule: job_reach.induct)
  case (fresh disk t ok path indexes)
  then show ?case
    using disk_inv_NewManager [of disk t path indexes] by (simp add: on_disk_def)
next
  case (step s s')
  then show ?case
    using jobs_inv_reach disk_inv_step by blast
qed

section \<open>What the next process knows\<close>

lemma restart_ident:
  assumes "disk_inv m" and "m_path m"
  shows "map ident (of_index i (m_history (NewManager ok True indexes (m_disk m)))) = map ident (known i m)"
proof -
  have "list_all2 stands_for (loaded i (m_disk m)) (known i m)"
    using assms by (simp add: disk_inv_def)
  then have "map ident (loaded i (m_disk m)) = map ident (known i m)"
    by (induction rule: list_all2_induct) (auto simp: stands_for_def)
  then show ?thesis
    unfolding NewManager_of_index by (simp add: map_park_first comp_def)
qed

lemma is_died_died_job: "j_State j = StateRunning \<Longrightarrow> is_died (died_job j)"
  by (simp add: is_died_def died_job_def Let_def)

lemma restart_running:
  assumes d: "disk_inv m" and inv: "jobs_inv (m, t)" and path: "m_path m" and run: "map_of (m_running m) i = Some a"
  shows "\<exists>j. LastJob (NewManager ok True indexes (m_disk m)) i = Some j \<and> ident j = ident (r_job (m_heap m ! a))
    \<and> (is_died j \<or> (\<exists>k. j = parked_job k \<and> is_died k))"
proof -
  have "j_State (r_job (m_heap m ! a)) = StateRunning"
    using jobs_inv_entry [OF inv map_of_SomeD [OF run]] jobs_inv_run [OF inv, of a]
    by (auto simp: entry_ok_def run_ok_def Let_def)
  moreover have "list_all2 stands_for (loaded i (m_disk m)) (known i m)"
    using d path by (simp add: disk_inv_def)
  ultimately obtain k ks where k: "loaded i (m_disk m) = k # ks" "ident k = ident (r_job (m_heap m ! a))" "j_State k = StateRunning"
    using run by (auto simp: known_def of_index_running_jobs [OF inv] list_all2_Cons2 stands_for_def)
  have last: "LastJob m' i = (case of_index i (m_history m') of [] \<Rightarrow> None | j # _ \<Rightarrow> Some j)" for m'
  proof -
    have "find P js = (case filter P js of [] \<Rightarrow> None | j # _ \<Rightarrow> Some j)" for P and js :: "Job list"
      by (induction js) auto
    then show ?thesis
      by (simp add: LastJob_def)
  qed
  show ?thesis
    unfolding last NewManager_of_index using k is_died_died_job [of k] by (auto simp: park_first_def)
qed

end
