(* ===== verification/Relay_Theorems.thy ===== *)
theory Relay_Theorems
  imports Relay_Reconciler Relay_Restart
begin

text \<open>
  The properties of the relay's index jobs, and of the reconciler that starts them. Which starts a pass of the reconciler makes, and what the next process parks. What a pass does for an index depends on what it sees of it and on the entries of
  the reconciler's maps for it alone.
\<close>

section \<open>Parking\<close>

lemma length_takeWhile_all: "length (take n (takeWhile P xs)) = n \<longleftrightarrow> n \<le> length xs \<and> (\<forall>k < n. P (xs ! k))"
proof (induction xs arbitrary: n)
  case (Cons x xs)
  show ?case
  proof (cases n)
    case (Suc k)
    have "(\<forall>l < Suc k. P ((x # xs) ! l)) \<longleftrightarrow> P x \<and> (\<forall>l < k. P (xs ! l))"
      by (auto simp: nth_Cons split: nat.splits)
    then show ?thesis
      using Cons [of k] Suc by simp
  qed simp
qed auto

lemma take_takeWhile_all: "\<forall>k < n. P (xs ! k) \<Longrightarrow> n \<le> length xs \<Longrightarrow> take n (takeWhile P xs) = take n xs"
proof (induction xs arbitrary: n)
  case (Cons x xs)
  then show ?case
  proof (cases n)
    case (Suc k)
    have "P x" and "\<forall>l < k. P (xs ! l)"
      using Cons.prems(1) by (auto simp: Suc)
    then show ?thesis
      using Cons.IH [of k] Cons.prems(2) Suc by simp
  qed simp
qed simp

lemma must_park_iff:
  assumes "of_index i js = js"
  shows "must_park i js \<longleftrightarrow> 3 \<le> length js \<and> (\<forall>k < 3. is_died (js ! k)) \<and> j_StartedAt (js ! 0) - j_StartedAt (js ! 2) \<le> 3600"
proof (cases "3 \<le> length js \<and> (\<forall>k < 3. is_died (js ! k))")
  case True
  then obtain a b c ks where js: "js = a # b # c # ks"
    by (metis Suc_le_length_iff numeral_3_eq_3)
  have "died_run i js = [a, b, c]"
    unfolding died_run_def assms using take_takeWhile_all [of 3 is_died js] True by (simp add: js)
  then show ?thesis
    using True by (simp add: must_park_def js)
next
  case False
  then have "length (died_run i js) \<noteq> 3"
    using length_takeWhile_all [of 3 is_died js] by (simp add: died_run_def assms)
  then show ?thesis
    using False by (auto simp: must_park_def Let_def)
qed

lemma is_died_died_iff: "is_died (died_job j) \<longleftrightarrow> j_State j = StateRunning \<or> is_died j"
  by (auto simp: is_died_def died_job_def Let_def)

lemma of_index_of_loaded: "of_index i (map died_job (loaded i disk)) = map died_job (loaded i disk)"
  unfolding of_index_loaded [symmetric] by simp

lemma LastJob_of_index: "LastJob m i = (case of_index i (m_history m) of [] \<Rightarrow> None | j # _ \<Rightarrow> Some j)"
proof -
  have "find P js = (case filter P js of [] \<Rightarrow> None | j # _ \<Rightarrow> Some j)" for P and js :: "Job list"
    by (induction js) auto
  then show ?thesis
    by (simp add: LastJob_def)
qed

lemma parked_job_parked: "j_Parked (parked_job j) \<and> j_Error (parked_job j) \<noteq> []"
  by (simp add: parked_job_def Let_def)

lemma j_Parked_died_job [simp]: "j_Parked (died_job j) = j_Parked j"
  by (simp add: died_job_def Let_def)

lemma Parked_NewManager:
  "Parked (NewManager ok True indexes disk) i \<noteq> [] \<longleftrightarrow>
     (i \<in> fst ` set indexes \<and> must_park i (map died_job (loaded i disk)))
     \<or> (loaded i disk \<noteq> [] \<and> j_Parked (loaded i disk ! 0) \<and> j_Error (died_job (loaded i disk ! 0)) \<noteq> [])"
proof (cases "loaded i disk")
  case Nil
  then show ?thesis
    by (simp add: Parked_def LastJob_of_index NewManager_of_index park_first_def must_park_def died_run_def)
next
  case (Cons j js)
  then show ?thesis
    using parked_job_parked [of "died_job j"]
    by (auto simp: Parked_def LastJob_of_index NewManager_of_index park_first_def)
qed

section \<open>A pass\<close>

definition agree :: "string \<Rightarrow> Reconciler \<Rightarrow> Reconciler \<Rightarrow> bool" where
  "agree i r r' \<longleftrightarrow> rc_failures r i = rc_failures r' i \<and> rc_retryAt r i = rc_retryAt r' i \<and> rc_failed r i = rc_failed r' i"

lemma agree_refl [simp]: "agree i r r"
  by (simp add: agree_def)

lemma note_job_other: "n \<noteq> i \<Longrightarrow> agree i (note_job now m n r) r"
  by (simp add: note_job_def agree_def split: option.split)

lemma note_job_agree: "agree i r r' \<Longrightarrow> agree i (note_job now m i r) (note_job now m i r')"
  by (auto simp: note_job_def agree_def note_counts_def split: option.split)

lemma pass_look_other: "n \<noteq> i \<Longrightarrow> agree i (ps_rec (pass_look (n, s) p)) (ps_rec p)"
  using note_job_other [of n i "s_noted s" "s_note s" "ps_rec p"]
  by (auto simp: pass_look_def Let_def agree_def split: option.splits)

text \<open>An index is due, by what a pass sees of it.\<close>

definition due :: "Reconciler \<Rightarrow> string \<Rightarrow> sight \<Rightarrow> bool" where
  "due r i s \<longleftrightarrow> RunningJob (s_running s) i = None \<and> Parked (s_parked s) i = [] \<and> is_Action (s_status s) \<noteq> None
     \<and> \<not> waits (s_now s) i (note_job (s_noted s) (s_note s) i r)"

lemma due_agree: "agree i r r' \<Longrightarrow> due r i s = due r' i s"
  using note_job_agree [of i r r' "s_noted s" "s_note s"] by (simp add: due_def waits_def agree_def)

lemma pass_look_todo: "ps_todo (pass_look (n, s) p) = ps_todo p @ (if due (ps_rec p) n s then [(n, s_status s)] else [])"
  by (auto simp: pass_look_def due_def Let_def split: option.split)

lemma pass_look_busy:
  "ps_storeBusy (pass_look (n, s) p) \<longleftrightarrow> ps_storeBusy p \<or> WritesStore (s_running s) n
     \<and> (case RunningJob (s_running s) n of Some j \<Rightarrow> j_Kind j \<noteq> KindReap | None \<Rightarrow> due (ps_rec p) n s \<and> is_Action (s_status s) \<noteq> Some KindReap)"
  by (auto simp: pass_look_def due_def Let_def split: option.split)

lemma fold_pass_look_other: "i \<notin> fst ` set sights \<Longrightarrow> agree i (ps_rec (fold pass_look sights p)) (ps_rec p)"
proof (induction sights arbitrary: p)
  case (Cons e sights)
  then show ?case
    using pass_look_other [of "fst e" i "snd e" p] Cons.IH [of "pass_look e p"] by (auto simp: agree_def)
qed simp

lemma fold_pass_look_todo:
  assumes "distinct (map fst sights)"
  shows "ps_todo (fold pass_look sights p) = ps_todo p @ map (\<lambda>(n, s). (n, s_status s)) (filter (\<lambda>(n, s). due (ps_rec p) n s) sights)"
  using assms
proof (induction sights arbitrary: p)
  case (Cons e sights)
  have "due (ps_rec (pass_look e p)) n s = due (ps_rec p) n s" if "(n, s) \<in> set sights" for n s
    using pass_look_other [of "fst e" n "snd e" p] Cons.prems that by (intro due_agree) (cases e, force)
  then have "filter (\<lambda>(n, s). due (ps_rec (pass_look e p)) n s) sights = filter (\<lambda>(n, s). due (ps_rec p) n s) sights"
    by (intro filter_cong) auto
  then show ?case
    using Cons by (cases e) (simp add: pass_look_todo)
qed simp

lemma fold_pass_look_busy:
  "(n, s) \<in> set sights \<Longrightarrow> WritesStore (s_running s) n \<Longrightarrow> RunningJob (s_running s) n = Some j \<Longrightarrow> j_Kind j \<noteq> KindReap
    \<Longrightarrow> ps_storeBusy (fold pass_look sights p)"
proof (induction sights arbitrary: p)
  case (Cons e sights)
  have keep: "ps_storeBusy q \<Longrightarrow> ps_storeBusy (fold pass_look sights q)" for q
    by (induction sights arbitrary: q) (auto simp: pass_look_busy)
  show ?case
  proof (cases "e = (n, s)")
    case True
    then have "ps_storeBusy (pass_look e p)"
      using Cons.prems by (simp add: pass_look_busy)
    then show ?thesis
      using keep by simp
  next
    case False
    then show ?thesis
      using Cons by auto
  qed
qed simp

lemma fold_pass_look_retryAt:
  assumes "distinct (map fst sights)" and "(i, s) \<in> set sights"
  shows "rc_retryAt (ps_rec (fold pass_look sights p)) i = rc_retryAt (note_job (s_noted s) (s_note s) i (ps_rec p)) i"
  using assms
proof (induction sights arbitrary: p)
  case (Cons e sights)
  show ?case
  proof (cases "e = (i, s)")
    case True
    then have "i \<notin> fst ` set sights"
      using Cons.prems by auto
    then have "rc_retryAt (ps_rec (fold pass_look sights (pass_look e p))) i = rc_retryAt (ps_rec (pass_look e p)) i"
      using fold_pass_look_other by (simp add: agree_def)
    then show ?thesis
      by (simp add: True pass_look_def Let_def split: option.split)
  next
    case False
    then have "(i, s) \<in> set sights"
      using Cons.prems(2) by auto
    have e: "fst e \<noteq> i"
      using Cons.prems(1) imageI [OF \<open>(i, s) \<in> set sights\<close>, of fst] by auto
    have "agree i (note_job (s_noted s) (s_note s) i (ps_rec (pass_look e p))) (note_job (s_noted s) (s_note s) i (ps_rec p))"
      using e pass_look_other [of "fst e" i "snd e" p] by (intro note_job_agree) simp
    then show ?thesis
      using Cons.IH [of "pass_look e p"] Cons.prems \<open>(i, s) \<in> set sights\<close> by (simp add: agree_def)
  qed
qed simp

text \<open>The starts: the due indexes, less those that wait for the store.\<close>

lemma pass_starts:
  assumes "distinct (map fst sights)" and "(i, k, why) \<in> set (snd (pass m sights r))"
  obtains s where "(i, s) \<in> set sights" and "due r i s" and "is_Action (s_status s) = Some k" and "is_Reason (s_status s) = why"
    and "\<not> pass_held (ps_storeBusy (fold pass_look sights \<lparr>ps_rec = r, ps_storeBusy = False, ps_todo = []\<rparr>)) (WritesStore m i) k"
  using assms(2) fold_pass_look_todo [OF assms(1), of "\<lparr>ps_rec = r, ps_storeBusy = False, ps_todo = []\<rparr>"]
  by (auto simp: pass_def Let_def split: option.splits if_splits)

section \<open>Jobs\<close>

text \<open>An example: a rebuild of an index of the store, at work.\<close>

definition ex_status :: IndexStatus where
  "ex_status = \<lparr>is_Enabled = True, is_Unavailable = [], is_State = ''needs_rebuild'', is_Action = Some KindRebuild, is_Reason = ''missing'', is_HasData = False,
     is_Entries = 0, is_Head = 7, is_Retired = 0\<rparr>"

definition ex_new_manager :: Manager where
  "ex_new_manager = NewManager True True [(''zaps'', True)] None"

definition ex_started :: Manager where
  "ex_started = fst (Start_first True ''j1'' (62135596900 * second) ''zaps'' KindRebuild TriggerReconcile ''missing'' ex_status ex_new_manager)"

definition ex_working :: Manager where
  "ex_working = exec_acquire 0 (exec_begin 0 ex_started)"

lemma ex_started_run:
  "length (m_heap ex_started) = 1" "r_stage (m_heap ex_started ! 0) = Fresh" "j_Index (r_job (m_heap ex_started ! 0)) = ''zaps''" "\<not> m_writer ex_started"
  "map_of (m_running ex_started) ''zaps'' = Some 0" "m_path ex_started" "WritesStore ex_started ''zaps''"
  by code_simp+

lemma ex_reach_started: "job_reach True (ex_started, 62135596900 * second)"
proof -
  have "job_reach True (ex_new_manager, 62135596900 * second)"
    unfolding ex_new_manager_def by (rule job_reach.fresh) simp_all
  then show ?thesis
    unfolding ex_started_def by (rule job_reach.step) (simp add: job_step.start)
qed

lemma ex_reach_working: "job_reach True (ex_working, 62135596900 * second)"
proof -
  have "job_reach True (exec_begin 0 ex_started, 62135596900 * second)"
    using ex_reach_started by (rule job_reach.step) (intro job_step.begin_run, simp_all add: ex_started_run)
  moreover have "r_stage (m_heap (exec_begin 0 ex_started) ! 0) = WaitingWriter" "\<not> m_writer (exec_begin 0 ex_started)" "length (m_heap (exec_begin 0 ex_started)) = 1"
    using ex_started_run by (simp_all add: exec_begin_def upd_run_def)
  then have "job_step True (exec_begin 0 ex_started, 62135596900 * second) (ex_working, 62135596900 * second)"
    unfolding ex_working_def by (intro job_step.acquire) simp_all
  ultimately show ?thesis
    by (rule job_reach.step)
qed

text \<open>
  C17. The jobs of a relay keep out of each other's way, under every interleaving of starts, progress, ends, cancellations and shutdown: an index has
  at most one job that is not yet recorded, two jobs never work on the event store at once, the store's writer is taken exactly while a
  job that got it has not given it back, so it is never lost, the history holds only ended jobs and at most 20 of an index, and it lists them newest first.
\<close>

theorem jobs_safe:
  assumes "job_reach W (m, t)"
  shows "(\<forall>a < length (m_heap m). \<forall>b < length (m_heap m). \<not> past_record (m_heap m ! a) \<and> \<not> past_record (m_heap m ! b)
      \<and> j_Index (r_job (m_heap m ! a)) = j_Index (r_job (m_heap m ! b)) \<longrightarrow> a = b)
    \<and> (\<forall>a < length (m_heap m). \<forall>b < length (m_heap m). r_stage (m_heap m ! a) = Working \<and> r_stage (m_heap m ! b) = Working
      \<and> WritesStore m (j_Index (r_job (m_heap m ! a))) \<and> WritesStore m (j_Index (r_job (m_heap m ! b))) \<longrightarrow> a = b)
    \<and> (m_writer m \<longleftrightarrow> (\<exists>a < length (m_heap m). r_writer (m_heap m ! a) \<and> \<not> r_done (m_heap m ! a) \<and> r_stage (m_heap m ! a) \<notin> {Fresh, WaitingWriter}))
    \<and> (\<forall>j \<in> set (m_history m). Ended j)
    \<and> (\<forall>i. length (filter (\<lambda>j. j_Index j = i) (m_history m)) \<le> 20
      \<and> sorted (map (\<lambda>j. - j_StartedAt j) (filter (\<lambda>j. j_Index j = i) (m_history m))))"
proof -
  note inv = jobs_inv_reach [OF assms]
  note run = jobs_inv_run [OF inv, unfolded run_ok_def Let_def]
  have "\<forall>a < length (m_heap m). \<forall>b < length (m_heap m). \<not> past_record (m_heap m ! a) \<and> \<not> past_record (m_heap m ! b)
      \<and> j_Index (r_job (m_heap m ! a)) = j_Index (r_job (m_heap m ! b)) \<longrightarrow> a = b"
    using run by (metis option.inject)
  moreover have "\<forall>a < length (m_heap m). \<forall>b < length (m_heap m). r_stage (m_heap m ! a) = Working \<and> r_stage (m_heap m ! b) = Working
      \<and> WritesStore m (j_Index (r_job (m_heap m ! a))) \<and> WritesStore m (j_Index (r_job (m_heap m ! b))) \<longrightarrow> a = b"
    using run jobs_inv_one_writer [OF inv] by (fastforce simp: writers_def)
  moreover have "m_writer m \<longleftrightarrow> (\<exists>a < length (m_heap m). r_writer (m_heap m ! a) \<and> \<not> r_done (m_heap m ! a) \<and> r_stage (m_heap m ! a) \<notin> {Fresh, WaitingWriter})"
    using run jobs_inv_writer [OF inv] by (fastforce simp: writers_def)
  ultimately show ?thesis
    using jobs_inv_history [OF inv] by (simp add: history_ok_def)
qed

theorem jobs_safe_witness:
  "job_reach True (ex_working, 62135596900 * second) \<and> m_writer ex_working \<and> (\<exists>a < length (m_heap ex_working). r_writer (m_heap ex_working ! a))"
proof -
  have "m_writer ex_working"
    by (simp add: ex_working_def exec_acquire_def upd_run_def)
  then show ?thesis
    using jobs_safe [OF ex_reach_working] ex_reach_working by blast
qed



section \<open>Parking\<close>

text \<open>
  C19. A crash loop is parked, and nothing else is: a process that starts parks an index exactly when the newest three jobs the file holds of it
  were running when their process ended, or were found so before, and the three started within an hour; besides, an index whose newest job the file
  holds as parked, with the error that says so, stays parked.
\<close>

theorem crash_loop_parked:
  defines "L \<equiv> \<lambda>disk i. take 20 (filter (\<lambda>j. j_Index j = i) (sort_key (\<lambda>j. - j_StartedAt j) disk))"
  shows "Parked (NewManager ok True indexes (Some disk)) i \<noteq> [] \<longleftrightarrow>
    (i \<in> fst ` set indexes \<and> 3 \<le> length (L disk i) \<and> (\<forall>k < 3. j_State (L disk i ! k) = StateRunning \<or> is_died (L disk i ! k))
      \<and> j_StartedAt (L disk i ! 0) - j_StartedAt (L disk i ! 2) \<le> 3600)
    \<or> (L disk i \<noteq> [] \<and> j_Parked (L disk i ! 0) \<and> j_Error (died_job (L disk i ! 0)) \<noteq> [])"
proof -
  have L: "L disk i = loaded i (Some disk)"
    by (simp add: L_def loaded_def on_disk_def)
  have nth: "map died_job (loaded i (Some disk)) ! k = died_job (loaded i (Some disk) ! k)" if "3 \<le> length (loaded i (Some disk))" "k < 3" for k
    using that by simp
  have "must_park i (map died_job (loaded i (Some disk))) \<longleftrightarrow> 3 \<le> length (L disk i)
    \<and> (\<forall>k < 3. j_State (L disk i ! k) = StateRunning \<or> is_died (L disk i ! k)) \<and> j_StartedAt (L disk i ! 0) - j_StartedAt (L disk i ! 2) \<le> 3600"
    unfolding must_park_iff [OF of_index_of_loaded] L using nth [of 0] nth [of 2] by (auto simp: is_died_died_iff)
  then show ?thesis
    unfolding Parked_NewManager L by blast
qed

definition ex_crashed :: "string \<Rightarrow> int \<Rightarrow> Job" where
  "ex_crashed i t = blank_job\<lparr>j_ID := i, j_Index := ''zaps'', j_Kind := KindRebuild, j_StartedAt := t\<rparr>"

theorem crash_loop_parked_witness:
  "Parked (NewManager True True [(''zaps'', True)] (Some [ex_crashed ''c'' 1900, died_job (ex_crashed ''b'' 1500), died_job (ex_crashed ''a'' 1000)])) ''zaps'' \<noteq> []
   \<and> Parked (NewManager True True [(''zaps'', True)] (Some [ex_crashed ''c'' 5000, died_job (ex_crashed ''b'' 1500), died_job (ex_crashed ''a'' 1000)])) ''zaps'' = []"
proof -
  have ex: "j_Index (ex_crashed i t) = ''zaps''" "j_State (ex_crashed i t) = StateRunning" "j_StartedAt (ex_crashed i t) = t" "\<not> j_Parked (ex_crashed i t)" for i t
    by (simp_all add: ex_crashed_def blank_job_def)
  have "is_died (died_job (ex_crashed i t))" for i t
    by (simp add: is_died_died_iff ex)
  then show ?thesis
    using crash_loop_parked [of True "[(''zaps'', True)]" "[ex_crashed ''c'' 1900, died_job (ex_crashed ''b'' 1500), died_job (ex_crashed ''a'' 1000)]" "''zaps''"]
      crash_loop_parked [of True "[(''zaps'', True)]" "[ex_crashed ''c'' 5000, died_job (ex_crashed ''b'' 1500), died_job (ex_crashed ''a'' 1000)]" "''zaps''"]
    by (simp add: ex less_Suc_eq numeral_3_eq_3 numeral_2_eq_2)
qed

section \<open>The reconciler\<close>

text \<open>
  What a pass of the reconciler starts: only an index that it saw idle, not parked and asking for that job, and not before its time to retry: when the
  pass counts a failure of the index, a minute after it for the first, five for the second and fifteen from then on, and else the time an
  earlier pass set. An index outside the store is not rebuilt or rescored by a pass that saw a job, other than freeing old data, run on one of the store's.
\<close>

theorem pass_starts_due:
  assumes "distinct (map fst sights)" and "(i, k, why) \<in> set (snd (pass m sights r))"
  shows "\<exists>s. (i, s) \<in> set sights \<and> RunningJob (s_running s) i = None \<and> Parked (s_parked s) i = [] \<and> is_Action (s_status s) = Some k
      \<and> (if \<exists>j. LastJob (s_note s) i = Some j \<and> note_counts j i r
         then s_noted s + minute * ([1, 5, 15] ! min (rc_failures r i) 2) \<le> s_now s
         else \<forall>t. rc_retryAt r i = Some t \<longrightarrow> t \<le> s_now s)
      \<and> (\<forall>t. rc_retryAt (fst (pass m sights r)) i = Some t \<longrightarrow> t \<le> s_now s)
    \<and> (\<not> WritesStore m i \<and> (k = KindRebuild \<or> k = KindRescore) \<longrightarrow>
        (\<forall>(n, s') \<in> set sights. \<forall>j. WritesStore (s_running s') n \<and> RunningJob (s_running s') n = Some j \<longrightarrow> j_Kind j = KindReap))"
proof -
  let ?p = "\<lparr>ps_rec = r, ps_storeBusy = False, ps_todo = []\<rparr>"
  obtain s where s: "(i, s) \<in> set sights" "due r i s" "is_Action (s_status s) = Some k"
    and held: "\<not> pass_held (ps_storeBusy (fold pass_look sights ?p)) (WritesStore m i) k"
    using pass_starts [OF assms] by blast
  have b: "backoff n = minute * ([1, 5, 15] ! min n 2)" for n
    by (cases "n < 2") (auto simp: backoff_def reconcileBackoff_def less_2_cases_iff min_def)
  have after: "rc_retryAt (fst (pass m sights r)) i = rc_retryAt (note_job (s_noted s) (s_note s) i r) i"
    using fold_pass_look_retryAt [OF assms(1) s(1), of ?p] by (simp add: pass_def Let_def)
  have "rc_retryAt (note_job (s_noted s) (s_note s) i r) i =
      (if \<exists>j. LastJob (s_note s) i = Some j \<and> note_counts j i r then Some (s_noted s + backoff (rc_failures r i)) else rc_retryAt r i)"
    by (auto simp: note_job_def split: option.split)
  moreover have "\<forall>t. rc_retryAt (note_job (s_noted s) (s_note s) i r) i = Some t \<longrightarrow> t \<le> s_now s"
    using s(2) by (auto simp: due_def waits_def)
  moreover have "\<not> WritesStore m i \<and> (k = KindRebuild \<or> k = KindRescore) \<longrightarrow>
      (\<forall>(n, s') \<in> set sights. \<forall>j. WritesStore (s_running s') n \<and> RunningJob (s_running s') n = Some j \<longrightarrow> j_Kind j = KindReap)"
    using held fold_pass_look_busy [of _ _ sights _ ?p] by (auto simp: pass_held_def)
  ultimately show ?thesis
    using s unfolding after by (intro exI [of _ s]) (auto simp: due_def b split: if_splits)
qed

definition ex_sight :: "Manager \<Rightarrow> gtime \<Rightarrow> sight" where
  "ex_sight m now = \<lparr>s_note = m, s_noted = now, s_running = m, s_parked = m, s_status = ex_status, s_now = now\<rparr>"

theorem pass_starts_due_witness:
  "(''zaps'', KindRebuild, ''missing'') \<in> set (snd (pass ex_new_manager [(''zaps'', ex_sight ex_new_manager 5)] Reconcile))
   \<and> RunningJob ex_new_manager ''zaps'' = None"
proof -
  have st: "(''zaps'', KindRebuild, ''missing'') \<in> set (snd (pass ex_new_manager [(''zaps'', ex_sight ex_new_manager 5)] Reconcile))"
    by code_simp
  have "RunningJob ex_new_manager ''zaps'' = None"
    using pass_starts_due [OF _ st] by (auto simp: ex_sight_def)
  with st show ?thesis
    by blast
qed

text \<open>
  The pass notes failures before it asks for the running job. A job that fails in between is not noted, and is started again at once, without the backoff.
\<close>

lemma unnoted_failure_restarts:
  assumes "m_running m' = []" and "LastJob m' ''zaps'' = Some j" and "j_State j = StateFailed" and "\<not> j_Parked j"
    and "LastJob m ''zaps'' = None"
  shows "snd (pass m' [(''zaps'', \<lparr>s_note = m, s_noted = now, s_running = m', s_parked = m', s_status = ex_status, s_now = now\<rparr>)] Reconcile)
    = [(''zaps'', KindRebuild, ''missing'')]"
  using assms
  by (simp add: pass_def pass_look_def Let_def note_job_def RunningJob_def Parked_def waits_def Reconcile_def ex_status_def pass_held_def)

end
