(* ===== verification/Relay_Moderation.thy ===== *)
theory Relay_Moderation
  imports Nostr Go_Text "HOL-Library.List_Lexorder" "HOL-Library.Char_ord"
begin

text \<open>
  The relay's moderation (\<open>cli/relay/moderation.go\<close>): bans, kind rules, blocked addresses and the relay's own description, changed through NIP-86 and saved before a change
  takes effect; and the policy that refuses events and requests. The request's parameters, the parsing of keys and addresses and the event store are those of packages outside
  the repository.
\<close>

section \<open>State\<close>

record moderationState =
  ms_BannedPubkeys :: "string \<rightharpoonup> string"
  ms_BannedEvents :: "string \<rightharpoonup> string"
  ms_AllowedKinds :: "int list"
  ms_DisallowedKinds :: "int list"
  ms_BlockedIPs :: "string \<rightharpoonup> string"
  ms_Name :: "string option"
  ms_Description :: "string option"
  ms_Icon :: "string option"

definition no_moderation :: moderationState where
  "no_moderation = \<lparr>ms_BannedPubkeys = Map.empty, ms_BannedEvents = Map.empty, ms_AllowedKinds = [], ms_DisallowedKinds = [], ms_BlockedIPs = Map.empty, ms_Name = None, ms_Description = None, ms_Icon = None\<rparr>"

text \<open>The moderation of a relay, with the file it is saved in, the events of the store, and how often the description was published anew.\<close>

record relayModeration =
  md_self :: string
  md_state :: moderationState
  md_disk :: "moderationState option"
  md_store :: "event list"
  md_published :: nat

text \<open>A file that cannot be read or parsed ends the start of the relay.\<close>

definition loadModeration :: "string \<Rightarrow> (goerr + moderationState) option \<Rightarrow> event list \<Rightarrow> goerr + relayModeration" where
  "loadModeration self data store =
     (case data of
        None \<Rightarrow> Inr \<lparr>md_self = to_lower self, md_state = no_moderation, md_disk = None, md_store = store, md_published = 0\<rparr>
      | Some (Inl e) \<Rightarrow> Inl e
      | Some (Inr s) \<Rightarrow> Inr \<lparr>md_self = to_lower self, md_state = s, md_disk = Some s, md_store = store, md_published = 0\<rparr>)"

text \<open>The file is written beside the old one and renamed: \<open>save\<close> is its error, and then the file is as it was.\<close>

definition update_moderation :: "goerr option \<Rightarrow> (moderationState \<Rightarrow> moderationState) \<Rightarrow> relayModeration \<Rightarrow> goerr option \<times> relayModeration" where
  "update_moderation save f m =
     (let next = f (md_state m) in
      case save of Some e \<Rightarrow> (Some e, m) | None \<Rightarrow> (None, m\<lparr>md_state := next, md_disk := Some next\<rparr>))"

definition kindRules :: "relayModeration \<Rightarrow> int list \<times> int list" where
  "kindRules m = (ms_AllowedKinds (md_state m), ms_DisallowedKinds (md_state m))"

section \<open>Refusing\<close>

definition eventPolicy :: "relayModeration option \<Rightarrow> event option \<Rightarrow> string" where
  "eventPolicy mo evo =
     (case (mo, evo) of
        (Some m, Some ev) \<Rightarrow>
          let pubkey = to_lower (ev_PubKey ev); s = md_state m in
          if md_self m \<noteq> [] \<and> pubkey = md_self m then []
          else if ms_BannedPubkeys s pubkey \<noteq> None then ''blocked: pubkey is banned from this relay''
          else if ms_BannedEvents s (to_lower (ev_ID ev)) \<noteq> None then ''blocked: event is banned from this relay''
          else if ev_Kind ev \<in> set (ms_DisallowedKinds s) \<or> length (ms_AllowedKinds s) > 0 \<and> ev_Kind ev \<notin> set (ms_AllowedKinds s)
               then ''blocked: kind '' @ itoa (ev_Kind ev) @ '' is not allowed on this relay''
          else []
      | _ \<Rightarrow> [])"

definition bannedPubkey :: "relayModeration option \<Rightarrow> string \<Rightarrow> bool" where
  "bannedPubkey mo pubkey = (case mo of None \<Rightarrow> False | Some m \<Rightarrow> ms_BannedPubkeys (md_state m) (to_lower pubkey) \<noteq> None)"

text \<open>\<open>hostOf\<close> is the host of \<open>net.SplitHostPort\<close>, \<open>ip\<close> the canonical text of the address that \<open>net.ParseIP\<close> reads.\<close>

definition ipBlocked :: "(string \<Rightarrow> string option) \<Rightarrow> (string \<Rightarrow> string option) \<Rightarrow> string \<Rightarrow> relayModeration \<Rightarrow> bool" where
  "ipBlocked hostOf ip remote m =
     (let host = (case hostOf remote of Some h \<Rightarrow> h | None \<Rightarrow> remote) in
      case ip host of None \<Rightarrow> False | Some a \<Rightarrow> ms_BlockedIPs (md_state m) a \<noteq> None)"

text \<open>Whether the gate lets a request through.\<close>

definition ipGate :: "(string \<Rightarrow> string option) \<Rightarrow> (string \<Rightarrow> string option) \<Rightarrow> bool \<Rightarrow> string \<Rightarrow> string \<Rightarrow> relayModeration \<Rightarrow> bool" where
  "ipGate hostOf ip management http_method remote m \<longleftrightarrow> \<not> (\<not> management \<and> http_method \<noteq> ''OPTIONS'' \<and> ipBlocked hostOf ip remote m)"

definition applyNip11 :: "relayModeration \<Rightarrow> string \<times> string \<times> string \<Rightarrow> string \<times> string \<times> string" where
  "applyNip11 m = (\<lambda>(name, description, icon).
     (case ms_Name (md_state m) of Some v \<Rightarrow> v | None \<Rightarrow> name, case ms_Description (md_state m) of Some v \<Rightarrow> v | None \<Rightarrow> description,
      case ms_Icon (md_state m) of Some v \<Rightarrow> v | None \<Rightarrow> icon))"

section \<open>Requests\<close>

text \<open>A NIP-86 request gives its parameters as texts and numbers, or an error when one is missing or of another type.\<close>

record nip86_request =
  rq_String :: "nat \<Rightarrow> goerr + string"
  rq_Int :: "nat \<Rightarrow> goerr + int"
  rq_len :: nat

text \<open>\<open>mo_ParsePublicKey\<close> is \<open>nip19.ParsePublicKey\<close>, \<open>mo_ParseIP\<close> the canonical text of \<open>net.ParseIP\<close>.\<close>

record moderation_env =
  mo_ParsePublicKey :: "string \<Rightarrow> goerr + string"
  mo_ParseIP :: "string \<Rightarrow> string option"

definition optionalReason :: "nip86_request \<Rightarrow> nat \<Rightarrow> goerr + string" where
  "optionalReason req i = (if rq_len req \<le> i then Inr [] else rq_String req i)"

definition is_hex_lower :: "char \<Rightarrow> bool" where
  "is_hex_lower c \<longleftrightarrow> c \<in> set ''0123456789abcdef''"

text \<open>Trimming the hex digits off both ends leaves nothing exactly when there is no other character.\<close>

definition eventIDParam :: "nip86_request \<Rightarrow> goerr + string" where
  "eventIDParam req = try_bind (rq_String req 0) (\<lambda>i0. let i = to_lower i0 in
     if length i \<noteq> 64 \<or> (\<exists>c \<in> set i. \<not> is_hex_lower c) then Inl (Err ''%w: param 0 is not a hex event id'' []) else Inr i)"

definition kindParam :: "nip86_request \<Rightarrow> goerr + int" where
  "kindParam req = try_bind (rq_Int req 0) (\<lambda>k. if k < 0 \<or> k > 65535 then Inl (Err ''%w: kind %d is out of range'' []) else Inr k)"

definition ipParam :: "moderation_env \<Rightarrow> nip86_request \<Rightarrow> goerr + string" where
  "ipParam E req = try_bind (rq_String req 0) (\<lambda>raw. case mo_ParseIP E (trim_space raw) of None \<Rightarrow> Inl (Err ''%w: param 0 is not an IP address'' []) | Some a \<Rightarrow> Inr a)"

definition pubkeyParam :: "moderation_env \<Rightarrow> nip86_request \<Rightarrow> goerr + string" where
  "pubkeyParam E req = try_bind (rq_String req 0) (mo_ParsePublicKey E)"

datatype text_field = NameField | DescriptionField | IconField

datatype nip86_method = BanPubkey | UnbanPubkey | ListBannedPubkeys | BanEvent | AllowEvent | ListBannedEvents | ListEventsNeedingModeration | ChangeText text_field
  | AllowKind | DisallowKind | ListAllowedKinds | ListDisallowedKinds | BlockIP | UnblockIP | ListBlockedIPs

datatype answer = Done | Rows "(string \<times> string) list" | Kinds "int list"

definition sortedEntries :: "(string \<rightharpoonup> string) \<Rightarrow> (string \<times> string) list" where
  "sortedEntries mp = map (\<lambda>k. (k, the (mp k))) (sorted_list_of_set (dom mp))"

definition set_text :: "text_field \<Rightarrow> string \<Rightarrow> moderationState \<Rightarrow> moderationState" where
  "set_text f v s = (case f of NameField \<Rightarrow> s\<lparr>ms_Name := Some v\<rparr> | DescriptionField \<Rightarrow> s\<lparr>ms_Description := Some v\<rparr> | IconField \<Rightarrow> s\<lparr>ms_Icon := Some v\<rparr>)"

definition insert_kind :: "int \<Rightarrow> int list \<Rightarrow> int list" where
  "insert_kind k ks = (if k \<in> set ks then ks else sort (ks @ [k]))"

definition allow_kind :: "int \<Rightarrow> moderationState \<Rightarrow> moderationState" where
  "allow_kind k s = s\<lparr>ms_DisallowedKinds := filter (\<lambda>x. x \<noteq> k) (ms_DisallowedKinds s), ms_AllowedKinds := insert_kind k (ms_AllowedKinds s)\<rparr>"

definition disallow_kind :: "int \<Rightarrow> moderationState \<Rightarrow> moderationState" where
  "disallow_kind k s = s\<lparr>ms_AllowedKinds := filter (\<lambda>x. x \<noteq> k) (ms_AllowedKinds s), ms_DisallowedKinds := insert_kind k (ms_DisallowedKinds s)\<rparr>"

text \<open>The result of an update, as a method answers it.\<close>

definition answer_update :: "goerr option \<times> relayModeration \<Rightarrow> (goerr + answer) \<times> relayModeration" where
  "answer_update r = (case r of (Some e, m) \<Rightarrow> (Inl e, m) | (None, m) \<Rightarrow> (Inr Done, m))"

definition with_param :: "goerr + 'a \<Rightarrow> relayModeration \<Rightarrow> ('a \<Rightarrow> (goerr + answer) \<times> relayModeration) \<Rightarrow> (goerr + answer) \<times> relayModeration" where
  "with_param p m f = (case p of Inl e \<Rightarrow> (Inl e, m) | Inr x \<Rightarrow> f x)"

text \<open>\<open>banevent\<close> also deletes the stored event; \<open>find\<close> and \<open>del\<close> are the errors of the store.\<close>

definition ban_event :: "goerr option \<Rightarrow> goerr option \<Rightarrow> goerr option \<Rightarrow> string \<Rightarrow> string \<Rightarrow> relayModeration \<Rightarrow> (goerr + answer) \<times> relayModeration" where
  "ban_event save find_err del_err i reason m =
     (case update_moderation save (\<lambda>s. s\<lparr>ms_BannedEvents := (ms_BannedEvents s)(i \<mapsto> reason)\<rparr>) m of
        (Some e, m1) \<Rightarrow> (Inl e, m1)
      | (None, m1) \<Rightarrow>
          (case find_err of
             Some e \<Rightarrow> (Inl e, m1)
           | None \<Rightarrow>
               if \<not> (\<exists>ev \<in> set (md_store m1). ev_ID ev = i) then (Inr Done, m1)
               else (case del_err of Some e \<Rightarrow> (Inl e, m1) | None \<Rightarrow> (Inr Done, m1\<lparr>md_store := filter (\<lambda>ev. ev_ID ev \<noteq> i) (md_store m1)\<rparr>))))"

text \<open>One call of a method; the three errors are those of the save and of the store.\<close>

fun call_method :: "moderation_env \<Rightarrow> goerr option \<Rightarrow> goerr option \<Rightarrow> goerr option \<Rightarrow> nip86_method \<Rightarrow> nip86_request \<Rightarrow> relayModeration \<Rightarrow> (goerr + answer) \<times> relayModeration" where
  "call_method E save fe de BanPubkey req m =
     with_param (pubkeyParam E req) m (\<lambda>pk.
       if pk = md_self m then (Inl (Err ''the relay's own key can't be banned'' []), m)
       else with_param (optionalReason req 1) m (\<lambda>reason. answer_update (update_moderation save (\<lambda>s. s\<lparr>ms_BannedPubkeys := (ms_BannedPubkeys s)(pk \<mapsto> reason)\<rparr>) m)))"
| "call_method E save fe de UnbanPubkey req m =
     with_param (pubkeyParam E req) m (\<lambda>pk. answer_update (update_moderation save (\<lambda>s. s\<lparr>ms_BannedPubkeys := (ms_BannedPubkeys s)(pk := None)\<rparr>) m))"
| "call_method E save fe de ListBannedPubkeys req m = (Inr (Rows (sortedEntries (ms_BannedPubkeys (md_state m)))), m)"
| "call_method E save fe de BanEvent req m =
     with_param (eventIDParam req) m (\<lambda>i. with_param (optionalReason req 1) m (\<lambda>reason. ban_event save fe de i reason m))"
| "call_method E save fe de AllowEvent req m =
     with_param (eventIDParam req) m (\<lambda>i. answer_update (update_moderation save (\<lambda>s. s\<lparr>ms_BannedEvents := (ms_BannedEvents s)(i := None)\<rparr>) m))"
| "call_method E save fe de ListBannedEvents req m = (Inr (Rows (sortedEntries (ms_BannedEvents (md_state m)))), m)"
| "call_method E save fe de ListEventsNeedingModeration req m = (Inr (Rows []), m)"
| "call_method E save fe de (ChangeText f) req m =
     with_param (rq_String req 0) m (\<lambda>v. case update_moderation save (set_text f v) m of
       (Some e, m1) \<Rightarrow> (Inl e, m1) | (None, m1) \<Rightarrow> (Inr Done, m1\<lparr>md_published := Suc (md_published m1)\<rparr>))"
| "call_method E save fe de AllowKind req m = with_param (kindParam req) m (\<lambda>k. answer_update (update_moderation save (allow_kind k) m))"
| "call_method E save fe de DisallowKind req m = with_param (kindParam req) m (\<lambda>k. answer_update (update_moderation save (disallow_kind k) m))"
| "call_method E save fe de ListAllowedKinds req m = (Inr (Kinds (ms_AllowedKinds (md_state m))), m)"
| "call_method E save fe de ListDisallowedKinds req m = (Inr (Kinds (ms_DisallowedKinds (md_state m))), m)"
| "call_method E save fe de BlockIP req m =
     with_param (ipParam E req) m (\<lambda>a. with_param (optionalReason req 1) m (\<lambda>reason. answer_update (update_moderation save (\<lambda>s. s\<lparr>ms_BlockedIPs := (ms_BlockedIPs s)(a \<mapsto> reason)\<rparr>) m)))"
| "call_method E save fe de UnblockIP req m =
     with_param (ipParam E req) m (\<lambda>a. answer_update (update_moderation save (\<lambda>s. s\<lparr>ms_BlockedIPs := (ms_BlockedIPs s)(a := None)\<rparr>) m))"
| "call_method E save fe de ListBlockedIPs req m = (Inr (Rows (sortedEntries (ms_BlockedIPs (md_state m)))), m)"

end
