(* ===== verification/Relay_Moderation_Theorems.thy ===== *)
theory Relay_Moderation_Theorems
  imports Relay_Moderation
begin

text \<open>
  What holds of the relay's moderation after any calls, failed saves and restarts. Moderation over time: the state in memory is what the file holds, and it says of every key, event, kind and address what the last change of it said.
\<close>

section \<open>Changes\<close>

datatype change = Pub string bool | Evt string bool | Knd int bool | Addr string bool | Txt text_field string

text \<open>The change that a call asks for, if its parameters are in order.\<close>

definition reason_ok :: "nip86_request \<Rightarrow> bool" where
  "reason_ok req = (case optionalReason req 1 of Inr _ \<Rightarrow> True | Inl _ \<Rightarrow> False)"

fun asked :: "moderation_env \<Rightarrow> string \<Rightarrow> nip86_method \<Rightarrow> nip86_request \<Rightarrow> change option" where
  "asked E self BanPubkey req = (case pubkeyParam E req of Inr k \<Rightarrow> if k \<noteq> self \<and> reason_ok req then Some (Pub k True) else None | Inl _ \<Rightarrow> None)"
| "asked E self UnbanPubkey req = (case pubkeyParam E req of Inr k \<Rightarrow> Some (Pub k False) | Inl _ \<Rightarrow> None)"
| "asked E self BanEvent req = (case eventIDParam req of Inr i \<Rightarrow> if reason_ok req then Some (Evt i True) else None | Inl _ \<Rightarrow> None)"
| "asked E self AllowEvent req = (case eventIDParam req of Inr i \<Rightarrow> Some (Evt i False) | Inl _ \<Rightarrow> None)"
| "asked E self (ChangeText f) req = (case rq_String req 0 of Inr v \<Rightarrow> Some (Txt f v) | Inl _ \<Rightarrow> None)"
| "asked E self AllowKind req = (case kindParam req of Inr k \<Rightarrow> Some (Knd k True) | Inl _ \<Rightarrow> None)"
| "asked E self DisallowKind req = (case kindParam req of Inr k \<Rightarrow> Some (Knd k False) | Inl _ \<Rightarrow> None)"
| "asked E self BlockIP req = (case ipParam E req of Inr a \<Rightarrow> if reason_ok req then Some (Addr a True) else None | Inl _ \<Rightarrow> None)"
| "asked E self UnblockIP req = (case ipParam E req of Inr a \<Rightarrow> Some (Addr a False) | Inl _ \<Rightarrow> None)"
| "asked E self _ req = None"

text \<open>A state after a change: what a ban or a block gives as its reason is left open.\<close>

inductive changes :: "moderationState \<Rightarrow> change \<Rightarrow> moderationState \<Rightarrow> bool" where
  "changes s (Pub k True) (s\<lparr>ms_BannedPubkeys := (ms_BannedPubkeys s)(k \<mapsto> r)\<rparr>)"
| "changes s (Pub k False) (s\<lparr>ms_BannedPubkeys := (ms_BannedPubkeys s)(k := None)\<rparr>)"
| "changes s (Evt k True) (s\<lparr>ms_BannedEvents := (ms_BannedEvents s)(k \<mapsto> r)\<rparr>)"
| "changes s (Evt k False) (s\<lparr>ms_BannedEvents := (ms_BannedEvents s)(k := None)\<rparr>)"
| "changes s (Addr k True) (s\<lparr>ms_BlockedIPs := (ms_BlockedIPs s)(k \<mapsto> r)\<rparr>)"
| "changes s (Addr k False) (s\<lparr>ms_BlockedIPs := (ms_BlockedIPs s)(k := None)\<rparr>)"
| "changes s (Knd i True) (allow_kind i s)"
| "changes s (Knd i False) (disallow_kind i s)"
| "changes s (Txt f v) (set_text f v s)"

lemmas call_defs = with_param_def answer_update_def update_moderation_def ban_event_def reason_ok_def Let_def

text \<open>A call makes the change it asks for, or none when it asks for none or the save fails.\<close>

lemma call_method_effect:
  assumes "call_method E save fe de meth req m = (res, m')"
  shows "md_self m' = md_self m \<and> (case asked E (md_self m) meth req of
      Some c \<Rightarrow> (if save = None then changes (md_state m) c (md_state m') \<and> md_disk m' = Some (md_state m') else md_state m' = md_state m \<and> md_disk m' = md_disk m \<and> (\<exists>e. res = Inl e))
    | None \<Rightarrow> md_state m' = md_state m \<and> md_disk m' = md_disk m)"
  using assms by (cases meth) (auto simp: call_defs intro: changes.intros split: sum.splits option.splits if_splits prod.splits)

section \<open>Runs\<close>

inductive mrun :: "moderation_env \<Rightarrow> string \<Rightarrow> relayModeration \<Rightarrow> change list \<Rightarrow> bool" for E self where
  mrun_start: "loadModeration self None store = Inr m \<Longrightarrow> mrun E self m []"
| mrun_call: "mrun E self m log \<Longrightarrow> call_method E save fe de meth req m = (res, m') \<Longrightarrow>
    mrun E self m' (log @ (if save = None then (case asked E (md_self m) meth req of Some c \<Rightarrow> [c] | None \<Rightarrow> []) else []))"
| mrun_restart: "mrun E self m log \<Longrightarrow> loadModeration self (map_option Inr (md_disk m)) (md_store m) = Inr m' \<Longrightarrow> mrun E self m' log"

text \<open>What the last change of something said.\<close>

definition last_of :: "('c \<Rightarrow> 'v option) \<Rightarrow> 'c list \<Rightarrow> 'v option" where
  "last_of f cs = fold (\<lambda>c acc. case f c of Some b \<Rightarrow> Some b | None \<Rightarrow> acc) cs None"

lemma last_of_simps [simp]: "last_of f [] = None" "last_of f (cs @ [c]) = (case f c of Some b \<Rightarrow> Some b | None \<Rightarrow> last_of f cs)"
  by (simp_all add: last_of_def split: option.split)

definition of_pub :: "string \<Rightarrow> change \<Rightarrow> bool option" where "of_pub k c = (case c of Pub k' b \<Rightarrow> if k' = k then Some b else None | _ \<Rightarrow> None)"
definition of_evt :: "string \<Rightarrow> change \<Rightarrow> bool option" where "of_evt k c = (case c of Evt k' b \<Rightarrow> if k' = k then Some b else None | _ \<Rightarrow> None)"
definition of_knd :: "int \<Rightarrow> change \<Rightarrow> bool option" where "of_knd k c = (case c of Knd k' b \<Rightarrow> if k' = k then Some b else None | _ \<Rightarrow> None)"
definition of_addr :: "string \<Rightarrow> change \<Rightarrow> bool option" where "of_addr k c = (case c of Addr k' b \<Rightarrow> if k' = k then Some b else None | _ \<Rightarrow> None)"
definition of_txt :: "text_field \<Rightarrow> change \<Rightarrow> string option" where "of_txt f c = (case c of Txt f' v \<Rightarrow> if f' = f then Some v else None | _ \<Rightarrow> None)"

lemmas of_defs = of_pub_def of_evt_def of_knd_def of_addr_def of_txt_def

definition text_of :: "text_field \<Rightarrow> moderationState \<Rightarrow> string option" where
  "text_of f s = (case f of NameField \<Rightarrow> ms_Name s | DescriptionField \<Rightarrow> ms_Description s | IconField \<Rightarrow> ms_Icon s)"

definition says :: "change list \<Rightarrow> moderationState \<Rightarrow> bool" where
  "says log s \<longleftrightarrow> (\<forall>k. ms_BannedPubkeys s k \<noteq> None \<longleftrightarrow> last_of (of_pub k) log = Some True) \<and> (\<forall>k. ms_BannedEvents s k \<noteq> None \<longleftrightarrow> last_of (of_evt k) log = Some True)
     \<and> (\<forall>k. ms_BlockedIPs s k \<noteq> None \<longleftrightarrow> last_of (of_addr k) log = Some True)
     \<and> (\<forall>k. k \<in> set (ms_AllowedKinds s) \<longleftrightarrow> last_of (of_knd k) log = Some True) \<and> (\<forall>k. k \<in> set (ms_DisallowedKinds s) \<longleftrightarrow> last_of (of_knd k) log = Some False)
     \<and> (\<forall>f. text_of f s = last_of (of_txt f) log)"

lemma set_insert_kind [simp]: "set (insert_kind k ks) = insert k (set ks)"
  by (auto simp: insert_kind_def)

lemma insert_kind_sorted: "sorted ks \<Longrightarrow> distinct ks \<Longrightarrow> sorted (insert_kind k ks) \<and> distinct (insert_kind k ks)"
  by (simp add: insert_kind_def)

lemma says_change: "changes s c s' \<Longrightarrow> says log s \<Longrightarrow> says (log @ [c]) s'"
  by (induction rule: changes.induct) (auto simp: says_def of_defs allow_kind_def disallow_kind_def set_text_def text_of_def split: text_field.splits)

definition kinds_ok :: "moderationState \<Rightarrow> bool" where
  "kinds_ok s \<longleftrightarrow> sorted (ms_AllowedKinds s) \<and> distinct (ms_AllowedKinds s) \<and> sorted (ms_DisallowedKinds s) \<and> distinct (ms_DisallowedKinds s)"

lemma kinds_change: "changes s c s' \<Longrightarrow> kinds_ok s \<Longrightarrow> kinds_ok s'"
  by (induction rule: changes.induct) (auto simp: kinds_ok_def allow_kind_def disallow_kind_def insert_kind_sorted sorted_filter [where f = "\<lambda>x. x", simplified] set_text_def split: text_field.splits)

text \<open>The changes that requests make are in range.\<close>

definition in_range :: "string \<Rightarrow> change \<Rightarrow> bool" where
  "in_range self c = (case c of Pub k b \<Rightarrow> \<not> b \<or> k \<noteq> self | Evt i b \<Rightarrow> length i = 64 \<and> (\<forall>x \<in> set i. is_hex_lower x) | Knd k b \<Rightarrow> 0 \<le> k \<and> k \<le> 65535 | _ \<Rightarrow> True)"

lemma asked_in_range: "asked E self meth req = Some c \<Longrightarrow> in_range self c"
  by (cases meth) (auto simp: in_range_def eventIDParam_def kindParam_def Let_def split: sum.splits if_splits)

definition mod_inv :: "string \<Rightarrow> relayModeration \<Rightarrow> change list \<Rightarrow> bool" where
  "mod_inv self m log \<longleftrightarrow> md_self m = to_lower self \<and> md_state m = (case md_disk m of Some s \<Rightarrow> s | None \<Rightarrow> no_moderation) \<and> says log (md_state m) \<and> kinds_ok (md_state m)
     \<and> (\<forall>c \<in> set log. in_range (to_lower self) c)"

lemma fresh_inv: "mod_inv self \<lparr>md_self = to_lower self, md_state = no_moderation, md_disk = None, md_store = store, md_published = 0\<rparr> []"
proof -
  have "text_of f no_moderation = None" for f
    by (cases f) (simp_all add: text_of_def no_moderation_def)
  then show ?thesis
    unfolding mod_inv_def says_def kinds_ok_def by (simp add: no_moderation_def)
qed

lemma mrun_inv: "mrun E self m log \<Longrightarrow> mod_inv self m log"
proof (induction rule: mrun.induct)
  case (mrun_start store m)
  then have "m = \<lparr>md_self = to_lower self, md_state = no_moderation, md_disk = None, md_store = store, md_published = 0\<rparr>"
    by (simp add: loadModeration_def)
  then show ?case
    by (simp only: fresh_inv)
next
  case (mrun_call m log save fe de meth req res m')
  note eff = call_method_effect [OF mrun_call(2)]
  have self: "md_self m' = to_lower self" and IH: "mod_inv self m log"
    using eff mrun_call.IH unfolding mod_inv_def by metis+
  consider (same) "md_state m' = md_state m" "md_disk m' = md_disk m" "asked E (md_self m) meth req = None \<or> save \<noteq> None"
    | (change) c where "asked E (md_self m) meth req = Some c" "save = None" "changes (md_state m) c (md_state m')" "md_disk m' = Some (md_state m')"
    using eff by (cases "asked E (md_self m) meth req"; cases "save = None") simp_all
  then show ?case
  proof cases
    case same
    then have "log @ (if save = None then (case asked E (md_self m) meth req of Some c \<Rightarrow> [c] | None \<Rightarrow> []) else []) = log"
      by auto
    moreover have "mod_inv self m' log"
      using same(1,2) self IH unfolding mod_inv_def by metis
    ultimately show ?thesis
      by (simp only:)
  next
    case change
    have "in_range (to_lower self) c"
      using asked_in_range [OF change(1)] IH by (simp add: mod_inv_def)
    moreover have "says (log @ [c]) (md_state m')" "kinds_ok (md_state m')"
      using says_change [OF change(3)] kinds_change [OF change(3)] IH unfolding mod_inv_def by blast+
    ultimately have "mod_inv self m' (log @ [c])"
      using change(4) self IH unfolding mod_inv_def by simp
    then show ?thesis
      using change(1,2) by simp
  qed
next
  case (mrun_restart m log m')
  then show ?case
    by (auto simp: loadModeration_def mod_inv_def split: option.splits)
qed

text \<open>What was last said of something was said.\<close>

lemma last_of_in: "last_of f cs = Some v \<Longrightarrow> \<exists>c \<in> set cs. f c = Some v"
  by (induction cs rule: rev_induct) (auto split: option.splits)

lemma in_range_log:
  assumes "mod_inv self m log" "last_of (of_knd k) log = Some b"
  shows "0 \<le> k \<and> k \<le> 65535"
proof -
  obtain c where "c \<in> set log" "of_knd k c = Some b"
    using last_of_in [OF assms(2)] by blast
  with assms(1) show ?thesis
    by (cases c) (auto simp: mod_inv_def of_knd_def in_range_def split: if_splits)
qed

lemma self_not_banned:
  assumes "mod_inv self m log"
  shows "last_of (of_pub (to_lower self)) log \<noteq> Some True"
proof
  assume "last_of (of_pub (to_lower self)) log = Some True"
  then obtain c where "c \<in> set log" "of_pub (to_lower self) c = Some True"
    by (auto dest: last_of_in)
  with assms show False
    by (cases c) (auto simp: mod_inv_def of_pub_def in_range_def split: if_splits)
qed

text \<open>What the policy refuses, in terms of the changes made.\<close>

lemma eventPolicy_says:
  assumes "mod_inv self m log"
  shows "eventPolicy (Some m) (Some ev) = [] \<longleftrightarrow>
      (self \<noteq> [] \<and> to_lower (ev_PubKey ev) = to_lower self)
      \<or> (last_of (of_pub (to_lower (ev_PubKey ev))) log \<noteq> Some True \<and> last_of (of_evt (to_lower (ev_ID ev))) log \<noteq> Some True
         \<and> last_of (of_knd (ev_Kind ev)) log \<noteq> Some False
         \<and> ((\<exists>k. last_of (of_knd k) log = Some True) \<longrightarrow> last_of (of_knd (ev_Kind ev)) log = Some True))"
proof -
  have says: "says log (md_state m)" and self: "md_self m = to_lower self"
    using assms by (auto simp: mod_inv_def)
  have pub: "ms_BannedPubkeys (md_state m) k \<noteq> None \<longleftrightarrow> last_of (of_pub k) log = Some True" for k
    using says by (simp add: says_def)
  have evt: "ms_BannedEvents (md_state m) k \<noteq> None \<longleftrightarrow> last_of (of_evt k) log = Some True" for k
    using says by (simp add: says_def)
  have dis: "k \<in> set (ms_DisallowedKinds (md_state m)) \<longleftrightarrow> last_of (of_knd k) log = Some False" for k
    using says by (simp add: says_def)
  have alw: "k \<in> set (ms_AllowedKinds (md_state m)) \<longleftrightarrow> last_of (of_knd k) log = Some True" for k
    using says by (simp add: says_def)
  have some: "length (ms_AllowedKinds (md_state m)) > 0 \<longleftrightarrow> (\<exists>k. last_of (of_knd k) log = Some True)"
    using alw by (metis length_greater_0_conv list.set_intros(1) list.set(1) empty_iff neq_Nil_conv)
  have none: "to_lower self = [] \<longleftrightarrow> self = []"
    by (simp add: to_lower_def)
  show ?thesis
    unfolding eventPolicy_def option.case prod.case Let_def self pub evt dis alw some none by auto
qed

lemma moderation_facts:
  assumes "mrun E self m log"
  shows "loadModeration self (map_option Inr (md_disk m)) (md_store m) = Inr (m\<lparr>md_published := 0\<rparr>)"
    and "sorted (ms_AllowedKinds (md_state m)) \<and> distinct (ms_AllowedKinds (md_state m)) \<and> sorted (ms_DisallowedKinds (md_state m)) \<and> distinct (ms_DisallowedKinds (md_state m))
      \<and> set (ms_AllowedKinds (md_state m)) \<inter> set (ms_DisallowedKinds (md_state m)) = {} \<and> set (ms_AllowedKinds (md_state m)) \<union> set (ms_DisallowedKinds (md_state m)) \<subseteq> {0..65535}"
    and "eventPolicy (Some m) (Some ev) = [] \<longleftrightarrow>
      (self \<noteq> [] \<and> to_lower (ev_PubKey ev) = to_lower self)
      \<or> (last_of (of_pub (to_lower (ev_PubKey ev))) log \<noteq> Some True \<and> last_of (of_evt (to_lower (ev_ID ev))) log \<noteq> Some True
         \<and> last_of (of_knd (ev_Kind ev)) log \<noteq> Some False
         \<and> ((\<exists>k. last_of (of_knd k) log = Some True) \<longrightarrow> last_of (of_knd (ev_Kind ev)) log = Some True))"
    and "ipGate hostOf ip management http_method remote m \<longleftrightarrow> management \<or> http_method = ''OPTIONS''
      \<or> (case ip (case hostOf remote of Some h \<Rightarrow> h | None \<Rightarrow> remote) of None \<Rightarrow> True | Some a \<Rightarrow> last_of (of_addr a) log \<noteq> Some True)"
    and "bannedPubkey (Some m) self = False"
proof -
  note inv = mrun_inv [OF assms]
  then have says: "says log (md_state m)" and self: "md_self m = to_lower self" and st: "md_state m = (case md_disk m of Some s \<Rightarrow> s | None \<Rightarrow> no_moderation)"
    by (auto simp: mod_inv_def)
  show "loadModeration self (map_option Inr (md_disk m)) (md_store m) = Inr (m\<lparr>md_published := 0\<rparr>)"
    using self st by (cases "md_disk m"; cases m) (simp_all add: loadModeration_def)
  have dis: "k \<in> set (ms_DisallowedKinds (md_state m)) \<longleftrightarrow> last_of (of_knd k) log = Some False" for k
    using says by (simp add: says_def)
  have alw: "k \<in> set (ms_AllowedKinds (md_state m)) \<longleftrightarrow> last_of (of_knd k) log = Some True" for k
    using says by (simp add: says_def)
  have "set (ms_AllowedKinds (md_state m)) \<inter> set (ms_DisallowedKinds (md_state m)) = {}"
    using dis alw by fastforce
  moreover have "set (ms_AllowedKinds (md_state m)) \<union> set (ms_DisallowedKinds (md_state m)) \<subseteq> {0..65535}"
    using dis alw in_range_log [OF inv] by fastforce
  ultimately show "sorted (ms_AllowedKinds (md_state m)) \<and> distinct (ms_AllowedKinds (md_state m)) \<and> sorted (ms_DisallowedKinds (md_state m)) \<and> distinct (ms_DisallowedKinds (md_state m))
      \<and> set (ms_AllowedKinds (md_state m)) \<inter> set (ms_DisallowedKinds (md_state m)) = {} \<and> set (ms_AllowedKinds (md_state m)) \<union> set (ms_DisallowedKinds (md_state m)) \<subseteq> {0..65535}"
    using inv unfolding mod_inv_def kinds_ok_def by blast
  show "eventPolicy (Some m) (Some ev) = [] \<longleftrightarrow>
      (self \<noteq> [] \<and> to_lower (ev_PubKey ev) = to_lower self)
      \<or> (last_of (of_pub (to_lower (ev_PubKey ev))) log \<noteq> Some True \<and> last_of (of_evt (to_lower (ev_ID ev))) log \<noteq> Some True
         \<and> last_of (of_knd (ev_Kind ev)) log \<noteq> Some False
         \<and> ((\<exists>k. last_of (of_knd k) log = Some True) \<longrightarrow> last_of (of_knd (ev_Kind ev)) log = Some True))"
    by (rule eventPolicy_says [OF inv])
  have "ms_BlockedIPs (md_state m) k \<noteq> None \<longleftrightarrow> last_of (of_addr k) log = Some True" for k
    using says by (simp add: says_def)
  then show "ipGate hostOf ip management http_method remote m \<longleftrightarrow> management \<or> http_method = ''OPTIONS''
      \<or> (case ip (case hostOf remote of Some h \<Rightarrow> h | None \<Rightarrow> remote) of None \<Rightarrow> True | Some a \<Rightarrow> last_of (of_addr a) log \<noteq> Some True)"
    by (auto simp: ipGate_def ipBlocked_def Let_def split: option.splits)
  have "ms_BannedPubkeys (md_state m) k \<noteq> None \<longleftrightarrow> last_of (of_pub k) log = Some True" for k
    using says by (simp add: says_def)
  then show "bannedPubkey (Some m) self = False"
    using self_not_banned [OF inv] by (auto simp: bannedPubkey_def)
qed


text \<open>
  C22. After any sequence of NIP-86 calls, failed saves and restarts: a restart finds the state that is in force; the allowed and disallowed kinds are sorted, without repetition, disjoint and in range;
  an event is accepted exactly when the relay wrote it itself, or the last word on its author and on its id is not a ban, the last word on its kind is not a refusal and, if any kind is allowed,
  its kind is; and an address is refused exactly when the last word on it was a block, management calls apart. The last word is that of the calls whose save succeeded.
\<close>

theorem moderation_last_word:
  assumes "mrun E self m log"
  shows "loadModeration self (map_option Inr (md_disk m)) (md_store m) = Inr (m\<lparr>md_published := 0\<rparr>)
    \<and> sorted (ms_AllowedKinds (md_state m)) \<and> distinct (ms_AllowedKinds (md_state m)) \<and> sorted (ms_DisallowedKinds (md_state m)) \<and> distinct (ms_DisallowedKinds (md_state m))
    \<and> set (ms_AllowedKinds (md_state m)) \<inter> set (ms_DisallowedKinds (md_state m)) = {} \<and> set (ms_AllowedKinds (md_state m)) \<union> set (ms_DisallowedKinds (md_state m)) \<subseteq> {0..65535}
    \<and> (\<forall>ev. eventPolicy (Some m) (Some ev) = [] \<longleftrightarrow>
      (self \<noteq> [] \<and> to_lower (ev_PubKey ev) = to_lower self)
      \<or> (last_of (of_pub (to_lower (ev_PubKey ev))) log \<noteq> Some True \<and> last_of (of_evt (to_lower (ev_ID ev))) log \<noteq> Some True
         \<and> last_of (of_knd (ev_Kind ev)) log \<noteq> Some False
         \<and> ((\<exists>k. last_of (of_knd k) log = Some True) \<longrightarrow> last_of (of_knd (ev_Kind ev)) log = Some True)))
    \<and> (\<forall>hostOf ip management http_method remote. ipGate hostOf ip management http_method remote m \<longleftrightarrow> management \<or> http_method = ''OPTIONS''
      \<or> (case ip (case hostOf remote of Some h \<Rightarrow> h | None \<Rightarrow> remote) of None \<Rightarrow> True | Some a \<Rightarrow> last_of (of_addr a) log \<noteq> Some True))
    \<and> \<not> bannedPubkey (Some m) self"
  using moderation_facts(2,5) [OF assms] by (simp only: moderation_facts(1,3,4) [OF assms]) blast

text \<open>A relay on which a key was banned, a kind allowed, an address blocked, and that was restarted.\<close>

definition ex_mod_env :: moderation_env where
  "ex_mod_env = \<lparr>mo_ParsePublicKey = Inr, mo_ParseIP = Some\<rparr>"

definition ex_req :: "string \<Rightarrow> int \<Rightarrow> nip86_request" where
  "ex_req s k = \<lparr>rq_String = (\<lambda>i. Inr s), rq_Int = (\<lambda>i. Inr k), rq_len = 1\<rparr>"

definition ex_mod0 :: relayModeration where
  "ex_mod0 = \<lparr>md_self = ''me'', md_state = no_moderation, md_disk = None, md_store = [], md_published = 0\<rparr>"

definition ex_mod1 :: relayModeration where
  "ex_mod1 = snd (call_method ex_mod_env None None None BanPubkey (ex_req ''eve'' 0) ex_mod0)"

definition ex_mod2 :: relayModeration where
  "ex_mod2 = snd (call_method ex_mod_env None None None AllowKind (ex_req [] 1) ex_mod1)"

definition ex_log :: "change list" where
  "ex_log = [Pub ''eve'' True, Knd 1 True]"

lemmas ex_mod_defs = ex_mod_env_def ex_req_def pubkeyParam_def kindParam_def optionalReason_def reason_ok_def call_defs

lemma ex_mod_log: "mrun ex_mod_env ''me'' ex_mod2 ex_log"
proof -
  have "mrun ex_mod_env ''me'' ex_mod0 []"
    by (rule mrun_start [of _ "[]"]) (simp add: loadModeration_def ex_mod0_def to_lower_def to_lower_char_def)
  moreover have "asked ex_mod_env (md_self ex_mod0) BanPubkey (ex_req ''eve'' 0) = Some (Pub ''eve'' True)"
    by (simp add: ex_mod_defs ex_mod0_def)
  ultimately have "mrun ex_mod_env ''me'' ex_mod1 [Pub ''eve'' True]"
    using mrun_call [OF _ prod.collapse [symmetric], of ex_mod_env "''me''" ex_mod0 "[]" None None None BanPubkey "ex_req ''eve'' 0"] by (simp del: call_method.simps asked.simps add: ex_mod1_def)
  moreover have "asked ex_mod_env (md_self ex_mod1) AllowKind (ex_req [] 1) = Some (Knd 1 True)"
    by (simp add: ex_mod_defs)
  ultimately show ?thesis
    using mrun_call [OF _ prod.collapse [symmetric], of ex_mod_env "''me''" ex_mod1 "[Pub ''eve'' True]" None None None AllowKind "ex_req [] 1"] by (simp del: call_method.simps asked.simps add: ex_mod2_def ex_log_def)
qed

definition ex_note :: "string \<Rightarrow> int \<Rightarrow> event" where
  "ex_note pk k = \<lparr>ev_ID = ''i'', ev_PubKey = pk, ev_CreatedAt = 0, ev_Kind = k, ev_Tags = [], ev_Content = [], ev_Sig = []\<rparr>"

theorem moderation_last_word_witness:
  "mrun ex_mod_env ''me'' ex_mod2 ex_log \<and> eventPolicy (Some ex_mod2) (Some (ex_note ''bob'' 1)) = [] \<and> eventPolicy (Some ex_mod2) (Some (ex_note ''eve'' 1)) \<noteq> []
   \<and> eventPolicy (Some ex_mod2) (Some (ex_note ''bob'' 4)) \<noteq> [] \<and> eventPolicy (Some ex_mod2) (Some (ex_note ''ME'' 4)) = []"
proof -
  have *: "eventPolicy (Some ex_mod2) (Some ev) = [] \<longleftrightarrow>
      (''me'' \<noteq> [] \<and> to_lower (ev_PubKey ev) = to_lower ''me'')
      \<or> (last_of (of_pub (to_lower (ev_PubKey ev))) ex_log \<noteq> Some True \<and> last_of (of_evt (to_lower (ev_ID ev))) ex_log \<noteq> Some True
         \<and> last_of (of_knd (ev_Kind ev)) ex_log \<noteq> Some False
         \<and> ((\<exists>k. last_of (of_knd k) ex_log = Some True) \<longrightarrow> last_of (of_knd (ev_Kind ev)) ex_log = Some True))" for ev
    using moderation_last_word [OF ex_mod_log] by (elim conjE allE [of _ ev])
  show ?thesis
    unfolding * by (simp add: ex_mod_log) (auto simp: ex_note_def ex_log_def last_of_def of_defs to_lower_def to_lower_char_def char_of_def bit_0)
qed

text \<open>Refusing the only allowed kind opens the relay to all the others: no kind is allowed any more, so none is required.\<close>

lemma disallow_last_opens:
  assumes "ms_AllowedKinds s = [k]" "k' \<noteq> k" "k' \<notin> set (ms_DisallowedKinds s)"
  shows "ms_AllowedKinds (disallow_kind k s) = [] \<and> k' \<notin> set (ms_DisallowedKinds (disallow_kind k s))"
  using assms by (simp add: disallow_kind_def)

end
