(* ===== verification/Relay_Membership.thy ===== *)
theory Relay_Membership
  imports Nostr Go_Time
begin

text \<open>
  The administration of NIP-43 membership (\<open>cli/relay/membership_admin.go\<close>) and its two surfaces, the REST routes (\<open>cli/relay/service_membership.go\<close>) and the NIP-86 methods
  (\<open>cli/relay/service_nip86.go\<close>). The membership service and the event store of the relay library are outside the repository: their operations on a state of their own are the record \<open>service\<close>.
\<close>

section \<open>Data\<close>

text \<open>What the caller sent wrong, what does not exist, and everything else.\<close>

datatype admin_err = BadInput string "string list" | NotFound | Other goerr

record MemberRecord =
  mr_Pubkey :: string
  mr_Roles :: "string list"

record InviteClaim =
  ic_Code :: string
  ic_CreatedAt :: int
  ic_ExpiresAt :: int
  ic_MaxUses :: int
  ic_Uses :: int
  ic_Roles :: "string list"

record roleJSON =
  ro_ID :: string
  ro_Label :: string
  ro_Description :: string
  ro_Color :: "int option"
  ro_Order :: "int option"

text \<open>
  The operations of the service and of the store, on a state \<open>'w\<close>: members, claims, the relay's role definitions with what \<open>nip43.ParseRole\<close> makes of each, inserting an event of the relay's own, and ending the live
  calls of a key. \<open>sv_Sign\<close> signs an event with the relay's key; \<open>sv_Validate\<close> is the error of \<open>utils.Validate32Key\<close>.
\<close>

record 'w service =
  sv_Validate :: "string \<Rightarrow> goerr option"
  sv_Get :: "string \<Rightarrow> 'w \<Rightarrow> goerr + MemberRecord option"
  sv_List :: "'w \<Rightarrow> goerr + MemberRecord list"
  sv_Join :: "string \<Rightarrow> string list \<Rightarrow> 'w \<Rightarrow> goerr option \<times> 'w"
  sv_Leave :: "string \<Rightarrow> 'w \<Rightarrow> goerr option \<times> 'w"
  sv_IssueInvite :: "duration \<Rightarrow> int \<Rightarrow> string list \<Rightarrow> 'w \<Rightarrow> (goerr + InviteClaim) \<times> 'w"
  sv_GetClaim :: "string \<Rightarrow> 'w \<Rightarrow> goerr + InviteClaim option"
  sv_PutClaim :: "InviteClaim \<Rightarrow> 'w \<Rightarrow> goerr option \<times> 'w"
  sv_DeleteClaim :: "string \<Rightarrow> 'w \<Rightarrow> goerr option \<times> 'w"
  sv_ListClaims :: "'w \<Rightarrow> goerr + InviteClaim list"
  sv_RoleEvents :: "'w \<Rightarrow> goerr + (string \<times> roleJSON option) list"
  sv_RoleDefinition :: "roleJSON \<Rightarrow> event"
  sv_AddUser :: "string \<Rightarrow> event"
  sv_RemoveUser :: "string \<Rightarrow> event"
  sv_Deletion :: "string list list \<Rightarrow> event"
  sv_Sign :: "event \<Rightarrow> goerr + event"
  sv_Insert :: "event \<Rightarrow> 'w \<Rightarrow> goerr option \<times> 'w"
  sv_Evict :: "string \<Rightarrow> 'w \<Rightarrow> 'w"

text \<open>The part of the configuration that is used.\<close>

record membership_config =
  mc_Enabled :: bool
  mc_InviteTTL :: string
  mc_InviteMaxUses :: int
  mc_InviteMaxTTL :: string
  mc_InviteAllowNoExpiry :: bool
  mc_MemberClaims :: "bool option"
  mc_PublishAddRemoveEvents :: bool

record relay_config =
  rc_PubKey :: string
  rc_PrivKey :: string
  rc_Membership :: "membership_config option"
  rc_Nip86 :: "(bool \<times> string list) option"

text \<open>A step that stops at its first error, with the state it reached.\<close>

definition try_w :: "goerr option \<times> 'w \<Rightarrow> ('w \<Rightarrow> (admin_err + 'a) \<times> 'w) \<Rightarrow> (admin_err + 'a) \<times> 'w" where
  "try_w r f = (case r of (Some e, w) \<Rightarrow> (Inl (Other e), w) | (None, w) \<Rightarrow> f w)"

definition lift_err :: "goerr + 'a \<Rightarrow> admin_err + 'a" where
  "lift_err r = (case r of Inl e \<Rightarrow> Inl (Other e) | Inr x \<Rightarrow> Inr x)"

section \<open>Members\<close>

definition checkPubkey :: "'w service \<Rightarrow> string \<Rightarrow> admin_err option" where
  "checkPubkey S pubkey = (case sv_Validate S pubkey of Some e \<Rightarrow> Some (BadInput ''invalid pubkey: %v'' []) | None \<Rightarrow> None)"

definition getMember :: "'w service \<Rightarrow> string \<Rightarrow> 'w \<Rightarrow> admin_err + MemberRecord option" where
  "getMember S pubkey w = (case checkPubkey S pubkey of Some e \<Rightarrow> Inl e | None \<Rightarrow> lift_err (sv_Get S pubkey w))"

definition publishes_changes :: "relay_config \<Rightarrow> bool" where
  "publishes_changes C \<longleftrightarrow> (case rc_Membership C of Some m \<Rightarrow> mc_PublishAddRemoveEvents m | None \<Rightarrow> False)"

text \<open>An event of the relay's own about a change that was made: failing to sign or store it is logged, no more.\<close>

definition publishMembershipAdminEvent :: "relay_config \<Rightarrow> 'w service \<Rightarrow> event \<Rightarrow> 'w \<Rightarrow> 'w" where
  "publishMembershipAdminEvent C S ev w =
     (if rc_PrivKey C = [] then w else (case sv_Sign S ev of Inl e \<Rightarrow> w | Inr sev \<Rightarrow> snd (sv_Insert S sev w)))"

definition addMember :: "relay_config \<Rightarrow> 'w service \<Rightarrow> string \<Rightarrow> string list \<Rightarrow> 'w \<Rightarrow> (admin_err + MemberRecord option) \<times> 'w" where
  "addMember C S pubkey roles w =
     (case checkPubkey S pubkey of
        Some e \<Rightarrow> (Inl e, w)
      | None \<Rightarrow> try_w (sv_Join S pubkey roles w) (\<lambda>w1.
          let w2 = (if publishes_changes C then publishMembershipAdminEvent C S (sv_AddUser S pubkey) w1 else w1) in (lift_err (sv_Get S pubkey w2), w2)))"

definition removeMember :: "relay_config \<Rightarrow> 'w service \<Rightarrow> string \<Rightarrow> 'w \<Rightarrow> (admin_err + unit) \<times> 'w" where
  "removeMember C S pubkey w =
     (case checkPubkey S pubkey of
        Some e \<Rightarrow> (Inl e, w)
      | None \<Rightarrow> try_w (sv_Leave S pubkey w) (\<lambda>w1.
          let w2 = (if publishes_changes C then publishMembershipAdminEvent C S (sv_RemoveUser S pubkey) w1 else w1) in (Inr (), sv_Evict S pubkey w2)))"

section \<open>Invites\<close>

definition issueInvite :: "'w service \<Rightarrow> duration \<Rightarrow> int \<Rightarrow> string list \<Rightarrow> 'w \<Rightarrow> (admin_err + InviteClaim) \<times> 'w" where
  "issueInvite S ttl maxUses roles w =
     (if maxUses < 0 then (Inl (BadInput ''max_uses must be >= 0'' []), w) else (case sv_IssueInvite S ttl maxUses roles w of (r, w') \<Rightarrow> (lift_err r, w')))"

definition put_claim :: "'w service \<Rightarrow> InviteClaim \<Rightarrow> 'w \<Rightarrow> (admin_err + InviteClaim) \<times> 'w" where
  "put_claim S claim w = try_w (sv_PutClaim S claim w) (\<lambda>w'. (Inr claim, w'))"

text \<open>A claim is stored under a code that is not in use.\<close>

definition put_fresh :: "'w service \<Rightarrow> InviteClaim \<Rightarrow> 'w \<Rightarrow> (admin_err + InviteClaim) \<times> 'w" where
  "put_fresh S claim w =
     (case sv_GetClaim S (ic_Code claim) w of
        Inl e \<Rightarrow> (Inl (Other e), w)
      | Inr (Some _) \<Rightarrow> (Inl (BadInput ''that invite code already exists'' []), w)
      | Inr None \<Rightarrow> put_claim S claim w)"

definition issueInviteCode :: "'w service \<Rightarrow> gtime \<Rightarrow> string \<Rightarrow> duration \<Rightarrow> int \<Rightarrow> string list \<Rightarrow> 'w \<Rightarrow> (admin_err + InviteClaim) \<times> 'w" where
  "issueInviteCode S now code ttl maxUses roles w =
     (if code = [] then issueInvite S ttl maxUses roles w
      else if maxUses < 0 then (Inl (BadInput ''max_uses must be >= 0'' []), w)
      else put_fresh S \<lparr>ic_Code = code, ic_CreatedAt = time_unix now, ic_ExpiresAt = time_unix (time_add now ttl), ic_MaxUses = maxUses, ic_Uses = 0, ic_Roles = roles\<rparr> w)"

definition issueInviteWithLimits :: "'w service \<Rightarrow> gtime \<Rightarrow> string \<Rightarrow> int \<Rightarrow> int \<Rightarrow> string list \<Rightarrow> 'w \<Rightarrow> (admin_err + InviteClaim) \<times> 'w" where
  "issueInviteWithLimits S now code expiresAt maxUses roles w =
     (if code = [] then (Inl (BadInput ''invite code is required'' []), w)
      else put_fresh S \<lparr>ic_Code = code, ic_CreatedAt = time_unix now, ic_ExpiresAt = expiresAt, ic_MaxUses = maxUses, ic_Uses = 0, ic_Roles = roles\<rparr> w)"

text \<open>\<open>code\<close> is what \<open>nip43.NewClaim\<close> made.\<close>

definition issueInviteGenerated :: "'w service \<Rightarrow> gtime \<Rightarrow> string \<Rightarrow> int \<Rightarrow> int \<Rightarrow> string list \<Rightarrow> 'w \<Rightarrow> (admin_err + InviteClaim) \<times> 'w" where
  "issueInviteGenerated S now code expiresAt maxUses roles w =
     (if maxUses < 0 then (Inl (BadInput ''max_uses must be >= 0'' []), w)
      else put_claim S \<lparr>ic_Code = code, ic_CreatedAt = time_unix now, ic_ExpiresAt = expiresAt, ic_MaxUses = maxUses, ic_Uses = 0, ic_Roles = roles\<rparr> w)"

definition live :: "int \<Rightarrow> InviteClaim \<Rightarrow> bool" where
  "live now c \<longleftrightarrow> \<not> (ic_ExpiresAt c > 0 \<and> now > ic_ExpiresAt c) \<and> \<not> (ic_MaxUses c > 0 \<and> ic_Uses c \<ge> ic_MaxUses c)"

definition liveInviteCodes :: "'w service \<Rightarrow> gtime \<Rightarrow> 'w \<Rightarrow> goerr + string list" where
  "liveInviteCodes S now w = try_bind (sv_ListClaims S w) (\<lambda>cs. Inr (map ic_Code (filter (live (time_unix now)) cs)))"

definition getInvite :: "'w service \<Rightarrow> string \<Rightarrow> 'w \<Rightarrow> admin_err + InviteClaim" where
  "getInvite S code w =
     (if code = [] then Inl (BadInput ''invite code is required'' [])
      else (case sv_GetClaim S code w of Inl e \<Rightarrow> Inl (Other e) | Inr None \<Rightarrow> Inl NotFound | Inr (Some c) \<Rightarrow> Inr c))"

definition revokeInvite :: "'w service \<Rightarrow> string \<Rightarrow> 'w \<Rightarrow> (admin_err + unit) \<times> 'w" where
  "revokeInvite S code w = (case getInvite S code w of Inl e \<Rightarrow> (Inl e, w) | Inr _ \<Rightarrow> try_w (sv_DeleteClaim S code w) (\<lambda>w'. (Inr (), w')))"

abbreviation minClaimLength :: nat where "minClaimLength \<equiv> 16"

definition claim_char :: "char \<Rightarrow> bool" where
  "claim_char c \<longleftrightarrow> (let n = (of_char c :: nat) in 65 \<le> n \<and> n \<le> 90 \<or> 97 \<le> n \<and> n \<le> 122 \<or> 48 \<le> n \<and> n \<le> 57 \<or> n = 95 \<or> n = 45)"

text \<open>A rune outside ASCII is refused, as is each of its bytes.\<close>

definition validateClaimStrength :: "string \<Rightarrow> admin_err option" where
  "validateClaimStrength code =
     (if length code < minClaimLength then Some (BadInput ''invite code must be at least %d characters'' [])
      else if \<exists>c \<in> set code. \<not> claim_char c then Some (BadInput (''invite code may only contain letters, digits, '_' or '-'' @ [CHR 0x27]) [])
      else None)"

record invitePolicy =
  ip_defaultTTL :: duration
  ip_maxTTL :: duration
  ip_allowNoExpiry :: bool
  ip_defaultMaxUses :: int

record inviteLimits =
  il_ExpiresAt :: "int option"
  il_MaxUses :: "int option"

definition resolve_expiry :: "gtime \<Rightarrow> int option \<Rightarrow> invitePolicy \<Rightarrow> admin_err + int" where
  "resolve_expiry now e policy =
     (case e of
        None \<Rightarrow> Inr (time_unix (time_add now (ip_defaultTTL policy)))
      | Some v \<Rightarrow>
          if v = 0 then (if \<not> ip_allowNoExpiry policy then Inl (BadInput ''expires_at 0 (never expires) is not allowed by this relay'' []) else Inr 0)
          else if v \<le> time_unix now then Inl (BadInput ''expires_at must be in the future'' [])
          else if v > time_unix (time_add now (ip_maxTTL policy)) then Inl (BadInput ''expires_at is later than this relay allows (at most %s from now)'' [])
          else Inr v)"

definition resolve_uses :: "int option \<Rightarrow> invitePolicy \<Rightarrow> admin_err + int" where
  "resolve_uses u policy = (case u of None \<Rightarrow> Inr (ip_defaultMaxUses policy) | Some n \<Rightarrow> if n < 1 then Inl (BadInput ''max_uses must be >= 1'' []) else Inr n)"

definition resolveInviteLimits :: "gtime \<Rightarrow> inviteLimits \<Rightarrow> invitePolicy \<Rightarrow> admin_err + int \<times> int" where
  "resolveInviteLimits now lim policy =
     try_bind (resolve_expiry now (il_ExpiresAt lim) policy) (\<lambda>e. try_bind (resolve_uses (il_MaxUses lim) policy) (\<lambda>u. Inr (e, u)))"

text \<open>
  The flags of \<open>ncli relay invites create\<close> (\<open>cli/relay/admin.go\<close>), with the text of the lifetime as \<open>Duration.String\<close> gives it: at most one of the three, and the absolute expiry by the same rule as the relay's.
\<close>

record inviteExpiryChoice =
  ec_ttl :: string
  ec_expiresAt :: "int option"

definition resolveInviteCreateExpiry :: "string \<Rightarrow> bool \<Rightarrow> int \<Rightarrow> bool \<Rightarrow> bool \<Rightarrow> invitePolicy \<Rightarrow> gtime \<Rightarrow> admin_err + inviteExpiryChoice" where
  "resolveInviteCreateExpiry ttl ttlSet expiresAt expiresAtSet noExpiry policy now =
     (if length (filter id [ttlSet, expiresAtSet, noExpiry]) > 1 then Inl (BadInput ''--ttl, --expires-at and --no-expiry are mutually exclusive; give at most one'' [])
      else if noExpiry then
        (if \<not> ip_allowNoExpiry policy then Inl (BadInput ''--no-expiry is not allowed by this relay (membership.inviteAllowNoExpiry is false)'' [])
         else Inr \<lparr>ec_ttl = [], ec_expiresAt = Some 0\<rparr>)
      else if expiresAtSet then
        try_bind (resolveInviteLimits now \<lparr>il_ExpiresAt = Some expiresAt, il_MaxUses = None\<rparr> policy) (\<lambda>(resolved, _). Inr \<lparr>ec_ttl = [], ec_expiresAt = Some resolved\<rparr>)
      else if ttlSet then Inr \<lparr>ec_ttl = ttl, ec_expiresAt = None\<rparr>
      else Inr \<lparr>ec_ttl = [], ec_expiresAt = None\<rparr>)"

section \<open>Roles\<close>

definition listRoles :: "'w service \<Rightarrow> 'w \<Rightarrow> goerr + roleJSON list" where
  "listRoles S w = try_bind (sv_RoleEvents S w) (\<lambda>evs. Inr (map the (filter (\<lambda>r. r \<noteq> None) (map snd evs))))"

definition putRole :: "relay_config \<Rightarrow> 'w service \<Rightarrow> roleJSON \<Rightarrow> 'w \<Rightarrow> (admin_err + unit) \<times> 'w" where
  "putRole C S role w =
     (if ro_ID role = [] then (Inl (BadInput ''id is required'' []), w)
      else if (case ro_Color role of Some c \<Rightarrow> c < 0 \<or> c > 360 | None \<Rightarrow> False) then (Inl (BadInput ''color must be an integer 0-360'' []), w)
      else if rc_PrivKey C = [] then (Inl (Other (Err ''the relay has no nip11.privkey configured, so it cannot sign a role definition'' [])), w)
      else (case sv_Sign S (sv_RoleDefinition S role) of
          Inl e \<Rightarrow> (Inl (Other (Wrap ''failed to sign role definition: %w'' [] e)), w)
        | Inr ev \<Rightarrow> try_w (sv_Insert S ev w) (\<lambda>w'. (Inr (), w'))))"

definition deleteRole :: "relay_config \<Rightarrow> 'w service \<Rightarrow> string \<Rightarrow> 'w \<Rightarrow> (admin_err + unit) \<times> 'w" where
  "deleteRole C S i w =
     (if i = [] then (Inl (BadInput ''id is required'' []), w)
      else if rc_PrivKey C = [] then (Inl (Other (Err ''the relay has no nip11.privkey configured, so it cannot sign a deletion'' [])), w)
      else (case sv_RoleEvents S w of
          Inl e \<Rightarrow> (Inl (Other e), w)
        | Inr evs \<Rightarrow>
            let tags = map (\<lambda>(ev, r). [''e'', ev]) (filter (\<lambda>(ev, r). case r of Some role \<Rightarrow> ro_ID role = i | None \<Rightarrow> False) evs) in
            if tags = [] then (Inl (BadInput ''no such role: %s'' [i]), w)
            else (case sv_Sign S (sv_Deletion S tags) of
                Inl e \<Rightarrow> (Inl (Other (Wrap ''failed to sign role deletion: %w'' [] e)), w)
              | Inr del \<Rightarrow> try_w (sv_Insert S del w) (\<lambda>w'. (Inr (), w')))))"

text \<open>The roles after one is assigned or taken away.\<close>

definition change_roles :: "string \<Rightarrow> bool \<Rightarrow> string list \<Rightarrow> string list" where
  "change_roles roleID assign roles =
     (let kept = filter (\<lambda>r. r \<noteq> roleID \<or> assign) roles in if assign \<and> roleID \<notin> set roles then kept @ [roleID] else kept)"

definition setMemberRoles :: "'w service \<Rightarrow> string \<Rightarrow> string \<Rightarrow> bool \<Rightarrow> 'w \<Rightarrow> (admin_err + MemberRecord option) \<times> 'w" where
  "setMemberRoles S pubkey roleID assign w =
     (case checkPubkey S pubkey of
        Some e \<Rightarrow> (Inl e, w)
      | None \<Rightarrow>
          if roleID = [] then (Inl (BadInput ''role id is required'' []), w)
          else (case sv_Get S pubkey w of
              Inl e \<Rightarrow> (Inl (Other e), w)
            | Inr None \<Rightarrow> (Inl (BadInput ''pubkey is not a member of this relay'' []), w)
            | Inr (Some rec) \<Rightarrow> try_w (sv_Join S pubkey (change_roles roleID assign (mr_Roles rec)) w) (\<lambda>w'. (lift_err (sv_Get S pubkey w'), w'))))"

section \<open>NIP-86\<close>

definition nip86Admins :: "relay_config \<Rightarrow> string list" where
  "nip86Admins C = (if rc_PubKey C \<noteq> [] then [rc_PubKey C] else []) @ (case rc_Nip86 C of Some (_, admins) \<Rightarrow> admins | None \<Rightarrow> [])"

definition nip86Enabled :: "relay_config \<Rightarrow> bool" where
  "nip86Enabled C \<longleftrightarrow> (case rc_Nip86 C of Some (enabled, _) \<Rightarrow> enabled | None \<Rightarrow> False)"

definition membershipOn :: "relay_config \<Rightarrow> bool" where
  "membershipOn C \<longleftrightarrow> (case rc_Membership C of Some m \<Rightarrow> mc_Enabled m | None \<Rightarrow> False)"

text \<open>\<open>pd\<close> is \<open>time.ParseDuration\<close>.\<close>

definition positive_or :: "(string \<Rightarrow> duration option) \<Rightarrow> duration \<Rightarrow> string \<Rightarrow> duration" where
  "positive_or pd d s = (if s \<noteq> [] then (case pd s of Some v \<Rightarrow> if v > 0 then v else d | None \<Rightarrow> d) else d)"

definition membershipInviteTTL :: "(string \<Rightarrow> duration option) \<Rightarrow> relay_config \<Rightarrow> duration" where
  "membershipInviteTTL pd C = (case rc_Membership C of Some m \<Rightarrow> positive_or pd (24 * hour) (mc_InviteTTL m) | None \<Rightarrow> 24 * hour)"

definition membershipInviteMaxUses :: "relay_config \<Rightarrow> int" where
  "membershipInviteMaxUses C = (case rc_Membership C of Some m \<Rightarrow> mc_InviteMaxUses m | None \<Rightarrow> 0)"

definition membershipInviteMaxTTL :: "(string \<Rightarrow> duration option) \<Rightarrow> relay_config \<Rightarrow> duration" where
  "membershipInviteMaxTTL pd C = (case rc_Membership C of Some m \<Rightarrow> positive_or pd (720 * hour) (mc_InviteMaxTTL m) | None \<Rightarrow> 720 * hour)"

text \<open>What is checked of the block when the configuration is loaded, and its default filled in; \<open>pd\<close> as before.\<close>

definition checkAndDefaultMembership :: "(string \<Rightarrow> duration option) \<Rightarrow> relay_config \<Rightarrow> goerr + relay_config" where
  "checkAndDefaultMembership pd C =
     (case rc_Membership C of
        None \<Rightarrow> Inr C
      | Some m \<Rightarrow>
          if mc_Enabled m \<and> rc_PrivKey C = [] then Inl (Err ''membership.enabled requires nip11.privkey'' [])
          else if mc_InviteMaxUses m < 0 then Inl (Err ''membership.inviteMaxUses must be >= 0'' [])
          else (case (if mc_InviteMaxTTL m = [] then None
                      else (case pd (mc_InviteMaxTTL m) of
                          None \<Rightarrow> Some (Err ''membership.inviteMaxTTL is not a valid duration: %w'' [])
                        | Some d \<Rightarrow>
                            if d \<le> 0 then Some (Err ''membership.inviteMaxTTL must be > 0'' [])
                            else if d > 10 * 365 * 24 * hour then Some (Err ''membership.inviteMaxTTL must be <= 10 years'' [])
                            else None)) of
              Some e \<Rightarrow> Inl e
            | None \<Rightarrow> Inr (C\<lparr>rc_Membership := Some (case mc_MemberClaims m of None \<Rightarrow> m\<lparr>mc_MemberClaims := Some True\<rparr> | Some _ \<Rightarrow> m)\<rparr>)))"

definition membershipInviteAllowNoExpiry :: "relay_config \<Rightarrow> bool" where
  "membershipInviteAllowNoExpiry C = (case rc_Membership C of Some m \<Rightarrow> mc_InviteAllowNoExpiry m | None \<Rightarrow> False)"

definition membershipMemberClaims :: "relay_config \<Rightarrow> bool" where
  "membershipMemberClaims C = (case rc_Membership C of None \<Rightarrow> True | Some m \<Rightarrow> (case mc_MemberClaims m of None \<Rightarrow> True | Some b \<Rightarrow> b))"

definition invite_policy :: "(string \<Rightarrow> duration option) \<Rightarrow> relay_config \<Rightarrow> invitePolicy" where
  "invite_policy pd C = \<lparr>ip_defaultTTL = membershipInviteTTL pd C, ip_maxTTL = membershipInviteMaxTTL pd C, ip_allowNoExpiry = membershipInviteAllowNoExpiry C, ip_defaultMaxUses = membershipInviteMaxUses C\<rparr>"

datatype claim_method = AllowPubkey | UnallowPubkey | ListAllowedPubkeys | CreateClaim | CreateClaimWithLimits | ListClaims | GetClaim | DeleteClaim | CreateRole | EditRole | DeleteRole
  | AssignRole | UnassignRole | SupportedMethods | ModerationMethod

text \<open>\<open>Router.Visible\<close>: who may see and call a method.\<close>

definition visible :: "relay_config \<Rightarrow> string \<Rightarrow> claim_method \<Rightarrow> bool" where
  "visible C caller meth \<longleftrightarrow> (membershipMemberClaims C \<longrightarrow> caller \<in> set (nip86Admins C) \<or> meth = CreateClaim \<or> meth = SupportedMethods)"

text \<open>The parameters of a request: texts, or an error; the limits object, if there is one, as its strict decoder reads it; and the role object.\<close>

record claim_request =
  cr_String :: "nat \<Rightarrow> goerr + string"
  cr_len :: nat
  cr_limits :: "goerr + inviteLimits"
  cr_role :: "goerr + roleJSON"

datatype claim_answer = Yes | Claim InviteClaim | Codes "string list" | RouterList | Moderated

definition with_p :: "goerr + 'a \<Rightarrow> 'w \<Rightarrow> ('a \<Rightarrow> (admin_err + claim_answer) \<times> 'w) \<Rightarrow> (admin_err + claim_answer) \<times> 'w" where
  "with_p p w f = (case p of Inl e \<Rightarrow> (Inl (Other e), w) | Inr x \<Rightarrow> f x)"

definition say_yes :: "(admin_err + 'a) \<times> 'w \<Rightarrow> (admin_err + claim_answer) \<times> 'w" where
  "say_yes r = (case r of (Inl e, w) \<Rightarrow> (Inl e, w) | (Inr _, w) \<Rightarrow> (Inr Yes, w))"

definition createclaim :: "(string \<Rightarrow> duration option) \<Rightarrow> relay_config \<Rightarrow> 'w service \<Rightarrow> gtime \<Rightarrow> claim_request \<Rightarrow> 'w \<Rightarrow> (admin_err + claim_answer) \<times> 'w" where
  "createclaim pd C S now req w =
     with_p (if cr_len req > 0 then cr_String req 0 else Inr []) w (\<lambda>code.
       case (if code \<noteq> [] then validateClaimStrength code else None) of
         Some e \<Rightarrow> (Inl e, w)
       | None \<Rightarrow>
           (case issueInviteCode S now code (membershipInviteTTL pd C) (membershipInviteMaxUses C) [] w of
              (Inl e, w') \<Rightarrow> (Inl e, w')
            | (Inr claim, w') \<Rightarrow> (Inr (if code \<noteq> [] then Yes else Claim claim), w')))"

definition createclaimwithlimits :: "(string \<Rightarrow> duration option) \<Rightarrow> relay_config \<Rightarrow> 'w service \<Rightarrow> gtime \<Rightarrow> claim_request \<Rightarrow> 'w \<Rightarrow> (admin_err + claim_answer) \<times> 'w" where
  "createclaimwithlimits pd C S now req w =
     with_p (cr_String req 0) w (\<lambda>code.
       if code = [] then (Inl (BadInput ''invite code is required'' []), w)
       else (case validateClaimStrength code of
           Some e \<Rightarrow> (Inl e, w)
         | None \<Rightarrow>
             (case (if cr_len req > 1 then cr_limits req else Inr \<lparr>il_ExpiresAt = None, il_MaxUses = None\<rparr>) of
                Inl e \<Rightarrow> (Inl (BadInput ''invalid limits object: %v'' []), w)
              | Inr lim \<Rightarrow>
                  (case resolveInviteLimits now lim (invite_policy pd C) of
                     Inl e \<Rightarrow> (Inl e, w)
                   | Inr (expiresAt, maxUses) \<Rightarrow> say_yes (issueInviteWithLimits S now code expiresAt maxUses [] w)))))"

text \<open>\<open>supportedmethods\<close> is answered by the router, and the moderation methods, which have a state of their own, by \<open>Relay_Moderation\<close>.\<close>

fun claim_call :: "(string \<Rightarrow> duration option) \<Rightarrow> relay_config \<Rightarrow> 'w service \<Rightarrow> gtime \<Rightarrow> claim_method \<Rightarrow> claim_request \<Rightarrow> 'w \<Rightarrow> (admin_err + claim_answer) \<times> 'w" where
  "claim_call pd C S now AllowPubkey req w = with_p (cr_String req 0) w (\<lambda>pk. say_yes (addMember C S pk [] w))"
| "claim_call pd C S now UnallowPubkey req w = with_p (cr_String req 0) w (\<lambda>pk. say_yes (removeMember C S pk w))"
| "claim_call pd C S now ListAllowedPubkeys req w = with_p (sv_List S w) w (\<lambda>rs. (Inr (Codes (map mr_Pubkey rs)), w))"
| "claim_call pd C S now CreateClaim req w = createclaim pd C S now req w"
| "claim_call pd C S now CreateClaimWithLimits req w = createclaimwithlimits pd C S now req w"
| "claim_call pd C S now ListClaims req w = with_p (liveInviteCodes S now w) w (\<lambda>cs. (Inr (Codes cs), w))"
| "claim_call pd C S now GetClaim req w = with_p (cr_String req 0) w (\<lambda>code. case getInvite S code w of Inl e \<Rightarrow> (Inl e, w) | Inr c \<Rightarrow> (Inr (Claim c), w))"
| "claim_call pd C S now DeleteClaim req w = with_p (cr_String req 0) w (\<lambda>code. say_yes (revokeInvite S code w))"
| "claim_call pd C S now CreateRole req w = with_p (cr_role req) w (\<lambda>role. say_yes (putRole C S role w))"
| "claim_call pd C S now EditRole req w = with_p (cr_role req) w (\<lambda>role. say_yes (putRole C S role w))"
| "claim_call pd C S now DeleteRole req w = with_p (cr_String req 0) w (\<lambda>i. say_yes (deleteRole C S i w))"
| "claim_call pd C S now AssignRole req w = with_p (cr_String req 0) w (\<lambda>pk. with_p (cr_String req 1) w (\<lambda>r. say_yes (setMemberRoles S pk r True w)))"
| "claim_call pd C S now UnassignRole req w = with_p (cr_String req 0) w (\<lambda>pk. with_p (cr_String req 1) w (\<lambda>r. say_yes (setMemberRoles S pk r False w)))"
| "claim_call pd C S now SupportedMethods req w = (Inr RouterList, w)"
| "claim_call pd C S now ModerationMethod req w = (Inr Moderated, w)"

text \<open>
  \<open>newNip86Handler\<close>: whom the handler admits, and what it serves. Dispatch answers a hidden method as an unknown one; without membership only the moderation methods are there.
\<close>

definition admits :: "relay_config \<Rightarrow> (string \<Rightarrow> bool) \<Rightarrow> string \<Rightarrow> bool" where
  "admits C isMember caller \<longleftrightarrow> caller \<in> set (nip86Admins C) \<or> (membershipOn C \<and> membershipMemberClaims C \<and> isMember caller)"

definition newNip86Handler :: "relay_config \<Rightarrow> goerr + bool" where
  "newNip86Handler C =
     (if \<not> nip86Enabled C then Inr False
      else if nip86Admins C = [] then Inl (Err ''nip86.enabled requires nip11.pubkey or at least one nip86.admins entry'' []) else Inr True)"

definition offered :: "relay_config \<Rightarrow> string \<Rightarrow> claim_method \<Rightarrow> bool" where
  "offered C caller meth \<longleftrightarrow> (if membershipOn C then visible C caller meth else meth = ModerationMethod \<or> meth = SupportedMethods)"

definition serve_nip86 :: "(string \<Rightarrow> duration option) \<Rightarrow> relay_config \<Rightarrow> 'w service \<Rightarrow> gtime \<Rightarrow> (string \<Rightarrow> bool) \<Rightarrow> string \<Rightarrow> claim_method \<Rightarrow> claim_request \<Rightarrow> 'w \<Rightarrow> (admin_err + claim_answer) option \<times> 'w" where
  "serve_nip86 pd C S now isMember caller meth req w =
     (if newNip86Handler C \<noteq> Inr True \<or> \<not> admits C isMember caller then (None, w)
      else if offered C caller meth then (case claim_call pd C S now meth req w of (r, w') \<Rightarrow> (Some r, w'))
      else (Some (Inl (Other (Err ''unknown method'' []))), w))"

section \<open>REST\<close>

text \<open>A response: its status, and what it shows.\<close>

datatype shown = ShownError | ShownMembers "MemberRecord list" | ShownMember "MemberRecord option" | ShownClaim InviteClaim | ShownClaims "InviteClaim list" | ShownRoles "roleJSON list" | ShownRole roleJSON | ShownStatus string

definition writeAdminError :: "admin_err \<Rightarrow> nat" where
  "writeAdminError e = (case e of BadInput _ _ \<Rightarrow> 400 | NotFound \<Rightarrow> 404 | Other _ \<Rightarrow> 500)"

definition answer_rest :: "('a \<Rightarrow> shown) \<Rightarrow> (admin_err + 'a) \<times> 'w \<Rightarrow> (nat \<times> shown) \<times> 'w" where
  "answer_rest show_it r = (case r of (Inl e, w) \<Rightarrow> ((writeAdminError e, ShownError), w) | (Inr x, w) \<Rightarrow> ((200, show_it x), w))"

record invite_body =
  ib_TTL :: string
  ib_ExpiresAt :: "int option"
  ib_MaxUses :: int
  ib_Roles :: "string list"

definition handleInviteCreate :: "(string \<Rightarrow> duration option) \<Rightarrow> relay_config \<Rightarrow> 'w service \<Rightarrow> gtime \<Rightarrow> string \<Rightarrow> invite_body \<Rightarrow> 'w \<Rightarrow> (nat \<times> shown) \<times> 'w" where
  "handleInviteCreate pd C S now code body w =
     (case ib_ExpiresAt body of
        Some e \<Rightarrow>
          (case resolveInviteLimits now \<lparr>il_ExpiresAt = Some e, il_MaxUses = None\<rparr> (invite_policy pd C) of
             Inl err \<Rightarrow> ((writeAdminError err, ShownError), w)
           | Inr (expiresAt, _) \<Rightarrow> answer_rest ShownClaim (issueInviteGenerated S now code expiresAt (ib_MaxUses body) (ib_Roles body) w))
      | None \<Rightarrow>
          if ib_TTL body \<noteq> [] \<and> pd (ib_TTL body) = None then ((400, ShownError), w)
          else answer_rest ShownClaim (issueInvite S (if ib_TTL body \<noteq> [] then the (pd (ib_TTL body)) else 0) (ib_MaxUses body) (ib_Roles body) w))"

datatype rest_request = MembersList | MemberShow string | MemberAdd "(string \<times> string list) option" | MemberRemove string | InviteCreate "invite_body option" string | InviteList | InviteRevoke string
  | RolesList | RoleCreate "roleJSON option"

text \<open>The routes, behind \<open>requireMembership\<close>; a body that does not decode is \<open>None\<close>.\<close>

fun rest_call :: "(string \<Rightarrow> duration option) \<Rightarrow> relay_config \<Rightarrow> 'w service \<Rightarrow> gtime \<Rightarrow> rest_request \<Rightarrow> 'w \<Rightarrow> (nat \<times> shown) \<times> 'w" where
  "rest_call pd C S now MembersList w = answer_rest ShownMembers (lift_err (sv_List S w), w)"
| "rest_call pd C S now (MemberShow pk) w =
     (case getMember S pk w of Inl e \<Rightarrow> ((writeAdminError e, ShownError), w) | Inr None \<Rightarrow> ((404, ShownError), w) | Inr (Some rec) \<Rightarrow> ((200, ShownMember (Some rec)), w))"
| "rest_call pd C S now (MemberAdd body) w = (case body of None \<Rightarrow> ((400, ShownError), w) | Some (pk, roles) \<Rightarrow> answer_rest ShownMember (addMember C S pk roles w))"
| "rest_call pd C S now (MemberRemove pk) w = answer_rest (\<lambda>_. ShownStatus ''removed'') (removeMember C S pk w)"
| "rest_call pd C S now (InviteCreate body code) w = (case body of None \<Rightarrow> ((400, ShownError), w) | Some b \<Rightarrow> handleInviteCreate pd C S now code b w)"
| "rest_call pd C S now InviteList w = answer_rest ShownClaims (lift_err (sv_ListClaims S w), w)"
| "rest_call pd C S now (InviteRevoke code) w = answer_rest (\<lambda>_. ShownStatus ''revoked'') (revokeInvite S code w)"
| "rest_call pd C S now RolesList w = answer_rest ShownRoles (lift_err (listRoles S w), w)"
| "rest_call pd C S now (RoleCreate body) w = (case body of None \<Rightarrow> ((400, ShownError), w) | Some role \<Rightarrow> answer_rest (\<lambda>_. ShownRole role) (putRole C S role w))"

definition requireMembership :: "(string \<Rightarrow> duration option) \<Rightarrow> relay_config \<Rightarrow> 'w service \<Rightarrow> gtime \<Rightarrow> rest_request \<Rightarrow> 'w \<Rightarrow> (nat \<times> shown) \<times> 'w" where
  "requireMembership pd C S now req w = (if \<not> membershipOn C then ((501, ShownError), w) else rest_call pd C S now req w)"

end
