(* ===== verification/Relay_Membership_Theorems.thy ===== *)
theory Relay_Membership_Theorems
  imports Relay_Membership
begin

text \<open>
  What the administration of members and invites keeps: invites within the relay's policy, whoever asks, and changes of roles that change nothing else.
\<close>

section \<open>The service\<close>

text \<open>
  What the code relies on: a stored claim is read back and no other changes; a code that the service makes is new; operations on members, events and calls leave the claims alone;
  a joined member has the roles given, no other member changes; and a write that fails changes nothing.
\<close>

definition claims_kept :: "'w service \<Rightarrow> 'w \<Rightarrow> 'w \<Rightarrow> bool" where
  "claims_kept S w w' \<longleftrightarrow> (\<forall>k. sv_GetClaim S k w' = sv_GetClaim S k w)"

definition claims_grow :: "'w service \<Rightarrow> 'w \<Rightarrow> 'w \<Rightarrow> bool" where
  "claims_grow S w w' \<longleftrightarrow> (\<forall>k c. sv_GetClaim S k w = Inr (Some c) \<longrightarrow> sv_GetClaim S k w' = Inr (Some c))"

definition service_laws :: "'w service \<Rightarrow> bool" where
  "service_laws S \<longleftrightarrow>
     (\<forall>c w w'. sv_PutClaim S c w = (None, w') \<longrightarrow> sv_GetClaim S (ic_Code c) w' = Inr (Some c) \<and> (\<forall>k. k \<noteq> ic_Code c \<longrightarrow> sv_GetClaim S k w' = sv_GetClaim S k w))
   \<and> (\<forall>c w e w'. sv_PutClaim S c w = (Some e, w') \<longrightarrow> w' = w)
   \<and> (\<forall>ttl u roles w. claims_grow S w (snd (sv_IssueInvite S ttl u roles w)))
   \<and> (\<forall>pk roles w. claims_kept S w (snd (sv_Join S pk roles w))) \<and> (\<forall>pk w. claims_kept S w (snd (sv_Leave S pk w)))
   \<and> (\<forall>ev w. claims_kept S w (snd (sv_Insert S ev w))) \<and> (\<forall>pk w. claims_kept S w (sv_Evict S pk w))
   \<and> (\<forall>pk roles w w'. sv_Join S pk roles w = (None, w') \<longrightarrow> (\<exists>rec. sv_Get S pk w' = Inr (Some rec) \<and> mr_Roles rec = roles) \<and> (\<forall>q. q \<noteq> pk \<longrightarrow> sv_Get S q w' = sv_Get S q w))
   \<and> (\<forall>pk roles w e w'. sv_Join S pk roles w = (Some e, w') \<longrightarrow> w' = w)"


lemma claims_grow_refl [simp]: "claims_grow S w w"
  by (simp add: claims_grow_def)




lemma law_join:
  assumes "service_laws S" "sv_Join S pk roles w = (e, w')"
  shows "e = None \<Longrightarrow> \<exists>rec. sv_Get S pk w' = Inr (Some rec) \<and> mr_Roles rec = roles" "e = None \<Longrightarrow> q \<noteq> pk \<Longrightarrow> sv_Get S q w' = sv_Get S q w" "e \<noteq> None \<Longrightarrow> w' = w"
  using assms by (auto simp: service_laws_def)


section \<open>What each operation does to the claims\<close>








section \<open>Limits\<close>






lemma say_yes_snd [simp]: "snd (say_yes x) = snd x"
  by (cases x; cases "fst x") (simp_all add: say_yes_def)



section \<open>The two surfaces\<close>

text \<open>What the command line accepts, the relay's route does not refuse by its policy, where both have the same policy and the same time; the expiry is stored as it was asked for.\<close>

lemma command_line_agrees:
  assumes "resolveInviteCreateExpiry ttl ttlSet e eSet noExpiry (invite_policy pd C) now = Inr choice" "ec_expiresAt choice = Some v" "ib_ExpiresAt body = Some v"
  shows "handleInviteCreate pd C S now code body w = answer_rest ShownClaim (issueInviteGenerated S now code v (ib_MaxUses body) (ib_Roles body) w) \<and> v = (if noExpiry then 0 else e)"
  using assms by (auto simp: resolveInviteCreateExpiry_def handleInviteCreate_def resolveInviteLimits_def resolve_expiry_def resolve_uses_def split: if_splits)

text \<open>A configuration that loads has a ceiling that the invites' arithmetic can carry, uses that a claim can have, and a key to sign with where there are members; loading it again changes nothing.\<close>

lemma loaded_membership:
  assumes "checkAndDefaultMembership pd C = Inr C'" "rc_Membership C' = Some m"
  shows "0 < membershipInviteMaxTTL pd C' \<and> membershipInviteMaxTTL pd C' \<le> 10 * 365 * 24 * hour \<and> 0 \<le> membershipInviteMaxUses C' \<and> (mc_Enabled m \<longrightarrow> rc_PrivKey C' \<noteq> [])
    \<and> membershipMemberClaims C' = membershipMemberClaims C \<and> mc_MemberClaims m \<noteq> None \<and> checkAndDefaultMembership pd C' = Inr C'"
proof (cases "rc_Membership C")
  case None
  then show ?thesis using assms by (auto simp: checkAndDefaultMembership_def)
next
  case (Some m0)
  then show ?thesis
    using assms by (cases "mc_MemberClaims m0")
      (auto simp: checkAndDefaultMembership_def membershipInviteMaxTTL_def positive_or_def membershipInviteMaxUses_def membershipMemberClaims_def split: if_splits option.splits)
qed

section \<open>Roles\<close>

lemma set_change_roles [simp]: "set (change_roles r b roles) = (if b then insert r (set roles) else set roles - {r})"
  by (auto simp: change_roles_def Let_def)

text \<open>Assigning a role twice is assigning it once, and taking away a role that was just assigned leaves the roles as they were, in their order.\<close>

lemma change_roles_idem: "change_roles r b (change_roles r b roles) = change_roles r b roles"
  by (auto simp: change_roles_def Let_def)

lemma change_roles_undo: "r \<notin> set roles \<Longrightarrow> change_roles r False (change_roles r True roles) = roles"
  by (auto simp: change_roles_def Let_def filter_id_conv)

text \<open>An assignment changes the one role of the one member, and answers with the record it left.\<close>

lemma roles_exact:
  assumes "service_laws S" "setMemberRoles S pk role b w = (Inr r, w')"
  shows "\<exists>rec rec'. sv_Get S pk w = Inr (Some rec) \<and> r = Some rec' \<and> sv_Get S pk w' = Inr (Some rec') \<and> set (mr_Roles rec') = (if b then insert role (set (mr_Roles rec)) else set (mr_Roles rec) - {role})
    \<and> (\<forall>q. q \<noteq> pk \<longrightarrow> sv_Get S q w' = sv_Get S q w)"
proof -
  obtain rec where rec: "sv_Get S pk w = Inr (Some rec)"
    using assms(2) by (auto simp: setMemberRoles_def split: option.splits if_splits sum.splits)
  obtain e w1 where j: "sv_Join S pk (change_roles role b (mr_Roles rec)) w = (e, w1)" by fastforce
  have ok: "e = None" "w1 = w'" "lift_err (sv_Get S pk w') = Inr r"
    using assms(2) rec j by (auto simp: setMemberRoles_def try_w_def split: option.splits if_splits)
  obtain rec' where rec': "sv_Get S pk w' = Inr (Some rec')" "mr_Roles rec' = change_roles role b (mr_Roles rec)"
    using law_join(1) [OF assms(1) j ok(1)] ok(2) by blast
  then show ?thesis
    using rec ok law_join(2) [OF assms(1) j ok(1)] by (auto simp: lift_err_def)
qed

text \<open>
  The record is read and written in two steps, with no lock over both: of two assignments to one member that both read before either writes, the one that writes first is lost.
\<close>

lemma roles_lost_update:
  assumes "service_laws S" "sv_Get S pk w = Inr (Some rec)" "sv_Join S pk (change_roles a True (mr_Roles rec)) w = (None, w1)" "sv_Join S pk (change_roles b True (mr_Roles rec)) w1 = (None, w2)"
    and "a \<notin> set (mr_Roles rec)" "a \<noteq> b"
  shows "\<exists>rec2. sv_Get S pk w2 = Inr (Some rec2) \<and> a \<notin> set (mr_Roles rec2)"
  using law_join(1) [OF assms(1,4)] assms(5,6) by fastforce

section \<open>An example\<close>









end
