(* ===== verification/Relay_Meili.thy ===== *)
theory Relay_Meili
  imports Nostr Go_Text Go_Time "HOL-Library.List_Lexorder" "HOL-Library.Char_ord"
begin

text \<open>
  The client of the search server (\<open>cli/common/meilisearch/meili_client.go\<close>). The server itself is outside the repository: each request is answered by a function of the requests before it, and a log keeps every
  request with its answer, in order. A client's method is a computation on that log that may stop with the text of an error.
\<close>

section \<open>Requests\<close>

datatype task_end = TaskSucceeded | TaskFailed string string | TaskCanceled

text \<open>What \<open>observe\<close> reads of a task and of its batch.\<close>

record task_info =
  ti_Batch :: "int option"
  ti_Duration :: string

record batch_info =
  bi_Duration :: string
  bi_Documents :: int
  bi_Trace :: "(string \<times> string) list"

record TaskStat =
  ts_At :: gtime
  ts_Task :: int
  ts_Documents :: nat
  ts_Duration :: duration
  ts_Batch :: int
  ts_BatchDocs :: int
  ts_SlowestStep :: string
  ts_SlowestTime :: duration

datatype entry =
    EIndex string "string + string \<times> string"
  | ECreate string "string + int"
  | ESettings string "string + int"
  | EWait int "string + task_end"
  | ECount string "string + int"
  | ESwap string string "string + int"
  | EDelete string "string + int"
  | EAdd string "string list" "string + int"
  | EDeleteDocs string "string list" "string + int"
  | ETask int "string + task_info"
  | EBatch int "string + batch_info"
  | EQuery string "string + string option list"
  | EDocument string "string + string option"
  | EHead "string + nat"
  | EWatermark nat "string + unit"
  | ERemember "string + unit"
  | EDropFeed "string + unit"
  | EForget "string + unit"

type_synonym rlog = "entry list"

text \<open>
  The answers, as functions of the log. \<open>ev_Marshal\<close> is \<open>json.Marshal\<close> of a document, \<open>ev_ParseDuration\<close> is \<open>time.ParseDuration\<close>, \<open>ev_Fingerprint\<close> the hash of the settings without or with the about text,
  and the last three are \<open>nip19\<close>'s and \<open>utils.ParseIdentifier\<close>. An index is answered with its uid and the text of its creation time.
\<close>

record server =
  ev_Index :: "string \<Rightarrow> rlog \<Rightarrow> string + string \<times> string"
  ev_Create :: "string \<Rightarrow> rlog \<Rightarrow> string + int"
  ev_Settings :: "string \<Rightarrow> bool \<Rightarrow> rlog \<Rightarrow> string + int"
  ev_Wait :: "int \<Rightarrow> rlog \<Rightarrow> string + task_end"
  ev_Count :: "string \<Rightarrow> rlog \<Rightarrow> string + int"
  ev_Swap :: "string \<Rightarrow> string \<Rightarrow> rlog \<Rightarrow> string + int"
  ev_Delete :: "string \<Rightarrow> rlog \<Rightarrow> string + int"
  ev_Add :: "string \<Rightarrow> string list \<Rightarrow> rlog \<Rightarrow> string + int"
  ev_DeleteDocs :: "string \<Rightarrow> string list \<Rightarrow> rlog \<Rightarrow> string + int"
  ev_Task :: "int \<Rightarrow> rlog \<Rightarrow> string + task_info"
  ev_Batch :: "int \<Rightarrow> rlog \<Rightarrow> string + batch_info"
  ev_Query :: "string \<Rightarrow> string \<Rightarrow> bool \<Rightarrow> nat \<Rightarrow> rlog \<Rightarrow> string + string option list"
  ev_Document :: "string \<Rightarrow> string \<Rightarrow> rlog \<Rightarrow> string + string option"
  ev_Now :: "rlog \<Rightarrow> gtime"
  ev_Marshal :: "string \<Rightarrow> string + string"
  ev_ParseDuration :: "string \<Rightarrow> string + duration"
  ev_Fingerprint :: "bool \<Rightarrow> string"
  ev_CheckPublicKey :: "string \<Rightarrow> bool"
  ev_Npub :: "string \<Rightarrow> string option"
  ev_Nprofile :: "string \<Rightarrow> string option"
  ev_Identifier :: "string \<Rightarrow> bool"

record mstate =
  ms_log :: rlog
  ms_last :: "TaskStat option"

section \<open>Computations\<close>

type_synonym ('v, 's, 'a) io = "'v \<Rightarrow> 's \<Rightarrow> (string + 'a) \<times> 's"

definition ret :: "'a \<Rightarrow> ('v, 's, 'a) io" where
  "ret x E s = (Inr x, s)"

definition stop :: "string \<Rightarrow> ('v, 's, 'a) io" where
  "stop e E s = (Inl e, s)"

text \<open>\<open>attempt\<close> goes on with the value or the error; \<open>andthen\<close> returns the error.\<close>

definition attempt :: "('v, 's, 'a) io \<Rightarrow> (string + 'a \<Rightarrow> ('v, 's, 'b) io) \<Rightarrow> ('v, 's, 'b) io" where
  "attempt m f E s = (case m E s of (r, s') \<Rightarrow> f r E s')"

definition andthen :: "('v, 's, 'a) io \<Rightarrow> ('a \<Rightarrow> ('v, 's, 'b) io) \<Rightarrow> ('v, 's, 'b) io" where
  "andthen m f = attempt m (\<lambda>r. case r of Inl e \<Rightarrow> stop e | Inr x \<Rightarrow> f x)"

definition modify :: "('s \<Rightarrow> 's) \<Rightarrow> ('v, 's, unit) io" where
  "modify f E s = (Inr (), f s)"

definition reads :: "('v \<Rightarrow> 's \<Rightarrow> 'a) \<Rightarrow> ('v, 's, 'a) io" where
  "reads f E s = (Inr (f E s), s)"

definition ask :: "('v \<Rightarrow> rlog \<Rightarrow> string + 'a) \<Rightarrow> (string + 'a \<Rightarrow> entry) \<Rightarrow> ('v, 'z mstate_scheme, 'a) io" where
  "ask q mk E s = (let r = q E (ms_log s) in (r, s\<lparr>ms_log := ms_log s @ [mk r]\<rparr>))"

fun each :: "('a \<Rightarrow> ('v, 's, 'b) io) \<Rightarrow> 'a list \<Rightarrow> ('v, 's, 'b list) io" where
  "each f [] = ret []"
| "each f (x # xs) = andthen (f x) (\<lambda>y. andthen (each f xs) (\<lambda>ys. ret (y # ys)))"

section \<open>Durations and steps\<close>

text \<open>The loop of \<open>ParseISODuration\<close> over what is left of the text; each turn drops at least one byte.\<close>

definition iso_unit :: "char \<Rightarrow> string" where
  "iso_unit c = (if c = CHR ''H'' then ''h'' else if c = CHR ''M'' then ''m'' else ''s'')"

fun iso_loop :: "(string \<Rightarrow> string + duration) \<Rightarrow> string \<Rightarrow> nat \<Rightarrow> string \<Rightarrow> duration \<Rightarrow> string + duration" where
  "iso_loop pd s 0 rest acc = Inr acc"
| "iso_loop pd s (Suc n) rest acc =
     (if rest = [] then Inr acc
      else (case index_of (\<lambda>c. c \<in> set ''HMS'') rest of
          None \<Rightarrow> Inl (''not an ISO 8601 duration: '' @ s)
        | Some 0 \<Rightarrow> Inl (''not an ISO 8601 duration: '' @ s)
        | Some i \<Rightarrow> try_bind (pd (take i rest @ iso_unit (rest ! i))) (\<lambda>d. iso_loop pd s n (drop (Suc i) rest) (wrap64 (acc + d)))))"

definition ParseISODuration :: "(string \<Rightarrow> string + duration) \<Rightarrow> string \<Rightarrow> string + duration" where
  "ParseISODuration pd s =
     (case cut_prefix s ''PT'' of
        None \<Rightarrow> Inl (''not an ISO 8601 duration: '' @ s)
      | Some rest \<Rightarrow> if rest = [] then Inl (''not an ISO 8601 duration: '' @ s) else iso_loop pd s (length rest) rest 0)"

text \<open>The micro sign is two bytes.\<close>

definition micro :: string where
  "micro = [CHR 0xC2, CHR 0xB5, CHR ''s'']"

fun slowest_loop :: "(string \<Rightarrow> string + duration) \<Rightarrow> (string \<times> string) list \<Rightarrow> string \<times> duration \<Rightarrow> string \<times> duration" where
  "slowest_loop pd [] best = best"
| "slowest_loop pd ((k, v) # rest) best =
     (if rest \<noteq> [] \<and> has_prefix (fst (hd rest)) (k @ '' > '') then slowest_loop pd rest best
      else (case pd (replace_all v micro ''us'') of
          Inl e \<Rightarrow> slowest_loop pd rest best
        | Inr d \<Rightarrow> slowest_loop pd rest (if d \<le> snd best then best else (k, d))))"

definition SlowestStep :: "(string \<Rightarrow> string + duration) \<Rightarrow> (string \<times> string) list \<Rightarrow> string \<times> duration" where
  "SlowestStep pd trace = slowest_loop pd (sort_key fst trace) ([], 0)"

section \<open>The client\<close>

record MeiliClient =
  mc_indexName :: string
  mc_maxPayload :: int
  mc_noAbout :: bool

abbreviation DefaultMaxPayload :: int where "DefaultMaxPayload \<equiv> 50 * 2 ^ 20"

definition WithoutAbout :: "MeiliClient \<Rightarrow> MeiliClient" where
  "WithoutAbout m = m\<lparr>mc_noAbout := True\<rparr>"

definition WithMaxPayload :: "int \<Rightarrow> MeiliClient \<Rightarrow> MeiliClient" where
  "WithMaxPayload n m = (if n > 0 then m\<lparr>mc_maxPayload := n\<rparr> else m)"

definition NewMeiliClient :: "string \<Rightarrow> (MeiliClient \<Rightarrow> MeiliClient) list \<Rightarrow> MeiliClient" where
  "NewMeiliClient indexName opts = fold (\<lambda>f m. f m) opts \<lparr>mc_indexName = indexName, mc_maxPayload = DefaultMaxPayload, mc_noAbout = False\<rparr>"

definition ForIndex :: "MeiliClient \<Rightarrow> string \<Rightarrow> MeiliClient" where
  "ForIndex m name = m\<lparr>mc_indexName := name\<rparr>"

type_synonym ('x, 'z, 'a) mio = "('x server_scheme, 'z mstate_scheme, 'a) io"

definition wait_task :: "int \<Rightarrow> ('x, 'z, unit) mio" where
  "wait_task uid = andthen (ask (\<lambda>E. ev_Wait E uid) (EWait uid)) (\<lambda>t.
     case t of
       TaskFailed code msg \<Rightarrow> stop (''meilisearch task '' @ itoa uid @ '' failed: '' @ code @ '': '' @ msg)
     | TaskCanceled \<Rightarrow> stop (''meilisearch task '' @ itoa uid @ '' was canceled'')
     | TaskSucceeded \<Rightarrow> ret ())"

definition SettingsFingerprint :: "'x server_scheme \<Rightarrow> MeiliClient \<Rightarrow> string" where
  "SettingsFingerprint E m = ev_Fingerprint E (mc_noAbout m)"

definition applySettings :: "MeiliClient \<Rightarrow> ('x, 'z, unit) mio" where
  "applySettings m = attempt (ask (\<lambda>E. ev_Settings E (mc_indexName m) (mc_noAbout m)) (ESettings (mc_indexName m))) (\<lambda>r.
     case r of Inl e \<Rightarrow> stop (''update settings: '' @ e) | Inr uid \<Rightarrow> wait_task uid)"

definition get_index :: "MeiliClient \<Rightarrow> ('x, 'z, string \<times> string) mio" where
  "get_index m = ask (\<lambda>E. ev_Index E (mc_indexName m)) (EIndex (mc_indexName m))"

definition Initialize :: "MeiliClient \<Rightarrow> ('x, 'z, unit) mio" where
  "Initialize m = attempt (get_index m) (\<lambda>r.
     case r of
       Inr _ \<Rightarrow> ret ()
     | Inl e \<Rightarrow>
         if \<not> contains e ''index_not_found'' then stop e
         else andthen (ask (\<lambda>E. ev_Create E (mc_indexName m)) (ECreate (mc_indexName m))) (\<lambda>uid.
           attempt (wait_task uid) (\<lambda>w. case w of
               Inl e \<Rightarrow> if \<not> contains e ''index_already_exists'' then stop e else applySettings m
             | Inr _ \<Rightarrow> applySettings m)))"

definition CountDocuments :: "MeiliClient \<Rightarrow> ('x, 'z, int) mio" where
  "CountDocuments m = ask (\<lambda>E. ev_Count E (mc_indexName m)) (ECount (mc_indexName m))"

definition SwapWith :: "MeiliClient \<Rightarrow> string \<Rightarrow> ('x, 'z, unit) mio" where
  "SwapWith m other = andthen (ask (\<lambda>E. ev_Swap E (mc_indexName m) other) (ESwap (mc_indexName m) other)) wait_task"

definition RemoveIndex :: "MeiliClient \<Rightarrow> ('x, 'z, unit) mio" where
  "RemoveIndex m = andthen (ask (\<lambda>E. ev_Delete E (mc_indexName m)) (EDelete (mc_indexName m))) (\<lambda>uid.
     attempt (wait_task uid) (\<lambda>r. case r of Inl e \<Rightarrow> if contains e ''index_not_found'' then ret () else stop e | Inr _ \<Rightarrow> ret ()))"

definition Identity :: "MeiliClient \<Rightarrow> ('x, 'z, string) mio" where
  "Identity m = attempt (get_index m) (\<lambda>r.
     case r of Inl e \<Rightarrow> if contains e ''index_not_found'' then ret [] else stop e | Inr (uid, created) \<Rightarrow> ret (uid @ ''@'' @ created))"

section \<open>Documents\<close>

text \<open>\<open>cur\<close> is the chunk being filled, the documents from \<open>start\<close> on, and \<open>size\<close> its bytes.\<close>

fun chunk_loop :: "int \<Rightarrow> string list \<Rightarrow> int \<Rightarrow> string list \<Rightarrow> string list list" where
  "chunk_loop mx cur sz [] = (if cur \<noteq> [] then [cur] else [])"
| "chunk_loop mx cur sz (d # ds) =
     (if cur \<noteq> [] \<and> sz + int (length d) + 1 > mx then cur # chunk_loop mx [d] (2 + int (length d) + 1) ds
      else chunk_loop mx (cur @ [d]) (sz + int (length d) + 1) ds)"

definition Chunks :: "string list \<Rightarrow> int \<Rightarrow> string list list" where
  "Chunks docs mx = chunk_loop mx [] 2 docs"

text \<open>Tasks to wait for; those of documents have their number.\<close>

type_synonym tasks = "(int \<times> nat option) list"

definition add_chunk :: "string \<Rightarrow> string list \<Rightarrow> ('x, 'z, int \<times> nat option) mio" where
  "add_chunk n chunk = andthen (ask (\<lambda>E. ev_Add E n chunk) (EAdd n chunk)) (\<lambda>uid. ret (uid, Some (length chunk)))"

definition EnqueueUpsert :: "MeiliClient \<Rightarrow> string list \<Rightarrow> ('x, 'z, tasks) mio" where
  "EnqueueUpsert m docs =
     (if docs = [] then ret []
      else andthen (\<lambda>E s. (try_map (ev_Marshal E) docs, s)) (\<lambda>enc.
        each (add_chunk (mc_indexName m)) (Chunks enc (mc_maxPayload m))))"

definition EnqueueDelete :: "MeiliClient \<Rightarrow> string list \<Rightarrow> ('x, 'z, tasks) mio" where
  "EnqueueDelete m pubkeys =
     (if pubkeys = [] then ret []
      else andthen (ask (\<lambda>E. ev_DeleteDocs E (mc_indexName m) pubkeys) (EDeleteDocs (mc_indexName m) pubkeys)) (\<lambda>uid. ret [(uid, None)]))"

definition stat_of :: "(string \<Rightarrow> string + duration) \<Rightarrow> gtime \<Rightarrow> int \<Rightarrow> nat \<Rightarrow> int \<Rightarrow> task_info \<Rightarrow> batch_info option \<Rightarrow> TaskStat" where
  "stat_of pd now uid docs b t bi =
     (let d = (case ParseISODuration pd (ti_Duration t) of Inl _ \<Rightarrow> 0 | Inr d \<Rightarrow> d) in
      case bi of
        None \<Rightarrow> \<lparr>ts_At = now, ts_Task = uid, ts_Documents = docs, ts_Duration = d, ts_Batch = b, ts_BatchDocs = 0, ts_SlowestStep = [], ts_SlowestTime = 0\<rparr>
      | Some bt \<Rightarrow>
          let (st, tm) = SlowestStep pd (bi_Trace bt) in
          \<lparr>ts_At = now, ts_Task = uid, ts_Documents = docs, ts_Duration = (case ParseISODuration pd (bi_Duration bt) of Inl _ \<Rightarrow> d | Inr d' \<Rightarrow> d'), ts_Batch = b,
            ts_BatchDocs = bi_Documents bt, ts_SlowestStep = st, ts_SlowestTime = tm\<rparr>)"

definition observe_task :: "int \<Rightarrow> nat \<Rightarrow> ('x, 'z, unit) mio" where
  "observe_task uid docs = attempt (ask (\<lambda>E. ev_Task E uid) (ETask uid)) (\<lambda>r.
     case r of
       Inl _ \<Rightarrow> ret ()
     | Inr t \<Rightarrow> (case ti_Batch t of
         None \<Rightarrow> ret ()
       | Some b \<Rightarrow> andthen (reads (\<lambda>E s. ev_Now E (ms_log s))) (\<lambda>now.
           attempt (ask (\<lambda>E. ev_Batch E b) (EBatch b)) (\<lambda>q. \<lambda>E.
             modify (\<lambda>s. s\<lparr>ms_last := Some (stat_of (ev_ParseDuration E) now uid docs b t (case q of Inl _ \<Rightarrow> None | Inr bi \<Rightarrow> Some bi))\<rparr>) E))))"

fun Wait_tasks :: "tasks \<Rightarrow> ('x, 'z, unit) mio" where
  "Wait_tasks [] = ret ()"
| "Wait_tasks ((uid, docs) # ts) =
     andthen (wait_task uid) (\<lambda>_. andthen (case docs of None \<Rightarrow> ret () | Some n \<Rightarrow> observe_task uid n) (\<lambda>_. Wait_tasks ts))"

definition Upsert :: "MeiliClient \<Rightarrow> string list \<Rightarrow> ('x, 'z, unit) mio" where
  "Upsert m docs = andthen (EnqueueUpsert m docs) Wait_tasks"

definition Delete_docs :: "MeiliClient \<Rightarrow> string list \<Rightarrow> ('x, 'z, unit) mio" where
  "Delete_docs m pubkeys = andthen (EnqueueDelete m pubkeys) Wait_tasks"

section \<open>Queries\<close>

definition PubkeyQuery :: "'x server_scheme \<Rightarrow> string \<Rightarrow> string option" where
  "PubkeyQuery E query =
     (let q = trim_space query in
      if q = [] \<or> (\<exists>c \<in> set q. c \<in> {CHR '' '', CHR 0x09, CHR 0x0D, CHR 0x0A}) then None
      else if length q = 64 then (if ev_CheckPublicKey E (to_lower q) then Some (to_lower q) else None)
      else if has_prefix q ''npub1'' then (case ev_Npub E q of Some pk \<Rightarrow> if length pk = 64 then Some pk else None | None \<Rightarrow> None)
      else if has_prefix q ''nprofile1'' then (case ev_Nprofile E q of Some pk \<Rightarrow> if length pk = 64 then Some pk else None | None \<Rightarrow> None)
      else None)"

text \<open>A document that does not exist is answered with \<open>None\<close>, a hit without a readable id too.\<close>

definition findPubkey :: "MeiliClient \<Rightarrow> string \<Rightarrow> ('x, 'z, string list) mio" where
  "findPubkey m pk = andthen (ask (\<lambda>E. ev_Document E (mc_indexName m) pk) (EDocument pk)) (\<lambda>d. ret (case d of None \<Rightarrow> [] | Some i \<Rightarrow> [i]))"

definition FindProfiles :: "MeiliClient \<Rightarrow> string \<Rightarrow> nat \<Rightarrow> ('x, 'z, string list) mio" where
  "FindProfiles m query limit = (\<lambda>E.
     (case PubkeyQuery E query of
        Some pk \<Rightarrow> findPubkey m pk
      | None \<Rightarrow> andthen (ask (\<lambda>E. ev_Query E (mc_indexName m) query (ev_Identifier E query) limit) (EQuery query)) (\<lambda>hits.
          ret (map the (filter (\<lambda>i. i \<noteq> None \<and> i \<noteq> Some []) hits)))) E)"

end
