(* ===== verification/Relay_Search.thy ===== *)
theory Relay_Search
  imports Relay_Meili Relay_Reconciler
begin

text \<open>
  The search index as a job of the relay (\<open>cli/relay/jobs/search.go\<close>): its status, the rebuild beside the live index, following the live indexer, and dropping it. The event store and the live indexer belong to the relay
  library, and are answered like the server, by functions of the log. Then the indexes that the store keeps itself (\<open>cli/relay/jobs/indexes.go\<close>).
\<close>

section \<open>State\<close>

record searchCheck =
  sc_docs :: int
  sc_identity :: string
  sc_err :: "string option"

record indexer_status =
  ix_Behind :: int
  ix_Queued :: int
  ix_Upserted :: int
  ix_Deleted :: int
  ix_Watermark :: nat
  ix_LastError :: string

datatype feed_drop = FeedDropped | UnknownFeed | FeedDropFailed string

text \<open>
  The store and the indexer: its head, its profiles with the error that ended the listing, the document of a profile, the transactions, the count of profiles once it is known, and the status of the indexer and of its feed.
\<close>

record store_server = server +
  en_Head :: "rlog \<Rightarrow> nat"
  en_Profiles :: "rlog \<Rightarrow> string list \<times> string option"
  en_Document :: "string \<Rightarrow> string option"
  en_SetWatermark :: "nat \<Rightarrow> rlog \<Rightarrow> string + unit"
  en_Remember :: "rlog \<Rightarrow> string + unit"
  en_Scoring :: string
  en_Kind0 :: "rlog \<Rightarrow> int option"
  en_Indexer :: "rlog \<Rightarrow> indexer_status"
  en_FeedStatus :: "rlog \<Rightarrow> string + int"
  en_DropFeed :: "rlog \<Rightarrow> feed_drop"
  en_Forget :: "rlog \<Rightarrow> string + unit"
  en_DefaultBatch :: int
  en_DefaultInFlight :: int

record SearchIndex =
  sx_IndexName :: string
  sx_Host :: string
  sx_Client :: "MeiliClient option"
  sx_BatchSize :: int
  sx_MaxInFlight :: int
  sx_Disabled :: string

text \<open>The variables of \<open>buildInto\<close>: requests sent and not yet waited for, each with the profiles read and the documents it stands for.\<close>

record building =
  bs_queue :: "(tasks \<times> int \<times> int) list"
  bs_batch :: "string list"
  bs_read :: int
  bs_done :: int
  bs_applied :: int

text \<open>What lasts: the bucket of the store with what was built, and the fields of the index under its mutex; \<open>st_reports\<close> is what \<open>progress\<close> was given.\<close>

record sstate = mstate +
  st_bucket :: "(string \<Rightarrow> string) option"
  st_reports :: "Progress list"
  st_build :: building
  si_checked :: gtime
  si_cached :: searchCheck
  si_queue :: "queueSample list"
  si_building :: bool

type_synonym 'a sio = "(store_server, sstate, 'a) io"

definition searchBacklog :: int where
  "searchBacklog = 1000"

definition client_for :: "SearchIndex \<Rightarrow> string \<Rightarrow> MeiliClient" where
  "client_for x name = (case sx_Client x of Some c \<Rightarrow> ForIndex c name | None \<Rightarrow> NewMeiliClient name [])"

definition batching :: "store_server \<Rightarrow> SearchIndex \<Rightarrow> int \<times> int" where
  "batching E x = (if sx_BatchSize x \<le> 0 then en_DefaultBatch E else sx_BatchSize x, if sx_MaxInFlight x \<le> 0 then en_DefaultInFlight E else sx_MaxInFlight x)"

definition check :: "SearchIndex \<Rightarrow> bool \<Rightarrow> searchCheck sio" where
  "check x fresh = (\<lambda>E s.
     (if \<not> fresh \<and> ev_Now E (ms_log s) - si_checked s < 2 * second then (Inr (si_cached s), s)
      else attempt (Identity (client_for x (sx_IndexName x))) (\<lambda>i.
        attempt (case i of
            Inl e \<Rightarrow> ret \<lparr>sc_docs = 0, sc_identity = [], sc_err = Some e\<rparr>
          | Inr idn \<Rightarrow>
              if idn = [] then ret \<lparr>sc_docs = 0, sc_identity = [], sc_err = None\<rparr>
              else attempt (CountDocuments (client_for x (sx_IndexName x))) (\<lambda>c.
                ret (case c of Inl e \<Rightarrow> \<lparr>sc_docs = 0, sc_identity = idn, sc_err = Some e\<rparr> | Inr n \<Rightarrow> \<lparr>sc_docs = n, sc_identity = idn, sc_err = None\<rparr>)))
          (\<lambda>r. case r of
              Inl e \<Rightarrow> stop e
            | Inr out \<Rightarrow> (\<lambda>E s. (Inr out, s\<lparr>si_cached := out, si_checked := ev_Now E (ms_log s)\<rparr>)))) E s))"

definition stored_key :: "string \<Rightarrow> sstate \<Rightarrow> string" where
  "stored_key k s = (case st_bucket s of Some b \<Rightarrow> b k | None \<Rightarrow> [])"

definition remembered :: "(string \<Rightarrow> string) option \<Rightarrow> string \<Rightarrow> string \<Rightarrow> string \<Rightarrow> string \<Rightarrow> string" where
  "remembered b i settings scoring = (case b of Some f \<Rightarrow> f | None \<Rightarrow> (\<lambda>_. []))(''identity'' := i, ''settings'' := settings, ''fingerprint'' := scoring)"

text \<open>The three keys are put in one transaction.\<close>

definition remember :: "SearchIndex \<Rightarrow> string \<Rightarrow> unit sio" where
  "remember x i = andthen (ask en_Remember ERemember) (\<lambda>_ E s.
     (Inr (), s\<lparr>st_bucket := Some (remembered (st_bucket s) i (SettingsFingerprint E (client_for x (sx_IndexName x))) (en_Scoring E))\<rparr>))"

section \<open>Status\<close>

record SearchStatus = IndexStatus +
  ss_Hint :: string
  ss_Behind :: int
  ss_Queued :: int
  ss_Error :: string
  ss_Warning :: string
  ss_LastTask :: "TaskStat option"

definition status_state :: "string \<Rightarrow> Kind option \<Rightarrow> string \<Rightarrow> SearchStatus \<Rightarrow> SearchStatus" where
  "status_state st act reason out = out\<lparr>is_State := st, is_Action := act, is_Reason := reason\<rparr>"

text \<open>What the index needs, from what Meilisearch and the store say of it.\<close>

definition search_needs :: "searchCheck \<Rightarrow> string \<Rightarrow> string \<Rightarrow> string \<Rightarrow> string \<Rightarrow> string \<Rightarrow> SearchStatus \<Rightarrow> SearchStatus" where
  "search_needs chk known kept_settings settings kept_scoring scoring out =
     (if sc_identity chk = [] then status_state ''needs_rebuild'' (Some KindRebuild) (''the Meilisearch index doesn'' @ [CHR 0x27] @ ''t exist'') out
      else if known = [] then status_state ''needs_rebuild'' (Some KindRebuild) ''not built by this relay yet'' out
      else if known \<noteq> sc_identity chk then status_state ''needs_rebuild'' (Some KindRebuild) ''the Meilisearch index was replaced'' out
      else if kept_settings \<noteq> settings then status_state ''needs_rebuild'' (Some KindRebuild) ''the index settings changed'' out
      else if kept_scoring \<noteq> scoring then status_state ''needs_rebuild'' (Some KindRebuild) ''the scoring settings changed'' out
      else if ss_Behind out \<ge> searchBacklog \<or> ss_Queued out \<ge> searchBacklog then
        status_state ''behind'' (Some KindCatchUp) (Count (ss_Behind out) @ '' events (any kind) to look through and '' @ Count (ss_Queued out) @ '' profiles to index'') out
      else out\<lparr>is_State := ''ready''\<rparr>)"

definition blank_status :: SearchStatus where
  "blank_status = \<lparr>is_Enabled = False, is_Unavailable = [], is_State = [], is_Action = None, is_Reason = [], is_HasData = False, is_Entries = 0, is_Head = 0, is_Retired = 0,
     ss_Hint = [], ss_Behind = 0, ss_Queued = 0, ss_Error = [], ss_Warning = [], ss_LastTask = None\<rparr>"

text \<open>The sample that a look at the status adds to the queue's history, unless a rebuild runs.\<close>

definition sample_queue :: "indexer_status \<Rightarrow> string sio" where
  "sample_queue st E s =
     (if si_building s then (Inr [], s)
      else let q = queue_add \<lparr>qs_at = ev_Now E (ms_log s), qs_queued = ix_Queued st, qs_applied = ix_Upserted st + ix_Deleted st\<rparr> (si_queue s) in (Inr (queue_warning q), s\<lparr>si_queue := q\<rparr>))"

definition Status_search :: "SearchIndex \<Rightarrow> SearchStatus sio" where
  "Status_search x = (\<lambda>E s0.
     (let out0 = blank_status\<lparr>is_Enabled := (sx_Disabled x = []), is_Unavailable := sx_Disabled x, is_Head := int (en_Head E (ms_log s0))\<rparr> in
      if sx_Disabled x \<noteq> [] then
        (Inr (case en_FeedStatus E (ms_log s0) of
            Inl _ \<Rightarrow> out0\<lparr>is_State := ''disabled''\<rparr>
          | Inr queued \<Rightarrow> out0\<lparr>is_State := ''disabled'', is_HasData := True, ss_Queued := queued,
              ss_Hint := ''the relay still tracks profiles for search; stop with ncli relay index drop search''\<rparr>), s0)
      else
        let st = en_Indexer E (ms_log s0) in
        andthen (sample_queue st) (\<lambda>warning.
          andthen (reads (\<lambda>E s. case sx_Client x of Some _ \<Rightarrow> ms_last s | None \<Rightarrow> None)) (\<lambda>last.
            andthen (check x False) (\<lambda>chk E s.
              let out = out0\<lparr>ss_Behind := ix_Behind st, ss_Queued := ix_Queued st, ss_Warning := warning, ss_LastTask := last, is_Entries := sc_docs chk, is_HasData := (sc_docs chk > 0)\<rparr> in
              (Inr (case sc_err chk of
                  Some e \<Rightarrow> out\<lparr>is_State := ''unreachable'', ss_Error := e, is_Reason := ''Meilisearch can'' @ [CHR 0x27] @ ''t be reached; profiles wait in the store until it is''\<rparr>
                | None \<Rightarrow>
                    if ix_LastError st \<noteq> [] then out\<lparr>is_State := ''unreachable'', ss_Error := ix_LastError st, is_Reason := ''the last write to Meilisearch failed; it is retried''\<rparr>
                    else search_needs chk (stored_key ''identity'' s) (stored_key ''settings'' s) (SettingsFingerprint E (client_for x (sx_IndexName x)))
                           (stored_key ''fingerprint'' s) (en_Scoring E) out), s)))) E s0))"

section \<open>Building\<close>

definition upd_build :: "(building \<Rightarrow> building) \<Rightarrow> sstate \<Rightarrow> sstate" where
  "upd_build f s = s\<lparr>st_build := f (st_build s)\<rparr>"

definition report :: "int \<Rightarrow> string \<Rightarrow> unit sio" where
  "report tot phase = modify (\<lambda>s. let b = st_build s in
     s\<lparr>st_reports := st_reports s @ [\<lparr>p_Phase = phase, p_Done = bs_done b, p_Total = (if tot > 0 then max tot (bs_done b) else 0), p_Applied = bs_applied b\<rparr>]\<rparr>)"

text \<open>Waits for the oldest request; it is called with a request in the queue.\<close>

definition settle_oldest :: "int \<Rightarrow> unit sio" where
  "settle_oldest tot = (\<lambda>E s.
     (let (pending, rd, docs) = hd (bs_queue (st_build s)) in
      andthen (Wait_tasks pending) (\<lambda>_.
        andthen (modify (upd_build (\<lambda>b. b\<lparr>bs_queue := tl (bs_queue b), bs_done := bs_done b + rd, bs_applied := bs_applied b + docs\<rparr>))) (\<lambda>_. report tot ''build''))) E s)"

text \<open>The loops settle while the queue is not shorter than \<open>k\<close>; each turn shortens it by one, so as many turns as it is long are enough.\<close>

fun settle_while :: "int \<Rightarrow> int \<Rightarrow> nat \<Rightarrow> unit sio" where
  "settle_while tot k 0 = ret ()"
| "settle_while tot k (Suc n) = (\<lambda>E s. (if int (length (bs_queue (st_build s))) \<ge> k then andthen (settle_oldest tot) (\<lambda>_. settle_while tot k n) else ret ()) E s)"

definition settle_to :: "int \<Rightarrow> int \<Rightarrow> unit sio" where
  "settle_to tot k = (\<lambda>E s. settle_while tot k (length (bs_queue (st_build s))) E s)"

definition send :: "MeiliClient \<Rightarrow> int \<Rightarrow> int \<Rightarrow> unit sio" where
  "send target inFlight tot = (\<lambda>E s.
     (if bs_read (st_build s) = 0 then ret ()
      else andthen (settle_to tot inFlight) (\<lambda>_ E s.
        andthen (EnqueueUpsert target (bs_batch (st_build s))) (\<lambda>p.
          modify (upd_build (\<lambda>b. b\<lparr>bs_queue := bs_queue b @ [(p, bs_read b, int (length (bs_batch b)))], bs_batch := [], bs_read := 0\<rparr>))) E s)) E s)"

definition read_profile :: "MeiliClient \<Rightarrow> int \<Rightarrow> int \<Rightarrow> int \<Rightarrow> string \<Rightarrow> unit sio" where
  "read_profile target size_of inFlight tot ev =
     andthen (\<lambda>E s. (Inr (), upd_build (\<lambda>b. b\<lparr>bs_read := bs_read b + 1, bs_batch := bs_batch b @ (case en_Document E ev of Some d \<Rightarrow> [d] | None \<Rightarrow> [])\<rparr>) s)) (\<lambda>_ E s.
       (if int (length (bs_batch (st_build s))) \<ge> size_of then send target inFlight tot else ret ()) E s)"

fun each_profile :: "(string \<Rightarrow> unit sio) \<Rightarrow> string list \<Rightarrow> string option \<Rightarrow> unit sio" where
  "each_profile f [] e = (case e of None \<Rightarrow> ret () | Some t \<Rightarrow> stop t)"
| "each_profile f (p # ps) e = andthen (f p) (\<lambda>_. each_profile f ps e)"

definition no_build :: building where
  "no_build = \<lparr>bs_queue = [], bs_batch = [], bs_read = 0, bs_done = 0, bs_applied = 0\<rparr>"

definition buildInto :: "SearchIndex \<Rightarrow> MeiliClient \<Rightarrow> int sio" where
  "buildInto x target = (\<lambda>E s.
     (let (size_of, inFlight) = batching E x;
          tot = (case en_Kind0 E (ms_log s) of Some n \<Rightarrow> n | None \<Rightarrow> 0);
          (ps, e) = en_Profiles E (ms_log s) in
      andthen (modify (\<lambda>s. s\<lparr>st_build := no_build\<rparr>)) (\<lambda>_. andthen (report tot ''build'') (\<lambda>_.
        attempt (andthen (each_profile (read_profile target size_of inFlight tot) ps e) (\<lambda>_. andthen (send target inFlight tot) (\<lambda>_. settle_to tot 1))) (\<lambda>r.
          andthen (report tot ''swap'') (\<lambda>_. case r of Inl t \<Rightarrow> stop t | Inr _ \<Rightarrow> reads (\<lambda>E s. bs_applied (st_build s))))))) E s)"

definition setBuilding :: "bool \<Rightarrow> unit sio" where
  "setBuilding on = modify (\<lambda>s. s\<lparr>si_building := on, si_queue := []\<rparr>)"

definition next_name :: "SearchIndex \<Rightarrow> string" where
  "next_name x = sx_IndexName x @ ''__next''"

text \<open>The first half reads the head and builds beside the live index; the second swaps and remembers.\<close>

definition build_next :: "SearchIndex \<Rightarrow> (nat \<times> int) sio" where
  "build_next x =
     andthen (ask (\<lambda>E l. Inr (en_Head E l)) EHead) (\<lambda>start.
       let nxt = client_for x (next_name x) in
       andthen (RemoveIndex nxt) (\<lambda>_. andthen (Initialize nxt) (\<lambda>_.
         attempt (buildInto x nxt) (\<lambda>r. case r of
             Inl e \<Rightarrow> attempt (RemoveIndex nxt) (\<lambda>_. stop e)
           | Inr n \<Rightarrow> ret (start, n)))))"

definition swap_in :: "SearchIndex \<Rightarrow> nat \<Rightarrow> unit sio" where
  "swap_in x start =
     (let live = client_for x (sx_IndexName x); nxt = client_for x (next_name x) in
      andthen (Initialize live) (\<lambda>_. andthen (SwapWith live (mc_indexName nxt)) (\<lambda>_. andthen (RemoveIndex nxt) (\<lambda>_.
        andthen (ask (\<lambda>E. en_SetWatermark E start) (EWatermark start)) (\<lambda>_. andthen (Identity live) (remember x))))))"

definition rebuild :: "SearchIndex \<Rightarrow> (Result \<times> string option) sio" where
  "rebuild x =
     andthen (check x True) (\<lambda>before. andthen (setBuilding True) (\<lambda>_.
       attempt (build_next x) (\<lambda>b. case b of
           Inl e \<Rightarrow> andthen (setBuilding False) (\<lambda>_. ret (\<lparr>res_Applied = 0, res_EntriesBefore = sc_docs before, res_EntriesAfter = 0\<rparr>, Some e))
         | Inr (start, n) \<Rightarrow> attempt (swap_in x start) (\<lambda>w. case w of
               Inl e \<Rightarrow> andthen (setBuilding False) (\<lambda>_. ret (\<lparr>res_Applied = n, res_EntriesBefore = sc_docs before, res_EntriesAfter = 0\<rparr>, Some e))
             | Inr _ \<Rightarrow> andthen (check x True) (\<lambda>after. andthen (setBuilding False) (\<lambda>_.
                 ret (\<lparr>res_Applied = n, res_EntriesBefore = sc_docs before, res_EntriesAfter = sc_docs after\<rparr>, None)))))))"

section \<open>Following and dropping\<close>

text \<open>The loop of \<open>follow\<close> over what it sees at each turn: the indexer's status, and whether the context ends before the next; \<open>None\<close> is that it still waits.\<close>

fun follow_loop :: "indexer_status \<Rightarrow> nat \<Rightarrow> (indexer_status \<times> string option) list \<Rightarrow> (Progress list \<times> (string + int)) option" where
  "follow_loop start target [] = None"
| "follow_loop start target ((st, cancelled) # seen) =
     (let applied = ix_Upserted st - ix_Upserted start + ix_Deleted st - ix_Deleted start;
          p = \<lparr>p_Phase = (if ix_LastError st \<noteq> [] then ''waiting for Meilisearch: '' @ ix_LastError st else ''index''), p_Done = int (ix_Watermark st - ix_Watermark start),
                p_Total = int (target - ix_Watermark start), p_Applied = applied\<rparr> in
      if ix_Watermark st \<ge> target \<and> ix_Queued st < searchBacklog then Some ([p], Inr applied)
      else (case cancelled of
          Some e \<Rightarrow> Some ([p], Inl e)
        | None \<Rightarrow> (case follow_loop start target seen of None \<Rightarrow> None | Some (ps, r) \<Rightarrow> Some (p # ps, r))))"

text \<open>The result and its error, once there is one.\<close>

definition follow :: "SearchIndex \<Rightarrow> (indexer_status \<times> string option) list \<Rightarrow> (Result \<times> string option) option sio" where
  "follow x seen = (\<lambda>E s.
     (let start = en_Indexer E (ms_log s); target = en_Head E (ms_log s) in
      andthen (check x True) (\<lambda>before.
        case follow_loop start target seen of
          None \<Rightarrow> ret None
        | Some (ps, r) \<Rightarrow> andthen (modify (\<lambda>s. s\<lparr>st_reports := st_reports s @ ps\<rparr>)) (\<lambda>_.
            case r of
              Inl e \<Rightarrow> ret (Some (\<lparr>res_Applied = 0, res_EntriesBefore = sc_docs before, res_EntriesAfter = 0\<rparr>, Some e))
            | Inr applied \<Rightarrow> andthen (check x True) (\<lambda>after. ret (Some (\<lparr>res_Applied = applied, res_EntriesBefore = sc_docs before, res_EntriesAfter = sc_docs after\<rparr>, None)))))) E s)"

definition Drop_search :: "SearchIndex \<Rightarrow> (int \<times> job_error option) sio" where
  "Drop_search x =
     attempt (if sx_Host x \<noteq> [] then
         attempt (CountDocuments (client_for x (sx_IndexName x))) (\<lambda>n.
           andthen (RemoveIndex (client_for x (sx_IndexName x))) (\<lambda>_. ret (case n of Inr k \<Rightarrow> k | Inl _ \<Rightarrow> 0)))
       else ret 0) (\<lambda>r. case r of
         Inl e \<Rightarrow> stop (''remove the Meilisearch index: '' @ e)
       | Inr n \<Rightarrow>
           andthen (reads (\<lambda>E s. en_DropFeed E (ms_log s))) (\<lambda>d.
             andthen (modify (\<lambda>s. s\<lparr>ms_log := ms_log s @ [EDropFeed (case d of FeedDropFailed e \<Rightarrow> Inl e | _ \<Rightarrow> Inr ())]\<rparr>)) (\<lambda>_.
               case d of
                 FeedDropFailed e \<Rightarrow> stop e
               | _ \<Rightarrow>
                   if d = UnknownFeed \<and> sx_Host x = [] then ret (n, Some ErrNothingToDo)
                   else andthen (ask en_Forget EForget) (\<lambda>_. andthen (modify (\<lambda>s. s\<lparr>st_bucket := None\<rparr>)) (\<lambda>_. ret (n, None))))))"

section \<open>The indexes of the store\<close>

text \<open>What the store says of one of its indexes, and how an action on it ended.\<close>

datatype store_action = ActionNone | ActionResume | ActionOf Kind

record store_status =
  xs_State :: string
  xs_Reason :: string
  xs_Action :: store_action
  xs_HasData :: bool
  xs_Entries :: int
  xs_Head :: nat
  xs_Behind :: nat
  xs_Retired :: int
  xs_Build :: "(nat \<times> nat) option"

datatype store_error = StoreNothingToDo | StoreIndexBusy | StoreIndexEnabled | StoreIndexDisabled | StoreOther string

datatype index_error = IndexError job_error | IndexOther string

definition storeErr :: "store_error \<Rightarrow> index_error" where
  "storeErr e = (case e of
       StoreNothingToDo \<Rightarrow> IndexError ErrNothingToDo | StoreIndexBusy \<Rightarrow> IndexError ErrBusy | StoreIndexEnabled \<Rightarrow> IndexError (ErrEnabled [])
     | StoreIndexDisabled \<Rightarrow> IndexError (ErrUnavailable []) | StoreOther t \<Rightarrow> IndexOther t)"

text \<open>The store's own operations on an index, on a state of theirs.\<close>

record 'w index_ops =
  io_Action :: "Kind \<Rightarrow> 'w \<Rightarrow> (Result \<times> store_error option) \<times> 'w"
  io_Clear :: "'w \<Rightarrow> (store_error + int) \<times> 'w"
  io_Abort :: "'w \<Rightarrow> 'w"

definition Status_store :: "string \<Rightarrow> string \<Rightarrow> string + store_status \<Rightarrow> SearchStatus" where
  "Status_store name disabled r =
     (let out = blank_status\<lparr>is_Enabled := (disabled = []), is_Unavailable := disabled\<rparr> in
      case r of
        Inl e \<Rightarrow> out\<lparr>is_State := ''disabled'', ss_Error := e\<rparr>
      | Inr st \<Rightarrow>
          let out = out\<lparr>is_State := xs_State st, is_Reason := xs_Reason st,
                is_Action := (case xs_Action st of ActionNone \<Rightarrow> None | ActionResume \<Rightarrow> Some KindRebuild | ActionOf k \<Rightarrow> Some k),
                is_HasData := xs_HasData st, is_Entries := xs_Entries st, is_Head := int (xs_Head st), is_Retired := xs_Retired st,
                ss_Behind := (case xs_Build st of Some (hd_of, mark) \<Rightarrow> int (hd_of - mark) | None \<Rightarrow> int (xs_Behind st))\<rparr> in
          if disabled = [] then out
          else if xs_HasData st then out\<lparr>is_State := ''disabled'', ss_Hint := ''it still holds '' @ Count (xs_Entries st) @ '' entries; remove them with ncli relay index drop '' @ name\<rparr>
          else out\<lparr>is_State := ''disabled''\<rparr>)"

definition run_store :: "'w index_ops \<Rightarrow> Kind \<Rightarrow> 'w \<Rightarrow> (Result \<times> index_error option) \<times> 'w" where
  "run_store X kind w = (case io_Action X kind w of ((res, e), w') \<Rightarrow> ((res, map_option storeErr e), w'))"

text \<open>A rebuild also frees the generation it replaced.\<close>

definition Run_store :: "'w index_ops \<Rightarrow> Kind \<Rightarrow> 'w \<Rightarrow> (Result \<times> index_error option) \<times> 'w" where
  "Run_store X kind w =
     (case run_store X kind w of
        ((res, e), w1) \<Rightarrow>
          if e \<noteq> None \<or> kind \<noteq> KindRebuild then ((res, e), w1)
          else (case run_store X KindReap w1 of ((_, e2), w2) \<Rightarrow> ((res, if e2 = Some (IndexError ErrNothingToDo) then None else e2), w2)))"

definition Drop_store :: "'w index_ops \<Rightarrow> 'w \<Rightarrow> (Result \<times> index_error option) \<times> 'w" where
  "Drop_store X w =
     (case io_Clear X w of
        (Inl e, w1) \<Rightarrow> ((\<lparr>res_Applied = 0, res_EntriesBefore = 0, res_EntriesAfter = 0\<rparr>, Some (storeErr e)), w1)
      | (Inr before, w1) \<Rightarrow>
          (case Run_store X KindReap w1 of
             ((reaped, e), w2) \<Rightarrow>
               if e \<noteq> None \<and> e \<noteq> Some (IndexError ErrNothingToDo) then ((\<lparr>res_Applied = 0, res_EntriesBefore = before, res_EntriesAfter = 0\<rparr>, e), w2)
               else ((\<lparr>res_Applied = res_Applied reaped, res_EntriesBefore = before, res_EntriesAfter = 0\<rparr>, None), w2)))"

definition Cancelled_store :: "'w index_ops \<Rightarrow> Kind \<Rightarrow> 'w \<Rightarrow> 'w" where
  "Cancelled_store X kind w = (if kind = KindRebuild then io_Abort X w else w)"

end
