(* ===== verification/Relay_Search_Theorems.thy ===== *)
theory Relay_Search_Theorems
  imports Relay_Search
begin

text \<open>
  What a rebuild of the search index keeps: the live index is left alone until a complete copy stands beside it, and the relay only calls it built once it is. What the computations on the log do: rules for the requests that a computation may make, whatever the answers, and what a build that went through has sent and waited for.
\<close>

section \<open>The requests a computation makes\<close>

text \<open>Whatever is answered, the log only grows, by entries in \<open>P\<close>, and the bucket is left alone.\<close>

definition emits :: "(entry \<Rightarrow> bool) \<Rightarrow> 'a sio \<Rightarrow> bool" where
  "emits P m \<longleftrightarrow> (\<forall>E s. (\<exists>d. ms_log (snd (m E s)) = ms_log s @ d \<and> list_all P d) \<and> st_bucket (snd (m E s)) = st_bucket s)"




lemma emits_ret [simp]: "emits P (ret x)" and emits_stop [simp]: "emits P (stop e)" and emits_reads [simp]: "emits P (reads f)"
  by (simp_all add: emits_def ret_def stop_def reads_def)



lemma emits_modify: "(\<And>s. ms_log (f s) = ms_log s \<and> st_bucket (f s) = st_bucket s) \<Longrightarrow> emits P (modify f)"
  by (simp add: emits_def modify_def)



























section \<open>The requests of a build\<close>










lemma setBuilding_emits: "emits P (setBuilding b)"
  unfolding setBuilding_def by (rule emits_modify) simp

lemma client_name [simp]: "mc_indexName (client_for x n) = n"
  by (simp add: client_for_def ForIndex_def NewMeiliClient_def split: option.split)


section \<open>What was added and not yet waited for\<close>

definition added :: "string \<Rightarrow> rlog \<Rightarrow> string list" where
  "added n d = concat (map (\<lambda>e. case e of EAdd m c (Inr u) \<Rightarrow> if m = n then c else [] | _ \<Rightarrow> []) d)"

definition pend_step :: "int list \<Rightarrow> entry \<Rightarrow> int list" where
  "pend_step p e = (case e of EAdd n c (Inr u) \<Rightarrow> p @ [u] | EWait u (Inr TaskSucceeded) \<Rightarrow> filter (\<lambda>v. v \<noteq> u) p | _ \<Rightarrow> p)"


lemma added_append [simp]: "added n (d @ d') = added n d @ added n d'" and added_Nil [simp]: "added n [] = []"
  by (simp_all add: added_def)



lemma foldl_pend_mono: "set p \<subseteq> set q \<Longrightarrow> set (foldl pend_step p d) \<subseteq> set (foldl pend_step q d)"
proof (induction d arbitrary: p q)
  case (Cons e d)
  then have "set (pend_step p e) \<subseteq> set (pend_step q e)" by (auto simp: pend_step_def split: entry.splits sum.splits task_end.splits)
  then show ?case using Cons.IH by simp
qed simp

lemmas io_defs = attempt_def andthen_def ret_def stop_def ask_def modify_def reads_def Let_def




section \<open>Chunks\<close>







section \<open>A batch that is sent\<close>



definition keeps_build :: "'a sio \<Rightarrow> bool" where
  "keeps_build m \<longleftrightarrow> (\<forall>E s. st_build (snd (m E s)) = st_build s)"



lemma keeps_simps [simp]: "keeps_build (ret x)" "keeps_build (stop e)" "keeps_build (reads f)" "keeps_build (ask q mk)" "keeps_build (\<lambda>E s. (g E s, s))"
  by (simp_all add: keeps_build_def io_defs)










section \<open>A build that went through\<close>













section \<open>The two halves\<close>










section \<open>The rebuild\<close>


text \<open>After a rebuild that went through, the index is asked for again only when it was replaced or its settings changed since.\<close>

lemma rebuilt_is_current:
  assumes "st_bucket s = Some (remembered b i f g)" "i \<noteq> []" "sc_identity chk = i"
  shows "is_State (search_needs chk (stored_key ''identity'' s) (stored_key ''settings'' s) f (stored_key ''fingerprint'' s) g out) \<in> {''ready'', ''behind''}"
  using assms by (simp add: search_needs_def stored_key_def remembered_def status_state_def)

section \<open>A small index\<close>






text \<open>A parent is told from a leaf by the next name in the order alone, and a name such as \<open>index (x)\<close> comes between \<open>index\<close> and its child: then the parent's time is taken.\<close>

lemma parent_taken_for_leaf:
  "SlowestStep (\<lambda>t. Inr (int (length t))) [(''index'', ''333''), (''index (x)'', ''1''), (''index > merge'', ''22'')] = (''index'', 3)"
  by code_simp

end
