(* ===== verification/Relay_History.thy ===== *)
theory Relay_History
  imports Float64 Go_Text Go_Time "HOL-Library.AList" "HOL-Library.List_Lexorder" "HOL-Library.Char_ord"
begin

text \<open>
  The history behind the dashboard's charts (\<open>cli/relay/metrics/history.go\<close>): samples of the registry in a ring of fixed capacity, a second ring of coarser points, the columns that are served from both, and the
  viewers that are told of each new point. A Go map is the list of its keys with their values, each key once. What the registry holds is an argument of \<open>Sample\<close>.
\<close>

section \<open>Numbers\<close>

text \<open>A float64 with its special values; arithmetic on numbers rounds. The counts, rates and times here stay far from overflow.\<close>

datatype f64 = Num rat | NaN | PosInf | NegInf

fun f_neg :: "f64 \<Rightarrow> f64" where
  "f_neg (Num x) = Num (- x)" | "f_neg NaN = NaN" | "f_neg PosInf = NegInf" | "f_neg NegInf = PosInf"

fun f_add :: "f64 \<Rightarrow> f64 \<Rightarrow> f64" where
  "f_add (Num x) (Num y) = Num (fl64 (x + y))"
| "f_add NaN _ = NaN"
| "f_add (Num _) y = y"
| "f_add PosInf NegInf = NaN"
| "f_add NegInf PosInf = NaN"
| "f_add x NaN = NaN"
| "f_add x _ = x"

definition f_sub :: "f64 \<Rightarrow> f64 \<Rightarrow> f64" where
  "f_sub x y = f_add x (f_neg y)"

definition f_inf :: "rat \<Rightarrow> f64" where
  "f_inf s = (if s > 0 then PosInf else if s < 0 then NegInf else NaN)"

fun f_sgn :: "f64 \<Rightarrow> rat" where
  "f_sgn (Num x) = sgn x" | "f_sgn PosInf = 1" | "f_sgn NegInf = -1" | "f_sgn NaN = 0"

definition f_mul :: "f64 \<Rightarrow> f64 \<Rightarrow> f64" where
  "f_mul x y = (case (x, y) of (Num a, Num b) \<Rightarrow> Num (fl64 (a * b)) | _ \<Rightarrow> if x = NaN \<or> y = NaN then NaN else f_inf (f_sgn x * f_sgn y))"

definition f_div :: "f64 \<Rightarrow> f64 \<Rightarrow> f64" where
  "f_div x y = (case (x, y) of
       (Num a, Num b) \<Rightarrow> if b = 0 then f_inf (sgn a) else Num (fl64 (a / b))
     | (Num _, NaN) \<Rightarrow> NaN | (Num _, _) \<Rightarrow> Num 0
     | (NaN, _) \<Rightarrow> NaN
     | (_, Num b) \<Rightarrow> f_inf (f_sgn x * (if b < 0 then -1 else 1))
     | _ \<Rightarrow> NaN)"

text \<open>Comparisons with NaN are false.\<close>

fun f_less :: "f64 \<Rightarrow> f64 \<Rightarrow> bool" where
  "f_less (Num x) (Num y) = (x < y)"
| "f_less NegInf y = (y \<noteq> NaN \<and> y \<noteq> NegInf)"
| "f_less (Num _) y = (y = PosInf)"
| "f_less _ _ = False"

definition f_ge :: "f64 \<Rightarrow> f64 \<Rightarrow> bool" where
  "f_ge x y \<longleftrightarrow> x \<noteq> NaN \<and> y \<noteq> NaN \<and> \<not> f_less x y"

text \<open>\<open>math.Max\<close>: infinity first, then NaN.\<close>

definition f_max :: "f64 \<Rightarrow> f64 \<Rightarrow> f64" where
  "f_max x y = (if x = PosInf \<or> y = PosInf then PosInf else if x = NaN \<or> y = NaN then NaN else if f_less x y then y else x)"

section \<open>The ring\<close>

type_synonym 'a smap = "(string \<times> 'a) list"

record ring =
  rg_capacity :: nat
  rg_times :: "int list"
  rg_series :: "f64 list smap"

definition newRing :: "int \<Rightarrow> ring" where
  "newRing capacity = \<lparr>rg_capacity = nat (max capacity 1), rg_times = [], rg_series = []\<rparr>"

definition ring_append :: "int \<Rightarrow> f64 smap \<Rightarrow> ring \<Rightarrow> ring" where
  "ring_append t values r =
     (let full = (length (rg_times r) = rg_capacity r);
          times = (if full then tl (rg_times r) else rg_times r) @ [t];
          n = length times in
      r\<lparr>rg_times := times,
        rg_series := map (\<lambda>(key, col). (key, (if full \<and> col \<noteq> [] then tl col else col) @ [case map_of values key of Some v \<Rightarrow> v | None \<Rightarrow> NaN])) (rg_series r)
          @ map (\<lambda>(key, v). (key, replicate (n - 1) NaN @ [v])) (filter (\<lambda>(key, v). key \<notin> fst ` set (rg_series r)) values)\<rparr>)"

section \<open>Rates and quantiles\<close>

definition Seconds :: "duration \<Rightarrow> f64" where
  "Seconds d = f_add (Num (fl64 (of_int (d div second)))) (f_div (Num (of_int (d mod second))) (Num 1000000000))"

text \<open>A duration that is not positive never reaches the division.\<close>

definition rate :: "f64 \<Rightarrow> f64 \<Rightarrow> duration \<Rightarrow> f64" where
  "rate prev cur d = (if d \<le> 0 \<or> f_less cur prev then Num 0 else f_div (f_sub cur prev) (Seconds d))"

fun quantile_loop :: "f64 \<Rightarrow> f64 \<Rightarrow> f64 \<Rightarrow> (f64 \<times> f64) list \<Rightarrow> f64 \<Rightarrow> f64" where
  "quantile_loop rank lower below [] dflt = dflt"
| "quantile_loop rank lower below ((upper, cum) # bs) dflt =
     (if f_ge cum rank then
        (let inBucket = f_sub cum below in
         if f_ge (Num 0) inBucket then upper else f_add lower (f_div (f_mul (f_sub upper lower) (f_sub rank below)) inBucket))
      else quantile_loop rank upper cum bs dflt)"

definition quantile :: "f64 \<Rightarrow> (f64 \<times> f64) list \<Rightarrow> f64 \<Rightarrow> f64" where
  "quantile q bs tot = quantile_loop (f_mul q tot) (Num 0) (Num 0) bs (if bs \<noteq> [] then fst (last bs) else NaN)"

section \<open>Sampling\<close>

text \<open>A gathered family: its name, and its metrics with their labels.\<close>

datatype metric = Counter f64 | Gauge f64 | Histogram nat "(f64 \<times> nat) list" | OtherMetric

type_synonym family = "string \<times> ((string \<times> string) list \<times> metric) list"

record sample =
  sm_at :: gtime
  sm_value :: f64
  sm_buckets :: "f64 list"
  sm_count :: f64

record Point =
  pt_Time :: int
  pt_Values :: "f64 smap"
  pt_Totals :: "f64 smap"

definition keptRuntime :: "(string \<times> string) list" where
  "keptRuntime = [(''go_goroutines'', ''goroutines''), (''go_memstats_heap_alloc_bytes'', ''heap_bytes''), (''go_gc_duration_seconds'', ''gc_seconds''),
     (''process_resident_memory_bytes'', ''rss_bytes''), (''process_cpu_seconds_total'', ''cpu_seconds_total''), (''process_open_fds'', ''open_fds'')]"

definition seriesName :: "string \<Rightarrow> string option" where
  "seriesName full_name = (case cut_prefix full_name ''ncli_relay_'' of Some short \<Rightarrow> Some short | None \<Rightarrow> map_of keptRuntime full_name)"

definition labelSuffix :: "(string \<times> string) list \<Rightarrow> string" where
  "labelSuffix labels = concat (map (\<lambda>(n, v). if n = ''version'' then [] else '':'' @ v) (sort_key fst labels))"

type_synonym sampling = "Point \<times> sample smap"

text \<open>One metric's part of the point and of what the next sample compares with.\<close>

definition sample_histogram :: "gtime \<Rightarrow> sample smap \<Rightarrow> string \<Rightarrow> nat \<Rightarrow> (f64 \<times> nat) list \<Rightarrow> sampling \<Rightarrow> sampling" where
  "sample_histogram now prev key count buckets acc =
     (let cur = \<lparr>sm_at = now, sm_value = Num 0, sm_buckets = map (\<lambda>(b, c). Num (fl64 (of_nat c))) buckets, sm_count = Num (fl64 (of_nat count))\<rparr>;
          p = fst acc;
          p1 = p\<lparr>pt_Totals := AList.update (key @ ''.count'') (sm_count cur) (pt_Totals p)\<rparr>;
          p2 = (case map_of prev key of
              Some pr \<Rightarrow>
                if length (sm_buckets pr) = length (sm_buckets cur) then
                  (let delta = map (\<lambda>(b, c, c'). (b, f_sub c c')) (zip (map fst buckets) (zip (sm_buckets cur) (sm_buckets pr)));
                       n = f_sub (sm_count cur) (sm_count pr);
                       v = AList.update (key @ ''.rate'') (rate (sm_count pr) (sm_count cur) (time_sub now (sm_at pr))) (pt_Values p1) in
                   p1\<lparr>pt_Values := (if f_less (Num 0) n
                       then AList.update (key @ ''.p99'') (quantile (Num (fl64 (99 / 100))) delta n) (AList.update (key @ ''.p95'') (quantile (Num (fl64 (95 / 100))) delta n)
                         (AList.update (key @ ''.p50'') (quantile (Num (1 / 2)) delta n) v))
                       else v)\<rparr>)
                else p1
            | None \<Rightarrow> p1) in
      (p2, AList.update key cur (snd acc)))"

definition sample_metric :: "gtime \<Rightarrow> sample smap \<Rightarrow> string \<Rightarrow> metric \<Rightarrow> sampling \<Rightarrow> sampling" where
  "sample_metric now prev key m acc =
     (let p = fst acc in
      case m of
        Counter v \<Rightarrow>
          (p\<lparr>pt_Totals := AList.update key v (pt_Totals p),
             pt_Values := (case map_of prev key of Some pr \<Rightarrow> AList.update key (rate (sm_value pr) v (time_sub now (sm_at pr))) (pt_Values p) | None \<Rightarrow> pt_Values p)\<rparr>,
           AList.update key \<lparr>sm_at = now, sm_value = v, sm_buckets = [], sm_count = Num 0\<rparr> (snd acc))
      | Gauge v \<Rightarrow> (p\<lparr>pt_Values := AList.update key v (pt_Values p)\<rparr>, snd acc)
      | Histogram count buckets \<Rightarrow> sample_histogram now prev key count buckets acc
      | OtherMetric \<Rightarrow> acc)"

definition sample_family :: "gtime \<Rightarrow> sample smap \<Rightarrow> family \<Rightarrow> sampling \<Rightarrow> sampling" where
  "sample_family now prev fam acc =
     (case seriesName (fst fam) of
        None \<Rightarrow> acc
      | Some name \<Rightarrow> fold (\<lambda>(labels, m). sample_metric now prev (name @ labelSuffix labels) m) (snd fam) acc)"

definition unix_milli :: "gtime \<Rightarrow> int" where
  "unix_milli t = (t - unix_epoch) div 1000000"

definition make_point :: "gtime \<Rightarrow> sample smap \<Rightarrow> family list \<Rightarrow> sampling" where
  "make_point now prev fams = fold (sample_family now prev) fams (\<lparr>pt_Time = unix_milli now, pt_Values = [], pt_Totals = []\<rparr>, [])"

section \<open>The history\<close>

record accum =
  ac_sum :: f64
  ac_max :: f64
  ac_n :: f64

text \<open>A viewer's channel has room for one point.\<close>

record History =
  h_interval :: duration
  h_raw :: ring
  h_rollup :: "ring option"
  h_step :: int
  h_bucket :: int
  h_acc :: "accum smap"
  h_latest :: Point
  h_prev :: "sample smap"
  h_subs :: "(nat \<times> Point option) list"

abbreviation maxSubscribers :: nat where "maxSubscribers \<equiv> 8"

text \<open>Go's division of a duration cuts towards zero; the interval is not zero.\<close>

definition NewHistory :: "duration \<Rightarrow> duration \<Rightarrow> History" where
  "NewHistory interval window =
     \<lparr>h_interval = interval, h_raw = newRing (sgn window * sgn interval * (\<bar>window\<bar> div \<bar>interval\<bar>)), h_rollup = None, h_step = 0, h_bucket = 0, h_acc = [],
       h_latest = \<lparr>pt_Time = 0, pt_Values = [], pt_Totals = []\<rparr>, h_prev = [], h_subs = []\<rparr>"

definition WithRollup :: "duration \<Rightarrow> duration \<Rightarrow> History \<Rightarrow> History" where
  "WithRollup step window h = h\<lparr>h_rollup := Some (newRing (sgn window * sgn step * (\<bar>window\<bar> div \<bar>step\<bar>))), h_step := sgn step * (\<bar>step\<bar> div 1000000), h_acc := []\<rparr>"

definition isQuantile :: "string \<Rightarrow> bool" where
  "isQuantile key \<longleftrightarrow> has_suffix key ''.p50'' \<or> has_suffix key ''.p95'' \<or> has_suffix key ''.p99''"

definition rolled :: "accum smap \<Rightarrow> f64 smap" where
  "rolled acc = map (\<lambda>(key, a). (key, if isQuantile key then ac_max a else f_div (ac_sum a) (ac_n a))) acc"

definition accumulate :: "f64 \<Rightarrow> accum \<Rightarrow> accum" where
  "accumulate v a = \<lparr>ac_sum = f_add (ac_sum a) v, ac_max = f_max (ac_max a) v, ac_n = f_add (ac_n a) (Num 1)\<rparr>"

definition acc_add :: "f64 smap \<Rightarrow> accum smap \<Rightarrow> accum smap" where
  "acc_add values acc =
     fold (\<lambda>(key, v) acc. AList.update key (accumulate v (case map_of acc key of None \<Rightarrow> \<lparr>ac_sum = Num 0, ac_max = v, ac_n = Num 0\<rparr> | Some a \<Rightarrow> a)) acc) values acc"

text \<open>The start of a point's bucket: \<open>p.Time - p.Time % step\<close>, for a step that is not zero.\<close>

definition bucket_of :: "int \<Rightarrow> int \<Rightarrow> int" where
  "bucket_of step t = t - sgn t * (\<bar>t\<bar> mod \<bar>step\<bar>)"

definition roll :: "Point \<Rightarrow> History \<Rightarrow> History" where
  "roll p h =
     (case h_rollup h of
        None \<Rightarrow> h
      | Some r \<Rightarrow>
          let b = bucket_of (h_step h) (pt_Time p);
              h1 = (if b \<noteq> h_bucket h \<and> h_acc h \<noteq> [] then h\<lparr>h_rollup := Some (ring_append (h_bucket h) (rolled (h_acc h)) r), h_acc := []\<rparr> else h) in
          h1\<lparr>h_bucket := b, h_acc := acc_add (pt_Values p) (h_acc h1)\<rparr>)"

text \<open>A viewer that still holds the last point skips this one.\<close>

definition publish_point :: "Point \<Rightarrow> History \<Rightarrow> History" where
  "publish_point p h = h\<lparr>h_subs := map (\<lambda>(c, v). (c, case v of None \<Rightarrow> Some p | Some q \<Rightarrow> Some q)) (h_subs h)\<rparr>"

definition take_point :: "Point \<Rightarrow> sample smap \<Rightarrow> History \<Rightarrow> History" where
  "take_point p nxt h = publish_point p (roll p (h\<lparr>h_prev := nxt, h_latest := p, h_raw := ring_append (pt_Time p) (pt_Values p) (h_raw h)\<rparr>))"

text \<open>\<open>gathered\<close> is \<open>None\<close> when nothing could be gathered.\<close>

definition Sample :: "gtime \<Rightarrow> family list option \<Rightarrow> History \<Rightarrow> History" where
  "Sample now gathered h = (case gathered of None \<Rightarrow> h | Some fams \<Rightarrow> (case make_point now (h_prev h) fams of (p, nxt) \<Rightarrow> take_point p nxt h))"

definition Subscribe :: "nat \<Rightarrow> History \<Rightarrow> bool \<times> History" where
  "Subscribe c h = (if length (h_subs h) \<ge> maxSubscribers then (False, h) else (True, h\<lparr>h_subs := h_subs h @ [(c, None)]\<rparr>))"

definition Unsubscribe :: "nat \<Rightarrow> History \<Rightarrow> History" where
  "Unsubscribe c h = h\<lparr>h_subs := filter (\<lambda>(d, _). d \<noteq> c) (h_subs h)\<rparr>"

definition receive :: "nat \<Rightarrow> History \<Rightarrow> Point option \<times> History" where
  "receive c h = ((case map_of (h_subs h) c of Some (Some p) \<Rightarrow> Some p | _ \<Rightarrow> None), h\<lparr>h_subs := map (\<lambda>(d, v). (d, if d = c then None else v)) (h_subs h)\<rparr>)"

section \<open>Columns\<close>

record Columns =
  cl_Interval :: int
  cl_Window :: int
  cl_Times :: "int list"
  cl_Series :: "f64 list smap"

text \<open>Indexing past the column panics.\<close>

definition appendColumn :: "f64 list option \<Rightarrow> nat \<Rightarrow> f64 list go" where
  "appendColumn col n = (case col of None \<Rightarrow> Ret (replicate n NaN) | Some c \<Rightarrow> if n \<le> length c then Ret (take n c) else Panic)"

text \<open>The rollup points before the first raw one.\<close>

definition old_points :: "int list \<Rightarrow> int list \<Rightarrow> int list" where
  "old_points rolls raw = takeWhile (\<lambda>t. raw = [] \<or> t < hd raw) rolls"

definition column_of :: "History \<Rightarrow> string \<Rightarrow> f64 list go" where
  "column_of h key =
     (case (case h_rollup h of None \<Rightarrow> Ret [] | Some r \<Rightarrow> appendColumn (map_of (rg_series r) key) (length (old_points (rg_times r) (rg_times (h_raw h))))) of
        Panic \<Rightarrow> Panic
      | Ret c \<Rightarrow> (case appendColumn (map_of (rg_series (h_raw h)) key) (length (rg_times (h_raw h))) of Panic \<Rightarrow> Panic | Ret d \<Rightarrow> Ret (c @ d)))"

definition shown_keys :: "History \<Rightarrow> string list" where
  "shown_keys h = remdups (map fst (rg_series (h_raw h)) @ (case h_rollup h of None \<Rightarrow> [] | Some r \<Rightarrow> map fst (rg_series r)))"

definition millis :: "duration \<Rightarrow> int" where
  "millis d = sgn d * (\<bar>d\<bar> div 1000000)"

definition column_times :: "History \<Rightarrow> int list" where
  "column_times h = (case h_rollup h of None \<Rightarrow> [] | Some r \<Rightarrow> old_points (rg_times r) (rg_times (h_raw h))) @ rg_times (h_raw h)"

fun all_columns :: "History \<Rightarrow> string list \<Rightarrow> f64 list smap go" where
  "all_columns h [] = Ret []"
| "all_columns h (key # keys) = (case column_of h key of Panic \<Rightarrow> Panic | Ret c \<Rightarrow> (case all_columns h keys of Panic \<Rightarrow> Panic | Ret cs \<Rightarrow> Ret ((key, c) # cs)))"

definition Columns_of :: "History \<Rightarrow> Columns go" where
  "Columns_of h =
     (case all_columns h (shown_keys h) of
        Panic \<Rightarrow> Panic
      | Ret cs \<Rightarrow> Ret \<lparr>cl_Interval = millis (h_interval h),
          cl_Window = (let w = int (rg_capacity (h_raw h)) * millis (h_interval h) in case h_rollup h of None \<Rightarrow> w | Some r \<Rightarrow> max w (int (rg_capacity r) * h_step h)),
          cl_Times = column_times h, cl_Series = cs\<rparr>)"

text \<open>What is written as JSON: null for what is not a number.\<close>

definition nullable :: "f64 \<Rightarrow> rat option" where
  "nullable v = (case v of Num x \<Rightarrow> Some x | _ \<Rightarrow> None)"

end
