(* ===== verification/Relay_History_Theorems.thy ===== *)
theory Relay_History_Theorems
  imports Relay_History
begin

text \<open>
  The history against a plain list of points: the rings hold the last points of it, the coarser points are those of its closed buckets, and the columns that are served line up.
\<close>

section \<open>A ring holds the last points\<close>

lemma last_n_grow: "n \<ge> 1 \<Longrightarrow> last_n n (xs @ [x]) = (if length xs \<ge> n then tl (last_n n xs) else last_n n xs) @ [x]"
  by (auto simp: last_n_def drop_Suc [symmetric] tl_drop Suc_diff_le)

definition value_at :: "string \<Rightarrow> f64 smap \<Rightarrow> f64" where
  "value_at k vs = (case map_of vs k of Some v \<Rightarrow> v | None \<Rightarrow> NaN)"

definition ever :: "string \<Rightarrow> (int \<times> f64 smap) list \<Rightarrow> bool" where
  "ever k pts \<longleftrightarrow> (\<exists>p \<in> set pts. map_of (snd p) k \<noteq> None)"

definition holds :: "nat \<Rightarrow> (int \<times> f64 smap) list \<Rightarrow> ring \<Rightarrow> bool" where
  "holds c pts r \<longleftrightarrow> rg_capacity r = c \<and> rg_times r = map fst (last_n c pts)
     \<and> (\<forall>k. map_of (rg_series r) k = (if ever k pts then Some (map (\<lambda>p. value_at k (snd p)) (last_n c pts)) else None))"

lemma map_of_map_key: "map_of (map (\<lambda>(k, v). (k, f k v)) xs) k = map_option (f k) (map_of xs k)"
  by (induction xs) auto

lemma map_of_filter_out: "map_of (filter (\<lambda>(k, v). k \<notin> K) xs) k = (if k \<in> K then None else map_of xs k)"
  by (induction xs) auto

lemma newRing_holds: "holds (nat (max n 1)) [] (newRing n)"
  by (simp add: holds_def newRing_def last_n_def ever_def)

lemma ring_append_series:
  "map_of (rg_series (ring_append t vs r)) k =
     (case map_of (rg_series r) k of
        Some col \<Rightarrow> Some ((if length (rg_times r) = rg_capacity r \<and> col \<noteq> [] then tl col else col) @ [value_at k vs])
      | None \<Rightarrow> map_option (\<lambda>v. replicate (length (rg_times (ring_append t vs r)) - 1) NaN @ [v]) (map_of vs k))"
proof -
  let ?f = "length (rg_times r) = rg_capacity r" and ?n = "length (rg_times (ring_append t vs r))"
  have "rg_series (ring_append t vs r) = map (\<lambda>(key, col). (key, (if ?f \<and> col \<noteq> [] then tl col else col) @ [value_at key vs])) (rg_series r)
      @ map (\<lambda>(key, v). (key, replicate (?n - 1) NaN @ [v])) (filter (\<lambda>(key, v). key \<notin> fst ` set (rg_series r)) vs)"
    by (simp add: ring_append_def Let_def value_at_def)
  then have "map_of (rg_series (ring_append t vs r)) k = (case map_option (\<lambda>col. (if ?f \<and> col \<noteq> [] then tl col else col) @ [value_at k vs]) (map_of (rg_series r) k) of
      Some c \<Rightarrow> Some c | None \<Rightarrow> map_option (\<lambda>v. replicate (?n - 1) NaN @ [v]) (if k \<in> fst ` set (rg_series r) then None else map_of vs k))"
    by (simp only: map_of_append map_add_def map_of_map_key map_of_filter_out)
  moreover have "k \<in> fst ` set (rg_series r) \<longleftrightarrow> map_of (rg_series r) k \<noteq> None" by (simp add: map_of_eq_None_iff)
  ultimately show ?thesis by (cases "map_of (rg_series r) k") simp_all
qed

lemma ring_append_holds:
  assumes "holds c pts r" "1 \<le> c"
  shows "holds c (pts @ [(t, vs)]) (ring_append t vs r)"
proof -
  let ?pts = "pts @ [(t, vs)]" and ?full = "length pts \<ge> c"
  have full: "length (rg_times r) = rg_capacity r \<longleftrightarrow> ?full" using assms by (auto simp: holds_def min_def)
  have nx: "last_n c ?pts = (if ?full then tl (last_n c pts) else last_n c pts) @ [(t, vs)]" using last_n_grow [OF assms(2), of pts] by simp
  have times: "rg_times (ring_append t vs r) = map fst (last_n c ?pts)"
    using assms(1) full by (auto simp: ring_append_def Let_def nx holds_def map_tl)
  have len: "length (rg_times (ring_append t vs r)) - 1 = length (last_n c ?pts) - 1" using times by simp
  have "map_of (rg_series (ring_append t vs r)) k = (if ever k ?pts then Some (map (\<lambda>p. value_at k (snd p)) (last_n c ?pts)) else None)" for k
  proof (cases "ever k pts")
    case True
    then have col: "map_of (rg_series r) k = Some (map (\<lambda>p. value_at k (snd p)) (last_n c pts))" using assms(1) by (simp add: holds_def)
    then have "k \<in> fst ` set (rg_series r)" by (metis map_of_eq_None_iff option.distinct(1))
    moreover have "last_n c pts \<noteq> []" if ?full using that assms(2) by (metis length_greater_0_conv length_last_n min.absorb1 not_one_le_zero neq0_conv)
    ultimately show ?thesis
      using True col full nx by (auto simp: ring_append_series ever_def map_tl)
  next
    case False
    then have none: "map_of (rg_series r) k = None" using assms(1) by (simp add: holds_def)
    have old: "value_at k (snd p) = NaN" if "p \<in> set (last_n c pts)" for p
      using False that set_last_n [of c pts] by (auto simp: ever_def value_at_def split: option.split)
    have "set (if ?full then tl (last_n c pts) else last_n c pts) \<subseteq> set (last_n c pts)" by (cases "last_n c pts") auto
    then have "map (\<lambda>p. value_at k (snd p)) (if ?full then tl (last_n c pts) else last_n c pts) = replicate (length (last_n c ?pts) - 1) NaN"
      unfolding nx by (intro replicate_eqI) (use old in auto)
    then show ?thesis
      using False none len nx by (auto simp: ring_append_series ever_def value_at_def split: option.splits)
  qed
  then show ?thesis using times assms(1) by (simp add: holds_def ring_append_def Let_def)
qed

section \<open>Buckets\<close>

text \<open>The reference: the points grouped by the start of their bucket, in order, and of each group the values of a key.\<close>

definition join_bucket :: "int \<Rightarrow> (int \<times> Point list) list \<Rightarrow> Point \<Rightarrow> (int \<times> Point list) list" where
  "join_bucket step gs p =
     (let b = bucket_of step (pt_Time p) in
      if gs \<noteq> [] \<and> fst (last gs) = b then butlast gs @ [(b, snd (last gs) @ [p])] else gs @ [(b, [p])])"

definition buckets :: "int \<Rightarrow> Point list \<Rightarrow> (int \<times> Point list) list" where
  "buckets step pts = foldl (join_bucket step) [] pts"

definition values_of :: "string \<Rightarrow> Point list \<Rightarrow> f64 list" where
  "values_of k g = List.map_filter (\<lambda>p. map_of (pt_Values p) k) g"

definition summary :: "string \<Rightarrow> f64 list \<Rightarrow> f64" where
  "summary k vs = (if isQuantile k then foldl f_max (hd vs) vs else f_div (foldl f_add (Num 0) vs) (foldl (\<lambda>n _. f_add n (Num 1)) (Num 0) vs))"

definition acc_of :: "Point list \<Rightarrow> accum smap" where
  "acc_of g = foldl (\<lambda>acc p. acc_add (pt_Values p) acc) [] g"

lemma acc_of_simps [simp]: "acc_of [] = []" "acc_of (g @ [p]) = acc_add (pt_Values p) (acc_of g)"
  by (simp_all add: acc_of_def)

lemma acc_add_lookup:
  assumes "distinct (map fst vs)"
  shows "map_of (acc_add vs acc) k = (case map_of vs k of None \<Rightarrow> map_of acc k
     | Some v \<Rightarrow> Some (accumulate v (case map_of acc k of None \<Rightarrow> \<lparr>ac_sum = Num 0, ac_max = v, ac_n = Num 0\<rparr> | Some a \<Rightarrow> a)))"
  using assms
proof (induction vs arbitrary: acc)
  case Nil
  then show ?case by (simp add: acc_add_def)
next
  case (Cons kv vs)
  obtain k' v' where kv: "kv = (k', v')" by fastforce
  have step: "acc_add (kv # vs) acc = acc_add vs (AList.update k' (accumulate v' (case map_of acc k' of None \<Rightarrow> \<lparr>ac_sum = Num 0, ac_max = v', ac_n = Num 0\<rparr> | Some a \<Rightarrow> a)) acc)"
    by (simp add: acc_add_def kv)
  have "map_of vs k' = None" using Cons.prems kv by (simp add: map_of_eq_None_iff)
  then show ?case
    unfolding step using Cons.IH Cons.prems kv by (auto simp: update_conv' split: option.splits)
qed

text \<open>The incremental sums are those of the group.\<close>

lemma acc_of_lookup:
  assumes "\<forall>p \<in> set g. distinct (map fst (pt_Values p))"
  shows "map_of (acc_of g) k = (if values_of k g = [] then None
     else Some \<lparr>ac_sum = foldl f_add (Num 0) (values_of k g), ac_max = foldl f_max (hd (values_of k g)) (values_of k g), ac_n = foldl (\<lambda>n _. f_add n (Num 1)) (Num 0) (values_of k g)\<rparr>)"
  using assms
proof (induction g rule: rev_induct)
  case Nil
  then show ?case by (simp add: values_of_def List.map_filter_def)
next
  case (snoc p g)
  have v: "values_of k (g @ [p]) = values_of k g @ (case map_of (pt_Values p) k of None \<Rightarrow> [] | Some v \<Rightarrow> [v])"
    by (simp add: values_of_def List.map_filter_def split: option.split)
  show ?case
    using snoc by (auto simp: v acc_add_lookup accumulate_def split: option.splits)
qed

lemma rolled_acc_of:
  assumes "\<forall>p \<in> set g. distinct (map fst (pt_Values p))"
  shows "map_of (rolled (acc_of g)) k = (if values_of k g = [] then None else Some (summary k (values_of k g)))"
  unfolding rolled_def map_of_map_key acc_of_lookup [OF assms] by (simp add: summary_def)

text \<open>The points of the coarser ring: the closed buckets that have values.\<close>

definition closed_buckets :: "int \<Rightarrow> Point list \<Rightarrow> (int \<times> f64 smap) list" where
  "closed_buckets step pts = map (\<lambda>(b, g). (b, rolled (acc_of g))) (filter (\<lambda>(b, g). acc_of g \<noteq> []) (butlast (buckets step pts)))"

lemma buckets_snoc: "buckets step (pts @ [p]) = join_bucket step (buckets step pts) p"
  by (simp add: buckets_def)

lemma buckets_Nil [simp]: "buckets step pts = [] \<longleftrightarrow> pts = []"
  by (cases pts rule: rev_cases) (auto simp: buckets_snoc join_bucket_def Let_def, simp add: buckets_def)

section \<open>The history and its points\<close>

abbreviation flat :: "Point list \<Rightarrow> (int \<times> f64 smap) list" where
  "flat pts \<equiv> map (\<lambda>p. (pt_Time p, pt_Values p)) pts"

definition hinv :: "nat \<Rightarrow> (nat \<times> int) option \<Rightarrow> Point list \<Rightarrow> History \<Rightarrow> bool" where
  "hinv c ro pts h \<longleftrightarrow> 1 \<le> c \<and> holds c (flat pts) (h_raw h) \<and> length (h_subs h) \<le> maxSubscribers
     \<and> (pts \<noteq> [] \<longrightarrow> h_latest h = last pts) \<and> (\<forall>p \<in> set pts. distinct (map fst (pt_Values p)))
     \<and> (case ro of
          None \<Rightarrow> h_rollup h = None
        | Some (c2, step) \<Rightarrow> 1 \<le> c2 \<and> h_step h = step \<and> (\<exists>r. h_rollup h = Some r \<and> holds c2 (closed_buckets step pts) r)
            \<and> (if pts = [] then h_acc h = [] else h_bucket h = fst (last (buckets step pts)) \<and> h_acc h = acc_of (snd (last (buckets step pts)))))"

lemma roll_hinv:
  assumes "h_rollup h = Some r" "holds c2 (closed_buckets (h_step h) pts) r" "1 \<le> c2"
    and "if pts = [] then h_acc h = [] else h_bucket h = fst (last (buckets (h_step h) pts)) \<and> h_acc h = acc_of (snd (last (buckets (h_step h) pts)))"
  shows "\<exists>r'. h_rollup (roll p h) = Some r' \<and> holds c2 (closed_buckets (h_step h) (pts @ [p])) r'
    \<and> h_bucket (roll p h) = fst (last (buckets (h_step h) (pts @ [p]))) \<and> h_acc (roll p h) = acc_of (snd (last (buckets (h_step h) (pts @ [p]))))"
proof -
  let ?step = "h_step h" and ?gs = "buckets (h_step h) pts" and ?b = "bucket_of (h_step h) (pt_Time p)"
  show ?thesis
  proof (cases "pts \<noteq> [] \<and> fst (last ?gs) = ?b")
    case True
    then have b: "buckets ?step (pts @ [p]) = butlast ?gs @ [(?b, snd (last ?gs) @ [p])]" by (simp add: buckets_snoc join_bucket_def)
    then show ?thesis using True assms by (auto simp: roll_def Let_def closed_buckets_def)
  next
    case False
    then have b: "buckets ?step (pts @ [p]) = ?gs @ [(?b, [p])]" by (auto simp: buckets_snoc join_bucket_def Let_def)
    show ?thesis
    proof (cases "pts = []")
      case True
      then show ?thesis using assms b by (auto simp: roll_def Let_def closed_buckets_def buckets_def acc_of_def)
    next
      case ne: False
      then obtain gs b0 g where gs: "?gs = gs @ [(b0, g)]" by (metis buckets_Nil rev_exhaust surj_pair)
      have cl: "closed_buckets ?step (pts @ [p]) = closed_buckets ?step pts @ (if acc_of g \<noteq> [] then [(b0, rolled (acc_of g))] else [])"
        by (auto simp: closed_buckets_def b gs butlast_append)
      have a: "h_acc h = acc_of g" "h_bucket h = b0" "b0 \<noteq> ?b" using assms(4) ne False gs by auto
      show ?thesis
        using assms(1,2) a cl b ring_append_holds [OF assms(2,3), of b0 "rolled (acc_of g)"] by (auto simp: roll_def Let_def acc_of_def)
    qed
  qed
qed

lemma take_point_hinv:
  assumes "hinv c ro pts h" "distinct (map fst (pt_Values p))"
  shows "hinv c ro (pts @ [p]) (take_point p nxt h)"
proof -
  let ?h = "h\<lparr>h_prev := nxt, h_latest := p, h_raw := ring_append (pt_Time p) (pt_Values p) (h_raw h)\<rparr>"
  have same: "h_raw (roll p ?h) = h_raw ?h" "h_subs (roll p ?h) = h_subs h" "h_latest (roll p ?h) = p" "h_step (roll p ?h) = h_step h"
    by (auto simp: roll_def Let_def split: option.split)
  have raw: "holds c (flat (pts @ [p])) (h_raw (roll p ?h))" using ring_append_holds [of c "flat pts" "h_raw h"] assms(1) same(1) by (simp add: hinv_def)
  have "case ro of None \<Rightarrow> h_rollup (roll p ?h) = None
    | Some (c2, step) \<Rightarrow> 1 \<le> c2 \<and> h_step (roll p ?h) = step \<and> (\<exists>r. h_rollup (roll p ?h) = Some r \<and> holds c2 (closed_buckets step (pts @ [p])) r)
        \<and> h_bucket (roll p ?h) = fst (last (buckets step (pts @ [p]))) \<and> h_acc (roll p ?h) = acc_of (snd (last (buckets step (pts @ [p]))))"
  proof (cases ro)
    case None
    then show ?thesis using assms(1) by (simp add: hinv_def roll_def)
  next
    case (Some cs)
    obtain c2 step where cs: "cs = (c2, step)" by fastforce
    obtain r where r: "h_rollup ?h = Some r" "holds c2 (closed_buckets (h_step ?h) pts) r" "1 \<le> c2" "h_step h = step"
      "if pts = [] then h_acc ?h = [] else h_bucket ?h = fst (last (buckets (h_step ?h) pts)) \<and> h_acc ?h = acc_of (snd (last (buckets (h_step ?h) pts)))"
      using assms(1) Some cs by (auto simp: hinv_def)
    show ?thesis using roll_hinv [OF r(1,2,3,5), of p] r(3,4) same(4) Some cs by auto
  qed
  then show ?thesis
    using assms raw same by (auto simp: hinv_def take_point_def publish_point_def split: option.splits)
qed

lemma sample_metric_distinct: "distinct (map fst (pt_Values (fst acc))) \<Longrightarrow> distinct (map fst (pt_Values (fst (sample_metric now prev key m acc))))"
  by (auto simp: sample_metric_def sample_histogram_def Let_def distinct_update split: metric.split option.split)

lemma fold_keeps: "(\<And>x a. P a \<Longrightarrow> P (f x a)) \<Longrightarrow> P a \<Longrightarrow> P (fold f xs a)"
  by (induction xs arbitrary: a) auto

lemma make_point_distinct: "distinct (map fst (pt_Values (fst (make_point now prev fams))))"
  unfolding make_point_def
proof (rule fold_keeps [where P = "\<lambda>acc. distinct (map fst (pt_Values (fst acc)))"])
  fix fam and acc :: sampling
  assume "distinct (map fst (pt_Values (fst acc)))"
  then show "distinct (map fst (pt_Values (fst (sample_family now prev fam acc))))"
    unfolding sample_family_def
    by (auto split: option.split prod.split intro!: fold_keeps [where P = "\<lambda>acc. distinct (map fst (pt_Values (fst acc)))"] sample_metric_distinct)
qed simp

text \<open>The runs of a history, with the points taken: samples and viewers in any order.\<close>

definition start_history :: "duration \<Rightarrow> duration \<Rightarrow> (duration \<times> duration) option \<Rightarrow> History" where
  "start_history interval window ro = (case ro of None \<Rightarrow> NewHistory interval window | Some (step, w2) \<Rightarrow> WithRollup step w2 (NewHistory interval window))"

inductive hrun :: "History \<Rightarrow> Point list \<Rightarrow> History \<Rightarrow> bool" for h0 where
  begin_run: "hrun h0 [] h0"
| sampled: "hrun h0 pts h \<Longrightarrow> hrun h0 (pts @ [fst (make_point now (h_prev h) fams)]) (Sample now (Some fams) h)"
| missed: "hrun h0 pts h \<Longrightarrow> hrun h0 pts (Sample now None h)"
| joined: "hrun h0 pts h \<Longrightarrow> hrun h0 pts (snd (Subscribe c h))"
| left: "hrun h0 pts h \<Longrightarrow> hrun h0 pts (Unsubscribe c h)"
| received: "hrun h0 pts h \<Longrightarrow> hrun h0 pts (snd (receive c h))"

abbreviation capacity_of :: "duration \<Rightarrow> duration \<Rightarrow> nat" where
  "capacity_of window step \<equiv> nat (max (sgn window * sgn step * (\<bar>window\<bar> div \<bar>step\<bar>)) 1)"

definition rollup_of :: "(duration \<times> duration) option \<Rightarrow> (nat \<times> int) option" where
  "rollup_of ro = map_option (\<lambda>(step, w2). (capacity_of w2 step, millis step)) ro"

lemma start_hinv: "hinv (capacity_of window interval) (rollup_of ro) [] (start_history interval window ro)"
  by (auto simp: hinv_def start_history_def rollup_of_def NewHistory_def WithRollup_def millis_def newRing_holds closed_buckets_def buckets_def split: option.split)

lemma hinv_subs: "hinv c ro pts h \<Longrightarrow> length subs \<le> maxSubscribers \<Longrightarrow> hinv c ro pts (h\<lparr>h_subs := subs\<rparr>)"
  by (cases ro) (auto simp: hinv_def)

lemma hrun_hinv:
  assumes "hrun (start_history interval window ro) pts h"
  shows "hinv (capacity_of window interval) (rollup_of ro) pts h"
  using assms
proof (induction rule: hrun.induct)
  case begin_run
  then show ?case by (rule start_hinv)
next
  case (sampled pts h now fams)
  show ?case
    by (simp add: Sample_def split_def take_point_hinv [OF sampled.IH make_point_distinct])
next
  case (missed pts h now)
  then show ?case by (simp add: Sample_def)
next
  case (joined pts h c)
  then show ?case by (simp add: Subscribe_def hinv_subs)
next
  case (left pts h c)
  have "length (filter (\<lambda>(d, _). d \<noteq> c) (h_subs h)) \<le> maxSubscribers"
    using left.IH length_filter_le [of "\<lambda>(d, _). d \<noteq> c" "h_subs h"] unfolding hinv_def by linarith
  then show ?case using left.IH by (simp add: Unsubscribe_def hinv_subs)
next
  case (received pts h c)
  moreover have "length (h_subs h) \<le> maxSubscribers" using received by (simp add: hinv_def)
  ultimately show ?case by (simp add: receive_def hinv_subs)
qed

section \<open>The columns\<close>

definition raw_points :: "nat \<Rightarrow> Point list \<Rightarrow> (int \<times> f64 smap) list" where
  "raw_points c pts = last_n c (flat pts)"

definition rolled_points :: "(nat \<times> int) option \<Rightarrow> Point list \<Rightarrow> (int \<times> f64 smap) list" where
  "rolled_points ro pts = (case ro of None \<Rightarrow> [] | Some (c2, step) \<Rightarrow> last_n c2 (closed_buckets step pts))"

text \<open>What is served: the coarser points older than the first fine one, then the fine ones.\<close>

definition served :: "nat \<Rightarrow> (nat \<times> int) option \<Rightarrow> Point list \<Rightarrow> (int \<times> f64 smap) list" where
  "served c ro pts = takeWhile (\<lambda>q. raw_points c pts = [] \<or> fst q < fst (hd (raw_points c pts))) (rolled_points ro pts) @ raw_points c pts"

lemma appendColumn_holds:
  assumes "holds c pts r" "n \<le> length (rg_times r)"
  shows "appendColumn (map_of (rg_series r) k) n = Ret (take n (map (\<lambda>p. value_at k (snd p)) (last_n c pts)))"
proof (cases "ever k pts")
  case True
  then show ?thesis using assms by (simp add: holds_def appendColumn_def)
next
  case False
  then have "value_at k (snd p) = NaN" if "p \<in> set (last_n c pts)" for p
    using that set_last_n [of c pts] by (auto simp: ever_def value_at_def split: option.split)
  then have "map (\<lambda>p. value_at k (snd p)) (last_n c pts) = replicate (length (last_n c pts)) NaN"
    by (intro replicate_eqI) auto
  then show ?thesis using False assms by (simp add: holds_def appendColumn_def)
qed

lemma bucket_points: "(b, g) \<in> set (buckets step pts) \<Longrightarrow> set g \<subseteq> set pts"
proof (induction pts arbitrary: b g rule: rev_induct)
  case Nil
  then show ?case by (simp add: buckets_def)
next
  case (snoc p pts)
  have "set (snd (last (buckets step pts))) \<subseteq> set pts" if "buckets step pts \<noteq> []"
    using snoc.IH [of "fst (last (buckets step pts))" "snd (last (buckets step pts))"] that by simp
  then show ?case
    using snoc by (auto simp: buckets_snoc join_bucket_def Let_def split: if_splits dest!: in_set_butlastD)
qed

lemma closed_ever:
  assumes "\<forall>p \<in> set pts. distinct (map fst (pt_Values p))" "q \<in> set (closed_buckets step pts)"
  shows "\<exists>g. (fst q, g) \<in> set (butlast (buckets step pts)) \<and> set g \<subseteq> set pts \<and> (\<forall>k. map_of (snd q) k = (if values_of k g = [] then None else Some (summary k (values_of k g))))"
proof -
  obtain g where g: "(fst q, g) \<in> set (butlast (buckets step pts))" "snd q = rolled (acc_of g)" using assms(2) by (auto simp: closed_buckets_def)
  then have "set g \<subseteq> set pts" using bucket_points by (metis in_set_butlastD)
  then show ?thesis using g rolled_acc_of [of g] assms(1) by (metis subsetD)
qed

lemma ever_closed:
  assumes "\<forall>p \<in> set pts. distinct (map fst (pt_Values p))" "ever k (closed_buckets step pts)"
  shows "ever k (flat pts)"
proof -
  obtain q where q: "q \<in> set (closed_buckets step pts)" "map_of (snd q) k \<noteq> None" using assms(2) by (auto simp: ever_def)
  obtain g where g: "set g \<subseteq> set pts" "values_of k g \<noteq> []" using closed_ever [OF assms(1) q(1)] q(2) by (metis option.distinct(1))
  then obtain p where "p \<in> set g" "map_of (pt_Values p) k \<noteq> None" by (auto simp: values_of_def List.map_filter_def filter_empty_conv)
  then show ?thesis using g(1) by (auto simp: ever_def)
qed

lemma old_points_map: "old_points (map fst rolls) (map fst raw) = map fst (takeWhile (\<lambda>q. raw = [] \<or> fst q < fst (hd raw)) rolls)"
  by (cases raw) (simp_all add: old_points_def takeWhile_map comp_def)

lemma column_of_hinv:
  assumes "hinv c ro pts h"
  shows "column_of h k = Ret (map (\<lambda>q. value_at k (snd q)) (served c ro pts))"
proof -
  have raw: "rg_times (h_raw h) = map fst (raw_points c pts)" "appendColumn (map_of (rg_series (h_raw h)) k) (length (rg_times (h_raw h))) = Ret (map (\<lambda>q. value_at k (snd q)) (raw_points c pts))"
    using assms appendColumn_holds [of c "flat pts" "h_raw h" "length (rg_times (h_raw h))" k] by (auto simp: hinv_def holds_def raw_points_def)
  show ?thesis
  proof (cases ro)
    case None
    then show ?thesis using assms raw by (simp add: hinv_def column_of_def served_def rolled_points_def)
  next
    case (Some cs)
    obtain c2 step r where r: "ro = Some (c2, step)" "h_rollup h = Some r" "holds c2 (closed_buckets step pts) r" using assms Some by (cases cs) (auto simp: hinv_def)
    let ?P = "\<lambda>q. raw_points c pts = [] \<or> fst q < fst (hd (raw_points c pts))" and ?rolls = "last_n c2 (closed_buckets step pts)"
    have "rg_times r = map fst ?rolls" using r(3) by (simp add: holds_def)
    then have "old_points (rg_times r) (rg_times (h_raw h)) = map fst (takeWhile ?P ?rolls)"
      using raw(1) by (simp add: old_points_map)
    moreover have "length (takeWhile ?P ?rolls) \<le> length (rg_times r)" by (metis \<open>rg_times r = map fst ?rolls\<close> length_map length_takeWhile_le)
    ultimately have "appendColumn (map_of (rg_series r) k) (length (old_points (rg_times r) (rg_times (h_raw h)))) = Ret (map (\<lambda>q. value_at k (snd q)) (takeWhile ?P ?rolls))"
      using appendColumn_holds [OF r(3)] by (simp add: take_map takeWhile_eq_take [symmetric])
    then show ?thesis using raw(2) r(1,2) by (simp add: column_of_def served_def rolled_points_def)
  qed
qed

lemma column_times_hinv: "hinv c ro pts h \<Longrightarrow> column_times h = map fst (served c ro pts)"
proof (cases ro)
  case None
  moreover assume "hinv c ro pts h"
  ultimately show ?thesis by (simp add: hinv_def holds_def column_times_def served_def rolled_points_def raw_points_def)
next
  case (Some cs)
  moreover assume "hinv c ro pts h"
  ultimately obtain c2 step r where r: "ro = Some (c2, step)" "h_rollup h = Some r" "rg_times r = map fst (last_n c2 (closed_buckets step pts))" "rg_times (h_raw h) = map fst (raw_points c pts)"
    by (cases cs) (auto simp: hinv_def holds_def raw_points_def)
  then show ?thesis
    by (simp add: column_times_def served_def rolled_points_def old_points_map)
qed

lemma all_columns_hinv:
  assumes "hinv c ro pts h"
  shows "all_columns h ks = Ret (map (\<lambda>k. (k, map (\<lambda>q. value_at k (snd q)) (served c ro pts))) ks)"
  by (induction ks) (simp_all add: column_of_hinv [OF assms])

lemma shown_keys_hinv:
  assumes "hinv c ro pts h"
  shows "k \<in> set (shown_keys h) \<longleftrightarrow> ever k (flat pts)"
proof -
  have keys: "k \<in> fst ` set (rg_series r) \<longleftrightarrow> ever k qs" if "holds d qs r" for d qs r
    using that by (metis holds_def map_of_eq_None_iff option.distinct(1))
  show ?thesis
  proof (cases ro)
    case None
    then show ?thesis using assms keys [of c "flat pts" "h_raw h"] by (auto simp: hinv_def shown_keys_def)
  next
    case (Some cs)
    then obtain c2 step r where r: "h_rollup h = Some r" "holds c2 (closed_buckets step pts) r" using assms by (cases cs) (auto simp: hinv_def)
    then show ?thesis using assms keys [of c "flat pts" "h_raw h"] keys [OF r(2)] ever_closed [of pts k step] by (auto simp: hinv_def shown_keys_def)
  qed
qed

lemma map_of_keys: "map_of (map (\<lambda>k. (k, f k)) ks) k = (if k \<in> set ks then Some (f k) else None)"
  by (induction ks) auto

text \<open>Samples that are taken in order are served in order.\<close>

lemma bucket_of_nonneg: "0 \<le> t \<Longrightarrow> 0 < step \<Longrightarrow> bucket_of step t = step * (t div step)"
  by (cases "t = 0") (simp_all add: bucket_of_def minus_mod_eq_mult_div)

lemma bucket_of_mono: "0 \<le> s \<Longrightarrow> s \<le> t \<Longrightarrow> 0 < step \<Longrightarrow> bucket_of step s \<le> bucket_of step t"
  by (simp add: bucket_of_nonneg zdiv_mono1)

lemma buckets_sorted:
  assumes "sorted (map pt_Time pts)" "\<forall>p \<in> set pts. 0 \<le> pt_Time p" "0 < step"
  shows "sorted_wrt (<) (map fst (buckets step pts)) \<and> (pts \<noteq> [] \<longrightarrow> fst (last (buckets step pts)) = bucket_of step (pt_Time (last pts)))"
  using assms
proof (induction pts rule: rev_induct)
  case Nil
  then show ?case by (simp add: buckets_def)
next
  case (snoc p pts)
  then have IH: "sorted_wrt (<) (map fst (buckets step pts))" "pts \<noteq> [] \<Longrightarrow> fst (last (buckets step pts)) = bucket_of step (pt_Time (last pts))"
    by (simp_all add: sorted_append)
  show ?case
  proof (cases "pts = []")
    case True
    then show ?thesis by (simp add: buckets_def join_bucket_def)
  next
    case ne: False
    then obtain gs b g where gs: "buckets step pts = gs @ [(b, g)]" by (metis buckets_Nil rev_exhaust surj_pair)
    have "pt_Time (last pts) \<le> pt_Time p" "0 \<le> pt_Time (last pts)" using snoc.prems ne by (auto simp: sorted_append)
    then have "b \<le> bucket_of step (pt_Time p)" using IH(2) [OF ne] gs bucket_of_mono snoc.prems(3) by simp
    then show ?thesis using IH(1) gs by (auto simp: buckets_snoc join_bucket_def Let_def sorted_wrt_append)
  qed
qed

lemma closed_sorted:
  assumes "sorted (map pt_Time pts)" "\<forall>p \<in> set pts. 0 \<le> pt_Time p" "0 < step"
  shows "sorted (map fst (closed_buckets step pts))"
proof -
  have "sorted_wrt (<) (map fst (butlast (buckets step pts)))"
    using buckets_sorted [OF assms] by (simp add: butlast_conv_take take_map [symmetric] sorted_wrt_take)
  then have "sorted_wrt (\<le>) (map fst (butlast (buckets step pts)))" by (rule sorted_wrt_mono_rel [rotated]) simp
  then have "sorted_wrt (\<le>) (map fst (filter (\<lambda>(b, g). acc_of g \<noteq> []) (butlast (buckets step pts))))"
    by (simp add: sorted_wrt_map sorted_wrt_filter)
  then show ?thesis by (simp add: closed_buckets_def comp_def split_def)
qed

lemma sorted_last_n: "sorted xs \<Longrightarrow> sorted (last_n n xs)"
  by (simp add: last_n_def sorted_wrt_drop)

lemma served_sorted:
  assumes "sorted (map pt_Time pts)" "\<forall>p \<in> set pts. 0 \<le> pt_Time p" "\<forall>c2 step. ro = Some (c2, step) \<longrightarrow> 0 < step"
  shows "sorted (map fst (served c ro pts))"
proof -
  have raw: "sorted (map fst (raw_points c pts))" using sorted_last_n [of "map pt_Time pts" c] assms(1) by (simp add: raw_points_def map_last_n comp_def)
  have "sorted (map fst (rolled_points ro pts))"
    using sorted_last_n [OF closed_sorted [OF assms(1,2)]] assms(3) by (auto simp: rolled_points_def map_last_n split: option.split)
  then have old: "sorted (map fst (takeWhile P (rolled_points ro pts)))" for P
    by (subst takeWhile_eq_take) (simp add: take_map [symmetric] sorted_wrt_take)
  have "x \<le> y" if "x \<in> fst ` set (takeWhile (\<lambda>q. raw_points c pts = [] \<or> fst q < fst (hd (raw_points c pts))) (rolled_points ro pts))" "y \<in> fst ` set (raw_points c pts)" for x y
  proof -
    have "raw_points c pts \<noteq> []" using that(2) by auto
    then have "x < fst (hd (raw_points c pts))" using that(1) by (auto dest: set_takeWhileD)
    moreover have "fst (hd (raw_points c pts)) \<le> y" using raw that(2) by (cases "raw_points c pts") auto
    ultimately show ?thesis by simp
  qed
  then show ?thesis using raw old by (auto simp: served_def sorted_append)
qed

text \<open>
  C21. Whatever samples were taken and however viewers came and went, the dashboard is served columns that line up: one time axis, on it the coarser points older than the first fine point that is kept, then the last fine points, as many as the
  ring holds; and for every series that ever had a value, and no other, a column with its value at each of these times, or none where it had none. Reading never panics. A coarser point is its bucket's summary: the largest of the values for a
  quantile, their mean otherwise. If the samples were taken in order, the axis is in order, and there are never more than eight viewers.
\<close>

theorem history_columns:
  assumes "hrun (start_history interval window ro) pts h"
  shows "\<exists>cols. Columns_of h = Ret cols
    \<and> cl_Times cols = map fst (served (capacity_of window interval) (rollup_of ro) pts)
    \<and> (\<forall>k. map_of (cl_Series cols) k = (if ever k (flat pts) then Some (map (\<lambda>q. value_at k (snd q)) (served (capacity_of window interval) (rollup_of ro) pts)) else None))
    \<and> (\<forall>c2 step q. rollup_of ro = Some (c2, step) \<and> q \<in> set (rolled_points (rollup_of ro) pts) \<longrightarrow>
          (\<exists>g. (fst q, g) \<in> set (butlast (buckets step pts)) \<and> (\<forall>k. map_of (snd q) k = (if values_of k g = [] then None else Some (summary k (values_of k g))))))
    \<and> (sorted (map pt_Time pts) \<and> (\<forall>p \<in> set pts. 0 \<le> pt_Time p) \<and> (\<forall>step w2. ro = Some (step, w2) \<longrightarrow> 0 < millis step) \<longrightarrow> sorted (cl_Times cols))
    \<and> length (h_subs h) \<le> maxSubscribers"
proof -
  let ?c = "capacity_of window interval" and ?ro = "rollup_of ro"
  have i: "hinv ?c ?ro pts h" by (rule hrun_hinv [OF assms])
  define cols where "cols = \<lparr>cl_Interval = millis (h_interval h),
          cl_Window = (let w = int (rg_capacity (h_raw h)) * millis (h_interval h) in case h_rollup h of None \<Rightarrow> w | Some r \<Rightarrow> max w (int (rg_capacity r) * h_step h)),
          cl_Times = map fst (served ?c ?ro pts), cl_Series = map (\<lambda>k. (k, map (\<lambda>q. value_at k (snd q)) (served ?c ?ro pts))) (shown_keys h)\<rparr>"
  have "Columns_of h = Ret cols" by (simp add: Columns_of_def all_columns_hinv [OF i] column_times_hinv [OF i] cols_def)
  moreover have "map_of (cl_Series cols) k = (if ever k (flat pts) then Some (map (\<lambda>q. value_at k (snd q)) (served ?c ?ro pts)) else None)" for k
    using shown_keys_hinv [OF i, of k] by (simp add: cols_def map_of_keys)
  moreover have "\<exists>g. (fst q, g) \<in> set (butlast (buckets step pts)) \<and> (\<forall>k. map_of (snd q) k = (if values_of k g = [] then None else Some (summary k (values_of k g))))"
    if "?ro = Some (c2, step)" "q \<in> set (rolled_points ?ro pts)" for c2 step q
  proof -
    have "q \<in> set (last_n c2 (closed_buckets step pts))" using that by (simp add: rolled_points_def)
    then have "q \<in> set (closed_buckets step pts)" using set_last_n by (metis subsetD)
    then show ?thesis using closed_ever [of pts q step] i by (auto simp: hinv_def)
  qed
  moreover have "sorted (cl_Times cols)" if "sorted (map pt_Time pts)" "\<forall>p \<in> set pts. 0 \<le> pt_Time p" "\<forall>step w2. ro = Some (step, w2) \<longrightarrow> 0 < millis step"
  proof -
    have "\<forall>c2 step. ?ro = Some (c2, step) \<longrightarrow> 0 < step" using that(3) by (cases ro) (auto simp: rollup_of_def)
    from served_sorted [OF that(1,2) this, of ?c] show ?thesis by (simp add: cols_def)
  qed
  moreover have "length (h_subs h) \<le> maxSubscribers" using i by (simp add: hinv_def)
  moreover have "cl_Times cols = map fst (served ?c ?ro pts)" by (simp add: cols_def)
  ultimately show ?thesis by (intro exI [of _ cols]) blast
qed

section \<open>A short run\<close>

definition ex_fams :: "family list" where
  "ex_fams = [(''ncli_relay_sessions'', [([], Gauge (Num 3))]), (''go_threads'', [([], Gauge (Num 9))])]"

definition ex_at :: "int \<Rightarrow> gtime" where
  "ex_at t = unix_epoch + t * 1000000"

definition ex_history :: History where
  "ex_history = start_history 1000000 2000000 (Some (2000000, 10000000))"

lemma ex_point: "make_point (ex_at t) [] ex_fams = (\<lparr>pt_Time = t, pt_Values = [(''sessions'', Num 3)], pt_Totals = []\<rparr>, [])"
  by (simp add: make_point_def ex_fams_def sample_family_def seriesName_def keptRuntime_def cut_prefix_def has_prefix_def labelSuffix_def sample_metric_def unix_milli_def ex_at_def)

abbreviation ex_pt :: "int \<Rightarrow> Point" where
  "ex_pt t \<equiv> \<lparr>pt_Time = t, pt_Values = [(''sessions'', Num 3)], pt_Totals = []\<rparr>"

lemma ex_step: "hrun ex_history pts h \<Longrightarrow> h_prev h = [] \<Longrightarrow> hrun ex_history (pts @ [ex_pt t]) (take_point (ex_pt t) [] h) \<and> h_prev (take_point (ex_pt t) [] h) = []"
  using hrun.sampled [of ex_history pts h "ex_at t" ex_fams] by (auto simp: Sample_def ex_point take_point_def publish_point_def roll_def Let_def split: option.split)

lemma ex_run: "\<exists>h. hrun ex_history [ex_pt 1, ex_pt 2, ex_pt 3] h"
proof -
  have "hrun ex_history [] ex_history \<and> h_prev ex_history = []" by (simp add: hrun.begin_run ex_history_def start_history_def WithRollup_def NewHistory_def)
  from ex_step [of "[]" _ 1] this obtain h1 where h1: "hrun ex_history [ex_pt 1] h1" "h_prev h1 = []" by fastforce
  from ex_step [OF h1, of 2] obtain h2 where h2: "hrun ex_history [ex_pt 1, ex_pt 2] h2" "h_prev h2 = []" by fastforce
  from ex_step [OF h2, of 3] show ?thesis by fastforce
qed

lemma ex_served: "map fst (served (capacity_of 2000000 1000000) (rollup_of (Some (2000000, 10000000))) [ex_pt 1, ex_pt 2, ex_pt 3]) = [0, 2, 3]"
  by code_simp

theorem history_columns_witness:
  "\<exists>h cols. hrun ex_history [ex_pt 1, ex_pt 2, ex_pt 3] h \<and> Columns_of h = Ret cols \<and> cl_Times cols = [0, 2, 3] \<and> sorted (cl_Times cols)"
proof -
  obtain h where h: "hrun (start_history 1000000 2000000 (Some (2000000, 10000000))) [ex_pt 1, ex_pt 2, ex_pt 3] h" using ex_run by (auto simp: ex_history_def)
  show ?thesis using history_columns [OF h] h ex_served by (auto simp: ex_history_def)
qed

end
