(* ===== verification/Huddle_Session.thy ===== *)
theory Huddle_Session
  imports Go_Time Go_Text "HOL-Library.Multiset"
begin

text \<open>
  One WebRTC peer of a huddle (\<open>huddle/sfu/session.go\<close>): the handshake and what it leaves behind, and the exchange of descriptions and ICE candidates. The peer connection is pion's and a parameter: its operations are functions that may fail. The exchange runs in three
  kinds of goroutine, the signalling loop, the ones that add a track and renegotiate, and the one that gathers candidates; each is split where another may come in between.
\<close>

section \<open>The handshake\<close>

datatype join_error = ErrRoomFull | ErrRoomEnded | ErrUpgradeRequired | ErrBadVersion | ErrTooManyRooms | ErrJoinOther

datatype error_code = CodeAuthFailed | CodeJoinRejected | CodeRoomFull | CodeRoomEnded | CodeUpgradeRequired | CodeRoomUnavailable
  | CodeAudioUnavailable | CodeNegotiationFailed

text \<open>What each call of the handshake returns, in the order of the calls; the auth message is its event's key, if it has an event, and its version.\<close>

record handshake_env =
  he_challenge_written :: bool
  he_auth :: "(string option \<times> nat option) option"
  he_valid :: bool
  he_verified :: bool
  he_authorized :: bool
  he_pc :: bool
  he_sink :: bool
  he_join :: "join_error option"
  he_room_version :: "nat option"
  he_joined_written :: bool

datatype sfu_reply = ReplyChallenge | ReplyJoined | ReplyErr error_code "nat option"

text \<open>What the session holds: the peer connection, the sink with its goroutine, the place in the room and in the video hub.\<close>

record held =
  h_pc :: bool
  h_sink :: bool
  h_room :: bool
  h_hub :: bool

definition nothing_held :: held where
  "nothing_held = \<lparr>h_pc = False, h_sink = False, h_room = False, h_hub = False\<rparr>"

definition writeJoinError :: "nat \<Rightarrow> nat option \<Rightarrow> join_error \<Rightarrow> sfu_reply" where
  "writeJoinError current_version room_version e = (case e of
     ErrRoomFull \<Rightarrow> ReplyErr CodeRoomFull None
   | ErrRoomEnded \<Rightarrow> ReplyErr CodeRoomEnded None
   | ErrUpgradeRequired \<Rightarrow> ReplyErr CodeUpgradeRequired room_version
   | ErrBadVersion \<Rightarrow> ReplyErr CodeUpgradeRequired (Some current_version)
   | ErrTooManyRooms \<Rightarrow> ReplyErr CodeRoomUnavailable None
   | ErrJoinOther \<Rightarrow> ReplyErr CodeJoinRejected None)"

definition handshake :: "nat \<Rightarrow> handshake_env \<Rightarrow> bool \<times> held \<times> sfu_reply list" where
  "handshake current_version E =
     (let refuse = (\<lambda>h r. (False, h, [ReplyChallenge, r])) in
      if \<not> he_challenge_written E then (False, nothing_held, [])
      else (case he_auth E of
          None \<Rightarrow> (False, nothing_held, [ReplyChallenge])
        | Some (event, version) \<Rightarrow>
            if event = None then refuse nothing_held (ReplyErr CodeAuthFailed None)
            else if \<not> he_valid E then refuse nothing_held (ReplyErr CodeAuthFailed None)
            else if \<not> he_verified E then refuse nothing_held (ReplyErr CodeAuthFailed None)
            else if \<not> he_authorized E then refuse nothing_held (ReplyErr CodeJoinRejected None)
            else if \<not> he_pc E then refuse nothing_held (ReplyErr CodeNegotiationFailed None)
            else if \<not> he_sink E then refuse (nothing_held\<lparr>h_pc := True\<rparr>) (ReplyErr CodeNegotiationFailed None)
            else (case he_join E of
                Some e \<Rightarrow> refuse (nothing_held\<lparr>h_pc := True, h_sink := True\<rparr>) (writeJoinError current_version (he_room_version E) e)
              | None \<Rightarrow>
                  let all = \<lparr>h_pc = True, h_sink = True, h_room = True, h_hub = True\<rparr> in
                  if he_joined_written E then (True, all, [ReplyChallenge, ReplyJoined]) else (False, all, [ReplyChallenge]))))"

definition teardown :: "held \<Rightarrow> held" where
  "teardown h = h\<lparr>h_hub := False, h_sink := False, h_pc := False, h_room := False\<rparr>"

text \<open>\<open>run\<close>: what is still held when it returns, and what it wrote; the teardown is deferred only once the handshake is through.\<close>

definition run_session :: "bool \<Rightarrow> nat \<Rightarrow> handshake_env \<Rightarrow> held \<times> sfu_reply list" where
  "run_session enabled current_version E =
     (if \<not> enabled then (nothing_held, [ReplyErr CodeAudioUnavailable None])
      else (case handshake current_version E of
          (False, h, out) \<Rightarrow> (h, out)
        | (True, h, out) \<Rightarrow> (teardown h, out)))"

section \<open>The peer connection\<close>

datatype sig_state = Stable | HaveLocalOffer | HaveRemoteOffer | OtherSignalling

datatype sdp_kind = Offer | Answer

record 'pc pc_ops =
  pc_SignalingState :: "'pc \<Rightarrow> sig_state"
  pc_RemoteDescription :: "'pc \<Rightarrow> bool"
  pc_SetRemoteDescription :: "sdp_kind \<Rightarrow> string \<Rightarrow> 'pc \<Rightarrow> 'pc option"
  pc_SetLocalDescription :: "sdp_kind \<Rightarrow> string \<Rightarrow> 'pc \<Rightarrow> 'pc option"
  pc_Create :: "sdp_kind \<Rightarrow> 'pc \<Rightarrow> string option"
  pc_AddICECandidate :: "string \<Rightarrow> 'pc \<Rightarrow> 'pc"

text \<open>
  What WebRTC documents of it: a description that is set leaves the state its kind says, a remote description once set stays, and a candidate changes neither.
\<close>

definition pc_laws :: "'pc pc_ops \<Rightarrow> bool" where
  "pc_laws P \<longleftrightarrow>
     (\<forall>k sdp p p'. pc_SetRemoteDescription P k sdp p = Some p' \<longrightarrow> pc_RemoteDescription P p'
        \<and> pc_SignalingState P p' = (case k of Offer \<Rightarrow> HaveRemoteOffer | Answer \<Rightarrow> Stable))
   \<and> (\<forall>k sdp p p'. pc_SetLocalDescription P k sdp p = Some p' \<longrightarrow> (pc_RemoteDescription P p' \<longleftrightarrow> pc_RemoteDescription P p)
        \<and> pc_SignalingState P p' = (case k of Offer \<Rightarrow> HaveLocalOffer | Answer \<Rightarrow> Stable))
   \<and> (\<forall>c p. (pc_RemoteDescription P (pc_AddICECandidate P c p) \<longleftrightarrow> pc_RemoteDescription P p)
        \<and> pc_SignalingState P (pc_AddICECandidate P c p) = pc_SignalingState P p)"

section \<open>The exchange\<close>

abbreviation maxPendingCandidates :: nat where "maxPendingCandidates \<equiv> 64"

datatype wire_msg = Description sdp_kind string | Candidate string | ErrorMsg

text \<open>
  Where the signalling loop is: reading; with an offer accepted, an answer set, its candidates going out, an answer of the client accepted; wanting to renegotiate, or renegotiating.
  \<open>negotiateMu\<close> is free, or held by a renegotiation past its check, with the offer set, or with candidates going out; the flag says whether the loop runs it.
\<close>

datatype loop_at = Listening | OfferAccepted | AnswerSet string | AnswerRelease "string list" | AnswerAccepted | WantsRenegotiation | InRenegotiation

datatype reneg_at = RFree | RChecked bool | ROfferSet bool string | RRelease bool "string list"

record 'pc exchange =
  x_pc :: 'pc
  x_negotiated :: bool
  x_pendingTracks :: bool
  x_pendingRemote :: "string list"
  x_localSent :: bool
  x_pendingLocal :: "string list"
  x_loop :: loop_at
  x_reneg :: reneg_at
  x_waiting :: nat
  x_outgoing :: "string list"
  x_wire :: "wire_msg list"
  x_broken :: bool
  x_applied :: "(bool \<times> string) list"
  x_received :: "string list"
  x_refused :: nat
  x_gathered :: "string list"
  x_overflow :: nat

text \<open>
  \<open>x_waiting\<close> counts goroutines that added a track and wait for \<open>negotiateMu\<close>, \<open>x_outgoing\<close> holds candidates that may go out and have not. The rest is what
  was done so far: the messages written, whether a write failed (a connection whose write failed takes no more), the candidates given to the peer connection and
  whether it had a remote description then, those that arrived and those gathered, and how many of each were dropped by the cap.
\<close>

definition start_exchange :: "'pc \<Rightarrow> 'pc exchange" where
  "start_exchange p = \<lparr>x_pc = p, x_negotiated = False, x_pendingTracks = False, x_pendingRemote = [], x_localSent = False, x_pendingLocal = [], x_loop = Listening,
     x_reneg = RFree, x_waiting = 0, x_outgoing = [], x_wire = [], x_broken = False, x_applied = [], x_received = [], x_refused = 0, x_gathered = [], x_overflow = 0\<rparr>"

definition write_msg :: "bool \<Rightarrow> wire_msg \<Rightarrow> 'pc exchange \<Rightarrow> 'pc exchange" where
  "write_msg ok msg x = (if ok \<and> \<not> x_broken x then x\<lparr>x_wire := x_wire x @ [msg]\<rparr> else x\<lparr>x_broken := True\<rparr>)"

text \<open>\<open>writeDescription\<close> under \<open>writeMu\<close>: the candidates to release, or \<open>None\<close> when the write failed.\<close>

definition writeDescription :: "bool \<Rightarrow> sdp_kind \<Rightarrow> string \<Rightarrow> 'pc exchange \<Rightarrow> 'pc exchange \<times> string list option" where
  "writeDescription ok kind sdp x =
     ((write_msg ok (Description kind sdp) x)\<lparr>x_pendingLocal := [], x_localSent := True\<rparr>, if ok \<and> \<not> x_broken x then Some (x_pendingLocal x) else None)"

definition queueLocalCandidate :: "string \<Rightarrow> 'pc exchange \<Rightarrow> 'pc exchange \<times> bool" where
  "queueLocalCandidate c x =
     (if x_localSent x then (x, True)
      else if length (x_pendingLocal x) < maxPendingCandidates then (x\<lparr>x_pendingLocal := x_pendingLocal x @ [c]\<rparr>, False)
      else (x\<lparr>x_overflow := x_overflow x + 1\<rparr>, False))"

text \<open>The callback of a gathered candidate: the write itself comes later.\<close>

definition gather :: "string \<Rightarrow> 'pc exchange \<Rightarrow> 'pc exchange" where
  "gather c x = (case queueLocalCandidate c x of
     (x1, out) \<Rightarrow> x1\<lparr>x_gathered := x_gathered x1 @ [c], x_outgoing := (if out then x_outgoing x1 @ [c] else x_outgoing x1)\<rparr>)"

definition apply_candidate :: "'pc pc_ops \<Rightarrow> string \<Rightarrow> 'pc exchange \<Rightarrow> 'pc exchange" where
  "apply_candidate P c x =
     x\<lparr>x_pc := pc_AddICECandidate P c (x_pc x), x_applied := x_applied x @ [(pc_RemoteDescription P (x_pc x), c)]\<rparr>"

definition addRemoteCandidate :: "'pc pc_ops \<Rightarrow> string \<Rightarrow> 'pc exchange \<Rightarrow> 'pc exchange" where
  "addRemoteCandidate P c x0 =
     (let x = x0\<lparr>x_received := x_received x0 @ [c]\<rparr> in
      if \<not> pc_RemoteDescription P (x_pc x)
      then (if length (x_pendingRemote x) \<ge> maxPendingCandidates then x\<lparr>x_refused := x_refused x + 1\<rparr>
            else x\<lparr>x_pendingRemote := x_pendingRemote x @ [c]\<rparr>)
      else apply_candidate P c x)"

definition flushRemoteCandidates :: "'pc pc_ops \<Rightarrow> 'pc exchange \<Rightarrow> 'pc exchange" where
  "flushRemoteCandidates P x = fold (apply_candidate P) (x_pendingRemote x) (x\<lparr>x_pendingRemote := []\<rparr>)"

subsection \<open>Handling an offer\<close>

definition handleOffer_remote :: "'pc pc_ops \<Rightarrow> string \<Rightarrow> bool \<Rightarrow> 'pc exchange \<Rightarrow> 'pc exchange" where
  "handleOffer_remote P sdp ok x = (case pc_SetRemoteDescription P Offer sdp (x_pc x) of
     None \<Rightarrow> write_msg ok ErrorMsg x
   | Some p \<Rightarrow> flushRemoteCandidates P (x\<lparr>x_pc := p, x_loop := OfferAccepted\<rparr>))"

definition handleOffer_answer :: "'pc pc_ops \<Rightarrow> bool \<Rightarrow> 'pc exchange \<Rightarrow> 'pc exchange" where
  "handleOffer_answer P ok x =
     (let fail = (write_msg ok ErrorMsg x)\<lparr>x_loop := Listening\<rparr> in
      case pc_Create P Answer (x_pc x) of
        None \<Rightarrow> fail
      | Some sdp \<Rightarrow> (case pc_SetLocalDescription P Answer sdp (x_pc x) of
          None \<Rightarrow> fail
        | Some p \<Rightarrow> x\<lparr>x_pc := p, x_loop := AnswerSet sdp\<rparr>))"

definition handleOffer_write :: "string \<Rightarrow> bool \<Rightarrow> 'pc exchange \<Rightarrow> 'pc exchange" where
  "handleOffer_write sdp ok x = (case writeDescription ok Answer sdp x of
     (x1, None) \<Rightarrow> x1\<lparr>x_loop := Listening\<rparr>
   | (x1, Some cs) \<Rightarrow> x1\<lparr>x_loop := AnswerRelease cs\<rparr>)"

definition handleOffer_release :: "bool \<Rightarrow> string \<Rightarrow> string list \<Rightarrow> 'pc exchange \<Rightarrow> 'pc exchange" where
  "handleOffer_release ok c cs x =
     (write_msg ok (Candidate c) x)\<lparr>x_loop := (if ok \<and> \<not> x_broken x then AnswerRelease cs else Listening)\<rparr>"

definition handleOffer_done :: "'pc exchange \<Rightarrow> 'pc exchange" where
  "handleOffer_done x = x\<lparr>x_negotiated := True, x_loop := (if x_pendingTracks x then WantsRenegotiation else Listening)\<rparr>"

subsection \<open>Handling an answer\<close>

definition handleAnswer_remote :: "'pc pc_ops \<Rightarrow> string \<Rightarrow> 'pc exchange \<Rightarrow> 'pc exchange" where
  "handleAnswer_remote P sdp x = (case pc_SetRemoteDescription P Answer sdp (x_pc x) of
     None \<Rightarrow> x
   | Some p \<Rightarrow> flushRemoteCandidates P (x\<lparr>x_pc := p, x_loop := AnswerAccepted\<rparr>))"

definition handleAnswer_look :: "'pc exchange \<Rightarrow> 'pc exchange" where
  "handleAnswer_look x = x\<lparr>x_loop := (if x_pendingTracks x then WantsRenegotiation else Listening)\<rparr>"

subsection \<open>Renegotiating\<close>

text \<open>When it returns, \<open>negotiateMu\<close> is free; when the loop ran it, the loop goes on reading.\<close>

definition reneg_return :: "bool \<Rightarrow> 'pc exchange \<Rightarrow> 'pc exchange" where
  "reneg_return by_loop x = x\<lparr>x_reneg := RFree, x_loop := (if by_loop then Listening else x_loop x)\<rparr>"

definition renegotiate_check :: "'pc pc_ops \<Rightarrow> bool \<Rightarrow> 'pc exchange \<Rightarrow> 'pc exchange" where
  "renegotiate_check P by_loop x0 =
     (let x = (if by_loop then x0\<lparr>x_loop := InRenegotiation\<rparr> else x0\<lparr>x_waiting := x_waiting x0 - 1\<rparr>) in
      if \<not> x_negotiated x \<or> pc_SignalingState P (x_pc x) \<noteq> Stable then reneg_return by_loop (x\<lparr>x_pendingTracks := True\<rparr>)
      else x\<lparr>x_pendingTracks := False, x_reneg := RChecked by_loop\<rparr>)"

definition renegotiate_offer :: "'pc pc_ops \<Rightarrow> bool \<Rightarrow> 'pc exchange \<Rightarrow> 'pc exchange" where
  "renegotiate_offer P by_loop x = (case pc_Create P Offer (x_pc x) of
     None \<Rightarrow> reneg_return by_loop x
   | Some sdp \<Rightarrow> (case pc_SetLocalDescription P Offer sdp (x_pc x) of
       None \<Rightarrow> reneg_return by_loop x
     | Some p \<Rightarrow> x\<lparr>x_pc := p, x_reneg := ROfferSet by_loop sdp\<rparr>))"

definition renegotiate_write :: "bool \<Rightarrow> string \<Rightarrow> bool \<Rightarrow> 'pc exchange \<Rightarrow> 'pc exchange" where
  "renegotiate_write by_loop sdp ok x = (case writeDescription ok Offer sdp x of
     (x1, None) \<Rightarrow> reneg_return by_loop x1
   | (x1, Some cs) \<Rightarrow> x1\<lparr>x_reneg := RRelease by_loop cs\<rparr>)"

definition renegotiate_release :: "bool \<Rightarrow> bool \<Rightarrow> string \<Rightarrow> string list \<Rightarrow> 'pc exchange \<Rightarrow> 'pc exchange" where
  "renegotiate_release by_loop ok c cs x =
     (let x1 = write_msg ok (Candidate c) x in if ok \<and> \<not> x_broken x then x1\<lparr>x_reneg := RRelease by_loop cs\<rparr> else reneg_return by_loop x1)"

definition write_outgoing :: "bool \<Rightarrow> 'pc exchange \<Rightarrow> 'pc exchange" where
  "write_outgoing ok x = (case x_outgoing x of [] \<Rightarrow> x | c # cs \<Rightarrow> (write_msg ok (Candidate c) x)\<lparr>x_outgoing := cs\<rparr>)"

section \<open>Interleaving\<close>

text \<open>\<open>event\<close> is a change of the peer connection on its own, or by a track that is added: it may close.\<close>

inductive xstep :: "'pc pc_ops \<Rightarrow> 'pc exchange \<Rightarrow> 'pc exchange \<Rightarrow> bool" for P where
  read_offer: "x_loop x = Listening \<Longrightarrow> xstep P x (handleOffer_remote P sdp ok x)"
| make_answer: "x_loop x = OfferAccepted \<Longrightarrow> xstep P x (handleOffer_answer P ok x)"
| write_answer: "x_loop x = AnswerSet sdp \<Longrightarrow> xstep P x (handleOffer_write sdp ok x)"
| release_answer: "x_loop x = AnswerRelease (c # cs) \<Longrightarrow> xstep P x (handleOffer_release ok c cs x)"
| offer_done: "x_loop x = AnswerRelease [] \<Longrightarrow> x_reneg x = RFree \<Longrightarrow> xstep P x (handleOffer_done x)"
| read_answer: "x_loop x = Listening \<Longrightarrow> xstep P x (handleAnswer_remote P sdp x)"
| answer_look: "x_loop x = AnswerAccepted \<Longrightarrow> x_reneg x = RFree \<Longrightarrow> xstep P x (handleAnswer_look x)"
| read_candidate: "x_loop x = Listening \<Longrightarrow> xstep P x (addRemoteCandidate P c x)"
| add_track: "xstep P x (x\<lparr>x_waiting := x_waiting x + 1\<rparr>)"
| check_added: "x_reneg x = RFree \<Longrightarrow> x_waiting x > 0 \<Longrightarrow> xstep P x (renegotiate_check P False x)"
| check_loop: "x_reneg x = RFree \<Longrightarrow> x_loop x = WantsRenegotiation \<Longrightarrow> xstep P x (renegotiate_check P True x)"
| offer: "x_reneg x = RChecked b \<Longrightarrow> xstep P x (renegotiate_offer P b x)"
| write_offer: "x_reneg x = ROfferSet b sdp \<Longrightarrow> xstep P x (renegotiate_write b sdp ok x)"
| release_offer: "x_reneg x = RRelease b (c # cs) \<Longrightarrow> xstep P x (renegotiate_release b ok c cs x)"
| offer_return: "x_reneg x = RRelease b [] \<Longrightarrow> xstep P x (reneg_return b x)"
| gathers: "xstep P x (gather c x)"
| writes: "xstep P x (write_outgoing ok x)"
| event: "pc_RemoteDescription P p \<longleftrightarrow> pc_RemoteDescription P (x_pc x) \<Longrightarrow> pc_SignalingState P p \<in> {pc_SignalingState P (x_pc x), OtherSignalling}
    \<Longrightarrow> xstep P x (x\<lparr>x_pc := p\<rparr>)"

inductive xreach :: "'pc pc_ops \<Rightarrow> 'pc exchange \<Rightarrow> bool" for P where
  xstart: "\<not> pc_RemoteDescription P p \<Longrightarrow> xreach P (start_exchange p)"
| xmore: "xreach P x \<Longrightarrow> xstep P x x' \<Longrightarrow> xreach P x'"

end
