(* ===== verification/Huddle_Rtp.thy ===== *)
theory Huddle_Rtp
  imports Prelude "HOL-Library.Word"
begin

text \<open>
  The bridge between a huddle room and RTP (\<open>huddle/rtp/rtp.go\<close>, \<open>huddle/rtp/ingest.go\<close>): the sink that a room hands its frames to, with its bounded queue and one
  stream of packets per speaker, and the frame made of an incoming packet. The frame format is the \<open>wire\<close> package's and a parameter: what it reads
  of a frame is an argument, and how it encodes one too; so are the track factory and the SSRC generator.
\<close>

unbundle bit_operations_syntax

section \<open>Packets and frames\<close>

record rtp_packet =
  rp_Marker :: bool
  rp_PayloadType :: "8 word"
  rp_SequenceNumber :: "16 word"
  rp_Timestamp :: "32 word"
  rp_SSRC :: "32 word"
  rp_Payload :: "8 word list"
  rp_extension :: "8 word \<Rightarrow> 8 word list"

record FrameHeader =
  fh_Seq :: "16 word"
  fh_Ts48k :: "32 word"
  fh_LevelDbov :: "8 word"
  fh_Flags :: "8 word"

record wire_ops =
  w_LevelSilenceFloor :: "8 word"
  w_FlagDTX :: "8 word"
  w_ClampLevel :: "8 word \<Rightarrow> 8 word"
  w_EncodeFrame :: "FrameHeader \<Rightarrow> 8 word list \<Rightarrow> 8 word list"

section \<open>From RTP\<close>

text \<open>A level is a signed byte; \<open>None\<close> is not present.\<close>

definition AudioLevel :: "wire_ops \<Rightarrow> rtp_packet option \<Rightarrow> 8 word \<Rightarrow> (8 word \<times> bool) option" where
  "AudioLevel w po extID = (case po of
     None \<Rightarrow> None
   | Some p \<Rightarrow>
       if extID = 0 then None
       else (case rp_extension p extID of
           [] \<Rightarrow> None
         | b # _ \<Rightarrow> Some (w_ClampLevel w (- (b AND 0x7F)), b AND 0x80 \<noteq> 0)))"

definition FrameFromRTP :: "wire_ops \<Rightarrow> rtp_packet option \<Rightarrow> 8 word \<Rightarrow> 8 word list option" where
  "FrameFromRTP w po extID = (case po of
     None \<Rightarrow> None
   | Some p \<Rightarrow>
       if rp_Payload p = [] then None
       else let h = \<lparr>fh_Seq = rp_SequenceNumber p, fh_Ts48k = rp_Timestamp p, fh_LevelDbov = w_LevelSilenceFloor w, fh_Flags = 0\<rparr>;
                h' = (case AudioLevel w (Some p) extID of
                    None \<Rightarrow> h
                  | Some (level, voice) \<Rightarrow> h\<lparr>fh_LevelDbov := level, fh_Flags := (if voice then fh_Flags h else fh_Flags h OR w_FlagDTX w)\<rparr>)
            in Some (w_EncodeFrame w h' (rp_Payload p)))"

section \<open>The sink\<close>

abbreviation OpusPayloadType :: "8 word" where "OpusPayloadType \<equiv> 111"
abbreviation DefaultQueueDepth :: nat where "DefaultQueueDepth \<equiv> 8"

text \<open>What a frame gives: its author, and its header, if it has one, as timestamp and whether it is comfort noise, and the Opus.\<close>

record room_frame =
  rf_Author :: string
  rf_Header :: "(32 word \<times> bool) option"
  rf_Opus :: "8 word list"

record queued =
  q_author :: string
  q_timestamp :: "32 word"
  q_marker :: bool
  q_payload :: "8 word list"

text \<open>A writer is known by a number, given by the factory; \<open>k_written\<close> lists the packets handed to writers.\<close>

record track =
  t_writer :: nat
  t_ssrc :: "32 word"
  t_seq :: "16 word"
  t_silent :: bool

record Sink =
  k_PayloadType :: "8 word"
  k_QueueDepth :: nat
  k_queue :: "queued list"
  k_done :: bool
  k_dropped :: "64 word"
  k_tracks :: "string \<rightharpoonup> track"
  k_written :: "(string \<times> nat \<times> rtp_packet) list"

definition NewSink :: "8 word \<Rightarrow> int \<Rightarrow> Sink" where
  "NewSink payloadType depth =
     \<lparr>k_PayloadType = (if payloadType = 0 then OpusPayloadType else payloadType),
      k_QueueDepth = (if depth < 1 then DefaultQueueDepth else nat depth),
      k_queue = [], k_done = False, k_dropped = 0, k_tracks = Map.empty, k_written = []\<rparr>"

definition queue_item :: "room_frame \<Rightarrow> queued" where
  "queue_item f = (case rf_Header f of
     None \<Rightarrow> \<lparr>q_author = rf_Author f, q_timestamp = 0, q_marker = False, q_payload = rf_Opus f\<rparr>
   | Some (ts, dtx) \<Rightarrow> \<lparr>q_author = rf_Author f, q_timestamp = ts, q_marker = \<not> dtx, q_payload = rf_Opus f\<rparr>)"

text \<open>When there is room and the sink is closed, the select may take either; \<open>queue_first\<close> tells which it took.\<close>

definition SendFrame :: "bool \<Rightarrow> room_frame \<Rightarrow> Sink \<Rightarrow> Sink \<times> bool" where
  "SendFrame queue_first f s =
     (if rf_Opus f = [] then (s, True)
      else let room = length (k_queue s) < k_QueueDepth s in
        if room \<and> (\<not> k_done s \<or> queue_first) then (s\<lparr>k_queue := k_queue s @ [queue_item f]\<rparr>, True)
        else if k_done s then (s, False)
        else (s\<lparr>k_dropped := k_dropped s + 1\<rparr>, False))"

definition Close_sink :: "Sink \<Rightarrow> Sink" where
  "Close_sink s = s\<lparr>k_done := True\<rparr>"

text \<open>
  One writer goroutine makes all tracks, so the second look at the map, after the factory ran, finds what the first did. What the factory and the SSRC
  generator give, if they do, is \<open>made\<close> and \<open>ssrc\<close>.
\<close>

definition trackFor :: "nat option \<Rightarrow> 32 word option \<Rightarrow> string \<Rightarrow> Sink \<Rightarrow> Sink \<times> track option" where
  "trackFor made ssrc author s = (case k_tracks s author of
     Some t \<Rightarrow> (s, Some t)
   | None \<Rightarrow> (case made of
        None \<Rightarrow> (s, None)
      | Some w \<Rightarrow> (case ssrc of
          None \<Rightarrow> (s, None)
        | Some x \<Rightarrow> let t = \<lparr>t_writer = w, t_ssrc = x, t_seq = 0, t_silent = True\<rparr> in (s\<lparr>k_tracks := (k_tracks s)(author \<mapsto> t)\<rparr>, Some t))))"

definition write_item :: "nat option \<Rightarrow> 32 word option \<Rightarrow> queued \<Rightarrow> Sink \<Rightarrow> Sink" where
  "write_item made ssrc item s = (case trackFor made ssrc (q_author item) s of
     (s1, None) \<Rightarrow> s1
   | (s1, Some t) \<Rightarrow>
       let marker = q_marker item \<and> t_silent t; t' = t\<lparr>t_silent := \<not> q_marker item, t_seq := t_seq t + 1\<rparr>;
           packet = \<lparr>rp_Marker = marker, rp_PayloadType = k_PayloadType s1, rp_SequenceNumber = t_seq t', rp_Timestamp = q_timestamp item, rp_SSRC = t_ssrc t,
                     rp_Payload = q_payload item, rp_extension = (\<lambda>_. [])\<rparr>
       in s1\<lparr>k_tracks := (k_tracks s1)(q_author item \<mapsto> t'), k_written := k_written s1 @ [(q_author item, t_writer t, packet)]\<rparr>)"

text \<open>One turn of the write loop on a queued item.\<close>

definition writeLoop_turn :: "nat option \<Rightarrow> 32 word option \<Rightarrow> Sink \<Rightarrow> Sink" where
  "writeLoop_turn made ssrc s = (case k_queue s of
     [] \<Rightarrow> s
   | item # rest \<Rightarrow> write_item made ssrc item (s\<lparr>k_queue := rest\<rparr>))"

definition Tracks :: "Sink \<Rightarrow> nat" where
  "Tracks s = card (dom (k_tracks s))"

section \<open>Runs\<close>

text \<open>
  Every order of frames sent, items written and the close. With the sink go the items it took and the items it has taken off the queue, oldest first,
  and how many frames it refused while it was open.
\<close>

inductive sink_run :: "8 word \<Rightarrow> int \<Rightarrow> Sink \<Rightarrow> queued list \<Rightarrow> queued list \<Rightarrow> nat \<Rightarrow> bool" for pt depth where
  fresh: "sink_run pt depth (NewSink pt depth) [] [] 0"
| send: "sink_run pt depth s taken popped refused \<Longrightarrow> SendFrame first f s = (s', ok)
    \<Longrightarrow> sink_run pt depth s' (if ok \<and> rf_Opus f \<noteq> [] then taken @ [queue_item f] else taken) popped (if ok \<or> k_done s then refused else refused + 1)"
| turn: "sink_run pt depth s taken popped refused \<Longrightarrow> k_queue s = item # rest \<Longrightarrow> sink_run pt depth (writeLoop_turn made ssrc s) taken (popped @ [item]) refused"
| close: "sink_run pt depth s taken popped refused \<Longrightarrow> sink_run pt depth (Close_sink s) taken popped refused"

text \<open>The packets of one speaker, and the packets that its items make when its stream begins with them.\<close>

definition packets_of :: "string \<Rightarrow> Sink \<Rightarrow> rtp_packet list" where
  "packets_of a s = map (snd \<circ> snd) (filter (\<lambda>(b, _). b = a) (k_written s))"

fun stream :: "8 word \<Rightarrow> 32 word \<Rightarrow> 16 word \<Rightarrow> bool \<Rightarrow> queued list \<Rightarrow> rtp_packet list" where
  "stream pt ssrc seq silent [] = []"
| "stream pt ssrc seq silent (i # is) =
     \<lparr>rp_Marker = q_marker i \<and> silent, rp_PayloadType = pt, rp_SequenceNumber = seq + 1, rp_Timestamp = q_timestamp i, rp_SSRC = ssrc,
      rp_Payload = q_payload i, rp_extension = (\<lambda>_. [])\<rparr> # stream pt ssrc (seq + 1) (\<not> q_marker i) is"

end
