(* ===== verification/Huddle_Video.thy ===== *)
theory Huddle_Video
  imports Go_Time "HOL-Library.Word"
begin

text \<open>
  The forwarding of video between the WebRTC peers of a room (\<open>huddle/sfu/video.go\<close>): the hub of sessions, a subscriber's copies of the publications and the
  requests for keyframes. A session is known by a number; that a track could be made and added to the peer connection is an argument.
\<close>

section \<open>The hub\<close>

type_synonym videoHub = "string \<rightharpoonup> nat set"

definition hub_join :: "string \<Rightarrow> nat \<Rightarrow> videoHub \<Rightarrow> videoHub" where
  "hub_join room s h = h(room \<mapsto> insert s (case h room of None \<Rightarrow> {} | Some S \<Rightarrow> S))"

definition hub_leave :: "string \<Rightarrow> nat \<Rightarrow> videoHub \<Rightarrow> videoHub" where
  "hub_leave room s h = (let S = (case h room of None \<Rightarrow> {} | Some S \<Rightarrow> S) - {s} in if S = {} then h(room := None) else h(room \<mapsto> S))"

definition hub_subscribers :: "string \<Rightarrow> nat \<Rightarrow> videoHub \<Rightarrow> nat set" where
  "hub_subscribers room except h = (case h room of None \<Rightarrow> {} | Some S \<Rightarrow> S) - {except}"

text \<open>The hub as the sets it stands for: who is in which room.\<close>

definition hub_members :: "videoHub \<Rightarrow> string \<Rightarrow> nat set" where
  "hub_members h room = (case h room of None \<Rightarrow> {} | Some S \<Rightarrow> S)"

lemma hub_members_empty [simp]: "hub_members Map.empty = (\<lambda>_. {})"
  by (simp add: fun_eq_iff hub_members_def)

lemma hub_members_join [simp]: "hub_members (hub_join room s h) = (hub_members h)(room := insert s (hub_members h room))"
  by (simp add: fun_eq_iff hub_members_def hub_join_def)

lemma hub_members_leave [simp]: "hub_members (hub_leave room s h) = (hub_members h)(room := hub_members h room - {s})"
  by (auto simp: fun_eq_iff hub_members_def hub_leave_def Let_def split: option.split)

lemma hub_subscribers_members: "hub_subscribers room except h = hub_members h room - {except}"
  by (simp add: hub_subscribers_def hub_members_def)

text \<open>A room nobody is in has no entry.\<close>

definition hub_wf :: "videoHub \<Rightarrow> bool" where
  "hub_wf h \<longleftrightarrow> {} \<notin> ran h"

lemma hub_wf_join: "hub_wf h \<Longrightarrow> hub_wf (hub_join room s h)"
  by (auto simp: hub_wf_def hub_join_def ran_def split: option.splits if_splits)

lemma hub_wf_leave: "hub_wf h \<Longrightarrow> hub_wf (hub_leave room s h)"
  by (auto simp: hub_wf_def hub_leave_def Let_def ran_def split: option.splits if_splits)

section \<open>Subscriptions\<close>

record publication =
  pb_Publisher :: string
  pb_TrackID :: string
  pb_SSRC :: "32 word"
  pb_owner :: nat

definition pub_key :: "publication \<Rightarrow> string" where
  "pub_key p = pb_Publisher p @ ''/'' @ pb_TrackID p"

abbreviation keyframeInterval :: duration where "keyframeInterval \<equiv> 500000000"

text \<open>No request yet is the zero time, which is long ago; no owner is \<open>None\<close>.\<close>

record subscription =
  sb_owner :: "nat option"
  sb_ssrc :: "32 word"
  sb_lastRequest :: "gtime option"
  sb_heardFromPeer :: bool

definition new_subscription :: subscription where
  "new_subscription = \<lparr>sb_owner = None, sb_ssrc = 0, sb_lastRequest = None, sb_heardFromPeer = False\<rparr>"

definition adopt :: "publication \<Rightarrow> subscription \<Rightarrow> subscription \<times> bool" where
  "adopt pub sub =
     (if sb_owner sub = Some (pb_owner pub) \<and> sb_ssrc sub = pb_SSRC pub then (sub, False)
      else (sub\<lparr>sb_owner := Some (pb_owner pub), sb_ssrc := pb_SSRC pub\<rparr>, True))"

text \<open>The request that goes out, if one does: to which session, for which stream.\<close>

definition requestKeyframe :: "bool \<Rightarrow> gtime \<Rightarrow> subscription \<Rightarrow> subscription \<times> (nat \<times> 32 word) option" where
  "requestKeyframe force now sub =
     (if \<not> force \<and> (case sb_lastRequest sub of None \<Rightarrow> False | Some t \<Rightarrow> now - t < keyframeInterval) then (sub, None)
      else (sub\<lparr>sb_lastRequest := Some now\<rparr>, map_option (\<lambda>s. (s, sb_ssrc sub)) (sb_owner sub)))"

text \<open>
  \<open>subscriptionFor\<close> and \<open>writeVideo\<close>: the subscriber's copies by key, and what goes out: the packet, with the request for a keyframe before it. \<open>added\<close> says that a new track could be made and added.
\<close>

definition subscriptionFor :: "bool \<Rightarrow> publication \<Rightarrow> (string \<rightharpoonup> subscription) \<Rightarrow> (subscription \<times> bool) option" where
  "subscriptionFor added pub subs = (case subs (pub_key pub) of
     Some sub \<Rightarrow> Some (sub, False)
   | None \<Rightarrow> if added then Some (new_subscription, True) else None)"

definition writeVideo ::
  "bool \<Rightarrow> gtime \<Rightarrow> publication \<Rightarrow> (string \<rightharpoonup> subscription) \<Rightarrow> (string \<rightharpoonup> subscription) \<times> (nat \<times> 32 word) option \<times> bool" where
  "writeVideo added now pub subs = (case subscriptionFor added pub subs of
     None \<Rightarrow> (subs, None, False)
   | Some (sub, fresh) \<Rightarrow>
       (case adopt pub sub of (sub1, moved) \<Rightarrow>
         if fresh \<or> moved then (case requestKeyframe True now sub1 of (sub2, r) \<Rightarrow> (subs(pub_key pub \<mapsto> sub2), r, True))
         else (subs(pub_key pub \<mapsto> sub1), None, True)))"

text \<open>One read of a subscriber's feedback: the first of any kind asks again, later a loss indication asks within the interval.\<close>

fun rtcp_losses :: "gtime \<Rightarrow> bool list \<Rightarrow> subscription \<Rightarrow> subscription \<times> (nat \<times> 32 word) list" where
  "rtcp_losses now [] sub = (sub, [])"
| "rtcp_losses now (loss # ps) sub =
     (if loss then (case requestKeyframe False now sub of (sub1, r) \<Rightarrow> (case rtcp_losses now ps sub1 of (sub2, rs) \<Rightarrow> (sub2, (case r of None \<Rightarrow> rs | Some q \<Rightarrow> q # rs))))
      else rtcp_losses now ps sub)"

definition readSubscriberRTCP :: "gtime \<Rightarrow> bool list \<Rightarrow> subscription \<Rightarrow> subscription \<times> (nat \<times> 32 word) list" where
  "readSubscriberRTCP now packets sub =
     (if \<not> sb_heardFromPeer sub
      then (case requestKeyframe True now (sub\<lparr>sb_heardFromPeer := True\<rparr>) of (sub1, r) \<Rightarrow> (sub1, case r of None \<Rightarrow> [] | Some q \<Rightarrow> [q]))
      else rtcp_losses now packets sub)"

section \<open>Keyframe requests\<close>

text \<open>A subscription that carries a publication's packets names that publication as the source of its keyframes, and the first packet from a new source asks for one.\<close>

lemma writeVideo_source:
  assumes "writeVideo added now pub subs = (subs', r, True)"
  shows "\<exists>sub. subs' (pub_key pub) = Some sub \<and> sb_owner sub = Some (pb_owner pub) \<and> sb_ssrc sub = pb_SSRC pub
    \<and> (r = None \<longrightarrow> (\<exists>old. subs (pub_key pub) = Some old \<and> sb_owner old = Some (pb_owner pub) \<and> sb_ssrc old = pb_SSRC pub))
    \<and> (r \<noteq> None \<longrightarrow> r = Some (pb_owner pub, pb_SSRC pub))"
  using assms
  by (auto simp: writeVideo_def subscriptionFor_def adopt_def requestKeyframe_def new_subscription_def split: option.splits if_splits prod.splits)

text \<open>Of loss indications at rising times, the requests that pass are at least the interval apart.\<close>

fun losses :: "gtime list \<Rightarrow> subscription \<Rightarrow> gtime list" where
  "losses [] sub = []"
| "losses (t # ts) sub = (case requestKeyframe False t sub of (sub', r) \<Rightarrow> if r = None then losses ts sub' else t # losses ts sub')"

lemma losses_apart:
  assumes "sorted ts" and "sb_owner sub \<noteq> None"
  shows "sorted_wrt (\<lambda>a b. b - a \<ge> keyframeInterval) (losses ts sub) \<and> (\<forall>t \<in> set (losses ts sub). \<forall>l. sb_lastRequest sub = Some l \<longrightarrow> t - l \<ge> keyframeInterval)"
  using assms
proof (induction ts arbitrary: sub)
  case (Cons t ts)
  show ?case
  proof (cases "\<exists>l. sb_lastRequest sub = Some l \<and> t - l < keyframeInterval")
    case True
    then have "requestKeyframe False t sub = (sub, None)"
      by (auto simp: requestKeyframe_def)
    then show ?thesis
      using Cons by simp
  next
    case False
    obtain o' where o': "sb_owner sub = Some o'"
      using Cons.prems(2) by blast
    have r: "requestKeyframe False t sub = (sub\<lparr>sb_lastRequest := Some t\<rparr>, Some (o', sb_ssrc sub))"
      using False o' by (auto simp: requestKeyframe_def split: option.splits)
    have "sorted_wrt (\<lambda>a b. b - a \<ge> keyframeInterval) (losses ts (sub\<lparr>sb_lastRequest := Some t\<rparr>))
        \<and> (\<forall>u \<in> set (losses ts (sub\<lparr>sb_lastRequest := Some t\<rparr>)). u - t \<ge> keyframeInterval)"
      using Cons.IH [of "sub\<lparr>sb_lastRequest := Some t\<rparr>"] Cons.prems by auto
    then show ?thesis
      using r False by fastforce
  qed
qed simp

end
