(* ===== verification/Client_Follow.thy ===== *)
theory Client_Follow
  imports Nostr Go_Time Go_Text
begin

text \<open>
  A follow (\<open>client/follow.go\<close>, \<open>client/followpage.go\<close>): the state that remembers what was delivered, across restarts; handing an event on once; the since a subscription
  resumes from; and the paging of a subscription's stored events. What a relay sends, whether an event verifies and what the consumer answers are arguments.
\<close>

section \<open>The state\<close>

abbreviation maxSeen :: nat where "maxSeen \<equiv> 5000"
abbreviation maxSeenOnly :: nat where "maxSeenOnly \<equiv> 5000"

record FollowState =
  fs_path :: bool
  fs_seen :: "string set"
  fs_order :: "string list"
  fs_only :: "string set"
  fs_onlyOrder :: "string list"
  fs_since :: "string \<rightharpoonup> int"
  fs_dirty :: bool

record followStateFile =
  ff_Seen :: "string list"
  ff_SeenOnly :: "string list"
  ff_Since :: "string \<rightharpoonup> int"

definition empty_state :: "bool \<Rightarrow> FollowState" where
  "empty_state path = \<lparr>fs_path = path, fs_seen = {}, fs_order = [], fs_only = {}, fs_onlyOrder = [], fs_since = Map.empty, fs_dirty = False\<rparr>"

definition state_add :: "string \<Rightarrow> FollowState \<Rightarrow> FollowState" where
  "state_add i s =
     (if i \<in> fs_seen s then s
      else let s1 = s\<lparr>fs_seen := insert i (fs_seen s), fs_order := fs_order s @ [i]\<rparr> in
        if length (fs_order s1) > maxSeen then s1\<lparr>fs_seen := fs_seen s1 - {hd (fs_order s1)}, fs_order := tl (fs_order s1)\<rparr> else s1)"

definition state_addOnly :: "string \<Rightarrow> FollowState \<Rightarrow> FollowState" where
  "state_addOnly i s =
     (if i \<in> fs_seen s \<or> i \<in> fs_only s then s
      else let s1 = s\<lparr>fs_only := insert i (fs_only s), fs_onlyOrder := fs_onlyOrder s @ [i]\<rparr> in
        if length (fs_onlyOrder s1) > maxSeenOnly then s1\<lparr>fs_only := fs_only s1 - {hd (fs_onlyOrder s1)}, fs_onlyOrder := tl (fs_onlyOrder s1)\<rparr> else s1)"

definition Seen :: "string \<Rightarrow> FollowState \<Rightarrow> bool" where
  "Seen i s \<longleftrightarrow> i \<in> fs_seen s \<or> i \<in> fs_only s"

text \<open>The file may be missing, unreadable, or hold a state; \<open>now\<close> is the clock in unix seconds.\<close>

definition LoadFollowState :: "int \<Rightarrow> bool \<Rightarrow> (string + followStateFile) option \<Rightarrow> string + FollowState" where
  "LoadFollowState now path data =
     (if \<not> path then Inr (empty_state path)
      else (case data of
          None \<Rightarrow> Inr (empty_state path)
        | Some (Inl e) \<Rightarrow> Inl e
        | Some (Inr f) \<Rightarrow>
            let s = fold state_addOnly (ff_SeenOnly f) (fold state_add (ff_Seen f) (empty_state path)) in
            Inr (s\<lparr>fs_since := (\<lambda>k. case ff_Since f k of Some v \<Rightarrow> if v > now then None else Some v | None \<Rightarrow> None),
                   fs_dirty := fs_dirty s \<or> (\<exists>v \<in> ran (ff_Since f). v > now)\<rparr>)))"

definition Since :: "string \<Rightarrow> FollowState \<Rightarrow> int" where
  "Since relay s = (case fs_since s relay of Some v \<Rightarrow> v | None \<Rightarrow> 0)"

definition Mark :: "int \<Rightarrow> string \<Rightarrow> string \<Rightarrow> int \<Rightarrow> FollowState \<Rightarrow> FollowState \<times> bool" where
  "Mark now i relay createdAt s =
     (if Seen i s then (s, False)
      else let s1 = state_add i s; c = (if createdAt > now then now else createdAt) in
        ((if c > Since relay s1 then s1\<lparr>fs_since := (fs_since s1)(relay \<mapsto> c), fs_dirty := True\<rparr> else s1\<lparr>fs_dirty := True\<rparr>), True))"

definition MarkSeen :: "string \<Rightarrow> FollowState \<Rightarrow> FollowState \<times> bool" where
  "MarkSeen i s = (if Seen i s then (s, False) else ((state_addOnly i s)\<lparr>fs_dirty := True\<rparr>, True))"

text \<open>\<open>Save\<close>: the file it writes, if it does; a failed write leaves the state to be saved again.\<close>

definition state_file :: "FollowState \<Rightarrow> followStateFile" where
  "state_file s = \<lparr>ff_Seen = fs_order s, ff_SeenOnly = fs_onlyOrder s, ff_Since = fs_since s\<rparr>"

definition Save_state :: "bool \<Rightarrow> FollowState \<Rightarrow> FollowState \<times> followStateFile option" where
  "Save_state ok s =
     (if \<not> fs_path s \<or> \<not> fs_dirty s then (s, None)
      else if ok then (s\<lparr>fs_dirty := False\<rparr>, Some (state_file s))
      else (s, None))"

text \<open>\<open>overlap.Seconds()\<close>, truncated.\<close>

definition Resume :: "duration \<Rightarrow> string list \<Rightarrow> FollowState \<Rightarrow> int" where
  "Resume overlap relays s =
     (let newest = fold (\<lambda>k n. max n (Since k s)) relays 0 in
      if newest = 0 then 0 else if newest - overlap div second > 0 then newest - overlap div second else 0)"

section \<open>Handing an event on\<close>

datatype emit_answer = EmitOk | EmitSkip | EmitSeenOnly | EmitError

text \<open>The result: the state, whether \<open>Emit\<close> was called, and whether it failed. \<open>int64(ev.CreatedAt)\<close> is the signed reading.\<close>

definition emit :: "int \<Rightarrow> event \<Rightarrow> string \<Rightarrow> emit_answer \<Rightarrow> FollowState \<Rightarrow> FollowState \<times> bool \<times> bool" where
  "emit now ev relay answer s =
     (if Seen (ev_ID ev) s then (s, False, False)
      else (case answer of
          EmitSkip \<Rightarrow> (s, True, False)
        | EmitSeenOnly \<Rightarrow> (fst (MarkSeen (ev_ID ev) s), True, False)
        | EmitError \<Rightarrow> (s, True, True)
        | EmitOk \<Rightarrow> (fst (Mark now (ev_ID ev) relay (sint (ev_CreatedAt ev)) s), True, False)))"

section \<open>Resuming\<close>

record sub_filter =
  sf_Since :: "64 word"
  sf_Until :: "64 word"
  sf_Limit :: int
  sf_rest :: string

definition resumeFilters :: "duration \<Rightarrow> string \<Rightarrow> FollowState \<Rightarrow> sub_filter list \<Rightarrow> sub_filter list" where
  "resumeFilters overlap relay s filters =
     (let newest = Since relay s in
      if newest = 0 then filters
      else let since = max (newest - overlap div second) 0 in
        map (\<lambda>c. if sint (sf_Since c) < since then c\<lparr>sf_Since := word_of_int since\<rparr> else c) filters)"

text \<open>The wait before the next dial: doubled up to the bound.\<close>

definition next_wait :: "duration \<Rightarrow> duration" where
  "next_wait w = (if 2 * w > 30 * second then 30 * second else 2 * w)"

section \<open>Paging\<close>

abbreviation followPageMin :: int where "followPageMin \<equiv> 50"
abbreviation followPages :: int where "followPages \<equiv> 100"
abbreviation followPageBytes :: int where "followPageBytes \<equiv> 33554432"

record followPager =
  pg_base :: "sub_filter list"
  pg_ok :: bool
  pg_since :: "64 word"
  pg_stored :: bool
  pg_sub :: string
  pg_until :: "64 word"
  pg_n :: int
  pg_fresh :: int
  pg_minAt :: "64 word"
  pg_ids :: "string set"
  pg_pages :: int
  pg_bytes :: int
  pg_cut :: string

fun lowest_since :: "sub_filter list \<Rightarrow> 64 word" where
  "lowest_since [] = 0"
| "lowest_since [f] = sf_Since f"
| "lowest_since (f # fs) = min (sf_Since f) (lowest_since fs)"

definition newFollowPager :: "sub_filter list \<Rightarrow> followPager" where
  "newFollowPager filters =
     \<lparr>pg_base = filters, pg_ok = (\<forall>f \<in> set filters. sf_Limit f = 0 \<and> sf_Until f = 0), pg_since = lowest_since filters, pg_stored = False, pg_sub = [], pg_until = 0,
      pg_n = 0, pg_fresh = 0, pg_minAt = 0, pg_ids = {}, pg_pages = 0, pg_bytes = 0, pg_cut = []\<rparr>"

definition pager_restart :: "followPager \<Rightarrow> followPager" where
  "pager_restart p = p\<lparr>pg_stored := True, pg_sub := [], pg_until := 0, pg_n := 0, pg_fresh := 0, pg_minAt := 0, pg_ids := {}, pg_pages := 0, pg_bytes := 0, pg_cut := []\<rparr>"

definition pager_stop :: "followPager \<Rightarrow> followPager" where
  "pager_stop p = p\<lparr>pg_ok := False, pg_sub := []\<rparr>"

definition event_bytes :: "event \<Rightarrow> int" where
  "event_bytes ev = 256 + int (length (ev_Content ev)) + sum_list (map (\<lambda>t. sum_list (map (\<lambda>v. int (length v) + 4) t)) (ev_Tags ev))"

definition pager_saw :: "event \<Rightarrow> followPager \<Rightarrow> followPager" where
  "pager_saw ev p =
     p\<lparr>pg_n := pg_n p + 1, pg_fresh := (if ev_ID ev \<in> pg_ids p then pg_fresh p else pg_fresh p + 1), pg_ids := insert (ev_ID ev) (pg_ids p),
       pg_minAt := (if pg_minAt p = 0 \<or> ev_CreatedAt ev < pg_minAt p then ev_CreatedAt ev else pg_minAt p), pg_bytes := pg_bytes p + event_bytes ev\<rparr>"

definition cut_text :: "64 word \<Rightarrow> string" where
  "cut_text until = ''stored events past 100 pages or 32 MiB: the older ones before '' @ itoa (uint until) @ '' weren't read''"

text \<open>\<open>next\<close>: the until of the next page, if there is one; \<open>uuid\<close> names its subscription.\<close>

definition pager_next :: "string \<Rightarrow> followPager \<Rightarrow> followPager \<times> 64 word option" where
  "pager_next uuid p0 =
     (let p = p0\<lparr>pg_sub := []\<rparr> in
      if \<not> pg_ok p \<or> pg_n p < followPageMin \<or> pg_fresh p = 0 then (p, None)
      else let until = (if pg_until p \<noteq> 0 \<and> pg_minAt p \<ge> pg_until p then pg_until p - 1 else pg_minAt p) in
        if until = 0 \<or> until < pg_since p then (p, None)
        else if pg_pages p \<ge> followPages \<or> pg_bytes p \<ge> followPageBytes then (p\<lparr>pg_cut := cut_text until, pg_ok := False\<rparr>, None)
        else (p\<lparr>pg_pages := pg_pages p + 1, pg_sub := ''page-'' @ uuid, pg_until := until, pg_n := 0, pg_fresh := 0, pg_minAt := 0\<rparr>, Some until))"

definition pager_filters :: "followPager \<Rightarrow> 64 word \<Rightarrow> sub_filter list" where
  "pager_filters p until = map (\<lambda>c. c\<lparr>sf_Until := until\<rparr>) (pg_base p)"

section \<open>One subscription\<close>

text \<open>The messages of a relay, and what the follow does: asks a page, closes one, warns, or ends with the subscription.\<close>

datatype relay_msg = EventMsg string event bool | EoseMsg string | ClosedMsg string string

datatype stream_act = AskPage string "sub_filter list" | CloseSub string | WarnAct string | Resubscribe

datatype stream_end = GoesOn | EmitFailed | RelayRefused string | RelayClosed string

text \<open>\<open>page\<close>, once a phase ended.\<close>

definition stream_page :: "string \<Rightarrow> followPager \<Rightarrow> followPager \<times> stream_act list" where
  "stream_page uuid p = (case pager_next uuid p of
     (p', Some until) \<Rightarrow> (p', [AskPage (pg_sub p') (pager_filters p' until)])
   | (p', None) \<Rightarrow> (p', if pg_cut p' \<noteq> [] then [WarnAct (pg_cut p')] else []))"

text \<open>
  One message, for the subscription \<open>subID\<close>: an event carries whether it verifies; \<open>login\<close> tells whether a refusal asks for a login, \<open>restricted\<close> whether it is one for good. Resubscribing,
  once logged in, begins a pager of its own.
\<close>

definition stream_msg ::
  "int \<Rightarrow> string \<Rightarrow> string \<Rightarrow> string \<Rightarrow> (string \<Rightarrow> bool) \<Rightarrow> (string \<Rightarrow> bool) \<Rightarrow> emit_answer \<Rightarrow> relay_msg \<Rightarrow> bool \<times> followPager \<times> FollowState
    \<Rightarrow> (bool \<times> followPager \<times> FollowState) \<times> stream_act list \<times> stream_end" where
  "stream_msg now uuid relay subID login restricted answer msg = (\<lambda>(retried, p, s).
     case msg of
       EventMsg sub ev verifies \<Rightarrow>
         if (sub \<noteq> subID \<and> sub \<noteq> pg_sub p) \<or> \<not> verifies then ((retried, p, s), [], GoesOn)
         else let p' = (if sub = pg_sub p \<or> pg_stored p then pager_saw ev p else p) in
           (case emit now ev relay answer s of (s', called, failed) \<Rightarrow> ((retried, p', s'), [], if failed then EmitFailed else GoesOn))
     | EoseMsg sub \<Rightarrow>
         if sub = subID \<and> pg_stored p then (case stream_page uuid (p\<lparr>pg_stored := False\<rparr>) of (p', acts) \<Rightarrow> ((retried, p', s), acts, GoesOn))
         else if sub = pg_sub p \<and> pg_sub p \<noteq> [] then (case stream_page uuid p of (p', acts) \<Rightarrow> ((retried, p', s), CloseSub (pg_sub p) # acts, GoesOn))
         else ((retried, p, s), [], GoesOn)
     | ClosedMsg sub why \<Rightarrow>
         if sub = pg_sub p \<and> pg_sub p \<noteq> []
           then ((retried, pager_stop p, s), [WarnAct (''relay closed a page of stored events: '' @ why)], GoesOn)
         else if sub \<noteq> subID then ((retried, p, s), [], GoesOn)
         else if login why \<and> \<not> retried then ((True, p, s), [Resubscribe], GoesOn)
         else if login why \<or> restricted why then ((retried, p, s), [], RelayRefused why)
         else ((retried, p, s), [], RelayClosed why))"

end
