(* ===== verification/Client_Theorems.thy ===== *)
theory Client_Theorems
  imports Client_Follow
begin

text \<open>
  The properties of a follow: what it delivers, and what it reads of a relay's stored events. What a follow's state remembers, over events and restarts, and what the paging of stored events reads of a relay that serves the newest first.
\<close>

section \<open>The state\<close>

definition state_ok :: "FollowState \<Rightarrow> bool" where
  "state_ok s \<longleftrightarrow> fs_seen s = set (fs_order s) \<and> distinct (fs_order s) \<and> length (fs_order s) \<le> maxSeen
     \<and> fs_only s = set (fs_onlyOrder s) \<and> distinct (fs_onlyOrder s) \<and> length (fs_onlyOrder s) \<le> maxSeenOnly \<and> fs_seen s \<inter> fs_only s = {}"

text \<open>The last \<open>n\<close> of a list.\<close>

lemma last_n_snoc: "last_n n (last_n n xs @ [x]) = last_n n (xs @ [x])"
proof (cases "length xs \<le> n")
  case False
  then have "length (drop (length xs - n) xs) = n" and e: "length (xs @ [x]) - n = 1 + (length xs - n)"
    by simp_all
  then have "last_n n (last_n n xs @ [x]) = drop 1 (drop (length xs - n) xs @ [x])"
    by (simp add: last_n_def)
  also have "\<dots> = drop 1 (drop (length xs - n) (xs @ [x]))"
    by simp
  also have "\<dots> = last_n n (xs @ [x])"
    unfolding last_n_def e drop_drop ..
  finally show ?thesis .
qed (simp add: last_n_short)

lemma state_add_order: "state_ok s \<Longrightarrow> i \<notin> fs_seen s \<Longrightarrow> fs_order (state_add i s) = last_n maxSeen (fs_order s @ [i])"
proof -
  assume ok: "state_ok s" and i: "i \<notin> fs_seen s"
  show ?thesis
  proof (cases "length (fs_order s) < maxSeen")
    case False
    then have len: "length (fs_order s) = maxSeen"
      using ok by (simp add: state_ok_def)
    then have "fs_order (state_add i s) = tl (fs_order s @ [i])"
      using i by (simp add: state_add_def Let_def)
    also have "\<dots> = last_n maxSeen (fs_order s @ [i])"
      using len by (cases "fs_order s") (simp_all add: last_n_def)
    finally show ?thesis .
  qed (use i in \<open>simp add: state_add_def Let_def last_n_def\<close>)
qed

lemma state_add_ok: "state_ok s \<Longrightarrow> i \<notin> fs_only s \<Longrightarrow> state_ok (state_add i s)"
  by (cases "fs_order s") (auto simp: state_add_def state_ok_def Let_def)

lemma state_addOnly_ok: "state_ok s \<Longrightarrow> state_ok (state_addOnly i s)"
  by (cases "fs_onlyOrder s") (auto simp: state_addOnly_def state_ok_def Let_def)

lemma state_addOnly_fields [simp]:
  "fs_order (state_addOnly i s) = fs_order s" "fs_seen (state_addOnly i s) = fs_seen s" "fs_since (state_addOnly i s) = fs_since s" "fs_path (state_addOnly i s) = fs_path s"
  "fs_dirty (state_addOnly i s) = fs_dirty s"
  by (simp_all add: state_addOnly_def Let_def)

lemma state_add_fields [simp]:
  "fs_only (state_add i s) = fs_only s" "fs_onlyOrder (state_add i s) = fs_onlyOrder s" "fs_since (state_add i s) = fs_since s" "fs_path (state_add i s) = fs_path s"
  "fs_dirty (state_add i s) = fs_dirty s"
  by (simp_all add: state_add_def Let_def)

lemma empty_state_ok: "state_ok (empty_state path)"
  by (simp add: state_ok_def empty_state_def)

lemma state_ok_cong: "state_ok (s\<lparr>fs_since := x, fs_dirty := d\<rparr>) = state_ok s" "state_ok (s\<lparr>fs_dirty := d\<rparr>) = state_ok s" "state_ok (s\<lparr>fs_since := x\<rparr>) = state_ok s"
  by (simp_all add: state_ok_def)

text \<open>Reading back what was written gives the same ids, and every since but those ahead of the clock.\<close>

lemma fold_state_add:
  assumes "distinct (fs_order s @ is)" and "length (fs_order s @ is) \<le> maxSeen" and "state_ok s" and "fs_only s = {}"
  shows "fs_order (fold state_add is s) = fs_order s @ is \<and> state_ok (fold state_add is s) \<and> fs_onlyOrder (fold state_add is s) = fs_onlyOrder s
    \<and> fs_only (fold state_add is s) = {} \<and> fs_since (fold state_add is s) = fs_since s \<and> fs_path (fold state_add is s) = fs_path s \<and> fs_dirty (fold state_add is s) = fs_dirty s"
  using assms
proof (induction "is" arbitrary: s)
  case (Cons i "is")
  have "i \<notin> fs_seen s"
    using Cons.prems by (auto simp: state_ok_def)
  then have o': "fs_order (state_add i s) = fs_order s @ [i]"
    using Cons.prems by (simp add: state_add_order last_n_short)
  show ?case
    using Cons.IH [of "state_add i s"] Cons.prems o' state_add_ok [of s i] by auto
qed simp

lemma fold_state_addOnly:
  assumes "distinct (fs_onlyOrder s @ is)" and "length (fs_onlyOrder s @ is) \<le> maxSeenOnly" and "state_ok s" and "set is \<inter> fs_seen s = {}"
  shows "fs_onlyOrder (fold state_addOnly is s) = fs_onlyOrder s @ is \<and> state_ok (fold state_addOnly is s) \<and> fs_order (fold state_addOnly is s) = fs_order s
    \<and> fs_since (fold state_addOnly is s) = fs_since s \<and> fs_path (fold state_addOnly is s) = fs_path s \<and> fs_dirty (fold state_addOnly is s) = fs_dirty s"
  using assms
proof (induction "is" arbitrary: s)
  case (Cons i "is")
  have "i \<notin> fs_seen s" "i \<notin> fs_only s"
    using Cons.prems by (auto simp: state_ok_def)
  then have o': "fs_onlyOrder (state_addOnly i s) = fs_onlyOrder s @ [i]"
    using Cons.prems(2) by (simp add: state_addOnly_def Let_def)
  show ?case
    using Cons.IH [of "state_addOnly i s"] Cons.prems o' state_addOnly_ok [of s i] by auto
qed simp

lemma Load_state_file:
  assumes ok: "state_ok s" and "LoadFollowState now True (Some (Inr (state_file s))) = Inr s'"
  shows "state_ok s' \<and> fs_order s' = fs_order s \<and> fs_onlyOrder s' = fs_onlyOrder s \<and> fs_path s'
    \<and> (\<forall>k. fs_since s' k = (case fs_since s k of Some v \<Rightarrow> if v > now then None else Some v | None \<Rightarrow> None))"
proof -
  define a where "a = fold state_add (fs_order s) (empty_state True)"
  have e: "fs_order (empty_state True) = []" "fs_onlyOrder (empty_state True) = []" "fs_only (empty_state True) = {}" "fs_path (empty_state True)"
    by (simp_all add: empty_state_def)
  have lists: "distinct (fs_order s)" "length (fs_order s) \<le> maxSeen" "distinct (fs_onlyOrder s)" "length (fs_onlyOrder s) \<le> maxSeenOnly"
    and apart: "set (fs_onlyOrder s) \<inter> set (fs_order s) = {}"
    using ok by (auto simp: state_ok_def)
  have a: "fs_order a = fs_order s" "state_ok a" "fs_onlyOrder a = []" "fs_path a"
    using fold_state_add [of "empty_state True" "fs_order s"] empty_state_ok lists e unfolding a_def by auto
  have "set (fs_onlyOrder s) \<inter> fs_seen a = {}"
    using apart a by (simp add: state_ok_def)
  then have "fs_onlyOrder (fold state_addOnly (fs_onlyOrder s) a) = fs_onlyOrder s \<and> state_ok (fold state_addOnly (fs_onlyOrder s) a)
      \<and> fs_order (fold state_addOnly (fs_onlyOrder s) a) = fs_order s \<and> fs_path (fold state_addOnly (fs_onlyOrder s) a)"
    using fold_state_addOnly [of a "fs_onlyOrder s"] a lists by simp
  then show ?thesis
    using assms(2) by (auto simp: LoadFollowState_def state_file_def Let_def state_ok_cong a_def)
qed

section \<open>Runs\<close>

text \<open>
  Events handed on, from any relays, with any answers, saves, and clean restarts; the clock does not go back. With the state go the ids that were delivered, in order, and the clock.
\<close>

inductive follow_run :: "FollowState \<Rightarrow> string list \<Rightarrow> int \<Rightarrow> bool" where
  f_start: "0 \<le> t \<Longrightarrow> follow_run (empty_state path) [] t"
| f_tick: "follow_run s D t \<Longrightarrow> t \<le> t' \<Longrightarrow> follow_run s D t'"
| f_emit: "follow_run s D t \<Longrightarrow> emit t ev relay answer s = (s', called, failed)
    \<Longrightarrow> follow_run s' (if called \<and> answer = EmitOk then D @ [ev_ID ev] else D) t"
| f_save: "follow_run s D t \<Longrightarrow> follow_run (fst (Save_state ok s)) D t"
| f_restart: "follow_run s D t \<Longrightarrow> LoadFollowState t True (Some (Inr (state_file s))) = Inr s' \<Longrightarrow> follow_run s' D t"

definition follow_inv :: "FollowState \<Rightarrow> string list \<Rightarrow> int \<Rightarrow> bool" where
  "follow_inv s D t \<longleftrightarrow> state_ok s \<and> fs_order s = last_n maxSeen D \<and> (\<forall>i. distinct (take (maxSeen + 1) (drop i D))) \<and> 0 \<le> t
     \<and> (\<forall>relay v. fs_since s relay = Some v \<longrightarrow> v \<le> t)"

lemma distinct_windows_snoc:
  assumes "\<forall>i. distinct (take (n + 1) (drop i D))" and "x \<notin> set (last_n n D)"
  shows "distinct (take (n + 1) (drop i (D @ [x])))"
proof (cases "length D \<le> i + n")
  case True
  have sub: "set (drop i D) \<subseteq> set (last_n n D)"
    unfolding last_n_def using True by (intro set_drop_subset_set_drop) simp
  have "distinct (drop i D)"
    using assms(1) [rule_format, of i] True by simp
  then show ?thesis
    using sub assms(2) True by (cases "i \<le> length D") auto
next
  case False
  then show ?thesis
    using assms(1) [rule_format, of i] by simp
qed

lemma follow_inv_Mark:
  assumes inv: "follow_inv s D t" and new: "\<not> Seen i s"
  shows "follow_inv (fst (Mark t i relay c s)) (D @ [i]) t"
proof -
  have ni: "i \<notin> fs_seen s" "i \<notin> fs_only s"
    using new by (auto simp: Seen_def)
  have ok: "state_ok s" and o': "fs_order s = last_n maxSeen D"
    using inv by (auto simp: follow_inv_def)
  have "fs_order (state_add i s) = last_n maxSeen (D @ [i])"
    using state_add_order [OF ok ni(1)] unfolding o' last_n_snoc .
  moreover have "i \<notin> set (last_n maxSeen D)"
    using ni(1) ok o' by (simp add: state_ok_def)
  ultimately show ?thesis
    using inv new state_add_ok [OF ok ni(2)] distinct_windows_snoc [of maxSeen D i]
    by (auto simp: follow_inv_def Mark_def Let_def state_ok_cong simp del: drop_append)
qed

lemma follow_inv_run: "follow_run s D t \<Longrightarrow> follow_inv s D t"
proof (induction rule: follow_run.induct)
  case (f_start t path)
  then show ?case
    using empty_state_ok [of path] by (simp add: follow_inv_def empty_state_def last_n_def)
next
  case (f_tick s D t t')
  then show ?case
    by (force simp: follow_inv_def)
next
  case (f_emit s D t ev relay answer s' called failed)
  show ?case
  proof (cases "Seen (ev_ID ev) s")
    case True
    then show ?thesis
      using f_emit by (simp add: emit_def)
  next
    case False
    then show ?thesis
      using f_emit follow_inv_Mark [of s D t "ev_ID ev" relay "sint (ev_CreatedAt ev)"] state_addOnly_ok [of s "ev_ID ev"]
      by (cases answer) (auto simp: emit_def MarkSeen_def follow_inv_def state_ok_cong)
  qed
next
  case (f_save s D t ok)
  then show ?case
    by (simp add: Save_state_def follow_inv_def state_ok_cong)
next
  case (f_restart s D t s')
  then show ?case
    using Load_state_file [of s t s'] by (auto simp: follow_inv_def split: option.splits if_splits)
qed

section \<open>Paging\<close>

text \<open>
  A relay's stored events, read by pages: \<open>serve\<close> gives what it answers up to a time, \<open>0\<close> for no bound. The fuel bounds the pages; out of it is \<open>None\<close>.
\<close>

fun page_run :: "(64 word \<Rightarrow> event list) \<Rightarrow> string \<Rightarrow> nat \<Rightarrow> followPager \<Rightarrow> followPager option" where
  "page_run serve uuid 0 p = None"
| "page_run serve uuid (Suc k) p = (case pager_next uuid p of
     (p', None) \<Rightarrow> Some p'
   | (p', Some u) \<Rightarrow> page_run serve uuid k (fold pager_saw (serve u) p'))"

definition stored_phase :: "(64 word \<Rightarrow> event list) \<Rightarrow> sub_filter list \<Rightarrow> followPager" where
  "stored_phase serve filters = (fold pager_saw (serve 0) (pager_restart (newFollowPager filters)))\<lparr>pg_stored := False\<rparr>"

lemma fold_saw_fields [simp]:
  "pg_ok (fold pager_saw es p) = pg_ok p" "pg_since (fold pager_saw es p) = pg_since p" "pg_pages (fold pager_saw es p) = pg_pages p" "pg_cut (fold pager_saw es p) = pg_cut p"
  "pg_until (fold pager_saw es p) = pg_until p"
  by (induction es arbitrary: p) (simp_all add: pager_saw_def)

lemma fold_saw_n: "pg_n (fold pager_saw es p) = pg_n p + int (length es)"
  by (induction es arbitrary: p) (simp_all add: pager_saw_def)

lemma fold_saw_ids: "pg_ids (fold pager_saw es p) = pg_ids p \<union> ev_ID ` set es"
  by (induction es arbitrary: p) (auto simp: pager_saw_def)

lemma fold_saw_fresh_mono: "pg_fresh p \<le> pg_fresh (fold pager_saw es p)"
proof (induction es arbitrary: p)
  case (Cons a es)
  have "pg_fresh p \<le> pg_fresh (pager_saw a p)"
    by (simp add: pager_saw_def)
  then show ?case
    using Cons [of "pager_saw a p"] by simp
qed simp

lemma fold_saw_fresh: "ev_ID e \<notin> pg_ids p \<Longrightarrow> e \<in> set es \<Longrightarrow> pg_fresh p < pg_fresh (fold pager_saw es p)"
proof (induction es arbitrary: p)
  case (Cons a es)
  show ?case
  proof (cases "ev_ID a \<in> pg_ids p")
    case True
    then have "pg_fresh (pager_saw a p) = pg_fresh p" "pg_ids (pager_saw a p) = pg_ids p" "e \<noteq> a"
      using Cons.prems by (auto simp: pager_saw_def)
    then show ?thesis
      using Cons.IH [of "pager_saw a p"] Cons.prems by simp
  next
    case False
    then have "pg_fresh p < pg_fresh (pager_saw a p)"
      by (simp add: pager_saw_def)
    then show ?thesis
      using fold_saw_fresh_mono [of "pager_saw a p" es] by simp
  qed
qed simp

lemma fold_saw_known: "ev_ID ` set es \<subseteq> pg_ids p \<Longrightarrow> pg_fresh (fold pager_saw es p) = pg_fresh p"
proof (induction es arbitrary: p)
  case (Cons a es)
  then have "pg_fresh (pager_saw a p) = pg_fresh p" "ev_ID ` set es \<subseteq> pg_ids (pager_saw a p)"
    by (auto simp: pager_saw_def)
  then show ?case
    using Cons.IH [of "pager_saw a p"] by simp
qed simp

lemma fold_saw_minAt:
  assumes "\<forall>e \<in> set es. 0 < ev_CreatedAt e" and "es \<noteq> []" and "pg_minAt p = 0"
  shows "(\<exists>e \<in> set es. pg_minAt (fold pager_saw es p) = ev_CreatedAt e) \<and> (\<forall>e \<in> set es. pg_minAt (fold pager_saw es p) \<le> ev_CreatedAt e)"
proof -
  have gen: "(pg_minAt (fold pager_saw es p) = pg_minAt p \<or> (\<exists>e \<in> set es. pg_minAt (fold pager_saw es p) = ev_CreatedAt e)) \<and> pg_minAt (fold pager_saw es p) \<le> pg_minAt p
      \<and> (\<forall>e \<in> set es. pg_minAt (fold pager_saw es p) \<le> ev_CreatedAt e)"
    if "pg_minAt p \<noteq> 0" "\<forall>e \<in> set es. 0 < ev_CreatedAt e" for es p
    using that
  proof (induction es arbitrary: p)
    case (Cons a es)
    let ?q = "pager_saw a p"
    have q: "pg_minAt ?q = (if ev_CreatedAt a < pg_minAt p then ev_CreatedAt a else pg_minAt p)"
      using Cons.prems by (simp add: pager_saw_def)
    then have "pg_minAt ?q \<noteq> 0"
      using Cons.prems by (auto simp: word_less_nat_alt)
    then show ?case
      using Cons.IH [of ?q] Cons.prems q by (auto split: if_splits)
  qed simp
  obtain a bs where es: "es = a # bs"
    using assms(2) by (cases es) auto
  have "pg_minAt (pager_saw a p) = ev_CreatedAt a" "ev_CreatedAt a \<noteq> 0"
    using assms es by (auto simp: pager_saw_def)
  then show ?thesis
    using gen [of "pager_saw a p" bs] assms(1) es by auto
qed

text \<open>What a relay promises: its answer is of the stored events up to the bound; what it leaves out is no newer than what it gives, and it gives at least a page then.\<close>

definition serves :: "event set \<Rightarrow> (64 word \<Rightarrow> event list) \<Rightarrow> bool" where
  "serves stored serve \<longleftrightarrow> (\<forall>u. set (serve u) \<subseteq> {e \<in> stored. u = 0 \<or> ev_CreatedAt e \<le> u}
     \<and> (\<forall>e \<in> stored. (u = 0 \<or> ev_CreatedAt e \<le> u) \<and> e \<notin> set (serve u) \<longrightarrow>
         int (length (serve u)) \<ge> followPageMin \<and> (\<forall>r \<in> set (serve u). ev_CreatedAt e \<le> ev_CreatedAt r)))"

text \<open>No answer that leaves something out is all of one second.\<close>

definition no_full_second :: "event set \<Rightarrow> (64 word \<Rightarrow> event list) \<Rightarrow> bool" where
  "no_full_second stored serve \<longleftrightarrow> (\<forall>u. \<forall>e \<in> stored. (u = 0 \<or> ev_CreatedAt e \<le> u) \<and> e \<notin> set (serve u) \<longrightarrow>
     (\<exists>r \<in> set (serve u). \<exists>r' \<in> set (serve u). ev_CreatedAt r \<noteq> ev_CreatedAt r'))"

text \<open>
  Between pages: the phase in flight was answered; of the events \<open>S\<close> known before it, all stored ones newer than its bound are, and none older than it.
\<close>

definition phase_inv :: "event set \<Rightarrow> (64 word \<Rightarrow> event list) \<Rightarrow> event set \<Rightarrow> followPager \<Rightarrow> bool" where
  "phase_inv stored serve S p \<longleftrightarrow> S \<subseteq> stored \<and> pg_n p = int (length (serve (pg_until p))) \<and> pg_ids p = ev_ID ` (S \<union> set (serve (pg_until p)))
     \<and> ((\<exists>e \<in> set (serve (pg_until p)). e \<notin> S) \<longrightarrow> pg_fresh p > 0)
     \<and> (serve (pg_until p) \<noteq> [] \<longrightarrow> (\<exists>e \<in> set (serve (pg_until p)). pg_minAt p = ev_CreatedAt e) \<and> (\<forall>e \<in> set (serve (pg_until p)). pg_minAt p \<le> ev_CreatedAt e))
     \<and> (if pg_until p = 0 then S = {}
        else (\<forall>e \<in> stored. ev_CreatedAt e > pg_until p \<longrightarrow> e \<in> S) \<and> (\<forall>e \<in> S. ev_CreatedAt e \<ge> pg_until p))"

definition paging_ok :: "event set \<Rightarrow> (64 word \<Rightarrow> event list) \<Rightarrow> followPager \<Rightarrow> bool" where
  "paging_ok stored serve p \<longleftrightarrow> serves stored serve \<and> no_full_second stored serve \<and> inj_on ev_ID stored
     \<and> (\<forall>e \<in> stored. 0 < ev_CreatedAt e \<and> pg_since p \<le> ev_CreatedAt e)"

lemma servesD:
  assumes "serves stored serve"
  shows "\<And>u e. e \<in> set (serve u) \<Longrightarrow> e \<in> stored \<and> (u = 0 \<or> ev_CreatedAt e \<le> u)"
    and "\<And>u e. e \<in> stored \<Longrightarrow> u = 0 \<or> ev_CreatedAt e \<le> u \<Longrightarrow> e \<notin> set (serve u) \<Longrightarrow>
      int (length (serve u)) \<ge> followPageMin \<and> (\<forall>r \<in> set (serve u). ev_CreatedAt e \<le> ev_CreatedAt r)"
  using assms unfolding serves_def by blast+

lemma phase_start:
  assumes ok: "paging_ok stored serve p0" and S: "S \<subseteq> stored" and ids: "pg_ids p0 = ev_ID ` S" and zero: "pg_n p0 = 0" "pg_fresh p0 = 0" "pg_minAt p0 = 0" "pg_until p0 = u"
    and bound: "if u = 0 then S = {} else (\<forall>e \<in> stored. ev_CreatedAt e > u \<longrightarrow> e \<in> S) \<and> (\<forall>e \<in> S. ev_CreatedAt e \<ge> u)"
  shows "phase_inv stored serve S (fold pager_saw (serve u) p0)"
proof -
  have served: "set (serve u) \<subseteq> stored"
    using ok servesD(1) by (auto simp: paging_ok_def)
  have fresh: "pg_fresh (fold pager_saw (serve u) p0) > 0" if "e \<in> set (serve u)" "e \<notin> S" for e
  proof -
    have "ev_ID e \<notin> pg_ids p0"
      using that ids S served ok unfolding paging_ok_def by (metis inj_on_image_mem_iff subsetD)
    then show ?thesis
      using fold_saw_fresh [of e p0 "serve u"] that zero(2) by simp
  qed
  have "\<forall>e \<in> set (serve u). 0 < ev_CreatedAt e"
    using served ok by (auto simp: paging_ok_def)
  then show ?thesis
    using fold_saw_minAt [of "serve u" p0] fresh S ids zero bound
    by (auto simp: phase_inv_def fold_saw_n fold_saw_ids)
qed

text \<open>An answer that leaves out nothing completes what is known; one that leaves out something reaches below its bound and brings something new.\<close>

lemma phase_complete:
  assumes inv: "phase_inv stored serve S p" and all: "\<forall>e \<in> stored. (pg_until p = 0 \<or> ev_CreatedAt e \<le> pg_until p) \<longrightarrow> e \<in> set (serve (pg_until p))"
  shows "ev_ID ` stored \<subseteq> pg_ids p"
proof -
  have "e \<in> S \<union> set (serve (pg_until p))" if "e \<in> stored" for e
    using that inv all by (cases "pg_until p = 0") (auto simp: phase_inv_def not_le)
  then show ?thesis
    using inv by (auto simp: phase_inv_def)
qed

lemma phase_reaches:
  assumes ok: "paging_ok stored serve p" and inv: "phase_inv stored serve S p"
    and e: "e \<in> stored" "pg_until p = 0 \<or> ev_CreatedAt e \<le> pg_until p" "e \<notin> set (serve (pg_until p))"
  shows "pg_n p \<ge> followPageMin \<and> pg_fresh p > 0 \<and> 0 < pg_minAt p \<and> pg_since p \<le> pg_minAt p \<and> (pg_until p \<noteq> 0 \<longrightarrow> pg_minAt p < pg_until p)"
proof -
  let ?E = "serve (pg_until p)"
  have n: "pg_n p \<ge> followPageMin"
    using servesD(2) [of stored serve e "pg_until p"] ok e inv by (auto simp: paging_ok_def phase_inv_def)
  then have "?E \<noteq> []"
    using inv by (auto simp: phase_inv_def)
  then obtain r where r: "r \<in> set ?E" "pg_minAt p = ev_CreatedAt r" and least: "\<forall>x \<in> set ?E. pg_minAt p \<le> ev_CreatedAt x"
    using inv by (auto simp: phase_inv_def)
  have rs: "r \<in> stored" "pg_until p = 0 \<or> ev_CreatedAt r \<le> pg_until p"
    using servesD(1) [of stored serve r "pg_until p"] ok r(1) by (auto simp: paging_ok_def)
  obtain x y where xy: "x \<in> set ?E" "y \<in> set ?E" "ev_CreatedAt x \<noteq> ev_CreatedAt y"
    using ok e by (fastforce simp: paging_ok_def no_full_second_def)
  have below: "pg_minAt p < pg_until p" if "pg_until p \<noteq> 0"
  proof -
    have "ev_CreatedAt x \<le> pg_until p" "ev_CreatedAt y \<le> pg_until p"
      using servesD(1) [of stored serve _ "pg_until p"] ok xy that by (auto simp: paging_ok_def)
    moreover have "pg_minAt p \<le> ev_CreatedAt x" "pg_minAt p \<le> ev_CreatedAt y"
      using least xy by auto
    ultimately show ?thesis
      using xy(3) by (metis leD le_less_trans not_less_iff_gr_or_eq order_le_less)
  qed
  have "r \<notin> S"
    using inv below r(2) by (cases "pg_until p = 0") (auto simp: phase_inv_def leD)
  then have "pg_fresh p > 0"
    using inv r(1) by (auto simp: phase_inv_def)
  then show ?thesis
    using n rs(1) ok r(2) below by (auto simp: paging_ok_def)
qed

lemma phase_ends:
  assumes ok: "paging_ok stored serve p" and inv: "phase_inv stored serve S p" and "pg_ok p" and "pager_next uuid p = (p', None)" and "pg_cut p' = []"
  shows "ev_ID ` stored \<subseteq> pg_ids p'"
proof (rule ccontr)
  assume "\<not> ?thesis"
  moreover have "pg_ids p' = pg_ids p"
    using assms(4) by (auto simp: pager_next_def Let_def split: if_splits)
  ultimately obtain e where e: "e \<in> stored" "pg_until p = 0 \<or> ev_CreatedAt e \<le> pg_until p" "e \<notin> set (serve (pg_until p))"
    using phase_complete [OF inv] by metis
  note reaches = phase_reaches [OF ok inv e]
  then have "pg_minAt p \<noteq> 0" "\<not> pg_minAt p < pg_since p" "\<not> (pg_until p \<noteq> 0 \<and> pg_minAt p \<ge> pg_until p)"
    by (auto simp: not_less not_le)
  then show False
    using assms(3-5) reaches by (auto simp: pager_next_def Let_def cut_text_def split: if_splits)
qed

lemma phase_goes_on:
  assumes ok: "paging_ok stored serve p" and inv: "phase_inv stored serve S p" and nx: "pager_next uuid p = (p', Some u)"
  shows "phase_inv stored serve (S \<union> set (serve (pg_until p))) (fold pager_saw (serve u) p')"
proof (rule phase_start)
  have p': "pg_ids p' = pg_ids p" "pg_n p' = 0" "pg_fresh p' = 0" "pg_minAt p' = 0" "pg_until p' = u" "pg_since p' = pg_since p" "u \<noteq> 0" "pg_n p \<ge> followPageMin"
    and u: "u = (if pg_until p \<noteq> 0 \<and> pg_minAt p \<ge> pg_until p then pg_until p - 1 else pg_minAt p)"
    using nx by (auto simp: pager_next_def Let_def split: if_splits)
  show "paging_ok stored serve p'"
    using ok p' by (simp add: paging_ok_def)
  show "S \<union> set (serve (pg_until p)) \<subseteq> stored"
    using inv ok servesD(1) by (auto simp: phase_inv_def paging_ok_def)
  show "pg_ids p' = ev_ID ` (S \<union> set (serve (pg_until p)))"
    using inv p' by (simp add: phase_inv_def)
  have ne: "serve (pg_until p) \<noteq> []"
    using inv p' by (auto simp: phase_inv_def)
  have low: "u \<le> pg_minAt p" and dec: "pg_until p \<noteq> 0 \<Longrightarrow> u < pg_until p"
    using u p'(7) by (auto simp: not_le word_less_nat_alt word_le_nat_alt unat_minus_one unat_gt_0 split: if_splits)
  have "e \<in> S \<union> set (serve (pg_until p))" if e: "e \<in> stored" "ev_CreatedAt e > u" for e
  proof (rule ccontr)
    assume not: "e \<notin> S \<union> set (serve (pg_until p))"
    then have b: "pg_until p = 0 \<or> ev_CreatedAt e \<le> pg_until p"
      using inv e by (auto simp: phase_inv_def not_less split: if_splits)
    then have "ev_CreatedAt e \<le> pg_minAt p"
      using servesD(2) [of stored serve e "pg_until p"] ok e not inv ne by (auto simp: paging_ok_def phase_inv_def)
    moreover have "pg_until p = 0 \<or> pg_minAt p < pg_until p"
      using phase_reaches [OF ok inv e(1) b] not by blast
    ultimately show False
      using e(2) u by (auto simp: not_le split: if_splits)
  qed
  moreover have "u \<le> ev_CreatedAt e" if "e \<in> S \<union> set (serve (pg_until p))" for e
    using that inv low dec ne by (cases "pg_until p = 0") (auto simp: phase_inv_def intro: order_trans less_imp_le)
  ultimately show "if u = 0 then S \<union> set (serve (pg_until p)) = {} else (\<forall>e \<in> stored. ev_CreatedAt e > u \<longrightarrow> e \<in> S \<union> set (serve (pg_until p)))
      \<and> (\<forall>e \<in> S \<union> set (serve (pg_until p)). ev_CreatedAt e \<ge> u)"
    using p'(7) by auto
qed (use nx in \<open>auto simp: pager_next_def Let_def split: if_splits\<close>)

section \<open>All pages\<close>

lemma pager_next_pages:
  "pager_next uuid p = (p', Some u) \<Longrightarrow> pg_pages p < followPages \<and> pg_pages p' = pg_pages p + 1 \<and> pg_ok p \<and> pg_ok p' \<and> pg_since p' = pg_since p"
  "pager_next uuid p = (p', None) \<Longrightarrow> pg_pages p' = pg_pages p"
  by (auto simp: pager_next_def Let_def split: if_splits)

lemma page_run_ends:
  "int k > followPages - pg_pages p \<Longrightarrow> 0 < k \<Longrightarrow> pg_pages p \<le> followPages \<Longrightarrow> \<exists>p'. page_run serve uuid k p = Some p' \<and> pg_pages p' \<le> followPages"
proof (induction k arbitrary: p)
  case (Suc k)
  obtain q r where n: "pager_next uuid p = (q, r)"
    by fastforce
  show ?case
  proof (cases r)
    case None
    then show ?thesis
      using n Suc.prems pager_next_pages(2) by auto
  next
    case (Some u)
    then have "pg_pages p < followPages" "pg_pages q = pg_pages p + 1"
      using n pager_next_pages(1) by auto
    then show ?thesis
      using Suc.IH [of "fold pager_saw (serve u) q"] Suc.prems n Some by simp
  qed
qed simp

lemma page_run_complete:
  "page_run serve uuid k p = Some p' \<Longrightarrow> paging_ok stored serve p \<Longrightarrow> phase_inv stored serve S p \<Longrightarrow> pg_ok p \<Longrightarrow> pg_cut p' = [] \<Longrightarrow> ev_ID ` stored \<subseteq> pg_ids p'"
proof (induction k arbitrary: p S)
  case (Suc k)
  obtain q r where n: "pager_next uuid p = (q, r)"
    by fastforce
  show ?case
  proof (cases r)
    case None
    then show ?thesis
      using phase_ends [OF Suc.prems(2,3,4)] n Suc.prems by auto
  next
    case (Some u)
    have "phase_inv stored serve (S \<union> set (serve (pg_until p))) (fold pager_saw (serve u) q)"
      using phase_goes_on [OF Suc.prems(2,3)] n Some by blast
    moreover have "paging_ok stored serve (fold pager_saw (serve u) q)" "pg_ok q"
      using Suc.prems(2) pager_next_pages(1) n Some by (auto simp: paging_ok_def)
    ultimately show ?thesis
      using Suc.IH Suc.prems n Some by auto
  qed
qed simp

lemma stored_phase_eq: "stored_phase serve filters = fold pager_saw (serve 0) ((pager_restart (newFollowPager filters))\<lparr>pg_stored := False\<rparr>)"
proof -
  have "(fold pager_saw es p)\<lparr>pg_stored := False\<rparr> = fold pager_saw es (p\<lparr>pg_stored := False\<rparr>)" for es p
  proof (induction es arbitrary: p)
    case (Cons a es)
    have "(pager_saw a p)\<lparr>pg_stored := False\<rparr> = pager_saw a (p\<lparr>pg_stored := False\<rparr>)"
      by (simp add: pager_saw_def)
    then show ?case
      using Cons [of "pager_saw a p"] by simp
  qed simp
  then show ?thesis
    by (simp add: stored_phase_def)
qed

lemma stored_phase_inv:
  assumes "paging_ok stored serve (newFollowPager filters)"
  shows "phase_inv stored serve {} (stored_phase serve filters)" and "paging_ok stored serve (stored_phase serve filters)"
    and "pg_ok (stored_phase serve filters) = (\<forall>f \<in> set filters. sf_Limit f = 0 \<and> sf_Until f = 0)" and "pg_pages (stored_phase serve filters) = 0"
proof -
  let ?p = "(pager_restart (newFollowPager filters))\<lparr>pg_stored := False\<rparr>"
  have "paging_ok stored serve ?p"
    using assms by (simp add: paging_ok_def pager_restart_def newFollowPager_def)
  then show "phase_inv stored serve {} (stored_phase serve filters)" "paging_ok stored serve (stored_phase serve filters)"
    unfolding stored_phase_eq by (auto intro!: phase_start simp: pager_restart_def paging_ok_def)
qed (simp_all add: stored_phase_eq pager_restart_def newFollowPager_def)

section \<open>Delivering\<close>

text \<open>
  C26. A follow delivers an event once: over events from any relays, junk, saves and clean restarts, any 5001 deliveries in a row are of different events; what was delivered in the last 5000 is known, so it is not handed on again, whatever
  junk came since; both lists stay bounded; and the since of a relay never lies ahead of the clock, so an event dated ahead does not hide later ones.
\<close>

theorem follow_once:
  assumes "follow_run s D t"
  shows "distinct (take 5001 (drop i D)) \<and> (\<forall>d \<in> set (drop (length D - 5000) D). Seen d s) \<and> length (fs_order s) \<le> 5000 \<and> length (fs_onlyOrder s) \<le> 5000
    \<and> Since relay s \<le> t \<and> (\<forall>ev answer. fst (snd (emit t ev relay answer s)) \<longrightarrow> ev_ID ev \<notin> set (drop (length D - 5000) D))"
proof -
  have inv: "follow_inv s D t"
    using assms by (rule follow_inv_run)
  have windows: "distinct (take (5000 + 1) (drop i D))"
    using inv unfolding follow_inv_def by blast
  have bound: "\<forall>v. fs_since s relay = Some v \<longrightarrow> v \<le> t" "0 \<le> t"
    using inv unfolding follow_inv_def by blast+
  have ok: "state_ok s" and "fs_order s = drop (length D - 5000) D"
    using inv unfolding follow_inv_def last_n_def by blast+
  then have seen: "fs_seen s = set (drop (length D - 5000) D)"
    unfolding state_ok_def by metis
  have lens: "length (fs_order s) \<le> 5000" "length (fs_onlyOrder s) \<le> 5000"
    using ok unfolding state_ok_def by blast+
  have "Since relay s \<le> t"
    using bound by (simp add: Since_def split: option.split)
  moreover have "\<forall>d \<in> set (drop (length D - 5000) D). Seen d s"
    by (simp add: Seen_def seen)
  moreover have "\<forall>ev answer. fst (snd (emit t ev relay answer s)) \<longrightarrow> ev_ID ev \<notin> set (drop (length D - 5000) D)"
    by (simp add: emit_def Seen_def seen)
  ultimately show ?thesis
    using windows lens by simp
qed

definition ex_event :: "string \<Rightarrow> 64 word \<Rightarrow> event" where
  "ex_event i t = \<lparr>ev_ID = i, ev_PubKey = [], ev_CreatedAt = t, ev_Kind = 1, ev_Tags = [], ev_Content = ''hi'', ev_Sig = []\<rparr>"

definition ex_delivered :: FollowState where
  "ex_delivered = fst (emit 100 (ex_event ''e1'' 90) ''wss://r'' EmitOk (empty_state True))"

theorem follow_once_witness: "follow_run ex_delivered [''e1''] 100 \<and> Seen ''e1'' ex_delivered \<and> Since ''wss://r'' ex_delivered \<le> 100"
proof -
  have "emit 100 (ex_event ''e1'' 90) ''wss://r'' EmitOk (empty_state True) = (ex_delivered, True, False)"
    by (simp add: ex_delivered_def emit_def Seen_def empty_state_def)
  then have r: "follow_run ex_delivered [''e1''] 100"
    using follow_run.f_emit [OF follow_run.f_start [of 100 True]] by (fastforce simp: ex_event_def)
  show ?thesis
    using follow_once [OF r, of 0 "''wss://r''"] r by auto
qed

section \<open>Paging\<close>

text \<open>
  C27. A subscription's stored events are read to the end: of a relay that serves the newest first and leaves events out only beyond a page of at least 50, the paging ends after at most 100 pages, and unless it says that it was
  cut short it has read every stored event down to the filters' since, as long as no answer that leaves something out is all of one second.
\<close>

theorem paging_complete:
  assumes "\<forall>f \<in> set filters. sf_Limit f = 0 \<and> sf_Until f = 0" and "serves stored serve" and "no_full_second stored serve" and "inj_on ev_ID stored"
    and "\<forall>e \<in> stored. 0 < ev_CreatedAt e \<and> lowest_since filters \<le> ev_CreatedAt e"
  shows "\<exists>p. page_run serve uuid 101 (stored_phase serve filters) = Some p \<and> pg_pages p \<le> 100 \<and> (pg_cut p = [] \<longrightarrow> ev_ID ` stored \<subseteq> pg_ids p)"
proof -
  have ok: "paging_ok stored serve (newFollowPager filters)"
    using assms by (simp add: paging_ok_def newFollowPager_def)
  note start = stored_phase_inv [OF ok]
  obtain p where p: "page_run serve uuid 101 (stored_phase serve filters) = Some p" "pg_pages p \<le> 100"
    using page_run_ends [of "stored_phase serve filters" 101] start(4) by auto
  then show ?thesis
    using page_run_complete [OF p(1) start(2,1)] start(3) assms(1) by auto
qed

definition ex_filter :: sub_filter where
  "ex_filter = \<lparr>sf_Since = 10, sf_Until = 0, sf_Limit = 0, sf_rest = []\<rparr>"

theorem paging_complete_witness:
  "\<exists>p. page_run (\<lambda>u. if u = 0 \<or> 20 \<le> u then [ex_event ''e1'' 20] else []) [] 101 (stored_phase (\<lambda>u. if u = 0 \<or> 20 \<le> u then [ex_event ''e1'' 20] else []) [ex_filter]) = Some p
     \<and> (pg_cut p = [] \<longrightarrow> ''e1'' \<in> pg_ids p)"
proof -
  let ?serve = "\<lambda>u :: 64 word. if u = 0 \<or> 20 \<le> u then [ex_event ''e1'' 20] else []"
  have "serves {ex_event ''e1'' 20} ?serve" "no_full_second {ex_event ''e1'' 20} ?serve" "inj_on ev_ID {ex_event ''e1'' 20}"
    by (auto simp: serves_def no_full_second_def ex_event_def)
  then show ?thesis
    using paging_complete [of "[ex_filter]" "{ex_event ''e1'' 20}" ?serve "[]"] by (auto simp: ex_filter_def ex_event_def)
qed

text \<open>
  When the newest second holds a whole page, the paging stops there: the next page, up to that second, brings the same events, and a page that brings nothing new ends the paging, before the step past
  that second and without a word.
\<close>

lemma full_second_stops:
  assumes "\<forall>f \<in> set filters. sf_Limit f = 0 \<and> sf_Until f = 0" and "\<forall>e \<in> set (serve 0). ev_CreatedAt e = T" and "50 \<le> length (serve 0)" and "serve T = serve 0"
    and "0 < T" and "lowest_since filters \<le> T" and "pg_bytes (stored_phase serve filters) < followPageBytes"
  shows "\<exists>p. page_run serve uuid 101 (stored_phase serve filters) = Some p \<and> pg_ids p = ev_ID ` set (serve 0) \<and> pg_cut p = []"
proof -
  let ?p = "stored_phase serve filters"
  have "serve 0 \<noteq> []"
    using assms(3) by auto
  then obtain e where e: "e \<in> set (serve 0)"
    by (meson last_in_set)
  define p0 where "p0 = (pager_restart (newFollowPager filters))\<lparr>pg_stored := False\<rparr>"
  have p0: "pg_n p0 = 0" "pg_fresh p0 = 0" "pg_minAt p0 = 0" "pg_ids p0 = {}" "pg_until p0 = 0" "pg_ok p0" "pg_since p0 = lowest_since filters" "pg_pages p0 = 0" "pg_cut p0 = []"
    using assms(1) by (auto simp: p0_def pager_restart_def newFollowPager_def)
  have p: "?p = fold pager_saw (serve 0) p0"
    by (simp add: stored_phase_eq p0_def)
  have min: "pg_minAt ?p = T"
    using fold_saw_minAt [of "serve 0" p0] assms(2,5) \<open>serve 0 \<noteq> []\<close> p0(3) unfolding p by auto
  have fresh: "pg_fresh ?p > 0"
    using fold_saw_fresh [OF _ e, of p0] p0 unfolding p by simp
  have pf: "pg_ok ?p" "\<not> pg_n ?p < 50" "pg_until ?p = 0" "pg_since ?p = lowest_since filters" "pg_pages ?p = 0" "pg_cut ?p = []" "pg_ids ?p = ev_ID ` set (serve 0)"
    using p0 assms(3) unfolding p by (simp_all add: fold_saw_n fold_saw_ids)
  define q where "q = ?p\<lparr>pg_sub := ''page-'' @ uuid, pg_pages := 1, pg_until := T, pg_n := 0, pg_fresh := 0, pg_minAt := 0\<rparr>"
  have "pager_next uuid ?p = (q, Some T)"
    using pf min fresh assms(7) less_imp_neq [OF assms(5)] leD [OF assms(6)] by (auto simp: pager_next_def Let_def q_def)
  then have q: "pager_next uuid ?p = (q, Some T)" "pg_fresh q = 0" "pg_ids q = ev_ID ` set (serve 0)" "pg_cut q = []"
    using pf by (simp_all add: q_def)
  have "pager_next uuid (fold pager_saw (serve 0) q) = ((fold pager_saw (serve 0) q)\<lparr>pg_sub := []\<rparr>, None)"
    using fold_saw_known [of "serve 0" q] q(2,3) by (simp add: pager_next_def)
  moreover have "(101 :: nat) = Suc (Suc 99)"
    by simp
  ultimately show ?thesis
    using q assms(4) by (simp only: page_run.simps) (simp add: fold_saw_ids)
qed

text \<open>
  A relay's since moves with the first event delivered from it, and the stored events come newest first: a subscription that drops before they are all read resumes at that since less the overlap, and does not ask for older ones.
\<close>

lemma resume_asks_from:
  assumes "Since relay s = c" and "c \<noteq> 0" and "0 \<le> overlap" and "0 \<le> c" and "c < 2 ^ 62" and "f \<in> set (resumeFilters overlap relay s filters)"
  shows "c - overlap div second \<le> sint (sf_Since f)"
proof -
  define since where "since = max (c - overlap div second) 0"
  have "0 \<le> overlap div second"
    using assms(3) by simp
  then have b: "0 \<le> since" "since < 2 ^ 63"
    using assms(4,5) by (auto simp: since_def)
  then have "sint (word_of_int since :: 64 word) = since"
    by (simp add: int_word_sint)
  then show ?thesis
    using assms(1,2,6) by (auto simp: resumeFilters_def Let_def since_def [symmetric] not_less) (simp_all add: since_def)
qed

end
