(* ===== verification/Client_Stream.thy ===== *)
theory Client_Stream
  imports Nostr Go_Text "HOL-Library.Multiset"
begin

text \<open>
  Publishing to a remote relay in a stream (\<open>client/stream.go\<close>): the events that wait for an acknowledgement, the slots that bound them, and the three goroutines of a
  destination, of which one hands events over, one sends them and one handles what the relay answers. Each access to a shared structure, under its lock, is one step;
  the steps interleave freely. What the relay sends, whether a send or a login succeeds and whether the recovery has room are left open.
\<close>

section \<open>The events that wait for an acknowledgement\<close>

definition streamFlowBufferSize :: nat where "streamFlowBufferSize = 10240"
definition maxEventHistorySize :: nat where "maxEventHistorySize = 24000"

record pendingEntry =
  pe_event :: event
  pe_dispatchedGen :: nat

abbreviation pe_ID :: "pendingEntry \<Rightarrow> string" where "pe_ID e \<equiv> ev_ID (pe_event e)"

text \<open>The list has the most recent entry first; the map from an id to its element of the list is the set of the ids it has.\<close>

record StreamEventHistory =
  h_data :: "string set"
  h_order :: "pendingEntry list"
  h_generation :: nat

definition newStreamEventHistory :: StreamEventHistory where
  "newStreamEventHistory = \<lparr>h_data = {}, h_order = [], h_generation = 0\<rparr>"

definition history_get :: "string \<Rightarrow> StreamEventHistory \<Rightarrow> event option" where
  "history_get i h = (if i \<in> h_data h then map_option pe_event (find (\<lambda>e. pe_ID e = i) (h_order h)) else None)"

definition history_add :: "event \<Rightarrow> StreamEventHistory \<Rightarrow> StreamEventHistory" where
  "history_add ev h =
     (let e = \<lparr>pe_event = ev, pe_dispatchedGen = 0\<rparr> in
      if ev_ID ev \<in> h_data h then h\<lparr>h_order := e # filter (\<lambda>x. pe_ID x \<noteq> ev_ID ev) (h_order h)\<rparr>
      else let h1 = h\<lparr>h_order := e # h_order h, h_data := insert (ev_ID ev) (h_data h)\<rparr> in
        if length (h_order h1) > maxEventHistorySize
        then h1\<lparr>h_order := butlast (h_order h1), h_data := h_data h1 - {pe_ID (last (h_order h1))}\<rparr> else h1)"

definition history_delete :: "string \<Rightarrow> StreamEventHistory \<Rightarrow> StreamEventHistory" where
  "history_delete i h =
     (if i \<in> h_data h then h\<lparr>h_order := filter (\<lambda>x. pe_ID x \<noteq> i) (h_order h), h_data := h_data h - {i}\<rparr> else h)"

definition history_size :: "StreamEventHistory \<Rightarrow> nat" where
  "history_size h = card (h_data h)"

definition markDispatched :: "string \<Rightarrow> StreamEventHistory \<Rightarrow> StreamEventHistory" where
  "markDispatched i h =
     (if i \<in> h_data h then h\<lparr>h_order := map (\<lambda>x. if pe_ID x = i then x\<lparr>pe_dispatchedGen := h_generation h\<rparr> else x) (h_order h)\<rparr> else h)"

text \<open>An entry sent under an earlier generation is dead: its connection is gone.\<close>

definition is_dead :: "nat \<Rightarrow> pendingEntry \<Rightarrow> bool" where
  "is_dead cur e \<longleftrightarrow> pe_dispatchedGen e \<noteq> 0 \<and> pe_dispatchedGen e < cur"

definition newGeneration :: "StreamEventHistory \<Rightarrow> StreamEventHistory" where
  "newGeneration h =
     (let cur = Suc (h_generation h); dead = filter (is_dead cur) (h_order h) in
      h\<lparr>h_generation := cur, h_order := filter (\<lambda>e. \<not> is_dead cur e) (h_order h), h_data := h_data h - pe_ID ` set dead\<rparr>)"

section \<open>The flow of a destination\<close>

text \<open>What the relay sends, apart from what the login of the connection takes for itself.\<close>

datatype response = EventResponse event | OkResponse string bool string | EOSEResponse | NoticeResponse string | ClosedResponse string

text \<open>
  The fields of a \<open>FlowContext\<close>. A semaphore is made in every cycle and is never reused: \<open>fc_sems\<close> has how many tokens are in each, and \<open>fc_inFlight\<close> says which is the
  current one. The \<open>dispatchTracker\<close> is the set of its ids. Channels are lists, \<open>fc_paused\<close> and \<open>fc_stop\<close> say that the pause channel of this cycle is closed, and that
  the flow is closed or its context cancelled. \<open>fc_saved\<close> is what the recovery took. The last six keep account of what happened and nothing reads them: the
  events that were sent; those that were given up before they were; those a shutdown dropped; how many refusals were handled; and in this cycle, how many events were
  sent, how many slots were given back, and how many ids the tracker had when it was given them.
\<close>

record FlowContext =
  fc_recovery :: bool
  fc_publishConcurrency :: int
  fc_sems :: "nat list"
  fc_inFlight :: "nat option"
  fc_incoming :: "response list"
  fc_incomingEvents :: "event list"
  fc_paused :: bool
  fc_stop :: bool
  fc_pending :: StreamEventHistory
  fc_dispatched :: "string set"
  fc_saved :: "event list"
  fc_Events :: nat
  fc_Duplicates :: nat
  fc_Failures :: nat
  fc_Lost :: nat
  fc_failureCount :: nat
  fc_sent :: "event list"
  fc_direct :: "event list"
  fc_dropped :: "event list"
  fc_rejected :: nat
  fc_cycleSent :: nat
  fc_cycleReleased :: nat
  fc_cycleAgain :: nat

definition NewFlowContext :: "bool \<Rightarrow> int \<Rightarrow> FlowContext" where
  "NewFlowContext recovery n =
     \<lparr>fc_recovery = recovery, fc_publishConcurrency = n, fc_sems = [], fc_inFlight = None, fc_incoming = [], fc_incomingEvents = [], fc_paused = False, fc_stop = False,
      fc_pending = newStreamEventHistory, fc_dispatched = {}, fc_saved = [], fc_Events = 0, fc_Duplicates = 0, fc_Failures = 0, fc_Lost = 0, fc_failureCount = 0,
      fc_sent = [], fc_direct = [], fc_dropped = [], fc_rejected = 0, fc_cycleSent = 0, fc_cycleReleased = 0, fc_cycleAgain = 0\<rparr>"

definition open_flow :: "FlowContext \<Rightarrow> FlowContext" where
  "open_flow fc =
     fc\<lparr>fc_paused := False,
        fc_sems := (if fc_publishConcurrency fc > 0 then fc_sems fc @ [0] else fc_sems fc),
        fc_inFlight := (if fc_publishConcurrency fc > 0 then Some (length (fc_sems fc)) else None),
        fc_pending := newGeneration (fc_pending fc), fc_dispatched := {}, fc_cycleSent := 0, fc_cycleReleased := 0, fc_cycleAgain := 0\<rparr>"

definition pause_flow :: "FlowContext \<Rightarrow> FlowContext" where
  "pause_flow fc = fc\<lparr>fc_paused := True\<rparr>"

definition workerFailureThreshold :: nat where "workerFailureThreshold = 2"

text \<open>A retry waits five seconds, and ten more when it is the second in a row; the count then starts over. Seconds.\<close>

definition worker_Retry :: "nat \<Rightarrow> nat \<times> nat" where
  "worker_Retry n = (if n + 1 \<ge> workerFailureThreshold then (5 + 10, 0) else (5, n + 1))"

definition NextRetry :: "nat \<Rightarrow> nat" where
  "NextRetry n = (if n + 1 \<ge> workerFailureThreshold then 5 + 10 else 5)"

text \<open>The recovery takes an event, when there is one and its queue has room; else the event is counted as lost.\<close>

definition save_or_lose :: "bool \<Rightarrow> event \<Rightarrow> FlowContext \<Rightarrow> FlowContext" where
  "save_or_lose room ev fc = (if fc_recovery fc \<and> room then fc\<lparr>fc_saved := fc_saved fc @ [ev]\<rparr> else fc\<lparr>fc_Lost := Suc (fc_Lost fc)\<rparr>)"

definition forget :: "string \<Rightarrow> FlowContext \<Rightarrow> FlowContext" where
  "forget i fc = fc\<lparr>fc_pending := history_delete i (fc_pending fc)\<rparr>"

definition saveToRecoveryOrLose :: "bool \<Rightarrow> event \<Rightarrow> FlowContext \<Rightarrow> FlowContext" where
  "saveToRecoveryOrLose room ev fc = forget (ev_ID ev) (save_or_lose room ev (fc\<lparr>fc_direct := fc_direct fc @ [ev]\<rparr>))"

definition push_incoming :: "response \<Rightarrow> FlowContext \<Rightarrow> FlowContext" where
  "push_incoming r fc = fc\<lparr>fc_incoming := fc_incoming fc @ [r]\<rparr>"

section \<open>Sending\<close>

text \<open>
  Where \<open>RemoteSubscription.Write\<close> is: dialling and logging in; waiting for an event; having one, and having asked for the semaphore; waiting for one of its slots;
  having a slot; having sent; having marked the event in the history; reporting an error; having returned.
\<close>

datatype writer_pc = WDial | WIdle | WTaken event | WWait event nat | WSlot event "nat option" | WSent event "nat option" | WMarked event "nat option" | WFail | WDown

text \<open>And its reader: not started, reading, waiting for a login before it sends a refused event again, reporting an error, and ended, which closes \<open>connDead\<close>.\<close>

datatype reader_pc = ROff | RIdle | RLogin string string event | RError bool | RDead

record writer =
  w_pc :: writer_pc
  w_reader :: reader_pc
  w_signer :: bool
  w_unacked :: "string \<rightharpoonup> event"

definition new_writer :: "bool \<Rightarrow> writer" where
  "new_writer signer = \<lparr>w_pc = WDial, w_reader = ROff, w_signer = signer, w_unacked = Map.empty\<rparr>"

definition refusedForLogin :: "string \<Rightarrow> bool" where
  "refusedForLogin msg \<longleftrightarrow> take 14 msg = ''auth-required:''"

definition track_unacked :: "event \<Rightarrow> writer \<Rightarrow> writer" where
  "track_unacked ev w = (if w_signer w then w\<lparr>w_unacked := (w_unacked w)(ev_ID ev \<mapsto> ev)\<rparr> else w)"

definition untrack_acked :: "response \<Rightarrow> writer \<Rightarrow> writer" where
  "untrack_acked r w = (case r of OkResponse i acc msg \<Rightarrow> if w_signer w then w\<lparr>w_unacked := (w_unacked w)(i := None)\<rparr> else w | _ \<Rightarrow> w)"

text \<open>A refusal that the reader keeps for itself, to log in and send the event again.\<close>

definition asks_login :: "response \<Rightarrow> writer \<Rightarrow> bool" where
  "asks_login r w = (case r of OkResponse i acc msg \<Rightarrow> w_signer w \<and> \<not> acc \<and> refusedForLogin msg \<and> w_unacked w i \<noteq> None | _ \<Rightarrow> False)"

definition acquire_slot :: "nat \<Rightarrow> FlowContext \<Rightarrow> FlowContext" where
  "acquire_slot g fc = fc\<lparr>fc_sems := (fc_sems fc)[g := Suc (fc_sems fc ! g)]\<rparr>"

definition sent_event :: "event \<Rightarrow> FlowContext \<Rightarrow> FlowContext" where
  "sent_event ev fc = fc\<lparr>fc_sent := fc_sent fc @ [ev], fc_cycleSent := Suc (fc_cycleSent fc)\<rparr>"

definition mark_event :: "event \<Rightarrow> FlowContext \<Rightarrow> FlowContext" where
  "mark_event ev fc = fc\<lparr>fc_pending := markDispatched (ev_ID ev) (fc_pending fc)\<rparr>"

definition dispatch_event :: "event \<Rightarrow> FlowContext \<Rightarrow> FlowContext" where
  "dispatch_event ev fc =
     fc\<lparr>fc_dispatched := insert (ev_ID ev) (fc_dispatched fc), fc_cycleAgain := (if ev_ID ev \<in> fc_dispatched fc then Suc (fc_cycleAgain fc) else fc_cycleAgain fc)\<rparr>"

inductive wstep :: "FlowContext \<Rightarrow> writer \<Rightarrow> FlowContext \<Rightarrow> writer \<Rightarrow> bool" where
  dial_ok: "w_pc w = WDial \<Longrightarrow> wstep fc w fc (w\<lparr>w_pc := WIdle, w_reader := RIdle\<rparr>)"
| dial_failed: "w_pc w = WDial \<Longrightarrow> wstep fc w fc (w\<lparr>w_pc := WFail\<rparr>)"
| take_event: "w_pc w = WIdle \<Longrightarrow> fc_incomingEvents fc = ev # es \<Longrightarrow> wstep fc w (fc\<lparr>fc_incomingEvents := es\<rparr>) (w\<lparr>w_pc := WTaken ev\<rparr>)"
| unbounded: "w_pc w = WTaken ev \<Longrightarrow> fc_inFlight fc = None \<Longrightarrow> wstep fc w fc (w\<lparr>w_pc := WSlot ev None\<rparr>)"
| bounded: "w_pc w = WTaken ev \<Longrightarrow> fc_inFlight fc = Some g \<Longrightarrow> wstep fc w fc (w\<lparr>w_pc := WWait ev g\<rparr>)"
| acquire: "w_pc w = WWait ev g \<Longrightarrow> g < length (fc_sems fc) \<Longrightarrow> int (fc_sems fc ! g) < fc_publishConcurrency fc \<Longrightarrow>
    wstep fc w (acquire_slot g fc) (w\<lparr>w_pc := WSlot ev (Some g)\<rparr>)"
| wait_dead: "w_pc w = WWait ev g \<Longrightarrow> w_reader w = RDead \<Longrightarrow> wstep fc w (saveToRecoveryOrLose room ev fc) (w\<lparr>w_pc := WDown\<rparr>)"
| wait_stop: "w_pc w = WWait ev g \<Longrightarrow> fc_stop fc \<Longrightarrow> wstep fc w (forget (ev_ID ev) (fc\<lparr>fc_dropped := fc_dropped fc @ [ev]\<rparr>)) (w\<lparr>w_pc := WDown\<rparr>)"
| send_ok: "w_pc w = WSlot ev g \<Longrightarrow> wstep fc w (sent_event ev fc) ((track_unacked ev w)\<lparr>w_pc := WSent ev g\<rparr>)"
| send_failed: "w_pc w = WSlot ev g \<Longrightarrow> wstep fc w (saveToRecoveryOrLose room ev fc) ((track_unacked ev w)\<lparr>w_pc := WFail\<rparr>)"
| mark: "w_pc w = WSent ev g \<Longrightarrow> wstep fc w (mark_event ev fc) (w\<lparr>w_pc := WMarked ev g\<rparr>)"
| dispatch: "w_pc w = WMarked ev g \<Longrightarrow> wstep fc w (dispatch_event ev fc) (w\<lparr>w_pc := WIdle\<rparr>)"
| idle_dead: "w_pc w = WIdle \<Longrightarrow> w_reader w = RDead \<Longrightarrow> wstep fc w fc (w\<lparr>w_pc := WDown\<rparr>)"
| idle_stop: "w_pc w = WIdle \<Longrightarrow> fc_stop fc \<Longrightarrow> wstep fc w fc (w\<lparr>w_pc := WDown\<rparr>)"
| fail_stop: "w_pc w = WFail \<Longrightarrow> fc_stop fc \<Longrightarrow> wstep fc w fc (w\<lparr>w_pc := WDown\<rparr>)"
| receive: "w_reader w = RIdle \<Longrightarrow> \<not> asks_login r w \<Longrightarrow> length (fc_incoming fc) < streamFlowBufferSize \<Longrightarrow> wstep fc w (push_incoming r fc) (untrack_acked r w)"
| receive_stop: "w_reader w = RIdle \<Longrightarrow> \<not> asks_login r w \<Longrightarrow> fc_stop fc \<Longrightarrow> wstep fc w fc (untrack_acked r w)"
| refused: "w_reader w = RIdle \<Longrightarrow> asks_login (OkResponse i acc msg) w \<Longrightarrow> w_unacked w i = Some ev \<Longrightarrow>
    wstep fc w fc ((untrack_acked (OkResponse i acc msg) w)\<lparr>w_reader := RLogin i msg ev\<rparr>)"
| other: "w_reader w = RLogin i msg ev \<Longrightarrow> length (fc_incoming fc) < streamFlowBufferSize \<Longrightarrow> wstep fc w (push_incoming r fc) w"
| logged_in: "w_reader w = RLogin i msg ev \<Longrightarrow> wstep fc w fc (w\<lparr>w_reader := RIdle\<rparr>)"
| not_logged_in: "w_reader w = RLogin i msg ev \<Longrightarrow> length (fc_incoming fc) < streamFlowBufferSize \<Longrightarrow>
    wstep fc w (push_incoming (OkResponse i False msg) fc) (w\<lparr>w_reader := RIdle\<rparr>)"
| read_error: "w_reader w = RIdle \<Longrightarrow> wstep fc w fc (w\<lparr>w_reader := RError packet\<rparr>)"
| read_stop: "w_reader w \<noteq> ROff \<Longrightarrow> fc_stop fc \<or> w_pc w = WDown \<Longrightarrow> wstep fc w fc (w\<lparr>w_reader := RDead\<rparr>)"

section \<open>Handling what the relay answers\<close>

text \<open>
  Where \<open>handleFlow\<close> is: not running; started; waiting; in the branch of an \<open>OK\<close>, having looked the event up, having deleted it from the history, having taken it from the
  tracker and about to give its slot back, and about to count it; draining errors after a fatal one.
\<close>

datatype handler_pc = HDown | HStart | HIdle | HGot string bool string "event option" | HDeleted string bool string "event option"
  | HRelease string bool string "event option" | HReport string bool string "event option" | HDrain

text \<open>No letter of the prefix has a case variant outside ASCII, so that \<open>strings.EqualFold\<close> compares lower case.\<close>

definition isDuplicatedEvent :: "string \<Rightarrow> bool" where
  "isDuplicatedEvent msg \<longleftrightarrow> length msg \<ge> 10 \<and> to_lower (take 10 msg) = ''duplicate:''"

definition report_ok :: "bool \<Rightarrow> bool \<Rightarrow> string \<Rightarrow> event option \<Rightarrow> FlowContext \<Rightarrow> FlowContext" where
  "report_ok room acc msg found fc =
     (if \<not> acc then
        let fc1 = fc\<lparr>fc_Failures := Suc (fc_Failures fc), fc_rejected := Suc (fc_rejected fc)\<rparr> in
        (case found of Some ev \<Rightarrow> save_or_lose room ev fc1 | None \<Rightarrow> fc1\<lparr>fc_Lost := Suc (fc_Lost fc1)\<rparr>)
      else if isDuplicatedEvent msg then fc\<lparr>fc_Duplicates := Suc (fc_Duplicates fc)\<rparr>
      else if found \<noteq> None then fc\<lparr>fc_Events := Suc (fc_Events fc)\<rparr> else fc)"

definition release_slot :: "nat \<Rightarrow> FlowContext \<Rightarrow> FlowContext" where
  "release_slot g fc = fc\<lparr>fc_sems := (fc_sems fc)[g := fc_sems fc ! g - 1], fc_cycleReleased := Suc (fc_cycleReleased fc)\<rparr>"

definition reload :: "FlowContext \<Rightarrow> FlowContext" where
  "reload fc = fc\<lparr>fc_failureCount := snd (worker_Retry (fc_failureCount fc))\<rparr>"

text \<open>\<open>hstep\<close> says whether the step schedules a retry. An event that the relay sends on this connection is checked, passed on or counted as a failure: \<open>ok\<close>.\<close>

inductive hstep :: "FlowContext \<Rightarrow> handler_pc \<Rightarrow> FlowContext \<Rightarrow> handler_pc \<Rightarrow> bool \<Rightarrow> bool" where
  h_open: "hstep fc HStart (open_flow fc) HIdle False"
| h_event: "fc_incoming fc = EventResponse ev # rs \<Longrightarrow>
    hstep fc HIdle (if ok then fc\<lparr>fc_incoming := rs, fc_Events := Suc (fc_Events fc)\<rparr> else fc\<lparr>fc_incoming := rs, fc_Failures := Suc (fc_Failures fc)\<rparr>) HIdle False"
| h_ok: "fc_incoming fc = OkResponse i acc msg # rs \<Longrightarrow> hstep fc HIdle (fc\<lparr>fc_incoming := rs\<rparr>) (HGot i acc msg (history_get i (fc_pending fc))) False"
| h_delete: "hstep fc (HGot i acc msg found) (forget i fc) (HDeleted i acc msg found) False"
| h_taken: "i \<in> fc_dispatched fc \<Longrightarrow> hstep fc (HDeleted i acc msg found) (fc\<lparr>fc_dispatched := fc_dispatched fc - {i}\<rparr>) (HRelease i acc msg found) False"
| h_not_taken: "i \<notin> fc_dispatched fc \<Longrightarrow> hstep fc (HDeleted i acc msg found) fc (HReport i acc msg found) False"
| h_release: "fc_inFlight fc = Some g \<Longrightarrow> fc_sems fc ! g > 0 \<Longrightarrow> hstep fc (HRelease i acc msg found) (release_slot g fc) (HReport i acc msg found) False"
| h_release_nil: "fc_inFlight fc = None \<Longrightarrow> hstep fc (HRelease i acc msg found) fc (HReport i acc msg found) False"
| h_report: "hstep fc (HReport i acc msg found) (report_ok room acc msg found fc) HIdle False"
| h_eose: "fc_incoming fc = EOSEResponse # rs \<Longrightarrow> hstep fc HIdle (fc\<lparr>fc_incoming := rs\<rparr>) HIdle False"
| h_notice: "fc_incoming fc = NoticeResponse msg # rs \<Longrightarrow> hstep fc HIdle (fc\<lparr>fc_incoming := rs\<rparr>) HIdle False"
| h_closed: "fc_incoming fc = ClosedResponse msg # rs \<Longrightarrow> hstep fc HIdle (pause_flow (reload (fc\<lparr>fc_incoming := rs\<rparr>))) HDown True"
| h_drained: "hstep fc HDrain (pause_flow (reload fc)) HDown True"
| h_stop: "fc_stop fc \<Longrightarrow> hstep fc HIdle (pause_flow fc) HDown False"

section \<open>The destination\<close>

text \<open>
  The goroutine that hands events over is between the two steps of \<open>deliverToSubscriber\<close> when \<open>s_bcast\<close> has an event. A run of \<open>Write\<close> that a retry found not to have
  returned is in \<open>s_old\<close>. \<open>s_offered\<close> is what was handed over, and \<open>s_overlap\<close> says that a run of \<open>Write\<close> reached into a cycle that is not its own: a retry found one
  that had not returned, or one connected before \<open>handleFlow\<close> had opened the cycle.
\<close>

record stream =
  s_fc :: FlowContext
  s_bcast :: "event option"
  s_writer :: writer
  s_old :: "writer list"
  s_handler :: handler_pc
  s_retries :: nat
  s_offered :: "event list"
  s_overlap :: bool

definition start_stream :: "bool \<Rightarrow> int \<Rightarrow> bool \<Rightarrow> stream" where
  "start_stream recovery n signer =
     \<lparr>s_fc = NewFlowContext recovery n, s_bcast = None, s_writer = new_writer signer, s_old = [], s_handler = HStart, s_retries = 0, s_offered = [], s_overlap = False\<rparr>"

text \<open>One of the runs of \<open>Write\<close>, the last or an older one.\<close>

inductive swaps :: "stream \<Rightarrow> writer \<Rightarrow> writer \<Rightarrow> stream \<Rightarrow> bool" where
  swap_last: "swaps s (s_writer s) w' (s\<lparr>s_writer := w'\<rparr>)"
| swap_old: "s_old s = ws @ w # vs \<Longrightarrow> swaps s w w' (s\<lparr>s_old := ws @ w' # vs\<rparr>)"

text \<open>An error reaches \<open>handleFlow\<close> from the writer or from its reader.\<close>

inductive reports :: "writer \<Rightarrow> bool \<Rightarrow> writer \<Rightarrow> bool" where
  report_writer: "w_pc w = WFail \<Longrightarrow> reports w False (w\<lparr>w_pc := WDown\<rparr>)"
| report_reader: "w_reader w = RError packet \<Longrightarrow> reports w packet (w\<lparr>w_reader := RDead\<rparr>)"

definition returned :: "writer \<Rightarrow> bool" where
  "returned w \<longleftrightarrow> w_pc w = WDown \<and> w_reader w \<in> {ROff, RDead}"

inductive sstep :: "stream \<Rightarrow> stream \<Rightarrow> bool" where
  offer: "s_bcast s = None \<Longrightarrow>
    sstep s (s\<lparr>s_bcast := Some ev, s_offered := s_offered s @ [ev], s_fc := (s_fc s)\<lparr>fc_pending := history_add ev (fc_pending (s_fc s))\<rparr>\<rparr>)"
| offer_sent: "s_bcast s = Some ev \<Longrightarrow> length (fc_incomingEvents (s_fc s)) < streamFlowBufferSize \<Longrightarrow>
    sstep s (s\<lparr>s_bcast := None, s_fc := (s_fc s)\<lparr>fc_incomingEvents := fc_incomingEvents (s_fc s) @ [ev]\<rparr>\<rparr>)"
| offer_paused: "s_bcast s = Some ev \<Longrightarrow> fc_paused (s_fc s) \<Longrightarrow> sstep s (s\<lparr>s_bcast := None, s_fc := saveToRecoveryOrLose room ev (s_fc s)\<rparr>)"
| offer_stop: "s_bcast s = Some ev \<Longrightarrow> fc_stop (s_fc s) \<Longrightarrow>
    sstep s (s\<lparr>s_bcast := None, s_fc := forget (ev_ID ev) ((s_fc s)\<lparr>fc_dropped := fc_dropped (s_fc s) @ [ev]\<rparr>)\<rparr>)"
| write_step: "wstep (s_fc s) w fc' w' \<Longrightarrow> swaps s w w' s' \<Longrightarrow> sstep s (s'\<lparr>s_fc := fc', s_overlap := s_overlap s \<or> w_pc w = WDial \<and> w_pc w' = WIdle \<and> s_handler s = HStart\<rparr>)"
| handle: "hstep (s_fc s) (s_handler s) fc' h' again \<Longrightarrow> sstep s (s\<lparr>s_fc := fc', s_handler := h', s_retries := s_retries s + of_bool again\<rparr>)"
| handler_cancelled: "s_handler s = HIdle \<Longrightarrow> w_pc (s_writer s) = WDown \<Longrightarrow> sstep s (s\<lparr>s_fc := pause_flow (s_fc s), s_handler := HDown\<rparr>)"
| packet_error: "s_handler s = HIdle \<Longrightarrow> reports w True w' \<Longrightarrow> swaps s w w' s' \<Longrightarrow>
    sstep s (s'\<lparr>s_fc := (s_fc s)\<lparr>fc_Failures := Suc (fc_Failures (s_fc s))\<rparr>\<rparr>)"
| fatal_error: "s_handler s = HIdle \<Longrightarrow> reports w False w' \<Longrightarrow> swaps s w w' s' \<Longrightarrow> sstep s (s'\<lparr>s_handler := HDrain\<rparr>)"
| drained_error: "s_handler s = HDrain \<Longrightarrow> reports w packet w' \<Longrightarrow> swaps s w w' s' \<Longrightarrow> sstep s s'"
| retry: "s_handler s = HDown \<Longrightarrow> s_retries s = Suc n \<Longrightarrow>
    sstep s (s\<lparr>s_retries := n, s_handler := HStart, s_writer := new_writer (w_signer (s_writer s)),
      s_old := (if returned (s_writer s) then s_old s else s_writer s # s_old s), s_overlap := s_overlap s \<or> \<not> returned (s_writer s)\<rparr>)"
| stop: "sstep s (s\<lparr>s_fc := (s_fc s)\<lparr>fc_stop := True\<rparr>\<rparr>)"

inductive sreach :: "bool \<Rightarrow> int \<Rightarrow> bool \<Rightarrow> stream \<Rightarrow> bool" for recovery n signer where
  sreach_start: "sreach recovery n signer (start_stream recovery n signer)"
| sreach_step: "sreach recovery n signer s \<Longrightarrow> sstep s s' \<Longrightarrow> sreach recovery n signer s'"

end
