(* ===== verification/Client_LocalWrite.thy ===== *)
theory Client_LocalWrite
  imports Prelude
begin

text \<open>
  Writing a stream to a local store (\<open>LocalSubscription.Write\<close> of \<open>client/stream.go\<close>): a loop reads events and hands each to one of a bounded number of workers, and a
  lock for readers and writers keeps a deletion apart from every other write. The events are numbered in the order the loop reads them, and \<open>del\<close> says which of
  them delete (\<open>nip09.IsDeletionKind\<close>). What the store answers is left open.
\<close>

section \<open>The lock\<close>

record RWMutex =
  rw_readers :: nat
  rw_writer :: bool

definition can_lock :: "bool \<Rightarrow> RWMutex \<Rightarrow> bool" where
  "can_lock exclusive m \<longleftrightarrow> \<not> rw_writer m \<and> (exclusive \<longrightarrow> rw_readers m = 0)"

definition lock :: "bool \<Rightarrow> RWMutex \<Rightarrow> RWMutex" where
  "lock exclusive m = (if exclusive then m\<lparr>rw_writer := True\<rparr> else m\<lparr>rw_readers := Suc (rw_readers m)\<rparr>)"

definition unlock :: "bool \<Rightarrow> RWMutex \<Rightarrow> RWMutex" where
  "unlock exclusive m = (if exclusive then m\<lparr>rw_writer := False\<rparr> else m\<lparr>rw_readers := rw_readers m - 1\<rparr>)"

text \<open>\<open>guards del m H\<close>: the events of \<open>H\<close> hold the lock, a deletion exclusively.\<close>

definition guards :: "(nat \<Rightarrow> bool) \<Rightarrow> RWMutex \<Rightarrow> nat set \<Rightarrow> bool" where
  "guards del m H \<longleftrightarrow> finite H \<and> rw_readers m = card {i \<in> H. \<not> del i} \<and> (rw_writer m \<longleftrightarrow> (\<exists>i \<in> H. del i)) \<and> (\<forall>i \<in> H. \<forall>j \<in> H. i \<noteq> j \<longrightarrow> \<not> del i)"

lemma guards_apart: "guards del m H \<Longrightarrow> i \<in> H \<Longrightarrow> j \<in> H \<Longrightarrow> i \<noteq> j \<Longrightarrow> \<not> del i \<and> \<not> del j"
  unfolding guards_def by metis

lemma guards_lock:
  assumes "guards del m H" "i \<notin> H" "can_lock (del i) m"
  shows "guards del (lock (del i) m) (insert i H)"
proof (cases "del i")
  case True
  have "card {j \<in> H. \<not> del j} = 0" "\<forall>j \<in> H. \<not> del j" "finite H"
    using assms True by (auto simp: guards_def can_lock_def)
  then have "H = {}"
    by auto
  then show ?thesis
    using assms True by (auto simp: guards_def lock_def can_lock_def)
next
  case False
  have "{j \<in> insert i H. \<not> del j} = insert i {j \<in> H. \<not> del j}"
    using False by auto
  then show ?thesis
    using assms False by (auto simp: guards_def lock_def can_lock_def)
qed

lemma guards_unlock:
  assumes "guards del m H" "i \<in> H"
  shows "guards del (unlock (del i) m) (H - {i})"
proof -
  have "{j \<in> H - {i}. \<not> del j} = {j \<in> H. \<not> del j} - {i}"
    by auto
  then show ?thesis
    using assms guards_apart [OF assms] by (auto simp: guards_def unlock_def)
qed

section \<open>The loop and its workers\<close>

text \<open>The loop waits for an event, for the lock of the event it read, or for a free worker, or has ended and waits for its workers.\<close>

datatype dispatch_pc = DIdle | DLock nat | DGo nat | DWait

text \<open>
  \<open>l_running\<close> are the workers whose event the store has not answered for, \<open>l_done\<close> those that have yet to unlock. \<open>l_log\<close> is the order in which the store took the events,
  \<open>l_failed\<close> those whose insert failed, and \<open>l_left\<close> those a shutdown left behind; of \<open>l_acks\<close>, the acknowledgements that were handed to \<open>handleFlow\<close>, the flag says
  that the store had the event.
\<close>

record local_write =
  l_limit :: nat
  l_barrier :: RWMutex
  l_pc :: dispatch_pc
  l_reads :: nat
  l_running :: "nat set"
  l_done :: "nat set"
  l_log :: "nat list"
  l_acks :: "(nat \<times> bool) list"
  l_failed :: "nat set"
  l_left :: "nat set"
  l_cancelled :: bool
  l_stop :: bool

abbreviation localWriteConcurrency :: int where "localWriteConcurrency \<equiv> 32"

definition NewLocalSubscription :: "int \<Rightarrow> local_write" where
  "NewLocalSubscription writeConcurrency =
     \<lparr>l_limit = nat (if writeConcurrency \<le> 0 then localWriteConcurrency else writeConcurrency), l_barrier = \<lparr>rw_readers = 0, rw_writer = False\<rparr>, l_pc = DIdle, l_reads = 0,
      l_running = {}, l_done = {}, l_log = [], l_acks = [], l_failed = {}, l_left = {}, l_cancelled = False, l_stop = False\<rparr>"

text \<open>
  A worker that fails cancels the group's context, which ends the loop; once every worker has returned, \<open>Write\<close> reports the error and is run again. The parent's
  context is what a worker's insert runs under, so that only a shutdown leaves an insert without an answer, and the store may still take it then.
\<close>

inductive lstep :: "(nat \<Rightarrow> bool) \<Rightarrow> local_write \<Rightarrow> local_write \<Rightarrow> bool" for del where
  read_event: "l_pc l = DIdle \<Longrightarrow> lstep del l (l\<lparr>l_pc := DLock (l_reads l), l_reads := Suc (l_reads l)\<rparr>)"
| lock_event: "l_pc l = DLock i \<Longrightarrow> can_lock (del i) (l_barrier l) \<Longrightarrow> lstep del l (l\<lparr>l_pc := DGo i, l_barrier := lock (del i) (l_barrier l)\<rparr>)"
| go_event: "l_pc l = DGo i \<Longrightarrow> card (l_running l \<union> l_done l) < l_limit l \<Longrightarrow> lstep del l (l\<lparr>l_pc := DIdle, l_running := insert i (l_running l)\<rparr>)"
| insert_event: "i \<in> l_running l \<Longrightarrow>
    lstep del l (l\<lparr>l_log := l_log l @ [i], l_acks := l_acks l @ [(i, had)], l_running := l_running l - {i}, l_done := insert i (l_done l)\<rparr>)"
| insert_failed: "i \<in> l_running l \<Longrightarrow>
    lstep del l (l\<lparr>l_failed := insert i (l_failed l), l_cancelled := True, l_running := l_running l - {i}, l_done := insert i (l_done l)\<rparr>)"
| leave_event: "i \<in> l_running l \<Longrightarrow> l_stop l \<Longrightarrow> lstep del l (l\<lparr>l_left := insert i (l_left l), l_running := l_running l - {i}, l_done := insert i (l_done l)\<rparr>)"
| late_event: "i \<in> l_left l \<Longrightarrow> l_stop l \<Longrightarrow> lstep del l (l\<lparr>l_log := l_log l @ [i], l_left := l_left l - {i}\<rparr>)"
| unlock_event: "i \<in> l_done l \<Longrightarrow> lstep del l (l\<lparr>l_done := l_done l - {i}, l_barrier := unlock (del i) (l_barrier l)\<rparr>)"
| end_loop: "l_pc l = DIdle \<Longrightarrow> l_cancelled l \<or> l_stop l \<Longrightarrow> lstep del l (l\<lparr>l_pc := DWait\<rparr>)"
| run_again: "l_pc l = DWait \<Longrightarrow> l_running l \<union> l_done l = {} \<Longrightarrow> \<not> l_stop l \<Longrightarrow> lstep del l (l\<lparr>l_pc := DIdle, l_cancelled := False\<rparr>)"
| stop_local: "lstep del l (l\<lparr>l_stop := True\<rparr>)"

inductive lreach :: "(nat \<Rightarrow> bool) \<Rightarrow> int \<Rightarrow> local_write \<Rightarrow> bool" for del n where
  lreach_start: "lreach del n (NewLocalSubscription n)"
| lreach_step: "lreach del n l \<Longrightarrow> lstep del l l' \<Longrightarrow> lreach del n l'"

section \<open>What every step keeps\<close>

text \<open>The events that hold the lock.\<close>

definition at_go :: "local_write \<Rightarrow> nat set" where
  "at_go l = (case l_pc l of DGo i \<Rightarrow> {i} | _ \<Rightarrow> {})"

definition waiting :: "local_write \<Rightarrow> nat set" where
  "waiting l = (case l_pc l of DLock i \<Rightarrow> {i} | _ \<Rightarrow> {})"

definition holders :: "local_write \<Rightarrow> nat set" where
  "holders l = at_go l \<union> l_running l \<union> l_done l"

definition lock_inv :: "(nat \<Rightarrow> bool) \<Rightarrow> local_write \<Rightarrow> bool" where
  "lock_inv del l \<longleftrightarrow> guards del (l_barrier l) (holders l) \<and> at_go l \<inter> (l_running l \<union> l_done l) = {} \<and> l_running l \<inter> l_done l = {} \<and> waiting l \<inter> holders l = {}"

definition read_inv :: "local_write \<Rightarrow> bool" where
  "read_inv l \<longleftrightarrow> {..<l_reads l} = waiting l \<union> at_go l \<union> l_running l \<union> set (l_log l) \<union> l_failed l \<union> l_left l
     \<and> distinct (l_log l) \<and> set (l_log l) \<inter> (waiting l \<union> at_go l \<union> l_running l \<union> l_failed l \<union> l_left l) = {} \<and> l_left l \<inter> (waiting l \<union> at_go l \<union> l_running l \<union> l_failed l) = {}
     \<and> l_failed l \<inter> (waiting l \<union> at_go l \<union> l_running l) = {} \<and> (waiting l \<union> at_go l) \<inter> l_running l = {} \<and> l_done l \<subseteq> set (l_log l) \<union> l_failed l \<union> l_left l
     \<and> (\<forall>i \<in> waiting l \<union> at_go l. l_reads l = Suc i)"

lemmas local_defs = holders_def at_go_def waiting_def

lemma read_inv_step: "lstep del l l' \<Longrightarrow> read_inv l \<Longrightarrow> read_inv l'"
proof (induction rule: lstep.induct)
  case (read_event l)
  then have "l_reads l \<notin> l_running l \<union> set (l_log l) \<union> l_failed l \<union> l_left l"
    unfolding read_inv_def by (metis UnI1 UnI2 Un_iff lessThan_iff less_irrefl)
  then show ?case
    using read_event by (auto simp: read_inv_def local_defs lessThan_Suc)
qed (auto simp: read_inv_def local_defs)

lemma holders_read: "read_inv l \<Longrightarrow> holders l \<subseteq> {..<l_reads l}"
  by (auto simp: read_inv_def holders_def)

lemma lock_inv_same:
  assumes "lock_inv del l" "holders l' = holders l" "l_barrier l' = l_barrier l" "at_go l' \<inter> (l_running l' \<union> l_done l') = {}" "l_running l' \<inter> l_done l' = {}" "waiting l' \<inter> holders l = {}"
  shows "lock_inv del l'"
  using assms by (simp add: lock_inv_def)

lemma lock_inv_step: "lstep del l l' \<Longrightarrow> read_inv l \<Longrightarrow> lock_inv del l \<Longrightarrow> lock_inv del l'"
proof (induction rule: lstep.induct)
  case (read_event l)
  then show ?case
    using holders_read [OF read_event(2)] by (intro lock_inv_same [OF read_event(3)]) (auto simp: local_defs lock_inv_def)
next
  case (lock_event l i)
  have "holders (l\<lparr>l_pc := DGo i, l_barrier := lock (del i) (l_barrier l)\<rparr>) = insert i (holders l)" "i \<notin> holders l"
    using lock_event by (auto simp: lock_inv_def local_defs)
  then show ?case
    using lock_event guards_lock [of del "l_barrier l" "holders l" i] by (auto simp: lock_inv_def at_go_def waiting_def) (auto simp: holders_def)
next
  case (unlock_event i l)
  have "holders (l\<lparr>l_done := l_done l - {i}, l_barrier := unlock (del i) (l_barrier l)\<rparr>) = holders l - {i}" "i \<in> holders l"
    using unlock_event by (auto simp: lock_inv_def local_defs)
  then show ?case
    using unlock_event guards_unlock [of del "l_barrier l" "holders l" i] by (auto simp: lock_inv_def at_go_def waiting_def)
qed (rule lock_inv_same, assumption; auto simp: local_defs lock_inv_def)+

section \<open>The order of the store\<close>

text \<open>A deletion, and whatever was read before or after it, reach the store in the order they were read.\<close>

definition in_order :: "(nat \<Rightarrow> bool) \<Rightarrow> nat list \<Rightarrow> bool" where
  "in_order del xs \<longleftrightarrow> (\<forall>b < length xs. \<forall>a < b. del (xs ! a) \<or> del (xs ! b) \<longrightarrow> xs ! a < xs ! b)"

lemma in_order_snoc [simp]: "in_order del (xs @ [x]) \<longleftrightarrow> in_order del xs \<and> (\<forall>y \<in> set xs. del y \<or> del x \<longrightarrow> y < x)"
proof -
  have "in_order del (xs @ [x]) \<longleftrightarrow> in_order del xs \<and> (\<forall>a < length xs. del (xs ! a) \<or> del x \<longrightarrow> xs ! a < x)"
    by (auto simp: in_order_def less_Suc_eq nth_append)
  then show ?thesis
    by (metis in_set_conv_nth)
qed

lemma in_order_Nil [simp]: "in_order del []"
  by (simp add: in_order_def)

definition order_inv :: "(nat \<Rightarrow> bool) \<Rightarrow> local_write \<Rightarrow> bool" where
  "order_inv del l \<longleftrightarrow> l_stop l \<or> l_left l = {} \<and> map fst (l_acks l) = l_log l \<and> in_order del (l_log l) \<and> (\<forall>i \<in> at_go l \<union> l_running l. \<forall>k \<in> set (l_log l). del k \<or> del i \<longrightarrow> k < i)"

lemma write_order_step: "lstep del l l' \<Longrightarrow> read_inv l \<Longrightarrow> lock_inv del l \<Longrightarrow> order_inv del l \<Longrightarrow> order_inv del l'"
proof (induction rule: lstep.induct)
  case (lock_event l i)
  have "\<forall>k \<in> set (l_log l). k < i"
  proof
    fix k
    assume k: "k \<in> set (l_log l)"
    have "l_reads l = Suc i" "k \<in> {..<l_reads l}" "k \<noteq> i"
      using lock_event k by (auto simp: read_inv_def local_defs)
    then show "k < i"
      by simp
  qed
  then show ?case
    using lock_event by (auto simp: order_inv_def local_defs)
next
  case (insert_event i l had)
  have "\<not> del i \<and> \<not> del j" if "j \<in> at_go l \<union> l_running l" "j \<noteq> i" for j
    using insert_event(1,3) that guards_apart [of del "l_barrier l" "holders l" i j] by (auto simp: lock_inv_def holders_def)
  moreover have "i \<notin> at_go l"
    using insert_event(1,3) by (auto simp: lock_inv_def)
  ultimately show ?case
    using insert_event(1,4) by (auto simp: order_inv_def at_go_def split: dispatch_pc.splits)
qed (auto simp: order_inv_def local_defs)

definition bound_inv :: "int \<Rightarrow> local_write \<Rightarrow> bool" where
  "bound_inv n l \<longleftrightarrow> int (l_limit l) = (if n \<le> 0 then localWriteConcurrency else n) \<and> finite (l_running l \<union> l_done l) \<and> card (l_running l \<union> l_done l) \<le> l_limit l"

lemma bound_inv_step: "lstep del l l' \<Longrightarrow> bound_inv n l \<Longrightarrow> bound_inv n l'"
proof (induction rule: lstep.induct)
  case (go_event l i)
  then show ?case
    by (simp add: bound_inv_def card_insert_if)
next
  case (unlock_event i l)
  have "card (l_running l \<union> (l_done l - {i})) \<le> card (l_running l \<union> l_done l)"
    using unlock_event by (intro card_mono) (auto simp: bound_inv_def)
  then show ?case
    using unlock_event by (simp add: bound_inv_def)
next
  case (insert_event i l had)
  then have "l_running l - {i} \<union> insert i (l_done l) = l_running l \<union> l_done l"
    by auto
  then show ?case
    using insert_event by (simp add: bound_inv_def)
next
  case (insert_failed i l)
  then have "l_running l - {i} \<union> insert i (l_done l) = l_running l \<union> l_done l"
    by auto
  then show ?case
    using insert_failed by (simp add: bound_inv_def)
next
  case (leave_event i l)
  then have "l_running l - {i} \<union> insert i (l_done l) = l_running l \<union> l_done l"
    by auto
  then show ?case
    using leave_event by (simp add: bound_inv_def)
qed (simp_all add: bound_inv_def)

lemma lreach_inv:
  assumes "lreach del n l"
  shows "read_inv l \<and> lock_inv del l \<and> order_inv del l \<and> bound_inv n l"
  using assms
proof (induction rule: lreach.induct)
  case lreach_start
  then show ?case
    by (simp add: NewLocalSubscription_def read_inv_def lock_inv_def order_inv_def bound_inv_def guards_def local_defs)
next
  case (lreach_step l l')
  then show ?case
    using read_inv_step lock_inv_step write_order_step bound_inv_step by blast
qed

text \<open>When the loop waits for the lock, a worker has it.\<close>

lemma lock_held:
  assumes "lock_inv del l" "l_pc l = DLock i" "\<not> can_lock (del i) (l_barrier l)"
  shows "l_running l \<union> l_done l \<noteq> {}"
proof
  assume "l_running l \<union> l_done l = {}"
  then have "holders l = {}"
    using assms(2) by (simp add: holders_def at_go_def)
  then have "rw_readers (l_barrier l) = 0" "\<not> rw_writer (l_barrier l)"
    using assms(1) by (auto simp: lock_inv_def guards_def)
  then show False
    using assms(3) by (simp add: can_lock_def)
qed

end
