(* ===== verification/Client_Recovery.thy ===== *)
theory Client_Recovery
  imports Nostr
begin

text \<open>
  The recovery of a stream (\<open>client/recovery.go\<close>): events that a destination refused or that could not be sent are queued, saved with what their retries need, and sent
  again until the destination takes them or they have failed too often. The clock, what the store answers and how an attempt ends are left open.
\<close>

section \<open>The bucket\<close>

record RetryMeta =
  rm_EventID :: string
  rm_Destination :: string
  rm_Attempts :: int
  rm_LastAttempt :: int
  rm_NextRetry :: int
  rm_FailReason :: string

definition meta_key :: "string \<Rightarrow> string \<Rightarrow> string" where
  "meta_key i d = i @ '':'' @ d"

abbreviation key_of :: "RetryMeta \<Rightarrow> string" where "key_of m \<equiv> meta_key (rm_EventID m) (rm_Destination m)"

text \<open>A bucket keeps its entries in the order of their keys' bytes.\<close>

fun bytes_less :: "string \<Rightarrow> string \<Rightarrow> bool" where
  "bytes_less [] [] = False"
| "bytes_less [] (y # ys) = True"
| "bytes_less (x # xs) [] = False"
| "bytes_less (x # xs) (y # ys) = (if x = y then bytes_less xs ys else (of_char x :: nat) < of_char y)"

fun bucket_put :: "string \<Rightarrow> 'a \<Rightarrow> (string \<times> 'a) list \<Rightarrow> (string \<times> 'a) list" where
  "bucket_put k v [] = [(k, v)]"
| "bucket_put k v ((k', v') # b) = (if k = k' then (k, v) # b else if bytes_less k k' then (k, v) # (k', v') # b else (k', v') # bucket_put k v b)"

definition bucket_delete :: "string \<Rightarrow> (string \<times> 'a) list \<Rightarrow> (string \<times> 'a) list" where
  "bucket_delete k b = filter (\<lambda>e. fst e \<noteq> k) b"

section \<open>The recovery\<close>

record saveRequest =
  sq_event :: event
  sq_destination :: string
  sq_reason :: string

definition saveQueueSize :: nat where "saveQueueSize = 10240"

text \<open>
  \<open>r_batch\<close> is what a pass has read and not yet tried. The sets from \<open>r_taken\<close> on keep account and nothing reads them: the keys that were queued, those that were
  delivered, given up, deleted because the destination is not an URL or because their event is not in the store, and those whose save failed; and how many attempts failed.
\<close>

record recovery =
  r_maxRetries :: int
  r_retryInterval :: int
  r_saveQueue :: "saveRequest list"
  r_bucket :: "(string \<times> RetryMeta) list"
  r_batch :: "RetryMeta list"
  r_stopped :: bool
  r_drained :: bool
  r_taken :: "string set"
  r_delivered :: "string set"
  r_dropped :: "string set"
  r_invalid :: "string set"
  r_missing :: "string set"
  r_unsaved :: "string set"
  r_fails :: "string \<Rightarrow> nat"

definition NewRecoveryManager :: "int \<Rightarrow> int \<Rightarrow> (string \<times> RetryMeta) list \<Rightarrow> recovery" where
  "NewRecoveryManager maxRetries retryInterval bucket =
     \<lparr>r_maxRetries = maxRetries, r_retryInterval = retryInterval, r_saveQueue = [], r_bucket = bucket, r_batch = [], r_stopped = False, r_drained = False,
      r_taken = fst ` set bucket, r_delivered = {}, r_dropped = {}, r_invalid = {}, r_missing = {}, r_unsaved = {}, r_fails = (\<lambda>k. 0)\<rparr>"

definition SaveFailedEvent :: "event \<Rightarrow> string \<Rightarrow> string \<Rightarrow> recovery \<Rightarrow> (string + unit) \<times> recovery" where
  "SaveFailedEvent ev dest reason r =
     (if length (r_saveQueue r) < saveQueueSize
      then (Inr (), r\<lparr>r_saveQueue := r_saveQueue r @ [\<lparr>sq_event = ev, sq_destination = dest, sq_reason = reason\<rparr>], r_taken := insert (meta_key (ev_ID ev) dest) (r_taken r)\<rparr>)
      else (Inl ''recovery save queue full'', r))"

definition saveMeta :: "RetryMeta \<Rightarrow> recovery \<Rightarrow> recovery" where
  "saveMeta m r = r\<lparr>r_bucket := bucket_put (key_of m) m (r_bucket r)\<rparr>"

definition deleteMeta :: "string \<Rightarrow> string \<Rightarrow> recovery \<Rightarrow> recovery" where
  "deleteMeta i dest r = r\<lparr>r_bucket := bucket_delete (meta_key i dest) (r_bucket r)\<rparr>"

text \<open>How the insert of a failed event ended: a duplicate is fine. \<open>ok\<close> says whether the entry's write succeeds.\<close>

datatype insert_result = Completed | Duplicated | InsertFailed | TimedOut

definition saveEventSync :: "int \<Rightarrow> insert_result \<Rightarrow> bool \<Rightarrow> saveRequest \<Rightarrow> recovery \<Rightarrow> recovery" where
  "saveEventSync now res ok q r =
     (let i = ev_ID (sq_event q); d = sq_destination q in
      if res = InsertFailed \<or> res = TimedOut \<or> \<not> ok then r\<lparr>r_unsaved := insert (meta_key i d) (r_unsaved r)\<rparr>
      else saveMeta \<lparr>rm_EventID = i, rm_Destination = d, rm_Attempts = 0, rm_LastAttempt = now, rm_NextRetry = now + r_retryInterval r, rm_FailReason = sq_reason q\<rparr> r)"

definition collectPending :: "bool \<Rightarrow> int \<Rightarrow> recovery \<Rightarrow> RetryMeta list" where
  "collectPending force now r = filter (\<lambda>m. force \<or> now > rm_NextRetry m) (map snd (r_bucket r))"

text \<open>A failed attempt: the entry is deleted when it was the last, and else saved with the time of the next. \<open>ok\<close> says whether its write succeeds.\<close>

definition handleRetryFailure :: "int \<Rightarrow> string \<Rightarrow> bool \<Rightarrow> RetryMeta \<Rightarrow> recovery \<Rightarrow> recovery" where
  "handleRetryFailure now err ok m r =
     (let m1 = m\<lparr>rm_Attempts := rm_Attempts m + 1, rm_LastAttempt := now, rm_FailReason := err\<rparr>;
          r1 = r\<lparr>r_fails := (r_fails r)(key_of m := Suc (r_fails r (key_of m)))\<rparr> in
      if rm_Attempts m1 \<ge> r_maxRetries r
      then (if ok then deleteMeta (rm_EventID m) (rm_Destination m) (r1\<lparr>r_dropped := insert (key_of m) (r_dropped r)\<rparr>) else r1)
      else (if ok then saveMeta (m1\<lparr>rm_NextRetry := now + r_retryInterval r * rm_Attempts m1\<rparr>) r1 else r1))"

text \<open>
  How an attempt of \<open>processBatch\<close> ends. An attempt that the context interrupts, before it or while it publishes, ends the batch of its destination and counts for nothing.
\<close>

datatype attempt = Interrupted | NotFound bool | Delivered bool | Failed int string bool | InvalidURL bool

definition delete_if :: "bool \<Rightarrow> RetryMeta \<Rightarrow> recovery \<Rightarrow> recovery" where
  "delete_if ok m r = (if ok then deleteMeta (rm_EventID m) (rm_Destination m) r else r)"

fun try_entry :: "attempt \<Rightarrow> RetryMeta \<Rightarrow> recovery \<Rightarrow> recovery" where
  "try_entry Interrupted m r = r\<lparr>r_batch := filter (\<lambda>x. rm_Destination x \<noteq> rm_Destination m) (r_batch r)\<rparr>"
| "try_entry (NotFound ok) m r = delete_if ok m (r\<lparr>r_missing := insert (key_of m) (r_missing r)\<rparr>)"
| "try_entry (Delivered ok) m r = delete_if ok m (r\<lparr>r_delivered := insert (key_of m) (r_delivered r)\<rparr>)"
| "try_entry (Failed now err ok) m r = handleRetryFailure now err ok m r"
| "try_entry (InvalidURL ok) m r = delete_if ok m (r\<lparr>r_invalid := insert (key_of m) (r_invalid r)\<rparr>)"

text \<open>
  The steps: a destination queues an event; the save worker saves the first of the queue, or, once stopped, finds it empty and ends; a pass reads the due entries, or, in
  the flush after the worker has ended, all; the entries of one destination are tried in their order, those of different destinations in any; the process stops.
\<close>

inductive rstep :: "recovery \<Rightarrow> recovery \<Rightarrow> bool" where
  queue_event: "rstep r (snd (SaveFailedEvent ev dest reason r))"
| save_event: "\<not> r_drained r \<Longrightarrow> r_saveQueue r = q # qs \<Longrightarrow> rstep r (saveEventSync now res ok q (r\<lparr>r_saveQueue := qs\<rparr>))"
| drained: "r_stopped r \<Longrightarrow> r_saveQueue r = [] \<Longrightarrow> rstep r (r\<lparr>r_drained := True\<rparr>)"
| pass_due: "\<not> r_stopped r \<Longrightarrow> r_batch r = [] \<Longrightarrow> rstep r (r\<lparr>r_batch := collectPending False now r\<rparr>)"
| pass_all: "r_drained r \<Longrightarrow> r_batch r = [] \<Longrightarrow> rstep r (r\<lparr>r_batch := collectPending True now r\<rparr>)"
| try_next: "r_batch r = xs @ m # ys \<Longrightarrow> \<forall>x \<in> set xs. rm_Destination x \<noteq> rm_Destination m \<Longrightarrow> rstep r (try_entry a m (r\<lparr>r_batch := xs @ ys\<rparr>))"
| stop_recovery: "rstep r (r\<lparr>r_stopped := True\<rparr>)"

inductive rreach :: "recovery \<Rightarrow> recovery \<Rightarrow> bool" for r0 where
  rreach_start: "rreach r0 r0"
| rreach_step: "rreach r0 r \<Longrightarrow> rstep r r' \<Longrightarrow> rreach r0 r'"

section \<open>What every step keeps\<close>

lemma map_of_bucket_put [simp]: "map_of (bucket_put k v b) = (map_of b)(k \<mapsto> v)"
  by (induction k v b rule: bucket_put.induct) auto

lemma keys_bucket_put [simp]: "fst ` set (bucket_put k v b) = insert k (fst ` set b)"
  by (induction k v b rule: bucket_put.induct) auto

lemma set_bucket_put: "e \<in> set (bucket_put k v b) \<Longrightarrow> e = (k, v) \<or> e \<in> set b"
  by (induction k v b rule: bucket_put.induct) (auto split: if_splits)

lemma keys_bucket_delete [simp]: "fst ` set (bucket_delete k b) = fst ` set b - {k}"
  by (auto simp: bucket_delete_def)

definition queue_keys :: "recovery \<Rightarrow> string set" where
  "queue_keys r = (\<lambda>q. meta_key (ev_ID (sq_event q)) (sq_destination q)) ` set (r_saveQueue r)"

text \<open>What was queued is accounted for.\<close>

definition account_inv :: "recovery \<Rightarrow> bool" where
  "account_inv r \<longleftrightarrow> r_taken r \<subseteq> queue_keys r \<union> fst ` set (r_bucket r) \<union> r_delivered r \<union> r_dropped r \<union> r_invalid r \<union> r_missing r \<union> r_unsaved r"

text \<open>An entry is kept under its own key, with fewer attempts than the limit and no more than failed since the process started, besides what the file had.\<close>

definition meta_ok :: "(string \<Rightarrow> int) \<Rightarrow> recovery \<Rightarrow> RetryMeta \<Rightarrow> bool" where
  "meta_ok before r m \<longleftrightarrow> 0 \<le> rm_Attempts m \<and> rm_Attempts m < r_maxRetries r \<and> rm_Attempts m \<le> before (key_of m) + int (r_fails r (key_of m))"

definition attempts_inv :: "(string \<Rightarrow> int) \<Rightarrow> recovery \<Rightarrow> bool" where
  "attempts_inv before r \<longleftrightarrow> (\<forall>e \<in> set (r_bucket r). fst e = key_of (snd e) \<and> meta_ok before r (snd e)) \<and> (\<forall>m \<in> set (r_batch r). meta_ok before r m)
     \<and> (\<forall>k \<in> r_dropped r. r_maxRetries r \<le> before k + int (r_fails r k)) \<and> length (r_saveQueue r) \<le> saveQueueSize \<and> r_maxRetries r > 0 \<and> (\<forall>k. 0 \<le> before k)"

lemmas recovery_defs = SaveFailedEvent_def saveMeta_def deleteMeta_def saveEventSync_def handleRetryFailure_def delete_if_def Let_def

lemma try_account: "account_inv r \<Longrightarrow> account_inv (try_entry a m r)"
  by (cases a) (auto simp: account_inv_def queue_keys_def recovery_defs)

lemma account_inv_step: "rstep r r' \<Longrightarrow> account_inv r \<Longrightarrow> account_inv r'"
proof (induction rule: rstep.induct)
  case (try_next r xs m ys a)
  then show ?case
    by (intro try_account) (simp add: account_inv_def queue_keys_def)
qed (auto simp: account_inv_def queue_keys_def recovery_defs)

lemma set_bucket_delete: "set (bucket_delete k b) \<subseteq> set b"
  by (auto simp: bucket_delete_def)

lemma meta_ok_upd [simp]:
  "meta_ok before (r\<lparr>r_bucket := b\<rparr>) m = meta_ok before r m" "meta_ok before (r\<lparr>r_dropped := d\<rparr>) m = meta_ok before r m" "meta_ok before (r\<lparr>r_batch := c\<rparr>) m = meta_ok before r m"
  by (simp_all add: meta_ok_def)

lemma attempts_delete: "attempts_inv before r \<Longrightarrow> attempts_inv before (deleteMeta i d r)"
  using set_bucket_delete [of "meta_key i d" "r_bucket r"] by (auto simp: attempts_inv_def deleteMeta_def)

lemma attempts_save: "attempts_inv before r \<Longrightarrow> meta_ok before r m \<Longrightarrow> attempts_inv before (saveMeta m r)"
  by (auto simp: attempts_inv_def saveMeta_def dest!: set_bucket_put)

lemma attempts_drop: "attempts_inv before r \<Longrightarrow> r_maxRetries r \<le> before k + int (r_fails r k) \<Longrightarrow> attempts_inv before (r\<lparr>r_dropped := insert k (r_dropped r)\<rparr>)"
  by (auto simp: attempts_inv_def)

lemma attempts_fail:
  assumes "attempts_inv before r" "meta_ok before r m"
  shows "attempts_inv before (handleRetryFailure now err ok m r)"
proof -
  define r1 where "r1 = r\<lparr>r_fails := (r_fails r)(key_of m := Suc (r_fails r (key_of m)))\<rparr>"
  have mono: "meta_ok before r x \<Longrightarrow> meta_ok before r1 x" for x
    by (auto simp: meta_ok_def r1_def)
  have fields: "r_bucket r1 = r_bucket r" "r_batch r1 = r_batch r" "r_dropped r1 = r_dropped r" "r_maxRetries r1 = r_maxRetries r" "r_saveQueue r1 = r_saveQueue r"
    by (simp_all add: r1_def)
  have "r_maxRetries r \<le> before k + int (r_fails r1 k)" if "k \<in> r_dropped r" for k
    using assms(1) that unfolding attempts_inv_def r1_def by (cases "k = key_of m") force+
  then have inv: "attempts_inv before r1"
    using assms(1) mono unfolding attempts_inv_def fields by blast
  have drop: "attempts_inv before (r1\<lparr>r_dropped := insert (key_of m) (r_dropped r)\<rparr>)" if "r_maxRetries r \<le> rm_Attempts m + 1"
    using attempts_drop [OF inv, of "key_of m"] that assms(2) by (simp add: fields) (simp add: meta_ok_def r1_def)
  have keep: "meta_ok before r1 m'" if "rm_Attempts m + 1 < r_maxRetries r" "rm_Attempts m' = rm_Attempts m + 1" "key_of m' = key_of m" for m'
    using that assms(2) by (simp add: meta_ok_def r1_def)
  show ?thesis
    using inv attempts_delete [OF drop] attempts_save [OF inv keep] by (simp add: handleRetryFailure_def Let_def r1_def [symmetric])
qed

lemma attempts_try:
  assumes "attempts_inv before r" "meta_ok before r m"
  shows "attempts_inv before (try_entry a m r)"
proof (cases a)
  case (Failed now err ok)
  then show ?thesis
    using attempts_fail [OF assms] by simp
next
  case Interrupted
  then show ?thesis
    using assms by (auto simp: attempts_inv_def)
next
  case (NotFound ok)
  have "attempts_inv before (r\<lparr>r_missing := insert (key_of m) (r_missing r)\<rparr>)"
    using assms by (auto simp: attempts_inv_def meta_ok_def)
  then show ?thesis
    using NotFound by (simp add: delete_if_def attempts_delete)
next
  case (Delivered ok)
  have "attempts_inv before (r\<lparr>r_delivered := insert (key_of m) (r_delivered r)\<rparr>)"
    using assms by (auto simp: attempts_inv_def meta_ok_def)
  then show ?thesis
    using Delivered by (simp add: delete_if_def attempts_delete)
next
  case (InvalidURL ok)
  have "attempts_inv before (r\<lparr>r_invalid := insert (key_of m) (r_invalid r)\<rparr>)"
    using assms by (auto simp: attempts_inv_def meta_ok_def)
  then show ?thesis
    using InvalidURL by (simp add: delete_if_def attempts_delete)
qed

lemma attempts_inv_step: "rstep r r' \<Longrightarrow> attempts_inv before r \<Longrightarrow> attempts_inv before r'"
proof (induction rule: rstep.induct)
  case (try_next r xs m ys a)
  then show ?case
    by (intro attempts_try) (auto simp: attempts_inv_def meta_ok_def)
next
  case (save_event r q qs now res ok)
  then show ?case
    by (auto simp: attempts_inv_def meta_ok_def saveEventSync_def saveMeta_def Let_def dest!: set_bucket_put)
qed (auto simp: attempts_inv_def meta_ok_def SaveFailedEvent_def collectPending_def)

lemma rstep_config: "rstep r r' \<Longrightarrow> r_maxRetries r' = r_maxRetries r"
proof (induction rule: rstep.induct)
  case (try_next r xs m ys a)
  then show ?case
    by (cases a) (simp_all add: recovery_defs)
qed (simp_all add: recovery_defs)

end
