(* ===== verification/Client_Stream_Theorems.thy ===== *)
theory Client_Stream_Theorems
  imports Client_Stream Client_LocalWrite Client_Recovery
begin

text \<open>
  The properties of a stream: what becomes of the events it hands to a destination, the slots of a relay, the order in which a local store gets its writes, and the
  recovery. Runs of a destination, one action at a time, and what they show: a slot that is not given back because the tracker has an id once, and one that is not given back because
  the acknowledgement was handled before the tracker had the id. A destination under every interleaving: the history is a bounded map, an event that was handed over is accounted for until it is sent, and the slots are those of the
  events the tracker has.
\<close>

section \<open>The history\<close>

definition history_ok :: "StreamEventHistory \<Rightarrow> bool" where
  "history_ok h \<longleftrightarrow> h_data h = pe_ID ` set (h_order h) \<and> distinct (map pe_ID (h_order h)) \<and> length (h_order h) \<le> maxEventHistorySize
     \<and> (\<forall>e \<in> set (h_order h). pe_dispatchedGen e \<le> h_generation h)"

lemma history_ok_new [simp]: "history_ok newStreamEventHistory"
  by (simp add: history_ok_def newStreamEventHistory_def)

lemma filter_other_length: "i \<in> pe_ID ` set es \<Longrightarrow> length (filter (\<lambda>x. pe_ID x \<noteq> i) es) < length es"
  by (auto intro!: length_filter_less)

lemma distinct_filter_map: "distinct (map f xs) \<Longrightarrow> distinct (map f (filter P xs))"
  by (simp add: distinct_map_filter)

lemma history_ok_add [simp]:
  assumes "history_ok h"
  shows "history_ok (history_add ev h)"
proof -
  have d: "h_data h = pe_ID ` set (h_order h)" and dist: "distinct (map pe_ID (h_order h))" and len: "length (h_order h) \<le> maxEventHistorySize"
    and gen: "\<forall>e \<in> set (h_order h). pe_dispatchedGen e \<le> h_generation h"
    using assms by (auto simp: history_ok_def)
  show ?thesis
  proof (cases "ev_ID ev \<in> h_data h")
    case True
    then show ?thesis
      using d dist len gen filter_other_length [of "ev_ID ev" "h_order h"] by (auto simp: history_add_def history_ok_def distinct_filter_map)
  next
    case new: False
    define es where "es = \<lparr>pe_event = ev, pe_dispatchedGen = 0\<rparr> # h_order h"
    have es: "distinct (map pe_ID es)" "insert (ev_ID ev) (h_data h) = pe_ID ` set es" "\<forall>e \<in> set es. pe_dispatchedGen e \<le> h_generation h"
      using d dist gen new by (auto simp: es_def)
    have split: "es = butlast es @ [last es]"
      by (simp add: es_def)
    have "pe_ID (last es) \<notin> pe_ID ` set (butlast es)" "distinct (map pe_ID (butlast es))"
      using es(1) by (subst (asm) split, simp)+
    moreover have "set es = insert (last es) (set (butlast es))"
      by (subst split) simp
    ultimately show ?thesis
      using es len new by (auto simp: history_add_def history_ok_def es_def [symmetric] Let_def) (auto simp: es_def)
  qed
qed

lemma history_ok_delete [simp]: "history_ok h \<Longrightarrow> history_ok (history_delete i h)"
  by (auto simp: history_ok_def history_delete_def distinct_filter_map intro: le_trans [OF length_filter_le])

lemma history_ok_mark [simp]:
  assumes "history_ok h"
  shows "history_ok (markDispatched i h)"
proof -
  let ?f = "\<lambda>x. if pe_ID x = i then x\<lparr>pe_dispatchedGen := h_generation h\<rparr> else x"
  have ids: "map pe_ID (map ?f (h_order h)) = map pe_ID (h_order h)"
    by simp
  have "pe_ID ` set (map ?f (h_order h)) = pe_ID ` set (h_order h)"
    by (metis ids set_map)
  moreover have "distinct (map pe_ID (map ?f (h_order h)))"
    using assms ids by (simp only: history_ok_def)
  ultimately show ?thesis
    using assms by (auto simp: history_ok_def markDispatched_def)
qed

lemma history_ok_newGeneration [simp]: "history_ok h \<Longrightarrow> history_ok (newGeneration h)"
  by (auto simp: history_ok_def newGeneration_def Let_def distinct_filter_map inj_on_def distinct_map le_Suc_eq intro: le_trans [OF length_filter_le])

lemma history_get_Some: "history_ok h \<Longrightarrow> history_get i h = Some ev \<Longrightarrow> ev_ID ev = i \<and> i \<in> h_data h"
  by (auto simp: history_get_def find_Some_iff split: if_splits)

section \<open>What every step keeps\<close>

lemmas flow_defs = saveToRecoveryOrLose_def save_or_lose_def forget_def push_incoming_def acquire_slot_def sent_event_def mark_event_def dispatch_event_def
  open_flow_def pause_flow_def reload_def release_slot_def report_ok_def Let_def

lemma wstep_history: "wstep fc w fc' w' \<Longrightarrow> history_ok (fc_pending fc) \<Longrightarrow> history_ok (fc_pending fc')"
  by (induction rule: wstep.induct) (simp_all add: flow_defs)

lemma hstep_history: "hstep fc h fc' h' again \<Longrightarrow> history_ok (fc_pending fc) \<Longrightarrow> history_ok (fc_pending fc')"
  by (induction rule: hstep.induct) (simp_all add: flow_defs split: option.split)

lemma swaps_fields [simp]:
  assumes "swaps s w w' s'"
  shows "s_fc s' = s_fc s" "s_bcast s' = s_bcast s" "s_handler s' = s_handler s" "s_retries s' = s_retries s" "s_offered s' = s_offered s" "s_overlap s' = s_overlap s"
  using assms by (auto elim: swaps.cases)

lemma sstep_history: "sstep s s' \<Longrightarrow> history_ok (fc_pending (s_fc s)) \<Longrightarrow> history_ok (fc_pending (s_fc s'))"
  by (induction rule: sstep.induct) (auto simp: flow_defs dest: wstep_history hstep_history)

section \<open>Custody\<close>

text \<open>The event that a run of \<open>Write\<close> took and has not sent.\<close>

definition in_hand :: "writer \<Rightarrow> event multiset" where
  "in_hand w = (case w_pc w of WTaken ev \<Rightarrow> {#ev#} | WWait ev g \<Rightarrow> {#ev#} | WSlot ev g \<Rightarrow> {#ev#} | _ \<Rightarrow> {#})"

definition flow_account :: "FlowContext \<Rightarrow> event multiset" where
  "flow_account fc = mset (fc_incomingEvents fc) + mset (fc_sent fc) + mset (fc_direct fc) + mset (fc_dropped fc)"

lemma in_hand_track [simp]: "in_hand (w\<lparr>w_reader := r\<rparr>) = in_hand w" "in_hand (untrack_acked r' w) = in_hand w"
  by (auto simp: in_hand_def untrack_acked_def split: response.split)

lemma wstep_custody: "wstep fc w fc' w' \<Longrightarrow> flow_account fc' + in_hand w' = flow_account fc + in_hand w"
  by (induction rule: wstep.induct) (simp_all add: flow_account_def flow_defs in_hand_def track_unacked_def untrack_acked_def split: response.split)

lemma hstep_custody: "hstep fc h fc' h' again \<Longrightarrow> flow_account fc' = flow_account fc"
  by (induction rule: hstep.induct) (simp_all add: flow_account_def flow_defs split: option.split)

definition in_hands :: "stream \<Rightarrow> event multiset" where
  "in_hands s = (case s_bcast s of Some ev \<Rightarrow> {#ev#} | None \<Rightarrow> {#}) + sum_list (map in_hand (s_writer s # s_old s))"

definition custody :: "stream \<Rightarrow> bool" where
  "custody s \<longleftrightarrow> mset (s_offered s) = in_hands s + flow_account (s_fc s)"

lemma swaps_in_hands: "swaps s w w' s' \<Longrightarrow> in_hands s' + in_hand w = in_hands s + in_hand w'"
  by (induction rule: swaps.induct) (simp_all add: in_hands_def ac_simps)

lemma in_hands_upd [simp]:
  "in_hands (s\<lparr>s_fc := fc\<rparr>) = in_hands s" "in_hands (s\<lparr>s_handler := h\<rparr>) = in_hands s" "in_hands (s\<lparr>s_retries := n\<rparr>) = in_hands s" "in_hands (s\<lparr>s_overlap := b\<rparr>) = in_hands s"
  by (simp_all add: in_hands_def)

lemma reports_in_hand: "reports w packet w' \<Longrightarrow> in_hand w' = in_hand w"
  by (induction rule: reports.induct) (simp_all add: in_hand_def)

lemma sstep_custody: "sstep s s' \<Longrightarrow> custody s \<Longrightarrow> custody s'"
proof (induction rule: sstep.induct)
  case (write_step s w fc' w' s')
  have "in_hands s' + flow_account fc' + in_hand w = in_hands s + flow_account (s_fc s) + in_hand w"
    using swaps_in_hands [OF write_step(2)] wstep_custody [OF write_step(1)] by (simp add: ac_simps)
  then show ?case
    using write_step(3) swaps_fields [OF write_step(2)] by (simp add: custody_def)
next
  case (handle s fc' h' again)
  then show ?case
    by (simp add: custody_def hstep_custody)
next
  case (packet_error s w w' s')
  then show ?case
    using swaps_in_hands [OF packet_error(3)] reports_in_hand [OF packet_error(2)] by (simp add: custody_def flow_account_def)
next
  case (fatal_error s w w' s')
  then show ?case
    using swaps_in_hands [OF fatal_error(3)] reports_in_hand [OF fatal_error(2)] by (simp add: custody_def)
next
  case (drained_error s w packet w' s')
  then show ?case
    using swaps_in_hands [OF drained_error(3)] reports_in_hand [OF drained_error(2)] by (simp add: custody_def)
qed (auto simp: custody_def in_hands_def flow_account_def flow_defs in_hand_def new_writer_def returned_def)

section \<open>Saved or lost\<close>

text \<open>An event that is given up or refused is with the recovery or counted as lost.\<close>

definition saved_account :: "FlowContext \<Rightarrow> bool" where
  "saved_account fc \<longleftrightarrow> length (fc_saved fc) + fc_Lost fc = length (fc_direct fc) + fc_rejected fc \<and> fc_rejected fc \<le> fc_Failures fc"

lemma wstep_saved: "wstep fc w fc' w' \<Longrightarrow> saved_account fc \<Longrightarrow> saved_account fc'"
  by (induction rule: wstep.induct) (simp_all add: saved_account_def flow_defs)

lemma hstep_saved: "hstep fc h fc' h' again \<Longrightarrow> saved_account fc \<Longrightarrow> saved_account fc'"
  by (induction rule: hstep.induct) (simp_all add: saved_account_def flow_defs split: option.split)

lemma sstep_saved: "sstep s s' \<Longrightarrow> saved_account (s_fc s) \<Longrightarrow> saved_account (s_fc s')"
  by (induction rule: sstep.induct) (auto simp: flow_defs saved_account_def dest: wstep_saved hstep_saved)

section \<open>Slots\<close>

text \<open>The slot that a run of \<open>Write\<close> has taken and that the tracker does not have yet; the one that \<open>handleFlow\<close> has taken from the tracker.\<close>

definition has_slot :: "writer \<Rightarrow> bool" where
  "has_slot w = (case w_pc w of WSlot ev g \<Rightarrow> True | WSent ev g \<Rightarrow> True | WMarked ev g \<Rightarrow> True | _ \<Rightarrow> False)"

definition gives_back :: "handler_pc \<Rightarrow> bool" where
  "gives_back h = (case h of HRelease i acc msg found \<Rightarrow> True | _ \<Rightarrow> False)"

definition unsent_slot :: "writer \<Rightarrow> bool" where
  "unsent_slot w = (case w_pc w of WSlot ev g \<Rightarrow> True | _ \<Rightarrow> False)"

text \<open>The semaphore that a run of \<open>Write\<close> knows.\<close>

definition knows :: "writer \<Rightarrow> nat option option" where
  "knows w = (case w_pc w of WWait ev g \<Rightarrow> Some (Some g) | WSlot ev g \<Rightarrow> Some g | WSent ev g \<Rightarrow> Some g | WMarked ev g \<Rightarrow> Some g | _ \<Rightarrow> None)"

definition slots :: "FlowContext \<Rightarrow> nat" where
  "slots fc = (case fc_inFlight fc of Some g \<Rightarrow> fc_sems fc ! g | None \<Rightarrow> 0)"

definition tracked :: "FlowContext \<Rightarrow> writer \<Rightarrow> handler_pc \<Rightarrow> nat" where
  "tracked fc w h = card (fc_dispatched fc) + fc_cycleAgain fc + of_bool (has_slot w) + of_bool (gives_back h)"

definition slot_inv :: "FlowContext \<Rightarrow> writer \<Rightarrow> handler_pc \<Rightarrow> bool" where
  "slot_inv fc w h \<longleftrightarrow> finite (fc_dispatched fc)
     \<and> (\<forall>g. fc_inFlight fc = Some g \<longrightarrow> g < length (fc_sems fc) \<and> int (slots fc) \<le> fc_publishConcurrency fc
          \<and> tracked fc w h \<le> slots fc \<and> (h \<noteq> HStart \<and> w_pc w \<notin> {WFail, WDown} \<longrightarrow> tracked fc w h = slots fc)
          \<and> fc_cycleSent fc + of_bool (unsent_slot w) \<le> slots fc + fc_cycleReleased fc)
     \<and> (\<forall>g. knows w = Some g \<longrightarrow> fc_inFlight fc = g)
     \<and> (h = HStart \<longrightarrow> w_pc w \<in> {WDial, WFail, WDown})"

lemmas slot_defs = slot_inv_def slots_def tracked_def has_slot_def unsent_slot_def gives_back_def knows_def

lemma pc_untrack [simp]: "w_pc (untrack_acked r w) = w_pc w" "w_pc (track_unacked ev w) = w_pc w"
  by (auto simp: untrack_acked_def track_unacked_def split: response.split)

lemma wstep_slots:
  "wstep fc w fc' w' \<Longrightarrow> slot_inv fc w h \<Longrightarrow> \<not> (w_pc w = WDial \<and> w_pc w' = WIdle \<and> h = HStart) \<Longrightarrow> slot_inv fc' w' h"
  by (induction rule: wstep.induct) (auto simp: slot_defs flow_defs card_insert_if split: option.splits)

lemma hstep_slots: "hstep fc h fc' h' again \<Longrightarrow> slot_inv fc w h \<Longrightarrow> slot_inv fc' w h'"
proof (induction rule: hstep.induct)
  case (h_taken i fc acc msg found)
  then have "finite (fc_dispatched fc)"
    by (simp add: slot_inv_def)
  then have "Suc (card (fc_dispatched fc - {i})) = card (fc_dispatched fc)"
    using h_taken(1) by (rule card_Suc_Diff1)
  then have "tracked (fc\<lparr>fc_dispatched := fc_dispatched fc - {i}\<rparr>) w (HRelease i acc msg found) = tracked fc w (HDeleted i acc msg found)"
    by (simp add: tracked_def gives_back_def)
  then show ?case
    using h_taken by (auto simp: slot_inv_def slots_def knows_def)
qed (auto simp: slot_defs flow_defs split: option.splits)

definition slots_ok :: "stream \<Rightarrow> bool" where
  "slots_ok s \<longleftrightarrow> s_overlap s \<or> s_old s = [] \<and> slot_inv (s_fc s) (s_writer s) (s_handler s)"

lemma swaps_last: "swaps s w w' s' \<Longrightarrow> s_old s = [] \<Longrightarrow> w = s_writer s \<and> s_writer s' = w' \<and> s_old s' = []"
  by (auto elim: swaps.cases)

lemma slot_inv_report: "reports w packet w' \<Longrightarrow> slot_inv fc w h \<Longrightarrow> h \<noteq> HStart \<Longrightarrow> slot_inv fc w' h"
  by (induction rule: reports.induct) (auto simp: slot_defs)

lemma slot_inv_cong:
  assumes "fc_dispatched fc' = fc_dispatched fc" "fc_inFlight fc' = fc_inFlight fc" "fc_sems fc' = fc_sems fc" "fc_publishConcurrency fc' = fc_publishConcurrency fc"
    "fc_cycleSent fc' = fc_cycleSent fc" "fc_cycleReleased fc' = fc_cycleReleased fc" "fc_cycleAgain fc' = fc_cycleAgain fc" and "slot_inv fc w h"
  shows "slot_inv fc' w h"
  using assms by (simp add: slot_inv_def slots_def tracked_def)

lemma slot_inv_drain: "slot_inv fc w HIdle \<longleftrightarrow> slot_inv fc w HDrain" "slot_inv fc w HIdle \<longleftrightarrow> slot_inv fc w HDown"
  by (simp_all add: slot_inv_def tracked_def gives_back_def)

lemma sstep_slots: "sstep s s' \<Longrightarrow> slots_ok s \<Longrightarrow> slots_ok s'"
proof (induction rule: sstep.induct)
  case (write_step s w fc' w' s')
  then show ?case
    using swaps_last [OF write_step(2)] swaps_fields [OF write_step(2)] wstep_slots [OF write_step(1), of "s_handler s"] by (auto simp: slots_ok_def)
next
  case (handle s fc' h' again)
  then show ?case
    by (auto simp: slots_ok_def dest: hstep_slots)
next
  case (handler_cancelled s)
  then show ?case
    by (auto simp: slots_ok_def slot_inv_drain(2) flow_defs elim!: slot_inv_cong [rotated -1])
next
  case (packet_error s w w' s')
  have "slot_inv (s_fc s) w' HIdle" if "\<not> s_overlap s"
    using that packet_error swaps_last [OF packet_error(3)] slot_inv_report [OF packet_error(2)] by (auto simp: slots_ok_def)
  then show ?case
    using packet_error swaps_last [OF packet_error(3)] swaps_fields [OF packet_error(3)] by (auto simp: slots_ok_def elim!: slot_inv_cong [rotated -1])
next
  case (fatal_error s w w' s')
  then show ?case
    using swaps_last [OF fatal_error(3)] swaps_fields [OF fatal_error(3)] slot_inv_report [OF fatal_error(2)] by (auto simp: slots_ok_def slot_inv_drain(1))
next
  case (drained_error s w packet w' s')
  then show ?case
    using swaps_last [OF drained_error(3)] swaps_fields [OF drained_error(3)] slot_inv_report [OF drained_error(2)] by (auto simp: slots_ok_def)
next
  case (retry s n)
  then show ?case
    by (auto simp: slots_ok_def slot_defs returned_def new_writer_def)
qed (auto simp: slots_ok_def flow_defs elim!: slot_inv_cong [rotated -1])

section \<open>Every reachable state\<close>

lemma sreach_inv:
  assumes "sreach recovery n signer s"
  shows "history_ok (fc_pending (s_fc s)) \<and> custody s \<and> saved_account (s_fc s) \<and> slots_ok s"
  using assms
proof (induction rule: sreach.induct)
  case sreach_start
  then show ?case
    by (simp add: start_stream_def NewFlowContext_def new_writer_def custody_def in_hands_def in_hand_def flow_account_def saved_account_def slots_ok_def slot_defs)
next
  case (sreach_step s s')
  then show ?case
    using sstep_history sstep_custody sstep_saved sstep_slots by blast
qed

lemma sreach_config: "sreach recovery n signer s \<Longrightarrow> fc_publishConcurrency (s_fc s) = n"
proof (induction rule: sreach.induct)
  case sreach_start
  then show ?case
    by (simp add: start_stream_def NewFlowContext_def)
next
  case (sreach_step s s')
  have w: "wstep fc w fc' w' \<Longrightarrow> fc_publishConcurrency fc' = fc_publishConcurrency fc" for fc w fc' w'
    by (induction rule: wstep.induct) (simp_all add: flow_defs)
  have h: "hstep fc h fc' h' again \<Longrightarrow> fc_publishConcurrency fc' = fc_publishConcurrency fc" for fc h fc' h' again
    by (induction rule: hstep.induct) (simp_all add: flow_defs split: option.split)
  show ?case
    using sreach_step(2,3) by (induction rule: sstep.induct) (auto simp: flow_defs dest: w h)
qed

datatype action = Open | Dial | Offer event | Queue | Take | Look | Acquire | Send | Mark | Dispatch | Recv response | ReadFail | Report | Drained | Ended | Again
  | Handle_ok | Handle_closed | Delete_pending | Take_tracker | Release | Count bool

fun act :: "action \<Rightarrow> stream \<Rightarrow> stream option" where
  "act Open s = (if s_handler s = HStart then Some (s\<lparr>s_fc := open_flow (s_fc s), s_handler := HIdle\<rparr>) else None)"
| "act Dial s = (if w_pc (s_writer s) = WDial \<and> s_handler s \<noteq> HStart then Some (s\<lparr>s_writer := (s_writer s)\<lparr>w_pc := WIdle, w_reader := RIdle\<rparr>\<rparr>) else None)"
| "act (Offer ev) s = (if s_bcast s = None then
     Some (s\<lparr>s_bcast := Some ev, s_offered := s_offered s @ [ev], s_fc := (s_fc s)\<lparr>fc_pending := history_add ev (fc_pending (s_fc s))\<rparr>\<rparr>) else None)"
| "act Queue s = (case s_bcast s of Some ev \<Rightarrow> if length (fc_incomingEvents (s_fc s)) < streamFlowBufferSize
     then Some (s\<lparr>s_bcast := None, s_fc := (s_fc s)\<lparr>fc_incomingEvents := fc_incomingEvents (s_fc s) @ [ev]\<rparr>\<rparr>) else None | None \<Rightarrow> None)"
| "act Take s = (case fc_incomingEvents (s_fc s) of ev # es \<Rightarrow> if w_pc (s_writer s) = WIdle
     then Some (s\<lparr>s_fc := (s_fc s)\<lparr>fc_incomingEvents := es\<rparr>, s_writer := (s_writer s)\<lparr>w_pc := WTaken ev\<rparr>\<rparr>) else None | [] \<Rightarrow> None)"
| "act Look s = (case w_pc (s_writer s) of WTaken ev \<Rightarrow> (case fc_inFlight (s_fc s) of None \<Rightarrow> Some (s\<lparr>s_writer := (s_writer s)\<lparr>w_pc := WSlot ev None\<rparr>\<rparr>)
     | Some g \<Rightarrow> Some (s\<lparr>s_writer := (s_writer s)\<lparr>w_pc := WWait ev g\<rparr>\<rparr>)) | _ \<Rightarrow> None)"
| "act Acquire s = (case w_pc (s_writer s) of WWait ev g \<Rightarrow>
     if g < length (fc_sems (s_fc s)) \<and> int (fc_sems (s_fc s) ! g) < fc_publishConcurrency (s_fc s)
     then Some (s\<lparr>s_fc := acquire_slot g (s_fc s), s_writer := (s_writer s)\<lparr>w_pc := WSlot ev (Some g)\<rparr>\<rparr>) else None | _ \<Rightarrow> None)"
| "act Send s = (case w_pc (s_writer s) of WSlot ev g \<Rightarrow> Some (s\<lparr>s_fc := sent_event ev (s_fc s), s_writer := (track_unacked ev (s_writer s))\<lparr>w_pc := WSent ev g\<rparr>\<rparr>) | _ \<Rightarrow> None)"
| "act Mark s = (case w_pc (s_writer s) of WSent ev g \<Rightarrow> Some (s\<lparr>s_fc := mark_event ev (s_fc s), s_writer := (s_writer s)\<lparr>w_pc := WMarked ev g\<rparr>\<rparr>) | _ \<Rightarrow> None)"
| "act Dispatch s = (case w_pc (s_writer s) of WMarked ev g \<Rightarrow> Some (s\<lparr>s_fc := dispatch_event ev (s_fc s), s_writer := (s_writer s)\<lparr>w_pc := WIdle\<rparr>\<rparr>) | _ \<Rightarrow> None)"
| "act (Recv r) s = (if w_reader (s_writer s) = RIdle \<and> \<not> asks_login r (s_writer s) \<and> length (fc_incoming (s_fc s)) < streamFlowBufferSize
     then Some (s\<lparr>s_fc := push_incoming r (s_fc s), s_writer := untrack_acked r (s_writer s)\<rparr>) else None)"
| "act ReadFail s = (if w_reader (s_writer s) = RIdle then Some (s\<lparr>s_writer := (s_writer s)\<lparr>w_reader := RError False\<rparr>\<rparr>) else None)"
| "act Report s = (if s_handler s = HIdle \<and> w_reader (s_writer s) = RError False
     then Some (s\<lparr>s_writer := (s_writer s)\<lparr>w_reader := RDead\<rparr>, s_handler := HDrain\<rparr>) else None)"
| "act Drained s = (if s_handler s = HDrain then Some (s\<lparr>s_fc := pause_flow (reload (s_fc s)), s_handler := HDown, s_retries := Suc (s_retries s)\<rparr>) else None)"
| "act Ended s = (if w_pc (s_writer s) = WIdle \<and> w_reader (s_writer s) = RDead then Some (s\<lparr>s_writer := (s_writer s)\<lparr>w_pc := WDown\<rparr>\<rparr>) else None)"
| "act Again s = (if s_handler s = HDown \<and> s_retries s > 0
     then Some (s\<lparr>s_retries := s_retries s - 1, s_handler := HStart, s_writer := new_writer (w_signer (s_writer s)),
       s_old := (if returned (s_writer s) then s_old s else s_writer s # s_old s), s_overlap := s_overlap s \<or> \<not> returned (s_writer s)\<rparr>) else None)"
| "act Handle_closed s = (case fc_incoming (s_fc s) of ClosedResponse msg # rs \<Rightarrow> if s_handler s = HIdle
     then Some (s\<lparr>s_fc := pause_flow (reload ((s_fc s)\<lparr>fc_incoming := rs\<rparr>)), s_handler := HDown, s_retries := Suc (s_retries s)\<rparr>) else None | _ \<Rightarrow> None)"
| "act Handle_ok s = (case fc_incoming (s_fc s) of OkResponse i acc msg # rs \<Rightarrow> if s_handler s = HIdle
     then Some (s\<lparr>s_fc := (s_fc s)\<lparr>fc_incoming := rs\<rparr>, s_handler := HGot i acc msg (history_get i (fc_pending (s_fc s)))\<rparr>) else None | _ \<Rightarrow> None)"
| "act Delete_pending s = (case s_handler s of HGot i acc msg found \<Rightarrow> Some (s\<lparr>s_fc := forget i (s_fc s), s_handler := HDeleted i acc msg found\<rparr>) | _ \<Rightarrow> None)"
| "act Take_tracker s = (case s_handler s of HDeleted i acc msg found \<Rightarrow>
     if i \<in> fc_dispatched (s_fc s) then Some (s\<lparr>s_fc := (s_fc s)\<lparr>fc_dispatched := fc_dispatched (s_fc s) - {i}\<rparr>, s_handler := HRelease i acc msg found\<rparr>)
     else Some (s\<lparr>s_handler := HReport i acc msg found\<rparr>) | _ \<Rightarrow> None)"
| "act Release s = (case s_handler s of HRelease i acc msg found \<Rightarrow> (case fc_inFlight (s_fc s) of
     Some g \<Rightarrow> if fc_sems (s_fc s) ! g > 0 then Some (s\<lparr>s_fc := release_slot g (s_fc s), s_handler := HReport i acc msg found\<rparr>) else None
     | None \<Rightarrow> Some (s\<lparr>s_handler := HReport i acc msg found\<rparr>)) | _ \<Rightarrow> None)"
| "act (Count room) s = (case s_handler s of HReport i acc msg found \<Rightarrow> Some (s\<lparr>s_fc := report_ok room acc msg found (s_fc s), s_handler := HIdle\<rparr>) | _ \<Rightarrow> None)"

lemma sstep_last:
  assumes "wstep (s_fc s) (s_writer s) fc' w'" and "\<not> (w_pc (s_writer s) = WDial \<and> w_pc w' = WIdle \<and> s_handler s = HStart)"
  shows "sstep s (s\<lparr>s_fc := fc', s_writer := w'\<rparr>)"
proof -
  have "s\<lparr>s_writer := w', s_fc := fc', s_overlap := s_overlap s \<or> w_pc (s_writer s) = WDial \<and> w_pc w' = WIdle \<and> s_handler s = HStart\<rparr> = s\<lparr>s_fc := fc', s_writer := w'\<rparr>"
    using assms(2) by (cases s) auto
  then show ?thesis
    using write_step [OF assms(1) swap_last] by simp
qed

lemma sstep_handled: "hstep (s_fc s) h fc' h' False \<Longrightarrow> s_handler s = h \<Longrightarrow> sstep s (s\<lparr>s_fc := fc', s_handler := h'\<rparr>)"
  using handle [of s fc' h' False] by simp

lemma act_writer:
  "act Dial s = Some s' \<Longrightarrow> sstep s s'" "act Take s = Some s' \<Longrightarrow> sstep s s'" "act Look s = Some s' \<Longrightarrow> sstep s s'" "act Acquire s = Some s' \<Longrightarrow> sstep s s'"
  "act Send s = Some s' \<Longrightarrow> sstep s s'" "act Mark s = Some s' \<Longrightarrow> sstep s s'" "act Dispatch s = Some s' \<Longrightarrow> sstep s s'" "act (Recv r) s = Some s' \<Longrightarrow> sstep s s'"
  "act ReadFail s = Some s' \<Longrightarrow> sstep s s'" "act Ended s = Some s' \<Longrightarrow> sstep s s'"
  using sstep_last [OF dial_ok, of s] sstep_last [OF take_event, of s] sstep_last [OF unbounded, of s] sstep_last [OF bounded, of s] sstep_last [OF acquire, of s]
    sstep_last [OF send_ok, of s] sstep_last [OF mark, of s] sstep_last [OF dispatch, of s] sstep_last [OF receive, of s] sstep_last [OF read_error, of s] sstep_last [OF idle_dead, of s]
  by (auto split: if_splits list.splits option.splits writer_pc.splits)

lemma act_other:
  "act Open s = Some s' \<Longrightarrow> sstep s s'" "act (Offer ev) s = Some s' \<Longrightarrow> sstep s s'" "act Queue s = Some s' \<Longrightarrow> sstep s s'" "act Again s = Some s' \<Longrightarrow> sstep s s'"
  "act Handle_ok s = Some s' \<Longrightarrow> sstep s s'" "act Delete_pending s = Some s' \<Longrightarrow> sstep s s'" "act Take_tracker s = Some s' \<Longrightarrow> sstep s s'"
  "act Release s = Some s' \<Longrightarrow> sstep s s'" "act (Count room) s = Some s' \<Longrightarrow> sstep s s'"
  using sstep_handled [OF h_open [of "s_fc s"]] offer [of s] offer_sent [of s] retry [of s "s_retries s - 1"]
    sstep_handled [OF h_ok [of "s_fc s"]] sstep_handled [OF h_delete [of "s_fc s"]] sstep_handled [OF h_taken [of _ "s_fc s"]]
    sstep_handled [OF h_not_taken [of _ "s_fc s"]] sstep_handled [OF h_release [of "s_fc s"]] sstep_handled [OF h_release_nil [of "s_fc s"]]
    sstep_handled [OF h_report [of "s_fc s"]]
  by (auto split: if_splits list.splits option.splits response.splits handler_pc.splits)

lemma act_errors: "act Report s = Some s' \<Longrightarrow> sstep s s'" "act Drained s = Some s' \<Longrightarrow> sstep s s'" "act Handle_closed s = Some s' \<Longrightarrow> sstep s s'"
  using h_closed [of "s_fc s"] handle [of s _ HDown True] fatal_error [OF _ report_reader swap_last, of s] handle [of s "pause_flow (reload (s_fc s))" HDown True] h_drained [of "s_fc s"]
  by (auto split: if_splits list.splits response.splits)

lemma act_sstep: "act a s = Some s' \<Longrightarrow> sstep s s'"
  by (cases a; hypsubst; erule act_writer act_other act_errors)

fun run :: "action list \<Rightarrow> stream \<Rightarrow> stream option" where
  "run [] s = Some s"
| "run (a # as) s = (case act a s of Some s' \<Rightarrow> run as s' | None \<Rightarrow> None)"

lemma run_reach: "run as s = Some s' \<Longrightarrow> sreach recovery n signer s \<Longrightarrow> sreach recovery n signer s'"
  by (induction "as" s rule: run.induct) (auto split: option.splits intro: sreach_step act_sstep)

section \<open>Slots that are not given back\<close>

definition ex_ev :: "string \<Rightarrow> event" where
  "ex_ev i = \<lparr>ev_ID = i, ev_PubKey = [], ev_CreatedAt = 0, ev_Kind = 1, ev_Tags = [], ev_Content = [], ev_Sig = []\<rparr>"

abbreviation publish_actions :: "event \<Rightarrow> action list" where "publish_actions ev \<equiv> [Offer ev, Queue, Take, Look, Acquire, Send]"
abbreviation handled :: "action list" where "handled \<equiv> [Handle_ok, Delete_pending, Take_tracker]"

lemmas run_defs = start_stream_def NewFlowContext_def new_writer_def newStreamEventHistory_def history_add_def history_delete_def history_get_def markDispatched_def newGeneration_def
  flow_defs ex_ev_def streamFlowBufferSize_def maxEventHistorySize_def asks_login_def untrack_acked_def track_unacked_def is_dead_def isDuplicatedEvent_def returned_def worker_Retry_def workerFailureThreshold_def

lemma early_ack_run:
  "\<exists>s. run ([Open, Dial] @ publish_actions (ex_ev ''a'') @ [Recv (OkResponse ''a'' True [])] @ handled @ [Count True, Mark, Dispatch]
      @ [Offer (ex_ev ''b''), Queue, Take, Look]) (start_stream True 1 False) = Some s
    \<and> w_pc (s_writer s) = WWait (ex_ev ''b'') 0 \<and> s_handler s = HIdle \<and> fc_sems (s_fc s) = [1] \<and> fc_publishConcurrency (s_fc s) = 1 \<and> fc_incoming (s_fc s) = []
    \<and> fc_sent (s_fc s) = [ex_ev ''a''] \<and> fc_Events (s_fc s) = 1 \<and> \<not> s_overlap s"
  by (simp add: run_defs)

text \<open>
  With one slot: the event is sent, its acknowledgement is handled before \<open>Write\<close> has given the id to the tracker, and the slot stays taken; the next event waits for
  it, though everything that was sent is acknowledged, until the connection breaks.
\<close>

lemma slot_lost_to_early_ack:
  "\<exists>s. sreach True 1 False s \<and> w_pc (s_writer s) = WWait (ex_ev ''b'') 0 \<and> s_handler s = HIdle \<and> fc_sems (s_fc s) = [1] \<and> fc_publishConcurrency (s_fc s) = 1
    \<and> fc_incoming (s_fc s) = [] \<and> fc_sent (s_fc s) = [ex_ev ''a''] \<and> fc_Events (s_fc s) = 1 \<and> \<not> s_overlap s"
  using early_ack_run run_reach [OF _ sreach_start] by blast

text \<open>
  With two slots: the same event, which two sources carry, is sent twice before it is acknowledged; the tracker has its id once, so that the second acknowledgement gives
  no slot back.
\<close>

lemma repeat_run:
  "\<exists>s. run ([Open, Dial] @ publish_actions (ex_ev ''a'') @ [Mark, Dispatch] @ publish_actions (ex_ev ''a'') @ [Mark, Dispatch, Recv (OkResponse ''a'' True []), Recv (OkResponse ''a'' True ''duplicate: '')]
      @ handled @ [Release, Count True] @ handled @ [Count True]) (start_stream True 2 False) = Some s
    \<and> w_pc (s_writer s) = WIdle \<and> s_handler s = HIdle \<and> fc_sems (s_fc s) = [1] \<and> fc_dispatched (s_fc s) = {} \<and> fc_incoming (s_fc s) = []
    \<and> fc_sent (s_fc s) = [ex_ev ''a'', ex_ev ''a''] \<and> fc_Events (s_fc s) = 1 \<and> fc_Duplicates (s_fc s) = 1 \<and> \<not> s_overlap s \<and> fc_inFlight (s_fc s) = Some 0"
  by (simp add: run_defs to_lower_def to_lower_char_def)

lemma slot_lost_to_repeat:
  "\<exists>s. sreach True 2 False s \<and> w_pc (s_writer s) = WIdle \<and> s_handler s = HIdle \<and> fc_sems (s_fc s) = [1] \<and> fc_dispatched (s_fc s) = {} \<and> fc_incoming (s_fc s) = []
    \<and> fc_sent (s_fc s) = [ex_ev ''a'', ex_ev ''a''] \<and> fc_Events (s_fc s) = 1 \<and> fc_Duplicates (s_fc s) = 1 \<and> \<not> s_overlap s \<and> fc_inFlight (s_fc s) = Some 0"
  using repeat_run run_reach [OF _ sreach_start] by blast

section \<open>An event that was sent and not acknowledged\<close>

text \<open>The connection breaks after the event was sent; the next cycle forgets it, and it is neither with the recovery nor counted as lost.\<close>

lemma unacked_run:
  "\<exists>s. run ([Open, Dial] @ publish_actions (ex_ev ''a'') @ [Mark, Dispatch, ReadFail, Report, Ended, Drained, Again, Open, Dial]) (start_stream True 1 False) = Some s
    \<and> w_pc (s_writer s) = WIdle \<and> s_handler s = HIdle \<and> fc_sent (s_fc s) = [ex_ev ''a''] \<and> history_get ''a'' (fc_pending (s_fc s)) = None \<and> fc_incomingEvents (s_fc s) = []
    \<and> fc_saved (s_fc s) = [] \<and> fc_Lost (s_fc s) = 0 \<and> fc_Failures (s_fc s) = 0 \<and> fc_Events (s_fc s) = 0 \<and> \<not> s_overlap s"
  by (simp add: run_defs)

lemma unacked_forgotten:
  "\<exists>s. sreach True 1 False s \<and> w_pc (s_writer s) = WIdle \<and> s_handler s = HIdle \<and> fc_sent (s_fc s) = [ex_ev ''a''] \<and> history_get ''a'' (fc_pending (s_fc s)) = None
    \<and> fc_incomingEvents (s_fc s) = [] \<and> fc_saved (s_fc s) = [] \<and> fc_Lost (s_fc s) = 0 \<and> fc_Failures (s_fc s) = 0 \<and> fc_Events (s_fc s) = 0 \<and> \<not> s_overlap s"
  using unacked_run run_reach [OF _ sreach_start] by blast

section \<open>A run of \<open>Write\<close> that does not end\<close>

text \<open>
  A \<open>CLOSED\<close> ends \<open>handleFlow\<close> and schedules a retry, but the run of \<open>Write\<close> goes on: when the retry has opened the next cycle, two runs of \<open>Write\<close> take events
  from the same channel.
\<close>

lemma closed_run:
  "\<exists>s. run ([Open, Dial] @ publish_actions (ex_ev ''a'') @ [Mark, Dispatch, Recv (ClosedResponse []), Handle_closed, Again, Open, Dial]) (start_stream True 1 False) = Some s
    \<and> w_pc (s_writer s) = WIdle \<and> (\<exists>w. s_old s = [w] \<and> w_pc w = WIdle \<and> w_reader w = RIdle) \<and> s_handler s = HIdle"
  by (simp add: run_defs)

lemma closed_leaves_two_writers:
  "\<exists>s. sreach True 1 False s \<and> w_pc (s_writer s) = WIdle \<and> (\<exists>w. s_old s = [w] \<and> w_pc w = WIdle \<and> w_reader w = RIdle) \<and> s_handler s = HIdle"
  using closed_run run_reach [OF _ sreach_start] by blast

section \<open>Publishing to a relay\<close>

text \<open>
  C28. No event vanishes before it is sent: under every interleaving of the three goroutines, of disconnections and of retries, the events handed to a destination are,
  each as often as it was handed over, those between hands, those in the channel, those that were sent, those that were given up, and those that a shutdown dropped; of what was given up or
  refused, each is with the recovery or counted as lost; and at most 24000 wait for an acknowledgement.
\<close>

theorem stream_custody:
  assumes "sreach recovery n signer s"
  shows "mset (s_offered s) = (case s_bcast s of Some ev \<Rightarrow> {#ev#} | None \<Rightarrow> {#}) + sum_list (map in_hand (s_writer s # s_old s))
      + mset (fc_incomingEvents (s_fc s)) + mset (fc_sent (s_fc s)) + mset (fc_direct (s_fc s)) + mset (fc_dropped (s_fc s))
    \<and> length (fc_saved (s_fc s)) + fc_Lost (s_fc s) = length (fc_direct (s_fc s)) + fc_rejected (s_fc s) \<and> fc_rejected (s_fc s) \<le> fc_Failures (s_fc s)
    \<and> history_size (fc_pending (s_fc s)) \<le> 24000"
proof -
  have inv: "custody s" "saved_account (s_fc s)" and h: "history_ok (fc_pending (s_fc s))"
    using sreach_inv [OF assms] by blast+
  have "card (h_data (fc_pending (s_fc s))) \<le> length (h_order (fc_pending (s_fc s)))"
    using h unfolding history_ok_def by (metis card_image_le card_length finite_set le_trans)
  then have "history_size (fc_pending (s_fc s)) \<le> 24000"
    using h unfolding history_ok_def history_size_def maxEventHistorySize_def by linarith
  then show ?thesis
    using inv by (simp add: custody_def in_hands_def flow_account_def saved_account_def ac_simps)
qed

theorem stream_custody_witness:
  "\<exists>s. sreach True 1 False s \<and> fc_sent (s_fc s) = [ex_ev ''a''] \<and> w_pc (s_writer s) = WWait (ex_ev ''b'') 0
    \<and> length (fc_saved (s_fc s)) + fc_Lost (s_fc s) = length (fc_direct (s_fc s)) + fc_rejected (s_fc s)
    \<and> {#ex_ev ''a'', ex_ev ''b''#} \<subseteq># mset (s_offered s)"
proof -
  obtain s where s: "sreach True 1 False s" "fc_sent (s_fc s) = [ex_ev ''a'']" "w_pc (s_writer s) = WWait (ex_ev ''b'') 0"
    using slot_lost_to_early_ack by blast
  have m: "mset (s_offered s) = (case s_bcast s of Some ev \<Rightarrow> {#ev#} | None \<Rightarrow> {#}) + sum_list (map in_hand (s_writer s # s_old s))
      + mset (fc_incomingEvents (s_fc s)) + mset (fc_sent (s_fc s)) + mset (fc_direct (s_fc s)) + mset (fc_dropped (s_fc s))"
    and a: "length (fc_saved (s_fc s)) + fc_Lost (s_fc s) = length (fc_direct (s_fc s)) + fc_rejected (s_fc s)"
    using stream_custody [OF s(1)] by blast+
  have "in_hand (s_writer s) = {#ex_ev ''b''#}"
    by (simp add: in_hand_def s(3))
  then have "mset (s_offered s) = {#ex_ev ''a'', ex_ev ''b''#} + ((case s_bcast s of Some ev \<Rightarrow> {#ev#} | None \<Rightarrow> {#}) + sum_list (map in_hand (s_old s))
      + mset (fc_incomingEvents (s_fc s)) + mset (fc_direct (s_fc s)) + mset (fc_dropped (s_fc s)))"
    using m s(2) by (simp add: ac_simps)
  then show ?thesis
    using s a by (metis mset_subset_eq_add_left)
qed

text \<open>
  C29. The slots of a relay bound what it has not acknowledged: while no run of Write reaches into a cycle that is not its own, a cycle has sent at most as many events
  more than it gave slots back as the publish concurrency allows; handleFlow gives a slot back only when one is taken, so that it never waits there; and the taken slots are those of
  the ids in the tracker, of the events that Write is about to put there and of the id that handleFlow took from there, and one for every time an id was put there that was
  there already.
\<close>

theorem stream_slots:
  assumes "sreach recovery n signer s" and "\<not> s_overlap s" and "fc_inFlight (s_fc s) = Some g"
  shows "int (fc_sems (s_fc s) ! g) \<le> n \<and> int (fc_cycleSent (s_fc s)) \<le> n + int (fc_cycleReleased (s_fc s))
    \<and> (gives_back (s_handler s) \<longrightarrow> 0 < fc_sems (s_fc s) ! g)
    \<and> (s_handler s \<noteq> HStart \<and> w_pc (s_writer s) \<notin> {WFail, WDown} \<longrightarrow>
        fc_sems (s_fc s) ! g = card (fc_dispatched (s_fc s)) + fc_cycleAgain (s_fc s) + of_bool (has_slot (s_writer s)) + of_bool (gives_back (s_handler s)))"
proof -
  have n: "fc_publishConcurrency (s_fc s) = n"
    using assms(1) by (rule sreach_config)
  have "slot_inv (s_fc s) (s_writer s) (s_handler s)"
    using sreach_inv [OF assms(1)] assms(2) by (simp add: slots_ok_def)
  then have i: "int (slots (s_fc s)) \<le> n" "tracked (s_fc s) (s_writer s) (s_handler s) \<le> slots (s_fc s)"
    "s_handler s \<noteq> HStart \<and> w_pc (s_writer s) \<notin> {WFail, WDown} \<longrightarrow> tracked (s_fc s) (s_writer s) (s_handler s) = slots (s_fc s)"
    "fc_cycleSent (s_fc s) + of_bool (unsent_slot (s_writer s)) \<le> slots (s_fc s) + fc_cycleReleased (s_fc s)"
    unfolding slot_inv_def n using assms(3) by blast+
  have g: "slots (s_fc s) = fc_sems (s_fc s) ! g"
    by (simp add: slots_def assms(3))
  show ?thesis
    using i unfolding g tracked_def by auto
qed

theorem stream_slots_witness:
  "\<exists>s. sreach True 2 False s \<and> fc_sent (s_fc s) = [ex_ev ''a'', ex_ev ''a''] \<and> fc_inFlight (s_fc s) = Some 0 \<and> fc_sems (s_fc s) ! 0 = fc_cycleAgain (s_fc s)
    \<and> int (fc_cycleSent (s_fc s)) \<le> 2 + int (fc_cycleReleased (s_fc s))"
proof -
  obtain s where s: "sreach True 2 False s" "w_pc (s_writer s) = WIdle" "s_handler s = HIdle" "fc_dispatched (s_fc s) = {}" "fc_sent (s_fc s) = [ex_ev ''a'', ex_ev ''a'']"
    "\<not> s_overlap s" "fc_inFlight (s_fc s) = Some 0"
    using slot_lost_to_repeat by blast
  then show ?thesis
    using stream_slots [OF s(1) s(6) s(7)] by (auto simp: has_slot_def gives_back_def)
qed

section \<open>Writing to a local store\<close>





section \<open>Recovering\<close>






end
