(* ===== verification/Client_Vault.thy ===== *)
theory Client_Vault
  imports Go_Text Nostr
begin

text \<open>
  The vault of saved identities and the preferences beside it (\<open>client/vault/vault.go\<close>, \<open>client/vault/identity.go\<close>, \<open>client/prefs/prefs.go\<close>, \<open>client/prefs/relayurl.go\<close>). The vault has a key pair
  of its own, whose private key \<open>prefs.yaml\<close> holds encrypted under a password; \<open>vault.yaml\<close> holds each identity's private key encrypted to the vault's key. The keys, the ciphers and the bech32
  texts are those of packages outside the repository.
\<close>

section \<open>What the vault relies on\<close>

text \<open>
  \<^item> \<open>ve_GetPublicKey\<close> (utils), \<open>ve_EncodePublicKey\<close>, \<open>ve_DecodePublicKey\<close>, \<open>ve_NormalizeToHex\<close>, \<open>ve_EncodePrivateKey\<close> (nip19);
  \<^item> \<open>ve_Encrypt49\<close>, \<open>ve_Decrypt49\<close> (nip49, under a password), \<open>ve_Encrypt44\<close>, \<open>ve_Decrypt44\<close> (nip44, under a conversation key); the last argument of an encryption is the randomness it draws;
  \<^item> \<open>ve_DecodeHex\<close>: whether \<open>hex.DecodeString\<close> succeeds; \<open>ve_ParsePubKey\<close>: whether \<open>schnorr.ParsePubKey\<close> does; \<open>ve_ConversationKey\<close>: \<open>nip44.GenerateConversationKey\<close>;
  \<^item> \<open>ve_ValidKey\<close>: whether 32 bytes of hex are a private key in range;
  \<^item> \<open>ve_Fold\<close>: Unicode's simple case folding, whose images \<open>strings.EqualFold\<close> compares.
\<close>

record vault_env =
  ve_GetPublicKey :: "string \<Rightarrow> goerr + string"
  ve_EncodePublicKey :: "string \<Rightarrow> goerr + string"
  ve_DecodePublicKey :: "string \<Rightarrow> goerr + string"
  ve_NormalizeToHex :: "string \<Rightarrow> string"
  ve_EncodePrivateKey :: "string \<Rightarrow> goerr + string"
  ve_Encrypt49 :: "string \<Rightarrow> string \<Rightarrow> nat \<Rightarrow> goerr + string"
  ve_Decrypt49 :: "string \<Rightarrow> string \<Rightarrow> goerr + string"
  ve_Encrypt44 :: "string \<Rightarrow> string \<Rightarrow> nat \<Rightarrow> goerr + string"
  ve_Decrypt44 :: "string \<Rightarrow> string \<Rightarrow> goerr + string"
  ve_DecodeHex :: "string \<Rightarrow> bool"
  ve_ParsePubKey :: "string \<Rightarrow> bool"
  ve_ConversationKey :: "string \<Rightarrow> string \<Rightarrow> goerr + string"
  ve_ValidKey :: "string \<Rightarrow> bool"
  ve_Fold :: "string \<Rightarrow> string"

text \<open>What the two ciphers promise: what was encrypted is what is decrypted with the same key.\<close>

definition ciphers_invert :: "vault_env \<Rightarrow> bool" where
  "ciphers_invert E \<longleftrightarrow> (\<forall>p k r c. ve_Encrypt44 E p k r = Inr c \<longrightarrow> ve_Decrypt44 E c k = Inr p) \<and> (\<forall>p k r c. ve_Encrypt49 E p k r = Inr c \<longrightarrow> ve_Decrypt49 E c k = Inr p)"

section \<open>The files\<close>

record VaultIdentityRef =
  vi_Npub :: string
  vi_EncryptedNsec :: string

record Prefs =
  p_Relays :: "string list"
  p_VaultIdentity :: "VaultIdentityRef option"
  p_BlossomServers :: "string list"
  p_RelayContexts :: "string \<rightharpoonup> string"
  p_CurrentRelayContext :: string

record Entry =
  e_Label :: string
  e_Npub :: string
  e_EncryptedNsec :: string
  e_CreatedAt :: string

text \<open>A file is missing, cannot be read or parsed, or holds its value.\<close>

datatype 'a file_content = Missing | Unreadable goerr | Holds 'a

record vault_disk =
  vd_prefs :: "Prefs file_content"
  vd_vault :: "Entry list file_content"

definition no_prefs :: Prefs where
  "no_prefs = \<lparr>p_Relays = [], p_VaultIdentity = None, p_BlossomServers = [], p_RelayContexts = Map.empty, p_CurrentRelayContext = []\<rparr>"

definition Load_prefs :: "vault_disk \<Rightarrow> goerr + Prefs" where
  "Load_prefs d = (case vd_prefs d of Missing \<Rightarrow> Inr no_prefs | Unreadable e \<Rightarrow> Inl e | Holds p \<Rightarrow> Inr p)"

definition LoadEntries :: "vault_disk \<Rightarrow> goerr + Entry list" where
  "LoadEntries d = (case vd_vault d of Missing \<Rightarrow> Inr [] | Unreadable e \<Rightarrow> Inl e | Holds es \<Rightarrow> Inr es)"

text \<open>How writing a file ends: it is written, it fails before the file is touched, or it fails with the file truncated.\<close>

datatype save_result = Saved | NotSaved goerr | Torn goerr

definition Save_prefs :: "save_result \<Rightarrow> Prefs \<Rightarrow> vault_disk \<Rightarrow> (goerr + unit) \<times> vault_disk" where
  "Save_prefs w p d = (case w of Saved \<Rightarrow> (Inr (), d\<lparr>vd_prefs := Holds p\<rparr>) | NotSaved e \<Rightarrow> (Inl e, d) | Torn e \<Rightarrow> (Inl e, d\<lparr>vd_prefs := Unreadable e\<rparr>))"

definition SaveEntries :: "save_result \<Rightarrow> Entry list \<Rightarrow> vault_disk \<Rightarrow> (goerr + unit) \<times> vault_disk" where
  "SaveEntries w es d = (case w of Saved \<Rightarrow> (Inr (), d\<lparr>vd_vault := Holds es\<rparr>) | NotSaved e \<Rightarrow> (Inl e, d) | Torn e \<Rightarrow> (Inl e, d\<lparr>vd_vault := Unreadable e\<rparr>))"

section \<open>The identity of the vault\<close>

record Identity =
  id_PrivKeyHex :: string
  id_PubKeyHex :: string
  id_Nsec :: string
  id_Npub :: string

definition IdentityFromPrivKey :: "vault_env \<Rightarrow> string \<Rightarrow> goerr + Identity" where
  "IdentityFromPrivKey E priv =
     (if \<not> ve_DecodeHex E priv \<or> length priv \<noteq> 64 then Inl (Err ''invalid private key: want 32 bytes of hex'' [])
      else if \<not> ve_ValidKey E priv then Inl (Err ''invalid private key: out of range'' [])
      else (case ve_GetPublicKey E priv of
          Inl e \<Rightarrow> Inl (Wrap ''failed to derive public key: %w'' [] e)
        | Inr pub \<Rightarrow> try_bind (ve_EncodePrivateKey E priv) (\<lambda>nsec. try_bind (ve_EncodePublicKey E pub) (\<lambda>npub.
            Inr \<lparr>id_PrivKeyHex = priv, id_PubKeyHex = pub, id_Nsec = nsec, id_Npub = npub\<rparr>))))"

text \<open>\<open>fresh\<close> is the hex of the private key that \<open>btcec.NewPrivateKey\<close> draws, or its error.\<close>

definition GenerateIdentity :: "vault_env \<Rightarrow> goerr + string \<Rightarrow> goerr + Identity" where
  "GenerateIdentity E fresh = (case fresh of Inl e \<Rightarrow> Inl (Wrap ''failed to generate key: %w'' [] e) | Inr priv \<Rightarrow> IdentityFromPrivKey E priv)"

definition Exists_vault :: "vault_disk \<Rightarrow> goerr + bool" where
  "Exists_vault d = try_bind (Load_prefs d) (\<lambda>p. Inr (p_VaultIdentity p \<noteq> None))"

definition ErrVaultKeyMissing :: goerr where "ErrVaultKeyMissing = Err ''the vault key is missing from prefs.yaml'' []"

definition has_entries :: "vault_disk \<Rightarrow> bool" where
  "has_entries d = (case LoadEntries d of Inr es \<Rightarrow> es \<noteq> [] | Inl e \<Rightarrow> False)"

definition CreateIdentity :: "vault_env \<Rightarrow> string \<Rightarrow> goerr + string \<Rightarrow> nat \<Rightarrow> save_result \<Rightarrow> vault_disk \<Rightarrow> (goerr + string \<times> string) \<times> vault_disk" where
  "CreateIdentity E password fresh rnd w d =
     (case Load_prefs d of
        Inl e \<Rightarrow> (Inl e, d)
      | Inr p \<Rightarrow>
          if p_VaultIdentity p \<noteq> None then (Inl (Err ''vault identity already exists'' []), d)
          else if has_entries d then (Inl (Wrap ''%w (%d saved, in %s)'' [] ErrVaultKeyMissing), d)
          else (case GenerateIdentity E fresh of
              Inl e \<Rightarrow> (Inl (Wrap ''failed to generate vault identity: %w'' [] e), d)
            | Inr i \<Rightarrow> (case ve_Encrypt49 E (id_PrivKeyHex i) password rnd of
                  Inl e \<Rightarrow> (Inl (Wrap ''failed to encrypt vault identity key: %w'' [] e), d)
                | Inr c \<Rightarrow> (case Save_prefs w (p\<lparr>p_VaultIdentity := Some \<lparr>vi_Npub = id_Npub i, vi_EncryptedNsec = c\<rparr>\<rparr>) d of
                      (Inl e, d') \<Rightarrow> (Inl e, d')
                    | (Inr _, d') \<Rightarrow> (Inr (id_Npub i, id_PrivKeyHex i), d')))))"

definition npub_of :: "vault_env \<Rightarrow> string \<Rightarrow> goerr + string" where
  "npub_of E priv = try_bind (ve_GetPublicKey E priv) (ve_EncodePublicKey E)"

definition Unlock :: "vault_env \<Rightarrow> string \<Rightarrow> vault_disk \<Rightarrow> goerr + string" where
  "Unlock E password d = try_bind (Load_prefs d) (\<lambda>p.
     (case p_VaultIdentity p of
        None \<Rightarrow> Inl (if has_entries d then Wrap ''%w (%d saved, in %s)'' [] ErrVaultKeyMissing else Err ''no vault identity yet; save an identity with `ncli id` to create one'' [])
      | Some v \<Rightarrow> try_bind (ve_Decrypt49 E (vi_EncryptedNsec v) password) (\<lambda>priv.
          (case ve_GetPublicKey E priv of
             Inl e \<Rightarrow> Inl (Wrap ''vault identity corrupted: %w'' [] e)
           | Inr pub \<Rightarrow> try_bind (ve_EncodePublicKey E pub) (\<lambda>npub.
               if npub \<noteq> vi_Npub v then Inl (Err ''vault identity corrupted: decrypted key does not match stored npub'' []) else Inr priv)))))"

section \<open>Entries\<close>

definition deriveEntryConversationKey :: "vault_env \<Rightarrow> string \<Rightarrow> string \<Rightarrow> goerr + string" where
  "deriveEntryConversationKey E vaultPriv npub =
     (if \<not> ve_DecodeHex E vaultPriv then Inl (Err ''invalid vault private key: %w'' [])
      else (case ve_DecodePublicKey E npub of
          Inl e \<Rightarrow> Inl (Wrap ''invalid entry npub: %w'' [] e)
        | Inr pub \<Rightarrow>
            if \<not> ve_DecodeHex E pub then Inl (Err ''invalid entry pubkey: %w'' [])
            else if \<not> ve_ParsePubKey E pub then Inl (Err ''unable to parse entry pubkey: %w'' [])
            else ve_ConversationKey E vaultPriv pub))"

definition ErrLabelExists :: goerr where "ErrLabelExists = Err ''vault label already exists'' []"
definition ErrKeyExists :: goerr where "ErrKeyExists = Err ''key already saved in vault'' []"

definition entry_label :: "string \<Rightarrow> string \<Rightarrow> string" where
  "entry_label label npub = (let l = trim_space label in if l = [] then npub else l)"

text \<open>The loop over the saved entries stops at the first that has the key or the label.\<close>

fun check_new :: "vault_env \<Rightarrow> string \<Rightarrow> string \<Rightarrow> Entry list \<Rightarrow> goerr option" where
  "check_new E npub label [] = None"
| "check_new E npub label (e # es) =
     (if e_Npub e = npub then Some (Wrap ''key already saved as %q: %w'' [e_Label e] ErrKeyExists)
      else if ve_Fold E (e_Label e) = ve_Fold E label then Some (Wrap ''label %q already exists in vault: %w'' [label] ErrLabelExists)
      else check_new E npub label es)"

definition AddEntry :: "vault_env \<Rightarrow> string \<Rightarrow> string \<Rightarrow> string \<Rightarrow> string \<Rightarrow> nat \<Rightarrow> save_result \<Rightarrow> vault_disk \<Rightarrow> (goerr + Entry) \<times> vault_disk" where
  "AddEntry E vaultPriv label priv now rnd w d =
     (case ve_GetPublicKey E priv of
        Inl e \<Rightarrow> (Inl (Wrap ''invalid identity private key: %w'' [] e), d)
      | Inr pub \<Rightarrow> (case ve_EncodePublicKey E pub of
          Inl e \<Rightarrow> (Inl e, d)
        | Inr npub \<Rightarrow>
            let l = entry_label label npub in
            (case LoadEntries d of
               Inl e \<Rightarrow> (Inl e, d)
             | Inr es \<Rightarrow> (case check_new E npub l es of
                 Some e \<Rightarrow> (Inl e, d)
               | None \<Rightarrow> (case deriveEntryConversationKey E vaultPriv npub of
                   Inl e \<Rightarrow> (Inl e, d)
                 | Inr k \<Rightarrow> (case ve_Encrypt44 E priv k rnd of
                     Inl e \<Rightarrow> (Inl (Wrap ''failed to encrypt identity key: %w'' [] e), d)
                   | Inr c \<Rightarrow>
                       let entry = \<lparr>e_Label = l, e_Npub = npub, e_EncryptedNsec = c, e_CreatedAt = now\<rparr> in
                       (case SaveEntries w (es @ [entry]) d of (Inl e, d') \<Rightarrow> (Inl e, d') | (Inr _, d') \<Rightarrow> (Inr entry, d'))))))))"

text \<open>The loop of \<open>RelabelEntry\<close>: the last entry that has the key, unless another has the label.\<close>

fun relabel_index :: "vault_env \<Rightarrow> string \<Rightarrow> string \<Rightarrow> nat \<Rightarrow> nat option \<Rightarrow> Entry list \<Rightarrow> goerr + nat option" where
  "relabel_index E npub label i found [] = Inr found"
| "relabel_index E npub label i found (e # es) =
     (if e_Npub e = npub then relabel_index E npub label (Suc i) (Some i) es
      else if ve_Fold E (e_Label e) = ve_Fold E label then Inl (Wrap ''label %q already exists in vault: %w'' [label] ErrLabelExists)
      else relabel_index E npub label (Suc i) found es)"

definition RelabelEntry :: "vault_env \<Rightarrow> string \<Rightarrow> string \<Rightarrow> save_result \<Rightarrow> vault_disk \<Rightarrow> (goerr + Entry) \<times> vault_disk" where
  "RelabelEntry E npub label w d =
     (let l = entry_label label npub in
      (case LoadEntries d of
         Inl e \<Rightarrow> (Inl e, d)
       | Inr es \<Rightarrow> (case relabel_index E npub l 0 None es of
           Inl e \<Rightarrow> (Inl e, d)
         | Inr None \<Rightarrow> (Inl (Err ''%s not saved in vault'' [npub]), d)
         | Inr (Some i) \<Rightarrow>
             let e' = (es ! i)\<lparr>e_Label := l\<rparr> in
             (case SaveEntries w (es[i := e']) d of (Inl e, d') \<Rightarrow> (Inl e, d') | (Inr _, d') \<Rightarrow> (Inr e', d')))))"

definition RemoveEntry :: "string \<Rightarrow> save_result \<Rightarrow> vault_disk \<Rightarrow> (goerr + Entry) \<times> vault_disk" where
  "RemoveEntry npub w d =
     (case LoadEntries d of
        Inl e \<Rightarrow> (Inl e, d)
      | Inr es \<Rightarrow> (case index_of (\<lambda>e. e_Npub e = npub) es of
          None \<Rightarrow> (Inl (Err ''%s not saved in vault'' [npub]), d)
        | Some i \<Rightarrow> (case SaveEntries w (remove_at i es) d of (Inl e, d') \<Rightarrow> (Inl e, d') | (Inr _, d') \<Rightarrow> (Inr (es ! i), d'))))"

definition DecryptEntry :: "vault_env \<Rightarrow> string \<Rightarrow> Entry \<Rightarrow> goerr + string" where
  "DecryptEntry E vaultPriv e = try_bind (deriveEntryConversationKey E vaultPriv (e_Npub e)) (\<lambda>k. ve_Decrypt44 E (e_EncryptedNsec e) k)"

definition FindEntry :: "vault_env \<Rightarrow> string \<Rightarrow> vault_disk \<Rightarrow> goerr + Entry option" where
  "FindEntry E labelOrNpub d =
     (let t = trim_space labelOrNpub in
      if t = [] then Inr None
      else try_bind (LoadEntries d) (\<lambda>es.
        (case find (\<lambda>e. ve_Fold E (e_Label e) = ve_Fold E t) es of
           Some e \<Rightarrow> Inr (Some e)
         | None \<Rightarrow>
             let hex = to_lower (ve_NormalizeToHex E t) in
             Inr (find (\<lambda>e. case ve_DecodePublicKey E (e_Npub e) of Inl _ \<Rightarrow> False | Inr h \<Rightarrow> ve_Fold E h = ve_Fold E hex) es))))"

end
