(* ===== verification/Client_Prefs.thy ===== *)
theory Client_Prefs
  imports Client_Vault
begin

text \<open>
  The preferences (\<open>client/prefs/prefs.go\<close>, \<open>client/prefs/relayurl.go\<close>): default relays, blossom servers and named relay contexts. What Go's \<open>net/url\<close>, \<open>net\<close>, \<open>path/filepath\<close> and the file
  system answer about a text is given by \<open>prefs_env\<close>.
\<close>

text \<open>
  \<open>pe_Parse\<close> is the scheme and host of \<open>url.Parse\<close>, \<open>pe_ParseRequestURI\<close> the scheme of \<open>url.ParseRequestURI\<close>, \<open>pe_SplitHost\<close> the host of \<open>net.SplitHostPort\<close>, \<open>pe_IsIP\<close> whether
  \<open>net.ParseIP\<close> parses; \<open>pe_Abs\<close> is \<open>filepath.Abs\<close>, and \<open>pe_Stat\<close> whether a path exists and is a directory.
\<close>

record prefs_env =
  pe_Parse :: "string \<Rightarrow> (string \<times> string) option"
  pe_ParseRequestURI :: "string \<Rightarrow> string option"
  pe_SplitHost :: "string \<Rightarrow> string option"
  pe_IsIP :: "string \<Rightarrow> bool"
  pe_Abs :: "string \<Rightarrow> string option"
  pe_Stat :: "string \<Rightarrow> bool option"

definition looksLikeRelayHost :: "prefs_env \<Rightarrow> string \<Rightarrow> bool" where
  "looksLikeRelayHost N raw \<longleftrightarrow> raw \<noteq> [] \<and> CHR ''/'' \<notin> set raw \<and> CHR 0x5C \<notin> set raw
     \<and> (let host = (case pe_SplitHost N raw of Some h \<Rightarrow> h | None \<Rightarrow> raw) in host = ''localhost'' \<or> contains host ''.'' \<or> pe_IsIP N host)"

text \<open>The URL to try first, as its text, and the one to fall back on.\<close>

definition ResolveRelayURL :: "prefs_env \<Rightarrow> string \<Rightarrow> goerr + string \<times> string option" where
  "ResolveRelayURL N raw =
     (if \<not> contains raw ''://'' then
        (if \<not> looksLikeRelayHost N raw then Inl (Err ''invalid relay URL %s'' [raw])
         else (case pe_Parse N (''wss://'' @ raw) of
             None \<Rightarrow> Inl (Err ''invalid relay URL %s'' [raw])
           | Some (s, host) \<Rightarrow>
               if host = [] \<or> pe_Parse N (''ws://'' @ raw) = None then Inl (Err ''invalid relay URL %s'' [raw])
               else Inr (''wss://'' @ raw, Some (''ws://'' @ raw))))
      else (case pe_Parse N raw of
          None \<Rightarrow> Inl (Err ''invalid relay URL %s: %w'' [raw])
        | Some (s, host) \<Rightarrow>
            if s \<noteq> ''ws'' \<and> s \<noteq> ''wss'' then Inl (Err ''invalid relay URL %s, unsupported scheme'' [raw])
            else if host = [] then Inl (Err ''invalid relay URL %s, empty host'' [raw])
            else Inr (raw, None)))"

definition AddRelay :: "prefs_env \<Rightarrow> string \<Rightarrow> Prefs \<Rightarrow> (goerr + bool) \<times> Prefs" where
  "AddRelay N relay p =
     (case ResolveRelayURL N relay of
        Inl e \<Rightarrow> (Inl e, p)
      | Inr _ \<Rightarrow> if relay \<in> set (p_Relays p) then (Inr False, p) else (Inr True, p\<lparr>p_Relays := p_Relays p @ [relay]\<rparr>))"

definition RemoveRelay :: "string \<Rightarrow> Prefs \<Rightarrow> bool \<times> Prefs" where
  "RemoveRelay relay p = (case index_of (\<lambda>r. r = relay) (p_Relays p) of None \<Rightarrow> (False, p) | Some i \<Rightarrow> (True, p\<lparr>p_Relays := remove_at i (p_Relays p)\<rparr>))"

definition AddBlossomServer :: "prefs_env \<Rightarrow> string \<Rightarrow> Prefs \<Rightarrow> (goerr + bool) \<times> Prefs" where
  "AddBlossomServer N server p =
     (case pe_ParseRequestURI N server of
        None \<Rightarrow> (Inl (Err ''invalid blossom server url %q: %w'' [server]), p)
      | Some s \<Rightarrow>
          if s \<noteq> ''http'' \<and> s \<noteq> ''https'' then (Inl (Err ''blossom server url %q must use http or https scheme'' [server]), p)
          else if server \<in> set (p_BlossomServers p) then (Inr False, p) else (Inr True, p\<lparr>p_BlossomServers := p_BlossomServers p @ [server]\<rparr>))"

definition RemoveBlossomServer :: "string \<Rightarrow> Prefs \<Rightarrow> bool \<times> Prefs" where
  "RemoveBlossomServer server p =
     (case index_of (\<lambda>r. r = server) (p_BlossomServers p) of None \<Rightarrow> (False, p) | Some i \<Rightarrow> (True, p\<lparr>p_BlossomServers := remove_at i (p_BlossomServers p)\<rparr>))"

definition BlossomServers :: "vault_disk \<Rightarrow> goerr + string list" where
  "BlossomServers d = try_bind (Load_prefs d) (\<lambda>p. if p_BlossomServers p = [] then Inl (Err ''no blossom servers configured'' []) else Inr (p_BlossomServers p))"

definition AddRelayContext :: "prefs_env \<Rightarrow> string \<Rightarrow> string \<Rightarrow> Prefs \<Rightarrow> (goerr + string) \<times> Prefs" where
  "AddRelayContext N name path p =
     (if name = [] then (Inl (Err ''context name must not be empty'' []), p)
      else (case pe_Abs N path of
          None \<Rightarrow> (Inl (Err ''invalid path %q: %w'' [path]), p)
        | Some path' \<Rightarrow> (case pe_Stat N path' of
            None \<Rightarrow> (Inl (Err ''config file %q: %w'' [path']), p)
          | Some True \<Rightarrow> (Inl (Err ''%q is a directory, not a config file'' [path']), p)
          | Some False \<Rightarrow> (Inr path', p\<lparr>p_RelayContexts := (p_RelayContexts p)(name \<mapsto> path')\<rparr>))))"

definition RemoveRelayContext :: "string \<Rightarrow> Prefs \<Rightarrow> bool \<times> Prefs" where
  "RemoveRelayContext name p =
     (case p_RelayContexts p name of
        None \<Rightarrow> (False, p)
      | Some _ \<Rightarrow> (True, p\<lparr>p_RelayContexts := (p_RelayContexts p)(name := None),
                          p_CurrentRelayContext := (if p_CurrentRelayContext p = name then [] else p_CurrentRelayContext p)\<rparr>))"

definition UseRelayContext :: "string \<Rightarrow> Prefs \<Rightarrow> (goerr + unit) \<times> Prefs" where
  "UseRelayContext name p = (case p_RelayContexts p name of None \<Rightarrow> (Inl (Err ''no such relay context %q'' [name]), p) | Some _ \<Rightarrow> (Inr (), p\<lparr>p_CurrentRelayContext := name\<rparr>))"

definition CurrentRelayContextPath :: "Prefs \<Rightarrow> string option" where
  "CurrentRelayContextPath p = (if p_CurrentRelayContext p = [] then None else p_RelayContexts p (p_CurrentRelayContext p))"

definition RelayURLs :: "prefs_env \<Rightarrow> vault_disk \<Rightarrow> goerr + string list" where
  "RelayURLs N d = try_bind (Load_prefs d) (\<lambda>p.
     if p_Relays p = [] then Inl (Err ''no relays configured'' [])
     else try_map (\<lambda>r. case ResolveRelayURL N r of Inl e \<Rightarrow> Inl (Wrap ''invalid relay in prefs (%s): %w'' [r] e) | Inr (u, _) \<Rightarrow> Inr u) (p_Relays p))"

section \<open>What the operations keep\<close>

definition prefs_ok :: "prefs_env \<Rightarrow> Prefs \<Rightarrow> bool" where
  "prefs_ok N p \<longleftrightarrow> distinct (p_Relays p) \<and> (\<forall>r \<in> set (p_Relays p). \<exists>u. ResolveRelayURL N r = Inr u) \<and> distinct (p_BlossomServers p)
     \<and> [] \<notin> dom (p_RelayContexts p) \<and> (p_CurrentRelayContext p = [] \<or> p_CurrentRelayContext p \<in> dom (p_RelayContexts p))"

datatype prefs_op = Add_relay string | Remove_relay string | Add_server string | Remove_server string | Add_context string string | Remove_context string | Use_context string

fun prefs_step :: "prefs_env \<Rightarrow> prefs_op \<Rightarrow> Prefs \<Rightarrow> Prefs" where
  "prefs_step N (Add_relay r) p = snd (AddRelay N r p)"
| "prefs_step N (Remove_relay r) p = snd (RemoveRelay r p)"
| "prefs_step N (Add_server s) p = snd (AddBlossomServer N s p)"
| "prefs_step N (Remove_server s) p = snd (RemoveBlossomServer s p)"
| "prefs_step N (Add_context n f) p = snd (AddRelayContext N n f p)"
| "prefs_step N (Remove_context n) p = snd (RemoveRelayContext n p)"
| "prefs_step N (Use_context n) p = snd (UseRelayContext n p)"

lemma distinct_remove: "distinct xs \<Longrightarrow> distinct (remove_at i xs)"
  using distinct_remove_at [of "\<lambda>x. x" xs i] by simp

lemma prefs_ok_step: "prefs_ok N p \<Longrightarrow> prefs_ok N (prefs_step N a p)"
  using set_remove_at_subset
  by (cases a) (fastforce simp: prefs_ok_def AddRelay_def RemoveRelay_def AddBlossomServer_def RemoveBlossomServer_def AddRelayContext_def RemoveRelayContext_def UseRelayContext_def
    distinct_remove split: sum.split option.split bool.split if_splits)+

lemma prefs_step_identity: "p_VaultIdentity (prefs_step N a p) = p_VaultIdentity p"
  by (cases a) (auto simp: AddRelay_def RemoveRelay_def AddBlossomServer_def RemoveBlossomServer_def AddRelayContext_def RemoveRelayContext_def UseRelayContext_def
    split: sum.split option.split bool.split)

lemma prefs_ok_run: "prefs_ok N (fold (prefs_step N) as no_prefs) \<and> p_VaultIdentity (fold (prefs_step N) as p) = p_VaultIdentity p"
proof -
  have "prefs_ok N (fold (prefs_step N) as p)" if "prefs_ok N p" for p
    using that by (induction "as" arbitrary: p) (auto intro: prefs_ok_step)
  moreover have "p_VaultIdentity (fold (prefs_step N) as p) = p_VaultIdentity p" for p
    by (induction "as" arbitrary: p) (auto simp: prefs_step_identity)
  moreover have "prefs_ok N no_prefs"
    by (simp add: prefs_ok_def no_prefs_def)
  ultimately show ?thesis
    by blast
qed

lemma RelayURLs_ok:
  assumes "Load_prefs d = Inr p" "prefs_ok N p" "p_Relays p \<noteq> []"
  shows "\<exists>us. RelayURLs N d = Inr us \<and> length us = length (p_Relays p) \<and> (\<forall>i < length us. \<exists>f. ResolveRelayURL N (p_Relays p ! i) = Inr (us ! i, f))"
proof -
  let ?f = "\<lambda>r. case ResolveRelayURL N r of Inl e \<Rightarrow> Inl (Wrap ''invalid relay in prefs (%s): %w'' [r] e) | Inr (u, _) \<Rightarrow> Inr u"
  let ?us = "map (\<lambda>r. projr (?f r)) (p_Relays p)"
  have "\<exists>u f. ResolveRelayURL N (p_Relays p ! i) = Inr (u, f)" if "i < length (p_Relays p)" for i
    using assms(2) that unfolding prefs_ok_def by (metis nth_mem surj_pair)
  then have "?f (p_Relays p ! i) = Inr (?us ! i) \<and> (\<exists>f. ResolveRelayURL N (p_Relays p ! i) = Inr (?us ! i, f))" if "i < length (p_Relays p)" for i
    using that by fastforce
  then have "try_map ?f (p_Relays p) = Inr ?us" "\<forall>i < length ?us. \<exists>f. ResolveRelayURL N (p_Relays p ! i) = Inr (?us ! i, f)"
    by (simp_all only: try_map_Inr length_map) blast+
  then show ?thesis
    using assms(1,3) by (auto simp: RelayURLs_def try_bind_def)
qed

end
