(* ===== verification/Client_Spec.thy ===== *)
theory Client_Spec
  imports Client_Duration Client_Follow Client_Prefs
begin

text \<open>
  The specs that \<open>ncli apply\<close> and the target files give (\<open>client/spec.go\<close>). A document is what the strict YAML decoder, a package outside the repository, makes of the bytes: for each value its
  fields, absent ones at their zero value, or its error. A null element of a list is \<open>None\<close>.
\<close>

section \<open>Flows\<close>

abbreviation FlOW_LOCAL :: string where "FlOW_LOCAL \<equiv> ''local''"
abbreviation FlOW_REMOTE :: string where "FlOW_REMOTE \<equiv> ''remote''"
abbreviation FLOW_FILE :: string where "FLOW_FILE \<equiv> ''file''"
abbreviation EnsureCreate :: string where "EnsureCreate \<equiv> ''create''"
abbreviation EnsureExists :: string where "EnsureExists \<equiv> ''exists''"

record FlowSpec =
  fl_Type :: string
  fl_Path :: string
  fl_Relay :: string
  fl_Ensure :: string
  fl_Trusted :: bool
  fl_WriteConcurrency :: int
  fl_relayURI :: "string option"
  fl_relayFallbackURI :: "string option"
  fl_killed :: bool

definition zero_flow :: FlowSpec where
  "zero_flow = \<lparr>fl_Type = [], fl_Path = [], fl_Relay = [], fl_Ensure = [], fl_Trusted = False, fl_WriteConcurrency = 0, fl_relayURI = None, fl_relayFallbackURI = None, fl_killed = False\<rparr>"

text \<open>The path, and why it is not that of a file.\<close>

definition fileExists :: "prefs_env \<Rightarrow> string \<Rightarrow> string \<times> goerr option" where
  "fileExists N input =
     (case pe_Abs N input of
        None \<Rightarrow> ([], Some (Err ''failed to get absolute path %s: %w'' []))
      | Some path \<Rightarrow>
          if pe_Stat N path \<noteq> Some False then (path, Some (Err ''failed to validate db path %s: %w'' [path])) else (path, None))"

definition flowSpecFromString :: "prefs_env \<Rightarrow> string \<Rightarrow> goerr + FlowSpec" where
  "flowSpecFromString N str =
     (if contains str ''://'' then
        (case ResolveRelayURL N str of
           Inr (u, _) \<Rightarrow> Inr (zero_flow\<lparr>fl_Type := FlOW_REMOTE, fl_Relay := str, fl_relayURI := Some u\<rparr>)
         | Inl _ \<Rightarrow> Inl (Err ''invalid input: %s'' [str]))
      else (case fileExists N str of
          (path, None) \<Rightarrow> Inr (zero_flow\<lparr>fl_Type := FlOW_LOCAL, fl_Path := path\<rparr>)
        | (_, Some _) \<Rightarrow>
            (case ResolveRelayURL N str of
               Inr (u, fallback) \<Rightarrow> Inr (zero_flow\<lparr>fl_Type := FlOW_REMOTE, fl_Relay := str, fl_relayURI := Some u, fl_relayFallbackURI := fallback\<rparr>)
             | Inl _ \<Rightarrow> Inl (Err ''invalid input: %s'' [str]))))"

text \<open>A flow in a document: a text, an object, or a value that is neither.\<close>

datatype flow_json = FlowText string | FlowObject FlowSpec | FlowBad goerr

definition flow_type :: "FlowSpec \<Rightarrow> string" where
  "flow_type f = (if fl_Type f \<noteq> [] then fl_Type f else if fl_Relay f \<noteq> [] then FlOW_REMOTE else if fl_Path f \<noteq> [] then FlOW_LOCAL else [])"

definition local_flow :: "prefs_env \<Rightarrow> FlowSpec \<Rightarrow> goerr + FlowSpec" where
  "local_flow N f =
     (let e0 = to_lower (filter (\<lambda>c. c \<noteq> CHR '' '') (fl_Ensure f)) in
      if e0 \<noteq> [] \<and> e0 \<noteq> EnsureCreate \<and> e0 \<noteq> EnsureExists then Inl (Err ''unknown ensure policy: %s'' [fl_Ensure f])
      else let ensure = (if e0 = [] then EnsureCreate else e0) in
        (case fileExists N (fl_Path f) of
           (path, Some e) \<Rightarrow> if ensure = EnsureExists then Inl e else Inr (f\<lparr>fl_Ensure := ensure, fl_Path := path\<rparr>)
         | (path, None) \<Rightarrow> Inr (f\<lparr>fl_Ensure := ensure, fl_Path := path\<rparr>)))"

definition FlowSpec_UnmarshalJSON :: "prefs_env \<Rightarrow> flow_json \<Rightarrow> goerr + FlowSpec" where
  "FlowSpec_UnmarshalJSON N j =
     (case j of
        FlowText str \<Rightarrow> flowSpecFromString N str
      | FlowBad e \<Rightarrow> Inl e
      | FlowObject f0 \<Rightarrow>
          let f = f0\<lparr>fl_Type := flow_type f0, fl_relayURI := None, fl_relayFallbackURI := None, fl_killed := False\<rparr> in
          if fl_Type f = FlOW_REMOTE then
            try_bind (ResolveRelayURL N (fl_Relay f)) (\<lambda>(u, fallback). Inr (f\<lparr>fl_relayURI := Some u, fl_relayFallbackURI := fallback\<rparr>))
          else if fl_Type f = FlOW_LOCAL then local_flow N f
          else if fl_Type f = FLOW_FILE then (case fileExists N (fl_Path f) of (_, Some e) \<Rightarrow> Inl e | (path, None) \<Rightarrow> Inr (f\<lparr>fl_Path := path\<rparr>))
          else Inl (Err ''invalid entry: %v'' []))"

text \<open>\<open>ensureLocalStoreDir\<close>: the directory to make, if any.\<close>

definition ensureLocalStoreDir :: "FlowSpec \<Rightarrow> string option" where
  "ensureLocalStoreDir f = (if fl_Ensure f \<noteq> EnsureCreate then None else Some (path_dir (fl_Path f)))"

section \<open>Timestamps and filters\<close>

text \<open>\<open>strconv.ParseUint\<close> in base 10, 64 bits.\<close>

definition ParseUint :: "string \<Rightarrow> nat option" where
  "ParseUint s = (if s = [] then None else (case digits_value 0 s of None \<Rightarrow> None | Some n \<Rightarrow> if n < 2 ^ 64 then Some n else None))"

definition ParseDurationUnit :: "gtime \<Rightarrow> string \<Rightarrow> bool \<Rightarrow> goerr + 64 word" where
  "ParseDurationUnit now input past =
     (if filter (\<lambda>c. c \<noteq> CHR '' '') input = [] then Inr 0
      else (case ParseUint input of
          Some n \<Rightarrow> Inr (of_nat n)
        | None \<Rightarrow>
            (case parseDuration input of
               Inr d \<Rightarrow> Inr (word_of_int (time_unix (time_add now (if past then wrap64 (- d) else d))))
             | Inl _ \<Rightarrow> Inl (Err ''invalid value: %s'' [input]))))"

text \<open>A timestamp in a document: a number is a float64 there, and \<open>conv\<close> is the conversion to uint64, which Go leaves to the platform where the number does not fit.\<close>

datatype ts_json = TsNumber rat | TsText string | TsOther

definition parseTs :: "(rat \<Rightarrow> 64 word) \<Rightarrow> gtime \<Rightarrow> ts_json \<Rightarrow> bool \<Rightarrow> goerr + 64 word" where
  "parseTs conv now v past =
     (case v of TsNumber x \<Rightarrow> Inr (conv x) | TsText s \<Rightarrow> ParseDurationUnit now s past | TsOther \<Rightarrow> Inl (Err ''invalid type for timestamp: %T'' []))"

text \<open>A filter of a document: its timestamps, if it has them, and what the decoder of the other fields makes of them.\<close>

record filter_json =
  fj_since :: "ts_json option"
  fj_until :: "ts_json option"
  fj_clean :: "goerr + sub_filter"

definition opt_ts :: "(rat \<Rightarrow> 64 word) \<Rightarrow> gtime \<Rightarrow> ts_json option \<Rightarrow> bool \<Rightarrow> goerr + 64 word" where
  "opt_ts conv now v past = (case v of None \<Rightarrow> Inr 0 | Some t \<Rightarrow> parseTs conv now t past)"

definition FilterSpec_UnmarshalJSON :: "(rat \<Rightarrow> 64 word) \<Rightarrow> gtime \<Rightarrow> goerr + filter_json \<Rightarrow> goerr + sub_filter" where
  "FilterSpec_UnmarshalJSON conv now j =
     try_bind j (\<lambda>raw. try_bind (opt_ts conv now (fj_since raw) True) (\<lambda>since. try_bind (opt_ts conv now (fj_until raw) False) (\<lambda>until.
       try_bind (fj_clean raw) (\<lambda>f. Inr (f\<lparr>sf_Since := since, sf_Until := until\<rparr>)))))"

text \<open>The filter of a zero \<open>FilterSpec\<close>: everything.\<close>

definition zero_filter :: sub_filter where
  "zero_filter = \<lparr>sf_Since = 0, sf_Until = 0, sf_Limit = 0, sf_rest = []\<rparr>"

section \<open>Specs\<close>

text \<open>What the decoders need: the file system and URL parser, the conversion of numbers, and the clock.\<close>

record spec_env =
  sp_net :: prefs_env
  sp_conv :: "rat \<Rightarrow> 64 word"
  sp_now :: gtime

text \<open>A decoder of a list whose elements may be null.\<close>

definition decode_list :: "('j \<Rightarrow> goerr + 'a) \<Rightarrow> 'j option list \<Rightarrow> goerr + 'a option list" where
  "decode_list dec js = try_map (\<lambda>j. case j of None \<Rightarrow> Inr None | Some v \<Rightarrow> try_bind (dec v) (\<lambda>x. Inr (Some x))) js"

definition decode_flows :: "spec_env \<Rightarrow> flow_json option list \<Rightarrow> goerr + FlowSpec option list" where
  "decode_flows E = decode_list (FlowSpec_UnmarshalJSON (sp_net E))"

definition decode_filters :: "spec_env \<Rightarrow> (goerr + filter_json) option list \<Rightarrow> goerr + sub_filter option list" where
  "decode_filters E = decode_list (FilterSpec_UnmarshalJSON (sp_conv E) (sp_now E))"

definition non_nil :: "string \<Rightarrow> 'a option list \<Rightarrow> goerr + 'a list" where
  "non_nil what xs = (if None \<in> set xs then Inl (Err what []) else Inr (map the xs))"

definition default_filters :: "sub_filter option list \<Rightarrow> sub_filter option list" where
  "default_filters fs = (if fs = [] then [Some zero_filter] else fs)"

record TimeoutSpec =
  to_Handshake :: "string option"
  to_Ping :: "string option"
  to_Pong :: "string option"
  to_Write :: "string option"

record ConnectionConfig =
  cc_HandshakeTimeout :: duration
  cc_PingInterval :: duration
  cc_PongTimeout :: duration
  cc_WriteTimeout :: duration

text \<open>A timeout that is unset or does not parse keeps its default; \<open>pd\<close> is \<open>time.ParseDuration\<close>.\<close>

definition timeout_or :: "(string \<Rightarrow> duration option) \<Rightarrow> duration \<Rightarrow> string option \<Rightarrow> duration" where
  "timeout_or pd d t = (case t of None \<Rightarrow> d | Some s \<Rightarrow> (case pd s of None \<Rightarrow> d | Some v \<Rightarrow> v))"

definition TimeoutSpec_ConnectionConfig :: "(string \<Rightarrow> duration option) \<Rightarrow> ConnectionConfig \<Rightarrow> TimeoutSpec option \<Rightarrow> ConnectionConfig" where
  "TimeoutSpec_ConnectionConfig pd cfg ts =
     (case ts of None \<Rightarrow> cfg
      | Some t \<Rightarrow> \<lparr>cc_HandshakeTimeout = timeout_or pd (cc_HandshakeTimeout cfg) (to_Handshake t), cc_PingInterval = timeout_or pd (cc_PingInterval cfg) (to_Ping t),
          cc_PongTimeout = timeout_or pd (cc_PongTimeout cfg) (to_Pong t), cc_WriteTimeout = timeout_or pd (cc_WriteTimeout cfg) (to_Write t)\<rparr>)"

record RecoverySpec =
  rs_StorePath :: string
  rs_MaxRetries :: int
  rs_RetryInterval :: string

record stream_json =
  sj_filters :: "(goerr + filter_json) option list"
  sj_from :: "flow_json option list"
  sj_to :: "flow_json option list"
  sj_timeouts :: "TimeoutSpec option"
  sj_recovery :: "RecoverySpec option"
  sj_raw :: bool
  sj_strictPow :: bool

record StreamSpec =
  ss_From :: "FlowSpec list"
  ss_To :: "FlowSpec list"
  ss_Filters :: "sub_filter list"
  ss_Timeouts :: "TimeoutSpec option"
  ss_Recovery :: "RecoverySpec option"
  ss_Raw :: bool
  ss_StrictPow :: bool

definition check_stream :: "stream_json \<Rightarrow> sub_filter option list \<Rightarrow> FlowSpec option list \<Rightarrow> FlowSpec option list \<Rightarrow> goerr + StreamSpec" where
  "check_stream raw filters from_flows to_flows =
     (if from_flows = [] then Inl (Err ''undefined `from` flow'' [])
      else if to_flows = [] then Inl (Err ''undefined `to` flow'' [])
      else try_bind (non_nil ''invalid filters: got nil'' (default_filters filters)) (\<lambda>fs. try_bind (non_nil ''invalid flows: got nil'' (from_flows @ to_flows)) (\<lambda>flows.
        Inr \<lparr>ss_From = take (length from_flows) flows, ss_To = drop (length from_flows) flows, ss_Filters = fs, ss_Timeouts = sj_timeouts raw, ss_Recovery = sj_recovery raw,
          ss_Raw = sj_raw raw, ss_StrictPow = sj_strictPow raw\<rparr>)))"

definition StreamSpec_UnmarshalJSON :: "spec_env \<Rightarrow> goerr + stream_json \<Rightarrow> goerr + StreamSpec" where
  "StreamSpec_UnmarshalJSON E j =
     try_bind j (\<lambda>raw. try_bind (decode_filters E (sj_filters raw)) (\<lambda>filters. try_bind (decode_flows E (sj_from raw)) (\<lambda>from_flows. try_bind (decode_flows E (sj_to raw)) (\<lambda>to_flows.
       check_stream raw filters from_flows to_flows))))"

record targets_json =
  tj_filters :: "(goerr + filter_json) option list"
  tj_targets :: "flow_json option list"

text \<open>The targets and filters of an inspection or of a target file.\<close>

record TargetsSpec =
  ts_Relays :: "FlowSpec list"
  ts_Filters :: "sub_filter list"

definition InspectSpec_UnmarshalJSON :: "spec_env \<Rightarrow> goerr + targets_json \<Rightarrow> goerr + TargetsSpec" where
  "InspectSpec_UnmarshalJSON E j =
     try_bind j (\<lambda>raw. try_bind (decode_filters E (tj_filters raw)) (\<lambda>filters. try_bind (decode_flows E (tj_targets raw)) (\<lambda>targets.
       try_bind (non_nil ''invalid filters: got nil'' (default_filters filters)) (\<lambda>fs. try_bind (non_nil ''invalid targets: got nil'' targets) (\<lambda>ts.
         Inr \<lparr>ts_Relays = ts, ts_Filters = fs\<rparr>)))))"

definition TargetsSpec_UnmarshalJSON :: "spec_env \<Rightarrow> goerr + targets_json \<Rightarrow> goerr + TargetsSpec" where
  "TargetsSpec_UnmarshalJSON E j =
     try_bind j (\<lambda>raw. try_bind (decode_filters E (tj_filters raw)) (\<lambda>filters. try_bind (decode_flows E (tj_targets raw)) (\<lambda>targets.
       try_bind (non_nil ''invalid targets: got nil'' targets) (\<lambda>ts. try_bind (non_nil ''invalid filters: got nil'' filters) (\<lambda>fs.
         Inr \<lparr>ts_Relays = ts, ts_Filters = fs\<rparr>)))))"

abbreviation SyncDirectionBoth :: string where "SyncDirectionBoth \<equiv> ''both''"
abbreviation SyncDirectionUp :: string where "SyncDirectionUp \<equiv> ''up''"
abbreviation SyncDirectionDown :: string where "SyncDirectionDown \<equiv> ''down''"

record sync_json =
  yj_direction :: string
  yj_filters :: "(goerr + filter_json) option list"
  yj_from :: "flow_json option"
  yj_to :: "flow_json option"
  yj_timeouts :: "TimeoutSpec option"
  yj_maxReconcileRounds :: int
  yj_pullBatchSize :: int
  yj_strictPow :: bool

record SyncSpec =
  sy_Direction :: string
  sy_Filters :: "sub_filter list"
  sy_Timeouts :: "TimeoutSpec option"
  sy_MaxReconcileRounds :: int
  sy_PullBatchSize :: int
  sy_StrictPow :: bool
  sy_local :: FlowSpec
  sy_remote :: FlowSpec

text \<open>The loop over the two flows: the local and the remote one found so far.\<close>

fun pick_flows :: "FlowSpec list \<Rightarrow> FlowSpec option \<Rightarrow> FlowSpec option \<Rightarrow> goerr + FlowSpec option \<times> FlowSpec option" where
  "pick_flows [] l r = Inr (l, r)"
| "pick_flows (f # fs) l r =
     (if fl_Type f = FlOW_LOCAL then (if l \<noteq> None then Inl (Err ''multiple local stores defined (only one allowed for sync)'' []) else pick_flows fs (Some f) r)
      else if fl_Type f = FlOW_REMOTE then (if r \<noteq> None then Inl (Err ''multiple remote relays defined (only one allowed for sync)'' []) else pick_flows fs l (Some f))
      else pick_flows fs l r)"

definition need_flow :: "string \<Rightarrow> 'a option \<Rightarrow> goerr + 'a" where
  "need_flow what f = (case f of None \<Rightarrow> Inl (Err what []) | Some x \<Rightarrow> Inr x)"

definition sync_flows :: "FlowSpec option \<Rightarrow> FlowSpec option \<Rightarrow> goerr + FlowSpec \<times> FlowSpec" where
  "sync_flows from_flow to_flow =
     try_bind (need_flow ''undefined `from` flow'' from_flow) (\<lambda>f. try_bind (need_flow ''undefined `to` flow'' to_flow) (\<lambda>t.
     try_bind (pick_flows [f, t] None None) (\<lambda>(l, r). try_bind (need_flow ''undefined local store in flows'' l) (\<lambda>local. try_bind (need_flow ''undefined remote relay in flows'' r) (\<lambda>remote.
       Inr (local, remote))))))"

definition check_sync :: "sync_json \<Rightarrow> sub_filter option list \<Rightarrow> FlowSpec \<times> FlowSpec \<Rightarrow> goerr + SyncSpec" where
  "check_sync raw filters flows =
     (let direction = (if yj_direction raw = [] then SyncDirectionBoth else yj_direction raw) in
      if direction \<notin> {SyncDirectionBoth, SyncDirectionUp, SyncDirectionDown} then Inl (Err ''invalid direction: %s (must be both, up, or down)'' [direction])
      else try_bind (non_nil ''invalid filters: got nil'' (default_filters filters)) (\<lambda>fs.
        Inr \<lparr>sy_Direction = direction, sy_Filters = fs, sy_Timeouts = yj_timeouts raw, sy_MaxReconcileRounds = (if yj_maxReconcileRounds raw \<le> 0 then 1000 else yj_maxReconcileRounds raw),
          sy_PullBatchSize = (if yj_pullBatchSize raw \<le> 0 then 100 else yj_pullBatchSize raw), sy_StrictPow = yj_strictPow raw, sy_local = fst flows, sy_remote = snd flows\<rparr>))"

definition SyncSpec_UnmarshalJSON :: "spec_env \<Rightarrow> goerr + sync_json \<Rightarrow> goerr + SyncSpec" where
  "SyncSpec_UnmarshalJSON E j =
     try_bind j (\<lambda>raw. try_bind (decode_filters E (yj_filters raw)) (\<lambda>filters. try_bind (decode_flows E [yj_from raw, yj_to raw]) (\<lambda>flows.
       try_bind (sync_flows (flows ! 0) (flows ! 1)) (check_sync raw filters))))"

section \<open>Documents\<close>

text \<open>The value under \<open>spec\<close>, as the decoder of each kind of spec sees it; it may be missing or null.\<close>

record spec_value =
  sv_stream :: "goerr + stream_json"
  sv_targets :: "goerr + targets_json"
  sv_sync :: "goerr + sync_json"

datatype spec_json = SpecMissing | SpecNull | SpecValue spec_value

datatype root_spec = Stream_root StreamSpec | Inspect_root TargetsSpec | Targets_root TargetsSpec | Sync_root SyncSpec

definition decode_spec :: "(spec_value \<Rightarrow> goerr + root_spec) \<Rightarrow> spec_json \<Rightarrow> goerr + root_spec" where
  "decode_spec dec s = (case s of SpecMissing \<Rightarrow> Inl (Err ''unexpected end of JSON input'' []) | SpecNull \<Rightarrow> Inl (Err ''undefined spec'' []) | SpecValue v \<Rightarrow> dec v)"

definition RootSpec_UnmarshalJSON :: "spec_env \<Rightarrow> goerr + (string \<times> spec_json) \<Rightarrow> goerr + root_spec" where
  "RootSpec_UnmarshalJSON E doc =
     try_bind doc (\<lambda>(kind, spec).
       let k = to_lower kind in
       if k = ''stream'' then decode_spec (\<lambda>v. try_bind (StreamSpec_UnmarshalJSON E (sv_stream v)) (\<lambda>s. Inr (Stream_root s))) spec
       else if k = ''inspect'' then decode_spec (\<lambda>v. try_bind (InspectSpec_UnmarshalJSON E (sv_targets v)) (\<lambda>s. Inr (Inspect_root s))) spec
       else if k = ''targets'' then decode_spec (\<lambda>v. try_bind (TargetsSpec_UnmarshalJSON E (sv_targets v)) (\<lambda>s. Inr (Targets_root s))) spec
       else if k = ''sync'' then decode_spec (\<lambda>v. try_bind (SyncSpec_UnmarshalJSON E (sv_sync v)) (\<lambda>s. Inr (Sync_root s))) spec
       else Inl (Err ''unexpected kind `%s`'' [kind]))"

section \<open>What is decoded\<close>

text \<open>A flow that was decoded: a relay whose URL resolved, a local store, or a file that exists.\<close>

definition flow_ok :: "prefs_env \<Rightarrow> FlowSpec \<Rightarrow> bool" where
  "flow_ok N f \<longleftrightarrow> \<not> fl_killed f \<and>
     (fl_Type f = FlOW_REMOTE \<and> (\<exists>u fb. ResolveRelayURL N (fl_Relay f) = Inr (u, fb) \<and> fl_relayURI f = Some u \<and> fl_relayFallbackURI f = fb)
      \<or> fl_Type f = FlOW_LOCAL \<and> (fl_Ensure f = EnsureCreate \<or> fl_Ensure f \<in> {EnsureExists, []} \<and> pe_Stat N (fl_Path f) = Some False) \<and> fl_relayURI f = None
      \<or> fl_Type f = FLOW_FILE \<and> pe_Stat N (fl_Path f) = Some False \<and> fl_relayURI f = None)"

lemma fileExists_ok: "fileExists N s = (path, None) \<Longrightarrow> pe_Stat N path = Some False"
  by (auto simp: fileExists_def split: option.splits if_splits)

lemma Resolve_scheme: "contains str ''://'' \<Longrightarrow> ResolveRelayURL N str = Inr (u, fb) \<Longrightarrow> fb = None"
  by (auto simp: ResolveRelayURL_def split: option.splits if_splits)

lemma flowSpecFromString_ok: "flowSpecFromString N s = Inr f \<Longrightarrow> flow_ok N f"
  by (auto simp: flowSpecFromString_def flow_ok_def zero_flow_def dest: fileExists_ok Resolve_scheme split: if_splits sum.splits prod.splits option.splits)

lemma local_flow_ok: "local_flow N f = Inr g \<Longrightarrow> fl_Type f = FlOW_LOCAL \<Longrightarrow> fl_relayURI f = None \<Longrightarrow> \<not> fl_killed f \<Longrightarrow> flow_ok N g"
  by (auto simp: local_flow_def Let_def flow_ok_def dest: fileExists_ok split: if_splits prod.splits option.splits)

lemma FlowSpec_ok: "FlowSpec_UnmarshalJSON N j = Inr f \<Longrightarrow> flow_ok N f"
proof (cases j)
  case (FlowObject f0)
  assume "FlowSpec_UnmarshalJSON N j = Inr f"
  then show ?thesis
    using FlowObject local_flow_ok fileExists_ok
    by (auto simp: FlowSpec_UnmarshalJSON_def Let_def flow_ok_def split: if_splits prod.splits option.splits)
qed (auto simp: FlowSpec_UnmarshalJSON_def flowSpecFromString_ok)

end
