(* ===== verification/Client_Sync.thy ===== *)
theory Client_Sync
  imports Client_Spec "HOL-Library.Product_Lexorder" "HOL-Library.List_Lexorder" "HOL-Library.Char_ord"
begin

text \<open>
  The NIP-77 sync of a local store with a relay (\<open>client/neg_sync.go\<close>): the rounds of the reconciliation, the pull of what is missing in batches, and the push of what the relay lacks. The
  negentropy protocol (package \<open>nip77\<close>), the store and the connection are outside the repository: their functions are arguments, and what the connection delivers is the list of inputs that the
  module reads, one after the other.
\<close>

section \<open>Inputs and outputs\<close>

text \<open>What the relay sends, and the other channels of the \<open>select\<close> statements. \<open>OtherMsg\<close> is any message of another type, such as CLOSED.\<close>

datatype sync_msg = NegMsg string | NegErr string | NoticeMsg string | RelayEvent "event option" | EoseMsg | OkMsg string bool string | OtherMsg

datatype sync_input = Resp sync_msg | ConnError goerr | CtxDone | AckTimeout

record item =
  it_Timestamp :: "64 word"
  it_ID :: string

text \<open>A negentropy session and its messages.\<close>

record ('n, 'm) negentropy =
  ng_New :: "item list \<Rightarrow> 'n"
  ng_Initiate :: "'n \<Rightarrow> 'n \<times> 'm"
  ng_Reconcile :: "'n \<Rightarrow> 'm \<Rightarrow> goerr + ('n \<times> 'm \<times> string list \<times> string list)"
  ng_IsComplete :: "'m \<Rightarrow> bool"
  ng_ToHex :: "'m \<Rightarrow> goerr + string"
  ng_FromHex :: "string \<Rightarrow> goerr + 'm"

text \<open>How inserting a batch of events ends.\<close>

datatype inserted = InsertedAll | SomeDuplicated | InsertFailed goerr

text \<open>
  The store: the items of a filter, the events of some ids, and inserting events; whether an event's proof of work is valid (\<open>nip13.ValidatePow\<close>); and whether \<open>conn.Send\<close> takes an event.
\<close>

record sync_env =
  ye_QueryItems :: "sub_filter \<Rightarrow> goerr + item list"
  ye_Read :: "string list \<Rightarrow> goerr + event list"
  ye_Insert :: "event list \<Rightarrow> inserted"
  ye_ValidatePow :: "event \<Rightarrow> bool"
  ye_Send :: "event \<Rightarrow> bool"

section \<open>Reconciliation\<close>

definition item_key :: "item \<Rightarrow> 64 word \<times> string" where
  "item_key i = (it_Timestamp i, it_ID i)"

definition local_items :: "sync_env \<Rightarrow> sub_filter list \<Rightarrow> goerr + item list" where
  "local_items E filters = try_bind (try_map (ye_QueryItems E) filters) (\<lambda>iss. Inr (sort_key item_key (concat iss)))"

definition open_filter :: "sub_filter list \<Rightarrow> sub_filter option" where
  "open_filter filters = (case filters of [] \<Rightarrow> None | f # _ \<Rightarrow> Some f)"

text \<open>How the rounds end: agreed, or all rounds used up, with the messages sent, what the relay lacks, what is missing here and the inputs left; or with an error, a cancellation, or still waiting.\<close>

datatype rounds = Agreed "string list" "string list" "string list" "sync_input list" | UsedUp "string list" "string list" "string list" "sync_input list"
  | RoundsFailed goerr | RoundsCancelled | RoundsWaiting

fun reconcile :: "('n, 'm) negentropy \<Rightarrow> nat \<Rightarrow> 'n \<Rightarrow> string list \<Rightarrow> string list \<Rightarrow> string list \<Rightarrow> sync_input list \<Rightarrow> rounds" where
  "reconcile G 0 n sent have_ids need_ids ins = UsedUp sent have_ids need_ids ins"
| "reconcile G (Suc k) n sent have_ids need_ids [] = RoundsWaiting"
| "reconcile G (Suc k) n sent have_ids need_ids (i # ins) =
     (case i of
        ConnError e \<Rightarrow> RoundsFailed (Wrap ''connection error: %w'' [] e)
      | CtxDone \<Rightarrow> RoundsCancelled
      | AckTimeout \<Rightarrow> reconcile G (Suc k) n sent have_ids need_ids ins
      | Resp (NegMsg m) \<Rightarrow>
          (case ng_FromHex G m of
             Inl e \<Rightarrow> RoundsFailed (Wrap ''failed to decode NEG-MSG: %w'' [] e)
           | Inr theirs \<Rightarrow>
               (case ng_Reconcile G n theirs of
                  Inl e \<Rightarrow> RoundsFailed (Wrap ''reconciliation failed: %w'' [] e)
                | Inr (n', reply, roundHave, roundNeed) \<Rightarrow>
                    if ng_IsComplete G reply then Agreed sent (have_ids @ roundHave) (need_ids @ roundNeed) ins
                    else (case ng_ToHex G reply of
                        Inl e \<Rightarrow> RoundsFailed (Wrap ''failed to encode response: %w'' [] e)
                      | Inr hex \<Rightarrow> reconcile G k n' (sent @ [hex]) (have_ids @ roundHave) (need_ids @ roundNeed) ins)))
      | Resp (NegErr c) \<Rightarrow> RoundsFailed (Err ''relay NEG-ERR: %s'' [c])
      | Resp _ \<Rightarrow> reconcile G k n sent have_ids need_ids ins)"

section \<open>Pull\<close>

text \<open>\<open>nip13.POWTagName\<close> is \<open>nonce\<close>: an event without that tag claims no work.\<close>

definition hasValidPow :: "(event \<Rightarrow> bool) \<Rightarrow> event \<Rightarrow> bool" where
  "hasValidPow valid ev \<longleftrightarrow> (\<forall>t \<in> set (ev_Tags ev). t = [] \<or> hd t \<noteq> ''nonce'') \<or> valid ev"

datatype batch_end = BatchDone "string list" "event list" "sync_input list" | BatchWaiting | BatchStopped "sync_input list"

text \<open>The answers to one request: the ids returned and the events kept, until EOSE.\<close>

fun batch_loop :: "(event \<Rightarrow> bool) \<Rightarrow> string list \<Rightarrow> event list \<Rightarrow> sync_input list \<Rightarrow> batch_end" where
  "batch_loop keep returned events [] = BatchWaiting"
| "batch_loop keep returned events (i # ins) =
     (case i of
        Resp (RelayEvent (Some ev)) \<Rightarrow> batch_loop keep (returned @ [ev_ID ev]) (if keep ev then events @ [ev] else events) ins
      | Resp EoseMsg \<Rightarrow> BatchDone returned events ins
      | Resp _ \<Rightarrow> batch_loop keep returned events ins
      | ConnError e \<Rightarrow> BatchStopped ins
      | CtxDone \<Rightarrow> BatchStopped (CtxDone # ins)
      | AckTimeout \<Rightarrow> batch_loop keep returned events ins)"

lemma batch_loop_shorter: "batch_loop keep r es ins = BatchDone r' es' ins' \<Longrightarrow> length ins' < length ins"
  by (induction keep r es ins rule: batch_loop.induct) (fastforce split: sync_input.splits sync_msg.splits option.splits)+

text \<open>What a pull has done: the ids it asked for, the events it gave to the store, and the two counts.\<close>

record pull_acc =
  pa_asked :: "string list list"
  pa_stored :: "event list list"
  pa_pulled :: nat
  pa_unserved :: nat

definition no_pull :: pull_acc where
  "no_pull = \<lparr>pa_asked = [], pa_stored = [], pa_pulled = 0, pa_unserved = 0\<rparr>"

datatype pull_end = PullDone | PullWaiting | PullStopped

definition store_batch :: "sync_env \<Rightarrow> event list \<Rightarrow> pull_acc \<Rightarrow> pull_acc" where
  "store_batch E events a =
     (if events = [] then a
      else (case ye_Insert E events of
          InsertFailed e \<Rightarrow> a\<lparr>pa_stored := pa_stored a @ [events]\<rparr>
        | _ \<Rightarrow> a\<lparr>pa_stored := pa_stored a @ [events], pa_pulled := pa_pulled a + length events\<rparr>))"

text \<open>The batches, \<open>batchSize\<close> being positive in a decoded spec.\<close>

function pull :: "sync_env \<Rightarrow> nat \<Rightarrow> (event \<Rightarrow> bool) \<Rightarrow> string list \<Rightarrow> pull_acc \<Rightarrow> sync_input list \<Rightarrow> pull_end \<times> pull_acc \<times> sync_input list" where
  "pull E batchSize keep pending a ins =
     (if pending = [] then (PullDone, a, ins)
      else
        let batch = take batchSize pending; rest = drop batchSize pending; a1 = a\<lparr>pa_asked := pa_asked a @ [batch]\<rparr> in
        (case batch_loop keep [] [] ins of
           BatchDone returned events ins' \<Rightarrow>
             let missing = filter (\<lambda>i. i \<notin> set returned) batch;
                 pending' = (if returned \<noteq> [] then missing @ rest else rest);
                 a2 = (if returned \<noteq> [] then a1 else a1\<lparr>pa_unserved := pa_unserved a1 + length missing\<rparr>)
             in pull E batchSize keep pending' (store_batch E events a2) ins'
         | BatchWaiting \<Rightarrow> (PullWaiting, a1, [])
         | BatchStopped ins' \<Rightarrow> (PullStopped, a1, ins')))"
  by pat_completeness auto
termination
  by (relation "measure (\<lambda>(E, batchSize, keep, pending, a, ins). length ins)") (auto dest: batch_loop_shorter)

declare pull.simps [simp del]

definition pullEvents :: "sync_env \<Rightarrow> bool \<Rightarrow> SyncSpec \<Rightarrow> string list \<Rightarrow> sync_input list \<Rightarrow> pull_end \<times> pull_acc \<times> sync_input list" where
  "pullEvents E strictPow spec need_ids ins =
     (let enforcePow = strictPow \<and> \<not> fl_Trusted (sy_remote spec) in
      pull E (nat (sy_PullBatchSize spec)) (\<lambda>ev. \<not> (enforcePow \<and> \<not> hasValidPow (ye_ValidatePow E) ev)) need_ids no_pull ins)"

section \<open>Push\<close>

record push_acc =
  pu_sent :: "event list"
  pu_refused :: "event list"
  pu_accepted :: "string list"
  pu_rejected :: "string list"
  pu_unacked :: "string list"

definition no_push :: push_acc where
  "no_push = \<lparr>pu_sent = [], pu_refused = [], pu_accepted = [], pu_rejected = [], pu_unacked = []\<rparr>"

datatype acks = AcksDone push_acc "sync_input list" | AcksWaiting push_acc | AcksStopped push_acc

text \<open>The wait for the answers to a batch: the ids not answered yet.\<close>

fun ack_loop :: "string list \<Rightarrow> push_acc \<Rightarrow> sync_input list \<Rightarrow> acks" where
  "ack_loop [] a ins = AcksDone a ins"
| "ack_loop (p # ps) a [] = AcksWaiting a"
| "ack_loop (p # ps) a (i # ins) =
     (case i of
        Resp (OkMsg x accepted msg) \<Rightarrow>
          if x \<in> set (p # ps) then
            ack_loop (filter (\<lambda>y. y \<noteq> x) (p # ps)) (if accepted then a\<lparr>pu_accepted := pu_accepted a @ [x]\<rparr> else a\<lparr>pu_rejected := pu_rejected a @ [x]\<rparr>) ins
          else ack_loop (p # ps) a ins
      | Resp _ \<Rightarrow> ack_loop (p # ps) a ins
      | ConnError e \<Rightarrow> AcksStopped a
      | CtxDone \<Rightarrow> AcksStopped a
      | AckTimeout \<Rightarrow> AcksDone (a\<lparr>pu_unacked := pu_unacked a @ (p # ps)\<rparr>) ins)"

datatype push_end = PushDone | PushWaiting | PushStopped

definition send_batch :: "sync_env \<Rightarrow> event list \<Rightarrow> push_acc \<Rightarrow> push_acc" where
  "send_batch E events a = a\<lparr>pu_sent := pu_sent a @ filter (ye_Send E) events, pu_refused := pu_refused a @ filter (\<lambda>ev. \<not> ye_Send E ev) events\<rparr>"

text \<open>The ids of the events sent, each once, as the keys of the map of unanswered ones.\<close>

definition sent_ids :: "sync_env \<Rightarrow> event list \<Rightarrow> string list" where
  "sent_ids E events = remdups (map ev_ID (filter (ye_Send E) events))"

function push :: "sync_env \<Rightarrow> nat \<Rightarrow> string list \<Rightarrow> push_acc \<Rightarrow> sync_input list \<Rightarrow> push_end \<times> push_acc" where
  "push E batchSize have_ids a ins =
     (if have_ids = [] then (PushDone, a)
      else if batchSize = 0 then (PushWaiting, a)
      else (case ye_Read E (take batchSize have_ids) of
          Inl e \<Rightarrow> push E batchSize (drop batchSize have_ids) a ins
        | Inr events \<Rightarrow>
            (case ack_loop (sent_ids E events) (send_batch E events a) ins of
               AcksDone a' ins' \<Rightarrow> push E batchSize (drop batchSize have_ids) a' ins'
             | AcksWaiting a' \<Rightarrow> (PushWaiting, a')
             | AcksStopped a' \<Rightarrow> (PushStopped, a'))))"
  by pat_completeness auto
termination
  by (relation "measure (\<lambda>(E, batchSize, have_ids, a, ins). length have_ids)") auto

declare push.simps [simp del]

definition pushEvents :: "sync_env \<Rightarrow> SyncSpec \<Rightarrow> string list \<Rightarrow> sync_input list \<Rightarrow> push_end \<times> push_acc" where
  "pushEvents E spec have_ids ins = push E (nat (sy_PullBatchSize spec)) have_ids no_push ins"

section \<open>The whole sync\<close>

text \<open>What a sync did: the filter and messages of the reconciliation, the pull and the push, and how it ended.\<close>

datatype sync_end = SyncComplete | SyncError goerr | SyncStopped | SyncWaiting

record sync_run =
  sr_end :: sync_end
  sr_open :: "sub_filter option"
  sr_need :: "string list"
  sr_have :: "string list"
  sr_pull :: pull_acc
  sr_push :: push_acc

definition ended :: "sync_end \<Rightarrow> sync_run" where
  "ended e = \<lparr>sr_end = e, sr_open = None, sr_need = [], sr_have = [], sr_pull = no_pull, sr_push = no_push\<rparr>"

text \<open>Pull and push as the direction says.\<close>

definition transfer :: "sync_env \<Rightarrow> bool \<Rightarrow> SyncSpec \<Rightarrow> string list \<Rightarrow> string list \<Rightarrow> sync_input list \<Rightarrow> sync_run" where
  "transfer E strictPow spec have_ids need_ids ins =
     (let (pend, pa, ins1) = (if sy_Direction spec = SyncDirectionDown \<or> sy_Direction spec = SyncDirectionBoth then pullEvents E strictPow spec need_ids ins else (PullDone, no_pull, ins));
          r = \<lparr>sr_end = SyncComplete, sr_open = open_filter (sy_Filters spec), sr_need = need_ids, sr_have = have_ids, sr_pull = pa, sr_push = no_push\<rparr>
      in case pend of
           PullWaiting \<Rightarrow> r\<lparr>sr_end := SyncWaiting\<rparr>
         | _ \<Rightarrow>
             if sy_Direction spec = SyncDirectionUp \<or> sy_Direction spec = SyncDirectionBoth then
               (case pushEvents E spec have_ids ins1 of
                  (PushWaiting, u) \<Rightarrow> r\<lparr>sr_end := SyncWaiting, sr_push := u\<rparr>
                | (_, u) \<Rightarrow> r\<lparr>sr_push := u\<rparr>)
             else r)"

text \<open>\<open>dialled\<close> is the error of opening the store, of the connection or of the login, if any.\<close>

definition execute_sync :: "('n, 'm) negentropy \<Rightarrow> sync_env \<Rightarrow> goerr option \<Rightarrow> bool \<Rightarrow> SyncSpec \<Rightarrow> sync_input list \<Rightarrow> sync_run" where
  "execute_sync G E dialled strictPow spec ins =
     (case local_items E (sy_Filters spec) of
        Inl e \<Rightarrow> ended (SyncError (Wrap ''failed to query items: %w'' [] e))
      | Inr items \<Rightarrow>
          (let (n, first) = ng_Initiate G (ng_New G items) in
           case ng_ToHex G first of
             Inl e \<Rightarrow> ended (SyncError (Wrap ''failed to encode initial message: %w'' [] e))
           | Inr hex \<Rightarrow>
               (case dialled of
                  Some e \<Rightarrow> ended (SyncError e)
                | None \<Rightarrow>
                    (case reconcile G (nat (sy_MaxReconcileRounds spec)) n [hex] [] [] ins of
                       RoundsFailed e \<Rightarrow> ended (SyncError e)
                     | RoundsCancelled \<Rightarrow> ended SyncStopped
                     | RoundsWaiting \<Rightarrow> ended SyncWaiting
                     | Agreed sent h nd ins' \<Rightarrow> transfer E strictPow spec h nd ins'
                     | UsedUp sent h nd ins' \<Rightarrow> transfer E strictPow spec h nd ins'))))"

end
