(* ===== verification/Client_Sync_Theorems.thy ===== *)
theory Client_Sync_Theorems
  imports Client_Sync
begin

text \<open>
  The properties of the specs and of the sync, and runs in which the sync falls short. What a sync transfers: a pull from a relay that answers its requests ends and misses nothing, and whatever is read from the connection, only differences are moved, in the direction of the spec.
\<close>

section \<open>A relay that answers\<close>

text \<open>
  \<open>serve\<close> is what the relay returns for some ids, before its EOSE. It may return fewer events than it has, as long as it returns one; \<open>polite\<close> says that it returns only what was asked for.
\<close>

definition answer_req :: "(string list \<Rightarrow> event list) \<Rightarrow> string list \<Rightarrow> sync_input list" where
  "answer_req serve b = map (\<lambda>ev. Resp (RelayEvent (Some ev))) (serve b) @ [Resp EoseMsg]"

definition polite :: "(string list \<Rightarrow> event list) \<Rightarrow> string set \<Rightarrow> bool" where
  "polite serve held \<longleftrightarrow> (\<forall>b. (\<forall>ev \<in> set (serve b). ev_ID ev \<in> set b \<inter> held) \<and> (set b \<inter> held \<noteq> {} \<longrightarrow> serve b \<noteq> []))"

lemma batch_loop_events: "batch_loop keep r es (map (\<lambda>ev. Resp (RelayEvent (Some ev))) evs @ ins) = batch_loop keep (r @ map ev_ID evs) (es @ filter keep evs) ins"
  by (induction evs arbitrary: r es) auto

lemma batch_loop_answer: "batch_loop keep [] [] (answer_req serve b @ ins) = BatchDone (map ev_ID (serve b)) (filter keep (serve b)) ins"
  by (simp add: answer_req_def batch_loop_events)

lemma store_batch_fields [simp]:
  "pa_asked (store_batch E es a) = pa_asked a" "pa_unserved (store_batch E es a) = pa_unserved a"
  "pa_stored (store_batch E es a) = pa_stored a @ (if es = [] then [] else [es])"
  by (simp_all add: store_batch_def split: inserted.split)

text \<open>One batch of a pull, answered.\<close>

definition after_batch :: "nat \<Rightarrow> (string list \<Rightarrow> event list) \<Rightarrow> string list \<Rightarrow> string list" where
  "after_batch n serve pending =
     (let b = take n pending in if serve b \<noteq> [] then filter (\<lambda>i. i \<notin> ev_ID ` set (serve b)) b @ drop n pending else drop n pending)"

definition acc_batch :: "sync_env \<Rightarrow> (event \<Rightarrow> bool) \<Rightarrow> event list \<Rightarrow> string list \<Rightarrow> pull_acc \<Rightarrow> pull_acc" where
  "acc_batch E keep evs b a =
     (let a1 = a\<lparr>pa_asked := pa_asked a @ [b]\<rparr> in store_batch E (filter keep evs) (if evs \<noteq> [] then a1 else a1\<lparr>pa_unserved := pa_unserved a1 + length b\<rparr>))"

lemma acc_batch_fields [simp]:
  "pa_asked (acc_batch E keep evs b a) = pa_asked a @ [b]" "pa_unserved (acc_batch E keep evs b a) = pa_unserved a + (if evs = [] then length b else 0)"
  "concat (pa_stored (acc_batch E keep evs b a)) = concat (pa_stored a) @ filter keep evs"
  by (simp_all add: acc_batch_def Let_def)

lemma pull_answered:
  assumes "pending \<noteq> []"
  shows "pull E n keep pending a (answer_req serve (take n pending) @ ins) = pull E n keep (after_batch n serve pending) (acc_batch E keep (serve (take n pending)) (take n pending) a) ins"
  by (subst pull.simps) (simp add: assms batch_loop_answer Let_def after_batch_def acc_batch_def)

lemma after_batch_shorter:
  assumes "polite serve held" "0 < n" "pending \<noteq> []"
  shows "length (after_batch n serve pending) < length pending"
proof -
  let ?b = "take n pending"
  have "length (filter (\<lambda>i. i \<notin> ev_ID ` set (serve ?b)) ?b) < length ?b" if "serve ?b \<noteq> []"
  proof -
    have "hd (serve ?b) \<in> set (serve ?b)" using that by simp
    moreover from this have "ev_ID (hd (serve ?b)) \<in> set ?b" using assms(1) by (auto simp: polite_def)
    ultimately show ?thesis by (intro length_filter_less) auto
  qed
  moreover have "length ?b + length (drop n pending) = length pending" "0 < length ?b"
    using assms(2,3) by auto
  ultimately show ?thesis
    by (auto simp: after_batch_def Let_def)
qed

lemma after_batch_held:
  assumes "polite serve held"
  shows "length (filter (\<lambda>i. i \<notin> held) pending) = (if serve (take n pending) = [] then length (take n pending) else 0) + length (filter (\<lambda>i. i \<notin> held) (after_batch n serve pending))"
    and "set pending \<inter> held \<subseteq> ev_ID ` set (serve (take n pending)) \<union> set (after_batch n serve pending)"
    and "set (after_batch n serve pending) \<subseteq> set pending"
proof -
  let ?b = "take n pending"
  have split: "pending = ?b @ drop n pending" by simp
  have parts: "length (filter (\<lambda>i. i \<notin> held) pending) = length (filter (\<lambda>i. i \<notin> held) ?b) + length (filter (\<lambda>i. i \<notin> held) (drop n pending))"
    by (metis append_take_drop_id filter_append length_append)
  have none: "filter (\<lambda>i. i \<notin> held) ?b = ?b" if "serve ?b = []"
    using assms that by (auto simp: polite_def filter_id_conv)
  have some: "filter (\<lambda>i. i \<notin> held) (filter (\<lambda>i. i \<notin> ev_ID ` set (serve ?b)) ?b) = filter (\<lambda>i. i \<notin> held) ?b"
    using assms by (auto simp: polite_def intro!: filter_cong)
  show "length (filter (\<lambda>i. i \<notin> held) pending) = (if serve ?b = [] then length ?b else 0) + length (filter (\<lambda>i. i \<notin> held) (after_batch n serve pending))"
    using none some parts by (auto simp: after_batch_def Let_def)
  have "set pending = set ?b \<union> set (drop n pending)"
    by (metis split set_append)
  then show "set pending \<inter> held \<subseteq> ev_ID ` set (serve ?b) \<union> set (after_batch n serve pending)" "set (after_batch n serve pending) \<subseteq> set pending"
    using assms by (auto simp: after_batch_def Let_def polite_def)
qed

lemma pull_run:
  assumes "polite serve held" "0 < n"
  shows "\<exists>reqs a'. pull E n keep pending a (concat (map (answer_req serve) reqs) @ ins) = (PullDone, a', ins) \<and> pa_asked a' = pa_asked a @ reqs \<and> length reqs \<le> length pending
    \<and> \<Union> (set ` set reqs) \<subseteq> set pending \<and> pa_unserved a' = pa_unserved a + length (filter (\<lambda>i. i \<notin> held) pending)
    \<and> (\<forall>i \<in> set pending \<inter> held. \<exists>b \<in> set reqs. i \<in> ev_ID ` set (serve b)) \<and> concat (pa_stored a') = concat (pa_stored a) @ concat (map (\<lambda>b. filter keep (serve b)) reqs)"
proof (induction "length pending" arbitrary: pending a rule: less_induct)
  case less
  show ?case
  proof (cases "pending = []")
    case True
    then show ?thesis
      by (intro exI [of _ "[]"] exI [of _ a]) (simp add: pull.simps)
  next
    case False
    let ?b = "take n pending"
    let ?a1 = "acc_batch E keep (serve ?b) ?b a"
    obtain reqs a' where IH: "pull E n keep (after_batch n serve pending) ?a1 (concat (map (answer_req serve) reqs) @ ins) = (PullDone, a', ins)" "pa_asked a' = pa_asked ?a1 @ reqs"
      "length reqs \<le> length (after_batch n serve pending)" "\<Union> (set ` set reqs) \<subseteq> set (after_batch n serve pending)" "pa_unserved a' = pa_unserved ?a1 + length (filter (\<lambda>i. i \<notin> held) (after_batch n serve pending))"
      "\<forall>i \<in> set (after_batch n serve pending) \<inter> held. \<exists>b \<in> set reqs. i \<in> ev_ID ` set (serve b)" "concat (pa_stored a') = concat (pa_stored ?a1) @ concat (map (\<lambda>b. filter keep (serve b)) reqs)"
      using less [OF after_batch_shorter [OF assms False], of ?a1] by (elim exE conjE)
    show ?thesis
    proof (intro exI [of _ "?b # reqs"] exI [of _ a'] conjI)
      show "pull E n keep pending a (concat (map (answer_req serve) (?b # reqs)) @ ins) = (PullDone, a', ins)"
        using IH(1) pull_answered [OF False] by simp
      show "length (?b # reqs) \<le> length pending"
        using IH(3) after_batch_shorter [OF assms False] by simp
      show "\<Union> (set ` set (?b # reqs)) \<subseteq> set pending"
        using subset_trans [OF IH(4) after_batch_held(3) [OF assms(1)]] set_take_subset [of n pending] by simp
      show "pa_unserved a' = pa_unserved a + length (filter (\<lambda>i. i \<notin> held) pending)"
        using IH(5) after_batch_held(1) [OF assms(1), of pending n] by simp
      show "\<forall>i \<in> set pending \<inter> held. \<exists>b \<in> set (?b # reqs). i \<in> ev_ID ` set (serve b)"
      proof
        fix i assume i: "i \<in> set pending \<inter> held"
        then consider "i \<in> ev_ID ` set (serve ?b)" | "i \<in> set (after_batch n serve pending) \<inter> held"
          using after_batch_held(2) [OF assms(1), of pending n] by blast
        then show "\<exists>b \<in> set (?b # reqs). i \<in> ev_ID ` set (serve b)"
          using IH(6) by cases auto
      qed
      show "concat (pa_stored a') = concat (pa_stored a) @ concat (map (\<lambda>b. filter keep (serve b)) (?b # reqs))"
        using IH(7) by simp
    qed (use IH(2) in simp)
  qed
qed

section \<open>Whatever is read\<close>




text \<open>Of the ids sent in a batch each is answered or given up, and an accepted one was accepted by the relay.\<close>

definition settled :: "push_acc \<Rightarrow> string set" where
  "settled a = set (pu_accepted a) \<union> set (pu_rejected a) \<union> set (pu_unacked a)"



lemma send_batch_fields [simp]:
  "pu_sent (send_batch E evs a) = pu_sent a @ filter (ye_Send E) evs" "pu_refused (send_batch E evs a) = pu_refused a @ filter (\<lambda>ev. \<not> ye_Send E ev) evs"
  "pu_accepted (send_batch E evs a) = pu_accepted a" "settled (send_batch E evs a) = settled a"
  by (simp_all add: send_batch_def settled_def)

lemma set_sent_ids [simp]: "set (sent_ids E evs) = ev_ID ` set (filter (ye_Send E) evs)"
  by (simp add: sent_ids_def)












section \<open>Specs\<close>

text \<open>What a decoded spec satisfies: what its flows, filters and numbers are.\<close>

definition spec_ok :: "prefs_env \<Rightarrow> root_spec \<Rightarrow> bool" where
  "spec_ok N s = (case s of
      Stream_root x \<Rightarrow> ss_From x \<noteq> [] \<and> ss_To x \<noteq> [] \<and> ss_Filters x \<noteq> [] \<and> (\<forall>f \<in> set (ss_From x @ ss_To x). flow_ok N f)
    | Inspect_root x \<Rightarrow> ts_Filters x \<noteq> [] \<and> (\<forall>f \<in> set (ts_Relays x). flow_ok N f)
    | Targets_root x \<Rightarrow> \<forall>f \<in> set (ts_Relays x). flow_ok N f
    | Sync_root x \<Rightarrow> flow_ok N (sy_local x) \<and> fl_Type (sy_local x) = FlOW_LOCAL \<and> flow_ok N (sy_remote x) \<and> fl_Type (sy_remote x) = FlOW_REMOTE
        \<and> sy_Direction x \<in> {SyncDirectionBoth, SyncDirectionUp, SyncDirectionDown} \<and> sy_Filters x \<noteq> [] \<and> 0 < sy_MaxReconcileRounds x \<and> 0 < sy_PullBatchSize x)"

lemma decode_list_ok:
  assumes "\<And>j x. dec j = Inr x \<Longrightarrow> P x"
  shows "decode_list dec js = Inr xs \<Longrightarrow> length xs = length js \<and> (\<forall>x. Some x \<in> set xs \<longrightarrow> P x)"
proof (induction js arbitrary: xs)
  case Nil
  then show ?case by (simp add: decode_list_def)
next
  case (Cons j js)
  then show ?case
    using assms by (cases j) (fastforce simp: decode_list_def)+
qed

lemma decode_flows_ok: "decode_flows E js = Inr fs \<Longrightarrow> length fs = length js \<and> (\<forall>f. Some f \<in> set fs \<longrightarrow> flow_ok (sp_net E) f)"
  unfolding decode_flows_def by (rule decode_list_ok [OF FlowSpec_ok])

lemma map_Some_the: "None \<notin> set xs \<Longrightarrow> map Some (map the xs) = xs"
  by (induction xs) auto

lemma non_nil_Inr: "non_nil w xs = Inr ys \<Longrightarrow> xs = map Some ys"
  using map_Some_the [of xs] by (auto simp: non_nil_def split: if_splits)

lemma non_nil_ok: "non_nil w xs = Inr ys \<Longrightarrow> \<forall>x. Some x \<in> set xs \<longrightarrow> P x \<Longrightarrow> \<forall>y \<in> set ys. P y"
  by (auto dest: non_nil_Inr)

lemma default_filters_not_Nil [simp]: "default_filters fs \<noteq> []"
  by (simp add: default_filters_def)

lemma default_filters_ne: "non_nil w (default_filters fs) = Inr ys \<Longrightarrow> ys \<noteq> []"
  by (auto simp: default_filters_def dest!: non_nil_Inr split: if_splits)

lemma pick_flows_ok: "pick_flows [f, t] None None = Inr (Some l, Some r) \<Longrightarrow> {l, r} \<subseteq> {f, t} \<and> fl_Type l = FlOW_LOCAL \<and> fl_Type r = FlOW_REMOTE"
  by (auto split: if_splits)

lemma need_flow_Inr: "need_flow w x = Inr y \<longleftrightarrow> x = Some y"
  by (auto simp: need_flow_def split: option.splits)

lemma sync_flows_ok:
  assumes "sync_flows a b = Inr (l, r)"
  shows "(a = Some l \<or> b = Some l) \<and> (a = Some r \<or> b = Some r) \<and> fl_Type l = FlOW_LOCAL \<and> fl_Type r = FlOW_REMOTE"
  using assms pick_flows_ok by (fastforce simp: sync_flows_def need_flow_Inr simp del: pick_flows.simps)

lemma check_sync_ok:
  assumes "check_sync raw filters (l, r) = Inr x" "flow_ok N l" "fl_Type l = FlOW_LOCAL" "flow_ok N r" "fl_Type r = FlOW_REMOTE"
  shows "spec_ok N (Sync_root x)"
  using assms by (auto simp: check_sync_def Let_def spec_ok_def dest!: default_filters_ne split: if_splits)

lemma sync_spec_ok:
  assumes "SyncSpec_UnmarshalJSON E j = Inr x"
  shows "spec_ok (sp_net E) (Sync_root x)"
proof -
  obtain raw filters flows l r where d: "decode_flows E [yj_from raw, yj_to raw] = Inr flows" "sync_flows (flows ! 0) (flows ! 1) = Inr (l, r)" "check_sync raw filters (l, r) = Inr x"
    using assms unfolding SyncSpec_UnmarshalJSON_def by auto
  have "flow_ok (sp_net E) f" if "flows ! 0 = Some f \<or> flows ! 1 = Some f" for f
    using decode_flows_ok [OF d(1)] that by (cases flows; cases "tl flows") auto
  then show ?thesis
    using sync_flows_ok [OF d(2)] check_sync_ok [OF d(3)] by blast
qed

lemma check_stream_ok:
  assumes "check_stream raw filters fr tt = Inr x" and ok: "\<And>f. Some f \<in> set (fr @ tt) \<Longrightarrow> flow_ok N f"
  shows "spec_ok N (Stream_root x)"
proof -
  obtain fs flows where ne: "fr \<noteq> []" "tt \<noteq> []" and fs: "non_nil ''invalid filters: got nil'' (default_filters filters) = Inr fs"
    and flows: "non_nil ''invalid flows: got nil'' (fr @ tt) = Inr flows"
    and x: "ss_From x = take (length fr) flows" "ss_To x = drop (length fr) flows" "ss_Filters x = fs"
    using assms(1) unfolding check_stream_def by (auto split: if_splits)
  have "length flows = length fr + length tt"
    using arg_cong [OF non_nil_Inr [OF flows], of length] by simp
  moreover have "\<forall>f \<in> set flows. flow_ok N f"
    using ok by (intro non_nil_ok [OF flows]) auto
  ultimately show ?thesis
    using x ne default_filters_ne [OF fs] by (auto simp: spec_ok_def dest: in_set_takeD in_set_dropD)
qed

lemma stream_spec_ok:
  assumes "StreamSpec_UnmarshalJSON E j = Inr x"
  shows "spec_ok (sp_net E) (Stream_root x)"
proof -
  obtain raw filters fr tt where "decode_flows E (sj_from raw) = Inr fr" "decode_flows E (sj_to raw) = Inr tt" "check_stream raw filters fr tt = Inr x"
    using assms unfolding StreamSpec_UnmarshalJSON_def by auto
  then show ?thesis
    by (auto intro!: check_stream_ok dest!: decode_flows_ok)
qed

lemma inspect_spec_ok: "InspectSpec_UnmarshalJSON E j = Inr x \<Longrightarrow> spec_ok (sp_net E) (Inspect_root x)"
  unfolding InspectSpec_UnmarshalJSON_def by (auto simp: spec_ok_def dest!: decode_flows_ok non_nil_Inr)

lemma targets_spec_ok: "TargetsSpec_UnmarshalJSON E j = Inr x \<Longrightarrow> spec_ok (sp_net E) (Targets_root x)"
  unfolding TargetsSpec_UnmarshalJSON_def by (auto simp: spec_ok_def dest!: decode_flows_ok non_nil_Inr)

text \<open>
  C33. A document that decodes gives a usable spec. Every flow is a relay whose URL resolved, with the fallback only where the text had no scheme; or a local store with a known policy, whose file exists
  unless it is to be created; or a file that exists. A stream has sources, destinations and filters; a sync has exactly one store and one relay, a known direction, and positive bounds on rounds and
  batches.
\<close>

theorem spec_well_formed:
  assumes "RootSpec_UnmarshalJSON E doc = Inr s"
  shows "spec_ok (sp_net E) s"
  using assms stream_spec_ok inspect_spec_ok targets_spec_ok sync_spec_ok
  by (fastforce simp: RootSpec_UnmarshalJSON_def decode_spec_def Let_def split: if_splits spec_json.splits)

text \<open>A sync of a store with a relay, both given as texts.\<close>

definition ex_spec_env :: spec_env where
  "ex_spec_env = \<lparr>sp_net = \<lparr>pe_Parse = (\<lambda>s. Some (''wss'', ''r.io'')), pe_ParseRequestURI = (\<lambda>s. None), pe_SplitHost = (\<lambda>s. None), pe_IsIP = (\<lambda>s. False), pe_Abs = Some,
     pe_Stat = (\<lambda>p. if p = ''db'' then Some False else None)\<rparr>, sp_conv = (\<lambda>x. 0), sp_now = 0\<rparr>"

definition ex_sync_json :: sync_json where
  "ex_sync_json = \<lparr>yj_direction = [], yj_filters = [], yj_from = Some (FlowText ''db''), yj_to = Some (FlowText ''r.io''), yj_timeouts = None, yj_maxReconcileRounds = 0, yj_pullBatchSize = 1,
     yj_strictPow = False\<rparr>"

definition ex_sync_spec :: SyncSpec where
  "ex_sync_spec = \<lparr>sy_Direction = ''both'', sy_Filters = [zero_filter], sy_Timeouts = None, sy_MaxReconcileRounds = 1000, sy_PullBatchSize = 1, sy_StrictPow = False,
     sy_local = zero_flow\<lparr>fl_Type := FlOW_LOCAL, fl_Path := ''db''\<rparr>,
     sy_remote = zero_flow\<lparr>fl_Type := FlOW_REMOTE, fl_Relay := ''r.io'', fl_relayURI := Some ''wss://r.io'', fl_relayFallbackURI := Some ''ws://r.io''\<rparr>\<rparr>"

lemma ex_sync_decodes: "SyncSpec_UnmarshalJSON ex_spec_env (Inr ex_sync_json) = Inr ex_sync_spec"
  by code_simp

theorem spec_well_formed_witness:
  "RootSpec_UnmarshalJSON ex_spec_env (Inr (''Sync'', SpecValue \<lparr>sv_stream = Inl (Err [] []), sv_targets = Inl (Err [] []), sv_sync = Inr ex_sync_json\<rparr>)) = Inr (Sync_root ex_sync_spec)
   \<and> spec_ok (sp_net ex_spec_env) (Sync_root ex_sync_spec)"
proof -
  have *: "RootSpec_UnmarshalJSON ex_spec_env (Inr (''Sync'', SpecValue \<lparr>sv_stream = Inl (Err [] []), sv_targets = Inl (Err [] []), sv_sync = Inr ex_sync_json\<rparr>)) = Inr (Sync_root ex_sync_spec)"
    using ex_sync_decodes by (simp add: RootSpec_UnmarshalJSON_def decode_spec_def to_lower_def to_lower_char_def char_of_def bit_0)
  from spec_well_formed [OF this] * show ?thesis
    by simp
qed

section \<open>Sync\<close>

text \<open>
  C34. A pull under a decoded spec ends, after at most as many requests as ids were needed, when the relay answers each request only with events that it holds and was asked for, and with at least one
  if it holds any: every needed event that the relay holds is returned, and given to the store unless its proof of work is to be enforced and is not valid; nothing but needed ids is asked
  for; and what is reported as not served are the needed ids that the relay does not hold. \<open>answer_req serve\<close> are the relay's answers to the requests that the pull itself makes.
\<close>

theorem pull_complete:
  assumes "SyncSpec_UnmarshalJSON Es j = Inr spec" and "polite serve held"
  shows "\<exists>reqs acc. pullEvents E strictPow spec need_ids (concat (map (answer_req serve) reqs)) = (PullDone, acc, []) \<and> pa_asked acc = reqs \<and> length reqs \<le> length need_ids
    \<and> \<Union> (set ` set reqs) \<subseteq> set need_ids \<and> pa_unserved acc = length (filter (\<lambda>i. i \<notin> held) need_ids)
    \<and> (\<forall>i \<in> set need_ids \<inter> held. \<exists>b \<in> set reqs. \<exists>ev \<in> set (serve b). ev_ID ev = i
        \<and> (strictPow \<and> \<not> fl_Trusted (sy_remote spec) \<and> \<not> hasValidPow (ye_ValidatePow E) ev \<or> ev \<in> set (concat (pa_stored acc))))"
proof -
  have "0 < nat (sy_PullBatchSize spec)"
    using sync_spec_ok [OF assms(1)] by (simp add: spec_ok_def)
  let ?keep = "\<lambda>ev. \<not> ((strictPow \<and> \<not> fl_Trusted (sy_remote spec)) \<and> \<not> hasValidPow (ye_ValidatePow E) ev)"
  have pe: "pullEvents E strictPow spec need_ids ins = pull E (nat (sy_PullBatchSize spec)) ?keep need_ids no_pull ins" for ins
    by (simp only: pullEvents_def Let_def)
  from pull_run [OF assms(2) \<open>0 < nat (sy_PullBatchSize spec)\<close>, of E ?keep need_ids no_pull "[]"]
  obtain reqs acc where *: "pull E (nat (sy_PullBatchSize spec)) ?keep need_ids no_pull (concat (map (answer_req serve) reqs) @ []) = (PullDone, acc, [])" "pa_asked acc = pa_asked no_pull @ reqs"
    "length reqs \<le> length need_ids" "\<Union> (set ` set reqs) \<subseteq> set need_ids" "pa_unserved acc = pa_unserved no_pull + length (filter (\<lambda>i. i \<notin> held) need_ids)"
    "\<forall>i \<in> set need_ids \<inter> held. \<exists>b \<in> set reqs. i \<in> ev_ID ` set (serve b)" "concat (pa_stored acc) = concat (pa_stored no_pull) @ concat (map (\<lambda>b. filter ?keep (serve b)) reqs)"
    by (elim exE conjE)
  have st: "\<exists>b \<in> set reqs. \<exists>ev \<in> set (serve b). ev_ID ev = i
        \<and> (strictPow \<and> \<not> fl_Trusted (sy_remote spec) \<and> \<not> hasValidPow (ye_ValidatePow E) ev \<or> ev \<in> set (concat (pa_stored acc)))" if i: "i \<in> set need_ids \<inter> held" for i
  proof -
    obtain b ev where b: "b \<in> set reqs" "ev \<in> set (serve b)" "ev_ID ev = i"
      using bspec [OF *(6) i] by auto
    moreover from b(1,2) have "?keep ev \<Longrightarrow> ev \<in> set (concat (pa_stored acc))"
      unfolding *(7) by auto
    ultimately show ?thesis by blast
  qed
  show ?thesis
    using *(1-5) st by (intro exI [of _ reqs] exI [of _ acc] conjI ballI) (simp_all add: pe no_pull_def)
qed

text \<open>A relay that holds two of the three events asked for and returns one at a time.\<close>

definition ex_held :: "string set" where "ex_held = {''a'', ''b''}"

definition ex_event :: "string \<Rightarrow> event" where
  "ex_event i = \<lparr>ev_ID = i, ev_PubKey = [], ev_CreatedAt = 0, ev_Kind = 1, ev_Tags = [], ev_Content = [], ev_Sig = []\<rparr>"

definition ex_serve :: "string list \<Rightarrow> event list" where
  "ex_serve b = (case filter (\<lambda>i. i \<in> ex_held) b of [] \<Rightarrow> [] | i # _ \<Rightarrow> [ex_event i])"

lemma ex_serve_polite: "polite ex_serve ex_held"
  unfolding polite_def
proof (intro allI conjI ballI impI)
  fix b ev assume "ev \<in> set (ex_serve b)"
  then have "ev_ID ev \<in> set (filter (\<lambda>i. i \<in> ex_held) b)"
    by (cases "filter (\<lambda>i. i \<in> ex_held) b") (simp_all add: ex_serve_def ex_event_def)
  then show "ev_ID ev \<in> set b \<inter> ex_held"
    by simp
next
  fix b assume "set b \<inter> ex_held \<noteq> {}"
  then have "filter (\<lambda>i. i \<in> ex_held) b \<noteq> []"
    by (auto simp: filter_empty_conv)
  then show "ex_serve b \<noteq> []"
    by (simp add: ex_serve_def split: list.splits)
qed

definition ex_sync_env :: sync_env where
  "ex_sync_env = \<lparr>ye_QueryItems = (\<lambda>f. Inr []), ye_Read = (\<lambda>ids. Inr (map ex_event ids)), ye_Insert = (\<lambda>evs. InsertedAll), ye_ValidatePow = (\<lambda>ev. True), ye_Send = (\<lambda>ev. True)\<rparr>"

theorem pull_complete_witness:
  "SyncSpec_UnmarshalJSON ex_spec_env (Inr ex_sync_json) = Inr ex_sync_spec \<and> polite ex_serve ex_held
   \<and> (\<exists>reqs acc. pullEvents ex_sync_env False ex_sync_spec [''a'', ''x'', ''b''] (concat (map (answer_req ex_serve) reqs)) = (PullDone, acc, []) \<and> pa_unserved acc = 1 \<and> length reqs \<le> 3)"
proof -
  have "length (filter (\<lambda>i. i \<notin> ex_held) [''a'', ''x'', ''b'']) = 1"
    by (simp add: ex_held_def)
  with pull_complete [OF ex_sync_decodes ex_serve_polite, of ex_sync_env False "[''a'', ''x'', ''b'']"]
  have "\<exists>reqs acc. pullEvents ex_sync_env False ex_sync_spec [''a'', ''x'', ''b''] (concat (map (answer_req ex_serve) reqs)) = (PullDone, acc, []) \<and> pa_unserved acc = 1
      \<and> length reqs \<le> length [''a'', ''x'', ''b'']"
    by metis
  then show ?thesis
    using ex_sync_decodes ex_serve_polite by (simp add: numeral_3_eq_3)
qed






section \<open>Where the sync falls short\<close>

text \<open>
  A relay that answers each request with some event that was not asked for keeps the pull asking for the same ids for ever: the answer counts as a return, so nothing is given up, and nothing
  asked for is returned.
\<close>

lemma foreign_answer_loops:
  assumes "0 < n" "pending \<noteq> []" "ev_ID ev \<notin> set pending"
  shows "\<exists>a'. pull E n keep pending a (concat (replicate k [Resp (RelayEvent (Some ev)), Resp EoseMsg])) = (PullWaiting, a', []) \<and> pa_asked a' = pa_asked a @ replicate (Suc k) (take n pending)
    \<and> pa_unserved a' = pa_unserved a"
proof (induction k arbitrary: a)
  case 0
  then show ?case
    using assms by (simp add: pull.simps [of E n keep pending] Let_def)
next
  case (Suc k)
  have "filter (\<lambda>i. i \<notin> {ev_ID ev}) (take n pending) = take n pending"
    using assms(3) by (auto simp: filter_id_conv dest: in_set_takeD)
  then have same: "filter (\<lambda>i. i \<noteq> ev_ID ev) (take n pending) @ drop n pending = pending"
    by simp
  obtain a' where "pull E n keep pending (store_batch E (if keep ev then [ev] else []) (a\<lparr>pa_asked := pa_asked a @ [take n pending]\<rparr>)) (concat (replicate k [Resp (RelayEvent (Some ev)), Resp EoseMsg])) = (PullWaiting, a', [])"
    "pa_asked a' = pa_asked a @ take n pending # replicate (Suc k) (take n pending)" "pa_unserved a' = pa_unserved a"
    using Suc.IH [of "store_batch E (if keep ev then [ev] else []) (a\<lparr>pa_asked := pa_asked a @ [take n pending]\<rparr>)"] by auto
  then show ?case
    using assms(2) by (subst pull.simps) (auto simp: Let_def same split: if_splits)
qed

text \<open>A request that the relay closes is waited for: CLOSED is none of the messages that end a batch, and there is no timeout.\<close>

lemma closed_pull_waits: "batch_loop keep r es (replicate k (Resp OtherMsg)) = BatchWaiting"
  by (induction k) auto

text \<open>Any message uses up a round: after as many notices as rounds, the sync goes on as if there were no differences left to find.\<close>

lemma notices_use_up_rounds: "reconcile G k n sent h nd (replicate k (Resp (NoticeMsg t)) @ ins) = UsedUp sent h nd ins"
  by (induction k) auto

text \<open>The relay reconciles by the first filter alone, the store by all of them.\<close>

lemma later_filters_not_asked: "open_filter (f # fs) = open_filter [f]"
  by (simp add: open_filter_def)

end
