(* ===== verification/Client_Login.thy ===== *)
theory Client_Login
  imports Nostr Go_Text Prelude
begin

text \<open>
  A connection to a relay with its NIP-42 login (\<open>client/login.go\<close>), and publishing over it (\<open>client/publish.go\<close>). The login runs in a goroutine of its own; whoever reads the connection passes each
  message through \<open>observe\<close>. What a goroutine meets at its \<open>select\<close> statements, and the steps of the login's goroutine in between, are a list of ticks.
\<close>

section \<open>The session\<close>

datatype LoginReason = LoginRequired | LoginSignerRefused | LoginRelayRefused

datatype session_err = LoginError string LoginReason string | Failure goerr

datatype AuthState = AuthStateNone | AuthStateSucceeded | AuthStateFailed

datatype relay_line = Challenge string | OkLine string bool string | EventLine string event | EoseLine string | ClosedLine string string | NoticeLine string | OtherLine

datatype sent_packet = AuthPacket event | EventPacket event | ReqPacket string | CloseReq string

text \<open>Where the goroutine of the login is: not started, signing for a challenge, about to send, or at its end.\<close>

datatype login_pc = LoginIdle | LoginSigning string | LoginSending event | LoginEnded

record relaySession =
  ls_relay :: string
  ls_signer :: bool
  ls_open :: bool
  ls_asked :: bool
  ls_loginID :: string
  ls_state :: AuthState
  ls_failure :: "session_err option"
  ls_login :: login_pc
  ls_out :: "sent_packet list"

text \<open>\<open>dialRelayOnce\<close>: the session answers challenges itself, so the connection has no signer.\<close>

definition dialRelayOnce :: "(string \<Rightarrow> goerr option) \<Rightarrow> string \<Rightarrow> bool \<Rightarrow> goerr + relaySession" where
  "dialRelayOnce connect u signer =
     (case connect u of
        Some e \<Rightarrow> Inl e
      | None \<Rightarrow> Inr \<lparr>ls_relay = u, ls_signer = signer, ls_open = True, ls_asked = False, ls_loginID = [], ls_state = AuthStateNone, ls_failure = None, ls_login = LoginIdle, ls_out = []\<rparr>)"

text \<open>\<open>conn_error\<close> tells the errors that are of type \<open>ConnectionError\<close>.\<close>

definition dialRelay :: "(string \<Rightarrow> goerr option) \<Rightarrow> (goerr \<Rightarrow> bool) \<Rightarrow> string \<Rightarrow> string option \<Rightarrow> bool \<Rightarrow> goerr + relaySession" where
  "dialRelay connect conn_error primary fallback signer =
     (case dialRelayOnce connect primary signer of
        Inr s \<Rightarrow> Inr s
      | Inl e \<Rightarrow> (case fallback of None \<Rightarrow> Inl e | Some u \<Rightarrow> if conn_error e then dialRelayOnce connect u signer else Inl e))"

definition settle :: "AuthState \<Rightarrow> session_err option \<Rightarrow> relaySession \<Rightarrow> relaySession" where
  "settle st failure s = (if ls_state s \<noteq> AuthStateNone then s else s\<lparr>ls_state := st, ls_failure := failure\<rparr>)"

definition loggedIn :: "relaySession \<Rightarrow> bool" where
  "loggedIn s \<longleftrightarrow> ls_state s = AuthStateSucceeded"

definition challenged :: "relaySession \<Rightarrow> bool" where
  "challenged s \<longleftrightarrow> ls_asked s \<and> ls_signer s"

definition observe :: "relay_line \<Rightarrow> relaySession \<Rightarrow> bool \<times> relaySession" where
  "observe msg s =
     (case msg of
        Challenge c \<Rightarrow>
          if \<not> ls_signer s then (True, s)
          else if \<not> ls_asked s then (True, s\<lparr>ls_asked := True, ls_login := LoginSigning c\<rparr>)
          else (True, s)
      | OkLine i accepted message \<Rightarrow>
          if \<not> (ls_loginID s \<noteq> [] \<and> i = ls_loginID s) then (False, s)
          else if accepted then (True, settle AuthStateSucceeded None s)
          else (True, settle AuthStateFailed (Some (LoginError (ls_relay s) LoginRelayRefused message)) s)
      | _ \<Rightarrow> (False, s))"

section \<open>The login\<close>

abbreviation KindClientAuth :: int where "KindClientAuth \<equiv> 22242"

text \<open>What the signer answers: the event as it left it, a refusal (\<open>nip46.Error\<close>, as it is sent), or another error.\<close>

datatype sign_answer = SignedEvent event | SignRefused string | SignFailed goerr

text \<open>\<open>le_NewAuthEvent\<close> is \<open>nip42.NewAuthEvent\<close>, of a challenge and a relay; \<open>le_Verify\<close> whether an event's id and signature are good.\<close>

record login_env =
  le_NewAuthEvent :: "string \<Rightarrow> string \<Rightarrow> event"
  le_Verify :: "event \<Rightarrow> bool"

definition signLogin :: "login_env \<Rightarrow> sign_answer \<Rightarrow> string \<Rightarrow> string \<Rightarrow> session_err + event" where
  "signLogin E a relay challenge =
     (let want = le_NewAuthEvent E challenge relay in
      case a of
        SignFailed e \<Rightarrow> Inl (Failure (Wrap ''signing the login for %s: %w'' [relay] e))
      | SignRefused r \<Rightarrow> Inl (LoginError relay LoginSignerRefused r)
      | SignedEvent ev \<Rightarrow>
          if ev_Kind ev \<noteq> KindClientAuth \<or> ev_Content ev \<noteq> [] \<or> ev_Tags ev \<noteq> ev_Tags want \<or> \<not> le_Verify E ev
          then Inl (LoginError relay LoginSignerRefused ''signer returned a different login event'') else Inr ev)"

definition login_sign :: "login_env \<Rightarrow> sign_answer \<Rightarrow> relaySession \<Rightarrow> relaySession" where
  "login_sign E a s =
     (case ls_login s of
        LoginSigning c \<Rightarrow>
          (case signLogin E a (ls_relay s) c of
             Inl failure \<Rightarrow> settle AuthStateFailed (Some failure) (s\<lparr>ls_login := LoginEnded\<rparr>)
           | Inr ev \<Rightarrow> s\<lparr>ls_loginID := ev_ID ev, ls_login := LoginSending ev\<rparr>)
      | _ \<Rightarrow> s)"

definition login_send :: "relaySession \<Rightarrow> relaySession" where
  "login_send s = (case ls_login s of LoginSending ev \<Rightarrow> s\<lparr>ls_login := LoginEnded, ls_out := (if ls_open s then ls_out s @ [AuthPacket ev] else ls_out s)\<rparr> | _ \<Rightarrow> s)"

text \<open>What happens while a goroutine waits.\<close>

datatype tick = Reads relay_line | ReadClosed | ReadError goerr | ConnClosed | CtxEnds goerr | Timer | AskedSeen | LoginSigns sign_answer | LoginSends

definition background :: "login_env \<Rightarrow> tick \<Rightarrow> relaySession \<Rightarrow> relaySession" where
  "background E t s = (case t of LoginSigns a \<Rightarrow> login_sign E a s | LoginSends \<Rightarrow> login_send s | _ \<Rightarrow> s)"

text \<open>A call that returned, with the ticks left, or that still waits.\<close>

datatype 'a call = Returned 'a relaySession "tick list" | Blocked relaySession

definition then_do :: "'a call \<Rightarrow> ('a \<Rightarrow> relaySession \<Rightarrow> tick list \<Rightarrow> 'b call) \<Rightarrow> 'b call" where
  "then_do m f = (case m of Returned x s ts \<Rightarrow> f x s ts | Blocked s \<Rightarrow> Blocked s)"

section \<open>Waiting for the login\<close>

definition ErrConnectionClosed :: goerr where "ErrConnectionClosed = Err ''connection closed'' []"

fun await_loop :: "login_env \<Rightarrow> string \<Rightarrow> tick list \<Rightarrow> relaySession \<Rightarrow> session_err option call" where
  "await_loop E refusal [] s = (if ls_state s \<noteq> AuthStateNone then Returned (ls_failure s) s [] else Blocked s)"
| "await_loop E refusal (t # ts) s =
     (if ls_state s \<noteq> AuthStateNone then Returned (ls_failure s) s (t # ts)
      else (case t of
          Reads msg \<Rightarrow> await_loop E refusal ts (snd (observe msg s))
        | ReadClosed \<Rightarrow> Returned (Some (Failure ErrConnectionClosed)) s ts
        | ReadError e \<Rightarrow> Returned (Some (Failure e)) s ts
        | ConnClosed \<Rightarrow> Returned (Some (Failure ErrConnectionClosed)) (s\<lparr>ls_open := False\<rparr>) ts
        | CtxEnds e \<Rightarrow> Returned (Some (Failure e)) s ts
        | Timer \<Rightarrow>
            Returned (Some (if \<not> challenged s then LoginError (ls_relay s) LoginRelayRefused (refusal @ '' (the relay sent no AUTH challenge)'')
                            else LoginError (ls_relay s) LoginRelayRefused ''no answer to the login'')) s ts
        | _ \<Rightarrow> await_loop E refusal ts (background E t s)))"

definition awaitLogin :: "login_env \<Rightarrow> string \<Rightarrow> tick list \<Rightarrow> relaySession \<Rightarrow> session_err option call" where
  "awaitLogin E refusal ts s =
     (if \<not> ls_signer s then Returned (Some (LoginError (ls_relay s) LoginRequired refusal)) s ts else await_loop E refusal ts s)"

text \<open>\<open>AskedSeen\<close> is the choice of the closed channel \<open>askedCh\<close>, which another ready channel may delay.\<close>

fun first_loop :: "login_env \<Rightarrow> tick list \<Rightarrow> relaySession \<Rightarrow> session_err option call" where
  "first_loop E [] s = Blocked s"
| "first_loop E (t # ts) s =
     (case t of
        AskedSeen \<Rightarrow> if ls_asked s then awaitLogin E [] ts s else first_loop E ts s
      | Reads msg \<Rightarrow> first_loop E ts (snd (observe msg s))
      | ReadClosed \<Rightarrow> Returned (Some (Failure ErrConnectionClosed)) s ts
      | ReadError e \<Rightarrow> Returned (Some (Failure e)) s ts
      | CtxEnds e \<Rightarrow> Returned (Some (Failure e)) s ts
      | Timer \<Rightarrow> Returned None s ts
      | ConnClosed \<Rightarrow> first_loop E ts (s\<lparr>ls_open := False\<rparr>)
      | _ \<Rightarrow> first_loop E ts (background E t s))"

definition loginFirst :: "login_env \<Rightarrow> tick list \<Rightarrow> relaySession \<Rightarrow> session_err option call" where
  "loginFirst E ts s = (if \<not> ls_signer s then Returned None s ts else first_loop E ts s)"

definition refusedForLogin :: "string \<Rightarrow> bool" where
  "refusedForLogin msg = has_prefix msg ''auth-required:''"

definition restricted_msg :: "string \<Rightarrow> bool" where
  "restricted_msg msg = has_prefix msg ''restricted:''"

section \<open>Publishing\<close>

fun ok_loop :: "login_env \<Rightarrow> string \<Rightarrow> tick list \<Rightarrow> relaySession \<Rightarrow> (session_err + bool \<times> string) call" where
  "ok_loop E i [] s = Blocked s"
| "ok_loop E i (t # ts) s =
     (case t of
        Reads msg \<Rightarrow>
          (case observe msg s of
             (True, s') \<Rightarrow> ok_loop E i ts s'
           | (False, s') \<Rightarrow>
               (case msg of OkLine j accepted message \<Rightarrow> if j = i then Returned (Inr (accepted, message)) s' ts else ok_loop E i ts s' | _ \<Rightarrow> ok_loop E i ts s'))
      | ReadError e \<Rightarrow> Returned (Inl (Failure e)) s ts
      | ConnClosed \<Rightarrow> Returned (Inl (Failure (Err ''connection closed'' []))) (s\<lparr>ls_open := False\<rparr>) ts
      | CtxEnds e \<Rightarrow> Returned (Inl (Failure e)) s ts
      | Timer \<Rightarrow> Returned (Inl (Failure (Err ''timeout waiting for OK'' []))) s ts
      | _ \<Rightarrow> ok_loop E i ts (background E t s))"

definition awaitOK :: "login_env \<Rightarrow> event \<Rightarrow> tick list \<Rightarrow> relaySession \<Rightarrow> (session_err + bool \<times> string) call" where
  "awaitOK E ev ts s =
     (if \<not> ls_open s then Returned (Inl (Failure (Err ''connection closed during send'' []))) s ts
      else ok_loop E (ev_ID ev) ts (s\<lparr>ls_out := ls_out s @ [EventPacket ev]\<rparr>))"

text \<open>What an answer that is no acceptance, and no request to log in that is followed, makes of a publish.\<close>

definition refused_publish :: "string \<Rightarrow> relaySession \<Rightarrow> session_err" where
  "refused_publish msg s =
     (if loggedIn s \<and> (refusedForLogin msg \<or> restricted_msg msg) then LoginError (ls_relay s) LoginRelayRefused msg else Failure (Err ''relay rejected event: %s'' [msg]))"

definition publish_again :: "login_env \<Rightarrow> event \<Rightarrow> tick list \<Rightarrow> relaySession \<Rightarrow> (session_err + string) call" where
  "publish_again E ev ts s =
     then_do (awaitOK E ev ts s) (\<lambda>r s1 ts1.
       case r of Inl e \<Rightarrow> Returned (Inl e) s1 ts1 | Inr (accepted, msg) \<Rightarrow> Returned (if accepted then Inr msg else Inl (refused_publish msg s1)) s1 ts1)"

definition publish :: "login_env \<Rightarrow> event \<Rightarrow> tick list \<Rightarrow> relaySession \<Rightarrow> (session_err + string) call" where
  "publish E ev ts s =
     then_do (awaitOK E ev ts s) (\<lambda>r s1 ts1.
       case r of
         Inl e \<Rightarrow> Returned (Inl e) s1 ts1
       | Inr (accepted, msg) \<Rightarrow>
           if accepted then Returned (Inr msg) s1 ts1
           else if refusedForLogin msg then
             then_do (awaitLogin E msg ts1 s1) (\<lambda>l s2 ts2. case l of Some e \<Rightarrow> Returned (Inl e) s2 ts2 | None \<Rightarrow> publish_again E ev ts2 s2)
           else Returned (Inl (refused_publish msg s1)) s1 ts1)"

section \<open>Reading\<close>

text \<open>The answers to one request: the events, and the message of a CLOSED.\<close>

fun sub_loop :: "login_env \<Rightarrow> string \<Rightarrow> event list \<Rightarrow> tick list \<Rightarrow> relaySession \<Rightarrow> (session_err + event list \<times> string option) call" where
  "sub_loop E sub events [] s = Blocked s"
| "sub_loop E sub events (t # ts) s =
     (case t of
        ReadClosed \<Rightarrow> Returned (Inr (events, None)) s ts
      | Reads msg \<Rightarrow>
          (case observe msg s of
             (True, s') \<Rightarrow> sub_loop E sub events ts s'
           | (False, s') \<Rightarrow>
               (case msg of
                  EventLine i ev \<Rightarrow> sub_loop E sub (if i = sub then events @ [ev] else events) ts s'
                | EoseLine i \<Rightarrow> if i = sub then Returned (Inr (events, None)) (s'\<lparr>ls_out := ls_out s' @ [CloseReq sub]\<rparr>) ts else sub_loop E sub events ts s'
                | ClosedLine i m \<Rightarrow> if i = sub then Returned (Inr (events, Some m)) s' ts else sub_loop E sub events ts s'
                | _ \<Rightarrow> sub_loop E sub events ts s'))
      | ReadError e \<Rightarrow> Returned (Inl (Failure e)) s ts
      | CtxEnds e \<Rightarrow> Returned (Inl (Failure e)) s ts
      | ConnClosed \<Rightarrow> sub_loop E sub events ts (s\<lparr>ls_open := False\<rparr>)
      | _ \<Rightarrow> sub_loop E sub events ts (background E t s))"

definition subscribeOnce :: "login_env \<Rightarrow> string \<Rightarrow> tick list \<Rightarrow> relaySession \<Rightarrow> (session_err + event list \<times> string option) call" where
  "subscribeOnce E sub ts s =
     (if \<not> ls_open s then Returned (Inl (Failure ErrConnectionClosed)) s ts else sub_loop E sub [] ts (s\<lparr>ls_out := ls_out s @ [ReqPacket sub]\<rparr>))"

definition read_again :: "login_env \<Rightarrow> string \<Rightarrow> tick list \<Rightarrow> relaySession \<Rightarrow> (session_err + event list \<times> bool) call" where
  "read_again E sub ts s =
     then_do (subscribeOnce E sub ts s) (\<lambda>r s1 ts1.
       case r of
         Inl e \<Rightarrow> Returned (Inl e) s1 ts1
       | Inr (events, Some m) \<Rightarrow> Returned (if refusedForLogin m then Inl (LoginError (ls_relay s1) LoginRelayRefused m) else Inr (events, restricted_msg m)) s1 ts1
       | Inr (events, None) \<Rightarrow> Returned (Inr (events, False)) s1 ts1)"

definition is_login_error :: "session_err \<Rightarrow> bool" where
  "is_login_error e = (case e of LoginError _ _ _ \<Rightarrow> True | Failure _ \<Rightarrow> False)"

text \<open>\<open>sub1\<close> and \<open>sub2\<close> are the fresh ids of the two requests.\<close>

definition read_session :: "login_env \<Rightarrow> string \<Rightarrow> string \<Rightarrow> tick list \<Rightarrow> relaySession \<Rightarrow> (session_err + event list \<times> bool) call" where
  "read_session E sub1 sub2 ts s =
     then_do (subscribeOnce E sub1 ts s) (\<lambda>r s1 ts1.
       case r of
         Inl e \<Rightarrow> Returned (Inl e) s1 ts1
       | Inr (events, closed) \<Rightarrow>
           let closedMsg = (case closed of Some m \<Rightarrow> m | None \<Rightarrow> []) in
           if closed \<noteq> None \<and> refusedForLogin closedMsg then
             then_do (awaitLogin E closedMsg ts1 s1) (\<lambda>l s2 ts2. case l of Some e \<Rightarrow> Returned (Inl e) s2 ts2 | None \<Rightarrow> read_again E sub2 ts2 s2)
           else if challenged s1 \<and> \<not> loggedIn s \<and> (closed = None \<or> restricted_msg closedMsg) then
             then_do (awaitLogin E closedMsg ts1 s1) (\<lambda>l s2 ts2. case l of
                 Some e \<Rightarrow> if is_login_error e \<and> closed = None then Returned (Inr (events, False)) s2 ts2 else Returned (Inl e) s2 ts2
               | None \<Rightarrow> read_again E sub2 ts2 s2)
           else Returned (Inr (events, closed \<noteq> None \<and> restricted_msg closedMsg)) s1 ts1)"

end
