(* ===== verification/Client_Login_Safe.thy ===== *)
theory Client_Login_Safe
  imports Client_Login
begin

text \<open>
  A session over time: under any order of messages, sends and steps of the login, one login is sent at most, for the relay that was dialled and its first challenge; and what the calls return.
\<close>

section \<open>Sessions\<close>

text \<open>A session and the lines that were observed so far.\<close>

inductive session_run :: "login_env \<Rightarrow> string \<Rightarrow> bool \<Rightarrow> relaySession \<Rightarrow> relay_line list \<Rightarrow> bool" for E u signer where
  dialled: "dialRelayOnce connect u signer = Inr s \<Longrightarrow> session_run E u signer s []"
| observed: "session_run E u signer s h \<Longrightarrow> session_run E u signer (snd (observe m s)) (h @ [m])"
| meanwhile: "session_run E u signer s h \<Longrightarrow> session_run E u signer (background E t s) h"
| sent: "session_run E u signer s h \<Longrightarrow> \<forall>ev. p \<noteq> AuthPacket ev \<Longrightarrow> session_run E u signer (s\<lparr>ls_out := ls_out s @ [p]\<rparr>) h"
| closed: "session_run E u signer s h \<Longrightarrow> session_run E u signer (s\<lparr>ls_open := False\<rparr>) h"

definition login_event :: "login_env \<Rightarrow> string \<Rightarrow> string \<Rightarrow> event \<Rightarrow> bool" where
  "login_event E relay challenge ev \<longleftrightarrow> ev_Kind ev = KindClientAuth \<and> ev_Content ev = [] \<and> ev_Tags ev = ev_Tags (le_NewAuthEvent E challenge relay) \<and> le_Verify E ev"

definition is_auth :: "sent_packet \<Rightarrow> bool" where
  "is_auth p = (case p of AuthPacket _ \<Rightarrow> True | _ \<Rightarrow> False)"

definition first_challenge :: "relay_line list \<Rightarrow> string option" where
  "first_challenge h = first_some (\<lambda>m. case m of Challenge c \<Rightarrow> Some c | _ \<Rightarrow> None) h"

lemma first_challenge_append [simp]:
  "first_challenge [] = None" "first_challenge (h @ [m]) = (case first_challenge h of Some c \<Rightarrow> Some c | None \<Rightarrow> (case m of Challenge c \<Rightarrow> Some c | _ \<Rightarrow> None))"
proof -
  have "first_some f (xs @ [x]) = (case first_some f xs of Some y \<Rightarrow> Some y | None \<Rightarrow> f x)" for f :: "relay_line \<Rightarrow> string option" and xs x
    by (induction xs) (auto split: option.split)
  then show "first_challenge [] = None" "first_challenge (h @ [m]) = (case first_challenge h of Some c \<Rightarrow> Some c | None \<Rightarrow> (case m of Challenge c \<Rightarrow> Some c | _ \<Rightarrow> None))"
    by (simp_all add: first_challenge_def)
qed

text \<open>What holds of a session at each place of its login.\<close>

definition login_at :: "login_env \<Rightarrow> string \<Rightarrow> relaySession \<Rightarrow> relay_line list \<Rightarrow> bool" where
  "login_at E u s h =
     (case ls_login s of
        LoginIdle \<Rightarrow> \<not> ls_asked s \<and> ls_loginID s = [] \<and> filter is_auth (ls_out s) = []
      | LoginSigning c \<Rightarrow> ls_asked s \<and> first_challenge h = Some c \<and> ls_loginID s = [] \<and> filter is_auth (ls_out s) = []
      | LoginSending ev \<Rightarrow> ls_asked s \<and> (\<exists>c. first_challenge h = Some c \<and> login_event E u c ev) \<and> ls_loginID s = ev_ID ev \<and> filter is_auth (ls_out s) = []
      | LoginEnded \<Rightarrow> ls_asked s \<and> (ls_loginID s = [] \<and> filter is_auth (ls_out s) = []
          \<or> (\<exists>c ev. first_challenge h = Some c \<and> login_event E u c ev \<and> ls_loginID s = ev_ID ev \<and> filter is_auth (ls_out s) \<in> {[], [AuthPacket ev]})))"

definition session_inv :: "login_env \<Rightarrow> string \<Rightarrow> bool \<Rightarrow> relaySession \<Rightarrow> relay_line list \<Rightarrow> bool" where
  "session_inv E u signer s h \<longleftrightarrow> ls_relay s = u \<and> ls_signer s = signer \<and> login_at E u s h \<and> (ls_asked s \<longleftrightarrow> signer \<and> first_challenge h \<noteq> None)
     \<and> (ls_state s = AuthStateFailed \<longleftrightarrow> ls_failure s \<noteq> None)
     \<and> (loggedIn s \<longrightarrow> ls_loginID s \<noteq> [] \<and> (\<exists>m. OkLine (ls_loginID s) True m \<in> set h))"

lemma observe_inv:
  assumes "session_inv E u signer s h"
  shows "session_inv E u signer (snd (observe m s)) (h @ [m])"
proof (cases m)
  case (Challenge c)
  then show ?thesis
    using assms by (cases "ls_login s") (auto simp: session_inv_def observe_def login_at_def loggedIn_def split: option.splits)
next
  case (OkLine i acc msg)
  then show ?thesis
    using assms by (cases "ls_login s") (auto simp: session_inv_def observe_def login_at_def loggedIn_def settle_def split: option.splits)
qed (use assms in \<open>cases "ls_login s"; auto simp: session_inv_def observe_def login_at_def loggedIn_def split: option.splits\<close>)+

lemma signLogin_Inr: "signLogin E a u c = Inr ev \<Longrightarrow> login_event E u c ev"
  by (auto simp: signLogin_def login_event_def Let_def split: sign_answer.splits if_splits)

lemma login_sign_inv:
  assumes "session_inv E u signer s h"
  shows "session_inv E u signer (login_sign E a s) h"
proof (cases "ls_login s")
  case (LoginSigning c)
  show ?thesis
  proof (cases "signLogin E a (ls_relay s) c")
    case (Inl f)
    then show ?thesis
      using assms LoginSigning by (auto simp: session_inv_def login_sign_def settle_def login_at_def loggedIn_def)
  next
    case (Inr ev)
    then show ?thesis
      using assms LoginSigning signLogin_Inr [OF Inr] by (auto simp: session_inv_def login_sign_def login_at_def loggedIn_def)
  qed
qed (use assms in \<open>simp_all add: login_sign_def\<close>)

lemma login_send_inv:
  assumes "session_inv E u signer s h"
  shows "session_inv E u signer (login_send s) h"
  using assms by (cases "ls_login s") (auto simp: session_inv_def login_send_def login_at_def loggedIn_def is_auth_def)

lemma session_run_inv: "session_run E u signer s h \<Longrightarrow> session_inv E u signer s h"
proof (induction rule: session_run.induct)
  case (dialled connect s)
  then show ?case
    by (auto simp: dialRelayOnce_def session_inv_def login_at_def loggedIn_def split: option.splits)
next
  case (meanwhile s h t)
  then show ?case
    by (auto simp: background_def login_sign_inv login_send_inv split: tick.split)
next
  case (sent s h p)
  then have "\<not> is_auth p"
    by (auto simp: is_auth_def split: sent_packet.splits)
  with sent.IH show ?case
    by (auto simp: session_inv_def login_at_def loggedIn_def split: login_pc.splits)
next
  case (closed s h)
  then show ?case
    by (auto simp: session_inv_def login_at_def loggedIn_def split: login_pc.splits)
qed (rule observe_inv)

section \<open>Calls\<close>

text \<open>The packets other than logins; only sends change them.\<close>

definition requests :: "relaySession \<Rightarrow> sent_packet list" where
  "requests s = filter (\<lambda>p. \<not> is_auth p) (ls_out s)"

lemma requests_observe [simp]: "requests (snd (observe m s)) = requests s"
  by (auto simp: requests_def observe_def settle_def split: relay_line.split)

lemma requests_background [simp]: "requests (background E t s) = requests s"
  by (auto simp: requests_def background_def login_sign_def login_send_def settle_def is_auth_def split: tick.split login_pc.split sum.split)

lemma requests_open [simp]: "requests (s\<lparr>ls_open := b\<rparr>) = requests s"
  by (simp add: requests_def)

text \<open>A login that settled stays as it is.\<close>

lemma settled_stays:
  "ls_signer (snd (observe m s)) = ls_signer s" "ls_signer (background E t s) = ls_signer s"
  "ls_state s \<noteq> AuthStateNone \<Longrightarrow> ls_state (snd (observe m s)) = ls_state s \<and> ls_failure (snd (observe m s)) = ls_failure s"
  "ls_state s \<noteq> AuthStateNone \<Longrightarrow> ls_state (background E t s) = ls_state s \<and> ls_failure (background E t s) = ls_failure s"
  by (auto simp: observe_def settle_def background_def login_sign_def login_send_def split: relay_line.split tick.split login_pc.split sum.split)

text \<open>How a call takes a session on: it is a run of the session, over lines among its ticks, with some packets sent.\<close>

definition takes :: "login_env \<Rightarrow> string \<Rightarrow> bool \<Rightarrow> relaySession \<Rightarrow> tick list \<Rightarrow> relaySession \<Rightarrow> tick list \<Rightarrow> sent_packet list \<Rightarrow> bool" where
  "takes E u signer s ts s' ts' ps \<longleftrightarrow> requests s' = requests s @ ps \<and> set ts' \<subseteq> set ts \<and> (ls_state s \<noteq> AuthStateNone \<longrightarrow> ls_state s' = ls_state s \<and> ls_failure s' = ls_failure s)
     \<and> ls_signer s' = ls_signer s
     \<and> (\<forall>h. session_run E u signer s h \<longrightarrow> (\<exists>h'. session_run E u signer s' h' \<and> set h' \<subseteq> set h \<union> {m. Reads m \<in> set ts}))"

lemma takes_refl: "takes E u signer s ts s ts []"
  by (auto simp: takes_def)

lemma takes_trans:
  assumes "takes E u signer s ts s1 ts1 ps" "takes E u signer s1 ts1 s2 ts2 qs"
  shows "takes E u signer s ts s2 ts2 (ps @ qs)"
  unfolding takes_def
proof (intro conjI allI impI)
  fix h assume "session_run E u signer s h"
  then obtain h1 where h1: "session_run E u signer s1 h1" "set h1 \<subseteq> set h \<union> {m. Reads m \<in> set ts}"
    using assms(1) unfolding takes_def by blast
  then obtain h2 where "session_run E u signer s2 h2" "set h2 \<subseteq> set h1 \<union> {m. Reads m \<in> set ts1}"
    using assms(2) unfolding takes_def by blast
  moreover have "set ts1 \<subseteq> set ts" using assms(1) by (simp add: takes_def)
  ultimately show "\<exists>h'. session_run E u signer s2 h' \<and> set h' \<subseteq> set h \<union> {m. Reads m \<in> set ts}"
    using h1(2) by blast
qed (use assms in \<open>auto simp: takes_def\<close>)

lemma takes_observe: "takes E u signer s (Reads m # ts) (snd (observe m s)) ts []"
  unfolding takes_def by (fastforce simp: settled_stays intro: session_run.observed)

lemma takes_background: "takes E u signer s (t # ts) (background E t s) ts []"
  unfolding takes_def by (fastforce simp: settled_stays intro: session_run.meanwhile)

lemma takes_skip: "takes E u signer s (t # ts) s ts []"
  unfolding takes_def by fastforce

lemma takes_close: "takes E u signer s (t # ts) (s\<lparr>ls_open := False\<rparr>) ts []"
  unfolding takes_def by (fastforce intro: session_run.closed)

lemma takes_send: "\<not> is_auth p \<Longrightarrow> takes E u signer s ts (s\<lparr>ls_out := ls_out s @ [p]\<rparr>) ts [p]"
  unfolding takes_def by (fastforce simp: requests_def is_auth_def intro: session_run.sent)

text \<open>The wait for the login sends nothing but the login, and ends without an error only when the login settled without one.\<close>

lemma await_takes:
  "await_loop E r ts s = Returned x s' ts' \<Longrightarrow> takes E u signer s ts s' ts' [] \<and> (x = None \<longrightarrow> ls_state s' \<noteq> AuthStateNone \<and> ls_failure s' = None)"
proof (induction ts arbitrary: s)
  case Nil
  then show ?case by (auto simp: takes_refl split: if_splits)
next
  case (Cons t ts)
  have go: ?case if "takes E u signer s (t # ts) s1 ts []" "await_loop E r ts s1 = Returned x s' ts'" for s1
    using Cons.IH [OF that(2)] takes_trans [OF that(1), of s' ts' "[]"] by simp
  show ?case
  proof (cases "ls_state s \<noteq> AuthStateNone")
    case True
    then show ?thesis using Cons.prems by (auto simp: takes_refl)
  next
    case False
    then show ?thesis
    proof (cases t)
      case (Reads m)
      then show ?thesis
        using Cons.prems False go [OF takes_observe [of E u signer s m ts, folded Reads]] by simp
    qed (use Cons.prems False go [OF takes_background] in \<open>auto simp: takes_skip takes_close\<close>)
  qed
qed

lemma awaitLogin_takes:
  assumes "awaitLogin E r ts s = Returned x s' ts'"
  shows "takes E u signer s ts s' ts' [] \<and> (x = None \<longrightarrow> ls_state s' \<noteq> AuthStateNone \<and> ls_failure s' = None)"
  using assms await_takes by (fastforce simp: awaitLogin_def takes_refl split: if_splits)

lemma ok_takes:
  "ok_loop E i ts s = Returned x s' ts' \<Longrightarrow> takes E u signer s ts s' ts' [] \<and> (\<forall>acc msg. x = Inr (acc, msg) \<longrightarrow> Reads (OkLine i acc msg) \<in> set ts)"
proof (induction ts arbitrary: s)
  case (Cons t ts)
  have go: ?case if "takes E u signer s (t # ts) s1 ts []" "ok_loop E i ts s1 = Returned x s' ts'" for s1
    using Cons.IH [OF that(2)] takes_trans [OF that(1), of s' ts' "[]"] by simp
  show ?case
  proof (cases t)
    case (Reads m)
    obtain b s1 where o: "observe m s = (b, s1)" by fastforce
    have t1: "takes E u signer s (t # ts) s1 ts []"
      using takes_observe [of E u signer s m ts] o Reads by simp
    have "(\<exists>acc msg. m = OkLine i acc msg \<and> x = Inr (acc, msg) \<and> s1 = s' \<and> ts = ts') \<or> ok_loop E i ts s1 = Returned x s' ts'"
      using Cons.prems o Reads by (cases b; cases m) (auto split: if_splits)
    then show ?thesis
      using go [OF t1] t1 Reads by auto
  qed (use Cons.prems go [OF takes_background] in \<open>auto simp: takes_skip takes_close\<close>)
qed simp

lemma awaitOK_takes:
  assumes "awaitOK E ev ts s = Returned x s' ts'"
  shows "(\<exists>ps. takes E u signer s ts s' ts' ps \<and> (ps = [EventPacket ev] \<or> ps = [] \<and> isl x)) \<and> (\<forall>acc msg. x = Inr (acc, msg) \<longrightarrow> Reads (OkLine (ev_ID ev) acc msg) \<in> set ts)"
proof (cases "ls_open s")
  case False
  then show ?thesis using assms takes_refl by (fastforce simp: awaitOK_def)
next
  case True
  then have "ok_loop E (ev_ID ev) ts (s\<lparr>ls_out := ls_out s @ [EventPacket ev]\<rparr>) = Returned x s' ts'"
    using assms by (simp add: awaitOK_def)
  note ok = ok_takes [OF this, of u signer]
  have "takes E u signer s ts s' ts' ([EventPacket ev] @ [])"
    by (rule takes_trans [OF takes_send conjunct1 [OF ok]]) (simp add: is_auth_def)
  then show ?thesis
    using ok by auto
qed

text \<open>A publish sends its event once, or twice when a login succeeded in between, and returns a message only with the relay's acceptance.\<close>

definition published :: "event \<Rightarrow> tick list \<Rightarrow> session_err + string \<Rightarrow> relaySession \<Rightarrow> sent_packet list \<Rightarrow> bool" where
  "published ev ts r s' ps \<longleftrightarrow> (ps = [] \<and> isl r \<or> ps = [EventPacket ev] \<or> ps = [EventPacket ev, EventPacket ev] \<and> ls_signer s' \<and> ls_state s' \<noteq> AuthStateNone \<and> ls_failure s' = None)
     \<and> (\<forall>msg. r = Inr msg \<longrightarrow> Reads (OkLine (ev_ID ev) True msg) \<in> set ts)"

lemma publish_again_takes:
  assumes "publish_again E ev ts s = Returned r s' ts'"
  shows "\<exists>ps. takes E u signer s ts s' ts' ps \<and> (ps = [EventPacket ev] \<or> ps = [] \<and> isl r) \<and> (\<forall>msg. r = Inr msg \<longrightarrow> Reads (OkLine (ev_ID ev) True msg) \<in> set ts)"
proof -
  obtain x where x: "awaitOK E ev ts s = Returned x s' ts'" "r = (case x of Inl e \<Rightarrow> Inl e | Inr (acc, msg) \<Rightarrow> if acc then Inr msg else Inl (refused_publish msg s'))"
    using assms by (auto simp: publish_again_def then_do_def split: call.splits sum.splits)
  show ?thesis
    using awaitOK_takes [OF x(1), of u signer] x(2) by (cases x) (auto split: if_splits)
qed

lemma publish_takes:
  assumes "publish E ev ts s = Returned r s' ts'"
  shows "\<exists>ps. takes E u signer s ts s' ts' ps \<and> published ev ts r s' ps"
proof -
  obtain x s1 ts1 where x: "awaitOK E ev ts s = Returned x s1 ts1"
    using assms by (auto simp: publish_def then_do_def split: call.splits)
  note ok = awaitOK_takes [OF x, of u signer]
  show ?thesis
  proof (cases "\<exists>msg. x = Inr (False, msg) \<and> refusedForLogin msg")
    case False
    then have "s1 = s'" "ts1 = ts'" "isl x \<longrightarrow> isl r" "\<forall>msg. r = Inr msg \<longrightarrow> x = Inr (True, msg)"
      using assms x by (auto simp: publish_def then_do_def split: sum.splits if_splits)
    with ok show ?thesis
      by (auto simp: published_def)
  next
    case True
    then obtain msg where msg: "x = Inr (False, msg)" "refusedForLogin msg" by blast
    obtain ps where ps: "takes E u signer s ts s1 ts1 ps" "ps = [EventPacket ev]"
      using ok msg by auto
    obtain l s2 ts2 where l: "awaitLogin E msg ts1 s1 = Returned l s2 ts2"
      using assms x msg by (auto simp: publish_def then_do_def split: call.splits)
    note lt = awaitLogin_takes [OF l, of u signer]
    have t2: "takes E u signer s ts s2 ts2 [EventPacket ev]"
      using takes_trans [OF ps(1) conjunct1 [OF lt]] ps(2) by simp
    show ?thesis
    proof (cases l)
      case (Some e)
      then have "s2 = s'" "ts2 = ts'" "r = Inl e"
        using assms x msg l by (auto simp: publish_def then_do_def)
      with t2 show ?thesis by (auto simp: published_def)
    next
      case None
      then have again: "publish_again E ev ts2 s2 = Returned r s' ts'"
        using assms x msg l by (auto simp: publish_def then_do_def)
      obtain qs where qs: "takes E u signer s2 ts2 s' ts' qs" "qs = [EventPacket ev] \<or> qs = [] \<and> isl r" "\<forall>msg. r = Inr msg \<longrightarrow> Reads (OkLine (ev_ID ev) True msg) \<in> set ts2"
        using publish_again_takes [OF again, of u signer] by blast
      have "ls_signer s1" using l None by (auto simp: awaitLogin_def split: if_splits)
      then have "ls_signer s' \<and> ls_state s' \<noteq> AuthStateNone \<and> ls_failure s' = None"
        using lt None qs(1) by (auto simp: takes_def)
      moreover have "set ts2 \<subseteq> set ts" using t2 by (simp add: takes_def)
      ultimately have "published ev ts r s' ([EventPacket ev] @ qs)"
        using qs(2,3) by (auto simp: published_def)
      then show ?thesis
        using takes_trans [OF t2 qs(1)] by blast
    qed
  qed
qed

text \<open>A read returns events that the relay sent for its requests, and reports a restriction that the relay gave; the second request is made only after a login that succeeded.\<close>

definition sub_result :: "string \<Rightarrow> tick set \<Rightarrow> session_err + event list \<times> string option \<Rightarrow> bool" where
  "sub_result sub T x \<longleftrightarrow> (\<forall>evs c. x = Inr (evs, c) \<longrightarrow> (\<forall>ev \<in> set evs. Reads (EventLine sub ev) \<in> T) \<and> (\<forall>m. c = Some m \<longrightarrow> Reads (ClosedLine sub m) \<in> T))"

lemma sub_takes:
  assumes "sub_loop E sub events ts s = Returned x s' ts'" and "\<forall>ev \<in> set events. Reads (EventLine sub ev) \<in> T" and "set ts \<subseteq> T"
  shows "(\<exists>ps. takes E u signer s ts s' ts' ps \<and> set ps \<subseteq> {CloseReq sub}) \<and> sub_result sub T x"
  using assms
proof (induction ts arbitrary: s events)
  case (Cons t ts)
  have go: ?case if "takes E u signer s (t # ts) s1 ts []" "sub_loop E sub evs1 ts s1 = Returned x s' ts'" "\<forall>ev \<in> set evs1. Reads (EventLine sub ev) \<in> T" for s1 evs1
    using Cons.IH [OF that(2,3)] Cons.prems(3) takes_trans [OF that(1)] by fastforce
  have stop: "\<exists>ps. takes E u signer s (t # ts) s1 ts ps \<and> set ps \<subseteq> {CloseReq sub}" if "takes E u signer s (t # ts) s1 ts []" for s1
    using that by fastforce
  show ?case
  proof (cases t)
    case (Reads m)
    obtain b s1 where o: "observe m s = (b, s1)" by fastforce
    have t1: "takes E u signer s (t # ts) s1 ts []"
      using takes_observe [of E u signer s m ts] o Reads by simp
    have "takes E u signer s (t # ts) (s1\<lparr>ls_out := ls_out s1 @ [CloseReq sub]\<rparr>) ts ([] @ [CloseReq sub])"
      by (rule takes_trans [OF t1 takes_send]) (simp add: is_auth_def)
    then have t2: "\<exists>ps. takes E u signer s (t # ts) (s1\<lparr>ls_out := ls_out s1 @ [CloseReq sub]\<rparr>) ts ps \<and> set ps \<subseteq> {CloseReq sub}"
      by fastforce
    have "sub_loop E sub events ts s1 = Returned x s' ts' \<or> (\<exists>ev. m = EventLine sub ev \<and> sub_loop E sub (events @ [ev]) ts s1 = Returned x s' ts')
      \<or> x = Inr (events, None) \<and> s' = s1\<lparr>ls_out := ls_out s1 @ [CloseReq sub]\<rparr> \<and> ts' = ts \<or> (\<exists>msg. m = ClosedLine sub msg \<and> x = Inr (events, Some msg) \<and> s' = s1 \<and> ts' = ts)"
      using Cons.prems(1) Reads o by (cases b; cases m) (simp_all split: if_splits)
    then consider (more) evs1 where "sub_loop E sub evs1 ts s1 = Returned x s' ts'" "\<forall>ev \<in> set evs1. Reads (EventLine sub ev) \<in> T"
      | (eose) "x = Inr (events, None)" "s' = s1\<lparr>ls_out := ls_out s1 @ [CloseReq sub]\<rparr>" "ts' = ts" | (closed) msg where "m = ClosedLine sub msg" "x = Inr (events, Some msg)" "s' = s1" "ts' = ts"
      using Cons.prems(2,3) Reads by (elim disjE exE conjE) auto
    then show ?thesis
    proof cases
      case more
      then show ?thesis by (rule go [OF t1])
    next
      case eose
      then show ?thesis using t2 Cons.prems(2) by (simp add: sub_result_def)
    next
      case closed
      then show ?thesis using stop [OF t1] Cons.prems(2,3) Reads by (simp add: sub_result_def)
    qed
  qed (use Cons.prems go [OF takes_background, of events] go [OF takes_close, of events] stop [OF takes_skip] in \<open>auto simp: sub_result_def\<close>)
qed simp

lemma subscribe_takes:
  assumes "subscribeOnce E sub ts s = Returned x s' ts'"
  shows "(\<exists>ps. takes E u signer s ts s' ts' ps \<and> set ps \<subseteq> {ReqPacket sub, CloseReq sub}) \<and> sub_result sub (set ts) x"
proof (cases "ls_open s")
  case False
  then show ?thesis
    using assms takes_refl by (fastforce simp: subscribeOnce_def sub_result_def)
next
  case True
  then have "sub_loop E sub [] ts (s\<lparr>ls_out := ls_out s @ [ReqPacket sub]\<rparr>) = Returned x s' ts'"
    using assms by (simp add: subscribeOnce_def)
  from sub_takes [OF this, of "set ts" u signer] obtain ps where ps: "takes E u signer (s\<lparr>ls_out := ls_out s @ [ReqPacket sub]\<rparr>) ts s' ts' ps" "set ps \<subseteq> {CloseReq sub}" "sub_result sub (set ts) x"
    by auto
  have "takes E u signer s ts s' ts' ([ReqPacket sub] @ ps)"
    by (rule takes_trans [OF takes_send ps(1)]) (simp add: is_auth_def)
  then show ?thesis
    using ps(2,3) by fastforce
qed

lemma sub_result_mono: "sub_result sub T x \<Longrightarrow> T \<subseteq> T' \<Longrightarrow> sub_result sub T' x"
  unfolding sub_result_def by blast

text \<open>The events of a read and its restriction, as the relay gave them.\<close>

definition read_result :: "string set \<Rightarrow> tick set \<Rightarrow> session_err + event list \<times> bool \<Rightarrow> bool" where
  "read_result subs T r \<longleftrightarrow> (\<forall>evs restricted. r = Inr (evs, restricted) \<longrightarrow> (\<forall>ev \<in> set evs. \<exists>sub \<in> subs. Reads (EventLine sub ev) \<in> T)
     \<and> (restricted \<longrightarrow> (\<exists>sub \<in> subs. \<exists>m. restricted_msg m \<and> Reads (ClosedLine sub m) \<in> T)))"

lemma read_again_takes:
  assumes "read_again E sub ts s = Returned r s' ts'"
  shows "(\<exists>ps. takes E u signer s ts s' ts' ps \<and> set ps \<subseteq> {ReqPacket sub, CloseReq sub}) \<and> read_result {sub} (set ts) r"
proof -
  obtain x where x: "subscribeOnce E sub ts s = Returned x s' ts'" "r = (case x of Inl e \<Rightarrow> Inl e
      | Inr (events, Some m) \<Rightarrow> (if refusedForLogin m then Inl (LoginError (ls_relay s') LoginRelayRefused m) else Inr (events, restricted_msg m)) | Inr (events, None) \<Rightarrow> Inr (events, False))"
    using assms by (auto simp: read_again_def then_do_def split: call.splits sum.splits option.splits)
  show ?thesis
    using subscribe_takes [OF x(1), of u signer] x(2) by (auto simp: sub_result_def read_result_def split: sum.splits option.splits if_splits)
qed

text \<open>A read sends its second request only after a login that succeeded.\<close>

lemma read_takes:
  assumes "read_session E sub1 sub2 ts s = Returned r s' ts'"
  shows "(\<exists>ps qs. takes E u signer s ts s' ts' (ps @ qs) \<and> set ps \<subseteq> {ReqPacket sub1, CloseReq sub1}
      \<and> (qs = [] \<or> set qs \<subseteq> {ReqPacket sub2, CloseReq sub2} \<and> ls_state s' \<noteq> AuthStateNone \<and> ls_failure s' = None)) \<and> read_result {sub1, sub2} (set ts) r"
proof -
  obtain x s1 ts1 where x: "subscribeOnce E sub1 ts s = Returned x s1 ts1"
    using assms by (auto simp: read_session_def then_do_def split: call.splits)
  obtain ps where ps: "takes E u signer s ts s1 ts1 ps" "set ps \<subseteq> {ReqPacket sub1, CloseReq sub1}" and sr: "sub_result sub1 (set ts) x"
    using subscribe_takes [OF x, of u signer] by blast
  have sub: "set ts1 \<subseteq> set ts" using ps(1) by (simp add: takes_def)
  have again: "?thesis" if l: "awaitLogin E refusal ts1 s1 = Returned None s2 ts2" and ra: "read_again E sub2 ts2 s2 = Returned r s' ts'" for refusal s2 ts2
  proof -
    note lt = awaitLogin_takes [OF l, of u signer]
    obtain qs where qs: "takes E u signer s2 ts2 s' ts' qs" "set qs \<subseteq> {ReqPacket sub2, CloseReq sub2}" "read_result {sub2} (set ts2) r"
      using read_again_takes [OF ra, of u signer] by blast
    have "takes E u signer s ts s' ts' (ps @ ([] @ qs))"
      by (intro takes_trans [OF ps(1)] takes_trans [OF conjunct1 [OF lt] qs(1)])
    moreover have "ls_state s' \<noteq> AuthStateNone \<and> ls_failure s' = None"
      using lt qs(1) by (auto simp: takes_def)
    moreover have "set ts2 \<subseteq> set ts" using lt sub by (auto simp: takes_def)
    then have "read_result {sub1, sub2} (set ts) r"
      using qs(3) unfolding read_result_def by blast
    ultimately show ?thesis
      using ps(2) qs(2) by auto
  qed
  have kept: "?thesis" if "takes E u signer s1 ts1 s' ts' []" "read_result {sub1, sub2} (set ts) r"
    using takes_trans [OF ps(1) that(1)] that(2) ps(2) by (intro conjI exI [of _ ps] exI [of _ "[]"]) simp_all
  show ?thesis
  proof (cases x)
    case (Inl e)
    then show ?thesis
      using assms x by (intro kept) (auto simp: read_session_def then_do_def read_result_def takes_refl)
  next
    case (Inr p)
    obtain events closed where p: "p = (events, closed)" by fastforce
    define msg where "msg = (case closed of Some m \<Rightarrow> m | None \<Rightarrow> [])"
    have good: "read_result {sub1, sub2} (set ts) (Inr (events, closed \<noteq> None \<and> restricted_msg msg))"
      using sr Inr p by (auto simp: sub_result_def read_result_def msg_def)
    have plain: "read_result {sub1, sub2} (set ts) (Inr (events, False))"
      using sr Inr p by (auto simp: sub_result_def read_result_def)
    show ?thesis
    proof (cases "awaitLogin E msg ts1 s1")
      case (Blocked s2)
      then have "s1 = s' \<and> ts1 = ts' \<and> r = Inr (events, closed \<noteq> None \<and> restricted_msg msg)"
        using assms x Inr p by (cases closed) (auto simp: read_session_def then_do_def msg_def split: if_splits)
      then show ?thesis using kept good by (simp add: takes_refl)
    next
      case (Returned l s2 ts2)
      have lt: "takes E u signer s1 ts1 s2 ts2 []"
        using awaitLogin_takes [OF Returned] by blast
      have "(l = None \<and> read_again E sub2 ts2 s2 = Returned r s' ts') \<or> (s2 = s' \<and> ts2 = ts' \<and> (isl r \<or> r = Inr (events, False)))
          \<or> (s1 = s' \<and> ts1 = ts' \<and> r = Inr (events, closed \<noteq> None \<and> restricted_msg msg))"
        using assms x Inr p Returned by (cases l; cases closed) (auto simp: read_session_def then_do_def msg_def split: if_splits)
      then consider "l = None" "read_again E sub2 ts2 s2 = Returned r s' ts'" | "s2 = s'" "ts2 = ts'" "isl r \<or> r = Inr (events, False)"
        | "s1 = s'" "ts1 = ts'" "r = Inr (events, closed \<noteq> None \<and> restricted_msg msg)"
        by blast
      then show ?thesis
      proof cases
        case 1
        then show ?thesis using again [OF _ 1(2)] Returned by blast
      next
        case 2
        then have "read_result {sub1, sub2} (set ts) r"
          using plain by (auto simp: read_result_def)
        then show ?thesis using kept lt 2 by simp
      next
        case 3
        then show ?thesis using kept good by (simp add: takes_refl)
      qed
    qed
  qed
qed

end
