(* ===== verification/Client_Publish.thy ===== *)
theory Client_Publish
  imports Client_Login_Safe Client_Spec
begin

text \<open>
  Publishing events to the relays of a target file (\<open>client/publish.go\<close>): every event to every relay that can be reached, and a report of each outcome.
\<close>

record PublishResult =
  pb_ID :: string
  pb_Relay :: string
  pb_Accepted :: bool
  pb_Message :: string
  pb_Error :: "session_err option"

record PublishReport =
  rp_Attempted :: nat
  rp_Succeeded :: nat
  rp_Failed :: nat
  rp_Results :: "PublishResult list"
  rp_LoginError :: "session_err option"

definition no_report :: PublishReport where
  "no_report = \<lparr>rp_Attempted = 0, rp_Succeeded = 0, rp_Failed = 0, rp_Results = [], rp_LoginError = None\<rparr>"

definition AllSucceeded :: "PublishReport \<Rightarrow> bool" where
  "AllSucceeded r \<longleftrightarrow> rp_Failed r = 0"

text \<open>The outcome of one event on one relay, added to the report; the first login failure is kept.\<close>

definition add_result :: "string \<Rightarrow> event \<Rightarrow> session_err + string \<Rightarrow> PublishReport \<Rightarrow> PublishReport" where
  "add_result host ev out r =
     (case out of
        Inl e \<Rightarrow> r\<lparr>rp_Attempted := Suc (rp_Attempted r), rp_Failed := Suc (rp_Failed r),
            rp_Results := rp_Results r @ [\<lparr>pb_ID = ev_ID ev, pb_Relay = host, pb_Accepted = False, pb_Message = [], pb_Error = Some e\<rparr>],
            rp_LoginError := (if rp_LoginError r = None \<and> is_login_error e then Some e else rp_LoginError r)\<rparr>
      | Inr msg \<Rightarrow> r\<lparr>rp_Attempted := Suc (rp_Attempted r), rp_Succeeded := Suc (rp_Succeeded r),
            rp_Results := rp_Results r @ [\<lparr>pb_ID = ev_ID ev, pb_Relay = host, pb_Accepted = True, pb_Message = msg, pb_Error = None\<rparr>]\<rparr>)"

text \<open>\<open>None\<close> while a publish still waits; each has a deadline, so that its ticks end with one.\<close>

fun publish_events :: "login_env \<Rightarrow> string \<Rightarrow> event list \<Rightarrow> tick list \<Rightarrow> relaySession \<Rightarrow> PublishReport \<Rightarrow> PublishReport option" where
  "publish_events E host [] ts s r = Some r"
| "publish_events E host (ev # evs) ts s r = (case publish E ev ts s of Blocked _ \<Rightarrow> None | Returned out s' ts' \<Rightarrow> publish_events E host evs ts' s' (add_result host ev out r))"

text \<open>How a target is dialled: an error, which may be one of the connection, or a session and what it meets. \<open>dl_host\<close> is the host of the target's URL.\<close>

datatype dial = DialFailed goerr bool | Dialled relaySession "tick list"

definition ErrNoReachableTargets :: goerr where "ErrNoReachableTargets = Err ''no reachable targets'' []"

fun publish_targets :: "login_env \<Rightarrow> (FlowSpec \<Rightarrow> dial) \<Rightarrow> (FlowSpec \<Rightarrow> string) \<Rightarrow> event list \<Rightarrow> FlowSpec list \<Rightarrow> bool \<Rightarrow> PublishReport \<Rightarrow> (goerr + bool \<times> PublishReport) option" where
  "publish_targets E dial host events [] reached r = Some (Inr (reached, r))"
| "publish_targets E dial host events (t # targets) reached r =
     (if fl_killed t then publish_targets E dial host events targets reached r
      else if fl_Type t \<noteq> FlOW_REMOTE then Some (Inl (Err ''ncli publish only supports remote relay targets for now, not %q (%s)'' [fl_Type t, fl_Path t]))
      else (case dial t of
          DialFailed e conn_error \<Rightarrow> if conn_error then publish_targets E dial host events targets reached r else Some (Inl e)
        | Dialled s ts \<Rightarrow> (case publish_events E (host t) events ts s r of None \<Rightarrow> None | Some r' \<Rightarrow> publish_targets E dial host events targets True r')))"

definition PublishToTargets :: "login_env \<Rightarrow> (FlowSpec \<Rightarrow> dial) \<Rightarrow> (FlowSpec \<Rightarrow> string) \<Rightarrow> FlowSpec list \<Rightarrow> event list \<Rightarrow> (goerr + PublishReport) option" where
  "PublishToTargets E dial host targets events =
     (case publish_targets E dial host events targets False no_report of
        None \<Rightarrow> None
      | Some (Inl e) \<Rightarrow> Some (Inl e)
      | Some (Inr (reached, r)) \<Rightarrow> if \<not> reached \<and> length targets > 0 then Some (Inl ErrNoReachableTargets) else Some (Inr r))"

text \<open>A plain publish, as the recovery queue uses it: no login, one send.\<close>

fun plain_loop :: "string \<Rightarrow> tick list \<Rightarrow> goerr option option" where
  "plain_loop i [] = None"
| "plain_loop i (t # ts) =
     (case t of
        Reads (OkLine j accepted message) \<Rightarrow> if j = i then Some (if accepted then None else Some (Err ''relay rejected event: %s'' [message])) else plain_loop i ts
      | ReadError e \<Rightarrow> Some (Some e)
      | ConnClosed \<Rightarrow> Some (Some (Err ''connection closed'' []))
      | CtxEnds e \<Rightarrow> Some (Some e)
      | Timer \<Rightarrow> Some (Some (Err ''timeout waiting for OK'' []))
      | _ \<Rightarrow> plain_loop i ts)"

definition PublishEvent :: "bool \<Rightarrow> event \<Rightarrow> tick list \<Rightarrow> goerr option option" where
  "PublishEvent sends ev ts = (if \<not> sends then Some (Some (Err ''connection closed during send'' [])) else plain_loop (ev_ID ev) ts)"

section \<open>The report\<close>

text \<open>A target that is dialled: it is alive, a relay, and the dial gave a session.\<close>

definition reached_targets :: "(FlowSpec \<Rightarrow> dial) \<Rightarrow> FlowSpec list \<Rightarrow> FlowSpec list" where
  "reached_targets dial targets = filter (\<lambda>t. \<not> fl_killed t \<and> (\<exists>s ts. dial t = Dialled s ts)) targets"

definition report_adds_up :: "PublishReport \<Rightarrow> bool" where
  "report_adds_up r \<longleftrightarrow> rp_Attempted r = length (rp_Results r) \<and> rp_Succeeded r = length (filter pb_Accepted (rp_Results r)) \<and> rp_Failed r = length (filter (\<lambda>x. \<not> pb_Accepted x) (rp_Results r))"

lemma add_result_ok: "report_adds_up r \<Longrightarrow> report_adds_up (add_result host ev out r)"
  by (auto simp: report_adds_up_def add_result_def split: sum.split)

text \<open>The pairs that the results are of.\<close>

definition pairs_of :: "PublishReport \<Rightarrow> (string \<times> string) list" where
  "pairs_of r = map (\<lambda>x. (pb_ID x, pb_Relay x)) (rp_Results r)"

lemma add_result_pairs [simp]: "pairs_of (add_result host ev out r) = pairs_of r @ [(ev_ID ev, host)]"
  by (simp add: pairs_of_def add_result_def split: sum.split)

text \<open>An accepted result has the relay's acceptance among what was read from it.\<close>

definition backed :: "tick list \<Rightarrow> PublishResult \<Rightarrow> bool" where
  "backed ts x \<longleftrightarrow> pb_Accepted x \<longrightarrow> Reads (OkLine (pb_ID x) True (pb_Message x)) \<in> set ts"

lemma publish_events_ok:
  assumes "publish_events E host evs ts s r = Some r'" "report_adds_up r"
  shows "report_adds_up r' \<and> pairs_of r' = pairs_of r @ map (\<lambda>ev. (ev_ID ev, host)) evs
    \<and> (\<exists>new. rp_Results r' = rp_Results r @ new \<and> (\<forall>x \<in> set new. backed ts x \<and> pb_Relay x = host))"
  using assms
proof (induction evs arbitrary: ts s r)
  case (Cons ev evs)
  obtain out s1 ts1 where p: "publish E ev ts s = Returned out s1 ts1" "publish_events E host evs ts1 s1 (add_result host ev out r) = Some r'"
    using Cons.prems(1) by (auto split: call.splits)
  obtain ps where ps: "takes E [] False s ts s1 ts1 ps" "published ev ts out s1 ps"
    using publish_takes [OF p(1)] by blast
  obtain x where x: "rp_Results (add_result host ev out r) = rp_Results r @ [x]" "backed ts x" "pb_Relay x = host"
    using ps(2) by (cases out) (auto simp: add_result_def backed_def published_def)
  have sub: "set ts1 \<subseteq> set ts" using ps(1) by (simp add: takes_def)
  from Cons.IH [OF p(2) add_result_ok [OF Cons.prems(2)]] obtain new where
    "report_adds_up r'" "pairs_of r' = pairs_of (add_result host ev out r) @ map (\<lambda>ev. (ev_ID ev, host)) evs" "rp_Results r' = (rp_Results r @ [x]) @ new" "\<forall>y \<in> set new. backed ts1 y \<and> pb_Relay y = host"
    unfolding x(1) by blast
  then show ?case
    using x(2,3) sub by (auto simp: backed_def)
qed auto

lemma publish_targets_ok:
  assumes "publish_targets E dial host events targets reached r = Some (Inr (reached', r'))" "report_adds_up r"
  shows "report_adds_up r' \<and> (reached' \<longleftrightarrow> reached \<or> reached_targets dial targets \<noteq> [])
    \<and> pairs_of r' = pairs_of r @ concat (map (\<lambda>t. map (\<lambda>ev. (ev_ID ev, host t)) events) (reached_targets dial targets))
    \<and> (\<exists>new. rp_Results r' = rp_Results r @ new \<and> (\<forall>x \<in> set new. \<exists>t \<in> set (reached_targets dial targets). \<exists>s ts. dial t = Dialled s ts \<and> fl_Type t = FlOW_REMOTE \<and> pb_Relay x = host t \<and> backed ts x))"
  using assms
proof (induction targets arbitrary: reached r)
  case Nil
  then show ?case by (auto simp: reached_targets_def)
next
  case (Cons t targets)
  show ?case
  proof (cases "\<not> fl_killed t \<and> (\<exists>s ts. dial t = Dialled s ts)")
    case False
    then show ?thesis
      using Cons by (auto simp: reached_targets_def split: if_splits dial.splits)
  next
    case True
    then obtain s ts where d: "\<not> fl_killed t" "dial t = Dialled s ts" by blast
    obtain r1 where r1: "fl_Type t = FlOW_REMOTE" "publish_events E (host t) events ts s r = Some r1" "publish_targets E dial host events targets True r1 = Some (Inr (reached', r'))"
      using Cons.prems(1) d by (auto split: if_splits option.splits)
    obtain new where new: "report_adds_up r1" "pairs_of r1 = pairs_of r @ map (\<lambda>ev. (ev_ID ev, host t)) events" "rp_Results r1 = rp_Results r @ new" "\<forall>x \<in> set new. backed ts x \<and> pb_Relay x = host t"
      using publish_events_ok [OF r1(2) Cons.prems(2)] by blast
    have rt: "reached_targets dial (t # targets) = t # reached_targets dial targets"
      using True by (simp add: reached_targets_def)
    from Cons.IH [OF r1(3) new(1)] obtain more where
      m: "report_adds_up r'" "reached'" "pairs_of r' = pairs_of r1 @ concat (map (\<lambda>t. map (\<lambda>ev. (ev_ID ev, host t)) events) (reached_targets dial targets))" "rp_Results r' = rp_Results r1 @ more"
      "\<forall>x \<in> set more. \<exists>t \<in> set (reached_targets dial targets). \<exists>s ts. dial t = Dialled s ts \<and> fl_Type t = FlOW_REMOTE \<and> pb_Relay x = host t \<and> backed ts x"
      by blast
    have "\<forall>x \<in> set (new @ more). \<exists>t \<in> set (t # reached_targets dial targets). \<exists>s ts. dial t = Dialled s ts \<and> fl_Type t = FlOW_REMOTE \<and> pb_Relay x = host t \<and> backed ts x"
      using m(5) new(4) d(2) r1(1) by fastforce
    then show ?thesis
      unfolding rt using m(1-4) new(2,3) by auto
  qed
qed

end
