(* ===== verification/Client_Login_Theorems.thy ===== *)
theory Client_Login_Theorems
  imports Client_Publish
begin

text \<open>
  The properties of a session with a relay and of publishing.
\<close>

section \<open>The login\<close>








section \<open>Publishing\<close>







end
