(* ===== verification/Event_Lookup.thy ===== *)
theory Event_Lookup
  imports Nostr Go_Text "HOL-Library.AList" "HOL-Library.List_Lexorder" "HOL-Library.Char_ord"
begin

text \<open>
  Finding events on relays (\<open>cli/event/input.go\<close>, \<open>cli/event/resolve.go\<close>): references, the copies that relays serve for them, the copy that a
  command acts on, and the order in which relays are asked. Relays are an oracle: the \<open>n\<close>-th read of a run may return anything.
  The goroutines of \<open>readAll\<close> only fill their own slot, so the reads of one batch are numbered in the order of the targets.
\<close>

section \<open>References\<close>

record ref =
  rf_Input :: string
  rf_ID :: string
  rf_Addr :: bool
  rf_Author :: string
  rf_Kind :: int
  rf_D :: string
  rf_Hints :: "string list"
  rf_Event :: "event option"
  rf_Source :: string

definition inline :: "ref \<Rightarrow> bool" where
  "inline r \<longleftrightarrow> rf_Event r \<noteq> None"

definition blank_ref :: "string \<Rightarrow> ref" where
  "blank_ref i = \<lparr>rf_Input = i, rf_ID = [], rf_Addr = False, rf_Author = [], rf_Kind = -1, rf_D = [], rf_Hints = [], rf_Event = None, rf_Source = []\<rparr>"

definition inlineRef :: "string \<Rightarrow> event \<Rightarrow> ref" where
  "inlineRef source ev = (blank_ref source)\<lparr>rf_Event := Some ev, rf_Source := source\<rparr>"

fun tag_value :: "string \<Rightarrow> string list list \<Rightarrow> string" where
  "tag_value n [] = []"
| "tag_value n (t # ts) = (if length t \<ge> 2 \<and> t ! 0 = n then t ! 1 else tag_value n ts)"

definition dTag :: "event \<Rightarrow> string" where
  "dTag ev = tag_value ''d'' (ev_Tags ev)"

definition ref_matches :: "ref \<Rightarrow> event \<Rightarrow> bool" where
  "ref_matches r ev =
     (if rf_Addr r then ev_Kind ev = rf_Kind r \<and> equal_fold (ev_PubKey ev) (rf_Author r) \<and> dTag ev = rf_D r
      else equal_fold (ev_ID ev) (rf_ID r))"

section \<open>Copies\<close>

record relayAnswer =
  ra_Relay :: string
  ra_Found :: bool
  ra_Restricted :: bool
  ra_Error :: "goerr option"

record eventCopy =
  cp_Source :: string
  cp_Event :: event

record lookup =
  lk_Ref :: ref
  lk_Copies :: "eventCopy list"
  lk_Asked :: "relayAnswer list"

record TargetRead =
  tr_Events :: "event list"
  tr_Restricted :: bool
  tr_Err :: "goerr option"

text \<open>\<open>le_ok\<close> is \<open>ev.Verify(nip01.WithoutPowCheck()) == nil\<close>, \<open>le_full\<close> the same with the check of work, \<open>le_target\<close> the label of the target that
  \<open>client.TargetsFromRelayList\<close> makes of a text, \<open>le_prefs\<close> the relays of the preferences, \<open>le_writes\<close> the parsed NIP-65 list.\<close>

record lookup_env =
  le_ok :: "event \<Rightarrow> bool"
  le_full :: "event \<Rightarrow> bool"
  le_target :: "string \<Rightarrow> string option"
  le_read :: "nat \<Rightarrow> string \<Rightarrow> TargetRead"
  le_prefs :: "string list option"
  le_writes :: "event \<Rightarrow> (string \<times> bool) list option"

definition newer :: "event \<Rightarrow> event \<Rightarrow> bool" where
  "newer a b = (if ev_CreatedAt a \<noteq> ev_CreatedAt b then ev_CreatedAt a > ev_CreatedAt b else ev_ID a < ev_ID b)"

definition best_step :: "lookup_env \<Rightarrow> bool \<Rightarrow> eventCopy \<Rightarrow> eventCopy option \<times> eventCopy option \<Rightarrow> eventCopy option \<times> eventCopy option" where
  "best_step E addr c st = (case st of (pick, valid) \<Rightarrow>
     let ok = le_ok E (cp_Event c);
         better = (\<lambda>p. case p of None \<Rightarrow> True | Some q \<Rightarrow> addr \<and> newer (cp_Event c) (cp_Event q))
     in (if better pick then Some c else pick, if ok \<and> better valid then Some c else valid))"

definition best :: "lookup_env \<Rightarrow> lookup \<Rightarrow> eventCopy option" where
  "best E l = (case fold (best_step E (rf_Addr (lk_Ref l))) (lk_Copies l) (None, None) of
     (pick, valid) \<Rightarrow> if valid \<noteq> None then valid else pick)"

definition satisfied :: "lookup_env \<Rightarrow> lookup \<Rightarrow> bool" where
  "satisfied E l = (if inline (lk_Ref l) then True
     else if rf_Addr (lk_Ref l) then False
     else list_ex (\<lambda>c. le_ok E (cp_Event c)) (lk_Copies l))"

definition record_one :: "string \<Rightarrow> TargetRead \<Rightarrow> lookup \<Rightarrow> lookup" where
  "record_one target res l =
     (let hit = (\<lambda>ev. case rf_Event (lk_Ref l) of Some e \<Rightarrow> equal_fold (ev_ID ev) (ev_ID e) | None \<Rightarrow> ref_matches (lk_Ref l) ev);
          hits = filter hit (tr_Events res)
      in l\<lparr>lk_Copies := lk_Copies l @ (if inline (lk_Ref l) then [] else map (\<lambda>ev. \<lparr>cp_Source = target, cp_Event = ev\<rparr>) hits),
           lk_Asked := lk_Asked l @ [\<lparr>ra_Relay = target, ra_Found = (hits \<noteq> []), ra_Restricted = tr_Restricted res, ra_Error = tr_Err res\<rparr>]\<rparr>)"

text \<open>\<open>record\<close>: the members of a group, by their positions.\<close>

definition record_members :: "string \<Rightarrow> TargetRead \<Rightarrow> nat list \<Rightarrow> lookup list \<Rightarrow> lookup list" where
  "record_members target res ms ls = fold (\<lambda>i ls. ls[i := record_one target res (ls ! i)]) ms ls"

definition foundOn :: "lookup \<Rightarrow> string list" where
  "foundOn l = map ra_Relay (filter ra_Found (lk_Asked l))"

section \<open>Relays to ask\<close>

record resolver =
  rz_relays :: "string list"
  rz_onlyHints :: bool
  rz_noHints :: bool
  rz_noOutbox :: bool
  rz_offline :: bool

record resolver_state =
  rs_outbox :: "(string \<times> string list) list"
  rs_reads :: nat

definition relayKey :: "string \<Rightarrow> string" where
  "relayKey label = rev (dropWhile (\<lambda>c. c = CHR ''/'') (rev (to_lower label)))"

fun targets_loop :: "lookup_env \<Rightarrow> string list \<Rightarrow> string list \<Rightarrow> string list \<Rightarrow> string list" where
  "targets_loop E skip seen [] = []"
| "targets_loop E skip seen (raw # rs) = (case le_target E raw of
     None \<Rightarrow> targets_loop E skip seen rs
   | Some t \<Rightarrow> let k = relayKey t in
       if k \<in> set seen \<or> k \<in> set skip then targets_loop E skip seen rs
       else t # targets_loop E skip (k # seen) rs)"

definition targets :: "lookup_env \<Rightarrow> string list \<Rightarrow> string list \<Rightarrow> string list" where
  "targets E relays skip = targets_loop E skip [] relays"

definition baseRelays :: "lookup_env \<Rightarrow> resolver \<Rightarrow> string list" where
  "baseRelays E R = (if rz_relays R \<noteq> [] then rz_relays R
     else if rz_onlyHints R then []
     else (case le_prefs E of None \<Rightarrow> [] | Some rs \<Rightarrow> rs))"

definition firstRelays :: "lookup_env \<Rightarrow> resolver \<Rightarrow> ref \<Rightarrow> string list" where
  "firstRelays E R rf = (if rz_noHints R then [] else rf_Hints rf) @ (if rz_onlyHints R then [] else baseRelays E R)"

abbreviation maxOutboxRelays :: nat where "maxOutboxRelays \<equiv> 8"

text \<open>\<open>readAll\<close> from read number \<open>n\<close> on.\<close>

definition readAll :: "lookup_env \<Rightarrow> nat \<Rightarrow> string list \<Rightarrow> TargetRead list" where
  "readAll E n ts = map (\<lambda>i. le_read E (n + i) (ts ! i)) [0..<length ts]"

fun newest_list :: "lookup_env \<Rightarrow> string \<Rightarrow> event option \<Rightarrow> event list \<Rightarrow> event option" where
  "newest_list E author newest [] = newest"
| "newest_list E author newest (ev # evs) =
     (if ev_PubKey ev \<noteq> author \<or> \<not> le_full E ev then newest_list E author newest evs
      else newest_list E author (case newest of None \<Rightarrow> Some ev | Some m \<Rightarrow> if ev_CreatedAt ev > ev_CreatedAt m then Some ev else Some m) evs)"

fun write_relays :: "string list \<Rightarrow> (string \<times> bool) list \<Rightarrow> string list" where
  "write_relays out [] = out"
| "write_relays out ((url, w) # es) = (let out' = (if w then out @ [url] else out) in
     if length out' = maxOutboxRelays then out' else write_relays out' es)"

definition outboxRelays :: "lookup_env \<Rightarrow> resolver \<Rightarrow> string \<Rightarrow> string list \<Rightarrow> resolver_state \<Rightarrow> string list \<times> resolver_state" where
  "outboxRelays E R author hints st =
     (if rz_noOutbox R \<or> rz_onlyHints R \<or> rz_offline R \<or> author = [] then ([], st)
      else case map_of (rs_outbox st) author of
        Some got \<Rightarrow> (got, st)
      | None \<Rightarrow>
          let st1 = st\<lparr>rs_outbox := AList.update author [] (rs_outbox st)\<rparr>;
              wh = targets E (hints @ baseRelays E R) []
          in if wh = [] then ([], st1)
             else let evs = concat (map tr_Events (readAll E (rs_reads st1) wh)); st2 = st1\<lparr>rs_reads := rs_reads st1 + length wh\<rparr>
               in case newest_list E author None evs of
                    None \<Rightarrow> ([], st2)
                  | Some ev \<Rightarrow> (case le_writes E ev of
                       None \<Rightarrow> ([], st2)
                     | Some es \<Rightarrow> let out = write_relays [] es in (out, st2\<lparr>rs_outbox := AList.update author out (rs_outbox st2)\<rparr>)))"

section \<open>Asking\<close>

definition still_pending :: "lookup_env \<Rightarrow> bool \<Rightarrow> lookup \<Rightarrow> bool" where
  "still_pending E everywhere l = (if inline (lk_Ref l) then everywhere else everywhere \<or> \<not> satisfied E l)"

type_synonym ask_groups = "(string \<times> string list \<times> nat list) list"

definition add_group :: "string \<Rightarrow> string list \<Rightarrow> nat \<Rightarrow> ask_groups \<Rightarrow> ask_groups" where
  "add_group key ts i gs = (case map_of gs key of
     None \<Rightarrow> gs @ [(key, ts, [i])]
   | Some (ts0, ms) \<Rightarrow> AList.update key (ts0, ms @ [i]) gs)"

definition group_key :: "string list \<Rightarrow> string" where
  "group_key ts = join (map relayKey ts) ''|''"

definition asked_keys :: "lookup \<Rightarrow> string list" where
  "asked_keys l = map (\<lambda>a. relayKey (ra_Relay a)) (lk_Asked l)"

fun make_groups :: "lookup_env \<Rightarrow> bool \<Rightarrow> (lookup \<Rightarrow> resolver_state \<Rightarrow> string list \<times> resolver_state) \<Rightarrow> lookup list \<Rightarrow> nat list
    \<Rightarrow> ask_groups \<Rightarrow> resolver_state \<Rightarrow> ask_groups \<times> resolver_state" where
  "make_groups E everywhere relaysFor ls [] gs st = (gs, st)"
| "make_groups E everywhere relaysFor ls (i # is) gs st =
     (if \<not> still_pending E everywhere (ls ! i) then make_groups E everywhere relaysFor ls is gs st
      else (case relaysFor (ls ! i) st of (relays, st') \<Rightarrow>
        let ts = targets E relays (asked_keys (ls ! i)) in
        if ts = [] then make_groups E everywhere relaysFor ls is gs st'
        else make_groups E everywhere relaysFor ls is (add_group (group_key ts) ts i gs) st'))"

fun ask_first :: "lookup_env \<Rightarrow> string list \<Rightarrow> nat list \<Rightarrow> lookup list \<Rightarrow> nat \<Rightarrow> lookup list \<times> nat" where
  "ask_first E [] ms ls n = (ls, n)"
| "ask_first E (t # ts) ms ls n = (let opn = filter (\<lambda>i. still_pending E False (ls ! i)) ms in
     if opn = [] then (ls, n) else ask_first E ts ms (record_members t (le_read E n t) opn ls) (n + 1))"

definition ask_everywhere :: "lookup_env \<Rightarrow> string list \<Rightarrow> nat list \<Rightarrow> lookup list \<Rightarrow> nat \<Rightarrow> lookup list \<times> nat" where
  "ask_everywhere E ts ms ls n =
     (fold (\<lambda>(t, res) ls. record_members t res ms ls) (zip ts (readAll E n ts)) ls, n + length ts)"

definition ask_group :: "lookup_env \<Rightarrow> bool \<Rightarrow> string \<times> string list \<times> nat list \<Rightarrow> lookup list \<times> nat \<Rightarrow> lookup list \<times> nat" where
  "ask_group E everywhere g s = (case g of (key, ts, ms) \<Rightarrow> case s of (ls, n) \<Rightarrow>
     if everywhere then ask_everywhere E ts ms ls n else ask_first E ts ms ls n)"

definition askEach :: "lookup_env \<Rightarrow> bool \<Rightarrow> (lookup \<Rightarrow> resolver_state \<Rightarrow> string list \<times> resolver_state) \<Rightarrow> lookup list \<Rightarrow> resolver_state
    \<Rightarrow> lookup list \<times> resolver_state" where
  "askEach E everywhere relaysFor ls st =
     (case make_groups E everywhere relaysFor ls [0..<length ls] [] st of (gs, st1) \<Rightarrow>
      case fold (ask_group E everywhere) gs (ls, rs_reads st1) of (ls', n) \<Rightarrow> (ls', st1\<lparr>rs_reads := n\<rparr>))"

definition start_lookup :: "ref \<Rightarrow> lookup" where
  "start_lookup rf = \<lparr>lk_Ref = rf, lk_Copies = (case rf_Event rf of Some ev \<Rightarrow> [\<lparr>cp_Source = rf_Source rf, cp_Event = ev\<rparr>] | None \<Rightarrow> []), lk_Asked = []\<rparr>"

definition lookup_author :: "lookup \<Rightarrow> string" where
  "lookup_author l = (case rf_Event (lk_Ref l) of Some ev \<Rightarrow> ev_PubKey ev | None \<Rightarrow> rf_Author (lk_Ref l))"

definition resolve :: "lookup_env \<Rightarrow> resolver \<Rightarrow> ref list \<Rightarrow> bool \<Rightarrow> resolver_state \<Rightarrow> lookup list \<times> resolver_state" where
  "resolve E R refs everywhere st =
     (let ls = map start_lookup refs in
      if rz_offline R then (ls, st)
      else case askEach E everywhere (\<lambda>l st. (firstRelays E R (lk_Ref l), st)) ls st of (ls1, st1) \<Rightarrow>
        askEach E everywhere (\<lambda>l st. outboxRelays E R (lookup_author l) (rf_Hints (lk_Ref l)) st) ls1 st1)"

end
