(* ===== verification/Event_Check.thy ===== *)
theory Event_Check
  imports Event_Lookup Admin_Tokens
begin

text \<open>
  Verifying events (\<open>cli/event/checks.go\<close>, \<open>cli/event/verify.go\<close>) and walking a thread (\<open>cli/event/thread.go\<close>). Cryptography and the rules of the NIPs
  are functions of other packages, the fields of an environment.
\<close>

section \<open>Checks\<close>

abbreviation statusOK :: string where "statusOK \<equiv> ''ok''"
abbreviation statusFail :: string where "statusFail \<equiv> ''fail''"
abbreviation statusSkip :: string where "statusSkip \<equiv> ''skip''"

text \<open>The detail of a check is the format and the arguments of its text.\<close>

record check_result =
  ck_Name :: string
  ck_Status :: string
  ck_Detail :: "goerr option"

definition ok_check :: "string \<Rightarrow> goerr option \<Rightarrow> check_result" where
  "ok_check name detail = \<lparr>ck_Name = name, ck_Status = statusOK, ck_Detail = detail\<rparr>"

definition fail_check :: "string \<Rightarrow> goerr \<Rightarrow> check_result" where
  "fail_check name detail = \<lparr>ck_Name = name, ck_Status = statusFail, ck_Detail = Some detail\<rparr>"

definition skip_check :: "string \<Rightarrow> goerr \<Rightarrow> check_result" where
  "skip_check name detail = \<lparr>ck_Name = name, ck_Status = statusSkip, ck_Detail = Some detail\<rparr>"

record expect =
  xp_Author :: string
  xp_Kind :: int
  xp_MinPow :: int
  xp_MaxSkew :: duration
  xp_Now :: gtime

text \<open>
  \<^item> \<open>ce_Validate\<close>, \<open>ce_HashID\<close>: methods of \<open>nip01.Event\<close>; \<open>ce_ParseSig\<close>, \<open>ce_ParsePub\<close>, \<open>ce_SigVerify\<close>: package \<open>schnorr\<close>, on bytes;
  \<^item> \<open>ce_Difficulty\<close>, \<open>ce_ValidatePow\<close>: \<open>nip13\<close>; \<open>ce_Expiration\<close>: \<open>nip40.GetExpiration\<close>; \<open>ce_Delegation\<close>, \<open>ce_Conditions\<close>: \<open>nip26\<close>;
  \<^item> \<open>ce_AuthTag\<close>: \<open>nipOA.ParseAuthTag\<close>, as the owner and the tests of its conditions; \<open>ce_ZapReceipt\<close>, \<open>ce_ZapRequest\<close>: \<open>nip57\<close>;
  \<^item> \<open>ce_npub\<close>: \<open>nip19.EncodePublicKey\<close>; \<open>ce_date\<close>: a Unix time as RFC 3339 text.
\<close>

record check_env =
  ce_Validate :: "event \<Rightarrow> goerr option"
  ce_HashID :: "event \<Rightarrow> goerr + string"
  ce_ParseSig :: "string \<Rightarrow> goerr option"
  ce_ParsePub :: "string \<Rightarrow> goerr option"
  ce_SigVerify :: "string \<Rightarrow> string \<Rightarrow> string \<Rightarrow> bool"
  ce_Difficulty :: "string \<Rightarrow> goerr + int"
  ce_ValidatePow :: "event \<Rightarrow> goerr option"
  ce_Expiration :: "string list list \<Rightarrow> goerr + 64 word"
  ce_Delegation :: "string \<Rightarrow> string \<Rightarrow> string \<Rightarrow> string \<Rightarrow> goerr option"
  ce_Conditions :: "string \<Rightarrow> int \<Rightarrow> 64 word \<Rightarrow> goerr option"
  ce_AuthTag :: "string list list \<Rightarrow> string \<Rightarrow> goerr + (string \<times> (int \<Rightarrow> bool) \<times> (64 word \<Rightarrow> bool))"
  ce_ZapReceipt :: "event \<Rightarrow> goerr option"
  ce_ZapRequest :: "event \<Rightarrow> goerr option"
  ce_npub :: "string \<Rightarrow> goerr + string"
  ce_date :: "64 word \<Rightarrow> string"

definition npub_text :: "check_env \<Rightarrow> string \<Rightarrow> string" where
  "npub_text C hexKey = (case ce_npub C hexKey of Inr s \<Rightarrow> s | Inl _ \<Rightarrow> hexKey)"

fun findTag :: "string \<Rightarrow> string list list \<Rightarrow> string list option" where
  "findTag name [] = None"
| "findTag name (t # ts) = (if length t > 0 \<and> t ! 0 = name then Some t else findTag name ts)"

definition checkSig :: "check_env \<Rightarrow> event \<Rightarrow> string \<Rightarrow> check_result" where
  "checkSig C ev hash = (case hex_decode (ev_Sig ev) of
     None \<Rightarrow> fail_check ''sig'' (Err ''missing or not hex'' [])
   | Some sig \<Rightarrow>
       if sig = [] then fail_check ''sig'' (Err ''missing or not hex'' [])
       else (case ce_ParseSig C sig of
         Some err \<Rightarrow> fail_check ''sig'' err
       | None \<Rightarrow> (case hex_decode (ev_PubKey ev) of
           None \<Rightarrow> fail_check ''sig'' (Err ''pubkey is not hex'' [])
         | Some pub \<Rightarrow> (case ce_ParsePub C pub of
             Some err \<Rightarrow> fail_check ''sig'' (Wrap ''pubkey: %v'' [] err)
           | None \<Rightarrow> if \<not> ce_SigVerify C sig hash pub then fail_check ''sig'' (Err ''signature does not match the content and pubkey'' [])
               else ok_check ''sig'' None))))"

definition coord_text :: "int \<Rightarrow> string \<Rightarrow> string \<Rightarrow> string" where
  "coord_text kind author d = itoa kind @ '':'' @ author @ '':'' @ d"

definition checkRef :: "event \<Rightarrow> ref \<Rightarrow> check_result" where
  "checkRef ev rf =
     (if rf_Addr rf then
        (let coord = coord_text (rf_Kind rf) (rf_Author rf) (rf_D rf); got = coord_text (ev_Kind ev) (ev_PubKey ev) (dTag ev) in
         if equal_fold coord got then ok_check ''reference'' None else fail_check ''reference'' (Err ''relay returned %s for %s'' [got, coord]))
      else if equal_fold (ev_ID ev) (rf_ID rf) then ok_check ''reference'' None
      else fail_check ''reference'' (Err ''relay returned %s for %s'' [ev_ID ev, rf_ID rf]))"

definition checkPow :: "check_env \<Rightarrow> event \<Rightarrow> bool \<Rightarrow> int \<Rightarrow> check_result" where
  "checkPow C ev idOK minPow =
     (let hasNonce = (findTag ''nonce'' (ev_Tags ev) \<noteq> None) in
      if \<not> hasNonce \<and> minPow \<le> 0 then skip_check ''pow'' (Err ''no nonce tag'' [])
      else if \<not> idOK then fail_check ''pow'' (Err ''id does not match the content'' [])
      else (case ce_Difficulty C (ev_ID ev) of
          Inl err \<Rightarrow> fail_check ''pow'' err
        | Inr got \<Rightarrow> (case (if hasNonce then ce_ValidatePow C ev else None) of
            Some err \<Rightarrow> fail_check ''pow'' err
          | None \<Rightarrow> if minPow > 0 \<and> got < minPow then fail_check ''pow'' (Err ''difficulty %d, need %d'' [itoa got, itoa minPow])
              else ok_check ''pow'' (Some (Err ''difficulty %d'' [itoa got])))))"

definition checkExpiration :: "check_env \<Rightarrow> event \<Rightarrow> gtime \<Rightarrow> check_result option" where
  "checkExpiration C ev now =
     (if findTag ''expiration'' (ev_Tags ev) = None then None
      else Some (case ce_Expiration C (ev_Tags ev) of
          Inl err \<Rightarrow> fail_check ''expiration'' err
        | Inr at \<Rightarrow> if (word_of_int (time_unix now) :: 64 word) \<ge> at then fail_check ''expiration'' (Err ''expired at %s'' [ce_date C at])
            else ok_check ''expiration'' (Some (Err ''expires at %s'' [ce_date C at]))))"

definition checkDelegation :: "check_env \<Rightarrow> event \<Rightarrow> check_result option" where
  "checkDelegation C ev = (case findTag ''delegation'' (ev_Tags ev) of
     None \<Rightarrow> None
   | Some t \<Rightarrow> Some (
       if length t \<noteq> 4 then fail_check ''delegation'' (Err ''want [delegation, <pubkey>, <conditions>, <sig>]'' [])
       else (case ce_Delegation C (t ! 1) (ev_PubKey ev) (t ! 2) (t ! 3) of
           Some err \<Rightarrow> fail_check ''delegation'' err
         | None \<Rightarrow> (case ce_Conditions C (t ! 2) (ev_Kind ev) (ev_CreatedAt ev) of
             Some err \<Rightarrow> fail_check ''delegation'' err
           | None \<Rightarrow> ok_check ''delegation'' (Some (Err ''delegated by %s'' [npub_text C (t ! 1)]))))))"

definition checkOwnerAuth :: "check_env \<Rightarrow> event \<Rightarrow> check_result option" where
  "checkOwnerAuth C ev =
     (if findTag ''auth'' (ev_Tags ev) = None then None
      else Some (case ce_AuthTag C (ev_Tags ev) (ev_PubKey ev) of
          Inl err \<Rightarrow> fail_check ''owner_auth'' err
        | Inr (owner, kinds, tms) \<Rightarrow>
            if \<not> kinds (ev_Kind ev) \<or> \<not> tms (ev_CreatedAt ev) then fail_check ''owner_auth'' (Err ''event does not meet the attestation's conditions'' [])
            else ok_check ''owner_auth'' (Some (Err ''attested by %s'' [npub_text C owner]))))"

abbreviation KindZapRequest :: int where "KindZapRequest \<equiv> 9734"
abbreviation KindZapReceipt :: int where "KindZapReceipt \<equiv> 9735"

definition checkZap :: "check_env \<Rightarrow> event \<Rightarrow> check_result option" where
  "checkZap C ev =
     (if ev_Kind ev = KindZapReceipt then Some (case ce_ZapReceipt C ev of
          Some err \<Rightarrow> fail_check ''zap'' err | None \<Rightarrow> ok_check ''zap'' (Some (Err ''receipt matches its request and invoice'' [])))
      else if ev_Kind ev = KindZapRequest then Some (case ce_ZapRequest C ev of Some err \<Rightarrow> fail_check ''zap'' err | None \<Rightarrow> ok_check ''zap'' None)
      else None)"

definition optional_checks :: "check_result option list \<Rightarrow> check_result list" where
  "optional_checks cs = concat (map (\<lambda>c. case c of None \<Rightarrow> [] | Some x \<Rightarrow> [x]) cs)"

definition checkEvent :: "check_env \<Rightarrow> event \<Rightarrow> ref option \<Rightarrow> expect \<Rightarrow> check_result list" where
  "checkEvent C ev rf want = (case ce_Validate C ev of
     Some err \<Rightarrow> [fail_check ''format'' err]
   | None \<Rightarrow> ok_check ''format'' None # (case ce_HashID C ev of
       Inl err \<Rightarrow> [fail_check ''id'' err]
     | Inr hash \<Rightarrow>
        let computed = hex_encode hash; idOK = equal_fold computed (ev_ID ev);
            author = (if xp_Author want = [] then (case rf of Some r \<Rightarrow> rf_Author r | None \<Rightarrow> []) else xp_Author want);
            kind = (if xp_Kind want < 0 then (case rf of Some r \<Rightarrow> if rf_Kind r \<ge> 0 \<and> \<not> rf_Addr r then rf_Kind r else xp_Kind want | None \<Rightarrow> xp_Kind want)
              else xp_Kind want)
        in [if idOK then ok_check ''id'' None else fail_check ''id'' (Err ''content hashes to %s'' [computed]), checkSig C ev hash]
          @ (case rf of Some r \<Rightarrow> if \<not> inline r then [checkRef ev r] else [] | None \<Rightarrow> [])
          @ (if author \<noteq> [] then [if equal_fold (ev_PubKey ev) author then ok_check ''author'' None
               else fail_check ''author'' (Err ''signed by %s, expected %s'' [npub_text C (ev_PubKey ev), npub_text C author])] else [])
          @ (if kind \<ge> 0 then [if ev_Kind ev = kind then ok_check ''kind'' None else fail_check ''kind'' (Err ''kind %d, expected %d'' [itoa (ev_Kind ev), itoa kind])] else [])
          @ [checkPow C ev idOK (xp_MinPow want)]
          @ (if xp_MaxSkew want > 0 then
               [if ev_CreatedAt ev > (word_of_int (time_unix (time_add (xp_Now want) (xp_MaxSkew want))) :: 64 word)
                then fail_check ''created_at'' (Err ''%s is more than %s in the future'' [ce_date C (ev_CreatedAt ev)]) else ok_check ''created_at'' None] else [])
          @ optional_checks [checkExpiration C ev (xp_Now want), checkDelegation C ev, checkOwnerAuth C ev, checkZap C ev]))"

definition check_verdict :: "check_result list \<Rightarrow> string" where
  "check_verdict cs = (if list_ex (\<lambda>c. ck_Status c = statusFail) cs then ''invalid'' else ''valid'')"

section \<open>Copies and deletions\<close>

definition checkCopies :: "lookup_env \<Rightarrow> lookup \<Rightarrow> check_result" where
  "checkCopies E l =
     (let have_it = length (foundOn l) in
      if have_it = 0 \<and> length (lk_Copies l) \<le> 1 then skip_check ''copies'' (Err ''no relay holds it'' [])
      else let bad = map cp_Source (filter (\<lambda>c. \<not> le_ok E (cp_Event c)) (lk_Copies l)) in
        if bad \<noteq> [] then fail_check ''copies'' (Err ''invalid copy from %s'' bad)
        else let stale = (if rf_Addr (lk_Ref l) then
                 (case best E l of None \<Rightarrow> [] | Some b \<Rightarrow> map cp_Source (filter (\<lambda>c. ev_ID (cp_Event c) \<noteq> ev_ID (cp_Event b)) (lk_Copies l))) else [])
          in ok_check ''copies'' (Some (Err ''held by %d of %d relay(s)'' (nat_text have_it # nat_text (length (lk_Asked l)) # stale))))"

definition names_tag :: "string \<Rightarrow> (string \<Rightarrow> bool) \<Rightarrow> event \<Rightarrow> bool" where
  "names_tag n P del = list_ex (\<lambda>t. length t \<ge> 2 \<and> t ! 0 = n \<and> P (t ! 1)) (ev_Tags del)"

definition deletesID :: "event \<Rightarrow> string \<Rightarrow> bool" where
  "deletesID del i = names_tag ''e'' (\<lambda>v. equal_fold v i) del"

definition deletesAddress :: "event \<Rightarrow> string \<Rightarrow> bool" where
  "deletesAddress del coord = names_tag ''a'' (\<lambda>v. v = coord) del"

definition coordinate :: "event \<Rightarrow> string" where
  "coordinate ev =
     (if ev_Kind ev \<ge> 30000 \<and> ev_Kind ev < 40000 then coord_text (ev_Kind ev) (ev_PubKey ev) (dTag ev)
      else if ev_Kind ev = 0 \<or> ev_Kind ev = 3 \<or> (ev_Kind ev \<ge> 10000 \<and> ev_Kind ev < 20000) then coord_text (ev_Kind ev) (ev_PubKey ev) []
      else [])"

definition deletion_of :: "lookup_env \<Rightarrow> event \<Rightarrow> event \<Rightarrow> bool" where
  "deletion_of E ev del \<longleftrightarrow> ev_PubKey del = ev_PubKey ev \<and> le_full E del
     \<and> (coordinate ev \<noteq> [] \<and> deletesAddress del (coordinate ev) \<and> ev_CreatedAt del \<ge> ev_CreatedAt ev \<or> deletesID del (ev_ID ev))"

text \<open>The loop over the relays' answers: the first deletion found, and the number of relays that answered before it.\<close>

fun deletion_loop :: "lookup_env \<Rightarrow> event \<Rightarrow> (string \<times> TargetRead) list \<Rightarrow> nat \<Rightarrow> (event \<times> string) option \<times> nat" where
  "deletion_loop E ev [] reached = (None, reached)"
| "deletion_loop E ev ((t, res) # rs) reached =
     (if tr_Err res \<noteq> None then deletion_loop E ev rs reached
      else case find (deletion_of E ev) (tr_Events res) of
        Some del \<Rightarrow> (Some (del, t), reached + 1)
      | None \<Rightarrow> deletion_loop E ev rs (reached + 1))"

definition checkDeleted :: "lookup_env \<Rightarrow> resolver \<Rightarrow> lookup \<Rightarrow> event \<Rightarrow> resolver_state \<Rightarrow> check_result \<times> resolver_state" where
  "checkDeleted E R l ev st =
     (case outboxRelays E R (ev_PubKey ev) (rf_Hints (lk_Ref l)) st of (outbox, st1) \<Rightarrow>
      let ts = targets E (firstRelays E R (lk_Ref l) @ outbox) [] in
      if ts = [] then (skip_check ''deleted'' (Err ''no relay to ask'' []), st1)
      else let st2 = st1\<lparr>rs_reads := rs_reads st1 + length ts\<rparr> in
        (case deletion_loop E ev (zip ts (readAll E (rs_reads st1) ts)) 0 of
           (Some (del, t), _) \<Rightarrow> (fail_check ''deleted'' (Err ''deleted by %s on %s'' [ev_ID del, t]), st2)
         | (None, reached) \<Rightarrow>
             if reached = 0 then (skip_check ''deleted'' (Err ''no relay could be reached'' []), st2)
             else (ok_check ''deleted'' (Some (Err ''no deletion on %d relay(s)'' [nat_text reached])), st2)))"

section \<open>The command\<close>

datatype miss_error = InvalidInputMiss | NotFoundMiss | AuthMiss | NetworkMiss

definition missingError :: "resolver \<Rightarrow> lookup list \<Rightarrow> miss_error option" where
  "missingError R missing =
     (if missing = [] then None
      else let answers = concat (map lk_Asked missing);
             asked = (answers \<noteq> []); restricted = list_ex ra_Restricted answers; unreachable = list_all (\<lambda>a. ra_Error a \<noteq> None) answers
        in Some (if rz_offline R then InvalidInputMiss
           else if \<not> asked then NotFoundMiss
           else if restricted then AuthMiss
           else if unreachable then NetworkMiss
           else NotFoundMiss))"

record verifyReport =
  vr_Input :: string
  vr_Status :: string
  vr_Event :: "event option"
  vr_Checks :: "check_result list"

definition verify_one :: "check_env \<Rightarrow> lookup_env \<Rightarrow> resolver \<Rightarrow> expect \<Rightarrow> bool \<Rightarrow> bool \<Rightarrow> lookup \<Rightarrow> resolver_state \<Rightarrow> verifyReport \<times> resolver_state" where
  "verify_one C E R want cross deleted l st = (case best E l of
     None \<Rightarrow> (\<lparr>vr_Input = rf_Input (lk_Ref l), vr_Status = ''missing'', vr_Event = None, vr_Checks = []\<rparr>, st)
   | Some b \<Rightarrow>
       let ev = cp_Event b; cs = checkEvent C ev (Some (lk_Ref l)) want @ (if cross then [checkCopies E l] else []);
           (cs', st') = (if deleted then map_prod (\<lambda>c. cs @ [c]) id (checkDeleted E R l ev st) else (cs, st))
       in (\<lparr>vr_Input = rf_Input (lk_Ref l), vr_Status = check_verdict cs', vr_Event = Some ev, vr_Checks = cs'\<rparr>, st'))"

fun verify_all :: "check_env \<Rightarrow> lookup_env \<Rightarrow> resolver \<Rightarrow> expect \<Rightarrow> bool \<Rightarrow> bool \<Rightarrow> lookup list \<Rightarrow> resolver_state \<Rightarrow> verifyReport list" where
  "verify_all C E R want cross deleted [] st = []"
| "verify_all C E R want cross deleted (l # ls) st = (case verify_one C E R want cross deleted l st of (rep, st') \<Rightarrow>
     rep # verify_all C E R want cross deleted ls st')"

datatype verify_exit = VerifyOk | VerifyUsage | VerifyInvalid nat | VerifyMissing miss_error

definition runVerify :: "check_env \<Rightarrow> lookup_env \<Rightarrow> resolver \<Rightarrow> expect \<Rightarrow> bool \<Rightarrow> bool \<Rightarrow> ref list \<Rightarrow> verifyReport list \<times> verify_exit" where
  "runVerify C E R want cross deleted refs =
     (if rz_offline R \<and> (cross \<or> deleted) then ([], VerifyUsage)
      else case resolve E R refs cross \<lparr>rs_outbox = [], rs_reads = 0\<rparr> of (ls, st) \<Rightarrow>
        let reps = verify_all C E R want cross deleted ls st; invalid = length (filter (\<lambda>r. vr_Status r = ''invalid'') reps)
        in (reps, if invalid > 0 then VerifyInvalid invalid
             else (case missingError R (filter (\<lambda>l. best E l = None) ls) of None \<Rightarrow> VerifyOk | Some m \<Rightarrow> VerifyMissing m)))"

section \<open>Threads\<close>

abbreviation KindComment :: int where "KindComment \<equiv> 1111"

definition tagHint :: "string list \<Rightarrow> string list" where
  "tagHint t = (if length t \<ge> 3 \<and> has_prefix (t ! 2) ''ws'' then [t ! 2] else [])"

definition pointerRef :: "string \<Rightarrow> string list \<Rightarrow> ref" where
  "pointerRef i hints = (blank_ref i)\<lparr>rf_ID := to_lower i, rf_Hints := hints\<rparr>"

text \<open>\<open>pk\<close> is \<open>nip19.ParsePublicKey\<close>; \<open>strings.SplitN\<close> with a limit of three cuts twice.\<close>

definition parseCoordinate :: "(string \<Rightarrow> string option) \<Rightarrow> string \<Rightarrow> ref option" where
  "parseCoordinate pk s = (case cut s CHR '':'' of
     None \<Rightarrow> None
   | Some (k, r) \<Rightarrow> (case cut r CHR '':'' of
        None \<Rightarrow> None
      | Some (p, d) \<Rightarrow> (case atoi k of
           None \<Rightarrow> None
         | Some kind \<Rightarrow> if kind < 0 then None
             else (case pk p of None \<Rightarrow> None
               | Some pub \<Rightarrow> Some ((blank_ref [])\<lparr>rf_Addr := True, rf_Author := pub, rf_Kind := kind, rf_D := d\<rparr>)))))"

fun comment_parent :: "(string \<Rightarrow> string option) \<Rightarrow> string list list \<Rightarrow> ref option" where
  "comment_parent pk [] = None"
| "comment_parent pk (t # ts) =
     (if length t < 2 then comment_parent pk ts
      else if t ! 0 = ''e'' then Some (pointerRef (t ! 1) (tagHint t))
      else if t ! 0 = ''a'' then (case parseCoordinate pk (t ! 1) of
          Some r \<Rightarrow> Some (r\<lparr>rf_Input := t ! 1, rf_Hints := tagHint t\<rparr>)
        | None \<Rightarrow> comment_parent pk ts)
      else comment_parent pk ts)"

record reply_marks =
  rm_root :: "string list option"
  rm_reply :: "string list option"
  rm_last :: "string list option"
  rm_marked :: bool

definition reply_mark :: "string list \<Rightarrow> reply_marks \<Rightarrow> reply_marks" where
  "reply_mark t m =
     (if length t < 2 \<or> t ! 0 \<noteq> ''e'' then m
      else let marker = (if length t \<ge> 4 then t ! 3 else []) in
        if marker = ''reply'' then m\<lparr>rm_reply := Some t, rm_marked := True\<rparr>
        else if marker = ''root'' then m\<lparr>rm_root := Some t, rm_marked := True\<rparr>
        else if marker = ''mention'' then m\<lparr>rm_marked := True\<rparr>
        else m\<lparr>rm_last := Some t\<rparr>)"

definition parentOf :: "(string \<Rightarrow> string option) \<Rightarrow> event \<Rightarrow> ref option" where
  "parentOf pk ev =
     (if ev_Kind ev = KindComment then comment_parent pk (ev_Tags ev)
      else let m = fold reply_mark (ev_Tags ev) \<lparr>rm_root = None, rm_reply = None, rm_last = None, rm_marked = False\<rparr>;
             pick = (if rm_reply m \<noteq> None then rm_reply m else if rm_root m \<noteq> None then rm_root m else if \<not> rm_marked m then rm_last m else None)
        in map_option (\<lambda>t. pointerRef (t ! 1) (tagHint t)) pick)"

text \<open>The walk to the root, at most \<open>depth\<close> parents up: the ancestors, oldest first, and the parent that could not be found.\<close>

fun walk_up :: "lookup_env \<Rightarrow> (string \<Rightarrow> string option) \<Rightarrow> resolver \<Rightarrow> nat \<Rightarrow> event \<Rightarrow> event list \<Rightarrow> resolver_state \<Rightarrow> event list \<times> string option" where
  "walk_up E pk R 0 cur anc st = (anc, None)"
| "walk_up E pk R (Suc n) cur anc st = (case parentOf pk cur of
     None \<Rightarrow> (anc, None)
   | Some parent \<Rightarrow> (case resolve E R [parent] False st of (ls, st') \<Rightarrow> (case best E (ls ! 0) of
        None \<Rightarrow> (anc, Some (rf_Input parent))
      | Some b \<Rightarrow> if \<not> le_ok E (cp_Event b) then (anc, Some (rf_Input parent))
          else walk_up E pk R n (cp_Event b) (cp_Event b # anc) st')))"

fun reply_loop :: "lookup_env \<Rightarrow> (string \<Rightarrow> string option) \<Rightarrow> event \<Rightarrow> string list \<Rightarrow> event list \<Rightarrow> event list" where
  "reply_loop E pk ev seen [] = []"
| "reply_loop E pk ev seen (r # rs) =
     (if ev_ID r \<in> set seen then reply_loop E pk ev seen rs
      else let seen' = ev_ID r # seen in
        (case parentOf pk r of
           None \<Rightarrow> reply_loop E pk ev seen' rs
         | Some p \<Rightarrow> if rf_Addr p \<or> \<not> equal_fold (rf_ID p) (ev_ID ev) \<or> \<not> le_ok E r then reply_loop E pk ev seen' rs
             else r # reply_loop E pk ev seen' rs))"

text \<open>\<open>sort.Slice\<close> is not stable: \<open>srt\<close> is the sort by \<open>created_at\<close> that it happens to do.\<close>

definition replies :: "lookup_env \<Rightarrow> (string \<Rightarrow> string option) \<Rightarrow> (event list \<Rightarrow> event list) \<Rightarrow> resolver \<Rightarrow> lookup \<Rightarrow> event \<Rightarrow> int \<Rightarrow> resolver_state \<Rightarrow> event list" where
  "replies E pk srt R start ev limit st =
     (case outboxRelays E R (ev_PubKey ev) (rf_Hints (lk_Ref start)) st of (outbox, st1) \<Rightarrow>
      let ts = targets E (firstRelays E R (lk_Ref start) @ outbox) [] in
      if ts = [] then []
      else let out = srt (reply_loop E pk ev [] (concat (map tr_Events (readAll E (rs_reads st1) ts))))
        in if limit > 0 \<and> int (length out) > limit then take (nat limit) out else out)"

end
