(* ===== verification/Event_Diff.thy ===== *)
theory Event_Diff
  imports Nostr "HOL-Library.Sublist" "HOL-Library.Multiset"
begin

text \<open>
  The comparison of two events (\<open>cli/event/diff.go\<close>): fields, tags as bags, and a line diff of the contents by the table of
  longest common subsequences. The table is a list of rows that the loops fill cell by cell.
\<close>

section \<open>The line diff\<close>

definition maxDiffCells :: nat where "maxDiffCells = 4000000"

definition cell :: "nat list list \<Rightarrow> nat \<Rightarrow> nat \<Rightarrow> nat" where
  "cell t i j = t ! i ! j"

definition fill_cell :: "string list \<Rightarrow> string list \<Rightarrow> nat \<Rightarrow> nat \<Rightarrow> nat list list \<Rightarrow> nat list list" where
  "fill_cell a b i j t = t[i := (t ! i)[j :=
     (if a ! i = b ! j then cell t (i + 1) (j + 1) + 1 else max (cell t (i + 1) j) (cell t i (j + 1)))]]"

definition fill_row :: "string list \<Rightarrow> string list \<Rightarrow> nat \<Rightarrow> nat list list \<Rightarrow> nat list list" where
  "fill_row a b i t = fold (fill_cell a b i) (rev [0..<length b]) t"

definition lcs_table :: "string list \<Rightarrow> string list \<Rightarrow> nat list list" where
  "lcs_table a b = fold (fill_row a b) (rev [0..<length a]) (replicate (length a + 1) (replicate (length b + 1) 0))"

text \<open>The walk through the table from \<open>(i, j)\<close>, with the two loops for what is left of one side.\<close>

function walk :: "string list \<Rightarrow> string list \<Rightarrow> nat list list \<Rightarrow> nat \<Rightarrow> nat \<Rightarrow> string list" where
  "walk a b t i j =
     (if i < length a \<and> j < length b then
        (if a ! i = b ! j then (''  '' @ a ! i) # walk a b t (i + 1) (j + 1)
         else if cell t (i + 1) j \<ge> cell t i (j + 1) then (''- '' @ a ! i) # walk a b t (i + 1) j
         else (''+ '' @ b ! j) # walk a b t i (j + 1))
      else map (\<lambda>l. ''- '' @ l) (drop i a) @ map (\<lambda>l. ''+ '' @ l) (drop j b))"
  by pat_completeness auto
termination
  by (relation "measure (\<lambda>(a, b, t, i, j). (length a - i) + (length b - j))") auto

declare walk.simps [simp del]

definition lineDiff :: "string list \<Rightarrow> string list \<Rightarrow> string list" where
  "lineDiff a b =
     (if length a * length b > maxDiffCells then map (\<lambda>l. ''- '' @ l) a @ map (\<lambda>l. ''+ '' @ l) b
      else walk a b (lcs_table a b) 0 0)"

section \<open>The diff of two events\<close>

datatype field_value = FStr string | FInt int | FTime "64 word" | FLen nat

record fieldChange =
  fc_Field :: string
  fc_A :: field_value
  fc_B :: field_value

record diffView =
  dv_Same :: bool
  dv_Fields :: "fieldChange list"
  dv_TagsRemoved :: "string list list"
  dv_TagsAdded :: "string list list"
  dv_Content :: "string list"

text \<open>\<open>key\<close> is \<open>tagKey\<close>, the JSON text of a tag.\<close>

definition keyed :: "(string list \<Rightarrow> string) \<Rightarrow> string list list \<Rightarrow> string \<Rightarrow> nat" where
  "keyed key tags = fold (\<lambda>t m. m(key t := m (key t) + 1)) tags (\<lambda>_. 0)"

fun tags_missing :: "(string list \<Rightarrow> string) \<Rightarrow> string list list \<Rightarrow> (string \<Rightarrow> nat) \<Rightarrow> string list list" where
  "tags_missing key [] m = []"
| "tags_missing key (t # ts) m = (let k = key t in
     if m k > 0 then tags_missing key ts (m(k := m k - 1)) else t # tags_missing key ts m)"

definition field_change :: "string \<Rightarrow> field_value \<Rightarrow> field_value \<Rightarrow> bool \<Rightarrow> fieldChange list" where
  "field_change field x y differs = (if differs then [\<lparr>fc_Field = field, fc_A = x, fc_B = y\<rparr>] else [])"

definition diffEvents :: "(string list \<Rightarrow> string) \<Rightarrow> event \<Rightarrow> event \<Rightarrow> diffView" where
  "diffEvents key a b =
     (let removed = tags_missing key (ev_Tags a) (keyed key (ev_Tags b));
          added = tags_missing key (ev_Tags b) (keyed key (ev_Tags a));
          fields =
            field_change ''id'' (FStr (ev_ID a)) (FStr (ev_ID b)) (ev_ID a \<noteq> ev_ID b)
            @ field_change ''pubkey'' (FStr (ev_PubKey a)) (FStr (ev_PubKey b)) (ev_PubKey a \<noteq> ev_PubKey b)
            @ field_change ''kind'' (FInt (ev_Kind a)) (FInt (ev_Kind b)) (ev_Kind a \<noteq> ev_Kind b)
            @ field_change ''created_at'' (FTime (ev_CreatedAt a)) (FTime (ev_CreatedAt b)) (ev_CreatedAt a \<noteq> ev_CreatedAt b)
            @ field_change ''sig'' (FStr (ev_Sig a)) (FStr (ev_Sig b)) (ev_Sig a \<noteq> ev_Sig b)
            @ field_change ''tags'' (FLen (length (ev_Tags a))) (FLen (length (ev_Tags b))) (length removed > 0 \<or> length added > 0)
            @ field_change ''content'' (FLen (length (ev_Content a))) (FLen (length (ev_Content b))) (ev_Content a \<noteq> ev_Content b)
      in \<lparr>dv_Same = (length fields = 0), dv_Fields = fields, dv_TagsRemoved = removed, dv_TagsAdded = added,
          dv_Content = (if ev_Content a \<noteq> ev_Content b then lineDiff (split (ev_Content a) CHR 0x0A) (split (ev_Content b) CHR 0x0A) else [])\<rparr>)"

section \<open>The reference\<close>

text \<open>The length of a longest common subsequence, by the equations of the textbook.\<close>

fun lcs :: "'a list \<Rightarrow> 'a list \<Rightarrow> nat" where
  "lcs [] ys = 0"
| "lcs xs [] = 0"
| "lcs (x # xs) (y # ys) = (if x = y then lcs xs ys + 1 else max (lcs xs (y # ys)) (lcs (x # xs) ys))"

lemma lcs_Nil [simp]: "lcs xs [] = 0"
  by (cases xs) simp_all

lemma lcs_grows: "lcs xs ys \<le> lcs (x # xs) (x # ys)"
  by simp

lemma lcs_upper: "subseq c xs \<Longrightarrow> subseq c ys \<Longrightarrow> length c \<le> lcs xs ys"
proof (induction xs ys arbitrary: c rule: lcs.induct)
  case (3 x xs y ys)
  show ?case
  proof (cases c)
    case (Cons z cs)
    show ?thesis
    proof (cases "x = y")
      case True
      show ?thesis
      proof (cases "z = x")
        case True
        then have "subseq cs xs" "subseq cs ys" using 3(4,5) Cons \<open>x = y\<close> by auto
        then show ?thesis using 3(1) [OF \<open>x = y\<close>] Cons \<open>x = y\<close> by fastforce
      next
        case False
        then have "subseq c xs" "subseq c ys" using 3(4,5) Cons \<open>x = y\<close> by (auto simp: subseq_Cons2_neq)
        then show ?thesis using 3(1) [OF \<open>x = y\<close>] \<open>x = y\<close> by fastforce
      qed
    next
      case False
      then have "subseq c xs \<or> subseq c ys" using 3(4,5) Cons by (metis subseq_Cons2_neq)
      then show ?thesis using 3(2,3) [OF False] 3(4,5) False by fastforce
    qed
  qed simp
qed auto

section \<open>The table\<close>

definition sized :: "string list \<Rightarrow> string list \<Rightarrow> nat list list \<Rightarrow> bool" where
  "sized a b t \<longleftrightarrow> length t = length a + 1 \<and> (\<forall>r \<in> set t. length r = length b + 1)"

definition right_at :: "string list \<Rightarrow> string list \<Rightarrow> nat list list \<Rightarrow> nat \<Rightarrow> nat \<Rightarrow> bool" where
  "right_at a b t i j \<longleftrightarrow> cell t i j = lcs (drop i a) (drop j b)"

lemma fill_cell_cell:
  assumes "sized a b t" "i < length a" "j < length b"
  shows "sized a b (fill_cell a b i j t)"
    "cell (fill_cell a b i j t) i' j' = (if i' = i \<and> j' = j then
       (if a ! i = b ! j then cell t (i + 1) (j + 1) + 1 else max (cell t (i + 1) j) (cell t i (j + 1))) else cell t i' j')"
proof -
  have l: "i < length t" "j < length (t ! i)" using assms by (auto simp: sized_def)
  show "sized a b (fill_cell a b i j t)" using assms unfolding sized_def fill_cell_def
    by (auto dest!: set_update_subset_insert [THEN subsetD])
  show "cell (fill_cell a b i j t) i' j' = (if i' = i \<and> j' = j then
       (if a ! i = b ! j then cell t (i + 1) (j + 1) + 1 else max (cell t (i + 1) j) (cell t i (j + 1))) else cell t i' j')"
    using l by (auto simp: cell_def fill_cell_def nth_list_update)
qed

lemma right_cell:
  assumes "sized a b t" "i < length a" "j < length b" "right_at a b t (i + 1) j" "right_at a b t i (j + 1)" "right_at a b t (i + 1) (j + 1)"
  shows "right_at a b (fill_cell a b i j t) i j"
proof -
  have "drop i a = a ! i # drop (i + 1) a" "drop j b = b ! j # drop (j + 1) b" using assms(2,3) by (simp_all add: Cons_nth_drop_Suc)
  then show ?thesis using assms(4-6) unfolding right_at_def fill_cell_cell(2) [OF assms(1-3)] by simp
qed

lemma fill_row_right:
  assumes "k \<le> length b" "sized a b t" "i < length a" "\<forall>j \<le> length b. right_at a b t (i + 1) j" "\<forall>j. k \<le> j \<and> j \<le> length b \<longrightarrow> right_at a b t i j"
  shows "sized a b (fold (fill_cell a b i) (rev [0..<k]) t) \<and> (\<forall>j \<le> length b. right_at a b (fold (fill_cell a b i) (rev [0..<k]) t) i j)
    \<and> (\<forall>i' j. i' \<noteq> i \<longrightarrow> cell (fold (fill_cell a b i) (rev [0..<k]) t) i' j = cell t i' j)"
  using assms(1,2,4,5)
proof (induction k arbitrary: t)
  case (Suc k)
  let ?t = "fill_cell a b i k t"
  have k: "k < length b" using Suc.prems(1) by simp
  note fc = fill_cell_cell [OF Suc.prems(2) assms(3) k]
  have "right_at a b ?t i k" using right_cell [OF Suc.prems(2) assms(3) k] Suc.prems(3,4) k by simp
  moreover have "right_at a b ?t i j" if "Suc k \<le> j" "j \<le> length b" for j using Suc.prems(4) that by (simp add: right_at_def fc(2))
  ultimately have here: "\<forall>j. k \<le> j \<and> j \<le> length b \<longrightarrow> right_at a b ?t i j" by (metis le_antisym not_less_eq_eq)
  have below: "\<forall>j \<le> length b. right_at a b ?t (i + 1) j" using Suc.prems(3) by (simp add: right_at_def fc(2))
  show ?case using Suc.IH [OF _ fc(1) below here] k by (simp add: fc(2))
qed simp

lemma fill_rows_right:
  assumes "k \<le> length a" "sized a b t" "\<forall>i j. k \<le> i \<and> i \<le> length a \<and> j \<le> length b \<longrightarrow> right_at a b t i j"
    "\<forall>i < k. right_at a b t i (length b)"
  shows "i \<le> length a \<Longrightarrow> j \<le> length b \<Longrightarrow> right_at a b (fold (fill_row a b) (rev [0..<k]) t) i j"
  using assms
proof (induction k arbitrary: t)
  case (Suc k)
  let ?t = "fill_row a b k t"
  have k: "k < length a" using Suc.prems(3) by simp
  have "\<forall>j \<le> length b. right_at a b t (k + 1) j" "\<forall>j. length b \<le> j \<and> j \<le> length b \<longrightarrow> right_at a b t k j"
    using Suc.prems(5,6) k by (auto dest: le_antisym)
  from fill_row_right [OF order_refl Suc.prems(4) k this, folded fill_row_def]
  have r: "sized a b ?t" "\<forall>j \<le> length b. right_at a b ?t k j" "\<And>i' j. i' \<noteq> k \<Longrightarrow> cell ?t i' j = cell t i' j" by blast+
  have "\<forall>i j. k \<le> i \<and> i \<le> length a \<and> j \<le> length b \<longrightarrow> right_at a b ?t i j"
  proof (intro allI impI)
    fix i j
    assume "k \<le> i \<and> i \<le> length a \<and> j \<le> length b"
    then show "right_at a b ?t i j" using r(2,3) Suc.prems(5) by (cases "i = k") (simp_all add: right_at_def)
  qed
  moreover have "\<forall>i < k. right_at a b ?t i (length b)" using Suc.prems(6) r(3) by (simp add: right_at_def)
  ultimately show ?case using Suc.IH [OF Suc.prems(1,2) _ r(1)] k by simp
qed simp

lemma lcs_table_right: "i \<le> length a \<Longrightarrow> j \<le> length b \<Longrightarrow> cell (lcs_table a b) i j = lcs (drop i a) (drop j b)"
proof -
  let ?z = "replicate (length a + 1) (replicate (length b + 1) (0 :: nat))"
  have z: "cell ?z i j = 0" if "i \<le> length a" "j \<le> length b" for i j using that unfolding cell_def by (simp del: replicate_Suc)
  have "sized a b ?z" by (simp add: sized_def)
  moreover have "\<forall>i j. length a \<le> i \<and> i \<le> length a \<and> j \<le> length b \<longrightarrow> right_at a b ?z i j" "\<forall>i < length a. right_at a b ?z i (length b)"
    unfolding right_at_def using z by auto
  ultimately show "i \<le> length a \<Longrightarrow> j \<le> length b \<Longrightarrow> cell (lcs_table a b) i j = lcs (drop i a) (drop j b)"
    using fill_rows_right [OF order_refl, of a b ?z i j] unfolding lcs_table_def right_at_def by blast
qed

section \<open>What the diff shows\<close>

text \<open>The lines of a diff that come from the first text, from the second, and those kept.\<close>

definition old_side :: "string list \<Rightarrow> string list" where
  "old_side out = map (drop 2) (filter (\<lambda>l. take 2 l \<noteq> ''+ '') out)"

definition new_side :: "string list \<Rightarrow> string list" where
  "new_side out = map (drop 2) (filter (\<lambda>l. take 2 l \<noteq> ''- '') out)"

definition kept_lines :: "string list \<Rightarrow> string list" where
  "kept_lines out = map (drop 2) (filter (\<lambda>l. take 2 l = ''  '') out)"

lemmas sides = old_side_def new_side_def kept_lines_def

lemma sides_Cons [simp]:
  "old_side ((''  '' @ l) # out) = l # old_side out" "old_side ((''- '' @ l) # out) = l # old_side out" "old_side ((''+ '' @ l) # out) = old_side out"
  "new_side ((''  '' @ l) # out) = l # new_side out" "new_side ((''- '' @ l) # out) = new_side out" "new_side ((''+ '' @ l) # out) = l # new_side out"
  "kept_lines ((''  '' @ l) # out) = l # kept_lines out" "kept_lines ((''- '' @ l) # out) = kept_lines out" "kept_lines ((''+ '' @ l) # out) = kept_lines out"
  by (simp_all add: sides)

lemma sides_tail:
  "old_side (map (\<lambda>l. ''- '' @ l) xs @ map (\<lambda>l. ''+ '' @ l) ys) = xs" "new_side (map (\<lambda>l. ''- '' @ l) xs @ map (\<lambda>l. ''+ '' @ l) ys) = ys"
  "kept_lines (map (\<lambda>l. ''- '' @ l) xs @ map (\<lambda>l. ''+ '' @ l) ys) = []"
  by (simp_all add: sides o_def filter_False)

lemma walk_sides:
  assumes "\<forall>i j. i \<le> length a \<and> j \<le> length b \<longrightarrow> cell t i j = lcs (drop i a) (drop j b)" "i \<le> length a" "j \<le> length b"
  shows "old_side (walk a b t i j) = drop i a \<and> new_side (walk a b t i j) = drop j b \<and> length (kept_lines (walk a b t i j)) = lcs (drop i a) (drop j b)"
  using assms
proof (induction a b t i j rule: walk.induct)
  case (1 a b t i j)
  show ?case
  proof (cases "i < length a \<and> j < length b")
    case True
    then have d: "drop i a = a ! i # drop (i + 1) a" "drop j b = b ! j # drop (j + 1) b" by (simp_all add: Cons_nth_drop_Suc)
    have c: "cell t (i + 1) j = lcs (drop (i + 1) a) (drop j b)" "cell t i (j + 1) = lcs (drop i a) (drop (j + 1) b)" using "1.prems"(1) True by simp_all
    show ?thesis using "1.IH" [OF True] "1.prems"(1) True unfolding walk.simps [of a b t i j]
      by (simp del: append.simps add: d [simplified] c [simplified, unfolded d [simplified]])
  next
    case False
    then have "drop i a = [] \<or> drop j b = []" using "1.prems" by auto
    then have "lcs (drop i a) (drop j b) = 0" by auto
    then show ?thesis using False unfolding walk.simps [of a b t i j] by (simp only: if_False sides_tail) simp
  qed
qed

lemma kept_is_common: "subseq (kept_lines out) (old_side out)" "subseq (kept_lines out) (new_side out)"
  by (induction out) (auto simp: sides)

text \<open>C40. The line diff is exact and shortest: its lines without the added ones are the old text, without the removed ones the new text, and, up to
  the size at which the table is given up, no common subsequence of the two texts is longer than the lines it keeps.\<close>

theorem lineDiff_optimal:
  "old_side (lineDiff a b) = a \<and> new_side (lineDiff a b) = b
    \<and> (length a * length b \<le> maxDiffCells \<longrightarrow> (\<forall>c. subseq c a \<and> subseq c b \<longrightarrow> length c \<le> length (kept_lines (lineDiff a b))))"
proof (cases "length a * length b > maxDiffCells")
  case True
  then have "lineDiff a b = map (\<lambda>l. ''- '' @ l) a @ map (\<lambda>l. ''+ '' @ l) b" by (simp add: lineDiff_def)
  then show ?thesis using True sides_tail [of a b] by presburger
next
  case False
  then have d: "lineDiff a b = walk a b (lcs_table a b) 0 0" by (simp add: lineDiff_def)
  have "old_side (walk a b (lcs_table a b) 0 0) = drop 0 a \<and> new_side (walk a b (lcs_table a b) 0 0) = drop 0 b
      \<and> length (kept_lines (walk a b (lcs_table a b) 0 0)) = lcs (drop 0 a) (drop 0 b)"
    by (rule walk_sides) (simp_all add: lcs_table_right)
  then show ?thesis unfolding d using lcs_upper by auto
qed

theorem lineDiff_optimal_witness:
  "length [''a'', ''b'', ''c''] * length [''b'', ''x'', ''c''] \<le> maxDiffCells
    \<and> subseq [''b'', ''c''] [''a'', ''b'', ''c''] \<and> subseq [''b'', ''c''] [''b'', ''x'', ''c'']
    \<and> old_side (lineDiff [''a'', ''b'', ''c''] [''b'', ''x'', ''c'']) = [''a'', ''b'', ''c'']
    \<and> length [''b'', ''c''] \<le> length (kept_lines (lineDiff [''a'', ''b'', ''c''] [''b'', ''x'', ''c'']))"
proof -
  have small: "length [''a'', ''b'', ''c''] * length [''b'', ''x'', ''c''] \<le> maxDiffCells" by (simp add: maxDiffCells_def)
  have common: "subseq [''b'', ''c''] [''a'', ''b'', ''c'']" "subseq [''b'', ''c''] [''b'', ''x'', ''c'']" by simp_all
  show ?thesis using lineDiff_optimal [of "[''a'', ''b'', ''c'']" "[''b'', ''x'', ''c'']"] small common by blast
qed

section \<open>Tags as bags\<close>

lemma keyed_count:
  assumes "inj key"
  shows "keyed key tags (key t) = count (mset tags) t"
proof -
  have "fold (\<lambda>t m. m(key t := m (key t) + 1)) tags m (key t) = m (key t) + count (mset tags) t" for m
    using assms by (induction tags arbitrary: m) (auto simp: inj_eq)
  then show ?thesis by (simp add: keyed_def)
qed

lemma tags_missing_bag:
  assumes "inj key" "\<forall>t. m (key t) = count M t"
  shows "mset (tags_missing key ts m) = mset ts - M"
  using assms(2)
proof (induction ts arbitrary: m M)
  case (Cons t ts)
  show ?case
  proof (cases "m (key t) > 0")
    case True
    then have "t \<in># M" using Cons.prems by (metis count_greater_zero_iff)
    then obtain N where N: "M = add_mset t N" by (meson multi_member_split)
    have "(m(key t := m (key t) - 1)) (key u) = count N u" for u
      using Cons.prems [rule_format, of u] inj_eq [OF assms(1), of u t] by (cases "u = t") (simp_all add: N)
    then have "\<forall>u. (m(key t := m (key t) - 1)) (key u) = count N u" ..
    from Cons.IH [OF this] show ?thesis using True by (simp add: N Let_def fun_upd_def)
  next
    case False
    then have "t \<notin># M" using Cons.prems by (metis count_greater_zero_iff)
    then show ?thesis using Cons.IH [OF Cons.prems] False by (simp add: Let_def)
  qed
qed simp

lemma diff_tags:
  assumes "inj key"
  shows "mset (dv_TagsRemoved (diffEvents key a b)) = mset (ev_Tags a) - mset (ev_Tags b)"
    "mset (dv_TagsAdded (diffEvents key a b)) = mset (ev_Tags b) - mset (ev_Tags a)"
  using tags_missing_bag [OF assms] keyed_count [OF assms] by (simp_all add: diffEvents_def Let_def)

lemma field_change_Nil: "field_change f x y d = [] \<longleftrightarrow> \<not> d"
  by (simp add: field_change_def)

text \<open>Two events are reported identical exactly when they agree in every field, their tags taken as a bag.\<close>

lemma diff_same:
  assumes "inj key"
  shows "dv_Same (diffEvents key a b) \<longleftrightarrow> ev_ID a = ev_ID b \<and> ev_PubKey a = ev_PubKey b \<and> ev_Kind a = ev_Kind b
    \<and> ev_CreatedAt a = ev_CreatedAt b \<and> ev_Sig a = ev_Sig b \<and> ev_Content a = ev_Content b \<and> mset (ev_Tags a) = mset (ev_Tags b)"
proof -
  let ?v = "diffEvents key a b"
  have "dv_TagsRemoved ?v = [] \<and> dv_TagsAdded ?v = [] \<longleftrightarrow> mset (ev_Tags a) - mset (ev_Tags b) = {#} \<and> mset (ev_Tags b) - mset (ev_Tags a) = {#}"
    using diff_tags [OF assms] by (metis mset_zero_iff)
  also have "\<dots> \<longleftrightarrow> mset (ev_Tags a) = mset (ev_Tags b)" by (auto simp: Diff_eq_empty_iff_mset intro: subset_mset.antisym)
  finally show ?thesis by (auto simp: diffEvents_def Let_def field_change_Nil)
qed

end
