(* ===== verification/Event_Theorems.thy ===== *)
theory Event_Theorems
  imports Event_Check Event_Diff
begin

text \<open>
  What holds of the event commands: the copy they act on, whatever relays serve; that no relay is left out while an event is still wanted; what
  a verification that passes has established; and the two sides of a diff.
\<close>

section \<open>The copy to act on\<close>

lemma newer_trans: "newer a b \<Longrightarrow> newer b c \<Longrightarrow> newer a c"
  unfolding newer_def by (auto split: if_splits)

lemma newer_total: "\<not> newer a b \<Longrightarrow> \<not> newer b a \<Longrightarrow> ev_CreatedAt a = ev_CreatedAt b \<and> ev_ID a = ev_ID b"
  unfolding newer_def by (auto split: if_splits)

lemma newer_irrefl [simp]: "\<not> newer a a"
  by (simp add: newer_def)

text \<open>The choice of one of the two candidates over the copies that satisfy \<open>Q\<close>.\<close>

definition chosen :: "bool \<Rightarrow> eventCopy list \<Rightarrow> eventCopy option \<Rightarrow> bool" where
  "chosen addr cs p = (case p of
     None \<Rightarrow> cs = []
   | Some c \<Rightarrow> c \<in> set cs \<and> (if addr then \<forall>d \<in> set cs. \<not> newer (cp_Event d) (cp_Event c) else c = hd cs))"

lemma chosen_step:
  assumes "chosen addr cs p"
  shows "chosen addr (cs @ [c]) (if (case p of None \<Rightarrow> True | Some q \<Rightarrow> addr \<and> newer (cp_Event c) (cp_Event q)) then Some c else p)"
proof (cases p)
  case None
  then show ?thesis using assms by (simp add: chosen_def)
next
  case (Some q)
  have "newer (cp_Event c) (cp_Event q) \<Longrightarrow> \<forall>d \<in> set cs. \<not> newer (cp_Event d) (cp_Event q) \<Longrightarrow> \<forall>d \<in> set cs. \<not> newer (cp_Event d) (cp_Event c)"
    using newer_trans by blast
  then show ?thesis using assms Some by (auto simp: chosen_def hd_append)
qed

lemma best_fold:
  assumes "chosen addr done0 p" "chosen addr (filter (\<lambda>c. le_ok E (cp_Event c)) done0) v" "fold (best_step E addr) cs (p, v) = (p', v')"
  shows "chosen addr (done0 @ cs) p' \<and> chosen addr (filter (\<lambda>c. le_ok E (cp_Event c)) (done0 @ cs)) v'"
  using assms
proof (induction cs arbitrary: done0 p v)
  case (Cons c cs)
  let ?p = "if (case p of None \<Rightarrow> True | Some q \<Rightarrow> addr \<and> newer (cp_Event c) (cp_Event q)) then Some c else p"
  let ?v = "if le_ok E (cp_Event c) \<and> (case v of None \<Rightarrow> True | Some q \<Rightarrow> addr \<and> newer (cp_Event c) (cp_Event q)) then Some c else v"
  have p: "chosen addr (done0 @ [c]) ?p" using Cons.prems(1) by (rule chosen_step)
  have v: "chosen addr (filter (\<lambda>c. le_ok E (cp_Event c)) (done0 @ [c])) ?v"
    using chosen_step [OF Cons.prems(2), of c] Cons.prems(2) by (cases "le_ok E (cp_Event c)") simp_all
  have "best_step E addr c (p, v) = (?p, ?v)" by (simp add: best_step_def Let_def)
  then have "fold (best_step E addr) cs (?p, ?v) = (p', v')" using Cons.prems(3) by simp
  from Cons.IH [OF p v this] show ?case by simp
qed simp

lemma best_cases:
  obtains (none) "lk_Copies l = []" "best E l = None"
  | (invalid) c where "best E l = Some c" "c \<in> set (lk_Copies l)" "\<forall>d \<in> set (lk_Copies l). \<not> le_ok E (cp_Event d)"
  | (valid) c where "best E l = Some c" "c \<in> set (lk_Copies l)" "le_ok E (cp_Event c)"
      "chosen (rf_Addr (lk_Ref l)) (filter (\<lambda>c. le_ok E (cp_Event c)) (lk_Copies l)) (Some c)"
proof -
  let ?a = "rf_Addr (lk_Ref l)" and ?ok = "\<lambda>c. le_ok E (cp_Event c)"
  obtain p v where pv: "fold (best_step E ?a) (lk_Copies l) (None, None) = (p, v)" by (rule prod.exhaust)
  have "chosen ?a ([] @ lk_Copies l) p \<and> chosen ?a (filter ?ok ([] @ lk_Copies l)) v" by (rule best_fold [OF _ _ pv]) (simp_all add: chosen_def)
  then have ch: "chosen ?a (lk_Copies l) p" "chosen ?a (filter ?ok (lk_Copies l)) v" by simp_all
  have b: "best E l = (if v \<noteq> None then v else p)" by (simp add: best_def pv)
  show thesis
  proof (cases v)
    case None
    then have bad: "\<forall>d \<in> set (lk_Copies l). \<not> ?ok d" using ch(2) by (auto simp: chosen_def filter_empty_conv)
    show ?thesis
    proof (cases p)
      case None
      then show ?thesis using ch(1) b \<open>v = None\<close> by (intro none) (simp_all add: chosen_def)
    next
      case (Some c)
      then show ?thesis using ch(1) b \<open>v = None\<close> bad by (intro invalid [of c]) (simp_all add: chosen_def)
    qed
  next
    case (Some c)
    then show ?thesis using ch(2) b by (intro valid [of c]) (auto simp: chosen_def)
  qed
qed

section \<open>What a lookup gathers\<close>

text \<open>A lookup grows: its reference stays, its copies and answers are only added to, and what is added matches.\<close>

definition grows :: "lookup \<Rightarrow> lookup \<Rightarrow> bool" where
  "grows l l' \<longleftrightarrow> lk_Ref l' = lk_Ref l \<and> set (lk_Copies l) \<subseteq> set (lk_Copies l') \<and> set (asked_keys l) \<subseteq> set (asked_keys l')
     \<and> (\<forall>c \<in> set (lk_Copies l'). c \<in> set (lk_Copies l) \<or> \<not> inline (lk_Ref l) \<and> ref_matches (lk_Ref l) (cp_Event c))"

lemma grows_refl [simp]: "grows l l"
  by (simp add: grows_def)

lemma grows_trans: "grows a b \<Longrightarrow> grows b c \<Longrightarrow> grows a c"
  unfolding grows_def by (metis subset_trans)

lemma grows_record: "grows l (record_one t res l)" "relayKey t \<in> set (asked_keys (record_one t res l))"
  by (auto simp: grows_def record_one_def Let_def asked_keys_def inline_def split: option.splits)

lemma grows_satisfied: "satisfied E l \<Longrightarrow> grows l l' \<Longrightarrow> satisfied E l'"
  by (auto simp: satisfied_def grows_def list_ex_iff split: if_splits)

definition all_grow :: "lookup list \<Rightarrow> lookup list \<Rightarrow> bool" where
  "all_grow ls ls' \<longleftrightarrow> length ls' = length ls \<and> (\<forall>j < length ls. grows (ls ! j) (ls' ! j))"

lemma all_grow_refl [simp]: "all_grow ls ls"
  by (simp add: all_grow_def)

lemma all_grow_trans: "all_grow a b \<Longrightarrow> all_grow b c \<Longrightarrow> all_grow a c"
  unfolding all_grow_def using grows_trans by fastforce

lemma record_members_grow:
  "all_grow ls (record_members t res ms ls)"
  "j \<in> set ms \<Longrightarrow> j < length ls \<Longrightarrow> relayKey t \<in> set (asked_keys (record_members t res ms ls ! j))"
proof -
  have one: "all_grow ls (ls[i := record_one t res (ls ! i)])" for i ls
    by (cases "i < length ls") (auto simp: all_grow_def nth_list_update list_update_beyond grows_record)
  have g: "all_grow ls (record_members t res ms ls)" for ls ms
    unfolding record_members_def
  proof (induction ms arbitrary: ls)
    case (Cons i ms)
    from all_grow_trans [OF one Cons.IH] show ?case by simp
  qed simp
  then show "all_grow ls (record_members t res ms ls)" .
  show "j \<in> set ms \<Longrightarrow> j < length ls \<Longrightarrow> relayKey t \<in> set (asked_keys (record_members t res ms ls ! j))"
  proof (induction ms arbitrary: ls)
    case (Cons i ms)
    let ?ls = "ls[i := record_one t res (ls ! i)]"
    have r: "record_members t res (i # ms) ls = record_members t res ms ?ls" by (simp add: record_members_def)
    show ?case
    proof (cases "j \<in> set ms")
      case True
      then show ?thesis unfolding r using Cons by simp
    next
      case False
      then have "relayKey t \<in> set (asked_keys (?ls ! j))" using Cons.prems grows_record(2) by simp
      moreover have "grows (?ls ! j) (record_members t res ms ?ls ! j)" using g [of ?ls ms] Cons.prems(2) by (simp add: all_grow_def)
      ultimately show ?thesis unfolding r by (auto simp: grows_def)
    qed
  qed simp
qed

definition asked_or_settled :: "lookup_env \<Rightarrow> string set \<Rightarrow> lookup \<Rightarrow> bool" where
  "asked_or_settled E ks l \<longleftrightarrow> inline (lk_Ref l) \<or> satisfied E l \<or> ks \<subseteq> set (asked_keys l)"

lemma asked_or_settled_grows: "asked_or_settled E ks l \<Longrightarrow> grows l l' \<Longrightarrow> asked_or_settled E ks l'"
  unfolding asked_or_settled_def using grows_satisfied by (auto simp: grows_def)

lemma ask_first_settles:
  "ask_first E ts ms ls n = (ls', n') \<Longrightarrow> all_grow ls ls' \<and> (\<forall>j \<in> set ms. j < length ls \<longrightarrow> asked_or_settled E (relayKey ` set ts) (ls' ! j))"
proof (induction ts arbitrary: ls n)
  case Nil
  then show ?case by (simp add: asked_or_settled_def)
next
  case (Cons t ts)
  let ?opn = "filter (\<lambda>i. still_pending E False (ls ! i)) ms"
  show ?case
  proof (cases "?opn = []")
    case True
    then have "\<forall>j \<in> set ms. asked_or_settled E (relayKey ` set (t # ts)) (ls ! j)"
      by (auto simp: filter_empty_conv still_pending_def asked_or_settled_def split: if_splits)
    then show ?thesis using Cons.prems True by simp
  next
    case False
    let ?ls = "record_members t (le_read E n t) ?opn ls"
    have "ask_first E ts ms ?ls (n + 1) = (ls', n')" using Cons.prems False by (simp add: Let_def)
    from Cons.IH [OF this] have ih: "all_grow ?ls ls'" "\<forall>j \<in> set ms. j < length ?ls \<longrightarrow> asked_or_settled E (relayKey ` set ts) (ls' ! j)" by auto
    have g: "all_grow ls ?ls" by (rule record_members_grow)
    have "asked_or_settled E (relayKey ` set (t # ts)) (ls' ! j)" if j: "j \<in> set ms" "j < length ls" for j
    proof -
      have j': "grows (ls ! j) (?ls ! j)" "grows (?ls ! j) (ls' ! j)" "j < length ?ls" using g ih(1) j(2) by (auto simp: all_grow_def)
      have "asked_or_settled E {relayKey t} (?ls ! j)"
      proof (cases "j \<in> set ?opn")
        case True
        then show ?thesis using record_members_grow(2) j(2) by (simp add: asked_or_settled_def)
      next
        case False
        then have "inline (lk_Ref (ls ! j)) \<or> satisfied E (ls ! j)" using j(1) by (auto simp: still_pending_def split: if_splits)
        then show ?thesis using asked_or_settled_grows [OF _ j'(1)] by (auto simp: asked_or_settled_def)
      qed
      then have "asked_or_settled E {relayKey t} (ls' ! j)" by (rule asked_or_settled_grows [OF _ j'(2)])
      then show ?thesis using ih(2) j(1) j'(3) by (auto simp: asked_or_settled_def)
    qed
    then show ?thesis using all_grow_trans [OF g ih(1)] by blast
  qed
qed

lemma ask_everywhere_settles:
  assumes "ask_everywhere E ts ms ls n = (ls', n')"
  shows "all_grow ls ls' \<and> (\<forall>j \<in> set ms. j < length ls \<longrightarrow> asked_or_settled E (relayKey ` set ts) (ls' ! j))"
proof -
  have f: "all_grow ls (fold (\<lambda>(t, res) ls. record_members t res ms ls) ps ls)
      \<and> (\<forall>j \<in> set ms. j < length ls \<longrightarrow> relayKey ` fst ` set ps \<subseteq> set (asked_keys (fold (\<lambda>(t, res) ls. record_members t res ms ls) ps ls ! j)))" for ps ls
  proof (induction ps arbitrary: ls)
    case (Cons p ps)
    obtain t res where p: "p = (t, res)" by (cases p)
    let ?ls = "record_members t res ms ls"
    have g: "all_grow ls ?ls" by (rule record_members_grow)
    have ih: "all_grow ?ls (fold (\<lambda>(t, res) ls. record_members t res ms ls) ps ?ls)" using Cons.IH by blast
    have "relayKey t \<in> set (asked_keys (fold (\<lambda>(t, res) ls. record_members t res ms ls) ps ?ls ! j))" if "j \<in> set ms" "j < length ls" for j
      using record_members_grow(2) [OF that, of t res] ih g that(2) by (auto simp: all_grow_def grows_def)
    then show ?case using Cons.IH [of ?ls] all_grow_trans [OF g ih] g by (simp add: p all_grow_def)
  qed simp
  have "fst ` set (zip ts (readAll E n ts)) = set ts" by (metis length_map map_fst_zip map_nth readAll_def set_map)
  then show ?thesis using assms f [of ls "zip ts (readAll E n ts)"] unfolding ask_everywhere_def asked_or_settled_def by auto
qed

lemma ask_group_settles:
  assumes "ask_group E everywhere (key, ts, ms) (ls, n) = (ls', n')"
  shows "all_grow ls ls'" "j \<in> set ms \<Longrightarrow> j < length ls \<Longrightarrow> asked_or_settled E (relayKey ` set ts) (ls' ! j)"
  using assms ask_first_settles [of E ts ms ls n ls' n'] ask_everywhere_settles [of E ts ms ls n ls' n']
  by (auto simp: ask_group_def split: if_splits)

lemma ask_groups_settle:
  assumes "fold (ask_group E everywhere) gs (ls, n) = (ls', n')"
  shows "all_grow ls ls' \<and> (\<forall>(key, ts, ms) \<in> set gs. \<forall>j \<in> set ms. j < length ls \<longrightarrow> asked_or_settled E (relayKey ` set ts) (ls' ! j))"
  using assms
proof (induction gs arbitrary: ls n)
  case (Cons g gs)
  obtain key ts ms where g: "g = (key, ts, ms)" by (cases g)
  obtain ls1 n1 where one: "ask_group E everywhere g (ls, n) = (ls1, n1)" by (rule prod.exhaust)
  then have ih: "all_grow ls1 ls' \<and> (\<forall>(key, ts, ms) \<in> set gs. \<forall>j \<in> set ms. j < length ls1 \<longrightarrow> asked_or_settled E (relayKey ` set ts) (ls' ! j))"
    using Cons.IH Cons.prems by simp
  note st = ask_group_settles [OF one [unfolded g]]
  have "asked_or_settled E (relayKey ` set ts) (ls' ! j)" if "j \<in> set ms" "j < length ls" for j
    using asked_or_settled_grows [OF st(2) [OF that]] ih st(1) that(2) by (simp add: all_grow_def)
  moreover have "length ls1 = length ls" using st(1) by (simp add: all_grow_def)
  ultimately show ?case using ih all_grow_trans [OF st(1)] by (auto simp: g)
qed simp

section \<open>Which relays are asked\<close>
















lemma askEach_grows: "askEach E everywhere F ls st = (ls', st') \<Longrightarrow> all_grow ls ls'"
  using ask_groups_settle by (fastforce simp: askEach_def split: prod.splits)


section \<open>Verification\<close>

lemma status_simps [simp]: "ck_Status (ok_check n x) = statusOK" "ck_Status (fail_check n y) = statusFail" "ck_Status (skip_check n y) = statusSkip"
  by (simp_all add: ok_check_def fail_check_def skip_check_def)

lemma verdict_valid: "check_verdict cs = ''valid'' \<longleftrightarrow> (\<forall>c \<in> set cs. ck_Status c \<noteq> statusFail)"
  by (auto simp: check_verdict_def list_ex_iff)

lemma checkSig_ok:
  assumes "ck_Status (checkSig C ev hash) \<noteq> statusFail"
  shows "\<exists>sig pub. hex_decode (ev_Sig ev) = Some sig \<and> hex_decode (ev_PubKey ev) = Some pub \<and> ce_SigVerify C sig hash pub"
  using assms by (auto simp: checkSig_def split: option.splits if_splits)

lemma checkPow_ok:
  assumes "ck_Status (checkPow C ev idOK minPow) \<noteq> statusFail"
  shows "minPow > 0 \<Longrightarrow> \<exists>d. ce_Difficulty C (ev_ID ev) = Inr d \<and> d \<ge> minPow" "findTag ''nonce'' (ev_Tags ev) \<noteq> None \<Longrightarrow> ce_ValidatePow C ev = None"
  using assms by (auto simp: checkPow_def Let_def split: sum.splits option.splits if_splits)

lemma checkExpiration_ok:
  assumes "\<forall>c. checkExpiration C ev now = Some c \<longrightarrow> ck_Status c \<noteq> statusFail" "findTag ''expiration'' (ev_Tags ev) \<noteq> None"
  shows "\<exists>at. ce_Expiration C (ev_Tags ev) = Inr at \<and> (word_of_int (time_unix now) :: 64 word) < at"
  using assms by (auto simp: checkExpiration_def split: sum.splits if_splits)

text \<open>What no failing check means.\<close>

lemma checkEvent_valid:
  assumes "\<forall>c \<in> set (checkEvent C ev rf want). ck_Status c \<noteq> statusFail"
  shows "\<exists>hash sig pub. ce_HashID C ev = Inr hash \<and> equal_fold (hex_encode hash) (ev_ID ev) \<and> hex_decode (ev_Sig ev) = Some sig
      \<and> hex_decode (ev_PubKey ev) = Some pub \<and> ce_SigVerify C sig hash pub"
    "xp_Author want \<noteq> [] \<Longrightarrow> equal_fold (ev_PubKey ev) (xp_Author want)" "xp_Kind want \<ge> 0 \<Longrightarrow> ev_Kind ev = xp_Kind want"
    "xp_MinPow want > 0 \<Longrightarrow> \<exists>d. ce_Difficulty C (ev_ID ev) = Inr d \<and> d \<ge> xp_MinPow want"
    "findTag ''expiration'' (ev_Tags ev) \<noteq> None \<Longrightarrow> \<exists>at. ce_Expiration C (ev_Tags ev) = Inr at \<and> (word_of_int (time_unix (xp_Now want)) :: 64 word) < at"
proof -
  have v: "ce_Validate C ev = None" using assms by (auto simp: checkEvent_def split: option.splits)
  obtain hash where h: "ce_HashID C ev = Inr hash" using assms by (auto simp: checkEvent_def v split: sum.splits)
  let ?idOK = "equal_fold (hex_encode hash) (ev_ID ev)"
  note cs = assms [unfolded checkEvent_def v option.case h sum.case Let_def]
  have i: ?idOK using cs by (auto split: if_splits)
  have "ck_Status (checkSig C ev hash) \<noteq> statusFail" using cs by simp
  from checkSig_ok [OF this] show "\<exists>hash sig pub. ce_HashID C ev = Inr hash \<and> equal_fold (hex_encode hash) (ev_ID ev) \<and> hex_decode (ev_Sig ev) = Some sig
      \<and> hex_decode (ev_PubKey ev) = Some pub \<and> ce_SigVerify C sig hash pub" using h i by auto
  show "xp_Author want \<noteq> [] \<Longrightarrow> equal_fold (ev_PubKey ev) (xp_Author want)" using cs by (auto split: if_splits)
  show "xp_Kind want \<ge> 0 \<Longrightarrow> ev_Kind ev = xp_Kind want" using cs by (auto split: if_splits)
  have "ck_Status (checkPow C ev ?idOK (xp_MinPow want)) \<noteq> statusFail" using cs by simp
  from checkPow_ok(1) [OF this] show "xp_MinPow want > 0 \<Longrightarrow> \<exists>d. ce_Difficulty C (ev_ID ev) = Inr d \<and> d \<ge> xp_MinPow want" .
  have "\<forall>c. checkExpiration C ev (xp_Now want) = Some c \<longrightarrow> ck_Status c \<noteq> statusFail" using cs by (auto simp: optional_checks_def)
  from checkExpiration_ok [OF this]
  show "findTag ''expiration'' (ev_Tags ev) \<noteq> None \<Longrightarrow> \<exists>at. ce_Expiration C (ev_Tags ev) = Inr at \<and> (word_of_int (time_unix (xp_Now want)) :: 64 word) < at" .
qed

lemma resolve_copies:
  assumes "resolve E R refs everywhere st = (ls, st')"
  shows "length ls = length refs" "i < length refs \<Longrightarrow> lk_Ref (ls ! i) = refs ! i"
    "i < length refs \<Longrightarrow> c \<in> set (lk_Copies (ls ! i)) \<Longrightarrow> (case rf_Event (refs ! i) of Some ev \<Rightarrow> cp_Event c = ev | None \<Rightarrow> ref_matches (refs ! i) (cp_Event c))"
proof -
  let ?ls0 = "map start_lookup refs"
  have g: "all_grow ?ls0 ls"
  proof (cases "rz_offline R")
    case True
    then show ?thesis using assms by (simp add: resolve_def)
  next
    case False
    obtain ls1 st1 where a1: "askEach E everywhere (\<lambda>l st. (firstRelays E R (lk_Ref l), st)) ?ls0 st = (ls1, st1)" by (rule prod.exhaust)
    then have "askEach E everywhere (\<lambda>l st. outboxRelays E R (lookup_author l) (rf_Hints (lk_Ref l)) st) ls1 st1 = (ls, st')"
      using assms False by (simp add: resolve_def Let_def)
    then show ?thesis using askEach_grows [OF a1] askEach_grows all_grow_trans by blast
  qed
  show "length ls = length refs" using g by (simp add: all_grow_def)
  assume i: "i < length refs"
  then have gi: "grows (start_lookup (refs ! i)) (ls ! i)" using g by (simp add: all_grow_def)
  then show "lk_Ref (ls ! i) = refs ! i" by (simp add: grows_def start_lookup_def)
  show "c \<in> set (lk_Copies (ls ! i)) \<Longrightarrow> (case rf_Event (refs ! i) of Some ev \<Rightarrow> cp_Event c = ev | None \<Rightarrow> ref_matches (refs ! i) (cp_Event c))"
    using gi by (auto simp: grows_def start_lookup_def inline_def split: option.splits)
qed

lemma verify_all_nth:
  "length (verify_all C E R want cross deleted ls st) = length ls"
  "i < length ls \<Longrightarrow> \<exists>st. verify_all C E R want cross deleted ls st0 ! i = fst (verify_one C E R want cross deleted (ls ! i) st)"
proof -
  show "length (verify_all C E R want cross deleted ls st) = length ls" by (induction ls arbitrary: st) (simp_all split: prod.split)
  show "i < length ls \<Longrightarrow> \<exists>st. verify_all C E R want cross deleted ls st0 ! i = fst (verify_one C E R want cross deleted (ls ! i) st)"
  proof (induction ls arbitrary: i st0)
    case (Cons l ls)
    obtain rep st1 where one: "verify_one C E R want cross deleted l st0 = (rep, st1)" by (rule prod.exhaust)
    show ?case
    proof (cases i)
      case 0
      then show ?thesis using one by (intro exI [of _ st0]) simp
    next
      case (Suc k)
      then show ?thesis using Cons.IH [of k st1] Cons.prems one by simp
    qed
  qed simp
qed

lemma verify_one_valid:
  assumes "best E l = Some b" "vr_Status (fst (verify_one C E R want cross deleted l st)) \<noteq> ''invalid''"
  shows "vr_Event (fst (verify_one C E R want cross deleted l st)) = Some (cp_Event b)"
    "\<forall>c \<in> set (checkEvent C (cp_Event b) (Some (lk_Ref l)) want). ck_Status c \<noteq> statusFail"
  using assms by (auto simp: verify_one_def Let_def check_verdict_def list_ex_iff case_prod_beta split: if_splits)

text \<open>C37. A verification that succeeds is sound. When \<open>event verify\<close> exits with success, there is a report for every reference, and each names an event that is the one referred to, whose id is the
  hash of its content, whose signature holds for its key, and which meets the required author, kind and work and has not expired.\<close>

theorem verify_sound:
  assumes "runVerify C E R want cross deleted refs = (reps, VerifyOk)" "i < length refs"
  shows "length reps = length refs \<and> (\<exists>ev hash sig pub. vr_Event (reps ! i) = Some ev
    \<and> (case rf_Event (refs ! i) of Some given \<Rightarrow> ev = given | None \<Rightarrow> ref_matches (refs ! i) ev)
    \<and> ce_HashID C ev = Inr hash \<and> equal_fold (hex_encode hash) (ev_ID ev)
    \<and> hex_decode (ev_Sig ev) = Some sig \<and> hex_decode (ev_PubKey ev) = Some pub \<and> ce_SigVerify C sig hash pub
    \<and> (xp_Author want = [] \<or> equal_fold (ev_PubKey ev) (xp_Author want)) \<and> (xp_Kind want < 0 \<or> ev_Kind ev = xp_Kind want)
    \<and> (xp_MinPow want \<le> 0 \<or> (\<exists>d. ce_Difficulty C (ev_ID ev) = Inr d \<and> d \<ge> xp_MinPow want))
    \<and> (findTag ''expiration'' (ev_Tags ev) = None \<or> (\<exists>at. ce_Expiration C (ev_Tags ev) = Inr at \<and> (word_of_int (time_unix (xp_Now want)) :: 64 word) < at)))"
proof -
  obtain ls st where rs: "resolve E R refs cross \<lparr>rs_outbox = [], rs_reads = 0\<rparr> = (ls, st)" by (rule prod.exhaust)
  let ?reps = "verify_all C E R want cross deleted ls st"
  have reps: "reps = ?reps" and ok: "filter (\<lambda>r. vr_Status r = ''invalid'') ?reps = []" "missingError R (filter (\<lambda>l. best E l = None) ls) = None"
    using assms(1) rs by (auto simp: runVerify_def Let_def split: if_splits option.splits)
  have len: "length ls = length refs" "length reps = length refs" using resolve_copies(1) [OF rs] verify_all_nth(1) reps by simp_all
  have "filter (\<lambda>l. best E l = None) ls = []" using ok(2) by (auto simp: missingError_def Let_def split: if_splits)
  moreover have "ls ! i \<in> set ls" using len(1) assms(2) by simp
  ultimately obtain b where b: "best E (ls ! i) = Some b" by (auto simp: filter_empty_conv)
  obtain st1 where one: "reps ! i = fst (verify_one C E R want cross deleted (ls ! i) st1)" using verify_all_nth(2) reps len(1) assms(2) by metis
  have "reps ! i \<in> set reps" using len(2) assms(2) by simp
  then have "vr_Status (reps ! i) \<noteq> ''invalid''" using ok(1) reps by (simp add: filter_empty_conv)
  note v = verify_one_valid [OF b this [unfolded one]]
  have "b \<in> set (lk_Copies (ls ! i))" using b by (cases rule: best_cases [of "ls ! i" E]) auto
  note m = resolve_copies(3) [OF rs assms(2) this]
  show ?thesis using v(1) m len(2) checkEvent_valid [OF v(2)] unfolding one by (metis leI)
qed

text \<open>The relays that answered hold no deletion, when the check for deletions passes.\<close>

lemma deletion_loop_none:
  "fst (deletion_loop E ev rs n) = None \<Longrightarrow> (t, res) \<in> set rs \<Longrightarrow> tr_Err res = None \<Longrightarrow> del \<in> set (tr_Events res) \<Longrightarrow> \<not> deletion_of E ev del"
  by (induction E ev rs n rule: deletion_loop.induct) (auto simp: find_None_iff split: if_splits option.splits)

text \<open>An event given in full is compared with no copy: what relays serve for it is counted and thrown away, so that an invalid copy does not fail the check.\<close>

lemma inline_copies_dropped:
  assumes "rf_Event (lk_Ref l) = Some ev"
  shows "lk_Copies (record_one t res l) = lk_Copies l"
  using assms by (simp add: record_one_def Let_def inline_def)

text \<open>A reply is marked as seen before it is verified: a forged copy with its id, served first, hides it.\<close>

lemma forged_copy_hides:
  assumes "ev_ID forged = ev_ID r" "\<not> le_ok E forged" "r \<noteq> forged"
  shows "r \<notin> set (reply_loop E pk ev [] [forged, r])"
  using assms by (auto simp: Let_def split: option.split)

section \<open>Concrete runs\<close>

definition ex_event :: event where
  "ex_event = \<lparr>ev_ID = ''6162'', ev_PubKey = ''01'', ev_CreatedAt = 5, ev_Kind = 1, ev_Tags = [], ev_Content = ''hi'', ev_Sig = ''02''\<rparr>"

definition ex_lookup_env :: lookup_env where
  "ex_lookup_env = \<lparr>le_ok = (\<lambda>_. True), le_full = (\<lambda>_. True), le_target = Some,
     le_read = (\<lambda>n t. \<lparr>tr_Events = (if n = 1 then [ex_event] else []), tr_Restricted = False, tr_Err = None\<rparr>), le_prefs = None, le_writes = (\<lambda>_. None)\<rparr>"

definition ex_check_env :: check_env where
  "ex_check_env = \<lparr>ce_Validate = (\<lambda>_. None), ce_HashID = (\<lambda>_. Inr ''ab''), ce_ParseSig = (\<lambda>_. None), ce_ParsePub = (\<lambda>_. None), ce_SigVerify = (\<lambda>s h p. h = ''ab''),
     ce_Difficulty = (\<lambda>_. Inr 0), ce_ValidatePow = (\<lambda>_. None), ce_Expiration = (\<lambda>_. Inl (Err [] [])), ce_Delegation = (\<lambda>_ _ _ _. None),
     ce_Conditions = (\<lambda>_ _ _. None), ce_AuthTag = (\<lambda>_ _. Inl (Err [] [])), ce_ZapReceipt = (\<lambda>_. None), ce_ZapRequest = (\<lambda>_. None), ce_npub = Inr, ce_date = (\<lambda>_. [])\<rparr>"

definition ex_resolver :: "bool \<Rightarrow> resolver" where
  "ex_resolver offline = \<lparr>rz_relays = [''a'', ''b''], rz_onlyHints = False, rz_noHints = False, rz_noOutbox = True, rz_offline = offline\<rparr>"

definition ex_expect :: expect where
  "ex_expect = \<lparr>xp_Author = ''01'', xp_Kind = 1, xp_MinPow = 0, xp_MaxSkew = 0, xp_Now = 0\<rparr>"



lemma ex_verify: "runVerify ex_check_env ex_lookup_env (ex_resolver True) ex_expect False False [inlineRef ''arg'' ex_event]
  = (verify_all ex_check_env ex_lookup_env (ex_resolver True) ex_expect False False [start_lookup (inlineRef ''arg'' ex_event)] \<lparr>rs_outbox = [], rs_reads = 0\<rparr>, VerifyOk)"
  by code_simp

theorem verify_sound_witness:
  "\<exists>reps. runVerify ex_check_env ex_lookup_env (ex_resolver True) ex_expect False False [inlineRef ''arg'' ex_event] = (reps, VerifyOk) \<and> vr_Event (reps ! 0) = Some ex_event"
  using verify_sound [OF ex_verify, of 0] ex_verify by (fastforce simp: inlineRef_def blank_ref_def)

end
