(* ===== verification/Groups_Tree.thy ===== *)
theory Groups_Tree
  imports Nostr "HOL-Library.AList" "HOL-Library.List_Lexorder" "HOL-Library.Char_ord"
begin

text \<open>
  The hierarchy of a relay's groups (\<open>cli/groups/tree.go\<close>), assembled from the parents that the groups name, and its printing. Go ranges
  over the map of nodes in any order; the lists it fills are sorted after, so the order of the model's association list stands for every order.
\<close>

section \<open>The tree\<close>

record groupSummary =
  gp_ID :: string
  gp_Name :: string
  gp_About :: string
  gp_Private :: bool
  gp_Closed :: bool
  gp_Parent :: string
  gp_Children :: "string list"

type_synonym group_nodes = "(string \<times> groupSummary) list"

abbreviation KindGroupMetadata :: int where "KindGroupMetadata \<equiv> 39000"

text \<open>\<open>parse\<close> is \<open>nip29.ParseGroupMetadata\<close>, with no children.\<close>

fun collect_nodes :: "(event \<Rightarrow> groupSummary option) \<Rightarrow> event list \<Rightarrow> group_nodes \<Rightarrow> group_nodes" where
  "collect_nodes parse [] nodes = nodes"
| "collect_nodes parse (ev # evs) nodes =
     (if ev_Kind ev \<noteq> KindGroupMetadata then collect_nodes parse evs nodes
      else (case parse ev of
          None \<Rightarrow> collect_nodes parse evs nodes
        | Some meta \<Rightarrow> collect_nodes parse evs (AList.update (gp_ID meta) (meta\<lparr>gp_Children := []\<rparr>) nodes)))"

definition parent_in :: "group_nodes \<Rightarrow> groupSummary \<Rightarrow> string option" where
  "parent_in nodes node = (if gp_Parent node = [] \<or> map_of nodes (gp_Parent node) = None then None else Some (gp_Parent node))"

definition link_node :: "string \<times> groupSummary \<Rightarrow> string list \<times> group_nodes \<Rightarrow> string list \<times> group_nodes" where
  "link_node x s = (case x of (i, node) \<Rightarrow> case s of (roots, nodes) \<Rightarrow>
     if gp_Parent node = [] then (roots @ [i], nodes)
     else (case map_of nodes (gp_Parent node) of
         None \<Rightarrow> (roots @ [i], nodes)
       | Some parent \<Rightarrow> (roots, AList.update (gp_Parent node) (parent\<lparr>gp_Children := gp_Children parent @ [i]\<rparr>) nodes)))"

definition buildTree :: "(event \<Rightarrow> groupSummary option) \<Rightarrow> event list \<Rightarrow> string list \<times> group_nodes" where
  "buildTree parse events =
     (let nodes = collect_nodes parse events []; (roots, linked) = fold link_node nodes ([], nodes)
      in (sort roots, map (\<lambda>(i, n). (i, n\<lparr>gp_Children := sort (gp_Children n)\<rparr>)) linked))"

text \<open>\<open>printTreeNode\<close>: the ids that are printed and their indentation; \<open>None\<close> when the fuel runs out.\<close>

fun printTreeNode :: "nat \<Rightarrow> group_nodes \<Rightarrow> string \<Rightarrow> nat \<Rightarrow> (string \<times> nat) list option" where
  "printTreeNode 0 nodes i depth = None"
| "printTreeNode (Suc f) nodes i depth = (case map_of nodes i of
     None \<Rightarrow> Some []
   | Some node \<Rightarrow> (case those (map (\<lambda>c. printTreeNode f nodes c (depth + 1)) (gp_Children node)) of
        None \<Rightarrow> None
      | Some outs \<Rightarrow> Some ((i, depth) # concat outs)))"

definition printTree :: "nat \<Rightarrow> string list \<times> group_nodes \<Rightarrow> (string \<times> nat) list option" where
  "printTree f tree = map_option concat (those (map (\<lambda>i. printTreeNode f (snd tree) i 0) (fst tree)))"

section \<open>Linking\<close>

lemma collect_distinct: "distinct (map fst nodes) \<Longrightarrow> distinct (map fst (collect_nodes parse evs nodes))"
  by (induction parse evs nodes rule: collect_nodes.induct) (auto simp: distinct_update split: option.splits)

lemma collect_childless: "(\<forall>i n. map_of nodes i = Some n \<longrightarrow> gp_Children n = []) \<Longrightarrow> map_of (collect_nodes parse evs nodes) i = Some n \<Longrightarrow> gp_Children n = []"
  by (induction parse evs nodes rule: collect_nodes.induct) (auto simp: update_conv' split: if_splits option.splits)

text \<open>The node as linked so far: its children are those of the nodes seen that name it.\<close>

definition linked_with :: "group_nodes \<Rightarrow> group_nodes \<Rightarrow> string list \<times> group_nodes \<Rightarrow> bool" where
  "linked_with base xs s \<longleftrightarrow> fst s = map fst (filter (\<lambda>(i, n). parent_in base n = None) xs) \<and> distinct (map fst (snd s))
     \<and> map_of (snd s) = (\<lambda>i. map_option (\<lambda>n. n\<lparr>gp_Children := map fst (filter (\<lambda>(j, m). parent_in base m = Some i) xs)\<rparr>) (map_of base i))"

lemma linked_step:
  assumes "linked_with base xs s"
  shows "linked_with base (xs @ [x]) (link_node x s)"
proof -
  obtain i node where x: "x = (i, node)" by (cases x)
  obtain roots nodes where s: "s = (roots, nodes)" by (cases s)
  have m: "map_of nodes = (\<lambda>i. map_option (\<lambda>n. n\<lparr>gp_Children := map fst (filter (\<lambda>(j, m). parent_in base m = Some i) xs)\<rparr>) (map_of base i))"
    using assms by (simp add: linked_with_def s)
  show ?thesis
  proof (cases "parent_in base node")
    case None
    then have "link_node x s = (roots @ [i], nodes)" by (auto simp: link_node_def x s parent_in_def m split: if_splits option.splits)
    then show ?thesis using assms None by (simp add: linked_with_def s x)
  next
    case (Some p)
    then have p: "p = gp_Parent node" "p \<noteq> []" "map_of base p \<noteq> None" by (auto simp: parent_in_def split: if_splits)
    then obtain b where b: "map_of base p = Some b" by blast
    let ?ch = "map fst (filter (\<lambda>(j, m). parent_in base m = Some p) xs)"
    have "map_of nodes p = Some (b\<lparr>gp_Children := ?ch\<rparr>)" by (simp add: m b)
    then have l: "link_node x s = (roots, AList.update p (b\<lparr>gp_Children := ?ch @ [i]\<rparr>) nodes)" using p by (simp add: link_node_def x s)
    have "map_of (AList.update p (b\<lparr>gp_Children := ?ch @ [i]\<rparr>) nodes)
        = (\<lambda>q. map_option (\<lambda>n. n\<lparr>gp_Children := map fst (filter (\<lambda>(j, m). parent_in base m = Some q) (xs @ [x]))\<rparr>) (map_of base q))"
      by (rule ext) (auto simp: update_conv' m b x Some)
    then show ?thesis using assms Some unfolding l by (simp add: linked_with_def s x distinct_update)
  qed
qed

lemma linked_all: "linked_with base xs s \<Longrightarrow> linked_with base (xs @ ys) (fold link_node ys s)"
proof (induction ys arbitrary: xs s)
  case (Cons y ys)
  from Cons.IH [OF linked_step [OF Cons.prems]] show ?case by simp
qed simp

text \<open>What is built: \<open>par\<close> is the parent of a group among those seen.\<close>

definition par :: "group_nodes \<Rightarrow> string \<Rightarrow> string option" where
  "par nodes i = Option.bind (map_of nodes i) (parent_in nodes)"

lemma buildTree_spec:
  fixes parse :: "event \<Rightarrow> groupSummary option" and events :: "event list"
  defines "nodes \<equiv> collect_nodes parse events []"
  shows "set (fst (buildTree parse events)) = {i. map_of nodes i \<noteq> None \<and> par nodes i = None}"
    "map_of (snd (buildTree parse events)) i = None \<longleftrightarrow> map_of nodes i = None"
    "map_of (snd (buildTree parse events)) i = Some n \<Longrightarrow> set (gp_Children n) = {j. par nodes j = Some i}"
proof -
  have d: "distinct (map fst nodes)" unfolding nodes_def by (rule collect_distinct) simp
  have "gp_Children n = []" if "map_of nodes i = Some n" for i n using collect_childless [of "[]" parse events i n] that by (simp add: nodes_def)
  then have "map_option (\<lambda>n. n\<lparr>gp_Children := []\<rparr>) (map_of nodes i) = map_of nodes i" for i by (cases "map_of nodes i") simp_all
  then have "linked_with nodes [] ([], nodes)" using d by (simp add: linked_with_def)
  then have l: "linked_with nodes nodes (fold link_node nodes ([], nodes))" using linked_all by fastforce
  obtain roots linked where f: "fold link_node nodes ([], nodes) = (roots, linked)" by (rule prod.exhaust)
  have t: "buildTree parse events = (sort roots, map (\<lambda>(i, n). (i, n\<lparr>gp_Children := sort (gp_Children n)\<rparr>)) linked)"
    by (simp add: buildTree_def Let_def nodes_def [symmetric] f)
  have mem: "(i, n) \<in> set nodes \<longleftrightarrow> map_of nodes i = Some n" for i n using d by simp
  have r: "roots = map fst (filter (\<lambda>(i, n). parent_in nodes n = None) nodes)" using l by (simp add: linked_with_def f)
  have m: "map_of linked i = map_option (\<lambda>n. n\<lparr>gp_Children := map fst (filter (\<lambda>(j, m). parent_in nodes m = Some i) nodes)\<rparr>) (map_of nodes i)" for i
    using l by (simp add: linked_with_def f)
  have m2: "map_of (snd (buildTree parse events)) i = map_option (\<lambda>n. n\<lparr>gp_Children := sort (gp_Children n)\<rparr>) (map_of linked i)" for i
    unfolding t by (simp add: map_of_map)
  have "set roots = {i. map_of nodes i \<noteq> None \<and> par nodes i = None}" unfolding r par_def by (force simp: mem image_iff)
  then show "set (fst (buildTree parse events)) = {i. map_of nodes i \<noteq> None \<and> par nodes i = None}" unfolding t by simp
  show "map_of (snd (buildTree parse events)) i = None \<longleftrightarrow> map_of nodes i = None" by (simp add: m2 m)
  show "map_of (snd (buildTree parse events)) i = Some n \<Longrightarrow> set (gp_Children n) = {j. par nodes j = Some i}"
  proof -
    assume "map_of (snd (buildTree parse events)) i = Some n"
    then obtain z where "n = z\<lparr>gp_Children := sort (map fst (filter (\<lambda>(j, m). parent_in nodes m = Some i) nodes))\<rparr>" by (auto simp: m2 m)
    then have "set (gp_Children n) = fst ` set (filter (\<lambda>(j, m). parent_in nodes m = Some i) nodes)" by simp
    also have "\<dots> = {j. par nodes j = Some i}" by (auto simp: par_def mem bind_eq_Some_conv image_iff)
    finally show ?thesis .
  qed
qed

section \<open>Levels\<close>

text \<open>A group at level \<open>k\<close>: \<open>k\<close> parents lie above it, and the last of them has none.\<close>

inductive level :: "group_nodes \<Rightarrow> string \<Rightarrow> nat \<Rightarrow> bool" for nodes where
  level_root: "map_of nodes i \<noteq> None \<Longrightarrow> par nodes i = None \<Longrightarrow> level nodes i 0"
| level_child: "par nodes i = Some p \<Longrightarrow> level nodes p k \<Longrightarrow> level nodes i (Suc k)"

inductive_cases level_SucE: "level nodes i (Suc k)"
inductive_cases level_0E: "level nodes i 0"

lemma par_in: "par nodes i = Some p \<Longrightarrow> map_of nodes i \<noteq> None \<and> map_of nodes p \<noteq> None"
  by (auto simp: par_def parent_in_def bind_eq_Some_conv split: if_splits)

lemma level_in: "level nodes i k \<Longrightarrow> map_of nodes i \<noteq> None"
  by (induction rule: level.induct) (use par_in in blast)+

lemma level_unique: "level nodes i k \<Longrightarrow> level nodes i k' \<Longrightarrow> k = k'"
proof (induction arbitrary: k' rule: level.induct)
  case (level_root i)
  then show ?case by (auto elim: level.cases)
next
  case (level_child i p k)
  from level_child.prems level_child.hyps(1) obtain m where "k' = Suc m" "level nodes p m" by (auto elim: level.cases)
  then show ?case using level_child.IH by simp
qed

lemma level_above: "level nodes i k \<Longrightarrow> j \<le> k \<Longrightarrow> \<exists>a. level nodes a j"
proof (induction arbitrary: j rule: level.induct)
  case (level_root i)
  then show ?case using level.level_root by blast
next
  case (level_child i p k)
  then have "level nodes i (Suc k)" by (intro level.level_child)
  then show ?case using level_child.IH level_child.prems by (cases "j = Suc k") auto
qed

text \<open>There are no more levels than groups.\<close>

lemma level_bound:
  assumes "level nodes i k"
  shows "k < length nodes"
proof -
  obtain f where f: "\<forall>j \<le> k. level nodes (f j) j" using level_above [OF assms] by metis
  have "inj_on f {0..k}" using f level_unique by (intro inj_onI) (metis atLeastAtMost_iff)
  moreover have "f ` {0..k} \<subseteq> fst ` set nodes" using f level_in by (fastforce simp: map_of_eq_None_iff)
  ultimately have "card {0..k} \<le> card (fst ` set nodes)" using card_inj_on_le by blast
  also have "\<dots> \<le> length nodes" by (metis card_length image_set length_map)
  finally show ?thesis by simp
qed

section \<open>Printing\<close>

lemma those_Some: "those (map f xs) = Some ys \<longleftrightarrow> length ys = length xs \<and> (\<forall>i < length xs. f (xs ! i) = Some (ys ! i))"
proof (induction xs arbitrary: ys)
  case (Cons x xs)
  show ?case
  proof (cases ys)
    case Nil
    then show ?thesis by (auto split: option.splits)
  next
    case (Cons y zs)
    then show ?thesis using Cons.IH by (auto simp: less_Suc_eq_0_disj split: option.splits)
  qed
qed auto

lemma those_ex: "(\<forall>x \<in> set xs. f x \<noteq> None) \<Longrightarrow> those (map f xs) = Some (map (\<lambda>x. the (f x)) xs)"
  by (auto simp: those_Some)

text \<open>Enough fuel for a group at level \<open>k\<close> is the number of groups less \<open>k\<close>; what is printed are its descendants, each at its level.\<close>

inductive under :: "group_nodes \<Rightarrow> string \<Rightarrow> string \<Rightarrow> bool" for nodes i where
  under_self: "under nodes i i"
| under_child: "par nodes j = Some p \<Longrightarrow> under nodes i p \<Longrightarrow> under nodes i j"

lemma under_step: "par nodes c = Some i \<Longrightarrow> under nodes c j \<Longrightarrow> under nodes i j"
  by (rotate_tac, induction rule: under.induct) (auto intro: under.intros)

lemma under_split: "under nodes i j \<Longrightarrow> j = i \<or> (\<exists>c. par nodes c = Some i \<and> under nodes c j)"
  by (induction rule: under.induct) (auto intro: under.intros)

lemma print_exact:
  assumes tree: "\<And>i. map_of T i = None \<longleftrightarrow> map_of nodes i = None" "\<And>i n. map_of T i = Some n \<Longrightarrow> set (gp_Children n) = {j. par nodes j = Some i}"
    and "level nodes i k" "length nodes \<le> f + k"
  shows "\<exists>out. printTreeNode f T i k = Some out \<and> set out = {(j, d). under nodes i j \<and> level nodes j d}"
  using assms(3,4)
proof (induction f arbitrary: i k)
  case 0
  then show ?case using level_bound by fastforce
next
  case (Suc f)
  obtain n where n: "map_of T i = Some n" using tree(1) [of i] level_in [OF Suc.prems(1)] by auto
  have ch: "\<exists>out. printTreeNode f T c (k + 1) = Some out \<and> set out = {(j, d). under nodes c j \<and> level nodes j d}" if "c \<in> set (gp_Children n)" for c
    using Suc.IH [OF level_child [OF _ Suc.prems(1)], of c] Suc.prems(2) that tree(2) [OF n] by simp
  let ?outs = "map (\<lambda>c. the (printTreeNode f T c (k + 1))) (gp_Children n)"
  have "those (map (\<lambda>c. printTreeNode f T c (k + 1)) (gp_Children n)) = Some ?outs" using ch by (intro those_ex) auto
  then have p: "printTreeNode (Suc f) T i k = Some ((i, k) # concat ?outs)" by (simp add: n)
  have "set (concat ?outs) = (\<Union>c \<in> set (gp_Children n). {(j, d). under nodes c j \<and> level nodes j d})" using ch by force
  also have "\<dots> = {(j, d). (\<exists>c. par nodes c = Some i \<and> under nodes c j) \<and> level nodes j d}" using tree(2) [OF n] by auto
  finally have "set ((i, k) # concat ?outs) = insert (i, k) {(j, d). (\<exists>c. par nodes c = Some i \<and> under nodes c j) \<and> level nodes j d}" by simp
  moreover have "under nodes i j \<longleftrightarrow> j = i \<or> (\<exists>c. par nodes c = Some i \<and> under nodes c j)" for j using under_split under_step under_self by blast
  moreover have "level nodes i d \<longleftrightarrow> d = k" for d using level_unique [OF Suc.prems(1)] Suc.prems(1) by blast
  ultimately have "set ((i, k) # concat ?outs) = {(j, d). under nodes i j \<and> level nodes j d}" by auto
  then show ?case using p by blast
qed

lemma level_under: "level nodes j d \<Longrightarrow> \<exists>i. map_of nodes i \<noteq> None \<and> par nodes i = None \<and> under nodes i j"
  by (induction rule: level.induct) (auto intro: under.intros)

text \<open>The printing ends, and it shows every group whose parents lead to a root, indented by its level, and no other group.\<close>

lemma tree_shows_rooted:
  fixes parse :: "event \<Rightarrow> groupSummary option" and events :: "event list"
  defines "nodes \<equiv> collect_nodes parse events []"
  shows "\<exists>out. printTree (length nodes) (buildTree parse events) = Some out \<and> set out = {(j, d). level nodes j d}"
proof -
  let ?T = "buildTree parse events"
  note spec = buildTree_spec [of parse events, folded nodes_def]
  have r: "\<exists>out. printTreeNode (length nodes) (snd ?T) i 0 = Some out \<and> set out = {(j, d). under nodes i j \<and> level nodes j d}" if "i \<in> set (fst ?T)" for i
  proof -
    have "level nodes i 0" using that unfolding spec(1) by (intro level_root) simp_all
    from print_exact [OF spec(2,3) this, of "length nodes"] show ?thesis by simp
  qed
  let ?outs = "map (\<lambda>i. the (printTreeNode (length nodes) (snd ?T) i 0)) (fst ?T)"
  have "those (map (\<lambda>i. printTreeNode (length nodes) (snd ?T) i 0) (fst ?T)) = Some ?outs" using r by (intro those_ex) auto
  then have p: "printTree (length nodes) ?T = Some (concat ?outs)" by (simp add: printTree_def)
  have "set (concat ?outs) = (\<Union>i \<in> set (fst ?T). {(j, d). under nodes i j \<and> level nodes j d})" using r by force
  also have "\<dots> = {(j, d). level nodes j d}"
  proof -
    have "\<exists>i \<in> set (fst ?T). under nodes i j" if "level nodes j d" for j d using level_under [OF that] unfolding spec(1) by blast
    then show ?thesis by blast
  qed
  finally show ?thesis using p by blast
qed

text \<open>So groups that name each other as parents are left out of what is printed, with all that lies below them.\<close>

lemma cycle_not_shown:
  assumes "par nodes a = Some b" "par nodes b = Some a"
  shows "\<not> level nodes a k"
proof
  assume a: "level nodes a k"
  then obtain m where m: "level nodes b m" "k = Suc m" by (rule level.cases) (use assms(1) in simp_all)
  have "level nodes b (Suc k)" by (rule level_child [OF assms(2) a])
  from level_unique [OF m(1) this] m(2) show False by simp
qed

end
